(* ===== verification/Prelude.thy ===== *)
theory Prelude
  imports Main "HOL-Library.List_Lexorder" "HOL-Library.Product_Lexorder"
    "HOL-Library.Sublist" "HOL-Library.Multiset"
begin

text \<open>
  Shared vocabulary of the development.

  \<^item> \<open>u64\<close>: Rust's \<open>u64\<close> and \<open>usize\<close> (on the 64-bit targets the program is built for) as \<open>nat\<close>;
    the operations whose result depends on the width (\<open>saturating_add\<close>, \<open>checked_add\<close>,
    \<open>saturating_mul\<close>, \<open>checked_mul\<close>, \<open>checked_sub\<close>) are written out with the bound \<open>u64_max\<close>.
  \<^item> \<open>rstring\<close>: a Rust \<open>String\<close> as the list of its Unicode scalar values, so that
    \<open>chars().count()\<close> is \<open>length\<close>, \<open>chars().take(n)\<close> is \<open>take n\<close> and the derived order of
    \<open>String\<close> (bytewise on UTF-8) is the lexicographic order of the code points. \<open>lit\<close> turns
    an ASCII literal of the source into an \<open>rstring\<close>; literals with Chinese text are lists of
    code points.
  \<^item> \<open>result\<close>: Rust's \<open>Result\<close>; \<open>validate_all\<close> is a sequence of checks each ended by the
    operator \<open>?\<close>.
  \<^item> standard-library routines the sources call: decimal printing, substring search,
    splitting, trimming, ASCII case, joining.
  \<^item> the ordering interface (locale \<open>ranked\<close>) and the single-pass interface (locale
    \<open>ledger_pass\<close>) that the planning components are interpreted in.
\<close>

section \<open>Simplification sets\<close>

named_theorems u64_simps \<open>definitions of the width-dependent operations\<close>

section \<open>Unsigned 64-bit arithmetic\<close>

type_synonym u64 = nat

definition u64_max :: u64 where
  "u64_max = 18446744073709551615"

definition saturating_add :: "u64 \<Rightarrow> u64 \<Rightarrow> u64" where
  "saturating_add a b = min (a + b) u64_max"

definition saturating_mul :: "u64 \<Rightarrow> u64 \<Rightarrow> u64" where
  "saturating_mul a b = min (a * b) u64_max"

definition saturating_sub :: "u64 \<Rightarrow> u64 \<Rightarrow> u64" where
  "saturating_sub a b = a - b"

definition checked_add :: "u64 \<Rightarrow> u64 \<Rightarrow> u64 option" where
  "checked_add a b = (if a + b \<le> u64_max then Some (a + b) else None)"

definition checked_sub :: "u64 \<Rightarrow> u64 \<Rightarrow> u64 option" where
  "checked_sub a b = (if b \<le> a then Some (a - b) else None)"

definition checked_mul :: "u64 \<Rightarrow> u64 \<Rightarrow> u64 option" where
  "checked_mul a b = (if a * b \<le> u64_max then Some (a * b) else None)"

lemmas [u64_simps] =
  saturating_add_def saturating_mul_def saturating_sub_def
  checked_add_def checked_sub_def checked_mul_def

lemma u64_max_alt: "u64_max = 2 ^ 64 - 1"
  by (simp add: u64_max_def)

lemma saturating_add_le_iff:
  "m < u64_max \<Longrightarrow> saturating_add a b \<le> m \<longleftrightarrow> a + b \<le> m"
  by (auto simp: saturating_add_def)

lemma saturating_add_eq: "a + b \<le> u64_max \<Longrightarrow> saturating_add a b = a + b"
  by (simp add: saturating_add_def)

lemma saturating_add_le_sum: "saturating_add a b \<le> a + b"
  by (simp add: saturating_add_def)

lemma checked_add_Some [simp]:
  "checked_add a b = Some c \<longleftrightarrow> c = a + b \<and> a + b \<le> u64_max"
  by (auto simp: checked_add_def)

lemma checked_sub_Some [simp]:
  "checked_sub a b = Some c \<longleftrightarrow> b \<le> a \<and> c = a - b"
  by (auto simp: checked_sub_def)

section \<open>Strings\<close>

type_synonym rchar = nat
type_synonym rstring = "rchar list"

definition lit :: "string \<Rightarrow> rstring" where
  "lit s = map of_char s"

lemma length_lit [simp]: "length (lit s) = length s"
  by (simp add: lit_def)

lemma lit_eq_iff [simp]: "lit s = lit t \<longleftrightarrow> s = t"
  by (simp add: lit_def inj_map_eq_map inj_on_def)

lemma lit_Nil_iff [simp]: "lit s = [] \<longleftrightarrow> s = []" "[] = lit s \<longleftrightarrow> s = []"
  by (auto simp: lit_def)

text \<open>The newline character and the backslash, as scalar values.\<close>

abbreviation nl :: rchar where "nl \<equiv> 10"
abbreviation backslash :: rchar where "backslash \<equiv> 92"
abbreviation slash :: rchar where "slash \<equiv> 47"

text \<open>Decimal printing of an unsigned integer (\<open>u64::to_string\<close>).\<close>

fun dec :: "nat \<Rightarrow> rstring" where
  "dec n = (if n < 10 then [48 + n] else dec (n div 10) @ [48 + n mod 10])"

declare dec.simps [simp del]

lemma dec_nonempty [simp]: "dec n \<noteq> []"
  by (subst dec.simps) simp

lemma length_dec_le: "n < 10 ^ k \<Longrightarrow> 0 < k \<Longrightarrow> length (dec n) \<le> k"
proof (induction k arbitrary: n)
  case 0
  then show ?case by simp
next
  case (Suc k)
  show ?case
  proof (cases "n < 10")
    case True
    then show ?thesis by (subst dec.simps) simp
  next
    case False
    with Suc.prems have "n div 10 < 10 ^ k" and "0 < k"
      by (auto simp: div_less_iff_less_mult mult.commute intro: Nat.gr0I)
    then have "length (dec (n div 10)) \<le> k" by (rule Suc.IH)
    with False show ?thesis by (subst dec.simps) simp
  qed
qed

lemma length_dec_u64: "n \<le> u64_max \<Longrightarrow> length (dec n) \<le> 20"
  by (rule length_dec_le) (simp_all add: u64_max_def)

lemma length_dec_mono: "m \<le> n \<Longrightarrow> length (dec m) \<le> length (dec n)"
proof (induction n arbitrary: m rule: dec.induct)
  case (1 n)
  show ?case
  proof (cases "n < 10")
    case True
    with "1.prems" show ?thesis by (simp add: dec.simps)
  next
    case False
    have "length (dec (m div 10)) \<le> length (dec (n div 10))"
      using "1.IH" [OF False, of "m div 10"] "1.prems" by (simp add: div_le_mono)
    with False show ?thesis by (simp add: dec.simps [of n] dec.simps [of m])
  qed
qed

text \<open>Substring search, \<open>str::contains\<close>.\<close>

fun contains :: "rstring \<Rightarrow> rstring \<Rightarrow> bool" where
  "contains [] p = (p = [])"
| "contains (c # s) p = (prefix p (c # s) \<or> contains s p)"

lemma contains_sublist: "contains s p \<longleftrightarrow> sublist p s"
  by (induction s) (auto simp: sublist_Cons_right)

text \<open>\<open>str::split\<close> on a set of separator characters: a string with \<open>n\<close> separators has
  \<open>n + 1\<close> components, some possibly empty.\<close>

fun split_on :: "(rchar \<Rightarrow> bool) \<Rightarrow> rstring \<Rightarrow> rstring list" where
  "split_on p [] = [[]]"
| "split_on p (c # s) =
     (if p c then [] # split_on p s
      else (case split_on p s of [] \<Rightarrow> [[c]] | w # ws \<Rightarrow> (c # w) # ws))"

text \<open>\<open>str::trim_matches(c)\<close>, \<open>trim_end\<close>.\<close>

definition trim_end_by :: "(rchar \<Rightarrow> bool) \<Rightarrow> rstring \<Rightarrow> rstring" where
  "trim_end_by p s = rev (dropWhile p (rev s))"

definition trim_by :: "(rchar \<Rightarrow> bool) \<Rightarrow> rstring \<Rightarrow> rstring" where
  "trim_by p s = trim_end_by p (dropWhile p s)"

lemma length_trim_end_by: "length (trim_end_by p s) \<le> length s"
  using length_dropWhile_le [of p "rev s"] by (simp add: trim_end_by_def)

lemma trim_end_by_id: "s = [] \<or> \<not> p (last s) \<Longrightarrow> trim_end_by p s = s"
  by (cases s rule: rev_cases) (auto simp: trim_end_by_def)

lemma trim_end_by_append:
  "trim_end_by p t \<noteq> [] \<Longrightarrow> trim_end_by p (s @ t) = s @ trim_end_by p t"
  by (auto simp: trim_end_by_def dropWhile_append dropWhile_eq_Nil_conv)

text \<open>Unicode \<open>White_Space\<close>, the predicate behind \<open>char::is_whitespace\<close>, which \<open>trim\<close> and
  \<open>trim_end\<close> use.\<close>

definition is_whitespace :: "rchar \<Rightarrow> bool" where
  "is_whitespace c \<longleftrightarrow> 9 \<le> c \<and> c \<le> 13 \<or> c = 0x20 \<or> c = 0x85 \<or> c = 0xA0 \<or> c = 0x1680
     \<or> 0x2000 \<le> c \<and> c \<le> 0x200A \<or> c = 0x2028 \<or> c = 0x2029 \<or> c = 0x202F
     \<or> c = 0x205F \<or> c = 0x3000"

definition trim_end :: "rstring \<Rightarrow> rstring" where
  "trim_end s = trim_end_by is_whitespace s"

definition trim :: "rstring \<Rightarrow> rstring" where
  "trim s = trim_by is_whitespace s"

text \<open>\<open>slice::join\<close>.\<close>

fun join :: "rstring \<Rightarrow> rstring list \<Rightarrow> rstring" where
  "join sep [] = []"
| "join sep [s] = s"
| "join sep (s # t # ss) = s @ sep @ join sep (t # ss)"

lemma length_join:
  "length (join sep ss) = sum_list (map length ss) + (length ss - 1) * length sep"
  by (induction sep ss rule: join.induct) auto

lemma join_snoc: "ss \<noteq> [] \<Longrightarrow> join sep (ss @ [s]) = join sep ss @ sep @ s"
  by (induction sep ss rule: join.induct) auto

text \<open>ASCII case and digits.\<close>

definition is_ascii_upper :: "rchar \<Rightarrow> bool" where
  "is_ascii_upper c \<longleftrightarrow> 65 \<le> c \<and> c \<le> 90"

definition is_ascii_lower :: "rchar \<Rightarrow> bool" where
  "is_ascii_lower c \<longleftrightarrow> 97 \<le> c \<and> c \<le> 122"

definition is_ascii_digit :: "rchar \<Rightarrow> bool" where
  "is_ascii_digit c \<longleftrightarrow> 48 \<le> c \<and> c \<le> 57"

definition is_ascii_alphabetic :: "rchar \<Rightarrow> bool" where
  "is_ascii_alphabetic c \<longleftrightarrow> is_ascii_upper c \<or> is_ascii_lower c"

definition is_ascii_hexdigit :: "rchar \<Rightarrow> bool" where
  "is_ascii_hexdigit c \<longleftrightarrow> is_ascii_digit c \<or> 65 \<le> c \<and> c \<le> 70 \<or> 97 \<le> c \<and> c \<le> 102"

definition ascii_to_lower :: "rchar \<Rightarrow> rchar" where
  "ascii_to_lower c = (if is_ascii_upper c then c + 32 else c)"

text \<open>
  \<open>str::to_lowercase\<close>. On ASCII text it is the ASCII mapping. On other text it is given by
  the Unicode character database, which is an argument (\<open>uni\<close>) of every definition that
  lowers a path; all theorems hold for every such table.
\<close>

definition to_lowercase :: "(rstring \<Rightarrow> rstring) \<Rightarrow> rstring \<Rightarrow> rstring" where
  "to_lowercase uni s = (if \<forall>c \<in> set s. c < 128 then map ascii_to_lower s else uni s)"

section \<open>Results\<close>

datatype ('a, 'e) result = Ok (ok_value: 'a) | Err (err_value: 'e)

fun and_then :: "('a, 'e) result \<Rightarrow> ('a \<Rightarrow> ('b, 'e) result) \<Rightarrow> ('b, 'e) result" where
  "and_then (Ok x) f = f x"
| "and_then (Err e) f = Err e"

fun map_err :: "('e \<Rightarrow> 'd) \<Rightarrow> ('a, 'e) result \<Rightarrow> ('a, 'd) result" where
  "map_err f (Ok x) = Ok x"
| "map_err f (Err e) = Err (f e)"

fun is_ok :: "('a, 'e) result \<Rightarrow> bool" where
  "is_ok (Ok _) = True"
| "is_ok (Err _) = False"

definition ok_or :: "'e \<Rightarrow> 'a option \<Rightarrow> ('a, 'e) result" where
  "ok_or e v = (case v of None \<Rightarrow> Err e | Some x \<Rightarrow> Ok x)"

lemma and_then_Ok [simp]: "and_then r f = Ok y \<longleftrightarrow> (\<exists>x. r = Ok x \<and> f x = Ok y)"
  by (cases r) auto

lemma map_err_Ok [simp]: "map_err f r = Ok x \<longleftrightarrow> r = Ok x"
  by (cases r) auto

lemma ok_or_Ok [simp]: "ok_or e v = Ok x \<longleftrightarrow> v = Some x"
  by (auto simp: ok_or_def split: option.splits)

lemma is_ok_iff: "is_ok r \<longleftrightarrow> (\<exists>x. r = Ok x)"
  by (cases r) auto

text \<open>A validator is a result with no value.\<close>

type_synonym check = "(unit, rstring) result"

definition require :: "bool \<Rightarrow> rstring \<Rightarrow> check" where
  "require c message = (if c then Ok () else Err message)"

fun validate_all :: "check list \<Rightarrow> check" where
  "validate_all [] = Ok ()"
| "validate_all (r # rs) = (case r of Ok _ \<Rightarrow> validate_all rs | Err e \<Rightarrow> Err e)"

lemma require_Ok [simp]: "require c m = Ok u \<longleftrightarrow> c"
  by (simp add: require_def)

lemma validate_all_Cons [simp]:
  "validate_all (r # rs) = Ok u \<longleftrightarrow> r = Ok () \<and> validate_all rs = Ok u"
  by (cases r) auto

declare validate_all.simps(2) [simp del]

lemma validate_all_Ok: "validate_all rs = Ok u \<longleftrightarrow> (\<forall>r \<in> set rs. r = Ok ())"
  by (induction rs) auto

lemma validate_all_append [simp]:
  "validate_all (rs @ ts) = Ok u \<longleftrightarrow> validate_all rs = Ok u \<and> validate_all ts = Ok u"
  by (auto simp: validate_all_Ok)

lemma validate_all_skip: "r = Ok () \<Longrightarrow> validate_all (r # rs) = validate_all rs"
  by (simp add: validate_all.simps(2))

lemma validate_all_single: "validate_all [r] = r"
  by (cases r) (simp_all add: validate_all.simps(2))

lemma validate_all_map [simp]:
  "validate_all (map f xs) = Ok u \<longleftrightarrow> (\<forall>x \<in> set xs. f x = Ok ())"
  by (auto simp: validate_all_Ok)

lemma validate_all_concat_map [simp]:
  "validate_all (concat (map f xs)) = Ok u \<longleftrightarrow> (\<forall>x \<in> set xs. validate_all (f x) = Ok ())"
  by (auto simp: validate_all_Ok)

text \<open>An optional field is checked when it is present.\<close>

definition check_some :: "'a option \<Rightarrow> ('a \<Rightarrow> check) \<Rightarrow> check" where
  "check_some v f = (case v of None \<Rightarrow> Ok () | Some x \<Rightarrow> f x)"

lemma check_some_Ok [simp]: "check_some v f = Ok u \<longleftrightarrow> (\<forall>x. v = Some x \<longrightarrow> f x = Ok u)"
  by (auto simp: check_some_def split: option.splits)

text \<open>A loop that pushes the result of a fallible step and stops at the first error.\<close>

fun collect_results :: "('a \<Rightarrow> ('b, 'e) result) \<Rightarrow> 'a list \<Rightarrow> ('b list, 'e) result" where
  "collect_results f [] = Ok []"
| "collect_results f (x # xs) =
     and_then (f x) (\<lambda>y. and_then (collect_results f xs) (\<lambda>ys. Ok (y # ys)))"

lemma collect_results_Ok:
  "collect_results f xs = Ok ys \<longleftrightarrow> list_all2 (\<lambda>x y. f x = Ok y) xs ys"
  by (induction xs arbitrary: ys) (auto simp: list_all2_Cons1)

section \<open>Ordering by a key\<close>

text \<open>
  Rust's \<open>sort_by_key\<close> is stable, as \<open>sort_key\<close> is. What the planning code relies on is
  that a key which identifies the item makes the order canonical: sorting depends on the
  items only, not on the order in which they were discovered. This is the contract of the
  component that produces keys.
\<close>

lemma sort_key_unique:
  assumes "mset xs = mset ys" and "inj_on f (set xs)"
  shows "sort_key f xs = sort_key f ys"
proof (rule map_inj_on)
  have "set ys = set xs" using assms(1) by (metis set_mset_mset)
  then show "inj_on f (set (sort_key f xs) \<union> set (sort_key f ys))"
    using assms(2) by simp
  have "mset (map f (sort_key f xs)) = mset (map f (sort_key f ys))"
    using assms(1) by simp
  then show "map f (sort_key f xs) = map f (sort_key f ys)"
    by (metis sorted_sort_key properties_for_sort)
qed

lemma sort_key_sorted_id: "sorted (map f xs) \<Longrightarrow> sort_key f xs = xs"
  by (simp add: sort_key_id_if_sorted)

locale ranked =
  fixes rank :: "'a \<Rightarrow> 'k::linorder"
    and ident :: "'a \<Rightarrow> 'i"
  assumes rank_ident: "rank x = rank y \<Longrightarrow> ident x = ident y"
begin

lemma rank_inj_on: "distinct (map ident xs) \<Longrightarrow> inj_on rank (set xs)"
  by (auto simp: inj_on_def distinct_map dest: rank_ident)

lemma sort_canonical:
  assumes "mset xs = mset ys" and "distinct (map ident xs)"
  shows "sort_key rank xs = sort_key rank ys"
  using assms by (intro sort_key_unique rank_inj_on)

lemma sort_strict:
  assumes "distinct (map ident xs)"
  shows "sorted_wrt (<) (map rank (sort_key rank xs))"
proof -
  have "distinct xs" using assms by (simp add: distinct_map)
  then have "distinct (map rank (sort_key rank xs))"
    using rank_inj_on [OF assms] by (simp add: distinct_map)
  then show ?thesis
    using sorted_sort_key [of rank xs] by (simp add: strict_sorted_iff)
qed

end

section \<open>Single passes over a ledger\<close>

text \<open>
  The plans are single passes: each item is decided from the item and the remaining
  quotas, and the quotas are never refilled within the pass. \<open>run_pass\<close> is the loop; the
  locale states what a step promises about a \<open>nat\<close> quota and derives what the whole pass
  keeps.
\<close>

fun run_pass :: "('x \<Rightarrow> 's \<Rightarrow> 'y \<times> 's) \<Rightarrow> 'x list \<Rightarrow> 's \<Rightarrow> 'y list \<times> 's" where
  "run_pass step [] s = ([], s)"
| "run_pass step (x # xs) s =
     (let r = step x s; t = run_pass step xs (snd r) in (fst r # fst t, snd t))"

lemma fst_run_pass_Cons [simp]:
  "fst (run_pass step (x # xs) s) = fst (step x s) # fst (run_pass step xs (snd (step x s)))"
  by (simp add: Let_def)

lemma snd_run_pass_Cons [simp]:
  "snd (run_pass step (x # xs) s) = snd (run_pass step xs (snd (step x s)))"
  by (simp add: Let_def)

declare run_pass.simps(2) [simp del]

lemma fst_run_pass_append:
  "fst (run_pass step (xs @ zs) s) =
     fst (run_pass step xs s) @ fst (run_pass step zs (snd (run_pass step xs s)))"
  by (induction xs arbitrary: s) auto

lemma snd_run_pass_append:
  "snd (run_pass step (xs @ zs) s) = snd (run_pass step zs (snd (run_pass step xs s)))"
  by (induction xs arbitrary: s) auto

lemma run_pass_split:
  "fst (run_pass step xs s) =
     fst (run_pass step (take i xs) s) @
     fst (run_pass step (drop i xs) (snd (run_pass step (take i xs) s)))"
  using fst_run_pass_append [of step "take i xs" "drop i xs" s] by simp

lemma run_pass_length [simp]: "length (fst (run_pass step xs s)) = length xs"
  by (induction xs arbitrary: s) auto

lemma run_pass_nth:
  "i < length xs \<Longrightarrow>
     fst (run_pass step xs s) ! i = fst (step (xs ! i) (snd (run_pass step (take i xs) s)))"
  by (induction xs arbitrary: i s) (auto simp: nth_Cons split: nat.splits)

lemma run_pass_map:
  assumes "\<And>x s. g (fst (step x s)) = f x"
  shows "map g (fst (run_pass step xs s)) = map f xs"
  using assms by (induction xs arbitrary: s) auto

lemma run_pass_zip:
  assumes "(x, y) \<in> set (zip xs (fst (run_pass step xs s)))"
  shows "\<exists>s'. y = fst (step x s')"
  using assms by (induction xs arbitrary: s) auto

lemma run_pass_mem:
  assumes "y \<in> set (fst (run_pass step xs s))"
  shows "\<exists>x \<in> set xs. \<exists>s'. y = fst (step x s')"
  using assms by (induction xs arbitrary: s) auto

lemma run_pass_invariant:
  assumes "\<And>x s. x \<in> set xs \<Longrightarrow> I s \<Longrightarrow> I (snd (step x s)) \<and> P x (fst (step x s))" and "I s"
  shows "I (snd (run_pass step xs s)) \<and> list_all2 P xs (fst (run_pass step xs s))"
  using assms by (induction xs arbitrary: s) auto

lemma run_pass_accumulates:
  fixes total :: "'s \<Rightarrow> nat"
  assumes "\<And>x s. total (snd (step x s)) = total s + gain (fst (step x s))"
  shows "total (snd (run_pass step xs s)) = total s + sum_list (map gain (fst (run_pass step xs s)))"
  by (induction xs arbitrary: s) (auto simp: assms)

lemma run_pass_take:
  "fst (run_pass step (take i xs) s) = take i (fst (run_pass step xs s))"
proof (induction xs arbitrary: i s)
  case (Cons x xs)
  then show ?case by (cases i) auto
qed simp

locale ledger_pass =
  fixes step :: "'x \<Rightarrow> 's \<Rightarrow> 'y \<times> 's"
    and left :: "'s \<Rightarrow> nat"
    and charge :: "'x \<Rightarrow> 'y \<Rightarrow> nat"
  assumes step_charge: "charge x (fst (step x s)) + left (snd (step x s)) = left s"
begin

lemma pass_charge:
  "sum_list (map2 charge xs (fst (run_pass step xs s))) + left (snd (run_pass step xs s)) = left s"
proof (induction xs arbitrary: s)
  case (Cons x xs)
  then show ?case
    using step_charge [of x s] by (simp add: add.assoc)
qed simp

lemma pass_within: "sum_list (map2 charge xs (fst (run_pass step xs s))) \<le> left s"
  using pass_charge [of xs s] by linarith

end

text \<open>The common case: what an item is charged can be read off its outcome.\<close>

locale outcome_ledger =
  fixes step :: "'x \<Rightarrow> 's \<Rightarrow> 'y \<times> 's"
    and left :: "'s \<Rightarrow> nat"
    and cost :: "'y \<Rightarrow> nat"
  assumes step_cost: "cost (fst (step x s)) + left (snd (step x s)) = left s"
begin

sublocale ledger_pass step left "\<lambda>_. cost"
  by unfold_locales (rule step_cost)

lemma cost_charge:
  "sum_list (map cost (fst (run_pass step xs s))) + left (snd (run_pass step xs s)) = left s"
proof -
  have "map2 (\<lambda>_. cost) xs (fst (run_pass step xs s)) = map cost (fst (run_pass step xs s))"
    by (rule nth_equalityI) simp_all
  then show ?thesis using pass_charge [of xs s] by simp
qed

lemma cost_within: "sum_list (map cost (fst (run_pass step xs s))) \<le> left s"
  using cost_charge [of xs s] by linarith

lemma spent_stays_spent:
  assumes "left s = 0" and "y \<in> set (fst (run_pass step xs s))"
  shows "cost y = 0"
  using cost_within [of xs s] assms by simp

end

text \<open>A pass never looks ahead: the outcome for a prefix is the prefix of the outcome.\<close>

lemma run_pass_no_lookahead:
  "take (length xs) (fst (run_pass step (xs @ zs) s)) = fst (run_pass step xs s)"
  by (simp add: fst_run_pass_append)

section \<open>Counting\<close>

lemma sum_list_indicator: "sum_list (map (\<lambda>x. if P x then 1 else 0) xs) = length (filter P xs)"
  by (induction xs) auto

lemma sum_list_mset_cong: "mset xs = mset ys \<Longrightarrow> sum_list (map f xs) = sum_list (map (f :: 'a \<Rightarrow> nat) ys)"
  by (metis mset_map sum_mset_sum_list)

lemma length_filter_mset_cong: "mset xs = mset ys \<Longrightarrow> length (filter P xs) = length (filter P ys)"
  by (metis mset_filter size_mset)

end
