(* ===== verification/Scanner_Contract.thy ===== *)
theory Scanner_Contract
  imports Prelude
begin

text \<open>
  The strict data contract of \<open>src/rust/scanner_contract/src/lib.rs\<close>: the field checks
  (\<open>require_*\<close>), the enumerations, the normalised settings and the audit records with
  their \<open>validate\<close> methods. A validator returns the first failing check, as the chain of
  \<open>?\<close> in the source does; messages are kept. Field names carry a short prefix per struct
  because HOL record fields are global. \<open>Nullable<T>\<close> is an option; a \<open>BTreeMap\<close> is the
  association list in key order.
\<close>

section \<open>Field checks\<close>

definition require_const :: "rstring \<Rightarrow> rstring \<Rightarrow> rstring \<Rightarrow> check" where
  "require_const actual expected field =
     require (actual = expected) (field @ lit '' must equal '' @ expected)"

definition require_non_empty :: "rstring \<Rightarrow> nat \<Rightarrow> rstring \<Rightarrow> check" where
  "require_non_empty value hi field =
     require (1 \<le> length value \<and> length value \<le> hi)
       (field @ lit '' length must be 1..='' @ dec hi)"

definition require_range :: "u64 \<Rightarrow> u64 \<Rightarrow> u64 \<Rightarrow> rstring \<Rightarrow> check" where
  "require_range value lo hi field =
     require (lo \<le> value \<and> value \<le> hi)
       (field @ lit '' must be in '' @ dec lo @ lit ''..='' @ dec hi)"

text \<open>The byte tests of the source look at ASCII bytes only, which are whole characters, so
  they read the same on scalar values.\<close>

definition drive_rooted :: "rstring \<Rightarrow> bool" where
  "drive_rooted value \<longleftrightarrow> 3 \<le> length value \<and> is_ascii_alphabetic (value ! 0)
     \<and> value ! 1 = 58 \<and> (value ! 2 = backslash \<or> value ! 2 = slash)"

definition is_absolute_path :: "rstring \<Rightarrow> bool" where
  "is_absolute_path value \<longleftrightarrow>
     (prefix [slash] value \<or> prefix [backslash, backslash] value \<or> drive_rooted value)
     \<and> 0 \<notin> set value \<and> length value \<le> 32767"

definition require_absolute_path :: "rstring \<Rightarrow> rstring \<Rightarrow> check" where
  "require_absolute_path value field =
     require (is_absolute_path value) (field @ lit '' must be an absolute path'')"

definition require_request_id :: "rstring \<Rightarrow> check" where
  "require_request_id value =
     require (length value = 36
       \<and> (\<forall>i \<in> {8, 13, 18, 23}. value ! i = 45)
       \<and> (\<forall>i \<in> set [0..<length value]. i \<in> {8, 13, 18, 23} \<or> is_ascii_hexdigit (value ! i))
       \<and> 49 \<le> value ! 14 \<and> value ! 14 \<le> 53
       \<and> value ! 19 \<in> {56, 57, 97, 65, 98, 66})
     (lit ''request_id must be an RFC 4122 UUID v1..v5'')"

text \<open>\<open>str::parse::<u32>\<close> on a run of digits.\<close>

definition digits_value :: "rstring \<Rightarrow> nat" where
  "digits_value s = foldl (\<lambda>n c. 10 * n + (c - 48)) 0 s"

lemma digits_value_snoc: "digits_value (s @ [c]) = 10 * digits_value s + (c - 48)"
  by (simp add: digits_value_def)

lemma digits_value_dec [simp]: "digits_value (dec n) = n"
proof (induction n rule: dec.induct)
  case (1 n)
  show ?case
  proof (cases "n < 10")
    case True
    then show ?thesis by (simp add: dec.simps [of n] digits_value_def)
  next
    case False
    with "1.IH" [OF False] show ?thesis by (simp add: dec.simps [of n] digits_value_snoc)
  qed
qed

definition is_leap :: "nat \<Rightarrow> bool" where
  "is_leap year \<longleftrightarrow> 4 dvd year \<and> (\<not> 100 dvd year \<or> 400 dvd year)"

definition max_day :: "nat \<Rightarrow> nat \<Rightarrow> nat" where
  "max_day year month =
     (if month \<in> {1, 3, 5, 7, 8, 10, 12} then 31
      else if month \<in> {4, 6, 9, 11} then 30
      else if month = 2 then (if is_leap year then 29 else 28)
      else 0)"

definition date_shape :: "rstring \<Rightarrow> bool" where
  "date_shape value \<longleftrightarrow> length value = 10 \<and> value ! 4 = 45 \<and> value ! 7 = 45
     \<and> (\<forall>i \<in> set [0..<length value]. i \<in> {4, 7} \<or> is_ascii_digit (value ! i))"

definition require_date :: "rstring \<Rightarrow> rstring \<Rightarrow> check" where
  "require_date value field =
     (if \<not> date_shape value then Err (field @ lit '' must use YYYY-MM-DD'')
      else
        let year = digits_value (take 4 value);
            month = digits_value (take 2 (drop 5 value));
            day = digits_value (take 2 (drop 8 value))
        in require (1 \<le> day \<and> day \<le> max_day year month)
             (field @ lit '' must be a valid calendar date''))"

definition is_extension :: "rstring \<Rightarrow> bool" where
  "is_extension value \<longleftrightarrow> 2 \<le> length value \<and> length value \<le> 32 \<and> prefix [46] value
     \<and> (\<forall>c \<in> set (drop 1 value).
          \<not> is_ascii_upper c \<and> c \<noteq> backslash \<and> c \<noteq> slash \<and> c \<noteq> 58 \<and> c \<noteq> 0)"

definition require_extension :: "rstring \<Rightarrow> rstring \<Rightarrow> check" where
  "require_extension value field =
     require (is_extension value) (field @ lit '' must be a lowercase extension'')"

text \<open>\<open>str::strip_prefix\<close> and \<open>str::split_once\<close>.\<close>

definition strip_prefix_opt :: "rstring \<Rightarrow> rstring \<Rightarrow> rstring option" where
  "strip_prefix_opt p s = (if prefix p s then Some (drop (length p) s) else None)"

fun split_once :: "rstring \<Rightarrow> rstring \<Rightarrow> (rstring \<times> rstring) option" where
  "split_once sep [] = (if sep = [] then Some ([], []) else None)"
| "split_once sep (c # s) =
     (if prefix sep (c # s) then Some ([], drop (length sep) (c # s))
      else map_option (\<lambda>(a, b). (c # a, b)) (split_once sep s))"

definition require_source_version :: "rstring \<Rightarrow> rstring \<Rightarrow> check" where
  "require_source_version value field =
     (case Option.bind (strip_prefix_opt (lit ''mtime_ns='') value) (split_once (lit '':size='')) of
        None \<Rightarrow> Err (lit ''invalid '' @ field)
      | Some (mtime, bytes) \<Rightarrow>
          require (mtime \<noteq> [] \<and> bytes \<noteq> [] \<and> list_all is_ascii_digit mtime
                   \<and> list_all is_ascii_digit bytes)
            (lit ''invalid '' @ field))"

definition path_separator :: "rchar \<Rightarrow> bool" where
  "path_separator c \<longleftrightarrow> c = slash \<or> c = backslash"

definition is_safe_relative_path :: "rstring \<Rightarrow> bool" where
  "is_safe_relative_path value \<longleftrightarrow>
     (let drive_prefixed = 2 \<le> length value \<and> is_ascii_alphabetic (value ! 0) \<and> value ! 1 = 58;
          rooted = prefix [slash] value \<or> prefix [backslash] value \<or> drive_prefixed;
          escapes = lit ''..'' \<in> set (split_on path_separator value)
      in value \<noteq> [] \<and> length value \<le> 32767 \<and> \<not> rooted \<and> \<not> escapes)"

definition require_relative_path :: "rstring \<Rightarrow> rstring \<Rightarrow> check" where
  "require_relative_path value field =
     require (is_safe_relative_path value) (field @ lit '' must be a safe relative path'')"

definition require_sorted_unique :: "rstring list \<Rightarrow> rstring \<Rightarrow> check" where
  "require_sorted_unique values field =
     require (successively (<) values) (field @ lit '' must be sorted and unique'')"

definition is_sha256_hex :: "rstring \<Rightarrow> bool" where
  "is_sha256_hex value \<longleftrightarrow> length value = 64
     \<and> (\<forall>c \<in> set value. is_ascii_digit c \<or> 97 \<le> c \<and> c \<le> 102)"

definition require_sha256_hex :: "rstring \<Rightarrow> rstring \<Rightarrow> check" where
  "require_sha256_hex value field =
     require (is_sha256_hex value) (field @ lit '' must be a lowercase SHA-256'')"

definition validate_extensions :: "rstring list \<Rightarrow> rstring \<Rightarrow> bool \<Rightarrow> check" where
  "validate_extensions values field require_unique =
     validate_all
       ([require (length values \<le> 256) (field @ lit '' contains too many items'')]
        @ map (\<lambda>value. require_extension value field) values
        @ (if require_unique then [require_sorted_unique values field] else []))"

definition validate_strings :: "rstring list \<Rightarrow> rstring \<Rightarrow> bool \<Rightarrow> check" where
  "validate_strings values field require_unique =
     validate_all
       ([require (length values \<le> 256) (field @ lit '' contains too many items'')]
        @ map (\<lambda>value. require_non_empty value 1024 field) values
        @ (if require_unique then [require_sorted_unique values field] else []))"

text \<open>The meaning of each check, used instead of its definition.\<close>

lemma require_field_Ok [simp]:
  "require_const a e f = Ok u \<longleftrightarrow> a = e"
  "require_non_empty v n f = Ok u \<longleftrightarrow> 1 \<le> length v \<and> length v \<le> n"
  "require_range x lo hi f = Ok u \<longleftrightarrow> lo \<le> x \<and> x \<le> hi"
  "require_absolute_path v f = Ok u \<longleftrightarrow> is_absolute_path v"
  "require_extension v f = Ok u \<longleftrightarrow> is_extension v"
  "require_relative_path v f = Ok u \<longleftrightarrow> is_safe_relative_path v"
  "require_sorted_unique vs f = Ok u \<longleftrightarrow> successively (<) vs"
  "require_sha256_hex v f = Ok u \<longleftrightarrow> is_sha256_hex v"
  by (simp_all add: require_const_def require_non_empty_def require_range_def
      require_absolute_path_def require_extension_def require_relative_path_def
      require_sorted_unique_def require_sha256_hex_def)

section \<open>Enumerations\<close>

datatype report_mode = Daily | Weekly | Monthly

datatype compression_profile = DailyBalancedV1 | WeeklyBalancedV1 | MonthlyBalancedV1

datatype error_code =
    InvalidRequest | ContractVersionMismatch | WorkDirNotFound | WorkDirNotDirectory
  | DiscoveryEntryUnreadable | FileTooLarge | ParserStartFailed | ParserTimeout
  | ParserInvalidPayload | ParserFailed | PdfProtected | WorkerHandshakeFailed
  | WorkerVersionMismatch | WorkerBuildChanged | SourceVersionChanged | CacheOpenFailed
  | CacheWriteFailed | ScanAlreadyRunning | RequestInProgress | RequestIdConflict
  | RunNotFound | RunCorrupt | ContextBudgetInvalid | NotImplemented | RustCoreCrashed
  | StageDeadlineExhausted | BudgetModelMismatch | ContextFixedSectionsOverBudget
  | ProfileRouteInvariant | SourceFileLimitExceeded | SourceGuardUnavailable
  | ScannerDbSchemaMismatch | DiagnosticsAggregated | SnapshotReuseProjectedAsFresh
  | ParseCacheNotApplicableProjectedAsMiss | CacheMissReasonProjectedAsNewFile
  | SourceGuardNotProjected | WorkerRssUnavailable | InternalError

datatype diagnostic_stage =
    StageRequest | StageDiscovery | StageCache | StageParse | StageContext | StageProcess
  | StageDoctor | StageInternal

datatype engine_status = EngineOk | EnginePartial | EngineError

datatype run_status = RunRunning | RunSuccess | RunPartial | RunError | RunAbandoned

datatype stage_name = Discovery | Cache | Parse | Context

datatype parse_status = Success | Error | Timeout | NotParsed

datatype audit_worker_lane =
  RustCore | RustOfficeProcessV3 | RustPdfProcessV3 | LocalOcrPreflight | LaneNotParsed

datatype cache_status = Fresh | Miss

datatype cache_miss_reason =
    MissNone | NewFile | ErrorCache | MissSourceVersionChanged | ParserProfileChanged
  | ParserIdentityChanged | EntryAbsentOrEvicted

datatype context_action = Keep | Compress | MetadataOnly | Omit | ActionError

datatype source_guard_kind =
  WindowsFileIdChangeTimeV1 | UnixInodeCtimeV1 | ContentSha256V1 | Unavailable

datatype parse_cache_status = PcFresh | PcMiss | PcSnapshot | PcNotApplicable

datatype parse_transport =
  PtSession | PtOneShot | PtRustInProcess | PtSnapshot | PtNotApplicable

datatype pdf_classification_status =
  TextInParseWindow | NoTextInParseWindow | NotClassifiedByBudget | ClassUnknown | ClassError

datatype classification_cache_status = CcFresh | CcMiss | CcSnapshot | CcNotEligible

datatype classification_transport = CtSession | CtOneShot | CtSnapshot | CtNotApplicable

datatype reuse_kind = ContextSnapshotReuse | ParseCacheReuse | NoReuse

text \<open>Wire texts given by the serde renaming rules.\<close>

fun error_code_text :: "error_code \<Rightarrow> rstring" where
  "error_code_text InvalidRequest = lit ''INVALID_REQUEST''"
| "error_code_text ContractVersionMismatch = lit ''CONTRACT_VERSION_MISMATCH''"
| "error_code_text WorkDirNotFound = lit ''WORK_DIR_NOT_FOUND''"
| "error_code_text WorkDirNotDirectory = lit ''WORK_DIR_NOT_DIRECTORY''"
| "error_code_text DiscoveryEntryUnreadable = lit ''DISCOVERY_ENTRY_UNREADABLE''"
| "error_code_text FileTooLarge = lit ''FILE_TOO_LARGE''"
| "error_code_text ParserStartFailed = lit ''PARSER_START_FAILED''"
| "error_code_text ParserTimeout = lit ''PARSER_TIMEOUT''"
| "error_code_text ParserInvalidPayload = lit ''PARSER_INVALID_PAYLOAD''"
| "error_code_text ParserFailed = lit ''PARSER_FAILED''"
| "error_code_text PdfProtected = lit ''PDF_PROTECTED''"
| "error_code_text WorkerHandshakeFailed = lit ''WORKER_HANDSHAKE_FAILED''"
| "error_code_text WorkerVersionMismatch = lit ''WORKER_VERSION_MISMATCH''"
| "error_code_text WorkerBuildChanged = lit ''WORKER_BUILD_CHANGED''"
| "error_code_text SourceVersionChanged = lit ''SOURCE_VERSION_CHANGED''"
| "error_code_text CacheOpenFailed = lit ''CACHE_OPEN_FAILED''"
| "error_code_text CacheWriteFailed = lit ''CACHE_WRITE_FAILED''"
| "error_code_text ScanAlreadyRunning = lit ''SCAN_ALREADY_RUNNING''"
| "error_code_text RequestInProgress = lit ''REQUEST_IN_PROGRESS''"
| "error_code_text RequestIdConflict = lit ''REQUEST_ID_CONFLICT''"
| "error_code_text RunNotFound = lit ''RUN_NOT_FOUND''"
| "error_code_text RunCorrupt = lit ''RUN_CORRUPT''"
| "error_code_text ContextBudgetInvalid = lit ''CONTEXT_BUDGET_INVALID''"
| "error_code_text NotImplemented = lit ''NOT_IMPLEMENTED''"
| "error_code_text RustCoreCrashed = lit ''RUST_CORE_CRASHED''"
| "error_code_text StageDeadlineExhausted = lit ''STAGE_DEADLINE_EXHAUSTED''"
| "error_code_text BudgetModelMismatch = lit ''BUDGET_MODEL_MISMATCH''"
| "error_code_text ContextFixedSectionsOverBudget = lit ''CONTEXT_FIXED_SECTIONS_OVER_BUDGET''"
| "error_code_text ProfileRouteInvariant = lit ''PROFILE_ROUTE_INVARIANT''"
| "error_code_text SourceFileLimitExceeded = lit ''SOURCE_FILE_LIMIT_EXCEEDED''"
| "error_code_text SourceGuardUnavailable = lit ''SOURCE_GUARD_UNAVAILABLE''"
| "error_code_text ScannerDbSchemaMismatch = lit ''SCANNER_DB_SCHEMA_MISMATCH''"
| "error_code_text DiagnosticsAggregated = lit ''DIAGNOSTICS_AGGREGATED''"
| "error_code_text SnapshotReuseProjectedAsFresh = lit ''SNAPSHOT_REUSE_PROJECTED_AS_FRESH''"
| "error_code_text ParseCacheNotApplicableProjectedAsMiss =
     lit ''PARSE_CACHE_NOT_APPLICABLE_PROJECTED_AS_MISS''"
| "error_code_text CacheMissReasonProjectedAsNewFile =
     lit ''CACHE_MISS_REASON_PROJECTED_AS_NEW_FILE''"
| "error_code_text SourceGuardNotProjected = lit ''SOURCE_GUARD_NOT_PROJECTED''"
| "error_code_text WorkerRssUnavailable = lit ''WORKER_RSS_UNAVAILABLE''"
| "error_code_text InternalError = lit ''INTERNAL_ERROR''"

fun stage_text :: "diagnostic_stage \<Rightarrow> rstring" where
  "stage_text StageRequest = lit ''request''"
| "stage_text StageDiscovery = lit ''discovery''"
| "stage_text StageCache = lit ''cache''"
| "stage_text StageParse = lit ''parse''"
| "stage_text StageContext = lit ''context''"
| "stage_text StageProcess = lit ''process''"
| "stage_text StageDoctor = lit ''doctor''"
| "stage_text StageInternal = lit ''internal''"

fun action_text :: "context_action \<Rightarrow> rstring" where
  "action_text Keep = lit ''keep''"
| "action_text Compress = lit ''compress''"
| "action_text MetadataOnly = lit ''metadata_only''"
| "action_text Omit = lit ''omit''"
| "action_text ActionError = lit ''error''"

fun lane_text :: "audit_worker_lane \<Rightarrow> rstring" where
  "lane_text RustCore = lit ''rust_core''"
| "lane_text RustOfficeProcessV3 = lit ''rust_office_process_v3''"
| "lane_text RustPdfProcessV3 = lit ''rust_pdf_process_v3''"
| "lane_text LocalOcrPreflight = lit ''local_ocr_preflight''"
| "lane_text LaneNotParsed = lit ''not_parsed''"

lemma length_error_code_text: "length (error_code_text c) \<le> 44"
  by (cases c) simp_all

lemma length_stage_text: "length (stage_text s) \<le> 9"
  by (cases s) simp_all

lemma length_action_text: "length (action_text a) \<le> 13"
  by (cases a) simp_all

lemma length_lane_text: "length (lane_text l) \<le> 22"
  by (cases l) simp_all

end
