(* ===== verification/Content_Audit.thy ===== *)
theory Content_Audit
  imports Scanner_Contract
begin

text \<open>
  \<open>src/rust/worker_contract/src/content_audit.rs\<close>: source ranges, content units and the
  builder that produces a parsed text together with the offsets of its units. The archive
  writer behind \<open>for_archive\<close> writes files and is not modelled; a builder here is one without
  it. The length of the JSON encoding (\<open>serde_json::to_vec\<close>) is the parameter \<open>enc\<close>.
\<close>

section \<open>Ranges\<close>

datatype source_range_unit =
  PdfPage | SheetRow | ParagraphUnit | TableRowUnit | SlideUnit | TextChar | CsvRecord | Byte

record source_range =
  sr_unit :: source_range_unit
  sr_start :: u64
  sr_end :: u64
  sr_label :: "rstring option"
  sr_column_start :: "u64 option"
  sr_column_end :: "u64 option"

definition SourceRange_new ::
  "source_range_unit \<Rightarrow> u64 \<Rightarrow> u64 \<Rightarrow> rstring option \<Rightarrow> source_range" where
  "SourceRange_new unit start stop label =
     \<lparr>sr_unit = unit, sr_start = start, sr_end = stop, sr_label = label,
      sr_column_start = None, sr_column_end = None\<rparr>"

definition validate_source_range :: "source_range \<Rightarrow> check" where
  "validate_source_range r =
     (if sr_start r \<ge> sr_end r
         \<or> sr_unit r \<notin> {TextChar, Byte} \<and> sr_start r = 0
         \<or> (case sr_label r of None \<Rightarrow> False | Some label \<Rightarrow> 512 < length label)
      then Err (lit ''source range is invalid'')
      else case (sr_column_start r, sr_column_end r) of
        (None, None) \<Rightarrow> Ok ()
      | (Some start, Some stop) \<Rightarrow>
          require (0 < start \<and> start < stop \<and> sr_unit r \<in> {SheetRow, TableRowUnit})
            (lit ''source column range is invalid'')
      | _ \<Rightarrow> Err (lit ''source column range is invalid''))"

section \<open>Units and the audit\<close>

datatype content_unit_kind =
    KindHeading | KindParagraph | KindTableHeader | KindTableRow | KindUnit | KindTotal
  | KindSlide | KindText | KindPlaceholder

record content_unit =
  cu_unit_id :: rstring
  cu_kind :: content_unit_kind
  cu_text_start :: u64
  cu_text_end :: u64
  cu_ranges :: "source_range list"

text \<open>\<open>serde_json::Value\<close>, the type of one field of an archive manifest.\<close>

datatype json =
    JNull | JBool bool | JNumber rstring | JString rstring | JArray "json list"
  | JObject "(rstring \<times> json) list"

record archive_artifact =
  aa_version :: u64
  aa_coverage :: json
  aa_body_sha256 :: rstring
  aa_units_sha256 :: rstring
  aa_index_sha256 :: rstring
  aa_body_bytes :: u64
  aa_units_bytes :: u64
  aa_units :: u64
  aa_chars :: u64
  aa_usable_chars :: u64
  aa_truncated :: bool
  aa_gaps :: "rstring list"
  aa_error :: "rstring option"
  aa_parser_backend :: rstring
  aa_worker_lane :: rstring
  aa_duration_ms :: u64
  aa_raw_sha256 :: rstring

record parsed_content_audit =
  pa_archive :: "archive_artifact option"
  pa_version :: u64
  pa_read_ranges :: "source_range list option"
  pa_content_units :: "content_unit list option"
  pa_usable_chars :: "u64 option"
  pa_encoding :: "rstring option"
  pa_detected_format :: "rstring option"

definition default_content_audit :: parsed_content_audit where
  "default_content_audit =
     \<lparr>pa_archive = None, pa_version = 1, pa_read_ranges = None, pa_content_units = None,
      pa_usable_chars = None, pa_encoding = None, pa_detected_format = None\<rparr>"

definition audit_encodings :: "rstring list" where
  "audit_encodings = [lit ''utf-8'', lit ''utf-8-sig'', lit ''gb18030'']"

definition audit_formats :: "rstring list" where
  "audit_formats = [lit ''xls'', lit ''xlsx'', lit ''doc'', lit ''docx'', lit ''ppt'', lit ''pptx'',
     lit ''pdf'', lit ''text'', lit ''csv'']"

definition AUDIT_MAX_BYTES :: u64 where "AUDIT_MAX_BYTES = 256 * 1024"

text \<open>\<open>Option::is_some_and\<close>.\<close>

definition is_some_and :: "'a option \<Rightarrow> ('a \<Rightarrow> bool) \<Rightarrow> bool" where
  "is_some_and v p = (case v of None \<Rightarrow> False | Some x \<Rightarrow> p x)"

lemma is_some_and_simps [simp]:
  "is_some_and None p = False" "is_some_and (Some x) p = p x"
  by (simp_all add: is_some_and_def)

text \<open>The loop over the units: identities seen so far and the end of the previous unit.\<close>

fun validate_units :: "u64 \<Rightarrow> rstring set \<Rightarrow> u64 \<Rightarrow> content_unit list \<Rightarrow> check" where
  "validate_units text_chars identities previous_end [] = Ok ()"
| "validate_units text_chars identities previous_end (unit # units) =
     (if cu_unit_id unit = [] \<or> 128 < length (cu_unit_id unit) \<or> cu_unit_id unit \<in> identities
         \<or> cu_text_start unit \<ge> cu_text_end unit \<or> text_chars < cu_text_end unit
         \<or> 128 < length (cu_ranges unit) \<or> cu_text_start unit < previous_end
      then Err (lit ''parser content unit is invalid'')
      else validate_all
        [validate_all (map validate_source_range (cu_ranges unit)),
         validate_units text_chars (insert (cu_unit_id unit) identities) (cu_text_end unit) units])"

definition validate_content_audit ::
  "(parsed_content_audit \<Rightarrow> nat) \<Rightarrow> parsed_content_audit \<Rightarrow> rstring \<Rightarrow> check" where
  "validate_content_audit enc a content =
     (let text_chars = length content in
      validate_all
        [require (pa_archive a = None) (lit ''archive artifacts require the archive operation''),
         require (\<not> (pa_version a \<noteq> 1
             \<or> is_some_and (pa_usable_chars a) (\<lambda>chars. text_chars < chars)
             \<or> is_some_and (pa_read_ranges a) (\<lambda>ranges. 10000 < length ranges)
             \<or> is_some_and (pa_content_units a) (\<lambda>units. 10000 < length units)
             \<or> is_some_and (pa_encoding a) (\<lambda>e. e \<notin> set audit_encodings)
             \<or> is_some_and (pa_detected_format a) (\<lambda>f. f \<notin> set audit_formats)))
           (lit ''parser audit fields are invalid''),
         validate_all (map validate_source_range (case pa_read_ranges a of None \<Rightarrow> [] | Some rs \<Rightarrow> rs)),
         validate_units text_chars {} 0 (case pa_content_units a of None \<Rightarrow> [] | Some us \<Rightarrow> us),
         require (enc a \<le> AUDIT_MAX_BYTES) (lit ''parser audit exceeds metadata byte budget'')])"

section \<open>The text builder\<close>

record audit_text_builder =
  tb_content :: rstring
  tb_chars :: u64
  tb_max_chars :: u64
  tb_audit :: parsed_content_audit
  tb_truncated :: bool

definition AuditTextBuilder_new :: "u64 \<Rightarrow> rstring \<Rightarrow> audit_text_builder" where
  "AuditTextBuilder_new max_chars format =
     \<lparr>tb_content = [], tb_chars = 0, tb_max_chars = max_chars,
      tb_audit = default_content_audit\<lparr>pa_read_ranges := Some [], pa_content_units := Some [],
        pa_usable_chars := Some 0, pa_detected_format := Some format\<rparr>,
      tb_truncated = False\<rparr>"

definition AuditTextBuilder_read ::
  "(parsed_content_audit \<Rightarrow> nat) \<Rightarrow> source_range \<Rightarrow> audit_text_builder \<Rightarrow> audit_text_builder" where
  "AuditTextBuilder_read enc rng b =
     (case pa_read_ranges (tb_audit b) of
        None \<Rightarrow> b
      | Some ranges \<Rightarrow>
          (let audit =
             (if length ranges < 512 \<and> rng \<notin> set ranges
              then (tb_audit b)\<lparr>pa_read_ranges := Some (ranges @ [rng])\<rparr>
              else if rng \<notin> set ranges then (tb_audit b)\<lparr>pa_read_ranges := None\<rparr>
              else tb_audit b)
           in b\<lparr>tb_audit := if AUDIT_MAX_BYTES < enc audit
                 then audit\<lparr>pa_read_ranges := None\<rparr> else audit\<rparr>))"

text \<open>Kinds whose text counts as usable.\<close>

definition usable_kind :: "content_unit_kind \<Rightarrow> bool" where
  "usable_kind kind \<longleftrightarrow> kind \<notin> {KindHeading, KindTableHeader, KindUnit, KindPlaceholder}"

text \<open>The two \<open>unwrap\<close> calls on optional audit fields are on fields the constructor sets and
  nothing clears; \<open>the_units\<close> and \<open>the_usable\<close> read them.\<close>

abbreviation the_units :: "audit_text_builder \<Rightarrow> content_unit list" where
  "the_units b \<equiv> the (pa_content_units (tb_audit b))"

abbreviation the_usable :: "audit_text_builder \<Rightarrow> u64" where
  "the_usable b \<equiv> the (pa_usable_chars (tb_audit b))"

definition AuditTextBuilder_push ::
  "(parsed_content_audit \<Rightarrow> nat) \<Rightarrow> rstring \<Rightarrow> content_unit_kind \<Rightarrow> source_range list \<Rightarrow>
     audit_text_builder \<Rightarrow> audit_text_builder \<times> bool" where
  "AuditTextBuilder_push enc raw kind ranges b =
     (let text = trim raw in
      if text = [] then (b, True)
      else
        let sep = (if tb_content b = [] then [] else [nl]);
            size = length text;
            units = the_units b
        in if tb_max_chars b < tb_chars b + length sep + size \<or> 512 \<le> length units
           then (b\<lparr>tb_truncated := True\<rparr>, False)
           else
             let start = tb_chars b + length sep;
                 unit = \<lparr>cu_unit_id = lit ''u'' @ dec (length units + 1), cu_kind = kind,
                         cu_text_start = start, cu_text_end = start + size, cu_ranges = ranges\<rparr>;
                 audit = (tb_audit b)\<lparr>pa_content_units := Some (units @ [unit])\<rparr>
             in if AUDIT_MAX_BYTES < enc audit then (b\<lparr>tb_truncated := True\<rparr>, False)
                else (b\<lparr>tb_content := tb_content b @ sep @ text, tb_chars := start + size,
                        tb_audit := (if usable_kind kind
                          then audit\<lparr>pa_usable_chars := Some (the_usable b + size)\<rparr>
                          else audit)\<rparr>, True))"

definition AuditTextBuilder_finish ::
  "audit_text_builder \<Rightarrow> rstring \<times> parsed_content_audit \<times> bool" where
  "AuditTextBuilder_finish b =
     (if pa_usable_chars (tb_audit b) = Some 0
      then ([], (tb_audit b)\<lparr>pa_content_units := Some []\<rparr>, tb_truncated b)
      else (tb_content b, tb_audit b, tb_truncated b))"

text \<open>The builders a parser can reach: it creates one, records ranges it read and pushes
  text with ranges, where every range it passes is well formed and no unit has more than
  128.\<close>

inductive builder_reachable ::
  "(parsed_content_audit \<Rightarrow> nat) \<Rightarrow> u64 \<Rightarrow> rstring \<Rightarrow> audit_text_builder \<Rightarrow> bool"
  for enc max_chars format where
  start: "builder_reachable enc max_chars format (AuditTextBuilder_new max_chars format)"
| read: "builder_reachable enc max_chars format b \<Longrightarrow> validate_source_range rng = Ok () \<Longrightarrow>
    builder_reachable enc max_chars format (AuditTextBuilder_read enc rng b)"
| push: "builder_reachable enc max_chars format b \<Longrightarrow>
    (\<forall>r \<in> set ranges. validate_source_range r = Ok ()) \<Longrightarrow> length ranges \<le> 128 \<Longrightarrow>
    builder_reachable enc max_chars format (fst (AuditTextBuilder_push enc text kind ranges b))"


section \<open>Invariant of the builder\<close>

definition unit_ok :: "u64 \<Rightarrow> content_unit \<Rightarrow> bool" where
  "unit_ok text_chars u \<longleftrightarrow> cu_text_start u < cu_text_end u \<and> cu_text_end u \<le> text_chars
     \<and> length (cu_ranges u) \<le> 128 \<and> (\<forall>r \<in> set (cu_ranges u). validate_source_range r = Ok ())"

definition unit_name :: "nat \<Rightarrow> rstring" where
  "unit_name k = lit ''u'' @ dec (k + 1)"

definition units_ok :: "u64 \<Rightarrow> content_unit list \<Rightarrow> bool" where
  "units_ok text_chars us \<longleftrightarrow> list_all (unit_ok text_chars) us
     \<and> map cu_unit_id us = map unit_name [0..<length us]
     \<and> sorted_wrt (\<lambda>u v. cu_text_end u \<le> cu_text_start v) us"

definition builder_inv :: "u64 \<Rightarrow> rstring \<Rightarrow> audit_text_builder \<Rightarrow> bool" where
  "builder_inv max_chars format b \<longleftrightarrow>
     tb_max_chars b = max_chars \<and> tb_chars b = length (tb_content b)
     \<and> length (tb_content b) \<le> max_chars
     \<and> pa_archive (tb_audit b) = None \<and> pa_version (tb_audit b) = 1
     \<and> pa_encoding (tb_audit b) = None \<and> pa_detected_format (tb_audit b) = Some format
     \<and> (\<forall>rs. pa_read_ranges (tb_audit b) = Some rs \<longrightarrow>
          length rs \<le> 512 \<and> (\<forall>r \<in> set rs. validate_source_range r = Ok ()))
     \<and> pa_content_units (tb_audit b) \<noteq> None \<and> length (the_units b) \<le> 512
     \<and> units_ok (length (tb_content b)) (the_units b)
     \<and> pa_usable_chars (tb_audit b) \<noteq> None \<and> the_usable b \<le> length (tb_content b)"

lemma unit_name_inj: "unit_name i = unit_name j \<longleftrightarrow> i = j"
  by (metis unit_name_def append_same_eq same_append_eq digits_value_dec add_right_cancel)

lemma length_unit_name: "k < 512 \<Longrightarrow> length (unit_name k) \<le> 128"
  using length_dec_le [of "k + 1" 3] by (simp add: unit_name_def)

lemma unit_ok_mono: "unit_ok n u \<Longrightarrow> n \<le> m \<Longrightarrow> unit_ok m u"
  by (auto simp: unit_ok_def)

lemma units_ok_snoc:
  assumes "units_ok n us" and "n \<le> cu_text_start u" and "unit_ok m u" and "n \<le> m"
    and "cu_unit_id u = unit_name (length us)"
  shows "units_ok m (us @ [u])"
proof -
  have "cu_text_end v \<le> cu_text_start u" if "v \<in> set us" for v
    using that assms(1,2) by (auto simp: units_ok_def unit_ok_def list_all_iff)
  with assms show ?thesis
    by (auto simp: units_ok_def list_all_iff sorted_wrt_append intro: unit_ok_mono)
qed

lemma validate_units_intro:
  assumes "list_all (unit_ok n) us"
    and "\<forall>u \<in> set us. cu_unit_id u \<noteq> [] \<and> length (cu_unit_id u) \<le> 128 \<and> cu_unit_id u \<notin> ids"
    and "distinct (map cu_unit_id us)"
    and "sorted_wrt (\<lambda>u v. cu_text_end u \<le> cu_text_start v) us"
    and "\<forall>u \<in> set us. prev \<le> cu_text_start u"
  shows "validate_units n ids prev us = Ok ()"
  using assms
proof (induction us arbitrary: ids prev)
  case (Cons u us)
  have "validate_units n (insert (cu_unit_id u) ids) (cu_text_end u) us = Ok ()"
    using Cons.prems by (intro Cons.IH) (auto, metis image_eqI)
  with Cons.prems show ?case by (auto simp: unit_ok_def)
qed simp

lemma units_ok_validates:
  assumes "units_ok n us" and "length us \<le> 512"
  shows "validate_units n {} 0 us = Ok ()"
proof (rule validate_units_intro)
  have ids: "map cu_unit_id us = map unit_name [0..<length us]" using assms(1) by (simp add: units_ok_def)
  then show "distinct (map cu_unit_id us)"
    by (simp add: distinct_map inj_on_def unit_name_inj)
  show "\<forall>u \<in> set us. cu_unit_id u \<noteq> [] \<and> length (cu_unit_id u) \<le> 128 \<and> cu_unit_id u \<notin> {}"
  proof
    fix u assume "u \<in> set us"
    then obtain k where k: "k < length us" "u = us ! k" by (auto simp: in_set_conv_nth)
    then have "cu_unit_id u = unit_name k" using arg_cong [OF ids, of "\<lambda>l. l ! k"] by simp
    with assms(2) k show "cu_unit_id u \<noteq> [] \<and> length (cu_unit_id u) \<le> 128 \<and> cu_unit_id u \<notin> {}"
      using length_unit_name [of k] by (simp add: unit_name_def)
  qed
qed (use assms(1) in \<open>auto simp: units_ok_def\<close>)

lemma builder_inv_new: "builder_inv m f (AuditTextBuilder_new m f)"
  by (simp add: builder_inv_def AuditTextBuilder_new_def default_content_audit_def units_ok_def)

lemma builder_inv_read:
  assumes "builder_inv m f b" and "validate_source_range r = Ok ()"
  shows "builder_inv m f (AuditTextBuilder_read enc r b)"
  using assms
  by (auto simp: builder_inv_def AuditTextBuilder_read_def Let_def split: option.splits)

lemma builder_inv_push:
  assumes inv: "builder_inv m f b"
    and ranges: "\<forall>r \<in> set ranges. validate_source_range r = Ok ()" "length ranges \<le> 128"
  shows "builder_inv m f (fst (AuditTextBuilder_push enc raw kind ranges b))"
proof (cases "trim raw = []")
  case True
  with inv show ?thesis by (simp add: AuditTextBuilder_push_def)
next
  case False
  let ?sep = "if tb_content b = [] then [] else [nl]"
  let ?start = "tb_chars b + length ?sep"
  let ?u = "\<lparr>cu_unit_id = lit ''u'' @ dec (length (the_units b) + 1), cu_kind = kind,
     cu_text_start = ?start, cu_text_end = ?start + length (trim raw), cu_ranges = ranges\<rparr>"
  have "units_ok (?start + length (trim raw)) (the_units b @ [?u])"
    using inv ranges False
    by (intro units_ok_snoc [of "length (tb_content b)"])
      (auto simp: builder_inv_def unit_ok_def unit_name_def)
  with inv False show ?thesis
    by (auto simp: AuditTextBuilder_push_def Let_def builder_inv_def)
qed

lemma builder_reachable_inv: "builder_reachable enc m f b \<Longrightarrow> builder_inv m f b"
  by (induction rule: builder_reachable.induct)
    (auto intro: builder_inv_new builder_inv_read builder_inv_push)

section \<open>Properties\<close>

text \<open>C21. Whatever a parser reads and pushes, with valid ranges and at most 128 of them for a unit, the finished text
  stays within the character limit, the usable characters within the text, and text and audit pass every check of
  the contract for parsed content except possibly the last: the verdict of the whole validation is exactly whether
  the encoded audit fits its byte budget. The builder compares the size before it counts the characters of a unit
  as usable, so an audit within a few bytes of the budget can still fail there.\<close>

theorem builder_finish_validates:
  assumes "builder_reachable enc max_chars format b" and "format \<in> set audit_formats"
    and "AuditTextBuilder_finish b = (content, audit, truncated)"
  shows "validate_content_audit enc audit content
       = require (enc audit \<le> AUDIT_MAX_BYTES) (lit ''parser audit exceeds metadata byte budget'')
     \<and> length content \<le> max_chars \<and> (\<exists>usable \<le> length content. pa_usable_chars audit = Some usable)"
proof -
  have inv: "builder_inv max_chars format b" using assms(1) by (rule builder_reachable_inv)
  then have units: "validate_units (length (tb_content b)) {} 0 (the_units b) = Ok ()"
    by (intro units_ok_validates) (simp_all add: builder_inv_def)
  let ?ranges = "case pa_read_ranges audit of None \<Rightarrow> [] | Some rs \<Rightarrow> rs"
  have checks: "pa_archive audit = None" "pa_version audit = 1" "\<not> is_some_and (pa_usable_chars audit) (\<lambda>chars. length content < chars)"
    "\<not> is_some_and (pa_read_ranges audit) (\<lambda>ranges. 10000 < length ranges)"
    "\<not> is_some_and (pa_content_units audit) (\<lambda>units. 10000 < length units)"
    "pa_encoding audit = None" "pa_detected_format audit = Some format"
    "validate_all (map validate_source_range ?ranges) = Ok ()"
    "validate_units (length content) {} 0 (case pa_content_units audit of None \<Rightarrow> [] | Some us \<Rightarrow> us) = Ok ()"
    using inv units assms(3)
    by (cases "pa_read_ranges (tb_audit b)"; force simp: builder_inv_def AuditTextBuilder_finish_def split: if_splits)+
  then have "validate_content_audit enc audit content
      = require (enc audit \<le> AUDIT_MAX_BYTES) (lit ''parser audit exceeds metadata byte budget'')"
    using assms(2) by (simp add: validate_content_audit_def validate_all_skip validate_all_single)
  moreover have "length content \<le> max_chars \<and> (\<exists>usable \<le> length content. pa_usable_chars audit = Some usable)"
    using inv assms(3) by (auto simp: builder_inv_def AuditTextBuilder_finish_def split: if_splits)
  ultimately show ?thesis by blast
qed

text \<open>A builder for the witnesses: one paragraph was pushed.\<close>

definition fixture_builder :: audit_text_builder where
  "fixture_builder = fst (AuditTextBuilder_push (\<lambda>_. 0) (lit '' hello '') KindParagraph []
     (AuditTextBuilder_new 100 (lit ''text'')))"

lemma fixture_builder_reachable: "builder_reachable (\<lambda>_. 0) 100 (lit ''text'') fixture_builder"
  unfolding fixture_builder_def by (intro builder_reachable.intros) simp_all

theorem builder_finish_validates_witness:
  "validate_content_audit (\<lambda>_. 0) (fst (snd (AuditTextBuilder_finish fixture_builder)))
     (fst (AuditTextBuilder_finish fixture_builder)) = Ok ()
   \<and> length (fst (AuditTextBuilder_finish fixture_builder)) \<le> 100"
  using builder_finish_validates [OF fixture_builder_reachable, where truncated = "snd (snd (AuditTextBuilder_finish fixture_builder))"
      and audit = "fst (snd (AuditTextBuilder_finish fixture_builder))" and content = "fst (AuditTextBuilder_finish fixture_builder)"]
  by (simp add: audit_formats_def require_def)

text \<open>The slice of a text that a unit points at.\<close>

definition unit_slice :: "rstring \<Rightarrow> content_unit \<Rightarrow> rstring" where
  "unit_slice content u = take (cu_text_end u - cu_text_start u) (drop (cu_text_start u) content)"

lemma unit_slice_append:
  "cu_text_end u \<le> length content \<Longrightarrow> unit_slice (content @ ext) u = unit_slice content u"
  by (cases "cu_text_start u \<le> length content") (auto simp: unit_slice_def)

lemma unit_slice_new:
  "cu_text_start u = length content \<Longrightarrow> cu_text_end u = length content + length text \<Longrightarrow>
     unit_slice (content @ text) u = text"
  by (simp add: unit_slice_def)

lemma push_accepted:
  assumes "AuditTextBuilder_push enc raw kind ranges b = (b', True)" and "trim raw \<noteq> []"
  shows "tb_content b' = tb_content b @ (if tb_content b = [] then [] else [nl]) @ trim raw"
    and "\<exists>u. the_units b' = the_units b @ [u] \<and> cu_ranges u = ranges \<and> cu_kind u = kind
      \<and> cu_text_start u = tb_chars b + length (if tb_content b = [] then [] else [nl])
      \<and> cu_text_end u = cu_text_start u + length (trim raw)"
  using assms unfolding AuditTextBuilder_push_def Let_def by (auto split: if_splits)

lemma push_no_change:
  assumes "AuditTextBuilder_push enc raw kind ranges b = (b', accepted)"
  shows "\<not> accepted \<Longrightarrow> b' = b\<lparr>tb_truncated := True\<rparr>" and "trim raw = [] \<Longrightarrow> b' = b \<and> accepted"
  using assms unfolding AuditTextBuilder_push_def Let_def by (auto split: if_splits)

text \<open>A push that is accepted either had no text, and changes nothing, or adds one unit
  whose slice of the new text is the trimmed text, and every earlier unit still points at the
  text it pointed at. A push that is refused only marks the builder truncated.\<close>

theorem builder_push_roundtrip:
  assumes "builder_reachable enc max_chars format b"
    and "AuditTextBuilder_push enc raw kind ranges b = (b', accepted)"
  shows "if \<not> accepted then b' = b\<lparr>tb_truncated := True\<rparr>
    else if trim raw = [] then b' = b
    else \<exists>u. the_units b' = the_units b @ [u] \<and> cu_ranges u = ranges \<and> cu_kind u = kind
       \<and> unit_slice (tb_content b') u = trim raw
       \<and> (\<forall>v \<in> set (the_units b). unit_slice (tb_content b') v = unit_slice (tb_content b) v)"
proof -
  have inv: "builder_inv max_chars format b" using assms(1) by (rule builder_reachable_inv)
  have len: "tb_chars b = length (tb_content b)" using inv by (simp add: builder_inv_def)
  have old: "\<forall>v \<in> set (the_units b). cu_text_end v \<le> length (tb_content b)"
    using inv by (auto simp: builder_inv_def units_ok_def unit_ok_def list_all_iff)
  then have slices: "\<forall>v \<in> set (the_units b). unit_slice (tb_content b @ ext) v = unit_slice (tb_content b) v" for ext
    by (simp add: unit_slice_append)
  show ?thesis
  proof (cases "accepted \<and> trim raw \<noteq> []")
    case False
    then consider "\<not> accepted" | "accepted" "trim raw = []" by blast
    then show ?thesis
    proof cases
      case 1
      then show ?thesis using push_no_change(1) [OF assms(2) 1] by (simp only: if_P not_False_eq_True)
    next
      case 2
      then show ?thesis using push_no_change(2) [OF assms(2) 2(2)] by (simp only: if_P if_not_P not_not)
    qed
  next
    case True
    then have acc: "AuditTextBuilder_push enc raw kind ranges b = (b', True)" and "trim raw \<noteq> []"
      using assms(2) by simp_all
    note facts = push_accepted [OF this]
    from facts(2) obtain u where u: "the_units b' = the_units b @ [u]" "cu_ranges u = ranges" "cu_kind u = kind"
      "cu_text_start u = tb_chars b + length (if tb_content b = [] then [] else [nl])"
      "cu_text_end u = cu_text_start u + length (trim raw)" by blast
    have "unit_slice (tb_content b') u = trim raw"
      unfolding facts(1) append.assoc [symmetric] using u(4,5) len by (intro unit_slice_new) auto
    moreover have "\<forall>v \<in> set (the_units b). unit_slice (tb_content b') v = unit_slice (tb_content b) v"
      unfolding facts(1) by (rule slices)
    ultimately show ?thesis using True u(1-3) by (simp only: if_not_P not_not if_False) blast
  qed
qed


theorem builder_push_roundtrip_witness:
  "let r = AuditTextBuilder_push (\<lambda>_. 0) (lit ''world'') KindText [] fixture_builder in
   \<exists>u. the_units (fst r) = the_units fixture_builder @ [u] \<and> unit_slice (tb_content (fst r)) u = trim (lit ''world'')"
proof -
  let ?r = "AuditTextBuilder_push (\<lambda>_. 0) (lit ''world'') KindText [] fixture_builder"
  have "snd ?r \<and> trim (lit ''world'') \<noteq> []"
    by (simp add: fixture_builder_def AuditTextBuilder_push_def AuditTextBuilder_new_def
        default_content_audit_def trim_def trim_by_def trim_end_by_def lit_def is_whitespace_def Let_def)
  then show ?thesis
    using builder_push_roundtrip [OF fixture_builder_reachable surjective_pairing,
        of "lit ''world''" KindText "[]"] by (auto simp: Let_def)
qed

end
