(* ===== verification/Scanner_Settings.thy ===== *)
theory Scanner_Settings
  imports Scanner_Contract
begin

text \<open>
  The normalised scanner settings of \<open>src/rust/scanner_contract/src/lib.rs\<close>: the discovery,
  execution, parse and context profiles, the run quotas and their validation.
\<close>

section \<open>Policy constants and quota defaults\<close>

definition ADMISSION_POLICY_VERSION :: rstring where
  "ADMISSION_POLICY_VERSION = lit ''budget_refill_v3''"
definition CLASSIFIER_POLICY_VERSION :: rstring where
  "CLASSIFIER_POLICY_VERSION = lit ''pdf_text_presence_v2''"
definition PRIORITY_POLICY_VERSION :: rstring where
  "PRIORITY_POLICY_VERSION = lit ''budget_nominal_v2''"
definition COMPRESSION_POLICY_VERSION :: rstring where
  "COMPRESSION_POLICY_VERSION = lit ''markdown_context_v2''"
definition MAX_SOURCE_FILES_PER_RUN :: u64 where
  "MAX_SOURCE_FILES_PER_RUN = 1000000"

text \<open>Order: candidate files, classification pages, text extractions, total deadline (ms).\<close>

fun quota_defaults :: "report_mode \<Rightarrow> u64 \<times> u64 \<times> u64 \<times> u64" where
  "quota_defaults Daily = (96, 80, 8, 10000)"
| "quota_defaults Weekly = (192, 100, 12, 15000)"
| "quota_defaults Monthly = (384, 370, 16, 25000)"

section \<open>Profiles\<close>

record discovery_profile =
  dp_allowed_extensions :: "rstring list"
  dp_ignored_patterns :: "rstring list"
  dp_excluded_dirs :: "rstring list"
  dp_follow_symlinks :: bool
  dp_cloud_files_policy :: rstring

definition validate_discovery_profile :: "discovery_profile \<Rightarrow> check" where
  "validate_discovery_profile p = validate_all
     [require_const (dp_cloud_files_policy p) (lit ''local_only'') (lit ''cloud_files_policy''),
      validate_extensions (dp_allowed_extensions p) (lit ''allowed_extensions'') True,
      validate_strings (dp_ignored_patterns p) (lit ''ignored_patterns'') True,
      validate_strings (dp_excluded_dirs p) (lit ''excluded_dirs'') True]"

record execution_profile =
  ep_max_workers :: u64
  ep_max_file_size_bytes :: u64
  ep_discovery_timeout_ms :: u64
  ep_file_timeout_ms :: u64
  ep_file_timeout_by_extension_ms :: "(rstring \<times> u64) list"

definition validate_execution_profile :: "execution_profile \<Rightarrow> check" where
  "validate_execution_profile p = validate_all
     ([require_range (ep_max_workers p) 1 64 (lit ''max_workers''),
       require_range (ep_max_file_size_bytes p) 1 4294967296 (lit ''max_file_size_bytes''),
       require_range (ep_discovery_timeout_ms p) 1000 3600000 (lit ''discovery_timeout_ms''),
       require_range (ep_file_timeout_ms p) 1000 3600000 (lit ''file_timeout_ms''),
       require (length (ep_file_timeout_by_extension_ms p) \<le> 256)
         (lit ''file_timeout_by_extension_ms has too many entries'')]
      @ concat (map (\<lambda>(extension, timeout).
          [require_extension extension (lit ''file_timeout_by_extension_ms key''),
           require_range timeout 1000 3600000 (lit ''file_timeout_by_extension_ms value'')])
        (ep_file_timeout_by_extension_ms p)))"

record text_parse_profile =
  tp_csv_encodings :: "rstring list"
  tp_backend :: rstring
  tp_read_head_bytes :: u64
  tp_read_tail_bytes :: u64
  tp_max_chars :: u64
  tp_excerpt_max_chars :: u64

definition default_csv_encodings :: "rstring list" where
  "default_csv_encodings = [lit ''utf-8'', lit ''utf-8-sig'']"

definition validate_csv_encodings :: "rstring list \<Rightarrow> check" where
  "validate_csv_encodings encodings =
     require (encodings \<noteq> [] \<and> length encodings \<le> 3 \<and> distinct encodings
              \<and> (\<forall>v \<in> set encodings. v \<in> {lit ''utf-8'', lit ''utf-8-sig'', lit ''gb18030''}))
       (lit ''csv_encodings must be a unique explicit allowlist of utf-8, utf-8-sig, gb18030'')"

definition validate_text_parse_profile :: "text_parse_profile \<Rightarrow> check" where
  "validate_text_parse_profile p = validate_all
     [require_const (tp_backend p) (lit ''light_text_v2'') (lit ''text.backend''),
      validate_csv_encodings (tp_csv_encodings p),
      require_range (tp_read_head_bytes p) 1 67108864 (lit ''read_head_bytes''),
      require_range (tp_read_tail_bytes p) 1 67108864 (lit ''read_tail_bytes''),
      require_range (tp_max_chars p) 1 10000000 (lit ''text.max_chars''),
      require_range (tp_excerpt_max_chars p) 1 10000000 (lit ''text.excerpt_max_chars'')]"

record office_parse_profile =
  op_primary_backend :: rstring
  op_legacy_extensions_enabled :: bool
  op_excel_max_sheets :: u64
  op_excel_max_rows :: u64
  op_excel_max_columns :: u64
  op_docx_max_paragraphs :: u64
  op_docx_max_tables :: u64
  op_docx_table_max_rows :: u64
  op_docx_table_max_cols :: u64
  op_pptx_max_slides :: u64
  op_pptx_include_notes :: bool
  op_document_excerpt_max_chars :: u64

definition validate_office_parse_profile :: "office_parse_profile \<Rightarrow> check" where
  "validate_office_parse_profile p = validate_all
     [require_non_empty (op_primary_backend p) 1024 (lit ''primary_backend''),
      require_range (op_excel_max_sheets p) 1 1024 (lit ''excel_max_sheets''),
      require_range (op_excel_max_rows p) 1 1048576 (lit ''excel_max_rows''),
      require_range (op_excel_max_columns p) 1 16384 (lit ''excel_max_columns''),
      require_range (op_docx_max_paragraphs p) 1 1000000 (lit ''docx_max_paragraphs''),
      require_range (op_docx_max_tables p) 1 100000 (lit ''docx_max_tables''),
      require_range (op_docx_table_max_rows p) 1 1048576 (lit ''docx_table_max_rows''),
      require_range (op_docx_table_max_cols p) 1 16384 (lit ''docx_table_max_cols''),
      require_range (op_pptx_max_slides p) 1 100000 (lit ''pptx_max_slides''),
      require_range (op_document_excerpt_max_chars p) 1 10000000
        (lit ''document_excerpt_max_chars'')]"

record pdf_parse_profile =
  pp_selection_policy_version :: rstring
  pp_backend :: rstring
  pp_max_pages :: u64
  pp_excerpt_max_chars :: u64

definition pdf_policies :: "rstring set" where
  "pdf_policies = {lit ''pdf_text_presence_v1'', lit ''pdf_text_presence_v2''}"

definition validate_pdf_parse_profile :: "pdf_parse_profile \<Rightarrow> check" where
  "validate_pdf_parse_profile p = validate_all
     [require (pp_selection_policy_version p \<in> pdf_policies)
        (lit ''unsupported PDF selection policy''),
      require_non_empty (pp_backend p) 1024 (lit ''pdf.backend''),
      require_range (pp_max_pages p) 1 10000 (lit ''pdf.max_pages''),
      require_range (pp_excerpt_max_chars p) 1 10000000 (lit ''pdf.excerpt_max_chars'')]"

record parse_profile =
  pr_cache_payload_version :: u64
  pr_excerpt_policy_version :: rstring
  pr_excerpt_priority_paths :: "rstring list"
  pr_aggregate_max_chars :: u64
  pr_text :: text_parse_profile
  pr_office :: office_parse_profile
  pr_pdf :: pdf_parse_profile

definition validate_excerpt_priority_paths :: "rstring list \<Rightarrow> check" where
  "validate_excerpt_priority_paths paths = validate_all
     (require (length paths \<le> 4096) (lit ''excerpt_priority_paths contains too many items'')
      # map (\<lambda>path. require_relative_path path (lit ''excerpt_priority_paths'')) paths)"

definition excerpt_policies :: "rstring set" where
  "excerpt_policies = set (map (\<lambda>d. lit ''fair_semantic_v'' @ dec d) [1..<10])"

definition validate_parse_profile :: "parse_profile \<Rightarrow> check" where
  "validate_parse_profile p = validate_all
     [require (pr_cache_payload_version p = 1 \<and> pr_excerpt_policy_version p \<in> excerpt_policies)
        (lit ''parse evidence policies are unsupported''),
      validate_excerpt_priority_paths (pr_excerpt_priority_paths p),
      require_sorted_unique (pr_excerpt_priority_paths p) (lit ''excerpt_priority_paths''),
      require_range (pr_aggregate_max_chars p) 1 10000000 (lit ''aggregate_max_chars''),
      validate_text_parse_profile (pr_text p),
      validate_office_parse_profile (pr_office p),
      validate_pdf_parse_profile (pr_pdf p)]"

record context_profile =
  cp_profile_name :: rstring
  cp_global_max_chars :: u64
  cp_per_file_max_chars :: u64
  cp_small_file_max_bytes :: u64
  cp_medium_file_max_bytes :: u64
  cp_large_file_max_bytes :: u64
  cp_priority_policy_version :: rstring
  cp_compression_policy_version :: rstring

definition validate_context_profile :: "context_profile \<Rightarrow> check" where
  "validate_context_profile p = validate_all
     [require_range (cp_global_max_chars p) 1 10000000 (lit ''global_max_chars''),
      require_range (cp_per_file_max_chars p) 1 10000000 (lit ''per_file_max_chars''),
      require (cp_small_file_max_bytes p = 65536 \<and> cp_medium_file_max_bytes p = 1048576
               \<and> cp_large_file_max_bytes p = 10485760
               \<and> cp_per_file_max_chars p \<le> cp_global_max_chars p)
        (lit ''context thresholds or budgets violate v2''),
      require_const (cp_priority_policy_version p) PRIORITY_POLICY_VERSION
        (lit ''priority_policy_version''),
      require_const (cp_compression_policy_version p) COMPRESSION_POLICY_VERSION
        (lit ''compression_policy_version'')]"

section \<open>Normalised settings\<close>

record normalized_settings =
  ns_report_mode :: report_mode
  ns_discovery :: discovery_profile
  ns_execution :: execution_profile
  ns_parse :: parse_profile
  ns_context :: context_profile
  ns_admission_policy_version :: rstring
  ns_classifier_policy_version :: rstring
  ns_max_candidate_files :: u64
  ns_max_pdf_text_extractions :: u64
  ns_max_total_pdf_classification_pages :: u64
  ns_pdf_classification_timeout_ms :: u64
  ns_total_deadline_ms :: u64
  ns_worker_max_requests :: u64
  ns_worker_idle_ttl_ms :: u64
  ns_worker_rss_limit_bytes :: u64

fun mode_context :: "report_mode \<Rightarrow> rstring \<times> u64 \<times> u64" where
  "mode_context Daily = (lit ''daily_balanced_v1'', 500000, 100000)"
| "mode_context Weekly = (lit ''weekly_balanced_v1'', 500000, 100000)"
| "mode_context Monthly = (lit ''monthly_balanced_v1'', 500000, 100000)"

definition validate_normalized_settings :: "normalized_settings \<Rightarrow> check" where
  "validate_normalized_settings s = validate_all
     [validate_discovery_profile (ns_discovery s),
      validate_execution_profile (ns_execution s),
      validate_parse_profile (ns_parse s),
      validate_context_profile (ns_context s),
      require ((cp_profile_name (ns_context s), cp_global_max_chars (ns_context s),
                cp_per_file_max_chars (ns_context s)) = mode_context (ns_report_mode s))
        (lit ''report mode and normalized context profile do not match''),
      require (ns_admission_policy_version s
               \<in> {lit ''budget_admission_v2'', lit ''budget_refill_v3''})
        (lit ''unsupported admission_policy_version''),
      require (ns_classifier_policy_version s \<in> pdf_policies)
        (lit ''unsupported classifier policy''),
      require_range (ns_max_candidate_files s) 1 1000000 (lit ''max_candidate_files''),
      require_range (ns_max_pdf_text_extractions s) 0 100000 (lit ''max_pdf_text_extractions''),
      require_range (ns_max_total_pdf_classification_pages s) 0 10000000
        (lit ''max_total_pdf_classification_pages''),
      require_range (ns_pdf_classification_timeout_ms s) 100 60000
        (lit ''pdf_classification_timeout_ms''),
      require_range (ns_total_deadline_ms s) 5000 3600000 (lit ''total_deadline_ms''),
      require_range (ns_worker_max_requests s) 1 10000 (lit ''worker_max_requests''),
      require_range (ns_worker_idle_ttl_ms s) 1000 600000 (lit ''worker_idle_ttl_ms''),
      require_range (ns_worker_rss_limit_bytes s) 67108864 8589934592
        (lit ''worker_rss_limit_bytes'')]"

text \<open>What every client of valid settings uses.\<close>

lemma valid_settings_context:
  assumes "validate_normalized_settings s = Ok ()"
  shows "cp_global_max_chars (ns_context s) = 500000"
    and "cp_per_file_max_chars (ns_context s) = 100000"
  using assms
  by (cases "ns_report_mode s"; simp add: validate_normalized_settings_def)+

lemma valid_settings_quotas:
  assumes "validate_normalized_settings s = Ok ()"
  shows "1 \<le> ns_max_candidate_files s" and "ns_max_candidate_files s \<le> 1000000"
    and "ns_max_total_pdf_classification_pages s \<le> 10000000"
    and "5000 \<le> ns_total_deadline_ms s" and "ns_total_deadline_ms s \<le> 3600000"
  using assms
  by (simp_all add: validate_normalized_settings_def)

lemma valid_settings_pages:
  assumes "validate_normalized_settings s = Ok ()"
  shows "1 \<le> pp_max_pages (pr_pdf (ns_parse s))" and "pp_max_pages (pr_pdf (ns_parse s)) \<le> 10000"
  using assms
  by (simp_all add: validate_normalized_settings_def validate_parse_profile_def
      validate_pdf_parse_profile_def)

lemma valid_settings_workers:
  assumes "validate_normalized_settings s = Ok ()"
  shows "1 \<le> ep_max_workers (ns_execution s)"
  using assms
  by (simp add: validate_normalized_settings_def validate_execution_profile_def
     )

text \<open>The compiled daily defaults, used by the examples of the later theories.\<close>

definition daily_settings :: normalized_settings where
  "daily_settings =
    \<lparr>ns_report_mode = Daily,
     ns_discovery = \<lparr>dp_allowed_extensions =
         [lit ''.csv'', lit ''.docx'', lit ''.json'', lit ''.log'', lit ''.md'', lit ''.pdf'',
          lit ''.pptx'', lit ''.txt'', lit ''.xls'', lit ''.xlsx''],
       dp_ignored_patterns = [lit ''*.tmp'', lit ''~$*''], dp_excluded_dirs = [],
       dp_follow_symlinks = False, dp_cloud_files_policy = lit ''local_only''\<rparr>,
     ns_execution = \<lparr>ep_max_workers = 4, ep_max_file_size_bytes = 52428800,
       ep_discovery_timeout_ms = 30000, ep_file_timeout_ms = 30000,
       ep_file_timeout_by_extension_ms =
         [(lit ''.pdf'', 45000), (lit ''.xls'', 60000), (lit ''.xlsx'', 60000)]\<rparr>,
     ns_parse = \<lparr>pr_cache_payload_version = 1, pr_excerpt_policy_version = lit ''fair_semantic_v9'',
       pr_excerpt_priority_paths = [], pr_aggregate_max_chars = 500000,
       pr_text = \<lparr>tp_csv_encodings = default_csv_encodings, tp_backend = lit ''light_text_v2'',
         tp_read_head_bytes = 262144, tp_read_tail_bytes = 262144, tp_max_chars = 6000,
         tp_excerpt_max_chars = 6000\<rparr>,
       pr_office = \<lparr>op_primary_backend = lit ''rust_office_oxide_v2'',
         op_legacy_extensions_enabled = False, op_excel_max_sheets = 5, op_excel_max_rows = 50,
         op_excel_max_columns = 20, op_docx_max_paragraphs = 200, op_docx_max_tables = 20,
         op_docx_table_max_rows = 50, op_docx_table_max_cols = 12, op_pptx_max_slides = 50,
         op_pptx_include_notes = True, op_document_excerpt_max_chars = 6000\<rparr>,
       pr_pdf = \<lparr>pp_selection_policy_version = CLASSIFIER_POLICY_VERSION,
         pp_backend = lit ''rust_pdfium_v3'', pp_max_pages = 5, pp_excerpt_max_chars = 6000\<rparr>\<rparr>,
     ns_context = \<lparr>cp_profile_name = lit ''daily_balanced_v1'', cp_global_max_chars = 500000,
       cp_per_file_max_chars = 100000, cp_small_file_max_bytes = 65536,
       cp_medium_file_max_bytes = 1048576, cp_large_file_max_bytes = 10485760,
       cp_priority_policy_version = PRIORITY_POLICY_VERSION,
       cp_compression_policy_version = COMPRESSION_POLICY_VERSION\<rparr>,
     ns_admission_policy_version = ADMISSION_POLICY_VERSION,
     ns_classifier_policy_version = CLASSIFIER_POLICY_VERSION,
     ns_max_candidate_files = 96, ns_max_pdf_text_extractions = 8,
     ns_max_total_pdf_classification_pages = 80, ns_pdf_classification_timeout_ms = 2000,
     ns_total_deadline_ms = 10000, ns_worker_max_requests = 128, ns_worker_idle_ttl_ms = 30000,
     ns_worker_rss_limit_bytes = 536870912\<rparr>"

lemma daily_settings_valid: "validate_normalized_settings daily_settings = Ok ()"
  by (simp add: validate_normalized_settings_def daily_settings_def validate_discovery_profile_def
   validate_execution_profile_def validate_parse_profile_def validate_context_profile_def
   validate_extensions_def validate_strings_def is_extension_def lit_def is_ascii_upper_def excerpt_policies_def
   validate_excerpt_priority_paths_def validate_text_parse_profile_def validate_office_parse_profile_def
   validate_pdf_parse_profile_def pdf_policies_def CLASSIFIER_POLICY_VERSION_def ADMISSION_POLICY_VERSION_def
   validate_csv_encodings_def default_csv_encodings_def upt_rec dec.simps)

end
