(* ===== verification/Nominal.thy ===== *)
theory Nominal
  imports Prelude
begin

text \<open>
  \<open>src/rust/scanner_core/src/nominal.rs\<close>: the sort key used for planning, quota allocation,
  result merging, decisions and presentation. \<open>NominalKey\<close> derives \<open>Ord\<close>, so it is ordered
  field by field; here it is a datatype with that order as its \<open>linorder\<close> instance. The
  theory provides the locale \<open>ranked\<close> for the key of a path with a file identity.
\<close>

definition OFFICE_OR_PDF_EXTENSIONS :: "rstring list" where
  "OFFICE_OR_PDF_EXTENSIONS =
     [lit ''.doc'', lit ''.docx'', lit ''.pdf'', lit ''.ppt'', lit ''.pptx'', lit ''.xls'',
      lit ''.xlsm'', lit ''.xlsx'']"

definition TEXT_EXTENSIONS :: "rstring list" where
  "TEXT_EXTENSIONS = [lit ''.md'', lit ''.txt'']"

datatype nominal_key =
  NominalKey (nk_priority: u64) (nk_lower_path: rstring) (nk_path: rstring)
    (nk_file_identity: rstring)

section \<open>The derived order\<close>

fun key_tuple :: "nominal_key \<Rightarrow> u64 \<times> rstring \<times> rstring \<times> rstring" where
  "key_tuple (NominalKey p l s i) = (p, l, s, i)"

lemma key_tuple_eq [simp]: "key_tuple a = key_tuple b \<longleftrightarrow> a = b"
  by (cases a; cases b) auto

instantiation nominal_key :: linorder
begin

definition less_eq_nominal_key :: "nominal_key \<Rightarrow> nominal_key \<Rightarrow> bool" where
  "less_eq_nominal_key a b \<longleftrightarrow> key_tuple a \<le> key_tuple b"

definition less_nominal_key :: "nominal_key \<Rightarrow> nominal_key \<Rightarrow> bool" where
  "less_nominal_key a b \<longleftrightarrow> key_tuple a < key_tuple b"

instance
proof
  fix a b c :: nominal_key
  show "a < b \<longleftrightarrow> a \<le> b \<and> \<not> b \<le> a"
    by (simp only: less_eq_nominal_key_def less_nominal_key_def less_le_not_le)
  show "a \<le> a" by (simp add: less_eq_nominal_key_def)
  show "a \<le> b \<Longrightarrow> b \<le> c \<Longrightarrow> a \<le> c" by (simp add: less_eq_nominal_key_def)
  show "a \<le> b \<Longrightarrow> b \<le> a \<Longrightarrow> a = b" by (simp add: less_eq_nominal_key_def)
  show "a \<le> b \<or> b \<le> a" by (auto simp: less_eq_nominal_key_def)
qed

end

section \<open>Keys of paths\<close>

text \<open>A slash becomes a backslash, separators are trimmed at both ends, the rest is lowered.\<close>

definition replace_char :: "rchar \<Rightarrow> rchar \<Rightarrow> rstring \<Rightarrow> rstring" where
  "replace_char a b s = map (\<lambda>c. if c = a then b else c) s"

definition normalize_lower :: "(rstring \<Rightarrow> rstring) \<Rightarrow> rstring \<Rightarrow> rstring" where
  "normalize_lower uni relative_path =
     to_lowercase uni (trim_by (\<lambda>c. c = backslash) (replace_char slash backslash relative_path))"

definition priority_for :: "rstring \<Rightarrow> rstring \<Rightarrow> u64" where
  "priority_for lower_path extension =
     (let path_key = [backslash] @ lower_path @ [backslash] in
      if contains path_key ([backslash] @ lit ''.pytest_cache'' @ [backslash])
         \<or> contains path_key ([backslash] @ lit ''data'' @ [backslash] @ lit ''benchmarks'' @ [backslash])
      then 70
      else if contains path_key ([backslash] @ lit ''logs'' @ [backslash]) then 60
      else if extension \<in> set OFFICE_OR_PDF_EXTENSIONS then 20
      else if extension \<in> set TEXT_EXTENSIONS then 30
      else 50)"

definition nominal_rank ::
  "(rstring \<Rightarrow> rstring) \<Rightarrow> rstring \<Rightarrow> rstring \<Rightarrow> u64 \<times> rstring \<times> rstring \<times> rstring" where
  "nominal_rank uni relative_path extension =
     (priority_for (normalize_lower uni relative_path) extension,
      to_lowercase uni relative_path, relative_path, [])"

definition NominalKey_new ::
  "(rstring \<Rightarrow> rstring) \<Rightarrow> rstring \<Rightarrow> rstring \<Rightarrow> rstring \<Rightarrow> nominal_key" where
  "NominalKey_new uni relative_path extension file_identity =
     NominalKey (priority_for (normalize_lower uni relative_path) extension)
       (to_lowercase uni relative_path) relative_path file_identity"

lemma NominalKey_new_sel [simp]:
  "nk_priority (NominalKey_new uni p e i) = priority_for (normalize_lower uni p) e"
  "nk_file_identity (NominalKey_new uni p e i) = i"
  "nk_path (NominalKey_new uni p e i) = p"
  by (simp_all add: NominalKey_new_def)

lemma NominalKey_new_ident:
  "NominalKey_new uni p e i = NominalKey_new uni p' e' i' \<Longrightarrow> i = i'"
  by (simp add: NominalKey_new_def)

lemma nominal_key_priority_mono: "a \<le> b \<Longrightarrow> nk_priority a \<le> nk_priority b"
  by (cases a; cases b) (auto simp: less_eq_nominal_key_def less_eq_prod_def)

lemma NominalKey_le [simp]:
  "p < q \<Longrightarrow> NominalKey p l s i \<le> NominalKey q l' s' i'"
  "p < q \<Longrightarrow> \<not> NominalKey q l s i \<le> NominalKey p l' s' i'"
  by (simp_all add: less_eq_nominal_key_def)

lemma priority_for_range: "priority_for l e \<in> {20, 30, 50, 60, 70}"
  by (auto simp: priority_for_def Let_def)

text \<open>
  The key of any structure that carries a path, an extension and an identity. The
  components below it (plans, decisions, omitted rows) instantiate it with their fields.
\<close>

definition nominal_key_of ::
  "(rstring \<Rightarrow> rstring) \<Rightarrow> ('a \<Rightarrow> rstring) \<Rightarrow> ('a \<Rightarrow> rstring) \<Rightarrow> ('a \<Rightarrow> rstring) \<Rightarrow> 'a \<Rightarrow> nominal_key" where
  "nominal_key_of uni path ext ident x = NominalKey_new uni (path x) (ext x) (ident x)"

text \<open>What evaluates a key on a literal path.\<close>

lemmas nominal_eval =
  nominal_key_of_def NominalKey_new_def to_lowercase_def lit_def ascii_to_lower_def
  is_ascii_upper_def priority_for_def normalize_lower_def replace_char_def trim_by_def
  trim_end_by_def OFFICE_OR_PDF_EXTENSIONS_def TEXT_EXTENSIONS_def

interpretation nominal: ranked "nominal_key_of uni path ext ident" ident
  for uni path ext ident
  by unfold_locales (auto simp: nominal_key_of_def dest: NominalKey_new_ident)

text \<open>Priorities of a sorted list rise: no lower class is ever placed before a higher one.\<close>

lemma sort_nominal_priorities:
  "sorted (map (\<lambda>x. nk_priority (nominal_key_of uni path ext ident x))
     (sort_key (nominal_key_of uni path ext ident) xs))"
proof -
  have "sorted (map (nominal_key_of uni path ext ident) (sort_key (nominal_key_of uni path ext ident) xs))"
    by simp
  then show ?thesis
    by (simp add: sorted_map) (erule sorted_wrt_mono_rel [rotated], simp add: nominal_key_priority_mono)
qed

end
