(* ===== verification/Budget_Model.thy ===== *)
theory Budget_Model
  imports Scanner_Settings Nominal
begin

text \<open>
  \<open>src/rust/scanner_core/src/budget_model.rs\<close>: the character budget. The model freezes the
  reservation of the omitted summary, prices every admitted file with the worst case of its
  three possible sections and decides whether a file fits. Plain \<open>+\<close> and \<open>sum\<close> in the source
  add lengths of strings in memory and are modelled on \<open>nat\<close>; the saturating and checked
  operations keep their bound. The contract towards the admission plan is the locale
  \<open>char_budget\<close>.
\<close>

section \<open>Constants\<close>

definition OMITTED_SUMMARY_RESERVATION_CAP :: u64 where "OMITTED_SUMMARY_RESERVATION_CAP = 12000"
definition OMITTED_RESERVATION_FRACTION_PERCENT :: u64 where
  "OMITTED_RESERVATION_FRACTION_PERCENT = 20"
definition MAX_U64_DIGITS :: u64 where "MAX_U64_DIGITS = 20"
definition MAX_SECTION_REASON_CHARS :: u64 where "MAX_SECTION_REASON_CHARS = 64"
definition MAX_SECTION_TEXT_CHARS :: u64 where "MAX_SECTION_TEXT_CHARS = 64"
definition MAX_EXTENSION_CHARS :: u64 where "MAX_EXTENSION_CHARS = 32"
definition SECTION_SEPARATOR_CHARS :: u64 where "SECTION_SEPARATOR_CHARS = 2"
definition MAX_OMITTED_REASON_CHARS :: u64 where "MAX_OMITTED_REASON_CHARS = 64"

lemmas budget_consts =
  OMITTED_SUMMARY_RESERVATION_CAP_def OMITTED_RESERVATION_FRACTION_PERCENT_def
  MAX_U64_DIGITS_def MAX_SECTION_REASON_CHARS_def MAX_SECTION_TEXT_CHARS_def
  MAX_EXTENSION_CHARS_def SECTION_SEPARATOR_CHARS_def MAX_OMITTED_REASON_CHARS_def

definition count_chars :: "rstring \<Rightarrow> u64" where
  "count_chars value = length value"

section \<open>Budget errors\<close>

datatype budget_error = FixedSectionsOverBudget | ModelMismatch

fun budget_error_code :: "budget_error \<Rightarrow> rstring" where
  "budget_error_code FixedSectionsOverBudget = lit ''CONTEXT_FIXED_SECTIONS_OVER_BUDGET''"
| "budget_error_code ModelMismatch = lit ''BUDGET_MODEL_MISMATCH''"

fun budget_error_message :: "budget_error \<Rightarrow> rstring" where
  "budget_error_message FixedSectionsOverBudget =
     lit ''fixed context sections exceed the global character budget''"
| "budget_error_message ModelMismatch =
     lit ''rendered context exceeded the reserved budget delta''"

definition budget_error_display :: "budget_error \<Rightarrow> rstring" where
  "budget_error_display e = budget_error_code e @ lit '': '' @ budget_error_message e"

definition budget_model_mismatch :: "rstring \<Rightarrow> rstring" where
  "budget_model_mismatch context = lit ''BUDGET_MODEL_MISMATCH'' @ lit '': '' @ context"

section \<open>Parser routes\<close>

datatype route_kind = LightText | RustOffice | RustXlsx | Pdf | RustXls | RustLegacyOffice

fun route_backend :: "route_kind \<Rightarrow> rstring" where
  "route_backend LightText = lit ''light_text_v2''"
| "route_backend RustOffice = lit ''rust_office_oxide_v2''"
| "route_backend RustXlsx = lit ''rust_xlsx_bounded_v2''"
| "route_backend Pdf = lit ''rust_pdfium_v3''"
| "route_backend RustXls = lit ''rust_xls_calamine_v3''"
| "route_backend RustLegacyOffice = lit ''rust_legacy_office_v3''"

fun route_worker_lane :: "route_kind \<Rightarrow> rstring" where
  "route_worker_lane LightText = lit ''rust_core''"
| "route_worker_lane RustOffice = lit ''rust_office_process_v3''"
| "route_worker_lane RustXlsx = lit ''rust_office_process_v3''"
| "route_worker_lane RustXls = lit ''rust_office_process_v3''"
| "route_worker_lane RustLegacyOffice = lit ''rust_office_process_v3''"
| "route_worker_lane Pdf = lit ''rust_pdf_process_v3''"

fun max_excerpt_chars :: "route_kind \<Rightarrow> normalized_settings \<Rightarrow> u64" where
  "max_excerpt_chars LightText profile =
     min (tp_max_chars (pr_text (ns_parse profile)))
         (tp_excerpt_max_chars (pr_text (ns_parse profile)))"
| "max_excerpt_chars Pdf profile = pp_excerpt_max_chars (pr_pdf (ns_parse profile))"
| "max_excerpt_chars _ profile = op_document_excerpt_max_chars (pr_office (ns_parse profile))"

record route_hint =
  rh_relative_path :: rstring
  rh_extension :: rstring
  rh_backend :: rstring
  rh_worker_lane :: rstring
  rh_max_excerpt_chars :: u64

section \<open>The reservation of the omitted summary\<close>

definition omitted_summary_reservation :: "u64 \<Rightarrow> u64" where
  "omitted_summary_reservation global_max_chars =
     min (saturating_mul global_max_chars OMITTED_RESERVATION_FRACTION_PERCENT div 100)
         OMITTED_SUMMARY_RESERVATION_CAP"

definition max_omitted_row_chars :: "rstring \<Rightarrow> u64" where
  "max_omitted_row_chars relative_path =
     count_chars (lit ''- '') + count_chars relative_path
     + count_chars (lit '' | action=omit | reason='') + MAX_OMITTED_REASON_CHARS
     + count_chars (lit '' | input_chars='') + MAX_U64_DIGITS + 1"

text \<open>The two titles of the omitted summary and the label of its catch-all row.\<close>

definition omitted_title :: rstring where
  "omitted_title = lit ''## '' @ [0x7701, 0x7565, 0x6587, 0x4EF6, 0x6458, 0x8981]"

definition omitted_count_label :: rstring where
  "omitted_count_label = lit ''- '' @ [0x7701, 0x7565, 0x6587, 0x4EF6, 0x6570] @ lit '': ''"

definition omitted_other_label :: rstring where
  "omitted_other_label = lit ''- '' @ [0x5176, 0x4ED6] @ lit '' | action=omit | count=''"

definition nines :: rstring where
  "nines = replicate MAX_U64_DIGITS 57"

definition omitted_summary_fixed_chars :: u64 where
  "omitted_summary_fixed_chars =
     count_chars (omitted_title @ [nl] @ omitted_count_label @ nines @ [nl])
     + count_chars (omitted_other_label @ nines @ [nl]) + SECTION_SEPARATOR_CHARS"

lemma omitted_summary_fixed_chars_value: "omitted_summary_fixed_chars = 90"
  by (simp add: omitted_summary_fixed_chars_def count_chars_def omitted_title_def
      omitted_count_label_def omitted_other_label_def nines_def budget_consts)

record omitted_candidate =
  oc_file_identity :: rstring
  oc_relative_path :: rstring
  oc_extension :: rstring

type_synonym slot_key = omitted_candidate

record omitted_summary_plan =
  os_reservation :: u64
  os_detail_slots :: "slot_key list"

definition omitted_row_cost :: "omitted_candidate \<Rightarrow> u64" where
  "omitted_row_cost file = max_omitted_row_chars (oc_relative_path file) + 1"

fun select_slots :: "u64 \<Rightarrow> u64 \<Rightarrow> omitted_candidate list \<Rightarrow> slot_key list" where
  "select_slots reservation used [] = []"
| "select_slots reservation used (file # files) =
     (let row_cost = omitted_row_cost file in
      if saturating_add used row_cost \<le> reservation
      then file # select_slots reservation (used + row_cost) files
      else [])"

abbreviation omitted_key :: "(rstring \<Rightarrow> rstring) \<Rightarrow> omitted_candidate \<Rightarrow> nominal_key" where
  "omitted_key uni \<equiv> nominal_key_of uni oc_relative_path oc_extension oc_file_identity"

definition OmittedSummaryPlan_build ::
  "(rstring \<Rightarrow> rstring) \<Rightarrow> omitted_candidate list \<Rightarrow> u64 \<Rightarrow> omitted_summary_plan" where
  "OmittedSummaryPlan_build uni files global_max_chars =
     (let reservation = omitted_summary_reservation global_max_chars;
          ordered = sort_key (omitted_key uni) files
      in \<lparr>os_reservation = reservation,
          os_detail_slots = select_slots reservation omitted_summary_fixed_chars ordered\<rparr>)"

section \<open>Pricing a file section\<close>

definition key_value_line :: "rstring \<Rightarrow> u64 \<Rightarrow> u64" where
  "key_value_line label value_chars = count_chars label + value_chars + 1"

definition heading_chars :: "u64 \<Rightarrow> u64" where
  "heading_chars path_chars = path_chars + count_chars (lit ''### '') + 1"

text \<open>The truncation notice of a body, between two line breaks.\<close>

definition truncated_note_text :: rstring where
  "truncated_note_text = lit ''- '' @ [0x5185, 0x5BB9, 0x5DF2, 0x6309, 0x5355, 0x6587, 0x4EF6,
     0x9884, 0x7B97, 0x6216, 0x89E3, 0x6790, 0x9884, 0x7B97, 0x622A, 0x65AD]"

definition success_section_max :: "u64 \<Rightarrow> u64 \<Rightarrow> u64" where
  "success_section_max path_chars body_chars =
     heading_chars path_chars
     + key_value_line (lit ''- action: '') MAX_SECTION_TEXT_CHARS
     + key_value_line (lit ''- reason: '') MAX_SECTION_REASON_CHARS
     + key_value_line (lit ''- parser_backend: '') MAX_SECTION_TEXT_CHARS
     + key_value_line (lit ''- worker_lane: '') MAX_SECTION_TEXT_CHARS
     + key_value_line (lit ''- input_chars: '') (MAX_U64_DIGITS + 1)
     + key_value_line (lit ''- output_chars: '') MAX_U64_DIGITS
     + count_chars ([nl] @ truncated_note_text @ [nl])
     + count_chars (lit ''```text'' @ [nl])
     + body_chars
     + count_chars ([nl] @ lit ''```'' @ [nl])
     + SECTION_SEPARATOR_CHARS"

definition metadata_section_max :: "u64 \<Rightarrow> u64" where
  "metadata_section_max path_chars =
     heading_chars path_chars
     + key_value_line (lit ''- action: '') (count_chars (lit ''metadata_only''))
     + key_value_line (lit ''- reason: '') MAX_SECTION_REASON_CHARS
     + key_value_line (lit ''- parser_backend: '') MAX_SECTION_TEXT_CHARS
     + key_value_line (lit ''- worker_lane: '') MAX_SECTION_TEXT_CHARS
     + key_value_line (lit ''- file_type: '') MAX_EXTENSION_CHARS
     + key_value_line (lit ''- size_bytes: '') MAX_U64_DIGITS
     + key_value_line (lit ''- input_chars: '') (MAX_U64_DIGITS + 1)
     + count_chars (lit ''- body: omitted_by_metadata_only_policy'' @ [nl])
     + SECTION_SEPARATOR_CHARS"

definition bounded_error_section_max :: "u64 \<Rightarrow> u64" where
  "bounded_error_section_max path_chars =
     count_chars (lit ''- '') + path_chars + count_chars (lit '' | reason='')
     + MAX_SECTION_REASON_CHARS + count_chars (lit '' | error='') + MAX_SECTION_TEXT_CHARS
     + 1 + SECTION_SEPARATOR_CHARS"

lemmas section_max_defs =
  success_section_max_def metadata_section_max_def bounded_error_section_max_def
  key_value_line_def heading_chars_def truncated_note_text_def count_chars_def budget_consts

section \<open>The budget\<close>

record context_budget_model =
  bm_global_max_chars :: u64
  bm_per_file_max_chars :: u64
  bm_base_chars :: u64
  bm_omitted_summary_reservation :: u64

definition fixed_exact_chars :: "rstring list \<Rightarrow> u64" where
  "fixed_exact_chars fixed_sections =
     sum_list (map count_chars fixed_sections) + length fixed_sections * SECTION_SEPARATOR_CHARS"

definition ContextBudgetModel_new ::
  "context_profile \<Rightarrow> rstring list \<Rightarrow> (context_budget_model, budget_error) result" where
  "ContextBudgetModel_new profile fixed_sections =
     (let exact = fixed_exact_chars fixed_sections;
          omitted = omitted_summary_reservation (cp_global_max_chars profile)
      in and_then (ok_or ModelMismatch (checked_add exact omitted))
           (\<lambda>base. if cp_global_max_chars profile < base then Err FixedSectionsOverBudget
             else Ok \<lparr>bm_global_max_chars = cp_global_max_chars profile,
                      bm_per_file_max_chars = cp_per_file_max_chars profile,
                      bm_base_chars = base,
                      bm_omitted_summary_reservation = omitted\<rparr>))"

definition reserved_delta :: "context_budget_model \<Rightarrow> route_hint \<Rightarrow> u64 option \<Rightarrow> u64" where
  "reserved_delta m route size_bytes =
     (let path_chars = count_chars (rh_relative_path route);
          body_max = min (bm_per_file_max_chars m) (rh_max_excerpt_chars route);
          success = success_section_max path_chars body_max;
          metadata = metadata_section_max path_chars;
          error = bounded_error_section_max path_chars
      in max (max success metadata) error)"

definition admits :: "context_budget_model \<Rightarrow> u64 \<Rightarrow> u64 \<Rightarrow> bool" where
  "admits m running delta \<longleftrightarrow>
     saturating_add (saturating_add (bm_base_chars m) running) delta \<le> bm_global_max_chars m"

definition check_rendered_within_reserved ::
  "context_budget_model \<Rightarrow> u64 \<Rightarrow> u64 \<Rightarrow> (unit, budget_error) result" where
  "check_rendered_within_reserved m rendered_chars reserved_chars =
     (if rendered_chars \<le> reserved_chars then Ok () else Err ModelMismatch)"

section \<open>The contract towards admission\<close>

text \<open>
  A client keeps a running total and asks before it adds to it. The provider promises that
  its answer is exact on well-formed models, so that a client which adds only what is
  admitted never leaves the limit, and never has to fear that the running total saturates.
\<close>

locale char_budget =
  fixes wf :: "'m \<Rightarrow> bool"
    and base :: "'m \<Rightarrow> u64"
    and limit :: "'m \<Rightarrow> u64"
    and fits :: "'m \<Rightarrow> u64 \<Rightarrow> u64 \<Rightarrow> bool"
  assumes fits_iff: "wf m \<Longrightarrow> fits m running delta \<longleftrightarrow> base m + running + delta \<le> limit m"
    and limit_bound: "wf m \<Longrightarrow> limit m < u64_max"
begin

lemma fits_keeps_limit: "wf m \<Longrightarrow> fits m running delta \<Longrightarrow> base m + (running + delta) \<le> limit m"
  by (simp add: fits_iff)

lemma fits_no_saturation:
  "wf m \<Longrightarrow> fits m running delta \<Longrightarrow> saturating_add running delta = running + delta"
  using fits_iff [of m running delta] limit_bound [of m] by (simp add: saturating_add_def)

lemma fits_antimono:
  "wf m \<Longrightarrow> fits m running delta \<Longrightarrow> running' \<le> running \<Longrightarrow> delta' \<le> delta \<Longrightarrow> fits m running' delta'"
  by (simp add: fits_iff)

end

definition wf_budget :: "context_budget_model \<Rightarrow> bool" where
  "wf_budget m \<longleftrightarrow> bm_base_chars m \<le> bm_global_max_chars m \<and> bm_global_max_chars m < u64_max"

interpretation bm: char_budget wf_budget bm_base_chars bm_global_max_chars admits
proof
  fix m running delta
  assume "wf_budget m"
  then show "bm_global_max_chars m < u64_max" by (simp add: wf_budget_def)
  then show "admits m running delta \<longleftrightarrow> bm_base_chars m + running + delta \<le> bm_global_max_chars m"
    by (auto simp: admits_def saturating_add_def)
qed

lemma ContextBudgetModel_new_Ok:
  assumes "ContextBudgetModel_new profile fixed = Ok m"
  shows "bm_base_chars m = fixed_exact_chars fixed + omitted_summary_reservation (cp_global_max_chars profile)"
    and "bm_base_chars m \<le> bm_global_max_chars m"
    and "bm_global_max_chars m = cp_global_max_chars profile"
    and "bm_per_file_max_chars m = cp_per_file_max_chars profile"
  using assms by (auto simp: ContextBudgetModel_new_def Let_def split: if_splits)

lemma ContextBudgetModel_new_wf:
  assumes "ContextBudgetModel_new profile fixed = Ok m" and "cp_global_max_chars profile < u64_max"
  shows "wf_budget m"
  using assms(2) ContextBudgetModel_new_Ok [OF assms(1)] by (simp add: wf_budget_def)

lemma omitted_summary_reservation_fifth:
  "omitted_summary_reservation g \<le> g div 5"
  by (auto simp: omitted_summary_reservation_def budget_consts saturating_mul_def min_def)

lemma select_slots_prefix: "prefix (select_slots r u fs) fs"
  by (induction r u fs rule: select_slots.induct) (auto simp: Let_def)

lemma select_slots_cost:
  assumes "r < u64_max"
    and "u \<le> r"
  shows "u + sum_list (map omitted_row_cost (select_slots r u fs)) \<le> r"
  using assms
  by (induction r u fs rule: select_slots.induct)
    (auto simp: Let_def saturating_add_le_iff add.assoc)

text \<open>A slot list that stops early stops because the next row does not fit.\<close>

lemma select_slots_maximal:
  assumes "r < u64_max" and "length (select_slots r u fs) < length fs"
  shows "r < u + sum_list (map omitted_row_cost (take (Suc (length (select_slots r u fs))) fs))"
  using assms
  by (induction r u fs rule: select_slots.induct)
    (auto simp: Let_def saturating_add_le_iff add.assoc)

end
