(* ===== verification/Routing.thy ===== *)
theory Routing
  imports Budget_Model
begin

text \<open>
  Parser routing. \<open>classify_candidate\<close> and \<open>plan_candidates\<close> are the version 1 route table and
  planner (\<open>src/rust/scanner_core/src/classifier.rs\<close>, \<open>planner.rs\<close>); \<open>classify_candidate_v2\<close> is the table
  the admission plans freeze (\<open>admission.rs\<close>).
\<close>

section \<open>Discovered files\<close>

text \<open>\<open>DiscoveredFileOut\<close> of \<open>src/rust/discovery/src/lib.rs\<close>.\<close>

record discovered_file =
  df_file_identity :: rstring
  df_path :: rstring
  df_extension :: rstring
  df_modified_at :: rstring
  df_size_bytes :: u64
  df_source_version :: rstring
  df_source_guard_kind :: "rstring option"
  df_source_guard_sha256 :: "rstring option"

section \<open>Version 1 routes\<close>

datatype parser_route =
  RouteLightText | RouteRustOffice | RouteRustXlsx | RoutePdf | RouteRustXls | RouteRustLegacyOffice

fun parser_route_backend :: "parser_route \<Rightarrow> rstring" where
  "parser_route_backend RouteLightText = lit ''light_text_v2''"
| "parser_route_backend RouteRustOffice = lit ''rust_office_oxide_v2''"
| "parser_route_backend RouteRustXlsx = lit ''rust_xlsx_bounded_v2''"
| "parser_route_backend RoutePdf = lit ''rust_pdfium_v3''"
| "parser_route_backend RouteRustXls = lit ''rust_xls_calamine_v3''"
| "parser_route_backend RouteRustLegacyOffice = lit ''rust_legacy_office_v3''"

fun parser_route_worker_lane :: "parser_route \<Rightarrow> rstring" where
  "parser_route_worker_lane RouteLightText = lit ''rust_core''"
| "parser_route_worker_lane RoutePdf = lit ''rust_pdf_process_v3''"
| "parser_route_worker_lane _ = lit ''rust_office_process_v3''"

datatype classification_error =
  ErrFileTooLarge | ErrUnsupportedExtension | ErrUnsupportedBackend | ErrLegacyExtensionDisabled

definition classify_modern_office ::
  "rstring \<Rightarrow> parser_route \<Rightarrow> (parser_route, classification_error) result" where
  "classify_modern_office primary_backend rust_route =
     (if primary_backend = lit ''rust_office_oxide_v2'' then Ok rust_route
      else Err ErrUnsupportedBackend)"

definition light_text_extensions :: "rstring list" where
  "light_text_extensions = [lit ''.txt'', lit ''.md'', lit ''.csv'', lit ''.json'', lit ''.log'']"

definition classify_candidate ::
  "discovered_file \<Rightarrow> normalized_settings \<Rightarrow> (parser_route, classification_error) result" where
  "classify_candidate file profile =
     (let ext = df_extension file; office = pr_office (ns_parse profile) in
      if ep_max_file_size_bytes (ns_execution profile) < df_size_bytes file then Err ErrFileTooLarge
      else if ext \<notin> set (dp_allowed_extensions (ns_discovery profile))
      then Err ErrUnsupportedExtension
      else if ext \<in> set light_text_extensions then Ok RouteLightText
      else if ext = lit ''.xlsx'' then classify_modern_office (op_primary_backend office) RouteRustXlsx
      else if ext = lit ''.docx'' \<or> ext = lit ''.pptx''
      then classify_modern_office (op_primary_backend office) RouteRustOffice
      else if ext = lit ''.xls'' then Ok RouteRustXls
      else if ext = lit ''.pdf''
      then (if pp_backend (pr_pdf (ns_parse profile)) = lit ''rust_pdfium_v3'' then Ok RoutePdf
            else Err ErrUnsupportedBackend)
      else if ext = lit ''.doc'' \<or> ext = lit ''.ppt''
      then (if op_legacy_extensions_enabled office then Ok RouteRustLegacyOffice
            else Err ErrLegacyExtensionDisabled)
      else Err ErrUnsupportedExtension)"

datatype planner_action = PlannerParse parser_route | PlannerReject classification_error

record planned_file =
  pf_file :: discovered_file
  pf_action :: planner_action
  pf_timeout_ms :: u64

definition plan_candidates :: "discovered_file list \<Rightarrow> normalized_settings \<Rightarrow> planned_file list" where
  "plan_candidates files profile =
     map (\<lambda>file.
       \<lparr>pf_file = file,
        pf_action = (case classify_candidate file profile of
            Ok route \<Rightarrow> PlannerParse route | Err error \<Rightarrow> PlannerReject error),
        pf_timeout_ms =
          (case map_of (ep_file_timeout_by_extension_ms (ns_execution profile)) (df_extension file) of
             Some t \<Rightarrow> t | None \<Rightarrow> ep_file_timeout_ms (ns_execution profile))\<rparr>)
       (sort_key df_path files)"

section \<open>Version 2 routes\<close>

datatype not_parsed_reason =
    SemanticFileQuotaExhausted | PdfClassificationPageQuotaExhausted
  | PdfTextExtractionQuotaExhausted | GlobalContextBudgetExceeded | FileSizePolicy
  | LegacyExtensionDisabled

fun not_parsed_reason_text :: "not_parsed_reason \<Rightarrow> rstring" where
  "not_parsed_reason_text SemanticFileQuotaExhausted = lit ''semantic_file_quota_exhausted''"
| "not_parsed_reason_text PdfClassificationPageQuotaExhausted =
     lit ''pdf_classification_page_quota_exhausted''"
| "not_parsed_reason_text PdfTextExtractionQuotaExhausted =
     lit ''pdf_text_extraction_quota_exhausted''"
| "not_parsed_reason_text GlobalContextBudgetExceeded = lit ''global_context_budget_exceeded''"
| "not_parsed_reason_text FileSizePolicy = lit ''file_size_policy''"
| "not_parsed_reason_text LegacyExtensionDisabled = lit ''legacy_extension_disabled''"

datatype reject_reason = RejectProfileRouteInvariant | RejectSourceGuardUnavailable

fun reject_reason_text :: "reject_reason \<Rightarrow> rstring" where
  "reject_reason_text RejectProfileRouteInvariant = lit ''profile_route_invariant''"
| "reject_reason_text RejectSourceGuardUnavailable = lit ''source_guard_unavailable''"

record plan_candidate =
  pc_file_identity :: rstring
  pc_relative_path :: rstring
  pc_extension :: rstring
  pc_size_bytes :: u64
  pc_source_guard_kind :: source_guard_kind

datatype route_decision =
    DecisionRoute route_kind | PolicyNotParsed not_parsed_reason | InvariantReject reject_reason

definition office_route :: "rstring \<Rightarrow> route_kind \<Rightarrow> route_kind option" where
  "office_route primary_backend rust_route =
     (if primary_backend = lit ''rust_office_oxide_v2'' then Some rust_route else None)"

definition classify_candidate_v2 :: "plan_candidate \<Rightarrow> normalized_settings \<Rightarrow> route_decision" where
  "classify_candidate_v2 file profile =
     (let ext = pc_extension file; office = pr_office (ns_parse profile);
          finish = (\<lambda>route. case route of
             Some r \<Rightarrow> DecisionRoute r
           | None \<Rightarrow> InvariantReject RejectProfileRouteInvariant)
      in
      if ep_max_file_size_bytes (ns_execution profile) < pc_size_bytes file
      then PolicyNotParsed FileSizePolicy
      else if ext \<in> set light_text_extensions then finish (Some LightText)
      else if ext = lit ''.xlsx'' then finish (office_route (op_primary_backend office) RustXlsx)
      else if ext = lit ''.docx'' \<or> ext = lit ''.pptx''
      then finish (office_route (op_primary_backend office) RustOffice)
      else if ext = lit ''.xls'' then finish (Some RustXls)
      else if ext = lit ''.pdf''
      then finish (if pp_backend (pr_pdf (ns_parse profile)) = lit ''rust_pdfium_v3''
                   then Some Pdf else None)
      else if ext = lit ''.doc'' \<or> ext = lit ''.ppt''
      then (if op_legacy_extensions_enabled office then finish (Some RustLegacyOffice)
            else PolicyNotParsed LegacyExtensionDisabled)
      else finish None)"

section \<open>The two tables agree\<close>

fun route_kind_of :: "parser_route \<Rightarrow> route_kind" where
  "route_kind_of RouteLightText = LightText"
| "route_kind_of RouteRustOffice = RustOffice"
| "route_kind_of RouteRustXlsx = RustXlsx"
| "route_kind_of RoutePdf = Pdf"
| "route_kind_of RouteRustXls = RustXls"
| "route_kind_of RouteRustLegacyOffice = RustLegacyOffice"

text \<open>The adapter's translation (\<open>src/rust/scanner_core/src/scheduler_adapter.rs\<close>) is its inverse.\<close>

fun parser_route_of :: "route_kind \<Rightarrow> parser_route" where
  "parser_route_of LightText = RouteLightText"
| "parser_route_of RustOffice = RouteRustOffice"
| "parser_route_of RustXlsx = RouteRustXlsx"
| "parser_route_of Pdf = RoutePdf"
| "parser_route_of RustXls = RouteRustXls"
| "parser_route_of RustLegacyOffice = RouteRustLegacyOffice"

lemma route_kind_of_inverse: "route_kind_of (parser_route_of r) = r"
  by (cases r) simp_all

lemma route_kind_of_backend: "route_backend (route_kind_of r) = parser_route_backend r"
  by (cases r) simp_all

lemma route_kind_of_lane: "route_worker_lane (route_kind_of r) = parser_route_worker_lane r"
  by (cases r) simp_all

lemma length_route_backend: "length (route_backend r) \<le> 21"
  by (cases r) simp_all

lemma classify_agree:
  assumes "pc_extension c = df_extension f" and "pc_size_bytes c = df_size_bytes f"
    and "df_extension f \<in> set (dp_allowed_extensions (ns_discovery profile))"
  shows "classify_candidate_v2 c profile =
     (case classify_candidate f profile of
        Ok r \<Rightarrow> DecisionRoute (route_kind_of r)
      | Err ErrFileTooLarge \<Rightarrow> PolicyNotParsed FileSizePolicy
      | Err ErrLegacyExtensionDisabled \<Rightarrow> PolicyNotParsed LegacyExtensionDisabled
      | Err _ \<Rightarrow> InvariantReject RejectProfileRouteInvariant)"
  using assms
  by (simp add: classify_candidate_v2_def classify_candidate_def Let_def
      classify_modern_office_def office_route_def)

lemma classify_v2_Pdf_extension:
  "classify_candidate_v2 c profile = DecisionRoute Pdf \<Longrightarrow> pc_extension c = lit ''.pdf''"
  by (auto simp: classify_candidate_v2_def Let_def office_route_def split: if_splits option.splits)

lemma length_not_parsed_reason_text: "length (not_parsed_reason_text r) \<le> 39"
  by (cases r) simp_all

lemma length_reject_reason_text: "length (reject_reason_text r) \<le> 24"
  by (cases r) simp_all

end
