(* ===== verification/Admission.thy ===== *)
theory Admission
  imports Routing
begin

text \<open>
  \<open>src/rust/scanner_core/src/admission.rs\<close>: the two frozen plans. Stage A assigns candidate
  slots and classification pages before any classification, stage B assigns characters and
  extraction slots before any body is parsed. Both are single passes in nominal order
  (\<open>run_pass\<close>); the quota laws come from the locale \<open>ledger_pass\<close>, the order from \<open>ranked\<close>,
  the character law from the budget's contract \<open>char_budget\<close>.
\<close>

section \<open>Plans\<close>

datatype plan_action =
    Admit route_kind
  | PlanNotParsed not_parsed_reason
  | Reject reject_reason
  | ClassifierFailed pdf_classification_status

datatype pdf_classification_plan = NotPdf | Classify u64 | PlanNotClassified

record classified_plan =
  cl_file_identity :: rstring
  cl_relative_path :: rstring
  cl_extension :: rstring
  cl_priority :: u64
  cl_action :: plan_action
  cl_pdf_classification :: pdf_classification_plan

record pdf_classification_result =
  cr_file_identity :: rstring
  cr_status :: pdf_classification_status
  cr_page_count :: "u64 option"
  cr_result_examined_pages :: "u64 option"
  cr_error_code :: "rstring option"

record admission_decision =
  ad_file_identity :: rstring
  ad_relative_path :: rstring
  ad_extension :: rstring
  ad_priority :: u64
  ad_action :: plan_action
  ad_reserved_chars :: u64

fun is_admit :: "plan_action \<Rightarrow> bool" where
  "is_admit (Admit _) = True"
| "is_admit _ = False"

fun charged_pages :: "pdf_classification_plan \<Rightarrow> u64" where
  "charged_pages (Classify n) = n"
| "charged_pages _ = 0"

abbreviation candidate_key :: "(rstring \<Rightarrow> rstring) \<Rightarrow> plan_candidate \<Rightarrow> nominal_key" where
  "candidate_key uni \<equiv> nominal_key_of uni pc_relative_path pc_extension pc_file_identity"

abbreviation plan_key :: "(rstring \<Rightarrow> rstring) \<Rightarrow> classified_plan \<Rightarrow> nominal_key" where
  "plan_key uni \<equiv> nominal_key_of uni cl_relative_path cl_extension cl_file_identity"

section \<open>Stage A\<close>

definition classified_of ::
  "(rstring \<Rightarrow> rstring) \<Rightarrow> plan_candidate \<Rightarrow> plan_action \<Rightarrow> pdf_classification_plan \<Rightarrow> classified_plan" where
  "classified_of uni file action pdf =
     \<lparr>cl_file_identity = pc_file_identity file, cl_relative_path = pc_relative_path file,
      cl_extension = pc_extension file, cl_priority = nk_priority (candidate_key uni file),
      cl_action = action, cl_pdf_classification = pdf\<rparr>"

text \<open>Step 1: rejects without I/O; the rest are candidates with a route.\<close>

definition preselect ::
  "(rstring \<Rightarrow> rstring) \<Rightarrow> normalized_settings \<Rightarrow> plan_candidate \<Rightarrow>
     classified_plan + (plan_candidate \<times> route_kind)" where
  "preselect uni profile file =
     (case classify_candidate_v2 file profile of
        PolicyNotParsed reason \<Rightarrow> Inl (classified_of uni file (PlanNotParsed reason) NotPdf)
      | InvariantReject reason \<Rightarrow> Inl (classified_of uni file (Reject reason) NotPdf)
      | DecisionRoute route \<Rightarrow>
          if pc_source_guard_kind file = Unavailable
          then Inl (classified_of uni file (Reject RejectSourceGuardUnavailable) NotPdf)
          else Inr (file, route))"

fun lefts :: "('a + 'b) list \<Rightarrow> 'a list" where
  "lefts [] = []"
| "lefts (Inl a # xs) = a # lefts xs"
| "lefts (Inr b # xs) = lefts xs"

fun rights :: "('a + 'b) list \<Rightarrow> 'b list" where
  "rights [] = []"
| "rights (Inl a # xs) = rights xs"
| "rights (Inr b # xs) = b # rights xs"

text \<open>Step 2: one candidate against the remaining slots and pages.\<close>

definition stage_a_step ::
  "(rstring \<Rightarrow> rstring) \<Rightarrow> normalized_settings \<Rightarrow> bool \<Rightarrow> plan_candidate \<times> route_kind \<Rightarrow>
     u64 \<times> u64 \<Rightarrow> classified_plan \<times> (u64 \<times> u64)" where
  "stage_a_step uni profile allow_partial_pages fr quotas =
     (let (file, route) = fr; (candidate_slots, page_remaining) = quotas;
          max_pages = pp_max_pages (pr_pdf (ns_parse profile))
      in if candidate_slots = 0
         then (classified_of uni file (PlanNotParsed SemanticFileQuotaExhausted) NotPdf, quotas)
         else if route = Pdf
         then
           let page_charge = (if allow_partial_pages then min max_pages page_remaining else max_pages)
           in if page_charge = 0 \<or> page_remaining < page_charge
              then (classified_of uni file (PlanNotParsed PdfClassificationPageQuotaExhausted)
                      PlanNotClassified, quotas)
              else (classified_of uni file (Admit route) (Classify page_charge),
                    (candidate_slots - 1, page_remaining - page_charge))
         else (classified_of uni file (Admit route) NotPdf, (candidate_slots - 1, page_remaining)))"

definition ClassificationPlan_build_with_remaining ::
  "(rstring \<Rightarrow> rstring) \<Rightarrow> plan_candidate list \<Rightarrow> normalized_settings \<Rightarrow> u64 \<Rightarrow> u64 \<Rightarrow> bool \<Rightarrow>
     classified_plan list" where
  "ClassificationPlan_build_with_remaining uni files profile page_budget candidate_budget
     allow_partial_pages =
     (let pre = map (preselect uni profile) files;
          candidates = sort_key (\<lambda>(file, _). candidate_key uni file) (rights pre);
          planned = fst (run_pass (stage_a_step uni profile allow_partial_pages) candidates
                           (candidate_budget, page_budget))
      in sort_key (plan_key uni) (lefts pre @ planned))"

definition ClassificationPlan_build ::
  "(rstring \<Rightarrow> rstring) \<Rightarrow> plan_candidate list \<Rightarrow> normalized_settings \<Rightarrow> u64 \<Rightarrow> classified_plan list" where
  "ClassificationPlan_build uni files profile page_budget =
     ClassificationPlan_build_with_remaining uni files profile page_budget
       (ns_max_candidate_files profile) False"

section \<open>Stage B\<close>

definition route_hint_of ::
  "classified_plan \<Rightarrow> route_kind \<Rightarrow> normalized_settings \<Rightarrow> route_hint" where
  "route_hint_of plan route profile =
     \<lparr>rh_relative_path = cl_relative_path plan, rh_extension = cl_extension plan,
      rh_backend = route_backend route, rh_worker_lane = route_worker_lane route,
      rh_max_excerpt_chars = max_excerpt_chars route profile\<rparr>"

definition admit_plain ::
  "context_budget_model \<Rightarrow> u64 \<Rightarrow> u64 \<Rightarrow> route_kind \<Rightarrow> plan_action \<times> u64" where
  "admit_plain m delta running route =
     (if admits m running delta then (Admit route, saturating_add running delta)
      else (PlanNotParsed GlobalContextBudgetExceeded, running))"

definition admit_pdf ::
  "classified_plan \<Rightarrow> route_kind \<Rightarrow> context_budget_model \<Rightarrow>
     (rstring \<rightharpoonup> pdf_classification_result) \<Rightarrow> u64 \<Rightarrow> u64 \<times> u64 \<Rightarrow> plan_action \<times> (u64 \<times> u64)" where
  "admit_pdf plan route m classifications delta ledger =
     (let (running, extraction_slots) = ledger in
      case map_option cr_status (classifications (cl_file_identity plan)) of
        Some NoTextInParseWindow \<Rightarrow>
          (let (action, running') = admit_plain m delta running route
           in (action, (running', extraction_slots)))
      | Some TextInParseWindow \<Rightarrow>
          if \<not> admits m running delta
          then (PlanNotParsed GlobalContextBudgetExceeded, ledger)
          else if extraction_slots = 0
          then (PlanNotParsed PdfTextExtractionQuotaExhausted, ledger)
          else (Admit route, (saturating_add running delta, extraction_slots - 1))
      | Some ClassUnknown \<Rightarrow> (ClassifierFailed ClassUnknown, ledger)
      | Some ClassError \<Rightarrow> (ClassifierFailed ClassError, ledger)
      | Some NotClassifiedByBudget \<Rightarrow> (ClassifierFailed ClassUnknown, ledger)
      | None \<Rightarrow> (ClassifierFailed ClassUnknown, ledger))"

definition plan_delta ::
  "normalized_settings \<Rightarrow> context_budget_model \<Rightarrow> classified_plan \<Rightarrow> route_kind \<Rightarrow> u64" where
  "plan_delta profile m plan route = reserved_delta m (route_hint_of plan route profile) None"

definition stage_b_step ::
  "normalized_settings \<Rightarrow> context_budget_model \<Rightarrow> (rstring \<rightharpoonup> pdf_classification_result) \<Rightarrow>
     classified_plan \<Rightarrow> u64 \<times> u64 \<Rightarrow> admission_decision \<times> (u64 \<times> u64)" where
  "stage_b_step profile m classifications plan ledger =
     (let (action, reserved, ledger') =
        (case cl_action plan of
           Admit route \<Rightarrow>
             (let delta = plan_delta profile m plan route;
                  (outcome, ledger') =
                    (case cl_pdf_classification plan of
                       NotPdf \<Rightarrow>
                         (let (action, running') = admit_plain m delta (fst ledger) route
                          in (action, (running', snd ledger)))
                     | Classify _ \<Rightarrow> admit_pdf plan route m classifications delta ledger
                     | PlanNotClassified \<Rightarrow> (PlanNotParsed GlobalContextBudgetExceeded, ledger))
              in (outcome, (if is_admit outcome then delta else 0), ledger'))
         | other \<Rightarrow> (other, 0, ledger))
      in (\<lparr>ad_file_identity = cl_file_identity plan, ad_relative_path = cl_relative_path plan,
           ad_extension = cl_extension plan, ad_priority = cl_priority plan,
           ad_action = action, ad_reserved_chars = reserved\<rparr>, ledger'))"

definition ContentAdmissionPlan_build_with_remaining ::
  "classified_plan list \<Rightarrow> normalized_settings \<Rightarrow> context_budget_model \<Rightarrow>
     (rstring \<rightharpoonup> pdf_classification_result) \<Rightarrow> u64 \<Rightarrow> u64 \<Rightarrow> admission_decision list" where
  "ContentAdmissionPlan_build_with_remaining classified profile m classifications retained_chars
     remaining_extractions =
     fst (run_pass (stage_b_step profile m classifications) classified
            (retained_chars, remaining_extractions))"

definition ContentAdmissionPlan_build ::
  "classified_plan list \<Rightarrow> normalized_settings \<Rightarrow> context_budget_model \<Rightarrow>
     (rstring \<rightharpoonup> pdf_classification_result) \<Rightarrow> admission_decision list" where
  "ContentAdmissionPlan_build classified profile m classifications =
     ContentAdmissionPlan_build_with_remaining classified profile m classifications 0
       (ns_max_pdf_text_extractions profile)"

section \<open>Facts about stage A\<close>

lemma mset_lefts_rights: "mset xs = image_mset Inl (mset (lefts xs)) + image_mset Inr (mset (rights xs))"
  by (induction xs rule: lefts.induct) auto

lemma lefts_alt: "lefts xs = map projl (filter isl xs)"
  by (induction xs rule: lefts.induct) auto

lemma rights_alt: "rights xs = map projr (filter (\<lambda>x. \<not> isl x) xs)"
  by (induction xs rule: rights.induct) auto

lemma classified_of_sel [simp]:
  "cl_file_identity (classified_of uni f a p) = pc_file_identity f"
  "cl_relative_path (classified_of uni f a p) = pc_relative_path f"
  "cl_extension (classified_of uni f a p) = pc_extension f"
  "cl_action (classified_of uni f a p) = a"
  "cl_pdf_classification (classified_of uni f a p) = p"
  by (simp_all add: classified_of_def)

lemma classified_of_key [simp]: "plan_key uni (classified_of uni f a p) = candidate_key uni f"
  by (simp add: nominal_key_of_def)

lemma preselect_Inr:
  "preselect uni profile f = Inr (g, r) \<longleftrightarrow>
     g = f \<and> classify_candidate_v2 f profile = DecisionRoute r \<and> pc_source_guard_kind f \<noteq> Unavailable"
  by (auto simp: preselect_def split: route_decision.splits if_splits)

lemma preselect_identity:
  "(case preselect uni profile f of Inl p \<Rightarrow> cl_file_identity p | Inr (g, _) \<Rightarrow> pc_file_identity g)
     = pc_file_identity f"
  by (auto simp: preselect_def split: route_decision.splits)

text \<open>What one step of stage A decides.\<close>

lemma stage_a_step_identity [simp]:
  "cl_file_identity (fst (stage_a_step uni profile part fr q)) = pc_file_identity (fst fr)"
  "cl_relative_path (fst (stage_a_step uni profile part fr q)) = pc_relative_path (fst fr)"
  "cl_extension (fst (stage_a_step uni profile part fr q)) = pc_extension (fst fr)"
  by (simp_all add: stage_a_step_def Let_def split: prod.splits)

lemma stage_a_step_key [simp]:
  "plan_key uni (fst (stage_a_step uni profile part fr q)) = candidate_key uni (fst fr)"
  by (simp add: nominal_key_of_def)

interpretation slots: outcome_ledger "stage_a_step uni profile part" fst
  "\<lambda>p. if is_admit (cl_action p) then 1 else 0"
  for uni profile part
  by unfold_locales (auto simp: stage_a_step_def Let_def split: prod.splits)

interpretation pages: outcome_ledger "stage_a_step uni profile part" snd
  "\<lambda>p. charged_pages (cl_pdf_classification p)"
  for uni profile part
  by unfold_locales (auto simp: stage_a_step_def Let_def split: prod.splits)


lemma lefts_not_admitted:
  assumes "p \<in> set (lefts (map (preselect uni profile) files))"
  shows "\<not> is_admit (cl_action p)" and "cl_pdf_classification p = NotPdf"
    and "cl_action p \<noteq> PlanNotParsed SemanticFileQuotaExhausted"
proof -
  from assms obtain f where f: "preselect uni profile f = Inl p"
    by (auto simp: lefts_alt isl_def)
  have policy: "classify_candidate_v2 f profile \<noteq> PolicyNotParsed SemanticFileQuotaExhausted"
    by (auto simp: classify_candidate_v2_def Let_def split: option.splits)
  from f policy show "\<not> is_admit (cl_action p)" and "cl_pdf_classification p = NotPdf"
    and "cl_action p \<noteq> PlanNotParsed SemanticFileQuotaExhausted"
    by (auto simp: preselect_def split: route_decision.splits if_splits)
qed

text \<open>The candidates in nominal order and the outcome of their pass.\<close>

definition stage_a_candidates ::
  "(rstring \<Rightarrow> rstring) \<Rightarrow> normalized_settings \<Rightarrow> plan_candidate list \<Rightarrow> (plan_candidate \<times> route_kind) list" where
  "stage_a_candidates uni profile files =
     sort_key (\<lambda>(file, _). candidate_key uni file) (rights (map (preselect uni profile) files))"

definition stage_a_planned ::
  "(rstring \<Rightarrow> rstring) \<Rightarrow> plan_candidate list \<Rightarrow> normalized_settings \<Rightarrow> u64 \<Rightarrow> u64 \<Rightarrow> bool \<Rightarrow> classified_plan list" where
  "stage_a_planned uni files profile page_budget candidate_budget part =
     fst (run_pass (stage_a_step uni profile part) (stage_a_candidates uni profile files)
            (candidate_budget, page_budget))"

lemma stage_a_build_alt:
  "ClassificationPlan_build_with_remaining uni files profile pb cb part =
     sort_key (plan_key uni) (lefts (map (preselect uni profile) files)
       @ stage_a_planned uni files profile pb cb part)"
  by (simp add: ClassificationPlan_build_with_remaining_def stage_a_planned_def
      stage_a_candidates_def Let_def)

lemma mset_stage_a_build:
  "mset (ClassificationPlan_build_with_remaining uni files profile pb cb part) =
     mset (lefts (map (preselect uni profile) files)) + mset (stage_a_planned uni files profile pb cb part)"
  by (simp add: stage_a_build_alt)

lemma map_identity_planned:
  "map cl_file_identity (stage_a_planned uni files profile pb cb part) =
     map (pc_file_identity \<circ> fst) (stage_a_candidates uni profile files)"
  unfolding stage_a_planned_def by (rule run_pass_map) simp

lemma map_key_planned:
  "map (plan_key uni) (stage_a_planned uni files profile pb cb part) =
     map (candidate_key uni \<circ> fst) (stage_a_candidates uni profile files)"
  unfolding stage_a_planned_def by (rule run_pass_map) simp

lemma sorted_planned: "sorted (map (plan_key uni) (stage_a_planned uni files profile pb cb part))"
  unfolding map_key_planned stage_a_candidates_def
  using sorted_sort_key [of "\<lambda>(file, _). candidate_key uni file"]
  by (simp add: case_prod_beta' comp_def)

lemma mset_identities_preselect:
  "image_mset cl_file_identity (mset (lefts (map (preselect uni profile) files)))
     + image_mset (pc_file_identity \<circ> fst) (mset (rights (map (preselect uni profile) files)))
   = image_mset pc_file_identity (mset files)"
proof (induction files)
  case (Cons f files)
  have "(case preselect uni profile f of Inl p \<Rightarrow> cl_file_identity p | Inr (g, _) \<Rightarrow> pc_file_identity g)
      = pc_file_identity f"
    by (rule preselect_identity)
  with Cons show ?case
    by (cases "preselect uni profile f") (auto simp: case_prod_beta)
qed simp

lemma stage_a_planned_wf:
  assumes "p \<in> set (stage_a_planned uni files profile pb cb part)"
  shows "cl_action p = Admit Pdf \<longleftrightarrow> (\<exists>n. cl_pdf_classification p = Classify n)"
proof -
  from assms obtain fr q where "p = fst (stage_a_step uni profile part fr q)"
    unfolding stage_a_planned_def by (blast dest: run_pass_mem)
  then show ?thesis by (auto simp: stage_a_step_def Let_def split: prod.splits)
qed

lemma stage_a_build_wf:
  assumes "p \<in> set (ClassificationPlan_build_with_remaining uni files profile pb cb part)"
  shows "cl_action p = Admit Pdf \<longleftrightarrow> (\<exists>n. cl_pdf_classification p = Classify n)"
  using assms lefts_not_admitted [of p uni profile files]
    stage_a_planned_wf [of p uni files profile pb cb part]
  by (auto simp: stage_a_build_alt)


lemma mset_identities_build:
  "mset (map cl_file_identity (ClassificationPlan_build_with_remaining uni files profile pb cb part)) =
     mset (map pc_file_identity files)"
proof -
  have "mset (map cl_file_identity (stage_a_planned uni files profile pb cb part)) =
      image_mset (pc_file_identity \<circ> fst) (mset (rights (map (preselect uni profile) files)))"
    by (simp only: map_identity_planned mset_map) (simp add: stage_a_candidates_def)
  then show ?thesis
    using mset_identities_preselect [of uni profile files]
    by (simp add: mset_stage_a_build)
qed

lemma distinct_identities_build:
  assumes "distinct (map pc_file_identity files)"
  shows "distinct (map cl_file_identity (ClassificationPlan_build_with_remaining uni files profile pb cb part))"
  using assms mset_identities_build by (metis mset_eq_imp_distinct_iff)

lemma planned_cost:
  "length (filter (\<lambda>p. is_admit (cl_action p))
     (ClassificationPlan_build_with_remaining uni files profile pb cb part)) =
   sum_list (map (\<lambda>p. if is_admit (cl_action p) then 1 else 0) (stage_a_planned uni files profile pb cb part))"
proof -
  have "filter (\<lambda>p. is_admit (cl_action p)) (lefts (map (preselect uni profile) files)) = []"
    by (auto simp: filter_empty_conv dest: lefts_not_admitted)
  moreover have "mset (ClassificationPlan_build_with_remaining uni files profile pb cb part) =
      mset (lefts (map (preselect uni profile) files) @ stage_a_planned uni files profile pb cb part)"
    by (simp add: stage_a_build_alt)
  ultimately show ?thesis
    unfolding sum_list_indicator
    by (metis length_filter_mset_cong filter_append append.left_neutral)
qed

lemma planned_pages:
  "sum_list (map (\<lambda>p. charged_pages (cl_pdf_classification p))
     (ClassificationPlan_build_with_remaining uni files profile pb cb part)) =
   sum_list (map (\<lambda>p. charged_pages (cl_pdf_classification p)) (stage_a_planned uni files profile pb cb part))"
proof -
  have "map (\<lambda>p. charged_pages (cl_pdf_classification p)) (lefts (map (preselect uni profile) files))
      = map (\<lambda>_. 0) (lefts (map (preselect uni profile) files))"
    by (auto dest: lefts_not_admitted(2))
  then have "sum_list (map (\<lambda>p. charged_pages (cl_pdf_classification p))
      (lefts (map (preselect uni profile) files) @ stage_a_planned uni files profile pb cb part)) =
    sum_list (map (\<lambda>p. charged_pages (cl_pdf_classification p)) (stage_a_planned uni files profile pb cb part))"
    by (simp only: map_append sum_list_append) simp
  moreover have "mset (ClassificationPlan_build_with_remaining uni files profile pb cb part) =
      mset (lefts (map (preselect uni profile) files) @ stage_a_planned uni files profile pb cb part)"
    by (simp add: stage_a_build_alt)
  ultimately show ?thesis by (metis sum_list_mset_cong)
qed

text \<open>Once a candidate is refused for want of a slot, all slots are gone: nothing before it
  is missing and nothing after it is admitted.\<close>

lemma exhausted_at:
  assumes i: "i < length (stage_a_candidates uni profile files)"
    and ex: "cl_action (stage_a_planned uni files profile pb cb part ! i) = PlanNotParsed SemanticFileQuotaExhausted"
  shows "fst (snd (run_pass (stage_a_step uni profile part) (take i (stage_a_candidates uni profile files)) (cb, pb))) = 0"
  using ex unfolding stage_a_planned_def run_pass_nth [OF i]
  by (auto simp: stage_a_step_def Let_def split: prod.splits if_splits)

lemma exhausted_suffix:
  assumes i: "i < length (stage_a_planned uni files profile pb cb part)"
    and ex: "cl_action (stage_a_planned uni files profile pb cb part ! i) = PlanNotParsed SemanticFileQuotaExhausted"
    and j: "i \<le> j" "j < length (stage_a_planned uni files profile pb cb part)"
  shows "\<not> is_admit (cl_action (stage_a_planned uni files profile pb cb part ! j))"
proof -
  let ?step = "stage_a_step uni profile part" and ?cs = "stage_a_candidates uni profile files"
  let ?rest = "fst (run_pass ?step (drop i ?cs) (snd (run_pass ?step (take i ?cs) (cb, pb))))"
  have il: "i < length ?cs" using i by (simp add: stage_a_planned_def)
  have "stage_a_planned uni files profile pb cb part = fst (run_pass ?step (take i ?cs) (cb, pb)) @ ?rest"
    unfolding stage_a_planned_def by (rule run_pass_split)
  moreover have "length (fst (run_pass ?step (take i ?cs) (cb, pb))) = i" using il by simp
  ultimately have "stage_a_planned uni files profile pb cb part ! j = ?rest ! (j - i)"
    and "j - i < length ?rest" using j by (auto simp: nth_append)
  then have "stage_a_planned uni files profile pb cb part ! j \<in> set ?rest" by simp
  from slots.spent_stays_spent [OF exhausted_at [OF il ex] this]
  show ?thesis by (simp split: if_splits)
qed

lemma exhausted_total:
  assumes i: "i < length (stage_a_planned uni files profile pb cb part)"
    and ex: "cl_action (stage_a_planned uni files profile pb cb part ! i) = PlanNotParsed SemanticFileQuotaExhausted"
  shows "sum_list (map (\<lambda>p. if is_admit (cl_action p) then 1 else 0)
           (stage_a_planned uni files profile pb cb part)) = cb"
proof -
  let ?cost = "\<lambda>p. if is_admit (cl_action p) then 1 else (0::nat)"
  let ?pl = "stage_a_planned uni files profile pb cb part"
  have il: "i < length (stage_a_candidates uni profile files)" using i by (simp add: stage_a_planned_def)
  have "sum_list (map ?cost (take i ?pl)) = cb"
    using slots.cost_charge [of uni profile part "take i (stage_a_candidates uni profile files)" "(cb, pb)"]
      exhausted_at [OF il ex] by (simp add: stage_a_planned_def run_pass_take)
  moreover have "sum_list (map ?cost ?pl) \<le> cb"
    using slots.cost_within [of uni profile part _ "(cb, pb)"] by (simp add: stage_a_planned_def)
  moreover have "sum_list (map ?cost (take i ?pl)) \<le> sum_list (map ?cost ?pl)"
    by (subst (2) append_take_drop_id [of i ?pl, symmetric]) (simp only: map_append sum_list_append le_add1)
  ultimately show ?thesis by linarith
qed


section \<open>Facts about stage B\<close>

lemma stage_b_step_fields [simp]:
  "ad_file_identity (fst (stage_b_step profile m cls plan s)) = cl_file_identity plan"
  "ad_relative_path (fst (stage_b_step profile m cls plan s)) = cl_relative_path plan"
  "ad_extension (fst (stage_b_step profile m cls plan s)) = cl_extension plan"
  "ad_priority (fst (stage_b_step profile m cls plan s)) = cl_priority plan"
  by (simp_all add: stage_b_step_def Let_def split: prod.splits)

text \<open>The three ways a plan can meet the classifier.\<close>

definition needs_extraction ::
  "(rstring \<rightharpoonup> pdf_classification_result) \<Rightarrow> classified_plan \<Rightarrow> bool" where
  "needs_extraction cls plan \<longleftrightarrow>
     (case cl_pdf_classification plan of
        Classify _ \<Rightarrow> map_option cr_status (cls (cl_file_identity plan)) = Some TextInParseWindow
      | _ \<Rightarrow> False)"

definition parse_eligible ::
  "(rstring \<rightharpoonup> pdf_classification_result) \<Rightarrow> classified_plan \<Rightarrow> bool" where
  "parse_eligible cls plan \<longleftrightarrow>
     is_admit (cl_action plan) \<and>
     (case cl_pdf_classification plan of
        NotPdf \<Rightarrow> True
      | Classify _ \<Rightarrow>
          map_option cr_status (cls (cl_file_identity plan)) \<in> {Some TextInParseWindow, Some NoTextInParseWindow}
      | PlanNotClassified \<Rightarrow> False)"

fun admitted_route :: "plan_action \<Rightarrow> route_kind" where
  "admitted_route (Admit route) = route"
| "admitted_route _ = LightText"

text \<open>What one step of stage B decides, in one place: a file is admitted iff it is eligible,
  its full reservation fits and, for a text PDF, an extraction slot is left.\<close>

lemma stage_b_step_admit:
  "is_admit (ad_action (fst (stage_b_step profile m cls plan s))) \<longleftrightarrow>
     parse_eligible cls plan
     \<and> admits m (fst s) (plan_delta profile m plan (admitted_route (cl_action plan)))
     \<and> (needs_extraction cls plan \<longrightarrow> snd s \<noteq> 0)"
  by (cases "cl_action plan"; cases "cl_pdf_classification plan"; cases s)
    (auto simp: stage_b_step_def Let_def admit_plain_def admit_pdf_def parse_eligible_def
      needs_extraction_def split: option.splits pdf_classification_status.splits)

lemma stage_b_step_reserved:
  "ad_reserved_chars (fst (stage_b_step profile m cls plan s)) =
     (if is_admit (ad_action (fst (stage_b_step profile m cls plan s)))
      then plan_delta profile m plan (admitted_route (cl_action plan)) else 0)"
  by (cases "cl_action plan"; cases "cl_pdf_classification plan"; cases s)
    (auto simp: stage_b_step_def Let_def admit_plain_def admit_pdf_def
      split: option.splits pdf_classification_status.splits)

lemma stage_b_step_running:
  assumes "wf_budget m"
  shows "fst (snd (stage_b_step profile m cls plan s)) =
     fst s + ad_reserved_chars (fst (stage_b_step profile m cls plan s))"
  using bm.fits_no_saturation [OF assms]
  by (cases "cl_action plan"; cases "cl_pdf_classification plan"; cases s)
    (auto simp: stage_b_step_def Let_def admit_plain_def admit_pdf_def
      split: option.splits pdf_classification_status.splits)

lemma stage_b_step_slots:
  "snd (snd (stage_b_step profile m cls plan s)) =
     snd s - (if is_admit (ad_action (fst (stage_b_step profile m cls plan s))) \<and> needs_extraction cls plan
              then 1 else 0)"
  by (cases "cl_action plan"; cases "cl_pdf_classification plan"; cases s)
    (auto simp: stage_b_step_def Let_def admit_plain_def admit_pdf_def needs_extraction_def
      split: option.splits pdf_classification_status.splits)

interpretation chars: outcome_ledger "stage_b_step profile m cls"
  "\<lambda>s. if wf_budget m then bm_global_max_chars m - (bm_base_chars m + fst s) else 0"
  "\<lambda>d. if wf_budget m then ad_reserved_chars d else 0"
  for profile m cls
proof
  fix plan s
  let ?d = "fst (stage_b_step profile m cls plan s)"
  let ?delta = "plan_delta profile m plan (admitted_route (cl_action plan))"
  have "wf_budget m \<Longrightarrow> is_admit (ad_action ?d) \<Longrightarrow>
      bm_base_chars m + (fst s + ?delta) \<le> bm_global_max_chars m"
    by (rule bm.fits_keeps_limit) (simp_all add: stage_b_step_admit)
  then show "(if wf_budget m then ad_reserved_chars ?d else 0) +
      (if wf_budget m then bm_global_max_chars m - (bm_base_chars m + fst (snd (stage_b_step profile m cls plan s))) else 0) =
      (if wf_budget m then bm_global_max_chars m - (bm_base_chars m + fst s) else 0)"
    by (auto simp: stage_b_step_running stage_b_step_reserved)
qed

interpretation extractions: ledger_pass "stage_b_step profile m cls" snd
  "\<lambda>plan d. if is_admit (ad_action d) \<and> needs_extraction cls plan then 1 else 0"
  for profile m cls
  by unfold_locales (auto simp: stage_b_step_slots stage_b_step_admit)

lemma stage_b_length [simp]:
  "length (ContentAdmissionPlan_build_with_remaining classified profile m cls retained remaining)
     = length classified"
  by (simp add: ContentAdmissionPlan_build_with_remaining_def)

lemma stage_b_take:
  "ContentAdmissionPlan_build_with_remaining (take i classified) profile m cls retained remaining =
     take i (ContentAdmissionPlan_build_with_remaining classified profile m cls retained remaining)"
  by (simp add: ContentAdmissionPlan_build_with_remaining_def run_pass_take)

lemma stage_b_running:
  assumes "wf_budget m"
  shows "fst (snd (run_pass (stage_b_step profile m cls) plans s)) =
     fst s + sum_list (map ad_reserved_chars (fst (run_pass (stage_b_step profile m cls) plans s)))"
  by (rule run_pass_accumulates) (rule stage_b_step_running [OF assms])

abbreviation extraction_count ::
  "(rstring \<rightharpoonup> pdf_classification_result) \<Rightarrow> classified_plan list \<Rightarrow> admission_decision list \<Rightarrow> nat" where
  "extraction_count cls plans ds \<equiv>
     length (filter (\<lambda>(plan, d). is_admit (ad_action d) \<and> needs_extraction cls plan) (zip plans ds))"

lemma extraction_count_sum:
  "extraction_count cls plans ds =
     sum_list (map2 (\<lambda>plan d. if is_admit (ad_action d) \<and> needs_extraction cls plan then 1 else 0) plans ds)"
  by (simp add: case_prod_beta' flip: sum_list_indicator)

lemma stage_b_extractions_left:
  "snd (snd (run_pass (stage_b_step profile m cls) plans s)) =
     snd s - extraction_count cls plans (fst (run_pass (stage_b_step profile m cls) plans s))"
  using extractions.pass_charge [of cls plans profile m s] unfolding extraction_count_sum by linarith

lemma stage_b_members:
  assumes "d \<in> set (ContentAdmissionPlan_build_with_remaining classified profile m cls retained remaining)"
  obtains plan s where "plan \<in> set classified" and "d = fst (stage_b_step profile m cls plan s)"
  using assms unfolding ContentAdmissionPlan_build_with_remaining_def by (blast dest: run_pass_mem)


section \<open>Properties of stage A\<close>

text \<open>Fixtures for the witnesses: a note, a log and two PDFs.\<close>

definition fixture_candidate :: "string \<Rightarrow> string \<Rightarrow> plan_candidate" where
  "fixture_candidate name ext =
     \<lparr>pc_file_identity = lit name, pc_relative_path = lit name @ lit ext, pc_extension = lit ext,
      pc_size_bytes = 100, pc_source_guard_kind = UnixInodeCtimeV1\<rparr>"

definition fixture_files :: "plan_candidate list" where
  "fixture_files = [fixture_candidate ''b'' ''.txt'', fixture_candidate ''c'' ''.pdf'',
     fixture_candidate ''a'' ''.log'']"

definition fixture_plan :: "classified_plan list" where
  "fixture_plan = ClassificationPlan_build_with_remaining id fixture_files daily_settings 10 2 False"

lemma fixture_routes [simp]:
  "classify_candidate_v2 (fixture_candidate ''b'' ''.txt'') daily_settings = DecisionRoute LightText"
  "classify_candidate_v2 (fixture_candidate ''a'' ''.log'') daily_settings = DecisionRoute LightText"
  "classify_candidate_v2 (fixture_candidate ''c'' ''.pdf'') daily_settings = DecisionRoute Pdf"
  by (simp_all add: classify_candidate_v2_def fixture_candidate_def daily_settings_def light_text_extensions_def)

lemma fixture_keys [simp]:
  "candidate_key id (fixture_candidate ''b'' ''.txt'') = NominalKey 30 (lit ''b.txt'') (lit ''b.txt'') (lit ''b'')"
  "candidate_key id (fixture_candidate ''a'' ''.log'') = NominalKey 50 (lit ''a.log'') (lit ''a.log'') (lit ''a'')"
  "candidate_key id (fixture_candidate ''c'' ''.pdf'') = NominalKey 20 (lit ''c.pdf'') (lit ''c.pdf'') (lit ''c'')"
  by (simp_all add: fixture_candidate_def nominal_eval)


lemma fixture_guard [simp]: "pc_source_guard_kind (fixture_candidate n e) \<noteq> Unavailable"
  by (simp add: fixture_candidate_def)

lemma fixture_preselect [simp]:
  "map (preselect id daily_settings) fixture_files =
     [Inr (fixture_candidate ''b'' ''.txt'', LightText), Inr (fixture_candidate ''c'' ''.pdf'', Pdf),
      Inr (fixture_candidate ''a'' ''.log'', LightText)]"
  by (simp add: fixture_files_def preselect_def)

lemma fixture_candidates [simp]:
  "stage_a_candidates id daily_settings fixture_files =
     [(fixture_candidate ''c'' ''.pdf'', Pdf), (fixture_candidate ''b'' ''.txt'', LightText),
      (fixture_candidate ''a'' ''.log'', LightText)]"
  by (simp add: stage_a_candidates_def)

lemma fixture_max_pages [simp]: "pp_max_pages (pr_pdf (ns_parse daily_settings)) = 5"
  by (simp add: daily_settings_def)

lemma fixture_plan_eval: "fixture_plan = [classified_of id (fixture_candidate ''c'' ''.pdf'') (Admit Pdf) (Classify 5),
   classified_of id (fixture_candidate ''b'' ''.txt'') (Admit LightText) NotPdf,
   classified_of id (fixture_candidate ''a'' ''.log'') (PlanNotParsed SemanticFileQuotaExhausted) NotPdf]"
  by (simp add: fixture_plan_def stage_a_build_alt stage_a_planned_def stage_a_step_def)

text \<open>C17. The stage A plan holds every discovered file exactly once, whatever was decided about
  it, and is in nominal order.\<close>

theorem stage_a_total_and_ordered:
  "mset (map cl_file_identity
       (ClassificationPlan_build_with_remaining uni files profile page_budget candidate_budget part)) =
     mset (map pc_file_identity files)
   \<and> sorted (map (plan_key uni)
       (ClassificationPlan_build_with_remaining uni files profile page_budget candidate_budget part))"
  using mset_identities_build by (simp add: stage_a_build_alt)

lemma planned_pages_within:
  "sum_list (map (\<lambda>p. charged_pages (cl_pdf_classification p))
     (ClassificationPlan_build_with_remaining uni files profile page_budget candidate_budget part)) \<le> page_budget"
  unfolding planned_pages stage_a_planned_def
  using pages.cost_within [of uni profile part _ "(candidate_budget, page_budget)"] by simp

text \<open>C18. Stage A never admits more candidates than the candidate budget and never charges more
  classification pages than the page budget, in an ordinary run and in a supplemental wave.\<close>

theorem stage_a_within_quotas:
  "length (filter (\<lambda>p. is_admit (cl_action p))
     (ClassificationPlan_build_with_remaining uni files profile page_budget candidate_budget part))
     \<le> candidate_budget
   \<and> sum_list (map (\<lambda>p. charged_pages (cl_pdf_classification p))
       (ClassificationPlan_build_with_remaining uni files profile page_budget candidate_budget part))
     \<le> page_budget"
  unfolding planned_cost stage_a_planned_def
  using slots.cost_within [of uni profile part _ "(candidate_budget, page_budget)"] planned_pages_within by simp

text \<open>Stage A depends on the set of discovered files only: whichever order the discovery
  reports them in, the plan is the same list.\<close>

theorem stage_a_discovery_order_irrelevant:
  assumes perm: "mset files = mset files'"
    and ids: "distinct (map pc_file_identity files)"
  shows "ClassificationPlan_build_with_remaining uni files profile pb cb part =
     ClassificationPlan_build_with_remaining uni files' profile pb cb part"
proof -
  let ?pre = "\<lambda>fs. map (preselect uni profile) fs"
  have pre: "mset (?pre files) = mset (?pre files')" using perm by simp
  have rights: "mset (rights (?pre files)) = mset (rights (?pre files'))"
    and lefts: "mset (lefts (?pre files)) = mset (lefts (?pre files'))"
    using pre by (simp_all only: rights_alt lefts_alt mset_map mset_filter)
  have "inj_on (\<lambda>(f, _). candidate_key uni f) (set (rights (?pre files)))"
  proof (rule inj_onI)
    fix x y
    assume x: "x \<in> set (rights (?pre files))" and y: "y \<in> set (rights (?pre files))"
      and eq: "(case x of (f, _) \<Rightarrow> candidate_key uni f) = (case y of (f, _) \<Rightarrow> candidate_key uni f)"
    have "fst x \<in> set files \<and> preselect uni profile (fst x) = Inr x" if "x \<in> set (rights (?pre files))" for x
      using that by (auto simp: rights_alt preselect_Inr) (metis preselect_Inr sum.collapse(2) prod.collapse)+
    from this [OF x] this [OF y] have "fst x = fst y"
      using eq nominal.rank_inj_on [OF ids] by (auto simp: inj_on_def case_prod_beta)
    with \<open>\<And>x. x \<in> set (rights (?pre files)) \<Longrightarrow> fst x \<in> set files \<and> preselect uni profile (fst x) = Inr x\<close>
      x y show "x = y" by (metis sum.inject(2))
  qed
  then have "stage_a_candidates uni profile files = stage_a_candidates uni profile files'"
    unfolding stage_a_candidates_def by (rule sort_key_unique [OF rights])
  then have "mset (lefts (?pre files) @ stage_a_planned uni files profile pb cb part) =
      mset (lefts (?pre files') @ stage_a_planned uni files' profile pb cb part)"
    using lefts by (simp add: stage_a_planned_def)
  moreover have "distinct (map cl_file_identity
      (lefts (?pre files) @ stage_a_planned uni files profile pb cb part))"
    using distinct_identities_build [OF ids, of uni profile pb cb part]
    unfolding stage_a_build_alt by (metis mset_map mset_sort mset_eq_imp_distinct_iff)
  ultimately show ?thesis unfolding stage_a_build_alt by (rule nominal.sort_canonical)
qed

theorem stage_a_discovery_order_irrelevant_witness:
  "ClassificationPlan_build_with_remaining id fixture_files daily_settings 10 2 False =
   ClassificationPlan_build_with_remaining id (rev fixture_files) daily_settings 10 2 False"
  by (rule stage_a_discovery_order_irrelevant)
    (simp_all add: fixture_files_def fixture_candidate_def)

text \<open>Candidate slots follow rank: when some file is refused for want of a slot, every
  admitted file ranks at or before it and all slots of the budget are in use.\<close>

theorem stage_a_slots_follow_rank:
  assumes p: "p \<in> set (ClassificationPlan_build_with_remaining uni files profile pb cb part)"
    and q: "q \<in> set (ClassificationPlan_build_with_remaining uni files profile pb cb part)"
    and adm: "is_admit (cl_action p)"
    and ex: "cl_action q = PlanNotParsed SemanticFileQuotaExhausted"
  shows "plan_key uni p \<le> plan_key uni q
    \<and> length (filter (\<lambda>p. is_admit (cl_action p))
        (ClassificationPlan_build_with_remaining uni files profile pb cb part)) = cb"
proof -
  let ?pl = "stage_a_planned uni files profile pb cb part"
  have "p \<in> set ?pl" "q \<in> set ?pl"
    using p q adm ex by (auto simp: stage_a_build_alt dest: lefts_not_admitted)
  then obtain i j where i: "i < length ?pl" "?pl ! i = q" and j: "j < length ?pl" "?pl ! j = p"
    by (auto simp: in_set_conv_nth)
  have "\<not> i \<le> j" using exhausted_suffix [OF i(1) _ _ j(1)] i(2) j(2) ex adm by blast
  then have "plan_key uni p \<le> plan_key uni q"
    using sorted_nth_mono [OF sorted_planned, of j i uni files profile pb cb part] i j by simp
  moreover have "length (filter (\<lambda>p. is_admit (cl_action p))
      (ClassificationPlan_build_with_remaining uni files profile pb cb part)) = cb"
    using exhausted_total [OF i(1)] i(2) ex unfolding planned_cost by simp
  ultimately show ?thesis ..
qed

theorem stage_a_slots_follow_rank_witness:
  "plan_key id (fixture_plan ! 1) \<le> plan_key id (fixture_plan ! 2)
    \<and> length (filter (\<lambda>p. is_admit (cl_action p)) fixture_plan) = 2"
proof -
  have "fixture_plan ! 1 \<in> set fixture_plan" "fixture_plan ! 2 \<in> set fixture_plan"
    "is_admit (cl_action (fixture_plan ! 1))"
    "cl_action (fixture_plan ! 2) = PlanNotParsed SemanticFileQuotaExhausted"
    by (simp_all add: fixture_plan_eval)
  then show ?thesis
    using stage_a_slots_follow_rank [of "fixture_plan ! 1" id fixture_files daily_settings 10 2 False
        "fixture_plan ! 2"] unfolding fixture_plan_def by blast
qed

text \<open>Every page charge is the full window \<open>max_pages\<close> in an ordinary run; a supplemental
  wave may charge less, but never nothing; and exactly the admitted PDFs are charged.\<close>

theorem stage_a_page_charges:
  assumes "p \<in> set (ClassificationPlan_build_with_remaining uni files profile pb cb part)"
  shows "(cl_action p = Admit Pdf \<longleftrightarrow> (\<exists>n. cl_pdf_classification p = Classify n))
    \<and> (\<forall>n. cl_pdf_classification p = Classify n \<longrightarrow>
         0 < n \<and> n \<le> pp_max_pages (pr_pdf (ns_parse profile))
         \<and> (\<not> part \<longrightarrow> n = pp_max_pages (pr_pdf (ns_parse profile))))"
  using stage_a_build_wf [OF assms] assms
  by (auto simp: stage_a_build_alt stage_a_planned_def stage_a_step_def Let_def
      dest!: lefts_not_admitted(2) run_pass_mem split: if_splits)


theorem stage_a_page_charges_witness:
  "cl_pdf_classification (fixture_plan ! 0) = Classify 5
   \<and> 5 = pp_max_pages (pr_pdf (ns_parse daily_settings))"
proof -
  have "fixture_plan ! 0 \<in> set fixture_plan" "cl_pdf_classification (fixture_plan ! 0) = Classify 5"
    by (simp_all add: fixture_plan_eval)
  then show ?thesis
    using stage_a_page_charges [of "fixture_plan ! 0" id fixture_files daily_settings 10 2 False]
    unfolding fixture_plan_def by blast
qed

section \<open>Properties of stage B\<close>

text \<open>C19. The characters stage B reserves, on top of the fixed sections, the reservation of the
  omitted summary and what earlier waves retained, never exceed the global limit; and it
  admits at most as many text PDFs as extraction slots remain.\<close>

theorem stage_b_within_budget:
  assumes "wf_budget m" and "bm_base_chars m + retained \<le> bm_global_max_chars m"
  shows "bm_base_chars m + retained + sum_list (map ad_reserved_chars
      (ContentAdmissionPlan_build_with_remaining plans profile m cls retained remaining))
      \<le> bm_global_max_chars m
    \<and> extraction_count cls plans
        (ContentAdmissionPlan_build_with_remaining plans profile m cls retained remaining) \<le> remaining"
proof -
  have "sum_list (map ad_reserved_chars
      (ContentAdmissionPlan_build_with_remaining plans profile m cls retained remaining))
      \<le> bm_global_max_chars m - (bm_base_chars m + retained)"
    using chars.cost_within [of m profile cls plans "(retained, remaining)"] assms(1)
    by (simp add: ContentAdmissionPlan_build_with_remaining_def)
  moreover have "extraction_count cls plans
      (ContentAdmissionPlan_build_with_remaining plans profile m cls retained remaining) \<le> remaining"
    using extractions.pass_within [of cls plans profile m "(retained, remaining)"]
    unfolding extraction_count_sum by (simp add: ContentAdmissionPlan_build_with_remaining_def)
  ultimately show ?thesis using assms(2) by linarith
qed

definition fixture_model :: context_budget_model where
  "fixture_model = \<lparr>bm_global_max_chars = 2000, bm_per_file_max_chars = 600, bm_base_chars = 500,
     bm_omitted_summary_reservation = 400\<rparr>"

definition fixture_classifications :: "rstring \<rightharpoonup> pdf_classification_result" where
  "fixture_classifications = [lit ''c'' \<mapsto>
     \<lparr>cr_file_identity = lit ''c'', cr_status = TextInParseWindow, cr_page_count = Some 3,
      cr_result_examined_pages = Some 3, cr_error_code = None\<rparr>]"

theorem stage_b_within_budget_witness:
  "bm_base_chars fixture_model + 0 + sum_list (map ad_reserved_chars
      (ContentAdmissionPlan_build_with_remaining fixture_plan daily_settings fixture_model
         fixture_classifications 0 8)) \<le> bm_global_max_chars fixture_model"
  by (rule conjunct1 [OF stage_b_within_budget]) (simp_all add: wf_budget_def fixture_model_def u64_max_def)

text \<open>C20. Stage B is exactly the greedy pass in rank order: a file is admitted iff it is
  eligible (not a PDF, or a PDF the classifier could read), its worst-case section fits what
  its predecessors left of the character budget and, for a text PDF, an extraction slot is
  left by its predecessors. A file that fits is never refused and no later file displaces
  it.\<close>

theorem stage_b_greedy_exact:
  assumes wf: "wf_budget m" and i: "i < length plans"
  shows "let ds = ContentAdmissionPlan_build_with_remaining plans profile m cls retained remaining;
       delta = plan_delta profile m (plans ! i) (admitted_route (cl_action (plans ! i)))
     in (is_admit (ad_action (ds ! i)) \<longleftrightarrow>
          parse_eligible cls (plans ! i)
          \<and> bm_base_chars m + retained + sum_list (map ad_reserved_chars (take i ds)) + delta
              \<le> bm_global_max_chars m
          \<and> (needs_extraction cls (plans ! i) \<longrightarrow>
               extraction_count cls (take i plans) (take i ds) < remaining))
        \<and> ad_reserved_chars (ds ! i) = (if is_admit (ad_action (ds ! i)) then delta else 0)"
proof -
  let ?step = "stage_b_step profile m cls"
  let ?ds = "ContentAdmissionPlan_build_with_remaining plans profile m cls retained remaining"
  let ?s = "snd (run_pass ?step (take i plans) (retained, remaining))"
  have d: "?ds ! i = fst (?step (plans ! i) ?s)"
    unfolding ContentAdmissionPlan_build_with_remaining_def using i by (rule run_pass_nth)
  have prefix: "fst (run_pass ?step (take i plans) (retained, remaining)) = take i ?ds"
    by (simp add: ContentAdmissionPlan_build_with_remaining_def run_pass_take)
  have running: "fst ?s = retained + sum_list (map ad_reserved_chars (take i ?ds))"
    using stage_b_running [OF wf, of profile cls "take i plans" "(retained, remaining)"]
    by (simp add: prefix)
  have "snd ?s = remaining - extraction_count cls (take i plans) (take i ?ds)"
    using stage_b_extractions_left [of profile m cls "take i plans" "(retained, remaining)"]
    by (simp add: prefix)
  then have slots: "snd ?s \<noteq> 0 \<longleftrightarrow> extraction_count cls (take i plans) (take i ?ds) < remaining"
    by auto
  show ?thesis
    unfolding Let_def d stage_b_step_admit stage_b_step_reserved running slots bm.fits_iff [OF wf]
    by (simp add: add.assoc)
qed

theorem stage_b_greedy_exact_witness:
  "let ds = ContentAdmissionPlan_build_with_remaining fixture_plan daily_settings fixture_model
        fixture_classifications 0 1
   in is_admit (ad_action (ds ! 0)) \<and> ad_reserved_chars (ds ! 0) = 1032"
proof -
  have wf: "wf_budget fixture_model" by (simp add: wf_budget_def fixture_model_def u64_max_def)
  have len: "0 < length fixture_plan" by (simp add: fixture_plan_eval)
  have "parse_eligible fixture_classifications (fixture_plan ! 0)"
    by (simp add: fixture_plan_eval parse_eligible_def fixture_classifications_def fixture_candidate_def)
  moreover have "plan_delta daily_settings fixture_model (fixture_plan ! 0)
      (admitted_route (cl_action (fixture_plan ! 0))) = 1032"
    by (simp add: fixture_plan_eval plan_delta_def reserved_delta_def route_hint_of_def
        fixture_candidate_def fixture_model_def daily_settings_def section_max_defs)
  moreover have "bm_base_chars fixture_model = 500" "bm_global_max_chars fixture_model = 2000"
    by (simp_all add: fixture_model_def)
  ultimately show ?thesis
    using stage_b_greedy_exact [OF wf len, of daily_settings fixture_classifications 0 1]
    by (simp add: Let_def)
qed

end
