(* ===== verification/Decision.thy ===== *)
theory Decision
  imports Content_Audit Admission
begin

text \<open>
  \<open>src/rust/scanner_core/src/decision.rs\<close>: from the evidence about a file (what was discovered,
  parsed or refused) to its context action, and the order of the decisions. The diagnostics
  and the decision record are those of \<open>scanner_contract\<close>.
\<close>

section \<open>Diagnostics and decisions of the contract\<close>

record diagnostic =
  dg_error_code :: error_code
  dg_message :: rstring
  dg_retryable :: bool
  dg_stage :: diagnostic_stage
  dg_file_path :: "rstring option"
  dg_backend :: "rstring option"

definition validate_diagnostic :: "diagnostic \<Rightarrow> check" where
  "validate_diagnostic d = validate_all
     [require_non_empty (dg_message d) 4096 (lit ''diagnostic.message''),
      check_some (dg_file_path d) (\<lambda>p. require_absolute_path p (lit ''diagnostic.file_path'')),
      check_some (dg_backend d) (\<lambda>b. require_non_empty b 1024 (lit ''diagnostic.backend''))]"

record context_decision =
  cd_relative_path :: rstring
  cd_action :: context_action
  cd_reason :: rstring
  cd_priority :: u64
  cd_input_chars :: u64
  cd_output_chars :: u64
  cd_truncated :: bool
  cd_error_code :: rstring

definition validate_context_decision :: "context_decision \<Rightarrow> check" where
  "validate_context_decision d = validate_all
     [require_relative_path (cd_relative_path d) (lit ''decision relative_path''),
      require_non_empty (cd_reason d) 4096 (lit ''decision reason''),
      require (length (cd_error_code d) \<le> 1024) (lit ''decision error_code is too long'')]"

section \<open>Evidence\<close>

record context_file_evidence =
  ev_file_identity :: rstring
  ev_absolute_path :: rstring
  ev_relative_path :: rstring
  ev_extension :: rstring
  ev_size_bytes :: "u64 option"
  ev_content :: rstring
  ev_evidence_audit :: "parsed_content_audit option"
  ev_parser_backend :: rstring
  ev_worker_lane :: audit_worker_lane
  ev_cache_status :: cache_status
  ev_parse_status :: parse_status
  ev_truncated :: bool
  ev_error :: "diagnostic option"
  ev_reason :: "rstring option"

definition validation_probe :: "context_file_evidence \<Rightarrow> context_decision" where
  "validation_probe e =
     \<lparr>cd_relative_path = ev_relative_path e, cd_action = Keep, cd_reason = lit ''validation_probe'',
      cd_priority = 0, cd_input_chars = length (ev_content e), cd_output_chars = 0,
      cd_truncated = ev_truncated e, cd_error_code = []\<rparr>"

fun status_check :: "parse_status \<Rightarrow> diagnostic option \<Rightarrow> rstring option \<Rightarrow> check" where
  "status_check Success error reason =
     require (error = None) (lit ''successful context evidence cannot carry an error'')"
| "status_check NotParsed error reason = validate_all
     [require (error = None) (lit ''not-parsed evidence cannot carry a per-file diagnostic''),
      require (reason \<noteq> None) (lit ''not-parsed evidence requires a budget reason'')]"
| "status_check _ error reason =
     require (error \<noteq> None) (lit ''failed context evidence requires a diagnostic'')"

definition validate_evidence ::
  "(parsed_content_audit \<Rightarrow> nat) \<Rightarrow> context_file_evidence \<Rightarrow> check" where
  "validate_evidence enc e = validate_all
     [check_some (ev_evidence_audit e) (\<lambda>a. validate_content_audit enc a (ev_content e)),
      validate_context_decision (validation_probe e),
      require (\<not> (ev_file_identity e = [] \<or> 4096 < length (ev_file_identity e)
          \<or> \<not> is_absolute_path (ev_absolute_path e) \<or> \<not> is_extension (ev_extension e)
          \<or> ev_parser_backend e = [] \<or> 1024 < length (ev_parser_backend e)))
        (lit ''context file evidence is invalid''),
      status_check (ev_parse_status e) (ev_error e) (ev_reason e),
      check_some (ev_error e) (\<lambda>d. validate_all
        [validate_diagnostic d,
         require (dg_file_path d = Some (ev_absolute_path e))
           (lit ''context diagnostic path does not match its evidence'')])]"

section \<open>Decisions\<close>

record decided_file =
  de_evidence :: context_file_evidence
  de_decision :: context_decision

definition compression_reason :: "rstring \<Rightarrow> rstring" where
  "compression_reason extension =
     (if extension = lit ''.log'' then lit ''large_log_tail''
      else if extension \<in> set OFFICE_OR_PDF_EXTENSIONS then lit ''large_document_summary''
      else lit ''medium_text_compress'')"

definition PDF_METADATA_BACKEND :: rstring where "PDF_METADATA_BACKEND = lit ''pdf_metadata_v2''"
definition NO_TEXT_REASON :: rstring where "NO_TEXT_REASON = lit ''pdf_no_text_in_parse_window''"

text \<open>The default of \<open>unwrap_or_else\<close>; the \<open>expect\<close> on the reason of a not-parsed file is guarded
  by the validation that runs before it.\<close>

definition unwrap_or :: "'a option \<Rightarrow> 'a \<Rightarrow> 'a" where
  "unwrap_or v d = (case v of None \<Rightarrow> d | Some x \<Rightarrow> x)"

lemma unwrap_or_simps [simp]: "unwrap_or None d = d" "unwrap_or (Some x) d = x"
  by (simp_all add: unwrap_or_def)

definition action_and_reason ::
  "context_profile \<Rightarrow> context_file_evidence \<Rightarrow> context_action \<times> rstring" where
  "action_and_reason profile e =
     (case ev_parse_status e of
        NotParsed \<Rightarrow> (Omit, unwrap_or (ev_reason e) [])
      | Success \<Rightarrow>
          if ev_parser_backend e = PDF_METADATA_BACKEND \<and> ev_reason e = Some NO_TEXT_REASON
          then (MetadataOnly, NO_TEXT_REASON)
          else if cp_large_file_max_bytes profile < unwrap_or (ev_size_bytes e) 0
          then (MetadataOnly, lit ''file_size_policy'')
          else if length (ev_content e) \<le> cp_per_file_max_chars profile \<and> \<not> ev_truncated e
          then (Keep, lit ''small_file_keep'')
          else (Compress, compression_reason (ev_extension e))
      | _ \<Rightarrow> (ActionError, unwrap_or (ev_reason e) (lit ''parse_error'')))"

abbreviation evidence_key :: "(rstring \<Rightarrow> rstring) \<Rightarrow> context_file_evidence \<Rightarrow> nominal_key" where
  "evidence_key uni \<equiv> nominal_key_of uni ev_relative_path ev_extension ev_file_identity"

definition decide_file ::
  "(rstring \<Rightarrow> rstring) \<Rightarrow> context_profile \<Rightarrow> context_file_evidence \<Rightarrow> decided_file" where
  "decide_file uni profile e =
     (let (action, reason) = action_and_reason profile e;
          input_chars = (if action \<in> {Keep, Compress} then length (ev_content e)
                         else unwrap_or (ev_size_bytes e) 0);
          error_code = (if ev_parse_status e \<in> {Error, Timeout}
                        then (case ev_error e of None \<Rightarrow> []
                              | Some d \<Rightarrow> error_code_text (dg_error_code d))
                        else [])
      in \<lparr>de_evidence = e,
          de_decision = \<lparr>cd_relative_path = ev_relative_path e, cd_action = action, cd_reason = reason,
            cd_priority = nk_priority (evidence_key uni e), cd_input_chars = input_chars,
            cd_output_chars = 0, cd_truncated = ev_truncated e, cd_error_code = error_code\<rparr>\<rparr>)"

definition decide_files ::
  "(rstring \<Rightarrow> rstring) \<Rightarrow> (parsed_content_audit \<Rightarrow> nat) \<Rightarrow> context_file_evidence list \<Rightarrow>
     context_profile \<Rightarrow> (decided_file list, rstring) result" where
  "decide_files uni enc evidence profile =
     and_then (collect_results (\<lambda>e. and_then (validate_evidence enc e)
                  (\<lambda>_. Ok (decide_file uni profile e))) evidence)
       (\<lambda>decided. Ok (sort_key (\<lambda>d. evidence_key uni (de_evidence d)) decided))"

section \<open>Facts\<close>

lemma de_evidence_decide [simp]: "de_evidence (decide_file uni profile e) = e"
  by (simp add: decide_file_def Let_def split: prod.splits)

lemma cd_decide_simps [simp]:
  "cd_relative_path (de_decision (decide_file uni profile e)) = ev_relative_path e"
  "cd_truncated (de_decision (decide_file uni profile e)) = ev_truncated e"
  "cd_action (de_decision (decide_file uni profile e)) = fst (action_and_reason profile e)"
  "cd_reason (de_decision (decide_file uni profile e)) = snd (action_and_reason profile e)"
  by (simp_all add: decide_file_def Let_def split: prod.splits)

lemma decide_files_Ok:
  "decide_files uni enc evidence profile = Ok decided \<longleftrightarrow>
     (\<forall>e \<in> set evidence. validate_evidence enc e = Ok ())
     \<and> decided = sort_key (\<lambda>d. evidence_key uni (de_evidence d)) (map (decide_file uni profile) evidence)"
proof -
  have "collect_results (\<lambda>e. and_then (validate_evidence enc e) (\<lambda>_. Ok (decide_file uni profile e)))
      evidence = Ok ds \<longleftrightarrow>
      (\<forall>e \<in> set evidence. validate_evidence enc e = Ok ()) \<and> ds = map (decide_file uni profile) evidence" for ds
    by (induction evidence arbitrary: ds) auto
  then show ?thesis by (auto simp: decide_files_def)
qed

lemma decided_of_evidence:
  assumes "decide_files uni enc evidence profile = Ok decided" and "d \<in> set decided"
  shows "\<exists>e \<in> set evidence. d = decide_file uni profile e \<and> validate_evidence enc e = Ok ()"
  using assms by (auto simp: decide_files_Ok)

lemma length_action_reason_Success:
  "ev_parse_status e = Success \<Longrightarrow> length (snd (action_and_reason profile e)) \<le> 27"
  by (simp add: action_and_reason_def compression_reason_def NO_TEXT_REASON_def)

section \<open>Properties\<close>

text \<open>C22. The state matrix: a decision exists for every file and its action, reason and error
  code follow from the parse status alone where the matrix says so. Failures and timeouts are
  errors that carry the code of their diagnostic, files that were not parsed are omitted with
  their frozen reason and no code, successes are kept, compressed or reduced to metadata, and
  a file is kept whole only if it fits the per-file budget and was not truncated.\<close>

theorem decide_files_state_matrix:
  assumes ok: "decide_files uni enc evidence profile = Ok decided" and d: "d \<in> set decided"
  shows "let e = de_evidence d; c = de_decision d in
    e \<in> set evidence
    \<and> (ev_parse_status e \<in> {Error, Timeout} \<longrightarrow> cd_action c = ActionError
         \<and> (\<exists>g. ev_error e = Some g \<and> cd_error_code c = error_code_text (dg_error_code g)))
    \<and> (ev_parse_status e = NotParsed \<longrightarrow> cd_action c = Omit \<and> cd_error_code c = []
         \<and> ev_reason e = Some (cd_reason c) \<and> ev_error e = None)
    \<and> (ev_parse_status e = Success \<longrightarrow> cd_action c \<in> {Keep, Compress, MetadataOnly}
         \<and> cd_error_code c = [] \<and> ev_error e = None)
    \<and> (cd_action c = Keep \<longrightarrow> length (ev_content e) \<le> cp_per_file_max_chars profile
         \<and> \<not> ev_truncated e \<and> cd_input_chars c = length (ev_content e))
    \<and> cd_priority c = nk_priority (evidence_key uni e)"
proof -
  from decided_of_evidence [OF ok d] obtain e where e: "e \<in> set evidence" "d = decide_file uni profile e"
    and "validate_evidence enc e = Ok ()" by blast
  then have "status_check (ev_parse_status e) (ev_error e) (ev_reason e) = Ok ()"
    by (simp add: validate_evidence_def)
  with e show ?thesis
    by (cases "ev_parse_status e")
      (auto simp: Let_def decide_file_def action_and_reason_def split: prod.splits if_splits)
qed

text \<open>Decisions are in nominal order, and the order is that of the files, not of their
  outcome: two runs over the same files place them identically, whatever was parsed, cached,
  truncated or failed in either.\<close>

theorem decide_files_order_ignores_outcome:
  assumes "decide_files uni enc evidence profile = Ok decided"
    and "decide_files uni enc' evidence' profile' = Ok decided'"
    and "mset (map (\<lambda>e. (ev_relative_path e, ev_extension e, ev_file_identity e)) evidence) =
         mset (map (\<lambda>e. (ev_relative_path e, ev_extension e, ev_file_identity e)) evidence')"
  shows "map (\<lambda>d. evidence_key uni (de_evidence d)) decided = map (\<lambda>d. evidence_key uni (de_evidence d)) decided'
    \<and> sorted (map (\<lambda>d. evidence_key uni (de_evidence d)) decided)
    \<and> map (\<lambda>d. ev_file_identity (de_evidence d)) decided = map (\<lambda>d. ev_file_identity (de_evidence d)) decided'"
proof -
  let ?key = "\<lambda>d. evidence_key uni (de_evidence d)"
  let ?triple = "\<lambda>e. (ev_relative_path e, ev_extension e, ev_file_identity e)"
  have "mset (map (evidence_key uni) evidence) = mset (map (evidence_key uni) evidence')"
    using arg_cong [OF assms(3), of "image_mset (\<lambda>(p, x, i). NominalKey_new uni p x i)"]
    by (simp add: nominal_key_of_def [abs_def] multiset.map_comp comp_def)
  then have "mset (map ?key decided) = mset (map ?key decided')"
    using assms(1,2) by (simp add: decide_files_Ok multiset.map_comp comp_def)
  moreover have "sorted (map ?key decided)" "sorted (map ?key decided')"
    using assms(1,2) by (simp_all add: decide_files_Ok)
  ultimately have keys: "map ?key decided = map ?key decided'" by (metis properties_for_sort)
  have "map (\<lambda>d. ev_file_identity (de_evidence d)) ds = map nk_file_identity (map ?key ds)" for ds
    by (simp add: nominal_key_of_def)
  then have "map (\<lambda>d. ev_file_identity (de_evidence d)) decided = map (\<lambda>d. ev_file_identity (de_evidence d)) decided'"
    using keys by metis
  with keys \<open>sorted (map ?key decided)\<close> show ?thesis by blast
qed


text \<open>A readable note and one the budget refused, for the witnesses.\<close>

definition fixture_evidence :: context_file_evidence where
  "fixture_evidence = \<lparr>ev_file_identity = lit ''b'', ev_absolute_path = lit ''/w/b.txt'',
     ev_relative_path = lit ''b.txt'', ev_extension = lit ''.txt'', ev_size_bytes = Some 5,
     ev_content = lit ''hello'', ev_evidence_audit = None, ev_parser_backend = lit ''light_text_v2'',
     ev_worker_lane = RustCore, ev_cache_status = Miss, ev_parse_status = Success,
     ev_truncated = False, ev_error = None, ev_reason = None\<rparr>"

definition fixture_refused :: context_file_evidence where
  "fixture_refused = fixture_evidence\<lparr>ev_file_identity := lit ''c'', ev_absolute_path := lit ''/w/c.txt'',
     ev_relative_path := lit ''c.txt'', ev_content := [], ev_parse_status := NotParsed,
     ev_reason := Some (lit ''global_context_budget_exceeded'')\<rparr>"

lemmas evidence_eval =
  validate_evidence_def validate_context_decision_def validation_probe_def is_absolute_path_def
  is_extension_def is_safe_relative_path_def path_separator_def is_ascii_upper_def
  is_ascii_alphabetic_def is_ascii_lower_def

lemma fixture_evidence_valid:
  "validate_evidence (\<lambda>_. 0) fixture_evidence = Ok ()"
  "validate_evidence (\<lambda>_. 0) fixture_refused = Ok ()"
  by (simp_all add: fixture_refused_def fixture_evidence_def evidence_eval lit_def Let_def drive_rooted_def)

lemma fixture_decided:
  "decide_files id (\<lambda>_. 0) [fixture_evidence, fixture_refused] (ns_context daily_settings) =
     Ok (sort_key (\<lambda>d. evidence_key id (de_evidence d))
       (map (decide_file id (ns_context daily_settings)) [fixture_evidence, fixture_refused]))"
  by (simp add: decide_files_Ok fixture_evidence_valid)

theorem decide_files_state_matrix_witness:
  "cd_action (de_decision (decide_file id (ns_context daily_settings) fixture_refused)) = Omit"
  using decide_files_state_matrix [OF fixture_decided,
      of "decide_file id (ns_context daily_settings) fixture_refused"]
  by (simp add: Let_def fixture_refused_def)

lemma fixture_decided_again:
  "decide_files id (\<lambda>_. 0) [fixture_refused, fixture_evidence\<lparr>ev_truncated := True\<rparr>] (ns_context daily_settings) =
     Ok (sort_key (\<lambda>d. evidence_key id (de_evidence d))
       (map (decide_file id (ns_context daily_settings))
          [fixture_refused, fixture_evidence\<lparr>ev_truncated := True\<rparr>]))"
proof -
  have "validate_evidence (\<lambda>_. 0) (fixture_evidence\<lparr>ev_truncated := True\<rparr>) = Ok ()"
    by (simp add: fixture_evidence_def evidence_eval lit_def Let_def drive_rooted_def)
  then show ?thesis by (simp add: decide_files_Ok fixture_evidence_valid)
qed

theorem decide_files_order_ignores_outcome_witness:
  "map (\<lambda>d. evidence_key id (de_evidence d))
     (ok_value (decide_files id (\<lambda>_. 0) [fixture_evidence, fixture_refused] (ns_context daily_settings))) =
   map (\<lambda>d. evidence_key id (de_evidence d))
     (ok_value (decide_files id (\<lambda>_. 0) [fixture_refused, fixture_evidence\<lparr>ev_truncated := True\<rparr>]
        (ns_context daily_settings)))"
  using decide_files_order_ignores_outcome [OF fixture_decided fixture_decided_again]
  unfolding fixture_decided fixture_decided_again result.sel by (auto simp: fixture_refused_def fixture_evidence_def)

end
