(* ===== verification/Inventory.thy ===== *)
theory Inventory
  imports Decision
begin

text \<open>
  From a discovered file to what the scheduler and the store keep of it: the source guard
  (\<open>src/rust/scanner_core/src/source_guard.rs\<close>), the contract-relative path
  (\<open>context_audit.rs\<close>), the inventory record (\<open>store/inventory.rs\<close>) and the candidate and
  expected guard the scheduler derives from a file (\<open>scheduler.rs\<close>).
\<close>

section \<open>Source guards\<close>

fun source_guard_kind_text :: "source_guard_kind \<Rightarrow> rstring" where
  "source_guard_kind_text WindowsFileIdChangeTimeV1 = lit ''windows_file_id_change_time_v1''"
| "source_guard_kind_text UnixInodeCtimeV1 = lit ''unix_inode_ctime_v1''"
| "source_guard_kind_text ContentSha256V1 = lit ''content_sha256_v1''"
| "source_guard_kind_text Unavailable = lit ''unavailable''"

definition source_guard_kind_from_text :: "rstring \<Rightarrow> source_guard_kind option" where
  "source_guard_kind_from_text value =
     (if value = lit ''windows_file_id_change_time_v1'' then Some WindowsFileIdChangeTimeV1
      else if value = lit ''unix_inode_ctime_v1'' then Some UnixInodeCtimeV1
      else if value = lit ''content_sha256_v1'' then Some ContentSha256V1
      else if value = lit ''unavailable'' then Some Unavailable
      else None)"

lemma source_guard_kind_text_inverse [simp]:
  "source_guard_kind_from_text (source_guard_kind_text k) = Some k"
  by (cases k) (simp_all add: source_guard_kind_from_text_def)

lemma source_guard_kind_from_text_Some:
  "source_guard_kind_from_text v = Some k \<longleftrightarrow> v = source_guard_kind_text k"
  by (cases k) (auto simp: source_guard_kind_from_text_def split: if_splits)

lemma source_guard_kind_text_inj [simp]:
  "source_guard_kind_text a = source_guard_kind_text b \<longleftrightarrow> a = b"
  by (metis option.inject source_guard_kind_text_inverse)

lemma source_guard_kind_unavailable [simp]:
  "lit ''unavailable'' = source_guard_kind_text k \<longleftrightarrow> k = Unavailable"
  using source_guard_kind_text_inj [of Unavailable k] by auto

record source_guard_v2 =
  sg_kind :: source_guard_kind
  sg_guard_sha256 :: "rstring option"

definition validate_source_guard :: "source_guard_v2 \<Rightarrow> check" where
  "validate_source_guard g =
     (if sg_kind g = Unavailable
      then require (sg_guard_sha256 g = None) (lit ''unavailable source guard must have a null hash'')
      else and_then (ok_or (lit ''source guard kind requires a sha256'') (sg_guard_sha256 g))
        (\<lambda>hash. require (is_sha256_hex hash) (lit ''source guard hash must be lowercase hex sha256'')))"

section \<open>Source versions\<close>

text \<open>\<open>str::parse::<u64>\<close>: an optional plus sign, then at least one digit, within 64 bits.\<close>

definition parse_u64 :: "rstring \<Rightarrow> u64 option" where
  "parse_u64 s =
     (let digits = (if prefix [43] s then drop 1 s else s)
      in if digits \<noteq> [] \<and> list_all is_ascii_digit digits \<and> digits_value digits \<le> u64_max
         then Some (digits_value digits) else None)"

definition build_source_version :: "u64 \<Rightarrow> u64 \<Rightarrow> rstring" where
  "build_source_version mtime_ns size_bytes =
     lit ''mtime_ns='' @ dec mtime_ns @ lit '':size='' @ dec size_bytes"

definition parse_source_version :: "rstring \<Rightarrow> (u64 \<times> u64, rstring) result" where
  "parse_source_version value =
     (case Option.bind (strip_prefix_opt (lit ''mtime_ns='') value) (split_once (lit '':size='')) of
        None \<Rightarrow> Err (lit ''invalid source version'')
      | Some (mtime, bytes) \<Rightarrow>
          and_then (ok_or (lit ''invalid source mtime'') (parse_u64 mtime)) (\<lambda>mtime_ns.
          and_then (ok_or (lit ''invalid source size'') (parse_u64 bytes)) (\<lambda>size_bytes.
          Ok (mtime_ns, size_bytes))))"

section \<open>Paths\<close>

definition normalize_contract_path_text :: "rstring \<Rightarrow> rstring" where
  "normalize_contract_path_text value =
     (case strip_prefix_opt (lit [CHR 0x5C, CHR 0x5C, CHR ''?'', CHR 0x5C] @ lit ''UNC'' @ [backslash]) value of
        Some stripped \<Rightarrow> [backslash, backslash] @ stripped
      | None \<Rightarrow>
          (case strip_prefix_opt (lit [CHR 0x5C, CHR 0x5C, CHR ''?'', CHR 0x5C]) value of
             Some stripped \<Rightarrow> stripped
           | None \<Rightarrow> value))"

text \<open>
  The text comparison used when the platform's own prefix test fails. \<open>str::get\<close> works on
  bytes; ASCII case folding keeps the encoded length of every character, so a prefix of equal
  bytes up to case is a prefix of equal characters up to case.
\<close>

definition strip_work_dir_text :: "rstring \<Rightarrow> rstring \<Rightarrow> rstring option" where
  "strip_work_dir_text root_text path_text =
     (let root = trim_end_by (\<lambda>c. c = backslash) (replace_char slash backslash root_text);
          path = replace_char slash backslash path_text;
          n = length root
      in if n < length path \<and> map ascii_to_lower (take n path) = map ascii_to_lower root
            \<and> path ! n = backslash
         then Some (drop (n + 1) path) else None)"

text \<open>\<open>strip\<close> is \<open>Path::strip_prefix\<close> of the platform the scanner runs on, base first.\<close>

definition relative_contract_path ::
  "(rstring \<Rightarrow> rstring \<Rightarrow> rstring option) \<Rightarrow> rstring \<Rightarrow> rstring \<Rightarrow> (rstring, rstring) result" where
  "relative_contract_path strip work_dir absolute_path =
     (let root_text = normalize_contract_path_text work_dir;
          path_text = normalize_contract_path_text absolute_path;
          found = (case strip root_text path_text of
                     Some r \<Rightarrow> Some r
                   | None \<Rightarrow> strip_work_dir_text root_text path_text)
      in and_then (ok_or (lit ''discovered file is outside work_dir'') found) (\<lambda>found.
         let relative = replace_char slash backslash found
         in if relative = [] \<or> prefix [backslash] relative
               \<or> lit ''..'' \<in> set (split_on (\<lambda>c. c = backslash) relative)
            then Err (lit ''discovered relative path is unsafe'')
            else Ok relative))"

section \<open>Inventory records\<close>

record inventory_record =
  iv_file_identity :: rstring
  iv_absolute_path :: rstring
  iv_relative_path :: rstring
  iv_file_type :: rstring
  iv_source_version :: rstring
  iv_size_bytes :: u64
  iv_mtime_ns :: u64
  iv_source_guard_kind :: "rstring option"
  iv_source_guard_sha256 :: "rstring option"

definition valid_inventory_guard :: "rstring option \<Rightarrow> rstring option \<Rightarrow> bool" where
  "valid_inventory_guard kind hash =
     (case (kind, hash) of
        (None, None) \<Rightarrow> True
      | (Some kind, None) \<Rightarrow> source_guard_kind_from_text kind = Some Unavailable
      | (Some kind, Some hash) \<Rightarrow> is_sha256_hex hash
          \<and> source_guard_kind_from_text kind \<in>
              {Some WindowsFileIdChangeTimeV1, Some UnixInodeCtimeV1, Some ContentSha256V1}
      | _ \<Rightarrow> False)"

definition InventoryRecord_from_discovered ::
  "discovered_file \<Rightarrow> rstring \<Rightarrow> (inventory_record, rstring) result" where
  "InventoryRecord_from_discovered file relative_path =
     and_then (parse_source_version (df_source_version file)) (\<lambda>(mtime_ns, source_size).
     and_then (require (source_size = df_size_bytes file)
                 (lit ''discovery source version and size disagree'')) (\<lambda>_.
     and_then (require (relative_path \<noteq> [])
                 (lit ''inventory relative path must not be empty'')) (\<lambda>_.
     and_then (require (valid_inventory_guard (df_source_guard_kind file) (df_source_guard_sha256 file))
                 (lit ''discovery source guard violates the inventory invariant'')) (\<lambda>_.
     Ok \<lparr>iv_file_identity = df_file_identity file, iv_absolute_path = df_path file,
         iv_relative_path = relative_path, iv_file_type = df_extension file,
         iv_source_version = df_source_version file, iv_size_bytes = df_size_bytes file,
         iv_mtime_ns = mtime_ns, iv_source_guard_kind = df_source_guard_kind file,
         iv_source_guard_sha256 = df_source_guard_sha256 file\<rparr>))))"

definition i64_max :: u64 where "i64_max = 2 ^ 63 - 1"

text \<open>The store's own copies of the path checks also refuse a null character.\<close>

definition inventory_absolute_path :: "rstring \<Rightarrow> bool" where
  "inventory_absolute_path value \<longleftrightarrow>
     (prefix [slash] value \<or> prefix [backslash, backslash] value \<or> drive_rooted value)
     \<and> 0 \<notin> set value \<and> length value \<le> 32767"

definition inventory_relative_path :: "rstring \<Rightarrow> bool" where
  "inventory_relative_path value \<longleftrightarrow>
     value \<noteq> [] \<and> length value \<le> 32767 \<and> \<not> prefix [slash] value \<and> \<not> prefix [backslash] value
     \<and> \<not> (2 \<le> length value \<and> is_ascii_alphabetic (value ! 0) \<and> value ! 1 = 58)
     \<and> 0 \<notin> set value \<and> lit ''..'' \<notin> set (split_on path_separator value)"

definition validate_inventory_record :: "inventory_record \<Rightarrow> check" where
  "validate_inventory_record r =
     and_then (require (\<not> (iv_file_identity r = [] \<or> 4096 < length (iv_file_identity r)
         \<or> \<not> inventory_absolute_path (iv_absolute_path r)
         \<or> \<not> inventory_relative_path (iv_relative_path r)
         \<or> \<not> is_extension (iv_file_type r) \<or> iv_source_version r = []
         \<or> i64_max < iv_size_bytes r \<or> i64_max < iv_mtime_ns r))
       (lit ''invalid inventory record'')) (\<lambda>_.
     and_then (parse_source_version (iv_source_version r)) (\<lambda>(mtime_ns, size_bytes).
     validate_all
       [require (mtime_ns = iv_mtime_ns r \<and> size_bytes = iv_size_bytes r)
          (lit ''inventory source version is inconsistent''),
        require (valid_inventory_guard (iv_source_guard_kind r) (iv_source_guard_sha256 r))
          (lit ''inventory source guard violates the invariant'')]))"

section \<open>What the scheduler derives from a file\<close>

definition plan_candidate_of :: "discovered_file \<Rightarrow> plan_candidate" where
  "plan_candidate_of file =
     (let guard_kind = unwrap_or (Option.bind (df_source_guard_kind file) source_guard_kind_from_text) Unavailable
      in \<lparr>pc_file_identity = df_file_identity file, pc_relative_path = df_path file,
          pc_extension = df_extension file, pc_size_bytes = df_size_bytes file,
          pc_source_guard_kind = guard_kind\<rparr>)"

definition expected_guard :: "discovered_file \<Rightarrow> source_guard_v2 option" where
  "expected_guard file =
     (case Option.bind (df_source_guard_kind file) source_guard_kind_from_text of
        None \<Rightarrow> None
      | Some kind \<Rightarrow>
          if kind = Unavailable then None
          else (case df_source_guard_sha256 file of
                  None \<Rightarrow> None
                | Some hash \<Rightarrow>
                    let guard = \<lparr>sg_kind = kind, sg_guard_sha256 = Some hash\<rparr>
                    in if is_ok (validate_source_guard guard) then Some guard else None))"

section \<open>Round trip of source versions\<close>

lemma dec_digits: "list_all is_ascii_digit (dec n)"
proof (induction n rule: dec.induct)
  case (1 n)
  then show ?case
    by (cases "n < 10") (auto simp: dec.simps [of n] is_ascii_digit_def)
qed

lemma dec_no_plus: "\<not> prefix [43] (dec n)"
proof
  assume "prefix [43] (dec n)"
  then have "(43::nat) \<in> set (dec n)" by (auto simp: prefix_def)
  with dec_digits [of n] show False by (auto simp: list_all_iff is_ascii_digit_def)
qed

lemma parse_u64_dec: "parse_u64 (dec n) = (if n \<le> u64_max then Some n else None)"
  using dec_digits [of n] dec_no_plus [of n] by (simp add: parse_u64_def Let_def)

lemma split_once_head:
  assumes "\<not> prefix sep []" and "hd sep \<notin> set s"
  shows "split_once sep (s @ sep @ t) = Some (s, t)"
  using assms(2)
proof (induction s)
  case Nil
  obtain c r where "sep @ t = c # r" using assms(1) by (cases sep) auto
  then have "split_once sep (sep @ t) = Some ([], drop (length sep) (c # r))"
    by (metis prefixI split_once.simps(2))
  then show ?case using \<open>sep @ t = c # r\<close> by (metis append_Nil append_eq_conv_conj)
next
  case (Cons c s)
  have "\<not> prefix sep (c # s @ sep @ t)"
    using assms(1) Cons.prems by (cases sep) auto
  with Cons show ?case by simp
qed

lemma parse_built_version:
  "n \<le> u64_max \<Longrightarrow> parse_source_version (build_source_version m n) =
     (if m \<le> u64_max then Ok (m, n) else Err (lit ''invalid source mtime''))"
proof -
  assume n: "n \<le> u64_max"
  have "hd (lit '':size='') \<notin> set (dec m)"
    using dec_digits [of m] by (auto simp: list_all_iff is_ascii_digit_def lit_def)
  then have "split_once (lit '':size='') (dec m @ lit '':size='' @ dec n) = Some (dec m, dec n)"
    by (intro split_once_head) (simp_all add: lit_def)
  then show ?thesis using n
    by (simp add: parse_source_version_def build_source_version_def strip_prefix_opt_def parse_u64_dec ok_or_def)
qed

text \<open>The source version of a file reads back: what discovery writes for a modification time
  and a size is parsed to exactly these two numbers, and a modification time beyond 64 bits,
  which discovery can still print, is refused.\<close>

theorem source_version_round_trip:
  assumes "size_bytes \<le> u64_max"
  shows "parse_source_version (build_source_version mtime_ns size_bytes) =
    (if mtime_ns \<le> u64_max then Ok (mtime_ns, size_bytes) else Err (lit ''invalid source mtime''))"
  using assms by (rule parse_built_version)

theorem source_version_round_trip_witness:
  "parse_source_version (build_source_version 123 456) = Ok (123, 456)"
  using source_version_round_trip [of 456 123] by (simp add: u64_max_def)

section \<open>Relative paths\<close>

lemma slash_not_in_replaced: "slash \<notin> set (replace_char slash backslash s)"
  by (auto simp: replace_char_def)

lemma split_on_cong: "(\<And>c. c \<in> set s \<Longrightarrow> p c = q c) \<Longrightarrow> split_on p s = split_on q s"
  by (induction s) auto

text \<open>A relative path is a path below the work directory: it is not empty, not rooted, and no
  component of it climbs. It is a safe path of the contract unless it starts like a drive or
  is over-long, and when the textual comparison produced it, the file's path is the work
  directory, up to ASCII case and kind of separator, then a separator, then the result.\<close>

theorem relative_contract_path_inside:
  assumes ok: "relative_contract_path strip work_dir path = Ok r"
  shows "r \<noteq> [] \<and> \<not> prefix [backslash] r \<and> slash \<notin> set r
    \<and> lit ''..'' \<notin> set (split_on path_separator r)
    \<and> (is_safe_relative_path r \<longleftrightarrow>
         length r \<le> 32767 \<and> \<not> (2 \<le> length r \<and> is_ascii_alphabetic (r ! 0) \<and> r ! 1 = 58))
    \<and> (strip (normalize_contract_path_text work_dir) (normalize_contract_path_text path) = None \<longrightarrow>
         (let root = trim_end_by (\<lambda>c. c = backslash)
                       (replace_char slash backslash (normalize_contract_path_text work_dir))
          in map ascii_to_lower (replace_char slash backslash (normalize_contract_path_text path)) =
             map ascii_to_lower (root @ [backslash] @ r)))"
proof -
  let ?root = "normalize_contract_path_text work_dir" and ?path = "normalize_contract_path_text path"
  from ok obtain found where r: "r = replace_char slash backslash found"
    and ne: "r \<noteq> []" "\<not> prefix [backslash] r" and dots: "lit ''..'' \<notin> set (split_on (\<lambda>c. c = backslash) r)"
    and found: "strip ?root ?path = Some found
      \<or> strip ?root ?path = None \<and> strip_work_dir_text ?root ?path = Some found"
    by (auto simp: relative_contract_path_def Let_def split: if_splits option.splits)
  have noslash: "slash \<notin> set r" using r slash_not_in_replaced by simp
  have sep: "split_on path_separator r = split_on (\<lambda>c. c = backslash) r"
    by (rule split_on_cong) (use noslash in \<open>auto simp: path_separator_def\<close>)
  have "\<not> prefix [slash] r" using noslash by (auto simp: prefix_def)
  with ne dots sep have safe: "is_safe_relative_path r \<longleftrightarrow>
      length r \<le> 32767 \<and> \<not> (2 \<le> length r \<and> is_ascii_alphabetic (r ! 0) \<and> r ! 1 = 58)"
    by (auto simp: is_safe_relative_path_def Let_def)
  have body: "map ascii_to_lower (replace_char slash backslash ?path) =
      map ascii_to_lower (trim_end_by (\<lambda>c. c = backslash) (replace_char slash backslash ?root) @ [backslash] @ r)"
    if "strip ?root ?path = None"
  proof -
    define rt where "rt = trim_end_by (\<lambda>c. c = backslash) (replace_char slash backslash ?root)"
    define pt where "pt = replace_char slash backslash ?path"
    have c: "length rt < length pt" "map ascii_to_lower (take (length rt) pt) = map ascii_to_lower rt"
      "pt ! length rt = backslash" "found = drop (length rt + 1) pt"
      using that found by (auto simp: strip_work_dir_text_def Let_def rt_def pt_def split: if_splits)
    have "r = found" unfolding r replace_char_def c(4)
      by (rule map_idI) (use slash_not_in_replaced in \<open>auto simp: pt_def dest: in_set_dropD\<close>)
    moreover have "pt = take (length rt) pt @ [backslash] @ drop (length rt + 1) pt"
      using c(1,3) by (metis Cons_nth_drop_Suc Suc_eq_plus1 append_Cons append_Nil append_take_drop_id)
    ultimately have "map ascii_to_lower pt = map ascii_to_lower (rt @ [backslash] @ r)"
      using c(2,4) by (metis map_append)
    then show ?thesis by (simp add: rt_def pt_def)
  qed
  from ne noslash dots sep safe body show ?thesis by (simp add: Let_def)
qed

text \<open>A Windows work directory: no prefix test of the platform applies, the text comparison does.\<close>

lemma windows_path_example:
  "relative_contract_path (\<lambda>_ _. None) (lit ''C:/Work'') (lit ''c:/work/a/b.md'') =
     Ok (lit ''a'' @ [backslash] @ lit ''b.md'')"
  by (simp add: relative_contract_path_def normalize_contract_path_text_def strip_prefix_opt_def
      strip_work_dir_text_def trim_end_by_def replace_char_def lit_def Let_def ascii_to_lower_def
      is_ascii_upper_def ok_or_def)

theorem relative_contract_path_inside_witness:
  "is_safe_relative_path (lit ''a'' @ [backslash] @ lit ''b.md'')"
  using relative_contract_path_inside [OF windows_path_example] by (auto simp: lit_def)

section \<open>Guards\<close>

lemma expected_guard_Some:
  "expected_guard f = Some g \<longleftrightarrow>
     sg_kind g \<noteq> Unavailable \<and> df_source_guard_kind f = Some (source_guard_kind_text (sg_kind g))
     \<and> (\<exists>h. df_source_guard_sha256 f = Some h \<and> sg_guard_sha256 g = Some h \<and> is_sha256_hex h)"
  by (cases g)
    (auto simp: expected_guard_def validate_source_guard_def is_ok_iff Let_def source_guard_kind_from_text_Some
      split: option.splits if_splits Option.bind_splits)

lemma candidate_guard_kind:
  "pc_source_guard_kind (plan_candidate_of f) = k \<longleftrightarrow>
     (case df_source_guard_kind f of
        None \<Rightarrow> k = Unavailable
      | Some t \<Rightarrow> t = source_guard_kind_text k \<or> k = Unavailable \<and> source_guard_kind_from_text t = None)"
  by (auto simp: plan_candidate_of_def unwrap_or_def Let_def source_guard_kind_from_text_Some [symmetric]
      split: option.splits)

lemma accepted_guard:
  assumes "InventoryRecord_from_discovered file relative_path = Ok rec"
  shows "expected_guard file = None \<longleftrightarrow> pc_source_guard_kind (plan_candidate_of file) = Unavailable"
proof -
  have valid: "valid_inventory_guard (df_source_guard_kind file) (df_source_guard_sha256 file)"
    using assms by (auto simp: InventoryRecord_from_discovered_def)
  show ?thesis
  proof (cases "df_source_guard_kind file")
    case None
    then show ?thesis by (simp add: expected_guard_def plan_candidate_of_def Let_def)
  next
    case (Some t)
    with valid show ?thesis
      by (cases "df_source_guard_sha256 file"; cases "source_guard_kind_from_text t")
        (auto simp: expected_guard_def plan_candidate_of_def valid_inventory_guard_def Let_def
          validate_source_guard_def is_ok_iff)
  qed
qed

text \<open>Files whose guard the inventory accepts are handled consistently: the planner sees the
  guard as unavailable exactly when the scheduler has none to verify, so every file that stage
  A makes a candidate can be verified later; the guard to verify is valid, is not the
  unavailable one, and its wire text is the one that was discovered.\<close>

theorem candidates_have_expected_guard:
  assumes "InventoryRecord_from_discovered file relative_path = Ok rec"
  shows "(expected_guard file = None \<longleftrightarrow> pc_source_guard_kind (plan_candidate_of file) = Unavailable)
    \<and> (\<forall>c route. preselect uni profile (plan_candidate_of file) = Inr (c, route) \<longrightarrow> expected_guard file \<noteq> None)
    \<and> (\<forall>g. expected_guard file = Some g \<longrightarrow> validate_source_guard g = Ok ()
         \<and> df_source_guard_kind file = Some (source_guard_kind_text (sg_kind g))
         \<and> df_source_guard_sha256 file = sg_guard_sha256 g)"
proof -
  note iff = accepted_guard [OF assms]
  have "pc_source_guard_kind (plan_candidate_of file) \<noteq> Unavailable"
    if "preselect uni profile (plan_candidate_of file) = Inr (c, route)" for c route
    using that by (auto simp: preselect_def split: route_decision.splits if_splits)
  moreover have "validate_source_guard g = Ok ()" if "expected_guard file = Some g" for g
    using that by (auto simp: expected_guard_Some validate_source_guard_def)
  ultimately show ?thesis using iff by (auto simp: expected_guard_Some)
qed

text \<open>A text file with an inode guard.\<close>

definition fixture_discovered :: discovered_file where
  "fixture_discovered = \<lparr>df_file_identity = lit ''b'', df_path = lit ''/w/b.txt'', df_extension = lit ''.txt'',
     df_modified_at = lit ''2025-01-01T00:00:00'', df_size_bytes = 5,
     df_source_version = build_source_version 7 5,
     df_source_guard_kind = Some (source_guard_kind_text UnixInodeCtimeV1),
     df_source_guard_sha256 = Some (replicate 64 48)\<rparr>"

lemma fixture_hash: "is_sha256_hex (replicate 64 48)"
  by (simp add: is_sha256_hex_def is_ascii_digit_def)

lemma fixture_inventory: "is_ok (InventoryRecord_from_discovered fixture_discovered (lit ''b.txt''))"
  using parse_built_version [of 5 7] fixture_hash
  by (simp add: InventoryRecord_from_discovered_def fixture_discovered_def valid_inventory_guard_def
      u64_max_def is_ok_iff source_guard_kind_from_text_Some)

theorem candidates_have_expected_guard_witness:
  "expected_guard fixture_discovered \<noteq> None"
proof -
  from fixture_inventory obtain rec where "InventoryRecord_from_discovered fixture_discovered (lit ''b.txt'') = Ok rec"
    by (auto simp: is_ok_iff)
  from candidates_have_expected_guard [OF this] show ?thesis
    using candidate_guard_kind [of fixture_discovered UnixInodeCtimeV1] by (simp add: fixture_discovered_def)
qed

end
