(* ===== verification/Pdf_Audit.thy ===== *)
theory Pdf_Audit
  imports Scanner_Contract
begin

text \<open>
  \<open>src/rust/scanner_contract/src/pdf_audit.rs\<close> (which pages of a PDF are sampled, the audit of the
  pages that were looked at) and the classification audit of \<open>scanner_contract/src/lib.rs\<close> with the
  provenance matrix shared by the wire validator and the store.
\<close>

section \<open>Sampled pages\<close>

definition push_new :: "u64 list \<Rightarrow> u64 \<Rightarrow> u64 list" where
  "push_new pages page = (if page \<in> set pages then pages else pages @ [page])"

text \<open>The last loop: pages from the front until the count is reached.\<close>

fun fill_pages :: "u64 \<Rightarrow> u64 list \<Rightarrow> u64 list \<Rightarrow> u64 list" where
  "fill_pages wanted [] pages = pages"
| "fill_pages wanted (page # rest) pages =
     (if length pages = wanted then pages else fill_pages wanted rest (push_new pages page))"

definition pdf_sample_pages :: "u64 \<Rightarrow> u64 \<Rightarrow> rstring \<Rightarrow> u64 list" where
  "pdf_sample_pages page_count max_pages policy =
     (let wanted = min page_count max_pages in
      if wanted = 0 then []
      else if policy = lit ''pdf_text_presence_v1'' then [1..<wanted + 1]
      else
        let pages = [1..<min wanted 2 + 1];
            pages = (if length pages < wanted \<and> page_count \<notin> set pages then pages @ [page_count] else pages);
            remaining = wanted - length pages;
            pages = foldl push_new pages
              (map (\<lambda>i. 1 + (page_count - 1) * i div (remaining + 1)) [1..<remaining + 1])
        in fill_pages wanted [1..<page_count + 1] pages)"

lemma push_new_facts:
  assumes "distinct pages"
  shows "distinct (push_new pages p)" and "set (push_new pages p) = insert p (set pages)"
    and "length (push_new pages p) \<le> length pages + 1" and "prefix pages (push_new pages p)"
  using assms by (auto simp: push_new_def)

lemma foldl_push_new:
  assumes "distinct pages"
  shows "distinct (foldl push_new pages ps) \<and> set (foldl push_new pages ps) = set pages \<union> set ps
    \<and> length (foldl push_new pages ps) \<le> length pages + length ps \<and> prefix pages (foldl push_new pages ps)"
  using assms
proof (induction ps arbitrary: pages)
  case (Cons p ps)
  note step = push_new_facts [OF Cons.prems, of p]
  from Cons.IH [OF step(1)] step show ?case
    by (auto intro: prefix_order.trans)
qed simp

lemma fill_pages_facts:
  assumes "distinct pages" and "length pages \<le> wanted"
  shows "distinct (fill_pages wanted ps pages) \<and> length (fill_pages wanted ps pages) \<le> wanted
    \<and> set (fill_pages wanted ps pages) \<subseteq> set pages \<union> set ps \<and> prefix pages (fill_pages wanted ps pages)
    \<and> (length (fill_pages wanted ps pages) = wanted \<or> set ps \<subseteq> set (fill_pages wanted ps pages))"
  using assms
proof (induction ps arbitrary: pages)
  case (Cons p ps)
  show ?case
  proof (cases "length pages = wanted")
    case False
    note step = push_new_facts [OF Cons.prems(1), of p]
    have "length (push_new pages p) \<le> wanted" using step(3) Cons.prems(2) False by simp
    note ih = Cons.IH [OF step(1) this]
    have "p \<in> set (fill_pages wanted ps (push_new pages p))"
      using ih step(2) set_mono_prefix by blast
    with False ih step show ?thesis by (auto intro: prefix_order.trans)
  qed (use Cons.prems in auto)
qed auto

text \<open>The start of a version 2 sample: one or two leading pages, then the last page.\<close>

definition sample_start :: "u64 \<Rightarrow> u64 \<Rightarrow> u64 list" where
  "sample_start page_count wanted =
     (let pages = [1..<min wanted 2 + 1]
      in if length pages < wanted \<and> page_count \<notin> set pages then pages @ [page_count] else pages)"

lemma sample_start_facts:
  assumes "0 < wanted" and "wanted \<le> page_count"
  shows "distinct (sample_start page_count wanted)" and "length (sample_start page_count wanted) \<le> wanted"
    and "set (sample_start page_count wanted) \<subseteq> {1..page_count}" and "sample_start page_count wanted ! 0 = 1"
    and "sample_start page_count wanted \<noteq> []"
    and "3 \<le> wanted \<Longrightarrow> length (sample_start page_count wanted) = 3 \<and> sample_start page_count wanted ! 2 = page_count"
proof -
  consider "wanted = 1" | "wanted = 2" | "3 \<le> wanted" using assms(1) by linarith
  then have "sample_start page_count wanted = (if wanted = 1 then [1] else if wanted = 2 then [1, 2] else [1, 2, page_count])"
    using assms(2) by cases (auto simp: sample_start_def upt_rec numeral_2_eq_2 min_def)
  then show "distinct (sample_start page_count wanted)" and "length (sample_start page_count wanted) \<le> wanted"
    and "set (sample_start page_count wanted) \<subseteq> {1..page_count}" and "sample_start page_count wanted ! 0 = 1"
    and "sample_start page_count wanted \<noteq> []"
    and "3 \<le> wanted \<Longrightarrow> length (sample_start page_count wanted) = 3 \<and> sample_start page_count wanted ! 2 = page_count"
    using assms by auto
qed

lemma sample_none: "min page_count max_pages = 0 \<Longrightarrow> pdf_sample_pages page_count max_pages policy = []"
  by (simp only: pdf_sample_pages_def Let_def if_P)

lemma sample_leading:
  "policy = lit ''pdf_text_presence_v1'' \<Longrightarrow>
     pdf_sample_pages page_count max_pages policy = [1..<min page_count max_pages + 1]"
  by (cases "min page_count max_pages = 0")
    (simp_all only: pdf_sample_pages_def Let_def if_P if_not_P if_False add_0 upt_conv_Nil order_refl)

lemma sample_v2_facts:
  assumes "0 < min page_count max_pages" and "policy \<noteq> lit ''pdf_text_presence_v1''"
  shows "distinct (pdf_sample_pages page_count max_pages policy)
    \<and> length (pdf_sample_pages page_count max_pages policy) = min page_count max_pages
    \<and> set (pdf_sample_pages page_count max_pages policy) \<subseteq> {1..page_count}
    \<and> prefix (sample_start page_count (min page_count max_pages)) (pdf_sample_pages page_count max_pages policy)"
proof -
  define wanted where "wanted = min page_count max_pages"
  define start where "start = sample_start page_count wanted"
  define rem where "rem = wanted - length start"
  define spread where "spread = map (\<lambda>i. 1 + (page_count - 1) * i div (rem + 1)) [1..<rem + 1]"
  define mid where "mid = foldl push_new start spread"
  define pages where "pages = fill_pages wanted [1..<page_count + 1] mid"
  have wanted: "0 < wanted" "wanted \<le> page_count" using assms(1) by (simp_all add: wanted_def)
  note start = sample_start_facts [OF wanted, folded start_def]
  note mid = foldl_push_new [OF start(1), of spread, folded mid_def]
  have "length spread = rem" by (simp add: spread_def)
  then have len: "length mid \<le> wanted" using mid start(2) by (simp add: rem_def)
  have "1 + (page_count - 1) * i div (rem + 1) \<le> page_count" if "i < rem + 1" for i
  proof -
    have "(page_count - 1) * i \<le> (page_count - 1) * (rem + 1)" using that by (intro mult_le_mono2) simp
    then have "(page_count - 1) * i div (rem + 1) \<le> (page_count - 1) * (rem + 1) div (rem + 1)"
      by (rule div_le_mono)
    then have "(page_count - 1) * i div (rem + 1) \<le> page_count - 1"
      by (simp only: nonzero_mult_div_cancel_right add_is_0 one_neq_zero simp_thms)
    then show ?thesis using wanted by simp
  qed
  then have spread: "set spread \<subseteq> {1..page_count}" unfolding spread_def by auto
  note fin = fill_pages_facts [OF conjunct1 [OF mid] len, of "[1..<page_count + 1]", folded pages_def]
  have def: "pdf_sample_pages page_count max_pages policy = pages"
    using assms(2) wanted(1) unfolding pages_def mid_def spread_def rem_def start_def wanted_def
      pdf_sample_pages_def sample_start_def Let_def by (simp only: if_not_P neq0_conv if_False)
  have "wanted \<le> length pages" if "set [1..<page_count + 1] \<subseteq> set pages"
  proof -
    have "{1..page_count} \<subseteq> set pages" using that by (auto simp del: upt_Suc)
    then have "page_count \<le> card (set pages)" using card_mono [of "set pages" "{1..page_count}"] by simp
    then show ?thesis using fin wanted(2) distinct_card by fastforce
  qed
  then have "length pages = wanted" using fin by (metis le_antisym)
  moreover have "set pages \<subseteq> {1..page_count}" using fin mid start(3) spread by fastforce
  moreover have "prefix start pages" using fin mid by (meson prefix_order.trans)
  ultimately show ?thesis using fin unfolding def wanted_def [symmetric] start_def [symmetric] by blast
qed

lemma sample_facts:
  shows "distinct (pdf_sample_pages page_count max_pages policy)"
    and "length (pdf_sample_pages page_count max_pages policy) = min page_count max_pages"
    and "set (pdf_sample_pages page_count max_pages policy) \<subseteq> {1..page_count}"
    and "0 < min page_count max_pages \<Longrightarrow> pdf_sample_pages page_count max_pages policy ! 0 = 1"
    and "policy \<noteq> lit ''pdf_text_presence_v1'' \<Longrightarrow> 3 \<le> min page_count max_pages \<Longrightarrow>
      pdf_sample_pages page_count max_pages policy ! 2 = page_count"
proof -
  let ?pages = "pdf_sample_pages page_count max_pages policy"
  have "distinct ?pages \<and> length ?pages = min page_count max_pages \<and> set ?pages \<subseteq> {1..page_count}
    \<and> (0 < min page_count max_pages \<longrightarrow> ?pages ! 0 = 1)
    \<and> (policy \<noteq> lit ''pdf_text_presence_v1'' \<and> 3 \<le> min page_count max_pages \<longrightarrow> ?pages ! 2 = page_count)"
  proof (cases "min page_count max_pages = 0 \<or> policy = lit ''pdf_text_presence_v1''")
    case True
    then have eq: "?pages = [1..<min page_count max_pages + 1]"
      using sample_none [of page_count max_pages policy] sample_leading [of policy page_count max_pages]
      by fastforce
    show ?thesis unfolding eq using True by (auto simp del: upt_Suc)
  next
    case False
    then have pos: "0 < min page_count max_pages" and pol: "policy \<noteq> lit ''pdf_text_presence_v1''" by auto
    note facts = sample_v2_facts [OF pos pol] and start = sample_start_facts [OF pos min.cobounded1]
    obtain rest where pages: "?pages = sample_start page_count (min page_count max_pages) @ rest"
      using facts by (auto simp: prefix_def)
    have "?pages ! 0 = 1" unfolding pages using start(4,5) by (simp add: nth_append)
    moreover have "?pages ! 2 = page_count" if "3 \<le> min page_count max_pages"
      unfolding pages using start(6) [OF that] by (simp add: nth_append)
    ultimately show ?thesis using facts pol by blast
  qed
  then show "distinct ?pages" and "length ?pages = min page_count max_pages" and "set ?pages \<subseteq> {1..page_count}"
    and "0 < min page_count max_pages \<Longrightarrow> ?pages ! 0 = 1"
    and "policy \<noteq> lit ''pdf_text_presence_v1'' \<Longrightarrow> 3 \<le> min page_count max_pages \<Longrightarrow> ?pages ! 2 = page_count"
    by blast+
qed

text \<open>The pages sampled from a PDF are distinct pages of the document, exactly as many as
  the smaller of the document and the page charge; the first page is always among them and
  comes first, and from three pages on the last page comes third, so that it is looked at even
  in a shortened window. Under the version 1 policy they are the leading pages.\<close>

theorem pdf_sample_pages_correct:
  "distinct (pdf_sample_pages page_count max_pages policy)
   \<and> length (pdf_sample_pages page_count max_pages policy) = min page_count max_pages
   \<and> set (pdf_sample_pages page_count max_pages policy) \<subseteq> {1..page_count}
   \<and> (0 < min page_count max_pages \<longrightarrow> pdf_sample_pages page_count max_pages policy ! 0 = 1)
   \<and> (policy \<noteq> lit ''pdf_text_presence_v1'' \<and> 3 \<le> min page_count max_pages \<longrightarrow>
        pdf_sample_pages page_count max_pages policy ! 2 = page_count)
   \<and> (policy = lit ''pdf_text_presence_v1'' \<longrightarrow>
        pdf_sample_pages page_count max_pages policy = [1..<min page_count max_pages + 1])"
  using sample_facts(1-4) [of page_count max_pages policy] sample_facts(5) [of policy page_count max_pages]
    sample_leading [of policy page_count max_pages] by blast

theorem pdf_sample_pages_correct_witness:
  "pdf_sample_pages 8 5 (lit ''pdf_text_presence_v2'') ! 2 = 8"
  using pdf_sample_pages_correct [of 8 5 "lit ''pdf_text_presence_v2''"] by simp

section \<open>Page and classification audits\<close>

record pdf_page_observation =
  po_page :: u64
  po_has_text :: bool
  po_has_image :: "bool option"

record pdf_page_audit =
  pg_policy_version :: rstring
  pg_checked_pages :: "u64 list"
  pg_observations :: "pdf_page_observation list option"

definition validate_pdf_page_audit :: "pdf_page_audit \<Rightarrow> check" where
  "validate_pdf_page_audit a = validate_all
     [require (pg_policy_version a \<in> {lit ''pdf_text_presence_v1'', lit ''pdf_text_presence_v2''}
               \<and> length (pg_checked_pages a) \<le> 10000 \<and> 0 \<notin> set (pg_checked_pages a)
               \<and> distinct (pg_checked_pages a))
        (lit ''invalid PDF page audit''),
      require (case pg_observations a of None \<Rightarrow> True
               | Some items \<Rightarrow> map po_page items = pg_checked_pages a)
        (lit ''PDF observations do not match checked pages'')]"

record pdf_classification_audit =
  ca_page_audit :: "pdf_page_audit option"
  ca_status :: pdf_classification_status
  ca_page_count :: "u64 option"
  ca_cache_status :: classification_cache_status
  ca_cache_miss_reason :: rstring
  ca_result_examined_pages :: "u64 option"
  ca_run_inspected_pages :: "u64 option"
  ca_nominal_charged_pages :: u64
  ca_duration_ms :: u64
  ca_transport :: classification_transport
  ca_attempt_count :: u64
  ca_classifier_build :: rstring
  ca_classifier_profile_hash :: rstring

text \<open>The page audit inside a classification audit.\<close>

definition page_audit_checks :: "pdf_classification_audit \<Rightarrow> pdf_page_audit \<Rightarrow> check" where
  "page_audit_checks c a = validate_all
     [validate_pdf_page_audit a,
      require (ca_result_examined_pages c = Some (length (pg_checked_pages a))
               \<and> (case ca_page_count c of None \<Rightarrow> False
                  | Some pc \<Rightarrow> \<forall>page \<in> set (pg_checked_pages a). page \<le> pc))
        (lit ''PDF observed pages violate page provenance''),
      require (let expected = pdf_sample_pages (case ca_page_count c of None \<Rightarrow> 0 | Some n \<Rightarrow> n)
                 (ca_nominal_charged_pages c) (pg_policy_version a)
               in length (pg_checked_pages a) \<le> length expected
                  \<and> take (length (pg_checked_pages a)) expected = pg_checked_pages a)
        (lit ''PDF observed pages violate the selected policy''),
      check_some (pg_observations a) (\<lambda>observations.
        require (\<forall>i \<in> set [0..<length observations].
            po_has_text (observations ! i) =
              (ca_status c = TextInParseWindow \<and> i + 1 = length observations))
          (lit ''PDF text observations violate its status''))]"

definition zero_execution :: "pdf_classification_audit \<Rightarrow> classification_transport \<Rightarrow> check" where
  "zero_execution c transport =
     require (ca_run_inspected_pages c = Some 0 \<and> ca_duration_ms c = 0 \<and> ca_transport c = transport
              \<and> ca_attempt_count c = 0)
       (lit ''non-executing classification provenance has nonzero execution fields'')"

definition CLASSIFICATION_MISS_REASONS :: "rstring list" where
  "CLASSIFICATION_MISS_REASONS = [lit ''new_file'', lit ''source_version_changed'',
     lit ''classifier_identity_changed'', lit ''entry_absent_or_evicted'']"

text \<open>The checks of a conclusive status (text or no text).\<close>

definition conclusive_checks :: "pdf_classification_audit \<Rightarrow> check" where
  "conclusive_checks c =
     and_then (ok_or (lit ''text/no-text classification requires page provenance'') (ca_page_count c)) (\<lambda>page_count.
     and_then (ok_or (lit ''text/no-text classification requires examined-page provenance'')
        (ca_result_examined_pages c)) (\<lambda>result_pages.
     let window_pages = min page_count (ca_nominal_charged_pages c) in
     validate_all
       [require (page_count \<noteq> 0) (lit ''text/no-text classification page_count must be positive''),
        require (ca_nominal_charged_pages c \<noteq> 0)
          (lit ''classified PDF requires a positive nominal page charge''),
        (if ca_status c = TextInParseWindow
         then require (1 \<le> result_pages \<and> result_pages \<le> window_pages)
           (lit ''text classification pages must fit the parse window'')
         else require (result_pages = window_pages)
           (lit ''no-text classification must examine the complete window'')),
        (case ca_cache_status c of
           CcFresh \<Rightarrow> zero_execution c CtNotApplicable
         | CcSnapshot \<Rightarrow> zero_execution c CtSnapshot
         | CcMiss \<Rightarrow> require (ca_transport c \<in> {CtSession, CtOneShot} \<and> ca_attempt_count c \<noteq> 0)
             (lit ''executed classification miss requires session/one_shot and 1..3 attempts'')
         | CcNotEligible \<Rightarrow> Err (lit ''text/no-text classification cannot be not_eligible''))]))"

definition inconclusive_checks :: "pdf_classification_audit \<Rightarrow> check" where
  "inconclusive_checks c = validate_all
     [require (ca_cache_status c = CcMiss \<and> ca_transport c \<in> {CtSession, CtOneShot}
               \<and> ca_attempt_count c \<noteq> 0 \<and> ca_nominal_charged_pages c \<noteq> 0)
        (lit ''unknown/error classification requires an executed miss with a nominal charge''),
      check_some (ca_result_examined_pages c) (\<lambda>result_pages. validate_all
        [require (result_pages \<le> ca_nominal_charged_pages c)
           (lit ''typed failure result pages exceed the nominal page charge''),
         check_some (ca_page_count c) (\<lambda>page_count.
           require (result_pages \<le> min page_count (ca_nominal_charged_pages c))
             (lit ''typed failure result pages exceed the parse window''))])]"

definition budget_excluded_checks :: "pdf_classification_audit \<Rightarrow> check" where
  "budget_excluded_checks c = validate_all
     [require (ca_page_count c = None \<and> ca_result_examined_pages c = Some 0
               \<and> ca_nominal_charged_pages c = 0 \<and> ca_cache_status c = CcNotEligible)
        (lit ''not_classified_by_budget must carry the frozen not_eligible zero-page shape''),
      zero_execution c CtNotApplicable]"

definition run_pages_checks :: "pdf_classification_audit \<Rightarrow> check" where
  "run_pages_checks c =
     check_some (ca_run_inspected_pages c) (\<lambda>run_pages.
       and_then (ok_or (lit ''classification attempt page budget overflows u64'')
          (checked_mul (ca_attempt_count c) (ca_nominal_charged_pages c))) (\<lambda>max_run_pages.
       validate_all
         [require (run_pages \<le> max_run_pages)
            (lit ''run inspected pages exceed the started attempt page budget''),
          require (\<not> (ca_cache_status c = CcMiss
              \<and> (case ca_result_examined_pages c of None \<Rightarrow> False | Some result_pages \<Rightarrow> run_pages < result_pages)))
            (lit ''observable run pages cannot be smaller than result pages'')]))"

definition validate_classification_audit :: "pdf_classification_audit \<Rightarrow> check" where
  "validate_classification_audit c = validate_all
     [check_some (ca_page_audit c) (page_audit_checks c),
      require_sha256_hex (ca_classifier_build c) (lit ''classifier_build''),
      require_sha256_hex (ca_classifier_profile_hash c) (lit ''classifier_profile_hash''),
      require_range (ca_attempt_count c) 0 3 (lit ''attempt_count''),
      (if ca_cache_status c = CcMiss
       then require (ca_cache_miss_reason c \<in> set CLASSIFICATION_MISS_REASONS)
         (lit ''classification cache miss reason is not in the v2 allowlist'')
       else require (ca_cache_miss_reason c = [])
         (lit ''non-miss classification cache must have an empty miss reason'')),
      (case ca_status c of
         TextInParseWindow \<Rightarrow> conclusive_checks c
       | NoTextInParseWindow \<Rightarrow> conclusive_checks c
       | ClassUnknown \<Rightarrow> inconclusive_checks c
       | ClassError \<Rightarrow> inconclusive_checks c
       | NotClassifiedByBudget \<Rightarrow> budget_excluded_checks c),
      run_pages_checks c]"


lemmas classification_audit_defs =
  validate_classification_audit_def conclusive_checks_def inconclusive_checks_def
  budget_excluded_checks_def run_pages_checks_def zero_execution_def

text \<open>What an accepted classification audit guarantees: a conclusive status looked at some
  page and at no more than the window, a no-text verdict looked at the whole window, a result
  that was reused did no work, and the pages inspected in the run never exceed the attempts
  times the page charge.\<close>

theorem classification_audit_sound:
  assumes ok: "validate_classification_audit c = Ok ()"
  shows "(ca_status c \<in> {TextInParseWindow, NoTextInParseWindow} \<longrightarrow>
        (\<exists>pages examined. ca_page_count c = Some pages \<and> ca_result_examined_pages c = Some examined
           \<and> 1 \<le> examined \<and> examined \<le> min pages (ca_nominal_charged_pages c)
           \<and> (ca_status c = NoTextInParseWindow \<longrightarrow> examined = min pages (ca_nominal_charged_pages c))))
    \<and> (ca_cache_status c \<noteq> CcMiss \<longrightarrow> ca_attempt_count c = 0 \<and> ca_run_inspected_pages c = Some 0)
    \<and> (ca_status c \<in> {ClassUnknown, ClassError} \<longrightarrow> ca_cache_status c = CcMiss \<and> 1 \<le> ca_attempt_count c)
    \<and> (\<forall>run. ca_run_inspected_pages c = Some run \<longrightarrow>
         run \<le> ca_attempt_count c * ca_nominal_charged_pages c \<and> ca_attempt_count c \<le> 3)
    \<and> (\<forall>a. ca_page_audit c = Some a \<longrightarrow> distinct (pg_checked_pages a)
         \<and> prefix (pg_checked_pages a) (pdf_sample_pages (the (ca_page_count c)) (ca_nominal_charged_pages c) (pg_policy_version a)))"
proof (intro conjI)
  have run: "run_pages_checks c = Ok ()" and att: "ca_attempt_count c \<le> 3"
    and case_ok: "(case ca_status c of TextInParseWindow \<Rightarrow> conclusive_checks c | NoTextInParseWindow \<Rightarrow> conclusive_checks c
       | ClassUnknown \<Rightarrow> inconclusive_checks c | ClassError \<Rightarrow> inconclusive_checks c
       | NotClassifiedByBudget \<Rightarrow> budget_excluded_checks c) = Ok ()"
    and page: "\<forall>a. ca_page_audit c = Some a \<longrightarrow> page_audit_checks c a = Ok ()"
    using ok by (auto simp: validate_classification_audit_def)
  show "ca_status c \<in> {TextInParseWindow, NoTextInParseWindow} \<longrightarrow>
        (\<exists>pages examined. ca_page_count c = Some pages \<and> ca_result_examined_pages c = Some examined
           \<and> 1 \<le> examined \<and> examined \<le> min pages (ca_nominal_charged_pages c)
           \<and> (ca_status c = NoTextInParseWindow \<longrightarrow> examined = min pages (ca_nominal_charged_pages c)))"
    using case_ok by (auto simp: conclusive_checks_def Let_def)
  show "ca_cache_status c \<noteq> CcMiss \<longrightarrow> ca_attempt_count c = 0 \<and> ca_run_inspected_pages c = Some 0"
    using case_ok by (cases "ca_status c"; cases "ca_cache_status c")
      (auto simp: conclusive_checks_def inconclusive_checks_def budget_excluded_checks_def zero_execution_def Let_def)
  show "ca_status c \<in> {ClassUnknown, ClassError} \<longrightarrow> ca_cache_status c = CcMiss \<and> 1 \<le> ca_attempt_count c"
    using case_ok by (auto simp: inconclusive_checks_def)
  show "\<forall>run. ca_run_inspected_pages c = Some run \<longrightarrow>
      run \<le> ca_attempt_count c * ca_nominal_charged_pages c \<and> ca_attempt_count c \<le> 3"
    using run att by (auto simp: run_pages_checks_def checked_mul_def split: if_splits)
  show "\<forall>a. ca_page_audit c = Some a \<longrightarrow> distinct (pg_checked_pages a)
      \<and> prefix (pg_checked_pages a) (pdf_sample_pages (the (ca_page_count c)) (ca_nominal_charged_pages c) (pg_policy_version a))"
    using page by (auto simp: page_audit_checks_def validate_pdf_page_audit_def Let_def split: option.splits)
      (metis take_is_prefix)
qed

section \<open>The audits the scheduler freezes without running the classifier\<close>

text \<open>\<open>run_classifications\<close> (\<open>src/rust/scanner_core/src/scheduler.rs\<close>): the audit of a PDF the page
  budget excluded, and the audit of a cache hit.\<close>

definition budget_excluded_audit :: "rstring \<Rightarrow> rstring \<Rightarrow> pdf_classification_audit" where
  "budget_excluded_audit build profile_hash =
     \<lparr>ca_page_audit = None, ca_status = NotClassifiedByBudget, ca_page_count = None,
      ca_cache_status = CcNotEligible, ca_cache_miss_reason = [], ca_result_examined_pages = Some 0,
      ca_run_inspected_pages = Some 0, ca_nominal_charged_pages = 0, ca_duration_ms = 0,
      ca_transport = CtNotApplicable, ca_attempt_count = 0, ca_classifier_build = build,
      ca_classifier_profile_hash = profile_hash\<rparr>"

text \<open>The entry of the classification cache, as the lookup returns it.\<close>

record classification_cache_entry =
  ce_status :: rstring
  ce_page_count :: u64
  ce_result_examined_pages :: u64
  ce_page_audit :: "pdf_page_audit option"

definition cached_status :: "classification_cache_entry \<Rightarrow> pdf_classification_status" where
  "cached_status entry =
     (if ce_status entry = lit ''text_in_parse_window'' then TextInParseWindow else NoTextInParseWindow)"

definition cached_page_audit :: "classification_cache_entry \<Rightarrow> u64 \<Rightarrow> rstring \<Rightarrow> pdf_page_audit" where
  "cached_page_audit entry charged policy =
     (case ce_page_audit entry of
        Some a \<Rightarrow> a
      | None \<Rightarrow> \<lparr>pg_policy_version = policy,
          pg_checked_pages = take (ce_result_examined_pages entry)
            (pdf_sample_pages (ce_page_count entry) charged policy),
          pg_observations = None\<rparr>)"

definition cache_hit_audit ::
  "classification_cache_entry \<Rightarrow> u64 \<Rightarrow> rstring \<Rightarrow> rstring \<Rightarrow> rstring \<Rightarrow> pdf_classification_audit" where
  "cache_hit_audit entry charged policy build profile_hash =
     \<lparr>ca_page_audit = Some (cached_page_audit entry charged policy), ca_status = cached_status entry,
      ca_page_count = Some (ce_page_count entry), ca_cache_status = CcFresh, ca_cache_miss_reason = [],
      ca_result_examined_pages = Some (ce_result_examined_pages entry), ca_run_inspected_pages = Some 0,
      ca_nominal_charged_pages = charged, ca_duration_ms = 0, ca_transport = CtNotApplicable,
      ca_attempt_count = 0, ca_classifier_build = build, ca_classifier_profile_hash = profile_hash\<rparr>"

text \<open>The scheduler's own audits pass the contract: the audit of a budget-excluded PDF
  always does, and the audit of a cache hit does whenever the entry has no stored page audit
  and its page counts are those a finished classification of that window leaves behind.\<close>

theorem scheduler_audits_validate:
  assumes "is_sha256_hex build" and "is_sha256_hex profile_hash"
    and "policy \<in> {lit ''pdf_text_presence_v1'', lit ''pdf_text_presence_v2''}"
    and "charged \<le> 10000" and "ce_page_audit entry = None"
    and "1 \<le> ce_result_examined_pages entry"
    and "ce_result_examined_pages entry \<le> min (ce_page_count entry) charged"
    and "ce_status entry \<noteq> lit ''text_in_parse_window'' \<Longrightarrow>
         ce_result_examined_pages entry = min (ce_page_count entry) charged"
  shows "validate_classification_audit (budget_excluded_audit build profile_hash) = Ok ()
    \<and> validate_classification_audit (cache_hit_audit entry charged policy build profile_hash) = Ok ()"
proof
  let ?n = "ce_result_examined_pages entry" and ?pc = "ce_page_count entry"
  let ?expected = "pdf_sample_pages ?pc charged policy"
  show "validate_classification_audit (budget_excluded_audit build profile_hash) = Ok ()"
    using assms(1,2) by (simp add: budget_excluded_audit_def classification_audit_defs checked_mul_def)
  have facts: "distinct ?expected" "length ?expected = min ?pc charged" "set ?expected \<subseteq> {1..?pc}"
    by (rule sample_facts)+
  have sub: "set (take ?n ?expected) \<subseteq> {1..?pc}" using facts(3) set_take_subset by fastforce
  have "page_audit_checks (cache_hit_audit entry charged policy build profile_hash) (cached_page_audit entry charged policy) = Ok ()"
    using assms facts sub
    by (auto simp: page_audit_checks_def validate_pdf_page_audit_def cached_page_audit_def cache_hit_audit_def Let_def)
  then show "validate_classification_audit (cache_hit_audit entry charged policy build profile_hash) = Ok ()"
    using assms by (auto simp: cache_hit_audit_def classification_audit_defs cached_status_def checked_mul_def Let_def)
qed


text \<open>A cache hit on a PDF of eight pages whose first page has text.\<close>

definition fixture_hex :: rstring where "fixture_hex = replicate 64 48"

definition fixture_entry :: classification_cache_entry where
  "fixture_entry = \<lparr>ce_status = lit ''text_in_parse_window'', ce_page_count = 8,
     ce_result_examined_pages = 1, ce_page_audit = None\<rparr>"

lemma fixture_hex_ok: "is_sha256_hex fixture_hex"
  by (simp add: is_sha256_hex_def fixture_hex_def is_ascii_digit_def)

theorem scheduler_audits_validate_witness:
  "validate_classification_audit
     (cache_hit_audit fixture_entry 5 (lit ''pdf_text_presence_v2'') fixture_hex fixture_hex) = Ok ()"
  by (rule conjunct2 [OF scheduler_audits_validate]) (simp_all add: fixture_hex_ok fixture_entry_def)

definition fixture_audit :: pdf_classification_audit where
  "fixture_audit = \<lparr>ca_page_audit = None, ca_status = TextInParseWindow, ca_page_count = Some 8,
     ca_cache_status = CcMiss, ca_cache_miss_reason = lit ''new_file'', ca_result_examined_pages = Some 1,
     ca_run_inspected_pages = Some 1, ca_nominal_charged_pages = 5, ca_duration_ms = 40,
     ca_transport = CtSession, ca_attempt_count = 1, ca_classifier_build = fixture_hex,
     ca_classifier_profile_hash = fixture_hex\<rparr>"

theorem classification_audit_sound_witness:
  "validate_classification_audit fixture_audit = Ok () \<and> 1 \<le> the (ca_result_examined_pages fixture_audit)"
proof -
  have ok: "validate_classification_audit fixture_audit = Ok ()"
    by (simp add: fixture_audit_def classification_audit_defs fixture_hex_ok CLASSIFICATION_MISS_REASONS_def
        checked_mul_def ok_or_def u64_max_def)
  have "ca_status fixture_audit = TextInParseWindow" by (simp add: fixture_audit_def)
  with ok classification_audit_sound [OF ok] show ?thesis by auto
qed

section \<open>Parse provenance\<close>

definition is_metadata_route :: "rstring \<Rightarrow> audit_worker_lane \<Rightarrow> bool" where
  "is_metadata_route backend lane \<longleftrightarrow> backend = lit ''pdf_metadata_v2'' \<and> lane = RustCore"

definition is_not_parsed_route :: "rstring \<Rightarrow> audit_worker_lane \<Rightarrow> bool" where
  "is_not_parsed_route backend lane \<longleftrightarrow> backend = lit ''not_parsed'' \<and> lane = LaneNotParsed"

definition body_routes :: "(rstring \<times> audit_worker_lane) list" where
  "body_routes = [(lit ''light_text_v2'', RustCore), (lit ''rust_office_oxide_v2'', RustOfficeProcessV3),
     (lit ''rust_xlsx_bounded_v2'', RustOfficeProcessV3), (lit ''rust_pdfium_v3'', RustPdfProcessV3),
     (lit ''rust_xls_calamine_v3'', RustOfficeProcessV3), (lit ''rust_legacy_office_v3'', RustOfficeProcessV3)]"

definition classification_matrix ::
  "parse_status \<Rightarrow> bool \<Rightarrow> bool \<Rightarrow> parse_cache_status \<Rightarrow> pdf_classification_status option \<Rightarrow> check" where
  "classification_matrix parse_status metadata not_parsed cache_status classification =
     (case classification of
        Some NoTextInParseWindow \<Rightarrow>
          require (parse_status = Success \<and> metadata \<or> parse_status = NotParsed \<and> not_parsed)
            (lit ''no-text classification requires metadata-only success or budget-omitted provenance'')
      | Some ClassUnknown \<Rightarrow>
          require (parse_status \<in> {Error, Timeout} \<and> not_parsed \<and> cache_status = PcNotApplicable)
            (lit ''classifier failure must map to not_parsed provenance and Error/Timeout'')
      | Some ClassError \<Rightarrow>
          require (parse_status = Error \<and> not_parsed \<and> cache_status = PcNotApplicable)
            (lit ''classifier failure must map to not_parsed provenance and Error/Timeout'')
      | Some NotClassifiedByBudget \<Rightarrow>
          require (parse_status = NotParsed \<and> not_parsed)
            (lit ''classification budget exclusion must map to not_parsed provenance'')
      | _ \<Rightarrow> Ok ())"

definition cache_matrix ::
  "parse_status \<Rightarrow> bool \<Rightarrow> bool \<Rightarrow> bool \<Rightarrow> parse_cache_status \<Rightarrow> check" where
  "cache_matrix parse_status metadata not_parsed body_parser cache_status =
     (case cache_status of
        PcSnapshot \<Rightarrow>
          require (parse_status = Success \<and> (body_parser \<or> metadata) \<or> parse_status = NotParsed \<and> not_parsed)
            (lit ''snapshot parse status does not match its semantic provenance'')
      | PcNotApplicable \<Rightarrow>
          if parse_status = Success
          then require metadata (lit ''not_applicable Success requires pdf_metadata_v2/rust_core'')
          else require not_parsed
            (lit ''not_applicable NotParsed/Error/Timeout requires not_parsed provenance'')
      | _ \<Rightarrow> require body_parser (lit ''fresh/miss parse provenance requires a body parser''))"

definition validate_v2_parse_provenance ::
  "parse_status \<Rightarrow> rstring \<Rightarrow> audit_worker_lane \<Rightarrow> parse_cache_status \<Rightarrow>
     pdf_classification_status option \<Rightarrow> check" where
  "validate_v2_parse_provenance parse_status parser_backend worker_lane cache_status classification =
     (let metadata = is_metadata_route parser_backend worker_lane;
          not_parsed = is_not_parsed_route parser_backend worker_lane;
          body_parser = (parser_backend, worker_lane) \<in> set body_routes
      in validate_all
        [require (metadata \<or> not_parsed \<or> body_parser)
           (lit ''parser backend and worker lane are not a frozen v2 route''),
         classification_matrix parse_status metadata not_parsed cache_status classification,
         require (metadata \<longrightarrow> classification = Some NoTextInParseWindow)
           (lit ''pdf_metadata_v2 is only valid for no-text classification provenance''),
         cache_matrix parse_status metadata not_parsed body_parser cache_status])"

lemma routes_disjoint:
  "(b, l) \<in> set body_routes \<Longrightarrow> \<not> is_metadata_route b l \<and> \<not> is_not_parsed_route b l"
  "is_metadata_route b l \<Longrightarrow> \<not> is_not_parsed_route b l"
  by (auto simp: body_routes_def is_metadata_route_def is_not_parsed_route_def)

text \<open>C27. The provenance matrix: accepted provenance of a success is a body parser, or the
  metadata route of a PDF without text; a cached or freshly executed parse is always a body
  parser; whatever the classifier could not read, or the budget kept from it, is never a
  success; and a no-text PDF never claims a body parser.\<close>

theorem parse_provenance_matrix:
  assumes "validate_v2_parse_provenance parse_status backend lane cache_status classification = Ok ()"
  shows "(parse_status = Success \<longrightarrow> (backend, lane) \<in> set body_routes
            \<or> is_metadata_route backend lane \<and> classification = Some NoTextInParseWindow)
    \<and> (cache_status \<in> {PcFresh, PcMiss} \<longrightarrow> (backend, lane) \<in> set body_routes)
    \<and> (classification \<in> {Some ClassUnknown, Some ClassError, Some NotClassifiedByBudget} \<longrightarrow>
         parse_status \<noteq> Success \<and> is_not_parsed_route backend lane)
    \<and> (classification = Some NoTextInParseWindow \<longrightarrow> (backend, lane) \<notin> set body_routes)"
proof -
  show ?thesis
    using assms routes_disjoint [of backend lane]
    by (cases parse_status; cases cache_status; cases classification)
      (auto simp: validate_v2_parse_provenance_def classification_matrix_def cache_matrix_def Let_def
        split: pdf_classification_status.splits)
qed

theorem parse_provenance_matrix_witness:
  "(lit ''rust_pdfium_v3'', RustPdfProcessV3) \<in> set body_routes"
proof -
  have "validate_v2_parse_provenance Success (lit ''rust_pdfium_v3'') RustPdfProcessV3 PcMiss (Some TextInParseWindow) = Ok ()"
    by (simp add: validate_v2_parse_provenance_def classification_matrix_def cache_matrix_def body_routes_def
        is_metadata_route_def Let_def)
  from parse_provenance_matrix [OF this] show ?thesis by simp
qed

end
