(* ===== verification/Excerpt.thy ===== *)
theory Excerpt
  imports Prelude
begin

text \<open>
  The excerpt routines of \<open>src/rust/scanner_core/src/compressor.rs\<close>: a body over the per-file
  budget keeps its head and its tail, a log keeps its tail, and a marker says how much is
  missing. The callers pass a content longer than the limit.
\<close>

definition OMITTED_MARKER_RESERVE :: u64 where "OMITTED_MARKER_RESERVE = 64"
definition HEAD_RATIO_PER_MILLE :: u64 where "HEAD_RATIO_PER_MILLE = 400"

definition omitted_marker :: "rstring \<Rightarrow> u64 \<Rightarrow> rstring" where
  "omitted_marker prefix_text omitted =
     [0x2026, 0xFF08, 0x5DF2, 0x7701, 0x7565] @ prefix_text @ [0x7EA6] @ lit '' '' @ dec omitted
     @ lit '' '' @ [0x5B57, 0x7B26, 0xFF09, 0x2026]"

definition middle_text :: rstring where "middle_text = [0x4E2D, 0x90E8]"
definition head_text :: rstring where "head_text = [0x5934, 0x90E8]"

definition newline_boundary_at_or_before :: "rstring \<Rightarrow> u64 \<Rightarrow> u64" where
  "newline_boundary_at_or_before content position =
     (let hits = filter (\<lambda>i. content ! i = nl) [0..<min position (length content)]
      in if hits = [] then position else last hits + 1)"

definition newline_boundary_at_or_after :: "rstring \<Rightarrow> u64 \<Rightarrow> u64" where
  "newline_boundary_at_or_after content position =
     (case filter (\<lambda>i. content ! i = nl) [position..<length content] of
        [] \<Rightarrow> position
      | index # _ \<Rightarrow> index + 1)"

definition take_head_and_tail :: "rstring \<Rightarrow> u64 \<Rightarrow> rstring" where
  "take_head_and_tail content limit =
     (if limit < OMITTED_MARKER_RESERVE then take limit content
      else
        let total = length content;
            available = max (limit - OMITTED_MARKER_RESERVE) 1;
            head_budget = available * HEAD_RATIO_PER_MILLE div 1000;
            tail_budget = available - head_budget;
            head_end = newline_boundary_at_or_before content head_budget;
            tail_start = newline_boundary_at_or_after content (total - tail_budget);
            head = take head_end content;
            tail = drop tail_start content;
            omitted = total - length head - length tail
        in head @ omitted_marker middle_text omitted @ tail)"

definition take_log_tail :: "rstring \<Rightarrow> u64 \<Rightarrow> rstring" where
  "take_log_tail content limit =
     (if limit < OMITTED_MARKER_RESERVE then take limit content
      else
        let total = length content;
            available = max (limit - OMITTED_MARKER_RESERVE) 1;
            tail_start = total - available;
            tail = drop tail_start content;
            omitted = total - length tail
        in omitted_marker head_text omitted @ tail)"

lemmas excerpt_consts = OMITTED_MARKER_RESERVE_def HEAD_RATIO_PER_MILLE_def middle_text_def head_text_def

section \<open>Facts\<close>

lemma boundary_before_le: "newline_boundary_at_or_before content position \<le> position"
proof (cases "filter (\<lambda>i. content ! i = nl) [0..<min position (length content)] = []")
  case False
  then have "last (filter (\<lambda>i. content ! i = nl) [0..<min position (length content)])
      \<in> set (filter (\<lambda>i. content ! i = nl) [0..<min position (length content)])"
    by (rule last_in_set)
  then show ?thesis by (auto simp: newline_boundary_at_or_before_def Let_def)
qed (simp add: newline_boundary_at_or_before_def)

lemma boundary_after_bounds:
  assumes "position \<le> length content"
  shows "position \<le> newline_boundary_at_or_after content position"
    and "newline_boundary_at_or_after content position \<le> length content"
proof -
  let ?hits = "filter (\<lambda>i. content ! i = nl) [position..<length content]"
  have "position \<le> newline_boundary_at_or_after content position
    \<and> newline_boundary_at_or_after content position \<le> length content"
  proof (cases ?hits)
    case Nil
    then show ?thesis using assms by (simp add: newline_boundary_at_or_after_def)
  next
    case (Cons i hs)
    then have "i \<in> set ?hits" by simp
    then have "position \<le> i \<and> i < length content" by simp
    with Cons show ?thesis by (simp add: newline_boundary_at_or_after_def)
  qed
  then show "position \<le> newline_boundary_at_or_after content position"
    and "newline_boundary_at_or_after content position \<le> length content" by simp_all
qed

lemma length_omitted_marker:
  "length prefix_text = 2 \<Longrightarrow> omitted \<le> u64_max \<Longrightarrow> length (omitted_marker prefix_text omitted) \<le> 34"
  using length_dec_u64 [of omitted] by (simp add: omitted_marker_def)

lemma head_budget_le: "available * HEAD_RATIO_PER_MILLE div 1000 \<le> available"
  by (simp add: excerpt_consts)

lemma omitted_count:
  "h \<le> t \<Longrightarrow> t \<le> length content \<Longrightarrow>
     length content - length (take h content) - length (drop t content) = t - h"
  by simp

text \<open>The shape of the two excerpts: what is kept is verbatim and the marker counts exactly the
  characters between the cut points.\<close>

lemma take_head_and_tail_shape:
  assumes "OMITTED_MARKER_RESERVE \<le> limit" and "limit < length content"
  shows "\<exists>h t. take_head_and_tail content limit = take h content @ omitted_marker middle_text (t - h) @ drop t content
    \<and> h \<le> t \<and> t \<le> length content \<and> h + (length content - t) \<le> max (limit - OMITTED_MARKER_RESERVE) 1"
proof -
  let ?total = "length content" and ?available = "max (limit - OMITTED_MARKER_RESERVE) 1"
  let ?hb = "?available * HEAD_RATIO_PER_MILLE div 1000"
  let ?tb = "?available - ?hb"
  let ?h = "newline_boundary_at_or_before content ?hb"
  let ?t = "newline_boundary_at_or_after content (?total - ?tb)"
  have avail: "?available < ?total" using assms by (auto simp: excerpt_consts)
  have hb: "?hb \<le> ?available" by (rule head_budget_le)
  have h: "?h \<le> ?hb" by (rule boundary_before_le)
  have t: "?total - ?tb \<le> ?t" "?t \<le> ?total" by (rule boundary_after_bounds, simp)+
  have ht: "?h \<le> ?t" using avail hb h t by linarith
  have kept: "?h + (?total - ?t) \<le> ?available" using hb h t by linarith
  have "?total - length (take ?h content) - length (drop ?t content) = ?t - ?h"
    using ht t(2) by (rule omitted_count)
  then have "take_head_and_tail content limit =
      take ?h content @ omitted_marker middle_text (?t - ?h) @ drop ?t content"
    using assms(1) unfolding take_head_and_tail_def Let_def by (simp only: if_not_P not_less)
  with ht t(2) kept show ?thesis by blast
qed

lemma take_log_tail_shape:
  assumes "OMITTED_MARKER_RESERVE \<le> limit" and "limit < length content"
  shows "take_log_tail content limit =
    omitted_marker head_text (length content - max (limit - OMITTED_MARKER_RESERVE) 1)
    @ drop (length content - max (limit - OMITTED_MARKER_RESERVE) 1) content"
  using assms by (auto simp: take_log_tail_def excerpt_consts Let_def max_def)

lemma length_take_head_and_tail:
  assumes "limit < length content" and "length content \<le> u64_max"
  shows "length (take_head_and_tail content limit) \<le> limit"
proof (cases "limit < OMITTED_MARKER_RESERVE")
  case True
  then show ?thesis by (simp add: take_head_and_tail_def)
next
  case False
  then obtain h t where "take_head_and_tail content limit = take h content @ omitted_marker middle_text (t - h) @ drop t content"
    and ht: "h \<le> t" "t \<le> length content" "h + (length content - t) \<le> max (limit - OMITTED_MARKER_RESERVE) 1"
    using take_head_and_tail_shape assms(1) by (metis not_less)
  moreover have "length (omitted_marker middle_text (t - h)) \<le> 34"
    using ht assms(2) by (intro length_omitted_marker) (simp_all add: middle_text_def)
  ultimately show ?thesis using False by (simp add: excerpt_consts)
qed

lemma length_take_log_tail:
  assumes "limit < length content" and "length content \<le> u64_max"
  shows "length (take_log_tail content limit) \<le> limit"
proof (cases "limit < OMITTED_MARKER_RESERVE")
  case True
  then show ?thesis by (simp add: take_log_tail_def)
next
  case False
  have "length (omitted_marker head_text (length content - max (limit - OMITTED_MARKER_RESERVE) 1)) \<le> 34"
    using assms(2) by (intro length_omitted_marker) (simp_all add: head_text_def)
  with False assms show ?thesis
    unfolding take_log_tail_shape [OF leI [OF False] assms(1)] by (simp add: excerpt_consts)
qed

section \<open>Properties\<close>

text \<open>C23. Both excerpts of an over-long body fit the limit. The head-and-tail excerpt is a
  verbatim prefix and a verbatim suffix that do not overlap, around a marker that states
  exactly how many characters are missing; the log excerpt is a marker and a verbatim suffix.
  A limit too small for a marker keeps a plain prefix.\<close>

theorem excerpts_fit_and_are_verbatim:
  assumes "limit < length content" and "length content \<le> u64_max"
  shows "length (take_head_and_tail content limit) \<le> limit
    \<and> length (take_log_tail content limit) \<le> limit
    \<and> (if limit < 64 then take_head_and_tail content limit = take limit content
           \<and> take_log_tail content limit = take limit content
       else (\<exists>h t. h \<le> t \<and> t \<le> length content
               \<and> take_head_and_tail content limit =
                   take h content @ omitted_marker middle_text (t - h) @ drop t content)
           \<and> (\<exists>t \<le> length content. take_log_tail content limit =
                   omitted_marker head_text t @ drop t content))"
proof -
  have "\<exists>h t. h \<le> t \<and> t \<le> length content \<and> take_head_and_tail content limit =
      take h content @ omitted_marker middle_text (t - h) @ drop t content" if "\<not> limit < 64"
    using take_head_and_tail_shape [of limit content] assms(1) that by (force simp: excerpt_consts)
  moreover have "\<exists>t \<le> length content. take_log_tail content limit =
      omitted_marker head_text t @ drop t content" if "\<not> limit < 64"
    using take_log_tail_shape [of limit content] assms(1) that
    by (intro exI [of _ "length content - max (limit - OMITTED_MARKER_RESERVE) 1"])
      (simp add: excerpt_consts)
  moreover have "take_head_and_tail content limit = take limit content
      \<and> take_log_tail content limit = take limit content" if "limit < 64"
    using that by (simp add: take_head_and_tail_def take_log_tail_def OMITTED_MARKER_RESERVE_def)
  ultimately show ?thesis
    using length_take_head_and_tail [OF assms] length_take_log_tail [OF assms]
    by (cases "limit < 64") (simp_all only: if_P if_not_P simp_thms)
qed

theorem excerpts_fit_and_are_verbatim_witness:
  "length (take_head_and_tail (replicate 200 97) 100) \<le> 100
   \<and> length (take_log_tail (replicate 200 97) 100) \<le> 100"
  using excerpts_fit_and_are_verbatim [of 100 "replicate 200 97"] by (simp add: u64_max_def)

end
