(* ===== verification/Compressor.thy ===== *)
theory Compressor
  imports Decision Excerpt
begin

text \<open>
  \<open>src/rust/scanner_core/src/compressor.rs\<close>: rendering of the decided files into the context
  document under the global character budget. \<open>build_context\<close> is the whole pipeline; the loop
  over the decided files is \<open>build_loop\<close>. The properties tie the rendered text to what the
  budget model of \<open>Budget_Model\<close> reserved for it.
\<close>

section \<open>Fixed sections\<close>

definition parse_title :: rstring where
  "parse_title = lit ''## '' @ [0x89E3, 0x6790, 0x95EE, 0x9898]"

definition PARSE_FOOTER :: rstring where
  "PARSE_FOOTER = parse_title @ [nl] @ lit ''- ''
     @ [0x672A, 0x53D1, 0x73B0, 0x89E3, 0x6790, 0x95EE, 0x9898, 0x3002]"

definition document_title :: rstring where
  "document_title = lit ''# '' @ [0x6587, 0x4EF6, 0x8BC1, 0x636E, 0x4E0A, 0x4E0B, 0x6587]"

definition evidence_title :: rstring where
  "evidence_title = lit ''## '' @ [0x6587, 0x4EF6, 0x8BC1, 0x636E]"

definition no_evidence_text :: rstring where
  "no_evidence_text = [0x65E0, 0x6587, 0x4EF6, 0x8BC1, 0x636E]"

fun report_mode_text :: "report_mode \<Rightarrow> rstring" where
  "report_mode_text Daily = lit ''daily''"
| "report_mode_text Weekly = lit ''weekly''"
| "report_mode_text Monthly = lit ''monthly''"

definition render_run_summary ::
  "report_mode \<Rightarrow> context_profile \<Rightarrow> u64 \<Rightarrow> rstring \<Rightarrow> rstring \<Rightarrow> rstring" where
  "render_run_summary report_mode profile source_file_count success_text failure_text =
     lit ''## '' @ [0x672C, 0x8F6E, 0x6458, 0x8981, nl] @ lit ''- '' @ [0x62A5, 0x544A, 0x6A21, 0x5F0F]
     @ lit '': '' @ report_mode_text report_mode
     @ [nl] @ lit ''- '' @ [0x538B, 0x7F29] @ lit '' profile: '' @ cp_profile_name profile
     @ [nl] @ lit ''- '' @ [0x626B, 0x63CF, 0x6587, 0x4EF6, 0x6570] @ lit '': '' @ dec source_file_count
     @ [nl] @ lit ''- '' @ [0x6210, 0x529F, 0x89E3, 0x6790, 0x6570] @ lit '': '' @ success_text
     @ [nl] @ lit ''- '' @ [0x5931, 0x8D25, 0x89E3, 0x6790, 0x6570] @ lit '': '' @ failure_text
     @ [nl] @ lit ''- '' @ [0x5168, 0x5C40, 0x4E0A, 0x4E0B, 0x6587, 0x9884, 0x7B97] @ lit '': ''
     @ dec (cp_global_max_chars profile)
     @ [nl] @ lit ''- '' @ [0x5355, 0x6587, 0x4EF6, 0x6B63, 0x6587, 0x9884, 0x7B97] @ lit '': ''
     @ dec (cp_per_file_max_chars profile)
     @ [nl] @ lit ''- '' @ [0x538B, 0x7F29, 0x7B56, 0x7565] @ lit '': ''
     @ cp_compression_policy_version profile"

definition render_notice :: "context_profile \<Rightarrow> rstring" where
  "render_notice profile =
     lit ''## '' @ [0x91CD, 0x8981, 0x63D0, 0x793A, nl]
     @ lit ''- '' @ [0x4EE5, 0x4E0B, 0x5185, 0x5BB9, 0x6765, 0x81EA, 0x672C, 0x5730]
     @ lit '' scanner '' @ [0x8F93, 0x51FA, 0xFF1B] @ lit ''Rust context core ''
     @ [0x4E0D, 0x91CD, 0x65B0, 0x8BFB, 0x53D6, 0x6587, 0x4EF6, 0x3001, 0x4E0D, 0x8C03, 0x7528]
     @ lit '' LLM'' @ [0x3002, nl]
     @ lit ''- '' @ [0x6B63, 0x6587, 0x5757, 0x53D7, 0x5355, 0x6587, 0x4EF6, 0x9884, 0x7B97] @ lit '' ''
     @ dec (cp_per_file_max_chars profile)
     @ lit '' '' @ [0x5B57, 0x7B26, 0x9650, 0x5236, 0xFF1B, 0x8D85, 0x51FA, 0x5168, 0x5C40, 0x4E0A,
        0x4E0B, 0x6587, 0x9884, 0x7B97, 0x7684, 0x6587, 0x4EF6, 0x7531, 0x786E, 0x5B9A, 0x6027,
        0x51C6, 0x5165, 0x8BA1, 0x5212, 0x7701, 0x7565, 0xFF0C, 0x5E76, 0x5728, 0x7701, 0x7565,
        0x6458, 0x8981, 0x4E2D, 0x6C47, 0x603B, 0x3002]"

definition fixed_context_sections ::
  "context_profile \<Rightarrow> report_mode \<Rightarrow> u64 \<Rightarrow> rstring list" where
  "fixed_context_sections profile report_mode source_file_count =
     [document_title,
      render_run_summary report_mode profile source_file_count nines nines,
      render_notice profile,
      evidence_title]"

section \<open>Joining sections\<close>

definition join_sections :: "rstring list \<Rightarrow> rstring" where
  "join_sections sections = trim_end (join [nl, nl] (map trim_end sections)) @ [nl]"

definition can_append_with_footer :: "rstring list \<Rightarrow> rstring \<Rightarrow> u64 \<Rightarrow> bool" where
  "can_append_with_footer sections candidate global_budget \<longleftrightarrow>
     count_chars (join_sections (sections @ [candidate, PARSE_FOOTER])) \<le> global_budget"

definition append_if_fits :: "rstring list \<Rightarrow> rstring \<Rightarrow> u64 \<Rightarrow> rstring list" where
  "append_if_fits sections candidate global_budget =
     (if count_chars (join_sections (sections @ [candidate])) \<le> global_budget
      then sections @ [candidate] else sections)"

section \<open>One file\<close>

definition render_metadata_section ::
  "context_file_evidence \<Rightarrow> context_decision \<Rightarrow> rstring" where
  "render_metadata_section e d =
     lit ''### '' @ cd_relative_path d @ [nl] @ lit ''- action: metadata_only'' @ [nl]
     @ lit ''- reason: '' @ cd_reason d @ [nl] @ lit ''- parser_backend: '' @ ev_parser_backend e @ [nl]
     @ lit ''- worker_lane: '' @ lane_text (ev_worker_lane e) @ [nl]
     @ lit ''- file_type: '' @ ev_extension e @ [nl]
     @ lit ''- size_bytes: '' @ dec (unwrap_or (ev_size_bytes e) 0) @ [nl]
     @ lit ''- input_chars: ~'' @ dec (cd_input_chars d) @ [nl]
     @ lit ''- body: omitted_by_metadata_only_policy''"

definition render_body_section ::
  "context_file_evidence \<Rightarrow> context_decision \<Rightarrow> rstring \<Rightarrow> rstring" where
  "render_body_section e d body =
     lit ''### '' @ cd_relative_path d @ [nl] @ lit ''- action: '' @ action_text (cd_action d) @ [nl]
     @ lit ''- reason: '' @ cd_reason d @ [nl] @ lit ''- parser_backend: '' @ ev_parser_backend e @ [nl]
     @ lit ''- worker_lane: '' @ lane_text (ev_worker_lane e) @ [nl]
     @ lit ''- input_chars: '' @ dec (cd_input_chars d) @ [nl]
     @ lit ''- output_chars: '' @ dec (cd_output_chars d)
     @ (if cd_truncated d then [nl] @ truncated_note_text else []) @ [nl]
     @ lit ''```text'' @ [nl] @ body @ [nl] @ lit ''```''"

definition render_file_section ::
  "context_profile \<Rightarrow> context_file_evidence \<Rightarrow> context_decision \<Rightarrow> rstring \<times> context_decision" where
  "render_file_section profile e d =
     (if cd_action d = MetadataOnly
      then let d' = d\<lparr>cd_output_chars := 0\<rparr> in (render_metadata_section e d', d')
      else
        let limit = cp_per_file_max_chars profile;
            (body, d') =
              (if limit < count_chars (ev_content e)
               then (if ev_extension e = lit ''.log'' then take_log_tail (ev_content e) limit
                     else take_head_and_tail (ev_content e) limit,
                     d\<lparr>cd_action := Compress, cd_truncated := True\<rparr>)
               else (ev_content e, d));
            d'' = d'\<lparr>cd_output_chars := count_chars body\<rparr>
        in (render_body_section e d'' body, d''))"

definition error_line :: "context_file_evidence \<Rightarrow> context_decision \<Rightarrow> rstring" where
  "error_line e d =
     lit ''- '' @ cd_relative_path d @ lit '' | reason='' @ cd_reason d @ lit '' | error=''
     @ (case ev_error e of None \<Rightarrow> lit ''UNKNOWN_ERROR'' | Some g \<Rightarrow> error_code_text (dg_error_code g))"

section \<open>The omitted summary\<close>

record omitted_row =
  or_relative_path :: rstring
  or_extension :: rstring
  or_reason :: rstring
  or_input_chars :: u64
  or_in_detail_slot :: bool

definition detail_line :: "omitted_row \<Rightarrow> rstring" where
  "detail_line row = lit ''- '' @ or_relative_path row @ lit '' | action=omit | reason='' @ or_reason row
     @ lit '' | input_chars=~'' @ dec (or_input_chars row)"

definition group_line :: "(rstring \<times> rstring) \<times> u64 \<Rightarrow> rstring" where
  "group_line g = lit ''- '' @ fst (fst g) @ lit '' | '' @ snd (fst g) @ lit '' | action=omit | count=''
     @ dec (snd g)"

definition other_line :: "u64 \<Rightarrow> rstring" where
  "other_line n = omitted_other_label @ dec n"

text \<open>The detail rows, in order, as long as they fit; a pre-selected row that does not fit is an
  error of the budget model.\<close>

fun detail_rows ::
  "u64 \<Rightarrow> omitted_row list \<Rightarrow> rstring list \<times> u64 \<Rightarrow> (rstring list \<times> u64, rstring) result" where
  "detail_rows reservation [] acc = Ok acc"
| "detail_rows reservation (row # rows) (lines, used) =
     (if \<not> or_in_detail_slot row then detail_rows reservation rows (lines, used)
      else
        let line = detail_line row; candidate_used = saturating_add used (count_chars line + 1)
        in if candidate_used \<le> reservation
           then detail_rows reservation rows (lines @ [line], candidate_used)
           else Err (budget_model_mismatch (lit ''pre-selected omitted detail exceeds its reservation'')))"

text \<open>The groups as the sorted map holds them: keys in order, each with its count.\<close>

definition omitted_groups :: "omitted_row list \<Rightarrow> ((rstring \<times> rstring) \<times> u64) list" where
  "omitted_groups omitted =
     (let keys = map (\<lambda>row. (or_reason row, or_extension row)) omitted
      in map (\<lambda>k. (k, count_list keys k)) (sort (remdups keys)))"

fun group_rows ::
  "u64 \<Rightarrow> ((rstring \<times> rstring) \<times> u64) list \<Rightarrow> rstring list \<times> u64 \<times> u64 \<Rightarrow> rstring list \<times> u64 \<times> u64" where
  "group_rows reservation [] acc = acc"
| "group_rows reservation (g # gs) (lines, used, other_count) =
     (let line = group_line g; candidate_used = saturating_add used (count_chars line + 1)
      in if candidate_used \<le> reservation
         then group_rows reservation gs (lines @ [line], candidate_used, other_count)
         else group_rows reservation gs (lines, used, saturating_add other_count (snd g)))"

definition omitted_head_lines :: "nat \<Rightarrow> rstring list" where
  "omitted_head_lines n = [omitted_title, omitted_count_label @ dec n]"

definition omitted_lines ::
  "omitted_row list \<Rightarrow> u64 \<Rightarrow> (rstring list, rstring) result" where
  "omitted_lines omitted reservation =
     (let head = omitted_head_lines (length omitted);
          used = count_chars (join [nl] head) + SECTION_SEPARATOR_CHARS
      in and_then (detail_rows reservation omitted (head, used)) (\<lambda>(lines, used).
         let (lines, used, other_count) = group_rows reservation (omitted_groups omitted) (lines, used, 0)
         in if 0 < other_count
            then
              let line = other_line other_count;
                  candidate_used = saturating_add used (count_chars line + 1)
              in if candidate_used \<le> reservation then Ok (lines @ [line])
                 else Err (budget_model_mismatch (lit ''mandatory omitted catch-all exceeds its reservation''))
            else Ok lines))"

definition append_omitted_summary ::
  "rstring list \<Rightarrow> omitted_row list \<Rightarrow> omitted_summary_plan \<Rightarrow> u64 \<Rightarrow> (rstring list, rstring) result" where
  "append_omitted_summary sections omitted plan global_budget =
     (if omitted = [] then Ok sections
      else and_then (omitted_lines omitted (os_reservation plan)) (\<lambda>lines.
        let section = join [nl] lines in
        if os_reservation plan < count_chars section
        then Err (budget_model_mismatch (lit ''omitted summary exceeds its reservation''))
        else if \<not> can_append_with_footer sections section global_budget
        then Err (budget_model_mismatch (lit ''omitted summary exceeds the global context budget''))
        else Ok (sections @ [section])))"

definition append_parse_issues :: "rstring list \<Rightarrow> rstring list \<Rightarrow> u64 \<Rightarrow> rstring list" where
  "append_parse_issues sections issues global_budget =
     append_if_fits sections
       (if issues = [] then PARSE_FOOTER else parse_title @ [nl] @ join [nl] issues) global_budget"

section \<open>The pipeline\<close>

record budgeted_decision =
  bd_file_identity :: rstring
  bd_decision :: context_decision

record context_build_output =
  co_content :: rstring
  co_source_file_count :: u64
  co_success_count :: u64
  co_timeout_count :: u64
  co_included_file_count :: u64
  co_omitted_file_count :: u64
  co_error_file_count :: u64
  co_input_chars :: u64
  co_output_chars :: u64
  co_metadata_only_count :: u64
  co_compressed_file_count :: u64
  co_truncated_file_count :: u64
  co_decisions :: "budgeted_decision list"
  co_rendered_by_identity :: "rstring \<rightharpoonup> u64"

record build_state =
  bs_sections :: "rstring list"
  bs_decisions :: "budgeted_decision list"
  bs_rendered :: "rstring \<rightharpoonup> u64"
  bs_parse_issues :: "rstring list"
  bs_omitted :: "omitted_row list"
  bs_included :: u64
  bs_metadata_only :: u64
  bs_compressed :: u64

definition omitted_row_of :: "omitted_summary_plan \<Rightarrow> decided_file \<Rightarrow> omitted_row" where
  "omitted_row_of plan item =
     \<lparr>or_relative_path = cd_relative_path (de_decision item),
      or_extension = ev_extension (de_evidence item),
      or_reason = cd_reason (de_decision item),
      or_input_chars = cd_input_chars (de_decision item),
      or_in_detail_slot =
        list_ex (\<lambda>slot. oc_file_identity slot = ev_file_identity (de_evidence item)) (os_detail_slots plan)\<rparr>"

definition build_step ::
  "context_profile \<Rightarrow> omitted_summary_plan \<Rightarrow> decided_file \<Rightarrow> build_state \<Rightarrow> (build_state, rstring) result" where
  "build_step profile plan item s =
     (let e = de_evidence item; d = de_decision item; identity = ev_file_identity e in
      case cd_action d of
        Omit \<Rightarrow>
          Ok (s\<lparr>bs_omitted := bs_omitted s @ [omitted_row_of plan item],
                bs_decisions := bs_decisions s @
                  [\<lparr>bd_file_identity = identity, bd_decision = d\<lparr>cd_output_chars := 0\<rparr>\<rparr>]\<rparr>)
      | ActionError \<Rightarrow>
          (let line = error_line e d; rendered_chars = count_chars line + 1 in
           Ok (s\<lparr>bs_parse_issues := bs_parse_issues s @ [line],
                 bs_rendered := (bs_rendered s)(identity \<mapsto> rendered_chars),
                 bs_decisions := bs_decisions s @
                   [\<lparr>bd_file_identity = identity, bd_decision = d\<lparr>cd_output_chars := rendered_chars\<rparr>\<rparr>]\<rparr>))
      | _ \<Rightarrow>
          (let (candidate, d') = render_file_section profile e d in
           if can_append_with_footer (bs_sections s) candidate (cp_global_max_chars profile)
           then Ok (s\<lparr>bs_sections := bs_sections s @ [candidate],
                      bs_included := bs_included s + 1,
                      bs_metadata_only := bs_metadata_only s + (if cd_action d' = MetadataOnly then 1 else 0),
                      bs_compressed := bs_compressed s + (if cd_action d' = Compress then 1 else 0),
                      bs_rendered := (bs_rendered s)(identity \<mapsto> count_chars candidate),
                      bs_decisions := bs_decisions s @
                        [\<lparr>bd_file_identity = identity, bd_decision = d'\<rparr>]\<rparr>)
           else Err (budget_model_mismatch
                  (lit ''admitted file section exceeds the global context budget''))))"

fun build_loop ::
  "context_profile \<Rightarrow> omitted_summary_plan \<Rightarrow> decided_file list \<Rightarrow> build_state \<Rightarrow> (build_state, rstring) result" where
  "build_loop profile plan [] s = Ok s"
| "build_loop profile plan (item # items) s =
     and_then (build_step profile plan item s) (build_loop profile plan items)"

definition status_count :: "parse_status \<Rightarrow> decided_file list \<Rightarrow> u64" where
  "status_count st decided = length (filter (\<lambda>d. ev_parse_status (de_evidence d) = st) decided)"

fun sum_input_chars :: "u64 \<Rightarrow> decided_file list \<Rightarrow> (u64, rstring) result" where
  "sum_input_chars acc [] = Ok acc"
| "sum_input_chars acc (item # items) =
     and_then (ok_or (lit ''context input characters overflow'')
                 (checked_add acc (cd_input_chars (de_decision item))))
       (\<lambda>acc. sum_input_chars acc items)"

definition omitted_candidate_of :: "decided_file \<Rightarrow> omitted_candidate" where
  "omitted_candidate_of item =
     \<lparr>oc_file_identity = ev_file_identity (de_evidence item),
      oc_relative_path = ev_relative_path (de_evidence item),
      oc_extension = ev_extension (de_evidence item)\<rparr>"

definition head_sections ::
  "context_profile \<Rightarrow> report_mode \<Rightarrow> u64 \<Rightarrow> u64 \<Rightarrow> u64 \<Rightarrow> rstring list" where
  "head_sections profile report_mode source_file_count success_count failure_count =
     [document_title,
      render_run_summary report_mode profile source_file_count (dec success_count) (dec failure_count),
      render_notice profile,
      evidence_title]"

definition initial_state :: "rstring list \<Rightarrow> build_state" where
  "initial_state sections =
     \<lparr>bs_sections = sections, bs_decisions = [], bs_rendered = Map.empty, bs_parse_issues = [],
      bs_omitted = [], bs_included = 0, bs_metadata_only = 0, bs_compressed = 0\<rparr>"

text \<open>What follows the loop: the placeholder, the omitted summary, the parse issues and the
  two final checks.\<close>

definition finish_sections ::
  "context_profile \<Rightarrow> omitted_summary_plan \<Rightarrow> build_state \<Rightarrow> (rstring, rstring) result" where
  "finish_sections profile plan s =
     (let budget = cp_global_max_chars profile;
          sections = (if bs_included s = 0 then append_if_fits (bs_sections s) no_evidence_text budget
                      else bs_sections s)
      in and_then (append_omitted_summary sections (bs_omitted s) plan budget) (\<lambda>sections.
         let content = join_sections (append_parse_issues sections (bs_parse_issues s) budget)
         in if budget < count_chars content
            then Err (budget_model_mismatch (lit ''rendered context exceeds the global budget''))
            else if content = [] then Err (lit ''context budget produced an empty result'')
            else Ok content))"

definition build_context ::
  "(rstring \<Rightarrow> rstring) \<Rightarrow> (parsed_content_audit \<Rightarrow> nat) \<Rightarrow> context_file_evidence list \<Rightarrow>
     context_profile \<Rightarrow> report_mode \<Rightarrow> (context_build_output, rstring) result" where
  "build_context uni enc evidence profile report_mode =
     and_then (decide_files uni enc evidence profile) (\<lambda>decided.
     let source_file_count = length decided;
         success_count = status_count Success decided;
         timeout_count = status_count Timeout decided;
         error_file_count = status_count Error decided
     in and_then (ok_or (lit ''context status counts overflow'')
          (Option.bind (checked_sub source_file_count success_count) (\<lambda>v.
           Option.bind (checked_sub v timeout_count) (\<lambda>v. checked_sub v error_file_count))))
        (\<lambda>not_parsed_count.
        and_then (sum_input_chars 0 decided) (\<lambda>input_chars.
        let sections = head_sections profile report_mode source_file_count success_count
              (saturating_add timeout_count error_file_count);
            plan = OmittedSummaryPlan_build uni (map omitted_candidate_of decided)
              (cp_global_max_chars profile)
        in and_then (build_loop profile plan decided (initial_state sections)) (\<lambda>s.
           and_then (finish_sections profile plan s) (\<lambda>content.
           Ok \<lparr>co_content = content, co_source_file_count = source_file_count,
               co_success_count = success_count, co_timeout_count = timeout_count,
               co_included_file_count = bs_included s, co_omitted_file_count = not_parsed_count,
               co_error_file_count = error_file_count, co_input_chars = input_chars,
               co_output_chars = count_chars content, co_metadata_only_count = bs_metadata_only s,
               co_compressed_file_count = bs_compressed s,
               co_truncated_file_count =
                 length (filter (\<lambda>r. cd_truncated (bd_decision r)) (bs_decisions s)),
               co_decisions = bs_decisions s, co_rendered_by_identity = bs_rendered s\<rparr>)))))"


section \<open>Lengths of the fixed parts\<close>

abbreviation chars_of :: "rstring list \<Rightarrow> nat" where
  "chars_of ss \<equiv> sum_list (map length ss)"

lemma length_trim_end: "length (trim_end s) \<le> length s"
  by (simp add: trim_end_def length_trim_end_by)

lemma length_join_sections:
  "length (join_sections ss) \<le> chars_of ss + 2 * (length ss - 1) + 1"
proof -
  have "sum_list (map (\<lambda>s. length (trim_end s)) ss) \<le> chars_of ss"
    by (rule sum_list_mono) (rule length_trim_end)
  moreover have "length (join_sections ss) \<le> length (join [nl, nl] (map trim_end ss)) + 1"
    using length_trim_end by (simp add: join_sections_def)
  ultimately show ?thesis by (simp add: length_join comp_def)
qed

lemma length_PARSE_FOOTER: "length PARSE_FOOTER = 18"
  by (simp add: PARSE_FOOTER_def parse_title_def)

lemma length_no_evidence_text: "length no_evidence_text = 5"
  by (simp add: no_evidence_text_def)

text \<open>The model prices the run summary with two counts of twenty digits. With at most seven
  digits each, twenty-six characters are left over: they pay for the footer, its separator
  and the final line break, and for the placeholder of an empty document.\<close>

lemma head_sections_slack:
  assumes "success_count < 10 ^ 7" and "failure_count < 10 ^ 7"
  shows "chars_of (head_sections profile mode n success_count failure_count) + 26
    \<le> chars_of (fixed_context_sections profile mode n)"
  using length_dec_le [OF assms(1)] length_dec_le [OF assms(2)]
  by (simp add: head_sections_def fixed_context_sections_def render_run_summary_def nines_def budget_consts)

lemma length_head_sections [simp]: "length (head_sections profile mode n s f) = 4"
  by (simp add: head_sections_def)

section \<open>Lengths of file sections\<close>

lemma length_render_metadata:
  assumes "length (cd_reason d) \<le> 64" and "length (ev_parser_backend e) \<le> 64"
    and "length (ev_extension e) \<le> 32" and "unwrap_or (ev_size_bytes e) 0 \<le> u64_max"
    and "cd_input_chars d \<le> u64_max"
  shows "length (render_metadata_section e d) + 2 \<le> metadata_section_max (length (cd_relative_path d))"
  using assms length_dec_u64 [OF assms(4)] length_dec_u64 [OF assms(5)] length_lane_text [of "ev_worker_lane e"]
  by (simp add: render_metadata_section_def section_max_defs)

lemma length_render_body:
  assumes "length (cd_reason d) \<le> 64" and "length (ev_parser_backend e) \<le> 64"
    and "cd_input_chars d \<le> u64_max" and "cd_output_chars d \<le> u64_max"
    and "length body \<le> n"
  shows "length (render_body_section e d body) + 2 \<le> success_section_max (length (cd_relative_path d)) n"
  using assms length_dec_u64 [OF assms(3)] length_dec_u64 [OF assms(4)] length_lane_text [of "ev_worker_lane e"]
    length_action_text [of "cd_action d"]
  by (simp add: render_body_section_def section_max_defs)

lemma length_error_line:
  assumes "length (cd_reason d) \<le> 64"
  shows "length (error_line e d) + 1 + 2 \<le> bounded_error_section_max (length (cd_relative_path d))"
proof -
  have "length (case ev_error e of None \<Rightarrow> lit ''UNKNOWN_ERROR'' | Some g \<Rightarrow> error_code_text (dg_error_code g)) \<le> 44"
    using length_error_code_text by (auto split: option.splits)
  with assms show ?thesis by (simp add: error_line_def section_max_defs)
qed

text \<open>The body of a section respects the per-file budget, whatever the content.\<close>

definition section_body :: "context_profile \<Rightarrow> context_file_evidence \<Rightarrow> rstring" where
  "section_body profile e =
     (if cp_per_file_max_chars profile < length (ev_content e)
      then (if ev_extension e = lit ''.log'' then take_log_tail (ev_content e) (cp_per_file_max_chars profile)
            else take_head_and_tail (ev_content e) (cp_per_file_max_chars profile))
      else ev_content e)"

lemma length_section_body:
  assumes "length (ev_content e) \<le> u64_max"
  shows "length (section_body profile e) \<le> min (cp_per_file_max_chars profile) (length (ev_content e))"
  using assms length_take_log_tail [of "cp_per_file_max_chars profile" "ev_content e"]
    length_take_head_and_tail [of "cp_per_file_max_chars profile" "ev_content e"]
  by (auto simp: section_body_def)

lemma render_file_section_body:
  assumes "cd_action d \<noteq> MetadataOnly"
  shows "\<exists>d'. render_file_section profile e d = (render_body_section e d' (section_body profile e), d')
    \<and> cd_relative_path d' = cd_relative_path d \<and> cd_reason d' = cd_reason d
    \<and> cd_input_chars d' = cd_input_chars d \<and> cd_output_chars d' = length (section_body profile e)
    \<and> cd_action d' = (if cp_per_file_max_chars profile < length (ev_content e) then Compress else cd_action d)
    \<and> cd_truncated d' = (cp_per_file_max_chars profile < length (ev_content e) \<or> cd_truncated d)"
  using assms by (simp add: render_file_section_def section_body_def count_chars_def Let_def)

lemma render_file_section_metadata:
  "cd_action d = MetadataOnly \<Longrightarrow> render_file_section profile e d =
     (render_metadata_section e (d\<lparr>cd_output_chars := 0\<rparr>), d\<lparr>cd_output_chars := 0\<rparr>)"
  by (simp add: render_file_section_def Let_def)

text \<open>What the sources of evidence guarantee: machine-sized counts and bounded names.\<close>

definition bounded_evidence :: "context_file_evidence \<Rightarrow> bool" where
  "bounded_evidence e \<longleftrightarrow> length (ev_content e) \<le> u64_max \<and> unwrap_or (ev_size_bytes e) 0 \<le> u64_max
     \<and> length (ev_parser_backend e) \<le> 64 \<and> length (ev_extension e) \<le> 32
     \<and> length (unwrap_or (ev_reason e) []) \<le> 64"

lemma length_action_reason:
  assumes "bounded_evidence e"
  shows "length (snd (action_and_reason profile e)) \<le> 64"
proof (cases "ev_parse_status e = Success")
  case True
  then show ?thesis using length_action_reason_Success [of e profile] by simp
next
  case False
  then show ?thesis using assms
    by (cases "ev_parse_status e"; cases "ev_reason e")
      (auto simp: action_and_reason_def bounded_evidence_def)
qed

lemma decided_input_chars:
  "bounded_evidence e \<Longrightarrow> cd_input_chars (de_decision (decide_file uni profile e)) \<le> u64_max"
  by (auto simp: decide_file_def bounded_evidence_def Let_def split: prod.splits)


section \<open>Rendered text against the reservation\<close>

lemma section_max_mono:
  "p \<le> q \<Longrightarrow> b \<le> c \<Longrightarrow> success_section_max p b \<le> success_section_max q c"
  "p \<le> q \<Longrightarrow> metadata_section_max p \<le> metadata_section_max q"
  "p \<le> q \<Longrightarrow> bounded_error_section_max p \<le> bounded_error_section_max q"
  by (simp_all add: section_max_defs)

lemma reserved_delta_ge:
  "success_section_max (length (rh_relative_path h)) (min (bm_per_file_max_chars m) (rh_max_excerpt_chars h)) \<le> reserved_delta m h n"
  "metadata_section_max (length (rh_relative_path h)) \<le> reserved_delta m h n"
  "bounded_error_section_max (length (rh_relative_path h)) \<le> reserved_delta m h n"
  by (simp_all add: reserved_delta_def count_chars_def Let_def)

text \<open>The hint a file was admitted with covers its evidence: the path of the hint is no shorter
  than the rendered one, and the excerpt is no longer than the route allows.\<close>

definition covered_by :: "context_file_evidence \<Rightarrow> route_hint \<Rightarrow> bool" where
  "covered_by e h \<longleftrightarrow> length (ev_relative_path e) \<le> length (rh_relative_path h)
     \<and> length (ev_content e) \<le> rh_max_excerpt_chars h"

lemma rendered_section_bound:
  assumes b: "bounded_evidence e" and c: "covered_by e h"
    and m: "bm_per_file_max_chars m = cp_per_file_max_chars profile"
  shows "length (fst (render_file_section profile e (de_decision (decide_file uni profile e)))) + 2
    \<le> reserved_delta m h n"
proof -
  let ?d = "de_decision (decide_file uni profile e)"
  have reason: "length (cd_reason ?d) \<le> 64" using length_action_reason [OF b] by simp
  have input: "cd_input_chars ?d \<le> u64_max" by (rule decided_input_chars [OF b])
  have path: "length (cd_relative_path ?d) \<le> length (rh_relative_path h)" using c by (simp add: covered_by_def)
  show ?thesis
  proof (cases "cd_action ?d = MetadataOnly")
    case True
    have "length (render_metadata_section e (?d\<lparr>cd_output_chars := 0\<rparr>)) + 2 \<le> metadata_section_max (length (cd_relative_path ?d))"
      using length_render_metadata [of "?d\<lparr>cd_output_chars := 0\<rparr>" e] b reason input
      by (simp add: bounded_evidence_def)
    also have "\<dots> \<le> metadata_section_max (length (rh_relative_path h))" by (rule section_max_mono) (rule path)
    finally show ?thesis
      using reserved_delta_ge(2) [of h m n] by (simp add: render_file_section_metadata [OF True])
  next
    case False
    let ?body = "section_body profile e"
    from render_file_section_body [OF False, of profile e] obtain d' where
      r: "render_file_section profile e ?d = (render_body_section e d' ?body, d')"
      and f: "cd_relative_path d' = cd_relative_path ?d" "cd_reason d' = cd_reason ?d"
        "cd_input_chars d' = cd_input_chars ?d" "cd_output_chars d' = length ?body" by blast
    have body: "length ?body \<le> min (cp_per_file_max_chars profile) (length (ev_content e))"
      and u64: "length (ev_content e) \<le> u64_max"
      using length_section_body b by (auto simp: bounded_evidence_def)
    have "length (render_body_section e d' ?body) + 2 \<le> success_section_max (length (cd_relative_path d')) (length ?body)"
      using b reason input f body u64 by (intro length_render_body) (auto simp: bounded_evidence_def)
    also have "\<dots> \<le> success_section_max (length (rh_relative_path h)) (min (bm_per_file_max_chars m) (rh_max_excerpt_chars h))"
      using path body c m f(1) by (intro section_max_mono) (auto simp: covered_by_def)
    finally show ?thesis using reserved_delta_ge(1) [of h m n] r by simp
  qed
qed

lemma error_line_bound:
  assumes b: "bounded_evidence e" and c: "covered_by e h"
  shows "length (error_line e (de_decision (decide_file uni profile e))) + 1 + 2 \<le> reserved_delta m h n"
proof -
  let ?d = "de_decision (decide_file uni profile e)"
  have "length (error_line e ?d) + 1 + 2 \<le> bounded_error_section_max (length (cd_relative_path ?d))"
    using length_action_reason [OF b] by (intro length_error_line) simp
  also have "\<dots> \<le> bounded_error_section_max (length (rh_relative_path h))"
    using c by (intro section_max_mono) (simp add: covered_by_def)
  finally show ?thesis using reserved_delta_ge(3) [of h m n] by linarith
qed

text \<open>C24. The budget model is an upper bound of the renderer: whatever becomes of an admitted
  file (kept, compressed, reduced to metadata, or failed), the text rendered for it, with the
  separator that follows, is no longer than what was reserved for it before it was parsed.\<close>

theorem rendered_within_reservation:
  assumes "bounded_evidence e" and "covered_by e h"
    and "bm_per_file_max_chars m = cp_per_file_max_chars profile"
  shows "length (fst (render_file_section profile e (de_decision (decide_file uni profile e)))) + 2
      \<le> reserved_delta m h n
    \<and> length (error_line e (de_decision (decide_file uni profile e))) + 1 + 2 \<le> reserved_delta m h n"
  using rendered_section_bound [OF assms] error_line_bound [OF assms(1,2)] by blast

definition fixture_hint :: route_hint where
  "fixture_hint = \<lparr>rh_relative_path = lit ''/w/b.txt'', rh_extension = lit ''.txt'',
     rh_backend = route_backend LightText, rh_worker_lane = route_worker_lane LightText,
     rh_max_excerpt_chars = 600\<rparr>"

theorem rendered_within_reservation_witness:
  "length (fst (render_file_section (ns_context daily_settings) fixture_evidence
     (de_decision (decide_file id (ns_context daily_settings) fixture_evidence)))) + 2
   \<le> reserved_delta (fixture_model\<lparr>bm_per_file_max_chars := 100000\<rparr>) fixture_hint None"
  by (rule rendered_within_reservation [THEN conjunct1])
    (simp_all add: bounded_evidence_def covered_by_def fixture_evidence_def fixture_hint_def
      fixture_model_def daily_settings_def u64_max_def)

section \<open>The loop over the decided files\<close>

lemma build_step_Ok:
  assumes "build_step profile plan item s = Ok s'"
  shows "map bd_file_identity (bs_decisions s') = map bd_file_identity (bs_decisions s) @ [ev_file_identity (de_evidence item)]"
    and "bs_included s' = bs_included s + (if cd_action (de_decision item) \<in> {Omit, ActionError} then 0 else 1)"
    and "length (bs_omitted s') = length (bs_omitted s) + (if cd_action (de_decision item) = Omit then 1 else 0)"
    and "length (bs_parse_issues s') = length (bs_parse_issues s) + (if cd_action (de_decision item) = ActionError then 1 else 0)"
  using assms
  by (cases "cd_action (de_decision item)"; simp add: build_step_def Let_def split: prod.splits if_splits; auto)+

lemma build_loop_Ok:
  assumes "build_loop profile plan items s = Ok s'"
  shows "map bd_file_identity (bs_decisions s') =
      map bd_file_identity (bs_decisions s) @ map (\<lambda>i. ev_file_identity (de_evidence i)) items"
    and "bs_included s' = bs_included s + length (filter (\<lambda>i. cd_action (de_decision i) \<notin> {Omit, ActionError}) items)"
    and "length (bs_omitted s') = length (bs_omitted s) + length (filter (\<lambda>i. cd_action (de_decision i) = Omit) items)"
    and "length (bs_parse_issues s') = length (bs_parse_issues s) + length (filter (\<lambda>i. cd_action (de_decision i) = ActionError) items)"
  using assms
proof (induction items arbitrary: s)
  case (Cons item items)
  {
    case 1
    then obtain s1 where "build_step profile plan item s = Ok s1" "build_loop profile plan items s1 = Ok s'" by auto
    then show ?case using Cons.IH(1) build_step_Ok(1) by fastforce
  next
    case 2
    then obtain s1 where "build_step profile plan item s = Ok s1" "build_loop profile plan items s1 = Ok s'" by auto
    then show ?case using Cons.IH(2) [of s1] build_step_Ok(2) [of profile plan item s s1] by simp
  next
    case 3
    then obtain s1 where "build_step profile plan item s = Ok s1" "build_loop profile plan items s1 = Ok s'" by auto
    then show ?case using Cons.IH(3) [of s1] build_step_Ok(3) [of profile plan item s s1] by simp
  next
    case 4
    then obtain s1 where "build_step profile plan item s = Ok s1" "build_loop profile plan items s1 = Ok s'" by auto
    then show ?case using Cons.IH(4) [of s1] build_step_Ok(4) [of profile plan item s s1] by simp
  }
qed simp_all

end
