(* ===== verification/Scheduler_Files.thy ===== *)
theory Scheduler_Files
  imports Inventory Pdf_Audit Compressor
begin

text \<open>
  \<open>src/rust/scanner_core/src/scheduler.rs\<close>, the part that turns what happened to each file into
  the evidence for the context and into the row the store keeps (\<open>store/inventory.rs\<close>), with the
  admission check of such a row. Hash maps are maps, hash sets are sets of identities; \<open>sha\<close> is the
  SHA-256 text of a byte string (the \<open>sha2\<close> crate), \<open>rel\<close> the contract-relative path of a file.
\<close>

section \<open>Parse results\<close>

record parse_result =
  ps_file_identity :: rstring
  ps_content :: rstring
  ps_evidence_audit :: "parsed_content_audit option"
  ps_parser_backend :: rstring
  ps_worker_lane :: rstring
  ps_truncated :: bool
  ps_content_sha256 :: rstring
  ps_parse_status :: parse_status
  ps_error :: "diagnostic option"
  ps_warnings :: "diagnostic list"
  ps_failure_class :: rstring
  ps_fallback_backend :: rstring
  ps_fallback_reason_code :: rstring
  ps_parse_transport :: parse_transport
  ps_parse_attempt_count :: u64
  ps_primary_duration_ms :: u64
  ps_fallback_duration_ms :: u64
  ps_parse_duration_ms :: u64

definition parse_worker_lane :: "rstring \<Rightarrow> audit_worker_lane" where
  "parse_worker_lane lane =
     (if lane = lit ''rust_core'' then RustCore
      else if lane = lit ''rust_office_process_v3'' then RustOfficeProcessV3
      else if lane = lit ''rust_pdf_process_v3'' then RustPdfProcessV3
      else LaneNotParsed)"

definition route_timeout_ms :: "route_kind \<Rightarrow> normalized_settings \<Rightarrow> u64" where
  "route_timeout_ms route profile =
     (let fallback = ep_file_timeout_ms (ns_execution profile);
          own = (\<lambda>extension. unwrap_or (map_of (ep_file_timeout_by_extension_ms (ns_execution profile)) extension) fallback)
      in case route of
           Pdf \<Rightarrow> own (lit ''.pdf'')
         | RustXls \<Rightarrow> own (lit ''.xls'')
         | RustXlsx \<Rightarrow> own (lit ''.xlsx'')
         | _ \<Rightarrow> fallback)"

definition source_changed_diagnostic :: "discovered_file \<Rightarrow> diagnostic" where
  "source_changed_diagnostic file =
     \<lparr>dg_error_code = SourceVersionChanged,
      dg_message = lit ''file source version changed before or during parsing'',
      dg_retryable = True, dg_stage = StageParse, dg_file_path = Some (df_path file),
      dg_backend = Some (df_extension file)\<rparr>"

definition source_version_changed_parse ::
  "(rstring \<Rightarrow> rstring) \<Rightarrow> discovered_file \<Rightarrow> parse_result" where
  "source_version_changed_parse sha file =
     \<lparr>ps_file_identity = df_file_identity file, ps_content = [], ps_evidence_audit = None,
      ps_parser_backend = lit ''not_parsed'', ps_worker_lane = lit ''not_parsed'',
      ps_truncated = False, ps_content_sha256 = sha [], ps_parse_status = Error,
      ps_error = Some (source_changed_diagnostic file), ps_warnings = [],
      ps_failure_class = lit ''deterministic'', ps_fallback_backend = [], ps_fallback_reason_code = [],
      ps_parse_transport = PtNotApplicable, ps_parse_attempt_count = 0, ps_primary_duration_ms = 0,
      ps_fallback_duration_ms = 0, ps_parse_duration_ms = 0\<rparr>"

definition source_version_changed_after_parse ::
  "(rstring \<Rightarrow> rstring) \<Rightarrow> discovered_file \<Rightarrow> parse_result \<Rightarrow> parse_result" where
  "source_version_changed_after_parse sha file executed =
     executed\<lparr>ps_file_identity := df_file_identity file, ps_content := [], ps_evidence_audit := None,
      ps_truncated := False, ps_content_sha256 := sha [], ps_parse_status := Error,
      ps_error := Some (source_changed_diagnostic file), ps_failure_class := lit ''deterministic''\<rparr>"

definition is_source_version_changed_result :: "parse_result \<Rightarrow> bool" where
  "is_source_version_changed_result result =
     (case ps_error result of None \<Rightarrow> False | Some d \<Rightarrow> dg_error_code d = SourceVersionChanged)"

section \<open>Classifier failures\<close>

definition source_version_changed_classification :: "rstring \<Rightarrow> pdf_classification_result" where
  "source_version_changed_classification identity =
     \<lparr>cr_file_identity = identity, cr_status = ClassError, cr_page_count = None,
      cr_result_examined_pages = None, cr_error_code = Some (lit ''SOURCE_VERSION_CHANGED'')\<rparr>"

definition classifier_failure_semantics ::
  "pdf_classification_status \<Rightarrow> pdf_classification_result option \<Rightarrow> parse_status \<times> error_code \<times> bool" where
  "classifier_failure_semantics status classification =
     (let marker = Option.bind classification cr_error_code in
      if marker = Some (lit ''SOURCE_VERSION_CHANGED'') then (Error, SourceVersionChanged, True)
      else if marker = Some (lit ''PDF_PROTECTED'') \<and> status = ClassError then (Error, PdfProtected, False)
      else if status = ClassUnknown
      then (if marker = Some (lit ''PARSER_TIMEOUT'') then (Timeout, ParserTimeout, True)
            else (Error, ParserFailed, True))
      else (Error, ParserFailed, False))"

definition classifier_error_line ::
  "classified_plan \<Rightarrow> (rstring \<rightharpoonup> pdf_classification_result) \<Rightarrow> rstring set \<Rightarrow> rstring option" where
  "classifier_error_line plan classifications runtime =
     (case cl_pdf_classification plan of
        Classify _ \<Rightarrow>
          if cl_file_identity plan \<in> runtime then None
          else
            let result = classifications (cl_file_identity plan);
                marker = Option.bind result cr_error_code;
                line = (\<lambda>code. Some (lit ''- '' @ cl_relative_path plan @ lit '' | reason=parse_error | error='' @ code))
            in (case map_option cr_status result of
                  Some ClassUnknown \<Rightarrow>
                    line (if marker = Some (lit ''PARSER_TIMEOUT'') then lit ''PARSER_TIMEOUT'' else lit ''PARSER_FAILED'')
                | Some ClassError \<Rightarrow>
                    line (if marker = Some (lit ''PDF_PROTECTED'') then lit ''PDF_PROTECTED'' else lit ''PARSER_FAILED'')
                | _ \<Rightarrow> None)
      | _ \<Rightarrow> None)"

text \<open>The derived \<open>Debug\<close> text of a status.\<close>

fun status_debug :: "pdf_classification_status \<Rightarrow> rstring" where
  "status_debug TextInParseWindow = lit ''TextInParseWindow''"
| "status_debug NoTextInParseWindow = lit ''NoTextInParseWindow''"
| "status_debug NotClassifiedByBudget = lit ''NotClassifiedByBudget''"
| "status_debug ClassUnknown = lit ''Unknown''"
| "status_debug ClassError = lit ''Error''"

section \<open>The parse phase's outputs\<close>

record cache_write_record =
  cw_file_identity :: rstring
  cw_source_version :: rstring
  cw_source_guard_kind :: rstring
  cw_source_guard_sha256 :: rstring
  cw_parse_profile_hash :: rstring
  cw_content :: rstring
  cw_content_sha256 :: rstring
  cw_cache_payload_version :: u64
  cw_evidence_audit :: "parsed_content_audit option"
  cw_parser_backend :: rstring
  cw_worker_lane :: rstring
  cw_truncated :: bool
  cw_worker_contract_version :: rstring
  cw_worker_version :: rstring
  cw_worker_build :: rstring

record classification_write_record =
  kw_file_identity :: rstring
  kw_source_version :: rstring
  kw_source_guard_kind :: rstring
  kw_source_guard_sha256 :: rstring
  kw_classifier_profile_hash :: rstring
  kw_classifier_build :: rstring
  kw_status :: rstring
  kw_page_count :: u64
  kw_result_examined_pages :: u64

record parse_outputs =
  po_results :: "rstring \<rightharpoonup> parse_result"
  po_runtime_not_parsed :: "rstring set"
  po_parse_cache_receipts :: "cache_write_record list"
  po_classification_cache_receipts :: "classification_write_record list"
  po_parse_profile_hashes :: "rstring \<rightharpoonup> rstring"
  po_parse_cache_status :: "rstring \<rightharpoonup> cache_status"
  po_parse_cache_miss_reason :: "rstring \<rightharpoonup> cache_miss_reason"
  po_cache_write_warnings :: "diagnostic list"
  po_parse_warnings :: "diagnostic list"
  po_parse_fresh_hits :: "rstring list"

definition classification_cache_record ::
  "discovered_file \<Rightarrow> rstring \<Rightarrow> rstring \<Rightarrow> pdf_classification_status \<Rightarrow> u64 option \<Rightarrow> u64 option \<Rightarrow>
     classification_write_record option" where
  "classification_cache_record file profile_hash build status page_count result_examined_pages =
     (case (df_source_guard_kind file, df_source_guard_sha256 file, page_count, result_examined_pages) of
        (Some kind, Some hash, Some pages, Some examined) \<Rightarrow>
          if status \<notin> {TextInParseWindow, NoTextInParseWindow} \<or> pages = 0 \<or> examined = 0 then None
          else Some \<lparr>kw_file_identity = df_file_identity file, kw_source_version = df_source_version file,
            kw_source_guard_kind = kind, kw_source_guard_sha256 = hash,
            kw_classifier_profile_hash = profile_hash, kw_classifier_build = build,
            kw_status = (if status = TextInParseWindow then lit ''text_in_parse_window''
                         else lit ''no_text_in_parse_window''),
            kw_page_count = pages, kw_result_examined_pages = examined\<rparr>
      | _ \<Rightarrow> None)"

section \<open>Evidence of a file\<close>

text \<open>What all branches share: the identity, paths, size, an empty body, no truncation.\<close>

definition base_evidence :: "discovered_file \<Rightarrow> rstring \<Rightarrow> context_file_evidence" where
  "base_evidence file relative_path =
     \<lparr>ev_file_identity = df_file_identity file, ev_absolute_path = df_path file,
      ev_relative_path = relative_path, ev_extension = df_extension file,
      ev_size_bytes = Some (df_size_bytes file), ev_content = [], ev_evidence_audit = None,
      ev_parser_backend = lit ''not_parsed'', ev_worker_lane = LaneNotParsed, ev_cache_status = Miss,
      ev_parse_status = NotParsed, ev_truncated = False, ev_error = None, ev_reason = None\<rparr>"

fun reject_error :: "discovered_file \<Rightarrow> reject_reason \<Rightarrow> diagnostic" where
  "reject_error file reason =
     \<lparr>dg_error_code = (case reason of RejectSourceGuardUnavailable \<Rightarrow> SourceGuardUnavailable
                       | RejectProfileRouteInvariant \<Rightarrow> ProfileRouteInvariant),
      dg_message = reject_reason_text reason,
      dg_retryable = (reason = RejectSourceGuardUnavailable), dg_stage = StageParse,
      dg_file_path = Some (df_path file), dg_backend = None\<rparr>"

definition classifier_failure_error ::
  "discovered_file \<Rightarrow> pdf_classification_status \<Rightarrow> error_code \<Rightarrow> bool \<Rightarrow> diagnostic" where
  "classifier_failure_error file status code retryable =
     \<lparr>dg_error_code = code, dg_message = lit ''pdf classification '' @ status_debug status,
      dg_retryable = retryable, dg_stage = StageParse, dg_file_path = Some (df_path file),
      dg_backend = Some (lit ''pdf_classifier'')\<rparr>"

definition missing_result_error :: "discovered_file \<Rightarrow> diagnostic" where
  "missing_result_error file =
     \<lparr>dg_error_code = InternalError, dg_message = lit ''admitted text pdf has no parse result'',
      dg_retryable = False, dg_stage = StageParse, dg_file_path = Some (df_path file), dg_backend = None\<rparr>"

text \<open>\<open>HashMap::get(..).filter(is_source_version_changed_result)\<close>.\<close>

definition changed_result :: "parse_outputs \<Rightarrow> discovered_file \<Rightarrow> parse_result option" where
  "changed_result outputs file =
     (case po_results outputs (df_file_identity file) of
        Some result \<Rightarrow> if is_source_version_changed_result result then Some result else None
      | None \<Rightarrow> None)"

definition file_evidence ::
  "discovered_file \<Rightarrow> rstring \<Rightarrow> plan_action \<Rightarrow> (rstring \<rightharpoonup> pdf_classification_result) \<Rightarrow> rstring set \<Rightarrow>
     parse_outputs \<Rightarrow> context_file_evidence" where
  "file_evidence file relative_path action classifications runtime_classification outputs =
     (let base = base_evidence file relative_path; id = df_file_identity file in
      case changed_result outputs file of
        Some result \<Rightarrow> base\<lparr>ev_parser_backend := ps_parser_backend result,
          ev_worker_lane := parse_worker_lane (ps_worker_lane result), ev_parse_status := Error,
          ev_error := ps_error result, ev_reason := Some (lit ''source_version_changed'')\<rparr>
      | None \<Rightarrow>
        (case action of
           PlanNotParsed reason \<Rightarrow> base\<lparr>ev_reason := Some (not_parsed_reason_text reason)\<rparr>
         | Reject reason \<Rightarrow> base\<lparr>ev_parse_status := Error, ev_error := Some (reject_error file reason),
             ev_reason := Some (reject_reason_text reason)\<rparr>
         | ClassifierFailed status \<Rightarrow>
             let (parse_status, code, retryable) = classifier_failure_semantics status (classifications id)
             in base\<lparr>ev_parse_status := parse_status,
                  ev_error := Some (classifier_failure_error file status code retryable),
                  ev_reason := Some (lit ''parse_error'')\<rparr>
         | Admit _ \<Rightarrow>
             if id \<in> runtime_classification \<or> id \<in> po_runtime_not_parsed outputs
             then base\<lparr>ev_reason := Some (lit ''runtime_deadline_exhausted'')\<rparr>
             else
               (case po_results outputs id of
                  Some result \<Rightarrow> base\<lparr>ev_content := ps_content result,
                    ev_evidence_audit := ps_evidence_audit result,
                    ev_parser_backend := ps_parser_backend result,
                    ev_worker_lane := parse_worker_lane (ps_worker_lane result),
                    ev_parse_status := ps_parse_status result, ev_truncated := ps_truncated result,
                    ev_error := ps_error result,
                    ev_reason := (if ps_parse_status result = Success then None else Some (lit ''parse_error''))\<rparr>
                | None \<Rightarrow>
                    if unwrap_or (map_option cr_status (classifications id)) NoTextInParseWindow = NoTextInParseWindow
                    then base\<lparr>ev_parser_backend := PDF_METADATA_BACKEND, ev_worker_lane := RustCore,
                      ev_parse_status := Success, ev_reason := Some NO_TEXT_REASON\<rparr>
                    else base\<lparr>ev_parse_status := Error, ev_error := Some (missing_result_error file),
                      ev_reason := Some (lit ''parse_error'')\<rparr>)))"

section \<open>The action of a file and the evidence of a run\<close>

definition action_of :: "admission_decision list \<Rightarrow> classified_plan \<Rightarrow> plan_action" where
  "action_of admission plan =
     unwrap_or (map_option ad_action (find (\<lambda>d. ad_file_identity d = cl_file_identity plan) admission)) (cl_action plan)"

text \<open>Collecting pairs into a hash map keeps the last file of an identity.\<close>

definition snapshot_of :: "discovered_file list \<Rightarrow> (rstring \<rightharpoonup> discovered_file)" where
  "snapshot_of discovery = map_of (rev (map (\<lambda>f. (df_file_identity f, f)) discovery))"

text \<open>A \<open>SchedulerFailure\<close> is its diagnostic.\<close>

definition scheduler_failure :: "error_code \<Rightarrow> rstring \<Rightarrow> bool \<Rightarrow> diagnostic_stage \<Rightarrow> diagnostic" where
  "scheduler_failure code message retryable stage =
     \<lparr>dg_error_code = code, dg_message = take 4096 message, dg_retryable = retryable, dg_stage = stage,
      dg_file_path = None, dg_backend = None\<rparr>"

definition scheduler_internal :: "rstring \<Rightarrow> diagnostic" where
  "scheduler_internal message = scheduler_failure InternalError message False StageInternal"

definition file_of ::
  "(rstring \<Rightarrow> (rstring, rstring) result) \<Rightarrow> (rstring \<rightharpoonup> discovered_file) \<Rightarrow> classified_plan \<Rightarrow>
     (discovered_file \<times> rstring, diagnostic) result" where
  "file_of rel snapshot plan =
     and_then (ok_or (scheduler_internal (lit ''classified plan has no discovery file''))
                 (snapshot (cl_file_identity plan))) (\<lambda>file.
     and_then (map_err scheduler_internal (rel (df_path file))) (\<lambda>relative_path.
     Ok (file, relative_path)))"

definition build_evidence ::
  "(rstring \<Rightarrow> (rstring, rstring) result) \<Rightarrow> discovered_file list \<Rightarrow> classified_plan list \<Rightarrow>
     admission_decision list \<Rightarrow> (rstring \<rightharpoonup> pdf_classification_result) \<Rightarrow> rstring set \<Rightarrow> parse_outputs \<Rightarrow>
     (context_file_evidence list, diagnostic) result" where
  "build_evidence rel discovery classified admission classifications runtime_classification outputs =
     collect_results (\<lambda>plan.
       and_then (file_of rel (snapshot_of discovery) plan) (\<lambda>(file, relative_path).
       Ok (file_evidence file relative_path (action_of admission plan) classifications
             runtime_classification outputs))) classified"

section \<open>The row of a file\<close>

record file_result_record =
  fr_file_identity :: rstring
  fr_relative_path :: rstring
  fr_source_version :: rstring
  fr_parse_profile_hash :: rstring
  fr_cache_status :: cache_status
  fr_cache_miss_reason :: cache_miss_reason
  fr_parse_status :: parse_status
  fr_parser_backend :: rstring
  fr_worker_lane :: audit_worker_lane
  fr_truncated :: bool
  fr_content_sha256 :: rstring
  fr_primary_duration_ms :: u64
  fr_fallback_duration_ms :: u64
  fr_parse_duration_ms :: u64
  fr_failure_class :: rstring
  fr_fallback_backend :: rstring
  fr_fallback_reason_code :: rstring
  fr_parse_transport :: parse_transport
  fr_parse_attempt_count :: u64
  fr_pdf_classification :: "pdf_classification_audit option"
  fr_error :: "diagnostic option"

text \<open>The twelve values the row takes from the file's outcome.\<close>

record row_outcome =
  ro_parse_status :: parse_status
  ro_backend :: rstring
  ro_lane :: audit_worker_lane
  ro_error :: "diagnostic option"
  ro_content_sha256 :: rstring
  ro_truncated :: bool
  ro_primary_ms :: u64
  ro_fallback_ms :: u64
  ro_total_ms :: u64
  ro_failure_class :: rstring
  ro_fallback_backend :: rstring
  ro_fallback_reason :: rstring

definition empty_outcome ::
  "(rstring \<Rightarrow> rstring) \<Rightarrow> parse_status \<Rightarrow> rstring \<Rightarrow> audit_worker_lane \<Rightarrow> diagnostic option \<Rightarrow> row_outcome" where
  "empty_outcome sha status backend lane error =
     \<lparr>ro_parse_status = status, ro_backend = backend, ro_lane = lane, ro_error = error,
      ro_content_sha256 = sha [], ro_truncated = False, ro_primary_ms = 0, ro_fallback_ms = 0,
      ro_total_ms = 0, ro_failure_class = [], ro_fallback_backend = [], ro_fallback_reason = []\<rparr>"

definition result_outcome :: "parse_result \<Rightarrow> row_outcome" where
  "result_outcome result =
     \<lparr>ro_parse_status = ps_parse_status result, ro_backend = ps_parser_backend result,
      ro_lane = parse_worker_lane (ps_worker_lane result), ro_error = ps_error result,
      ro_content_sha256 = ps_content_sha256 result, ro_truncated = ps_truncated result,
      ro_primary_ms = ps_primary_duration_ms result, ro_fallback_ms = ps_fallback_duration_ms result,
      ro_total_ms = ps_parse_duration_ms result, ro_failure_class = ps_failure_class result,
      ro_fallback_backend = ps_fallback_backend result, ro_fallback_reason = ps_fallback_reason_code result\<rparr>"

definition outcome_of ::
  "(rstring \<Rightarrow> rstring) \<Rightarrow> discovered_file \<Rightarrow> plan_action \<Rightarrow> (rstring \<rightharpoonup> pdf_classification_result) \<Rightarrow>
     rstring set \<Rightarrow> parse_outputs \<Rightarrow> row_outcome" where
  "outcome_of sha file action classifications runtime_classification outputs =
     (let id = df_file_identity file; not_parsed = lit ''not_parsed'' in
      case changed_result outputs file of
        Some result \<Rightarrow> (result_outcome result)\<lparr>ro_parse_status := Error, ro_truncated := False\<rparr>
      | None \<Rightarrow>
        (case action of
           PlanNotParsed _ \<Rightarrow> empty_outcome sha NotParsed not_parsed LaneNotParsed None
         | Reject reason \<Rightarrow> empty_outcome sha Error not_parsed LaneNotParsed (Some (reject_error file reason))
         | ClassifierFailed status \<Rightarrow>
             let (parse_status, code, retryable) = classifier_failure_semantics status (classifications id)
             in empty_outcome sha parse_status not_parsed LaneNotParsed
                  (Some (classifier_failure_error file status code retryable))
         | Admit _ \<Rightarrow>
             if id \<in> runtime_classification \<or> id \<in> po_runtime_not_parsed outputs
             then empty_outcome sha NotParsed not_parsed LaneNotParsed None
             else (case po_results outputs id of
                     Some result \<Rightarrow> result_outcome result
                   | None \<Rightarrow> empty_outcome sha Success PDF_METADATA_BACKEND RustCore None)))"

definition file_result ::
  "(rstring \<Rightarrow> rstring) \<Rightarrow> discovered_file \<Rightarrow> rstring \<Rightarrow> plan_action \<Rightarrow> (rstring \<rightharpoonup> pdf_classification_result) \<Rightarrow>
     (rstring \<rightharpoonup> pdf_classification_audit) \<Rightarrow> parse_outputs \<Rightarrow> rstring set \<Rightarrow> rstring \<Rightarrow> file_result_record" where
  "file_result sha file relative_path action classifications audits outputs runtime_classification
     rejected_profile_hash =
     (let id = df_file_identity file;
          out = outcome_of sha file action classifications runtime_classification outputs;
          source_changed = (case po_results outputs id of
             None \<Rightarrow> False | Some result \<Rightarrow> is_source_version_changed_result result);
          profile_hash = (if source_changed \<or> is_admit action
             then unwrap_or (po_parse_profile_hashes outputs id) rejected_profile_hash
             else rejected_profile_hash);
          (cache_status, cache_miss_reason) =
            (if source_changed then (Miss, MissSourceVersionChanged)
             else if is_admit action
             then (unwrap_or (po_parse_cache_status outputs id) Miss,
                   unwrap_or (po_parse_cache_miss_reason outputs id) NewFile)
             else (Miss, NewFile));
          (transport, attempts) = (case po_results outputs id of
             Some result \<Rightarrow> (ps_parse_transport result, ps_parse_attempt_count result)
           | None \<Rightarrow> (PtNotApplicable, 0))
      in \<lparr>fr_file_identity = id, fr_relative_path = relative_path, fr_source_version = df_source_version file,
          fr_parse_profile_hash = profile_hash, fr_cache_status = cache_status,
          fr_cache_miss_reason = cache_miss_reason, fr_parse_status = ro_parse_status out,
          fr_parser_backend = ro_backend out, fr_worker_lane = ro_lane out, fr_truncated = ro_truncated out,
          fr_content_sha256 = ro_content_sha256 out, fr_primary_duration_ms = ro_primary_ms out,
          fr_fallback_duration_ms = ro_fallback_ms out, fr_parse_duration_ms = ro_total_ms out,
          fr_failure_class = ro_failure_class out, fr_fallback_backend = ro_fallback_backend out,
          fr_fallback_reason_code = ro_fallback_reason out, fr_parse_transport = transport,
          fr_parse_attempt_count = attempts, fr_pdf_classification = audits id, fr_error = ro_error out\<rparr>)"

definition build_file_results ::
  "(rstring \<Rightarrow> rstring) \<Rightarrow> (rstring \<Rightarrow> (rstring, rstring) result) \<Rightarrow> classified_plan list \<Rightarrow>
     (rstring \<rightharpoonup> discovered_file) \<Rightarrow> admission_decision list \<Rightarrow> (rstring \<rightharpoonup> pdf_classification_result) \<Rightarrow>
     (rstring \<rightharpoonup> pdf_classification_audit) \<Rightarrow> parse_outputs \<Rightarrow> rstring set \<Rightarrow> rstring \<Rightarrow>
     (file_result_record list, diagnostic) result" where
  "build_file_results sha rel classified snapshot admission classifications audits outputs
     runtime_classification rejected_profile_hash =
     collect_results (\<lambda>plan.
       and_then (file_of rel snapshot plan) (\<lambda>(file, relative_path).
       Ok (file_result sha file relative_path (action_of admission plan) classifications audits outputs
             runtime_classification rejected_profile_hash))) classified"

section \<open>What the store accepts\<close>

definition parse_cache_status_of :: "file_result_record \<Rightarrow> parse_cache_status" where
  "parse_cache_status_of r =
     (case fr_parse_status r of
        Success \<Rightarrow> (case fr_cache_status r of
            Fresh \<Rightarrow> PcFresh
          | Miss \<Rightarrow> if fr_parser_backend r = PDF_METADATA_BACKEND then PcNotApplicable else PcMiss)
      | NotParsed \<Rightarrow> PcNotApplicable
      | _ \<Rightarrow> if fr_parser_backend r = lit ''not_parsed'' then PcNotApplicable else PcMiss)"

definition zero_execution_row :: "file_result_record \<Rightarrow> bool" where
  "zero_execution_row r \<longleftrightarrow> fr_parse_attempt_count r = 0 \<and> fr_primary_duration_ms r = 0
     \<and> fr_fallback_duration_ms r = 0 \<and> fr_parse_duration_ms r = 0"

definition execution_consistent :: "bool \<Rightarrow> file_result_record \<Rightarrow> bool" where
  "execution_consistent snapshot_rows r \<longleftrightarrow>
     (if snapshot_rows
      then fr_parse_status r \<notin> {Error, Timeout} \<and> fr_parse_transport r = PtSnapshot \<and> zero_execution_row r
      else (case parse_cache_status_of r of
          PcFresh \<Rightarrow> fr_parse_status r = Success \<and> fr_parse_transport r = PtNotApplicable \<and> zero_execution_row r
        | PcMiss \<Rightarrow> fr_parse_status r \<in> {Success, Error, Timeout}
            \<and> fr_parse_transport r \<in> {PtSession, PtOneShot, PtRustInProcess}
            \<and> 1 \<le> fr_parse_attempt_count r \<and> fr_parse_attempt_count r \<le> 3
        | PcNotApplicable \<Rightarrow> fr_parse_transport r = PtNotApplicable \<and> zero_execution_row r
        | PcSnapshot \<Rightarrow> False))"

definition cache_consistent :: "file_result_record \<Rightarrow> bool" where
  "cache_consistent r \<longleftrightarrow> (fr_cache_status r, fr_cache_miss_reason r) \<in>
     {(Fresh, MissNone), (Miss, NewFile), (Miss, MissSourceVersionChanged),
      (Miss, ParserIdentityChanged), (Miss, EntryAbsentOrEvicted)}"

definition error_consistent :: "file_result_record \<Rightarrow> bool" where
  "error_consistent r \<longleftrightarrow> (fr_parse_status r \<in> {Error, Timeout} \<longleftrightarrow> fr_error r \<noteq> None)"

text \<open>The audit view of a row (\<open>FileAudit\<close> of the contract).\<close>

definition validate_file_audit :: "file_result_record \<Rightarrow> check" where
  "validate_file_audit r = validate_all
     [require_relative_path (fr_relative_path r) (lit ''file relative_path''),
      require_non_empty (fr_file_identity r) 4096 (lit ''file_identity''),
      require_source_version (fr_source_version r) (lit ''source_version''),
      require_non_empty (fr_parser_backend r) 4096 (lit ''parser_backend''),
      require (is_sha256_hex (fr_content_sha256 r)) (lit ''content_sha256 must be lowercase SHA-256''),
      require (length (fr_failure_class r) \<le> 1024) (lit ''failure_class is too long''),
      require (length (fr_fallback_backend r) \<le> 1024) (lit ''fallback_backend is too long''),
      require (length (fr_fallback_reason_code r) \<le> 1024) (lit ''fallback_reason_code is too long'')]"

text \<open>The message of the refusal, which prints the conjuncts, is left out.\<close>

definition validate_for_persistence :: "bool \<Rightarrow> file_result_record \<Rightarrow> bool" where
  "validate_for_persistence snapshot_rows r \<longleftrightarrow>
     fr_file_identity r \<noteq> [] \<and> fr_relative_path r \<noteq> [] \<and> fr_source_version r \<noteq> []
     \<and> is_sha256_hex (fr_parse_profile_hash r) \<and> fr_parser_backend r \<noteq> []
     \<and> is_sha256_hex (fr_content_sha256 r)
     \<and> fr_primary_duration_ms r \<le> i64_max \<and> fr_fallback_duration_ms r \<le> i64_max
     \<and> fr_parse_duration_ms r \<le> i64_max
     \<and> cache_consistent r \<and> error_consistent r \<and> fr_parse_attempt_count r \<le> 3
     \<and> execution_consistent snapshot_rows r
     \<and> validate_v2_parse_provenance (fr_parse_status r) (fr_parser_backend r) (fr_worker_lane r)
         (if snapshot_rows then PcSnapshot else parse_cache_status_of r)
         (map_option ca_status (fr_pdf_classification r)) = Ok ()
     \<and> (case fr_pdf_classification r of None \<Rightarrow> True | Some a \<Rightarrow> validate_classification_audit a = Ok ())
     \<and> validate_file_audit r = Ok ()
     \<and> (case fr_error r of None \<Rightarrow> True | Some d \<Rightarrow> validate_diagnostic d = Ok ())"

section \<open>Evidence and row agree\<close>

text \<open>The one case in which they do not: an admitted file that was neither parsed nor stopped by
  the deadline although its classification is not the no-text one.\<close>

definition lost_result ::
  "discovered_file \<Rightarrow> plan_action \<Rightarrow> (rstring \<rightharpoonup> pdf_classification_result) \<Rightarrow> rstring set \<Rightarrow> parse_outputs \<Rightarrow> bool" where
  "lost_result file action classifications runtime_classification outputs \<longleftrightarrow>
     is_admit action \<and> df_file_identity file \<notin> runtime_classification
     \<and> df_file_identity file \<notin> po_runtime_not_parsed outputs
     \<and> po_results outputs (df_file_identity file) = None
     \<and> (case classifications (df_file_identity file) of None \<Rightarrow> False
        | Some c \<Rightarrow> cr_status c \<noteq> NoTextInParseWindow)"

lemma changed_result_SomeD:
  "changed_result outputs file = Some r \<Longrightarrow>
     po_results outputs (df_file_identity file) = Some r \<and> is_source_version_changed_result r"
  by (auto simp: changed_result_def split: option.splits if_splits)

lemma row_fields:
  "fr_parse_status (file_result sha f p a cs au ou rc h) = ro_parse_status (outcome_of sha f a cs rc ou)"
  "fr_parser_backend (file_result sha f p a cs au ou rc h) = ro_backend (outcome_of sha f a cs rc ou)"
  "fr_worker_lane (file_result sha f p a cs au ou rc h) = ro_lane (outcome_of sha f a cs rc ou)"
  "fr_truncated (file_result sha f p a cs au ou rc h) = ro_truncated (outcome_of sha f a cs rc ou)"
  "fr_error (file_result sha f p a cs au ou rc h) = ro_error (outcome_of sha f a cs rc ou)"
  "fr_file_identity (file_result sha f p a cs au ou rc h) = df_file_identity f"
  "fr_relative_path (file_result sha f p a cs au ou rc h) = p"
  "fr_pdf_classification (file_result sha f p a cs au ou rc h) = au (df_file_identity f)"
  by (simp_all add: file_result_def Let_def case_prod_beta)

lemma row_of_lost_result:
  assumes "lost_result file action classifications runtime outputs"
  shows "outcome_of sha file action classifications runtime outputs = empty_outcome sha Success PDF_METADATA_BACKEND RustCore None"
    and "file_evidence file p action classifications runtime outputs = (base_evidence file p)
       \<lparr>ev_parse_status := Error, ev_error := Some (missing_result_error file), ev_reason := Some (lit ''parse_error'')\<rparr>"
  using assms by (auto simp: lost_result_def outcome_of_def file_evidence_def changed_result_def Let_def
      split: plan_action.splits option.splits)

lemma evidence_row_agree:
  assumes "\<not> lost_result file action classifications runtime outputs"
  shows "(ev_parse_status (file_evidence file p action classifications runtime outputs),
      ev_parser_backend (file_evidence file p action classifications runtime outputs),
      ev_worker_lane (file_evidence file p action classifications runtime outputs),
      ev_truncated (file_evidence file p action classifications runtime outputs),
      ev_error (file_evidence file p action classifications runtime outputs)) =
     (let out = outcome_of sha file action classifications runtime outputs
      in (ro_parse_status out, ro_backend out, ro_lane out, ro_truncated out, ro_error out))"
  using assms
  by (auto simp: lost_result_def outcome_of_def file_evidence_def base_evidence_def
      result_outcome_def empty_outcome_def changed_result_def unwrap_or_def Let_def
      split: plan_action.splits option.splits prod.splits if_splits)

lemma file_evidence_fields:
  "ev_file_identity (file_evidence file p action classifications runtime outputs) = df_file_identity file"
  "ev_absolute_path (file_evidence file p action classifications runtime outputs) = df_path file"
  "ev_relative_path (file_evidence file p action classifications runtime outputs) = p"
  "ev_extension (file_evidence file p action classifications runtime outputs) = df_extension file"
  by (auto simp: file_evidence_def base_evidence_def Let_def split: plan_action.splits option.splits prod.splits)

text \<open>The two records of a file tell the same story: the evidence given to the context and the
  row given to the store have the same path, status, backend, lane, truncation and error
  whatever happened to the file, except for one internal inconsistency. An admitted file
  without a result whose classification found text is an error in the context, and then the
  row claims a metadata success that the store refuses.\<close>

theorem evidence_and_row_agree:
  "let e = file_evidence file relative_path action classifications runtime outputs;
       r = file_result sha file relative_path action classifications audits outputs runtime rejected_hash
   in if lost_result file action classifications runtime outputs
    then ev_parse_status e = Error \<and> fr_parse_status r = Success \<and> fr_parser_backend r = PDF_METADATA_BACKEND
      \<and> (map_option ca_status (audits (df_file_identity file)) \<noteq> Some NoTextInParseWindow \<longrightarrow>
           \<not> validate_for_persistence False r)
    else (ev_file_identity e, ev_relative_path e, ev_parse_status e, ev_parser_backend e, ev_worker_lane e,
          ev_truncated e, ev_error e) =
         (fr_file_identity r, fr_relative_path r, fr_parse_status r, fr_parser_backend r, fr_worker_lane r,
          fr_truncated r, fr_error r)"
proof (cases "lost_result file action classifications runtime outputs")
  case True
  define e where "e = file_evidence file relative_path action classifications runtime outputs"
  define r where "r = file_result sha file relative_path action classifications audits outputs runtime rejected_hash"
  have refused: "\<not> validate_for_persistence False r"
    if "map_option ca_status (audits (df_file_identity file)) \<noteq> Some NoTextInParseWindow"
    using that row_of_lost_result [OF True]
    by (auto simp: r_def validate_for_persistence_def row_fields empty_outcome_def
        validate_v2_parse_provenance_def is_metadata_route_def PDF_METADATA_BACKEND_def Let_def)
  from True row_of_lost_result [OF True] refused show ?thesis
    unfolding e_def [symmetric] r_def [symmetric] Let_def
    by (simp add: e_def row_fields empty_outcome_def) (simp add: r_def row_fields empty_outcome_def)
next
  case False
  with evidence_row_agree [OF False, of relative_path sha] show ?thesis
    by (simp add: Let_def row_fields file_evidence_fields)
qed

section \<open>Evidence is valid\<close>

definition wf_file :: "discovered_file \<Rightarrow> bool" where
  "wf_file f \<longleftrightarrow> df_file_identity f \<noteq> [] \<and> length (df_file_identity f) \<le> 4096
     \<and> is_absolute_path (df_path f) \<and> is_extension (df_extension f)"

definition wf_parse_result ::
  "(parsed_content_audit \<Rightarrow> nat) \<Rightarrow> discovered_file \<Rightarrow> parse_result \<Rightarrow> bool" where
  "wf_parse_result enc file r \<longleftrightarrow> ps_parser_backend r \<noteq> [] \<and> length (ps_parser_backend r) \<le> 1024
     \<and> ps_parse_status r \<noteq> NotParsed \<and> (ps_parse_status r = Success \<longleftrightarrow> ps_error r = None)
     \<and> (case ps_error r of None \<Rightarrow> True
        | Some d \<Rightarrow> validate_diagnostic d = Ok () \<and> dg_file_path d = Some (df_path file))
     \<and> (case ps_evidence_audit r of None \<Rightarrow> True | Some a \<Rightarrow> validate_content_audit enc a (ps_content r) = Ok ())"

lemma source_changed_valid:
  "wf_file file \<Longrightarrow> validate_diagnostic (source_changed_diagnostic file) = Ok ()"
  by (auto simp: wf_file_def validate_diagnostic_def source_changed_diagnostic_def is_extension_def)

lemma source_changed_wf:
  assumes "wf_file file"
  shows "wf_parse_result enc file (source_version_changed_parse sha file)"
    and "wf_parse_result enc file executed \<Longrightarrow>
           wf_parse_result enc file (source_version_changed_after_parse sha file executed)"
    and "is_source_version_changed_result (source_version_changed_parse sha file)"
    and "is_source_version_changed_result (source_version_changed_after_parse sha file executed)"
  using source_changed_valid [OF assms]
  by (auto simp: wf_parse_result_def source_version_changed_parse_def source_version_changed_after_parse_def
      is_source_version_changed_result_def source_changed_diagnostic_def)

lemma local_errors_valid:
  assumes "wf_file file"
  shows "validate_diagnostic (reject_error file reason) = Ok ()"
    and "validate_diagnostic (classifier_failure_error file status code retryable) = Ok ()"
    and "validate_diagnostic (missing_result_error file) = Ok ()"
  using assms length_reject_reason_text [of reason]
  by (cases reason; cases status;
      auto simp: wf_file_def validate_diagnostic_def classifier_failure_error_def missing_result_error_def)+

lemma classifier_failure_status: "fst (classifier_failure_semantics status c) \<in> {Error, Timeout}"
  by (auto simp: classifier_failure_semantics_def Let_def)

text \<open>C28. The scheduler never builds evidence that the context refuses: for a well-formed file with a
  safe relative path, and a well-formed parse result where there is one, the evidence of every
  branch, deadline and failures included, passes the validation that guards the decisions.\<close>

theorem file_evidence_valid:
  assumes wf: "wf_file file" and path: "is_safe_relative_path relative_path"
    and result: "\<And>r. po_results outputs (df_file_identity file) = Some r \<Longrightarrow> wf_parse_result enc file r"
  shows "validate_evidence enc (file_evidence file relative_path action classifications runtime outputs) = Ok ()"
proof -
  let ?e = "file_evidence file relative_path action classifications runtime outputs"
  have shared: "ev_file_identity ?e = df_file_identity file" "ev_absolute_path ?e = df_path file"
    "ev_relative_path ?e = relative_path" "ev_extension ?e = df_extension file"
    by (rule file_evidence_fields)+
  have backend: "ev_parser_backend ?e \<noteq> [] \<and> length (ev_parser_backend ?e) \<le> 1024"
    using result by (auto simp: file_evidence_def base_evidence_def PDF_METADATA_BACKEND_def wf_parse_result_def Let_def
        split: plan_action.splits option.splits prod.splits dest: changed_result_SomeD)
  have audit: "ev_evidence_audit ?e = Some a \<Longrightarrow> validate_content_audit enc a (ev_content ?e) = Ok ()" for a
    using result by (auto simp: file_evidence_def base_evidence_def wf_parse_result_def Let_def
        split: plan_action.splits option.splits prod.splits if_splits)
  have changed: "\<exists>d. ps_error r = Some d \<and> validate_diagnostic d = Ok () \<and> dg_file_path d = Some (df_path file)"
    if "changed_result outputs file = Some r" for r
    using changed_result_SomeD [OF that] result
    by (auto simp: wf_parse_result_def is_source_version_changed_result_def split: option.splits)
  have status: "status_check (ev_parse_status ?e) (ev_error ?e) (ev_reason ?e) = Ok ()"
  proof (cases "changed_result outputs file")
    case (Some r)
    with changed show ?thesis by (auto simp: file_evidence_def base_evidence_def Let_def)
  next
    case None
    show ?thesis
    proof (cases action)
      case (ClassifierFailed status)
      with None classifier_failure_status [of status "classifications (df_file_identity file)"] show ?thesis
        by (auto simp: file_evidence_def base_evidence_def Let_def split: prod.splits)
    next
      case (Admit route)
      show ?thesis
      proof (cases "po_results outputs (df_file_identity file)")
        case (Some r)
        have "wf_parse_result enc file r" using result [OF Some] .
        with None Admit Some show ?thesis
          by (cases "ps_parse_status r") (auto simp: file_evidence_def base_evidence_def wf_parse_result_def Let_def)
      next
        case none: None
        with None Admit show ?thesis by (simp add: file_evidence_def base_evidence_def Let_def)
      qed
    qed (use None in \<open>simp_all add: file_evidence_def base_evidence_def Let_def\<close>)
  qed
  have error: "validate_diagnostic d = Ok () \<and> dg_file_path d = Some (df_path file)" if "ev_error ?e = Some d" for d
    using that local_errors_valid [OF wf] changed result
    by (auto simp: file_evidence_def base_evidence_def classifier_failure_error_def missing_result_error_def
        wf_parse_result_def Let_def split: plan_action.splits option.splits prod.splits if_splits)
  have "validate_context_decision (validation_probe ?e) = Ok ()"
    using path by (simp add: validate_context_decision_def validation_probe_def shared)
  then show ?thesis using wf backend audit status error shared
    by (auto simp: validate_evidence_def wf_file_def)
qed

text \<open>The note of the fixtures, parsed.\<close>

definition no_outputs :: parse_outputs where
  "no_outputs = \<lparr>po_results = Map.empty, po_runtime_not_parsed = {}, po_parse_cache_receipts = [],
     po_classification_cache_receipts = [], po_parse_profile_hashes = Map.empty,
     po_parse_cache_status = Map.empty, po_parse_cache_miss_reason = Map.empty,
     po_cache_write_warnings = [], po_parse_warnings = [], po_parse_fresh_hits = []\<rparr>"

definition fixture_parsed :: parse_result where
  "fixture_parsed = \<lparr>ps_file_identity = lit ''b'', ps_content = lit ''hello'', ps_evidence_audit = None,
     ps_parser_backend = lit ''light_text_v2'', ps_worker_lane = lit ''rust_core'', ps_truncated = False,
     ps_content_sha256 = replicate 64 48, ps_parse_status = Success, ps_error = None, ps_warnings = [],
     ps_failure_class = [], ps_fallback_backend = [], ps_fallback_reason_code = [],
     ps_parse_transport = PtRustInProcess, ps_parse_attempt_count = 1, ps_primary_duration_ms = 3,
     ps_fallback_duration_ms = 0, ps_parse_duration_ms = 3\<rparr>"

lemma fixture_discovered_wf: "wf_file fixture_discovered"
  by (simp add: wf_file_def fixture_discovered_def is_absolute_path_def is_extension_def lit_def
      is_ascii_upper_def Let_def drive_rooted_def)

lemma fixture_parsed_wf: "wf_parse_result enc fixture_discovered fixture_parsed"
  by (simp add: wf_parse_result_def fixture_parsed_def)

lemma fixture_relative_safe: "is_safe_relative_path (lit ''b.txt'')"
  by (simp add: is_safe_relative_path_def lit_def Let_def path_separator_def is_ascii_alphabetic_def
      is_ascii_lower_def is_ascii_upper_def)

theorem file_evidence_valid_witness:
  "validate_evidence (\<lambda>_. 0) (file_evidence fixture_discovered (lit ''b.txt'') (Admit LightText) Map.empty {}
     (no_outputs\<lparr>po_results := [lit ''b'' \<mapsto> fixture_parsed]\<rparr>)) = Ok ()"
  by (rule file_evidence_valid [OF fixture_discovered_wf fixture_relative_safe])
    (auto simp: no_outputs_def fixture_discovered_def [THEN arg_cong, of df_file_identity] fixture_parsed_wf)

theorem evidence_and_row_agree_witness:
  "let c = \<lparr>cr_file_identity = lit ''b'', cr_status = TextInParseWindow, cr_page_count = Some 1,
         cr_result_examined_pages = Some 1, cr_error_code = None\<rparr>;
       r = file_result id fixture_discovered (lit ''b.pdf'') (Admit Pdf) [lit ''b'' \<mapsto> c] Map.empty no_outputs {} []
   in lost_result fixture_discovered (Admit Pdf) [lit ''b'' \<mapsto> c] {} no_outputs \<and> \<not> validate_for_persistence False r"
proof -
  let ?c = "\<lparr>cr_file_identity = lit ''b'', cr_status = TextInParseWindow, cr_page_count = Some 1,
         cr_result_examined_pages = Some 1, cr_error_code = None\<rparr>"
  have "lost_result fixture_discovered (Admit Pdf) [lit ''b'' \<mapsto> ?c] {} no_outputs"
    by (simp add: lost_result_def no_outputs_def fixture_discovered_def)
  with evidence_and_row_agree [of fixture_discovered "lit ''b.pdf''" "Admit Pdf" "[lit ''b'' \<mapsto> ?c]" "{}" no_outputs
      id Map.empty "[]"]
  show ?thesis by (simp add: Let_def)
qed

section \<open>Reserved error lines\<close>

lemma parse_error_separator:
  "lit '' | reason=parse_error | error='' = lit '' | reason='' @ lit ''parse_error'' @ lit '' | error=''"
  by (simp add: lit_def)

text \<open>The line reserved for a PDF the classifier could not read is the line the document will
  carry for it: same reason, same error code, only the path may differ. The exception is a PDF
  whose source changed: its reservation says \<open>PARSER_FAILED\<close>, the document says
  \<open>SOURCE_VERSION_CHANGED\<close>, nine characters more.\<close>

theorem reserved_error_line_matches:
  assumes "cl_pdf_classification plan = Classify pages" and "cl_file_identity plan = df_file_identity file"
    and "df_file_identity file \<notin> runtime" and "classifications (df_file_identity file) = Some c"
    and "cr_status c \<in> {ClassUnknown, ClassError}" and "changed_result outputs file = None"
  shows "let e = file_evidence file relative_path (ClassifierFailed (cr_status c)) classifications runtime outputs;
      line = (\<lambda>path code. lit ''- '' @ path @ lit '' | reason='' @ lit ''parse_error'' @ lit '' | error='' @ code)
    in \<exists>g. ev_error e = Some g \<and> error_line e (de_decision (decide_file uni profile e)) =
          line relative_path (error_code_text (dg_error_code g))
      \<and> classifier_error_line plan classifications runtime =
          Some (line (cl_relative_path plan)
            (if cr_error_code c = Some (lit ''SOURCE_VERSION_CHANGED'') then lit ''PARSER_FAILED''
             else error_code_text (dg_error_code g)))
      \<and> (cr_error_code c = Some (lit ''SOURCE_VERSION_CHANGED'') \<longrightarrow>
           length (error_code_text (dg_error_code g)) = length (lit ''PARSER_FAILED'') + 9)"
  using assms
  by (auto simp: Let_def file_evidence_def base_evidence_def classifier_failure_semantics_def
      classifier_failure_error_def classifier_error_line_def error_line_def action_and_reason_def
      parse_error_separator)

text \<open>A protected PDF.\<close>

theorem reserved_error_line_matches_witness:
  "\<exists>code. classifier_error_line
     \<lparr>cl_file_identity = lit ''b'', cl_relative_path = lit ''/w/b.txt'', cl_extension = lit ''.pdf'', cl_priority = 0,
      cl_action = Admit Pdf, cl_pdf_classification = Classify 5\<rparr>
     [lit ''b'' \<mapsto> \<lparr>cr_file_identity = lit ''b'', cr_status = ClassError, cr_page_count = None,
        cr_result_examined_pages = None, cr_error_code = Some (lit ''PDF_PROTECTED'')\<rparr>] {} =
     Some (lit ''- '' @ lit ''/w/b.txt'' @ lit '' | reason='' @ lit ''parse_error'' @ lit '' | error='' @ code)"
proof -
  let ?plan = "\<lparr>cl_file_identity = lit ''b'', cl_relative_path = lit ''/w/b.txt'', cl_extension = lit ''.pdf'',
      cl_priority = 0, cl_action = Admit Pdf, cl_pdf_classification = Classify 5\<rparr>"
  let ?c = "\<lparr>cr_file_identity = lit ''b'', cr_status = ClassError, cr_page_count = None,
      cr_result_examined_pages = None, cr_error_code = Some (lit ''PDF_PROTECTED'')\<rparr>"
  have "changed_result no_outputs fixture_discovered = None" "df_file_identity fixture_discovered = lit ''b''"
    by (simp_all add: changed_result_def no_outputs_def fixture_discovered_def)
  with reserved_error_line_matches [of ?plan 5 fixture_discovered "{}" "[lit ''b'' \<mapsto> ?c]" ?c no_outputs
      "lit ''b.txt''" id "ns_context daily_settings"]
  show ?thesis by (auto simp: Let_def)
qed

end
