(* ===== verification/Context_Budget.thy ===== *)
theory Context_Budget
  imports Compressor
begin

text \<open>
  The context pipeline against the budget: what a finished document contains, and that files
  whose sections fit what was reserved for them can never make the pipeline fail.
\<close>

section \<open>A finished document\<close>

lemma status_partition:
  "status_count Success ds + status_count Timeout ds + status_count Error ds + status_count NotParsed ds = length ds"
proof (induction ds)
  case (Cons d ds)
  then show ?case by (cases "ev_parse_status (de_evidence d)") (simp_all add: status_count_def)
qed (simp add: status_count_def)

lemma decided_action_status:
  "cd_action (de_decision (decide_file uni profile e)) \<notin> {Omit, ActionError} \<longleftrightarrow> ev_parse_status e = Success"
  "cd_action (de_decision (decide_file uni profile e)) = Omit \<longleftrightarrow> ev_parse_status e = NotParsed"
  "cd_action (de_decision (decide_file uni profile e)) = ActionError \<longleftrightarrow> ev_parse_status e \<in> {Error, Timeout}"
  by (cases "ev_parse_status e"; simp add: action_and_reason_def)+

lemma decided_filter_status:
  assumes "decide_files uni enc evidence profile = Ok decided"
  shows "filter (\<lambda>i. cd_action (de_decision i) \<notin> {Omit, ActionError}) decided =
      filter (\<lambda>i. ev_parse_status (de_evidence i) = Success) decided"
    and "filter (\<lambda>i. cd_action (de_decision i) = Omit) decided =
      filter (\<lambda>i. ev_parse_status (de_evidence i) = NotParsed) decided"
  by (rule filter_cong [OF refl], drule decided_of_evidence [OF assms],
      metis decided_action_status de_evidence_decide)+

lemma finish_sections_Ok:
  assumes "finish_sections profile plan s = Ok content"
  shows "length content \<le> cp_global_max_chars profile" and "content \<noteq> []"
  using assms by (auto simp: finish_sections_def Let_def count_chars_def not_less split: if_splits)

lemma build_context_Ok:
  assumes "build_context uni enc evidence profile mode = Ok out"
  obtains decided s where "decide_files uni enc evidence profile = Ok decided"
    and "build_loop profile (OmittedSummaryPlan_build uni (map omitted_candidate_of decided) (cp_global_max_chars profile))
      decided (initial_state (head_sections profile mode (length decided) (status_count Success decided)
        (saturating_add (status_count Timeout decided) (status_count Error decided)))) = Ok s"
    and "finish_sections profile (OmittedSummaryPlan_build uni (map omitted_candidate_of decided) (cp_global_max_chars profile)) s
      = Ok (co_content out)"
    and "co_source_file_count out = length decided" and "co_success_count out = status_count Success decided"
    and "co_timeout_count out = status_count Timeout decided" and "co_error_file_count out = status_count Error decided"
    and "co_omitted_file_count out = length decided - status_count Success decided - status_count Timeout decided - status_count Error decided"
    and "co_included_file_count out = bs_included s" and "co_decisions out = bs_decisions s"
    and "co_output_chars out = length (co_content out)"
  using assms
  by (auto simp: build_context_def Let_def count_chars_def bind_eq_Some_conv)

section \<open>The weight of a document\<close>

text \<open>Characters of the sections with a separator after each.\<close>

abbreviation weight :: "rstring list \<Rightarrow> nat" where
  "weight ss \<equiv> chars_of ss + 2 * length ss"

abbreviation rendered_section :: "context_profile \<Rightarrow> decided_file \<Rightarrow> rstring" where
  "rendered_section profile item \<equiv> fst (render_file_section profile (de_evidence item) (de_decision item))"

abbreviation has_section :: "decided_file \<Rightarrow> bool" where
  "has_section item \<equiv> cd_action (de_decision item) \<notin> {Omit, ActionError}"

lemma length_join_sections_weight: "ss \<noteq> [] \<Longrightarrow> length (join_sections ss) + 1 \<le> weight ss"
  using length_join_sections [of ss] by (cases ss) auto

lemma can_append_by_weight:
  "weight ss + length candidate + 21 \<le> budget \<Longrightarrow> can_append_with_footer ss candidate budget"
  using length_join_sections_weight [of "ss @ [candidate, PARSE_FOOTER]"]
  by (simp add: can_append_with_footer_def count_chars_def length_PARSE_FOOTER)

lemma build_step_section:
  assumes "has_section item"
    and "can_append_with_footer (bs_sections s) (rendered_section profile item) (cp_global_max_chars profile)"
  shows "\<exists>s'. build_step profile plan item s = Ok s'
    \<and> bs_sections s' = bs_sections s @ [rendered_section profile item] \<and> bs_omitted s' = bs_omitted s"
  using assms
  by (cases "cd_action (de_decision item)") (auto simp: build_step_def Let_def split: prod.splits)

lemma build_step_no_section:
  assumes "\<not> has_section item"
  shows "\<exists>s'. build_step profile plan item s = Ok s' \<and> bs_sections s' = bs_sections s
    \<and> bs_omitted s' = bs_omitted s @ (if cd_action (de_decision item) = Omit then [omitted_row_of plan item] else [])"
  using assms by (auto simp: build_step_def Let_def)

lemma build_loop_total:
  assumes "weight (bs_sections s) + sum_list (map (\<lambda>i. length (rendered_section profile i) + 2) (filter has_section items)) + 19
    \<le> cp_global_max_chars profile"
  shows "\<exists>s'. build_loop profile plan items s = Ok s'
    \<and> bs_sections s' = bs_sections s @ map (rendered_section profile) (filter has_section items)
    \<and> bs_omitted s' = bs_omitted s @ map (omitted_row_of plan) (filter (\<lambda>i. cd_action (de_decision i) = Omit) items)"
  using assms
proof (induction items arbitrary: s)
  case (Cons item items)
  show ?case
  proof (cases "has_section item")
    case True
    then have "can_append_with_footer (bs_sections s) (rendered_section profile item) (cp_global_max_chars profile)"
      using Cons.prems by (intro can_append_by_weight) simp
    from build_step_section [OF True this] obtain s1 where s1: "build_step profile plan item s = Ok s1"
      "bs_sections s1 = bs_sections s @ [rendered_section profile item]" "bs_omitted s1 = bs_omitted s" by blast
    have "weight (bs_sections s1) + sum_list (map (\<lambda>i. length (rendered_section profile i) + 2) (filter has_section items)) + 19
        \<le> cp_global_max_chars profile" using Cons.prems True s1(2) by simp
    from Cons.IH [OF this] True s1 show ?thesis by auto
  next
    case False
    from build_step_no_section [OF this, of profile plan s] obtain s1 where s1: "build_step profile plan item s = Ok s1"
      "bs_sections s1 = bs_sections s"
      "bs_omitted s1 = bs_omitted s @ (if cd_action (de_decision item) = Omit then [omitted_row_of plan item] else [])" by blast
    have "weight (bs_sections s1) + sum_list (map (\<lambda>i. length (rendered_section profile i) + 2) (filter has_section items)) + 19
        \<le> cp_global_max_chars profile" using Cons.prems False s1(2) by (simp only: filter.simps if_False)
    from Cons.IH [OF this] False s1 show ?thesis by auto
  qed
qed simp

section \<open>The omitted summary stays inside its reservation\<close>

abbreviation line_cost :: "rstring \<Rightarrow> nat" where
  "line_cost line \<equiv> length line + 1"

lemma detail_rows_total:
  assumes "r < u64_max"
    and "used + sum_list (map (\<lambda>row. line_cost (detail_line row)) (filter or_in_detail_slot rows)) \<le> r"
  shows "detail_rows r rows (lines, used) = Ok (lines @ map detail_line (filter or_in_detail_slot rows),
     used + sum_list (map (\<lambda>row. line_cost (detail_line row)) (filter or_in_detail_slot rows)))"
  using assms(2)
proof (induction rows arbitrary: lines used)
  case (Cons row rows)
  then have "used + line_cost (detail_line row) \<le> r" if "or_in_detail_slot row" using that by simp
  with Cons assms(1) show ?case
    by (auto simp: count_chars_def saturating_add_def Let_def)
qed simp

definition lines_used :: "rstring list \<Rightarrow> nat" where
  "lines_used lines = length (join [nl] lines) + 2"

lemma lines_used_snoc: "lines \<noteq> [] \<Longrightarrow> lines_used (lines @ [line]) = lines_used lines + line_cost line"
  by (simp add: lines_used_def join_snoc)

lemma lines_used_append:
  "lines \<noteq> [] \<Longrightarrow> lines_used (lines @ ls) = lines_used lines + sum_list (map line_cost ls)"
proof (induction ls arbitrary: lines)
  case (Cons line ls)
  then show ?case using Cons.IH [of "lines @ [line]"] by (simp add: lines_used_snoc)
qed simp

lemma group_rows_within:
  assumes "r < u64_max" and "lines \<noteq> []" and "lines_used lines \<le> r"
    and "group_rows r gs (lines, lines_used lines, n) = (lines', used', n')"
  shows "lines' \<noteq> [] \<and> used' = lines_used lines' \<and> lines_used lines' \<le> r"
  using assms(2-4)
proof (induction gs arbitrary: lines n)
  case (Cons g gs)
  show ?case
  proof (cases "saturating_add (lines_used lines) (line_cost (group_line g)) \<le> r")
    case True
    then have fits: "lines_used lines + line_cost (group_line g) \<le> r"
      using assms(1) by (simp add: saturating_add_le_iff)
    then have "saturating_add (lines_used lines) (line_cost (group_line g)) = lines_used (lines @ [group_line g])"
      using Cons.prems(1) assms(1) by (simp add: saturating_add_def lines_used_snoc)
    with Cons True fits show ?thesis
      by (intro Cons.IH [of "lines @ [group_line g]" n]) (simp_all add: lines_used_snoc count_chars_def Let_def)
  next
    case False
    with Cons show ?thesis
      by (intro Cons.IH [of lines "saturating_add n (snd g)"]) (simp_all add: count_chars_def Let_def)
  qed
qed auto

definition catch_all_error :: rstring where
  "catch_all_error = budget_model_mismatch (lit ''mandatory omitted catch-all exceeds its reservation'')"

lemma omitted_lines_within:
  assumes r: "r < u64_max"
    and d: "lines_used (omitted_head_lines (length rows))
      + sum_list (map (\<lambda>row. line_cost (detail_line row)) (filter or_in_detail_slot rows)) \<le> r"
  shows "omitted_lines rows r = Err catch_all_error
    \<or> (\<exists>lines. omitted_lines rows r = Ok lines \<and> lines_used lines \<le> r)"
proof -
  let ?head = "omitted_head_lines (length rows)"
  let ?lines = "?head @ map detail_line (filter or_in_detail_slot rows)"
  have head: "?head \<noteq> []" by (simp add: omitted_head_lines_def)
  have used: "lines_used ?lines = lines_used ?head
      + sum_list (map (\<lambda>row. line_cost (detail_line row)) (filter or_in_detail_slot rows))"
    using lines_used_append [OF head] by (simp add: comp_def)
  have det: "detail_rows r rows (?head, lines_used ?head) = Ok (?lines, lines_used ?lines)"
    unfolding used by (rule detail_rows_total [OF r d])
  obtain lines' used' n' where g: "group_rows r (omitted_groups rows) (?lines, lines_used ?lines, 0) = (lines', used', n')"
    by (metis prod_cases3)
  have within: "lines' \<noteq> [] \<and> used' = lines_used lines' \<and> lines_used lines' \<le> r"
    using group_rows_within [OF r _ _ g] d head used by simp
  have "omitted_lines rows r =
      (if 0 < n' then if saturating_add used' (line_cost (other_line n')) \<le> r then Ok (lines' @ [other_line n'])
        else Err catch_all_error else Ok lines')"
    using det g by (simp add: omitted_lines_def Let_def count_chars_def lines_used_def
        SECTION_SEPARATOR_CHARS_def catch_all_error_def)
  then show ?thesis
    using within r by (auto simp: lines_used_snoc saturating_add_le_iff)
qed


text \<open>The rows that have a slot are among the pre-selected ones, so they cost no more than the
  slots do.\<close>

abbreviation omitted_plan_for ::
  "(rstring \<Rightarrow> rstring) \<Rightarrow> context_profile \<Rightarrow> decided_file list \<Rightarrow> omitted_summary_plan" where
  "omitted_plan_for uni profile decided \<equiv>
     OmittedSummaryPlan_build uni (map omitted_candidate_of decided) (cp_global_max_chars profile)"

lemma filter_prefix_ids:
  assumes "distinct (map f (xs @ ys))"
  shows "filter (\<lambda>x. f x \<in> f ` set xs) (xs @ ys) = xs"
proof -
  have "filter (\<lambda>x. f x \<in> f ` set xs) ys = []" using assms by (auto simp: filter_empty_conv)
  moreover have "filter (\<lambda>x. f x \<in> f ` set xs) xs = xs" by (auto simp: filter_id_conv)
  ultimately show ?thesis by simp
qed

lemma slots_of_plan:
  assumes "distinct (map oc_file_identity cands)"
  shows "mset (filter (\<lambda>c. oc_file_identity c \<in> oc_file_identity ` set (os_detail_slots (OmittedSummaryPlan_build uni cands g))) cands)
    = mset (os_detail_slots (OmittedSummaryPlan_build uni cands g))"
proof -
  let ?ordered = "sort_key (omitted_key uni) cands"
  let ?slots = "os_detail_slots (OmittedSummaryPlan_build uni cands g)"
  obtain rest where rest: "?ordered = ?slots @ rest"
    using select_slots_prefix [of "omitted_summary_reservation g" omitted_summary_fixed_chars ?ordered]
    by (auto simp: OmittedSummaryPlan_build_def Let_def prefix_def)
  have "distinct (map oc_file_identity ?ordered)"
    using assms by (metis mset_map mset_sort mset_eq_imp_distinct_iff)
  then have "filter (\<lambda>c. oc_file_identity c \<in> oc_file_identity ` set ?slots) ?ordered = ?slots"
    unfolding rest by (rule filter_prefix_ids)
  then have "mset (filter (\<lambda>c. oc_file_identity c \<in> oc_file_identity ` set ?slots) ?ordered) = mset ?slots" by simp
  then show ?thesis by (simp add: mset_filter)
qed

lemma slots_cost:
  assumes "90 \<le> omitted_summary_reservation g" and "omitted_summary_reservation g < u64_max"
  shows "90 + sum_list (map omitted_row_cost (os_detail_slots (OmittedSummaryPlan_build uni cands g)))
    \<le> omitted_summary_reservation g"
  using select_slots_cost [of "omitted_summary_reservation g" 90] assms
  by (simp add: OmittedSummaryPlan_build_def Let_def omitted_summary_fixed_chars_value)

lemma length_detail_line:
  assumes "length (or_reason row) \<le> 64" and "or_input_chars row \<le> u64_max"
  shows "line_cost (detail_line row) \<le> max_omitted_row_chars (or_relative_path row) + 1"
  using assms(1) length_dec_u64 [OF assms(2)]
  by (simp add: detail_line_def max_omitted_row_chars_def count_chars_def budget_consts)

lemma sum_list_filter_le: "sum_list (map (f :: 'a \<Rightarrow> nat) (filter P (filter Q xs))) \<le> sum_list (map f (filter P xs))"
  by (induction xs) auto

lemma detail_rows_cost:
  assumes dec: "decide_files uni enc evidence profile = Ok decided"
    and ids: "distinct (map ev_file_identity evidence)"
    and bounded: "\<forall>e \<in> set evidence. bounded_evidence e"
    and plan: "plan = omitted_plan_for uni profile decided"
  shows "sum_list (map (\<lambda>row. line_cost (detail_line row)) (filter or_in_detail_slot
      (map (omitted_row_of plan) (filter (\<lambda>i. cd_action (de_decision i) = Omit) decided))))
    \<le> sum_list (map omitted_row_cost (os_detail_slots plan))"
proof -
  let ?slot = "\<lambda>i. or_in_detail_slot (omitted_row_of plan i)"
  let ?cost = "\<lambda>i. omitted_row_cost (omitted_candidate_of i)"
  let ?cands = "map omitted_candidate_of decided"
  have slot: "?slot i \<longleftrightarrow> oc_file_identity (omitted_candidate_of i) \<in> oc_file_identity ` set (os_detail_slots plan)" for i
    by (auto simp: omitted_row_of_def omitted_candidate_of_def list_ex_iff image_iff eq_commute)
  have line: "line_cost (detail_line (omitted_row_of plan i)) \<le> ?cost i" if "i \<in> set decided" for i
  proof -
    from decided_of_evidence [OF dec that] obtain e where e: "e \<in> set evidence" "i = decide_file uni profile e" by blast
    then have "length (cd_reason (de_decision i)) \<le> 64" "cd_input_chars (de_decision i) \<le> u64_max"
      using bounded length_action_reason decided_input_chars by auto
    then show ?thesis using length_detail_line [of "omitted_row_of plan i"] e(2)
      by (simp add: omitted_row_of_def omitted_candidate_of_def omitted_row_cost_def)
  qed
  have "sum_list (map (\<lambda>row. line_cost (detail_line row)) (filter or_in_detail_slot
      (map (omitted_row_of plan) (filter (\<lambda>i. cd_action (de_decision i) = Omit) decided))))
    = sum_list (map (\<lambda>i. line_cost (detail_line (omitted_row_of plan i)))
        (filter ?slot (filter (\<lambda>i. cd_action (de_decision i) = Omit) decided)))"
    by (simp add: filter_map comp_def)
  also have "\<dots> \<le> sum_list (map ?cost (filter ?slot (filter (\<lambda>i. cd_action (de_decision i) = Omit) decided)))"
    using line by (intro sum_list_mono) auto
  also have "\<dots> \<le> sum_list (map ?cost (filter ?slot decided))" by (rule sum_list_filter_le)
  also have "\<dots> = sum_list (map omitted_row_cost
      (filter (\<lambda>c. oc_file_identity c \<in> oc_file_identity ` set (os_detail_slots plan)) ?cands))"
    by (simp add: slot filter_map comp_def)
  also have "\<dots> = sum_list (map omitted_row_cost (os_detail_slots plan))"
  proof (rule sum_list_mset_cong)
    have "mset (map oc_file_identity ?cands) = mset (map ev_file_identity evidence)"
      using dec by (simp add: decide_files_Ok omitted_candidate_of_def multiset.map_comp comp_def)
    then have "distinct (map oc_file_identity ?cands)" using ids by (metis mset_eq_imp_distinct_iff)
    then show "mset (filter (\<lambda>c. oc_file_identity c \<in> oc_file_identity ` set (os_detail_slots plan)) ?cands)
        = mset (os_detail_slots plan)"
      unfolding plan by (rule slots_of_plan)
  qed
  finally show ?thesis .
qed

lemma lines_used_head:
  "n \<le> u64_max \<Longrightarrow> lines_used (omitted_head_lines n) \<le> 90"
  using length_dec_u64 [of n]
  by (simp add: lines_used_def omitted_head_lines_def omitted_title_def omitted_count_label_def)


section \<open>The pipeline cannot fail on admitted files\<close>

text \<open>The sum of the rendered sections with their separators is what the plan reserved.\<close>

definition sections_reserved ::
  "(rstring \<Rightarrow> rstring) \<Rightarrow> context_profile \<Rightarrow> context_file_evidence list \<Rightarrow> nat" where
  "sections_reserved uni profile evidence =
     sum_list (map (\<lambda>e. length (fst (render_file_section profile e (de_decision (decide_file uni profile e)))) + 2)
       (filter (\<lambda>e. ev_parse_status e = Success) evidence))"

lemma sections_reserved_decided:
  assumes "decide_files uni enc evidence profile = Ok decided"
  shows "sum_list (map (\<lambda>i. length (rendered_section profile i) + 2) (filter has_section decided))
    = sections_reserved uni profile evidence"
proof -
  let ?f = "\<lambda>i. length (rendered_section profile i) + 2"
  have "sum_list (map ?f (filter has_section decided)) =
      sum_list (map ?f (filter (\<lambda>i. ev_parse_status (de_evidence i) = Success) decided))"
    using decided_filter_status(1) [OF assms] by simp
  also have "\<dots> = sum_list (map ?f (filter (\<lambda>i. ev_parse_status (de_evidence i) = Success)
      (map (decide_file uni profile) evidence)))"
    using assms by (intro sum_list_mset_cong) (simp add: decide_files_Ok mset_filter)
  also have "\<dots> = sections_reserved uni profile evidence"
    by (simp add: sections_reserved_def filter_map comp_def)
  finally show ?thesis .
qed

lemma sum_input_chars_total:
  "acc + sum_list (map (\<lambda>i. cd_input_chars (de_decision i)) items) \<le> u64_max \<Longrightarrow>
     sum_input_chars acc items = Ok (acc + sum_list (map (\<lambda>i. cd_input_chars (de_decision i)) items))"
  by (induction items arbitrary: acc) (auto simp: ok_or_def checked_add_def)

lemma append_if_fits_weight: "weight (append_if_fits ss c b) \<le> weight ss + length c + 2"
  by (simp add: append_if_fits_def)

lemma append_if_fits_content:
  "ss \<noteq> [] \<Longrightarrow> weight ss \<le> b + 1 \<Longrightarrow> length (join_sections (append_if_fits ss c b)) \<le> b"
  using length_join_sections_weight [of ss] by (auto simp: append_if_fits_def count_chars_def)

lemma join_sections_nonempty: "join_sections ss \<noteq> []"
  by (simp add: join_sections_def)

text \<open>The tail of the pipeline, given room for the placeholder, the summary and the footer.\<close>

lemma finish_sections_total:
  assumes room: "weight (bs_sections s) + 7 + os_reservation plan + 19 \<le> cp_global_max_chars profile"
    and ne: "bs_sections s \<noteq> []"
    and lines: "bs_omitted s \<noteq> [] \<Longrightarrow> omitted_lines (bs_omitted s) (os_reservation plan) = Err catch_all_error
      \<or> (\<exists>ls. omitted_lines (bs_omitted s) (os_reservation plan) = Ok ls \<and> lines_used ls \<le> os_reservation plan)"
  shows "bs_omitted s \<noteq> [] \<and> finish_sections profile plan s = Err catch_all_error
    \<or> (\<exists>c. finish_sections profile plan s = Ok c)"
proof -
  let ?b = "cp_global_max_chars profile"
  let ?ss = "if bs_included s = 0 then append_if_fits (bs_sections s) no_evidence_text ?b else bs_sections s"
  have w: "weight ?ss \<le> weight (bs_sections s) + 7"
    using append_if_fits_weight [of "bs_sections s" no_evidence_text ?b] by (simp add: length_no_evidence_text)
  have ne': "?ss \<noteq> []" using ne by (simp add: append_if_fits_def)
  have app: "bs_omitted s \<noteq> [] \<and> append_omitted_summary ?ss (bs_omitted s) plan ?b = Err catch_all_error
    \<or> (\<exists>ss. append_omitted_summary ?ss (bs_omitted s) plan ?b = Ok ss \<and> ss \<noteq> [] \<and> weight ss \<le> ?b + 1)"
  proof (cases "bs_omitted s = []")
    case True
    then show ?thesis using w ne' room by (simp add: append_omitted_summary_def)
  next
    case False
    then consider "omitted_lines (bs_omitted s) (os_reservation plan) = Err catch_all_error"
      | ls where "omitted_lines (bs_omitted s) (os_reservation plan) = Ok ls" "lines_used ls \<le> os_reservation plan"
      using lines by blast
    then show ?thesis
    proof cases
      case 1
      with False show ?thesis by (simp add: append_omitted_summary_def)
    next
      case 2
      let ?section = "join [nl] ls"
      have len: "length ?section + 2 \<le> os_reservation plan" using 2(2) by (simp add: lines_used_def)
      have "can_append_with_footer ?ss ?section ?b"
        using w len room by (intro can_append_by_weight) linarith
      moreover have "weight (?ss @ [?section]) \<le> ?b + 1" using w len room by simp
      ultimately show ?thesis
        using False 2(1) len by (auto simp: append_omitted_summary_def count_chars_def)
    qed
  qed
  then show ?thesis
  proof (elim disjE exE conjE)
    fix ss assume ss: "append_omitted_summary ?ss (bs_omitted s) plan ?b = Ok ss" "ss \<noteq> []" "weight ss \<le> ?b + 1"
    have "length (join_sections (append_parse_issues ss (bs_parse_issues s) ?b)) \<le> ?b"
      unfolding append_parse_issues_def using ss(2,3) by (rule append_if_fits_content)
    with ss(1) show ?thesis
      by (auto simp: finish_sections_def Let_def count_chars_def join_sections_nonempty)
  qed (simp add: finish_sections_def Let_def)
qed


lemma reservation_at_least: "450 \<le> g \<Longrightarrow> g < u64_max \<Longrightarrow>
    90 \<le> omitted_summary_reservation g \<and> omitted_summary_reservation g < u64_max"
  by (auto simp: omitted_summary_reservation_def saturating_mul_def budget_consts u64_max_def)

lemma head_weight:
  assumes "ContextBudgetModel_new profile (fixed_context_sections profile mode n) = Ok m"
    and "success_count < 10 ^ 7" and "failure_count < 10 ^ 7"
  shows "weight (head_sections profile mode n success_count failure_count) + 26
    + omitted_summary_reservation (cp_global_max_chars profile) \<le> bm_base_chars m"
  using head_sections_slack [OF assms(2,3), of profile mode n] ContextBudgetModel_new_Ok(1) [OF assms(1)]
  by (simp add: fixed_exact_chars_def count_chars_def [abs_def] fixed_context_sections_def SECTION_SEPARATOR_CHARS_def)

lemma not_parsed_count:
  "Option.bind (checked_sub (length ds) (status_count Success ds)) (\<lambda>v.
     Option.bind (checked_sub v (status_count Timeout ds)) (\<lambda>v. checked_sub v (status_count Error ds)))
   = Some (status_count NotParsed ds)"
  using status_partition [of ds] by (simp add: checked_sub_def) linarith

lemma failure_count_le: "saturating_add (status_count Timeout ds) (status_count Error ds) \<le> length ds"
  using saturating_add_le_sum [of "status_count Timeout ds" "status_count Error ds"] status_partition [of ds]
  by linarith

lemma input_total:
  assumes "decide_files uni enc evidence profile = Ok decided"
    and "sum_list (map (\<lambda>e. cd_input_chars (de_decision (decide_file uni profile e))) evidence) \<le> u64_max"
  shows "\<exists>n. sum_input_chars 0 decided = Ok n"
proof -
  have "sum_list (map (\<lambda>i. cd_input_chars (de_decision i)) decided) \<le> u64_max"
    using assms(2) sum_list_mset_cong [of decided "map (decide_file uni profile) evidence" "\<lambda>i. cd_input_chars (de_decision i)"] assms(1)
    by (simp add: decide_files_Ok comp_def)
  then show ?thesis using sum_input_chars_total [of 0 decided] by auto
qed

lemma omitted_rows_ready:
  assumes dec: "decide_files uni enc evidence profile = Ok decided"
    and ids: "distinct (map ev_file_identity evidence)"
    and bounded: "\<forall>e \<in> set evidence. bounded_evidence e"
    and limits: "450 \<le> cp_global_max_chars profile" "cp_global_max_chars profile < u64_max" "length evidence < 10 ^ 7"
    and plan: "plan = omitted_plan_for uni profile decided"
    and rows: "rows = map (omitted_row_of plan) (filter (\<lambda>i. cd_action (de_decision i) = Omit) decided)"
  shows "omitted_lines rows (os_reservation plan) = Err catch_all_error
    \<or> (\<exists>ls. omitted_lines rows (os_reservation plan) = Ok ls \<and> lines_used ls \<le> os_reservation plan)"
proof -
  let ?r = "omitted_summary_reservation (cp_global_max_chars profile)"
  have r: "90 \<le> ?r" "?r < u64_max" using reservation_at_least limits by auto
  have "length rows \<le> length decided" by (simp add: rows)
  moreover have "length decided = length evidence" using dec by (simp add: decide_files_Ok)
  ultimately have len: "length rows \<le> u64_max" using limits(3) by (simp add: u64_max_def)
  have "lines_used (omitted_head_lines (length rows))
      + sum_list (map (\<lambda>row. line_cost (detail_line row)) (filter or_in_detail_slot rows)) \<le> ?r"
    using lines_used_head [OF len] slots_cost [OF r, of uni "map omitted_candidate_of decided"]
      detail_rows_cost [OF dec ids bounded plan] unfolding rows plan by linarith
  from omitted_lines_within [OF r(2) this] show ?thesis
    by (simp add: plan OmittedSummaryPlan_build_def Let_def)
qed

lemma omitted_rows_not_parsed:
  assumes "decide_files uni enc evidence profile = Ok decided"
    and "filter (\<lambda>i. cd_action (de_decision i) = Omit) decided \<noteq> []"
  shows "\<exists>e \<in> set evidence. ev_parse_status e = NotParsed"
proof -
  from assms(2) obtain d where "d \<in> set decided" and "cd_action (de_decision d) = Omit"
    by (auto simp: filter_empty_conv)
  then show ?thesis using decided_of_evidence [OF assms(1)] by (metis decided_action_status(2))
qed

lemma build_context_total:
  assumes model: "ContextBudgetModel_new profile (fixed_context_sections profile mode (length evidence)) = Ok m"
    and limits: "450 \<le> cp_global_max_chars profile" "cp_global_max_chars profile < u64_max" "length evidence < 10 ^ 7"
    and valid: "\<forall>e \<in> set evidence. validate_evidence enc e = Ok ()"
    and bounded: "\<forall>e \<in> set evidence. bounded_evidence e"
    and ids: "distinct (map ev_file_identity evidence)"
    and input: "sum_list (map (\<lambda>e. cd_input_chars (de_decision (decide_file uni profile e))) evidence) \<le> u64_max"
    and reserved: "bm_base_chars m + sections_reserved uni profile evidence \<le> cp_global_max_chars profile"
  shows "(\<exists>out. build_context uni enc evidence profile mode = Ok out)
    \<or> (\<exists>e \<in> set evidence. ev_parse_status e = NotParsed) \<and> build_context uni enc evidence profile mode = Err catch_all_error"
proof -
  obtain decided where dec: "decide_files uni enc evidence profile = Ok decided"
    using valid by (auto simp: decide_files_Ok)
  define plan where "plan = omitted_plan_for uni profile decided"
  let ?head = "head_sections profile mode (length decided) (status_count Success decided)
    (saturating_add (status_count Timeout decided) (status_count Error decided))"
  have len: "length decided = length evidence" using dec by (simp add: decide_files_Ok)
  have head: "weight ?head + 26 + os_reservation plan \<le> bm_base_chars m"
    using head_weight [OF model, of "status_count Success decided"] failure_count_le [of decided]
      status_partition [of decided] len limits(3)
    by (simp add: plan_def OmittedSummaryPlan_build_def Let_def)
  have sum: "sum_list (map (\<lambda>i. length (rendered_section profile i) + 2) (filter has_section decided))
      = sections_reserved uni profile evidence" by (rule sections_reserved_decided [OF dec])
  have "weight (bs_sections (initial_state ?head)) + sum_list (map (\<lambda>i. length (rendered_section profile i) + 2) (filter has_section decided)) + 19
      \<le> cp_global_max_chars profile"
    using head reserved unfolding sum by (simp add: initial_state_def)
  from build_loop_total [OF this, of plan] obtain s where loop: "build_loop profile plan decided (initial_state ?head) = Ok s"
    and secs: "bs_sections s = ?head @ map (rendered_section profile) (filter has_section decided)"
    and om: "bs_omitted s = map (omitted_row_of plan) (filter (\<lambda>i. cd_action (de_decision i) = Omit) decided)"
    by (auto simp: initial_state_def)
  have "weight (bs_sections s) = weight ?head + sections_reserved uni profile evidence"
    unfolding secs sum [symmetric] by (simp add: comp_def sum_list_Suc)
  then have room: "weight (bs_sections s) + 7 + os_reservation plan + 19 \<le> cp_global_max_chars profile"
    using head reserved by simp
  have "bs_omitted s \<noteq> [] \<and> finish_sections profile plan s = Err catch_all_error
      \<or> (\<exists>c. finish_sections profile plan s = Ok c)"
    using omitted_rows_ready [OF dec ids bounded limits plan_def om]
    by (intro finish_sections_total [OF room]) (simp_all add: secs head_sections_def)
  moreover have "\<exists>e \<in> set evidence. ev_parse_status e = NotParsed" if "bs_omitted s \<noteq> []"
    using omitted_rows_not_parsed [OF dec] that unfolding om by blast
  ultimately show ?thesis
    using dec input_total [OF dec input] loop unfolding build_context_def Let_def
    by (auto simp: not_parsed_count ok_or_def plan_def [symmetric])
qed


section \<open>Admission and rendering together\<close>

text \<open>The evidence of a run, aligned with the plan: each file keeps its identity, and a success
  comes from an admitted file and stays within what its route may return.\<close>

definition evidence_matches ::
  "normalized_settings \<Rightarrow> classified_plan \<times> admission_decision \<Rightarrow> context_file_evidence \<Rightarrow> bool" where
  "evidence_matches profile pd e \<longleftrightarrow>
     ev_file_identity e = cl_file_identity (fst pd)
     \<and> (ev_parse_status e = Success \<longrightarrow> is_admit (ad_action (snd pd))
          \<and> covered_by e (route_hint_of (fst pd) (admitted_route (cl_action (fst pd))) profile))"

lemma sections_reserved_le:
  assumes "list_all2 (evidence_matches profile) (zip plans (fst (run_pass (stage_b_step profile m cls) plans s))) evidence"
    and "bm_per_file_max_chars m = cp_per_file_max_chars (ns_context profile)"
    and "\<forall>e \<in> set evidence. bounded_evidence e"
  shows "sections_reserved uni (ns_context profile) evidence
    \<le> sum_list (map ad_reserved_chars (fst (run_pass (stage_b_step profile m cls) plans s)))"
  using assms(1,3)
proof (induction plans arbitrary: s evidence)
  case (Cons p plans)
  let ?d = "fst (stage_b_step profile m cls p s)"
  from Cons.prems(1) obtain e es where ev: "evidence = e # es" "evidence_matches profile (p, ?d) e"
    and rest: "list_all2 (evidence_matches profile)
      (zip plans (fst (run_pass (stage_b_step profile m cls) plans (snd (stage_b_step profile m cls p s))))) es"
    by (auto simp: list_all2_Cons1)
  have "length (fst (render_file_section (ns_context profile) e (de_decision (decide_file uni (ns_context profile) e)))) + 2
      \<le> ad_reserved_chars ?d" if "ev_parse_status e = Success"
  proof -
    have "ad_reserved_chars ?d = reserved_delta m (route_hint_of p (admitted_route (cl_action p)) profile) None"
      using that ev(2) by (simp add: evidence_matches_def stage_b_step_reserved plan_delta_def)
    then show ?thesis
      using rendered_section_bound [of e _ m "ns_context profile" uni None] that ev Cons.prems(2) assms(2)
      by (simp add: evidence_matches_def)
  qed
  moreover have "sections_reserved uni (ns_context profile) es \<le> sum_list (map ad_reserved_chars
      (fst (run_pass (stage_b_step profile m cls) plans (snd (stage_b_step profile m cls p s)))))"
    using Cons.IH [OF rest] Cons.prems(2) ev(1) by simp
  ultimately show ?case by (auto simp: ev(1) sections_reserved_def)
qed (simp add: sections_reserved_def)

text \<open>C26. From plan to document: take any stage A plan, let stage B admit files against the
  budget model of the run, and let the run return for every file evidence that respects its
  route. Then building the context document succeeds; the only error that can still occur is
  that the catch-all row of the omitted summary does not fit, and it needs omitted files.\<close>

theorem admitted_run_builds_context:
  assumes model: "ContextBudgetModel_new (ns_context profile) (fixed_context_sections (ns_context profile) mode (length evidence)) = Ok m"
    and settings: "validate_normalized_settings profile = Ok ()"
    and size: "length evidence < 10 ^ 7"
    and run: "list_all2 (evidence_matches profile)
        (zip plans (ContentAdmissionPlan_build plans profile m cls)) evidence"
    and valid: "\<forall>e \<in> set evidence. validate_evidence enc e = Ok ()"
    and bounded: "\<forall>e \<in> set evidence. bounded_evidence e"
    and ids: "distinct (map cl_file_identity plans)"
    and input: "sum_list (map (\<lambda>e. cd_input_chars (de_decision (decide_file uni (ns_context profile) e))) evidence) \<le> u64_max"
  shows "(\<exists>out. build_context uni enc evidence (ns_context profile) mode = Ok out)
    \<or> (\<exists>e \<in> set evidence. ev_parse_status e = NotParsed)
       \<and> build_context uni enc evidence (ns_context profile) mode = Err catch_all_error"
proof -
  let ?ctx = "ns_context profile"
  have global: "cp_global_max_chars ?ctx = 500000" by (rule valid_settings_context(1) [OF settings])
  have wf: "wf_budget m" using ContextBudgetModel_new_wf [OF model] global by (simp add: u64_max_def)
  have gm: "bm_global_max_chars m = cp_global_max_chars ?ctx" "bm_per_file_max_chars m = cp_per_file_max_chars ?ctx"
    using ContextBudgetModel_new_Ok [OF model] by simp_all
  have "length evidence = length plans" using list_all2_lengthD [OF run]
    by (simp add: ContentAdmissionPlan_build_def)
  then have "map ev_file_identity evidence = map cl_file_identity plans"
    using run by (intro nth_equalityI) (auto simp: list_all2_conv_all_nth evidence_matches_def ContentAdmissionPlan_build_def)
  then have "distinct (map ev_file_identity evidence)" using ids by simp
  moreover have "bm_base_chars m + sections_reserved uni ?ctx evidence \<le> cp_global_max_chars ?ctx"
  proof -
    have "sections_reserved uni ?ctx evidence \<le> sum_list (map ad_reserved_chars (ContentAdmissionPlan_build plans profile m cls))"
      using sections_reserved_le [OF run [unfolded ContentAdmissionPlan_build_def
            ContentAdmissionPlan_build_with_remaining_def] gm(2) bounded]
      by (simp add: ContentAdmissionPlan_build_def ContentAdmissionPlan_build_with_remaining_def)
    moreover have "sum_list (map ad_reserved_chars (ContentAdmissionPlan_build plans profile m cls))
        \<le> bm_global_max_chars m - (bm_base_chars m + 0)"
      using chars.cost_within [of m profile cls plans "(0, ns_max_pdf_text_extractions profile)"] wf
      by (simp add: ContentAdmissionPlan_build_def ContentAdmissionPlan_build_with_remaining_def)
    ultimately show ?thesis using wf gm(1) unfolding wf_budget_def by linarith
  qed
  ultimately show ?thesis
    using build_context_total [OF model _ _ size valid bounded _ input] global by (simp add: u64_max_def)
qed


text \<open>The run of the witnesses: one note, admitted and kept.\<close>

definition fixture_note_plan :: classified_plan where
  "fixture_note_plan = \<lparr>cl_file_identity = lit ''b'', cl_relative_path = lit ''/w/b.txt'', cl_extension = lit ''.txt'',
     cl_priority = 30, cl_action = Admit LightText, cl_pdf_classification = NotPdf\<rparr>"

lemma fixture_fixed_chars:
  "fixed_exact_chars (fixed_context_sections (ns_context daily_settings) Daily 1) \<le> 500"
  by (simp add: fixed_exact_chars_def fixed_context_sections_def count_chars_def document_title_def
     render_run_summary_def render_notice_def evidence_title_def SECTION_SEPARATOR_CHARS_def daily_settings_def dec.simps nines_def MAX_U64_DIGITS_def COMPRESSION_POLICY_VERSION_def)

lemma fixture_budget:
  "\<exists>m. ContextBudgetModel_new (ns_context daily_settings) (fixed_context_sections (ns_context daily_settings) Daily 1) = Ok m
     \<and> bm_base_chars m \<le> 12500 \<and> bm_global_max_chars m = 500000 \<and> bm_per_file_max_chars m = 100000"
proof -
  have "omitted_summary_reservation 500000 = 12000"
    by (simp add: omitted_summary_reservation_def saturating_mul_def budget_consts u64_max_def)
  then show ?thesis using fixture_fixed_chars
    by (simp add: ContextBudgetModel_new_def Let_def ok_or_def checked_add_def u64_max_def daily_settings_def)
qed

lemma fixture_evidence_bounded: "bounded_evidence fixture_evidence"
  by (simp add: bounded_evidence_def fixture_evidence_def u64_max_def)

lemma fixture_evidence_input:
  "cd_input_chars (de_decision (decide_file id (ns_context daily_settings) fixture_evidence)) \<le> u64_max"
  by (rule decided_input_chars [OF fixture_evidence_bounded])

lemma fixture_evidence_Success: "ev_parse_status fixture_evidence = Success"
  by (simp add: fixture_evidence_def)

theorem admitted_run_builds_context_witness:
  "\<exists>out. build_context id (\<lambda>_. 0) [fixture_evidence] (ns_context daily_settings) Daily = Ok out"
proof -
  from fixture_budget obtain m where
    m: "ContextBudgetModel_new (ns_context daily_settings) (fixed_context_sections (ns_context daily_settings) Daily (length [fixture_evidence])) = Ok m"
      "bm_base_chars m \<le> 12500" "bm_global_max_chars m = 500000" "bm_per_file_max_chars m = 100000" by auto
  have delta: "plan_delta daily_settings m fixture_note_plan LightText \<le> 10000"
    by (simp add: plan_delta_def reserved_delta_def route_hint_of_def fixture_note_plan_def section_max_defs m(4)
        daily_settings_def)
  have "wf_budget m" using m by (simp add: wf_budget_def u64_max_def)
  then have adm: "admits m 0 (plan_delta daily_settings m fixture_note_plan LightText)"
    using delta m by (simp add: bm.fits_iff)
  have "list_all2 (evidence_matches daily_settings)
      (zip [fixture_note_plan] (ContentAdmissionPlan_build [fixture_note_plan] daily_settings m Map.empty)) [fixture_evidence]"
    using adm by (simp add: ContentAdmissionPlan_build_def ContentAdmissionPlan_build_with_remaining_def
        evidence_matches_def stage_b_step_admit parse_eligible_def needs_extraction_def covered_by_def
        route_hint_of_def fixture_note_plan_def fixture_evidence_def daily_settings_def)
  from admitted_run_builds_context [OF m(1) daily_settings_valid _ this, where enc = "\<lambda>_. 0" and uni = id]
  show ?thesis
    by (simp add: fixture_evidence_valid fixture_evidence_bounded fixture_evidence_input fixture_evidence_Success)
qed

lemma build_context_facts:
  assumes ok: "build_context uni enc evidence profile mode = Ok out"
  shows "length (co_content out) \<le> cp_global_max_chars profile \<and> co_content out \<noteq> []
    \<and> co_output_chars out = length (co_content out)
    \<and> co_source_file_count out = length evidence
    \<and> co_success_count out + co_timeout_count out + co_error_file_count out + co_omitted_file_count out = length evidence
    \<and> co_included_file_count out = co_success_count out
    \<and> mset (map bd_file_identity (co_decisions out)) = mset (map ev_file_identity evidence)"
  using ok
proof (rule build_context_Ok)
  fix decided s
  let ?plan = "OmittedSummaryPlan_build uni (map omitted_candidate_of decided) (cp_global_max_chars profile)"
  assume dec: "decide_files uni enc evidence profile = Ok decided"
    and loop: "build_loop profile ?plan decided (initial_state (head_sections profile mode (length decided)
      (status_count Success decided) (saturating_add (status_count Timeout decided) (status_count Error decided)))) = Ok s"
    and fin: "finish_sections profile ?plan s = Ok (co_content out)"
    and counts: "co_source_file_count out = length decided" "co_success_count out = status_count Success decided"
      "co_timeout_count out = status_count Timeout decided" "co_error_file_count out = status_count Error decided"
      "co_omitted_file_count out = length decided - status_count Success decided - status_count Timeout decided - status_count Error decided"
      "co_included_file_count out = bs_included s" "co_decisions out = bs_decisions s"
      "co_output_chars out = length (co_content out)"
  have "length decided = length evidence" using dec by (simp add: decide_files_Ok)
  moreover have "bs_included s = status_count Success decided"
    using build_loop_Ok(2) [OF loop] decided_filter_status(1) [OF dec]
    by (simp add: initial_state_def status_count_def)
  moreover have "mset (map bd_file_identity (bs_decisions s)) = mset (map ev_file_identity evidence)"
  proof -
    have ids: "map bd_file_identity (bs_decisions s) = map (\<lambda>i. ev_file_identity (de_evidence i)) decided"
      using build_loop_Ok(1) [OF loop] by (simp add: initial_state_def)
    have decided: "mset decided = mset (map (decide_file uni profile) evidence)"
      using dec by (simp add: decide_files_Ok)
    show ?thesis unfolding ids mset_map decided by (simp add: multiset.map_comp comp_def)
  qed
  ultimately show ?thesis
    using finish_sections_Ok [OF fin] counts status_partition [of decided] by simp
qed

text \<open>C25. A context document that is produced is non-empty, never exceeds the global character
  budget and accounts for every file: each file has exactly one decision, the four status
  counts add up to the number of files, and the files with a section are exactly the
  successes.\<close>

theorem build_context_accounts:
  assumes ok: "build_context uni enc evidence profile mode = Ok out"
  shows "length (co_content out) \<le> cp_global_max_chars profile \<and> co_content out \<noteq> []
    \<and> co_output_chars out = length (co_content out)
    \<and> co_source_file_count out = length evidence
    \<and> co_success_count out + co_timeout_count out + co_error_file_count out + co_omitted_file_count out = length evidence
    \<and> co_included_file_count out = co_success_count out
    \<and> mset (map bd_file_identity (co_decisions out)) = mset (map ev_file_identity evidence)"
  using ok by (rule build_context_facts)

lemma less_u64_max: "500000 < u64_max"
  by (simp add: u64_max_def)

lemma fixture_run_builds:
  "\<exists>out. build_context id (\<lambda>_. 0) [fixture_evidence] (ns_context daily_settings) Daily = Ok out"
proof -
  from fixture_budget obtain m where
    m: "ContextBudgetModel_new (ns_context daily_settings) (fixed_context_sections (ns_context daily_settings) Daily (length [fixture_evidence])) = Ok m"
      "bm_base_chars m \<le> 12500" "bm_per_file_max_chars m = 100000" by auto
  have ctx: "cp_global_max_chars (ns_context daily_settings) = 500000" "cp_per_file_max_chars (ns_context daily_settings) = 100000"
    by (simp_all add: daily_settings_def)
  have "sections_reserved id (ns_context daily_settings) [fixture_evidence] \<le> reserved_delta m fixture_hint None"
    using rendered_section_bound [OF fixture_evidence_bounded, of fixture_hint m "ns_context daily_settings" id None]
      m(3) ctx(2) by (simp add: sections_reserved_def covered_by_def fixture_hint_def fixture_evidence_def)
  moreover have "reserved_delta m fixture_hint None \<le> 10000"
    by (simp add: reserved_delta_def fixture_hint_def section_max_defs m(3))
  ultimately have "bm_base_chars m + sections_reserved id (ns_context daily_settings) [fixture_evidence]
      \<le> cp_global_max_chars (ns_context daily_settings)" using m(2) ctx by simp
  from build_context_total [OF m(1) _ _ _ _ _ _ _ this, where enc = "\<lambda>_. 0"] show ?thesis
    by (simp add: fixture_evidence_valid fixture_evidence_bounded fixture_evidence_input fixture_evidence_Success
        ctx less_u64_max)
qed

theorem build_context_accounts_witness:
  "\<exists>out. build_context id (\<lambda>_. 0) [fixture_evidence] (ns_context daily_settings) Daily = Ok out
     \<and> length (co_content out) \<le> cp_global_max_chars (ns_context daily_settings)
     \<and> co_source_file_count out = 1"
  using fixture_run_builds build_context_accounts [of id "\<lambda>_. 0" "[fixture_evidence]" "ns_context daily_settings" Daily]
  by fastforce


section \<open>The catch-all row\<close>

text \<open>Three omitted files in three groups.\<close>

definition overflow_row :: "string \<Rightarrow> string \<Rightarrow> omitted_row" where
  "overflow_row reason extension = \<lparr>or_relative_path = lit ''a'' @ lit extension, or_extension = lit extension,
     or_reason = lit reason, or_input_chars = 10, or_in_detail_slot = False\<rparr>"

definition overflow_rows :: "omitted_row list" where
  "overflow_rows = [overflow_row ''global_context_budget_exceeded'' ''.xlsx'',
     overflow_row ''pdf_classification_page_quota_exhausted'' ''.pdf'',
     overflow_row ''pdf_text_extraction_quota_exhausted'' ''.pdf'']"

text \<open>The reservation keeps room for the catch-all row when the detail slots are chosen, but
  the aggregate rows may use that room: with a budget of 900 characters (a reservation of
  180) and three groups, two aggregate rows leave too little for the mandatory row, and the
  whole document is refused as a model mismatch.\<close>

lemma catch_all_row_can_overflow:
  "os_detail_slots (OmittedSummaryPlan_build uni files 900) = []
   \<and> append_omitted_summary sections overflow_rows (OmittedSummaryPlan_build uni files 900) 900 = Err catch_all_error"
proof -
  have groups: "omitted_groups overflow_rows =
      [((lit ''global_context_budget_exceeded'', lit ''.xlsx''), 1),
       ((lit ''pdf_classification_page_quota_exhausted'', lit ''.pdf''), 1),
       ((lit ''pdf_text_extraction_quota_exhausted'', lit ''.pdf''), 1)]"
    by (simp add: omitted_groups_def overflow_rows_def overflow_row_def lit_def)
  have r: "omitted_summary_reservation 900 = 180"
    by (simp add: omitted_summary_reservation_def saturating_mul_def budget_consts u64_max_def)
  have "omitted_lines overflow_rows 180 = Err catch_all_error"
    unfolding omitted_lines_def groups
    by (simp add: overflow_rows_def overflow_row_def omitted_head_lines_def omitted_title_def omitted_count_label_def
        count_chars_def budget_consts group_line_def other_line_def omitted_other_label_def saturating_add_def u64_max_def
        dec.simps catch_all_error_def)
  moreover have "select_slots 180 omitted_summary_fixed_chars fs = []" for fs
    by (cases fs) (simp_all add: omitted_summary_fixed_chars_value omitted_row_cost_def max_omitted_row_chars_def
        count_chars_def budget_consts saturating_add_def u64_max_def)
  ultimately show ?thesis
    by (simp add: append_omitted_summary_def OmittedSummaryPlan_build_def Let_def r overflow_rows_def)
qed

end
