(* ===== verification/Scheduler_Outcome.thy ===== *)
theory Scheduler_Outcome
  imports Scheduler_Files Context_Budget
begin

text \<open>
  \<open>src/rust/scanner_core/src/scheduler.rs\<close>, the end of a run: the terminal intent and its
  diagnostics, the bounded projection of warnings, the enforced reservation, stage and
  extension metrics, and the conclusion that puts them together once every file has its
  outcome.
\<close>

section \<open>Diagnostics of a run\<close>

datatype diagnostic_severity = SevWarning | SevError

record run_diagnostic =
  rg_severity :: diagnostic_severity
  rg_diagnostic :: diagnostic

definition warning_of :: "diagnostic \<Rightarrow> run_diagnostic" where
  "warning_of d = \<lparr>rg_severity = SevWarning, rg_diagnostic = d\<rparr>"

definition error_of :: "diagnostic \<Rightarrow> run_diagnostic" where
  "error_of d = \<lparr>rg_severity = SevError, rg_diagnostic = d\<rparr>"

datatype discovery_issue_kind =
    IssueWalk | IssueMetadata | IssueModifiedTime | IssueCanonicalize | IssueSourceVersion
  | IssueAbsolutePath | IssueAlias | IssueLinkExcluded | IssueCloudUnavailable
  | IssueUnknownReparse | IssueOutsideRoot | IssueBudget

record discovery_issue =
  di_kind :: discovery_issue_kind
  di_path :: "rstring option"
  di_message :: rstring

text \<open>\<open>is_abs\<close> is \<open>Path::is_absolute\<close> of the platform.\<close>

definition discovery_issue_warning :: "(rstring \<Rightarrow> bool) \<Rightarrow> discovery_issue \<Rightarrow> run_diagnostic" where
  "discovery_issue_warning is_abs issue = warning_of
     \<lparr>dg_error_code = DiscoveryEntryUnreadable, dg_message = take 4096 (di_message issue),
      dg_retryable = True, dg_stage = StageDiscovery,
      dg_file_path = (case di_path issue of None \<Rightarrow> None | Some p \<Rightarrow> if is_abs p then Some p else None),
      dg_backend = None\<rparr>"

section \<open>Terminal state\<close>

datatype terminal_intent = IntentSuccess | IntentPartial | IntentError

definition deadline_diagnostic :: "rstring \<Rightarrow> diagnostic" where
  "deadline_diagnostic message =
     \<lparr>dg_error_code = StageDeadlineExhausted, dg_message = message, dg_retryable = True,
      dg_stage = StageParse, dg_file_path = None, dg_backend = None\<rparr>"

text \<open>The errors of the rows, in order.\<close>

definition row_errors :: "file_result_record list \<Rightarrow> diagnostic list" where
  "row_errors file_results = List.map_filter fr_error file_results"

definition has_failure :: "context_build_output \<Rightarrow> rstring set \<Rightarrow> parse_outputs \<Rightarrow> u64 \<Rightarrow> bool" where
  "has_failure rendered runtime_classification outputs stage_deadline_exhausted_count \<longleftrightarrow>
     0 < co_error_file_count rendered \<or> 0 < co_timeout_count rendered
     \<or> runtime_classification \<noteq> {} \<or> po_runtime_not_parsed outputs \<noteq> {}
     \<or> 0 < stage_deadline_exhausted_count"

definition terminal_state ::
  "context_build_output \<Rightarrow> file_result_record list \<Rightarrow> rstring set \<Rightarrow> parse_outputs \<Rightarrow> u64 \<Rightarrow>
     terminal_intent \<times> run_diagnostic list" where
  "terminal_state rendered file_results runtime_classification outputs stage_deadline_exhausted_count =
     (let failed = has_failure rendered runtime_classification outputs stage_deadline_exhausted_count;
          errors = (if failed then row_errors file_results else []);
          diagnostics = (if 0 < stage_deadline_exhausted_count
              then [warning_of (deadline_diagnostic (lit ''work deadline exhausted; remaining work stopped''))] else [])
            @ map warning_of errors;
          intent = (if \<not> failed then IntentSuccess
                    else if co_included_file_count rendered = 0 then IntentError else IntentPartial)
      in (intent,
          diagnostics @
          (if intent = IntentError
           then (case errors of
                   primary # _ \<Rightarrow> [error_of primary]
                 | [] \<Rightarrow> if 0 < stage_deadline_exhausted_count
                     then [error_of (deadline_diagnostic (lit ''work deadline exhausted before any included context''))]
                     else [])
           else [])))"

section \<open>Bounded warnings\<close>

definition bool_text :: "bool \<Rightarrow> rstring" where
  "bool_text b = (if b then lit ''true'' else lit ''false'')"

definition group_key :: "run_diagnostic \<Rightarrow> rstring \<times> rstring \<times> bool" where
  "group_key r = (stage_text (dg_stage (rg_diagnostic r)), error_code_text (dg_error_code (rg_diagnostic r)),
     dg_retryable (rg_diagnostic r))"

definition warning_groups :: "run_diagnostic list \<Rightarrow> ((rstring \<times> rstring \<times> bool) \<times> u64) list" where
  "warning_groups folded =
     (let keys = map group_key folded in map (\<lambda>k. (k, count_list keys k)) (sort (remdups keys)))"

definition group_part :: "(rstring \<times> rstring \<times> bool) \<times> u64 \<Rightarrow> rstring" where
  "group_part g = (case g of ((stage, code, retryable), n) \<Rightarrow>
     stage @ lit '':'' @ code @ lit '':retryable='' @ bool_text retryable @ lit '':'' @ dec n)"

text \<open>The parts and the count of what found no room; stage and code texts are ASCII, so that
  \<open>len\<close> counts characters.\<close>

fun aggregate_parts ::
  "((rstring \<times> rstring \<times> bool) \<times> u64) list \<Rightarrow> rstring list \<times> u64 \<Rightarrow> rstring list \<times> u64" where
  "aggregate_parts [] acc = acc"
| "aggregate_parts (g # gs) (parts, other_count) =
     (let part = group_part g; projected = sum_list (map (\<lambda>p. length p + 1) parts) + length part
      in if projected \<le> 4096 then aggregate_parts gs (parts @ [part], other_count)
         else aggregate_parts gs (parts, saturating_add other_count (snd g)))"

definition aggregate_warning :: "run_diagnostic list \<Rightarrow> run_diagnostic" where
  "aggregate_warning folded =
     (let any_retryable = list_ex (\<lambda>r. dg_retryable (rg_diagnostic r)) folded;
          (parts, other_count) = aggregate_parts (warning_groups folded) ([], 0);
          parts = (if 0 < other_count then parts @ [lit ''other:'' @ dec other_count] else parts);
          message = lit ''aggregated '' @ dec (length folded) @ lit '' diagnostics: '' @ join (lit '','') parts
      in warning_of \<lparr>dg_error_code = DiagnosticsAggregated, dg_message = take 4096 message,
           dg_retryable = any_retryable, dg_stage = StageInternal, dg_file_path = None, dg_backend = None\<rparr>)"

definition project_warnings :: "run_diagnostic list \<Rightarrow> run_diagnostic list" where
  "project_warnings diagnostics =
     (let errors = filter (\<lambda>r. rg_severity r = SevError) diagnostics;
          warnings = filter (\<lambda>r. rg_severity r \<noteq> SevError) diagnostics
      in if length warnings \<le> 256 then warnings @ errors
         else take 256 warnings @ [aggregate_warning (drop 256 warnings)] @ errors)"

section \<open>The enforced reservation\<close>

fun enforce_rendered_within_reserved ::
  "context_build_output \<Rightarrow> admission_decision list \<Rightarrow> context_budget_model \<Rightarrow> (unit, diagnostic) result" where
  "enforce_rendered_within_reserved rendered [] model = Ok ()"
| "enforce_rendered_within_reserved rendered (decision # decisions) model =
     (if is_admit (ad_action decision)
      then (case co_rendered_by_identity rendered (ad_file_identity decision) of
              Some rendered_chars \<Rightarrow>
                and_then (map_err (\<lambda>_. scheduler_failure BudgetModelMismatch
                    (lit ''rendered section for '' @ ad_relative_path decision @ lit '' exceeded its reserved budget'')
                    False StageContext)
                  (check_rendered_within_reserved model rendered_chars (ad_reserved_chars decision)))
                  (\<lambda>_. enforce_rendered_within_reserved rendered decisions model)
            | None \<Rightarrow> enforce_rendered_within_reserved rendered decisions model)
      else enforce_rendered_within_reserved rendered decisions model)"

section \<open>Metrics\<close>

record stage_metric =
  sm_stage :: stage_name
  sm_item_count :: u64
  sm_duration_ms :: u64

definition build_stage_metrics ::
  "u64 \<Rightarrow> u64 \<Rightarrow> u64 \<Rightarrow> u64 \<Rightarrow> u64 \<Rightarrow> u64 \<Rightarrow> u64 \<Rightarrow> u64 \<Rightarrow> stage_metric list" where
  "build_stage_metrics source_file_count context_item_count cache_item_count parse_item_count
     discovery_ms cache_ms parse_ms context_ms =
     [\<lparr>sm_stage = Discovery, sm_item_count = source_file_count, sm_duration_ms = discovery_ms\<rparr>,
      \<lparr>sm_stage = Cache, sm_item_count = cache_item_count, sm_duration_ms = cache_ms\<rparr>,
      \<lparr>sm_stage = Parse, sm_item_count = parse_item_count, sm_duration_ms = parse_ms\<rparr>,
      \<lparr>sm_stage = Context, sm_item_count = context_item_count, sm_duration_ms = context_ms\<rparr>]"

definition zero_stage_metrics :: "stage_metric list" where
  "zero_stage_metrics = map (\<lambda>stage. \<lparr>sm_stage = stage, sm_item_count = 0, sm_duration_ms = 0\<rparr>)
     [Discovery, Cache, Parse, Context]"

record extension_metric =
  xm_extension :: rstring
  xm_file_count :: u64
  xm_parse_duration_ms :: u64
  xm_success_count :: u64
  xm_error_count :: u64
  xm_timeout_count :: u64

definition audit_checked_add :: "u64 \<Rightarrow> u64 \<Rightarrow> rstring \<Rightarrow> (u64, rstring) result" where
  "audit_checked_add a b field = ok_or (field @ lit '' overflows'') (checked_add a b)"

text \<open>One inventory item: the row of its identity, added to the metric of its file type.\<close>

definition extension_step ::
  "(rstring \<rightharpoonup> file_result_record) \<Rightarrow> (rstring \<rightharpoonup> extension_metric) \<Rightarrow> inventory_record \<Rightarrow>
     (rstring \<rightharpoonup> extension_metric, rstring) result" where
  "extension_step by_identity grouped item =
     and_then (ok_or (lit ''inventory has no matching file result'') (by_identity (iv_file_identity item))) (\<lambda>row.
     let metric = unwrap_or (grouped (iv_file_type item))
           \<lparr>xm_extension = iv_file_type item, xm_file_count = 0, xm_parse_duration_ms = 0,
            xm_success_count = 0, xm_error_count = 0, xm_timeout_count = 0\<rparr>
     in and_then (audit_checked_add (xm_file_count metric) 1 (lit ''extension file count'')) (\<lambda>files.
        and_then (audit_checked_add (xm_parse_duration_ms metric) (fr_parse_duration_ms row) (lit ''extension duration'')) (\<lambda>ms.
        let metric = metric\<lparr>xm_file_count := files, xm_parse_duration_ms := ms\<rparr>
        in and_then
          (case fr_parse_status row of
             Success \<Rightarrow> and_then (audit_checked_add (xm_success_count metric) 1 (lit ''extension success count''))
               (\<lambda>n. Ok (metric\<lparr>xm_success_count := n\<rparr>))
           | Timeout \<Rightarrow> and_then (audit_checked_add (xm_timeout_count metric) 1 (lit ''extension timeout count''))
               (\<lambda>n. Ok (metric\<lparr>xm_timeout_count := n\<rparr>))
           | Error \<Rightarrow> and_then (audit_checked_add (xm_error_count metric) 1 (lit ''extension error count''))
               (\<lambda>n. Ok (metric\<lparr>xm_error_count := n\<rparr>))
           | NotParsed \<Rightarrow> Ok metric)
          (\<lambda>metric. Ok (grouped(iv_file_type item \<mapsto> metric))))))"

fun extension_fold ::
  "(rstring \<rightharpoonup> file_result_record) \<Rightarrow> inventory_record list \<Rightarrow> (rstring \<rightharpoonup> extension_metric) \<Rightarrow>
     (rstring \<rightharpoonup> extension_metric, rstring) result" where
  "extension_fold by_identity [] grouped = Ok grouped"
| "extension_fold by_identity (item # items) grouped =
     and_then (extension_step by_identity grouped item) (extension_fold by_identity items)"

text \<open>The values of the sorted map, in key order, each with a valid extension.\<close>

definition extension_metrics ::
  "inventory_record list \<Rightarrow> file_result_record list \<Rightarrow> (extension_metric list, rstring) result" where
  "extension_metrics inventory file_results =
     (if \<not> distinct (map fr_file_identity file_results)
      then Err (lit ''file results contain duplicate identities'')
      else
        and_then (extension_fold (map_of (map (\<lambda>r. (fr_file_identity r, r)) file_results)) inventory Map.empty) (\<lambda>grouped.
        collect_results (\<lambda>key. let metric = the (grouped key) in
            and_then (require_extension (xm_extension metric) (lit ''extension metric extension'')) (\<lambda>_. Ok metric))
          (sort (remdups (map iv_file_type inventory)))))"

section \<open>The conclusion of a run\<close>

text \<open>What the phases of \<open>execute\<close> leave behind, with the readings of the clock the conclusion uses.\<close>

record executed_run =
  xr_context_profile_hash :: rstring
  xr_discovery :: "discovered_file list"
  xr_inventory :: "inventory_record list"
  xr_classified :: "classified_plan list"
  xr_admission :: "admission_decision list"
  xr_classifications :: "rstring \<rightharpoonup> pdf_classification_result"
  xr_classification_audits :: "rstring \<rightharpoonup> pdf_classification_audit"
  xr_runtime_classification :: "rstring set"
  xr_outputs :: parse_outputs
  xr_model :: context_budget_model
  xr_diagnostics :: "run_diagnostic list"
  xr_stage_deadline_exhausted_count :: u64
  xr_parse_attempt_count :: u64
  xr_discovery_ms :: u64
  xr_cache_ms :: u64
  xr_parse_ms :: u64
  xr_compression_ms :: u64

record context_summary =
  cs_source_file_count :: u64
  cs_success_count :: u64
  cs_timeout_count :: u64
  cs_included_file_count :: u64
  cs_omitted_file_count :: u64
  cs_error_file_count :: u64
  cs_input_chars :: u64
  cs_output_chars :: u64
  cs_total_duration_ms :: u64
  cs_discovery_duration_ms :: u64
  cs_parse_duration_ms :: u64
  cs_compression_duration_ms :: u64

definition validate_context_summary :: "context_summary \<Rightarrow> check" where
  "validate_context_summary c =
     and_then (ok_or (lit ''summary counts overflow'')
       (Option.bind (checked_add (cs_success_count c) (cs_timeout_count c))
          (\<lambda>v. checked_add v (cs_error_file_count c)))) (\<lambda>classified.
     require (classified \<le> cs_source_file_count c) (lit ''classified file counts exceed source_file_count''))"

record context_run_record =
  cn_context_profile_hash :: rstring
  cn_status :: run_status
  cn_final_context :: rstring
  cn_context_sha256 :: rstring
  cn_summary :: context_summary
  cn_decisions :: "budgeted_decision list"

record run_conclusion =
  rn_terminal_intent :: terminal_intent
  rn_inventory :: "inventory_record list"
  rn_file_results :: "file_result_record list"
  rn_parse_cache_receipts :: "cache_write_record list"
  rn_classification_cache_receipts :: "classification_write_record list"
  rn_classifications :: "rstring \<rightharpoonup> pdf_classification_result"
  rn_diagnostics :: "run_diagnostic list"
  rn_stage_metrics :: "stage_metric list"
  rn_extension_metrics :: "extension_metric list"
  rn_context :: "context_run_record option"
  rn_reserved_chars :: u64
  rn_rendered_chars :: u64

definition internal_error_outcome :: "executed_run \<Rightarrow> error_code \<Rightarrow> rstring \<Rightarrow> run_conclusion" where
  "internal_error_outcome x code message =
     \<lparr>rn_terminal_intent = IntentError, rn_inventory = [], rn_file_results = [],
      rn_parse_cache_receipts = po_parse_cache_receipts (xr_outputs x),
      rn_classification_cache_receipts = po_classification_cache_receipts (xr_outputs x),
      rn_classifications = Map.empty,
      rn_diagnostics = project_warnings (xr_diagnostics x) @
        [error_of \<lparr>dg_error_code = code, dg_message = take 4096 message, dg_retryable = False,
           dg_stage = StageContext, dg_file_path = None, dg_backend = None\<rparr>],
      rn_stage_metrics = zero_stage_metrics, rn_extension_metrics = [], rn_context = None,
      rn_reserved_chars = 0, rn_rendered_chars = 0\<rparr>"

fun intent_status :: "terminal_intent \<Rightarrow> run_status" where
  "intent_status IntentSuccess = RunSuccess"
| "intent_status IntentPartial = RunPartial"
| "intent_status IntentError = RunError"

definition summary_of :: "executed_run \<Rightarrow> context_build_output \<Rightarrow> context_summary" where
  "summary_of x rendered =
     \<lparr>cs_source_file_count = co_source_file_count rendered, cs_success_count = co_success_count rendered,
      cs_timeout_count = co_timeout_count rendered, cs_included_file_count = co_included_file_count rendered,
      cs_omitted_file_count = co_omitted_file_count rendered, cs_error_file_count = co_error_file_count rendered,
      cs_input_chars = co_input_chars rendered, cs_output_chars = co_output_chars rendered,
      cs_total_duration_ms = saturating_add (saturating_add (saturating_add (xr_discovery_ms x) (xr_cache_ms x))
        (xr_parse_ms x)) (xr_compression_ms x),
      cs_discovery_duration_ms = xr_discovery_ms x, cs_parse_duration_ms = xr_parse_ms x,
      cs_compression_duration_ms = xr_compression_ms x\<rparr>"

text \<open>The diagnostics in the order they are collected, before the projection.\<close>

definition collected_diagnostics :: "executed_run \<Rightarrow> run_diagnostic list \<Rightarrow> run_diagnostic list" where
  "collected_diagnostics x run_diagnostics =
     xr_diagnostics x @ map warning_of (po_cache_write_warnings (xr_outputs x))
     @ map warning_of (po_parse_warnings (xr_outputs x)) @ run_diagnostics"

definition conclude_rendered ::
  "(rstring \<Rightarrow> rstring) \<Rightarrow> executed_run \<Rightarrow> context_build_output \<Rightarrow> file_result_record list \<Rightarrow> extension_metric list \<Rightarrow>
     run_conclusion" where
  "conclude_rendered sha x rendered file_results metrics =
     (let (intent, run_diagnostics) = terminal_state rendered file_results (xr_runtime_classification x)
            (xr_outputs x) (xr_stage_deadline_exhausted_count x);
          diagnostics = project_warnings (collected_diagnostics x run_diagnostics);
          intent = (if intent = IntentSuccess \<and> list_ex (\<lambda>r. rg_severity r = SevWarning) diagnostics
                    then IntentPartial else intent);
          discovery_count = length (xr_discovery x)
      in \<lparr>rn_terminal_intent = intent, rn_inventory = xr_inventory x, rn_file_results = file_results,
          rn_parse_cache_receipts = po_parse_cache_receipts (xr_outputs x),
          rn_classification_cache_receipts = po_classification_cache_receipts (xr_outputs x),
          rn_classifications = xr_classifications x, rn_diagnostics = diagnostics,
          rn_stage_metrics = build_stage_metrics discovery_count (length (co_decisions rendered)) discovery_count
            (xr_parse_attempt_count x) (xr_discovery_ms x) (xr_cache_ms x) (xr_parse_ms x) (xr_compression_ms x),
          rn_extension_metrics = metrics,
          rn_context = (if intent = IntentError \<or> co_content rendered = [] then None
            else Some \<lparr>cn_context_profile_hash = xr_context_profile_hash x, cn_status = intent_status intent, cn_final_context = co_content rendered,
              cn_context_sha256 = sha (co_content rendered), cn_summary = summary_of x rendered,
              cn_decisions = co_decisions rendered\<rparr>),
          rn_reserved_chars = saturating_add (bm_base_chars (xr_model x)) (sum_list (map ad_reserved_chars (xr_admission x))),
          rn_rendered_chars = count_chars (co_content rendered)\<rparr>)"

definition conclude_run ::
  "(rstring \<Rightarrow> rstring) \<Rightarrow> (parsed_content_audit \<Rightarrow> nat) \<Rightarrow> (rstring \<Rightarrow> rstring) \<Rightarrow>
     (rstring \<Rightarrow> (rstring, rstring) result) \<Rightarrow> normalized_settings \<Rightarrow> rstring \<Rightarrow> executed_run \<Rightarrow>
     (run_conclusion, diagnostic) result" where
  "conclude_run uni enc sha rel profile rejected_profile_hash x =
     and_then (build_evidence rel (xr_discovery x) (xr_classified x) (xr_admission x) (xr_classifications x)
                 (xr_runtime_classification x) (xr_outputs x)) (\<lambda>evidence.
     case build_context uni enc evidence (ns_context profile) (ns_report_mode profile) of
       Err message \<Rightarrow> Ok (internal_error_outcome x BudgetModelMismatch message)
     | Ok rendered \<Rightarrow>
         (case enforce_rendered_within_reserved rendered (xr_admission x) (xr_model x) of
            Err failure \<Rightarrow> Ok (internal_error_outcome x (dg_error_code failure) (dg_message failure))
          | Ok _ \<Rightarrow>
              and_then (build_file_results sha rel (xr_classified x) (snapshot_of (xr_discovery x)) (xr_admission x)
                          (xr_classifications x) (xr_classification_audits x) (xr_outputs x)
                          (xr_runtime_classification x) rejected_profile_hash) (\<lambda>file_results.
              and_then (map_err scheduler_internal (extension_metrics (xr_inventory x) file_results)) (\<lambda>metrics.
              Ok (conclude_rendered sha x rendered file_results metrics)))))"

section \<open>Warnings\<close>

lemma warning_of_simps [simp]:
  "rg_severity (warning_of d) = SevWarning" "rg_diagnostic (warning_of d) = d"
  "rg_severity (error_of d) = SevError" "rg_diagnostic (error_of d) = d"
  by (simp_all add: warning_of_def error_of_def)

lemma severity_not_error [simp]: "s \<noteq> SevError \<longleftrightarrow> s = SevWarning"
  by (cases s) auto

lemma severity_not_warning: "s \<noteq> SevWarning \<longleftrightarrow> s = SevError"
  by (cases s) auto

lemma aggregate_severity [simp]: "rg_severity (aggregate_warning folded) = SevWarning"
  by (simp add: aggregate_warning_def Let_def split: prod.splits)

lemma aggregate_fields:
  "dg_error_code (rg_diagnostic (aggregate_warning folded)) = DiagnosticsAggregated"
  "dg_retryable (rg_diagnostic (aggregate_warning folded)) \<longleftrightarrow> (\<exists>r \<in> set folded. dg_retryable (rg_diagnostic r))"
  "validate_diagnostic (rg_diagnostic (aggregate_warning folded)) = Ok ()"
  by (auto simp: aggregate_warning_def validate_diagnostic_def list_ex_iff lit_def Let_def split: prod.splits)

lemma sum_count_list: "sum_list (map (count_list ks) (sort (remdups ks))) = length ks"
proof -
  have "sum_list (map (count_list ks) (sort (remdups ks))) = sum (count_list ks) (set ks)"
    by (simp add: sum_list_distinct_conv_sum_set)
  also have "\<dots> = length ks" by (rule sum_count_set) simp_all
  finally show ?thesis .
qed

lemma warning_groups_total: "sum_list (map snd (warning_groups folded)) = length folded"
  using sum_count_list [of "map group_key folded"] by (simp add: warning_groups_def Let_def comp_def)

lemma project_warnings_split:
  "filter (\<lambda>r. rg_severity r = SevError) (project_warnings ds) = filter (\<lambda>r. rg_severity r = SevError) ds"
  "filter (\<lambda>r. rg_severity r = SevWarning) (project_warnings ds) =
     (let warnings = filter (\<lambda>r. rg_severity r = SevWarning) ds
      in if length warnings \<le> 256 then warnings
         else take 256 warnings @ [aggregate_warning (drop 256 warnings)])"
proof -
  have no_errors: "filter (\<lambda>r. rg_severity r = SevError) (take n (filter (\<lambda>r. rg_severity r = SevWarning) ds)) = []"
    and all_warnings: "filter (\<lambda>r. rg_severity r = SevWarning) (take n (filter (\<lambda>r. rg_severity r = SevWarning) ds)) =
      take n (filter (\<lambda>r. rg_severity r = SevWarning) ds)" for n
    by (auto simp: filter_empty_conv filter_id_conv dest!: in_set_takeD)
  show "filter (\<lambda>r. rg_severity r = SevError) (project_warnings ds) = filter (\<lambda>r. rg_severity r = SevError) ds"
    using no_errors [of 256] by (simp add: project_warnings_def Let_def)
  show "filter (\<lambda>r. rg_severity r = SevWarning) (project_warnings ds) =
     (let warnings = filter (\<lambda>r. rg_severity r = SevWarning) ds
      in if length warnings \<le> 256 then warnings
         else take 256 warnings @ [aggregate_warning (drop 256 warnings)])"
    using all_warnings [of 256] by (simp add: project_warnings_def Let_def)
qed

text \<open>Warnings are bounded without losing an error: every error diagnostic passes through in
  order, at most 257 warnings remain, the first 256 are the original ones, and any further
  ones are folded into one valid aggregate that is retryable when one of them was and whose
  groups count every folded warning.\<close>

theorem project_warnings_bounded:
  "let warnings = filter (\<lambda>r. rg_severity r = SevWarning) ds;
       projected = filter (\<lambda>r. rg_severity r = SevWarning) (project_warnings ds);
       folded = drop 256 warnings
   in filter (\<lambda>r. rg_severity r = SevError) (project_warnings ds) = filter (\<lambda>r. rg_severity r = SevError) ds
    \<and> length projected \<le> 257 \<and> take 256 projected = take 256 warnings
    \<and> (folded = [] \<longrightarrow> projected = warnings)
    \<and> (folded \<noteq> [] \<longrightarrow> (\<exists>a. projected = take 256 warnings @ [a]
         \<and> dg_error_code (rg_diagnostic a) = DiagnosticsAggregated
         \<and> validate_diagnostic (rg_diagnostic a) = Ok ()
         \<and> (dg_retryable (rg_diagnostic a) \<longleftrightarrow> (\<exists>r \<in> set folded. dg_retryable (rg_diagnostic r)))
         \<and> sum_list (map snd (warning_groups folded)) = length folded))"
  using project_warnings_split [of ds] aggregate_fields [of "drop 256 (filter (\<lambda>r. rg_severity r = SevWarning) ds)"]
  by (auto simp: Let_def warning_groups_total)

theorem project_warnings_bounded_witness:
  "length (filter (\<lambda>r. rg_severity r = SevWarning)
     (project_warnings (replicate 300 (warning_of (deadline_diagnostic (lit ''late'')))))) = 257"
  using project_warnings_bounded [of "replicate 300 (warning_of (deadline_diagnostic (lit ''late'')))"]
  by (auto simp: Let_def)

section \<open>Terminal state\<close>

lemma terminal_intent_cases:
  "fst (terminal_state rendered rows runtime outputs n) =
     (if \<not> has_failure rendered runtime outputs n then IntentSuccess
      else if co_included_file_count rendered = 0 then IntentError else IntentPartial)"
  by (simp add: terminal_state_def Let_def)

lemma terminal_warnings:
  "filter (\<lambda>r. rg_severity r = SevWarning) (snd (terminal_state rendered rows runtime outputs n)) =
     (if 0 < n then [warning_of (deadline_diagnostic (lit ''work deadline exhausted; remaining work stopped''))] else [])
     @ (if has_failure rendered runtime outputs n then map warning_of (row_errors rows) else [])"
  by (auto simp: terminal_state_def Let_def filter_id_conv comp_def split: list.splits)

lemma terminal_errors:
  "filter (\<lambda>r. rg_severity r = SevError) (snd (terminal_state rendered rows runtime outputs n)) =
     (if fst (terminal_state rendered rows runtime outputs n) = IntentError
      then (case row_errors rows of
              primary # _ \<Rightarrow> [error_of primary]
            | [] \<Rightarrow> if 0 < n then [error_of (deadline_diagnostic (lit ''work deadline exhausted before any included context''))]
                else [])
      else [])"
  by (auto simp: terminal_state_def Let_def filter_empty_conv comp_def split: list.splits)

text \<open>The intent of a run: success exactly when no file failed or timed out and no deadline was
  hit, an error exactly when something failed and nothing was included, partial otherwise.
  Every error of a row is reported as a warning, verbatim, and an error intent carries exactly
  one error diagnostic, the first row error or else the deadline, unless neither exists.\<close>

theorem terminal_state_contract:
  assumes "terminal_state rendered rows runtime outputs n = (intent, diagnostics)"
  shows "(intent = IntentSuccess \<longleftrightarrow> \<not> has_failure rendered runtime outputs n)
    \<and> (intent = IntentError \<longleftrightarrow> has_failure rendered runtime outputs n \<and> co_included_file_count rendered = 0)
    \<and> (intent \<noteq> IntentSuccess \<longrightarrow> (\<forall>row \<in> set rows. \<forall>d. fr_error row = Some d \<longrightarrow> warning_of d \<in> set diagnostics))
    \<and> (intent = IntentSuccess \<longrightarrow> diagnostics = [])
    \<and> (let errors = filter (\<lambda>r. rg_severity r = SevError) diagnostics
       in (intent \<noteq> IntentError \<longrightarrow> errors = [])
        \<and> (intent = IntentError \<and> row_errors rows \<noteq> [] \<longrightarrow> errors = [error_of (hd (row_errors rows))])
        \<and> (intent = IntentError \<and> row_errors rows = [] \<longrightarrow> length errors = (if 0 < n then 1 else 0)))"
proof -
  let ?t = "terminal_state rendered rows runtime outputs n"
  have t: "fst ?t = intent" "snd ?t = diagnostics" using assms by simp_all
  have ints: "(intent = IntentSuccess \<longleftrightarrow> \<not> has_failure rendered runtime outputs n)
      \<and> (intent = IntentError \<longleftrightarrow> has_failure rendered runtime outputs n \<and> co_included_file_count rendered = 0)"
    using terminal_intent_cases [of rendered rows runtime outputs n] t(1) by auto
  have "warning_of d \<in> set diagnostics"
    if "intent \<noteq> IntentSuccess" "row \<in> set rows" "fr_error row = Some d" for row d
  proof -
    have "d \<in> set (row_errors rows)" using that(2,3) by (force simp: row_errors_def map_filter_def)
    moreover have "has_failure rendered runtime outputs n" using that(1) ints by simp
    ultimately have "warning_of d \<in> set (filter (\<lambda>r. rg_severity r = SevWarning) diagnostics)"
      unfolding t(2) [symmetric] terminal_warnings by auto
    then show ?thesis by simp
  qed
  moreover have "diagnostics = []" if "intent = IntentSuccess"
    using that ints assms by (simp add: terminal_state_def Let_def has_failure_def split: if_splits)
  ultimately show ?thesis
    using ints terminal_errors [of rendered rows runtime outputs n] t
    by (auto simp: Let_def split: list.splits)
qed

section \<open>The conclusion\<close>

lemma build_evidence_member:
  assumes "build_evidence rel discovery classified admission cs runtime outputs = Ok evidence" and "e \<in> set evidence"
  obtains plan f p where "plan \<in> set classified" and "file_of rel (snapshot_of discovery) plan = Ok (f, p)"
    and "e = file_evidence f p (action_of admission plan) cs runtime outputs"
  using assms unfolding build_evidence_def collect_results_Ok
  by (auto simp: list_all2_conv_all_nth in_set_conv_nth split: prod.splits) (metis nth_mem)

lemma build_file_results_member:
  assumes "build_file_results sha rel classified snapshot admission cs audits outputs runtime h = Ok rows"
    and "plan \<in> set classified" and "file_of rel snapshot plan = Ok (f, p)"
  shows "file_result sha f p (action_of admission plan) cs audits outputs runtime h \<in> set rows"
  using assms unfolding build_file_results_def collect_results_Ok
  by (fastforce simp: list_all2_conv_all_nth in_set_conv_nth)

lemma failed_file_of_context:
  assumes "build_context uni enc evidence profile mode = Ok out"
    and "0 < co_error_file_count out \<or> 0 < co_timeout_count out"
  shows "\<exists>e \<in> set evidence. ev_parse_status e \<in> {Error, Timeout} \<and> ev_error e \<noteq> None"
  using assms(1)
proof (rule build_context_Ok)
  fix decided s
  assume dec: "decide_files uni enc evidence profile = Ok decided"
    and "co_timeout_count out = status_count Timeout decided" "co_error_file_count out = status_count Error decided"
  with assms(2) obtain d where d: "d \<in> set decided" "ev_parse_status (de_evidence d) \<in> {Error, Timeout}"
    by (auto simp: status_count_def filter_empty_conv)
  from decided_of_evidence [OF dec d(1)] obtain e where "e \<in> set evidence" "de_evidence d = e" "validate_evidence enc e = Ok ()"
    by auto
  with d(2) show ?thesis by (auto simp: validate_evidence_def)
qed

lemma has_row_error:
  assumes "build_evidence rel discovery classified admission cs runtime outputs = Ok evidence"
    and "build_context uni enc evidence profile mode = Ok out"
    and "build_file_results sha rel classified (snapshot_of discovery) admission cs audits outputs runtime h = Ok rows"
    and "0 < co_error_file_count out \<or> 0 < co_timeout_count out"
    and lost: "\<And>plan f p. plan \<in> set classified \<Longrightarrow> file_of rel (snapshot_of discovery) plan = Ok (f, p) \<Longrightarrow>
      \<not> lost_result f (action_of admission plan) cs runtime outputs"
  shows "row_errors rows \<noteq> []"
proof -
  from failed_file_of_context [OF assms(2,4)] obtain e where e: "e \<in> set evidence" "ev_error e \<noteq> None" by blast
  from build_evidence_member [OF assms(1) e(1)] obtain plan f p
    where plan: "plan \<in> set classified" "file_of rel (snapshot_of discovery) plan = Ok (f, p)"
      and ev: "e = file_evidence f p (action_of admission plan) cs runtime outputs" by blast
  let ?row = "file_result sha f p (action_of admission plan) cs audits outputs runtime h"
  have "fr_error ?row \<noteq> None"
    using evidence_row_agree [OF lost [OF plan], of p sha] e(2) ev by (simp add: Let_def row_fields)
  with build_file_results_member [OF assms(3) plan] show ?thesis
    by (force simp: row_errors_def map_filter_def filter_empty_conv)
qed

lemma project_warnings_Nil: "project_warnings ds = [] \<longleftrightarrow> ds = []"
proof -
  have "ds = []" if "project_warnings ds = []"
  proof -
    have "filter (\<lambda>r. rg_severity r = SevError) ds = []" "filter (\<lambda>r. rg_severity r = SevWarning) ds = []"
      using that project_warnings_split [of ds] by (auto simp: Let_def split: if_splits)
    then show ?thesis by (cases ds) (auto simp: filter_empty_conv split: if_splits)
  qed
  then show ?thesis by (auto simp: project_warnings_def)
qed

lemma project_warnings_errors:
  "(\<exists>r \<in> set (project_warnings ds). rg_severity r = SevError) \<longleftrightarrow> (\<exists>r \<in> set ds. rg_severity r = SevError)"
  using arg_cong [OF project_warnings_split(1), of set ds] by auto

lemma project_warnings_count: "length (filter (\<lambda>r. rg_severity r = SevWarning) (project_warnings ds)) \<le> 257"
  by (simp add: project_warnings_split(2) Let_def)

lemma conclude_run_cases:
  assumes "conclude_run uni enc sha rel profile h x = Ok c"
  obtains (refused) code message where "c = internal_error_outcome x code message"
  | (rendered) evidence rendered rows metrics where
      "build_evidence rel (xr_discovery x) (xr_classified x) (xr_admission x) (xr_classifications x)
         (xr_runtime_classification x) (xr_outputs x) = Ok evidence"
      "build_context uni enc evidence (ns_context profile) (ns_report_mode profile) = Ok rendered"
      "build_file_results sha rel (xr_classified x) (snapshot_of (xr_discovery x)) (xr_admission x)
         (xr_classifications x) (xr_classification_audits x) (xr_outputs x) (xr_runtime_classification x) h = Ok rows"
      "c = conclude_rendered sha x rendered rows metrics"
proof -
  from assms obtain evidence where ev: "build_evidence rel (xr_discovery x) (xr_classified x) (xr_admission x)
      (xr_classifications x) (xr_runtime_classification x) (xr_outputs x) = Ok evidence"
    by (auto simp: conclude_run_def)
  show thesis
  proof (cases "build_context uni enc evidence (ns_context profile) (ns_report_mode profile)")
    case (Err message)
    with assms ev show thesis by (auto simp: conclude_run_def intro: refused)
  next
    case out: (Ok out)
    show thesis
    proof (cases "enforce_rendered_within_reserved out (xr_admission x) (xr_model x)")
      case (Err failure)
      with assms ev out show thesis by (auto simp: conclude_run_def intro: refused)
    next
      case (Ok u)
      with assms ev out show thesis by (auto simp: conclude_run_def intro: rendered [OF ev out])
    qed
  qed
qed

text \<open>What \<open>execute\<close> leaves to its conclusion: warnings only, every deadline stop counted, and no
  admitted file without an outcome.\<close>

definition phases_complete :: "(rstring \<Rightarrow> (rstring, rstring) result) \<Rightarrow> executed_run \<Rightarrow> bool" where
  "phases_complete rel x \<longleftrightarrow>
     (\<forall>r \<in> set (xr_diagnostics x). rg_severity r = SevWarning)
     \<and> (xr_runtime_classification x \<noteq> {} \<or> po_runtime_not_parsed (xr_outputs x) \<noteq> {} \<longrightarrow>
          0 < xr_stage_deadline_exhausted_count x)
     \<and> (\<forall>plan \<in> set (xr_classified x). case file_of rel (snapshot_of (xr_discovery x)) plan of
          Err _ \<Rightarrow> True
        | Ok (f, _) \<Rightarrow> \<not> lost_result f (action_of (xr_admission x) plan) (xr_classifications x)
            (xr_runtime_classification x) (xr_outputs x))"

lemma terminal_error_reported:
  assumes "terminal_state out rows runtime outputs n = (intent, ds)"
    and "0 < co_error_file_count out \<or> 0 < co_timeout_count out \<Longrightarrow> row_errors rows \<noteq> []"
    and "runtime \<noteq> {} \<or> po_runtime_not_parsed outputs \<noteq> {} \<Longrightarrow> 0 < n"
  shows "(\<exists>r \<in> set ds. rg_severity r = SevError) \<longleftrightarrow> intent = IntentError"
proof -
  have t: "fst (terminal_state out rows runtime outputs n) = intent" "snd (terminal_state out rows runtime outputs n) = ds"
    using assms(1) by simp_all
  have "(\<exists>r \<in> set ds. rg_severity r = SevError) \<longleftrightarrow> filter (\<lambda>r. rg_severity r = SevError) ds \<noteq> []"
    by (auto simp: filter_empty_conv severity_not_warning)
  moreover have "row_errors rows \<noteq> [] \<or> 0 < n" if "intent = IntentError"
    using that assms(2,3) terminal_intent_cases [of out rows runtime outputs n] t(1)
    by (auto simp: has_failure_def split: if_splits)
  ultimately show ?thesis
    using terminal_errors [of out rows runtime outputs n] unfolding t
    by (cases "intent = IntentError"; cases "row_errors rows") auto
qed

lemma conclude_rendered_fields:
  assumes "terminal_state out rows (xr_runtime_classification x) (xr_outputs x) (xr_stage_deadline_exhausted_count x) = (intent, ds)"
    and "final = (if intent = IntentSuccess \<and> (\<exists>r \<in> set (project_warnings (collected_diagnostics x ds)). rg_severity r = SevWarning)
           then IntentPartial else intent)"
  shows "rn_terminal_intent (conclude_rendered sha x out rows metrics) = final"
    and "rn_diagnostics (conclude_rendered sha x out rows metrics) = project_warnings (collected_diagnostics x ds)"
    and "rn_context (conclude_rendered sha x out rows metrics) =
      (if final = IntentError \<or> co_content out = [] then None
       else Some \<lparr>cn_context_profile_hash = xr_context_profile_hash x, cn_status = intent_status final, cn_final_context = co_content out,
         cn_context_sha256 = sha (co_content out), cn_summary = summary_of x out, cn_decisions = co_decisions out\<rparr>)"
  using assms by (simp_all add: conclude_rendered_def Let_def list_ex_iff)

lemma conclude_rendered_diagnostics:
  assumes "phases_complete rel x" and "terminal_state out rows (xr_runtime_classification x) (xr_outputs x)
      (xr_stage_deadline_exhausted_count x) = (intent, ds)"
    and "0 < co_error_file_count out \<or> 0 < co_timeout_count out \<Longrightarrow> row_errors rows \<noteq> []"
  shows "(\<exists>r \<in> set (project_warnings (collected_diagnostics x ds)). rg_severity r = SevError) \<longleftrightarrow> intent = IntentError"
proof -
  have "(\<exists>r \<in> set ds. rg_severity r = SevError) \<longleftrightarrow> intent = IntentError"
    by (rule terminal_error_reported [OF assms(2,3)]) (use assms(1) in \<open>auto simp: phases_complete_def\<close>)
  moreover have "(\<exists>r \<in> set (collected_diagnostics x ds). rg_severity r = SevError) \<longleftrightarrow> (\<exists>r \<in> set ds. rg_severity r = SevError)"
    using assms(1) by (auto simp: collected_diagnostics_def phases_complete_def)
  ultimately show ?thesis by (simp add: project_warnings_errors)
qed

lemma evidence_length:
  "build_evidence rel discovery classified admission cs runtime outputs = Ok evidence \<Longrightarrow> length evidence = length classified"
  by (auto simp: build_evidence_def collect_results_Ok dest: list_all2_lengthD)

text \<open>What a concluded run promises to the shell. A success has no diagnostics at all; an error
  is exactly a run without a context and always carries an error diagnostic; a run with a
  context, complete or partial, carries none, its text is within the global budget and its
  summary validates and counts every file. At most 257 warnings are reported in any case.\<close>

lemma conclusion_contract:
  assumes ok: "conclude_run uni enc sha rel profile h x = Ok c" and complete: "phases_complete rel x"
    and small: "length (xr_classified x) \<le> u64_max"
  shows "(rn_terminal_intent c = IntentSuccess \<longrightarrow> rn_diagnostics c = [])
    \<and> (rn_terminal_intent c = IntentError \<longleftrightarrow> rn_context c = None)
    \<and> (rn_terminal_intent c = IntentError \<longleftrightarrow> (\<exists>r \<in> set (rn_diagnostics c). rg_severity r = SevError))
    \<and> length (filter (\<lambda>r. rg_severity r = SevWarning) (rn_diagnostics c)) \<le> 257
    \<and> (\<forall>n. rn_context c = Some n \<longrightarrow> cn_final_context n \<noteq> []
         \<and> length (cn_final_context n) \<le> cp_global_max_chars (ns_context profile)
         \<and> cn_status n = intent_status (rn_terminal_intent c)
         \<and> validate_context_summary (cn_summary n) = Ok ()
         \<and> cs_source_file_count (cn_summary n) = length (xr_classified x)
         \<and> cs_included_file_count (cn_summary n) = cs_success_count (cn_summary n))"
  using ok
proof (cases rule: conclude_run_cases)
  case (refused code message)
  then show ?thesis using project_warnings_count [of "xr_diagnostics x"]
    by (simp add: internal_error_outcome_def)
next
  case (rendered evidence out rows metrics)
  obtain intent ds where t: "terminal_state out rows (xr_runtime_classification x) (xr_outputs x)
      (xr_stage_deadline_exhausted_count x) = (intent, ds)" by force
  have lost: "\<not> lost_result f (action_of (xr_admission x) plan) (xr_classifications x)
      (xr_runtime_classification x) (xr_outputs x)"
    if "plan \<in> set (xr_classified x)" "file_of rel (snapshot_of (xr_discovery x)) plan = Ok (f, p)" for plan f p
    using complete that by (fastforce simp: phases_complete_def)
  let ?ds = "project_warnings (collected_diagnostics x ds)"
  define final where "final = (if intent = IntentSuccess \<and> (\<exists>r \<in> set ?ds. rg_severity r = SevWarning)
    then IntentPartial else intent)"
  note c = conclude_rendered_fields [OF t final_def, of sha metrics, folded rendered(4)]
  have error: "(\<exists>r \<in> set ?ds. rg_severity r = SevError) \<longleftrightarrow> intent = IntentError"
    by (rule conclude_rendered_diagnostics [OF complete t], rule has_row_error [OF rendered(1-3)], assumption, rule lost)
  have final: "final = IntentError \<longleftrightarrow> intent = IntentError" by (simp add: final_def)
  have "?ds = []" if "final = IntentSuccess"
  proof -
    have "\<forall>r \<in> set ?ds. rg_severity r \<noteq> SevWarning" and "intent \<noteq> IntentError"
      using that by (auto simp: final_def split: if_splits)
    with error show ?thesis by (metis diagnostic_severity.exhaust last_in_set)
  qed
  note facts = build_context_facts [OF rendered(2)] evidence_length [OF rendered(1)]
  have "validate_context_summary (summary_of x out) = Ok ()"
    using facts small by (auto simp: validate_context_summary_def summary_of_def checked_add_def)
  then show ?thesis
    using c error final project_warnings_count facts \<open>final = IntentSuccess \<Longrightarrow> ?ds = []\<close>
    by (simp add: summary_of_def)
qed

section \<open>Witnesses\<close>

text \<open>A run over the note of the fixtures, parsed, with its row.\<close>

definition fixture_classified :: classified_plan where
  "fixture_classified = \<lparr>cl_file_identity = lit ''b'', cl_relative_path = lit ''/w/b.txt'', cl_extension = lit ''.txt'',
     cl_priority = 0, cl_action = Admit LightText, cl_pdf_classification = NotPdf\<rparr>"

definition fixture_executed :: executed_run where
  "fixture_executed = \<lparr>xr_context_profile_hash = lit ''profile'', xr_discovery = [fixture_discovered], xr_inventory = [], xr_classified = [fixture_classified],
     xr_admission = [], xr_classifications = Map.empty, xr_classification_audits = Map.empty,
     xr_runtime_classification = {}, xr_outputs = no_outputs\<lparr>po_results := [lit ''b'' \<mapsto> fixture_parsed]\<rparr>,
     xr_model = fixture_model, xr_diagnostics = [], xr_stage_deadline_exhausted_count = 0,
     xr_parse_attempt_count = 1, xr_discovery_ms = 1, xr_cache_ms = 1, xr_parse_ms = 3, xr_compression_ms = 1\<rparr>"

definition fixture_rel :: "rstring \<Rightarrow> (rstring, rstring) result" where
  "fixture_rel path = Ok (drop 3 path)"

lemma fixture_file_of:
  "file_of fixture_rel (snapshot_of [fixture_discovered]) fixture_classified = Ok (fixture_discovered, lit ''b.txt'')"
  by (simp add: file_of_def snapshot_of_def fixture_classified_def fixture_discovered_def fixture_rel_def ok_or_def lit_def)

lemma fixture_file_evidence:
  "file_evidence fixture_discovered (lit ''b.txt'') (Admit LightText) Map.empty {}
     (no_outputs\<lparr>po_results := [lit ''b'' \<mapsto> fixture_parsed]\<rparr>) = fixture_evidence"
  by (simp add: file_evidence_def base_evidence_def changed_result_def is_source_version_changed_result_def
      fixture_parsed_def fixture_discovered_def no_outputs_def fixture_evidence_def parse_worker_lane_def Let_def)

lemma fixture_build_evidence:
  "build_evidence fixture_rel [fixture_discovered] [fixture_classified] [] Map.empty {}
     (no_outputs\<lparr>po_results := [lit ''b'' \<mapsto> fixture_parsed]\<rparr>) = Ok [fixture_evidence]"
  using fixture_file_evidence
  by (simp add: build_evidence_def fixture_file_of action_of_def) (simp add: fixture_classified_def)

lemma fixture_concluded:
  "\<exists>c. conclude_run id (\<lambda>_. 0) id fixture_rel daily_settings (lit ''hash'') fixture_executed = Ok c \<and> rn_context c \<noteq> None"
proof -
  obtain out where out: "build_context id (\<lambda>_. 0) [fixture_evidence] (ns_context daily_settings) Daily = Ok out"
    using fixture_run_builds by blast
  have counts: "co_error_file_count out = 0 \<and> co_timeout_count out = 0"
  proof (rule ccontr)
    assume "\<not> ?thesis"
    then have "0 < co_error_file_count out \<or> 0 < co_timeout_count out" by auto
    from failed_file_of_context [OF out this] show False using fixture_evidence_Success by simp
  qed
  let ?outputs = "no_outputs\<lparr>po_results := [lit ''b'' \<mapsto> fixture_parsed]\<rparr>"
  let ?row = "file_result id fixture_discovered (lit ''b.txt'') (action_of [] fixture_classified) Map.empty Map.empty
    ?outputs {} (lit ''hash'')"
  have rows: "build_file_results id fixture_rel [fixture_classified] (snapshot_of [fixture_discovered]) [] Map.empty
      Map.empty ?outputs {} (lit ''hash'') = Ok [?row]"
    by (simp add: build_file_results_def fixture_file_of)
  have mode: "ns_report_mode daily_settings = Daily" by (simp add: daily_settings_def)
  have run: "conclude_run id (\<lambda>_. 0) id fixture_rel daily_settings (lit ''hash'') fixture_executed =
      Ok (conclude_rendered id fixture_executed out [?row] [])"
    by (simp add: conclude_run_def fixture_executed_def fixture_build_evidence mode out rows extension_metrics_def)
  have "terminal_state out [?row] (xr_runtime_classification fixture_executed) (xr_outputs fixture_executed)
      (xr_stage_deadline_exhausted_count fixture_executed) = (IntentSuccess, [])"
    using counts by (simp add: terminal_state_def has_failure_def fixture_executed_def no_outputs_def)
  from conclude_rendered_fields(3) [OF this refl, of id "[]"] run show ?thesis
    using build_context_facts [OF out] by auto
qed

lemma fixture_phases: "phases_complete fixture_rel fixture_executed"
proof -
  have "file_of fixture_rel (snapshot_of (xr_discovery fixture_executed)) fixture_classified =
      Ok (fixture_discovered, lit ''b.txt'')"
    using fixture_file_of by (simp add: fixture_executed_def)
  then show ?thesis
    by (simp add: phases_complete_def)
      (simp add: fixture_executed_def no_outputs_def lost_result_def fixture_discovered_def)
qed

theorem conclusion_contract_witness:
  "\<exists>c n. conclude_run id (\<lambda>_. 0) id fixture_rel daily_settings (lit ''hash'') fixture_executed = Ok c
     \<and> rn_context c = Some n \<and> rn_terminal_intent c \<noteq> IntentError \<and> cs_source_file_count (cn_summary n) = 1"
proof -
  obtain c where c: "conclude_run id (\<lambda>_. 0) id fixture_rel daily_settings (lit ''hash'') fixture_executed = Ok c"
    "rn_context c \<noteq> None" using fixture_concluded by blast
  have one: "length (xr_classified fixture_executed) = 1" by (simp add: fixture_executed_def)
  then have "length (xr_classified fixture_executed) \<le> u64_max" by (simp add: u64_max_def)
  from conclusion_contract [OF c(1) fixture_phases this] c one show ?thesis by auto
qed

text \<open>One file that failed and nothing else.\<close>

definition fixture_failed_output :: context_build_output where
  "fixture_failed_output = \<lparr>co_content = lit ''x'', co_source_file_count = 1, co_success_count = 0, co_timeout_count = 0,
     co_included_file_count = 0, co_omitted_file_count = 0, co_error_file_count = 1, co_input_chars = 0,
     co_output_chars = 1, co_metadata_only_count = 0, co_compressed_file_count = 0, co_truncated_file_count = 0,
     co_decisions = [], co_rendered_by_identity = Map.empty\<rparr>"

definition fixture_failed_row :: file_result_record where
  "fixture_failed_row = file_result id fixture_discovered (lit ''b.txt'') (Reject RejectSourceGuardUnavailable)
     Map.empty Map.empty no_outputs {} (lit ''hash'')"

lemma fixture_failed_row_error:
  "fr_error fixture_failed_row = Some (reject_error fixture_discovered RejectSourceGuardUnavailable)"
  by (simp add: fixture_failed_row_def row_fields outcome_of_def changed_result_def no_outputs_def empty_outcome_def Let_def)

theorem terminal_state_contract_witness:
  "filter (\<lambda>r. rg_severity r = SevError) (snd (terminal_state fixture_failed_output [fixture_failed_row] {} no_outputs 0)) =
     [error_of (reject_error fixture_discovered RejectSourceGuardUnavailable)]"
proof -
  have "row_errors [fixture_failed_row] = [reject_error fixture_discovered RejectSourceGuardUnavailable]"
    by (simp add: row_errors_def map_filter_def fixture_failed_row_error)
  moreover have "fst (terminal_state fixture_failed_output [fixture_failed_row] {} no_outputs 0) = IntentError"
    by (simp add: terminal_intent_cases has_failure_def fixture_failed_output_def)
  ultimately show ?thesis
    using terminal_state_contract [OF prod.collapse [symmetric],
      of fixture_failed_output "[fixture_failed_row]" "{}" no_outputs 0] by (simp add: Let_def)
qed

end
