(* ===== verification/Deadline.thy ===== *)
theory Deadline
  imports Scanner_Settings
begin

text \<open>
  \<open>src/rust/scanner_core/src/deadline.rs\<close>: the deadlines of a run, derived once from one clock
  reading. The clock is a trait; what the code uses of it is the reading \<open>now_ms\<close>, an argument
  here.
\<close>

definition FINALIZATION_RESERVE_MS :: u64 where "FINALIZATION_RESERVE_MS = 2000"

record run_deadlines =
  rd_origin_ms :: u64
  rd_work_deadline_ms :: u64
  rd_absolute_deadline_ms :: u64

definition validate_run_deadlines :: "run_deadlines \<Rightarrow> u64 \<Rightarrow> check" where
  "validate_run_deadlines d total_deadline_ms =
     require (\<not> (checked_sub (rd_absolute_deadline_ms d) (rd_origin_ms d) \<noteq> Some total_deadline_ms
         \<or> checked_sub (rd_absolute_deadline_ms d) (rd_work_deadline_ms d) \<noteq> Some FINALIZATION_RESERVE_MS
         \<or> rd_work_deadline_ms d \<le> rd_origin_ms d))
       (lit ''deadline pair does not match the profile total and finalization reserve'')"

definition RunDeadlines_derive :: "u64 \<Rightarrow> u64 \<Rightarrow> (run_deadlines, rstring) result" where
  "RunDeadlines_derive total_deadline_ms now_ms =
     and_then (ok_or (lit ''deadline arithmetic overflowed'') (checked_add now_ms total_deadline_ms)) (\<lambda>absolute.
     and_then (ok_or (lit ''work deadline underflowed'') (checked_sub absolute FINALIZATION_RESERVE_MS)) (\<lambda>work.
     let d = \<lparr>rd_origin_ms = now_ms, rd_work_deadline_ms = work, rd_absolute_deadline_ms = absolute\<rparr>
     in and_then (validate_run_deadlines d total_deadline_ms) (\<lambda>_. Ok d)))"

definition remaining_to_work_deadline :: "run_deadlines \<Rightarrow> u64 \<Rightarrow> u64" where
  "remaining_to_work_deadline d now_ms = saturating_sub (rd_work_deadline_ms d) now_ms"

definition remaining_to_absolute_deadline :: "run_deadlines \<Rightarrow> u64 \<Rightarrow> u64" where
  "remaining_to_absolute_deadline d now_ms = saturating_sub (rd_absolute_deadline_ms d) now_ms"

lemma derive_Ok_iff:
  "RunDeadlines_derive t now = Ok d \<longleftrightarrow>
     now + t \<le> u64_max \<and> FINALIZATION_RESERVE_MS < t
     \<and> d = \<lparr>rd_origin_ms = now, rd_work_deadline_ms = now + t - FINALIZATION_RESERVE_MS,
            rd_absolute_deadline_ms = now + t\<rparr>"
  by (auto simp: RunDeadlines_derive_def validate_run_deadlines_def checked_sub_def FINALIZATION_RESERVE_MS_def Let_def)

text \<open>Valid settings always yield deadlines while the clock is below its maximum: work stops
  exactly two seconds before the absolute deadline, some work time is left, and once the work
  deadline has passed the finalisation reserve is all that can remain.\<close>

theorem deadlines_of_valid_settings:
  assumes "validate_normalized_settings s = Ok ()" and "now_ms \<le> u64_max - 3600000"
  shows "\<exists>d. RunDeadlines_derive (ns_total_deadline_ms s) now_ms = Ok d
    \<and> validate_run_deadlines d (ns_total_deadline_ms s) = Ok ()
    \<and> now_ms < rd_work_deadline_ms d
    \<and> rd_work_deadline_ms d + FINALIZATION_RESERVE_MS = rd_absolute_deadline_ms d
    \<and> (\<forall>later. remaining_to_work_deadline d later = 0 \<longrightarrow>
         remaining_to_absolute_deadline d later \<le> FINALIZATION_RESERVE_MS)"
proof -
  have total: "5000 \<le> ns_total_deadline_ms s" "ns_total_deadline_ms s \<le> 3600000"
    using valid_settings_quotas [OF assms(1)] by simp_all
  let ?d = "\<lparr>rd_origin_ms = now_ms, rd_work_deadline_ms = now_ms + ns_total_deadline_ms s - FINALIZATION_RESERVE_MS,
     rd_absolute_deadline_ms = now_ms + ns_total_deadline_ms s\<rparr>"
  have "RunDeadlines_derive (ns_total_deadline_ms s) now_ms = Ok ?d"
    using total assms(2) unfolding derive_Ok_iff by (simp add: FINALIZATION_RESERVE_MS_def u64_max_def)
  moreover have "validate_run_deadlines ?d (ns_total_deadline_ms s) = Ok ()"
    using total by (simp add: validate_run_deadlines_def checked_sub_def FINALIZATION_RESERVE_MS_def)
  moreover have "now_ms < rd_work_deadline_ms ?d
      \<and> rd_work_deadline_ms ?d + FINALIZATION_RESERVE_MS = rd_absolute_deadline_ms ?d
      \<and> (\<forall>later. remaining_to_work_deadline ?d later = 0 \<longrightarrow>
           remaining_to_absolute_deadline ?d later \<le> FINALIZATION_RESERVE_MS)"
    using total by (auto simp: FINALIZATION_RESERVE_MS_def remaining_to_work_deadline_def
        remaining_to_absolute_deadline_def saturating_sub_def)
  ultimately show ?thesis by blast
qed


theorem deadlines_of_valid_settings_witness:
  "\<exists>d. RunDeadlines_derive (ns_total_deadline_ms daily_settings) 1000 = Ok d \<and> 1000 < rd_work_deadline_ms d"
  using deadlines_of_valid_settings [OF daily_settings_valid, of 1000] by (auto simp: u64_max_def)

end
