(* ===== verification/Scheduler_Ports.thy ===== *)
theory Scheduler_Ports
  imports Scheduler_Files Deadline
begin

text \<open>
  The seams of \<open>src/rust/scanner_core/src/scheduler.rs\<close>: the clock, the guard verifier, the cache
  and the parser and classifier behind their traits, the bounded executor of waves, the metrics
  of a run. A port is a function on an abstract world \<open>'w\<close> that it may change, so nothing is
  assumed about time, the file system, the database or the workers beyond what a theorem
  states; sequencing is the threading of the world.
\<close>

section \<open>Cache errors and lookups\<close>

datatype cache_port_error =
    PortStore rstring | PortInvalidKey rstring | PortDeadlineExhausted rstring

fun port_error_detail :: "cache_port_error \<Rightarrow> rstring" where
  "port_error_detail (PortStore detail) = detail"
| "port_error_detail (PortInvalidKey detail) = detail"
| "port_error_detail (PortDeadlineExhausted detail) = detail"

definition port_error_diagnostic :: "cache_port_error \<Rightarrow> diagnostic_stage \<Rightarrow> diagnostic" where
  "port_error_diagnostic e stage =
     \<lparr>dg_error_code = (case e of PortStore _ \<Rightarrow> CacheWriteFailed | PortInvalidKey _ \<Rightarrow> InvalidRequest
                       | PortDeadlineExhausted _ \<Rightarrow> StageDeadlineExhausted),
      dg_message = port_error_detail e,
      dg_retryable = (case e of PortInvalidKey _ \<Rightarrow> False | _ \<Rightarrow> True),
      dg_stage = stage, dg_file_path = None, dg_backend = None\<rparr>"

record cache_entry =
  ch_content :: rstring
  ch_content_sha256 :: rstring
  ch_evidence_audit :: "parsed_content_audit option"
  ch_parser_backend :: rstring
  ch_worker_lane :: rstring
  ch_truncated :: bool
  ch_worker_contract_version :: rstring
  ch_worker_version :: rstring
  ch_worker_build :: rstring

datatype cache_lookup = LookupFresh cache_entry | LookupMiss cache_miss_reason

record parse_lookup_outcome =
  pl_parse_profile_hash :: rstring
  pl_lookup :: cache_lookup

datatype classification_miss_reason =
    ClassNewFile | ClassSourceVersionChanged | ClassifierIdentityChanged | ClassEntryAbsentOrEvicted

fun classification_miss_text :: "classification_miss_reason \<Rightarrow> rstring" where
  "classification_miss_text ClassNewFile = lit ''new_file''"
| "classification_miss_text ClassSourceVersionChanged = lit ''source_version_changed''"
| "classification_miss_text ClassifierIdentityChanged = lit ''classifier_identity_changed''"
| "classification_miss_text ClassEntryAbsentOrEvicted = lit ''entry_absent_or_evicted''"

datatype classification_lookup =
    ClassLookupFresh classification_cache_entry | ClassLookupMiss classification_miss_reason

section \<open>Requests\<close>

record parse_request =
  rq_selected_pdf_pages :: "u64 list option"
  rq_file :: discovered_file
  rq_route :: route_kind
  rq_timeout_ms :: u64

record classify_request =
  cq_file_path :: rstring
  cq_source_version :: rstring
  cq_max_pages :: u64
  cq_policy_version :: rstring

datatype classify_status = WorkText | WorkNoText | WorkUnknown | WorkError

record worker_diagnostic =
  wd_error_code :: rstring
  wd_message :: rstring
  wd_retryable :: bool
  wd_stage :: rstring
  wd_file_path :: "rstring option"
  wd_backend :: "rstring option"

record classify_result =
  cx_page_audit :: "pdf_page_audit option"
  cx_status :: classify_status
  cx_page_count :: "u64 option"
  cx_result_examined_pages :: "u64 option"
  cx_diagnostic :: "worker_diagnostic option"

record classifier_execution =
  xe_outcome :: "(classify_result, diagnostic) result"
  xe_transport :: classification_transport
  xe_attempt_count :: u64
  xe_duration_ms :: u64

record worker_identities =
  wi_office_contract :: "rstring option"
  wi_office_version :: "rstring option"
  wi_office_build :: "rstring option"
  wi_pdf_contract :: "rstring option"
  wi_pdf_version :: "rstring option"
  wi_pdf_build :: "rstring option"
  wi_classifier_build :: "rstring option"

definition WORKER_CONTRACT_VERSION :: rstring where
  "WORKER_CONTRACT_VERSION = lit ''ai_daily_worker_v4''"

definition PARSE_CACHE_PAYLOAD_VERSION :: u64 where "PARSE_CACHE_PAYLOAD_VERSION = 1"

definition worker_identity_for ::
  "worker_identities \<Rightarrow> rstring \<Rightarrow> rstring \<Rightarrow> route_kind \<Rightarrow> rstring \<times> rstring \<times> rstring" where
  "worker_identity_for workers engine_version engine_build route =
     (let unknown = lit ''unknown'' in
      case route of
        LightText \<Rightarrow> (lit ''ai_daily_context_v1'', engine_version, engine_build)
      | Pdf \<Rightarrow> (unwrap_or (wi_pdf_contract workers) WORKER_CONTRACT_VERSION,
                unwrap_or (wi_pdf_version workers) unknown, unwrap_or (wi_pdf_build workers) unknown)
      | _ \<Rightarrow> (unwrap_or (wi_office_contract workers) WORKER_CONTRACT_VERSION,
                unwrap_or (wi_office_version workers) unknown, unwrap_or (wi_office_build workers) unknown))"

section \<open>Ports\<close>

record 'w ports =
  pt_now :: "'w \<Rightarrow> u64 \<times> 'w"
  pt_verify :: "rstring \<Rightarrow> source_guard_v2 \<Rightarrow> 'w \<Rightarrow> bool \<times> 'w"
  pt_lookup_parse ::
    "discovered_file \<Rightarrow> route_kind \<Rightarrow> bool \<Rightarrow> 'w \<Rightarrow> (parse_lookup_outcome, cache_port_error) result \<times> 'w"
  pt_lookup_classification ::
    "discovered_file \<Rightarrow> rstring \<Rightarrow> rstring \<Rightarrow> bool \<Rightarrow> 'w \<Rightarrow> (classification_lookup, cache_port_error) result \<times> 'w"
  pt_write_parse :: "u64 \<Rightarrow> cache_write_record list \<Rightarrow> 'w \<Rightarrow> (unit, cache_port_error) result \<times> 'w"
  pt_write_classification ::
    "u64 \<Rightarrow> classification_write_record list \<Rightarrow> 'w \<Rightarrow> (unit, cache_port_error) result \<times> 'w"
  pt_parse :: "parse_request \<Rightarrow> 'w \<Rightarrow> parse_result \<times> 'w"
  pt_classify_pdf :: "classify_request \<Rightarrow> u64 \<Rightarrow> 'w \<Rightarrow> classifier_execution \<times> 'w"

section \<open>Waves\<close>

text \<open>
  \<open>WaveExecutor::map\<close>: \<open>par\<close> is the parallel map of the thread pool (\<open>rayon\<close>), used when there is a
  pool and more than one item; otherwise the items run one after the other. \<open>rayon\<close> documents
  that an indexed parallel map collects in input order; each output is then an output of the
  function on the item at its place, in whatever world the scheduling left.
\<close>

definition wave_map ::
  "(('a \<Rightarrow> 'w \<Rightarrow> 'b \<times> 'w) \<Rightarrow> 'a list \<Rightarrow> 'w \<Rightarrow> 'b list \<times> 'w) \<Rightarrow> nat \<Rightarrow> ('a \<Rightarrow> 'w \<Rightarrow> 'b \<times> 'w) \<Rightarrow> 'a list \<Rightarrow> 'w \<Rightarrow>
     'b list \<times> 'w" where
  "wave_map par concurrency f items w =
     (if 1 < concurrency \<and> 1 < length items then par f items w else run_pass f items w)"

lemma run_pass_ordered: "list_all2 (\<lambda>x y. \<exists>w'. y = fst (f x w')) xs (fst (run_pass f xs w))"
  by (induction xs arbitrary: w) auto

locale ordered_executor =
  fixes par :: "('a \<Rightarrow> 'w \<Rightarrow> 'b \<times> 'w) \<Rightarrow> 'a list \<Rightarrow> 'w \<Rightarrow> 'b list \<times> 'w"
  assumes ordered: "list_all2 (\<lambda>x y. \<exists>w'. y = fst (f x w')) xs (fst (par f xs w))"
begin

lemma map_ordered: "list_all2 (\<lambda>x y. \<exists>w'. y = fst (f x w')) xs (fst (wave_map par n f xs w))"
  using ordered run_pass_ordered [of f xs w] by (simp add: wave_map_def)

lemma map_length: "length (fst (wave_map par n f xs w)) = length xs"
  using map_ordered [of f xs n w] by (simp add: list_all2_lengthD)

end

text \<open>Running one after the other is such an executor.\<close>

interpretation sequential: ordered_executor run_pass
  by unfold_locales (rule run_pass_ordered)

lemma sequential_wave_map: "wave_map run_pass n f xs w = run_pass f xs w"
  by (simp add: wave_map_def)

section \<open>Dispatch in waves\<close>

text \<open>
  The loop that classification and parsing share: while tasks are left and work time remains, the
  next \<open>n\<close> tasks run as a wave; when the deadline has passed, the tasks that are left are stopped. A
  wave may be empty, so the loop need not end and its value is an option.
\<close>

partial_function (option) wave_loop ::
  "('w \<Rightarrow> u64 \<times> 'w) \<Rightarrow> u64 \<Rightarrow> nat \<Rightarrow> ('t list \<Rightarrow> 'w \<times> 's \<Rightarrow> 'w \<times> 's) \<Rightarrow> ('t list \<Rightarrow> 's \<Rightarrow> 's) \<Rightarrow> 't list \<Rightarrow> 'w \<times> 's \<Rightarrow>
     ('w \<times> 's) option" where
  "wave_loop now deadline n wave stop tasks ws =
     (if tasks = [] then Some ws
      else
        let (w, s) = ws; (t, w) = now w in
        if deadline \<le> t then Some (w, stop tasks s)
        else wave_loop now deadline n wave stop (drop n tasks) (wave (take n tasks) (w, s)))"

lemma wave_loop_returns:
  assumes "0 < n"
  shows "\<exists>ws'. wave_loop now deadline n wave stop tasks ws = Some ws'"
proof (induction tasks arbitrary: ws rule: length_induct)
  case (1 tasks)
  obtain w s where ws: "ws = (w, s)" by force
  obtain t w1 where t: "now w = (t, w1)" by force
  show ?case
  proof (cases "tasks = []")
    case True
    then show ?thesis by (subst wave_loop.simps) simp
  next
    case False
    then have "length (drop n tasks) < length tasks" using assms by simp
    then have "\<exists>ws'. wave_loop now deadline n wave stop (drop n tasks) ws1 = Some ws'" for ws1 using "1.IH" by blast
    with False ws t show ?thesis by (subst wave_loop.simps) simp
  qed
qed

text \<open>An invariant over the tasks that are left, which a wave passes on to the rest.\<close>

lemma wave_loop_invariant:
  assumes "0 < n" and "wave_loop now deadline n wave stop tasks (w, s) = Some (w', s')" and "I tasks s"
    and wave: "\<And>xs ys w s w' s'. I (xs @ ys) s \<Longrightarrow> wave xs (w, s) = (w', s') \<Longrightarrow> I ys s'"
    and stop: "\<And>ts s. I ts s \<Longrightarrow> I [] (stop ts s)"
  shows "I [] s'"
  using assms(2,3)
proof (induction tasks arbitrary: w s rule: length_induct)
  case (1 tasks)
  obtain t w1 where t: "now w = (t, w1)" by force
  obtain w2 s2 where w2: "wave (take n tasks) (w1, s) = (w2, s2)" by force
  consider "tasks = []" | "tasks \<noteq> []" "deadline \<le> t" | "tasks \<noteq> []" "t < deadline" by linarith
  then show ?case
  proof cases
    case 1
    then show ?thesis using "1.prems" by (subst (asm) wave_loop.simps) simp
  next
    case 2
    then have "s' = stop tasks s" using "1.prems"(1) t by (subst (asm) wave_loop.simps) simp
    with stop [OF "1.prems"(2)] show ?thesis by simp
  next
    case 3
    then have "wave_loop now deadline n wave stop (drop n tasks) (w2, s2) = Some (w', s')"
      using "1.prems"(1) t w2 by (subst (asm) wave_loop.simps) simp
    moreover have "I (drop n tasks) s2" by (rule wave [OF _ w2]) (use "1.prems"(2) in simp)
    moreover have "length (drop n tasks) < length tasks" using 3 assms(1) by simp
    ultimately show ?thesis using "1.IH" by blast
  qed
qed

lemma still_disjoint: "X \<subseteq> insert i S \<Longrightarrow> i \<notin> D \<Longrightarrow> D \<inter> S = {} \<Longrightarrow> D \<inter> X = {}"
  by blast

lemma wave_sets:
  "D2 = D \<union> G1 \<Longrightarrow> S2 = S \<Longrightarrow> G1 \<subseteq> I1 \<Longrightarrow> D2 \<union> S2 \<union> G2 \<subseteq> R \<Longrightarrow> R \<subseteq> D2 \<union> S2 \<union> I2 \<Longrightarrow>
     D \<union> S \<union> (G1 \<union> G2) \<subseteq> R \<and> R \<subseteq> D \<union> S \<union> (I1 \<union> I2)"
  by blast

text \<open>
  What a phase promises about one wave and about stopping: \<open>inv\<close> holds for the keys of the tasks that
  are left, a wave gives every task that is \<open>ready\<close> an outcome, stopping marks every task that is
  left. The loop then settles every task.
\<close>

locale settling_waves =
  fixes key :: "'t \<Rightarrow> 'k" and ready :: "'t \<Rightarrow> bool" and inv :: "'k set \<Rightarrow> 's \<Rightarrow> bool"
    and got :: "'s \<Rightarrow> 'k set" and halted :: "'s \<Rightarrow> 'k set"
    and wave :: "'t list \<Rightarrow> 'w \<times> 's \<Rightarrow> 'w \<times> 's" and stop :: "'t list \<Rightarrow> 's \<Rightarrow> 's"
  assumes inv_mono: "inv left s \<Longrightarrow> left' \<subseteq> left \<Longrightarrow> inv left' s"
    and wave_settles: "distinct (map key ts) \<Longrightarrow> inv left s \<Longrightarrow> key ` set ts \<subseteq> left \<Longrightarrow> wave ts (w, s) = (w', s') \<Longrightarrow>
       inv (left - key ` set ts) s' \<and> got s' = got s \<union> key ` {t \<in> set ts. ready t} \<and> halted s' = halted s"
    and stop_settles: "ts \<noteq> [] \<Longrightarrow> inv (key ` set ts) s \<Longrightarrow>
       inv {} (stop ts s) \<and> got (stop ts s) = got s \<and> halted (stop ts s) = halted s \<union> key ` set ts"
begin

lemma wave_loop_settles:
  assumes "0 < n" and "distinct (map key tasks)" and "inv (key ` set tasks) s"
  shows "\<exists>w' s'. wave_loop now deadline n wave stop tasks (w, s) = Some (w', s') \<and> inv {} s'
    \<and> got s \<union> halted s \<union> key ` {t \<in> set tasks. ready t} \<subseteq> got s' \<union> halted s'
    \<and> got s' \<union> halted s' \<subseteq> got s \<union> halted s \<union> key ` set tasks"
  using assms(2,3)
proof (induction tasks arbitrary: w s rule: length_induct)
  case (1 tasks)
  have ready_sub: "key ` {t \<in> set ts. ready t} \<subseteq> key ` set ts" for ts by auto
  obtain t w1 where t: "now w = (t, w1)" by force
  consider "tasks = []" | "tasks \<noteq> []" "deadline \<le> t" | "tasks \<noteq> []" "t < deadline" by linarith
  then show ?case
  proof cases
    case 1
    then show ?thesis using "1.prems"(2) by (subst wave_loop.simps) simp
  next
    case 2
    then have "wave_loop now deadline n wave stop tasks (w, s) = Some (w1, stop tasks s)"
      using t by (subst wave_loop.simps) simp
    with stop_settles [OF 2(1) "1.prems"(2)] ready_sub [of tasks] show ?thesis by (auto simp: le_supI2)
  next
    case 3
    obtain w2 s2 where wave: "wave (take n tasks) (w1, s) = (w2, s2)" by force
    have split: "tasks = take n tasks @ drop n tasks" by simp
    have dist: "distinct (map key (take n tasks))" "distinct (map key (drop n tasks))"
      "key ` set (take n tasks) \<inter> key ` set (drop n tasks) = {}"
      using "1.prems"(1) by (metis split map_append distinct_append list.set_map)+
    have ids: "key ` set tasks = key ` set (take n tasks) \<union> key ` set (drop n tasks)"
      by (metis split set_append image_Un)
    have guards: "key ` {t \<in> set tasks. ready t} = key ` {t \<in> set (take n tasks). ready t} \<union> key ` {t \<in> set (drop n tasks). ready t}"
      by (subst split, subst set_append) auto
    have eff: "inv (key ` set tasks - key ` set (take n tasks)) s2"
      "got s2 = got s \<union> key ` {t \<in> set (take n tasks). ready t}" "halted s2 = halted s"
      using wave_settles [OF dist(1) "1.prems"(2) _ wave] ids by auto
    have "inv (key ` set (drop n tasks)) s2"
      by (rule inv_mono [OF eff(1)]) (use dist(3) ids in blast)
    moreover have "length (drop n tasks) < length tasks" using 3 assms(1) by simp
    ultimately obtain w' s' where IH: "wave_loop now deadline n wave stop (drop n tasks) (w2, s2) = Some (w', s')"
      "inv {} s'" "got s2 \<union> halted s2 \<union> key ` {t \<in> set (drop n tasks). ready t} \<subseteq> got s' \<union> halted s'"
      "got s' \<union> halted s' \<subseteq> got s2 \<union> halted s2 \<union> key ` set (drop n tasks)"
      using "1.IH" dist(2) by blast
    have "wave_loop now deadline n wave stop tasks (w, s) = Some (w', s')"
      using 3 t wave IH(1) by (subst wave_loop.simps) simp
    with IH(2) wave_sets [OF eff(2,3) ready_sub IH(3,4)] show ?thesis unfolding guards ids by blast
  qed
qed

end

text \<open>Merging the outputs of a wave: each output gives its file an outcome.\<close>

locale settling_merge =
  fixes key :: "'x \<Rightarrow> 'k" and ok :: "'x \<Rightarrow> bool" and inv :: "'k set \<Rightarrow> 's \<Rightarrow> bool"
    and got :: "'s \<Rightarrow> 'k set" and halted :: "'s \<Rightarrow> 'k set" and merge :: "'x \<Rightarrow> 'w \<times> 's \<Rightarrow> 'w \<times> 's"
  assumes merge_settles: "ok x \<Longrightarrow> merge x (w, s) = (w', s') \<Longrightarrow> inv left s \<Longrightarrow> key x \<in> left \<Longrightarrow>
     inv (left - {key x}) s' \<and> got s' = insert (key x) (got s) \<and> halted s' = halted s"
begin

lemma fold_merge_settles:
  assumes "fold merge xs (w, s) = (w', s')" and "\<And>x. x \<in> set xs \<Longrightarrow> ok x" and "distinct (map key xs)"
    and "inv left s" and "key ` set xs \<subseteq> left"
  shows "inv (left - key ` set xs) s' \<and> got s' = got s \<union> key ` set xs \<and> halted s' = halted s"
  using assms
proof (induction xs arbitrary: w s left)
  case (Cons x xs)
  obtain w1 s1 where step: "merge x (w, s) = (w1, s1)" by force
  then have rest: "fold merge xs (w1, s1) = (w', s')" using Cons.prems(1) by simp
  have one: "inv (left - {key x}) s1" "got s1 = insert (key x) (got s)" "halted s1 = halted s"
    using merge_settles [OF _ step Cons.prems(4)] Cons.prems(2,5) by auto
  have "key ` set xs \<subseteq> left - {key x}"
    using Cons.prems(3,5) by (simp add: subset_Diff_insert)
  with one have "inv (left - {key x} - key ` set xs) s' \<and> got s' = got s1 \<union> key ` set xs \<and> halted s' = halted s1"
    by (intro Cons.IH [OF rest]) (use Cons.prems(2,3) in simp_all)
  moreover have "left - {key x} - key ` set xs = left - key ` set (x # xs)" by auto
  ultimately show ?case using one(2,3) by simp
qed simp

end

section \<open>Loops that may fail\<close>

fun try_fold :: "('x \<Rightarrow> 's \<Rightarrow> ('s, 'e) result) \<Rightarrow> 'x list \<Rightarrow> 's \<Rightarrow> ('s, 'e) result" where
  "try_fold step [] s = Ok s"
| "try_fold step (x # xs) s = and_then (step x s) (try_fold step xs)"

lemma try_fold_invariant:
  assumes "try_fold step xs s = Ok s'" and "I s"
    and "\<And>x s s'. x \<in> set xs \<Longrightarrow> I s \<Longrightarrow> step x s = Ok s' \<Longrightarrow> I s'"
  shows "I s'"
  using assms
proof (induction xs arbitrary: s)
  case (Cons x xs)
  from Cons.prems(1) obtain t where t: "step x s = Ok t" "try_fold step xs t = Ok s'" by auto
  then show ?case using Cons.IH [OF t(2)] Cons.prems by auto
qed simp

lemma try_fold_error:
  assumes "try_fold step xs s = Err e" and "\<And>x t. step x t = Err e \<Longrightarrow> Q"
  shows Q
  using assms(1)
proof (induction xs arbitrary: s)
  case (Cons x xs)
  then show ?case by (cases "step x s") (auto intro: assms(2))
qed simp

text \<open>The front of both phases: one pass over the files in nominal order, which settles each file it has
  to settle and touches no other.\<close>

locale settling_fold =
  fixes key :: "'x \<Rightarrow> 'k" and due :: "'x \<Rightarrow> bool" and must :: "'x \<Rightarrow> bool"
    and step :: "'x \<Rightarrow> 'w \<times> 's \<Rightarrow> ('w \<times> 's, 'e) result" and inv :: "'s \<Rightarrow> bool" and settled :: "'s \<Rightarrow> 'k set"
  assumes step_settles: "step x (w, s) = Ok (w', s') \<Longrightarrow> inv s \<Longrightarrow> key x \<notin> settled s \<Longrightarrow>
     inv s' \<and> settled s \<subseteq> settled s' \<and> settled s' \<subseteq> settled s \<union> (if due x then {key x} else {})
       \<and> (must x \<longrightarrow> key x \<in> settled s')"
begin

lemma fold_settles:
  assumes "try_fold step xs (w, s) = Ok (w', s')" and "distinct (map key xs)" and "inv s"
    and "key ` set xs \<inter> settled s = {}"
  shows "inv s' \<and> settled s \<subseteq> settled s' \<and> settled s' \<subseteq> settled s \<union> key ` {x \<in> set xs. due x}
    \<and> key ` {x \<in> set xs. must x} \<subseteq> settled s'"
  using assms
proof (induction xs arbitrary: w s)
  case (Cons x xs)
  obtain w1 s1 where step: "step x (w, s) = Ok (w1, s1)" and rest: "try_fold step xs (w1, s1) = Ok (w', s')"
    using Cons.prems(1) by auto
  have one: "inv s1 \<and> settled s \<subseteq> settled s1 \<and> settled s1 \<subseteq> settled s \<union> (if due x then {key x} else {})
      \<and> (must x \<longrightarrow> key x \<in> settled s1)"
    by (rule step_settles [OF step Cons.prems(3)]) (use Cons.prems(4) in simp)
  have "settled s1 \<subseteq> insert (key x) (settled s)" using one by (auto split: if_splits)
  moreover have "key x \<notin> key ` set xs" using Cons.prems(2) by simp
  moreover have "key ` set xs \<inter> settled s = {}" using Cons.prems(4) by auto
  ultimately have "key ` set xs \<inter> settled s1 = {}" by (rule still_disjoint)
  then have IH: "inv s' \<and> settled s1 \<subseteq> settled s' \<and> settled s' \<subseteq> settled s1 \<union> key ` {x \<in> set xs. due x}
      \<and> key ` {x \<in> set xs. must x} \<subseteq> settled s'"
    by (intro Cons.IH [OF rest]) (use Cons.prems(2) one in simp_all)
  have sel: "key ` {y \<in> set (x # xs). P y} = (if P x then {key x} else {}) \<union> key ` {y \<in> set xs. P y}" for P
    by auto
  show ?case unfolding sel using one IH by (auto split: if_splits)
qed simp

end

section \<open>Metrics of a run\<close>

record refill_round_audit =
  rr_round :: u64
  rr_planned_source_count :: u64
  rr_plan_sha256 :: rstring
  rr_candidate_slots_used :: u64
  rr_classification_pages_held :: u64
  rr_extraction_slots_used :: u64
  rr_reserved_chars :: u64
  rr_refunded_chars :: u64
  rr_refunded_classification_pages :: u64

record refill_audit =
  ra_policy_version :: rstring
  ra_stop_reason :: rstring
  ra_max_rounds :: u64
  ra_candidate_cap :: u64
  ra_classification_page_cap :: u64
  ra_extraction_cap :: u64
  ra_context_char_cap :: u64
  ra_candidate_slots_used :: u64
  ra_classification_pages_held :: u64
  ra_extraction_slots_used :: u64
  ra_refunded_chars :: u64
  ra_refunded_classification_pages :: u64
  ra_rounds :: "refill_round_audit list"

definition refill_round_ok :: "refill_audit \<Rightarrow> nat \<Rightarrow> refill_round_audit \<Rightarrow> bool" where
  "refill_round_ok a index r \<longleftrightarrow> rr_round r = index + 1 \<and> rr_planned_source_count r \<noteq> 0
     \<and> length (rr_plan_sha256 r) = 64 \<and> list_all is_ascii_hexdigit (rr_plan_sha256 r)
     \<and> rr_candidate_slots_used r \<le> ra_candidate_cap a
     \<and> rr_classification_pages_held r \<le> ra_classification_page_cap a
     \<and> rr_extraction_slots_used r \<le> ra_extraction_cap a \<and> rr_reserved_chars r \<le> ra_context_char_cap a"

definition validate_refill_audit :: "refill_audit \<Rightarrow> check" where
  "validate_refill_audit a = validate_all
     [require_const (ra_policy_version a) (lit ''budget_refill_v3'') (lit ''refill.policy_version''),
      require (ra_stop_reason a \<in> {lit ''complete'', lit ''quota_exhausted'', lit ''no_progress'',
          lit ''deadline'', lit ''round_limit''}) (lit ''invalid refill stop reason''),
      require (ra_max_rounds a = 2 \<and> length (ra_rounds a) \<le> 2)
        (lit ''refill may freeze at most two supplemental rounds''),
      require (ra_candidate_slots_used a \<le> ra_candidate_cap a
          \<and> ra_classification_pages_held a \<le> ra_classification_page_cap a
          \<and> ra_extraction_slots_used a \<le> ra_extraction_cap a)
        (lit ''refill consumption exceeds the original run quota''),
      require (list_all (\<lambda>(index, r). refill_round_ok a index r) (enumerate 0 (ra_rounds a)))
        (lit ''invalid frozen refill round'')]"

record execution_metrics =
  em_refill_audit :: "refill_audit option"
  em_discovery_observed_file_count :: u64
  em_source_guard_content_hash_file_count :: u64
  em_source_guard_unavailable_count :: u64
  em_source_guard_bytes_read :: u64
  em_candidate_file_count :: u64
  em_classification_slot_count :: u64
  em_admitted_file_count :: u64
  em_extraction_slot_count :: u64
  em_stage_deadline_exhausted_count :: u64
  em_parse_cache_lookup_count :: u64
  em_classification_cache_lookup_count :: u64
  em_parse_cache_all_hit :: "bool option"
  em_classification_cache_all_hit :: "bool option"
  em_classify_attempt_count :: u64
  em_parse_attempt_count :: u64
  em_reserved_chars :: u64
  em_rendered_chars :: u64
  em_deadline_precommit_elapsed_ms :: u64
  em_confirmed_run_inspected_pages_total :: u64
  em_unobserved_classification_attempt_count :: u64
  em_nominal_charged_pages_total :: u64
  em_pdfplumber_invocations :: u64

definition default_metrics :: execution_metrics where
  "default_metrics = \<lparr>em_refill_audit = None, em_discovery_observed_file_count = 0,
     em_source_guard_content_hash_file_count = 0, em_source_guard_unavailable_count = 0,
     em_source_guard_bytes_read = 0, em_candidate_file_count = 0, em_classification_slot_count = 0,
     em_admitted_file_count = 0, em_extraction_slot_count = 0, em_stage_deadline_exhausted_count = 0,
     em_parse_cache_lookup_count = 0, em_classification_cache_lookup_count = 0, em_parse_cache_all_hit = None,
     em_classification_cache_all_hit = None, em_classify_attempt_count = 0, em_parse_attempt_count = 0,
     em_reserved_chars = 0, em_rendered_chars = 0, em_deadline_precommit_elapsed_ms = 0,
     em_confirmed_run_inspected_pages_total = 0, em_unobserved_classification_attempt_count = 0,
     em_nominal_charged_pages_total = 0, em_pdfplumber_invocations = 0\<rparr>"

text \<open>\<open>source_guard_metrics\<close>: what discovery alone says about the guards.\<close>

definition guard_kind_of :: "discovered_file \<Rightarrow> source_guard_kind option" where
  "guard_kind_of file = source_guard_kind_from_text (unwrap_or (df_source_guard_kind file) [])"

definition source_guard_metrics :: "discovered_file list \<Rightarrow> execution_metrics" where
  "source_guard_metrics discovery = default_metrics
     \<lparr>em_discovery_observed_file_count := length discovery,
      em_source_guard_unavailable_count := length (filter (\<lambda>f. guard_kind_of f = Some Unavailable) discovery),
      em_source_guard_content_hash_file_count :=
        length (filter (\<lambda>f. guard_kind_of f = Some ContentSha256V1) discovery)\<rparr>"

section \<open>Concrete ports\<close>

text \<open>A clock that ticks once per reading, files that never change, an empty cache.\<close>

definition fixture_ports :: "u64 ports" where
  "fixture_ports = \<lparr>pt_now = (\<lambda>w. (w, w + 1)), pt_verify = (\<lambda>_ _ w. (True, w)),
     pt_lookup_parse = (\<lambda>_ _ _ w. (Ok \<lparr>pl_parse_profile_hash = [], pl_lookup = LookupMiss NewFile\<rparr>, w)),
     pt_lookup_classification = (\<lambda>_ _ _ _ w. (Ok (ClassLookupMiss ClassNewFile), w)),
     pt_write_parse = (\<lambda>_ _ w. (Ok (), w)), pt_write_classification = (\<lambda>_ _ w. (Ok (), w)),
     pt_parse = (\<lambda>_ w. (fixture_parsed, w)),
     pt_classify_pdf = (\<lambda>_ _ w. (\<lparr>xe_outcome = Err (scheduler_internal []), xe_transport = CtSession,
        xe_attempt_count = 1, xe_duration_ms = 0\<rparr>, w))\<rparr>"

end
