(* ===== verification/Scheduler_Parses.thy ===== *)
theory Scheduler_Parses
  imports Scheduler_Ports
begin

text \<open>
  \<open>run_parses\<close> of \<open>src/rust/scanner_core/src/scheduler.rs\<close>: phase A looks every admitted file up in
  the parse cache, in nominal order, and freezes the tasks; phase B dispatches the tasks in
  waves of at most \<open>concurrency\<close> files while work time remains, verifies the source guard before
  and after each parse and writes successful results to the cache.
\<close>

section \<open>State\<close>

record parse_task =
  tk_file :: discovered_file
  tk_route :: route_kind
  tk_own_timeout_ms :: u64
  tk_profile_hash :: rstring

record parse_phase =
  ph_outputs :: parse_outputs
  ph_metrics :: execution_metrics
  ph_any_lookup :: bool
  ph_any_miss :: bool
  ph_tasks :: "parse_task list"

record parse_env =
  pv_snapshot :: "rstring \<rightharpoonup> discovered_file"
  pv_classifications :: "rstring \<rightharpoonup> pdf_classification_result"
  pv_profile :: normalized_settings
  pv_existed_before :: "rstring set"
  pv_runtime_classification :: "rstring set"
  pv_work_deadline :: u64
  pv_workers :: worker_identities
  pv_engine_version :: rstring
  pv_engine_build :: rstring

definition stop_at_deadline :: "rstring \<Rightarrow> parse_phase \<Rightarrow> parse_phase" where
  "stop_at_deadline identity s =
     s\<lparr>ph_outputs := (ph_outputs s)\<lparr>po_runtime_not_parsed := insert identity (po_runtime_not_parsed (ph_outputs s))\<rparr>,
       ph_metrics := (ph_metrics s)\<lparr>em_stage_deadline_exhausted_count := 1\<rparr>\<rparr>"

definition put_result :: "rstring \<Rightarrow> parse_result \<Rightarrow> parse_phase \<Rightarrow> parse_phase" where
  "put_result identity result s =
     s\<lparr>ph_outputs := (ph_outputs s)\<lparr>po_results := (po_results (ph_outputs s))(identity \<mapsto> result)\<rparr>\<rparr>"

definition put_hash :: "rstring \<Rightarrow> rstring \<Rightarrow> parse_phase \<Rightarrow> parse_phase" where
  "put_hash identity profile_hash s =
     s\<lparr>ph_outputs := (ph_outputs s)\<lparr>po_parse_profile_hashes :=
         (po_parse_profile_hashes (ph_outputs s))(identity \<mapsto> profile_hash)\<rparr>\<rparr>"

definition put_cache_status :: "rstring \<Rightarrow> cache_status \<Rightarrow> cache_miss_reason \<Rightarrow> parse_phase \<Rightarrow> parse_phase" where
  "put_cache_status identity status reason s =
     s\<lparr>ph_outputs := (ph_outputs s)\<lparr>po_parse_cache_status := (po_parse_cache_status (ph_outputs s))(identity \<mapsto> status),
         po_parse_cache_miss_reason := (po_parse_cache_miss_reason (ph_outputs s))(identity \<mapsto> reason)\<rparr>\<rparr>"

definition cached_parse_result :: "rstring \<Rightarrow> cache_entry \<Rightarrow> parse_result" where
  "cached_parse_result identity entry =
     \<lparr>ps_file_identity = identity, ps_content = ch_content entry, ps_evidence_audit = ch_evidence_audit entry,
      ps_parser_backend = ch_parser_backend entry, ps_worker_lane = ch_worker_lane entry,
      ps_truncated = ch_truncated entry, ps_content_sha256 = ch_content_sha256 entry,
      ps_parse_status = Success, ps_error = None, ps_warnings = [], ps_failure_class = [],
      ps_fallback_backend = [], ps_fallback_reason_code = [], ps_parse_transport = PtNotApplicable,
      ps_parse_attempt_count = 0, ps_primary_duration_ms = 0, ps_fallback_duration_ms = 0,
      ps_parse_duration_ms = 0\<rparr>"

section \<open>Phase A\<close>

text \<open>A cache hit: the guard is verified before the value is consumed.\<close>

definition consume_hit ::
  "(rstring \<Rightarrow> rstring) \<Rightarrow> 'w ports \<Rightarrow> discovered_file \<Rightarrow> rstring \<Rightarrow> rstring \<Rightarrow> cache_entry \<Rightarrow> 'w \<Rightarrow> parse_phase \<Rightarrow>
     'w \<times> parse_phase" where
  "consume_hit sha p file identity profile_hash entry w s =
     (case expected_guard file of
        None \<Rightarrow> (w, s)
      | Some guard \<Rightarrow>
          let (same, w) = pt_verify p (df_path file) guard w in
          if \<not> same
          then (w, put_hash identity profile_hash
                     (put_result (df_file_identity file) (source_version_changed_parse sha file) s))
          else
            let s = put_result identity (cached_parse_result identity entry)
                  (put_cache_status identity Fresh MissNone (put_hash identity profile_hash s))
            in (w, s\<lparr>ph_outputs := (ph_outputs s)\<lparr>po_parse_fresh_hits := po_parse_fresh_hits (ph_outputs s) @ [identity]\<rparr>\<rparr>))"

text \<open>A cache miss: the file becomes a task, unless the deadline has passed by now.\<close>

definition queue_miss ::
  "'w ports \<Rightarrow> parse_env \<Rightarrow> discovered_file \<Rightarrow> route_kind \<Rightarrow> rstring \<Rightarrow> rstring \<Rightarrow> cache_miss_reason \<Rightarrow> 'w \<Rightarrow>
     parse_phase \<Rightarrow> 'w \<times> parse_phase" where
  "queue_miss p env file route identity profile_hash reason w s =
     (let s = put_cache_status identity Miss reason (s\<lparr>ph_any_miss := True\<rparr>);
          (now, w) = pt_now p w
      in if pv_work_deadline env \<le> now then (w, stop_at_deadline identity s)
         else
           let (now, w) = pt_now p w;
               remaining = saturating_sub (pv_work_deadline env) now;
               task = \<lparr>tk_file = file, tk_route = route,
                 tk_own_timeout_ms = min (route_timeout_ms route (pv_profile env)) remaining,
                 tk_profile_hash = profile_hash\<rparr>
           in (w, s\<lparr>ph_tasks := ph_tasks s @ [task]\<rparr>))"

text \<open>A file that this phase leaves alone: not admitted, unknown, already stopped, or a PDF without
  text, which never starts a body parser.\<close>

definition skips_parse :: "parse_env \<Rightarrow> rstring \<Rightarrow> route_kind \<Rightarrow> bool" where
  "skips_parse env identity route \<longleftrightarrow> identity \<in> pv_runtime_classification env
     \<or> route = Pdf \<and> map_option cr_status (pv_classifications env identity) = Some NoTextInParseWindow"

definition lookup_step ::
  "(rstring \<Rightarrow> rstring) \<Rightarrow> 'w ports \<Rightarrow> parse_env \<Rightarrow> discovered_file \<Rightarrow> route_kind \<Rightarrow> rstring \<Rightarrow> 'w \<Rightarrow> parse_phase \<Rightarrow>
     ('w \<times> parse_phase, diagnostic) result" where
  "lookup_step sha p env file route identity w s =
     (let s = s\<lparr>ph_any_lookup := True, ph_metrics := (ph_metrics s)
            \<lparr>em_parse_cache_lookup_count := em_parse_cache_lookup_count (ph_metrics s) + 1\<rparr>\<rparr>;
          (lookup, w) = pt_lookup_parse p file route (identity \<in> pv_existed_before env) w
      in case lookup of
           Err e \<Rightarrow> Err (port_error_diagnostic e StageCache)
         | Ok found \<Rightarrow>
             (case pl_lookup found of
                LookupFresh entry \<Rightarrow> Ok (consume_hit sha p file identity (pl_parse_profile_hash found) entry w s)
              | LookupMiss reason \<Rightarrow> Ok (queue_miss p env file route identity (pl_parse_profile_hash found) reason w s)))"

definition admit_step ::
  "(rstring \<Rightarrow> rstring) \<Rightarrow> 'w ports \<Rightarrow> parse_env \<Rightarrow> admission_decision \<Rightarrow> 'w \<times> parse_phase \<Rightarrow>
     ('w \<times> parse_phase, diagnostic) result" where
  "admit_step sha p env decision ws =
     (let (w, s) = ws; identity = ad_file_identity decision in
      case ad_action decision of
        Admit route \<Rightarrow>
          (case pv_snapshot env identity of
             None \<Rightarrow> Ok (w, s)
           | Some file \<Rightarrow>
               if skips_parse env identity route then Ok (w, s)
               else
                 let (now, w) = pt_now p w in
                 if pv_work_deadline env \<le> now then Ok (w, stop_at_deadline identity s)
                 else lookup_step sha p env file route identity w s)
      | _ \<Rightarrow> Ok (w, s))"

section \<open>Phase B\<close>

record wave_item =
  wv_request :: parse_request
  wv_guard :: source_guard_v2
  wv_profile_hash :: rstring

text \<open>The pages of a PDF that the parser reads.\<close>

definition selected_pages :: "parse_env \<Rightarrow> rstring \<Rightarrow> u64 list option" where
  "selected_pages env identity =
     map_option (\<lambda>n. pdf_sample_pages n (pp_max_pages (pr_pdf (ns_parse (pv_profile env))))
         (pp_selection_policy_version (pr_pdf (ns_parse (pv_profile env)))))
       (Option.bind (pv_classifications env identity) cr_page_count)"

text \<open>The last check before dispatch: a file that changed is not parsed at all.\<close>

definition prepare_step ::
  "(rstring \<Rightarrow> rstring) \<Rightarrow> 'w ports \<Rightarrow> parse_env \<Rightarrow> u64 \<Rightarrow> parse_task \<Rightarrow> 'w \<times> parse_phase \<times> wave_item list \<Rightarrow>
     'w \<times> parse_phase \<times> wave_item list" where
  "prepare_step sha p env remaining task acc =
     (let (w, s, items) = acc; file = tk_file task; identity = df_file_identity file in
      case expected_guard file of
        None \<Rightarrow> (w, s, items)
      | Some guard \<Rightarrow>
          let (same, w) = pt_verify p (df_path file) guard w in
          if \<not> same then (w, put_hash identity (tk_profile_hash task) (put_result identity (source_version_changed_parse sha file) s), items)
          else (w, s, items @ [\<lparr>wv_request = \<lparr>rq_selected_pdf_pages = selected_pages env identity, rq_file = file,
                   rq_route = tk_route task, rq_timeout_ms = min (tk_own_timeout_ms task) remaining\<rparr>,
                 wv_guard = guard, wv_profile_hash = tk_profile_hash task\<rparr>]))"

definition cache_record ::
  "parse_env \<Rightarrow> wave_item \<Rightarrow> parse_result \<Rightarrow> cache_write_record" where
  "cache_record env item result =
     (let file = rq_file (wv_request item);
          (worker_contract, worker_version, worker_build) =
            worker_identity_for (pv_workers env) (pv_engine_version env) (pv_engine_build env) (rq_route (wv_request item))
      in \<lparr>cw_file_identity = df_file_identity file, cw_source_version = df_source_version file,
          cw_source_guard_kind = source_guard_kind_text (sg_kind (wv_guard item)),
          cw_source_guard_sha256 = unwrap_or (sg_guard_sha256 (wv_guard item)) [],
          cw_parse_profile_hash = wv_profile_hash item, cw_content = ps_content result,
          cw_content_sha256 = ps_content_sha256 result,
          cw_cache_payload_version = PARSE_CACHE_PAYLOAD_VERSION,
          cw_evidence_audit = ps_evidence_audit result, cw_parser_backend = ps_parser_backend result,
          cw_worker_lane = ps_worker_lane result, cw_truncated = ps_truncated result,
          cw_worker_contract_version = worker_contract, cw_worker_version = worker_version,
          cw_worker_build = worker_build\<rparr>)"

definition write_warning :: "rstring \<Rightarrow> cache_port_error \<Rightarrow> discovered_file \<Rightarrow> rstring \<Rightarrow> diagnostic" where
  "write_warning prefix_text e file backend =
     \<lparr>dg_error_code = CacheWriteFailed,
      dg_message = prefix_text @ dg_message (port_error_diagnostic e StageCache),
      dg_retryable = True, dg_stage = StageCache, dg_file_path = Some (df_path file), dg_backend = Some backend\<rparr>"

text \<open>A committed write is a receipt; a write stopped by the deadline is counted, any other failed
  write is a warning.\<close>

definition write_result ::
  "'w ports \<Rightarrow> parse_env \<Rightarrow> wave_item \<Rightarrow> parse_result \<Rightarrow> 'w \<times> parse_phase \<Rightarrow> 'w \<times> parse_phase" where
  "write_result p env item result ws =
     (let (w, s) = ws; (now, w) = pt_now p w in
      if pv_work_deadline env \<le> now then (w, s)
      else
        let record = cache_record env item result;
            (now, w) = pt_now p w;
            (written, w) = pt_write_parse p now [record] w;
            out = ph_outputs s
        in (w, case written of
              Ok _ \<Rightarrow> s\<lparr>ph_outputs := out\<lparr>po_parse_cache_receipts := po_parse_cache_receipts out @ [record]\<rparr>\<rparr>
            | Err (PortDeadlineExhausted _) \<Rightarrow> s\<lparr>ph_metrics := (ph_metrics s)\<lparr>em_stage_deadline_exhausted_count := 1\<rparr>\<rparr>
            | Err e \<Rightarrow> s\<lparr>ph_outputs := out\<lparr>po_cache_write_warnings := po_cache_write_warnings out @
                [write_warning (lit ''parse cache write skipped: '') e (rq_file (wv_request item))
                   (route_backend (rq_route (wv_request item)))]\<rparr>\<rparr>))"

definition count_attempts :: "route_kind \<Rightarrow> parse_result \<Rightarrow> parse_phase \<Rightarrow> parse_phase" where
  "count_attempts route result s =
     (let m = ph_metrics s; out = ph_outputs s; n = ps_parse_attempt_count result;
          m = m\<lparr>em_parse_attempt_count := saturating_add (em_parse_attempt_count m) n\<rparr>;
          m = (if route = Pdf then m\<lparr>em_pdfplumber_invocations := saturating_add (em_pdfplumber_invocations m) n\<rparr> else m)
      in s\<lparr>ph_metrics := m, ph_outputs := out\<lparr>po_parse_warnings := po_parse_warnings out @ ps_warnings result\<rparr>\<rparr>)"

text \<open>The outcome of one dispatched parse. A success is kept only if the file is still the same.\<close>

definition merge_step ::
  "(rstring \<Rightarrow> rstring) \<Rightarrow> 'w ports \<Rightarrow> parse_env \<Rightarrow> wave_item \<times> parse_result \<Rightarrow> 'w \<times> parse_phase \<Rightarrow> 'w \<times> parse_phase" where
  "merge_step sha p env ir ws =
     (let (item, result) = ir; (w, s) = ws; file = rq_file (wv_request item); identity = df_file_identity file;
          s = count_attempts (rq_route (wv_request item)) result s
      in if ps_parse_status result \<noteq> Success then (w, put_hash identity (wv_profile_hash item) (put_result identity result s))
         else
           let (same, w) = pt_verify p (df_path file) (wv_guard item) w in
           if \<not> same
           then (w, put_hash identity (wv_profile_hash item)
                    (put_result identity (source_version_changed_after_parse sha file result) s))
           else
             let (w, s) = write_result p env item result (w, s)
             in (w, put_hash identity (wv_profile_hash item) (put_result identity result s)))"

definition parse_wave ::
  "((parse_request \<Rightarrow> 'w \<Rightarrow> parse_result \<times> 'w) \<Rightarrow> parse_request list \<Rightarrow> 'w \<Rightarrow> parse_result list \<times> 'w) \<Rightarrow> nat \<Rightarrow>
     (rstring \<Rightarrow> rstring) \<Rightarrow> 'w ports \<Rightarrow> parse_env \<Rightarrow> parse_task list \<Rightarrow> 'w \<times> parse_phase \<Rightarrow> 'w \<times> parse_phase" where
  "parse_wave par concurrency sha p env wave ws =
     (let (w, s) = ws; (now, w) = pt_now p w;
          remaining = saturating_sub (pv_work_deadline env) now;
          (w, s, items) = fold (prepare_step sha p env remaining) wave (w, s, []);
          (results, w) = wave_map par concurrency (pt_parse p) (map wv_request items) w
      in fold (merge_step sha p env) (zip items results) (w, s))"

text \<open>The dispatch loop and what it does with the tasks that are left at the deadline.\<close>

definition stop_all :: "parse_task list \<Rightarrow> parse_phase \<Rightarrow> parse_phase" where
  "stop_all tasks s = fold (\<lambda>task. stop_at_deadline (df_file_identity (tk_file task))) tasks s"

definition parse_waves ::
  "((parse_request \<Rightarrow> 'w \<Rightarrow> parse_result \<times> 'w) \<Rightarrow> parse_request list \<Rightarrow> 'w \<Rightarrow> parse_result list \<times> 'w) \<Rightarrow> nat \<Rightarrow>
     (rstring \<Rightarrow> rstring) \<Rightarrow> 'w ports \<Rightarrow> parse_env \<Rightarrow> parse_task list \<Rightarrow> 'w \<times> parse_phase \<Rightarrow> ('w \<times> parse_phase) option" where
  "parse_waves par concurrency sha p env tasks ws =
     wave_loop (pt_now p) (pv_work_deadline env) concurrency (parse_wave par concurrency sha p env) stop_all tasks ws"

section \<open>The whole phase\<close>

definition all_hit :: "bool \<Rightarrow> bool \<Rightarrow> bool option \<Rightarrow> bool option" where
  "all_hit any_lookup any_miss before = (if any_lookup then Some (unwrap_or before True \<and> \<not> any_miss) else before)"

definition run_parses ::
  "((parse_request \<Rightarrow> 'w \<Rightarrow> parse_result \<times> 'w) \<Rightarrow> parse_request list \<Rightarrow> 'w \<Rightarrow> parse_result list \<times> 'w) \<Rightarrow> nat \<Rightarrow>
     (rstring \<Rightarrow> rstring) \<Rightarrow> 'w ports \<Rightarrow> parse_env \<Rightarrow> admission_decision list \<Rightarrow> execution_metrics \<Rightarrow> 'w \<Rightarrow>
     ('w \<times> parse_outputs \<times> execution_metrics, diagnostic) result option" where
  "run_parses par concurrency sha p env admission metrics w =
     (case try_fold (admit_step sha p env) admission
             (w, \<lparr>ph_outputs = no_outputs, ph_metrics = metrics, ph_any_lookup = False, ph_any_miss = False,
                  ph_tasks = []\<rparr>) of
        Err e \<Rightarrow> Some (Err e)
      | Ok (w, s) \<Rightarrow>
          map_option (\<lambda>(w, s). Ok (w, ph_outputs s,
              (ph_metrics s)\<lparr>em_parse_cache_all_hit :=
                 all_hit (ph_any_lookup s) (ph_any_miss s) (em_parse_cache_all_hit (ph_metrics s))\<rparr>))
            (parse_waves par concurrency sha p env (ph_tasks s) (w, s)))"

section \<open>What a step changes\<close>

abbreviation res :: "parse_phase \<Rightarrow> rstring \<rightharpoonup> parse_result" where
  "res s \<equiv> po_results (ph_outputs s)"
abbreviation stopped :: "parse_phase \<Rightarrow> rstring set" where
  "stopped s \<equiv> po_runtime_not_parsed (ph_outputs s)"
abbreviation receipts :: "parse_phase \<Rightarrow> cache_write_record list" where
  "receipts s \<equiv> po_parse_cache_receipts (ph_outputs s)"
abbreviation stops :: "parse_phase \<Rightarrow> u64" where
  "stops s \<equiv> em_stage_deadline_exhausted_count (ph_metrics s)"
abbreviation task_id :: "parse_task \<Rightarrow> rstring" where
  "task_id t \<equiv> df_file_identity (tk_file t)"
abbreviation item_id :: "wave_item \<Rightarrow> rstring" where
  "item_id i \<equiv> df_file_identity (rq_file (wv_request i))"

lemma put_simps [simp]:
  "res (put_result i r s) = (res s)(i \<mapsto> r)" "res (put_hash i h s) = res s"
  "res (put_cache_status i c m s) = res s" "res (stop_at_deadline i s) = res s"
  "stopped (put_result i r s) = stopped s" "stopped (put_hash i h s) = stopped s"
  "stopped (put_cache_status i c m s) = stopped s" "stopped (stop_at_deadline i s) = insert i (stopped s)"
  "receipts (put_result i r s) = receipts s" "receipts (put_hash i h s) = receipts s"
  "receipts (put_cache_status i c m s) = receipts s" "receipts (stop_at_deadline i s) = receipts s"
  "ph_tasks (put_result i r s) = ph_tasks s" "ph_tasks (put_hash i h s) = ph_tasks s"
  "ph_tasks (put_cache_status i c m s) = ph_tasks s" "ph_tasks (stop_at_deadline i s) = ph_tasks s"
  "stops (put_result i r s) = stops s" "stops (put_hash i h s) = stops s"
  "stops (put_cache_status i c m s) = stops s" "stops (stop_at_deadline i s) = 1"
  by (simp_all add: put_result_def put_hash_def put_cache_status_def stop_at_deadline_def)

text \<open>The four ways in which phase A disposes of an admitted file.\<close>

inductive admit_effect ::
  "(rstring \<Rightarrow> rstring) \<Rightarrow> parse_env \<Rightarrow> discovered_file \<Rightarrow> rstring \<Rightarrow> (parse_result \<Rightarrow> bool) \<Rightarrow> parse_phase \<Rightarrow> parse_phase \<Rightarrow> bool"
  for sha :: "rstring \<Rightarrow> rstring" and env :: parse_env and f :: discovered_file and identity :: rstring
    and cached :: "parse_result \<Rightarrow> bool" where
  no_guard: "expected_guard f = None \<Longrightarrow> res s' = res s \<Longrightarrow> stopped s' = stopped s \<Longrightarrow> ph_tasks s' = ph_tasks s \<Longrightarrow>
     stops s' = stops s \<Longrightarrow> receipts s' = receipts s \<Longrightarrow> admit_effect sha env f identity cached s s'"
| result: "expected_guard f \<noteq> None \<Longrightarrow> res s' = (res s)(identity \<mapsto> r) \<Longrightarrow>
     r = source_version_changed_parse sha f \<or> cached r \<Longrightarrow> stopped s' = stopped s \<Longrightarrow> ph_tasks s' = ph_tasks s \<Longrightarrow>
     stops s' = stops s \<Longrightarrow> receipts s' = receipts s \<Longrightarrow> admit_effect sha env f identity cached s s'"
| stop: "res s' = res s \<Longrightarrow> stopped s' = insert identity (stopped s) \<Longrightarrow> ph_tasks s' = ph_tasks s \<Longrightarrow>
     stops s' = 1 \<Longrightarrow> receipts s' = receipts s \<Longrightarrow> admit_effect sha env f identity cached s s'"
| task: "res s' = res s \<Longrightarrow> stopped s' = stopped s \<Longrightarrow> ph_tasks s' = ph_tasks s @ [t] \<Longrightarrow> tk_file t = f \<Longrightarrow>
     tk_own_timeout_ms t \<le> route_timeout_ms (tk_route t) (pv_profile env) \<Longrightarrow> stops s' = stops s \<Longrightarrow>
     receipts s' = receipts s \<Longrightarrow> admit_effect sha env f identity cached s s'"

lemma consume_hit_effect:
  assumes "consume_hit sha p f identity h entry w s = (w', s')" and "df_file_identity f = identity"
    and "cached (cached_parse_result identity entry)"
  shows "admit_effect sha env f identity cached s s'"
proof (cases "expected_guard f")
  case None
  with assms show ?thesis by (simp add: consume_hit_def no_guard)
next
  case (Some guard)
  obtain same w1 where v: "pt_verify p (df_path f) guard w = (same, w1)" by force
  show ?thesis
  proof (cases same)
    case False
    then have "s' = put_hash identity h (put_result identity (source_version_changed_parse sha f) s)"
      using assms(1,2) Some v by (simp add: consume_hit_def)
    with Some show ?thesis by (intro result [where r = "source_version_changed_parse sha f"]) simp_all
  next
    case True
    with assms(1) Some v assms(3) show ?thesis
      by (intro result [where r = "cached_parse_result identity entry"]) (simp_all add: consume_hit_def Let_def, auto)
  qed
qed

lemma queue_miss_effect:
  assumes "queue_miss p env f route identity h reason w s = (w', s')"
  shows "admit_effect sha env f identity cached s s'"
proof -
  obtain now w1 where n: "pt_now p w = (now, w1)" by force
  obtain now2 w2 where n2: "pt_now p w1 = (now2, w2)" by force
  show ?thesis
  proof (cases "pv_work_deadline env \<le> now")
    case True
    with assms n show ?thesis by (intro stop) (auto simp: queue_miss_def Let_def)
  next
    case False
    with assms n n2 show ?thesis by (intro task) (auto simp: queue_miss_def Let_def)
  qed
qed

definition cached_for :: "'w ports \<Rightarrow> parse_env \<Rightarrow> rstring \<Rightarrow> parse_result \<Rightarrow> bool" where
  "cached_for p env identity r \<longleftrightarrow>
     (\<exists>file route existed w found entry. pv_snapshot env identity = Some file
        \<and> fst (pt_lookup_parse p file route existed w) = Ok found
        \<and> pl_lookup found = LookupFresh entry \<and> r = cached_parse_result identity entry)"

lemma lookup_step_effect:
  assumes "lookup_step sha p env f route identity w s = Ok (w', s')" and "df_file_identity f = identity"
    and "pv_snapshot env identity = Some f"
  shows "admit_effect sha env f identity (cached_for p env identity) s s'"
proof -
  define s1 where "s1 = s\<lparr>ph_any_lookup := True, ph_metrics := (ph_metrics s)
      \<lparr>em_parse_cache_lookup_count := em_parse_cache_lookup_count (ph_metrics s) + 1\<rparr>\<rparr>"
  obtain lookup w1 where l: "pt_lookup_parse p f route (identity \<in> pv_existed_before env) w = (lookup, w1)" by force
  have "admit_effect sha env f identity (cached_for p env identity) s1 s'"
  proof (cases lookup)
    case (Err e)
    with assms l show ?thesis by (simp add: lookup_step_def Let_def)
  next
    case (Ok found)
    show ?thesis
    proof (cases "pl_lookup found")
      case (LookupFresh entry)
      have "cached_for p env identity (cached_parse_result identity entry)"
        unfolding cached_for_def using l Ok LookupFresh assms(3) by (metis fst_conv)
      with assms l Ok LookupFresh show ?thesis
        by (auto simp: lookup_step_def Let_def s1_def intro: consume_hit_effect)
    next
      case (LookupMiss reason)
      with assms l Ok show ?thesis
        by (auto simp: lookup_step_def Let_def s1_def intro: queue_miss_effect)
    qed
  qed
  then show ?thesis by (simp add: admit_effect.simps s1_def)
qed

text \<open>The files phase A has to settle, and what it does to the others.\<close>

definition due :: "parse_env \<Rightarrow> admission_decision \<Rightarrow> bool" where
  "due env d \<longleftrightarrow> (case ad_action d of Admit route \<Rightarrow> pv_snapshot env (ad_file_identity d) \<noteq> None
      \<and> \<not> skips_parse env (ad_file_identity d) route | _ \<Rightarrow> False)"

definition well_keyed :: "(rstring \<rightharpoonup> discovered_file) \<Rightarrow> bool" where
  "well_keyed snapshot \<longleftrightarrow> (\<forall>i f. snapshot i = Some f \<longrightarrow> df_file_identity f = i)"

lemma admit_step_effect:
  assumes "admit_step sha p env d (w, s) = Ok (w', s')" and keyed: "well_keyed (pv_snapshot env)"
  shows "if due env d
    then \<exists>file. pv_snapshot env (ad_file_identity d) = Some file
      \<and> admit_effect sha env file (ad_file_identity d) (cached_for p env (ad_file_identity d)) s s'
    else s' = s"
proof (cases "due env d")
  case False
  with assms show ?thesis
    by (auto simp: admit_step_def due_def Let_def split: plan_action.splits option.splits if_splits)
next
  case True
  then obtain route f where d: "ad_action d = Admit route" "pv_snapshot env (ad_file_identity d) = Some f"
    "\<not> skips_parse env (ad_file_identity d) route"
    by (auto simp: due_def split: plan_action.splits)
  have fid: "df_file_identity f = ad_file_identity d" using keyed d(2) by (simp add: well_keyed_def)
  obtain now w1 where n: "pt_now p w = (now, w1)" by force
  show ?thesis
  proof (cases "pv_work_deadline env \<le> now")
    case stop: True
    then have "s' = stop_at_deadline (ad_file_identity d) s"
      using assms(1) d n by (simp add: admit_step_def)
    then have "admit_effect sha env f (ad_file_identity d) (cached_for p env (ad_file_identity d)) s s'"
      by (intro admit_effect.stop) simp_all
    with True d(2) show ?thesis by auto
  next
    case False
    then have "lookup_step sha p env f route (ad_file_identity d) w1 s = Ok (w', s')"
      using assms(1) d n by (simp add: admit_step_def)
    from lookup_step_effect [OF this fid d(2)] True d(2) show ?thesis by auto
  qed
qed


section \<open>Phase A as a whole\<close>

text \<open>A file without a guard is passed over in silence; every other file that is due ends with a
  result, as a task or stopped.\<close>

definition due_ids :: "parse_env \<Rightarrow> admission_decision list \<Rightarrow> rstring set" where
  "due_ids env admission = ad_file_identity ` {d \<in> set admission. due env d}"

definition guarded :: "parse_env \<Rightarrow> rstring \<Rightarrow> bool" where
  "guarded env i \<longleftrightarrow> (case pv_snapshot env i of None \<Rightarrow> False | Some f \<Rightarrow> expected_guard f \<noteq> None)"

abbreviation queued :: "parse_phase \<Rightarrow> rstring set" where
  "queued s \<equiv> task_id ` set (ph_tasks s)"

definition settled_ids :: "parse_phase \<Rightarrow> rstring set" where
  "settled_ids s = dom (res s) \<union> stopped s \<union> queued s"

text \<open>What holds between two files: the three fates exclude each other and nothing was written yet.\<close>

definition phase_a_inv :: "parse_env \<Rightarrow> parse_phase \<Rightarrow> bool" where
  "phase_a_inv env s \<longleftrightarrow> dom (res s) \<inter> stopped s = {} \<and> queued s \<inter> (dom (res s) \<union> stopped s) = {}
     \<and> distinct (map task_id (ph_tasks s)) \<and> (stopped s \<noteq> {} \<longrightarrow> 0 < stops s) \<and> receipts s = []
     \<and> (\<forall>t \<in> set (ph_tasks s). pv_snapshot env (task_id t) = Some (tk_file t)
          \<and> tk_own_timeout_ms t \<le> route_timeout_ms (tk_route t) (pv_profile env))"

lemma admit_effect_settles:
  assumes "admit_effect sha env f i cached s s'" and "df_file_identity f = i"
  shows "settled_ids s \<subseteq> settled_ids s'" "settled_ids s' \<subseteq> insert i (settled_ids s)"
    "expected_guard f \<noteq> None \<Longrightarrow> i \<in> settled_ids s'"
  using assms by (cases rule: admit_effect.cases; force simp: settled_ids_def)+

lemma admit_effect_inv:
  assumes "admit_effect sha env f i cached s s'" and "df_file_identity f = i" and "pv_snapshot env i = Some f"
    and "phase_a_inv env s" and fresh: "i \<notin> settled_ids s"
  shows "phase_a_inv env s'"
  using assms(1)
proof (cases rule: admit_effect.cases)
  case no_guard
  with assms(4) show ?thesis by (simp add: phase_a_inv_def)
next
  case (result r)
  with assms(4) fresh show ?thesis by (auto simp: phase_a_inv_def settled_ids_def)
next
  case stop
  with assms(4) fresh show ?thesis by (auto simp: phase_a_inv_def settled_ids_def)
next
  case (task t)
  with assms(2-4) fresh show ?thesis by (auto simp: phase_a_inv_def settled_ids_def)
qed

lemma admit_step_settles:
  assumes step: "admit_step sha p env d (w, s) = Ok (w', s')" and keyed: "well_keyed (pv_snapshot env)"
    and "phase_a_inv env s" and "ad_file_identity d \<notin> settled_ids s"
  shows "phase_a_inv env s' \<and> settled_ids s \<subseteq> settled_ids s'
    \<and> settled_ids s' \<subseteq> settled_ids s \<union> (if due env d then {ad_file_identity d} else {})
    \<and> (due env d \<and> guarded env (ad_file_identity d) \<longrightarrow> ad_file_identity d \<in> settled_ids s')"
proof (cases "due env d")
  case False
  then show ?thesis using admit_step_effect [OF step keyed] assms(3) by simp
next
  case True
  then obtain f where f: "pv_snapshot env (ad_file_identity d) = Some f"
    and eff: "admit_effect sha env f (ad_file_identity d) (cached_for p env (ad_file_identity d)) s s'"
    using admit_step_effect [OF step keyed] by auto
  have fid: "df_file_identity f = ad_file_identity d" using keyed f by (simp add: well_keyed_def)
  from True f admit_effect_settles [OF eff fid] admit_effect_inv [OF eff fid f assms(3,4)]
  show ?thesis by (auto simp: guarded_def)
qed

section \<open>Phase B as a whole\<close>

text \<open>A receipt is true when the result that is kept is the one that was written.\<close>

definition receipt_true :: "parse_phase \<Rightarrow> cache_write_record \<Rightarrow> bool" where
  "receipt_true s r \<longleftrightarrow> (\<exists>result. res s (cw_file_identity r) = Some result \<and> ps_parse_status result = Success
     \<and> cw_content r = ps_content result \<and> cw_content_sha256 r = ps_content_sha256 result
     \<and> cw_evidence_audit r = ps_evidence_audit result \<and> cw_truncated r = ps_truncated result)"

inductive merge_effect :: "wave_item \<Rightarrow> parse_phase \<Rightarrow> parse_phase \<Rightarrow> bool" for item s s' where
  merged: "res s' = (res s)(item_id item \<mapsto> r) \<Longrightarrow> stopped s' = stopped s \<Longrightarrow> ph_tasks s' = ph_tasks s \<Longrightarrow>
     (0 < stops s \<longrightarrow> 0 < stops s') \<Longrightarrow>
     receipts s' = receipts s \<or> (\<exists>c. receipts s' = receipts s @ [c] \<and> cw_file_identity c = item_id item \<and> receipt_true s' c) \<Longrightarrow>
     merge_effect item s s'"

lemma count_attempts_simps [simp]:
  "res (count_attempts route r s) = res s" "stopped (count_attempts route r s) = stopped s"
  "ph_tasks (count_attempts route r s) = ph_tasks s" "receipts (count_attempts route r s) = receipts s"
  "stops (count_attempts route r s) = stops s"
  by (simp_all add: count_attempts_def Let_def)

lemma write_result_effect:
  assumes "write_result p env item result (w, s) = (w', s')"
  shows "res s' = res s \<and> stopped s' = stopped s \<and> ph_tasks s' = ph_tasks s \<and> (0 < stops s \<longrightarrow> 0 < stops s')
    \<and> (receipts s' = receipts s \<or> receipts s' = receipts s @ [cache_record env item result])"
proof -
  obtain t1 w1 where t1: "pt_now p w = (t1, w1)" by force
  obtain t2 w2 where t2: "pt_now p w1 = (t2, w2)" by force
  obtain wr w3 where w3: "pt_write_parse p t2 [cache_record env item result] w2 = (wr, w3)" by force
  from assms t1 t2 w3 show ?thesis
    by (cases wr; auto simp: write_result_def Let_def split: if_splits cache_port_error.splits)
qed

lemma cache_record_fields [simp]:
  "cw_file_identity (cache_record env item r) = item_id item" "cw_content (cache_record env item r) = ps_content r"
  "cw_content_sha256 (cache_record env item r) = ps_content_sha256 r"
  "cw_evidence_audit (cache_record env item r) = ps_evidence_audit r"
  "cw_truncated (cache_record env item r) = ps_truncated r"
  by (simp_all add: cache_record_def Let_def split: prod.splits)

lemma merge_step_effect:
  assumes "merge_step sha p env (item, result) (w, s) = (w', s')"
  shows "merge_effect item s s'"
proof -
  let ?s = "count_attempts (rq_route (wv_request item)) result s"
  obtain same w1 where v: "pt_verify p (df_path (rq_file (wv_request item))) (wv_guard item) w = (same, w1)" by force
  obtain w2 s2 where wr: "write_result p env item result (w1, ?s) = (w2, s2)" by force
  show ?thesis
  proof (cases "ps_parse_status result = Success \<and> same")
    case True
    with assms v wr have "s' = put_hash (item_id item) (wv_profile_hash item) (put_result (item_id item) result s2)"
      by (simp add: merge_step_def Let_def)
    with True write_result_effect [OF wr] show ?thesis
      by (intro merged [where r = result]) (auto simp: receipt_true_def)
  next
    case False
    with assms v obtain r where "s' = put_hash (item_id item) (wv_profile_hash item) (put_result (item_id item) r ?s)"
      by (auto simp: merge_step_def Let_def split: if_splits)
    then show ?thesis by (intro merged [where r = r]) simp_all
  qed
qed

text \<open>The invariant of the dispatch loop over the tasks that are left.\<close>

definition phase_b_inv :: "rstring set \<Rightarrow> parse_phase \<Rightarrow> bool" where
  "phase_b_inv left s \<longleftrightarrow> dom (res s) \<inter> stopped s = {} \<and> left \<inter> (dom (res s) \<union> stopped s) = {}
     \<and> (stopped s \<noteq> {} \<longrightarrow> 0 < stops s) \<and> (\<forall>c \<in> set (receipts s). receipt_true s c)"

lemma receipt_true_update: "receipt_true s c \<Longrightarrow> res s' = (res s)(i \<mapsto> r) \<Longrightarrow> i \<notin> dom (res s) \<Longrightarrow> receipt_true s' c"
  by (auto simp: receipt_true_def)

lemma merge_effect_inv:
  assumes "merge_effect item s s'" and "phase_b_inv left s" and "item_id item \<in> left"
  shows "phase_b_inv (left - {item_id item}) s' \<and> dom (res s') = insert (item_id item) (dom (res s))
    \<and> stopped s' = stopped s"
  using assms(1)
proof cases
  case (merged r)
  have old: "receipt_true s' c" if "c \<in> set (receipts s)" for c
  proof (rule receipt_true_update [OF _ merged(1)])
    show "receipt_true s c" "item_id item \<notin> dom (res s)"
      using that assms(2,3) unfolding phase_b_inv_def by blast+
  qed
  then have "\<forall>c \<in> set (receipts s'). receipt_true s' c" using merged(5) by auto
  with merged assms(2,3) show ?thesis by (auto simp: phase_b_inv_def)
qed

lemma phase_b_inv_mono: "phase_b_inv left s \<Longrightarrow> left' \<subseteq> left \<Longrightarrow> phase_b_inv left' s"
  by (auto simp: phase_b_inv_def)

lemma fresh_result_inv:
  assumes "phase_b_inv left s" and "i \<in> left" and "res s' = (res s)(i \<mapsto> r)" and "stopped s' = stopped s"
    and "stops s' = stops s" and "receipts s' = receipts s"
  shows "phase_b_inv (left - {i}) s'"
proof -
  have "i \<notin> dom (res s)" "i \<notin> stopped s" using assms(1,2) unfolding phase_b_inv_def by blast+
  then have "\<forall>c \<in> set (receipts s'). receipt_true s' c"
    using assms(1,6) receipt_true_update [OF _ assms(3)] unfolding phase_b_inv_def by metis
  with assms show ?thesis unfolding phase_b_inv_def by auto
qed

definition guarded_tasks :: "parse_task list \<Rightarrow> rstring set" where
  "guarded_tasks tasks = task_id ` {t \<in> set tasks. expected_guard (tk_file t) \<noteq> None}"

inductive prepare_effect ::
  "parse_task \<Rightarrow> u64 \<Rightarrow> parse_phase \<Rightarrow> wave_item list \<Rightarrow> parse_phase \<Rightarrow> wave_item list \<Rightarrow> bool"
  for t remaining s items s' items' where
  dropped: "expected_guard (tk_file t) = None \<Longrightarrow> s' = s \<Longrightarrow> items' = items \<Longrightarrow> prepare_effect t remaining s items s' items'"
| changed: "expected_guard (tk_file t) \<noteq> None \<Longrightarrow> s' = put_hash (task_id t) h (put_result (task_id t) r s) \<Longrightarrow>
     items' = items \<Longrightarrow> prepare_effect t remaining s items s' items'"
| dispatched: "expected_guard (tk_file t) = Some (wv_guard item) \<Longrightarrow> s' = s \<Longrightarrow> items' = items @ [item] \<Longrightarrow>
     rq_file (wv_request item) = tk_file t \<Longrightarrow> rq_route (wv_request item) = tk_route t \<Longrightarrow>
     rq_timeout_ms (wv_request item) = min (tk_own_timeout_ms t) remaining \<Longrightarrow> prepare_effect t remaining s items s' items'"

lemma prepare_step_effect:
  assumes "prepare_step sha p env remaining t (w, s, items) = (w', s', items')"
  shows "prepare_effect t remaining s items s' items'"
proof (cases "expected_guard (tk_file t)")
  case None
  with assms show ?thesis by (simp add: prepare_step_def dropped)
next
  case (Some guard)
  obtain same w1 where v: "pt_verify p (df_path (tk_file t)) guard w = (same, w1)" by force
  show ?thesis
  proof (cases same)
    case False
    with assms Some v show ?thesis
      by (intro changed [where h = "tk_profile_hash t" and r = "source_version_changed_parse sha (tk_file t)"])
        (simp_all add: prepare_step_def Let_def)
  next
    case True
    with assms Some v show ?thesis
      by (intro dispatched [where item = "last items'"]) (auto simp: prepare_step_def Let_def)
  qed
qed

lemma guarded_tasks_subset: "guarded_tasks tasks \<subseteq> task_id ` set tasks"
  by (auto simp: guarded_tasks_def)

lemma prepare_fold:
  assumes "fold (prepare_step sha p env remaining) wave (w, s, items) = (w', s', items')"
    and "distinct (map task_id wave)" and "phase_b_inv left s" and "task_id ` set wave \<subseteq> left"
  shows "\<exists>C new. items' = items @ new \<and> phase_b_inv (left - C) s' \<and> dom (res s') = dom (res s) \<union> C
    \<and> stopped s' = stopped s \<and> distinct (map item_id new) \<and> C \<inter> item_id ` set new = {}
    \<and> C \<union> item_id ` set new = guarded_tasks wave"
  using assms
proof (induction wave arbitrary: w s items left)
  case Nil
  then show ?case by (intro exI [of _ "{}"] exI [of _ "[]"]) (simp add: guarded_tasks_def)
next
  case (Cons t ts)
  obtain w1 s1 items1 where step: "prepare_step sha p env remaining t (w, s, items) = (w1, s1, items1)" by (metis prod_cases3)
  then have rest: "fold (prepare_step sha p env remaining) ts (w1, s1, items1) = (w', s', items')"
    using Cons.prems(1) by simp
  have new: "task_id t \<notin> task_id ` set ts" using Cons.prems(2) by simp
  then have sub: "task_id ` set ts \<subseteq> left - {task_id t}" and fresh: "task_id t \<notin> guarded_tasks ts"
    using Cons.prems(4) guarded_tasks_subset [of ts] by (simp add: subset_Diff_insert, metis subsetD)
  have left: "task_id t \<in> left" using Cons.prems(4) by simp
  from prepare_step_effect [OF step] show ?case
  proof cases
    case dropped
    then have "guarded_tasks (t # ts) = guarded_tasks ts" by (auto simp: guarded_tasks_def)
    with Cons.IH [OF rest] Cons.prems(2-4) dropped show ?thesis by simp
  next
    case (changed h r)
    have all: "guarded_tasks (t # ts) = insert (task_id t) (guarded_tasks ts)"
      using changed(1) by (auto simp: guarded_tasks_def)
    have inv: "phase_b_inv (left - {task_id t}) s1"
      using fresh_result_inv [OF Cons.prems(3) left, of s1 r] changed(2) by simp
    obtain C new where IH: "items' = items @ new" "phase_b_inv (left - {task_id t} - C) s'"
      "dom (res s') = dom (res s1) \<union> C" "stopped s' = stopped s1" "distinct (map item_id new)"
      "C \<inter> item_id ` set new = {}" "C \<union> item_id ` set new = guarded_tasks ts"
      using Cons.IH [OF rest _ inv sub] Cons.prems(2) changed(3) by auto
    have "task_id t \<notin> item_id ` set new" using IH(7) fresh by (metis UnI2)
    moreover have "left - {task_id t} - C = left - insert (task_id t) C" by auto
    ultimately show ?thesis using IH changed(2) all
      by (intro exI [of _ "insert (task_id t) C"] exI [of _ new]) simp
  next
    case (dispatched item)
    have iid: "item_id item = task_id t" using dispatched(4) by simp
    have all: "guarded_tasks (t # ts) = insert (task_id t) (guarded_tasks ts)"
      using dispatched(1) by (auto simp: guarded_tasks_def)
    have sub': "task_id ` set ts \<subseteq> left" using sub by blast
    obtain C new where IH: "items' = items1 @ new" "phase_b_inv (left - C) s'"
      "dom (res s') = dom (res s) \<union> C" "stopped s' = stopped s" "distinct (map item_id new)"
      "C \<inter> item_id ` set new = {}" "C \<union> item_id ` set new = guarded_tasks ts"
      using Cons.IH [OF rest _ _ sub'] Cons.prems(2,3) dispatched(2) by auto
    have "task_id t \<notin> item_id ` set new" "task_id t \<notin> C" using IH(7) fresh by (metis UnI1 UnI2)+
    with IH dispatched(3) all iid show ?thesis
      by (intro exI [of _ C] exI [of _ "item # new"]) simp
  qed
qed

interpretation parse_merge: settling_merge "\<lambda>ir. item_id (fst ir)" "\<lambda>_. True" phase_b_inv "\<lambda>s. dom (res s)" "\<lambda>s. stopped s"
  "merge_step sha p env" for sha :: "rstring \<Rightarrow> rstring" and p :: "'w ports" and env
proof unfold_locales
  fix ir w s w' s' left
  assume "merge_step sha p env ir (w, s) = (w', s')" "phase_b_inv left s" "item_id (fst ir) \<in> left"
  then show "phase_b_inv (left - {item_id (fst ir)}) s' \<and> dom (res s') = insert (item_id (fst ir)) (dom (res s))
      \<and> stopped s' = stopped s"
    by (cases ir) (auto dest!: merge_step_effect merge_effect_inv)
qed

lemma parse_wave_effect:
  assumes "parse_wave par n sha p env wave (w, s) = (w', s')" and exec: "ordered_executor par"
    and "distinct (map task_id wave)" and "phase_b_inv left s" and "task_id ` set wave \<subseteq> left"
  shows "phase_b_inv (left - task_id ` set wave) s' \<and> dom (res s') = dom (res s) \<union> guarded_tasks wave \<and> stopped s' = stopped s"
proof -
  obtain now w1 where now: "pt_now p w = (now, w1)" by force
  obtain w2 s2 items where prep: "fold (prepare_step sha p env (saturating_sub (pv_work_deadline env) now)) wave (w1, s, [])
      = (w2, s2, items)" by (metis prod_cases3)
  obtain results w3 where run: "wave_map par n (pt_parse p) (map wv_request items) w2 = (results, w3)" by force
  have len: "length results = length items"
    using ordered_executor.map_length [OF exec, of n "pt_parse p" "map wv_request items" w2] run by simp
  obtain C where C: "phase_b_inv (left - C) s2" "dom (res s2) = dom (res s) \<union> C" "stopped s2 = stopped s"
    "distinct (map item_id items)" "C \<inter> item_id ` set items = {}" "C \<union> item_id ` set items = guarded_tasks wave"
    using prepare_fold [OF prep assms(3-5)] by auto
  have merge: "fold (merge_step sha p env) (zip items results) (w3, s2) = (w', s')"
    using assms(1) now prep run by (simp add: parse_wave_def Let_def)
  have items: "map fst (zip items results) = items" using len by simp
  have "map (\<lambda>ir. item_id (fst ir)) (zip items results) = map item_id (map fst (zip items results))" by simp
  with items have ids: "map (\<lambda>ir. item_id (fst ir)) (zip items results) = map item_id items" by simp
  from arg_cong [OF this, of set] have idset: "(\<lambda>ir. item_id (fst ir)) ` set (zip items results) = item_id ` set items"
    by simp
  note guarded_tasks_subset [of wave]
  then have "item_id ` set items \<subseteq> left - C" using C(5,6) assms(5) by blast
  then have "phase_b_inv (left - C - item_id ` set items) s' \<and> dom (res s') = dom (res s2) \<union> item_id ` set items
      \<and> stopped s' = stopped s2"
    using parse_merge.fold_merge_settles [OF merge _ _ C(1)] ids idset C(4) by simp
  moreover have "left - task_id ` set wave \<subseteq> left - C - item_id ` set items"
    using C(6) guarded_tasks_subset [of wave] by blast
  ultimately show ?thesis using C(2,3,6) by (auto intro: phase_b_inv_mono)
qed

lemma stop_all_effect:
  "res (stop_all tasks s) = res s" "receipts (stop_all tasks s) = receipts s"
  "stopped (stop_all tasks s) = stopped s \<union> task_id ` set tasks"
  "tasks \<noteq> [] \<Longrightarrow> 0 < stops (stop_all tasks s)"
proof -
  show "res (stop_all tasks s) = res s" "receipts (stop_all tasks s) = receipts s"
    "stopped (stop_all tasks s) = stopped s \<union> task_id ` set tasks"
    unfolding stop_all_def by (induction tasks arbitrary: s) auto
  show "tasks \<noteq> [] \<Longrightarrow> 0 < stops (stop_all tasks s)"
    unfolding stop_all_def by (induction tasks rule: rev_induct) auto
qed

text \<open>The waves of the parser settle their tasks, on any pool that keeps the order.\<close>

locale parse_run = ordered_executor par
  for par :: "(parse_request \<Rightarrow> 'w \<Rightarrow> parse_result \<times> 'w) \<Rightarrow> parse_request list \<Rightarrow> 'w \<Rightarrow> parse_result list \<times> 'w" +
  fixes n :: nat and sha :: "rstring \<Rightarrow> rstring" and p :: "'w ports" and env :: parse_env
  assumes keyed: "well_keyed (pv_snapshot env)"
begin

sublocale front: settling_fold ad_file_identity "due env" "\<lambda>d. due env d \<and> guarded env (ad_file_identity d)"
  "admit_step sha p env" "phase_a_inv env" settled_ids
  by unfold_locales (rule admit_step_settles [OF _ keyed])

sublocale settling_waves "\<lambda>t. task_id t" "\<lambda>t. expected_guard (tk_file t) \<noteq> None" phase_b_inv "\<lambda>s. dom (res s)" "\<lambda>s. stopped s"
  "parse_wave par n sha p env" stop_all
proof unfold_locales
  fix left left' s assume "phase_b_inv left s" "left' \<subseteq> left"
  then show "phase_b_inv left' s" by (rule phase_b_inv_mono)
next
  fix ts left s w w' s'
  assume "distinct (map (\<lambda>t. task_id t) ts)" "phase_b_inv left s" "(\<lambda>t. task_id t) ` set ts \<subseteq> left"
    "parse_wave par n sha p env ts (w, s) = (w', s')"
  then show "phase_b_inv (left - (\<lambda>t. task_id t) ` set ts) s'
      \<and> dom (res s') = dom (res s) \<union> (\<lambda>t. task_id t) ` {t \<in> set ts. expected_guard (tk_file t) \<noteq> None} \<and> stopped s' = stopped s"
    using parse_wave_effect [OF _ ordered_executor_axioms] by (simp add: guarded_tasks_def)
next
  fix ts s assume "ts \<noteq> []" "phase_b_inv ((\<lambda>t. task_id t) ` set ts) s"
  then show "phase_b_inv {} (stop_all ts s) \<and> dom (res (stop_all ts s)) = dom (res s)
      \<and> stopped (stop_all ts s) = stopped s \<union> (\<lambda>t. task_id t) ` set ts"
    by (auto simp: phase_b_inv_def stop_all_effect receipt_true_def)
qed

end

section \<open>The phase ends\<close>

text \<open>The diagnostic of a cache lookup that failed.\<close>

inductive lookup_failure :: "'w ports \<Rightarrow> diagnostic \<Rightarrow> bool" for p where
  failed: "fst (pt_lookup_parse p f route existed w) = Err c \<Longrightarrow> lookup_failure p (port_error_diagnostic c StageCache)"

lemma lookup_step_error:
  assumes "lookup_step sha p env f route i w s = Err e"
  shows "lookup_failure p e"
proof -
  obtain lookup w1 where l: "pt_lookup_parse p f route (i \<in> pv_existed_before env) w = (lookup, w1)" by force
  then obtain c where "lookup = Err c" "e = port_error_diagnostic c StageCache"
    using assms by (cases lookup) (auto simp: lookup_step_def Let_def split: cache_lookup.splits)
  with l failed [of p f route "i \<in> pv_existed_before env" w c] show ?thesis by simp
qed

lemma admit_step_error:
  assumes "admit_step sha p env d ws = Err e"
  shows "lookup_failure p e"
proof -
  obtain w s where ws: "ws = (w, s)" by force
  obtain now w1 where n: "pt_now p w = (now, w1)" by force
  from assms obtain route f where "lookup_step sha p env f route (ad_file_identity d) w1 s = Err e"
    by (auto simp: admit_step_def ws n Let_def split: plan_action.splits option.splits if_splits)
  then show ?thesis by (rule lookup_step_error)
qed

lemma run_parses_cases:
  assumes "0 < n"
  obtains e where "run_parses par n sha p env admission metrics w = Some (Err e)"
    "lookup_failure p e"
  | w' out m where "run_parses par n sha p env admission metrics w = Some (Ok (w', out, m))"
proof -
  let ?s = "\<lparr>ph_outputs = no_outputs, ph_metrics = metrics, ph_any_lookup = False, ph_any_miss = False, ph_tasks = []\<rparr>"
  show ?thesis
  proof (cases "try_fold (admit_step sha p env) admission (w, ?s)")
    case (Err e)
    then have "lookup_failure p e" by (rule try_fold_error) (rule admit_step_error)
    with Err that(1) show ?thesis by (simp add: run_parses_def)
  next
    case (Ok ws)
    obtain w1 s1 where ws: "ws = (w1, s1)" by force
    obtain w2 s2 where "parse_waves par n sha p env (ph_tasks s1) (w1, s1) = Some (w2, s2)"
      using wave_loop_returns [OF assms] unfolding parse_waves_def by fastforce
    with Ok ws that(2) show ?thesis by (simp add: run_parses_def)
  qed
qed

text \<open>With room for at least one file in a wave the parsing phase always ends: with outputs, or
  with the diagnostic of a cache lookup that failed, which is its only error.\<close>

theorem run_parses_returns:
  assumes "0 < n"
  shows "\<exists>r. run_parses par n sha p env admission metrics w = Some r
    \<and> (\<forall>e. r = Err e \<longrightarrow> lookup_failure p e)"
  by (rule run_parses_cases [OF assms, of par sha p env admission metrics w]) auto

section \<open>Every file is settled\<close>

lemma settle_sets:
  "D \<union> T \<union> Q \<subseteq> A \<Longrightarrow> {i \<in> A. P i} \<subseteq> D \<union> T \<union> Q \<Longrightarrow> {i \<in> Q. P i} \<subseteq> G \<Longrightarrow> D \<union> T \<union> G \<subseteq> R \<Longrightarrow> R \<subseteq> D \<union> T \<union> Q \<Longrightarrow>
     {i \<in> A. P i} \<subseteq> R \<and> R \<subseteq> A"
  by blast

context parse_run
begin

lemma run_parses_Ok:
  assumes "run_parses par n sha p env admission metrics w = Some (Ok (w', out, m))" and n: "0 < n" and dist: "distinct (map ad_file_identity admission)"
  shows "\<exists>s. ph_outputs s = out \<and> em_stage_deadline_exhausted_count m = stops s \<and> phase_b_inv {} s
    \<and> {i \<in> due_ids env admission. guarded env i} \<subseteq> dom (res s) \<union> stopped s
    \<and> dom (res s) \<union> stopped s \<subseteq> due_ids env admission"
proof -
  let ?s = "\<lparr>ph_outputs = no_outputs, ph_metrics = metrics, ph_any_lookup = False, ph_any_miss = False, ph_tasks = []\<rparr>"
  obtain w1 s1 w2 s2 where a: "try_fold (admit_step sha p env) admission (w, ?s) = Ok (w1, s1)"
    and b: "parse_waves par n sha p env (ph_tasks s1) (w1, s1) = Some (w2, s2)"
    and out: "out = ph_outputs s2" and m: "em_stage_deadline_exhausted_count m = stops s2"
    using assms(1) by (auto simp: run_parses_def split: result.splits)
  have "phase_a_inv env ?s" "settled_ids ?s = {}"
    by (simp_all add: phase_a_inv_def settled_ids_def no_outputs_def)
  moreover have "ad_file_identity ` {d \<in> set admission. due env d \<and> guarded env (ad_file_identity d)}
      = {i \<in> due_ids env admission. guarded env i}"
    by (auto simp: due_ids_def)
  ultimately have A: "phase_a_inv env s1" "settled_ids s1 \<subseteq> due_ids env admission"
    "{i \<in> due_ids env admission. guarded env i} \<subseteq> settled_ids s1"
    using front.fold_settles [OF a dist] by (simp_all add: due_ids_def)
  have "phase_b_inv (queued s1) s1" and tasks: "distinct (map task_id (ph_tasks s1))"
    and known: "\<forall>t \<in> set (ph_tasks s1). pv_snapshot env (task_id t) = Some (tk_file t)"
    using A(1) by (simp_all add: phase_a_inv_def phase_b_inv_def)
  then have B: "phase_b_inv {} s2" "dom (res s1) \<union> stopped s1 \<union> guarded_tasks (ph_tasks s1) \<subseteq> dom (res s2) \<union> stopped s2"
    "dom (res s2) \<union> stopped s2 \<subseteq> dom (res s1) \<union> stopped s1 \<union> queued s1"
    using wave_loop_settles [OF n tasks, of s1 "pt_now p" "pv_work_deadline env" w1] b
    unfolding parse_waves_def guarded_tasks_def by auto
  have "{i \<in> queued s1. guarded env i} \<subseteq> guarded_tasks (ph_tasks s1)"
    using known by (auto simp: guarded_tasks_def guarded_def)
  from settle_sets [OF A(2,3) [unfolded settled_ids_def] this B(2,3)] B(1) out m
  show ?thesis by (intro exI [of _ s2]) simp
qed

end

text \<open>A counted deadline stays counted.\<close>

lemma admit_effect_stops: "admit_effect sha env f i cached s s' \<Longrightarrow> 0 < stops s \<Longrightarrow> 0 < stops s'"
  by (auto elim: admit_effect.cases)

lemma parse_wave_stops:
  assumes "parse_wave par n sha p env wave (w, s) = (w', s')" and "0 < stops s"
  shows "0 < stops s'"
proof -
  have prepare: "0 < stops (fst (snd (fold (prepare_step sha p env remaining) ts (w, s, items))))" if "0 < stops s" for remaining ts w s items
    using that
  proof (induction ts arbitrary: w s items)
    case (Cons t ts)
    obtain w1 s1 items1 where step: "prepare_step sha p env remaining t (w, s, items) = (w1, s1, items1)" by (metis prod_cases3)
    from prepare_step_effect [OF step] have "stops s1 = stops s" by cases simp_all
    with Cons.IH [of s1 w1 items1] Cons.prems step show ?case by simp
  qed simp
  have merge: "0 < stops (snd (fold (merge_step sha p env) irs (w, s)))" if "0 < stops s" for irs w s
    using that
  proof (induction irs arbitrary: w s)
    case (Cons ir irs)
    obtain w1 s1 where step: "merge_step sha p env ir (w, s) = (w1, s1)" by force
    then have "merge_effect (fst ir) s s1" using merge_step_effect [of sha p env "fst ir" "snd ir"] by simp
    then have "0 < stops s1" using Cons.prems by cases simp
    with Cons.IH [of s1 w1] step show ?case by simp
  qed simp
  obtain now w1 where now: "pt_now p w = (now, w1)" by force
  obtain w2 s2 items where prep: "fold (prepare_step sha p env (saturating_sub (pv_work_deadline env) now)) wave (w1, s, [])
      = (w2, s2, items)" by (metis prod_cases3)
  obtain results w3 where run: "wave_map par n (pt_parse p) (map wv_request items) w2 = (results, w3)" by force
  have "fold (merge_step sha p env) (zip items results) (w3, s2) = (w', s')"
    using assms(1) now prep run by (simp add: parse_wave_def Let_def)
  moreover have "0 < stops s2"
    using prepare [OF assms(2), of "saturating_sub (pv_work_deadline env) now" wave w1 "[]"] prep by simp
  ultimately show ?thesis using merge [of s2 "zip items results" w3] by simp
qed

lemma run_parses_stops:
  assumes "run_parses par n sha p env admission metrics w = Some (Ok (w', out, m))" and n: "0 < n"
    and keyed: "well_keyed (pv_snapshot env)" and "0 < em_stage_deadline_exhausted_count metrics"
  shows "0 < em_stage_deadline_exhausted_count m"
proof -
  let ?s = "\<lparr>ph_outputs = no_outputs, ph_metrics = metrics, ph_any_lookup = False, ph_any_miss = False, ph_tasks = []\<rparr>"
  obtain w1 s1 w2 s2 where a: "try_fold (admit_step sha p env) admission (w, ?s) = Ok (w1, s1)"
    and b: "parse_waves par n sha p env (ph_tasks s1) (w1, s1) = Some (w2, s2)"
    and m: "em_stage_deadline_exhausted_count m = stops s2"
    using assms(1) by (auto simp: run_parses_def split: result.splits)
  have "0 < stops (snd (w1, s1))"
  proof (rule try_fold_invariant [OF a])
    fix d ws ws' assume "0 < stops (snd ws)" "admit_step sha p env d ws = Ok ws'"
    then show "0 < stops (snd ws')"
      using admit_step_effect [OF _ keyed, of sha p d "fst ws" "snd ws" "fst ws'" "snd ws'"] admit_effect_stops
      by (auto split: if_splits)
  qed (use assms(4) in simp)
  then have "0 < stops s2"
    by (intro wave_loop_invariant [where I = "\<lambda>_ s. 0 < stops s", OF n b [unfolded parse_waves_def]])
      (auto intro: parse_wave_stops, metis stop_all_effect(4) fold_simps(1) stop_all_def)
  with m show ?thesis by simp
qed

text \<open>C29. Files have distinct identities and the pool returns its results in order. Then every
  admitted file that is to be parsed and has a source guard ends with exactly one of a result and
  the mark of a stopped file, no other file gets either, a stopped file means that the deadline
  was counted, and every committed cache write holds the content of the successful result that is
  kept for its file.\<close>

theorem run_parses_settles:
  assumes "run_parses par n sha p env admission metrics w = Some (Ok (w', out, m))" and "0 < n"
    and "ordered_executor par" and "well_keyed (pv_snapshot env)" and "distinct (map ad_file_identity admission)"
  shows "{i \<in> due_ids env admission. guarded env i} \<subseteq> dom (po_results out) \<union> po_runtime_not_parsed out
    \<and> dom (po_results out) \<union> po_runtime_not_parsed out \<subseteq> due_ids env admission
    \<and> dom (po_results out) \<inter> po_runtime_not_parsed out = {}
    \<and> (po_runtime_not_parsed out \<noteq> {} \<longrightarrow> 0 < em_stage_deadline_exhausted_count m)
    \<and> (\<forall>c \<in> set (po_parse_cache_receipts out). \<exists>result. po_results out (cw_file_identity c) = Some result
         \<and> ps_parse_status result = Success \<and> cw_content c = ps_content result
         \<and> cw_content_sha256 c = ps_content_sha256 result \<and> cw_evidence_audit c = ps_evidence_audit result
         \<and> cw_truncated c = ps_truncated result)"
proof -
  obtain s where "ph_outputs s = out" "em_stage_deadline_exhausted_count m = stops s" "phase_b_inv {} s"
    "{i \<in> due_ids env admission. guarded env i} \<subseteq> dom (res s) \<union> stopped s"
    "dom (res s) \<union> stopped s \<subseteq> due_ids env admission"
    using parse_run.run_parses_Ok [OF parse_run.intro [OF assms(3) parse_run_axioms.intro [OF assms(4)]] assms(1,2,5)] by (elim exE conjE)
  then show ?thesis unfolding phase_b_inv_def receipt_true_def by simp
qed

section \<open>A concrete phase\<close>

definition fixture_env :: parse_env where
  "fixture_env = \<lparr>pv_snapshot = [lit ''b'' \<mapsto> fixture_discovered], pv_classifications = Map.empty,
     pv_profile = daily_settings, pv_existed_before = {}, pv_runtime_classification = {},
     pv_work_deadline = 100,
     pv_workers = \<lparr>wi_office_contract = None, wi_office_version = None, wi_office_build = None,
       wi_pdf_contract = None, wi_pdf_version = None, wi_pdf_build = None, wi_classifier_build = None\<rparr>,
     pv_engine_version = [], pv_engine_build = []\<rparr>"

definition fixture_admission :: "admission_decision list" where
  "fixture_admission = [\<lparr>ad_file_identity = lit ''b'', ad_relative_path = lit ''b.txt'', ad_extension = lit ''.txt'',
     ad_priority = 0, ad_action = Admit LightText, ad_reserved_chars = 10\<rparr>]"

interpretation fixture_run: parse_run run_pass 2 "\<lambda>s. s" fixture_ports fixture_env
  by unfold_locales (simp add: well_keyed_def fixture_env_def fixture_discovered_def)

lemma fixture_run_parses:
  "\<exists>w' out m. run_parses run_pass 2 sha fixture_ports fixture_env fixture_admission default_metrics 0 = Some (Ok (w', out, m))"
  by (rule run_parses_cases [of 2 run_pass sha fixture_ports fixture_env fixture_admission default_metrics 0])
    (auto simp: fixture_ports_def lookup_failure.simps)

theorem run_parses_returns_witness:
  "\<exists>r. run_parses run_pass 2 id fixture_ports fixture_env fixture_admission default_metrics 0 = Some r"
  using run_parses_returns [of 2 run_pass id fixture_ports fixture_env fixture_admission default_metrics 0] by auto

lemma fixture_due: "due_ids fixture_env fixture_admission = {lit ''b''}" "guarded fixture_env (lit ''b'')"
proof -
  have "due fixture_env (hd fixture_admission)"
    by (simp add: due_def fixture_admission_def fixture_env_def skips_parse_def)
  moreover have "fixture_admission = [hd fixture_admission]" "ad_file_identity (hd fixture_admission) = lit ''b''"
    by (simp_all add: fixture_admission_def)
  ultimately have "{d \<in> set fixture_admission. due fixture_env d} = {hd fixture_admission}"
    by (metis (no_types, lifting) Collect_cong empty_set list.simps(15) mem_Collect_eq singleton_conv singleton_iff)
  then show "due_ids fixture_env fixture_admission = {lit ''b''}"
    using \<open>ad_file_identity _ = _\<close> by (simp add: due_ids_def)
  obtain h where h: "h = replicate 64 (48::nat)" by simp
  have "expected_guard fixture_discovered = Some \<lparr>sg_kind = UnixInodeCtimeV1, sg_guard_sha256 = Some h\<rparr>"
    using fixture_hash source_guard_kind_text_inverse [of UnixInodeCtimeV1]
    by (simp add: fixture_discovered_def expected_guard_def validate_source_guard_def ok_or_def require_def h [symmetric])
  then show "guarded fixture_env (lit ''b'')" by (simp add: guarded_def fixture_env_def)
qed

theorem run_parses_settles_witness:
  "\<exists>w' out m. run_parses run_pass 2 id fixture_ports fixture_env fixture_admission default_metrics 0 = Some (Ok (w', out, m))
    \<and> lit ''b'' \<in> dom (po_results out) \<union> po_runtime_not_parsed out
    \<and> dom (po_results out) \<inter> po_runtime_not_parsed out = {}"
proof -
  obtain w' out m where run: "run_parses run_pass 2 id fixture_ports fixture_env fixture_admission default_metrics 0
      = Some (Ok (w', out, m))"
    using fixture_run_parses by blast
  have "distinct (map ad_file_identity fixture_admission)" by (simp add: fixture_admission_def)
  with run_parses_settles [OF run _ sequential.ordered_executor_axioms fixture_run.keyed] fixture_due run
  show ?thesis by auto
qed

end
