(* ===== verification/Scheduler_Classify.thy ===== *)
theory Scheduler_Classify
  imports Scheduler_Ports
begin

text \<open>
  Classification of PDFs. \<open>src/rust/scanner_core/src/parsers/classifier.rs\<close>: the classifier port
  checks an answer of the worker against the request before anyone else sees it.
  \<open>run_classifications\<close> and \<open>execute_classification_wave\<close> of
  \<open>src/rust/scanner_core/src/scheduler.rs\<close>: phase A freezes the tasks in nominal order, phase B runs
  them in waves, discards answers for files that changed, freezes the audit of each execution
  and writes conclusive answers to the cache.
\<close>

section \<open>The classifier port\<close>

text \<open>\<open>ClassifyResult::validate\<close> and \<open>validate_for_max_pages\<close> of
  \<open>src/rust/worker_contract/src/lib.rs\<close>.\<close>

definition validate_classify_result :: "classify_result \<Rightarrow> check" where
  "validate_classify_result r = validate_all
     [check_some (cx_page_audit r) (\<lambda>audit. validate_all
        [validate_pdf_page_audit audit,
         require (cx_result_examined_pages r = Some (length (pg_checked_pages audit))
             \<and> (case cx_page_count r of None \<Rightarrow> False | Some n \<Rightarrow> \<forall>page \<in> set (pg_checked_pages audit). page \<le> n))
           (lit ''PDF observed pages violate page counts'')]),
      (if cx_status r \<in> {WorkText, WorkNoText}
       then and_then (require (cx_diagnostic r = None) (lit ''text/no-text result must not carry a diagnostic'')) (\<lambda>_.
            and_then (ok_or (lit ''text/no-text result requires page counts'') (cx_page_count r)) (\<lambda>page_count.
            and_then (ok_or (lit ''text/no-text result requires page counts'') (cx_result_examined_pages r)) (\<lambda>result_pages.
            require (page_count \<noteq> 0 \<and> result_pages \<noteq> 0 \<and> result_pages \<le> page_count)
              (lit ''text/no-text result page counts are inconsistent''))))
       else and_then (ok_or (lit ''unknown/error result requires a diagnostic'') (cx_diagnostic r)) (\<lambda>diagnostic.
            require (wd_retryable diagnostic = (cx_status r = WorkUnknown))
              (lit ''unknown must be retryable and error must not be'')))]"

definition validate_for_max_pages :: "classify_result \<Rightarrow> u64 \<Rightarrow> check" where
  "validate_for_max_pages r max_pages = validate_all
     [validate_classify_result r,
      require (1 \<le> max_pages \<and> max_pages \<le> 10000) (lit ''max_pages is outside the allowed range''),
      (if cx_status r \<in> {WorkText, WorkNoText}
       then let result_pages = the (cx_result_examined_pages r); window_pages = min (the (cx_page_count r)) max_pages in
         (if cx_status r = WorkText
          then require (1 \<le> result_pages \<and> result_pages \<le> window_pages)
            (lit ''text result pages exceed the request parse window'')
          else require (result_pages = window_pages)
            (lit ''no-text result did not inspect the complete request window''))
       else require (case cx_result_examined_pages r of None \<Rightarrow> True
           | Some result_pages \<Rightarrow> result_pages \<le> max_pages
               \<and> (case cx_page_count r of None \<Rightarrow> True | Some page_count \<Rightarrow> result_pages \<le> min page_count max_pages))
         (lit ''typed failure result pages exceed the request parse window''))]"

definition contract_failure :: "rstring \<Rightarrow> rstring \<Rightarrow> diagnostic" where
  "contract_failure message path =
     \<lparr>dg_error_code = ParserInvalidPayload, dg_message = message, dg_retryable = False,
      dg_stage = StageProcess, dg_file_path = Some path, dg_backend = None\<rparr>"

definition validate_classifier_result_for_request ::
  "classify_request \<Rightarrow> classify_result \<Rightarrow> (unit, diagnostic) result" where
  "validate_classifier_result_for_request q r =
     (if cq_policy_version q = lit ''pdf_text_presence_v2'' \<and> cx_page_audit r = None
         \<and> cx_status r \<in> {WorkText, WorkNoText}
      then Err (contract_failure (lit ''classifier v2 requires observed page provenance'') (cq_file_path q))
      else and_then
        (case cx_page_audit r of
           None \<Rightarrow> Ok ()
         | Some audit \<Rightarrow>
             let expected = pdf_sample_pages (unwrap_or (cx_page_count r) 0) (cq_max_pages q) (cq_policy_version q)
             in if pg_policy_version audit \<noteq> cq_policy_version q
                  \<or> length expected < length (pg_checked_pages audit)
                  \<or> take (length (pg_checked_pages audit)) expected \<noteq> pg_checked_pages audit
                then Err (contract_failure (lit ''classifier observed pages violate the selected policy'') (cq_file_path q))
                else (case pg_observations audit of
                        None \<Rightarrow> Ok ()
                      | Some observations \<Rightarrow>
                          if \<exists>i \<in> set [0..<length observations].
                               po_has_text (observations ! i) \<noteq> (cx_status r = WorkText \<and> i + 1 = length observations)
                          then Err (contract_failure (lit ''classifier text observations violate its status'') (cq_file_path q))
                          else Ok ()))
        (\<lambda>_. map_err (\<lambda>_. contract_failure (lit ''classifier result violates the request page window'') (cq_file_path q))
               (validate_for_max_pages r (cq_max_pages q))))"

text \<open>The outcome of the worker session, before and after the port.\<close>

definition port_execution :: "classify_request \<Rightarrow> classifier_execution \<Rightarrow> classifier_execution" where
  "port_execution q session =
     (case xe_outcome session of
        Err _ \<Rightarrow> session
      | Ok value \<Rightarrow> session\<lparr>xe_outcome := and_then (validate_classifier_result_for_request q value) (\<lambda>_. Ok value)\<rparr>)"

section \<open>State of the phase\<close>

record class_task =
  kt_file :: discovered_file
  kt_guard :: source_guard_v2
  kt_request :: classify_request
  kt_own_timeout_ms :: u64
  kt_profile_hash :: rstring
  kt_build :: rstring
  kt_miss_reason :: rstring
  kt_charged :: u64

record class_phase =
  cp_results :: "rstring \<rightharpoonup> pdf_classification_result"
  cp_audits :: "rstring \<rightharpoonup> pdf_classification_audit"
  cp_stopped :: "rstring set"
  cp_fresh_hits :: "rstring list"
  cp_receipts :: "classification_write_record list"
  cp_write_warnings :: "diagnostic list"
  cp_metrics :: execution_metrics
  cp_any_lookup :: bool
  cp_any_miss :: bool
  cp_tasks :: "class_task list"

record class_env =
  kv_snapshot :: "rstring \<rightharpoonup> discovered_file"
  kv_profile :: normalized_settings
  kv_profile_hash :: rstring
  kv_build :: rstring
  kv_existed_before :: "rstring set"
  kv_work_deadline :: u64

definition stop_classification :: "rstring \<Rightarrow> class_phase \<Rightarrow> class_phase" where
  "stop_classification identity s =
     s\<lparr>cp_stopped := insert identity (cp_stopped s),
       cp_metrics := (cp_metrics s)\<lparr>em_stage_deadline_exhausted_count := 1\<rparr>\<rparr>"

definition put_classification :: "rstring \<Rightarrow> pdf_classification_result \<Rightarrow> class_phase \<Rightarrow> class_phase" where
  "put_classification identity result s = s\<lparr>cp_results := (cp_results s)(identity \<mapsto> result)\<rparr>"

definition put_audit :: "rstring \<Rightarrow> pdf_classification_audit \<Rightarrow> class_phase \<Rightarrow> class_phase" where
  "put_audit identity audit s = s\<lparr>cp_audits := (cp_audits s)(identity \<mapsto> audit)\<rparr>"

section \<open>Phase A\<close>

definition budget_excluded_result :: "rstring \<Rightarrow> pdf_classification_result" where
  "budget_excluded_result identity =
     \<lparr>cr_file_identity = identity, cr_status = NotClassifiedByBudget, cr_page_count = None,
      cr_result_examined_pages = Some 0, cr_error_code = None\<rparr>"

definition cached_classification :: "rstring \<Rightarrow> classification_cache_entry \<Rightarrow> pdf_classification_result" where
  "cached_classification identity entry =
     \<lparr>cr_file_identity = identity, cr_status = cached_status entry, cr_page_count = Some (ce_page_count entry),
      cr_result_examined_pages = Some (ce_result_examined_pages entry), cr_error_code = None\<rparr>"

text \<open>A shortened window has a cache identity of its own. \<open>hash_of\<close> is the hash of the classifier
  profile, \<open>store::classifier_profile_hash\<close>.\<close>

definition window_hash ::
  "(normalized_settings \<Rightarrow> (rstring, rstring) result) \<Rightarrow> class_env \<Rightarrow> u64 \<Rightarrow> (rstring, diagnostic) result" where
  "window_hash hash_of env charged =
     (let profile = kv_profile env; parse = ns_parse profile; pdf = pr_pdf parse in
      if charged \<noteq> pp_max_pages pdf
      then map_err scheduler_internal (hash_of (profile\<lparr>ns_parse := parse\<lparr>pr_pdf := pdf\<lparr>pp_max_pages := charged\<rparr>\<rparr>\<rparr>))
      else Ok (kv_profile_hash env))"

definition classify_hit ::
  "class_env \<Rightarrow> rstring \<Rightarrow> u64 \<Rightarrow> rstring \<Rightarrow> classification_cache_entry \<Rightarrow> class_phase \<Rightarrow> class_phase" where
  "classify_hit env identity charged profile_hash entry s =
     put_audit identity (cache_hit_audit entry charged (ns_classifier_policy_version (kv_profile env)) (kv_build env) profile_hash)
       (put_classification identity (cached_classification identity entry)
         (s\<lparr>cp_fresh_hits := cp_fresh_hits s @ [identity]\<rparr>))"

definition classify_miss ::
  "'w ports \<Rightarrow> class_env \<Rightarrow> rstring \<Rightarrow> discovered_file \<Rightarrow> source_guard_v2 \<Rightarrow> u64 \<Rightarrow> rstring \<Rightarrow> classification_miss_reason \<Rightarrow>
     'w \<times> class_phase \<Rightarrow> 'w \<times> class_phase" where
  "classify_miss p env identity file guard charged profile_hash reason ws =
     (let (w, s) = ws; s = s\<lparr>cp_any_miss := True\<rparr>; (now, w) = pt_now p w;
          remaining = saturating_sub (kv_work_deadline env) now
      in if remaining = 0 then (w, stop_classification identity s)
         else
           let task = \<lparr>kt_file = file, kt_guard = guard,
                 kt_request = \<lparr>cq_file_path = df_path file, cq_source_version = df_source_version file,
                   cq_max_pages = charged, cq_policy_version = ns_classifier_policy_version (kv_profile env)\<rparr>,
                 kt_own_timeout_ms = min (ns_pdf_classification_timeout_ms (kv_profile env)) remaining,
                 kt_profile_hash = profile_hash, kt_build = kv_build env,
                 kt_miss_reason = classification_miss_text reason, kt_charged = charged\<rparr>
           in (w, s\<lparr>cp_tasks := cp_tasks s @ [task]\<rparr>))"

definition classify_lookup ::
  "'w ports \<Rightarrow> class_env \<Rightarrow> rstring \<Rightarrow> discovered_file \<Rightarrow> source_guard_v2 \<Rightarrow> u64 \<Rightarrow> rstring \<Rightarrow> 'w \<times> class_phase \<Rightarrow>
     ('w \<times> class_phase, diagnostic) result" where
  "classify_lookup p env identity file guard charged profile_hash ws =
     (let (w, s) = ws;
          s = s\<lparr>cp_any_lookup := True, cp_metrics := (cp_metrics s)
            \<lparr>em_classification_cache_lookup_count := em_classification_cache_lookup_count (cp_metrics s) + 1\<rparr>\<rparr>;
          (lookup, w) = pt_lookup_classification p file profile_hash (kv_build env) (identity \<in> kv_existed_before env) w
      in case lookup of
           Err e \<Rightarrow> Err (port_error_diagnostic e StageCache)
         | Ok (ClassLookupFresh entry) \<Rightarrow> Ok (w, classify_hit env identity charged profile_hash entry s)
         | Ok (ClassLookupMiss reason) \<Rightarrow> Ok (classify_miss p env identity file guard charged profile_hash reason (w, s)))"

definition classify_step ::
  "(normalized_settings \<Rightarrow> (rstring, rstring) result) \<Rightarrow> 'w ports \<Rightarrow> class_env \<Rightarrow> classified_plan \<Rightarrow> 'w \<times> class_phase \<Rightarrow>
     ('w \<times> class_phase, diagnostic) result" where
  "classify_step hash_of p env plan ws =
     (let (w, s) = ws; identity = cl_file_identity plan in
      case cl_pdf_classification plan of
        NotPdf \<Rightarrow> Ok (w, s)
      | PlanNotClassified \<Rightarrow>
          Ok (w, put_audit identity (budget_excluded_audit (kv_build env) (kv_profile_hash env))
                   (put_classification identity (budget_excluded_result identity) s))
      | Classify charged \<Rightarrow>
          and_then (window_hash hash_of env charged) (\<lambda>profile_hash.
          case kv_snapshot env identity of
            None \<Rightarrow> Ok (w, s)
          | Some file \<Rightarrow>
              let (now, w) = pt_now p w in
              if kv_work_deadline env \<le> now then Ok (w, stop_classification identity s)
              else
                (case expected_guard file of
                   None \<Rightarrow> Ok (w, s)
                 | Some guard \<Rightarrow>
                     let (same, w) = pt_verify p (df_path file) guard w in
                     if \<not> same then Ok (w, put_classification identity (source_version_changed_classification identity) s)
                     else classify_lookup p env identity file guard charged profile_hash (w, s))))"

section \<open>Phase B\<close>

fun scheduler_status :: "classify_status \<Rightarrow> pdf_classification_status" where
  "scheduler_status WorkText = TextInParseWindow"
| "scheduler_status WorkNoText = NoTextInParseWindow"
| "scheduler_status WorkUnknown = ClassUnknown"
| "scheduler_status WorkError = ClassError"

definition worker_marker :: "rstring \<Rightarrow> rstring" where
  "worker_marker code =
     (if code \<in> {lit ''SOURCE_VERSION_CHANGED'', lit ''PARSER_TIMEOUT'', lit ''PDF_PROTECTED''} then code
      else lit ''PARSER_FAILED'')"

definition failure_marker :: "error_code \<Rightarrow> rstring" where
  "failure_marker code =
     (if code = SourceVersionChanged then lit ''SOURCE_VERSION_CHANGED''
      else if code = ParserTimeout then lit ''PARSER_TIMEOUT'' else lit ''PARSER_FAILED'')"

definition classification_of :: "rstring \<Rightarrow> classifier_execution \<Rightarrow> pdf_classification_result" where
  "classification_of identity execution =
     (case xe_outcome execution of
        Ok r \<Rightarrow> \<lparr>cr_file_identity = identity, cr_status = scheduler_status (cx_status r),
          cr_page_count = cx_page_count r, cr_result_examined_pages = cx_result_examined_pages r,
          cr_error_code = map_option (\<lambda>d. worker_marker (wd_error_code d)) (cx_diagnostic r)\<rparr>
      | Err failure \<Rightarrow> \<lparr>cr_file_identity = identity, cr_status = ClassUnknown, cr_page_count = None,
          cr_result_examined_pages = None, cr_error_code = Some (failure_marker (dg_error_code failure))\<rparr>)"

definition observed_pages :: "classifier_execution \<Rightarrow> pdf_page_audit option" where
  "observed_pages execution = (case xe_outcome execution of Ok r \<Rightarrow> cx_page_audit r | Err _ \<Rightarrow> None)"

definition run_inspected_pages :: "classifier_execution \<Rightarrow> pdf_classification_result \<Rightarrow> u64 option" where
  "run_inspected_pages execution c = (if xe_attempt_count execution = 1 then cr_result_examined_pages c else None)"

text \<open>The audit of a classification that was executed.\<close>

definition miss_audit :: "class_task \<Rightarrow> classifier_execution \<Rightarrow> pdf_classification_result \<Rightarrow> pdf_classification_audit" where
  "miss_audit task execution c =
     \<lparr>ca_page_audit = observed_pages execution, ca_status = cr_status c, ca_page_count = cr_page_count c,
      ca_cache_status = CcMiss, ca_cache_miss_reason = kt_miss_reason task,
      ca_result_examined_pages = cr_result_examined_pages c,
      ca_run_inspected_pages = run_inspected_pages execution c,
      ca_nominal_charged_pages = kt_charged task, ca_duration_ms = xe_duration_ms execution,
      ca_transport = xe_transport execution, ca_attempt_count = xe_attempt_count execution,
      ca_classifier_build = kt_build task, ca_classifier_profile_hash = kt_profile_hash task\<rparr>"

definition count_unobserved :: "u64 \<Rightarrow> class_phase \<Rightarrow> class_phase" where
  "count_unobserved n s = s\<lparr>cp_metrics := (cp_metrics s)\<lparr>em_unobserved_classification_attempt_count :=
     saturating_add (em_unobserved_classification_attempt_count (cp_metrics s)) n\<rparr>\<rparr>"

definition count_pages :: "classifier_execution \<Rightarrow> pdf_classification_result \<Rightarrow> class_phase \<Rightarrow> class_phase" where
  "count_pages execution c s =
     (case run_inspected_pages execution c of
        Some pages \<Rightarrow> s\<lparr>cp_metrics := (cp_metrics s)\<lparr>em_confirmed_run_inspected_pages_total :=
          saturating_add (em_confirmed_run_inspected_pages_total (cp_metrics s)) pages\<rparr>\<rparr>
      | None \<Rightarrow> count_unobserved
          (if cr_result_examined_pages c \<noteq> None then saturating_sub (xe_attempt_count execution) 1
           else xe_attempt_count execution) s)"

definition write_classification ::
  "'w ports \<Rightarrow> class_env \<Rightarrow> class_task \<Rightarrow> pdf_classification_result \<Rightarrow> 'w \<times> class_phase \<Rightarrow> 'w \<times> class_phase" where
  "write_classification p env task c ws =
     (let (w, s) = ws; (now, w) = pt_now p w in
      if kv_work_deadline env \<le> now then (w, s)
      else
        (case classification_cache_record (kt_file task) (kt_profile_hash task) (kt_build task) (cr_status c)
                (cr_page_count c) (cr_result_examined_pages c) of
           None \<Rightarrow> (w, s)
         | Some record \<Rightarrow>
             let (now, w) = pt_now p w;
                 (written, w) = pt_write_classification p now [record] w
             in (w, case written of
                   Ok _ \<Rightarrow> s\<lparr>cp_receipts := cp_receipts s @ [record]\<rparr>
                 | Err (PortDeadlineExhausted _) \<Rightarrow> s\<lparr>cp_metrics := (cp_metrics s)\<lparr>em_stage_deadline_exhausted_count := 1\<rparr>\<rparr>
                 | Err e \<Rightarrow> s\<lparr>cp_write_warnings := cp_write_warnings s @
                     [\<lparr>dg_error_code = CacheWriteFailed,
                       dg_message = lit ''classification cache write skipped: '' @ dg_message (port_error_diagnostic e StageCache),
                       dg_retryable = True, dg_stage = StageCache, dg_file_path = Some (df_path (kt_file task)),
                       dg_backend = Some (lit ''rust_pdfium_v3'')\<rparr>]\<rparr>)))"

definition classify_merge ::
  "'w ports \<Rightarrow> class_env \<Rightarrow> class_task \<times> rstring \<times> classifier_execution \<Rightarrow> 'w \<times> class_phase \<Rightarrow> 'w \<times> class_phase" where
  "classify_merge p env output ws =
     (let (task, identity, execution) = output; (w, s) = ws;
          s = s\<lparr>cp_metrics := (cp_metrics s)\<lparr>em_classify_attempt_count :=
                saturating_add (em_classify_attempt_count (cp_metrics s)) (xe_attempt_count execution)\<rparr>\<rparr>;
          c = classification_of identity execution;
          changed = (\<lambda>s. count_unobserved (xe_attempt_count execution)
                (put_classification identity (source_version_changed_classification identity) s))
      in if cr_error_code c = Some (lit ''SOURCE_VERSION_CHANGED'') then (w, changed s)
         else if xe_attempt_count execution = 0 then (w, put_classification identity c s)
         else
           let (same, w) = pt_verify p (df_path (kt_file task)) (kt_guard task) w in
           if \<not> same then (w, changed s)
           else write_classification p env task c
             (w, put_classification identity c (put_audit identity (miss_audit task execution c) (count_pages execution c s))))"

definition classify_wave ::
  "((class_task \<Rightarrow> 'w \<Rightarrow> (rstring \<times> classifier_execution) \<times> 'w) \<Rightarrow> class_task list \<Rightarrow> 'w \<Rightarrow>
      (rstring \<times> classifier_execution) list \<times> 'w) \<Rightarrow> nat \<Rightarrow> 'w ports \<Rightarrow> class_env \<Rightarrow> class_task list \<Rightarrow>
     'w \<times> class_phase \<Rightarrow> 'w \<times> class_phase" where
  "classify_wave par concurrency p env wave ws =
     (let (w, s) = ws; (now, w) = pt_now p w;
          remaining = saturating_sub (kv_work_deadline env) now;
          (outputs, w) = wave_map par concurrency
            (\<lambda>task w. let (execution, w) = pt_classify_pdf p (kt_request task) (min (kt_own_timeout_ms task) remaining) w
                      in ((df_file_identity (kt_file task), execution), w)) wave w
      in fold (classify_merge p env) (zip wave outputs) (w, s))"

definition stop_classifications :: "class_task list \<Rightarrow> class_phase \<Rightarrow> class_phase" where
  "stop_classifications tasks s = fold (\<lambda>task. stop_classification (df_file_identity (kt_file task))) tasks s"

section \<open>The whole phase\<close>

definition no_classifications :: "execution_metrics \<Rightarrow> class_phase" where
  "no_classifications metrics = \<lparr>cp_results = Map.empty, cp_audits = Map.empty, cp_stopped = {}, cp_fresh_hits = [],
     cp_receipts = [], cp_write_warnings = [], cp_metrics = metrics, cp_any_lookup = False, cp_any_miss = False,
     cp_tasks = []\<rparr>"

definition run_classifications ::
  "((class_task \<Rightarrow> 'w \<Rightarrow> (rstring \<times> classifier_execution) \<times> 'w) \<Rightarrow> class_task list \<Rightarrow> 'w \<Rightarrow>
      (rstring \<times> classifier_execution) list \<times> 'w) \<Rightarrow> nat \<Rightarrow>
     (normalized_settings \<Rightarrow> (rstring, rstring) result) \<Rightarrow> 'w ports \<Rightarrow> class_env \<Rightarrow> classified_plan list \<Rightarrow>
     execution_metrics \<Rightarrow> 'w \<Rightarrow> ('w \<times> class_phase, diagnostic) result option" where
  "run_classifications par concurrency hash_of p env classified metrics w =
     (case try_fold (classify_step hash_of p env) classified (w, no_classifications metrics) of
        Err e \<Rightarrow> Some (Err e)
      | Ok (w, s) \<Rightarrow>
          map_option (\<lambda>(w, s). Ok (w, s\<lparr>cp_metrics := (cp_metrics s)\<lparr>em_classification_cache_all_hit :=
              (if cp_any_lookup s
               then Some (unwrap_or (em_classification_cache_all_hit (cp_metrics s)) True \<and> \<not> cp_any_miss s)
               else em_classification_cache_all_hit (cp_metrics s))\<rparr>\<rparr>))
            (wave_loop (pt_now p) (kv_work_deadline env) concurrency (classify_wave par concurrency p env)
              stop_classifications (cp_tasks s) (w, s)))"

section \<open>Accepted answers have valid audits\<close>

text \<open>What the port guarantees about an answer it lets through.\<close>

lemma accepted_answer:
  assumes "validate_classifier_result_for_request q r = Ok ()"
  shows "1 \<le> cq_max_pages q" "cq_max_pages q \<le> 10000"
    "cx_status r \<in> {WorkText, WorkNoText} \<Longrightarrow> \<exists>pages examined. cx_page_count r = Some pages
       \<and> cx_result_examined_pages r = Some examined \<and> 1 \<le> examined \<and> examined \<le> min pages (cq_max_pages q)
       \<and> (cx_status r = WorkNoText \<longrightarrow> examined = min pages (cq_max_pages q)) \<and> cx_diagnostic r = None"
    "cx_result_examined_pages r = Some examined \<Longrightarrow> examined \<le> cq_max_pages q"
    "cx_result_examined_pages r = Some examined \<Longrightarrow> cx_page_count r = Some pages \<Longrightarrow> examined \<le> min pages (cq_max_pages q)"
proof -
  have v: "validate_for_max_pages r (cq_max_pages q) = Ok ()"
    using assms by (auto simp: validate_classifier_result_for_request_def Let_def split: if_splits option.splits)
  show range: "1 \<le> cq_max_pages q" "cq_max_pages q \<le> 10000"
    using v by (auto simp: validate_for_max_pages_def)
  show conclusive: "\<exists>pages examined. cx_page_count r = Some pages
       \<and> cx_result_examined_pages r = Some examined \<and> 1 \<le> examined \<and> examined \<le> min pages (cq_max_pages q)
       \<and> (cx_status r = WorkNoText \<longrightarrow> examined = min pages (cq_max_pages q)) \<and> cx_diagnostic r = None"
    if "cx_status r \<in> {WorkText, WorkNoText}"
    using v that by (auto simp: validate_for_max_pages_def validate_classify_result_def Let_def)
  show "examined \<le> min pages (cq_max_pages q)"
    if "cx_result_examined_pages r = Some examined" "cx_page_count r = Some pages"
    using conclusive that v by (cases "cx_status r") (auto simp: validate_for_max_pages_def)
  show "examined \<le> cq_max_pages q" if "cx_result_examined_pages r = Some examined"
    using conclusive that v by (cases "cx_status r") (auto simp: validate_for_max_pages_def)
qed

lemma accepted_page_audit:
  assumes "validate_classifier_result_for_request q r = Ok ()" and "cx_page_audit r = Some a"
  shows "page_audit_checks \<lparr>ca_page_audit = Some a, ca_status = scheduler_status (cx_status r), ca_page_count = cx_page_count r,
      ca_cache_status = cache, ca_cache_miss_reason = reason, ca_result_examined_pages = cx_result_examined_pages r,
      ca_run_inspected_pages = run, ca_nominal_charged_pages = cq_max_pages q, ca_duration_ms = ms,
      ca_transport = transport, ca_attempt_count = n, ca_classifier_build = build, ca_classifier_profile_hash = hash\<rparr> a = Ok ()"
proof -
  have v: "validate_pdf_page_audit a = Ok ()" "cx_result_examined_pages r = Some (length (pg_checked_pages a))"
    "case cx_page_count r of None \<Rightarrow> False | Some n \<Rightarrow> \<forall>page \<in> set (pg_checked_pages a). page \<le> n"
    using assms by (auto simp: validate_classifier_result_for_request_def validate_for_max_pages_def
        validate_classify_result_def Let_def split: if_splits option.splits)
  have e: "length (pg_checked_pages a) \<le> length (pdf_sample_pages (unwrap_or (cx_page_count r) 0) (cq_max_pages q) (pg_policy_version a))"
    "take (length (pg_checked_pages a)) (pdf_sample_pages (unwrap_or (cx_page_count r) 0) (cq_max_pages q) (pg_policy_version a))
       = pg_checked_pages a"
    using assms by (auto simp: validate_classifier_result_for_request_def Let_def not_less split: if_splits)
  have obs: "\<forall>i \<in> set [0..<length observations].
      po_has_text (observations ! i) = (scheduler_status (cx_status r) = TextInParseWindow \<and> i + 1 = length observations)"
    if "pg_observations a = Some observations" for observations
    using assms that by (cases "cx_status r") (auto simp: validate_classifier_result_for_request_def Let_def split: if_splits)
  from v e obs show ?thesis
    by (auto simp: page_audit_checks_def unwrap_or_def Let_def split: option.splits)
qed

text \<open>What a session promises about its own execution: how often it tried, on which transport.\<close>

definition executed :: "classifier_execution \<Rightarrow> bool" where
  "executed x \<longleftrightarrow> 1 \<le> xe_attempt_count x \<and> xe_attempt_count x \<le> 3 \<and> xe_transport x \<in> {CtSession, CtOneShot}"

text \<open>C31. The two contracts of a classification fit together: whatever a worker session answers, when
  the session tried one to three times the audit frozen from the answer the port lets through, or
  from the failure, passes the validation of the scanner contract.\<close>

theorem executed_audits_validate:
  assumes "executed session" and "is_sha256_hex (kt_build task)" and "is_sha256_hex (kt_profile_hash task)"
    and "kt_charged task = cq_max_pages q" and "1 \<le> cq_max_pages q" and "cq_max_pages q \<le> 10000"
    and "kt_miss_reason task = classification_miss_text reason"
  shows "validate_classification_audit (miss_audit task (port_execution q session)
     (classification_of identity (port_execution q session))) = Ok ()"
proof -
  have attempts: "xe_attempt_count (port_execution q session) = xe_attempt_count session"
    "xe_transport (port_execution q session) = xe_transport session"
    by (auto simp: port_execution_def split: result.splits)
  have reason: "kt_miss_reason task \<in> set CLASSIFICATION_MISS_REASONS"
    using assms(7) by (cases reason) (simp_all add: CLASSIFICATION_MISS_REASONS_def)
  show ?thesis
  proof (cases "xe_outcome (port_execution q session)")
    case (Err failure)
    with assms(1-6) attempts reason show ?thesis
      by (simp add: miss_audit_def classification_of_def observed_pages_def run_inspected_pages_def
          classification_audit_defs executed_def)
  next
    case (Ok r)
    then have ok: "validate_classifier_result_for_request q r = Ok ()"
      by (auto simp: port_execution_def split: result.splits)
    note facts = accepted_answer [OF ok]
    have pages: "page_audit_checks (miss_audit task (port_execution q session)
        (classification_of identity (port_execution q session))) a = Ok ()" if "cx_page_audit r = Some a" for a
      using accepted_page_audit [OF ok that] that Ok assms(4)
      by (simp add: miss_audit_def classification_of_def observed_pages_def)
    have run: "run_inspected_pages (port_execution q session) (classification_of identity (port_execution q session)) =
        (if xe_attempt_count session = 1 then cx_result_examined_pages r else None)"
      using Ok attempts by (simp add: run_inspected_pages_def classification_of_def)
    have small: "cq_max_pages q \<le> u64_max" using assms(6) by (simp add: u64_max_def)
    let ?a = "miss_audit task (port_execution q session) (classification_of identity (port_execution q session))"
    have fields: "ca_page_audit ?a = cx_page_audit r" "ca_status ?a = scheduler_status (cx_status r)"
      "ca_page_count ?a = cx_page_count r" "ca_cache_status ?a = CcMiss" "ca_cache_miss_reason ?a = kt_miss_reason task"
      "ca_result_examined_pages ?a = cx_result_examined_pages r" "ca_nominal_charged_pages ?a = cq_max_pages q"
      "ca_run_inspected_pages ?a = (if xe_attempt_count session = 1 then cx_result_examined_pages r else None)"
      "ca_transport ?a = xe_transport session" "ca_attempt_count ?a = xe_attempt_count session"
      "ca_classifier_build ?a = kt_build task" "ca_classifier_profile_hash ?a = kt_profile_hash task"
      using Ok assms(4) attempts run by (simp_all add: miss_audit_def classification_of_def observed_pages_def)
    have "run_pages_checks ?a = Ok ()"
      using facts(4) small by (auto simp: run_pages_checks_def fields checked_mul_def)
    moreover have "conclusive_checks ?a = Ok ()" if "cx_status r \<in> {WorkText, WorkNoText}"
      using facts(3) [OF that] that assms(1,5) by (auto simp: conclusive_checks_def fields executed_def Let_def)
    moreover have "inconclusive_checks ?a = Ok ()"
      using facts(4,5) assms(1,5) by (auto simp: inconclusive_checks_def fields executed_def)
    ultimately show ?thesis
      using pages assms(1-3) reason
      by (cases "cx_status r") (auto simp: validate_classification_audit_def fields executed_def)
  qed
qed

section \<open>What a step changes\<close>

abbreviation class_stops :: "class_phase \<Rightarrow> u64" where
  "class_stops s \<equiv> em_stage_deadline_exhausted_count (cp_metrics s)"
abbreviation kt_id :: "class_task \<Rightarrow> rstring" where
  "kt_id t \<equiv> df_file_identity (kt_file t)"

text \<open>An audit and a cache write that tell the same as the kept result.\<close>

definition audit_of :: "pdf_classification_result \<Rightarrow> pdf_classification_audit \<Rightarrow> bool" where
  "audit_of c a \<longleftrightarrow> ca_status a = cr_status c \<and> ca_page_count a = cr_page_count c
     \<and> ca_result_examined_pages a = cr_result_examined_pages c"

definition write_of :: "pdf_classification_result \<Rightarrow> classification_write_record \<Rightarrow> bool" where
  "write_of c r \<longleftrightarrow> cr_status c \<in> {TextInParseWindow, NoTextInParseWindow}
     \<and> kw_status r = (if cr_status c = TextInParseWindow then lit ''text_in_parse_window'' else lit ''no_text_in_parse_window'')
     \<and> cr_page_count c = Some (kw_page_count r) \<and> cr_result_examined_pages c = Some (kw_result_examined_pages r)"

lemma class_put_simps [simp]:
  "cp_results (put_classification i c s) = (cp_results s)(i \<mapsto> c)" "cp_results (put_audit i a s) = cp_results s"
  "cp_results (stop_classification i s) = cp_results s" "cp_results (count_unobserved n s) = cp_results s"
  "cp_audits (put_classification i c s) = cp_audits s" "cp_audits (put_audit i a s) = (cp_audits s)(i \<mapsto> a)"
  "cp_audits (stop_classification i s) = cp_audits s" "cp_audits (count_unobserved n s) = cp_audits s"
  "cp_stopped (put_classification i c s) = cp_stopped s" "cp_stopped (put_audit i a s) = cp_stopped s"
  "cp_stopped (stop_classification i s) = insert i (cp_stopped s)" "cp_stopped (count_unobserved n s) = cp_stopped s"
  "cp_receipts (put_classification i c s) = cp_receipts s" "cp_receipts (put_audit i a s) = cp_receipts s"
  "cp_receipts (stop_classification i s) = cp_receipts s" "cp_receipts (count_unobserved n s) = cp_receipts s"
  "cp_tasks (put_classification i c s) = cp_tasks s" "cp_tasks (put_audit i a s) = cp_tasks s"
  "cp_tasks (stop_classification i s) = cp_tasks s" "cp_tasks (count_unobserved n s) = cp_tasks s"
  "class_stops (put_classification i c s) = class_stops s" "class_stops (put_audit i a s) = class_stops s"
  "class_stops (stop_classification i s) = 1" "class_stops (count_unobserved n s) = class_stops s"
  by (simp_all add: put_classification_def put_audit_def stop_classification_def count_unobserved_def)

lemma count_pages_simps [simp]:
  "cp_results (count_pages x c s) = cp_results s" "cp_audits (count_pages x c s) = cp_audits s"
  "cp_stopped (count_pages x c s) = cp_stopped s" "cp_receipts (count_pages x c s) = cp_receipts s"
  "cp_tasks (count_pages x c s) = cp_tasks s" "class_stops (count_pages x c s) = class_stops s"
  by (simp_all add: count_pages_def split: option.splits)

text \<open>A file gets its outcome: a result, with an audit and a cache write or without.\<close>

inductive class_outcome :: "rstring \<Rightarrow> class_phase \<Rightarrow> class_phase \<Rightarrow> bool" for i s s' where
  outcome: "cp_results s' = (cp_results s)(i \<mapsto> c) \<Longrightarrow>
     cp_audits s' = cp_audits s \<or> (\<exists>a. cp_audits s' = (cp_audits s)(i \<mapsto> a) \<and> audit_of c a) \<Longrightarrow>
     cp_receipts s' = cp_receipts s \<or> (\<exists>r. cp_receipts s' = cp_receipts s @ [r] \<and> kw_file_identity r = i \<and> write_of c r) \<Longrightarrow>
     cp_stopped s' = cp_stopped s \<Longrightarrow> cp_tasks s' = cp_tasks s \<Longrightarrow> (0 < class_stops s \<longrightarrow> 0 < class_stops s') \<Longrightarrow>
     class_outcome i s s'"

definition class_inv :: "rstring set \<Rightarrow> class_phase \<Rightarrow> bool" where
  "class_inv left s \<longleftrightarrow> dom (cp_results s) \<inter> cp_stopped s = {} \<and> left \<inter> (dom (cp_results s) \<union> cp_stopped s) = {}
     \<and> (cp_stopped s \<noteq> {} \<longrightarrow> 0 < class_stops s)
     \<and> (\<forall>i a. cp_audits s i = Some a \<longrightarrow> (\<exists>c. cp_results s i = Some c \<and> audit_of c a))
     \<and> (\<forall>r \<in> set (cp_receipts s). \<exists>c. cp_results s (kw_file_identity r) = Some c \<and> write_of c r)"

lemma class_inv_mono: "class_inv left s \<Longrightarrow> left' \<subseteq> left \<Longrightarrow> class_inv left' s"
  unfolding class_inv_def by blast

lemma class_outcome_inv:
  assumes "class_outcome i s s'" and inv: "class_inv left s" and "i \<in> left"
  shows "class_inv (left - {i}) s' \<and> dom (cp_results s') = insert i (dom (cp_results s)) \<and> cp_stopped s' = cp_stopped s"
  using assms(1)
proof cases
  case (outcome c)
  have new: "i \<notin> dom (cp_results s)" "i \<notin> cp_stopped s" using inv assms(3) unfolding class_inv_def by blast+
  have keep: "cp_results s' k = Some d" if "cp_results s k = Some d" for k d
    using that outcome(1) new(1) by (auto simp: dom_def)
  have "\<exists>d. cp_results s' k = Some d \<and> audit_of d a" if "cp_audits s' k = Some a" for k a
  proof (cases "k = i \<and> cp_audits s' \<noteq> cp_audits s")
    case True
    with that outcome(1,2) show ?thesis by auto
  next
    case False
    then have "cp_audits s k = Some a"
    proof (cases "cp_audits s' = cp_audits s")
      case True
      with that show ?thesis by simp
    next
      case new_audit: False
      with False have "k \<noteq> i" by simp
      with that outcome(2) new_audit show ?thesis by auto
    qed
    with inv keep show ?thesis unfolding class_inv_def by blast
  qed
  moreover have "\<exists>d. cp_results s' (kw_file_identity r) = Some d \<and> write_of d r" if "r \<in> set (cp_receipts s')" for r
  proof (cases "r \<in> set (cp_receipts s)")
    case True
    with inv keep show ?thesis unfolding class_inv_def by blast
  next
    case False
    with that outcome(1,3) show ?thesis by auto
  qed
  ultimately show ?thesis
    using inv new outcome(1,4,6) assms(3) unfolding class_inv_def by auto
qed

lemma write_classification_effect:
  assumes "write_classification p env t c (w, s) = (w', s')"
  shows "cp_results s' = cp_results s \<and> cp_audits s' = cp_audits s \<and> cp_stopped s' = cp_stopped s \<and> cp_tasks s' = cp_tasks s
    \<and> (0 < class_stops s \<longrightarrow> 0 < class_stops s')
    \<and> (cp_receipts s' = cp_receipts s \<or> (\<exists>r. cp_receipts s' = cp_receipts s @ [r] \<and> kw_file_identity r = kt_id t \<and> write_of c r))"
proof (cases "classification_cache_record (kt_file t) (kt_profile_hash t) (kt_build t) (cr_status c) (cr_page_count c)
    (cr_result_examined_pages c)")
  case None
  obtain t1 w1 where "pt_now p w = (t1, w1)" by force
  with assms None show ?thesis by (simp add: write_classification_def split: if_splits)
next
  case (Some r)
  then have r: "kw_file_identity r = kt_id t" "write_of c r"
    by (auto simp: classification_cache_record_def write_of_def split: option.splits if_splits)
  obtain t1 w1 where t1: "pt_now p w = (t1, w1)" by force
  obtain t2 w2 where t2: "pt_now p w1 = (t2, w2)" by force
  obtain wr w3 where w3: "pt_write_classification p t2 [r] w2 = (wr, w3)" by force
  from assms Some t1 t2 w3 r show ?thesis
    by (cases wr; auto simp: write_classification_def split: if_splits cache_port_error.splits)
qed

lemma classify_merge_effect:
  assumes "classify_merge p env (t, kt_id t, x) (w, s) = (w', s')"
  shows "class_outcome (kt_id t) s s'"
proof -
  let ?c = "classification_of (kt_id t) x"
  let ?s = "s\<lparr>cp_metrics := (cp_metrics s)\<lparr>em_classify_attempt_count :=
     saturating_add (em_classify_attempt_count (cp_metrics s)) (xe_attempt_count x)\<rparr>\<rparr>"
  let ?t = "put_classification (kt_id t) ?c (put_audit (kt_id t) (miss_audit t x ?c) (count_pages x ?c ?s))"
  obtain same w1 where v: "pt_verify p (df_path (kt_file t)) (kt_guard t) w = (same, w1)" by force
  obtain w2 s2 where wr: "write_classification p env t ?c (w1, ?t) = (w2, s2)" by force
  consider (changed) "s' = count_unobserved (xe_attempt_count x)
        (put_classification (kt_id t) (source_version_changed_classification (kt_id t)) ?s)"
    | (early) "s' = put_classification (kt_id t) ?c ?s" | (kept) "s' = s2"
    using assms v wr by (auto simp: classify_merge_def Let_def split: if_splits)
  then show ?thesis
  proof cases
    case changed
    then show ?thesis by (intro outcome) simp_all
  next
    case early
    then show ?thesis by (intro outcome) simp_all
  next
    case kept
    have "audit_of ?c (miss_audit t x ?c)" by (simp add: audit_of_def miss_audit_def)
    with kept write_classification_effect [OF wr] show ?thesis by (intro outcome [where c = ?c]) auto
  qed
qed

section \<open>Waves\<close>

interpretation classify_merge: settling_merge "\<lambda>out. kt_id (fst out)" "\<lambda>(t, i, x). i = kt_id t" class_inv
  "\<lambda>s. dom (cp_results s)" cp_stopped "classify_merge p env" for p :: "'w ports" and env
proof unfold_locales
  fix out w s w' s' left
  assume "case out of (t, i, x) \<Rightarrow> i = kt_id t" "classify_merge p env out (w, s) = (w', s')" "class_inv left s"
    "kt_id (fst out) \<in> left"
  then show "class_inv (left - {kt_id (fst out)}) s' \<and> dom (cp_results s') = insert (kt_id (fst out)) (dom (cp_results s))
      \<and> cp_stopped s' = cp_stopped s"
    by (cases out) (auto dest!: classify_merge_effect class_outcome_inv)
qed

lemma stop_classifications_effect:
  "cp_results (stop_classifications tasks s) = cp_results s" "cp_audits (stop_classifications tasks s) = cp_audits s"
  "cp_receipts (stop_classifications tasks s) = cp_receipts s"
  "cp_stopped (stop_classifications tasks s) = cp_stopped s \<union> kt_id ` set tasks"
  "tasks \<noteq> [] \<Longrightarrow> 0 < class_stops (stop_classifications tasks s)"
proof -
  show "cp_results (stop_classifications tasks s) = cp_results s" "cp_audits (stop_classifications tasks s) = cp_audits s"
    "cp_receipts (stop_classifications tasks s) = cp_receipts s"
    "cp_stopped (stop_classifications tasks s) = cp_stopped s \<union> kt_id ` set tasks"
    unfolding stop_classifications_def by (induction tasks arbitrary: s) auto
  show "tasks \<noteq> [] \<Longrightarrow> 0 < class_stops (stop_classifications tasks s)"
    unfolding stop_classifications_def by (induction tasks rule: rev_induct) auto
qed

lemma classify_wave_effect:
  assumes "classify_wave par n p env wave (w, s) = (w', s')" and exec: "ordered_executor par"
    and "distinct (map kt_id wave)" and "class_inv left s" and "kt_id ` set wave \<subseteq> left"
  shows "class_inv (left - kt_id ` set wave) s' \<and> dom (cp_results s') = dom (cp_results s) \<union> kt_id ` set wave
    \<and> cp_stopped s' = cp_stopped s"
proof -
  obtain now w1 where now: "pt_now p w = (now, w1)" by force
  define f where "f = (\<lambda>task w. let (execution, w) = pt_classify_pdf p (kt_request task)
      (min (kt_own_timeout_ms task) (saturating_sub (kv_work_deadline env) now)) w
    in ((kt_id task, execution), w))"
  obtain outputs w2 where run: "wave_map par n f wave w1 = (outputs, w2)" by force
  have merge: "fold (classify_merge p env) (zip wave outputs) (w2, s) = (w', s')"
    using assms(1) now run by (simp add: classify_wave_def f_def Let_def)
  have ord: "list_all2 (\<lambda>t y. \<exists>w'. y = fst (f t w')) wave outputs"
    using ordered_executor.map_ordered [OF exec, of f wave n w1] run by simp
  have "list_all2 (\<lambda>t y. fst y = kt_id t) wave outputs"
    using ord by (rule list_all2_mono) (auto simp: f_def case_prod_beta Let_def)
  then have ids: "(case out of (t, i, x) \<Rightarrow> i = kt_id t)" if "out \<in> set (zip wave outputs)" for out
    using that by (cases out) (auto simp: list_all2_iff)
  have len: "length outputs = length wave" using ord by (simp add: list_all2_lengthD)
  have "map (\<lambda>out. kt_id (fst out)) (zip wave outputs) = map kt_id (map fst (zip wave outputs))" by simp
  with len have keys: "map (\<lambda>out. kt_id (fst out)) (zip wave outputs) = map kt_id wave" by simp
  from arg_cong [OF this, of set] have keyset: "(\<lambda>out. kt_id (fst out)) ` set (zip wave outputs) = kt_id ` set wave" by simp
  from classify_merge.fold_merge_settles [OF merge ids _ assms(4)] keys keyset assms(3,5)
  show ?thesis by simp
qed

section \<open>The front of the phase\<close>

text \<open>The plans the phase has to settle, and those it settles for certain.\<close>

definition class_due :: "class_env \<Rightarrow> classified_plan \<Rightarrow> bool" where
  "class_due env plan \<longleftrightarrow> (case cl_pdf_classification plan of NotPdf \<Rightarrow> False | PlanNotClassified \<Rightarrow> True
     | Classify _ \<Rightarrow> kv_snapshot env (cl_file_identity plan) \<noteq> None)"

definition class_must :: "class_env \<Rightarrow> classified_plan \<Rightarrow> bool" where
  "class_must env plan \<longleftrightarrow> (case cl_pdf_classification plan of NotPdf \<Rightarrow> False | PlanNotClassified \<Rightarrow> True
     | Classify _ \<Rightarrow> (case kv_snapshot env (cl_file_identity plan) of None \<Rightarrow> False | Some f \<Rightarrow> expected_guard f \<noteq> None))"

definition class_settled :: "class_phase \<Rightarrow> rstring set" where
  "class_settled s = dom (cp_results s) \<union> cp_stopped s \<union> kt_id ` set (cp_tasks s)"

definition class_front_inv :: "class_phase \<Rightarrow> bool" where
  "class_front_inv s \<longleftrightarrow> class_inv (kt_id ` set (cp_tasks s)) s \<and> distinct (map kt_id (cp_tasks s))"

text \<open>The ways in which phase A disposes of a plan.\<close>

abbreviation confirmed :: "class_phase \<Rightarrow> u64" where
  "confirmed s \<equiv> em_confirmed_run_inspected_pages_total (cp_metrics s)"

lemma confirmed_simps [simp]:
  "confirmed (put_classification i c s) = confirmed s" "confirmed (put_audit i a s) = confirmed s"
  "confirmed (stop_classification i s) = confirmed s" "confirmed (count_unobserved n s) = confirmed s"
  by (simp_all add: put_classification_def put_audit_def stop_classification_def count_unobserved_def)

inductive front_effect :: "u64 \<Rightarrow> rstring \<Rightarrow> bool \<Rightarrow> class_phase \<Rightarrow> class_phase \<Rightarrow> bool"
  for charged :: u64 and i :: rstring and must :: bool and s s' where
  passed: "\<not> must \<Longrightarrow> s' = s \<Longrightarrow> front_effect charged i must s s'"
| settled: "class_outcome i s s' \<Longrightarrow> confirmed s' = confirmed s \<Longrightarrow> front_effect charged i must s s'"
| stop: "cp_results s' = cp_results s \<Longrightarrow> cp_audits s' = cp_audits s \<Longrightarrow> cp_receipts s' = cp_receipts s \<Longrightarrow>
     cp_tasks s' = cp_tasks s \<Longrightarrow> cp_stopped s' = insert i (cp_stopped s) \<Longrightarrow> class_stops s' = 1 \<Longrightarrow> confirmed s' = confirmed s \<Longrightarrow>
     front_effect charged i must s s'"
| task: "cp_results s' = cp_results s \<Longrightarrow> cp_audits s' = cp_audits s \<Longrightarrow> cp_receipts s' = cp_receipts s \<Longrightarrow>
     cp_tasks s' = cp_tasks s @ [t] \<Longrightarrow> kt_id t = i \<Longrightarrow> cp_stopped s' = cp_stopped s \<Longrightarrow> class_stops s' = class_stops s \<Longrightarrow>
     kt_charged t = charged \<Longrightarrow> cq_max_pages (kt_request t) = charged \<Longrightarrow> confirmed s' = confirmed s \<Longrightarrow>
     front_effect charged i must s s'"

lemma classify_lookup_effect:
  assumes "classify_lookup p env i f guard charged h (w, s) = Ok (w', s')" and "df_file_identity f = i"
  shows "front_effect charged i must s s'"
proof -
  obtain lookup w1 where l: "pt_lookup_classification p f h (kv_build env) (i \<in> kv_existed_before env) w = (lookup, w1)"
    by force
  show ?thesis
  proof (cases lookup)
    case (Err e)
    with assms l show ?thesis by (simp add: classify_lookup_def Let_def)
  next
    case (Ok found)
    show ?thesis
    proof (cases found)
      case (ClassLookupFresh entry)
      have "audit_of (cached_classification i entry) (cache_hit_audit entry charged
          (ns_classifier_policy_version (kv_profile env)) (kv_build env) h)"
        by (simp add: audit_of_def cached_classification_def cache_hit_audit_def)
      with assms(1) l Ok ClassLookupFresh show ?thesis
        by (intro settled outcome [where c = "cached_classification i entry"])
          (auto simp: classify_lookup_def classify_hit_def Let_def)
    next
      case (ClassLookupMiss reason)
      obtain now w2 where n: "pt_now p w1 = (now, w2)" by force
      show ?thesis
      proof (cases "saturating_sub (kv_work_deadline env) now = 0")
        case True
        with assms(1) l Ok ClassLookupMiss n show ?thesis
          by (intro stop) (auto simp: classify_lookup_def classify_miss_def Let_def)
      next
        case False
        with assms l Ok ClassLookupMiss n show ?thesis
          by (intro task [where t = "last (cp_tasks s')"]) (auto simp: classify_lookup_def classify_miss_def Let_def)
      qed
    qed
  qed
qed

lemma classify_step_effect:
  assumes step: "classify_step hash_of p env plan (w, s) = Ok (w', s')"
    and keyed: "\<And>i f. kv_snapshot env i = Some f \<Longrightarrow> df_file_identity f = i"
  shows "if class_due env plan then front_effect (charged_pages (cl_pdf_classification plan)) (cl_file_identity plan) (class_must env plan) s s' else s' = s"
proof (cases "cl_pdf_classification plan")
  case NotPdf
  with step show ?thesis by (simp add: classify_step_def class_due_def Let_def)
next
  case PlanNotClassified
  let ?i = "cl_file_identity plan"
  have "audit_of (budget_excluded_result ?i) (budget_excluded_audit (kv_build env) (kv_profile_hash env))"
    by (simp add: audit_of_def budget_excluded_result_def budget_excluded_audit_def)
  with step PlanNotClassified have "class_outcome ?i s s'"
    by (intro outcome [where c = "budget_excluded_result ?i"]) (auto simp: classify_step_def Let_def)
  moreover have "confirmed s' = confirmed s" using step PlanNotClassified by (auto simp: classify_step_def Let_def)
  ultimately show ?thesis using PlanNotClassified by (auto simp: class_due_def intro: settled)
next
  case (Classify charged)
  let ?i = "cl_file_identity plan"
  obtain h where h: "window_hash hash_of env charged = Ok h"
    using step Classify by (auto simp: classify_step_def Let_def)
  show ?thesis
  proof (cases "kv_snapshot env ?i")
    case None
    with step Classify h show ?thesis by (simp add: classify_step_def class_due_def Let_def)
  next
    case (Some f)
    then have due: "class_due env plan" using Classify by (simp add: class_due_def)
    obtain now w1 where n: "pt_now p w = (now, w1)" by force
    have "front_effect (charged_pages (cl_pdf_classification plan)) ?i (class_must env plan) s s'"
    proof (cases "kv_work_deadline env \<le> now")
      case True
      with step Classify h Some n show ?thesis by (intro stop) (auto simp: classify_step_def Let_def)
    next
      case running: False
      show ?thesis
      proof (cases "expected_guard f")
        case None
        with step Classify h Some n running show ?thesis by (intro passed) (auto simp: classify_step_def class_must_def Let_def)
      next
        case guard: (Some guard)
        obtain same w2 where v: "pt_verify p (df_path f) guard w1 = (same, w2)" by force
        show ?thesis
        proof (cases same)
          case False
          with step Classify h Some n running guard v show ?thesis
            by (intro settled outcome [where c = "source_version_changed_classification ?i"]) (auto simp: classify_step_def Let_def)
        next
          case True
          with step Classify h Some n running guard v
          have "classify_lookup p env ?i f guard charged h (w2, s) = Ok (w', s')" by (simp add: classify_step_def Let_def)
          then show ?thesis using classify_lookup_effect [OF _ keyed [OF Some]] Classify by simp
        qed
      qed
    qed
    with due show ?thesis by simp
  qed
qed

lemma front_effect_settles:
  assumes "front_effect charged i must s s'" and "class_front_inv s" and fresh: "i \<notin> class_settled s"
  shows "class_front_inv s' \<and> class_settled s \<subseteq> class_settled s' \<and> class_settled s' \<subseteq> insert i (class_settled s)
    \<and> (must \<longrightarrow> i \<in> class_settled s')"
proof -
  let ?L = "kt_id ` set (cp_tasks s)"
  have inv: "class_inv ?L s" "distinct (map kt_id (cp_tasks s))" using assms(2) by (simp_all add: class_front_inv_def)
  have new: "i \<notin> dom (cp_results s)" "i \<notin> cp_stopped s" "i \<notin> ?L" using fresh by (simp_all add: class_settled_def)
  have wide: "class_inv (insert i ?L) s" using inv(1) new unfolding class_inv_def by auto
  from assms(1) show ?thesis
  proof cases
    case passed
    with assms(2) show ?thesis by auto
  next
    case settled
    from settled(1) have tasks: "cp_tasks s' = cp_tasks s" by cases
    from class_outcome_inv [OF settled(1) wide] have "class_inv (insert i ?L - {i}) s'"
      "dom (cp_results s') = insert i (dom (cp_results s))" "cp_stopped s' = cp_stopped s"
      by auto
    moreover have "insert i ?L - {i} = ?L" using new(3) by auto
    ultimately show ?thesis using inv(2) tasks by (auto simp: class_front_inv_def class_settled_def)
  next
    case stop
    then have "class_inv ?L s'" using inv(1) new unfolding class_inv_def by auto
    with stop inv(2) show ?thesis by (auto simp: class_front_inv_def class_settled_def)
  next
    case (task t)
    then have tasks: "kt_id ` set (cp_tasks s') = insert i ?L" by auto
    have "class_inv (insert i ?L) s'" using wide task unfolding class_inv_def by simp
    moreover have "distinct (map kt_id (cp_tasks s'))" using task(4,5) inv(2) new(3) by auto
    ultimately show ?thesis
      using task(1,6) unfolding class_front_inv_def class_settled_def tasks by auto
  qed
qed

text \<open>A whole classification phase, on any pool that keeps the order.\<close>

locale class_run = ordered_executor par
  for par :: "(class_task \<Rightarrow> 'w \<Rightarrow> (rstring \<times> classifier_execution) \<times> 'w) \<Rightarrow> class_task list \<Rightarrow> 'w \<Rightarrow>
      (rstring \<times> classifier_execution) list \<times> 'w" +
  fixes n :: nat and hash_of :: "normalized_settings \<Rightarrow> (rstring, rstring) result" and p :: "'w ports" and env :: class_env
  assumes keyed: "kv_snapshot env i = Some f \<Longrightarrow> df_file_identity f = i"
begin

sublocale front: settling_fold cl_file_identity "class_due env" "class_must env" "classify_step hash_of p env"
  class_front_inv class_settled
proof unfold_locales
  fix plan w s w' s'
  assume step: "classify_step hash_of p env plan (w, s) = Ok (w', s')" and inv: "class_front_inv s"
    and fresh: "cl_file_identity plan \<notin> class_settled s"
  have must: "class_must env plan \<Longrightarrow> class_due env plan"
    by (auto simp: class_must_def class_due_def split: pdf_classification_plan.splits option.splits)
  from classify_step_effect [OF step keyed] front_effect_settles [OF _ inv fresh] inv must
  show "class_front_inv s' \<and> class_settled s \<subseteq> class_settled s'
    \<and> class_settled s' \<subseteq> class_settled s \<union> (if class_due env plan then {cl_file_identity plan} else {})
    \<and> (class_must env plan \<longrightarrow> cl_file_identity plan \<in> class_settled s')"
    by (cases "class_due env plan") auto
qed

sublocale settling_waves "\<lambda>t. kt_id t" "\<lambda>_. True" class_inv "\<lambda>s. dom (cp_results s)" cp_stopped
  "classify_wave par n p env" stop_classifications
proof unfold_locales
  fix left left' s assume "class_inv left s" "left' \<subseteq> left"
  then show "class_inv left' s" by (rule class_inv_mono)
next
  fix ts left s w w' s'
  assume "distinct (map (\<lambda>t. kt_id t) ts)" "class_inv left s" "(\<lambda>t. kt_id t) ` set ts \<subseteq> left"
    "classify_wave par n p env ts (w, s) = (w', s')"
  then show "class_inv (left - (\<lambda>t. kt_id t) ` set ts) s'
      \<and> dom (cp_results s') = dom (cp_results s) \<union> (\<lambda>t. kt_id t) ` {t \<in> set ts. True} \<and> cp_stopped s' = cp_stopped s"
    using classify_wave_effect [OF _ ordered_executor_axioms] by simp
next
  fix ts s assume "ts \<noteq> []" "class_inv ((\<lambda>t. kt_id t) ` set ts) s"
  then show "class_inv {} (stop_classifications ts s) \<and> dom (cp_results (stop_classifications ts s)) = dom (cp_results s)
      \<and> cp_stopped (stop_classifications ts s) = cp_stopped s \<union> (\<lambda>t. kt_id t) ` set ts"
    unfolding class_inv_def stop_classifications_effect by (simp add: stop_classifications_effect Int_Un_distrib) blast
qed

lemma run_classifications_Ok:
  assumes "run_classifications par n hash_of p env classified metrics w = Some (Ok (w', s))" and n: "0 < n"
    and dist: "distinct (map cl_file_identity classified)"
  shows "class_inv {} s \<and> cl_file_identity ` {plan \<in> set classified. class_must env plan} \<subseteq> dom (cp_results s) \<union> cp_stopped s
    \<and> dom (cp_results s) \<union> cp_stopped s \<subseteq> cl_file_identity ` {plan \<in> set classified. class_due env plan}"
proof -
  obtain w1 s1 w2 s2 where a: "try_fold (classify_step hash_of p env) classified (w, no_classifications metrics) = Ok (w1, s1)"
    and b: "wave_loop (pt_now p) (kv_work_deadline env) n (classify_wave par n p env) stop_classifications (cp_tasks s1) (w1, s1)
      = Some (w2, s2)"
    and s: "cp_results s = cp_results s2" "cp_stopped s = cp_stopped s2" "cp_audits s = cp_audits s2"
      "cp_receipts s = cp_receipts s2" "class_stops s = class_stops s2"
    using assms(1) by (auto simp: run_classifications_def split: result.splits)
  have "class_front_inv (no_classifications metrics)" "class_settled (no_classifications metrics) = {}"
    by (simp_all add: class_front_inv_def class_settled_def class_inv_def no_classifications_def)
  with front.fold_settles [OF a dist] have A: "class_front_inv s1"
    "class_settled s1 \<subseteq> cl_file_identity ` {plan \<in> set classified. class_due env plan}"
    "cl_file_identity ` {plan \<in> set classified. class_must env plan} \<subseteq> class_settled s1"
    by simp_all
  from A(1) have "distinct (map (\<lambda>t. kt_id t) (cp_tasks s1))" "class_inv ((\<lambda>t. kt_id t) ` set (cp_tasks s1)) s1"
    by (simp_all add: class_front_inv_def)
  from wave_loop_settles [OF n this, of "pt_now p" "kv_work_deadline env" w1] b
  have B: "class_inv {} s2" "class_settled s1 \<subseteq> dom (cp_results s2) \<union> cp_stopped s2"
    "dom (cp_results s2) \<union> cp_stopped s2 \<subseteq> class_settled s1"
    by (simp_all add: class_settled_def)
  have "class_inv {} s" using B(1) unfolding class_inv_def s .
  with A(2,3) B(2,3) show ?thesis unfolding s by (intro conjI order_trans [OF _ B(2)] order_trans [OF B(3)])
qed

end

lemma class_inv_writes:
  "class_inv left s \<Longrightarrow> \<forall>r \<in> set (cp_receipts s). \<exists>c. cp_results s (kw_file_identity r) = Some c \<and> write_of c r"
  by (simp add: class_inv_def)

text \<open>A counted deadline stays counted.\<close>

lemma class_outcome_stops: "class_outcome i s s' \<Longrightarrow> 0 < class_stops s \<Longrightarrow> 0 < class_stops s'"
  by (auto elim: class_outcome.cases)

lemma front_effect_stops: "front_effect charged i must s s' \<Longrightarrow> 0 < class_stops s \<Longrightarrow> 0 < class_stops s'"
  by (auto elim!: front_effect.cases dest: class_outcome_stops)

lemma classify_wave_stops:
  assumes "classify_wave par n p env wave (w, s) = (w', s')" and exec: "ordered_executor par" and "0 < class_stops s"
  shows "0 < class_stops s'"
proof -
  obtain now w1 where now: "pt_now p w = (now, w1)" by force
  define f where "f = (\<lambda>task w. let (execution, w) = pt_classify_pdf p (kt_request task)
      (min (kt_own_timeout_ms task) (saturating_sub (kv_work_deadline env) now)) w
    in ((kt_id task, execution), w))"
  obtain outputs w2 where run: "wave_map par n f wave w1 = (outputs, w2)" by force
  have merge: "fold (classify_merge p env) (zip wave outputs) (w2, s) = (w', s')"
    using assms(1) now run by (simp add: classify_wave_def f_def Let_def)
  have "list_all2 (\<lambda>t y. \<exists>w'. y = fst (f t w')) wave outputs"
    using ordered_executor.map_ordered [OF exec, of f wave n w1] run by simp
  then have "list_all2 (\<lambda>t y. \<exists>x. y = (kt_id t, x)) wave outputs"
    by (rule list_all2_mono) (auto simp: f_def case_prod_beta Let_def)
  then show ?thesis using merge assms(3)
  proof (induction wave outputs arbitrary: w2 s rule: list_all2_induct)
    case (Cons t ts y ys)
    from Cons.hyps obtain x where y: "y = (kt_id t, x)" by blast
    obtain w3 s3 where step: "classify_merge p env (t, y) (w2, s) = (w3, s3)" by force
    from class_outcome_stops [OF classify_merge_effect [OF step [unfolded y]]] Cons.prems(2) have "0 < class_stops s3" by simp
    with Cons.IH [of w3 s3] Cons.prems(1) step show ?case by simp
  qed simp
qed

lemma run_classifications_stops:
  assumes "run_classifications par n hash_of p env classified metrics w = Some (Ok (w', s))" and n: "0 < n"
    and exec: "ordered_executor par" and keyed: "\<And>i f. kv_snapshot env i = Some f \<Longrightarrow> df_file_identity f = i"
    and "0 < em_stage_deadline_exhausted_count metrics"
  shows "0 < em_stage_deadline_exhausted_count (cp_metrics s)"
proof -
  obtain w1 s1 w2 s2 where a: "try_fold (classify_step hash_of p env) classified (w, no_classifications metrics) = Ok (w1, s1)"
    and b: "wave_loop (pt_now p) (kv_work_deadline env) n (classify_wave par n p env) stop_classifications (cp_tasks s1) (w1, s1)
      = Some (w2, s2)"
    and s: "class_stops s = class_stops s2"
    using assms(1) by (auto simp: run_classifications_def split: result.splits)
  have "0 < class_stops (snd (w1, s1))"
  proof (rule try_fold_invariant [OF a])
    fix plan ws ws' assume pos: "0 < class_stops (snd ws)" and step: "classify_step hash_of p env plan ws = Ok ws'"
    obtain v c v' c' where ws: "ws = (v, c)" "ws' = (v', c')" by fastforce
    have "if class_due env plan then front_effect (charged_pages (cl_pdf_classification plan)) (cl_file_identity plan)
        (class_must env plan) c c' else c' = c"
      by (rule classify_step_effect [OF step [unfolded ws] keyed])
    with pos show "0 < class_stops (snd ws')"
      unfolding ws by (auto split: if_splits dest: front_effect_stops)
  qed (use assms(5) in \<open>simp add: no_classifications_def\<close>)
  then have "0 < class_stops s2"
    by (intro wave_loop_invariant [where I = "\<lambda>_ s. 0 < class_stops s", OF n b])
      (auto intro: classify_wave_stops [OF _ exec], metis stop_classifications_effect(5) fold_simps(1) stop_classifications_def)
  with s show ?thesis by simp
qed

text \<open>C30. Files have distinct identities and the pool returns its results in order. Then every
  planned PDF with a source guard, and every PDF the page budget left out, ends with exactly one of a classification
  result and the mark of a stopped file, no other file gets either, a stopped file means that the
  deadline was counted, every audit has the status and page counts of the result that is kept,
  and every committed cache write is the conclusive result that is kept: its status, in the words of the cache, its
  page count and its examined pages.\<close>

theorem run_classifications_settles:
  assumes "run_classifications par n hash_of p env classified metrics w = Some (Ok (w', s))" and "0 < n"
    and "ordered_executor par" and "\<And>i f. kv_snapshot env i = Some f \<Longrightarrow> df_file_identity f = i"
    and "distinct (map cl_file_identity classified)"
  shows "cl_file_identity ` {plan \<in> set classified. class_must env plan} \<subseteq> dom (cp_results s) \<union> cp_stopped s
    \<and> dom (cp_results s) \<union> cp_stopped s \<subseteq> cl_file_identity ` {plan \<in> set classified. class_due env plan}
    \<and> dom (cp_results s) \<inter> cp_stopped s = {}
    \<and> (cp_stopped s \<noteq> {} \<longrightarrow> 0 < em_stage_deadline_exhausted_count (cp_metrics s))
    \<and> (\<forall>i a. cp_audits s i = Some a \<longrightarrow> (\<exists>c. cp_results s i = Some c \<and> ca_status a = cr_status c
         \<and> ca_page_count a = cr_page_count c \<and> ca_result_examined_pages a = cr_result_examined_pages c))
    \<and> (\<forall>r \<in> set (cp_receipts s). \<exists>c. cp_results s (kw_file_identity r) = Some c
         \<and> (cr_status c = TextInParseWindow \<and> kw_status r = lit ''text_in_parse_window''
            \<or> cr_status c = NoTextInParseWindow \<and> kw_status r = lit ''no_text_in_parse_window'')
         \<and> cr_page_count c = Some (kw_page_count r) \<and> cr_result_examined_pages c = Some (kw_result_examined_pages r))"
proof -
  have "class_run par env" using assms(3,4) by (intro class_run.intro class_run_axioms.intro)
  from class_run.run_classifications_Ok [OF this assms(1,2,5)]
  have inv: "class_inv {} s" and ids: "cl_file_identity ` {plan \<in> set classified. class_must env plan} \<subseteq> dom (cp_results s) \<union> cp_stopped s"
    "dom (cp_results s) \<union> cp_stopped s \<subseteq> cl_file_identity ` {plan \<in> set classified. class_due env plan}"
    by simp_all
  have "\<forall>r \<in> set (cp_receipts s). \<exists>c. cp_results s (kw_file_identity r) = Some c
      \<and> (cr_status c = TextInParseWindow \<and> kw_status r = lit ''text_in_parse_window''
         \<or> cr_status c = NoTextInParseWindow \<and> kw_status r = lit ''no_text_in_parse_window'')
      \<and> cr_page_count c = Some (kw_page_count r) \<and> cr_result_examined_pages c = Some (kw_result_examined_pages r)"
    using class_inv_writes [OF inv] unfolding write_of_def by fastforce
  with inv ids show ?thesis unfolding class_inv_def audit_of_def by simp
qed

section \<open>Pages\<close>

text \<open>The classifier the scheduler is given is the port of \<open>classifier.rs\<close> on some session.\<close>

definition checked_port :: "'w ports \<Rightarrow> bool" where
  "checked_port p \<longleftrightarrow> (\<forall>q timeout w. \<exists>session. fst (pt_classify_pdf p q timeout w) = port_execution q session)"

lemma examined_within_request:
  assumes "cr_result_examined_pages (classification_of i (port_execution q session)) = Some examined"
  shows "examined \<le> cq_max_pages q"
proof (cases "xe_outcome (port_execution q session)")
  case (Ok r)
  then have "validate_classifier_result_for_request q r = Ok ()"
    by (auto simp: port_execution_def split: result.splits)
  from accepted_answer(4) [OF this] assms Ok show ?thesis by (simp add: classification_of_def)
next
  case (Err e)
  with assms show ?thesis by (simp add: classification_of_def)
qed

lemma write_classification_confirmed:
  assumes "write_classification p env t c (w, s) = (w', s')"
  shows "confirmed s' = confirmed s"
proof -
  obtain t1 w1 where t1: "pt_now p w = (t1, w1)" by force
  obtain t2 w2 where t2: "pt_now p w1 = (t2, w2)" by force
  show ?thesis
  proof (cases "classification_cache_record (kt_file t) (kt_profile_hash t) (kt_build t) (cr_status c) (cr_page_count c)
      (cr_result_examined_pages c)")
    case None
    with assms t1 show ?thesis by (simp add: write_classification_def split: if_splits)
  next
    case (Some r)
    obtain wr w3 where w3: "pt_write_classification p t2 [r] w2 = (wr, w3)" by force
    from assms Some t1 t2 w3 show ?thesis
      by (cases wr; auto simp: write_classification_def split: if_splits cache_port_error.splits)
  qed
qed

lemma classify_merge_confirmed:
  assumes "classify_merge p env (t, i, port_execution (kt_request t) session) (w, s) = (w', s')"
    and "cq_max_pages (kt_request t) = kt_charged t"
  shows "confirmed s' \<le> confirmed s + kt_charged t"
proof -
  let ?x = "port_execution (kt_request t) session"
  let ?c = "classification_of i ?x"
  let ?s = "s\<lparr>cp_metrics := (cp_metrics s)\<lparr>em_classify_attempt_count :=
     saturating_add (em_classify_attempt_count (cp_metrics s)) (xe_attempt_count ?x)\<rparr>\<rparr>"
  let ?t = "put_classification i ?c (put_audit i (miss_audit t ?x ?c) (count_pages ?x ?c ?s))"
  obtain same w1 where v: "pt_verify p (df_path (kt_file t)) (kt_guard t) w = (same, w1)" by force
  obtain w2 s2 where wr: "write_classification p env t ?c (w1, ?t) = (w2, s2)" by force
  consider "confirmed s' = confirmed s" | "s' = s2"
    using assms(1) v wr by (auto simp: classify_merge_def Let_def split: if_splits)
  then show ?thesis
  proof cases
    case 2
    have "confirmed s2 = confirmed (count_pages ?x ?c ?s)" using write_classification_confirmed [OF wr] by simp
    also have "\<dots> \<le> confirmed s + kt_charged t"
    proof (cases "run_inspected_pages ?x ?c")
      case None
      then show ?thesis by (simp add: count_pages_def)
    next
      case (Some pages)
      then have "cr_result_examined_pages ?c = Some pages" by (simp add: run_inspected_pages_def split: if_splits)
      then have "pages \<le> kt_charged t" using examined_within_request assms(2) by metis
      with Some saturating_add_le_sum [of "confirmed s" pages] show ?thesis by (simp add: count_pages_def)
    qed
    finally show ?thesis using 2 by simp
  qed simp
qed

abbreviation task_pages :: "class_task list \<Rightarrow> u64" where
  "task_pages ts \<equiv> sum_list (map kt_charged ts)"

definition requests_bounded :: "class_task list \<Rightarrow> bool" where
  "requests_bounded ts \<longleftrightarrow> (\<forall>t \<in> set ts. cq_max_pages (kt_request t) = kt_charged t)"

lemma classify_wave_confirmed:
  assumes "classify_wave par n p env wave (w, s) = (w', s')" and exec: "ordered_executor par" and port: "checked_port p"
    and "requests_bounded wave"
  shows "confirmed s' \<le> confirmed s + task_pages wave"
proof -
  obtain now w1 where now: "pt_now p w = (now, w1)" by force
  define f where "f = (\<lambda>task w. let (execution, w) = pt_classify_pdf p (kt_request task)
      (min (kt_own_timeout_ms task) (saturating_sub (kv_work_deadline env) now)) w
    in ((kt_id task, execution), w))"
  obtain outputs w2 where run: "wave_map par n f wave w1 = (outputs, w2)" by force
  have merge: "fold (classify_merge p env) (zip wave outputs) (w2, s) = (w', s')"
    using assms(1) now run by (simp add: classify_wave_def f_def Let_def)
  have "list_all2 (\<lambda>t y. \<exists>w'. y = fst (f t w')) wave outputs"
    using ordered_executor.map_ordered [OF exec, of f wave n w1] run by simp
  then have "list_all2 (\<lambda>t y. \<exists>i session. y = (i, port_execution (kt_request t) session)) wave outputs"
    by (rule list_all2_mono) (use port in \<open>auto simp: f_def case_prod_beta Let_def checked_port_def\<close>)
  then show ?thesis using merge assms(4)
  proof (induction wave outputs arbitrary: w2 s rule: list_all2_induct)
    case (Cons t ts y ys)
    from Cons.hyps obtain i session where y: "y = (i, port_execution (kt_request t) session)" by blast
    obtain w3 s3 where step: "classify_merge p env (t, y) (w2, s) = (w3, s3)" by force
    have "confirmed s3 \<le> confirmed s + kt_charged t"
      by (rule classify_merge_confirmed [OF step [unfolded y]]) (use Cons.prems(2) in \<open>simp add: requests_bounded_def\<close>)
    moreover have "confirmed s' \<le> confirmed s3 + task_pages ts"
      using Cons.IH [of w3 s3] Cons.prems step by (simp add: requests_bounded_def)
    ultimately show ?case by simp
  qed simp
qed

lemma front_pages:
  assumes "try_fold (classify_step hash_of p env) plans (w, s) = Ok (w', s')"
    and keyed: "\<And>i f. kv_snapshot env i = Some f \<Longrightarrow> df_file_identity f = i" and "requests_bounded (cp_tasks s)"
  shows "requests_bounded (cp_tasks s') \<and> confirmed s' = confirmed s
    \<and> task_pages (cp_tasks s') \<le> task_pages (cp_tasks s) + sum_list (map (\<lambda>q. charged_pages (cl_pdf_classification q)) plans)"
  using assms(1,3)
proof (induction plans arbitrary: w s)
  case (Cons plan plans)
  obtain w1 s1 where step: "classify_step hash_of p env plan (w, s) = Ok (w1, s1)"
    and rest: "try_fold (classify_step hash_of p env) plans (w1, s1) = Ok (w', s')"
    using Cons.prems(1) by auto
  have "requests_bounded (cp_tasks s1) \<and> confirmed s1 = confirmed s
      \<and> task_pages (cp_tasks s1) \<le> task_pages (cp_tasks s) + charged_pages (cl_pdf_classification plan)"
  proof (cases "class_due env plan")
    case False
    with classify_step_effect [OF step keyed] Cons.prems(2) show ?thesis by simp
  next
    case True
    with classify_step_effect [OF step keyed]
    have "front_effect (charged_pages (cl_pdf_classification plan)) (cl_file_identity plan) (class_must env plan) s s1" by simp
    then show ?thesis
    proof cases
      case settled
      from settled(1) have "cp_tasks s1 = cp_tasks s" by cases
      with settled(2) Cons.prems(2) show ?thesis by simp
    qed (use Cons.prems(2) in \<open>auto simp: requests_bounded_def\<close>)
  qed
  with Cons.IH [OF rest] show ?case by auto
qed simp

text \<open>The pages a run has confirmed as inspected stay within what the plan charged, and so, for a
  plan of stage A, within the page budget: whatever the workers answer, the port lets no count
  through that exceeds the window it asked for.\<close>

theorem confirmed_pages_within_budget:
  assumes "run_classifications par n hash_of p env
      (ClassificationPlan_build_with_remaining uni files profile page_budget candidate_budget part) metrics w = Some (Ok (w', s))"
    and n: "0 < n" and exec: "ordered_executor par" and port: "checked_port p"
    and keyed: "\<And>i f. kv_snapshot env i = Some f \<Longrightarrow> df_file_identity f = i"
  shows "em_confirmed_run_inspected_pages_total (cp_metrics s) \<le> em_confirmed_run_inspected_pages_total metrics + page_budget"
proof -
  let ?plans = "ClassificationPlan_build_with_remaining uni files profile page_budget candidate_budget part"
  obtain w1 s1 w2 s2 where a: "try_fold (classify_step hash_of p env) ?plans (w, no_classifications metrics) = Ok (w1, s1)"
    and b: "wave_loop (pt_now p) (kv_work_deadline env) n (classify_wave par n p env) stop_classifications (cp_tasks s1) (w1, s1)
      = Some (w2, s2)"
    and s: "confirmed s = confirmed s2"
    using assms(1) by (auto simp: run_classifications_def split: result.splits)
  have "requests_bounded (cp_tasks (no_classifications metrics))" by (simp add: requests_bounded_def no_classifications_def)
  from front_pages [OF a keyed this] planned_pages_within [of uni files profile page_budget candidate_budget part]
  have front: "requests_bounded (cp_tasks s1)" "confirmed s1 + task_pages (cp_tasks s1)
      \<le> em_confirmed_run_inspected_pages_total metrics + page_budget"
    by (simp_all add: no_classifications_def)
  let ?I = "\<lambda>ts s. requests_bounded ts \<and> confirmed s + task_pages ts \<le> em_confirmed_run_inspected_pages_total metrics + page_budget"
  have "?I [] s2"
  proof (rule wave_loop_invariant [where I = ?I, OF n b])
    fix xs ys w s w' s' assume I: "?I (xs @ ys) s" and wave: "classify_wave par n p env xs (w, s) = (w', s')"
    from classify_wave_confirmed [OF wave exec port] I show "?I ys s'" by (auto simp: requests_bounded_def)
  next
    fix ts s assume "?I ts s"
    moreover have "confirmed (stop_classifications ts s) = confirmed s"
      unfolding stop_classifications_def by (induction ts arbitrary: s) auto
    ultimately show "?I [] (stop_classifications ts s)" by (simp add: requests_bounded_def)
  qed (use front in simp)
  then show ?thesis using s by simp
qed

section \<open>The phase ends\<close>

text \<open>The two errors of the phase.\<close>

inductive class_failure :: "(normalized_settings \<Rightarrow> (rstring, rstring) result) \<Rightarrow> 'w ports \<Rightarrow> diagnostic \<Rightarrow> bool"
  for hash_of p where
  no_hash: "hash_of profile = Err message \<Longrightarrow> class_failure hash_of p (scheduler_internal message)"
| no_lookup: "fst (pt_lookup_classification p f h build existed w) = Err c \<Longrightarrow>
     class_failure hash_of p (port_error_diagnostic c StageCache)"

lemma classify_step_error:
  assumes "classify_step hash_of p env plan ws = Err e"
  shows "class_failure hash_of p e"
proof -
  obtain w s where ws: "ws = (w, s)" by force
  obtain charged where plan: "cl_pdf_classification plan = Classify charged"
    using assms by (cases "cl_pdf_classification plan") (auto simp: classify_step_def ws Let_def)
  show ?thesis
  proof (cases "window_hash hash_of env charged")
    case (Err d)
    with assms plan have e: "e = d" by (simp add: classify_step_def ws Let_def)
    from Err obtain profile message where "hash_of profile = Err message" "d = scheduler_internal message"
      by (auto simp: window_hash_def Let_def split: if_splits elim!: map_err.elims)
    with e show ?thesis by (simp add: no_hash)
  next
    case (Ok h)
    obtain now w1 where n: "pt_now p w = (now, w1)" by force
    from assms plan Ok n obtain f guard w2 where
      "classify_lookup p env (cl_file_identity plan) f guard charged h (w2, s) = Err e"
      by (auto simp: classify_step_def ws Let_def split: option.splits if_splits prod.splits)
    then obtain c where "fst (pt_lookup_classification p f h (kv_build env) (cl_file_identity plan \<in> kv_existed_before env) w2) = Err c"
      "e = port_error_diagnostic c StageCache"
      by (auto simp: classify_lookup_def Let_def split: prod.splits result.splits classification_lookup.splits)
    then show ?thesis using no_lookup by metis
  qed
qed

lemma run_classifications_cases:
  assumes "0 < n"
  obtains e where "run_classifications par n hash_of p env classified metrics w = Some (Err e)" "class_failure hash_of p e"
  | w' s where "run_classifications par n hash_of p env classified metrics w = Some (Ok (w', s))"
proof (cases "try_fold (classify_step hash_of p env) classified (w, no_classifications metrics)")
  case (Err e)
  then have "class_failure hash_of p e" by (rule try_fold_error) (rule classify_step_error)
  with Err that(1) show ?thesis by (simp add: run_classifications_def)
next
  case (Ok ws)
  obtain w1 s1 where ws: "ws = (w1, s1)" by force
  obtain ws' where "wave_loop (pt_now p) (kv_work_deadline env) n (classify_wave par n p env) stop_classifications
      (cp_tasks s1) (w1, s1) = Some ws'"
    using wave_loop_returns [OF assms] by blast
  with Ok ws that(2) show ?thesis by (cases ws') (simp add: run_classifications_def)
qed

text \<open>With room for at least one file in a wave the classification phase always ends, and its only
  errors are a profile that cannot be hashed and a cache lookup that failed: no answer or failure of
  a worker ends the run.\<close>

theorem run_classifications_returns:
  assumes "0 < n"
  shows "\<exists>r. run_classifications par n hash_of p env classified metrics w = Some r
    \<and> (\<forall>e. r = Err e \<longrightarrow> class_failure hash_of p e)"
  by (rule run_classifications_cases [OF assms, of par hash_of p env classified metrics w]) auto

section \<open>A concrete phase\<close>

definition fixture_class_env :: class_env where
  "fixture_class_env = \<lparr>kv_snapshot = [lit ''b'' \<mapsto> fixture_discovered], kv_profile = daily_settings,
     kv_profile_hash = fixture_hex, kv_build = fixture_hex, kv_existed_before = {}, kv_work_deadline = 100\<rparr>"

definition fixture_pdf_plan :: classified_plan where
  "fixture_pdf_plan = \<lparr>cl_file_identity = lit ''b'', cl_relative_path = lit ''b.pdf'', cl_extension = lit ''.pdf'',
     cl_priority = 0, cl_action = Admit Pdf, cl_pdf_classification = PlanNotClassified\<rparr>"

definition fixture_hash_of :: "normalized_settings \<Rightarrow> (rstring, rstring) result" where
  "fixture_hash_of _ = Ok fixture_hex"

interpretation fixture_class: class_run run_pass 2 fixture_hash_of fixture_ports fixture_class_env
  by unfold_locales (auto simp: fixture_class_env_def fixture_discovered_def split: if_splits)

lemma fixture_run_classifications:
  "\<exists>w' s. run_classifications run_pass 2 fixture_hash_of fixture_ports fixture_class_env plans default_metrics 0 = Some (Ok (w', s))"
  by (rule run_classifications_cases [of 2 run_pass fixture_hash_of fixture_ports fixture_class_env plans default_metrics 0])
    (auto simp: fixture_ports_def class_failure.simps fixture_hash_of_def)

theorem run_classifications_returns_witness:
  "\<exists>r. run_classifications run_pass 2 fixture_hash_of fixture_ports fixture_class_env [fixture_pdf_plan] default_metrics 0 = Some r"
  using run_classifications_returns [of 2 run_pass fixture_hash_of fixture_ports fixture_class_env "[fixture_pdf_plan]"
      default_metrics 0] by auto

text \<open>A PDF of eight pages, found to have text on the third one it looked at, and written to the cache.\<close>

definition fixture_text_execution :: classifier_execution where
  "fixture_text_execution =
     \<lparr>xe_outcome = Ok \<lparr>cx_page_audit = None, cx_status = WorkText, cx_page_count = Some 8,
        cx_result_examined_pages = Some 3, cx_diagnostic = None\<rparr>,
      xe_transport = CtSession, xe_attempt_count = 1, xe_duration_ms = 9\<rparr>"

definition fixture_text_ports :: "u64 ports" where
  "fixture_text_ports = fixture_ports\<lparr>pt_classify_pdf := (\<lambda>_ _ w. (fixture_text_execution, w))\<rparr>"

definition fixture_text_plan :: classified_plan where
  "fixture_text_plan = fixture_pdf_plan\<lparr>cl_pdf_classification := Classify 5\<rparr>"

lemma fixture_text_run:
  "\<exists>w' s. run_classifications run_pass 2 fixture_hash_of fixture_text_ports fixture_class_env [fixture_text_plan] default_metrics 0
     = Some (Ok (w', s)) \<and> map kw_status (cp_receipts s) = [lit ''text_in_parse_window'']
     \<and> map kw_file_identity (cp_receipts s) = [lit ''b'']"
proof -
  obtain h where h: "df_source_guard_sha256 fixture_discovered = Some h" by (simp add: fixture_discovered_def)
  have guard: "expected_guard fixture_discovered = Some \<lparr>sg_kind = UnixInodeCtimeV1, sg_guard_sha256 = Some h\<rparr>"
    using fixture_hash h source_guard_kind_text_inverse [of UnixInodeCtimeV1]
    by (simp add: fixture_discovered_def expected_guard_def validate_source_guard_def ok_or_def require_def)
  have kind: "\<exists>kind. df_source_guard_kind fixture_discovered = Some kind" by (simp add: fixture_discovered_def)
  have id: "df_file_identity fixture_discovered = lit ''b''" by (simp add: fixture_discovered_def)
  let ?task = "\<lparr>kt_file = fixture_discovered, kt_guard = \<lparr>sg_kind = UnixInodeCtimeV1, sg_guard_sha256 = Some h\<rparr>,
      kt_request = \<lparr>cq_file_path = df_path fixture_discovered, cq_source_version = df_source_version fixture_discovered,
        cq_max_pages = 5, cq_policy_version = ns_classifier_policy_version daily_settings\<rparr>,
      kt_own_timeout_ms = min (ns_pdf_classification_timeout_ms daily_settings) 99,
      kt_profile_hash = fixture_hex, kt_build = fixture_hex, kt_miss_reason = lit ''new_file'', kt_charged = 5\<rparr>"
  have now: "pt_now fixture_text_ports w = (w, w + 1)" for w by (simp add: fixture_text_ports_def fixture_ports_def)
  have hash: "window_hash fixture_hash_of fixture_class_env 5 = Ok fixture_hex"
    by (simp add: window_hash_def fixture_hash_of_def fixture_class_env_def Let_def)
  obtain s1 where step: "classify_step fixture_hash_of fixture_text_ports fixture_class_env fixture_text_plan
      (0, no_classifications default_metrics) = Ok (2, s1)" and s1: "cp_tasks s1 = [?task]" "cp_receipts s1 = []"
    by (simp add: classify_step_def fixture_text_plan_def fixture_pdf_plan_def hash now)
      (simp add: fixture_class_env_def fixture_text_ports_def fixture_ports_def guard classify_lookup_def classify_miss_def
        no_classifications_def saturating_sub_def)
  have classify: "pt_classify_pdf fixture_text_ports q t w = (fixture_text_execution, w)" for q t w
    by (simp add: fixture_text_ports_def)
  obtain s2 where merge: "classify_merge fixture_text_ports fixture_class_env (?task, lit ''b'', fixture_text_execution) (4, s1) = (6, s2)"
    and s2: "map kw_status (cp_receipts s2) = [lit ''text_in_parse_window'']" "map kw_file_identity (cp_receipts s2) = [lit ''b'']"
    using kind s1(2) h id
    by (auto simp: classify_merge_def fixture_text_ports_def fixture_ports_def fixture_class_env_def classification_of_def
        fixture_text_execution_def write_classification_def classification_cache_record_def Let_def)
  have wave: "classify_wave run_pass 2 fixture_text_ports fixture_class_env [?task] (3, s1) = (6, s2)"
    using merge id by (simp add: classify_wave_def now wave_map_def classify run_pass.simps)
  have "wave_loop (pt_now fixture_text_ports) 100 2 (classify_wave run_pass 2 fixture_text_ports fixture_class_env)
      stop_classifications [?task] (2, s1) = Some (6, s2)"
    by (subst wave_loop.simps) (simp add: now wave, subst wave_loop.simps, simp)
  moreover have "kv_work_deadline fixture_class_env = 100" by (simp add: fixture_class_env_def)
  ultimately show ?thesis using step s1(1) s2 by (simp add: run_classifications_def)
qed

theorem run_classifications_settles_witness:
  "\<exists>w' s. run_classifications run_pass 2 fixture_hash_of fixture_text_ports fixture_class_env [fixture_text_plan] default_metrics 0
      = Some (Ok (w', s)) \<and> map kw_status (cp_receipts s) = [lit ''text_in_parse_window'']
    \<and> (\<exists>c. cp_results s (lit ''b'') = Some c \<and> cr_status c = TextInParseWindow) \<and> lit ''b'' \<notin> cp_stopped s"
proof -
  obtain w' s where run: "run_classifications run_pass 2 fixture_hash_of fixture_text_ports fixture_class_env [fixture_text_plan]
      default_metrics 0 = Some (Ok (w', s))" and status: "map kw_status (cp_receipts s) = [lit ''text_in_parse_window'']"
      "map kw_file_identity (cp_receipts s) = [lit ''b'']"
    using fixture_text_run by (elim exE conjE)
  then obtain r where r: "cp_receipts s = [r]" "kw_status r = lit ''text_in_parse_window''" "kw_file_identity r = lit ''b''" by auto
  from run_classifications_settles [OF run _ sequential.ordered_executor_axioms fixture_class.keyed] r run status
  show ?thesis by fastforce
qed

theorem confirmed_pages_within_budget_witness:
  "\<exists>w' s. run_classifications run_pass 2 fixture_hash_of fixture_ports fixture_class_env
      (ClassificationPlan_build_with_remaining id [] daily_settings 7 3 False) default_metrics 0 = Some (Ok (w', s))
    \<and> em_confirmed_run_inspected_pages_total (cp_metrics s) \<le> 7"
proof -
  obtain w' s where run: "run_classifications run_pass 2 fixture_hash_of fixture_ports fixture_class_env
      (ClassificationPlan_build_with_remaining id [] daily_settings 7 3 False) default_metrics 0 = Some (Ok (w', s))"
    using fixture_run_classifications by blast
  have "checked_port fixture_ports"
    by (auto simp: checked_port_def fixture_ports_def port_execution_def
        intro!: exI [of _ "\<lparr>xe_outcome = Err (scheduler_internal []), xe_transport = CtSession, xe_attempt_count = 1, xe_duration_ms = 0\<rparr>"])
  from confirmed_pages_within_budget [OF run _ sequential.ordered_executor_axioms this fixture_class.keyed] run
  show ?thesis by (auto simp: default_metrics_def)
qed

theorem executed_audits_validate_witness:
  "validate_classification_audit (miss_audit
     \<lparr>kt_file = fixture_discovered, kt_guard = \<lparr>sg_kind = UnixInodeCtimeV1, sg_guard_sha256 = None\<rparr>,
      kt_request = \<lparr>cq_file_path = lit ''/w/b.pdf'', cq_source_version = [], cq_max_pages = 5,
        cq_policy_version = lit ''pdf_text_presence_v2''\<rparr>,
      kt_own_timeout_ms = 100, kt_profile_hash = fixture_hex, kt_build = fixture_hex,
      kt_miss_reason = classification_miss_text ClassNewFile, kt_charged = 5\<rparr>
     (port_execution \<lparr>cq_file_path = lit ''/w/b.pdf'', cq_source_version = [], cq_max_pages = 5,
        cq_policy_version = lit ''pdf_text_presence_v2''\<rparr>
       \<lparr>xe_outcome = Err (scheduler_internal []), xe_transport = CtSession, xe_attempt_count = 1, xe_duration_ms = 9\<rparr>)
     (classification_of (lit ''b'') (port_execution \<lparr>cq_file_path = lit ''/w/b.pdf'', cq_source_version = [], cq_max_pages = 5,
        cq_policy_version = lit ''pdf_text_presence_v2''\<rparr>
       \<lparr>xe_outcome = Err (scheduler_internal []), xe_transport = CtSession, xe_attempt_count = 1, xe_duration_ms = 9\<rparr>))) = Ok ()"
  by (rule executed_audits_validate [where reason = ClassNewFile]) (simp_all add: executed_def fixture_hex_ok)

end
