(* ===== verification/Scheduler_Refill.thy ===== *)
theory Scheduler_Refill
  imports Scheduler_Outcome Scheduler_Parses Scheduler_Classify
begin

text \<open>
  \<open>src/rust/scanner_core/src/scheduler/refill.rs\<close>: quota that the first wave reserved and did not
  use is handed to files the budget had left out, in at most two supplemental rounds. Each round
  gives characters back, freezes a plan from what is left of every quota, classifies, admits and
  parses it with the same operations as the first wave, and records a frozen round in the ledger.
\<close>

section \<open>Parameters and state\<close>

text \<open>What the engine is given: the tables and libraries outside the sources (case folding, size of an
  encoded audit, SHA-256, the platform's relative paths, the hash of a classifier profile, the
  encoding of a frozen plan), the thread pool and the ports.\<close>

record 'w engine =
  en_uni :: "rstring \<Rightarrow> rstring"
  en_enc :: "parsed_content_audit \<Rightarrow> nat"
  en_sha :: "rstring \<Rightarrow> rstring"
  en_rel :: "rstring \<Rightarrow> (rstring, rstring) result"
  en_hash_of :: "normalized_settings \<Rightarrow> (rstring, rstring) result"
  en_encode_plan :: "(rstring \<times> plan_action \<times> pdf_classification_plan) list \<Rightarrow> rstring option"
  en_ports :: "'w ports"
  en_concurrency :: nat
  en_classify_pool :: "(class_task \<Rightarrow> 'w \<Rightarrow> (rstring \<times> classifier_execution) \<times> 'w) \<Rightarrow> class_task list \<Rightarrow> 'w \<Rightarrow>
      (rstring \<times> classifier_execution) list \<times> 'w"
  en_parse_pool :: "(parse_request \<Rightarrow> 'w \<Rightarrow> parse_result \<times> 'w) \<Rightarrow> parse_request list \<Rightarrow> 'w \<Rightarrow> parse_result list \<times> 'w"

record run_env =
  rv_discovery :: "discovered_file list"
  rv_profile :: normalized_settings
  rv_existed_before :: "rstring set"
  rv_classifier_hash :: rstring
  rv_classifier_build :: rstring
  rv_work_deadline :: u64
  rv_workers :: worker_identities
  rv_engine_version :: rstring
  rv_engine_build :: rstring

record run_state =
  rf_classified :: "classified_plan list"
  rf_admission :: "admission_decision list"
  rf_classifications :: "rstring \<rightharpoonup> pdf_classification_result"
  rf_audits :: "rstring \<rightharpoonup> pdf_classification_audit"
  rf_runtime :: "rstring set"
  rf_fresh_hits :: "rstring list"
  rf_outputs :: parse_outputs
  rf_model :: context_budget_model
  rf_metrics :: execution_metrics

definition class_env_of :: "run_env \<Rightarrow> class_env" where
  "class_env_of env = \<lparr>kv_snapshot = snapshot_of (rv_discovery env), kv_profile = rv_profile env,
     kv_profile_hash = rv_classifier_hash env, kv_build = rv_classifier_build env,
     kv_existed_before = rv_existed_before env, kv_work_deadline = rv_work_deadline env\<rparr>"

definition parse_env_of ::
  "run_env \<Rightarrow> (rstring \<rightharpoonup> pdf_classification_result) \<Rightarrow> rstring set \<Rightarrow> parse_env" where
  "parse_env_of env classifications runtime = \<lparr>pv_snapshot = snapshot_of (rv_discovery env),
     pv_classifications = classifications, pv_profile = rv_profile env, pv_existed_before = rv_existed_before env,
     pv_runtime_classification = runtime, pv_work_deadline = rv_work_deadline env, pv_workers = rv_workers env,
     pv_engine_version = rv_engine_version env, pv_engine_build = rv_engine_build env\<rparr>"

text \<open>Sequencing of phases that may fail and, on the face of it, need not end.\<close>

fun and_run :: "('a, 'e) result option \<Rightarrow> ('a \<Rightarrow> ('b, 'e) result option) \<Rightarrow> ('b, 'e) result option" where
  "and_run None f = None"
| "and_run (Some (Err e)) f = Some (Err e)"
| "and_run (Some (Ok x)) f = f x"

section \<open>What a run has consumed\<close>

definition budget_pending :: "plan_action \<Rightarrow> bool" where
  "budget_pending action = (case action of
     PlanNotParsed reason \<Rightarrow> reason \<in> {SemanticFileQuotaExhausted, PdfClassificationPageQuotaExhausted,
       PdfTextExtractionQuotaExhausted, GlobalContextBudgetExceeded}
   | _ \<Rightarrow> False)"

text \<open>The pages a classification holds: what it confirmed, or its whole charge when that is unknown.\<close>

definition held_pages :: "(rstring \<rightharpoonup> pdf_classification_audit) \<Rightarrow> rstring \<Rightarrow> u64 \<Rightarrow> u64" where
  "held_pages audits identity charged =
     unwrap_or (Option.bind (audits identity) (\<lambda>audit.
       if ca_status audit \<in> {TextInParseWindow, NoTextInParseWindow} then ca_run_inspected_pages audit else None)) charged"

fun page_ledger ::
  "(rstring \<rightharpoonup> pdf_classification_audit) \<Rightarrow> classified_plan list \<Rightarrow> u64 \<times> u64 \<Rightarrow> (u64 \<times> u64, diagnostic) result" where
  "page_ledger audits [] acc = Ok acc"
| "page_ledger audits (plan # plans) (held_total, refunded_total) =
     (case cl_pdf_classification plan of
        Classify charged \<Rightarrow>
          let held = held_pages audits (cl_file_identity plan) charged in
          if charged < held
          then Err (scheduler_internal (lit ''classifier consumed more pages than its frozen reservation''))
          else page_ledger audits plans (saturating_add held_total held, saturating_add refunded_total (charged - held))
      | _ \<Rightarrow> page_ledger audits plans (held_total, refunded_total))"

definition text_pdf :: "(rstring \<rightharpoonup> pdf_classification_result) \<Rightarrow> admission_decision \<Rightarrow> bool" where
  "text_pdf classifications d \<longleftrightarrow> ad_action d = Admit Pdf
     \<and> map_option cr_status (classifications (ad_file_identity d)) = Some TextInParseWindow"

definition cache_only :: "parse_outputs \<Rightarrow> rstring \<Rightarrow> bool" where
  "cache_only outputs identity = (case po_results outputs identity of None \<Rightarrow> False
     | Some result \<Rightarrow> ps_parse_status result = Success \<and> ps_parse_attempt_count result = 0
         \<and> ps_parse_transport result = PtNotApplicable)"

definition consumed_candidates :: "(rstring \<rightharpoonup> pdf_classification_result) \<Rightarrow> parse_outputs \<Rightarrow> rstring set" where
  "consumed_candidates classifications outputs = dom (po_results outputs)
     \<union> {i. \<exists>c. classifications i = Some c \<and> cr_status c \<noteq> NotClassifiedByBudget}"

definition consumed ::
  "classified_plan list \<Rightarrow> admission_decision list \<Rightarrow> (rstring \<rightharpoonup> pdf_classification_result) \<Rightarrow>
     (rstring \<rightharpoonup> pdf_classification_audit) \<Rightarrow> parse_outputs \<Rightarrow> (u64 \<times> u64 \<times> u64 \<times> u64, diagnostic) result" where
  "consumed classified admission classifications audits outputs =
     and_then (page_ledger audits classified (0, 0)) (\<lambda>(held, refunded).
     Ok (card (consumed_candidates classifications outputs), held,
         length (filter (\<lambda>d. text_pdf classifications d \<and> \<not> cache_only outputs (ad_file_identity d)) admission), refunded))"

section \<open>Merging\<close>

definition merge_parses :: "parse_outputs \<Rightarrow> parse_outputs \<Rightarrow> parse_outputs" where
  "merge_parses current next =
     \<lparr>po_results = po_results current ++ po_results next,
      po_runtime_not_parsed = po_runtime_not_parsed current \<union> po_runtime_not_parsed next,
      po_parse_cache_receipts = po_parse_cache_receipts current @ po_parse_cache_receipts next,
      po_classification_cache_receipts = po_classification_cache_receipts current @ po_classification_cache_receipts next,
      po_parse_profile_hashes = po_parse_profile_hashes current ++ po_parse_profile_hashes next,
      po_parse_cache_status = po_parse_cache_status current ++ po_parse_cache_status next,
      po_parse_cache_miss_reason = po_parse_cache_miss_reason current ++ po_parse_cache_miss_reason next,
      po_cache_write_warnings = po_cache_write_warnings current @ po_cache_write_warnings next,
      po_parse_warnings = po_parse_warnings current @ po_parse_warnings next,
      po_parse_fresh_hits = po_parse_fresh_hits current @ po_parse_fresh_hits next\<rparr>"

text \<open>Entries of a hash map replace the elements with their keys; each is used once.\<close>

fun replace_by :: "('a \<Rightarrow> rstring) \<Rightarrow> 'a list \<Rightarrow> (rstring \<rightharpoonup> 'a) \<Rightarrow> 'a list \<times> (rstring \<rightharpoonup> 'a)" where
  "replace_by key [] m = ([], m)"
| "replace_by key (old # olds) m =
     (let (x, m) = (case m (key old) of Some new \<Rightarrow> (new, m(key old := None)) | None \<Rightarrow> (old, m));
          (xs, m) = replace_by key olds m
      in (x # xs, m))"

definition by_identity :: "('a \<Rightarrow> rstring) \<Rightarrow> 'a list \<Rightarrow> (rstring \<rightharpoonup> 'a)" where
  "by_identity key xs = map_of (rev (map (\<lambda>x. (key x, x)) xs))"

section \<open>Characters\<close>

definition completed :: "(rstring \<rightharpoonup> pdf_classification_result) \<Rightarrow> parse_outputs \<Rightarrow> rstring \<Rightarrow> bool" where
  "completed classifications outputs identity \<longleftrightarrow>
     (case po_results outputs identity of None \<Rightarrow> False | Some result \<Rightarrow> ps_parse_status result = Success)
     \<or> map_option cr_status (classifications identity) = Some NoTextInParseWindow"

text \<open>What a completed file keeps of its reservation: its rendered section and the separator.\<close>

definition retained_chars ::
  "(rstring \<rightharpoonup> pdf_classification_result) \<Rightarrow> rstring set \<Rightarrow> parse_outputs \<Rightarrow> (rstring \<rightharpoonup> u64) \<Rightarrow> admission_decision \<Rightarrow> u64" where
  "retained_chars classifications runtime outputs rendered d =
     (if \<not> is_admit (ad_action d) \<or> \<not> completed classifications outputs (ad_file_identity d)
         \<or> ad_file_identity d \<in> runtime \<or> ad_file_identity d \<in> po_runtime_not_parsed outputs
      then ad_reserved_chars d
      else (case rendered (ad_file_identity d) of None \<Rightarrow> ad_reserved_chars d
            | Some chars \<Rightarrow> min (saturating_add chars SECTION_SEPARATOR_CHARS) (ad_reserved_chars d)))"

definition reclaim_chars ::
  "'w engine \<Rightarrow> run_env \<Rightarrow> run_state \<Rightarrow> (run_state \<times> u64, diagnostic) result" where
  "reclaim_chars en env s =
     and_then (build_evidence (en_rel en) (rv_discovery env) (rf_classified s) (rf_admission s) (rf_classifications s)
         (rf_runtime s) (rf_outputs s)) (\<lambda>evidence.
     and_then (map_err (\<lambda>message. scheduler_failure BudgetModelMismatch message False StageContext)
         (build_context (en_uni en) (en_enc en) evidence (ns_context (rv_profile env)) (ns_report_mode (rv_profile env)))) (\<lambda>rendered.
     and_then (enforce_rendered_within_reserved rendered (rf_admission s) (rf_model s)) (\<lambda>_.
     let retained = retained_chars (rf_classifications s) (rf_runtime s) (rf_outputs s) (co_rendered_by_identity rendered) in
     Ok (s\<lparr>rf_admission := map (\<lambda>d. d\<lparr>ad_reserved_chars := retained d\<rparr>) (rf_admission s)\<rparr>,
         fold (\<lambda>d refund. saturating_add refund (ad_reserved_chars d - retained d)) (rf_admission s) 0))))"

section \<open>One round\<close>

text \<open>The files a round may take up: untouched ones, and classified PDFs that found no room.\<close>

definition settled_file :: "run_state \<Rightarrow> rstring \<Rightarrow> bool" where
  "settled_file s identity \<longleftrightarrow> identity \<in> rf_runtime s \<or> identity \<in> po_runtime_not_parsed (rf_outputs s)
     \<or> po_results (rf_outputs s) identity \<noteq> None"

definition pending :: "run_state \<Rightarrow> classified_plan \<Rightarrow> bool" where
  "pending s plan \<longleftrightarrow> \<not> settled_file s (cl_file_identity plan)
     \<and> budget_pending (unwrap_or (map_option ad_action (by_identity ad_file_identity (rf_admission s) (cl_file_identity plan)))
         (cl_action plan))"

definition reusable_plan :: "run_state \<Rightarrow> classified_plan \<Rightarrow> bool" where
  "reusable_plan s plan \<longleftrightarrow> pending s plan \<and> map_option cr_status (rf_classifications s (cl_file_identity plan))
     \<in> {Some TextInParseWindow, Some NoTextInParseWindow}"

definition unstarted_plan :: "run_state \<Rightarrow> classified_plan \<Rightarrow> bool" where
  "unstarted_plan s plan \<longleftrightarrow> pending s plan \<and> map_option cr_status (rf_classifications s (cl_file_identity plan))
     \<in> {None, Some NotClassifiedByBudget}"

definition reserved_total :: "admission_decision list \<Rightarrow> u64" where
  "reserved_total admission = sum_list (map ad_reserved_chars admission)"

definition is_classify :: "pdf_classification_plan \<Rightarrow> bool" where
  "is_classify c = (case c of Classify _ \<Rightarrow> True | _ \<Rightarrow> False)"

record round_plan =
  rp_frozen :: "classified_plan list"
  rp_reusable :: "classified_plan list"
  rp_has_pending :: bool
  rp_used_extractions :: u64

text \<open>The plan of a round, frozen before any I/O.\<close>

definition freeze_round ::
  "'w engine \<Rightarrow> run_env \<Rightarrow> run_state \<Rightarrow> u64 \<times> u64 \<times> u64 \<times> u64 \<Rightarrow> round_plan" where
  "freeze_round en env s used =
     (let (used_candidates, held, used_extractions, _) = used; profile = rv_profile env;
          unstarted = List.map_filter (\<lambda>plan. if unstarted_plan s plan
            then map_option plan_candidate_of (snapshot_of (rv_discovery env) (cl_file_identity plan)) else None) (rf_classified s);
          reusable = filter (reusable_plan s) (rf_classified s);
          frozen = ClassificationPlan_build_with_remaining (en_uni en) unstarted profile
            (saturating_sub (ns_max_total_pdf_classification_pages profile) held)
            (saturating_sub (ns_max_candidate_files profile) used_candidates) True;
          reusable_decisions = ContentAdmissionPlan_build_with_remaining reusable profile (rf_model s)
            (rf_classifications s) (reserved_total (rf_admission s))
            (saturating_sub (ns_max_pdf_text_extractions profile) used_extractions);
          reusable_ids = ad_file_identity ` set (filter (\<lambda>d. is_admit (ad_action d)) reusable_decisions)
      in \<lparr>rp_frozen = frozen, rp_reusable = filter (\<lambda>plan. cl_file_identity plan \<in> reusable_ids) reusable,
          rp_has_pending = (unstarted \<noteq> [] \<or> reusable \<noteq> []), rp_used_extractions = used_extractions\<rparr>)"

definition planned_count :: "round_plan \<Rightarrow> nat" where
  "planned_count r = length (filter (\<lambda>plan. is_admit (cl_action plan)) (rp_frozen r)) + length (rp_reusable r)"

definition conclusive_count :: "(rstring \<rightharpoonup> pdf_classification_result) \<Rightarrow> nat" where
  "conclusive_count classifications = card {i. \<exists>c. classifications i = Some c \<and> cr_status c \<noteq> NotClassifiedByBudget}"

definition merge_classifications :: "run_state \<Rightarrow> class_phase \<Rightarrow> run_state" where
  "merge_classifications s ph =
     s\<lparr>rf_classifications := rf_classifications s ++ cp_results ph, rf_audits := rf_audits s ++ cp_audits ph,
       rf_runtime := rf_runtime s \<union> cp_stopped ph, rf_fresh_hits := rf_fresh_hits s @ cp_fresh_hits ph,
       rf_outputs := (rf_outputs s)\<lparr>po_classification_cache_receipts := po_classification_cache_receipts (rf_outputs s) @ cp_receipts ph,
         po_cache_write_warnings := po_cache_write_warnings (rf_outputs s) @ cp_write_warnings ph\<rparr>,
       rf_metrics := cp_metrics ph\<rparr>"

definition budget_model_of ::
  "run_env \<Rightarrow> classified_plan list \<Rightarrow> (rstring \<rightharpoonup> pdf_classification_result) \<Rightarrow> rstring set \<Rightarrow>
     (context_budget_model, diagnostic) result" where
  "budget_model_of env plans classifications runtime =
     (let profile = rv_profile env;
          fixed = fixed_context_sections (ns_context profile) (ns_report_mode profile) (length (rv_discovery env))
            @ List.map_filter (\<lambda>plan. classifier_error_line plan classifications runtime) plans
      in map_err (\<lambda>e. scheduler_failure ContextFixedSectionsOverBudget (budget_error_display e) False StageContext)
           (ContextBudgetModel_new (ns_context profile) fixed))"

abbreviation decision_key :: "(rstring \<Rightarrow> rstring) \<Rightarrow> admission_decision \<Rightarrow> nominal_key" where
  "decision_key uni \<equiv> nominal_key_of uni ad_relative_path ad_extension ad_file_identity"

text \<open>The new plans and decisions replace the old ones of their files. The decisions of files that had
  none come out of a hash map in some order; sorting by the nominal key, which ends in the
  identity, makes the result independent of it.\<close>

definition adopt_plans ::
  "'w engine \<Rightarrow> classified_plan list \<Rightarrow> admission_decision list \<Rightarrow> run_state \<Rightarrow> run_state" where
  "adopt_plans en frozen next_admission s =
     (let classified = fst (replace_by cl_file_identity (rf_classified s) (by_identity cl_file_identity frozen));
          (kept, rest) = replace_by ad_file_identity (rf_admission s) (by_identity ad_file_identity next_admission)
      in s\<lparr>rf_classified := classified,
           rf_admission := sort_key (decision_key (en_uni en))
             (kept @ filter (\<lambda>d. rest (ad_file_identity d) = Some d) next_admission)\<rparr>)"

record refill_state =
  rl_run :: run_state
  rl_ledger :: refill_audit

definition round_order :: "'w engine \<Rightarrow> round_plan \<Rightarrow> classified_plan list" where
  "round_order en r = sort_key (plan_key (en_uni en)) (rp_frozen r @ rp_reusable r)"

definition next_admission_of ::
  "'w engine \<Rightarrow> run_env \<Rightarrow> round_plan \<Rightarrow> context_budget_model \<Rightarrow> run_state \<Rightarrow> admission_decision list" where
  "next_admission_of en env r model s =
     ContentAdmissionPlan_build_with_remaining (round_order en r) (rv_profile env) model (rf_classifications s)
       (reserved_total (rf_admission s))
       (saturating_sub (ns_max_pdf_text_extractions (rv_profile env)) (rp_used_extractions r))"

definition execute_round ::
  "'w engine \<Rightarrow> run_env \<Rightarrow> round_plan \<Rightarrow> 'w \<times> run_state \<Rightarrow> ('w \<times> run_state, diagnostic) result option" where
  "execute_round en env r ws =
     (let (w, s) = ws in
      and_run (run_classifications (en_classify_pool en) (en_concurrency en) (en_hash_of en) (en_ports en) (class_env_of env)
          (filter (\<lambda>plan. is_classify (cl_pdf_classification plan)) (rp_frozen r)) (rf_metrics s) w) (\<lambda>(w, ph).
      let s = merge_classifications s ph;
          frozen_ids = cl_file_identity ` set (rp_frozen r)
      in and_run (Some (budget_model_of env (filter (\<lambda>plan. cl_file_identity plan \<notin> frozen_ids) (rf_classified s) @ rp_frozen r)
            (rf_classifications s) (rf_runtime s))) (\<lambda>model.
      let s = s\<lparr>rf_model := model\<rparr>;
          next_admission = next_admission_of en env r model s
      in and_run (run_parses (en_parse_pool en) (en_concurrency en) (en_sha en) (en_ports en)
            (parse_env_of env (rf_classifications s) (rf_runtime s)) next_admission (rf_metrics s) w) (\<lambda>(w, out, metrics).
      Some (Ok (w, adopt_plans en (round_order en r) next_admission
        (s\<lparr>rf_outputs := merge_parses (rf_outputs s) out, rf_metrics := metrics\<rparr>)))))))"

definition add_refund :: "u64 \<Rightarrow> refill_state \<Rightarrow> refill_state" where
  "add_refund refund l = l\<lparr>rl_ledger := (rl_ledger l)\<lparr>ra_refunded_chars := ra_refunded_chars (rl_ledger l) + refund\<rparr>\<rparr>"

definition stop_refill :: "rstring \<Rightarrow> refill_state \<Rightarrow> refill_state" where
  "stop_refill reason l = l\<lparr>rl_ledger := (rl_ledger l)\<lparr>ra_stop_reason := reason\<rparr>\<rparr>"

definition reclaim :: "'w engine \<Rightarrow> run_env \<Rightarrow> refill_state \<Rightarrow> (refill_state, diagnostic) result" where
  "reclaim en env l = and_then (reclaim_chars en env (rl_run l)) (\<lambda>(s, refund). Ok (add_refund refund (l\<lparr>rl_run := s\<rparr>)))"

abbreviation consumed_of :: "run_state \<Rightarrow> (u64 \<times> u64 \<times> u64 \<times> u64, diagnostic) result" where
  "consumed_of s \<equiv> consumed (rf_classified s) (rf_admission s) (rf_classifications s) (rf_audits s) (rf_outputs s)"

definition round_audit :: "'w engine \<Rightarrow> u64 \<Rightarrow> round_plan \<Rightarrow> rstring \<Rightarrow> u64 \<times> u64 \<times> u64 \<times> u64 \<Rightarrow> refill_state \<Rightarrow> refill_round_audit" where
  "round_audit en round r encoded used l =
     (let (candidates, pages, extractions, page_refund) = used; s = rl_run l in
      \<lparr>rr_round = round, rr_planned_source_count = planned_count r, rr_plan_sha256 = en_sha en encoded,
       rr_candidate_slots_used = candidates, rr_classification_pages_held = pages, rr_extraction_slots_used = extractions,
       rr_reserved_chars = bm_base_chars (rf_model s) + reserved_total (rf_admission s),
       rr_refunded_chars = ra_refunded_chars (rl_ledger l), rr_refunded_classification_pages = page_refund\<rparr>)"

text \<open>One round; the flag says whether the loop goes on.\<close>

definition refill_round ::
  "'w engine \<Rightarrow> run_env \<Rightarrow> u64 \<Rightarrow> 'w \<times> refill_state \<Rightarrow> ('w \<times> refill_state \<times> bool, diagnostic) result option" where
  "refill_round en env round wl =
     (let (w, l) = wl; (now, w) = pt_now (en_ports en) w in
      if rv_work_deadline env \<le> now \<or> 0 < em_stage_deadline_exhausted_count (rf_metrics (rl_run l))
      then Some (Ok (w, stop_refill (lit ''deadline'') l, False))
      else
        and_run (Some (reclaim en env l)) (\<lambda>l.
        and_run (Some (consumed_of (rl_run l))) (\<lambda>used.
        let r = freeze_round en env (rl_run l) used in
        if planned_count r = 0
        then Some (Ok (w, stop_refill (if rp_has_pending r then lit ''quota_exhausted'' else lit ''complete'') l, False))
        else
          and_run (Some (ok_or (scheduler_internal (lit ''refill plan encoding failed''))
              (en_encode_plan en (map (\<lambda>plan. (cl_file_identity plan, cl_action plan, cl_pdf_classification plan))
                (rp_frozen r @ rp_reusable r))))) (\<lambda>encoded.
          let before_results = card (dom (po_results (rf_outputs (rl_run l))));
              before_classifications = conclusive_count (rf_classifications (rl_run l))
          in and_run (execute_round en env r (w, rl_run l)) (\<lambda>(w, s).
          and_run (Some (reclaim en env (l\<lparr>rl_run := s\<rparr>))) (\<lambda>l.
          and_run (Some (consumed_of (rl_run l))) (\<lambda>used.
          let l = l\<lparr>rl_ledger := (rl_ledger l)\<lparr>ra_rounds := ra_rounds (rl_ledger l) @ [round_audit en round r encoded used l]\<rparr>\<rparr>
          in if card (dom (po_results (rf_outputs (rl_run l)))) = before_results
               \<and> conclusive_count (rf_classifications (rl_run l)) = before_classifications
             then Some (Ok (w, stop_refill (lit ''no_progress'') l, False))
             else Some (Ok (w, l, True)))))))))"

fun refill_rounds ::
  "'w engine \<Rightarrow> run_env \<Rightarrow> u64 list \<Rightarrow> 'w \<times> refill_state \<Rightarrow> ('w \<times> refill_state, diagnostic) result option" where
  "refill_rounds en env [] wl = Some (Ok wl)"
| "refill_rounds en env (round # rounds) wl =
     and_run (refill_round en env round wl) (\<lambda>(w, l, again).
       if again then refill_rounds en env rounds (w, l) else Some (Ok (w, l)))"

section \<open>All rounds\<close>

definition new_ledger :: "normalized_settings \<Rightarrow> refill_audit" where
  "new_ledger profile = \<lparr>ra_policy_version = lit ''budget_refill_v3'', ra_stop_reason = lit ''round_limit'', ra_max_rounds = 2,
     ra_candidate_cap = ns_max_candidate_files profile,
     ra_classification_page_cap = ns_max_total_pdf_classification_pages profile,
     ra_extraction_cap = ns_max_pdf_text_extractions profile,
     ra_context_char_cap = cp_global_max_chars (ns_context profile), ra_candidate_slots_used = 0,
     ra_classification_pages_held = 0, ra_extraction_slots_used = 0, ra_refunded_chars = 0,
     ra_refunded_classification_pages = 0, ra_rounds = []\<rparr>"

definition close_ledger :: "u64 \<times> u64 \<times> u64 \<times> u64 \<Rightarrow> refill_audit \<Rightarrow> refill_audit" where
  "close_ledger used ledger = (let (candidates, pages, extractions, page_refund) = used in
     ledger\<lparr>ra_candidate_slots_used := candidates, ra_classification_pages_held := pages,
       ra_extraction_slots_used := extractions, ra_refunded_classification_pages := page_refund\<rparr>)"

definition plan_metrics :: "classified_plan list \<Rightarrow> execution_metrics \<Rightarrow> execution_metrics" where
  "plan_metrics classified m = m\<lparr>em_candidate_file_count := length (filter (\<lambda>plan. is_admit (cl_action plan)) classified),
     em_classification_slot_count := length (filter (\<lambda>plan. is_classify (cl_pdf_classification plan)) classified),
     em_nominal_charged_pages_total := sum_list (map (\<lambda>plan. charged_pages (cl_pdf_classification plan)) classified)\<rparr>"

definition admission_metrics ::
  "admission_decision list \<Rightarrow> (rstring \<rightharpoonup> pdf_classification_result) \<Rightarrow> execution_metrics \<Rightarrow> execution_metrics" where
  "admission_metrics admission classifications m =
     m\<lparr>em_admitted_file_count := length (filter (\<lambda>d. is_admit (ad_action d)) admission),
       em_extraction_slot_count := length (filter (text_pdf classifications) admission)\<rparr>"

definition run_refills ::
  "'w engine \<Rightarrow> run_env \<Rightarrow> 'w \<times> run_state \<Rightarrow> ('w \<times> run_state, diagnostic) result option" where
  "run_refills en env ws =
     (let (w, s) = ws in
      and_run (refill_rounds en env [1, 2] (w, \<lparr>rl_run = s, rl_ledger = new_ledger (rv_profile env)\<rparr>)) (\<lambda>(w, l).
      and_run (Some (consumed_of (rl_run l))) (\<lambda>used.
      let ledger = close_ledger used (rl_ledger l); s = rl_run l in
      and_run (Some (map_err scheduler_internal (validate_refill_audit ledger))) (\<lambda>_.
      Some (Ok (w, s\<lparr>rf_metrics := admission_metrics (rf_admission s) (rf_classifications s)
          (plan_metrics (rf_classified s) ((rf_metrics s)\<lparr>em_refill_audit := Some ledger\<rparr>))\<rparr>))))))"

section \<open>Refunds\<close>

lemma and_run_Ok [simp]: "and_run r f = Some (Ok y) \<longleftrightarrow> (\<exists>x. r = Some (Ok x) \<and> f x = Some (Ok y))"
  by (cases "(r, f)" rule: and_run.cases) auto

lemma retained_le: "retained_chars cs runtime out rendered d \<le> ad_reserved_chars d"
  by (simp add: retained_chars_def split: option.splits)

lemma fold_refund:
  assumes "a + sum_list (map f ds) \<le> u64_max"
  shows "fold (\<lambda>d refund. saturating_add refund (f d)) ds a = a + sum_list (map f ds)"
  using assms by (induction ds arbitrary: a) (simp_all add: saturating_add_def min_def)

lemma reclaim_chars_Ok:
  assumes "reclaim_chars en env s = Ok (s', refund)"
  obtains evidence rendered where "build_evidence (en_rel en) (rv_discovery env) (rf_classified s) (rf_admission s)
      (rf_classifications s) (rf_runtime s) (rf_outputs s) = Ok evidence"
    "build_context (en_uni en) (en_enc en) evidence (ns_context (rv_profile env)) (ns_report_mode (rv_profile env)) = Ok rendered"
    "enforce_rendered_within_reserved rendered (rf_admission s) (rf_model s) = Ok ()"
    "s' = s\<lparr>rf_admission := map (\<lambda>d. d\<lparr>ad_reserved_chars :=
        retained_chars (rf_classifications s) (rf_runtime s) (rf_outputs s) (co_rendered_by_identity rendered) d\<rparr>) (rf_admission s)\<rparr>"
    "refund = fold (\<lambda>d refund. saturating_add refund (ad_reserved_chars d -
        retained_chars (rf_classifications s) (rf_runtime s) (rf_outputs s) (co_rendered_by_identity rendered) d)) (rf_admission s) 0"
  using assms by (auto simp: reclaim_chars_def Let_def)

lemma enforced_rendered:
  assumes "enforce_rendered_within_reserved rendered ds m = Ok ()" and "d \<in> set ds" and "is_admit (ad_action d)"
    and "co_rendered_by_identity rendered (ad_file_identity d) = Some chars"
  shows "chars \<le> ad_reserved_chars d"
  using assms
  by (induction rendered ds m rule: enforce_rendered_within_reserved.induct)
    (auto simp: check_rendered_within_reserved_def split: if_splits option.splits)

lemma page_ledger_Ok:
  assumes "page_ledger audits plans (a, b) = Ok (held, refunded)"
    and "a + b + sum_list (map (\<lambda>plan. charged_pages (cl_pdf_classification plan)) plans) \<le> u64_max"
  shows "held + refunded = a + b + sum_list (map (\<lambda>plan. charged_pages (cl_pdf_classification plan)) plans) \<and> a \<le> held \<and> b \<le> refunded"
  using assms
proof (induction plans arbitrary: a b)
  case (Cons plan plans)
  show ?case
  proof (cases "cl_pdf_classification plan")
    case (Classify charged)
    let ?h = "held_pages audits (cl_file_identity plan) charged"
    from Cons.prems(1) Classify have le: "?h \<le> charged"
      and rest: "page_ledger audits plans (saturating_add a ?h, saturating_add b (charged - ?h)) = Ok (held, refunded)"
      by (auto simp: Let_def split: if_splits)
    have sums: "a + b + charged \<le> u64_max" using Cons.prems(2) Classify by simp
    then have "saturating_add a ?h = a + ?h" "saturating_add b (charged - ?h) = b + (charged - ?h)"
      using le by (simp_all add: saturating_add_eq)
    with Cons.IH [OF rest] Cons.prems(2) Classify le show ?thesis by simp linarith
  qed (use Cons in auto)
qed simp

text \<open>C32. Giving quota back creates none. Reclaiming characters moves them from reservations to the
  refund without losing or inventing any, takes nothing from a file that has not completed or that the
  deadline stopped, and leaves
  a completed file at least the characters of its rendered section. Of the pages charged by the
  plan, what is held and what is refunded are together exactly the charge.\<close>

theorem refunds_conserve_quota:
  assumes ok: "reclaim_chars en env s = Ok (s', refund)" and small: "reserved_total (rf_admission s) \<le> u64_max"
    and pages: "page_ledger audits plans (0, 0) = Ok (held, refunded)"
    and pages_small: "sum_list (map (\<lambda>plan. charged_pages (cl_pdf_classification plan)) plans) \<le> u64_max"
  shows "reserved_total (rf_admission s') + refund = reserved_total (rf_admission s)
    \<and> map ad_file_identity (rf_admission s') = map ad_file_identity (rf_admission s)
    \<and> list_all2 (\<lambda>d d'. ad_action d' = ad_action d \<and> ad_reserved_chars d' \<le> ad_reserved_chars d
        \<and> (\<not> completed (rf_classifications s) (rf_outputs s) (ad_file_identity d) \<or> ad_file_identity d \<in> rf_runtime s
            \<or> ad_file_identity d \<in> po_runtime_not_parsed (rf_outputs s) \<longrightarrow> ad_reserved_chars d' = ad_reserved_chars d))
        (rf_admission s) (rf_admission s')
    \<and> (\<exists>evidence out. build_evidence (en_rel en) (rv_discovery env) (rf_classified s) (rf_admission s)
           (rf_classifications s) (rf_runtime s) (rf_outputs s) = Ok evidence
         \<and> build_context (en_uni en) (en_enc en) evidence (ns_context (rv_profile env)) (ns_report_mode (rv_profile env)) = Ok out
         \<and> (\<forall>d' \<in> set (rf_admission s'). is_admit (ad_action d') \<longrightarrow>
              (\<forall>chars. co_rendered_by_identity out (ad_file_identity d') = Some chars \<longrightarrow> chars \<le> ad_reserved_chars d')))
    \<and> held + refunded = sum_list (map (\<lambda>plan. charged_pages (cl_pdf_classification plan)) plans)"
proof -
  from ok obtain evidence out where ev: "build_evidence (en_rel en) (rv_discovery env) (rf_classified s) (rf_admission s)
      (rf_classifications s) (rf_runtime s) (rf_outputs s) = Ok evidence"
    and out: "build_context (en_uni en) (en_enc en) evidence (ns_context (rv_profile env)) (ns_report_mode (rv_profile env)) = Ok out"
    and enf: "enforce_rendered_within_reserved out (rf_admission s) (rf_model s) = Ok ()"
    and s': "s' = s\<lparr>rf_admission := map (\<lambda>d. d\<lparr>ad_reserved_chars :=
        retained_chars (rf_classifications s) (rf_runtime s) (rf_outputs s) (co_rendered_by_identity out) d\<rparr>) (rf_admission s)\<rparr>"
    and refund: "refund = fold (\<lambda>d refund. saturating_add refund (ad_reserved_chars d -
        retained_chars (rf_classifications s) (rf_runtime s) (rf_outputs s) (co_rendered_by_identity out) d)) (rf_admission s) 0"
    by (rule reclaim_chars_Ok)
  define kept where "kept = retained_chars (rf_classifications s) (rf_runtime s) (rf_outputs s) (co_rendered_by_identity out)"
  have le: "kept d \<le> ad_reserved_chars d" for d by (simp add: kept_def retained_le)
  have split: "sum_list (map kept ds) + sum_list (map (\<lambda>d. ad_reserved_chars d - kept d) ds) = sum_list (map ad_reserved_chars ds)" for ds
    proof (induction ds)
    case (Cons d ds)
    with le [of d] show ?case by simp
  qed simp
  have "sum_list (map (\<lambda>d. ad_reserved_chars d - kept d) (rf_admission s)) \<le> u64_max"
    using split [of "rf_admission s"] small unfolding reserved_total_def by linarith
  then have "refund = sum_list (map (\<lambda>d. ad_reserved_chars d - kept d) (rf_admission s))"
    unfolding refund kept_def [symmetric] by (subst fold_refund) simp_all
  moreover have total: "reserved_total (rf_admission s') = sum_list (map kept (rf_admission s))"
    by (simp add: s' reserved_total_def kept_def comp_def)
  moreover have "list_all2 (\<lambda>d d'. ad_action d' = ad_action d \<and> ad_reserved_chars d' \<le> ad_reserved_chars d
        \<and> (\<not> completed (rf_classifications s) (rf_outputs s) (ad_file_identity d) \<or> ad_file_identity d \<in> rf_runtime s
            \<or> ad_file_identity d \<in> po_runtime_not_parsed (rf_outputs s) \<longrightarrow> ad_reserved_chars d' = ad_reserved_chars d))
        (rf_admission s) (rf_admission s')"
    using le by (simp add: s' list_all2_conv_all_nth kept_def [symmetric]) (simp add: kept_def retained_chars_def)
  moreover have "chars \<le> ad_reserved_chars d'" if d': "d' \<in> set (rf_admission s')" "is_admit (ad_action d')"
    "co_rendered_by_identity out (ad_file_identity d') = Some chars" for d' chars
  proof -
    from d'(1) obtain d where d: "d \<in> set (rf_admission s)" "d' = d\<lparr>ad_reserved_chars := kept d\<rparr>"
      by (auto simp: s' kept_def)
    have "chars \<le> ad_reserved_chars d" using enforced_rendered [OF enf d(1)] d'(2,3) d(2) by simp
    moreover have "ad_reserved_chars d \<le> u64_max"
      using member_le_sum_list [of "ad_reserved_chars d" "map ad_reserved_chars (rf_admission s)"] d(1) small
      by (simp add: reserved_total_def)
    ultimately show ?thesis using d'(3) d(2)
      by (simp add: kept_def retained_chars_def saturating_add_def split: option.splits)
  qed
  moreover have "map ad_file_identity (rf_admission s') = map ad_file_identity (rf_admission s)" by (simp add: s' comp_def)
  ultimately show ?thesis
    using split [of "rf_admission s"] page_ledger_Ok [OF pages] pages_small ev out by (auto simp: reserved_total_def)
qed

section \<open>A round takes up only files without an outcome\<close>

lemma snapshot_of_key: "snapshot_of discovery i = Some f \<Longrightarrow> df_file_identity f = i"
  unfolding snapshot_of_def by (auto dest!: map_of_SomeD)

lemma snapshot_well_keyed: "well_keyed (snapshot_of discovery)"
  by (simp add: well_keyed_def snapshot_of_key)

lemma by_identity_key: "by_identity key xs i = Some x \<Longrightarrow> key x = i"
  unfolding by_identity_def by (auto dest!: map_of_SomeD)

lemma replace_by_keys:
  assumes "\<And>i x. m i = Some x \<Longrightarrow> key x = i"
  shows "map key (fst (replace_by key xs m)) = map key xs"
  using assms
proof (induction xs arbitrary: m)
  case (Cons x xs)
  have "map key (fst (replace_by key xs m')) = map key xs" if "m' \<subseteq>\<^sub>m m" for m'
    by (rule Cons.IH) (use that Cons.prems in \<open>auto simp: map_le_def dom_def\<close>)
  from this [of m] this [of "m(key x := None)"] Cons.prems [of "key x"]
  show ?case by (auto simp: case_prod_beta Let_def map_le_def split: option.splits)
qed simp

lemma plan_candidate_identity [simp]: "pc_file_identity (plan_candidate_of f) = df_file_identity f"
  by (simp add: plan_candidate_of_def Let_def)

lemma stage_b_identities [simp]:
  "map ad_file_identity (ContentAdmissionPlan_build_with_remaining plans profile m cs retained extractions) = map cl_file_identity plans"
  unfolding ContentAdmissionPlan_build_with_remaining_def by (rule run_pass_map) simp

lemma plans_disjoint: "\<not> (unstarted_plan s plan \<and> reusable_plan s plan)"
  by (auto simp: unstarted_plan_def reusable_plan_def)

lemma freeze_round_identities:
  assumes "distinct (map cl_file_identity (rf_classified s))"
    and r_def: "r = freeze_round en env s used"
  shows "distinct (map cl_file_identity (rp_frozen r @ rp_reusable r))"
    and "cl_file_identity ` set (rp_frozen r) \<subseteq> cl_file_identity ` {plan \<in> set (rf_classified s). unstarted_plan s plan}"
    and "cl_file_identity ` set (rp_reusable r) \<subseteq> cl_file_identity ` {plan \<in> set (rf_classified s). reusable_plan s plan}"
proof -
  obtain c h e q where used: "used = (c, h, e, q)" by (metis prod_cases4)
  define pick where "pick = (\<lambda>plan. if unstarted_plan s plan
    then map_option plan_candidate_of (snapshot_of (rv_discovery env) (cl_file_identity plan)) else None)"
  define chosen where "chosen = filter (\<lambda>plan. pick plan \<noteq> None) (rf_classified s)"
  have picked: "pc_file_identity (the (pick plan)) = cl_file_identity plan" if "pick plan \<noteq> None" for plan
    using that by (auto simp: pick_def snapshot_of_key split: if_splits)
  have ids: "map pc_file_identity (List.map_filter pick (rf_classified s)) = map cl_file_identity chosen"
    by (simp add: List.map_filter_def chosen_def picked)
  have plan: "rp_frozen r = ClassificationPlan_build_with_remaining (en_uni en) (List.map_filter pick (rf_classified s)) (rv_profile env)
      (saturating_sub (ns_max_total_pdf_classification_pages (rv_profile env)) h)
      (saturating_sub (ns_max_candidate_files (rv_profile env)) c) True"
    by (simp add: r_def freeze_round_def used pick_def Let_def)
  have frozen: "mset (map cl_file_identity (rp_frozen r)) = mset (map cl_file_identity chosen)"
    unfolding plan mset_identities_build ids ..
  then have frozen_ids: "cl_file_identity ` set (rp_frozen r) = cl_file_identity ` set chosen"
    by (metis mset_eq_setD list.set_map)
  have chosen: "set chosen \<subseteq> {plan \<in> set (rf_classified s). unstarted_plan s plan}"
    by (auto simp: chosen_def pick_def split: if_splits)
  show sub: "cl_file_identity ` set (rp_frozen r) \<subseteq> cl_file_identity ` {plan \<in> set (rf_classified s). unstarted_plan s plan}"
    unfolding frozen_ids using chosen by (rule image_mono)
  obtain P where reusable: "rp_reusable r = filter P (filter (reusable_plan s) (rf_classified s))"
    by (auto simp: r_def freeze_round_def used Let_def)
  show "cl_file_identity ` set (rp_reusable r) \<subseteq> cl_file_identity ` {plan \<in> set (rf_classified s). reusable_plan s plan}"
    by (auto simp: reusable)
  have inj: "inj_on cl_file_identity (set (rf_classified s))" using assms(1) by (simp add: distinct_map)
  have "cl_file_identity ` set chosen \<inter> cl_file_identity ` set (rp_reusable r) = {}"
    using inj_on_image_Int [OF inj, of "set chosen" "set (rp_reusable r)"] chosen plans_disjoint
    by (auto simp: reusable)
  moreover have "distinct (map cl_file_identity chosen)" "distinct (map cl_file_identity (rp_reusable r))"
    unfolding chosen_def reusable using assms(1) by (simp_all add: distinct_map_filter)
  then have "distinct (map cl_file_identity (rp_frozen r))" using frozen by (metis mset_eq_imp_distinct_iff)
  ultimately show "distinct (map cl_file_identity (rp_frozen r @ rp_reusable r))"
    using \<open>distinct (map cl_file_identity (rp_reusable r))\<close> frozen_ids by simp
qed

section \<open>Outcomes are kept\<close>

definition conclusive :: "run_state \<Rightarrow> rstring \<Rightarrow> pdf_classification_result \<Rightarrow> bool" where
  "conclusive s i c \<longleftrightarrow> rf_classifications s i = Some c \<and> cr_status c \<noteq> NotClassifiedByBudget"

text \<open>A later state of a run knows at least what the earlier one knew.\<close>

definition extends :: "run_state \<Rightarrow> run_state \<Rightarrow> bool" where
  "extends s s' \<longleftrightarrow> po_results (rf_outputs s) \<subseteq>\<^sub>m po_results (rf_outputs s')
     \<and> (\<forall>i c. conclusive s i c \<longrightarrow> conclusive s' i c)
     \<and> po_runtime_not_parsed (rf_outputs s) \<subseteq> po_runtime_not_parsed (rf_outputs s') \<and> rf_runtime s \<subseteq> rf_runtime s'
     \<and> map cl_file_identity (rf_classified s') = map cl_file_identity (rf_classified s)"

lemma extends_refl [simp]: "extends s s"
  by (simp add: extends_def)

lemma extends_trans [trans]: "extends s t \<Longrightarrow> extends t u \<Longrightarrow> extends s u"
  unfolding extends_def by (simp add: map_le_trans) (metis map_le_trans order_trans)

text \<open>The pools the engine runs on keep the order and have room for a file.\<close>

definition sound_engine :: "'w engine \<Rightarrow> bool" where
  "sound_engine en \<longleftrightarrow> 0 < en_concurrency en \<and> ordered_executor (en_classify_pool en) \<and> ordered_executor (en_parse_pool en)"

lemma execute_round_Ok:
  assumes "execute_round en env r (w, s) = Some (Ok (w', s'))"
  obtains w1 ph model w2 out m where
    "run_classifications (en_classify_pool en) (en_concurrency en) (en_hash_of en) (en_ports en) (class_env_of env)
      (filter (\<lambda>plan. is_classify (cl_pdf_classification plan)) (rp_frozen r)) (rf_metrics s) w = Some (Ok (w1, ph))"
    "run_parses (en_parse_pool en) (en_concurrency en) (en_sha en) (en_ports en)
      (parse_env_of env (rf_classifications (merge_classifications s ph)) (rf_runtime (merge_classifications s ph)))
      (next_admission_of en env r model (merge_classifications s ph))
      (rf_metrics (merge_classifications s ph)) w1 = Some (Ok (w2, out, m))"
    "s' = adopt_plans en (round_order en r) (next_admission_of en env r model (merge_classifications s ph))
      ((merge_classifications s ph)\<lparr>rf_model := model, rf_outputs := merge_parses (rf_outputs (merge_classifications s ph)) out,
        rf_metrics := m\<rparr>)"
  using assms by (auto simp: execute_round_def Let_def case_prod_beta next_admission_of_def)

lemma execute_round_extends:
  assumes ok: "execute_round en env r (w, s) = Some (Ok (w', s'))" and r: "r = freeze_round en env s used"
    and en: "sound_engine en" and dist: "distinct (map cl_file_identity (rf_classified s))"
  shows "extends s s'"
proof -
  note ids = freeze_round_identities [OF dist r]
  from ok obtain w1 ph model w2 out m where
    cls: "run_classifications (en_classify_pool en) (en_concurrency en) (en_hash_of en) (en_ports en) (class_env_of env)
      (filter (\<lambda>plan. is_classify (cl_pdf_classification plan)) (rp_frozen r)) (rf_metrics s) w = Some (Ok (w1, ph))"
    and parse: "run_parses (en_parse_pool en) (en_concurrency en) (en_sha en) (en_ports en)
      (parse_env_of env (rf_classifications (merge_classifications s ph)) (rf_runtime (merge_classifications s ph)))
      (next_admission_of en env r model (merge_classifications s ph))
      (rf_metrics (merge_classifications s ph)) w1 = Some (Ok (w2, out, m))"
    and final: "s' = adopt_plans en (round_order en r) (next_admission_of en env r model (merge_classifications s ph))
      ((merge_classifications s ph)\<lparr>rf_model := model, rf_outputs := merge_parses (rf_outputs (merge_classifications s ph)) out,
        rf_metrics := m\<rparr>)"
    by (rule execute_round_Ok)
  have keys: "map cl_file_identity (fst (replace_by cl_file_identity (rf_classified s)
      (by_identity cl_file_identity (round_order en r)))) = map cl_file_identity (rf_classified s)"
    by (rule replace_by_keys) (rule by_identity_key)
  have s': "rf_outputs s' = merge_parses (rf_outputs (merge_classifications s ph)) out"
      "rf_classifications s' = rf_classifications s ++ cp_results ph" "rf_runtime s' = rf_runtime s \<union> cp_stopped ph"
      "map cl_file_identity (rf_classified s') = map cl_file_identity (rf_classified s)"
    using keys
    by (simp_all add: final adopt_plans_def merge_classifications_def case_prod_beta Let_def)
  have frozen: "i \<notin> dom (po_results (rf_outputs s)) \<and> \<not> conclusive s i c"
    if "i \<in> cl_file_identity ` set (rp_frozen r)" for i c
    using that ids(2) by (auto simp: unstarted_plan_def pending_def settled_file_def conclusive_def)
  have reusable: "i \<notin> dom (po_results (rf_outputs s))" if "i \<in> cl_file_identity ` set (rp_reusable r)" for i
    using that ids(3) by (auto simp: reusable_plan_def pending_def settled_file_def)
  have exec: "ordered_executor (en_classify_pool en)" "ordered_executor (en_parse_pool en)" "0 < en_concurrency en"
    using en by (simp_all add: sound_engine_def)
  have dist_frozen: "distinct (map cl_file_identity (filter (\<lambda>plan. is_classify (cl_pdf_classification plan)) (rp_frozen r)))"
    using ids(1) by (simp add: distinct_map_filter)
  have "class_run (en_classify_pool en) (class_env_of env)"
    by (intro class_run.intro class_run_axioms.intro exec(1)) (simp add: class_env_of_def snapshot_of_key)
  from class_run.run_classifications_Ok [OF this cls exec(3) dist_frozen]
  have class_ids: "dom (cp_results ph) \<subseteq> cl_file_identity ` set (rp_frozen r)" by auto
  have "parse_run (en_parse_pool en) (parse_env_of env cs rt)" for cs rt
    by (intro parse_run.intro parse_run_axioms.intro exec(2)) (simp add: parse_env_of_def snapshot_well_keyed)
  moreover have order: "map ad_file_identity (next_admission_of en env r model t) = map cl_file_identity (round_order en r)" for t
    by (simp add: next_admission_of_def)
  moreover have "mset (map cl_file_identity (round_order en r)) = mset (map cl_file_identity (rp_frozen r @ rp_reusable r))"
    by (simp add: round_order_def)
  then have "distinct (map cl_file_identity (round_order en r))" using ids(1) by (metis mset_eq_imp_distinct_iff)
  ultimately have "dom (po_results out) \<subseteq> due_ids (parse_env_of env (rf_classifications (merge_classifications s ph))
      (rf_runtime (merge_classifications s ph))) (next_admission_of en env r model (merge_classifications s ph))"
    using parse_run.run_parses_Ok [OF _ parse exec(3)] by auto
  also have "\<dots> \<subseteq> set (map ad_file_identity (next_admission_of en env r model (merge_classifications s ph)))"
    by (auto simp: due_ids_def)
  also have "\<dots> = cl_file_identity ` set (rp_frozen r) \<union> cl_file_identity ` set (rp_reusable r)"
    unfolding order by (simp add: round_order_def image_Un)
  finally have parse_ids: "dom (po_results out) \<subseteq> cl_file_identity ` set (rp_frozen r) \<union> cl_file_identity ` set (rp_reusable r)" .
  have "dom (po_results (rf_outputs s)) \<inter> dom (po_results out) = {}" using parse_ids frozen reusable by blast
  then have "po_results (rf_outputs s) \<subseteq>\<^sub>m po_results (rf_outputs s')"
    by (auto simp: s' merge_parses_def merge_classifications_def map_le_def map_add_def dom_def split: option.splits)
  moreover have "conclusive s' i c" if "conclusive s i c" for i c
  proof -
    have "i \<notin> dom (cp_results ph)" using class_ids frozen that by blast
    with that show ?thesis by (simp add: conclusive_def s' map_add_dom_app_simps)
  qed
  ultimately show ?thesis by (simp add: extends_def s' merge_parses_def merge_classifications_def)
qed

lemma reclaim_extends:
  assumes "reclaim en env l = Ok l'"
  shows "extends (rl_run l) (rl_run l')"
proof -
  from assms obtain s' refund where r: "reclaim_chars en env (rl_run l) = Ok (s', refund)" and l': "rl_run l' = s'"
    by (auto simp: reclaim_def add_refund_def)
  from r show ?thesis unfolding l' by (rule reclaim_chars_Ok) (simp add: extends_def conclusive_def)
qed

text \<open>A round stops before it starts, reclaims and stops, or is executed and reclaims again.\<close>

lemma refill_round_cases:
  assumes "refill_round en env k (w, l) = Some (Ok (w', l', again))"
  obtains "rl_run l' = rl_run l"
  | l1 where "reclaim en env l = Ok l1" "rl_run l' = rl_run l1"
  | l1 used w1 s2 l2 where "reclaim en env l = Ok l1"
      "execute_round en env (freeze_round en env (rl_run l1) used) (w1, rl_run l1) = Some (Ok (w', s2))"
      "reclaim en env (l1\<lparr>rl_run := s2\<rparr>) = Ok l2" "rl_run l' = rl_run l2"
proof -
  obtain now w1 where now: "pt_now (en_ports en) w = (now, w1)" by force
  show thesis
  proof (cases "rv_work_deadline env \<le> now \<or> 0 < em_stage_deadline_exhausted_count (rf_metrics (rl_run l))")
    case True
    with assms now that(1) show ?thesis by (auto simp: refill_round_def stop_refill_def)
  next
    case False
    with assms now obtain l1 used where rec: "reclaim en env l = Ok l1" and "consumed_of (rl_run l1) = Ok used"
      and rest: "rl_run l' = rl_run l1 \<or> (\<exists>s2 l2. execute_round en env (freeze_round en env (rl_run l1) used) (w1, rl_run l1) = Some (Ok (w', s2))
        \<and> reclaim en env (l1\<lparr>rl_run := s2\<rparr>) = Ok l2 \<and> rl_run l' = rl_run l2)"
      by (auto simp: refill_round_def Let_def stop_refill_def split: if_splits)
    from rest that(2,3) [OF rec] show ?thesis by blast
  qed
qed

lemma refill_round_extends:
  assumes ok: "refill_round en env k (w, l) = Some (Ok (w', l', again))" and en: "sound_engine en"
    and dist: "distinct (map cl_file_identity (rf_classified (rl_run l)))"
  shows "extends (rl_run l) (rl_run l')"
  using ok
proof (cases rule: refill_round_cases)
  case (2 l1)
  then show ?thesis using reclaim_extends by simp
next
  case (3 l1 used w1 s2 l2)
  note ext = reclaim_extends [OF 3(1)]
  then have dist1: "distinct (map cl_file_identity (rf_classified (rl_run l1)))" using dist by (simp add: extends_def)
  note ext
  also note execute_round_extends [OF 3(2) refl en dist1]
  also have "extends s2 (rl_run l')" using reclaim_extends [OF 3(3)] 3(4) by simp
  finally show ?thesis .
qed simp

lemma refill_rounds_extends:
  assumes "refill_rounds en env rounds (w, l) = Some (Ok (w', l'))" and en: "sound_engine en"
    and "distinct (map cl_file_identity (rf_classified (rl_run l)))"
  shows "extends (rl_run l) (rl_run l')"
  using assms(1,3)
proof (induction rounds arbitrary: w l)
  case (Cons k rounds)
  from Cons.prems(1) obtain w1 l1 again where step: "refill_round en env k (w, l) = Some (Ok (w1, l1, again))"
    and rest: "if again then refill_rounds en env rounds (w1, l1) = Some (Ok (w', l')) else w' = w1 \<and> l' = l1"
    by (auto split: if_splits)
  note one = refill_round_extends [OF step en Cons.prems(2)]
  show ?case
  proof (cases again)
    case True
    from one Cons.prems(2) have "distinct (map cl_file_identity (rf_classified (rl_run l1)))" by (simp add: extends_def)
    with Cons.IH rest True have "extends (rl_run l1) (rl_run l')" by simp
    with one show ?thesis by (rule extends_trans)
  qed (use one rest in simp)
qed simp

text \<open>C33. Refill rounds only add. Every parse result, every classification that was attempted and every
  stopped file survives unchanged, the plan still lists the same files in the same order, and the
  ledger that is published passes its contract: at most two rounds, and candidates, pages and
  extractions within the quotas of the original run.\<close>

theorem refills_keep_outcomes:
  assumes ok: "run_refills en env (w, s) = Some (Ok (w', s'))" and en: "sound_engine en"
    and dist: "distinct (map cl_file_identity (rf_classified s))"
  shows "po_results (rf_outputs s) \<subseteq>\<^sub>m po_results (rf_outputs s')
    \<and> (\<forall>i c. rf_classifications s i = Some c \<and> cr_status c \<noteq> NotClassifiedByBudget \<longrightarrow> rf_classifications s' i = Some c)
    \<and> po_runtime_not_parsed (rf_outputs s) \<subseteq> po_runtime_not_parsed (rf_outputs s') \<and> rf_runtime s \<subseteq> rf_runtime s'
    \<and> map cl_file_identity (rf_classified s') = map cl_file_identity (rf_classified s)
    \<and> (\<exists>a. em_refill_audit (rf_metrics s') = Some a \<and> validate_refill_audit a = Ok ()
         \<and> length (ra_rounds a) \<le> 2
         \<and> card (consumed_candidates (rf_classifications s') (rf_outputs s')) \<le> ra_candidate_cap a)"
proof -
  from ok obtain w1 l used where rounds: "refill_rounds en env [1, 2] (w, \<lparr>rl_run = s, rl_ledger = new_ledger (rv_profile env)\<rparr>) = Some (Ok (w1, l))"
    and used: "consumed_of (rl_run l) = Ok used" and valid: "validate_refill_audit (close_ledger used (rl_ledger l)) = Ok ()"
    and s': "s' = (rl_run l)\<lparr>rf_metrics := admission_metrics (rf_admission (rl_run l)) (rf_classifications (rl_run l))
      (plan_metrics (rf_classified (rl_run l)) ((rf_metrics (rl_run l))\<lparr>em_refill_audit := Some (close_ledger used (rl_ledger l))\<rparr>))\<rparr>"
    by (auto simp: run_refills_def Let_def)
  have "extends s (rl_run l)" using refill_rounds_extends [OF rounds en] dist by simp
  moreover have "em_refill_audit (rf_metrics s') = Some (close_ledger used (rl_ledger l))"
    by (simp add: s' admission_metrics_def plan_metrics_def)
  moreover have "ra_candidate_slots_used (close_ledger used (rl_ledger l)) = card (consumed_candidates (rf_classifications s') (rf_outputs s'))"
    using used by (auto simp: consumed_def close_ledger_def s' Let_def)
  moreover have "length (ra_rounds (close_ledger used (rl_ledger l))) \<le> 2"
    "ra_candidate_slots_used (close_ledger used (rl_ledger l)) \<le> ra_candidate_cap (close_ledger used (rl_ledger l))"
    using valid by (simp_all add: validate_refill_audit_def)
  ultimately show ?thesis using valid by (simp add: extends_def conclusive_def s')
qed

section \<open>A concrete run\<close>

definition fixture_engine :: "u64 engine" where
  "fixture_engine = \<lparr>en_uni = id, en_enc = (\<lambda>_. 0), en_sha = id, en_rel = fixture_rel, en_hash_of = fixture_hash_of,
     en_encode_plan = (\<lambda>_. Some []), en_ports = fixture_ports, en_concurrency = 2, en_classify_pool = run_pass,
     en_parse_pool = run_pass\<rparr>"

definition fixture_run_env :: run_env where
  "fixture_run_env = \<lparr>rv_discovery = [fixture_discovered], rv_profile = daily_settings, rv_existed_before = {},
     rv_classifier_hash = fixture_hex, rv_classifier_build = fixture_hex, rv_work_deadline = 100,
     rv_workers = pv_workers fixture_env, rv_engine_version = [], rv_engine_build = []\<rparr>"

text \<open>The note of the fixtures is parsed; another file found no room; the deadline was hit once.\<close>

definition fixture_state :: run_state where
  "fixture_state = \<lparr>rf_classified = [fixture_classified],
     rf_admission = [\<lparr>ad_file_identity = lit ''z'', ad_relative_path = lit ''z.txt'', ad_extension = lit ''.txt'',
       ad_priority = 0, ad_action = PlanNotParsed GlobalContextBudgetExceeded, ad_reserved_chars = 7\<rparr>],
     rf_classifications = Map.empty, rf_audits = Map.empty, rf_runtime = {}, rf_fresh_hits = [],
     rf_outputs = no_outputs\<lparr>po_results := [lit ''b'' \<mapsto> fixture_parsed]\<rparr>, rf_model = fixture_model,
     rf_metrics = default_metrics\<lparr>em_stage_deadline_exhausted_count := 1\<rparr>\<rparr>"

lemma fixture_sound: "sound_engine fixture_engine"
  by (simp add: sound_engine_def fixture_engine_def sequential.ordered_executor_axioms)

lemma fixture_reclaim: "\<exists>s' refund. reclaim_chars fixture_engine fixture_run_env fixture_state = Ok (s', refund)"
proof -
  obtain out where out: "build_context id (\<lambda>_. 0) [fixture_evidence] (ns_context daily_settings) Daily = Ok out"
    using fixture_run_builds by blast
  have ids: "cl_file_identity fixture_classified = lit ''b''" "cl_action fixture_classified = Admit LightText"
    by (simp_all add: fixture_classified_def)
  have "build_evidence fixture_rel [fixture_discovered] [fixture_classified] (rf_admission fixture_state) Map.empty {}
     (no_outputs\<lparr>po_results := [lit ''b'' \<mapsto> fixture_parsed]\<rparr>) = Ok [fixture_evidence]"
    using fixture_file_evidence ids
    by (simp add: build_evidence_def fixture_file_of action_of_def fixture_state_def unwrap_or_def)
  moreover have "enforce_rendered_within_reserved out (rf_admission fixture_state) m = Ok ()" for m
    by (simp add: fixture_state_def)
  moreover have "ns_report_mode daily_settings = Daily" by (simp add: daily_settings_def)
  ultimately show ?thesis using out
    by (simp add: reclaim_chars_def fixture_engine_def fixture_run_env_def Let_def) (simp add: fixture_state_def)
qed

theorem refunds_conserve_quota_witness:
  "\<exists>s' refund. reclaim_chars fixture_engine fixture_run_env fixture_state = Ok (s', refund)
    \<and> reserved_total (rf_admission s') + refund = 7
    \<and> page_ledger [lit ''p'' \<mapsto> fixture_audit] [fixture_pdf_plan\<lparr>cl_file_identity := lit ''p'', cl_pdf_classification := Classify 5\<rparr>] (0, 0) = Ok (1, 4)"
proof -
  obtain s' refund where r: "reclaim_chars fixture_engine fixture_run_env fixture_state = Ok (s', refund)"
    using fixture_reclaim by blast
  let ?plan = "fixture_pdf_plan\<lparr>cl_file_identity := lit ''p'', cl_pdf_classification := Classify 5\<rparr>"
  have total: "reserved_total (rf_admission fixture_state) = 7" by (simp add: reserved_total_def fixture_state_def)
  have held: "held_pages [lit ''p'' \<mapsto> fixture_audit] (lit ''p'') 5 = 1"
    by (simp add: held_pages_def fixture_audit_def unwrap_or_def)
  have pages: "page_ledger [lit ''p'' \<mapsto> fixture_audit] [?plan] (0, 0) = Ok (1, 4)"
    by (simp add: held saturating_add_def u64_max_def Let_def del: fun_upd_apply)
  from refunds_conserve_quota [OF r _ pages] total r pages show ?thesis by (auto simp: u64_max_def)
qed

theorem refills_keep_outcomes_witness:
  "\<exists>w' s'. run_refills fixture_engine fixture_run_env (0, fixture_state) = Some (Ok (w', s'))
    \<and> po_results (rf_outputs s') (lit ''b'') = Some fixture_parsed"
proof -
  have ids: "cl_pdf_classification fixture_classified = NotPdf" "cl_file_identity fixture_classified = lit ''b''"
    by (simp_all add: fixture_classified_def)
  have "consumed_candidates Map.empty (no_outputs\<lparr>po_results := [lit ''b'' \<mapsto> fixture_parsed]\<rparr>) = {lit ''b''}"
    by (simp add: consumed_candidates_def)
  then have used: "consumed_of fixture_state = Ok (1, 0, 0, 0)"
    by (simp add: consumed_def fixture_state_def ids text_pdf_def)
  have first: "refill_rounds fixture_engine fixture_run_env [1, 2] (0, \<lparr>rl_run = fixture_state, rl_ledger = new_ledger daily_settings\<rparr>) =
      Some (Ok (1, \<lparr>rl_run = fixture_state, rl_ledger = (new_ledger daily_settings)\<lparr>ra_stop_reason := lit ''deadline''\<rparr>\<rparr>))"
    by (simp add: refill_round_def fixture_engine_def fixture_ports_def fixture_state_def stop_refill_def)
  have profile: "rv_profile fixture_run_env = daily_settings" by (simp add: fixture_run_env_def)
  have caps: "1 \<le> ns_max_candidate_files daily_settings" by (simp add: daily_settings_def)
  have "validate_refill_audit (close_ledger (1, 0, 0, 0) ((new_ledger daily_settings)\<lparr>ra_stop_reason := lit ''deadline''\<rparr>)) = Ok ()"
    using caps by (simp add: validate_refill_audit_def close_ledger_def new_ledger_def require_const_def)
  then have "\<exists>w' s'. run_refills fixture_engine fixture_run_env (0, fixture_state) = Some (Ok (w', s'))"
    using first used
    by (simp add: run_refills_def profile Let_def del: refill_rounds.simps)
  then obtain w' s' where run: "run_refills fixture_engine fixture_run_env (0, fixture_state) = Some (Ok (w', s'))" by blast
  have "distinct (map cl_file_identity (rf_classified fixture_state))" by (simp add: fixture_state_def)
  from refills_keep_outcomes [OF run fixture_sound this]
  have "po_results (rf_outputs fixture_state) \<subseteq>\<^sub>m po_results (rf_outputs s')" by blast
  then show ?thesis using run by (auto simp: fixture_state_def map_le_def)
qed

end
