(* ===== verification/Scheduler_Run.thy ===== *)
theory Scheduler_Run
  imports Scheduler_Refill
begin

text \<open>
  \<open>BudgetedContextScheduler::execute\<close> of \<open>src/rust/scanner_core/src/scheduler.rs\<close> and the input it
  takes: the run from discovery to its outcome, composed of the phases of the other scheduler
  theories. Each reading of the clock, each call of the store and of the guard observer is an
  effect on the world, in the order the code has them.
\<close>

section \<open>Input\<close>

record scheduled_run_input =
  si_scan_run_id :: u64
  si_started_at_ms :: u64
  si_work_dir :: rstring
  si_discovery :: "discovered_file list"
  si_discovery_issues :: "discovery_issue list"
  si_profile :: normalized_settings
  si_workers :: worker_identities
  si_engine_version :: rstring
  si_engine_build :: rstring
  si_context_profile_hash :: rstring
  si_rejected_profile_hash :: rstring
  si_discovery_duration_ms :: u64
  si_deadline_origin_ms :: u64
  si_work_deadline_ms :: u64
  si_absolute_deadline_ms :: u64
  si_prepared_inventory :: "inventory_record list option"
  si_prepared_existed_before :: "rstring set option"
  si_prepared_duration_ms :: u64

text \<open>\<open>new_with_deadlines\<close> takes the fields of its result as arguments; here they arrive in a draft.\<close>

definition ScheduledRunInput_new_with_deadlines ::
  "scheduled_run_input \<Rightarrow> run_deadlines \<Rightarrow> (scheduled_run_input, diagnostic) result" where
  "ScheduledRunInput_new_with_deadlines draft d =
     and_then (map_err scheduler_internal (validate_run_deadlines d (ns_total_deadline_ms (si_profile draft)))) (\<lambda>_.
     Ok (draft\<lparr>si_deadline_origin_ms := rd_origin_ms d, si_work_deadline_ms := rd_work_deadline_ms d,
       si_absolute_deadline_ms := rd_absolute_deadline_ms d, si_prepared_inventory := None,
       si_prepared_existed_before := None, si_prepared_duration_ms := 0\<rparr>))"

definition ScheduledRunInput_new ::
  "scheduled_run_input \<Rightarrow> u64 \<Rightarrow> (scheduled_run_input, diagnostic) result" where
  "ScheduledRunInput_new draft now =
     and_then (map_err scheduler_internal (RunDeadlines_derive (ns_total_deadline_ms (si_profile draft)) now))
       (ScheduledRunInput_new_with_deadlines draft)"

definition with_prepared_inventory ::
  "scheduled_run_input \<Rightarrow> inventory_record list \<Rightarrow> rstring set \<Rightarrow> u64 \<Rightarrow> (scheduled_run_input, diagnostic) result" where
  "with_prepared_inventory input inventory existed_before duration_ms =
     (if length inventory \<noteq> length (si_discovery input)
         \<or> list_ex (\<lambda>(record, file). iv_file_identity record \<noteq> df_file_identity file
              \<or> iv_source_version record \<noteq> df_source_version file) (zip inventory (si_discovery input))
         \<or> \<not> existed_before \<subseteq> iv_file_identity ` set inventory
      then Err (scheduler_internal (lit ''prepared inventory receipt disagrees with discovery''))
      else Ok (input\<lparr>si_prepared_inventory := Some inventory, si_prepared_existed_before := Some existed_before,
             si_prepared_duration_ms := duration_ms\<rparr>))"

section \<open>What a run is given\<close>

record guard_observation =
  go_content_hash_file_count :: u64
  go_unavailable_file_count :: u64
  go_bytes_read :: u64

text \<open>The engine of the phases with what only \<open>execute\<close> calls: the platform's path functions, the
  store's inventory and access touch, the guard observer and the creation of the thread pool.\<close>

record 'w machine =
  mc_engine :: "'w engine"
  mc_strip :: "rstring \<Rightarrow> rstring \<Rightarrow> rstring option"
  mc_is_abs :: "rstring \<Rightarrow> bool"
  mc_prepare_inventory :: "u64 \<Rightarrow> u64 \<Rightarrow> inventory_record list \<Rightarrow> 'w \<Rightarrow> (rstring set, cache_port_error) result \<times> 'w"
  mc_touch_access :: "u64 \<Rightarrow> rstring list \<Rightarrow> rstring list \<Rightarrow> 'w \<Rightarrow> (unit, cache_port_error) result \<times> 'w"
  mc_is_tainted :: "rstring \<Rightarrow> 'w \<Rightarrow> bool \<times> 'w"
  mc_guard_metrics :: "'w \<Rightarrow> guard_observation option \<times> 'w"
  mc_pool_created :: "nat \<Rightarrow> 'w \<Rightarrow> bool \<times> 'w"

definition apply_observed_source_guard_metrics :: "guard_observation option \<Rightarrow> execution_metrics \<Rightarrow> execution_metrics" where
  "apply_observed_source_guard_metrics observation metrics = (case observation of None \<Rightarrow> metrics
     | Some g \<Rightarrow> metrics\<lparr>em_source_guard_content_hash_file_count := go_content_hash_file_count g,
         em_source_guard_unavailable_count := go_unavailable_file_count g,
         em_source_guard_bytes_read := go_bytes_read g\<rparr>)"

abbreviation clock_of :: "'w machine \<Rightarrow> 'w \<Rightarrow> u64 \<times> 'w" where
  "clock_of m \<equiv> pt_now (en_ports (mc_engine m))"

definition build_inventory ::
  "(rstring \<Rightarrow> (rstring, rstring) result) \<Rightarrow> discovered_file list \<Rightarrow> (inventory_record list, diagnostic) result" where
  "build_inventory rel = collect_results (\<lambda>file.
     and_then (map_err scheduler_internal (rel (df_path file))) (\<lambda>relative_path.
     map_err scheduler_internal (InventoryRecord_from_discovered file relative_path)))"

definition rel_of :: "'w machine \<Rightarrow> scheduled_run_input \<Rightarrow> rstring \<Rightarrow> (rstring, rstring) result" where
  "rel_of m input = relative_contract_path (mc_strip m) (si_work_dir input)"

text \<open>The engine of one run: its relative paths start at the work directory and its waves are as
  wide as the profile says, but never empty.\<close>

definition engine_of :: "'w machine \<Rightarrow> scheduled_run_input \<Rightarrow> 'w engine" where
  "engine_of m input = (mc_engine m)\<lparr>en_rel := rel_of m input,
     en_concurrency := max (ep_max_workers (ns_execution (si_profile input))) 1\<rparr>"

section \<open>Outcome\<close>

text \<open>\<open>BudgetedScanOutcome\<close> without the source records of \<open>sources.rs\<close>.\<close>

record scan_outcome =
  so_scan_run_id :: u64
  so_conclusion :: run_conclusion
  so_execution_metrics :: execution_metrics

definition too_many_files_message :: "nat \<Rightarrow> rstring" where
  "too_many_files_message n = lit ''discovery observed '' @ dec n @ lit '' source files, exceeding the engine ceiling of ''
     @ dec MAX_SOURCE_FILES_PER_RUN"

definition too_many_files :: "scheduled_run_input \<Rightarrow> run_conclusion" where
  "too_many_files input =
     \<lparr>rn_terminal_intent = IntentError, rn_inventory = [], rn_file_results = [], rn_parse_cache_receipts = [],
      rn_classification_cache_receipts = [], rn_classifications = Map.empty,
      rn_diagnostics = [error_of \<lparr>dg_error_code = SourceFileLimitExceeded,
        dg_message = too_many_files_message (length (si_discovery input)), dg_retryable = False,
        dg_stage = StageDiscovery, dg_file_path = None, dg_backend = None\<rparr>],
      rn_stage_metrics = zero_stage_metrics, rn_extension_metrics = [], rn_context = None,
      rn_reserved_chars = 0, rn_rendered_chars = 0\<rparr>"

text \<open>The last readings before an outcome is returned: the guard observer, then the clock.\<close>

definition seal_metrics :: "'w machine \<Rightarrow> execution_metrics \<Rightarrow> 'w \<Rightarrow> execution_metrics \<times> 'w" where
  "seal_metrics m metrics w =
     (let (observed, w) = mc_guard_metrics m w; (now, w) = clock_of m w
      in ((apply_observed_source_guard_metrics observed metrics)\<lparr>em_deadline_precommit_elapsed_ms := now\<rparr>, w))"

definition refuse_too_many :: "'w machine \<Rightarrow> scheduled_run_input \<Rightarrow> 'w \<Rightarrow> 'w \<times> scan_outcome" where
  "refuse_too_many m input w =
     (let (metrics, w) = seal_metrics m (source_guard_metrics (si_discovery input)) w
      in (w, \<lparr>so_scan_run_id = si_scan_run_id input, so_conclusion = too_many_files input,
          so_execution_metrics = metrics\<lparr>em_discovery_observed_file_count := MAX_SOURCE_FILES_PER_RUN + 1\<rparr>\<rparr>))"

section \<open>Before the first wave\<close>

definition run_inventory ::
  "'w machine \<Rightarrow> scheduled_run_input \<Rightarrow> 'w \<Rightarrow> ('w \<times> inventory_record list \<times> rstring set \<times> u64, diagnostic) result" where
  "run_inventory m input w =
     (case (si_prepared_inventory input, si_prepared_existed_before input) of
        (Some inventory, Some existed_before) \<Rightarrow> Ok (w, inventory, existed_before, si_prepared_duration_ms input)
      | (None, None) \<Rightarrow>
          and_then (build_inventory (rel_of m input) (si_discovery input)) (\<lambda>inventory.
          let (started, w) = clock_of m w;
              (prepared, w) = mc_prepare_inventory m (si_scan_run_id input) (si_started_at_ms input) inventory w
          in and_then (map_err (\<lambda>e. port_error_diagnostic e StageCache) prepared) (\<lambda>existed_before.
          let (now, w) = clock_of m w
          in Ok (w, inventory, existed_before, saturating_sub now started)))
      | _ \<Rightarrow> Err (scheduler_internal (lit ''prepared inventory receipt is incomplete'')))"

definition create_executor :: "'w machine \<Rightarrow> nat \<Rightarrow> 'w \<Rightarrow> ('w, diagnostic) result" where
  "create_executor m n w =
     (if 1 < n
      then (let (created, w) = mc_pool_created m n w in
            if created then Ok w
            else Err (scheduler_failure InternalError (lit ''scheduler worker pool could not be created'') True StageProcess))
      else Ok w)"

definition classifier_build_of :: "scheduled_run_input \<Rightarrow> classified_plan list \<Rightarrow> (rstring, diagnostic) result" where
  "classifier_build_of input classified =
     (case wi_classifier_build (si_workers input) of
        Some build \<Rightarrow> Ok build
      | None \<Rightarrow>
          if list_ex (\<lambda>plan. cl_pdf_classification plan \<noteq> NotPdf) classified
          then Err (scheduler_failure WorkerHandshakeFailed (lit ''classifier build is required when PDFs are classified'')
                 False StageProcess)
          else Ok (replicate 64 48))"

definition run_env_of :: "scheduled_run_input \<Rightarrow> rstring set \<Rightarrow> rstring \<Rightarrow> rstring \<Rightarrow> run_env" where
  "run_env_of input existed_before hash build =
     \<lparr>rv_discovery = si_discovery input, rv_profile = si_profile input, rv_existed_before = existed_before,
      rv_classifier_hash = hash, rv_classifier_build = build, rv_work_deadline = si_work_deadline_ms input,
      rv_workers = si_workers input, rv_engine_version = si_engine_version input,
      rv_engine_build = si_engine_build input\<rparr>"

definition first_plan :: "'w engine \<Rightarrow> scheduled_run_input \<Rightarrow> classified_plan list" where
  "first_plan en input = ClassificationPlan_build (en_uni en) (map plan_candidate_of (si_discovery input))
     (si_profile input) (ns_max_total_pdf_classification_pages (si_profile input))"

text \<open>The counters of the plan; pages are summed with saturation here.\<close>

definition first_plan_metrics :: "classified_plan list \<Rightarrow> execution_metrics \<Rightarrow> execution_metrics" where
  "first_plan_metrics classified metrics = (plan_metrics classified metrics)
     \<lparr>em_nominal_charged_pages_total := fold (\<lambda>plan n. saturating_add n (charged_pages (cl_pdf_classification plan)))
        (filter (\<lambda>plan. is_classify (cl_pdf_classification plan)) classified) 0\<rparr>"

section \<open>The first wave\<close>

definition first_admitted :: "class_phase \<Rightarrow> classified_plan list \<Rightarrow> classified_plan list" where
  "first_admitted ph = filter (\<lambda>plan. cl_file_identity plan \<notin> cp_stopped ph \<and> cl_pdf_classification plan \<noteq> PlanNotClassified)"

text \<open>The state after the first wave, with the warnings of the classification cache and the time
  parsing started.\<close>

definition first_wave ::
  "'w engine \<Rightarrow> run_env \<Rightarrow> classified_plan list \<Rightarrow> execution_metrics \<Rightarrow> 'w \<Rightarrow>
     ('w \<times> run_state \<times> diagnostic list \<times> u64, diagnostic) result option" where
  "first_wave en env classified metrics w =
     and_run (run_classifications (en_classify_pool en) (en_concurrency en) (en_hash_of en) (en_ports en) (class_env_of env)
         classified metrics w) (\<lambda>(w, ph).
     and_run (Some (budget_model_of env classified (cp_results ph) (cp_stopped ph))) (\<lambda>model.
     let admission = ContentAdmissionPlan_build (first_admitted ph classified) (rv_profile env) model (cp_results ph);
         metrics = admission_metrics admission (cp_results ph) (cp_metrics ph);
         (started, w) = pt_now (en_ports en) w
     in and_run (run_parses (en_parse_pool en) (en_concurrency en) (en_sha en) (en_ports en)
           (parse_env_of env (cp_results ph) (cp_stopped ph)) admission metrics w) (\<lambda>(w, out, metrics).
     Some (Ok (w, \<lparr>rf_classified = classified, rf_admission = admission, rf_classifications = cp_results ph,
         rf_audits = cp_audits ph, rf_runtime = cp_stopped ph, rf_fresh_hits = cp_fresh_hits ph,
         rf_outputs = out\<lparr>po_classification_cache_receipts := cp_receipts ph\<rparr>, rf_model = model,
         rf_metrics = metrics\<rparr>, cp_write_warnings ph, started)))))"

definition later_waves ::
  "'w engine \<Rightarrow> run_env \<Rightarrow> 'w \<times> run_state \<Rightarrow> ('w \<times> run_state, diagnostic) result option" where
  "later_waves en env ws =
     (if ns_admission_policy_version (rv_profile env) = lit ''budget_refill_v3'' then run_refills en env ws else Some (Ok ws))"

section \<open>After the waves\<close>

text \<open>A file whose source was seen to change counts as changed, whatever its parse gave.\<close>

definition taint_step :: "(rstring \<Rightarrow> rstring) \<Rightarrow> 'w machine \<Rightarrow> discovered_file \<Rightarrow> 'w \<times> parse_outputs \<Rightarrow> 'w \<times> parse_outputs" where
  "taint_step sha m file wo =
     (let (w, out) = wo; (tainted, w) = mc_is_tainted m (df_path file) w; i = df_file_identity file in
      if tainted
      then (w, out\<lparr>po_results := (if po_results out i = None then (po_results out)(i \<mapsto> source_version_changed_parse sha file)
                   else po_results out),
              po_parse_cache_status := (po_parse_cache_status out)(i \<mapsto> Miss),
              po_parse_cache_miss_reason := (po_parse_cache_miss_reason out)(i \<mapsto> MissSourceVersionChanged)\<rparr>)
      else (w, out))"

definition touch_warning :: "cache_port_error \<Rightarrow> diagnostic" where
  "touch_warning e = \<lparr>dg_error_code = CacheWriteFailed,
     dg_message = lit ''cache access touch skipped: '' @ dg_message (port_error_diagnostic e StageCache),
     dg_retryable = True, dg_stage = StageCache, dg_file_path = None, dg_backend = None\<rparr>"

definition touch_hits :: "'w machine \<Rightarrow> 'w \<times> run_state \<Rightarrow> 'w \<times> run_state" where
  "touch_hits m ws =
     (let (w, s) = ws; (now, w) = clock_of m w;
          (touched, w) = mc_touch_access m now (po_parse_fresh_hits (rf_outputs s)) (rf_fresh_hits s) w
      in (w, case touched of Ok _ \<Rightarrow> s
             | Err (PortDeadlineExhausted _) \<Rightarrow> s\<lparr>rf_metrics := (rf_metrics s)\<lparr>em_stage_deadline_exhausted_count := 1\<rparr>\<rparr>
             | Err e \<Rightarrow> s\<lparr>rf_outputs := (rf_outputs s)\<lparr>po_cache_write_warnings :=
                 po_cache_write_warnings (rf_outputs s) @ [touch_warning e]\<rparr>\<rparr>))"

text \<open>The clock is read before the text is rendered, and again once it is.\<close>

definition render_time :: "'w machine \<Rightarrow> 'w engine \<Rightarrow> run_env \<Rightarrow> run_state \<Rightarrow> 'w \<Rightarrow> u64 \<times> 'w" where
  "render_time m en env s w =
     (let (started, w) = clock_of m w in
      case build_evidence (en_rel en) (rv_discovery env) (rf_classified s) (rf_admission s) (rf_classifications s)
             (rf_runtime s) (rf_outputs s) of
        Err _ \<Rightarrow> (0, w)
      | Ok evidence \<Rightarrow>
          (case build_context (en_uni en) (en_enc en) evidence (ns_context (rv_profile env)) (ns_report_mode (rv_profile env)) of
             Err _ \<Rightarrow> (0, w)
           | Ok _ \<Rightarrow> (let (now, w) = clock_of m w in (saturating_sub now started, w))))"

definition executed_of ::
  "scheduled_run_input \<Rightarrow> inventory_record list \<Rightarrow> run_diagnostic list \<Rightarrow> u64 \<Rightarrow> u64 \<Rightarrow> u64 \<Rightarrow> run_state \<Rightarrow> executed_run" where
  "executed_of input inventory diagnostics cache_ms parse_ms compression_ms s =
     \<lparr>xr_context_profile_hash = si_context_profile_hash input, xr_discovery = si_discovery input,
      xr_inventory = inventory, xr_classified = rf_classified s, xr_admission = rf_admission s,
      xr_classifications = rf_classifications s, xr_classification_audits = rf_audits s,
      xr_runtime_classification = rf_runtime s, xr_outputs = rf_outputs s, xr_model = rf_model s,
      xr_diagnostics = diagnostics,
      xr_stage_deadline_exhausted_count = em_stage_deadline_exhausted_count (rf_metrics s),
      xr_parse_attempt_count = em_parse_attempt_count (rf_metrics s),
      xr_discovery_ms = si_discovery_duration_ms input, xr_cache_ms = cache_ms, xr_parse_ms = parse_ms,
      xr_compression_ms = compression_ms\<rparr>"

definition finish_run ::
  "'w machine \<Rightarrow> scheduled_run_input \<Rightarrow> run_env \<Rightarrow> inventory_record list \<Rightarrow> run_diagnostic list \<Rightarrow> u64 \<Rightarrow> u64 \<Rightarrow>
     'w \<times> run_state \<Rightarrow> ('w \<times> scan_outcome, diagnostic) result" where
  "finish_run m input env inventory diagnostics cache_ms started ws =
     (let (w, s) = ws; en = engine_of m input;
          (w, out) = fold (taint_step (en_sha en) m) (si_discovery input) (w, rf_outputs s);
          (parsed, w) = clock_of m w;
          (w, s) = touch_hits m (w, s\<lparr>rf_outputs := out\<rparr>);
          (compression_ms, w) = render_time m en env s w;
          x = executed_of input inventory diagnostics cache_ms (saturating_sub parsed started) compression_ms s
      in and_then (conclude_run (en_uni en) (en_enc en) (en_sha en) (en_rel en) (si_profile input)
            (si_rejected_profile_hash input) x) (\<lambda>c.
         let (metrics, w) = seal_metrics m ((rf_metrics s)\<lparr>em_reserved_chars := rn_reserved_chars c,
               em_rendered_chars := rn_rendered_chars c\<rparr>) w
         in Ok (w, \<lparr>so_scan_run_id = si_scan_run_id input, so_conclusion = c, so_execution_metrics = metrics\<rparr>)))"

section \<open>The run\<close>

definition run_waves ::
  "'w machine \<Rightarrow> scheduled_run_input \<Rightarrow> inventory_record list \<Rightarrow> rstring set \<Rightarrow> u64 \<Rightarrow> 'w \<Rightarrow>
     ('w \<times> scan_outcome, diagnostic) result option" where
  "run_waves m input inventory existed_before cache_ms w =
     (let en = engine_of m input;
          (observed, w) = mc_guard_metrics m w;
          metrics = apply_observed_source_guard_metrics observed (source_guard_metrics (si_discovery input))
      in and_run (Some (create_executor m (en_concurrency en) w)) (\<lambda>w.
      let classified = first_plan en input; metrics = first_plan_metrics classified metrics in
      and_run (Some (map_err scheduler_internal (en_hash_of en (si_profile input)))) (\<lambda>hash.
      and_run (Some (classifier_build_of input classified)) (\<lambda>build.
      let env = run_env_of input existed_before hash build in
      and_run (first_wave en env classified metrics w) (\<lambda>(w, s, warnings, started).
      and_run (later_waves en env (w, s)) (\<lambda>ws.
      Some (finish_run m input env inventory
        (map (discovery_issue_warning (mc_is_abs m)) (si_discovery_issues input) @ map warning_of warnings)
        cache_ms started ws)))))))"

definition execute ::
  "'w machine \<Rightarrow> scheduled_run_input \<Rightarrow> 'w \<Rightarrow> ('w \<times> scan_outcome, diagnostic) result option" where
  "execute m input w =
     (let (now, w) = clock_of m w in
      if si_absolute_deadline_ms input \<le> now
      then Some (Err (scheduler_internal (lit ''absolute deadline already exhausted before execution'')))
      else if MAX_SOURCE_FILES_PER_RUN < length (si_discovery input)
      then Some (Ok (refuse_too_many m input w))
      else and_run (Some (run_inventory m input w)) (\<lambda>(w, inventory, existed_before, cache_ms).
           run_waves m input inventory existed_before cache_ms w))"

section \<open>Every run ends\<close>

lemma and_run_returns:
  "(\<And>x. r = Some (Ok x) \<Longrightarrow> \<exists>y. f x = Some y) \<Longrightarrow> \<exists>y. r = Some y \<Longrightarrow> \<exists>y. and_run r f = Some y"
  by (cases "(r, f)" rule: and_run.cases) auto

lemma classifications_end: "0 < n \<Longrightarrow> \<exists>r. run_classifications par n hash_of p env classified metrics w = Some r"
  by (rule run_classifications_cases) auto

lemma parses_end: "0 < n \<Longrightarrow> \<exists>r. run_parses par n sha p env admission metrics w = Some r"
  by (rule run_parses_cases) auto

lemma execute_round_ends:
  assumes "0 < en_concurrency en"
  shows "\<exists>r. execute_round en env r0 ws = Some r"
  unfolding execute_round_def using assms
  by (auto simp: Let_def case_prod_beta intro!: and_run_returns classifications_end parses_end)

lemma refill_round_ends:
  assumes "0 < en_concurrency en"
  shows "\<exists>r. refill_round en env k wl = Some r"
  unfolding refill_round_def using execute_round_ends [OF assms]
  by (auto simp: Let_def case_prod_beta intro!: and_run_returns)

lemma refill_rounds_end:
  assumes "0 < en_concurrency en"
  shows "\<exists>r. refill_rounds en env rounds wl = Some r"
proof (induction rounds arbitrary: wl)
  case (Cons k rounds)
  show ?case unfolding refill_rounds.simps
    by (rule and_run_returns [OF _ refill_round_ends [OF assms]]) (use Cons.IH in \<open>auto split: prod.splits\<close>)
qed simp

lemma later_waves_end:
  assumes "0 < en_concurrency en"
  shows "\<exists>r. later_waves en env ws = Some r"
  unfolding later_waves_def run_refills_def
  by (auto simp: case_prod_beta Let_def simp del: refill_rounds.simps
    intro!: and_run_returns refill_rounds_end [OF assms])

lemma first_wave_ends:
  assumes "0 < en_concurrency en"
  shows "\<exists>r. first_wave en env classified metrics w = Some r"
  unfolding first_wave_def using assms
  by (auto simp: Let_def case_prod_beta intro!: and_run_returns classifications_end parses_end)

lemma engine_of_room: "0 < en_concurrency (engine_of m input)"
  by (simp add: engine_of_def)

text \<open>C34. A run always ends, with an outcome or a failure, whatever the clock, the caches, the workers, the
  guard and the pool do: the waves of all phases and the refill rounds run out.\<close>

theorem execute_returns: "\<exists>r. execute m input w = Some r"
  unfolding execute_def run_waves_def
  by (auto simp: Let_def case_prod_beta intro!: and_run_returns first_wave_ends later_waves_end engine_of_room)

section \<open>What the waves keep\<close>

text \<open>An admitted file is accounted for when it has a result, was stopped, or has no text to parse.\<close>

definition accounted :: "run_state \<Rightarrow> rstring \<Rightarrow> bool" where
  "accounted s i \<longleftrightarrow> i \<in> rf_runtime s \<or> i \<in> po_runtime_not_parsed (rf_outputs s) \<or> po_results (rf_outputs s) i \<noteq> None
     \<or> (\<exists>c. conclusive s i c \<and> cr_status c = NoTextInParseWindow)"

definition has_guard :: "run_env \<Rightarrow> rstring \<Rightarrow> bool" where
  "has_guard env i \<longleftrightarrow> (\<exists>f. snapshot_of (rv_discovery env) i = Some f \<and> expected_guard f \<noteq> None)"

definition decided :: "run_state \<Rightarrow> rstring set" where
  "decided s = ad_file_identity ` set (rf_admission s)"

definition run_inv :: "run_env \<Rightarrow> run_state \<Rightarrow> bool" where
  "run_inv env s \<longleftrightarrow> distinct (map cl_file_identity (rf_classified s))
     \<and> (\<forall>plan \<in> set (rf_classified s). is_admit (cl_action plan) \<longrightarrow> has_guard env (cl_file_identity plan)
          \<and> (cl_file_identity plan \<in> rf_runtime s \<or> cl_file_identity plan \<in> decided s))
     \<and> (\<forall>d \<in> set (rf_admission s). is_admit (ad_action d) \<longrightarrow> accounted s (ad_file_identity d))
     \<and> (rf_runtime s \<noteq> {} \<or> po_runtime_not_parsed (rf_outputs s) \<noteq> {} \<longrightarrow>
          0 < em_stage_deadline_exhausted_count (rf_metrics s))"

lemma accounted_mono: "accounted s i \<Longrightarrow> extends s s' \<Longrightarrow> accounted s' i"
  unfolding accounted_def extends_def map_le_def by (metis domIff subsetD)

text \<open>What stage A admits has a guard that can be verified.\<close>

lemma stage_a_admitted:
  assumes "plan \<in> set (ClassificationPlan_build_with_remaining uni files profile pages slots part)" and "is_admit (cl_action plan)"
  obtains f where "f \<in> set files" "cl_file_identity plan = pc_file_identity f" "pc_source_guard_kind f \<noteq> Unavailable"
proof -
  have "plan \<in> set (stage_a_planned uni files profile pages slots part)"
    using assms lefts_not_admitted(1) [of plan uni profile files] by (auto simp: stage_a_build_alt)
  then obtain fr q where fr: "fr \<in> set (stage_a_candidates uni profile files)" "plan = fst (stage_a_step uni profile part fr q)"
    unfolding stage_a_planned_def by (blast dest: run_pass_mem)
  from fr(1) obtain f where "f \<in> set files" "preselect uni profile f = Inr fr"
    by (auto simp: stage_a_candidates_def rights_alt)
  then show thesis using that [of f] fr(2) by (cases fr) (auto simp: preselect_Inr)
qed

lemma stage_b_admitted:
  assumes "d \<in> set (ContentAdmissionPlan_build_with_remaining plans profile model cs retained extractions)" and "is_admit (ad_action d)"
  obtains plan where "plan \<in> set plans" "cl_file_identity plan = ad_file_identity d" "is_admit (cl_action plan)"
  using assms(1)
proof (rule stage_b_members)
  fix plan s assume "plan \<in> set plans" "d = fst (stage_b_step profile model cs plan s)"
  then show thesis using that [of plan] assms(2) by (auto simp: stage_b_step_admit parse_eligible_def)
qed

text \<open>Every admitted file with a guard leaves the parsing phase accounted for.\<close>

lemma parses_account:
  assumes run: "run_parses pool n sha p (parse_env_of env cs rt) admission metrics w = Some (Ok (w', out, m))" and n: "0 < n"
    and exec: "ordered_executor pool" and dist: "distinct (map ad_file_identity admission)"
  shows "d \<in> set admission \<Longrightarrow> is_admit (ad_action d) \<Longrightarrow> has_guard env (ad_file_identity d) \<Longrightarrow>
      ad_file_identity d \<in> rt \<or> ad_file_identity d \<in> po_runtime_not_parsed out \<or> po_results out (ad_file_identity d) \<noteq> None
      \<or> (\<exists>c. cs (ad_file_identity d) = Some c \<and> cr_status c = NoTextInParseWindow)"
    and "po_runtime_not_parsed out \<noteq> {} \<Longrightarrow> 0 < em_stage_deadline_exhausted_count m"
proof -
  let ?env = "parse_env_of env cs rt"
  have "parse_run pool ?env"
    by (intro parse_run.intro parse_run_axioms.intro exec) (simp add: parse_env_of_def snapshot_well_keyed)
  from parse_run.run_parses_Ok [OF this run n dist]
  obtain s where s: "ph_outputs s = out" "em_stage_deadline_exhausted_count m = stops s" "phase_b_inv {} s"
    and all: "{i \<in> due_ids ?env admission. guarded ?env i} \<subseteq> dom (res s) \<union> stopped s" by blast
  from s show "po_runtime_not_parsed out \<noteq> {} \<Longrightarrow> 0 < em_stage_deadline_exhausted_count m" by (simp add: phase_b_inv_def)
  assume d: "d \<in> set admission" "is_admit (ad_action d)" "has_guard env (ad_file_identity d)"
  then obtain route where route: "ad_action d = Admit route" by (cases "ad_action d") auto
  show "ad_file_identity d \<in> rt \<or> ad_file_identity d \<in> po_runtime_not_parsed out \<or> po_results out (ad_file_identity d) \<noteq> None
      \<or> (\<exists>c. cs (ad_file_identity d) = Some c \<and> cr_status c = NoTextInParseWindow)"
  proof (cases "skips_parse ?env (ad_file_identity d) route")
    case True
    then show ?thesis by (auto simp: skips_parse_def parse_env_of_def)
  next
    case False
    with d route have "ad_file_identity d \<in> {i \<in> due_ids ?env admission. guarded ?env i}"
      by (auto simp: due_ids_def due_def guarded_def has_guard_def parse_env_of_def intro!: image_eqI [of _ _ d])
    with all s(1) show ?thesis by auto
  qed
qed

text \<open>What the classification phase promises for a run.\<close>

lemma classified_phase:
  assumes "run_classifications pool n hash_of p (class_env_of env) plans metrics w = Some (Ok (w', ph))" and "0 < n"
    and "ordered_executor pool" and "distinct (map cl_file_identity plans)"
  shows "cp_stopped ph \<noteq> {} \<Longrightarrow> 0 < em_stage_deadline_exhausted_count (cp_metrics ph)"
    and "0 < em_stage_deadline_exhausted_count metrics \<Longrightarrow> 0 < em_stage_deadline_exhausted_count (cp_metrics ph)"
proof -
  have keyed: "\<And>i f. kv_snapshot (class_env_of env) i = Some f \<Longrightarrow> df_file_identity f = i"
    by (simp add: class_env_of_def snapshot_of_key)
  then have "class_run pool (class_env_of env)" using assms(3) by (intro class_run.intro class_run_axioms.intro)
  from class_run.run_classifications_Ok [OF this assms(1,2,4)]
  show "cp_stopped ph \<noteq> {} \<Longrightarrow> 0 < em_stage_deadline_exhausted_count (cp_metrics ph)" by (simp add: class_inv_def)
  show "0 < em_stage_deadline_exhausted_count metrics \<Longrightarrow> 0 < em_stage_deadline_exhausted_count (cp_metrics ph)"
    by (rule run_classifications_stops [OF assms(1,2,3) keyed])
qed

text \<open>What discovery promises: the inventory accepted every file and no identity occurs twice.\<close>

definition discovery_ok :: "discovered_file list \<Rightarrow> bool" where
  "discovery_ok discovery \<longleftrightarrow> distinct (map df_file_identity discovery)
     \<and> (\<forall>f \<in> set discovery. pc_source_guard_kind (plan_candidate_of f) \<noteq> Unavailable \<longrightarrow> expected_guard f \<noteq> None)"

lemma snapshot_of_mem: "snapshot_of discovery i = Some f \<Longrightarrow> f \<in> set discovery"
  unfolding snapshot_of_def by (auto dest!: map_of_SomeD)

lemma snapshot_of_self:
  assumes "distinct (map df_file_identity discovery)" and "f \<in> set discovery"
  shows "snapshot_of discovery (df_file_identity f) = Some f"
proof -
  have "distinct (map fst (rev (map (\<lambda>f. (df_file_identity f, f)) discovery)))"
    using assms(1) by (simp add: rev_map [symmetric] comp_def)
  then show ?thesis unfolding snapshot_of_def by (rule map_of_is_SomeI) (use assms(2) in simp)
qed

lemma snapshot_guard:
  assumes "discovery_ok (rv_discovery env)" and "snapshot_of (rv_discovery env) i = Some f"
    and "pc_source_guard_kind (plan_candidate_of f) \<noteq> Unavailable"
  shows "has_guard env i"
  using assms snapshot_of_mem [OF assms(2)] by (auto simp: has_guard_def discovery_ok_def)

lemma stage_a_not_classified:
  assumes "plan \<in> set (ClassificationPlan_build_with_remaining uni files profile pages slots part)" and "is_admit (cl_action plan)"
  shows "cl_pdf_classification plan \<noteq> PlanNotClassified"
proof -
  have "plan \<in> set (stage_a_planned uni files profile pages slots part)"
    using assms lefts_not_admitted(1) [of plan uni profile files] by (auto simp: stage_a_build_alt)
  then obtain fr q where "plan = fst (stage_a_step uni profile part fr q)"
    unfolding stage_a_planned_def by (blast dest: run_pass_mem)
  with assms(2) show ?thesis by (auto simp: stage_a_step_def Let_def split: prod.splits if_splits)
qed

lemma stage_a_length: "length (ClassificationPlan_build_with_remaining uni files profile pages slots part) = length files"
  using mset_eq_length [OF mset_identities_build, of uni files profile pages slots part] by simp

lemma first_plan_facts:
  assumes "discovery_ok (si_discovery input)" and env: "rv_discovery env = si_discovery input"
  shows "distinct (map cl_file_identity (first_plan en input))"
    and "length (first_plan en input) = length (si_discovery input)"
    and "plan \<in> set (first_plan en input) \<Longrightarrow> is_admit (cl_action plan) \<Longrightarrow>
      has_guard env (cl_file_identity plan) \<and> cl_pdf_classification plan \<noteq> PlanNotClassified"
proof -
  let ?files = "map plan_candidate_of (si_discovery input)"
  have ids: "map pc_file_identity ?files = map df_file_identity (si_discovery input)" by simp
  then show "distinct (map cl_file_identity (first_plan en input))"
    unfolding first_plan_def ClassificationPlan_build_def using assms(1)
    by (intro distinct_identities_build) (simp add: discovery_ok_def comp_def)
  show "length (first_plan en input) = length (si_discovery input)"
    unfolding first_plan_def ClassificationPlan_build_def by (simp add: stage_a_length)
  assume plan: "plan \<in> set (first_plan en input)" "is_admit (cl_action plan)"
  note built = plan [unfolded first_plan_def ClassificationPlan_build_def]
  from built obtain c where "c \<in> set ?files" "cl_file_identity plan = pc_file_identity c" "pc_source_guard_kind c \<noteq> Unavailable"
    by (rule stage_a_admitted)
  then obtain f where f: "f \<in> set (si_discovery input)" "cl_file_identity plan = df_file_identity f"
    "pc_source_guard_kind (plan_candidate_of f) \<noteq> Unavailable" by auto
  have "snapshot_of (rv_discovery env) (cl_file_identity plan) = Some f"
    unfolding env f(2) using assms(1) f(1) by (intro snapshot_of_self) (simp_all add: discovery_ok_def)
  with snapshot_guard [OF _ this f(3)] assms(1) env
  show "has_guard env (cl_file_identity plan) \<and> cl_pdf_classification plan \<noteq> PlanNotClassified"
    using stage_a_not_classified [OF built] by simp
qed

lemma first_wave_keeps:
  assumes ok: "first_wave en env (first_plan en input) metrics w = Some (Ok (w', s, warnings, started))"
    and en: "sound_engine en" and disc: "discovery_ok (si_discovery input)" and env: "rv_discovery env = si_discovery input"
  shows "run_inv env s" and "rf_classified s = first_plan en input"
proof -
  let ?plan = "first_plan en input"
  note plan = first_plan_facts [OF disc env, where en = en]
  from ok obtain w1 ph model w2 w3 out m where
    cls: "run_classifications (en_classify_pool en) (en_concurrency en) (en_hash_of en) (en_ports en) (class_env_of env)
      ?plan metrics w = Some (Ok (w1, ph))"
    and parse: "run_parses (en_parse_pool en) (en_concurrency en) (en_sha en) (en_ports en) (parse_env_of env (cp_results ph) (cp_stopped ph))
      (ContentAdmissionPlan_build (first_admitted ph ?plan) (rv_profile env) model (cp_results ph))
      (admission_metrics (ContentAdmissionPlan_build (first_admitted ph ?plan) (rv_profile env) model (cp_results ph))
        (cp_results ph) (cp_metrics ph)) w2 = Some (Ok (w3, out, m))"
    and s: "rf_classified s = ?plan" "rf_runtime s = cp_stopped ph" "rf_classifications s = cp_results ph" "rf_metrics s = m"
      "rf_admission s = ContentAdmissionPlan_build (first_admitted ph ?plan) (rv_profile env) model (cp_results ph)"
      "po_results (rf_outputs s) = po_results out" "po_runtime_not_parsed (rf_outputs s) = po_runtime_not_parsed out"
    by (auto simp: first_wave_def Let_def case_prod_beta)
  show "rf_classified s = ?plan" by (rule s(1))
  have exec: "ordered_executor (en_classify_pool en)" "ordered_executor (en_parse_pool en)" "0 < en_concurrency en"
    using en by (simp_all add: sound_engine_def)
  have ids: "map ad_file_identity (rf_admission s) = map cl_file_identity (first_admitted ph ?plan)"
    by (simp add: s ContentAdmissionPlan_build_def)
  then have dist: "distinct (map ad_file_identity (rf_admission s))"
    using plan(1) by (simp add: first_admitted_def distinct_map_filter)
  note acc = parses_account [OF parse [folded s(5)] exec(3,2) dist]
  have "accounted s (ad_file_identity d)" if d: "d \<in> set (rf_admission s)" "is_admit (ad_action d)" for d
  proof -
    from stage_b_admitted [OF d(1) [unfolded s(5) ContentAdmissionPlan_build_def] d(2)]
    obtain q where "q \<in> set (first_admitted ph ?plan)" "cl_file_identity q = ad_file_identity d" "is_admit (cl_action q)" .
    with plan(3) [of q] have "has_guard env (ad_file_identity d)" by (simp add: first_admitted_def)
    from acc(1) [OF d this] show ?thesis by (auto simp: accounted_def conclusive_def s)
  qed
  moreover have "cl_file_identity q \<in> rf_runtime s \<or> cl_file_identity q \<in> decided s" if "q \<in> set ?plan" "is_admit (cl_action q)" for q
  proof (rule disjCI)
    assume "cl_file_identity q \<notin> decided s"
    then have "q \<notin> set (first_admitted ph ?plan)"
      unfolding decided_def by (metis ids image_eqI list.set_map)
    with that plan(3) [OF that] show "cl_file_identity q \<in> rf_runtime s" by (simp add: first_admitted_def s)
  qed
  moreover have "0 < em_stage_deadline_exhausted_count m" if "cp_stopped ph \<noteq> {}"
    using classified_phase(1) [OF cls exec(3,1) plan(1) that]
    by (intro run_parses_stops [OF parse exec(3)]) (simp_all add: parse_env_of_def snapshot_well_keyed admission_metrics_def)
  ultimately show "run_inv env s" unfolding run_inv_def s(1,2,4,7) using plan acc(2) by blast
qed

section \<open>What a refill round keeps\<close>

lemma replace_by_members: "set (fst (replace_by key xs m)) \<subseteq> set xs \<union> ran m"
proof (induction xs arbitrary: m)
  case (Cons x xs)
  have sub: "ran (m(key x := None)) \<subseteq> ran m" by (auto simp: ran_def)
  show ?case
  proof (cases "m (key x)")
    case None
    with Cons.IH [of m] show ?thesis by (auto simp: case_prod_beta)
  next
    case (Some y)
    then have "y \<in> ran m" by (rule ranI)
    with Some Cons.IH [of "m(key x := None)"] sub show ?thesis by (auto simp: case_prod_beta simp del: fun_upd_apply)
  qed
qed simp

lemma replace_by_rest: "i \<notin> key ` set xs \<Longrightarrow> snd (replace_by key xs m) i = m i"
  by (induction xs arbitrary: m) (auto simp: case_prod_beta Let_def split: option.splits)

lemma by_identity_ran: "ran (by_identity key xs) \<subseteq> set xs"
  unfolding by_identity_def by (auto simp: ran_def dest!: map_of_SomeD)

lemma by_identity_self:
  assumes "distinct (map key xs)" and "x \<in> set xs"
  shows "by_identity key xs (key x) = Some x"
proof -
  have "distinct (map fst (rev (map (\<lambda>x. (key x, x)) xs)))" using assms(1) by (simp add: rev_map [symmetric] comp_def)
  then show ?thesis unfolding by_identity_def by (rule map_of_is_SomeI) (use assms(2) in simp)
qed

lemma adopt_plans_classified: "set (rf_classified (adopt_plans en plans next s)) \<subseteq> set (rf_classified s) \<union> set plans"
  using replace_by_members [of cl_file_identity "rf_classified s" "by_identity cl_file_identity plans"]
    by_identity_ran [of cl_file_identity plans]
  by (auto simp: adopt_plans_def case_prod_beta Let_def)

lemma adopt_plans_admission: "set (rf_admission (adopt_plans en plans next s)) \<subseteq> set (rf_admission s) \<union> set next"
  using replace_by_members [of ad_file_identity "rf_admission s" "by_identity ad_file_identity next"]
    by_identity_ran [of ad_file_identity "next"]
  by (auto simp: adopt_plans_def case_prod_beta Let_def)

text \<open>No file loses its decision and every new decision is adopted.\<close>

lemma adopt_plans_decided:
  assumes "distinct (map ad_file_identity next)"
  shows "decided s \<union> ad_file_identity ` set next \<subseteq> decided (adopt_plans en plans next s)"
proof -
  let ?r = "replace_by ad_file_identity (rf_admission s) (by_identity ad_file_identity next)"
  have adopted: "decided (adopt_plans en plans next s) =
      ad_file_identity ` set (fst ?r) \<union> ad_file_identity ` {d \<in> set next. snd ?r (ad_file_identity d) = Some d}"
    by (auto simp: decided_def adopt_plans_def case_prod_beta Let_def)
  have "map ad_file_identity (fst ?r) = map ad_file_identity (rf_admission s)"
    by (rule replace_by_keys) (rule by_identity_key)
  then have kept: "ad_file_identity ` set (fst ?r) = decided s" unfolding decided_def by (metis list.set_map)
  have "ad_file_identity d \<in> decided (adopt_plans en plans next s)" if d: "d \<in> set next" for d
  proof (cases "ad_file_identity d \<in> decided s")
    case False
    then have "snd ?r (ad_file_identity d) = Some d"
      unfolding decided_def by (subst replace_by_rest) (simp_all add: by_identity_self [OF assms d])
    with d show ?thesis by (auto simp: adopted)
  qed (simp add: adopted kept)
  then show ?thesis by (auto simp: adopted kept)
qed

text \<open>What the frozen plan of a round admits has a guard as well.\<close>

lemma freeze_round_guards:
  assumes disc: "discovery_ok (rv_discovery env)" and r: "r = freeze_round en env s used"
    and old: "\<And>plan. plan \<in> set (rf_classified s) \<Longrightarrow> is_admit (cl_action plan) \<Longrightarrow> has_guard env (cl_file_identity plan)"
    and plan: "plan \<in> set (rp_frozen r) \<union> set (rp_reusable r)" "is_admit (cl_action plan)"
  shows "has_guard env (cl_file_identity plan)"
proof -
  obtain c h e q where used: "used = (c, h, e, q)" by (metis prod_cases4)
  from plan(1) consider "plan \<in> set (rp_reusable r)" | "plan \<in> set (rp_frozen r)" by blast
  then show ?thesis
  proof cases
    case 1
    then have "plan \<in> set (rf_classified s)" by (auto simp: r freeze_round_def used Let_def)
    with old plan(2) show ?thesis by blast
  next
    case 2
    define pick where "pick = (\<lambda>plan. if unstarted_plan s plan
      then map_option plan_candidate_of (snapshot_of (rv_discovery env) (cl_file_identity plan)) else None)"
    have "rp_frozen r = ClassificationPlan_build_with_remaining (en_uni en) (List.map_filter pick (rf_classified s)) (rv_profile env)
        (saturating_sub (ns_max_total_pdf_classification_pages (rv_profile env)) h)
        (saturating_sub (ns_max_candidate_files (rv_profile env)) c) True"
      by (simp add: r freeze_round_def used pick_def Let_def)
    with 2 plan(2) obtain f where f: "f \<in> set (List.map_filter pick (rf_classified s))"
      "cl_file_identity plan = pc_file_identity f" "pc_source_guard_kind f \<noteq> Unavailable"
      by (metis stage_a_admitted)
    from f(1) obtain q' where "pick q' = Some f" by (auto simp: List.map_filter_def)
    then obtain g where g: "snapshot_of (rv_discovery env) (cl_file_identity q') = Some g" "f = plan_candidate_of g"
      by (auto simp: pick_def split: if_splits)
    with f snapshot_guard [OF disc g(1)] snapshot_of_key [OF g(1)] show ?thesis by simp
  qed
qed

lemma merged_fields [simp]:
  "rf_runtime (merge_classifications s ph) = rf_runtime s \<union> cp_stopped ph"
  "rf_classifications (merge_classifications s ph) = rf_classifications s ++ cp_results ph"
  "rf_metrics (merge_classifications s ph) = cp_metrics ph"
  "rf_classified (merge_classifications s ph) = rf_classified s"
  "rf_admission (merge_classifications s ph) = rf_admission s"
  "po_results (rf_outputs (merge_classifications s ph)) = po_results (rf_outputs s)"
  "po_runtime_not_parsed (rf_outputs (merge_classifications s ph)) = po_runtime_not_parsed (rf_outputs s)"
  by (simp_all add: merge_classifications_def)

lemma adopt_plans_fields [simp]:
  "rf_runtime (adopt_plans en plans next s) = rf_runtime s" "rf_classifications (adopt_plans en plans next s) = rf_classifications s"
  "rf_outputs (adopt_plans en plans next s) = rf_outputs s" "rf_metrics (adopt_plans en plans next s) = rf_metrics s"
  by (simp_all add: adopt_plans_def case_prod_beta Let_def)

lemma decided_of_merged:
  "decided s = decided ((merge_classifications s ph)\<lparr>rf_model := model, rf_outputs := out, rf_metrics := m\<rparr>)"
  by (simp add: decided_def)

lemma execute_round_keeps:
  assumes ok: "execute_round en env r (w, s) = Some (Ok (w', s'))" and r: "r = freeze_round en env s used"
    and en: "sound_engine en" and disc: "discovery_ok (rv_discovery env)" and inv: "run_inv env s"
  shows "run_inv env s'"
proof -
  have dist: "distinct (map cl_file_identity (rf_classified s))" using inv by (simp add: run_inv_def)
  note ids = freeze_round_identities [OF dist r] and ext = execute_round_extends [OF ok r en dist]
  from ok obtain w1 ph model w2 out m where
    cls: "run_classifications (en_classify_pool en) (en_concurrency en) (en_hash_of en) (en_ports en) (class_env_of env)
      (filter (\<lambda>plan. is_classify (cl_pdf_classification plan)) (rp_frozen r)) (rf_metrics s) w = Some (Ok (w1, ph))"
    and parse: "run_parses (en_parse_pool en) (en_concurrency en) (en_sha en) (en_ports en)
      (parse_env_of env (rf_classifications (merge_classifications s ph)) (rf_runtime (merge_classifications s ph)))
      (next_admission_of en env r model (merge_classifications s ph))
      (rf_metrics (merge_classifications s ph)) w1 = Some (Ok (w2, out, m))"
    and s': "s' = adopt_plans en (round_order en r) (next_admission_of en env r model (merge_classifications s ph))
      ((merge_classifications s ph)\<lparr>rf_model := model, rf_outputs := merge_parses (rf_outputs (merge_classifications s ph)) out,
        rf_metrics := m\<rparr>)"
    by (rule execute_round_Ok)
  define nxt where "nxt = next_admission_of en env r model (merge_classifications s ph)"
  have exec: "ordered_executor (en_classify_pool en)" "ordered_executor (en_parse_pool en)" "0 < en_concurrency en"
    using en by (simp_all add: sound_engine_def)
  have order: "set (round_order en r) = set (rp_frozen r) \<union> set (rp_reusable r)" by (simp add: round_order_def)
  have nxt_ids: "map ad_file_identity nxt = map cl_file_identity (round_order en r)"
    by (simp add: nxt_def next_admission_of_def)
  moreover have "mset (map cl_file_identity (round_order en r)) = mset (map cl_file_identity (rp_frozen r @ rp_reusable r))"
    by (simp add: round_order_def)
  ultimately have nxt_dist: "distinct (map ad_file_identity nxt)" using ids(1) by (metis mset_eq_imp_distinct_iff)
  have guard: "has_guard env (cl_file_identity plan)" if "plan \<in> set (rf_classified s) \<union> set (round_order en r)" "is_admit (cl_action plan)" for plan
    using freeze_round_guards [OF disc r _ _ that(2)] that inv unfolding run_inv_def order by blast
  note acc = parses_account [OF parse [folded nxt_def] exec(3,2) nxt_dist]
  have "accounted s' (ad_file_identity d)" if d: "d \<in> set (rf_admission s')" "is_admit (ad_action d)" for d
  proof (cases "d \<in> set (rf_admission s)")
    case True
    with d(2) inv ext show ?thesis by (auto simp: run_inv_def intro: accounted_mono)
  next
    case False
    with d(1) have new: "d \<in> set nxt"
      using adopt_plans_admission [of en "round_order en r" "nxt"] unfolding s' nxt_def [symmetric] by fastforce
    then obtain q where "q \<in> set (round_order en r)" "cl_file_identity q = ad_file_identity d" "is_admit (cl_action q)"
      using d(2) unfolding nxt_def next_admission_of_def by (rule stage_b_admitted)
    then have "has_guard env (ad_file_identity d)" using guard by (metis UnI2)
    note acc(1) [OF new d(2) this]
    moreover have "po_results (rf_outputs s') i \<noteq> None" if "po_results out i \<noteq> None" for i
      using that by (auto simp: s' merge_parses_def)
    moreover have "conclusive s' i c" if "rf_classifications (merge_classifications s ph) i = Some c" "cr_status c = NoTextInParseWindow" for i c
      using that by (simp add: s' conclusive_def)
    moreover have "po_runtime_not_parsed out \<subseteq> po_runtime_not_parsed (rf_outputs s')" "rf_runtime s' = rf_runtime (merge_classifications s ph)"
      by (simp_all add: s' merge_parses_def)
    ultimately show ?thesis unfolding accounted_def by blast
  qed
  moreover have "has_guard env (cl_file_identity q) \<and> (cl_file_identity q \<in> rf_runtime s' \<or> cl_file_identity q \<in> decided s')"
    if q: "q \<in> set (rf_classified s')" "is_admit (cl_action q)" for q
  proof -
    have from_: "q \<in> set (rf_classified s) \<union> set (round_order en r)"
      using adopt_plans_classified [THEN subsetD, OF q(1) [unfolded s']] by simp
    have sub: "decided s \<union> ad_file_identity ` set nxt \<subseteq> decided s'"
      using adopt_plans_decided [OF nxt_dist] unfolding s' nxt_def [symmetric] by (subst decided_of_merged)
    have "ad_file_identity ` set nxt = cl_file_identity ` set (round_order en r)" by (metis nxt_ids list.set_map)
    then have "cl_file_identity q \<in> rf_runtime s' \<or> cl_file_identity q \<in> decided s'"
      using from_ q(2) inv sub ext unfolding run_inv_def extends_def by blast
    with guard [OF from_ q(2)] show ?thesis by blast
  qed
  moreover have "0 < em_stage_deadline_exhausted_count (rf_metrics s')"
    if "rf_runtime s' \<noteq> {} \<or> po_runtime_not_parsed (rf_outputs s') \<noteq> {}"
  proof -
    have "distinct (map cl_file_identity (filter (\<lambda>plan. is_classify (cl_pdf_classification plan)) (rp_frozen r)))"
      using ids(1) by (simp add: distinct_map_filter)
    note c = classified_phase [OF cls exec(3,1) this]
    have stops: "0 < em_stage_deadline_exhausted_count m" if "0 < em_stage_deadline_exhausted_count (cp_metrics ph)"
      using that by (intro run_parses_stops [OF parse exec(3)]) (simp_all add: parse_env_of_def snapshot_well_keyed)
    have "rf_runtime s \<noteq> {} \<or> po_runtime_not_parsed (rf_outputs s) \<noteq> {} \<or> cp_stopped ph \<noteq> {} \<or> po_runtime_not_parsed out \<noteq> {}"
      using that by (auto simp: s' merge_parses_def)
    then have "0 < em_stage_deadline_exhausted_count m" using inv c stops acc(2) unfolding run_inv_def by blast
    then show ?thesis by (simp add: s')
  qed
  moreover have "distinct (map cl_file_identity (rf_classified s'))" using ext dist by (simp add: extends_def)
  ultimately show ?thesis unfolding run_inv_def by blast
qed

lemma reclaim_keeps:
  assumes "reclaim en env l = Ok l'" and inv: "run_inv env (rl_run l)"
  shows "run_inv env (rl_run l')"
proof -
  from assms(1) obtain s' refund where r: "reclaim_chars en env (rl_run l) = Ok (s', refund)" and l': "rl_run l' = s'"
    by (auto simp: reclaim_def add_refund_def)
  from r obtain kept where s': "s' = (rl_run l)\<lparr>rf_admission := map (\<lambda>d. d\<lparr>ad_reserved_chars := kept d\<rparr>) (rf_admission (rl_run l))\<rparr>"
    by (auto elim: reclaim_chars_Ok)
  have "accounted s' i = accounted (rl_run l) i" for i by (simp add: s' accounted_def conclusive_def)
  moreover have "decided s' = decided (rl_run l)" by (simp add: s' decided_def image_image)
  ultimately show ?thesis using inv unfolding l' run_inv_def by (simp add: s')
qed

lemma refill_round_keeps:
  assumes ok: "refill_round en env k (w, l) = Some (Ok (w', l', again))" and en: "sound_engine en"
    and disc: "discovery_ok (rv_discovery env)" and inv: "run_inv env (rl_run l)"
  shows "run_inv env (rl_run l')"
  using ok
proof (cases rule: refill_round_cases)
  case (3 l1 used w1 s2 l2)
  from execute_round_keeps [OF 3(2) refl en disc reclaim_keeps [OF 3(1) inv]]
  show ?thesis using reclaim_keeps [OF 3(3)] 3(4) by simp
qed (use inv reclaim_keeps in auto)

lemma refill_rounds_keep:
  assumes "refill_rounds en env rounds (w, l) = Some (Ok (w', l'))" and en: "sound_engine en"
    and disc: "discovery_ok (rv_discovery env)" and "run_inv env (rl_run l)"
  shows "run_inv env (rl_run l')"
  using assms(1,4)
proof (induction rounds arbitrary: w l)
  case (Cons k rounds)
  from Cons.prems(1) obtain w1 l1 again where step: "refill_round en env k (w, l) = Some (Ok (w1, l1, again))"
    and rest: "if again then refill_rounds en env rounds (w1, l1) = Some (Ok (w', l')) else l' = l1"
    by (auto split: if_splits)
  with refill_round_keeps [OF step en disc Cons.prems(2)] Cons.IH show ?case by (cases again) auto
qed simp

lemma later_waves_keep:
  assumes "later_waves en env (w, s) = Some (Ok (w', s'))" and en: "sound_engine en"
    and disc: "discovery_ok (rv_discovery env)" and inv: "run_inv env s"
  shows "run_inv env s'" and "length (rf_classified s') = length (rf_classified s)"
proof -
  consider "s' = s" | l metrics where "refill_rounds en env [1, 2] (w, \<lparr>rl_run = s, rl_ledger = new_ledger (rv_profile env)\<rparr>) = Some (Ok (w', l))"
      "s' = (rl_run l)\<lparr>rf_metrics := metrics\<rparr>" "em_stage_deadline_exhausted_count metrics = em_stage_deadline_exhausted_count (rf_metrics (rl_run l))"
    using assms(1) by (auto simp: later_waves_def run_refills_def Let_def admission_metrics_def plan_metrics_def split: if_splits
      simp del: refill_rounds.simps)
  then have "run_inv env s' \<and> length (rf_classified s') = length (rf_classified s)"
  proof cases
    case (2 l metrics)
    have "run_inv env (rl_run l)" using refill_rounds_keep [OF 2(1) en disc] inv by simp
    moreover have "extends s (rl_run l)" using refill_rounds_extends [OF 2(1) en] inv by (simp add: run_inv_def)
    then have "length (rf_classified (rl_run l)) = length (rf_classified s)" unfolding extends_def by (metis length_map)
    ultimately show ?thesis using 2(3) by (simp add: 2(2) run_inv_def accounted_def conclusive_def decided_def)
  qed (use inv in simp)
  then show "run_inv env s'" "length (rf_classified s') = length (rf_classified s)" by simp_all
qed

section \<open>What the conclusion is given\<close>

lemma taint_step_results:
  assumes "taint_step sha m f (w, out) = (w', out')"
  shows "po_results out \<subseteq>\<^sub>m po_results out'" and "po_runtime_not_parsed out' = po_runtime_not_parsed out"
  using assms by (auto simp: taint_step_def Let_def map_le_def split: prod.splits if_splits)

lemma taint_results:
  assumes "fold (taint_step sha m) files (w, out) = (w', out')"
  shows "po_results out \<subseteq>\<^sub>m po_results out' \<and> po_runtime_not_parsed out' = po_runtime_not_parsed out"
  using assms
proof (induction files arbitrary: w out)
  case (Cons f files)
  obtain w1 out1 where step: "taint_step sha m f (w, out) = (w1, out1)" by force
  with Cons.IH [of w1 out1] Cons.prems taint_step_results [OF step] show ?case by (auto intro: map_le_trans)
qed (simp add: map_le_def)

lemma tainted_keeps:
  assumes "run_inv env s" and "po_results (rf_outputs s) \<subseteq>\<^sub>m po_results out" and "po_runtime_not_parsed out = po_runtime_not_parsed (rf_outputs s)"
  shows "run_inv env (s\<lparr>rf_outputs := out\<rparr>)"
proof -
  have "extends s (s\<lparr>rf_outputs := out\<rparr>)" using assms(2,3) by (simp add: extends_def conclusive_def)
  then have "accounted (s\<lparr>rf_outputs := out\<rparr>) i" if "accounted s i" for i using that accounted_mono by blast
  then show ?thesis using assms(1,3) by (simp add: run_inv_def decided_def)
qed

lemma touch_keeps:
  assumes "touch_hits m (w, s) = (w', s')" and inv: "run_inv env s"
  shows "run_inv env s'" and "rf_classified s' = rf_classified s"
proof -
  have "rf_classified s' = rf_classified s \<and> rf_admission s' = rf_admission s \<and> rf_runtime s' = rf_runtime s
      \<and> rf_classifications s' = rf_classifications s \<and> po_results (rf_outputs s') = po_results (rf_outputs s)
      \<and> po_runtime_not_parsed (rf_outputs s') = po_runtime_not_parsed (rf_outputs s)
      \<and> (0 < em_stage_deadline_exhausted_count (rf_metrics s) \<longrightarrow> 0 < em_stage_deadline_exhausted_count (rf_metrics s'))"
    using assms(1) by (auto simp: touch_hits_def Let_def split: prod.splits result.splits cache_port_error.splits)
  with inv show "run_inv env s'" "rf_classified s' = rf_classified s"
    by (simp_all add: run_inv_def accounted_def conclusive_def decided_def)
qed

text \<open>A run that kept its invariant is one the conclusion can account for.\<close>

lemma run_inv_complete:
  assumes inv: "run_inv env s" and env: "rv_discovery env = si_discovery input"
    and warnings: "\<forall>r \<in> set diagnostics. rg_severity r = SevWarning"
  shows "phases_complete rel (executed_of input inventory diagnostics cache_ms parse_ms compression_ms s)"
proof -
  have "\<not> lost_result f (action_of (rf_admission s) plan) (rf_classifications s) (rf_runtime s) (rf_outputs s)"
    if plan: "plan \<in> set (rf_classified s)" and f: "df_file_identity f = cl_file_identity plan" for plan f
  proof
    assume lost: "lost_result f (action_of (rf_admission s) plan) (rf_classifications s) (rf_runtime s) (rf_outputs s)"
    then have out: "\<not> accounted s (cl_file_identity plan)" and admit: "is_admit (action_of (rf_admission s) plan)"
      unfolding lost_result_def accounted_def conclusive_def f by auto
    show False
    proof (cases "find (\<lambda>d. ad_file_identity d = cl_file_identity plan) (rf_admission s)")
      case None
      then have "cl_file_identity plan \<notin> decided s" by (auto simp: find_None_iff decided_def)
      moreover have "is_admit (cl_action plan)" using admit None by (simp add: action_of_def unwrap_or_def)
      ultimately have "cl_file_identity plan \<in> rf_runtime s" using inv plan by (auto simp: run_inv_def)
      with out show False by (simp add: accounted_def)
    next
      case (Some d)
      then have "d \<in> set (rf_admission s)" "ad_file_identity d = cl_file_identity plan" by (auto simp: find_Some_iff)
      moreover have "is_admit (ad_action d)" using admit Some by (simp add: action_of_def unwrap_or_def)
      ultimately show False using inv out by (auto simp: run_inv_def)
    qed
  qed
  moreover have "df_file_identity f = cl_file_identity plan" if "file_of rel (snapshot_of (si_discovery input)) plan = Ok (f, p)" for plan f p
    using that by (auto simp: file_of_def ok_or_def snapshot_of_key split: option.splits)
  ultimately show ?thesis using inv warnings
    by (auto simp: phases_complete_def executed_of_def run_inv_def split: result.splits)
qed

lemma inventory_accepts:
  assumes "build_inventory rel discovery = Ok inventory" and "distinct (map df_file_identity discovery)"
  shows "discovery_ok discovery"
proof -
  have "list_all2 (\<lambda>f r. and_then (map_err scheduler_internal (rel (df_path f))) (\<lambda>relative_path.
      map_err scheduler_internal (InventoryRecord_from_discovered f relative_path)) = Ok r) discovery inventory"
    using assms(1) by (simp add: build_inventory_def collect_results_Ok)
  then have "\<exists>p r. InventoryRecord_from_discovered f p = Ok r" if "f \<in> set discovery" for f
    using that by (auto simp: list_all2_conv_all_nth in_set_conv_nth) (metis map_err_Ok)
  then show ?thesis using assms(2) accepted_guard unfolding discovery_ok_def by metis
qed

lemma engine_of_rel: "en_rel (engine_of m input) = rel_of m input"
  by (simp add: engine_of_def)

lemma finish_run_Ok:
  assumes "finish_run m input env inventory diagnostics cache_ms started (w, s) = Ok (w', out)"
    and inv: "run_inv env s" and env: "rv_discovery env = si_discovery input"
    and warnings: "\<forall>r \<in> set diagnostics. rg_severity r = SevWarning"
  obtains x where "conclude_run (en_uni (engine_of m input)) (en_enc (engine_of m input)) (en_sha (engine_of m input)) (rel_of m input)
      (si_profile input) (si_rejected_profile_hash input) x = Ok (so_conclusion out)"
    "phases_complete (rel_of m input) x" "xr_classified x = rf_classified s" "so_scan_run_id out = si_scan_run_id input"
proof -
  obtain w1 po where taint: "fold (taint_step (en_sha (engine_of m input)) m) (si_discovery input) (w, rf_outputs s) = (w1, po)" by force
  obtain t w2 where now: "clock_of m w1 = (t, w2)" by force
  obtain w3 s1 where touch: "touch_hits m (w2, s\<lparr>rf_outputs := po\<rparr>) = (w3, s1)" by force
  obtain ms w4 where render: "render_time m (engine_of m input) env s1 w3 = (ms, w4)" by force
  have "run_inv env (s\<lparr>rf_outputs := po\<rparr>)" using tainted_keeps [OF inv] taint_results [OF taint] by simp
  note kept = touch_keeps [OF touch this]
  let ?x = "executed_of input inventory diagnostics cache_ms (saturating_sub t started) ms s1"
  have "conclude_run (en_uni (engine_of m input)) (en_enc (engine_of m input)) (en_sha (engine_of m input)) (rel_of m input)
      (si_profile input) (si_rejected_profile_hash input) ?x = Ok (so_conclusion out)" "so_scan_run_id out = si_scan_run_id input"
    using assms(1) by (auto simp: finish_run_def taint now touch render engine_of_rel Let_def) (auto simp: case_prod_beta)
  moreover have "phases_complete (rel_of m input) ?x" by (rule run_inv_complete [OF kept(1) env warnings])
  moreover have "xr_classified ?x = rf_classified s" using kept(2) by (simp add: executed_of_def)
  ultimately show thesis by (intro that [of ?x])
qed

lemma run_waves_Ok:
  assumes "run_waves m input inventory existed_before cache_ms w = Some (Ok (w', out))" and disc: "discovery_ok (si_discovery input)"
    and pools: "ordered_executor (en_classify_pool (mc_engine m))" "ordered_executor (en_parse_pool (mc_engine m))"
  obtains x where "conclude_run (en_uni (engine_of m input)) (en_enc (engine_of m input)) (en_sha (engine_of m input)) (rel_of m input)
      (si_profile input) (si_rejected_profile_hash input) x = Ok (so_conclusion out)"
    "phases_complete (rel_of m input) x" "length (xr_classified x) = length (si_discovery input)"
    "so_scan_run_id out = si_scan_run_id input"
proof -
  let ?en = "engine_of m input"
  have en: "sound_engine ?en" using pools engine_of_room [of m input] by (simp add: sound_engine_def engine_of_def)
  define diagnostics where "diagnostics = (\<lambda>warnings. map (discovery_issue_warning (mc_is_abs m)) (si_discovery_issues input)
    @ map warning_of warnings)"
  from assms(1) obtain hash build metrics w1 w2 s warnings started w3 s2 where
    first: "first_wave ?en (run_env_of input existed_before hash build) (first_plan ?en input) metrics w1
      = Some (Ok (w2, s, warnings, started))"
    and later: "later_waves ?en (run_env_of input existed_before hash build) (w2, s) = Some (Ok (w3, s2))"
    and fin: "finish_run m input (run_env_of input existed_before hash build) inventory (diagnostics warnings) cache_ms started (w3, s2) = Ok (w', out)"
    by (auto simp: run_waves_def diagnostics_def Let_def case_prod_beta)
  have warn: "\<forall>r \<in> set (diagnostics warnings). rg_severity r = SevWarning" by (auto simp: diagnostics_def discovery_issue_warning_def)
  define env where "env = run_env_of input existed_before hash build"
  have env: "rv_discovery env = si_discovery input" by (simp add: env_def run_env_of_def)
  have disc': "discovery_ok (rv_discovery env)" by (simp add: env disc)
  note one = first_wave_keeps [OF first [folded env_def] en disc env]
  note two = later_waves_keep [OF later [folded env_def] en disc' one(1)]
  from finish_run_Ok [OF fin [folded env_def] two(1) env warn] obtain x where
    "conclude_run (en_uni ?en) (en_enc ?en) (en_sha ?en) (rel_of m input) (si_profile input) (si_rejected_profile_hash input) x
      = Ok (so_conclusion out)" "phases_complete (rel_of m input) x" "xr_classified x = rf_classified s2"
    "so_scan_run_id out = si_scan_run_id input" .
  with that two(2) one(2) first_plan_facts(2) [OF disc env] show thesis by metis
qed

text \<open>C1. What a run promises to the shell. Discovery reports every file once, an inventory prepared
  outside is the one the code builds, and the pools return their results in order. Then an
  outcome is a success only without any diagnostic; it is an error exactly when it has no context
  and exactly when it carries an error diagnostic; otherwise its text is within the global budget
  and its summary validates and counts every discovered file. At most 257 warnings are reported.
  No phase has to be trusted for this: every admitted file has a result, was stopped by a counted
  deadline, or has no text.\<close>

theorem execute_contract:
  assumes run: "execute m input w = Some (Ok (w', out))" and dist: "distinct (map df_file_identity (si_discovery input))"
    and prepared: "\<And>inventory. si_prepared_inventory input = Some inventory \<Longrightarrow>
      build_inventory (rel_of m input) (si_discovery input) = Ok inventory"
    and pools: "ordered_executor (en_classify_pool (mc_engine m))" "ordered_executor (en_parse_pool (mc_engine m))"
  shows "let c = so_conclusion out in so_scan_run_id out = si_scan_run_id input
    \<and> (rn_terminal_intent c = IntentSuccess \<longrightarrow> rn_diagnostics c = [])
    \<and> (rn_terminal_intent c = IntentError \<longleftrightarrow> rn_context c = None)
    \<and> (rn_terminal_intent c = IntentError \<longleftrightarrow> (\<exists>r \<in> set (rn_diagnostics c). rg_severity r = SevError))
    \<and> length (filter (\<lambda>r. rg_severity r = SevWarning) (rn_diagnostics c)) \<le> 257
    \<and> (\<forall>n. rn_context c = Some n \<longrightarrow> cn_final_context n \<noteq> []
         \<and> length (cn_final_context n) \<le> cp_global_max_chars (ns_context (si_profile input))
         \<and> cn_status n = intent_status (rn_terminal_intent c)
         \<and> validate_context_summary (cn_summary n) = Ok ()
         \<and> cs_source_file_count (cn_summary n) = length (si_discovery input)
         \<and> cs_included_file_count (cn_summary n) = cs_success_count (cn_summary n))"
proof (cases "MAX_SOURCE_FILES_PER_RUN < length (si_discovery input)")
  case True
  with run have "so_conclusion out = too_many_files input" "so_scan_run_id out = si_scan_run_id input"
    by (auto simp: execute_def refuse_too_many_def case_prod_beta Let_def split: if_splits)
  then show ?thesis by (simp add: too_many_files_def Let_def)
next
  case False
  with run obtain w1 w2 inventory existed_before cache_ms where inv: "run_inventory m input w1 = Ok (w2, inventory, existed_before, cache_ms)"
    and waves: "run_waves m input inventory existed_before cache_ms w2 = Some (Ok (w', out))"
    by (auto simp: execute_def case_prod_beta Let_def split: if_splits)
  have "\<exists>inventory. build_inventory (rel_of m input) (si_discovery input) = Ok inventory"
    using inv prepared by (auto simp: run_inventory_def split: option.splits)
  then have disc: "discovery_ok (si_discovery input)" using inventory_accepts dist by blast
  obtain x where x: "conclude_run (en_uni (engine_of m input)) (en_enc (engine_of m input)) (en_sha (engine_of m input)) (rel_of m input)
      (si_profile input) (si_rejected_profile_hash input) x = Ok (so_conclusion out)"
    "phases_complete (rel_of m input) x" "length (xr_classified x) = length (si_discovery input)"
    "so_scan_run_id out = si_scan_run_id input"
    by (rule run_waves_Ok [OF waves disc pools])
  have "length (xr_classified x) \<le> u64_max" using False x(3) by (simp add: MAX_SOURCE_FILES_PER_RUN_def u64_max_def)
  from conclusion_contract [OF x(1,2) this] x(4) show ?thesis unfolding Let_def x(3) by blast
qed

section \<open>A concrete run\<close>

text \<open>The note of the fixtures in a work directory of its own, an empty cache, one ordinary policy.\<close>

definition fixture_machine :: "u64 machine" where
  "fixture_machine = \<lparr>mc_engine = fixture_engine, mc_strip = (\<lambda>_ path. Some (drop 3 path)), mc_is_abs = (\<lambda>_. True),
     mc_prepare_inventory = (\<lambda>_ _ _ w. (Ok {}, w)), mc_touch_access = (\<lambda>_ _ _ w. (Ok (), w)),
     mc_is_tainted = (\<lambda>_ w. (False, w)), mc_guard_metrics = (\<lambda>w. (None, w)), mc_pool_created = (\<lambda>_ w. (True, w))\<rparr>"

definition fixture_settings :: normalized_settings where
  "fixture_settings = daily_settings\<lparr>ns_admission_policy_version := lit ''budget_admission_v2''\<rparr>"

definition fixture_input :: scheduled_run_input where
  "fixture_input = \<lparr>si_scan_run_id = 1, si_started_at_ms = 0, si_work_dir = lit ''/w'', si_discovery = [fixture_discovered],
     si_discovery_issues = [], si_profile = fixture_settings, si_workers = pv_workers fixture_env, si_engine_version = [],
     si_engine_build = [], si_context_profile_hash = fixture_hex, si_rejected_profile_hash = fixture_hex,
     si_discovery_duration_ms = 0, si_deadline_origin_ms = 0, si_work_deadline_ms = 100, si_absolute_deadline_ms = 2100,
     si_prepared_inventory = None, si_prepared_existed_before = None, si_prepared_duration_ms = 0\<rparr>"

definition fixture_first :: classified_plan where
  "fixture_first = classified_of id (plan_candidate_of fixture_discovered) (Admit LightText) NotPdf"

lemma fixture_candidate_route:
  "classify_candidate_v2 (plan_candidate_of fixture_discovered) fixture_settings = DecisionRoute LightText"
  "pc_source_guard_kind (plan_candidate_of fixture_discovered) \<noteq> Unavailable"
  by (simp_all add: plan_candidate_of_def fixture_discovered_def fixture_settings_def daily_settings_def classify_candidate_v2_def
      light_text_extensions_def unwrap_or_def source_guard_kind_text_inverse [of UnixInodeCtimeV1, simplified] Let_def)

lemma fixture_first_plan: "first_plan (engine_of fixture_machine fixture_input) fixture_input = [fixture_first]"
proof -
  have "preselect id fixture_settings (plan_candidate_of fixture_discovered) = Inr (plan_candidate_of fixture_discovered, LightText)"
    using fixture_candidate_route by (simp add: preselect_Inr)
  moreover have "en_uni (engine_of fixture_machine fixture_input) = id" by (simp add: engine_of_def fixture_machine_def fixture_engine_def)
  moreover have "0 < ns_max_candidate_files fixture_settings" by (simp add: fixture_settings_def daily_settings_def)
  ultimately show ?thesis
    by (simp add: first_plan_def ClassificationPlan_build_def ClassificationPlan_build_with_remaining_def fixture_input_def
      stage_a_step_def fixture_first_def Let_def)
qed


lemma fixture_first_fields: "cl_file_identity fixture_first = lit ''b''" "cl_pdf_classification fixture_first = NotPdf"
  "cl_action fixture_first = Admit LightText"
  by (simp_all add: fixture_first_def) (simp add: fixture_discovered_def)

lemma fixture_classes:
  "run_classifications pool n hash_of p env [fixture_first] metrics w = Some (Ok (w, no_classifications metrics))"
  by (simp add: run_classifications_def classify_step_def fixture_first_fields wave_loop.simps no_classifications_def Let_def)

lemma fixture_model_exists:
  "\<exists>model. budget_model_of (run_env_of fixture_input ex h b) [fixture_first] Map.empty {} = Ok model \<and> wf_budget model
     \<and> bm_base_chars model \<le> 12500 \<and> bm_global_max_chars model = 500000 \<and> bm_per_file_max_chars model = 100000"
proof -
  obtain model where "ContextBudgetModel_new (ns_context daily_settings) (fixed_context_sections (ns_context daily_settings) Daily 1) = Ok model"
    "bm_base_chars model \<le> 12500" "bm_global_max_chars model = 500000" "bm_per_file_max_chars model = 100000" using fixture_budget by auto
  moreover have "classifier_error_line fixture_first Map.empty {} = None" by (simp add: classifier_error_line_def fixture_first_fields)
  moreover have "rv_profile (run_env_of fixture_input ex h b) = fixture_settings" "length (rv_discovery (run_env_of fixture_input ex h b)) = 1"
    by (simp_all add: run_env_of_def fixture_input_def)
  moreover have "ns_context fixture_settings = ns_context daily_settings" "ns_report_mode fixture_settings = Daily"
    by (simp_all add: fixture_settings_def daily_settings_def)
  ultimately show ?thesis
    by (intro exI [of _ model]) (simp add: budget_model_of_def List.map_filter_def wf_budget_def u64_max_def)
qed

lemma fixture_parse_phase:
  "\<exists>w' out m. run_parses run_pass (Suc n) sha fixture_ports (parse_env_of (run_env_of fixture_input ex h b) cs {})
     [\<lparr>ad_file_identity = lit ''b'', ad_relative_path = path, ad_extension = ext, ad_priority = prio, ad_action = Admit LightText,
       ad_reserved_chars = r\<rparr>] metrics 4 = Some (Ok (w', out, m)) \<and> po_results out = [lit ''b'' \<mapsto> fixture_parsed]
       \<and> po_runtime_not_parsed out = {}"
proof -
  let ?env = "parse_env_of (run_env_of fixture_input ex h b) cs {}"
  obtain g where guard: "expected_guard fixture_discovered = Some g" using fixture_due by (auto simp: guarded_def fixture_env_def)
  have env: "pv_snapshot ?env (lit ''b'') = Some fixture_discovered" "pv_work_deadline ?env = 100"
    "pv_runtime_classification ?env = {}" "df_file_identity fixture_discovered = lit ''b''"
    by (simp_all add: parse_env_of_def run_env_of_def fixture_input_def snapshot_of_def fixture_discovered_def)
  have ok: "ps_parse_status fixture_parsed = Success" by (simp add: fixture_parsed_def)
  have ports: "pt_now fixture_ports w = (w, w + 1)" "pt_verify fixture_ports x y w = (True, w)"
     "pt_lookup_parse fixture_ports a c d w = (Ok \<lparr>pl_parse_profile_hash = [], pl_lookup = LookupMiss NewFile\<rparr>, w)"
     "pt_write_parse fixture_ports u v w = (Ok (), w)" "pt_parse fixture_ports q w = (fixture_parsed, w)" for w x y a c d u v q
    by (simp_all add: fixture_ports_def)
  show ?thesis
    by (simp add: run_parses_def admit_step_def lookup_step_def skips_parse_def env ports queue_miss_def Let_def put_cache_status_def
      parse_waves_def wave_loop.simps parse_wave_def prepare_step_def guard wave_map_def merge_step_def ok write_result_def
      count_attempts_def run_pass.simps put_hash_def put_result_def no_outputs_def)
qed


lemma fixture_engine_of: "en_uni (engine_of fixture_machine fixture_input) = id" "en_ports (engine_of fixture_machine fixture_input) = fixture_ports"
  "en_classify_pool (engine_of fixture_machine fixture_input) = run_pass" "en_parse_pool (engine_of fixture_machine fixture_input) = run_pass"
  "en_hash_of (engine_of fixture_machine fixture_input) = fixture_hash_of" "clock_of fixture_machine = (\<lambda>w. (w, w + 1))"
  by (simp_all add: engine_of_def fixture_machine_def fixture_engine_def fixture_ports_def)

lemma fixture_admitted:
  assumes "wf_budget model" "bm_base_chars model \<le> 12500" "bm_global_max_chars model = 500000" "bm_per_file_max_chars model = 100000"
  shows "\<exists>path ext prio r. ContentAdmissionPlan_build [fixture_first] fixture_settings model Map.empty =
    [\<lparr>ad_file_identity = lit ''b'', ad_relative_path = path, ad_extension = ext, ad_priority = prio, ad_action = Admit LightText,
      ad_reserved_chars = r\<rparr>]"
proof -
  have "plan_delta fixture_settings model fixture_first LightText \<le> 10000"
    by (simp add: plan_delta_def reserved_delta_def route_hint_of_def fixture_first_def section_max_defs assms(4)
        fixture_settings_def daily_settings_def) (simp add: plan_candidate_of_def fixture_discovered_def Let_def)
  then have "admits model 0 (plan_delta fixture_settings model fixture_first LightText)" using assms by (simp add: bm.fits_iff)
  then show ?thesis
    by (simp add: ContentAdmissionPlan_build_def ContentAdmissionPlan_build_with_remaining_def stage_b_step_def fixture_first_fields
      admit_plain_def run_pass.simps Let_def)
qed

lemma fixture_first_wave:
  "\<exists>w' s t d. first_wave (engine_of fixture_machine fixture_input) (run_env_of fixture_input {} fixture_hex b) [fixture_first] metrics 3
      = Some (Ok (w', s, [], t)) \<and> rf_classified s = [fixture_first] \<and> rf_admission s = [d] \<and> ad_file_identity d = lit ''b''
      \<and> ad_action d = Admit LightText \<and> po_results (rf_outputs s) = [lit ''b'' \<mapsto> fixture_parsed]
      \<and> po_runtime_not_parsed (rf_outputs s) = {} \<and> rf_runtime s = {}"
proof -
  let ?env = "run_env_of fixture_input {} fixture_hex b"
  obtain model where model: "budget_model_of ?env [fixture_first] Map.empty {} = Ok model" "wf_budget model"
    "bm_base_chars model \<le> 12500" "bm_global_max_chars model = 500000" "bm_per_file_max_chars model = 100000"
    using fixture_model_exists by blast
  obtain path ext prio r where adm: "ContentAdmissionPlan_build [fixture_first] fixture_settings model Map.empty =
    [\<lparr>ad_file_identity = lit ''b'', ad_relative_path = path, ad_extension = ext, ad_priority = prio, ad_action = Admit LightText,
      ad_reserved_chars = r\<rparr>]" using fixture_admitted [OF model(2-5)] by blast
  have none: "cp_results (no_classifications metrics) = Map.empty" "cp_stopped (no_classifications metrics) = {}"
    "cp_write_warnings (no_classifications metrics) = []" by (simp_all add: no_classifications_def)
  have profile: "rv_profile ?env = fixture_settings" by (simp add: run_env_of_def fixture_input_def)
  have admitted: "first_admitted (no_classifications metrics) [fixture_first] = [fixture_first]"
    by (simp add: first_admitted_def none fixture_first_fields)
  obtain n where n: "en_concurrency (engine_of fixture_machine fixture_input) = Suc n" using engine_of_room gr0_implies_Suc by blast
  obtain w' out m where parse: "run_parses run_pass (Suc n) (en_sha (engine_of fixture_machine fixture_input)) fixture_ports (parse_env_of ?env Map.empty {})
     [\<lparr>ad_file_identity = lit ''b'', ad_relative_path = path, ad_extension = ext, ad_priority = prio, ad_action = Admit LightText,
       ad_reserved_chars = r\<rparr>] (admission_metrics (ContentAdmissionPlan_build [fixture_first] fixture_settings model Map.empty) Map.empty
         (cp_metrics (no_classifications metrics))) 4 = Some (Ok (w', out, m))"
    "po_results out = [lit ''b'' \<mapsto> fixture_parsed]" "po_runtime_not_parsed out = {}"
    using fixture_parse_phase by blast
  have now: "pt_now fixture_ports w = (w, w + 1)" for w by (simp add: fixture_ports_def)
  show ?thesis
    using parse by (simp add: first_wave_def fixture_engine_of n fixture_classes none model(1) admitted profile adm now Let_def)
qed

lemma fixture_rel_of: "rel_of fixture_machine fixture_input (lit ''/w/b.txt'') = Ok (lit ''b.txt'')"
  by (simp add: rel_of_def relative_contract_path_def fixture_machine_def normalize_contract_path_text_def strip_prefix_opt_def
    lit_def replace_char_def split_on.simps Let_def)


lemma fixture_file_of_run:
  "file_of (rel_of fixture_machine fixture_input) (snapshot_of [fixture_discovered]) fixture_first = Ok (fixture_discovered, lit ''b.txt'')"
proof -
  have "df_path fixture_discovered = lit ''/w/b.txt''" "df_file_identity fixture_discovered = lit ''b''"
    by (simp_all add: fixture_discovered_def)
  then show ?thesis by (simp add: file_of_def snapshot_of_def fixture_first_fields ok_or_def fixture_rel_of)
qed

lemma fixture_inventory_of:
  "\<exists>rec. build_inventory (rel_of fixture_machine fixture_input) [fixture_discovered] = Ok [rec] \<and> iv_file_identity rec = lit ''b''
    \<and> iv_file_type rec = lit ''.txt''"
proof -
  obtain rec where rec: "InventoryRecord_from_discovered fixture_discovered (lit ''b.txt'') = Ok rec"
    using fixture_inventory by (auto simp: is_ok_iff)
  then have "iv_file_identity rec = lit ''b''" "iv_file_type rec = lit ''.txt''"
    by (auto simp: InventoryRecord_from_discovered_def) (simp_all add: fixture_discovered_def)
  moreover have "df_path fixture_discovered = lit ''/w/b.txt''" by (simp add: fixture_discovered_def)
  ultimately show ?thesis using rec by (simp add: build_inventory_def fixture_rel_of)
qed

lemma conclude_run_total:
  assumes "build_evidence rel (xr_discovery x) (xr_classified x) (xr_admission x) (xr_classifications x)
      (xr_runtime_classification x) (xr_outputs x) = Ok evidence"
    and "build_file_results sha rel (xr_classified x) (snapshot_of (xr_discovery x)) (xr_admission x) (xr_classifications x)
      (xr_classification_audits x) (xr_outputs x) (xr_runtime_classification x) h = Ok rows"
    and "extension_metrics (xr_inventory x) rows = Ok metrics"
  shows "\<exists>c. conclude_run uni enc sha rel profile h x = Ok c"
  using assms by (simp add: conclude_run_def split: result.split)

lemma fixture_row_metrics:
  assumes "iv_file_identity rec = lit ''b''" and "iv_file_type rec = lit ''.txt''"
    and "po_results out = [lit ''b'' \<mapsto> fixture_parsed]" and "po_runtime_not_parsed out = {}"
  shows "\<exists>ms. extension_metrics [rec] [file_result sha fixture_discovered p (Admit LightText) cs audits out {} h] = Ok ms"
proof -
  let ?row = "file_result sha fixture_discovered p (Admit LightText) cs audits out {} h"
  have i: "df_file_identity fixture_discovered = lit ''b''" by (simp add: fixture_discovered_def)
  have "changed_result out fixture_discovered = None"
    using assms(3) i by (simp add: changed_result_def is_source_version_changed_result_def) (simp add: fixture_parsed_def)
  then have "outcome_of sha fixture_discovered (Admit LightText) cs {} out = result_outcome fixture_parsed"
    using assms(3,4) i by (simp add: outcome_of_def Let_def)
  then have row: "fr_file_identity ?row = lit ''b''" "fr_parse_status ?row = Success" "fr_parse_duration_ms ?row = 3"
    by (simp_all add: row_fields i result_outcome_def) (simp_all add: fixture_parsed_def file_result_def result_outcome_def Let_def case_prod_beta)
  have ext: "require_extension (lit ''.txt'') field = Ok ()" for field
    by (simp add: require_extension_def is_extension_def lit_def is_ascii_upper_def)
  show ?thesis
    by (simp add: extension_metrics_def extension_step_def row assms(1,2) audit_checked_add_def checked_add_def u64_max_def ok_or_def
      unwrap_or_def ext Let_def)
qed


lemma fixture_untainted: "fold (taint_step sha fixture_machine) files (w, out) = (w, out)"
  by (induction files arbitrary: w out) (simp_all add: taint_step_def fixture_machine_def Let_def)

lemma fixture_finish:
  assumes "iv_file_identity rec = lit ''b''" and "iv_file_type rec = lit ''.txt''" and s: "rf_classified s = [fixture_first]"
    "rf_admission s = [d]" "ad_file_identity d = lit ''b''" "ad_action d = Admit LightText"
    "po_results (rf_outputs s) = [lit ''b'' \<mapsto> fixture_parsed]" "po_runtime_not_parsed (rf_outputs s) = {}" "rf_runtime s = {}"
  shows "\<exists>w' out. finish_run fixture_machine fixture_input env [rec] ds ms started (w, s) = Ok (w', out)"
proof -
  obtain t w2 where now: "clock_of fixture_machine w = (t, w2)" by force
  have touch: "touch_hits fixture_machine (w2, s) = (w2 + 1, s)"
    by (simp add: touch_hits_def fixture_engine_of) (simp add: fixture_machine_def)
  obtain cs w4 where render: "render_time fixture_machine (engine_of fixture_machine fixture_input) env s (Suc w2) = (cs, w4)" by force
  let ?x = "executed_of fixture_input [rec] ds ms (saturating_sub t started) cs s"
  have disc: "si_discovery fixture_input = [fixture_discovered]" by (simp add: fixture_input_def)
  have act: "action_of [d] fixture_first = Admit LightText" using s(3,4) by (simp add: action_of_def fixture_first_fields unwrap_or_def)
  have "\<exists>c. conclude_run uni enc sha (rel_of fixture_machine fixture_input) profile h ?x = Ok c" for uni enc sha profile h
  proof -
    obtain metrics where metrics: "extension_metrics [rec] [file_result sha fixture_discovered (lit ''b.txt'') (Admit LightText)
        (rf_classifications s) (rf_audits s) (rf_outputs s) {} h] = Ok metrics"
      using fixture_row_metrics [OF assms(1,2) s(5,6)] by blast
    show ?thesis
    proof (rule conclude_run_total)
      show "build_evidence (rel_of fixture_machine fixture_input) (xr_discovery ?x) (xr_classified ?x) (xr_admission ?x)
          (xr_classifications ?x) (xr_runtime_classification ?x) (xr_outputs ?x)
        = Ok [file_evidence fixture_discovered (lit ''b.txt'') (Admit LightText) (rf_classifications s) {} (rf_outputs s)]"
        by (simp add: executed_of_def build_evidence_def s disc fixture_file_of_run act)
      show "build_file_results sha (rel_of fixture_machine fixture_input) (xr_classified ?x) (snapshot_of (xr_discovery ?x)) (xr_admission ?x)
          (xr_classifications ?x) (xr_classification_audits ?x) (xr_outputs ?x) (xr_runtime_classification ?x) h
        = Ok [file_result sha fixture_discovered (lit ''b.txt'') (Admit LightText) (rf_classifications s) (rf_audits s) (rf_outputs s) {} h]"
        by (simp add: executed_of_def build_file_results_def s disc fixture_file_of_run act)
    show "extension_metrics (xr_inventory ?x) [file_result sha fixture_discovered (lit ''b.txt'') (Admit LightText)
        (rf_classifications s) (rf_audits s) (rf_outputs s) {} h] = Ok metrics"
        by (simp add: executed_of_def metrics)
    qed
  qed
  then obtain c where c: "conclude_run (en_uni (engine_of fixture_machine fixture_input)) (en_enc (engine_of fixture_machine fixture_input))
      (en_sha (engine_of fixture_machine fixture_input)) (rel_of fixture_machine fixture_input) (si_profile fixture_input)
      (si_rejected_profile_hash fixture_input) ?x = Ok c" by blast
  show ?thesis
    using c by (simp add: finish_run_def fixture_untainted now touch render engine_of_rel Let_def) (simp add: case_prod_beta)
qed

lemma fixture_runs: "\<exists>w' out. execute fixture_machine fixture_input 0 = Some (Ok (w', out))"
proof -
  obtain z where z: "z = replicate 64 (48::nat)" by simp
  obtain rec where rec: "build_inventory (rel_of fixture_machine fixture_input) [fixture_discovered] = Ok [rec]"
    "iv_file_identity rec = lit ''b''" "iv_file_type rec = lit ''.txt''" using fixture_inventory_of by blast
  have input: "si_discovery fixture_input = [fixture_discovered]" "si_prepared_inventory fixture_input = None"
    "si_prepared_existed_before fixture_input = None" "si_absolute_deadline_ms fixture_input = 2100" "si_profile fixture_input = fixture_settings"
    by (simp_all add: fixture_input_def)
  have machine: "mc_prepare_inventory fixture_machine a b c w = (Ok {}, w)" "mc_guard_metrics fixture_machine w = (None, w)"
    "mc_pool_created fixture_machine n w = (True, w)" for a b c w n by (simp_all add: fixture_machine_def)
  have inv: "run_inventory fixture_machine fixture_input 1 = Ok (3, [rec], {}, 1)"
    by (simp add: run_inventory_def input rec(1) fixture_engine_of machine saturating_sub_def Let_def)
  have pool: "create_executor fixture_machine n w = Ok w" for n w by (simp add: create_executor_def machine)
  have build: "classifier_build_of fixture_input [fixture_first] = Ok (replicate 64 48)"
    by (simp add: classifier_build_of_def fixture_first_fields) (simp add: fixture_input_def fixture_env_def)
  note build = build [folded z]
  have hash: "fixture_hash_of p = Ok fixture_hex" for p by (simp add: fixture_hash_of_def)
  define ms where "ms = first_plan_metrics [fixture_first] (apply_observed_source_guard_metrics None (source_guard_metrics [fixture_discovered]))"
  obtain w1 s t d where wave: "first_wave (engine_of fixture_machine fixture_input) (run_env_of fixture_input {} fixture_hex z)
      [fixture_first] ms 3 = Some (Ok (w1, s, [], t))"
    and s: "rf_classified s = [fixture_first]" "rf_admission s = [d]" "ad_file_identity d = lit ''b''" "ad_action d = Admit LightText"
      "po_results (rf_outputs s) = [lit ''b'' \<mapsto> fixture_parsed]" "po_runtime_not_parsed (rf_outputs s) = {}" "rf_runtime s = {}"
    using fixture_first_wave [of z ms] by blast
  have later: "later_waves en (run_env_of fixture_input {} h b) ws = Some (Ok ws)" for en h b ws
    by (simp add: later_waves_def run_env_of_def fixture_input_def fixture_settings_def lit_def)
  obtain w2 out where fin: "finish_run fixture_machine fixture_input (run_env_of fixture_input {} fixture_hex z) [rec]
      (map (discovery_issue_warning (mc_is_abs fixture_machine)) (si_discovery_issues fixture_input)) 1 t (w1, s) = Ok (w2, out)"
    using fixture_finish [OF rec(2,3) s] by blast
  have "run_waves fixture_machine fixture_input [rec] {} 1 3 = Some (Ok (w2, out))"
    using wave fin
    by (simp add: run_waves_def machine pool fixture_first_plan fixture_engine_of hash build later input ms_def Let_def)
  then show ?thesis
    using inv by (simp add: execute_def fixture_engine_of input MAX_SOURCE_FILES_PER_RUN_def)
qed

theorem execute_contract_witness:
  "\<exists>w' out. execute fixture_machine fixture_input 0 = Some (Ok (w', out)) \<and> so_scan_run_id out = 1
    \<and> (rn_terminal_intent (so_conclusion out) = IntentError \<longleftrightarrow> rn_context (so_conclusion out) = None)"
proof -
  obtain w' out where run: "execute fixture_machine fixture_input 0 = Some (Ok (w', out))" using fixture_runs by blast
  have "distinct (map df_file_identity (si_discovery fixture_input))" "si_prepared_inventory fixture_input = None"
    "si_scan_run_id fixture_input = 1" by (simp_all add: fixture_input_def)
  moreover have "ordered_executor (en_classify_pool (mc_engine fixture_machine))" "ordered_executor (en_parse_pool (mc_engine fixture_machine))"
    by (simp_all add: fixture_machine_def fixture_engine_def sequential.ordered_executor_axioms)
  ultimately show ?thesis using execute_contract [OF run] run by (simp add: Let_def)
qed

end
