(* ===== verification/Store_Types.thy ===== *)
theory Store_Types
  imports Scheduler_Outcome Scheduler_Ports
begin

text \<open>
  What the parts of the scanner database share: the errors of \<open>src/rust/scanner_core/src/store/types.rs\<close>
  with their diagnostics, integers of the width SQLite keeps (\<open>i64\<close> as \<open>int\<close>), the envelope of
  \<open>scanner_contract\<close> that a run publishes, and the functions of the JSON and hash libraries the
  store calls.
\<close>

section \<open>Integers of the database\<close>

definition I64_MAX :: int where "I64_MAX = 2 ^ 63 - 1"
definition I64_MIN :: int where "I64_MIN = - (2 ^ 63)"

definition i64_clamp :: "int \<Rightarrow> int" where "i64_clamp a = max I64_MIN (min I64_MAX a)"

definition i64_saturating_add :: "int \<Rightarrow> int \<Rightarrow> int" where "i64_saturating_add a b = i64_clamp (a + b)"
definition i64_saturating_sub :: "int \<Rightarrow> int \<Rightarrow> int" where "i64_saturating_sub a b = i64_clamp (a - b)"

definition i64_checked_add :: "int \<Rightarrow> int \<Rightarrow> int option" where
  "i64_checked_add a b = (if I64_MIN \<le> a + b \<and> a + b \<le> I64_MAX then Some (a + b) else None)"

lemma i64_clamp_le_iff: "b < I64_MAX \<Longrightarrow> i64_clamp a \<le> b \<longleftrightarrow> a \<le> b \<and> I64_MIN \<le> b"
  by (auto simp: i64_clamp_def I64_MAX_def I64_MIN_def)

lemma i64_clamp_id: "I64_MIN \<le> a \<Longrightarrow> a \<le> I64_MAX \<Longrightarrow> i64_clamp a = a"
  by (simp add: i64_clamp_def)

text \<open>The conversions \<open>as i64\<close> and \<open>as u64\<close> keep the 64 bits.\<close>

definition as_i64 :: "u64 \<Rightarrow> int" where
  "as_i64 v = (if int v \<le> I64_MAX then int v else int v - 2 ^ 64)"

definition as_u64 :: "int \<Rightarrow> u64" where
  "as_u64 i = nat (i mod 2 ^ 64)"

lemma as_i64_fits: "int v \<le> I64_MAX \<Longrightarrow> as_i64 v = int v"
  by (simp add: as_i64_def)

lemma as_u64_as_i64 [simp]: "v \<le> u64_max \<Longrightarrow> as_u64 (as_i64 v) = v"
proof -
  assume "v \<le> u64_max"
  then have "int v < 2 ^ 64" by (simp add: u64_max_def)
  then have "int v mod 2 ^ 64 = int v" by simp
  then show "as_u64 (as_i64 v) = v" by (simp add: as_u64_def as_i64_def)
qed

lemma as_u64_nonneg: "0 \<le> i \<Longrightarrow> i \<le> I64_MAX \<Longrightarrow> as_u64 i = nat i"
  by (simp add: as_u64_def I64_MAX_def)

section \<open>Errors\<close>

datatype store_error =
    StoreInvalidRequest rstring | StoreCacheOpen rstring | StoreCacheWrite rstring | StoreScanAlreadyRunning
  | StoreRequestInProgress | StoreRequestIdConflict | StoreRunCorrupt rstring | StoreRunNotFound | StoreLeaseLost
  | StoreSchemaMismatch int | StoreSchemaLayoutMismatch | StoreArtifactMismatch rstring
  | StoreAbsoluteDeadlineExhausted | StoreWorkDeadlineExhausted | StoreBusyTimeoutRestore rstring

fun store_error_code :: "store_error \<Rightarrow> error_code" where
  "store_error_code (StoreInvalidRequest _) = InvalidRequest"
| "store_error_code (StoreCacheOpen _) = CacheOpenFailed"
| "store_error_code (StoreCacheWrite _) = CacheWriteFailed"
| "store_error_code (StoreBusyTimeoutRestore _) = CacheWriteFailed"
| "store_error_code StoreLeaseLost = CacheWriteFailed"
| "store_error_code StoreScanAlreadyRunning = ScanAlreadyRunning"
| "store_error_code StoreRequestInProgress = RequestInProgress"
| "store_error_code StoreRequestIdConflict = RequestIdConflict"
| "store_error_code (StoreRunCorrupt _) = RunCorrupt"
| "store_error_code StoreRunNotFound = RunNotFound"
| "store_error_code (StoreSchemaMismatch _) = ScannerDbSchemaMismatch"
| "store_error_code StoreSchemaLayoutMismatch = ScannerDbSchemaMismatch"
| "store_error_code (StoreArtifactMismatch _) = BudgetModelMismatch"
| "store_error_code StoreAbsoluteDeadlineExhausted = StageDeadlineExhausted"
| "store_error_code StoreWorkDeadlineExhausted = StageDeadlineExhausted"

fun store_error_retryable :: "store_error \<Rightarrow> bool" where
  "store_error_retryable (StoreCacheOpen _) = True"
| "store_error_retryable (StoreCacheWrite _) = True"
| "store_error_retryable (StoreBusyTimeoutRestore _) = True"
| "store_error_retryable StoreScanAlreadyRunning = True"
| "store_error_retryable StoreRequestInProgress = True"
| "store_error_retryable StoreLeaseLost = True"
| "store_error_retryable StoreAbsoluteDeadlineExhausted = True"
| "store_error_retryable StoreWorkDeadlineExhausted = True"
| "store_error_retryable _ = False"

definition dec_int :: "int \<Rightarrow> rstring" where
  "dec_int i = (if i < 0 then lit ''-'' @ dec (nat (- i)) else dec (nat i))"

text \<open>The text of an error: the details of the database errors are not part of it.\<close>

fun store_error_text :: "store_error \<Rightarrow> rstring" where
  "store_error_text (StoreInvalidRequest s) = lit ''scanner request is invalid: '' @ s"
| "store_error_text (StoreCacheOpen _) = lit ''scanner database could not be opened''"
| "store_error_text (StoreCacheWrite _) = lit ''scanner database transaction failed''"
| "store_error_text StoreScanAlreadyRunning = lit ''another scanner run owns the database lease''"
| "store_error_text StoreRequestInProgress = lit ''this request is already running''"
| "store_error_text StoreRequestIdConflict = lit ''request id was reused with different logical input''"
| "store_error_text (StoreRunCorrupt s) = lit ''persisted scanner run is corrupt: '' @ s"
| "store_error_text StoreRunNotFound = lit ''scanner run was not found''"
| "store_error_text StoreLeaseLost = lit ''scanner run lease ownership was lost''"
| "store_error_text (StoreSchemaMismatch found) =
     lit ''scanner database schema mismatch: expected user_version=3, found '' @ dec_int found"
| "store_error_text StoreSchemaLayoutMismatch =
     lit ''scanner database is not the native Rust v3 layout; use an independent database''"
| "store_error_text (StoreArtifactMismatch s) = lit ''artifact is not dedup-compatible with the stored snapshot: '' @ s"
| "store_error_text StoreAbsoluteDeadlineExhausted = lit ''absolute deadline exhausted before terminal commit''"
| "store_error_text StoreWorkDeadlineExhausted = lit ''work deadline exhausted before cache commit''"
| "store_error_text (StoreBusyTimeoutRestore _) = lit ''scanner database busy timeout could not be restored''"

text \<open>A failed write is reported as one of ten reasons, found in the detail in this order.\<close>

definition write_failure_reasons :: "(string list \<times> string) list" where
  "write_failure_reasons =
     [([''UNIQUE constraint failed: context_artifacts.snapshot_key_sha256''], ''snapshot_key_unique''),
      ([''UNIQUE constraint failed''], ''unique_constraint''),
      ([''FOREIGN KEY constraint failed''], ''foreign_key_constraint''),
      ([''CHECK constraint failed''], ''check_constraint''),
      ([''NOT NULL constraint failed''], ''not_null_constraint''),
      ([''database is locked'', ''database is busy''], ''database_busy''),
      ([''database or disk is full''], ''disk_full''),
      ([''Invalid column type''], ''stored_column_type'')]"

definition write_failure_reason :: "rstring \<Rightarrow> rstring" where
  "write_failure_reason detail =
     (case find (\<lambda>(needles, _). list_ex (\<lambda>n. contains detail (lit n)) needles) write_failure_reasons of
        Some (_, reason) \<Rightarrow> lit reason
      | None \<Rightarrow> lit ''unclassified'')"

definition store_error_diagnostic :: "store_error \<Rightarrow> diagnostic_stage \<Rightarrow> diagnostic" where
  "store_error_diagnostic e stage =
     \<lparr>dg_error_code = store_error_code e,
      dg_message = (case e of
          StoreCacheWrite detail \<Rightarrow>
            lit ''scanner database transaction failed ('' @ write_failure_reason detail @ lit '')''
        | _ \<Rightarrow> store_error_text e),
      dg_retryable = store_error_retryable e, dg_stage = stage, dg_file_path = None, dg_backend = None\<rparr>"

definition require_store :: "bool \<Rightarrow> store_error \<Rightarrow> (unit, store_error) result" where
  "require_store ok e = (if ok then Ok () else Err e)"

lemma require_store_Ok [simp]: "require_store c e = Ok u \<longleftrightarrow> c"
  by (simp add: require_store_def)

definition checked_i64 :: "u64 \<Rightarrow> rstring \<Rightarrow> (int, store_error) result" where
  "checked_i64 value field = (if int value \<le> I64_MAX then Ok (int value)
     else Err (StoreInvalidRequest (field @ lit '' exceeds SQLite integer range'')))"

lemma checked_i64_Ok [simp]: "checked_i64 v f = Ok n \<longleftrightarrow> n = int v \<and> int v \<le> I64_MAX"
  by (auto simp: checked_i64_def)

section \<open>The envelope of a run\<close>

record context_envelope =
  en_contract :: rstring
  en_protocol_version :: u64
  en_request_id :: rstring
  en_engine_version :: rstring
  en_engine_build :: rstring
  en_status :: engine_status
  en_file_context :: rstring
  en_summary :: context_summary
  en_scan_run_id :: "u64 option"
  en_context_run_id :: "u64 option"
  en_warnings :: "diagnostic list"
  en_error :: "diagnostic option"

fun envelope_status_invariant :: "engine_status \<Rightarrow> context_envelope \<Rightarrow> check" where
  "envelope_status_invariant EngineOk e =
     require (\<not> (en_file_context e = [] \<or> en_scan_run_id e = None \<or> en_context_run_id e = None \<or> en_error e \<noteq> None))
       (lit ''ok context violates status invariants'')"
| "envelope_status_invariant EnginePartial e =
     require (\<not> (en_file_context e = [] \<or> en_scan_run_id e = None \<or> en_context_run_id e = None
                 \<or> en_warnings e = [] \<or> en_error e \<noteq> None))
       (lit ''partial context violates status invariants'')"
| "envelope_status_invariant EngineError e =
     require (\<not> (en_file_context e \<noteq> [] \<or> en_error e = None)) (lit ''error context violates status invariants'')"

definition validate_context_envelope :: "context_envelope \<Rightarrow> check" where
  "validate_context_envelope e = validate_all
     ([require_const (en_contract e) (lit ''ai_daily_context'') (lit ''contract''),
       require_range (en_protocol_version e) 1 1 (lit ''protocol_version''),
       require_request_id (en_request_id e),
       require_non_empty (en_engine_version e) 4096 (lit ''engine_version''),
       require_non_empty (en_engine_build e) 4096 (lit ''engine_build''),
       validate_context_summary (en_summary e),
       require (length (en_warnings e) \<le> 100000) (lit ''too many context warnings'')]
      @ map validate_diagnostic (en_warnings e)
      @ [check_some (en_error e) validate_diagnostic,
         check_some (en_scan_run_id e) (\<lambda>v. require_range v 1 u64_max (lit ''scan_run_id'')),
         check_some (en_context_run_id e) (\<lambda>v. require_range v 1 u64_max (lit ''context_run_id'')),
         envelope_status_invariant (en_status e) e])"

text \<open>The part of an envelope that is kept with the run: everything but the text, with the ledgers that
  have no column of their own.\<close>

record envelope_metadata =
  md_contract :: rstring
  md_protocol_version :: u64
  md_request_id :: rstring
  md_engine_version :: rstring
  md_engine_build :: rstring
  md_status :: engine_status
  md_scan_run_id :: "u64 option"
  md_context_run_id :: "u64 option"
  md_warnings :: "diagnostic list"
  md_error :: "diagnostic option"
  md_summary :: context_summary
  md_refill_audit :: "refill_audit option"
  md_pdf_page_audits :: "rstring \<rightharpoonup> pdf_page_audit"

section \<open>The engine\<close>

record engine_fingerprint =
  eg_contract :: rstring
  eg_protocol_version :: u64
  eg_binary_name :: rstring
  eg_engine_version :: rstring
  eg_engine_build :: rstring
  eg_target_triple :: rstring

end
