(* ===== verification/Cache_Bucket.thy ===== *)
theory Cache_Bucket
  imports Store_Types
begin

text \<open>
  The day of a cache access, \<open>date_bucket_for_ms\<close> of \<open>src/rust/scanner_core/src/store/cache.rs\<close>: the
  calendar date in UTC of a time in milliseconds, with years that begin in March inside. It is
  held against the calendar itself: the first day, and the day after each day.
\<close>

section \<open>The code\<close>

text \<open>Division in Rust truncates; \<open>div_euclid\<close> by a positive number is the division of HOL.\<close>

definition rust_div :: "int \<Rightarrow> int \<Rightarrow> int" where
  "rust_div a b = (if 0 \<le> a then a div b else - ((- a) div b))"

definition DAYS_FROM_0_TO_1970 :: int where "DAYS_FROM_0_TO_1970 = 719468"

definition era_of :: "int \<Rightarrow> int" where
  "era_of z = rust_div (if 0 \<le> z then z else z - 146096) 146097"

definition year_of_era :: "int \<Rightarrow> int" where
  "year_of_era doe = rust_div (doe - rust_div doe 1460 + rust_div doe 36524 - rust_div doe 146096) 365"

definition day_of_year :: "int \<Rightarrow> int \<Rightarrow> int" where
  "day_of_year doe yoe = doe - (365 * yoe + rust_div yoe 4 - rust_div yoe 100)"

definition month_index :: "int \<Rightarrow> int" where "month_index doy = rust_div (5 * doy + 2) 153"

definition date_of_days :: "int \<Rightarrow> int \<times> int \<times> int" where
  "date_of_days days =
     (let z = days + DAYS_FROM_0_TO_1970;
          era = era_of z;
          doe = z - era * 146097;
          yoe = year_of_era doe;
          year = yoe + era * 400;
          doy = day_of_year doe yoe;
          mp = month_index doy;
          day = doy - rust_div (153 * mp + 2) 5 + 1;
          month = (if mp < 10 then mp + 3 else mp - 9);
          year = (if month \<le> 2 then year + 1 else year)
      in (year, month, day))"

text \<open>\<open>{year:04}\<close>: at least four characters, the sign counted.\<close>

definition dec_padded :: "nat \<Rightarrow> int \<Rightarrow> rstring" where
  "dec_padded width i =
     (let digits = dec (nat \<bar>i\<bar>); sign = (if i < 0 then lit ''-'' else [])
      in sign @ replicate (width - length sign - length digits) 48 @ digits)"

definition date_bucket_for_ms :: "int \<Rightarrow> rstring" where
  "date_bucket_for_ms ms =
     (case date_of_days (ms div 1000 div 86400) of (year, month, day) \<Rightarrow>
        dec_padded 4 year @ lit ''-'' @ dec_padded 2 month @ lit ''-'' @ dec_padded 2 day)"

section \<open>The calendar\<close>

definition leap_year :: "int \<Rightarrow> bool" where
  "leap_year y \<longleftrightarrow> 4 dvd y \<and> (\<not> 100 dvd y \<or> 400 dvd y)"

definition month_days :: "int \<Rightarrow> int \<Rightarrow> int" where
  "month_days y m = (if m = 2 then if leap_year y then 29 else 28 else if m \<in> {4, 6, 9, 11} then 30 else 31)"

definition valid_date :: "int \<times> int \<times> int \<Rightarrow> bool" where
  "valid_date date = (case date of (y, m, d) \<Rightarrow> 1 \<le> m \<and> m \<le> 12 \<and> 1 \<le> d \<and> d \<le> month_days y m)"

definition next_date :: "int \<times> int \<times> int \<Rightarrow> int \<times> int \<times> int" where
  "next_date date = (case date of (y, m, d) \<Rightarrow>
     if d < month_days y m then (y, m, d + 1)
     else if m < 12 then (y, m + 1, 1) else (y + 1, 1, 1))"


section \<open>Years that begin in March\<close>

lemma rust_div_nonneg [simp]: "0 \<le> a \<Longrightarrow> rust_div a b = a div b"
  by (simp add: rust_div_def)

lemma era_of_div: "era_of z = z div 146097"
proof (cases "0 \<le> z")
  case False
  have "(146096 - z) div 146097 = - (z div 146097)"
  proof (rule int_div_pos_eq)
    show "146096 - z = 146097 * - (z div 146097) + (146096 - z mod 146097)"
      using mult_div_mod_eq [of 146097 z] by linarith
  qed (use pos_mod_bound [of 146097 z] pos_mod_sign [of 146097 z] in auto)
  then show ?thesis using False by (simp add: era_of_def rust_div_def)
qed (simp add: era_of_def)

lemma div_succ:
  assumes "0 < (b :: int)"
  shows "(a + 1) div b = a div b + (if b dvd a + 1 then 1 else 0)"
proof (cases "b dvd a + 1")
  case True
  then obtain k where k: "a + 1 = b * k" by (elim dvdE)
  have "a div b = k - 1" by (rule int_div_pos_eq [of _ _ _ "b - 1"]) (use k assms in \<open>simp_all add: algebra_simps\<close>)
  then show ?thesis using k assms by simp
next
  case False
  have "a + 1 = b * (a div b) + (a mod b + 1)" by simp
  moreover have "a mod b + 1 < b"
  proof -
    have "a mod b + 1 \<noteq> b"
    proof
      assume "a mod b + 1 = b"
      then have "a + 1 = b * (a div b) + b" using mult_div_mod_eq [of b a] by linarith
      then show False using False by simp
    qed
    then show ?thesis using pos_mod_bound [OF assms, of a] by simp
  qed
  ultimately have "(a + 1) div b = a div b" using pos_mod_sign [OF assms, of a] by (intro int_div_pos_eq) auto
  then show ?thesis using False by simp
qed

text \<open>The day on which a year of an era begins, and the days that are divided for the year.\<close>

definition year_start :: "int \<Rightarrow> int" where "year_start y = 365 * y + y div 4 - y div 100"

definition year_scale :: "int \<Rightarrow> int" where
  "year_scale doe = doe - doe div 1460 + doe div 36524 - doe div 146096"

definition year_end :: "int \<Rightarrow> int" where "year_end y = (if y = 399 then 146096 else year_start (y + 1) - 1)"

lemma year_scale_bounds:
  "list_all (\<lambda>y. year_scale (year_start y) div 365 = y \<and> year_scale (year_end y) div 365 = y) [0..399]"
  by code_simp

lemma year_scale_mono_step:
  assumes "0 \<le> d" "d < 146096"
  shows "year_scale d \<le> year_scale (d + 1)"
proof -
  have "(146096 :: int) dvd d + 1 \<Longrightarrow> 36524 dvd d + 1" by (rule dvd_trans [of _ 146096]) simp_all
  then show ?thesis by (simp add: year_scale_def div_succ)
qed

lemma year_scale_mono: "0 \<le> a \<Longrightarrow> a \<le> b \<Longrightarrow> b \<le> 146096 \<Longrightarrow> year_scale a \<le> year_scale b"
proof (induction "nat (b - a)" arbitrary: b)
  case (Suc n)
  then have "year_scale a \<le> year_scale (b - 1)" by simp
  also have "\<dots> \<le> year_scale b" using year_scale_mono_step [of "b - 1"] Suc by simp
  finally show ?case .
qed simp

lemma year_start_succ: "year_start (y + 1) = year_start y + 365 + (if 4 dvd y + 1 then 1 else 0) - (if 100 dvd y + 1 then 1 else 0)"
  using div_succ [of 4 y] div_succ [of 100 y] by (simp add: year_start_def)

lemma year_start_grows: "year_start y + 364 \<le> year_start (y + 1)"
  by (simp add: year_start_succ)

lemma year_start_mono: "0 \<le> a \<Longrightarrow> year_start 0 \<le> year_start a"
proof (induction "nat a" arbitrary: a)
  case (Suc n)
  then have "year_start 0 \<le> year_start (a - 1)" by simp
  then show ?case using year_start_grows [of "a - 1"] by simp
qed simp

lemma year_end_bounds: "0 \<le> y \<Longrightarrow> y \<le> 399 \<Longrightarrow> year_start y \<le> year_end y"
  using year_start_grows [of y] by (auto simp: year_end_def year_start_def)

lemma year_of_day: "int n \<le> 146096 \<Longrightarrow> \<exists>y. 0 \<le> y \<and> y \<le> 399 \<and> year_start y \<le> int n \<and> int n \<le> year_end y"
proof (induction n)
  case 0
  show ?case by (intro exI [of _ 0]) (simp add: year_start_def year_end_def)
next
  case (Suc n)
  then obtain y where y: "0 \<le> y" "y \<le> 399" "year_start y \<le> int n" "int n \<le> year_end y" by auto
  show ?case
  proof (cases "int (Suc n) \<le> year_end y")
    case False
    then have "y < 399" "int (Suc n) = year_start (y + 1)" using y Suc.prems by (auto simp: year_end_def split: if_splits)
    then show ?thesis using y year_end_bounds [of "y + 1"] by (intro exI [of _ "y + 1"]) simp
  qed (use y in auto)
qed

lemma year_end_le: "0 \<le> y \<Longrightarrow> y \<le> 399 \<Longrightarrow> year_end y \<le> 146096"
proof -
  assume y: "0 \<le> y" "y \<le> 399"
  have "list_all (\<lambda>y. year_end y \<le> 146096) [0..399]" by code_simp
  then show ?thesis using y by (simp add: list_all_iff)
qed

lemma year_of_era_correct:
  assumes "0 \<le> doe" "doe \<le> 146096"
  shows "0 \<le> year_of_era doe \<and> year_of_era doe \<le> 399 \<and> year_start (year_of_era doe) \<le> doe \<and> doe \<le> year_end (year_of_era doe)"
proof -
  obtain y where y: "0 \<le> y" "y \<le> 399" "year_start y \<le> doe" "doe \<le> year_end y" using year_of_day [of "nat doe"] assms by auto
  have ends: "year_scale (year_start y) div 365 = y" "year_scale (year_end y) div 365 = y"
    using year_scale_bounds y by (simp_all add: list_all_iff)
  have start: "0 \<le> year_start y" using year_start_mono [OF y(1)] by (simp add: year_start_def)
  have finish: "year_end y \<le> 146096" using year_end_le y(1,2) .
  have "year_scale (year_start y) \<le> year_scale doe" "year_scale doe \<le> year_scale (year_end y)"
    using year_scale_mono start y finish assms by auto
  then have "year_scale doe div 365 = y" using ends zdiv_mono1 [of _ _ 365] by (metis order_antisym zero_less_numeral)
  moreover have "0 \<le> year_scale doe"
    using year_scale_mono [of 0 doe] assms by (simp add: year_scale_def)
  ultimately have "year_of_era doe = y" using assms by (simp add: year_of_era_def year_scale_def)
  then show ?thesis using y by simp
qed


section \<open>Days and dates\<close>

text \<open>Each day belongs to one year that begins in March, and to one day of it. The year has a 366th day when
  February of the next calendar year has a 29th.\<close>

definition march_start :: "int \<Rightarrow> int" where "march_start y = 365 * y + y div 4 - y div 100 + y div 400"

definition march_length :: "int \<Rightarrow> int" where "march_length y = (if leap_year (y + 1) then 366 else 365)"

lemma march_start_succ: "march_start (y + 1) = march_start y + march_length y"
proof -
  have dvds: "(400 :: int) dvd y + 1 \<Longrightarrow> 100 dvd y + 1" "(100 :: int) dvd y + 1 \<Longrightarrow> 4 dvd y + 1"
    by (rule dvd_trans [of _ 400], simp_all) (rule dvd_trans [of _ 100], simp_all)
  have "march_start (y + 1) = march_start y + 365 + (if 4 dvd y + 1 then 1 else 0) - (if 100 dvd y + 1 then 1 else 0)
      + (if 400 dvd y + 1 then 1 else 0)"
    unfolding march_start_def div_succ [of 4 y, simplified] div_succ [of 100 y, simplified] div_succ [of 400 y, simplified]
    by (simp only: distrib_left algebra_simps mult_1_right)
  moreover have "march_length y = 365 + (if 4 dvd y + 1 then 1 else 0) - (if 100 dvd y + 1 then 1 else 0)
      + (if 400 dvd y + 1 then 1 else 0)"
    unfolding march_length_def leap_year_def
    by (cases "4 dvd y + 1"; cases "100 dvd y + 1"; cases "400 dvd y + 1") (use dvds in \<open>simp_all only: simp_thms if_True if_False\<close>)
  ultimately show ?thesis by linarith
qed

lemma march_start_era: "0 \<le> y \<Longrightarrow> y < 400 \<Longrightarrow> march_start (y + era * 400) = era * 146097 + year_start y"
proof -
  assume y: "0 \<le> y" "y < 400"
  have "(y + era * 400) div 4 = y div 4 + era * 100" "(y + era * 400) div 100 = y div 100 + era * 4"
    using div_mult_self1 [of 4 y "era * 100"] div_mult_self1 [of 100 y "era * 4"] by simp_all
  moreover have "(y + era * 400) div 400 = era" using y by simp
  ultimately show ?thesis by (simp add: march_start_def year_start_def)
qed

definition date_of_march :: "int \<Rightarrow> int \<Rightarrow> int \<times> int \<times> int" where
  "date_of_march year doy =
     (let mp = (5 * doy + 2) div 153; month = (if mp < 10 then mp + 3 else mp - 9)
      in (if month \<le> 2 then year + 1 else year, month, doy - (153 * mp + 2) div 5 + 1))"

lemma date_of_days_march:
  obtains year doy where "days + DAYS_FROM_0_TO_1970 = march_start year + doy" "0 \<le> doy" "doy < march_length year"
    "date_of_days days = date_of_march year doy"
proof -
  define z where "z = days + DAYS_FROM_0_TO_1970"
  define era where "era = era_of z"
  define doe where "doe = z - era * 146097"
  define yoe where "yoe = year_of_era doe"
  have "doe = z mod 146097" by (simp add: doe_def era_def era_of_div minus_div_mult_eq_mod)
  then have "0 \<le> doe" "doe \<le> 146096" using pos_mod_sign [of 146097 z] pos_mod_bound [of 146097 z] by simp_all
  note y = year_of_era_correct [OF this, folded yoe_def]
  define doy where "doy = doe - year_start yoe"
  have start: "march_start (yoe + era * 400) = era * 146097 + year_start yoe" using march_start_era [of yoe era] y by simp
  have "march_start (yoe + era * 400 + 1) = era * 146097 + year_end yoe + 1"
  proof (cases "yoe = 399")
    case True
    then have "march_start (yoe + era * 400 + 1) = march_start (0 + (era + 1) * 400)" by (simp add: algebra_simps)
    then show ?thesis using march_start_era [of 0 "era + 1"] True by (simp add: year_start_def year_end_def)
  next
    case False
    then show ?thesis using march_start_era [of "yoe + 1" era] y by (simp add: year_end_def algebra_simps)
  qed
  then have "march_length (yoe + era * 400) = year_end yoe + 1 - year_start yoe" using march_start_succ [of "yoe + era * 400"] start by simp
  then have bounds: "0 \<le> doy" "doy < march_length (yoe + era * 400)" using y by (simp_all add: doy_def)
  have "day_of_year doe yoe = doy" using y by (simp add: day_of_year_def doy_def year_start_def)
  then have "date_of_days days = date_of_march (yoe + era * 400) doy"
    using bounds y by (simp add: date_of_days_def date_of_march_def month_index_def Let_def flip: z_def era_def doe_def yoe_def)
  moreover have "z = march_start (yoe + era * 400) + doy" using start by (simp add: doy_def doe_def)
  ultimately show thesis using that bounds by (simp add: z_def)
qed

lemma march_start_mono: "a \<le> b \<Longrightarrow> march_start a \<le> march_start b"
proof (induction "nat (b - a)" arbitrary: b)
  case (Suc n)
  then have "march_start a \<le> march_start (b - 1)" by simp
  also have "\<dots> \<le> march_start b" using march_start_succ [of "b - 1"] by (simp add: march_length_def split: if_splits)
  finally show ?case .
qed simp

lemma march_unique:
  assumes "march_start y + d = march_start y' + d'" "0 \<le> d" "d < march_length y" "0 \<le> d'" "d' < march_length y'"
  shows "y = y' \<and> d = d'"
proof -
  have "\<not> y < y'" using march_start_mono [of "y + 1" y'] march_start_succ [of y] assms by auto
  moreover have "\<not> y' < y" using march_start_mono [of "y' + 1" y] march_start_succ [of y'] assms by auto
  ultimately show ?thesis using assms(1) by auto
qed

lemma date_of_march_day:
  assumes "days + DAYS_FROM_0_TO_1970 = march_start year + doy" "0 \<le> doy" "doy < march_length year"
  shows "date_of_days days = date_of_march year doy"
  using date_of_days_march [of days] march_unique assms by metis

text \<open>The months of such a year, by computation.\<close>

definition march_step_ok :: "int \<Rightarrow> bool" where
  "march_step_ok doy =
     (case (date_of_march 0 doy, date_of_march 0 (doy + 1)) of ((y, m, d), (y', m', d')) \<Rightarrow>
        1 \<le> m \<and> m \<le> 12 \<and> 1 \<le> d
        \<and> (if m = 2 then d = doy - 336 \<and> (doy < 365 \<longrightarrow> m' = 2 \<and> d' = d + 1)
           else d \<le> (if m \<in> {4, 6, 9, 11} then 30 else 31) \<and> doy < 337
             \<and> (if d < (if m \<in> {4, 6, 9, 11} then 30 else 31) then m' = m \<and> d' = d + 1
                else d' = 1 \<and> m' = (if m = 12 then 1 else m + 1))))"

lemma march_steps: "list_all march_step_ok [0..365]"
  by code_simp


lemma date_of_march_shift:
  "date_of_march 0 doy = (y, m, d) \<Longrightarrow> date_of_march year doy = (if m \<le> 2 then year + 1 else year, m, d)"
  by (auto simp: date_of_march_def Let_def)

lemma month_days_not_2: "m \<noteq> 2 \<Longrightarrow> month_days y m = (if m \<in> {4, 6, 9, 11} then 30 else 31)"
  by (simp add: month_days_def)

lemma date_in_year:
  assumes "0 \<le> doy" "doy < march_length year"
  shows "valid_date (date_of_march year doy)
     \<and> (doy + 1 < march_length year \<longrightarrow> date_of_march year (doy + 1) = next_date (date_of_march year doy))
     \<and> (doy + 1 = march_length year \<longrightarrow> next_date (date_of_march year doy) = (year + 1, 3, 1))"
proof -
  obtain y m d y' m' d' where date: "date_of_march 0 doy = (y, m, d)" "date_of_march 0 (doy + 1) = (y', m', d')"
    by (cases "date_of_march 0 doy"; cases "date_of_march 0 (doy + 1)")
  have len: "march_length year = (if leap_year (year + 1) then 366 else 365)" by (simp add: march_length_def)
  then have "doy \<in> {0..365}" using assms by (auto split: if_splits)
  then have ok: "march_step_ok doy" using march_steps by (simp add: list_all_iff)
  note shift = date_of_march_shift [OF date(1), of year] date_of_march_shift [OF date(2), of year]
  show ?thesis
  proof (cases "m = 2")
    case True
    then have "d = doy - 336" "doy < 365 \<longrightarrow> m' = 2 \<and> d' = d + 1" "1 \<le> d" using ok date by (simp_all add: march_step_ok_def)
    then show ?thesis using True assms(2) len
      by (auto simp: shift valid_date_def next_date_def month_days_def split: if_splits)
  next
    case False
    then have facts: "1 \<le> m" "m \<le> 12" "1 \<le> d" "d \<le> month_days year m" "doy < 337"
      "if d < month_days year m then m' = m \<and> d' = d + 1 else d' = 1 \<and> m' = (if m = 12 then 1 else m + 1)"
      using ok date by (simp_all add: march_step_ok_def month_days_not_2)
    have same: "month_days (year + 1) m = month_days year m" using False by (simp add: month_days_not_2)
    show ?thesis using facts False len by (auto simp: shift valid_date_def next_date_def same split: if_splits)
  qed
qed

text \<open>C16. The bucket of a time is its date in the calendar: 1970-01-01 for the day of the epoch, a valid date
  for every day before and after it, and the following date for the following day.\<close>

theorem date_of_days_is_calendar:
  "date_of_days 0 = (1970, 1, 1) \<and> valid_date (date_of_days days) \<and> date_of_days (days + 1) = next_date (date_of_days days)"
proof (intro conjI)
  show "date_of_days 0 = (1970, 1, 1)" by code_simp
  obtain year doy where d: "days + DAYS_FROM_0_TO_1970 = march_start year + doy" "0 \<le> doy" "doy < march_length year"
    "date_of_days days = date_of_march year doy"
    using date_of_days_march .
  note facts = date_in_year [OF d(2,3)]
  show "valid_date (date_of_days days)" using facts d(4) by simp
  show "date_of_days (days + 1) = next_date (date_of_days days)"
  proof (cases "doy + 1 < march_length year")
    case True
    then show ?thesis using facts d date_of_march_day [of "days + 1" year "doy + 1"] by simp
  next
    case False
    then have last: "doy + 1 = march_length year" using d(3) by simp
    have "0 < march_length (year + 1)" by (simp add: march_length_def)
    then have "date_of_days (days + 1) = date_of_march (year + 1) 0"
      using d(1) last march_start_succ [of year] date_of_march_day [of "days + 1" "year + 1" 0] by simp
    then show ?thesis using facts d(4) last by (simp add: date_of_march_def)
  qed
qed

end
