(* ===== verification/Store_Artifacts.thy ===== *)
theory Store_Artifacts
  imports Cache_Bucket
begin

text \<open>
  The stored text of a context and its provenance: \<open>src/rust/scanner_core/src/artifact.rs\<close> (drafts and
  the rebuilding of an envelope) and \<open>store/artifacts.rs\<close> (their tables). An artifact is immutable;
  one with a snapshot key also owns one row and one decision per source file. The tables keep columns: text,
  64-bit integers, and nothing where a value is absent. An enumeration is written as its name and read back by
  it, a count by the conversions \<open>as i64\<close> and \<open>as u64\<close>, the summary as JSON.
\<close>

section \<open>Drafts\<close>

record semantic_summary =
  ss_source_file_count :: u64
  ss_success_count :: u64
  ss_timeout_count :: u64
  ss_included_file_count :: u64
  ss_omitted_file_count :: u64
  ss_error_file_count :: u64
  ss_input_chars :: u64
  ss_output_chars :: u64
  ss_reserved_chars :: u64
  ss_rendered_chars :: u64

definition validate_counts :: "semantic_summary \<Rightarrow> check" where
  "validate_counts s =
     and_then (ok_or (lit ''semantic summary counts overflow'')
       (Option.bind (checked_add (ss_success_count s) (ss_timeout_count s))
          (\<lambda>v. checked_add v (ss_error_file_count s)))) (\<lambda>classified.
     require (classified \<le> ss_source_file_count s) (lit ''semantic summary counts exceed source_file_count''))"

record classification_provenance =
  cp_status :: pdf_classification_status
  cp_page_count :: "u64 option"
  cp_result_examined_pages :: "u64 option"
  cp_nominal_charged_pages :: u64
  cp_classifier_build :: rstring
  cp_classifier_profile_hash :: rstring

record artifact_file_row =
  af_file_identity :: rstring
  af_relative_path :: rstring
  af_legacy_source_version :: rstring
  af_source_guard_kind :: "rstring option"
  af_source_guard_sha256 :: "rstring option"
  af_parse_profile_hash :: rstring
  af_parse_status :: parse_status
  af_parser_backend :: rstring
  af_worker_lane :: rstring
  af_truncated :: bool
  af_content_sha256 :: rstring
  af_classifier :: "classification_provenance option"

record artifact_decision_row =
  ag_file_identity :: rstring
  ag_relative_path :: rstring
  ag_action :: context_action
  ag_reason :: rstring
  ag_priority :: u64
  ag_input_chars :: u64
  ag_output_chars :: u64
  ag_truncated :: bool
  ag_error_code :: rstring

record artifact_draft =
  dr_snapshot_eligible :: bool
  dr_final_context :: rstring
  dr_context_sha256 :: rstring
  dr_semantic_summary :: semantic_summary
  dr_file_rows :: "artifact_file_row list"
  dr_decision_rows :: "artifact_decision_row list"

record snapshot_key_parts =
  sk_sha256 :: rstring
  sk_canonical_json :: rstring

text \<open>What the store calls of the JSON and hash libraries: SHA-256 in lower-case hex of a text, the same
  in the domain of requests, and the canonical JSON of the values it keeps, with its reader.\<close>

record store_codec =
  sc_sha256 :: "rstring \<Rightarrow> rstring"
  sc_request_hash :: "rstring \<Rightarrow> rstring"
  sc_semantic_json :: "semantic_summary \<Rightarrow> rstring"
  sc_parse_semantic :: "rstring \<Rightarrow> semantic_summary option"
  sc_metadata_json :: "envelope_metadata \<Rightarrow> rstring"
  sc_parse_metadata :: "rstring \<Rightarrow> envelope_metadata option"
  sc_envelope_json :: "context_envelope \<Rightarrow> rstring"
  sc_parse_envelope :: "rstring \<Rightarrow> context_envelope option"
  sc_parse_engine :: "rstring \<Rightarrow> engine_fingerprint option"
  sc_refill_json :: "refill_audit \<Rightarrow> rstring"
  sc_page_audit_json :: "pdf_page_audit \<Rightarrow> rstring"

definition ArtifactDraft_new ::
  "store_codec \<Rightarrow> bool \<Rightarrow> rstring \<Rightarrow> semantic_summary \<Rightarrow> artifact_file_row list \<Rightarrow> artifact_decision_row list \<Rightarrow>
     (artifact_draft, rstring) result" where
  "ArtifactDraft_new codec snapshot_eligible final_context summary file_rows decision_rows =
     and_then (validate_counts summary) (\<lambda>_.
     and_then
       (if snapshot_eligible then validate_all
          [require (length file_rows = ss_source_file_count summary \<and> length decision_rows = ss_source_file_count summary)
             (lit ''eligible artifact requires one file and decision row per source file''),
           require (sort (map af_file_identity file_rows) = sort (map ag_file_identity decision_rows))
             (lit ''eligible artifact file rows and decision rows must be 1:1 per file'')]
        else require (file_rows = [] \<and> decision_rows = []) (lit ''ineligible artifact must carry no file or decision rows'')) (\<lambda>_.
     Ok \<lparr>dr_snapshot_eligible = snapshot_eligible, dr_final_context = final_context,
         dr_context_sha256 = sc_sha256 codec final_context, dr_semantic_summary = summary,
         dr_file_rows = sort_key af_file_identity file_rows,
         dr_decision_rows = sort_key ag_file_identity decision_rows\<rparr>))"

section \<open>The envelope and its metadata\<close>

text \<open>\<open>BTreeMap::insert\<close> over the file results that carry a page audit.\<close>

fun page_audits_of :: "file_result_record list \<Rightarrow> (rstring \<rightharpoonup> pdf_page_audit) \<Rightarrow> (rstring \<rightharpoonup> pdf_page_audit, store_error) result" where
  "page_audits_of [] pages = Ok pages"
| "page_audits_of (r # rs) pages =
     (case Option.bind (fr_pdf_classification r) ca_page_audit of
        None \<Rightarrow> page_audits_of rs pages
      | Some audit \<Rightarrow>
          and_then (map_err StoreRunCorrupt (validate_pdf_page_audit audit)) (\<lambda>_.
          page_audits_of rs (pages(fr_file_identity r \<mapsto> audit))))"

definition envelope_metadata_of ::
  "context_envelope \<Rightarrow> refill_audit option \<Rightarrow> file_result_record list \<Rightarrow> (envelope_metadata, store_error) result" where
  "envelope_metadata_of e refill file_results =
     and_then (case refill of None \<Rightarrow> Ok () | Some r \<Rightarrow> map_err StoreRunCorrupt (validate_refill_audit r)) (\<lambda>_.
     and_then (page_audits_of file_results Map.empty) (\<lambda>pages.
     Ok \<lparr>md_contract = en_contract e, md_protocol_version = en_protocol_version e, md_request_id = en_request_id e,
         md_engine_version = en_engine_version e, md_engine_build = en_engine_build e, md_status = en_status e,
         md_scan_run_id = en_scan_run_id e, md_context_run_id = en_context_run_id e, md_warnings = en_warnings e,
         md_error = en_error e, md_summary = en_summary e, md_refill_audit = refill, md_pdf_page_audits = pages\<rparr>))"

definition rebuild_envelope ::
  "envelope_metadata \<Rightarrow> context_summary \<Rightarrow> artifact_draft option \<Rightarrow> (context_envelope, rstring) result" where
  "rebuild_envelope m summary artifact =
     (let e = \<lparr>en_contract = md_contract m, en_protocol_version = md_protocol_version m,
        en_request_id = md_request_id m, en_engine_version = md_engine_version m,
        en_engine_build = md_engine_build m, en_status = md_status m,
        en_file_context = (case artifact of None \<Rightarrow> [] | Some draft \<Rightarrow> dr_final_context draft),
        en_summary = summary, en_scan_run_id = md_scan_run_id m, en_context_run_id = md_context_run_id m,
        en_warnings = md_warnings m, en_error = md_error m\<rparr>
      in and_then (validate_context_envelope e) (\<lambda>_. Ok e))"

definition canonical_envelope_json :: "store_codec \<Rightarrow> context_envelope \<Rightarrow> (rstring, store_error) result" where
  "canonical_envelope_json codec e =
     and_then (map_err StoreInvalidRequest (validate_context_envelope e)) (\<lambda>_. Ok (sc_envelope_json codec e))"

section \<open>The tables of artifacts\<close>

record artifact_row =
  fa_artifact_id :: int
  fa_snapshot_eligible :: int
  fa_snapshot_key_sha256 :: "rstring option"
  fa_snapshot_key_json :: "rstring option"
  fa_final_context :: rstring
  fa_context_sha256 :: rstring
  fa_semantic_summary_json :: rstring
  fa_artifact_size_bytes :: int
  fa_created_at_ms :: int
  fa_last_accessed_bucket :: rstring

record file_columns =
  cf_file_identity :: rstring
  cf_relative_path :: rstring
  cf_source_version :: rstring
  cf_source_guard_kind :: "rstring option"
  cf_source_guard_sha256 :: "rstring option"
  cf_parse_profile_hash :: rstring
  cf_parse_status :: rstring
  cf_parser_backend :: rstring
  cf_worker_lane :: rstring
  cf_truncated :: int
  cf_content_sha256 :: rstring
  cf_classifier_status :: "rstring option"
  cf_classifier_page_count :: "int option"
  cf_classifier_result_examined_pages :: "int option"
  cf_classifier_nominal_charged_pages :: "int option"
  cf_classifier_build :: "rstring option"
  cf_classifier_profile_hash :: "rstring option"

record decision_columns =
  cg_file_identity :: rstring
  cg_relative_path :: rstring
  cg_action :: rstring
  cg_reason :: rstring
  cg_priority :: int
  cg_input_chars :: int
  cg_output_chars :: int
  cg_truncated :: int
  cg_error_code :: rstring

record artifact_tables =
  at_artifacts :: "artifact_row list"
  at_files :: "(int \<times> file_columns) list"
  at_decisions :: "(int \<times> decision_columns) list"
  at_next_artifact_id :: int

text \<open>The bytes of a text in UTF-8.\<close>

definition utf8_width :: "rchar \<Rightarrow> int" where
  "utf8_width c = (if c < 0x80 then 1 else if c < 0x800 then 2 else if c < 0x10000 then 3 else 4)"

definition utf8_len :: "rstring \<Rightarrow> int" where
  "utf8_len s = sum_list (map utf8_width s)"

fun parse_status_text :: "parse_status \<Rightarrow> rstring" where
  "parse_status_text Success = lit ''success''"
| "parse_status_text Error = lit ''error''"
| "parse_status_text Timeout = lit ''timeout''"
| "parse_status_text NotParsed = lit ''not_parsed''"

fun pdf_status_text :: "pdf_classification_status \<Rightarrow> rstring" where
  "pdf_status_text TextInParseWindow = lit ''text_in_parse_window''"
| "pdf_status_text NoTextInParseWindow = lit ''no_text_in_parse_window''"
| "pdf_status_text NotClassifiedByBudget = lit ''not_classified_by_budget''"
| "pdf_status_text ClassUnknown = lit ''unknown''"
| "pdf_status_text ClassError = lit ''error''"

text \<open>\<open>parse_contract_enum\<close> reads the names the contract gives to the values, and no other text.\<close>

definition enum_of_text :: "('a \<Rightarrow> rstring) \<Rightarrow> 'a list \<Rightarrow> rstring \<Rightarrow> ('a, store_error) result" where
  "enum_of_text name values s =
     ok_or (StoreRunCorrupt (lit ''persisted contract enum is invalid'')) (find (\<lambda>v. name v = s) values)"

definition parse_statuses :: "parse_status list" where
  "parse_statuses = [Success, Error, Timeout, NotParsed]"

definition pdf_statuses :: "pdf_classification_status list" where
  "pdf_statuses = [TextInParseWindow, NoTextInParseWindow, NotClassifiedByBudget, ClassUnknown, ClassError]"

definition context_actions :: "context_action list" where
  "context_actions = [Keep, Compress, MetadataOnly, Omit, ActionError]"

section \<open>Rows as columns\<close>

text \<open>The parameters of the \<open>INSERT\<close> of a file.\<close>

definition file_columns_of :: "artifact_file_row \<Rightarrow> file_columns" where
  "file_columns_of r =
     \<lparr>cf_file_identity = af_file_identity r, cf_relative_path = af_relative_path r,
      cf_source_version = af_legacy_source_version r, cf_source_guard_kind = af_source_guard_kind r,
      cf_source_guard_sha256 = af_source_guard_sha256 r, cf_parse_profile_hash = af_parse_profile_hash r,
      cf_parse_status = parse_status_text (af_parse_status r), cf_parser_backend = af_parser_backend r,
      cf_worker_lane = af_worker_lane r, cf_truncated = of_bool (af_truncated r), cf_content_sha256 = af_content_sha256 r,
      cf_classifier_status = map_option (\<lambda>p. pdf_status_text (cp_status p)) (af_classifier r),
      cf_classifier_page_count = Option.bind (af_classifier r) (\<lambda>p. map_option as_i64 (cp_page_count p)),
      cf_classifier_result_examined_pages =
        Option.bind (af_classifier r) (\<lambda>p. map_option as_i64 (cp_result_examined_pages p)),
      cf_classifier_nominal_charged_pages = map_option (\<lambda>p. as_i64 (cp_nominal_charged_pages p)) (af_classifier r),
      cf_classifier_build = map_option cp_classifier_build (af_classifier r),
      cf_classifier_profile_hash = map_option cp_classifier_profile_hash (af_classifier r)\<rparr>"

definition classifier_of_columns :: "file_columns \<Rightarrow> (classification_provenance option, store_error) result" where
  "classifier_of_columns c =
     (case (cf_classifier_status c, cf_classifier_build c, cf_classifier_profile_hash c) of
        (Some status_text, Some build, Some profile_hash) \<Rightarrow>
          and_then (enum_of_text pdf_status_text pdf_statuses status_text) (\<lambda>status.
          Ok (Some \<lparr>cp_status = status, cp_page_count = map_option as_u64 (cf_classifier_page_count c),
            cp_result_examined_pages = map_option as_u64 (cf_classifier_result_examined_pages c),
            cp_nominal_charged_pages = as_u64 (case cf_classifier_nominal_charged_pages c of None \<Rightarrow> 0 | Some n \<Rightarrow> n),
            cp_classifier_build = build, cp_classifier_profile_hash = profile_hash\<rparr>))
      | _ \<Rightarrow> Ok None)"

definition file_of_columns :: "file_columns \<Rightarrow> (artifact_file_row, store_error) result" where
  "file_of_columns c =
     and_then (enum_of_text parse_status_text parse_statuses (cf_parse_status c)) (\<lambda>status.
     and_then (classifier_of_columns c) (\<lambda>classifier.
     Ok \<lparr>af_file_identity = cf_file_identity c, af_relative_path = cf_relative_path c,
         af_legacy_source_version = cf_source_version c, af_source_guard_kind = cf_source_guard_kind c,
         af_source_guard_sha256 = cf_source_guard_sha256 c, af_parse_profile_hash = cf_parse_profile_hash c,
         af_parse_status = status, af_parser_backend = cf_parser_backend c, af_worker_lane = cf_worker_lane c,
         af_truncated = (cf_truncated c \<noteq> 0), af_content_sha256 = cf_content_sha256 c, af_classifier = classifier\<rparr>))"

definition decision_columns_of :: "artifact_decision_row \<Rightarrow> decision_columns" where
  "decision_columns_of r =
     \<lparr>cg_file_identity = ag_file_identity r, cg_relative_path = ag_relative_path r, cg_action = action_text (ag_action r),
      cg_reason = ag_reason r, cg_priority = as_i64 (ag_priority r), cg_input_chars = as_i64 (ag_input_chars r),
      cg_output_chars = as_i64 (ag_output_chars r), cg_truncated = of_bool (ag_truncated r), cg_error_code = ag_error_code r\<rparr>"

definition decision_of_columns :: "decision_columns \<Rightarrow> (artifact_decision_row, store_error) result" where
  "decision_of_columns c =
     and_then (enum_of_text action_text context_actions (cg_action c)) (\<lambda>action.
     Ok \<lparr>ag_file_identity = cg_file_identity c, ag_relative_path = cg_relative_path c, ag_action = action,
         ag_reason = cg_reason c, ag_priority = as_u64 (cg_priority c), ag_input_chars = as_u64 (cg_input_chars c),
         ag_output_chars = as_u64 (cg_output_chars c), ag_truncated = (cg_truncated c \<noteq> 0),
         ag_error_code = cg_error_code c\<rparr>)"

section \<open>Sizes\<close>

definition nullable_text_size :: "rstring option \<Rightarrow> int" where
  "nullable_text_size v = (case v of None \<Rightarrow> 0 | Some s \<Rightarrow> utf8_len s)"

definition nullable_integer_size :: "u64 option \<Rightarrow> int" where
  "nullable_integer_size v = (case v of None \<Rightarrow> 0 | Some _ \<Rightarrow> 8)"

definition classifier_size :: "classification_provenance \<Rightarrow> int" where
  "classifier_size p = utf8_len (pdf_status_text (cp_status p)) + nullable_integer_size (cp_page_count p)
     + nullable_integer_size (cp_result_examined_pages p) + 8 + utf8_len (cp_classifier_build p)
     + utf8_len (cp_classifier_profile_hash p)"

definition artifact_file_size :: "artifact_file_row \<Rightarrow> int" where
  "artifact_file_size r = 8 + utf8_len (af_file_identity r) + utf8_len (af_relative_path r)
     + utf8_len (af_legacy_source_version r) + nullable_text_size (af_source_guard_kind r)
     + nullable_text_size (af_source_guard_sha256 r) + utf8_len (af_parse_profile_hash r)
     + utf8_len (parse_status_text (af_parse_status r)) + utf8_len (af_parser_backend r)
     + utf8_len (af_worker_lane r) + 8 + utf8_len (af_content_sha256 r)
     + (case af_classifier r of None \<Rightarrow> 0 | Some p \<Rightarrow> classifier_size p)"

definition artifact_decision_size :: "artifact_decision_row \<Rightarrow> int" where
  "artifact_decision_size r = 8 + utf8_len (ag_file_identity r) + utf8_len (ag_relative_path r)
     + utf8_len (action_text (ag_action r)) + utf8_len (ag_reason r) + 8 + 8 + 8 + 8 + utf8_len (ag_error_code r)"

definition artifact_size_bytes :: "store_codec \<Rightarrow> artifact_draft \<Rightarrow> snapshot_key_parts option \<Rightarrow> int" where
  "artifact_size_bytes codec d key =
     8 + utf8_len (dr_final_context d) + utf8_len (dr_context_sha256 d)
     + utf8_len (sc_semantic_json codec (dr_semantic_summary d)) + 8 + 10
     + (case key of None \<Rightarrow> 0 | Some k \<Rightarrow> utf8_len (sk_sha256 k) + utf8_len (sk_canonical_json k))
     + sum_list (map artifact_file_size (dr_file_rows d))
     + sum_list (map artifact_decision_size (dr_decision_rows d))"

text \<open>The constraints of the tables, as SQLite reports their violation.\<close>

definition check_failed :: "string \<Rightarrow> store_error" where
  "check_failed what = StoreCacheWrite (lit ''CHECK constraint failed: '' @ lit what)"

definition unique_failed :: "string \<Rightarrow> store_error" where
  "unique_failed what = StoreCacheWrite (lit ''UNIQUE constraint failed: '' @ lit what)"

definition foreign_key_failed :: store_error where
  "foreign_key_failed = StoreCacheWrite (lit ''FOREIGN KEY constraint failed'')"

definition artifact_file_checks :: "file_columns \<Rightarrow> bool" where
  "artifact_file_checks c \<longleftrightarrow> length (cf_parse_profile_hash c) = 64
     \<and> cf_parse_status c \<in> {lit ''success'', lit ''error'', lit ''timeout'', lit ''not_parsed''}
     \<and> cf_truncated c \<in> {0, 1} \<and> length (cf_content_sha256 c) = 64
     \<and> (\<forall>n \<in> set_option (cf_classifier_page_count c). 0 \<le> n)
     \<and> (\<forall>n \<in> set_option (cf_classifier_result_examined_pages c). 0 \<le> n)
     \<and> (\<forall>n \<in> set_option (cf_classifier_nominal_charged_pages c). 0 \<le> n)
     \<and> (\<forall>s \<in> set_option (cf_classifier_build c). length s = 64)
     \<and> (\<forall>s \<in> set_option (cf_classifier_profile_hash c). length s = 64)"

definition artifact_decision_checks :: "decision_columns \<Rightarrow> bool" where
  "artifact_decision_checks c \<longleftrightarrow>
     cg_action c \<in> {lit ''keep'', lit ''compress'', lit ''metadata_only'', lit ''omit'', lit ''error''}
     \<and> 0 \<le> cg_priority c \<and> 0 \<le> cg_input_chars c \<and> 0 \<le> cg_output_chars c \<and> cg_truncated c \<in> {0, 1}"

definition artifact_checks :: "artifact_row \<Rightarrow> bool" where
  "artifact_checks a \<longleftrightarrow> fa_snapshot_eligible a \<in> {0, 1} \<and> length (fa_context_sha256 a) = 64
     \<and> 0 \<le> fa_artifact_size_bytes a
     \<and> (fa_snapshot_eligible a = 1 \<and> fa_snapshot_key_sha256 a \<noteq> None \<and> fa_snapshot_key_json a \<noteq> None
        \<or> fa_snapshot_eligible a = 0 \<and> fa_snapshot_key_sha256 a = None \<and> fa_snapshot_key_json a = None)"

fun insert_artifact_files ::
  "rstring set \<Rightarrow> int \<Rightarrow> artifact_file_row list \<Rightarrow> (int \<times> file_columns) list \<Rightarrow>
     ((int \<times> file_columns) list, store_error) result" where
  "insert_artifact_files known artifact_id [] rows = Ok rows"
| "insert_artifact_files known artifact_id (r # rs) rows =
     (let c = file_columns_of r in
      and_then (require_store (artifact_file_checks c) (check_failed ''context_artifact_files'')) (\<lambda>_.
      and_then (require_store (\<not> list_ex (\<lambda>(i, q). i = artifact_id \<and> cf_file_identity q = cf_file_identity c) rows)
                  (unique_failed ''context_artifact_files.artifact_id, context_artifact_files.file_identity'')) (\<lambda>_.
      and_then (require_store (cf_file_identity c \<in> known) foreign_key_failed) (\<lambda>_.
      insert_artifact_files known artifact_id rs (rows @ [(artifact_id, c)])))))"

fun insert_artifact_decisions ::
  "(int \<times> file_columns) list \<Rightarrow> int \<Rightarrow> artifact_decision_row list \<Rightarrow> (int \<times> decision_columns) list \<Rightarrow>
     ((int \<times> decision_columns) list, store_error) result" where
  "insert_artifact_decisions files artifact_id [] rows = Ok rows"
| "insert_artifact_decisions files artifact_id (r # rs) rows =
     (let c = decision_columns_of r in
      and_then (require_store (artifact_decision_checks c) (check_failed ''context_artifact_decisions'')) (\<lambda>_.
      and_then (require_store (\<not> list_ex (\<lambda>(i, q). i = artifact_id \<and> cg_file_identity q = cg_file_identity c) rows)
                  (unique_failed ''context_artifact_decisions.artifact_id, context_artifact_decisions.file_identity'')) (\<lambda>_.
      and_then (require_store (list_ex (\<lambda>(i, q). i = artifact_id \<and> cf_file_identity q = cg_file_identity c) files)
                  foreign_key_failed) (\<lambda>_.
      insert_artifact_decisions files artifact_id rs (rows @ [(artifact_id, c)])))))"

definition new_artifact_row ::
  "artifact_draft \<Rightarrow> snapshot_key_parts option \<Rightarrow> rstring \<Rightarrow> int \<Rightarrow> int \<Rightarrow> int \<Rightarrow> artifact_row" where
  "new_artifact_row draft key semantic_summary_json artifact_size now_ms artifact_id =
     \<lparr>fa_artifact_id = artifact_id, fa_snapshot_eligible = of_bool (key \<noteq> None),
      fa_snapshot_key_sha256 = map_option sk_sha256 key, fa_snapshot_key_json = map_option sk_canonical_json key,
      fa_final_context = dr_final_context draft, fa_context_sha256 = dr_context_sha256 draft,
      fa_semantic_summary_json = semantic_summary_json, fa_artifact_size_bytes = artifact_size,
      fa_created_at_ms = now_ms, fa_last_accessed_bucket = date_bucket_for_ms now_ms\<rparr>"

text \<open>\<open>known\<close>: the identities in the table of inventory, which file rows refer to.\<close>

definition insert_artifact ::
  "rstring set \<Rightarrow> artifact_draft \<Rightarrow> snapshot_key_parts option \<Rightarrow> rstring \<Rightarrow> int \<Rightarrow> int \<Rightarrow> artifact_tables \<Rightarrow>
     (artifact_tables \<times> int, store_error) result" where
  "insert_artifact known draft key semantic_summary_json artifact_size now_ms t =
     (let artifact_id = at_next_artifact_id t;
          row = new_artifact_row draft key semantic_summary_json artifact_size now_ms artifact_id
      in
      and_then (require_store (artifact_checks row) (check_failed ''context_artifacts'')) (\<lambda>_.
      and_then (require_store (\<not> (fa_snapshot_eligible row = 1 \<and> list_ex (\<lambda>a. fa_snapshot_eligible a = 1
                     \<and> fa_snapshot_key_sha256 a = fa_snapshot_key_sha256 row) (at_artifacts t)))
                  (unique_failed ''context_artifacts.snapshot_key_sha256'')) (\<lambda>_.
      let t = t\<lparr>at_artifacts := at_artifacts t @ [row], at_next_artifact_id := artifact_id + 1\<rparr> in
      if dr_snapshot_eligible draft
      then and_then (insert_artifact_files known artifact_id (dr_file_rows draft) (at_files t)) (\<lambda>files.
           and_then (insert_artifact_decisions files artifact_id (dr_decision_rows draft) (at_decisions t)) (\<lambda>decisions.
           Ok (t\<lparr>at_files := files, at_decisions := decisions\<rparr>, artifact_id)))
      else Ok (t, artifact_id))))"

text \<open>The rows of an artifact in the order of their files (\<open>ORDER BY file_identity\<close>).\<close>

definition stored_files :: "artifact_tables \<Rightarrow> int \<Rightarrow> file_columns list" where
  "stored_files t artifact_id = sort_key cf_file_identity (map snd (filter (\<lambda>(i, _). i = artifact_id) (at_files t)))"

definition stored_decisions :: "artifact_tables \<Rightarrow> int \<Rightarrow> decision_columns list" where
  "stored_decisions t artifact_id = sort_key cg_file_identity (map snd (filter (\<lambda>(i, _). i = artifact_id) (at_decisions t)))"

text \<open>The message of a summary that does not parse ends in the words of the library, which are left out.\<close>

definition load_artifact :: "store_codec \<Rightarrow> artifact_tables \<Rightarrow> int \<Rightarrow> (artifact_draft, store_error) result" where
  "load_artifact codec t artifact_id =
     and_then (ok_or StoreRunNotFound (find (\<lambda>a. fa_artifact_id a = artifact_id) (at_artifacts t))) (\<lambda>a.
     and_then (ok_or (StoreRunCorrupt (lit ''artifact semantic summary is invalid''))
                 (sc_parse_semantic codec (fa_semantic_summary_json a))) (\<lambda>summary.
     and_then (collect_results file_of_columns (stored_files t artifact_id)) (\<lambda>files.
     and_then (collect_results decision_of_columns (stored_decisions t artifact_id)) (\<lambda>decisions.
     and_then (require_store (sc_sha256 codec (fa_final_context a) = fa_context_sha256 a)
                 (StoreRunCorrupt (lit ''artifact context hash is invalid''))) (\<lambda>_.
     Ok \<lparr>dr_snapshot_eligible = (fa_snapshot_eligible a \<noteq> 0), dr_final_context = fa_final_context a,
         dr_context_sha256 = fa_context_sha256 a, dr_semantic_summary = summary,
         dr_file_rows = files, dr_decision_rows = decisions\<rparr>)))))"

text \<open>An artifact with the key of a draft is used instead of it when it is the same, field for field, and
  is refused when it is not.\<close>

definition dedup_artifact ::
  "store_codec \<Rightarrow> artifact_tables \<Rightarrow> artifact_draft \<Rightarrow> snapshot_key_parts \<Rightarrow> (int option, store_error) result" where
  "dedup_artifact codec t draft key =
     (case find (\<lambda>a. fa_snapshot_eligible a = 1 \<and> fa_snapshot_key_sha256 a = Some (sk_sha256 key)) (at_artifacts t) of
        None \<Rightarrow> Ok None
      | Some a \<Rightarrow>
          and_then (load_artifact codec t (fa_artifact_id a)) (\<lambda>existing.
          if fa_snapshot_key_json a = Some (sk_canonical_json key) \<and> existing = draft
          then Ok (Some (fa_artifact_id a))
          else Err (StoreArtifactMismatch (lit ''snapshot key '' @ sk_sha256 key
                 @ lit '' already exists with different artifact semantics''))))"

section \<open>Round trips\<close>

text \<open>A kind of row and its columns: what was written reads back, under the same key.\<close>

locale row_codec =
  fixes columns :: "'r \<Rightarrow> 'c" and row_of :: "'c \<Rightarrow> ('r, store_error) result" and fits :: "'r \<Rightarrow> bool"
    and row_key :: "'r \<Rightarrow> rstring" and column_key :: "'c \<Rightarrow> rstring"
  assumes reads: "fits r \<Longrightarrow> row_of (columns r) = Ok r"
    and same_key: "column_key (columns r) = row_key r"
begin

lemma rows_read: "list_all fits rs \<Longrightarrow> collect_results row_of (map columns rs) = Ok rs"
  by (induction rs) (simp_all add: reads)

lemma columns_in_order: "sorted (map row_key rs) \<Longrightarrow> sort_key column_key (map columns rs) = map columns rs"
  by (intro sort_key_sorted_id) (simp add: same_key o_def)

end

text \<open>The counts of a row are numbers of 64 bits.\<close>

definition u64_file_row :: "artifact_file_row \<Rightarrow> bool" where
  "u64_file_row r \<longleftrightarrow> (case af_classifier r of None \<Rightarrow> True
     | Some p \<Rightarrow> (\<forall>n \<in> set_option (cp_page_count p). n \<le> u64_max)
         \<and> (\<forall>n \<in> set_option (cp_result_examined_pages p). n \<le> u64_max) \<and> cp_nominal_charged_pages p \<le> u64_max)"

definition u64_decision_row :: "artifact_decision_row \<Rightarrow> bool" where
  "u64_decision_row r \<longleftrightarrow> ag_priority r \<le> u64_max \<and> ag_input_chars r \<le> u64_max \<and> ag_output_chars r \<le> u64_max"

definition u64_draft :: "artifact_draft \<Rightarrow> bool" where
  "u64_draft d \<longleftrightarrow> list_all u64_file_row (dr_file_rows d) \<and> list_all u64_decision_row (dr_decision_rows d)"

lemma status_of_text [simp]: "enum_of_text parse_status_text parse_statuses (parse_status_text v) = Ok v"
  by (cases v) (simp_all add: enum_of_text_def parse_statuses_def ok_or_def)

lemma pdf_status_of_text [simp]: "enum_of_text pdf_status_text pdf_statuses (pdf_status_text v) = Ok v"
  by (cases v) (simp_all add: enum_of_text_def pdf_statuses_def ok_or_def)

lemma action_of_text [simp]: "enum_of_text action_text context_actions (action_text v) = Ok v"
  by (cases v) (simp_all add: enum_of_text_def context_actions_def ok_or_def)

lemma option_as_u64 [simp]: "\<forall>n \<in> set_option v. n \<le> u64_max \<Longrightarrow> map_option as_u64 (map_option as_i64 v) = v"
  by (cases v) simp_all

lemma classifier_reads: "u64_file_row r \<Longrightarrow> classifier_of_columns (file_columns_of r) = Ok (af_classifier r)"
  by (cases "af_classifier r") (simp_all add: classifier_of_columns_def file_columns_of_def u64_file_row_def)

lemma file_reads: "u64_file_row r \<Longrightarrow> file_of_columns (file_columns_of r) = Ok r"
  by (simp add: file_of_columns_def classifier_reads) (simp add: file_columns_of_def)

lemma decision_reads: "u64_decision_row r \<Longrightarrow> decision_of_columns (decision_columns_of r) = Ok r"
  by (simp add: decision_of_columns_def decision_columns_of_def u64_decision_row_def)

lemma file_columns_key: "cf_file_identity (file_columns_of r) = af_file_identity r"
  by (simp add: file_columns_of_def)

lemma decision_columns_key: "cg_file_identity (decision_columns_of r) = ag_file_identity r"
  by (simp add: decision_columns_of_def)

interpretation file_rows: row_codec file_columns_of file_of_columns u64_file_row af_file_identity cf_file_identity
  by unfold_locales (simp_all add: file_reads file_columns_key)

interpretation decision_rows: row_codec decision_columns_of decision_of_columns u64_decision_row ag_file_identity cg_file_identity
  by unfold_locales (simp_all add: decision_reads decision_columns_key)

text \<open>Numbers are handed out in order, and no owned row belongs to a later one.\<close>

definition artifact_tables_ok :: "artifact_tables \<Rightarrow> bool" where
  "artifact_tables_ok t \<longleftrightarrow> distinct (map fa_artifact_id (at_artifacts t))
     \<and> (\<forall>a \<in> set (at_artifacts t). fa_artifact_id a < at_next_artifact_id t)
     \<and> (\<forall>r \<in> set (at_files t). fst r < at_next_artifact_id t)
     \<and> (\<forall>r \<in> set (at_decisions t). fst r < at_next_artifact_id t)"

lemma insert_artifact_files_rows:
  "insert_artifact_files known i rs rows = Ok rows' \<Longrightarrow> rows' = rows @ map (Pair i) (map file_columns_of rs)"
  by (induction rs arbitrary: rows) (force simp: Let_def)+

lemma insert_artifact_decisions_rows:
  "insert_artifact_decisions files i rs rows = Ok rows' \<Longrightarrow> rows' = rows @ map (Pair i) (map decision_columns_of rs)"
  by (induction rs arbitrary: rows) (force simp: Let_def)+

lemma owned_rows_append:
  "\<forall>r \<in> set rows. fst r < (i :: int) \<Longrightarrow> map snd (filter (\<lambda>(j, _). j = i) (rows @ map (Pair i) rs)) = rs"
  by (induction rows) (auto simp: filter_map o_def)

lemma other_rows_append:
  "j \<noteq> i \<Longrightarrow> filter (\<lambda>(k, _). k = j) (rows @ map (Pair i) rs) = filter (\<lambda>(k, _). k = j) rows"
  by (auto simp: filter_map o_def filter_empty_conv)

lemma new_artifact_row_simps [simp]:
  "fa_artifact_id (new_artifact_row draft key json bytes now i) = i"
  "fa_snapshot_eligible (new_artifact_row draft key json bytes now i) = of_bool (key \<noteq> None)"
  "fa_snapshot_key_sha256 (new_artifact_row draft key json bytes now i) = map_option sk_sha256 key"
  "fa_snapshot_key_json (new_artifact_row draft key json bytes now i) = map_option sk_canonical_json key"
  "fa_final_context (new_artifact_row draft key json bytes now i) = dr_final_context draft"
  "fa_context_sha256 (new_artifact_row draft key json bytes now i) = dr_context_sha256 draft"
  "fa_semantic_summary_json (new_artifact_row draft key json bytes now i) = json"
  "fa_artifact_size_bytes (new_artifact_row draft key json bytes now i) = bytes"
  by (simp_all add: new_artifact_row_def)

definition owned_rows :: "artifact_draft \<Rightarrow> int \<Rightarrow> 'r list \<Rightarrow> (int \<times> 'r) list" where
  "owned_rows draft i rs = (if dr_snapshot_eligible draft then map (Pair i) rs else [])"

lemma insert_artifact_Ok:
  assumes "insert_artifact known draft key json bytes now t = Ok (t', i)"
  shows "i = at_next_artifact_id t" "0 \<le> bytes"
    "t' = t\<lparr>at_artifacts := at_artifacts t @ [new_artifact_row draft key json bytes now i],
        at_files := at_files t @ owned_rows draft i (map file_columns_of (dr_file_rows draft)),
        at_decisions := at_decisions t @ owned_rows draft i (map decision_columns_of (dr_decision_rows draft)),
        at_next_artifact_id := i + 1\<rparr>"
    "key \<noteq> None \<Longrightarrow> \<not> list_ex (\<lambda>a. fa_snapshot_eligible a = 1 \<and> fa_snapshot_key_sha256 a = map_option sk_sha256 key) (at_artifacts t)"
proof -
  show "i = at_next_artifact_id t" "0 \<le> bytes"
    "key \<noteq> None \<Longrightarrow> \<not> list_ex (\<lambda>a. fa_snapshot_eligible a = 1 \<and> fa_snapshot_key_sha256 a = map_option sk_sha256 key) (at_artifacts t)"
    using assms by (auto simp: insert_artifact_def artifact_checks_def Let_def split: if_splits)
  show "t' = t\<lparr>at_artifacts := at_artifacts t @ [new_artifact_row draft key json bytes now i],
        at_files := at_files t @ owned_rows draft i (map file_columns_of (dr_file_rows draft)),
        at_decisions := at_decisions t @ owned_rows draft i (map decision_columns_of (dr_decision_rows draft)),
        at_next_artifact_id := i + 1\<rparr>"
    using assms by (cases t)
      (clarsimp simp: insert_artifact_def Let_def owned_rows_def split: if_splits;
        drule insert_artifact_files_rows insert_artifact_decisions_rows; clarsimp dest!: insert_artifact_decisions_rows)
qed

lemma insert_artifact_tables_ok:
  assumes ok: "artifact_tables_ok t" and ins: "insert_artifact known draft key json bytes now t = Ok (t', i)"
  shows "artifact_tables_ok t'"
proof -
  note facts = insert_artifact_Ok [OF ins]
  have owned: "fst r = i" if "r \<in> set (owned_rows draft i rs)" for r and rs :: "'r list"
    using that by (auto simp: owned_rows_def split: if_splits)
  show ?thesis unfolding artifact_tables_ok_def
  proof (intro conjI)
    show "distinct (map fa_artifact_id (at_artifacts t'))"
      using ok by (force simp: artifact_tables_ok_def facts(1,3))
    show "\<forall>a \<in> set (at_artifacts t'). fa_artifact_id a < at_next_artifact_id t'"
      using ok by (force simp: artifact_tables_ok_def facts(1,3))
    show "\<forall>r \<in> set (at_files t'). fst r < at_next_artifact_id t'"
      using ok by (force simp: artifact_tables_ok_def facts(1,3) owned_rows_def)
    show "\<forall>r \<in> set (at_decisions t'). fst r < at_next_artifact_id t'"
      using ok by (force simp: artifact_tables_ok_def facts(1,3) owned_rows_def)
  qed
qed

lemma find_fresh:
  "artifact_tables_ok t \<Longrightarrow> find (\<lambda>a. fa_artifact_id a = at_next_artifact_id t) (at_artifacts t) = None"
  unfolding artifact_tables_ok_def find_None_iff by auto

lemma find_append_None: "find P xs = None \<Longrightarrow> find P (xs @ ys) = find P ys"
  by (induction xs) auto

lemma find_append_Some: "find P xs = Some x \<Longrightarrow> find P (xs @ ys) = Some x"
  by (induction xs) auto

text \<open>Other artifacts load as before, present or not.\<close>

lemma load_artifact_insert_other:
  assumes ins: "insert_artifact known draft key json bytes now t = Ok (t', i)" and j: "j \<noteq> i"
  shows "load_artifact codec t' j = load_artifact codec t j"
proof -
  note facts = insert_artifact_Ok [OF ins]
  have "find (\<lambda>a. fa_artifact_id a = j) (xs @ [new_artifact_row draft key json bytes now i]) = find (\<lambda>a. fa_artifact_id a = j) xs"
    for xs using j by (induction xs) auto
  moreover have "filter (\<lambda>(k, _). k = j) (rows @ owned_rows draft i rs) = filter (\<lambda>(k, _). k = j) rows"
    for rs and rows :: "(int \<times> file_columns) list"
    using other_rows_append [OF j, of rows] by (simp add: owned_rows_def del: filter_append)
  moreover have "filter (\<lambda>(k, _). k = j) (rows @ owned_rows draft i rs) = filter (\<lambda>(k, _). k = j) rows"
    for rs and rows :: "(int \<times> decision_columns) list"
    using other_rows_append [OF j, of rows] by (simp add: owned_rows_def del: filter_append)
  ultimately show ?thesis
    by (simp add: load_artifact_def stored_files_def stored_decisions_def facts(3) del: filter_append)
qed

lemma load_artifact_insert:
  assumes ok: "artifact_tables_ok t" and ins: "insert_artifact known draft key json bytes now t = Ok (t', i)"
    and hash: "dr_context_sha256 draft = sc_sha256 codec (dr_final_context draft)"
    and key: "dr_snapshot_eligible draft \<longleftrightarrow> key \<noteq> None"
    and none: "\<not> dr_snapshot_eligible draft \<Longrightarrow> dr_file_rows draft = [] \<and> dr_decision_rows draft = []"
    and sorted: "sorted (map af_file_identity (dr_file_rows draft))" "sorted (map ag_file_identity (dr_decision_rows draft))"
    and json: "sc_parse_semantic codec json = Some (dr_semantic_summary draft)" and counts: "u64_draft draft"
  shows "load_artifact codec t' i = Ok draft"
proof -
  note facts = insert_artifact_Ok [OF ins]
  have "map snd (filter (\<lambda>(j, _). j = i) (at_files t')) = map file_columns_of (dr_file_rows draft)"
    using owned_rows_append [of "at_files t" i "map file_columns_of (dr_file_rows draft)"]
      owned_rows_append [of "at_files t" i "[]"] ok none
    by (cases "dr_snapshot_eligible draft") (simp_all add: facts(1,3) artifact_tables_ok_def owned_rows_def)
  then have files: "stored_files t' i = map file_columns_of (dr_file_rows draft)"
    using sorted(1) by (simp only: stored_files_def file_rows.columns_in_order)
  have "map snd (filter (\<lambda>(j, _). j = i) (at_decisions t')) = map decision_columns_of (dr_decision_rows draft)"
    using owned_rows_append [of "at_decisions t" i "map decision_columns_of (dr_decision_rows draft)"]
      owned_rows_append [of "at_decisions t" i "[]"] ok none
    by (cases "dr_snapshot_eligible draft") (simp_all add: facts(1,3) artifact_tables_ok_def owned_rows_def)
  then have decisions: "stored_decisions t' i = map decision_columns_of (dr_decision_rows draft)"
    using sorted(2) by (simp only: stored_decisions_def decision_rows.columns_in_order)
  have "find (\<lambda>a. fa_artifact_id a = i) (at_artifacts t') = Some (new_artifact_row draft key json bytes now i)"
    using find_append_None [OF find_fresh [OF ok]] by (simp add: facts(1,3))
  then show ?thesis
    using key hash json counts
    by (simp add: load_artifact_def files decisions ok_or_def require_store_def u64_draft_def
        file_rows.rows_read decision_rows.rows_read)
qed

lemma draft_new_facts:
  assumes "ArtifactDraft_new codec elig ctx summary files decisions = Ok draft"
  shows "dr_context_sha256 draft = sc_sha256 codec (dr_final_context draft)" "dr_snapshot_eligible draft = elig"
    "\<not> elig \<Longrightarrow> dr_file_rows draft = [] \<and> dr_decision_rows draft = []"
    "sorted (map af_file_identity (dr_file_rows draft))" "sorted (map ag_file_identity (dr_decision_rows draft))"
    "dr_final_context draft = ctx" "dr_semantic_summary draft = summary"
    "set (dr_file_rows draft) = set files" "set (dr_decision_rows draft) = set decisions"
  using assms by (auto simp: ArtifactDraft_new_def split: if_splits)

text \<open>C15. An artifact survives its columns. One that was built and inserted is not there before and loads
  as it was built: every status and action by its name, every count through the conversions to and from a
  signed column, an absent classifier as the columns that hold nothing, the rows in the order of their files.
  Inserting it changes no other artifact, and the tables keep their numbering.\<close>

theorem artifact_round_trip:
  assumes "artifact_tables_ok t" and "ArtifactDraft_new codec elig ctx summary files decisions = Ok draft"
    and "list_all u64_file_row files" and "list_all u64_decision_row decisions"
    and "sc_parse_semantic codec (sc_semantic_json codec summary) = Some summary"
    and "elig \<longleftrightarrow> key \<noteq> None"
    and "insert_artifact known draft key (sc_semantic_json codec summary) bytes now t = Ok (t', i)"
  shows "load_artifact codec t' i = Ok draft \<and> load_artifact codec t i = Err StoreRunNotFound
     \<and> (\<forall>j. j \<noteq> i \<longrightarrow> load_artifact codec t' j = load_artifact codec t j) \<and> artifact_tables_ok t'"
proof (intro conjI allI impI)
  note facts = draft_new_facts [OF assms(2)]
  have "u64_draft draft" using assms(3,4) facts by (simp add: u64_draft_def list_all_iff)
  then show "load_artifact codec t' i = Ok draft"
    using load_artifact_insert [OF assms(1,7) facts(1)] facts assms(5,6) by blast
  show "load_artifact codec t i = Err StoreRunNotFound"
    using find_fresh [OF assms(1)] by (simp add: load_artifact_def ok_or_def insert_artifact_Ok(1) [OF assms(7)])
qed (use load_artifact_insert_other [OF assms(7)] insert_artifact_tables_ok [OF assms(1,7)] in auto)

definition fixture_semantics :: semantic_summary where
  "fixture_semantics = \<lparr>ss_source_file_count = 1, ss_success_count = 1, ss_timeout_count = 0, ss_included_file_count = 1,
     ss_omitted_file_count = 0, ss_error_file_count = 0, ss_input_chars = 1, ss_output_chars = 1, ss_reserved_chars = 0,
     ss_rendered_chars = 1\<rparr>"

definition fixture_codec :: store_codec where
  "fixture_codec = \<lparr>sc_sha256 = \<lambda>_. replicate 64 48, sc_request_hash = \<lambda>_. [], sc_semantic_json = \<lambda>_. [],
     sc_parse_semantic = \<lambda>_. Some fixture_semantics, sc_metadata_json = \<lambda>_. [], sc_parse_metadata = \<lambda>_. None,
     sc_envelope_json = \<lambda>_. [], sc_parse_envelope = \<lambda>_. None,
     sc_parse_engine = \<lambda>_. None, sc_refill_json = \<lambda>_. [], sc_page_audit_json = \<lambda>_. []\<rparr>"

definition no_artifacts :: artifact_tables where
  "no_artifacts = \<lparr>at_artifacts = [], at_files = [], at_decisions = [], at_next_artifact_id = 1\<rparr>"

definition fixture_file_row :: artifact_file_row where
  "fixture_file_row = \<lparr>af_file_identity = [98], af_relative_path = [97], af_legacy_source_version = [49],
     af_source_guard_kind = None, af_source_guard_sha256 = None, af_parse_profile_hash = replicate 64 48,
     af_parse_status = Success, af_parser_backend = [112], af_worker_lane = [108], af_truncated = True,
     af_content_sha256 = replicate 64 48,
     af_classifier = Some \<lparr>cp_status = TextInParseWindow, cp_page_count = Some 7, cp_result_examined_pages = None,
       cp_nominal_charged_pages = 3, cp_classifier_build = replicate 64 48, cp_classifier_profile_hash = replicate 64 48\<rparr>\<rparr>"

definition fixture_decision_row :: artifact_decision_row where
  "fixture_decision_row = \<lparr>ag_file_identity = [98], ag_relative_path = [97], ag_action = MetadataOnly, ag_reason = [],
     ag_priority = 5, ag_input_chars = 1, ag_output_chars = 1, ag_truncated = False, ag_error_code = []\<rparr>"

text \<open>A snapshot of one PDF.\<close>

theorem artifact_round_trip_witness:
  "\<exists>draft t'. ArtifactDraft_new fixture_codec True [97] fixture_semantics [fixture_file_row] [fixture_decision_row] = Ok draft
     \<and> dr_file_rows draft = [fixture_file_row] \<and> load_artifact fixture_codec t' 1 = Ok draft
     \<and> load_artifact fixture_codec no_artifacts 1 = Err StoreRunNotFound"
proof -
  obtain draft where draft: "ArtifactDraft_new fixture_codec True [97] fixture_semantics [fixture_file_row] [fixture_decision_row] = Ok draft"
      "dr_context_sha256 draft = replicate 64 48" "dr_snapshot_eligible draft" "dr_file_rows draft = [fixture_file_row]"
      "dr_decision_rows draft = [fixture_decision_row]"
    by (simp add: ArtifactDraft_new_def fixture_semantics_def fixture_codec_def validate_counts_def checked_add_def ok_or_def
        require_def fixture_file_row_def fixture_decision_row_def u64_max_def)
  let ?key = "\<lparr>sk_sha256 = replicate 64 48, sk_canonical_json = [49]\<rparr>"
  have files: "insert_artifact_files {[98]} 1 [fixture_file_row] [] = Ok [(1, file_columns_of fixture_file_row)]"
    by (simp add: artifact_file_checks_def file_columns_of_def fixture_file_row_def as_i64_def I64_MAX_def Let_def)
  have decisions: "insert_artifact_decisions [(1, file_columns_of fixture_file_row)] 1 [fixture_decision_row] []
      = Ok [(1, decision_columns_of fixture_decision_row)]"
    by (simp add: artifact_decision_checks_def decision_columns_of_def file_columns_of_def fixture_file_row_def
        fixture_decision_row_def as_i64_def I64_MAX_def Let_def)
  obtain t' where stored: "insert_artifact {[98]} draft (Some ?key) (sc_semantic_json fixture_codec fixture_semantics) 100 0 no_artifacts = Ok (t', 1)"
    using draft(2-5) files decisions by (auto simp: insert_artifact_def no_artifacts_def artifact_checks_def Let_def)
  have "artifact_tables_ok no_artifacts" by (simp add: artifact_tables_ok_def no_artifacts_def)
  moreover have "u64_file_row fixture_file_row" "u64_decision_row fixture_decision_row"
    by (simp_all add: u64_file_row_def fixture_file_row_def u64_decision_row_def fixture_decision_row_def u64_max_def)
  moreover have "sc_parse_semantic fixture_codec (sc_semantic_json fixture_codec fixture_semantics) = Some fixture_semantics"
    by (simp add: fixture_codec_def)
  ultimately show ?thesis using artifact_round_trip [OF _ draft(1) _ _ _ _ stored] draft(1,4) by auto
qed

text \<open>The envelope comes back from its metadata and its artifact.\<close>

lemma rebuild_envelope_metadata:
  assumes "envelope_metadata_of e refill rows = Ok m" and "validate_context_envelope e = Ok ()"
    and "en_file_context e = (case artifact of None \<Rightarrow> [] | Some d \<Rightarrow> dr_final_context d)"
  shows "rebuild_envelope m (md_summary m) artifact = Ok e"
proof -
  have m: "md_contract m = en_contract e" "md_protocol_version m = en_protocol_version e" "md_request_id m = en_request_id e"
    "md_engine_version m = en_engine_version e" "md_engine_build m = en_engine_build e" "md_status m = en_status e"
    "md_scan_run_id m = en_scan_run_id e" "md_context_run_id m = en_context_run_id e" "md_warnings m = en_warnings e"
    "md_error m = en_error e" "md_summary m = en_summary e"
    using assms(1) by (auto simp: envelope_metadata_of_def)
  have e: "\<lparr>en_contract = en_contract e, en_protocol_version = en_protocol_version e, en_request_id = en_request_id e,
        en_engine_version = en_engine_version e, en_engine_build = en_engine_build e, en_status = en_status e,
        en_file_context = en_file_context e, en_summary = en_summary e, en_scan_run_id = en_scan_run_id e,
        en_context_run_id = en_context_run_id e, en_warnings = en_warnings e, en_error = en_error e\<rparr> = e"
    by (cases e) simp
  show ?thesis
    unfolding rebuild_envelope_def m assms(3) [symmetric] Let_def e
    using assms(2) by simp
qed

text \<open>No two eligible artifacts share a key, whatever is inserted.\<close>

definition snapshot_keys_unique :: "artifact_tables \<Rightarrow> bool" where
  "snapshot_keys_unique t \<longleftrightarrow> distinct (map fa_snapshot_key_sha256 (filter (\<lambda>a. fa_snapshot_eligible a = 1) (at_artifacts t)))"

lemma insert_artifact_keys_unique:
  assumes "snapshot_keys_unique t" "insert_artifact known draft key json bytes now t = Ok (t', i)"
  shows "snapshot_keys_unique t'"
proof (cases "key = None")
  case False
  note facts = insert_artifact_Ok [OF assms(2)]
  show ?thesis using assms(1) facts(4) [OF False] False
    by (auto simp: snapshot_keys_unique_def facts(3) list_ex_iff)
qed (use assms(1) insert_artifact_Ok(3) [OF assms(2)] in \<open>simp add: snapshot_keys_unique_def\<close>)

end
