(* ===== verification/Store_Rows.thy ===== *)
theory Store_Rows
  imports Store_Artifacts
begin

text \<open>
  The rows a finalisation adds for its run, as the tables keep them: file results and their
  execution (\<open>insert_file_results\<close> of \<open>src/rust/scanner_core/src/store/inventory.rs\<close>), diagnostics,
  stage and extension metrics (\<open>metrics.rs\<close>), the execution metrics of the contract and the
  constraints of these tables in \<open>store/schema.rs\<close>. A column of an enumeration is its value, a
  number is what \<open>as i64\<close> makes of it.
\<close>

section \<open>Execution metrics\<close>

record execution_metrics_v2 =
  xv_refill_audit :: "refill_audit option"
  xv_discovery_observed_file_count :: u64
  xv_source_guard_content_hash_file_count :: u64
  xv_source_guard_unavailable_count :: u64
  xv_source_guard_bytes_read :: u64
  xv_candidate_file_count :: u64
  xv_admitted_file_count :: u64
  xv_classification_slot_count :: u64
  xv_confirmed_run_inspected_pages_total :: u64
  xv_unobserved_classification_attempt_count :: u64
  xv_nominal_charged_pages_total :: u64
  xv_extraction_slot_count :: u64
  xv_pdfplumber_invocations :: u64
  xv_snapshot_hit :: bool
  xv_parse_cache_lookup_count :: u64
  xv_classification_cache_lookup_count :: u64
  xv_parse_cache_all_hit :: "bool option"
  xv_classification_cache_all_hit :: "bool option"
  xv_stage_deadline_exhausted_count :: u64
  xv_session_restart_count :: u64
  xv_session_fallback_count :: u64
  xv_classify_attempt_count :: u64
  xv_parse_attempt_count :: u64
  xv_reserved_chars :: u64
  xv_rendered_chars :: u64
  xv_worker_handshake_ms :: u64
  xv_discovery_ms :: u64
  xv_snapshot_lookup_ms :: u64
  xv_current_run_audit_write_ms :: u64
  xv_terminal_precommit_ms :: u64
  xv_deadline_precommit_elapsed_ms :: u64
  xv_envelope_rebuild_ms :: u64
  xv_terminal_rows_written :: u64
  xv_peak_worker_rss_bytes :: "u64 option"

definition validate_execution_metrics :: "execution_metrics_v2 \<Rightarrow> check" where
  "validate_execution_metrics m = validate_all
     [check_some (xv_refill_audit m) validate_refill_audit,
      require_range (xv_stage_deadline_exhausted_count m) 0 1 (lit ''stage_deadline_exhausted_count''),
      require (\<not> (xv_parse_cache_lookup_count m = 0 \<and> xv_parse_cache_all_hit m \<noteq> None))
        (lit ''parse_cache_all_hit must be null when no parse lookup occurred''),
      require (\<not> (0 < xv_parse_cache_lookup_count m \<and> xv_parse_cache_all_hit m = None))
        (lit ''parse_cache_all_hit is required after a parse lookup''),
      require (\<not> (xv_classification_cache_lookup_count m = 0 \<and> xv_classification_cache_all_hit m \<noteq> None))
        (lit ''classification_cache_all_hit must be null when no classification lookup occurred''),
      require (\<not> (0 < xv_classification_cache_lookup_count m \<and> xv_classification_cache_all_hit m = None))
        (lit ''classification_cache_all_hit is required after a classification lookup'')]"

text \<open>The counters in the order of their columns; each must fit the database.\<close>

definition metric_columns :: "execution_metrics_v2 \<Rightarrow> (u64 \<times> string) list" where
  "metric_columns m =
     [(xv_discovery_observed_file_count m, ''discovery_observed_file_count''),
      (xv_source_guard_content_hash_file_count m, ''source_guard_content_hash_file_count''),
      (xv_source_guard_unavailable_count m, ''source_guard_unavailable_count''),
      (xv_source_guard_bytes_read m, ''source_guard_bytes_read''),
      (xv_candidate_file_count m, ''candidate_file_count''),
      (xv_admitted_file_count m, ''admitted_file_count''),
      (xv_classification_slot_count m, ''classification_slot_count''),
      (xv_confirmed_run_inspected_pages_total m, ''confirmed_run_inspected_pages_total''),
      (xv_unobserved_classification_attempt_count m, ''unobserved_classification_attempt_count''),
      (xv_nominal_charged_pages_total m, ''nominal_charged_pages_total''),
      (xv_extraction_slot_count m, ''extraction_slot_count''),
      (xv_pdfplumber_invocations m, ''pdfplumber_invocations''),
      (xv_parse_cache_lookup_count m, ''parse_cache_lookup_count''),
      (xv_classification_cache_lookup_count m, ''classification_cache_lookup_count''),
      (xv_stage_deadline_exhausted_count m, ''stage_deadline_exhausted_count''),
      (xv_session_restart_count m, ''session_restart_count''),
      (xv_session_fallback_count m, ''session_fallback_count''),
      (xv_classify_attempt_count m, ''classify_attempt_count''),
      (xv_parse_attempt_count m, ''parse_attempt_count''),
      (xv_reserved_chars m, ''reserved_chars''), (xv_rendered_chars m, ''rendered_chars''),
      (xv_worker_handshake_ms m, ''worker_handshake_ms''), (xv_discovery_ms m, ''discovery_ms''),
      (xv_snapshot_lookup_ms m, ''snapshot_lookup_ms''),
      (xv_current_run_audit_write_ms m, ''current_run_audit_write_ms''),
      (xv_terminal_precommit_ms m, ''terminal_precommit_ms''),
      (xv_deadline_precommit_elapsed_ms m, ''deadline_precommit_elapsed_ms''),
      (xv_envelope_rebuild_ms m, ''envelope_rebuild_ms''),
      (xv_terminal_rows_written m, ''terminal_rows_written'')]"

fun check_columns :: "(u64 \<times> string) list \<Rightarrow> (unit, store_error) result" where
  "check_columns [] = Ok ()"
| "check_columns ((v, field) # cs) = and_then (checked_i64 v (lit field)) (\<lambda>_. check_columns cs)"

definition insert_execution_metrics ::
  "int \<Rightarrow> execution_metrics_v2 \<Rightarrow> (int \<times> execution_metrics_v2) list \<Rightarrow> ((int \<times> execution_metrics_v2) list, store_error) result" where
  "insert_execution_metrics scan_run_id m rows =
     and_then (check_columns (metric_columns m)) (\<lambda>_.
     and_then (require_store (xv_stage_deadline_exhausted_count m \<le> 1
                   \<and> (case xv_peak_worker_rss_bytes m of None \<Rightarrow> True | Some v \<Rightarrow> 0 \<le> as_i64 v))
                 (check_failed ''scan_execution_metrics'')) (\<lambda>_.
     and_then (require_store (\<not> list_ex (\<lambda>(i, _). i = scan_run_id) rows)
                 (unique_failed ''scan_execution_metrics.scan_run_id'')) (\<lambda>_.
     Ok (rows @ [(scan_run_id, m)]))))"

section \<open>File rows\<close>

record file_result_row =
  fw_file_identity :: rstring
  fw_relative_path :: rstring
  fw_source_version :: rstring
  fw_parse_profile_hash :: rstring
  fw_cache_status :: cache_status
  fw_cache_miss_reason :: cache_miss_reason
  fw_parse_status :: parse_status
  fw_parser_backend :: rstring
  fw_worker_lane :: audit_worker_lane
  fw_truncated :: bool
  fw_content_sha256 :: rstring
  fw_primary_duration_ms :: int
  fw_fallback_duration_ms :: int
  fw_parse_duration_ms :: int
  fw_failure_class :: rstring
  fw_fallback_backend :: rstring
  fw_fallback_reason_code :: rstring
  fw_error :: "diagnostic option"
  fw_parse_cache_status :: parse_cache_status

record classification_row =
  kr_status :: pdf_classification_status
  kr_page_count :: "int option"
  kr_cache_status :: classification_cache_status
  kr_cache_miss_reason :: rstring
  kr_result_examined_pages :: "int option"
  kr_run_inspected_pages :: "int option"
  kr_nominal_charged_pages :: int
  kr_duration_ms :: int
  kr_transport :: classification_transport
  kr_attempt_count :: int
  kr_classifier_build :: rstring
  kr_classifier_profile_hash :: rstring

record file_execution_row =
  fe_file_identity :: rstring
  fe_parse_transport :: parse_transport
  fe_parse_attempt_count :: int
  fe_classification :: "classification_row option"

text \<open>In a run that reused a snapshot nothing was executed: its rows say so, whatever the record says. A
  reason for a miss is kept for a miss only.\<close>

definition persisted_cache_status :: "bool \<Rightarrow> file_result_record \<Rightarrow> parse_cache_status" where
  "persisted_cache_status snapshot_rows r = (if snapshot_rows then PcSnapshot else parse_cache_status_of r)"

definition file_result_row_of :: "bool \<Rightarrow> file_result_record \<Rightarrow> file_result_row" where
  "file_result_row_of snapshot_rows r =
     (let status = persisted_cache_status snapshot_rows r
      in \<lparr>fw_file_identity = fr_file_identity r, fw_relative_path = fr_relative_path r,
          fw_source_version = fr_source_version r, fw_parse_profile_hash = fr_parse_profile_hash r,
          fw_cache_status = fr_cache_status r,
          fw_cache_miss_reason = (if status = PcMiss then fr_cache_miss_reason r else MissNone),
          fw_parse_status = fr_parse_status r, fw_parser_backend = fr_parser_backend r,
          fw_worker_lane = fr_worker_lane r, fw_truncated = fr_truncated r, fw_content_sha256 = fr_content_sha256 r,
          fw_primary_duration_ms = as_i64 (fr_primary_duration_ms r),
          fw_fallback_duration_ms = as_i64 (fr_fallback_duration_ms r),
          fw_parse_duration_ms = as_i64 (fr_parse_duration_ms r), fw_failure_class = fr_failure_class r,
          fw_fallback_backend = fr_fallback_backend r, fw_fallback_reason_code = fr_fallback_reason_code r,
          fw_error = fr_error r, fw_parse_cache_status = status\<rparr>)"

definition reused_classification :: "bool \<Rightarrow> pdf_classification_audit \<Rightarrow> bool" where
  "reused_classification snapshot_rows a \<longleftrightarrow> snapshot_rows \<and> ca_status a \<noteq> NotClassifiedByBudget"

definition classification_row_of :: "bool \<Rightarrow> pdf_classification_audit \<Rightarrow> classification_row" where
  "classification_row_of snapshot_rows a =
     \<lparr>kr_status = ca_status a, kr_page_count = map_option as_i64 (ca_page_count a),
      kr_cache_status = (if reused_classification snapshot_rows a then CcSnapshot else ca_cache_status a),
      kr_cache_miss_reason = (if snapshot_rows then [] else ca_cache_miss_reason a),
      kr_result_examined_pages = map_option as_i64 (ca_result_examined_pages a),
      kr_run_inspected_pages = (if snapshot_rows then Some 0 else map_option as_i64 (ca_run_inspected_pages a)),
      kr_nominal_charged_pages = as_i64 (ca_nominal_charged_pages a),
      kr_duration_ms = (if snapshot_rows then 0 else as_i64 (ca_duration_ms a)),
      kr_transport = (if reused_classification snapshot_rows a then CtSnapshot else ca_transport a),
      kr_attempt_count = (if snapshot_rows then 0 else as_i64 (ca_attempt_count a)),
      kr_classifier_build = ca_classifier_build a, kr_classifier_profile_hash = ca_classifier_profile_hash a\<rparr>"

definition file_execution_row_of :: "bool \<Rightarrow> file_result_record \<Rightarrow> file_execution_row" where
  "file_execution_row_of snapshot_rows r =
     \<lparr>fe_file_identity = fr_file_identity r,
      fe_parse_transport = (if snapshot_rows then PtSnapshot else fr_parse_transport r),
      fe_parse_attempt_count = (if snapshot_rows then 0 else as_i64 (fr_parse_attempt_count r)),
      fe_classification = map_option (classification_row_of snapshot_rows) (fr_pdf_classification r)\<rparr>"

text \<open>The checks of the two tables. The table of executions does not know the transport \<open>one_shot\<close>, which
  the contract has.\<close>

definition nullable_nonneg :: "int option \<Rightarrow> bool" where
  "nullable_nonneg v = (case v of None \<Rightarrow> True | Some i \<Rightarrow> 0 \<le> i)"

definition file_result_checks :: "file_result_row \<Rightarrow> bool" where
  "file_result_checks w \<longleftrightarrow> length (fw_parse_profile_hash w) = 64 \<and> length (fw_content_sha256 w) = 64
     \<and> 0 \<le> fw_primary_duration_ms w \<and> 0 \<le> fw_fallback_duration_ms w \<and> 0 \<le> fw_parse_duration_ms w"

definition classification_checks :: "classification_row \<Rightarrow> bool" where
  "classification_checks k \<longleftrightarrow> nullable_nonneg (kr_page_count k) \<and> nullable_nonneg (kr_result_examined_pages k)
     \<and> nullable_nonneg (kr_run_inspected_pages k) \<and> 0 \<le> kr_nominal_charged_pages k \<and> 0 \<le> kr_duration_ms k
     \<and> kr_transport k \<noteq> CtOneShot \<and> 0 \<le> kr_attempt_count k \<and> kr_attempt_count k \<le> 3
     \<and> length (kr_classifier_build k) = 64 \<and> length (kr_classifier_profile_hash k) = 64"

definition file_execution_checks :: "file_execution_row \<Rightarrow> bool" where
  "file_execution_checks x \<longleftrightarrow> fe_parse_transport x \<noteq> PtOneShot
     \<and> 0 \<le> fe_parse_attempt_count x \<and> fe_parse_attempt_count x \<le> 3
     \<and> (case fe_classification x of None \<Rightarrow> True | Some k \<Rightarrow> classification_checks k)"

text \<open>\<open>known\<close>: the identities in the table of inventory.\<close>

fun insert_file_results ::
  "rstring set \<Rightarrow> int \<Rightarrow> bool \<Rightarrow> file_result_record list \<Rightarrow> (int \<times> file_result_row) list \<times> (int \<times> file_execution_row) list \<Rightarrow>
     ((int \<times> file_result_row) list \<times> (int \<times> file_execution_row) list, store_error) result" where
  "insert_file_results known scan_run_id snapshot_rows [] tables = Ok tables"
| "insert_file_results known scan_run_id snapshot_rows (r # rs) tables =
     (case tables of (results, executions) \<Rightarrow>
        let w = file_result_row_of snapshot_rows r; x = file_execution_row_of snapshot_rows r in
        and_then (require_store (file_result_checks w) (check_failed ''scan_file_results'')) (\<lambda>_.
        and_then (require_store (\<not> list_ex (\<lambda>(i, q). i = scan_run_id \<and> fw_file_identity q = fw_file_identity w) results)
                    (unique_failed ''scan_file_results.scan_run_id, scan_file_results.file_identity'')) (\<lambda>_.
        and_then (require_store (fw_file_identity w \<in> known) foreign_key_failed) (\<lambda>_.
        and_then (require_store (file_execution_checks x) (check_failed ''scan_file_execution'')) (\<lambda>_.
        and_then (require_store (\<not> list_ex (\<lambda>(i, q). i = scan_run_id \<and> fe_file_identity q = fe_file_identity x) executions)
                    (unique_failed ''scan_file_execution.scan_run_id, scan_file_execution.file_identity'')) (\<lambda>_.
        insert_file_results known scan_run_id snapshot_rows rs
          (results @ [(scan_run_id, w)], executions @ [(scan_run_id, x)])))))))"

lemma insert_file_results_rows:
  "insert_file_results known i snap rs (ws, xs) = Ok (ws', xs') \<Longrightarrow>
     ws' = ws @ map (\<lambda>r. (i, file_result_row_of snap r)) rs \<and> xs' = xs @ map (\<lambda>r. (i, file_execution_row_of snap r)) rs"
  by (induction rs arbitrary: ws xs) (force simp: Let_def)+

section \<open>Diagnostics and metrics\<close>

text \<open>The position in the run is the sequence number.\<close>

fun insert_diagnostics ::
  "int \<Rightarrow> nat \<Rightarrow> run_diagnostic list \<Rightarrow> (int \<times> nat \<times> run_diagnostic) list \<Rightarrow>
     ((int \<times> nat \<times> run_diagnostic) list, store_error) result" where
  "insert_diagnostics scan_run_id sequence [] rows = Ok rows"
| "insert_diagnostics scan_run_id sequence (d # ds) rows =
     and_then (require_store (\<not> list_ex (\<lambda>(i, k, _). i = scan_run_id \<and> k = sequence) rows)
                 (unique_failed ''run_diagnostics.scan_run_id, run_diagnostics.sequence'')) (\<lambda>_.
     insert_diagnostics scan_run_id (Suc sequence) ds (rows @ [(scan_run_id, sequence, d)]))"

fun insert_stage_metrics ::
  "int \<Rightarrow> stage_metric list \<Rightarrow> (int \<times> stage_metric) list \<Rightarrow> ((int \<times> stage_metric) list, store_error) result" where
  "insert_stage_metrics scan_run_id [] rows = Ok rows"
| "insert_stage_metrics scan_run_id (m # ms) rows =
     and_then (require_store (0 \<le> as_i64 (sm_item_count m) \<and> 0 \<le> as_i64 (sm_duration_ms m))
                 (check_failed ''scan_stage_metrics'')) (\<lambda>_.
     and_then (require_store (\<not> list_ex (\<lambda>(i, q). i = scan_run_id \<and> sm_stage q = sm_stage m) rows)
                 (unique_failed ''scan_stage_metrics.scan_run_id, scan_stage_metrics.stage'')) (\<lambda>_.
     insert_stage_metrics scan_run_id ms (rows @ [(scan_run_id, m)])))"

definition extension_columns :: "extension_metric \<Rightarrow> u64 list" where
  "extension_columns m = [xm_file_count m, xm_parse_duration_ms m, xm_success_count m, xm_error_count m, xm_timeout_count m]"

fun insert_extension_metrics ::
  "int \<Rightarrow> extension_metric list \<Rightarrow> (int \<times> extension_metric) list \<Rightarrow> ((int \<times> extension_metric) list, store_error) result" where
  "insert_extension_metrics scan_run_id [] rows = Ok rows"
| "insert_extension_metrics scan_run_id (m # ms) rows =
     and_then (require_store (list_all (\<lambda>v. 0 \<le> as_i64 v) (extension_columns m)) (check_failed ''scan_extension_metrics'')) (\<lambda>_.
     and_then (require_store (\<not> list_ex (\<lambda>(i, q). i = scan_run_id \<and> xm_extension q = xm_extension m) rows)
                 (unique_failed ''scan_extension_metrics.scan_run_id, scan_extension_metrics.extension'')) (\<lambda>_.
     insert_extension_metrics scan_run_id ms (rows @ [(scan_run_id, m)])))"

text \<open>What is checked before the transaction.\<close>

fun validate_stages :: "stage_metric list \<Rightarrow> stage_name set \<Rightarrow> check" where
  "validate_stages [] seen = Ok ()"
| "validate_stages (m # ms) seen =
     and_then (require (sm_item_count m \<le> i64_max \<and> sm_duration_ms m \<le> i64_max \<and> sm_stage m \<notin> seen)
                 (lit ''invalid or duplicate stage metric'')) (\<lambda>_.
     validate_stages ms (insert (sm_stage m) seen))"

fun validate_extensions :: "extension_metric list \<Rightarrow> rstring set \<Rightarrow> check" where
  "validate_extensions [] seen = Ok ()"
| "validate_extensions (m # ms) seen =
     and_then (require_extension (xm_extension m) (lit ''extension metric extension'')) (\<lambda>_.
     and_then (require (list_all (\<lambda>v. v \<le> i64_max) (extension_columns m) \<and> xm_extension m \<notin> seen)
                 (lit ''invalid or duplicate extension metric'')) (\<lambda>_.
     validate_extensions ms (insert (xm_extension m) seen)))"

definition validate_metrics :: "stage_metric list \<Rightarrow> extension_metric list \<Rightarrow> check" where
  "validate_metrics stages extensions =
     and_then (require (length stages \<le> 4 \<and> length extensions \<le> 256) (lit ''too many scanner metric rows'')) (\<lambda>_.
     and_then (validate_stages stages {}) (\<lambda>_. validate_extensions extensions {}))"

section \<open>Accepted rows can be inserted\<close>

lemma as_i64_nonneg: "v \<le> i64_max \<Longrightarrow> 0 \<le> as_i64 v"
  by (simp add: as_i64_def i64_max_def I64_MAX_def)

text \<open>What the validator leaves open and the tables do not: numbers of a classification beyond \<open>i64\<close>, and
  the transport that the engine no longer uses.\<close>

definition classification_fits :: "pdf_classification_audit \<Rightarrow> bool" where
  "classification_fits a \<longleftrightarrow> (\<forall>v. ca_page_count a = Some v \<longrightarrow> v \<le> i64_max)
     \<and> (\<forall>v. ca_result_examined_pages a = Some v \<longrightarrow> v \<le> i64_max)
     \<and> (\<forall>v. ca_run_inspected_pages a = Some v \<longrightarrow> v \<le> i64_max)
     \<and> ca_nominal_charged_pages a \<le> i64_max \<and> ca_duration_ms a \<le> i64_max \<and> ca_transport a \<noteq> CtOneShot"

definition row_fits :: "file_result_record \<Rightarrow> bool" where
  "row_fits r \<longleftrightarrow> fr_parse_transport r \<noteq> PtOneShot
     \<and> (case fr_pdf_classification r of None \<Rightarrow> True | Some a \<Rightarrow> classification_fits a)"

lemma sha256_hex_length: "is_sha256_hex s \<Longrightarrow> length s = 64"
  by (simp add: is_sha256_hex_def)

lemma accepted_result_checks:
  "validate_for_persistence snap r \<Longrightarrow> file_result_checks (file_result_row_of snap r)"
  by (simp add: validate_for_persistence_def file_result_checks_def file_result_row_of_def Let_def
      sha256_hex_length as_i64_nonneg)

lemma as_i64_small: "v \<le> 3 \<Longrightarrow> 0 \<le> as_i64 v \<and> as_i64 v \<le> 3"
  by (simp add: as_i64_def I64_MAX_def)

lemma nullable_nonneg_fits: "(\<And>v. x = Some v \<Longrightarrow> v \<le> i64_max) \<Longrightarrow> nullable_nonneg (map_option as_i64 x)"
  by (cases x) (simp_all add: nullable_nonneg_def as_i64_nonneg)

lemma accepted_classification_checks:
  assumes "validate_classification_audit a = Ok ()" "classification_fits a"
  shows "classification_checks (classification_row_of snap a)"
proof -
  have facts: "ca_attempt_count a \<le> 3" "length (ca_classifier_build a) = 64" "length (ca_classifier_profile_hash a) = 64"
    using assms(1) by (auto simp: validate_classification_audit_def require_sha256_hex_def sha256_hex_length)
  show ?thesis
    using assms(2) facts(2,3) as_i64_small [OF facts(1)]
    by (auto simp: classification_checks_def classification_row_of_def classification_fits_def as_i64_nonneg
        intro: nullable_nonneg_fits) (auto simp: nullable_nonneg_def intro: as_i64_nonneg split: option.splits)
qed

lemma accepted_execution_checks:
  assumes "validate_for_persistence snap r" "row_fits r"
  shows "file_execution_checks (file_execution_row_of snap r)"
  using assms as_i64_small [of "fr_parse_attempt_count r"]
  by (auto simp: validate_for_persistence_def file_execution_checks_def file_execution_row_of_def row_fits_def
      accepted_classification_checks split: option.splits)

text \<open>Validation protects the transaction: rows that the store's own validation accepts, of files in the
  inventory and each file once, are written without violating a constraint of their tables, as the
  rows the columns stand for; the two things the validation leaves open are numbers beyond 64 bits
  and the transport \<open>one_shot\<close>.\<close>

theorem accepted_rows_insert:
  assumes "\<And>r. r \<in> set rs \<Longrightarrow> validate_for_persistence snap r \<and> row_fits r \<and> fr_file_identity r \<in> known"
    and "distinct (map fr_file_identity rs)"
    and "\<And>w. (i, w) \<in> set ws \<Longrightarrow> fw_file_identity w \<notin> fr_file_identity ` set rs"
    and "\<And>x. (i, x) \<in> set xs \<Longrightarrow> fe_file_identity x \<notin> fr_file_identity ` set rs"
  shows "insert_file_results known i snap rs (ws, xs)
     = Ok (ws @ map (\<lambda>r. (i, file_result_row_of snap r)) rs, xs @ map (\<lambda>r. (i, file_execution_row_of snap r)) rs)"
  using assms
proof (induction rs arbitrary: ws xs)
  case (Cons r rs)
  have ids: "fw_file_identity (file_result_row_of snap r) = fr_file_identity r"
    "fe_file_identity (file_execution_row_of snap r) = fr_file_identity r"
    by (simp_all add: file_result_row_of_def file_execution_row_of_def Let_def)
  have new: "\<not> list_ex (\<lambda>(j, q). j = i \<and> fw_file_identity q = fr_file_identity r) ws"
    "\<not> list_ex (\<lambda>(j, q). j = i \<and> fe_file_identity q = fr_file_identity r) xs"
    using Cons.prems(3,4) by (auto simp: list_ex_iff)
  have tail: "insert_file_results known i snap rs (ws @ [(i, file_result_row_of snap r)], xs @ [(i, file_execution_row_of snap r)])
      = Ok ((ws @ [(i, file_result_row_of snap r)]) @ map (\<lambda>r. (i, file_result_row_of snap r)) rs,
            (xs @ [(i, file_execution_row_of snap r)]) @ map (\<lambda>r. (i, file_execution_row_of snap r)) rs)"
  proof (rule Cons.IH)
    show "distinct (map fr_file_identity rs)" using Cons.prems(2) by simp
    have fresh: "fr_file_identity r \<notin> fr_file_identity ` set rs" using Cons.prems(2) by simp
    show "fw_file_identity w \<notin> fr_file_identity ` set rs" if "(i, w) \<in> set (ws @ [(i, file_result_row_of snap r)])" for w
      using that fresh Cons.prems(3) [of w] ids(1) by (cases "(i, w) \<in> set ws") auto
    show "fe_file_identity x \<notin> fr_file_identity ` set rs" if "(i, x) \<in> set (xs @ [(i, file_execution_row_of snap r)])" for x
      using that fresh Cons.prems(4) [of x] ids(2) by (cases "(i, x) \<in> set xs") auto
  qed (use Cons.prems(1) in simp)
  show ?case
    using Cons.prems(1) [of r] new tail
    by (simp add: Let_def ids accepted_result_checks accepted_execution_checks require_store_def)
qed simp

text \<open>A row that names the transport is accepted, and the transaction fails on it.\<close>

definition fixture_row :: "parse_transport \<Rightarrow> file_result_record" where
  "fixture_row transport =
     \<lparr>fr_file_identity = lit ''f'', fr_relative_path = lit ''a.txt'', fr_source_version = lit ''mtime_ns=1:size=2'',
      fr_parse_profile_hash = fixture_hex, fr_cache_status = Miss, fr_cache_miss_reason = NewFile,
      fr_parse_status = Success, fr_parser_backend = lit ''light_text_v2'', fr_worker_lane = RustCore,
      fr_truncated = False, fr_content_sha256 = fixture_hex, fr_primary_duration_ms = 1, fr_fallback_duration_ms = 0,
      fr_parse_duration_ms = 1, fr_failure_class = [], fr_fallback_backend = [], fr_fallback_reason_code = [],
      fr_parse_transport = transport, fr_parse_attempt_count = 1, fr_pdf_classification = None, fr_error = None\<rparr>"

lemma fixture_row_audit: "validate_file_audit (fixture_row transport) = Ok ()"
proof -
  have "require_relative_path (lit ''a.txt'') field = Ok ()" for field
    by (simp add: require_relative_path_def is_safe_relative_path_def lit_def Let_def path_separator_def
        is_ascii_alphabetic_def is_ascii_lower_def is_ascii_upper_def)
  moreover have "require_source_version (lit ''mtime_ns=1:size=2'') field = Ok ()" for field
    by (simp add: require_source_version_def lit_def strip_prefix_opt_def is_ascii_digit_def)
  moreover have "is_sha256_hex fixture_hex"
    by (simp add: is_sha256_hex_def fixture_hex_def is_ascii_digit_def)
  ultimately show ?thesis
    by (simp add: validate_file_audit_def fixture_row_def require_non_empty_def lit_def)
qed

lemma fixture_row_accepted:
  assumes "transport \<in> {PtSession, PtOneShot, PtRustInProcess}"
  shows "validate_for_persistence False (fixture_row transport)"
proof -
  have "validate_v2_parse_provenance Success (lit ''light_text_v2'') RustCore PcMiss None = Ok ()"
    by (simp add: validate_v2_parse_provenance_def body_routes_def is_metadata_route_def is_not_parsed_route_def
        classification_matrix_def cache_matrix_def Let_def lit_def)
  moreover have "parse_cache_status_of (fixture_row transport) = PcMiss"
    by (simp add: parse_cache_status_of_def fixture_row_def PDF_METADATA_BACKEND_def lit_def)
  moreover have "is_sha256_hex fixture_hex"
    by (simp add: is_sha256_hex_def fixture_hex_def is_ascii_digit_def)
  ultimately show ?thesis
    using assms fixture_row_audit [of transport]
    by (simp add: validate_for_persistence_def execution_consistent_def cache_consistent_def error_consistent_def)
      (simp add: fixture_row_def i64_max_def lit_def)
qed

lemma one_shot_row_refused:
  "validate_for_persistence False (fixture_row PtOneShot)
   \<and> insert_file_results {lit ''f''} 1 False [fixture_row PtOneShot] ([], []) = Err (check_failed ''scan_file_execution'')"
proof
  have "file_result_checks (file_result_row_of False (fixture_row PtOneShot))"
    by (rule accepted_result_checks) (simp add: fixture_row_accepted)
  moreover have "\<not> file_execution_checks (file_execution_row_of False (fixture_row PtOneShot))"
    by (simp add: file_execution_checks_def file_execution_row_of_def fixture_row_def)
  moreover have "fw_file_identity (file_result_row_of False (fixture_row PtOneShot)) = lit ''f''"
    by (simp add: file_result_row_of_def fixture_row_def Let_def)
  ultimately show "insert_file_results {lit ''f''} 1 False [fixture_row PtOneShot] ([], [])
      = Err (check_failed ''scan_file_execution'')"
    by (simp add: Let_def require_store_def)
qed (simp add: fixture_row_accepted)

theorem accepted_rows_insert_witness:
  "insert_file_results {lit ''f''} 1 False [fixture_row PtSession] ([], [])
     = Ok ([(1, file_result_row_of False (fixture_row PtSession))], [(1, file_execution_row_of False (fixture_row PtSession))])"
  using accepted_rows_insert [of "[fixture_row PtSession]" False "{lit ''f''}" 1 "[]" "[]"] fixture_row_accepted [of PtSession]
  by (simp add: row_fits_def) (simp add: fixture_row_def)

end
