(* ===== verification/Store_Lease.thy ===== *)
theory Store_Lease
  imports Store_Rows
begin

text \<open>
  The run tables of the scanner database and the lease on it:
  \<open>src/rust/scanner_core/src/store/lease.rs\<close>, the row types of \<open>store/types.rs\<close> and the tables
  \<open>scan_runs\<close>, \<open>scan_run_attempts\<close> and \<open>engine_lease\<close> of \<open>store/schema.rs\<close>. A table is a list of rows,
  a statement is a function on it, and its count of changed rows is the number of rows its
  condition selects. Each operation is the body of one transaction: an error leaves the store as
  it was, because an uncommitted transaction rolls back. Times are \<open>i64\<close> milliseconds as \<open>int\<close>.
\<close>

definition LEASE_GRACE_MS :: int where "LEASE_GRACE_MS = 20000"

section \<open>Tables\<close>

record engine_lease =
  ls_owner_id :: rstring
  ls_owner_pid :: int
  ls_acquired_at_ms :: int
  ls_heartbeat_at_ms :: int
  ls_expires_at_ms :: int

record run_row =
  nr_scan_run_id :: int
  nr_request_id :: rstring
  nr_canonical_request_json :: rstring
  nr_request_hash_algorithm :: rstring
  nr_request_hash :: rstring
  nr_owner_id :: rstring
  nr_status :: run_status
  nr_created_at_ms :: int
  nr_started_at_ms :: int
  nr_updated_at_ms :: int
  nr_finished_at_ms :: "int option"
  nr_final_envelope_json :: "rstring option"
  nr_final_envelope_metadata_json :: "rstring option"
  nr_audit_size_bytes :: "int option"

record attempt_runtime =
  ar_scan_db_path :: rstring
  ar_office_worker_path :: rstring
  ar_pdf_worker_path :: rstring
  ar_engine_fingerprint :: rstring

record worker_fingerprint =
  wg_contract :: rstring
  wg_version :: rstring
  wg_build :: rstring

record attempt_row =
  na_scan_run_id :: int
  na_attempt_number :: int
  na_owner_id :: rstring
  na_runtime :: attempt_runtime
  na_office_worker :: "worker_fingerprint option"
  na_pdf_worker :: "worker_fingerprint option"
  na_started_at_ms :: int
  na_finished_at_ms :: "int option"
  na_status :: run_status

text \<open>The rows of a run that only a finalisation writes, keyed by its number, and its context. The context
  has the number of its run.\<close>

record audit_tables =
  au_file_results :: "(int \<times> file_result_row) list"
  au_file_execution :: "(int \<times> file_execution_row) list"
  au_diagnostics :: "(int \<times> nat \<times> run_diagnostic) list"
  au_stage_metrics :: "(int \<times> stage_metric) list"
  au_extension_metrics :: "(int \<times> extension_metric) list"
  au_execution_metrics :: "(int \<times> execution_metrics_v2) list"

record context_row =
  cx_scan_run_id :: int
  cx_context :: context_run_record
  cx_created_at_ms :: int
  cx_artifact_id :: "int option"
  cx_reused_from_context_run_id :: "int option"
  cx_snapshot_hit :: bool

record run_store =
  st_lease :: "engine_lease option"
  st_runs :: "run_row list"
  st_attempts :: "attempt_row list"
  st_next_run_id :: int
  st_inventory :: "(inventory_record \<times> int option) list"
  st_audit :: audit_tables
  st_contexts :: "context_row list"
  st_artifacts :: artifact_tables

record active_run =
  ac_scan_run_id :: int
  ac_attempt_number :: int
  ac_owner_id :: rstring
  ac_request_id :: rstring

definition is_terminal :: "run_status \<Rightarrow> bool" where
  "is_terminal status \<longleftrightarrow> status \<in> {RunSuccess, RunPartial, RunError}"

text \<open>\<open>UPDATE ... WHERE\<close>: the rows the condition selects are changed, the others are kept.\<close>

definition update_where :: "('r \<Rightarrow> bool) \<Rightarrow> ('r \<Rightarrow> 'r) \<Rightarrow> 'r list \<Rightarrow> 'r list" where
  "update_where P f rows = map (\<lambda>r. if P r then f r else r) rows"

definition selected_count :: "('r \<Rightarrow> bool) \<Rightarrow> 'r list \<Rightarrow> nat" where
  "selected_count P rows = length (filter P rows)"

text \<open>\<open>DELETE FROM context_runs\<close>: rows that were reused from a deleted one forget it.\<close>

definition delete_contexts :: "(int \<Rightarrow> bool) \<Rightarrow> context_row list \<Rightarrow> context_row list" where
  "delete_contexts gone rows =
     map (\<lambda>c. if (case cx_reused_from_context_run_id c of None \<Rightarrow> False | Some j \<Rightarrow> gone j)
              then c\<lparr>cx_reused_from_context_run_id := None\<rparr> else c)
       (filter (\<lambda>c. \<not> gone (cx_scan_run_id c)) rows)"

definition delete_audit :: "(int \<Rightarrow> bool) \<Rightarrow> audit_tables \<Rightarrow> audit_tables" where
  "delete_audit gone a = a
     \<lparr>au_file_results := filter (\<lambda>(i, _). \<not> gone i) (au_file_results a),
      au_file_execution := filter (\<lambda>(i, _). \<not> gone i) (au_file_execution a),
      au_diagnostics := filter (\<lambda>(i, _). \<not> gone i) (au_diagnostics a),
      au_stage_metrics := filter (\<lambda>(i, _). \<not> gone i) (au_stage_metrics a),
      au_extension_metrics := filter (\<lambda>(i, _). \<not> gone i) (au_extension_metrics a)\<rparr>"

definition clear_staging_rows :: "int \<Rightarrow> run_store \<Rightarrow> run_store" where
  "clear_staging_rows scan_run_id s = s
     \<lparr>st_contexts := delete_contexts (\<lambda>i. i = scan_run_id) (st_contexts s),
      st_audit := delete_audit (\<lambda>i. i = scan_run_id) (st_audit s)\<rparr>"

section \<open>The lease\<close>

definition lease_is_live :: "engine_lease \<Rightarrow> int \<Rightarrow> bool" where
  "lease_is_live lease now_ms \<longleftrightarrow>
     now_ms < ls_expires_at_ms lease \<or> i64_saturating_sub now_ms LEASE_GRACE_MS < ls_heartbeat_at_ms lease"

definition lease_expiry :: "int \<Rightarrow> (int, store_error) result" where
  "lease_expiry now_ms = ok_or (StoreInvalidRequest (lit ''lease timestamp overflows'')) (i64_checked_add now_ms LEASE_GRACE_MS)"

definition owns_lease :: "run_store \<Rightarrow> rstring \<Rightarrow> bool" where
  "owns_lease s owner \<longleftrightarrow> map_option ls_owner_id (st_lease s) = Some owner"

text \<open>\<open>DELETE FROM engine_lease WHERE lease_key=1 AND owner_id=?\<close>, which must delete its row.\<close>

definition delete_lease :: "rstring \<Rightarrow> run_store \<Rightarrow> (run_store, store_error) result" where
  "delete_lease owner s = (if owns_lease s owner then Ok (s\<lparr>st_lease := None\<rparr>) else Err StoreLeaseLost)"

definition abandon_run_row :: "int \<Rightarrow> run_row \<Rightarrow> run_row" where
  "abandon_run_row now_ms r = r\<lparr>nr_status := RunAbandoned, nr_updated_at_ms := now_ms, nr_finished_at_ms := Some now_ms\<rparr>"

definition abandon_attempt_row :: "int \<Rightarrow> attempt_row \<Rightarrow> attempt_row" where
  "abandon_attempt_row now_ms a = a\<lparr>na_status := RunAbandoned, na_finished_at_ms := Some now_ms\<rparr>"

definition running_run_of :: "rstring \<Rightarrow> run_row \<Rightarrow> bool" where
  "running_run_of owner r \<longleftrightarrow> nr_owner_id r = owner \<and> nr_status r = RunRunning"

definition running_attempt_of :: "rstring \<Rightarrow> attempt_row \<Rightarrow> bool" where
  "running_attempt_of owner a \<longleftrightarrow> na_owner_id a = owner \<and> na_status a = RunRunning"

definition reclaim_expired_lease :: "engine_lease \<Rightarrow> int \<Rightarrow> run_store \<Rightarrow> (run_store, store_error) result" where
  "reclaim_expired_lease lease now_ms s =
     (if lease_is_live lease now_ms then Err StoreScanAlreadyRunning
      else delete_lease (ls_owner_id lease) (s
        \<lparr>st_runs := update_where (running_run_of (ls_owner_id lease)) (abandon_run_row now_ms) (st_runs s),
         st_attempts := update_where (running_attempt_of (ls_owner_id lease)) (abandon_attempt_row now_ms) (st_attempts s)\<rparr>))"

section \<open>Ownership\<close>

definition run_of_active :: "active_run \<Rightarrow> run_row \<Rightarrow> bool" where
  "run_of_active active r \<longleftrightarrow> nr_scan_run_id r = ac_scan_run_id active \<and> nr_owner_id r = ac_owner_id active
     \<and> nr_status r = RunRunning"

definition attempt_of_active :: "active_run \<Rightarrow> attempt_row \<Rightarrow> bool" where
  "attempt_of_active active a \<longleftrightarrow> na_scan_run_id a = ac_scan_run_id active
     \<and> na_attempt_number a = ac_attempt_number active \<and> na_owner_id a = ac_owner_id active \<and> na_status a = RunRunning"

definition ensure_owner :: "active_run \<Rightarrow> run_store \<Rightarrow> (unit, store_error) result" where
  "ensure_owner active s =
     require_store (list_ex (run_of_active active) (st_runs s) \<and> owns_lease s (ac_owner_id active)) StoreLeaseLost"

definition ensure_worker_fingerprints :: "active_run \<Rightarrow> run_store \<Rightarrow> (unit, store_error) result" where
  "ensure_worker_fingerprints active s =
     (case find (attempt_of_active active) (st_attempts s) of
        None \<Rightarrow> Err StoreLeaseLost
      | Some a \<Rightarrow> require_store (na_office_worker a \<noteq> None \<and> na_pdf_worker a \<noteq> None)
          (StoreRunCorrupt (lit ''terminal attempt is missing required worker handshakes'')))"

text \<open>The identity of the engine as the attempt stored it must be the one the envelope names.\<close>

definition ensure_engine_fingerprint ::
  "store_codec \<Rightarrow> active_run \<Rightarrow> context_envelope \<Rightarrow> run_store \<Rightarrow> (unit, store_error) result" where
  "ensure_engine_fingerprint codec active e s =
     (case find (attempt_of_active active) (st_attempts s) of
        None \<Rightarrow> Err StoreLeaseLost
      | Some a \<Rightarrow>
          and_then (ok_or (StoreRunCorrupt (lit ''attempt engine fingerprint is invalid''))
             (sc_parse_engine codec (ar_engine_fingerprint (na_runtime a)))) (\<lambda>g.
          require_store (eg_contract g = en_contract e \<and> eg_protocol_version g = en_protocol_version e
              \<and> eg_engine_version g = en_engine_version e \<and> eg_engine_build g = en_engine_build e)
            (StoreRunCorrupt (lit ''final envelope engine identity changed during the run''))))"

text \<open>A heartbeat renews the lease of a live owner. A lease that has expired and missed its grace is
  lost even if nobody has taken it yet. The check constraint of the table refuses a heartbeat
  before the acquisition.\<close>

definition heartbeat_in_transaction :: "active_run \<Rightarrow> int \<Rightarrow> run_store \<Rightarrow> (run_store, store_error) result" where
  "heartbeat_in_transaction active now_ms s =
     and_then (ensure_owner active s) (\<lambda>_.
     and_then (lease_expiry now_ms) (\<lambda>expires.
     case st_lease s of
       Some lease \<Rightarrow>
         if ls_owner_id lease = ac_owner_id active \<and> lease_is_live lease now_ms
         then if now_ms < ls_acquired_at_ms lease \<or> expires \<le> now_ms then Err (check_failed ''engine_lease'')
              else Ok (s\<lparr>st_lease := Some (lease\<lparr>ls_heartbeat_at_ms := now_ms, ls_expires_at_ms := expires\<rparr>),
                st_runs := update_where (run_of_active active) (\<lambda>r. r\<lparr>nr_updated_at_ms := now_ms\<rparr>) (st_runs s)\<rparr>)
         else Err StoreLeaseLost
     | None \<Rightarrow> Err StoreLeaseLost))"

end
