(* ===== verification/Store_Runs.thy ===== *)
theory Store_Runs
  imports Store_Lease
begin

text \<open>
  The life of a run in the database, \<open>src/rust/scanner_core/src/store/runs.rs\<close>: a request begins
  a run, or finds its stored result, or is refused; an active run records its workers, sends
  heartbeats and ends by being finalised or abandoned. The rows a finalisation writes beside
  these tables are in \<open>Store_Finalize\<close>.
\<close>

section \<open>Beginning a run\<close>

record canonical_request =
  kq_request_id :: rstring
  kq_json :: rstring
  kq_hash_algorithm :: rstring
  kq_hash :: rstring

record stored_envelope =
  sv_scan_run_id :: int
  sv_envelope_json :: rstring
  sv_envelope :: context_envelope

datatype begin_outcome = Started active_run | Stored stored_envelope

definition REQUEST_HASH_ALGORITHM :: rstring where "REQUEST_HASH_ALGORITHM = lit ''sha256-request-v1''"

definition validate_canonical ::
  "store_codec \<Rightarrow> rstring \<Rightarrow> canonical_request \<Rightarrow> (unit, store_error) result" where
  "validate_canonical codec request_id canonical =
     require_store (kq_hash_algorithm canonical = REQUEST_HASH_ALGORITHM \<and> kq_request_id canonical = request_id
         \<and> is_sha256_hex (kq_hash canonical) \<and> kq_json canonical \<noteq> [] \<and> sc_request_hash codec (kq_json canonical) = kq_hash canonical)
       (StoreInvalidRequest (lit ''canonical request fingerprint is invalid''))"

definition is_contract_absolute_text :: "rstring \<Rightarrow> bool" where
  "is_contract_absolute_text value \<longleftrightarrow>
     (prefix [slash] value \<or> prefix [backslash, backslash] value \<or> drive_rooted value)
     \<and> 0 \<notin> set value \<and> length value \<le> 32767"

definition validate_attempt_runtime :: "attempt_runtime \<Rightarrow> (unit, store_error) result" where
  "validate_attempt_runtime r =
     require_store (ar_scan_db_path r \<noteq> [] \<and> is_contract_absolute_text (ar_scan_db_path r)
         \<and> ar_office_worker_path r \<noteq> [] \<and> is_contract_absolute_text (ar_office_worker_path r)
         \<and> ar_pdf_worker_path r \<noteq> [] \<and> is_contract_absolute_text (ar_pdf_worker_path r)
         \<and> ar_engine_fingerprint r \<noteq> [] \<and> length (ar_engine_fingerprint r) \<le> 4096)
       (StoreInvalidRequest (lit ''attempt runtime fingerprint is incomplete''))"

definition query_existing_run :: "run_store \<Rightarrow> rstring \<Rightarrow> run_row option" where
  "query_existing_run s request_id = find (\<lambda>r. nr_request_id r = request_id) (st_runs s)"

definition ensure_request_hash :: "store_codec \<Rightarrow> run_row \<Rightarrow> canonical_request \<Rightarrow> (unit, store_error) result" where
  "ensure_request_hash codec existing canonical =
     and_then (require_store (sc_request_hash codec (nr_canonical_request_json existing) = nr_request_hash existing)
                 (StoreRunCorrupt (lit ''stored logical request hash is invalid''))) (\<lambda>_.
     require_store (nr_request_hash existing = kq_hash canonical \<and> nr_canonical_request_json existing = kq_json canonical)
       StoreRequestIdConflict)"

fun envelope_status_matches :: "run_status \<Rightarrow> engine_status \<Rightarrow> bool" where
  "envelope_status_matches RunSuccess EngineOk = True"
| "envelope_status_matches RunPartial EnginePartial = True"
| "envelope_status_matches RunError EngineError = True"
| "envelope_status_matches _ _ = False"

text \<open>The artifact of a run's context, if it has one.\<close>

definition load_artifact_for_replay :: "store_codec \<Rightarrow> run_store \<Rightarrow> int \<Rightarrow> (artifact_draft option, store_error) result" where
  "load_artifact_for_replay codec s scan_run_id =
     (case Option.bind (find (\<lambda>c. cx_scan_run_id c = scan_run_id) (st_contexts s)) cx_artifact_id of
        None \<Rightarrow> Ok None
      | Some artifact_id \<Rightarrow> and_then (load_artifact codec (st_artifacts s) artifact_id) (\<lambda>d. Ok (Some d)))"

definition rebuild_envelope_from_metadata ::
  "store_codec \<Rightarrow> run_store \<Rightarrow> int \<Rightarrow> rstring \<Rightarrow> (context_envelope, store_error) result" where
  "rebuild_envelope_from_metadata codec s scan_run_id metadata_json =
     and_then (ok_or (StoreRunCorrupt (lit ''envelope metadata JSON is invalid'')) (sc_parse_metadata codec metadata_json)) (\<lambda>m.
     and_then (load_artifact_for_replay codec s scan_run_id) (\<lambda>artifact.
     map_err (\<lambda>message. StoreRunCorrupt (lit ''rebuilt envelope is invalid: '' @ message))
       (rebuild_envelope m (md_summary m) artifact)))"

definition load_stored_envelope ::
  "store_codec \<Rightarrow> run_store \<Rightarrow> run_row \<Rightarrow> rstring \<Rightarrow> (stored_envelope, store_error) result" where
  "load_stored_envelope codec s existing request_id =
     and_then (require_store (sc_request_hash codec (nr_canonical_request_json existing) = nr_request_hash existing)
                 (StoreRunCorrupt (lit ''stored logical request hash is invalid''))) (\<lambda>_.
     and_then (require_store (is_terminal (nr_status existing))
                 (StoreRunCorrupt (lit ''nonterminal run has no reusable envelope''))) (\<lambda>_.
     and_then (ok_or (StoreRunCorrupt (lit ''terminal run has no envelope metadata''))
                 (nr_final_envelope_metadata_json existing)) (\<lambda>metadata.
     and_then (rebuild_envelope_from_metadata codec s (nr_scan_run_id existing) metadata) (\<lambda>e.
     and_then (canonical_envelope_json codec e) (\<lambda>envelope_json.
     and_then (require_store (en_request_id e = request_id
                   \<and> map_option int (en_scan_run_id e) = Some (nr_scan_run_id existing)
                   \<and> envelope_status_matches (nr_status existing) (en_status e))
                 (StoreRunCorrupt (lit ''rebuilt envelope does not match its run''))) (\<lambda>_.
     Ok \<lparr>sv_scan_run_id = nr_scan_run_id existing, sv_envelope_json = envelope_json, sv_envelope = e\<rparr>))))))"

definition load_terminal_envelope :: "store_codec \<Rightarrow> run_store \<Rightarrow> u64 \<Rightarrow> (stored_envelope, store_error) result" where
  "load_terminal_envelope codec s scan_run_id =
     and_then (checked_i64 scan_run_id (lit ''scan run id'')) (\<lambda>i.
     and_then (ok_or StoreRunNotFound (find (\<lambda>r. nr_scan_run_id r = i) (st_runs s))) (\<lambda>existing.
     load_stored_envelope codec s existing (nr_request_id existing)))"

text \<open>The parameters of one call: the libraries, the normalised path of the opened store, the
  random owner and the process, and what the caller passes.\<close>

record begin_call =
  bc_codec :: store_codec
  bc_store_path :: rstring
  bc_owner_id :: rstring
  bc_owner_pid :: int
  bc_request_id :: rstring
  bc_canonical :: canonical_request
  bc_runtime :: attempt_runtime
  bc_now_ms :: u64

text \<open>Everything before the transaction: the validation of the call and, on the store as it is then, the
  result of a request that has already ended.\<close>

definition validate_begin :: "begin_call \<Rightarrow> (int, store_error) result" where
  "validate_begin c =
     and_then (validate_attempt_runtime (bc_runtime c)) (\<lambda>_.
     and_then (checked_i64 (bc_now_ms c) (lit ''run timestamp'')) (\<lambda>now_ms.
     and_then (validate_canonical (bc_codec c) (bc_request_id c) (bc_canonical c)) (\<lambda>_.
     and_then (require_store (bc_store_path c = ar_scan_db_path (bc_runtime c))
                 (StoreInvalidRequest (lit ''attempt scan database path does not match the opened store''))) (\<lambda>_.
     Ok now_ms))))"

definition replay :: "begin_call \<Rightarrow> run_store \<Rightarrow> (begin_outcome option, store_error) result" where
  "replay c s =
     (case query_existing_run s (bc_request_id c) of
        None \<Rightarrow> Ok None
      | Some existing \<Rightarrow>
          and_then (ensure_request_hash (bc_codec c) existing (bc_canonical c)) (\<lambda>_.
          if is_terminal (nr_status existing)
          then and_then (load_stored_envelope (bc_codec c) s existing (bc_request_id c)) (\<lambda>e. Ok (Some (Stored e)))
          else Ok None))"

text \<open>Taking the lease: refused while it is live, reclaimed when it is not.\<close>

definition take_over :: "int \<Rightarrow> run_row option \<Rightarrow> run_store \<Rightarrow> (run_store, store_error) result" where
  "take_over now_ms existing s =
     (let running = (map_option nr_status existing = Some RunRunning) in
      case st_lease s of
        Some lease \<Rightarrow>
          if lease_is_live lease now_ms
          then Err (if running then StoreRequestInProgress else StoreScanAlreadyRunning)
          else reclaim_expired_lease lease now_ms s
      | None \<Rightarrow> if running then Err (StoreRunCorrupt (lit ''running row has no engine lease'')) else Ok s)"

definition insert_lease :: "begin_call \<Rightarrow> int \<Rightarrow> int \<Rightarrow> run_store \<Rightarrow> (run_store, store_error) result" where
  "insert_lease c now_ms expires s =
     (case st_lease s of
        Some _ \<Rightarrow> Err (StoreCacheWrite (lit ''UNIQUE constraint failed: engine_lease.lease_key''))
      | None \<Rightarrow> Ok (s\<lparr>st_lease := Some \<lparr>ls_owner_id = bc_owner_id c, ls_owner_pid = bc_owner_pid c,
          ls_acquired_at_ms = now_ms, ls_heartbeat_at_ms = now_ms, ls_expires_at_ms = expires\<rparr>\<rparr>))"

definition restartable :: "int \<Rightarrow> run_row \<Rightarrow> bool" where
  "restartable scan_run_id r \<longleftrightarrow> nr_scan_run_id r = scan_run_id \<and> nr_status r = RunAbandoned"

definition restart_row :: "rstring \<Rightarrow> int \<Rightarrow> run_row \<Rightarrow> run_row" where
  "restart_row owner now_ms r = r\<lparr>nr_owner_id := owner, nr_status := RunRunning, nr_started_at_ms := now_ms,
     nr_updated_at_ms := now_ms, nr_finished_at_ms := None, nr_final_envelope_json := None\<rparr>"

definition new_run_row :: "begin_call \<Rightarrow> int \<Rightarrow> int \<Rightarrow> run_row" where
  "new_run_row c now_ms scan_run_id =
     \<lparr>nr_scan_run_id = scan_run_id, nr_request_id = bc_request_id c,
      nr_canonical_request_json = kq_json (bc_canonical c), nr_request_hash_algorithm = kq_hash_algorithm (bc_canonical c),
      nr_request_hash = kq_hash (bc_canonical c), nr_owner_id = bc_owner_id c, nr_status = RunRunning,
      nr_created_at_ms = now_ms, nr_started_at_ms = now_ms, nr_updated_at_ms = now_ms, nr_finished_at_ms = None,
      nr_final_envelope_json = None, nr_final_envelope_metadata_json = None, nr_audit_size_bytes = None\<rparr>"

text \<open>The run row: an abandoned run of the request starts again, otherwise a new row is inserted. An
  existing run that was running has just been abandoned with its lease.\<close>

definition start_row :: "begin_call \<Rightarrow> int \<Rightarrow> run_row option \<Rightarrow> run_store \<Rightarrow> (run_store \<times> int, store_error) result" where
  "start_row c now_ms existing s =
     (case existing of
        Some r \<Rightarrow>
          and_then (require_store (nr_status r \<in> {RunAbandoned, RunRunning})
                      (StoreRunCorrupt (lit ''nonterminal run cannot be restarted''))) (\<lambda>_.
          and_then (require_store (selected_count (restartable (nr_scan_run_id r)) (st_runs s) = 1)
                      (StoreRunCorrupt (lit ''abandoned run could not be reactivated''))) (\<lambda>_.
          Ok ((clear_staging_rows (nr_scan_run_id r) s)
                \<lparr>st_runs := update_where (restartable (nr_scan_run_id r)) (restart_row (bc_owner_id c) now_ms) (st_runs s)\<rparr>,
              nr_scan_run_id r)))
      | None \<Rightarrow> Ok (s\<lparr>st_runs := st_runs s @ [new_run_row c now_ms (st_next_run_id s)], st_next_run_id := st_next_run_id s + 1\<rparr>,
                   st_next_run_id s))"

definition next_attempt_number :: "int \<Rightarrow> run_store \<Rightarrow> int" where
  "next_attempt_number scan_run_id s =
     fold max (map na_attempt_number (filter (\<lambda>a. na_scan_run_id a = scan_run_id) (st_attempts s))) 0 + 1"

definition new_attempt_row :: "begin_call \<Rightarrow> int \<Rightarrow> int \<Rightarrow> int \<Rightarrow> attempt_row" where
  "new_attempt_row c now_ms scan_run_id number =
     \<lparr>na_scan_run_id = scan_run_id, na_attempt_number = number, na_owner_id = bc_owner_id c, na_runtime = bc_runtime c,
      na_office_worker = None, na_pdf_worker = None, na_started_at_ms = now_ms, na_finished_at_ms = None,
      na_status = RunRunning\<rparr>"

text \<open>The transaction.\<close>

definition begin_transaction :: "begin_call \<Rightarrow> int \<Rightarrow> run_store \<Rightarrow> (run_store \<times> begin_outcome, store_error) result" where
  "begin_transaction c now_ms s =
     and_then (replay c s) (\<lambda>stored.
     case stored of
       Some outcome \<Rightarrow> Ok (s, outcome)
     | None \<Rightarrow>
         let existing = query_existing_run s (bc_request_id c) in
         and_then (take_over now_ms existing s) (\<lambda>s.
         and_then (lease_expiry now_ms) (\<lambda>expires.
         and_then (insert_lease c now_ms expires s) (\<lambda>s.
         and_then (start_row c now_ms existing s) (\<lambda>(s, scan_run_id).
         let number = next_attempt_number scan_run_id s
         in Ok (s\<lparr>st_attempts := st_attempts s @ [new_attempt_row c now_ms scan_run_id number]\<rparr>,
                Started \<lparr>ac_scan_run_id = scan_run_id, ac_attempt_number = number, ac_owner_id = bc_owner_id c,
                  ac_request_id = bc_request_id c\<rparr>))))))"

text \<open>The whole call. Other processes may change the store between the first look, at \<open>seen\<close>, and the
  transaction on \<open>s\<close>.\<close>

definition begin_run :: "begin_call \<Rightarrow> run_store \<Rightarrow> run_store \<Rightarrow> (run_store \<times> begin_outcome, store_error) result" where
  "begin_run c seen s =
     and_then (validate_begin c) (\<lambda>now_ms.
     and_then (replay c seen) (\<lambda>stored.
     case stored of Some outcome \<Rightarrow> Ok (s, outcome) | None \<Rightarrow> begin_transaction c now_ms s))"

section \<open>While a run is active\<close>

definition validate_worker_fingerprint :: "worker_fingerprint \<Rightarrow> (unit, store_error) result" where
  "validate_worker_fingerprint g =
     require_store (wg_contract g \<noteq> [] \<and> length (wg_contract g) \<le> 1024 \<and> wg_version g \<noteq> [] \<and> length (wg_version g) \<le> 1024
         \<and> wg_build g \<noteq> [] \<and> length (wg_build g) \<le> 4096)
       (StoreInvalidRequest (lit ''worker fingerprint is incomplete''))"

definition validate_optional_fingerprint :: "worker_fingerprint option \<Rightarrow> (unit, store_error) result" where
  "validate_optional_fingerprint g = (case g of None \<Rightarrow> Ok () | Some g \<Rightarrow> validate_worker_fingerprint g)"

definition record_worker_fingerprints ::
  "active_run \<Rightarrow> worker_fingerprint option \<Rightarrow> worker_fingerprint option \<Rightarrow> u64 \<Rightarrow> run_store \<Rightarrow> (run_store, store_error) result" where
  "record_worker_fingerprints active office pdf now s =
     and_then (validate_optional_fingerprint office) (\<lambda>_.
     and_then (validate_optional_fingerprint pdf) (\<lambda>_.
     and_then (checked_i64 now (lit ''worker fingerprint timestamp'')) (\<lambda>now_ms.
     and_then (ensure_owner active s) (\<lambda>_.
     and_then (require_store (selected_count (attempt_of_active active) (st_attempts s) = 1) StoreLeaseLost) (\<lambda>_.
     heartbeat_in_transaction active now_ms
       (s\<lparr>st_attempts := update_where (attempt_of_active active)
            (\<lambda>a. a\<lparr>na_office_worker := office, na_pdf_worker := pdf\<rparr>) (st_attempts s)\<rparr>))))))"

definition heartbeat :: "active_run \<Rightarrow> u64 \<Rightarrow> run_store \<Rightarrow> (run_store, store_error) result" where
  "heartbeat active now s =
     and_then (checked_i64 now (lit ''heartbeat timestamp'')) (\<lambda>now_ms. heartbeat_in_transaction active now_ms s)"

text \<open>Abandoning needs no live lease, only one that nobody has taken.\<close>

definition abandon_active_run :: "active_run \<Rightarrow> u64 \<Rightarrow> run_store \<Rightarrow> (run_store, store_error) result" where
  "abandon_active_run active now s =
     and_then (checked_i64 now (lit ''abandon timestamp'')) (\<lambda>now_ms.
     and_then (ensure_owner active s) (\<lambda>_.
     and_then (delete_lease (ac_owner_id active) s) (\<lambda>t.
     and_then (require_store (selected_count (run_of_active active) (st_runs s) = 1
                   \<and> selected_count (attempt_of_active active) (st_attempts s) = 1) StoreLeaseLost) (\<lambda>_.
     Ok (t\<lparr>st_runs := update_where (run_of_active active) (abandon_run_row now_ms) (st_runs s),
           st_attempts := update_where (attempt_of_active active) (abandon_attempt_row now_ms) (st_attempts s)\<rparr>)))))"

end
