(* ===== verification/Store_Validation.thy ===== *)
theory Store_Validation
  imports Store_Runs
begin

text \<open>
  What a finalisation must bring: \<open>FinalizationBatch\<close> of \<open>src/rust/scanner_core/src/store/types.rs\<close> and
  \<open>validate_finalization\<close>, \<open>validate_context\<close> and \<open>validate_context_relations\<close> of \<open>store/runs.rs\<close>, which
  hold the rows of a run, its context and its envelope against each other before anything is
  written. Where the code walks a hash map the model walks the rows in the order of the batch: the
  results are the same, and of several faults it may name another one.
\<close>

record snapshot_hit_ref =
  hr_artifact_id :: int
  hr_reused_from_context_run_id :: int

record finalization_batch =
  fb_status :: run_status
  fb_envelope_json :: rstring
  fb_inventory :: "inventory_record list"
  fb_file_results :: "file_result_record list"
  fb_diagnostics :: "run_diagnostic list"
  fb_stage_metrics :: "stage_metric list"
  fb_extension_metrics :: "extension_metric list"
  fb_context :: "context_run_record option"
  fb_artifact :: "artifact_draft option"
  fb_snapshot_key :: "snapshot_key_parts option"
  fb_snapshot_hit :: "snapshot_hit_ref option"
  fb_execution_metrics :: "execution_metrics_v2 option"

abbreviation invalid_request :: "string \<Rightarrow> store_error" where
  "invalid_request s \<equiv> StoreInvalidRequest (lit s)"

abbreviation run_corrupt :: "string \<Rightarrow> store_error" where
  "run_corrupt s \<equiv> StoreRunCorrupt (lit s)"

section \<open>Statuses\<close>

definition terminal_status :: "run_status \<Rightarrow> (run_status, store_error) result" where
  "terminal_status status = (if is_terminal status then Ok status
     else Err (invalid_request ''final status must be success, partial, or error''))"

lemma terminal_status_Ok [simp]: "terminal_status st = Ok st' \<longleftrightarrow> is_terminal st \<and> st' = st"
  by (auto simp: terminal_status_def)

fun final_status_matches :: "run_status \<Rightarrow> engine_status \<Rightarrow> bool" where
  "final_status_matches RunSuccess EngineOk = True"
| "final_status_matches RunPartial EnginePartial = True"
| "final_status_matches RunError EngineError = True"
| "final_status_matches _ _ = False"

lemma final_status_matches_eq: "final_status_matches st es = envelope_status_matches st es"
  by (cases st; cases es) simp_all

definition summary_fits_sqlite :: "context_summary \<Rightarrow> bool" where
  "summary_fits_sqlite s \<longleftrightarrow> list_all (\<lambda>v. v \<le> i64_max)
     [cs_source_file_count s, cs_success_count s, cs_timeout_count s, cs_included_file_count s,
      cs_omitted_file_count s, cs_error_file_count s, cs_input_chars s, cs_output_chars s, cs_total_duration_ms s,
      cs_discovery_duration_ms s, cs_parse_duration_ms s, cs_compression_duration_ms s]"

section \<open>Rows\<close>

fun validate_inventory_rows ::
  "inventory_record list \<Rightarrow> (rstring \<rightharpoonup> inventory_record) \<Rightarrow> (rstring \<rightharpoonup> inventory_record, store_error) result" where
  "validate_inventory_rows [] by_identity = Ok by_identity"
| "validate_inventory_rows (r # rs) by_identity =
     and_then (map_err StoreInvalidRequest (validate_inventory_record r)) (\<lambda>_.
     and_then (require_store (by_identity (iv_file_identity r) = None)
                 (invalid_request ''inventory identities must be unique'')) (\<lambda>_.
     validate_inventory_rows rs (by_identity(iv_file_identity r \<mapsto> r))))"

text \<open>The refusal of a file row lists its faults; here only its beginning.\<close>

fun validate_file_rows ::
  "bool \<Rightarrow> (rstring \<rightharpoonup> inventory_record) \<Rightarrow> file_result_record list \<Rightarrow> (rstring \<rightharpoonup> file_result_record) \<Rightarrow>
     (rstring \<rightharpoonup> file_result_record, store_error) result" where
  "validate_file_rows snapshot_rows inventory [] by_identity = Ok by_identity"
| "validate_file_rows snapshot_rows inventory (r # rs) by_identity =
     and_then (require_store (validate_for_persistence snapshot_rows r) (invalid_request ''invalid scan file result'')) (\<lambda>_.
     and_then (ok_or (invalid_request ''file result does not reference final inventory'')
                 (inventory (fr_file_identity r))) (\<lambda>item.
     and_then (require_store (iv_source_version item = fr_source_version r \<and> by_identity (fr_file_identity r) = None)
                 (invalid_request ''file results must uniquely match inventory source versions'')) (\<lambda>_.
     validate_file_rows snapshot_rows inventory rs (by_identity(fr_file_identity r \<mapsto> r)))))"

section \<open>The context\<close>

fun validate_decision_rows :: "budgeted_decision list \<Rightarrow> rstring set \<Rightarrow> (unit, store_error) result" where
  "validate_decision_rows [] identities = Ok ()"
| "validate_decision_rows (r # rs) identities =
     and_then (map_err StoreInvalidRequest (validate_context_decision (bd_decision r))) (\<lambda>_.
     and_then (require_store (bd_file_identity r \<noteq> [] \<and> bd_file_identity r \<notin> identities)
                 (invalid_request ''context decision identity is invalid or duplicate'')) (\<lambda>_.
     and_then (require_store (cd_priority (bd_decision r) \<le> i64_max \<and> cd_input_chars (bd_decision r) \<le> i64_max
                   \<and> cd_output_chars (bd_decision r) \<le> i64_max)
                 (invalid_request ''context decision exceeds SQLite integer range'')) (\<lambda>_.
     validate_decision_rows rs (insert (bd_file_identity r) identities))))"

definition validate_context :: "store_codec \<Rightarrow> context_run_record \<Rightarrow> (unit, store_error) result" where
  "validate_context codec c =
     and_then (terminal_status (cn_status c)) (\<lambda>_.
     and_then (require_store (length (cn_decisions c) \<le> 1000000)
                 (invalid_request ''context decision count exceeds the v1 limit'')) (\<lambda>_.
     and_then (map_err StoreInvalidRequest (validate_context_summary (cn_summary c))) (\<lambda>_.
     and_then (require_store (is_sha256_hex (cn_context_profile_hash c) \<and> is_sha256_hex (cn_context_sha256 c)
                   \<and> sc_sha256 codec (cn_final_context c) = cn_context_sha256 c \<and> summary_fits_sqlite (cn_summary c))
                 (invalid_request ''context fingerprint is invalid'')) (\<lambda>_.
     validate_decision_rows (cn_decisions c) {}))))"

section \<open>Relations\<close>

definition status_count :: "parse_status \<Rightarrow> file_result_record list \<Rightarrow> nat" where
  "status_count st rs = length (filter (\<lambda>r. fr_parse_status r = st) rs)"

definition action_count :: "context_action set \<Rightarrow> budgeted_decision list \<Rightarrow> nat" where
  "action_count actions ds = length (filter (\<lambda>d. cd_action (bd_decision d) \<in> actions) ds)"

text \<open>The characters read, and the paths the decisions name.\<close>

fun sum_decision_inputs ::
  "(rstring \<rightharpoonup> inventory_record) \<Rightarrow> budgeted_decision list \<Rightarrow> u64 \<Rightarrow> (u64, store_error) result" where
  "sum_decision_inputs inventory [] input_chars = Ok input_chars"
| "sum_decision_inputs inventory (d # ds) input_chars =
     and_then (ok_or (invalid_request ''decision input count overflows'')
                 (checked_add input_chars (cd_input_chars (bd_decision d)))) (\<lambda>input_chars.
     and_then (ok_or (invalid_request ''decision inventory is missing'') (inventory (bd_file_identity d))) (\<lambda>item.
     and_then (require_store (iv_relative_path item = cd_relative_path (bd_decision d))
                 (invalid_request ''decision path disagrees with inventory'')) (\<lambda>_.
     sum_decision_inputs inventory ds input_chars)))"

definition summary_agrees ::
  "context_run_record \<Rightarrow> file_result_record list \<Rightarrow> u64 \<Rightarrow> bool" where
  "summary_agrees c rs input_chars \<longleftrightarrow>
     (let s = cn_summary c;
          success = status_count Success rs; timeout = status_count Timeout rs; errors = status_count Error rs;
          not_parsed = length rs - success - timeout - errors;
          included = action_count {Keep, Compress, MetadataOnly} (cn_decisions c);
          omitted = action_count {Omit} (cn_decisions c);
          decision_errors = action_count {ActionError} (cn_decisions c)
      in cs_success_count s = success \<and> cs_timeout_count s = timeout \<and> cs_error_file_count s = errors
         \<and> cs_included_file_count s = included \<and> cs_omitted_file_count s = omitted
         \<and> included = success \<and> omitted = not_parsed \<and> decision_errors = errors + timeout
         \<and> included + omitted + decision_errors = length (cn_decisions c)
         \<and> cs_input_chars s = input_chars \<and> cs_output_chars s = length (cn_final_context c))"

definition stage_ok :: "stage_metric list \<Rightarrow> stage_name \<Rightarrow> (stage_metric \<Rightarrow> bool) \<Rightarrow> bool" where
  "stage_ok ms stage P \<longleftrightarrow> (case find (\<lambda>m. sm_stage m = stage) ms of None \<Rightarrow> False | Some m \<Rightarrow> P m)"

definition stages_agree :: "context_run_record \<Rightarrow> stage_metric list \<Rightarrow> bool" where
  "stages_agree c ms \<longleftrightarrow>
     (let s = cn_summary c in
      length ms = 4 \<and> distinct (map sm_stage ms)
      \<and> stage_ok ms Discovery (\<lambda>m. sm_item_count m = cs_source_file_count s \<and> sm_duration_ms m = cs_discovery_duration_ms s)
      \<and> stage_ok ms Cache (\<lambda>m. sm_item_count m = cs_source_file_count s)
      \<and> stage_ok ms Parse (\<lambda>m. sm_duration_ms m = cs_parse_duration_ms s)
      \<and> stage_ok ms Context (\<lambda>m. sm_item_count m = length (cn_decisions c) \<and> sm_duration_ms m = cs_compression_duration_ms s))"

fun sum_stage_durations :: "stage_metric list \<Rightarrow> u64 \<Rightarrow> (u64, store_error) result" where
  "sum_stage_durations [] t = Ok t"
| "sum_stage_durations (m # ms) t =
     and_then (ok_or (invalid_request ''stage durations overflow'') (checked_add t (sm_duration_ms m))) (sum_stage_durations ms)"

text \<open>What the metrics of the extensions must be: files, duration, successes, errors and timeouts by type.\<close>

type_synonym extension_counts = "u64 \<times> u64 \<times> u64 \<times> u64 \<times> u64"

definition count_if :: "bool \<Rightarrow> u64" where "count_if b = (if b then 1 else 0)"

fun expected_extensions ::
  "(rstring \<rightharpoonup> file_result_record) \<Rightarrow> inventory_record list \<Rightarrow> (rstring \<rightharpoonup> extension_counts) \<Rightarrow>
     (rstring \<rightharpoonup> extension_counts, store_error) result" where
  "expected_extensions results [] expected = Ok expected"
| "expected_extensions results (item # items) expected =
     and_then (ok_or (invalid_request ''extension metric file result is missing'') (results (iv_file_identity item))) (\<lambda>r.
     case unwrap_or (expected (iv_file_type item)) (0, 0, 0, 0, 0) of (files, ms, success, errors, timeouts) \<Rightarrow>
       and_then (ok_or (invalid_request ''extension file count overflows'') (checked_add files 1)) (\<lambda>files.
       and_then (ok_or (invalid_request ''extension duration overflows'') (checked_add ms (fr_parse_duration_ms r))) (\<lambda>ms.
       expected_extensions results items (expected(iv_file_type item \<mapsto>
         (files, ms, success + count_if (fr_parse_status r = Success), errors + count_if (fr_parse_status r = Error),
          timeouts + count_if (fr_parse_status r = Timeout)))))))"

definition counts_of :: "extension_metric \<Rightarrow> extension_counts" where
  "counts_of m = (xm_file_count m, xm_parse_duration_ms m, xm_success_count m, xm_error_count m, xm_timeout_count m)"

definition extensions_agree ::
  "inventory_record list \<Rightarrow> (rstring \<rightharpoonup> extension_counts) \<Rightarrow> extension_metric list \<Rightarrow> bool" where
  "extensions_agree inventory expected ms \<longleftrightarrow>
     length ms = length (remdups (map iv_file_type inventory))
     \<and> list_all (\<lambda>m. expected (xm_extension m) = Some (counts_of m)) ms"

definition validate_context_relations ::
  "context_run_record \<Rightarrow> inventory_record list \<Rightarrow> (rstring \<rightharpoonup> inventory_record) \<Rightarrow> file_result_record list \<Rightarrow>
     (rstring \<rightharpoonup> file_result_record) \<Rightarrow> stage_metric list \<Rightarrow> extension_metric list \<Rightarrow> (unit, store_error) result" where
  "validate_context_relations c inventory by_identity rs results stages extensions =
     and_then (sum_decision_inputs by_identity (cn_decisions c) 0) (\<lambda>input_chars.
     and_then (require_store (summary_agrees c rs input_chars)
                 (invalid_request ''context summary disagrees with file or decision rows'')) (\<lambda>_.
     and_then (require_store (stages_agree c stages)
                 (invalid_request ''context summary disagrees with stage metrics'')) (\<lambda>_.
     and_then (sum_stage_durations stages 0) (\<lambda>stage_duration.
     and_then (require_store (stage_duration \<le> cs_total_duration_ms (cn_summary c))
                 (invalid_request ''total duration is shorter than its stages'')) (\<lambda>_.
     and_then (expected_extensions results inventory Map.empty) (\<lambda>expected.
     require_store (extensions_agree inventory expected extensions)
       (invalid_request ''context summary disagrees with extension metrics'')))))))"

section \<open>The batch\<close>

definition diagnostics_of :: "diagnostic_severity \<Rightarrow> run_diagnostic list \<Rightarrow> diagnostic list" where
  "diagnostics_of sev ds = map rg_diagnostic (filter (\<lambda>d. rg_severity d = sev) ds)"

definition validate_batch_envelope ::
  "store_codec \<Rightarrow> active_run \<Rightarrow> finalization_batch \<Rightarrow> (context_envelope, store_error) result" where
  "validate_batch_envelope codec active b =
     and_then (ok_or (invalid_request ''final envelope JSON is invalid'') (sc_parse_envelope codec (fb_envelope_json b))) (\<lambda>e.
     and_then (map_err StoreInvalidRequest (validate_context_envelope e)) (\<lambda>_.
     and_then (require_store (canonical_envelope_json codec e = Ok (fb_envelope_json b))
                 (invalid_request ''final envelope JSON must use canonical serialization'')) (\<lambda>_.
     and_then (require_store (en_request_id e = ac_request_id active
                   \<and> map_option int (en_scan_run_id e) = Some (ac_scan_run_id active)
                   \<and> final_status_matches (fb_status b) (en_status e))
                 (invalid_request ''final envelope does not match the active run'')) (\<lambda>_.
     and_then (require_store (diagnostics_of SevWarning (fb_diagnostics b) = en_warnings e
                   \<and> diagnostics_of SevError (fb_diagnostics b) = (case en_error e of None \<Rightarrow> [] | Some d \<Rightarrow> [d]))
                 (invalid_request ''final envelope diagnostics disagree with run diagnostics'')) (\<lambda>_.
     Ok e)))))"

definition validate_batch_context ::
  "store_codec \<Rightarrow> finalization_batch \<Rightarrow> context_envelope \<Rightarrow> (rstring \<rightharpoonup> inventory_record) \<Rightarrow>
     (rstring \<rightharpoonup> file_result_record) \<Rightarrow> context_run_record \<Rightarrow> (unit, store_error) result" where
  "validate_batch_context codec b e inventory results c =
     and_then (validate_context codec c) (\<lambda>_.
     and_then (require_store (cn_status c = fb_status b \<and> cn_final_context c = en_file_context e
                   \<and> cn_summary c = en_summary e \<and> cs_source_file_count (cn_summary c) = length (fb_inventory b)
                   \<and> bd_file_identity ` set (cn_decisions c) = iv_file_identity ` set (fb_inventory b)
                   \<and> length (fb_file_results b) = length (fb_inventory b))
                 (invalid_request ''context rows disagree with the final envelope'')) (\<lambda>_.
     validate_context_relations c (fb_inventory b) inventory (fb_file_results b) results
       (fb_stage_metrics b) (fb_extension_metrics b)))"

text \<open>The context of a run has the number of the run.\<close>

definition validate_finalization ::
  "store_codec \<Rightarrow> active_run \<Rightarrow> finalization_batch \<Rightarrow> (context_envelope, store_error) result" where
  "validate_finalization codec active b =
     and_then (terminal_status (fb_status b)) (\<lambda>_.
     and_then (require_store (length (fb_inventory b) \<le> 1000000 \<and> length (fb_file_results b) \<le> 1000000
                   \<and> length (fb_diagnostics b) \<le> 100001)
                 (invalid_request ''finalization batch exceeds the v1 row limits'')) (\<lambda>_.
     and_then (validate_inventory_rows (fb_inventory b) Map.empty) (\<lambda>inventory.
     and_then (validate_file_rows (fb_snapshot_hit b \<noteq> None) inventory (fb_file_results b) Map.empty) (\<lambda>results.
     and_then (map_err StoreInvalidRequest (validate_all (map (\<lambda>d. validate_diagnostic (rg_diagnostic d)) (fb_diagnostics b)))) (\<lambda>_.
     and_then (map_err StoreInvalidRequest (validate_metrics (fb_stage_metrics b) (fb_extension_metrics b))) (\<lambda>_.
     and_then (validate_batch_envelope codec active b) (\<lambda>e.
     and_then (case (fb_context b, en_context_run_id e) of
         (Some c, Some context_run_id) \<Rightarrow>
           if int context_run_id = ac_scan_run_id active then validate_batch_context codec b e inventory results c
           else Err (invalid_request ''context run identity is inconsistent'')
       | (None, None) \<Rightarrow> Ok ()
       | _ \<Rightarrow> Err (invalid_request ''context run identity is inconsistent'')) (\<lambda>_.
     Ok e))))))))"

end
