(* ===== verification/Store_Retention.thy ===== *)
theory Store_Retention
  imports Store_Lease
begin

text \<open>
  \<open>src/rust/scanner_core/src/store/retention.rs\<close>: which old runs and artifacts give way to the one
  that is being finalised. The plan is made by simulating the deletions on what the tables hold;
  the transaction then deletes exactly what was planned and checks the caps on the tables
  themselves. \<open>run_opportunistic_gc\<close> of \<open>store/mod.rs\<close> deletes without a plan. The checks of the
  absolute deadline between the steps are left to the caller: they can only end the call early,
  and the transaction with it.
\<close>

section \<open>Limits\<close>

definition RETENTION_DELETE_BATCH_SIZE :: nat where "RETENTION_DELETE_BATCH_SIZE = 64"
definition TERMINAL_RUN_MAX_AGE_DAYS :: int where "TERMINAL_RUN_MAX_AGE_DAYS = 90"
definition TERMINAL_RUN_MAX_COUNT :: int where "TERMINAL_RUN_MAX_COUNT = 500"
definition TERMINAL_AUDIT_MAX_BYTES :: int where "TERMINAL_AUDIT_MAX_BYTES = 2 * 1024 * 1024 * 1024"
definition CONTEXT_ARTIFACTS_MAX_BYTES :: int where "CONTEXT_ARTIFACTS_MAX_BYTES = 512 * 1024 * 1024"

definition retention_cutoff :: "int \<Rightarrow> int" where
  "retention_cutoff now_ms = i64_saturating_sub now_ms (TERMINAL_RUN_MAX_AGE_DAYS * 86400000)"

section \<open>The plan\<close>

datatype prepared_delete = DeleteArtifacts "int list" | DeleteRuns "int list"

record retention_plan =
  rp_artifact_room :: "prepared_delete list"
  rp_terminal_run_batches :: "int list list"
  rp_new_artifact_size :: "int option"

record artifact_state =
  ax_artifact_id :: int
  ax_artifact_size_bytes :: int
  ax_created_at_ms :: int
  ax_remaining_references :: nat
  ax_removed :: bool

record terminal_state_row =
  tx_scan_run_id :: int
  tx_finished_at_ms :: int
  tx_audit_size_bytes :: int
  tx_removed :: bool

text \<open>The tables as the simulation reads them: the artifacts by number with the sum of their sizes.\<close>

fun read_artifacts :: "artifact_row list \<Rightarrow> int \<Rightarrow> (artifact_state list \<times> int, store_error) result" where
  "read_artifacts [] artifact_bytes = Ok ([], artifact_bytes)"
| "read_artifacts (a # as) artifact_bytes =
     and_then (ok_or (StoreRunCorrupt (lit ''artifact retention byte total overflowed''))
       (i64_checked_add artifact_bytes (fa_artifact_size_bytes a))) (\<lambda>artifact_bytes.
     and_then (read_artifacts as artifact_bytes) (\<lambda>(states, artifact_bytes).
     Ok (\<lparr>ax_artifact_id = fa_artifact_id a, ax_artifact_size_bytes = fa_artifact_size_bytes a,
          ax_created_at_ms = fa_created_at_ms a, ax_remaining_references = 0, ax_removed = False\<rparr> # states, artifact_bytes)))"

text \<open>The position of an artifact in that list, \<open>artifact_indexes\<close> of the code.\<close>

fun artifact_index :: "int \<Rightarrow> artifact_state list \<Rightarrow> nat option" where
  "artifact_index artifact_id [] = None"
| "artifact_index artifact_id (a # as) =
     (if ax_artifact_id a = artifact_id then Some 0 else map_option Suc (artifact_index artifact_id as))"

definition add_reference :: "nat \<Rightarrow> artifact_state list \<Rightarrow> artifact_state list" where
  "add_reference i as = as[i := (as ! i)\<lparr>ax_remaining_references := ax_remaining_references (as ! i) + 1\<rparr>]"

text \<open>The contexts that refer to an artifact, by run: each adds a reference, and \<open>run_artifacts\<close> collects
  the position under its run.\<close>

fun read_references ::
  "(int \<times> int) list \<Rightarrow> artifact_state list \<Rightarrow> (int \<times> nat) list \<Rightarrow> (artifact_state list \<times> (int \<times> nat) list, store_error) result" where
  "read_references [] as run_artifacts = Ok (as, run_artifacts)"
| "read_references ((scan_run_id, artifact_id) # refs) as run_artifacts =
     and_then (ok_or (StoreRunCorrupt (lit ''context run references a missing artifact during retention planning''))
       (artifact_index artifact_id as)) (\<lambda>i.
     and_then (require_store (ax_remaining_references (as ! i) < u64_max)
                 (StoreRunCorrupt (lit ''artifact reference count overflowed''))) (\<lambda>_.
     read_references refs (add_reference i as) (run_artifacts @ [(scan_run_id, i)])))"

definition context_references :: "context_row list \<Rightarrow> (int \<times> int) list" where
  "context_references rows =
     sort (List.map_filter (\<lambda>c. map_option (Pair (cx_scan_run_id c)) (cx_artifact_id c)) rows)"

definition artifacts_of_run :: "(int \<times> nat) list \<Rightarrow> int \<Rightarrow> nat list" where
  "artifacts_of_run run_artifacts scan_run_id = map snd (filter (\<lambda>(r, _). r = scan_run_id) run_artifacts)"

text \<open>The terminal and abandoned runs, the oldest first. An abandoned run has no audit; a terminal one must
  have its size.\<close>

definition collectable :: "run_row \<Rightarrow> bool" where
  "collectable r \<longleftrightarrow> nr_status r \<in> {RunSuccess, RunPartial, RunError, RunAbandoned}"

definition finished_order :: "run_row \<Rightarrow> (nat \<times> int) \<times> int" where
  "finished_order r = ((case nr_finished_at_ms r of None \<Rightarrow> (0, 0) | Some t \<Rightarrow> (1, t)), nr_scan_run_id r)"

definition retention_audit_size :: "run_row \<Rightarrow> int option" where
  "retention_audit_size r = (if nr_status r = RunAbandoned
     then Some (case nr_audit_size_bytes r of None \<Rightarrow> 0 | Some n \<Rightarrow> n) else nr_audit_size_bytes r)"

fun read_terminal_runs :: "int \<Rightarrow> run_row list \<Rightarrow> (terminal_state_row list, store_error) result" where
  "read_terminal_runs current [] = Ok []"
| "read_terminal_runs current (r # rs) =
     and_then (require_store (nr_scan_run_id r \<noteq> current)
                 (StoreRunCorrupt (lit ''active run became terminal before finalization''))) (\<lambda>_.
     and_then (ok_or (StoreRunCorrupt (lit ''terminal retention row has no finished timestamp'')) (nr_finished_at_ms r)) (\<lambda>t.
     and_then (ok_or (StoreCacheWrite (lit ''Invalid column type Null at index: 2'')) (retention_audit_size r)) (\<lambda>n.
     and_then (read_terminal_runs current rs) (\<lambda>states.
     Ok (\<lparr>tx_scan_run_id = nr_scan_run_id r, tx_finished_at_ms = t, tx_audit_size_bytes = n, tx_removed = False\<rparr> # states)))))"

section \<open>Making room for an artifact\<close>

text \<open>The simulated tables. The heap is kept as the sorted list of its entries, which have the creation
  time, the number and the position of an artifact; \<open>rm_passed\<close> and \<open>rm_runs\<close> are the terminal runs
  before and from the cursor.\<close>

record room_state =
  rm_artifacts :: "artifact_state list"
  rm_heap :: "(int \<times> int \<times> nat) list"
  rm_bytes :: int
  rm_passed :: "terminal_state_row list"
  rm_runs :: "terminal_state_row list"

definition heap_entry :: "artifact_state list \<Rightarrow> nat \<Rightarrow> int \<times> int \<times> nat" where
  "heap_entry as i = (ax_created_at_ms (as ! i), ax_artifact_id (as ! i), i)"

definition initial_heap :: "int set \<Rightarrow> artifact_state list \<Rightarrow> (int \<times> int \<times> nat) list" where
  "initial_heap protected as =
     sort (map (heap_entry as)
       (filter (\<lambda>i. ax_remaining_references (as ! i) = 0 \<and> ax_artifact_id (as ! i) \<notin> protected) [0..<length as]))"

fun select_orphan_artifact_batch ::
  "int set \<Rightarrow> (int \<times> int \<times> nat) list \<Rightarrow> artifact_state list \<Rightarrow> int \<Rightarrow> int list \<Rightarrow>
     int list \<times> artifact_state list \<times> (int \<times> int \<times> nat) list \<times> int" where
  "select_orphan_artifact_batch protected [] as artifact_bytes batch = (batch, as, [], artifact_bytes)"
| "select_orphan_artifact_batch protected ((c, d, i) # heap) as artifact_bytes batch =
     (if RETENTION_DELETE_BATCH_SIZE \<le> length batch then (batch, as, (c, d, i) # heap, artifact_bytes)
      else if ax_removed (as ! i) \<or> ax_remaining_references (as ! i) \<noteq> 0 \<or> ax_artifact_id (as ! i) \<in> protected
      then select_orphan_artifact_batch protected heap as artifact_bytes batch
      else select_orphan_artifact_batch protected heap (as[i := (as ! i)\<lparr>ax_removed := True\<rparr>])
             (i64_saturating_sub artifact_bytes (ax_artifact_size_bytes (as ! i))) (batch @ [ax_artifact_id (as ! i)]))"

text \<open>Removing a run takes its references away; an artifact without any becomes an orphan.\<close>

definition release_reference :: "int set \<Rightarrow> nat \<Rightarrow> room_state \<Rightarrow> (room_state, store_error) result" where
  "release_reference protected i m =
     and_then (require_store (ax_remaining_references (rm_artifacts m ! i) \<noteq> 0)
                 (StoreRunCorrupt (lit ''artifact reference simulation underflowed''))) (\<lambda>_.
     let a = (rm_artifacts m ! i)\<lparr>ax_remaining_references := ax_remaining_references (rm_artifacts m ! i) - 1\<rparr>;
         m = m\<lparr>rm_artifacts := (rm_artifacts m)[i := a]\<rparr>
     in Ok (if ax_remaining_references a = 0 \<and> \<not> ax_removed a \<and> ax_artifact_id a \<notin> protected
            then m\<lparr>rm_heap := insort (heap_entry (rm_artifacts m) i) (rm_heap m)\<rparr> else m))"

fun release_references :: "int set \<Rightarrow> nat list \<Rightarrow> room_state \<Rightarrow> (room_state, store_error) result" where
  "release_references protected [] m = Ok m"
| "release_references protected (i # is) m = and_then (release_reference protected i m) (release_references protected is)"

text \<open>The next batch of runs from the cursor on.\<close>

definition pass_run :: "terminal_state_row \<Rightarrow> room_state \<Rightarrow> room_state" where
  "pass_run r m = m\<lparr>rm_passed := rm_passed m @ [r], rm_runs := tl (rm_runs m)\<rparr>"

function select_run_batch ::
  "int set \<Rightarrow> int set \<Rightarrow> (int \<times> nat) list \<Rightarrow> room_state \<Rightarrow> int list \<Rightarrow> (int list \<times> room_state, store_error) result" where
  "select_run_batch protected_runs protected_artifacts run_artifacts m batch =
     (case rm_runs m of
        [] \<Rightarrow> Ok (batch, m)
      | r # _ \<Rightarrow>
          if RETENTION_DELETE_BATCH_SIZE \<le> length batch then Ok (batch, m)
          else if tx_removed r \<or> tx_scan_run_id r \<in> protected_runs
          then select_run_batch protected_runs protected_artifacts run_artifacts (pass_run r m) batch
          else (case release_references protected_artifacts (artifacts_of_run run_artifacts (tx_scan_run_id r))
                       (pass_run (r\<lparr>tx_removed := True\<rparr>) m) of
                  Err e \<Rightarrow> Err e
                | Ok m' \<Rightarrow> select_run_batch protected_runs protected_artifacts run_artifacts m' (batch @ [tx_scan_run_id r])))"
  by pat_completeness auto

lemma release_references_runs:
  "release_references protected is m = Ok m' \<Longrightarrow> rm_runs m' = rm_runs m \<and> rm_passed m' = rm_passed m"
  by (induction "is" arbitrary: m) (auto simp: release_reference_def Let_def split: if_splits)

termination select_run_batch
  by (relation "measure (\<lambda>(_, _, _, m, _). length (rm_runs m))")
    (auto simp: pass_run_def dest!: release_references_runs)

declare select_run_batch.simps [simp del]

text \<open>One turn of the loop.\<close>

lemma select_run_batch_cases:
  assumes "select_run_batch pr pa ra m batch = Ok (batch', m')"
  obtains (stop) "batch' = batch" "m' = m"
  | (skip) r rs where "rm_runs m = r # rs" "tx_removed r \<or> tx_scan_run_id r \<in> pr"
      "select_run_batch pr pa ra (pass_run r m) batch = Ok (batch', m')"
  | (take) r rs m1 where "rm_runs m = r # rs" "\<not> tx_removed r" "tx_scan_run_id r \<notin> pr"
      "length batch < RETENTION_DELETE_BATCH_SIZE"
      "release_references pa (artifacts_of_run ra (tx_scan_run_id r)) (pass_run (r\<lparr>tx_removed := True\<rparr>) m) = Ok m1"
      "select_run_batch pr pa ra m1 (batch @ [tx_scan_run_id r]) = Ok (batch', m')"
proof (cases "rm_runs m")
  case Nil
  then show thesis using assms stop by (simp add: select_run_batch.simps)
next
  case (Cons r rs)
  note unfolded = assms [unfolded select_run_batch.simps [of pr pa ra m batch] Cons list.case]
  show thesis
  proof (cases "RETENTION_DELETE_BATCH_SIZE \<le> length batch")
    case True
    then show thesis using unfolded stop by simp
  next
    case False
    show thesis
    proof (cases "tx_removed r \<or> tx_scan_run_id r \<in> pr")
      case True
      then show thesis using unfolded False skip [OF Cons] by simp
    next
      case unprotected: False
      then show thesis using unfolded False take [OF Cons] by (auto split: result.splits)
    qed
  qed
qed

lemma select_run_batch_progress:
  "select_run_batch pr pa ra m batch = Ok (batch', m') \<Longrightarrow>
     length (rm_runs m') \<le> length (rm_runs m) \<and> length batch \<le> length batch'
     \<and> (length batch < length batch' \<longrightarrow> length (rm_runs m') < length (rm_runs m))"
proof (induction "length (rm_runs m)" arbitrary: m batch rule: less_induct)
  case less
  from less.prems show ?case
  proof (cases rule: select_run_batch_cases)
    case (skip r rs)
    then show ?thesis using less.hyps [of "pass_run r m" batch] by (simp add: pass_run_def)
  next
    case (take r rs m1)
    then show ?thesis using less.hyps [of m1 "batch @ [tx_scan_run_id r]"]
      release_references_runs [OF take(5)] by (simp add: pass_run_def)
  qed simp
qed

text \<open>Until the new artifact fits: orphans first, and runs when there are none.\<close>

function make_room ::
  "int set \<Rightarrow> int set \<Rightarrow> (int \<times> nat) list \<Rightarrow> int \<Rightarrow> room_state \<Rightarrow> prepared_delete list \<Rightarrow>
     (prepared_delete list \<times> room_state, store_error) result" where
  "make_room protected_runs protected_artifacts run_artifacts new_size m room =
     (if i64_saturating_add (rm_bytes m) new_size \<le> CONTEXT_ARTIFACTS_MAX_BYTES then Ok (room, m)
      else (case select_orphan_artifact_batch protected_artifacts (rm_heap m) (rm_artifacts m) (rm_bytes m) [] of
        (orphans, as, heap, artifact_bytes) \<Rightarrow>
          let m = m\<lparr>rm_artifacts := as, rm_heap := heap, rm_bytes := artifact_bytes\<rparr> in
          if orphans \<noteq> []
          then make_room protected_runs protected_artifacts run_artifacts new_size m (room @ [DeleteArtifacts orphans])
          else (case select_run_batch protected_runs protected_artifacts run_artifacts m [] of
              Err e \<Rightarrow> Err e
            | Ok (runs, m) \<Rightarrow>
                if runs = [] then Err (StoreRunCorrupt
                  (lit ''context artifact retention could not make room for the current artifact''))
                else make_room protected_runs protected_artifacts run_artifacts new_size m (room @ [DeleteRuns runs]))))"
  by pat_completeness auto

lemma select_orphan_heap:
  "select_orphan_artifact_batch protected heap as b batch = (batch', as', heap', b') \<Longrightarrow>
     length heap' \<le> length heap \<and> length batch \<le> length batch'
     \<and> (length batch < length batch' \<longrightarrow> length heap' < length heap)"
  by (induction protected heap as b batch rule: select_orphan_artifact_batch.induct)
    (force split: if_splits)+

termination make_room
proof (relation "measures [\<lambda>(_, _, _, _, m, _). length (rm_runs m), \<lambda>(_, _, _, _, m, _). length (rm_heap m)]", goal_cases)
  case (2 pr pa ra new_size m room orphans y as y1 heap bytes' m')
  then show ?case using select_orphan_heap [of pa "rm_heap m" "rm_artifacts m" "rm_bytes m" "[]" orphans as heap bytes']
    by simp
next
  case (3 pr pa ra new_size m room orphans y as y1 heap bytes' m' x runs m'')
  then show ?case using select_run_batch_progress [of pr pa ra m' "[]" runs m''] by simp
qed simp

declare make_room.simps [simp del]

section \<open>Age and caps\<close>

text \<open>Numbers are collected into batches of 64; the last one is flushed if it is not empty.\<close>

definition push_batched :: "int \<Rightarrow> int list list \<times> int list \<Rightarrow> int list list \<times> int list" where
  "push_batched i acc = (case acc of (batches, current) \<Rightarrow>
     if length (current @ [i]) = RETENTION_DELETE_BATCH_SIZE then (batches @ [current @ [i]], [])
     else (batches, current @ [i]))"

definition flush_batch :: "int list list \<times> int list \<Rightarrow> int list list" where
  "flush_batch acc = (case acc of (batches, current) \<Rightarrow> if current = [] then batches else batches @ [current])"

fun age_pass ::
  "int set \<Rightarrow> int \<Rightarrow> terminal_state_row list \<Rightarrow> int list list \<times> int list \<Rightarrow>
     terminal_state_row list \<times> int list list \<times> int list" where
  "age_pass protected cutoff [] acc = ([], acc)"
| "age_pass protected cutoff (r # rs) acc =
     (if \<not> tx_removed r \<and> tx_scan_run_id r \<notin> protected \<and> tx_finished_at_ms r < cutoff
      then (let (rs', acc') = age_pass protected cutoff rs (push_batched (tx_scan_run_id r) acc)
            in (r\<lparr>tx_removed := True\<rparr> # rs', acc'))
      else (let (rs', acc') = age_pass protected cutoff rs acc in (r # rs', acc')))"

text \<open>What remains, the current run included.\<close>

fun count_remaining :: "terminal_state_row list \<Rightarrow> int \<Rightarrow> int \<Rightarrow> (int \<times> int, store_error) result" where
  "count_remaining [] terminal_count terminal_bytes = Ok (terminal_count, terminal_bytes)"
| "count_remaining (r # rs) terminal_count terminal_bytes =
     (if tx_removed r then count_remaining rs terminal_count terminal_bytes
      else and_then (ok_or (StoreRunCorrupt (lit ''terminal retention row count overflowed'')) (i64_checked_add terminal_count 1)) (\<lambda>n.
           and_then (ok_or (StoreRunCorrupt (lit ''terminal retention byte total overflowed''))
             (i64_checked_add terminal_bytes (tx_audit_size_bytes r))) (\<lambda>b.
           count_remaining rs n b)))"

definition caps_hold :: "int \<Rightarrow> int \<Rightarrow> bool" where
  "caps_hold terminal_count terminal_bytes \<longleftrightarrow>
     terminal_count \<le> TERMINAL_RUN_MAX_COUNT \<and> terminal_bytes \<le> TERMINAL_AUDIT_MAX_BYTES"

fun cap_pass ::
  "int set \<Rightarrow> terminal_state_row list \<Rightarrow> int \<Rightarrow> int \<Rightarrow> int list list \<times> int list \<Rightarrow>
     terminal_state_row list \<times> int \<times> int \<times> int list list \<times> int list" where
  "cap_pass protected [] terminal_count terminal_bytes acc = ([], terminal_count, terminal_bytes, acc)"
| "cap_pass protected (r # rs) terminal_count terminal_bytes acc =
     (if caps_hold terminal_count terminal_bytes then (r # rs, terminal_count, terminal_bytes, acc)
      else if tx_removed r \<or> tx_scan_run_id r \<in> protected
      then (let (rs', rest) = cap_pass protected rs terminal_count terminal_bytes acc in (r # rs', rest))
      else (let (rs', rest) = cap_pass protected rs (i64_saturating_sub terminal_count 1)
                  (i64_saturating_sub terminal_bytes (tx_audit_size_bytes r)) (push_batched (tx_scan_run_id r) acc)
            in (r\<lparr>tx_removed := True\<rparr> # rs', rest)))"

definition prepare_finalization_retention_plan ::
  "run_store \<Rightarrow> int \<Rightarrow> int set \<Rightarrow> int set \<Rightarrow> int option \<Rightarrow> int \<Rightarrow> int \<Rightarrow> (retention_plan, store_error) result" where
  "prepare_finalization_retention_plan s current protected_runs protected_artifacts new_size now_ms audit_size =
     and_then (require_store (audit_size \<le> TERMINAL_AUDIT_MAX_BYTES)
                 (StoreRunCorrupt (lit ''current terminal audit exceeds the 2 GiB retention cap''))) (\<lambda>_.
     and_then (require_store (case new_size of None \<Rightarrow> True | Some n \<Rightarrow> n \<le> CONTEXT_ARTIFACTS_MAX_BYTES)
                 (StoreRunCorrupt (lit ''current artifact exceeds the 512 MiB context artifact cap''))) (\<lambda>_.
     and_then (read_artifacts (sort_key fa_artifact_id (at_artifacts (st_artifacts s))) 0) (\<lambda>(as, artifact_bytes).
     and_then (read_references (context_references (st_contexts s)) as []) (\<lambda>(as, run_artifacts).
     and_then (read_terminal_runs current (sort_key finished_order (filter collectable (st_runs s)))) (\<lambda>runs.
     and_then (case new_size of
         None \<Rightarrow> Ok ([], \<lparr>rm_artifacts = as, rm_heap = [], rm_bytes = artifact_bytes, rm_passed = [], rm_runs = runs\<rparr>)
       | Some n \<Rightarrow> make_room protected_runs protected_artifacts run_artifacts n
           \<lparr>rm_artifacts = as, rm_heap = initial_heap protected_artifacts as, rm_bytes = artifact_bytes,
            rm_passed = [], rm_runs = runs\<rparr> []) (\<lambda>(room, m).
     let (runs, aged) = age_pass protected_runs (retention_cutoff now_ms) (rm_passed m @ rm_runs m) ([], [])
     in and_then (count_remaining runs 1 audit_size) (\<lambda>(terminal_count, terminal_bytes).
        let (runs, terminal_count, terminal_bytes, capped) = cap_pass protected_runs runs terminal_count terminal_bytes ([], [])
        in and_then (require_store (caps_hold terminal_count terminal_bytes)
             (StoreRunCorrupt (lit ''terminal audit retention could not make room for the current record''))) (\<lambda>_.
           Ok \<lparr>rp_artifact_room = room, rp_terminal_run_batches = flush_batch aged @ flush_batch capped,
               rp_new_artifact_size = new_size\<rparr>))))))))"

section \<open>Deleting\<close>

text \<open>A deleted artifact takes its owned rows along, and a deleted run everything that belongs to it;
  inventory last seen by such a run forgets it.\<close>

definition delete_artifacts :: "(int \<Rightarrow> bool) \<Rightarrow> run_store \<Rightarrow> run_store" where
  "delete_artifacts gone s = (let t = st_artifacts s in s\<lparr>st_artifacts := t
     \<lparr>at_artifacts := filter (\<lambda>a. \<not> gone (fa_artifact_id a)) (at_artifacts t),
      at_files := filter (\<lambda>(i, _). \<not> gone i) (at_files t),
      at_decisions := filter (\<lambda>(i, _). \<not> gone i) (at_decisions t)\<rparr>\<rparr>)"

definition delete_runs :: "(int \<Rightarrow> bool) \<Rightarrow> run_store \<Rightarrow> run_store" where
  "delete_runs gone s = (let a = delete_audit gone (st_audit s) in s
     \<lparr>st_runs := filter (\<lambda>r. \<not> gone (nr_scan_run_id r)) (st_runs s),
      st_attempts := filter (\<lambda>a. \<not> gone (na_scan_run_id a)) (st_attempts s),
      st_contexts := delete_contexts gone (st_contexts s),
      st_audit := a\<lparr>au_execution_metrics := filter (\<lambda>(i, _). \<not> gone i) (au_execution_metrics a)\<rparr>,
      st_inventory := map (\<lambda>(r, seen). (r, case seen of None \<Rightarrow> None | Some i \<Rightarrow> if gone i then None else Some i))
        (st_inventory s)\<rparr>)"

definition referenced :: "run_store \<Rightarrow> int \<Rightarrow> bool" where
  "referenced s artifact_id \<longleftrightarrow> list_ex (\<lambda>c. cx_artifact_id c = Some artifact_id) (st_contexts s)"

definition artifact_victim :: "run_store \<Rightarrow> int list \<Rightarrow> int set \<Rightarrow> artifact_row \<Rightarrow> bool" where
  "artifact_victim s ids protected a \<longleftrightarrow>
     fa_artifact_id a \<in> set ids \<and> \<not> referenced s (fa_artifact_id a) \<and> fa_artifact_id a \<notin> protected"

definition delete_prepared_artifacts :: "int list \<Rightarrow> int set \<Rightarrow> run_store \<Rightarrow> (run_store, store_error) result" where
  "delete_prepared_artifacts ids protected s =
     (if ids = [] then Ok s
      else let victims = filter (artifact_victim s ids protected) (at_artifacts (st_artifacts s))
      in and_then (require_store (length victims = length ids)
           (StoreRunCorrupt (lit ''prepared artifact retention victims changed before terminal apply''))) (\<lambda>_.
         Ok (delete_artifacts (\<lambda>i. i \<in> fa_artifact_id ` set victims) s)))"

definition run_victim :: "int list \<Rightarrow> int set \<Rightarrow> run_row \<Rightarrow> bool" where
  "run_victim ids protected r \<longleftrightarrow> nr_scan_run_id r \<in> set ids \<and> collectable r \<and> nr_scan_run_id r \<notin> protected"

definition delete_prepared_terminal_runs :: "int list \<Rightarrow> int set \<Rightarrow> run_store \<Rightarrow> (run_store, store_error) result" where
  "delete_prepared_terminal_runs ids protected s =
     (if ids = [] then Ok s
      else let victims = filter (run_victim ids protected) (st_runs s)
      in and_then (require_store (length victims = length ids)
           (StoreRunCorrupt (lit ''prepared terminal retention victims changed before terminal apply''))) (\<lambda>_.
         Ok (delete_runs (\<lambda>i. i \<in> nr_scan_run_id ` set victims) s)))"

text \<open>\<open>SUM\<close> of a column without NULLs, which SQLite refuses beyond 64 bits.\<close>

definition sql_sum :: "int list \<Rightarrow> (int, store_error) result" where
  "sql_sum xs = (if I64_MIN \<le> sum_list xs \<and> sum_list xs \<le> I64_MAX then Ok (sum_list xs)
     else Err (StoreCacheWrite (lit ''integer overflow'')))"

fun apply_artifact_room ::
  "prepared_delete list \<Rightarrow> int set \<Rightarrow> int set \<Rightarrow> run_store \<Rightarrow> (run_store, store_error) result" where
  "apply_artifact_room [] protected_runs protected_artifacts s = Ok s"
| "apply_artifact_room (DeleteArtifacts ids # ds) protected_runs protected_artifacts s =
     and_then (delete_prepared_artifacts ids protected_artifacts s) (apply_artifact_room ds protected_runs protected_artifacts)"
| "apply_artifact_room (DeleteRuns ids # ds) protected_runs protected_artifacts s =
     and_then (delete_prepared_terminal_runs ids protected_runs s) (apply_artifact_room ds protected_runs protected_artifacts)"

definition artifact_sizes :: "run_store \<Rightarrow> int list" where
  "artifact_sizes s = map fa_artifact_size_bytes (at_artifacts (st_artifacts s))"

definition apply_artifact_retention_plan ::
  "retention_plan \<Rightarrow> int set \<Rightarrow> int set \<Rightarrow> run_store \<Rightarrow> (run_store, store_error) result" where
  "apply_artifact_retention_plan plan protected_runs protected_artifacts s =
     and_then (apply_artifact_room (rp_artifact_room plan) protected_runs protected_artifacts s) (\<lambda>s.
     case rp_new_artifact_size plan of
       None \<Rightarrow> Ok s
     | Some new_size \<Rightarrow>
         and_then (sql_sum (artifact_sizes s)) (\<lambda>current.
         and_then (require_store (i64_saturating_add current new_size \<le> CONTEXT_ARTIFACTS_MAX_BYTES)
                     (StoreRunCorrupt (lit ''prepared artifact retention plan no longer makes room''))) (\<lambda>_. Ok s)))"

fun delete_run_batches :: "int list list \<Rightarrow> int set \<Rightarrow> run_store \<Rightarrow> (run_store, store_error) result" where
  "delete_run_batches [] protected s = Ok s"
| "delete_run_batches (ids # batches) protected s =
     and_then (delete_prepared_terminal_runs ids protected s) (delete_run_batches batches protected)"

definition collectable_sizes :: "run_store \<Rightarrow> int list" where
  "collectable_sizes s = List.map_filter nr_audit_size_bytes (filter collectable (st_runs s))"

definition apply_terminal_retention_plan ::
  "retention_plan \<Rightarrow> int set \<Rightarrow> run_store \<Rightarrow> (run_store, store_error) result" where
  "apply_terminal_retention_plan plan protected_runs s =
     and_then (delete_run_batches (rp_terminal_run_batches plan) protected_runs s) (\<lambda>s.
     and_then (sql_sum (collectable_sizes s)) (\<lambda>bytes'.
     and_then (require_store (caps_hold (int (selected_count collectable (st_runs s))) bytes')
                 (StoreRunCorrupt (lit ''prepared terminal retention plan no longer satisfies the hard caps''))) (\<lambda>_.
     Ok s)))"

section \<open>Collection without a plan\<close>

text \<open>After the commit, while its time lasts: the four looks at the clock are \<open>looks\<close>, and the transaction is
  given up if the last one is too late.\<close>

definition gc_orphans :: "run_store \<Rightarrow> int list" where
  "gc_orphans s = take 64 (map fa_artifact_id (sort_key (\<lambda>a. (fa_created_at_ms a, fa_artifact_id a))
     (filter (\<lambda>a. \<not> referenced s (fa_artifact_id a)) (at_artifacts (st_artifacts s)))))"

definition gc_aged :: "int \<Rightarrow> run_store \<Rightarrow> int list" where
  "gc_aged cutoff s = take 64 (map nr_scan_run_id (sort_key finished_order
     (filter (\<lambda>r. collectable r \<and> (case nr_finished_at_ms r of None \<Rightarrow> False | Some t \<Rightarrow> t < cutoff)) (st_runs s))))"

definition run_opportunistic_gc ::
  "u64 \<Rightarrow> u64 \<Rightarrow> bool \<times> bool \<times> bool \<times> bool \<Rightarrow> run_store \<Rightarrow> (run_store, store_error) result" where
  "run_opportunistic_gc now budget_ms looks s =
     and_then (checked_i64 now (lit ''opportunistic gc timestamp'')) (\<lambda>now_ms.
     case looks of (admitted, first_open, second_open, commit_open) \<Rightarrow>
       if budget_ms = 0 \<or> \<not> admitted then Ok s
       else let t = (if first_open then delete_artifacts (\<lambda>i. i \<in> set (gc_orphans s)) s else s);
                t = (if second_open then delete_runs (\<lambda>i. i \<in> set (gc_aged (retention_cutoff now_ms) t)) t else t)
            in Ok (if commit_open then t else s))"

end
