(* ===== verification/Store_Finalize.thy ===== *)
theory Store_Finalize
  imports Store_Validation Store_Retention
begin

text \<open>
  \<open>RunStore::finalize\<close> of \<open>src/rust/scanner_core/src/store/runs.rs\<close>: everything is prepared on the store as
  it is found (the JSON, the artifact and its twin, the size of the audit, the retention plan, the
  envelope as a reader would rebuild it); one transaction then writes the result of the run. Other
  connections may change the store between the two. The looks at the clock are two here: before
  anything, and before the commit. Those between can only end the call earlier, with the error of
  a missed deadline, and nothing is written. The pragma of \<open>require_durable_finalization\<close> and the
  busy timeout are settings of the connection.
\<close>

section \<open>Sizes\<close>

fun parse_transport_text :: "parse_transport \<Rightarrow> rstring" where
  "parse_transport_text PtSession = lit ''session''"
| "parse_transport_text PtOneShot = lit ''one_shot''"
| "parse_transport_text PtRustInProcess = lit ''rust_in_process''"
| "parse_transport_text PtSnapshot = lit ''snapshot''"
| "parse_transport_text PtNotApplicable = lit ''not_applicable''"

fun classification_cache_text :: "classification_cache_status \<Rightarrow> rstring" where
  "classification_cache_text CcFresh = lit ''fresh''"
| "classification_cache_text CcMiss = lit ''miss''"
| "classification_cache_text CcSnapshot = lit ''snapshot''"
| "classification_cache_text CcNotEligible = lit ''not_eligible''"

fun classification_transport_text :: "classification_transport \<Rightarrow> rstring" where
  "classification_transport_text CtSession = lit ''session''"
| "classification_transport_text CtOneShot = lit ''one_shot''"
| "classification_transport_text CtSnapshot = lit ''snapshot''"
| "classification_transport_text CtNotApplicable = lit ''not_applicable''"

definition nullable_bytes :: "u64 option \<Rightarrow> int" where
  "nullable_bytes v = (case v of None \<Rightarrow> 1 | Some _ \<Rightarrow> 8)"

definition saturating_sum :: "int list \<Rightarrow> int" where
  "saturating_sum xs = foldl i64_saturating_add 0 xs"

definition file_execution_audit_size :: "bool \<Rightarrow> file_result_record \<Rightarrow> int" where
  "file_execution_audit_size snapshot_rows r =
     saturating_sum ([64, 8, utf8_len (fr_file_identity r),
        utf8_len (parse_transport_text (if snapshot_rows then PtSnapshot else fr_parse_transport r)), 8]
      @ (case fr_pdf_classification r of
           None \<Rightarrow> [12]
         | Some a \<Rightarrow>
             [utf8_len (pdf_status_text (ca_status a)), nullable_bytes (ca_page_count a),
              utf8_len (classification_cache_text (if reused_classification snapshot_rows a then CcSnapshot else ca_cache_status a)),
              utf8_len (if snapshot_rows then [] else ca_cache_miss_reason a),
              nullable_bytes (ca_result_examined_pages a), nullable_bytes (ca_run_inspected_pages a), 8, 8,
              utf8_len (classification_transport_text (if reused_classification snapshot_rows a then CtSnapshot else ca_transport a)),
              8, utf8_len (ca_classifier_build a), utf8_len (ca_classifier_profile_hash a)]))"

text \<open>The size of a run's audit. Sums the code writes with \<open>+=\<close> are of lengths of texts in memory.\<close>

definition page_audit_bytes :: "store_codec \<Rightarrow> file_result_record \<Rightarrow> int list" where
  "page_audit_bytes codec r =
     (case Option.bind (fr_pdf_classification r) ca_page_audit of
        None \<Rightarrow> []
      | Some audit \<Rightarrow> [(utf8_len (sc_page_audit_json codec audit) + utf8_len (fr_file_identity r)) * 2 + 64])"

definition compute_audit_size :: "store_codec \<Rightarrow> finalization_batch \<Rightarrow> int" where
  "compute_audit_size codec b =
     foldl i64_saturating_add (utf8_len (fb_envelope_json b))
       ((case Option.bind (fb_execution_metrics b) xv_refill_audit of
           None \<Rightarrow> [] | Some refill \<Rightarrow> [utf8_len (sc_refill_json codec refill) * 2 + 32])
        @ concat (map (page_audit_bytes codec) (fb_file_results b)))
     + sum_list (map (\<lambda>r. utf8_len (fr_relative_path r) + 256
         + file_execution_audit_size (fb_snapshot_hit b \<noteq> None) r) (fb_file_results b))
     + sum_list (map (\<lambda>d. utf8_len (dg_message (rg_diagnostic d)) + 160) (fb_diagnostics b))
     + int (length (fb_stage_metrics b)) * 48
     + sum_list (map (\<lambda>m. utf8_len (xm_extension m) + 64) (fb_extension_metrics b))
     + (case fb_context b of
          None \<Rightarrow> 0
        | Some c \<Rightarrow> utf8_len (cn_final_context c) + 320
            + sum_list (map (\<lambda>d. utf8_len (cd_relative_path (bd_decision d)) + 160) (cn_decisions c)))"

definition compute_terminal_rows_written :: "finalization_batch \<Rightarrow> bool \<Rightarrow> u64" where
  "compute_terminal_rows_written b artifact_deduplicated =
     foldl saturating_add 0
       ([length (fb_file_results b), length (fb_file_results b), length (fb_diagnostics b),
         length (fb_stage_metrics b), length (fb_extension_metrics b)]
        @ (case fb_context b of
             None \<Rightarrow> []
           | Some c \<Rightarrow> [1, length (cn_decisions c)]
               @ (case fb_artifact b of
                    Some d \<Rightarrow> if fb_snapshot_hit b = None \<and> \<not> artifact_deduplicated
                      then [1, length (dr_file_rows d), length (dr_decision_rows d)] else []
                  | None \<Rightarrow> []))
        @ [2, 1])"

section \<open>Preparation\<close>

definition semantics_agree :: "semantic_summary \<Rightarrow> context_summary \<Rightarrow> bool" where
  "semantics_agree ss s \<longleftrightarrow>
     ss_source_file_count ss = cs_source_file_count s \<and> ss_success_count ss = cs_success_count s
     \<and> ss_timeout_count ss = cs_timeout_count s \<and> ss_included_file_count ss = cs_included_file_count s
     \<and> ss_omitted_file_count ss = cs_omitted_file_count s \<and> ss_error_file_count ss = cs_error_file_count s
     \<and> ss_input_chars ss = cs_input_chars s \<and> ss_output_chars ss = cs_output_chars s"

record prepared_finalization =
  pf_envelope :: context_envelope
  pf_metadata_json :: rstring
  pf_now_ms :: int
  pf_audit_size :: int
  pf_semantic_json :: "rstring option"
  pf_artifact_size :: "int option"
  pf_dedup_artifact_id :: "int option"
  pf_protected_runs :: "int set"
  pf_protected_artifacts :: "int set"
  pf_plan :: retention_plan

text \<open>The artifact the context of the run will refer to: the one of the snapshot, or the draft.\<close>

definition load_snapshot_artifact ::
  "store_codec \<Rightarrow> run_store \<Rightarrow> finalization_batch \<Rightarrow> (artifact_draft option, store_error) result" where
  "load_snapshot_artifact codec s b =
     (case fb_snapshot_hit b of
        None \<Rightarrow> Ok None
      | Some hit \<Rightarrow> and_then (load_artifact codec (st_artifacts s) (hr_artifact_id hit)) (\<lambda>d. Ok (Some d)))"

definition artifact_for_rebuild :: "artifact_draft option \<Rightarrow> finalization_batch \<Rightarrow> artifact_draft option" where
  "artifact_for_rebuild snapshot b = (case snapshot of Some d \<Rightarrow> Some d | None \<Rightarrow> fb_artifact b)"

definition check_semantics :: "finalization_batch \<Rightarrow> artifact_draft option \<Rightarrow> (unit, store_error) result" where
  "check_semantics b artifact =
     (case fb_context b of
        None \<Rightarrow> Ok ()
      | Some c \<Rightarrow>
          if fb_status b = RunError then Ok ()
          else and_then (ok_or (run_corrupt ''success/partial run must carry artifact semantics'') artifact) (\<lambda>d.
            require_store (semantics_agree (dr_semantic_summary d) (cn_summary c))
              (run_corrupt ''artifact semantic summary disagrees with the current summary'')))"

definition dedup_of :: "store_codec \<Rightarrow> run_store \<Rightarrow> finalization_batch \<Rightarrow> (int option, store_error) result" where
  "dedup_of codec s b =
     (case (fb_artifact b, fb_snapshot_key b) of
        (Some draft, Some key) \<Rightarrow> dedup_artifact codec (st_artifacts s) draft key
      | _ \<Rightarrow> Ok None)"

definition hit_artifacts :: "finalization_batch \<Rightarrow> int set" where
  "hit_artifacts b = (case fb_snapshot_hit b of None \<Rightarrow> {} | Some hit \<Rightarrow> {hr_artifact_id hit})"

definition hit_runs :: "finalization_batch \<Rightarrow> int set" where
  "hit_runs b = (case fb_snapshot_hit b of None \<Rightarrow> {} | Some hit \<Rightarrow> {hr_reused_from_context_run_id hit})"

definition prepare_finalization ::
  "store_codec \<Rightarrow> active_run \<Rightarrow> finalization_batch \<Rightarrow> u64 \<Rightarrow> run_store \<Rightarrow> (prepared_finalization, store_error) result" where
  "prepare_finalization codec active b now s =
     and_then (validate_finalization codec active b) (\<lambda>e.
     and_then (checked_i64 now (lit ''finalization timestamp'')) (\<lambda>now_ms.
     and_then (envelope_metadata_of e (Option.bind (fb_execution_metrics b) xv_refill_audit) (fb_file_results b)) (\<lambda>m.
     let metadata_json = sc_metadata_json codec m in
     and_then (ok_or (run_corrupt ''envelope metadata JSON is invalid'') (sc_parse_metadata codec metadata_json)) (\<lambda>m.
     let audit_size = compute_audit_size codec b in
     and_then (load_snapshot_artifact codec s b) (\<lambda>snapshot.
     let artifact = artifact_for_rebuild snapshot b in
     and_then (check_semantics b artifact) (\<lambda>_.
     let semantic_json = map_option (\<lambda>d. sc_semantic_json codec (dr_semantic_summary d)) (fb_artifact b);
         artifact_size = map_option (\<lambda>d. artifact_size_bytes codec d (fb_snapshot_key b)) (fb_artifact b) in
     and_then (dedup_of codec s b) (\<lambda>dedup.
     let runs = insert (ac_scan_run_id active) (hit_runs b);
         artifacts = hit_artifacts b \<union> set_option dedup;
         new_size = (if dedup = None then artifact_size else None) in
     and_then (prepare_finalization_retention_plan s (ac_scan_run_id active) runs artifacts new_size now_ms audit_size) (\<lambda>plan.
     and_then (map_err (\<lambda>message. StoreRunCorrupt (lit ''rebuilt envelope is invalid: '' @ message))
                 (rebuild_envelope m (en_summary e) artifact)) (\<lambda>rebuilt.
     and_then (canonical_envelope_json codec rebuilt) (\<lambda>rebuilt_json.
     and_then (require_store (rebuilt_json = fb_envelope_json b)
                 (run_corrupt ''rebuilt envelope disagrees with the committed envelope'')) (\<lambda>_.
     Ok \<lparr>pf_envelope = e, pf_metadata_json = metadata_json, pf_now_ms = now_ms, pf_audit_size = audit_size,
         pf_semantic_json = semantic_json, pf_artifact_size = artifact_size, pf_dedup_artifact_id = dedup, pf_protected_runs = runs,
         pf_protected_artifacts = artifacts, pf_plan = plan\<rparr>)))))))))))"

section \<open>The transaction\<close>

definition known_files :: "run_store \<Rightarrow> rstring set" where
  "known_files s = (\<lambda>(r, _). iv_file_identity r) ` set (st_inventory s)"

text \<open>The inventory was committed before; it must still be what this run saw, and seen by this run.\<close>

fun verify_inventory_snapshot :: "run_store \<Rightarrow> int \<Rightarrow> inventory_record list \<Rightarrow> (unit, store_error) result" where
  "verify_inventory_snapshot s scan_run_id [] = Ok ()"
| "verify_inventory_snapshot s scan_run_id (r # rs) =
     and_then (ok_or (run_corrupt ''terminal inventory receipt is incomplete'')
       (find (\<lambda>(p, _). iv_file_identity p = iv_file_identity r) (st_inventory s))) (\<lambda>(p, seen).
     and_then (require_store (iv_size_bytes r \<le> i64_max) (invalid_request ''inventory size exceeds SQLite integer range'')) (\<lambda>_.
     and_then (require_store (iv_mtime_ns r \<le> i64_max) (invalid_request ''inventory mtime exceeds SQLite integer range'')) (\<lambda>_.
     and_then (require_store (p = r \<and> seen = Some scan_run_id)
                 (run_corrupt ''terminal inventory receipt disagrees with discovery'')) (\<lambda>_.
     verify_inventory_snapshot s scan_run_id rs))))"

definition handshake_failed :: "finalization_batch \<Rightarrow> bool" where
  "handshake_failed b \<longleftrightarrow> list_ex (\<lambda>d. rg_severity d = SevError
     \<and> dg_error_code (rg_diagnostic d) \<in> {WorkerHandshakeFailed, WorkerVersionMismatch}) (fb_diagnostics b)"

definition fingerprints_required :: "finalization_batch \<Rightarrow> bool" where
  "fingerprints_required b \<longleftrightarrow> fb_status b \<in> {RunSuccess, RunPartial} \<or> fb_inventory b \<noteq> []
     \<or> fb_file_results b \<noteq> [] \<or> \<not> handshake_failed b"

definition insert_audit :: "active_run \<Rightarrow> finalization_batch \<Rightarrow> run_store \<Rightarrow> (run_store, store_error) result" where
  "insert_audit active b s =
     (let i = ac_scan_run_id active; a = st_audit s in
      and_then (insert_file_results (known_files s) i (fb_snapshot_hit b \<noteq> None) (fb_file_results b)
                  (au_file_results a, au_file_execution a)) (\<lambda>(results, executions).
      and_then (insert_diagnostics i 0 (fb_diagnostics b) (au_diagnostics a)) (\<lambda>diagnostics.
      and_then (insert_stage_metrics i (fb_stage_metrics b) (au_stage_metrics a)) (\<lambda>stages.
      and_then (insert_extension_metrics i (fb_extension_metrics b) (au_extension_metrics a)) (\<lambda>extensions.
      Ok (s\<lparr>st_audit := a\<lparr>au_file_results := results, au_file_execution := executions, au_diagnostics := diagnostics,
        au_stage_metrics := stages, au_extension_metrics := extensions\<rparr>\<rparr>))))))"

text \<open>The context of a run. Its decisions are part of the row.\<close>

definition context_checks :: "context_row \<Rightarrow> bool" where
  "context_checks c \<longleftrightarrow>
     (let r = cx_context c in
      length (cn_context_profile_hash r) = 64 \<and> is_terminal (cn_status r) \<and> length (cn_context_sha256 r) = 64
      \<and> summary_fits_sqlite (cn_summary r)
      \<and> (cx_snapshot_hit c \<or> cx_reused_from_context_run_id c = None)
      \<and> (cn_status r = RunError \<longleftrightarrow> cx_artifact_id c = None))"

definition decision_checks :: "context_decision \<Rightarrow> bool" where
  "decision_checks d \<longleftrightarrow> 0 \<le> as_i64 (cd_priority d) \<and> 0 \<le> as_i64 (cd_input_chars d) \<and> 0 \<le> as_i64 (cd_output_chars d)"

fun insert_decisions :: "rstring set \<Rightarrow> budgeted_decision list \<Rightarrow> rstring set \<Rightarrow> (unit, store_error) result" where
  "insert_decisions known [] present = Ok ()"
| "insert_decisions known (d # ds) present =
     and_then (require_store (decision_checks (bd_decision d)) (check_failed ''context_decisions'')) (\<lambda>_.
     and_then (require_store (bd_file_identity d \<notin> present)
                 (unique_failed ''context_decisions.context_run_id, context_decisions.file_identity'')) (\<lambda>_.
     and_then (require_store (bd_file_identity d \<in> known) foreign_key_failed) (\<lambda>_.
     insert_decisions known ds (insert (bd_file_identity d) present))))"

definition insert_context ::
  "int \<Rightarrow> context_run_record \<Rightarrow> int option \<Rightarrow> bool \<Rightarrow> int option \<Rightarrow> int \<Rightarrow> run_store \<Rightarrow> (run_store, store_error) result" where
  "insert_context scan_run_id c artifact_id snapshot_hit reused_from now_ms s =
     (let row = \<lparr>cx_scan_run_id = scan_run_id, cx_context = c, cx_created_at_ms = now_ms, cx_artifact_id = artifact_id,
                 cx_reused_from_context_run_id = reused_from, cx_snapshot_hit = snapshot_hit\<rparr> in
      and_then (terminal_status (cn_status c)) (\<lambda>_.
      and_then (require_store (context_checks row) (check_failed ''context_runs'')) (\<lambda>_.
      and_then (require_store (\<not> list_ex (\<lambda>q. cx_scan_run_id q = scan_run_id) (st_contexts s))
                  (unique_failed ''context_runs.context_run_id'')) (\<lambda>_.
      and_then (require_store ((\<forall>i \<in> set_option artifact_id. list_ex (\<lambda>a. fa_artifact_id a = i) (at_artifacts (st_artifacts s)))
                    \<and> (\<forall>i \<in> set_option reused_from. i = scan_run_id \<or> list_ex (\<lambda>q. cx_scan_run_id q = i) (st_contexts s)))
                  foreign_key_failed) (\<lambda>_.
      and_then (insert_decisions (known_files s) (cn_decisions c) {}) (\<lambda>_.
      Ok (s\<lparr>st_contexts := st_contexts s @ [row]\<rparr>)))))))"

text \<open>The artifact: still there when it is the one of the snapshot, the twin of the draft when there is one,
  and otherwise new, after the retention plan has made room.\<close>

definition write_artifact ::
  "prepared_finalization \<Rightarrow> finalization_batch \<Rightarrow> run_store \<Rightarrow> (run_store \<times> int, store_error) result" where
  "write_artifact p b s =
     (case fb_snapshot_hit b of
        Some hit \<Rightarrow>
          and_then (require_store (list_ex (\<lambda>a. fa_artifact_id a = hr_artifact_id hit) (at_artifacts (st_artifacts s)))
            (run_corrupt ''snapshot artifact disappeared before terminal commit'')) (\<lambda>_. Ok (s, hr_artifact_id hit))
      | None \<Rightarrow>
          and_then (ok_or (run_corrupt ''success/partial run must carry an artifact draft'') (fb_artifact b)) (\<lambda>draft.
          and_then (require_store (dr_snapshot_eligible draft \<longleftrightarrow> fb_snapshot_key b \<noteq> None)
                      (run_corrupt ''artifact eligibility disagrees with the snapshot key'')) (\<lambda>_.
          case pf_dedup_artifact_id p of
            Some existing \<Rightarrow> Ok (s, existing)
          | None \<Rightarrow>
              and_then (ok_or (run_corrupt ''artifact semantic JSON was not prepared'') (pf_semantic_json p)) (\<lambda>semantic_json.
              and_then (ok_or (run_corrupt ''artifact size was not prepared'') (pf_artifact_size p)) (\<lambda>artifact_size.
              and_then (apply_artifact_retention_plan (pf_plan p) (pf_protected_runs p) (pf_protected_artifacts p) s) (\<lambda>s.
              and_then (insert_artifact (known_files s) draft (fb_snapshot_key b) semantic_json artifact_size (pf_now_ms p)
                          (st_artifacts s)) (\<lambda>(t, i).
              Ok (s\<lparr>st_artifacts := t\<rparr>, i))))))))"

definition write_context ::
  "active_run \<Rightarrow> prepared_finalization \<Rightarrow> finalization_batch \<Rightarrow> run_store \<Rightarrow> (run_store, store_error) result" where
  "write_context active p b s =
     (case fb_context b of
        None \<Rightarrow> Ok s
      | Some c \<Rightarrow>
          if fb_status b = RunError
          then insert_context (ac_scan_run_id active) c None False None (pf_now_ms p) s
          else and_then (write_artifact p b s) (\<lambda>(s, artifact_id).
            insert_context (ac_scan_run_id active) c (Some artifact_id) (fb_snapshot_hit b \<noteq> None)
              (map_option hr_reused_from_context_run_id (fb_snapshot_hit b)) (pf_now_ms p) s))"

text \<open>The run and its attempt end. Both columns of JSON hold the metadata.\<close>

definition finish_run_row :: "prepared_finalization \<Rightarrow> run_status \<Rightarrow> run_row \<Rightarrow> run_row" where
  "finish_run_row p status r = r\<lparr>nr_status := status, nr_updated_at_ms := pf_now_ms p, nr_finished_at_ms := Some (pf_now_ms p),
     nr_final_envelope_json := Some (pf_metadata_json p), nr_final_envelope_metadata_json := Some (pf_metadata_json p),
     nr_audit_size_bytes := Some (pf_audit_size p)\<rparr>"

definition finish_attempt_row :: "prepared_finalization \<Rightarrow> run_status \<Rightarrow> attempt_row \<Rightarrow> attempt_row" where
  "finish_attempt_row p status a = a\<lparr>na_status := status, na_finished_at_ms := Some (pf_now_ms p)\<rparr>"

definition attempt_checks :: "run_status \<Rightarrow> attempt_row \<Rightarrow> bool" where
  "attempt_checks status a \<longleftrightarrow> (status \<in> {RunSuccess, RunPartial} \<longrightarrow> na_office_worker a \<noteq> None \<and> na_pdf_worker a \<noteq> None)"

definition finish_rows ::
  "active_run \<Rightarrow> prepared_finalization \<Rightarrow> run_status \<Rightarrow> run_store \<Rightarrow> (run_store, store_error) result" where
  "finish_rows active p status s =
     and_then (require_store (selected_count (run_of_active active) (st_runs s) = 1) StoreLeaseLost) (\<lambda>_.
     and_then (require_store (list_all (attempt_checks status) (filter (attempt_of_active active) (st_attempts s)))
                 (check_failed ''scan_run_attempts'')) (\<lambda>_.
     and_then (require_store (selected_count (attempt_of_active active) (st_attempts s) = 1) StoreLeaseLost) (\<lambda>_.
     Ok (s\<lparr>st_runs := update_where (run_of_active active) (finish_run_row p status) (st_runs s),
           st_attempts := update_where (attempt_of_active active) (finish_attempt_row p status) (st_attempts s)\<rparr>))))"

text \<open>The times the transaction itself took, as read from the clock.\<close>

record terminal_timings =
  tt_current_run_audit_write_ms :: u64
  tt_terminal_precommit_ms :: u64
  tt_envelope_rebuild_ms :: u64
  tt_deadline_precommit_elapsed_ms :: u64

definition terminal_metrics ::
  "terminal_timings \<Rightarrow> prepared_finalization \<Rightarrow> finalization_batch \<Rightarrow> execution_metrics_v2 \<Rightarrow> execution_metrics_v2" where
  "terminal_metrics tt p b m = m
     \<lparr>xv_current_run_audit_write_ms := tt_current_run_audit_write_ms tt,
      xv_terminal_precommit_ms := tt_terminal_precommit_ms tt,
      xv_terminal_rows_written := compute_terminal_rows_written b (pf_dedup_artifact_id p \<noteq> None),
      xv_envelope_rebuild_ms := tt_envelope_rebuild_ms tt,
      xv_deadline_precommit_elapsed_ms := tt_deadline_precommit_elapsed_ms tt\<rparr>"

definition write_execution_metrics ::
  "active_run \<Rightarrow> terminal_timings \<Rightarrow> prepared_finalization \<Rightarrow> finalization_batch \<Rightarrow> run_store \<Rightarrow> (run_store, store_error) result" where
  "write_execution_metrics active tt p b s =
     (case fb_execution_metrics b of
        None \<Rightarrow> Ok s
      | Some m \<Rightarrow>
          let m = terminal_metrics tt p b m; a = st_audit s in
          and_then (map_err (\<lambda>message. StoreRunCorrupt (lit ''execution metrics are invalid: '' @ message))
                      (validate_execution_metrics m)) (\<lambda>_.
          and_then (insert_execution_metrics (ac_scan_run_id active) m (au_execution_metrics a)) (\<lambda>rows.
          Ok (s\<lparr>st_audit := a\<lparr>au_execution_metrics := rows\<rparr>\<rparr>))))"

definition finalize_transaction ::
  "store_codec \<Rightarrow> active_run \<Rightarrow> finalization_batch \<Rightarrow> terminal_timings \<Rightarrow> bool \<Rightarrow> prepared_finalization \<Rightarrow> run_store \<Rightarrow>
     (run_store, store_error) result" where
  "finalize_transaction codec active b tt commit_open p s =
     and_then (heartbeat_in_transaction active (pf_now_ms p) s) (\<lambda>s.
     and_then (ensure_engine_fingerprint codec active (pf_envelope p) s) (\<lambda>_.
     and_then (if fingerprints_required b then ensure_worker_fingerprints active s else Ok ()) (\<lambda>_.
     and_then (verify_inventory_snapshot s (ac_scan_run_id active) (fb_inventory b)) (\<lambda>_.
     and_then (insert_audit active b s) (\<lambda>s.
     and_then (write_context active p b s) (\<lambda>s.
     and_then (finish_rows active p (fb_status b) s) (\<lambda>s.
     and_then (apply_terminal_retention_plan (pf_plan p) (pf_protected_runs p) s) (\<lambda>s.
     and_then (write_execution_metrics active tt p b s) (\<lambda>s.
     and_then (delete_lease (ac_owner_id active) s) (\<lambda>s.
     and_then (require_store commit_open StoreAbsoluteDeadlineExhausted) (\<lambda>_. Ok s)))))))))))"

text \<open>The call: prepared on \<open>seen\<close>, written to \<open>s\<close>.\<close>

definition finalize ::
  "store_codec \<Rightarrow> active_run \<Rightarrow> finalization_batch \<Rightarrow> u64 \<Rightarrow> bool \<times> bool \<Rightarrow> terminal_timings \<Rightarrow> run_store \<Rightarrow> run_store \<Rightarrow>
     (run_store, store_error) result" where
  "finalize codec active b now looks tt seen s =
     (case looks of (opened, commit_open) \<Rightarrow>
        and_then (require_store opened StoreAbsoluteDeadlineExhausted) (\<lambda>_.
        and_then (prepare_finalization codec active b now seen) (\<lambda>p.
        finalize_transaction codec active b tt commit_open p s)))"

end
