(* ===== verification/Store_Retention_Plan.thy ===== *)
theory Store_Retention_Plan
  imports Store_Retention
begin

text \<open>
  The plan of \<open>Store_Retention\<close> is a simulation of the tables: each step of it is matched by the
  deletion it prepares, so that the deletions find exactly the rows that were planned, and the
  totals of the simulation are those of the tables.
\<close>

section \<open>What the deletions do\<close>

definition context_refs :: "run_store \<Rightarrow> (int \<times> int) list" where
  "context_refs s = List.map_filter (\<lambda>c. map_option (Pair (cx_scan_run_id c)) (cx_artifact_id c)) (st_contexts s)"

definition artifact_ids :: "run_store \<Rightarrow> int list" where
  "artifact_ids s = map fa_artifact_id (at_artifacts (st_artifacts s))"

definition run_ids :: "run_store \<Rightarrow> int list" where
  "run_ids s = map nr_scan_run_id (st_runs s)"

lemma referenced_iff: "referenced s a \<longleftrightarrow> a \<in> snd ` set (context_refs s)"
  by (force simp: referenced_def context_refs_def list_ex_iff List.map_filter_def)

lemma refs_delete_contexts:
  "List.map_filter (\<lambda>c. map_option (Pair (cx_scan_run_id c)) (cx_artifact_id c)) (delete_contexts gone rows)
     = filter (\<lambda>(r, _). \<not> gone r) (List.map_filter (\<lambda>c. map_option (Pair (cx_scan_run_id c)) (cx_artifact_id c)) rows)"
  by (induction rows) (auto simp: delete_contexts_def List.map_filter_simps split: option.splits)

lemma context_refs_delete [simp]:
  "context_refs (delete_runs gone s) = filter (\<lambda>(r, _). \<not> gone r) (context_refs s)"
  "context_refs (delete_artifacts gone s) = context_refs s"
  by (simp_all add: context_refs_def delete_runs_def delete_artifacts_def Let_def refs_delete_contexts)

lemma delete_artifacts_tables [simp]:
  "st_runs (delete_artifacts gone s) = st_runs s" "st_attempts (delete_artifacts gone s) = st_attempts s"
  "st_contexts (delete_artifacts gone s) = st_contexts s" "st_lease (delete_artifacts gone s) = st_lease s"
  "at_artifacts (st_artifacts (delete_artifacts gone s)) = filter (\<lambda>a. \<not> gone (fa_artifact_id a)) (at_artifacts (st_artifacts s))"
  "referenced (delete_artifacts gone s) = referenced s"
  by (auto simp: delete_artifacts_def Let_def referenced_def)

lemma delete_runs_tables [simp]:
  "st_runs (delete_runs gone s) = filter (\<lambda>r. \<not> gone (nr_scan_run_id r)) (st_runs s)"
  "st_attempts (delete_runs gone s) = filter (\<lambda>a. \<not> gone (na_scan_run_id a)) (st_attempts s)"
  "st_artifacts (delete_runs gone s) = st_artifacts s" "st_lease (delete_runs gone s) = st_lease s"
  by (simp_all add: delete_runs_def Let_def)

lemma delete_contexts_comp:
  "delete_contexts g2 (delete_contexts g1 rows) = delete_contexts (\<lambda>i. g1 i \<or> g2 i) rows"
  by (induction rows) (auto simp: delete_contexts_def split: option.splits)

lemma delete_audit_comp: "delete_audit g2 (delete_audit g1 a) = delete_audit (\<lambda>i. g1 i \<or> g2 i) a"
  by (simp add: delete_audit_def case_prod_unfold)

lemma delete_runs_comp: "delete_runs g2 (delete_runs g1 s) = delete_runs (\<lambda>i. g1 i \<or> g2 i) s"
proof -
  have inv: "map (\<lambda>(r, seen). (r, case seen of None \<Rightarrow> None | Some i \<Rightarrow> if g2 i then None else Some i))
          (map (\<lambda>(r, seen). (r, case seen of None \<Rightarrow> None | Some i \<Rightarrow> if g1 i then None else Some i)) xs)
      = map (\<lambda>(r, seen). (r, case seen of None \<Rightarrow> None | Some i \<Rightarrow> if g1 i \<or> g2 i then None else Some i)) xs"
    for xs :: "(inventory_record \<times> int option) list"
    by (induction xs) (auto split: option.splits)
  have "st_inventory (delete_runs g2 (delete_runs g1 s)) = st_inventory (delete_runs (\<lambda>i. g1 i \<or> g2 i) s)"
    using inv by (simp add: delete_runs_def Let_def del: map_map)
  then show ?thesis
    by (cases s) (simp add: delete_runs_def Let_def delete_contexts_comp delete_audit_def case_prod_unfold)
qed

lemma delete_artifacts_comp: "delete_artifacts g2 (delete_artifacts g1 s) = delete_artifacts (\<lambda>i. g1 i \<or> g2 i) s"
  by (simp add: delete_artifacts_def Let_def case_prod_unfold)

lemma delete_runs_artifacts: "delete_runs g (delete_artifacts h s) = delete_artifacts h (delete_runs g s)"
  by (simp add: delete_runs_def delete_artifacts_def Let_def)

lemma delete_nothing [simp]: "delete_runs (\<lambda>_. False) s = s" "delete_artifacts (\<lambda>_. False) s = s"
proof -
  have c: "delete_contexts (\<lambda>_. False) rows = rows" for rows
    by (induction rows) (auto simp: delete_contexts_def split: option.splits)
  have i: "map (\<lambda>(r, seen). (r, case seen of None \<Rightarrow> None | Some i \<Rightarrow> if False then None else Some i)) xs = xs"
    for xs :: "(inventory_record \<times> int option) list"
    by (induction xs) (auto split: option.splits)
  show "delete_runs (\<lambda>_. False) s = s"
    unfolding delete_runs_def Let_def c i by (simp add: delete_audit_def case_prod_unfold)
  show "delete_artifacts (\<lambda>_. False) s = s"
    by (simp add: delete_artifacts_def Let_def case_prod_unfold)
qed

text \<open>A prepared deletion succeeds when it finds its rows.\<close>

lemma length_filter_ids:
  assumes "distinct (map f xs)" "distinct ids" "set ids \<subseteq> f ` set xs"
  shows "length (filter (\<lambda>x. f x \<in> set ids) xs) = length ids"
proof -
  have "distinct (map f (filter (\<lambda>x. f x \<in> set ids) xs))" using assms(1) by (rule distinct_map_filter)
  moreover have "set (map f (filter (\<lambda>x. f x \<in> set ids) xs)) = set ids" using assms(3) by auto
  ultimately show ?thesis using assms(2) by (metis distinct_card length_map)
qed

lemma delete_prepared_artifacts_Ok:
  assumes "distinct (artifact_ids s)" "distinct ids" "set ids \<subseteq> set (artifact_ids s)"
    and "\<forall>i \<in> set ids. \<not> referenced s i \<and> i \<notin> pa"
  shows "delete_prepared_artifacts ids pa s = Ok (delete_artifacts (\<lambda>i. i \<in> set ids) s)"
proof -
  have v: "filter (artifact_victim s ids pa) (at_artifacts (st_artifacts s))
      = filter (\<lambda>a. fa_artifact_id a \<in> set ids) (at_artifacts (st_artifacts s))"
    using assms(4) by (auto simp: artifact_victim_def intro!: filter_cong)
  have img: "fa_artifact_id ` {a \<in> set (at_artifacts (st_artifacts s)). fa_artifact_id a \<in> set ids} = set ids"
    using assms(3) by (auto simp: artifact_ids_def)
  have len: "length (filter (\<lambda>a. fa_artifact_id a \<in> set ids) (at_artifacts (st_artifacts s))) = length ids"
    using length_filter_ids assms(1-3) by (auto simp: artifact_ids_def)
  show ?thesis
    unfolding delete_prepared_artifacts_def v Let_def len require_store_def
    by (simp add: img)
qed

lemma delete_prepared_terminal_runs_Ok:
  assumes "distinct (run_ids s)" "distinct ids"
    and "\<forall>i \<in> set ids. i \<notin> pr \<and> (\<exists>r \<in> set (st_runs s). nr_scan_run_id r = i \<and> collectable r)"
  shows "delete_prepared_terminal_runs ids pr s = Ok (delete_runs (\<lambda>i. i \<in> set ids) s)"
proof -
  have inj: "inj_on nr_scan_run_id (set (st_runs s))" using assms(1) by (simp add: run_ids_def distinct_map)
  have "run_victim ids pr r \<longleftrightarrow> nr_scan_run_id r \<in> set ids" if "r \<in> set (st_runs s)" for r
    using assms(3) that inj by (auto simp: run_victim_def dest: inj_onD)
  then have v: "filter (run_victim ids pr) (st_runs s) = filter (\<lambda>r. nr_scan_run_id r \<in> set ids) (st_runs s)"
    by (auto intro: filter_cong)
  have sub: "set ids \<subseteq> nr_scan_run_id ` set (st_runs s)" using assms(3) by auto
  then have img: "nr_scan_run_id ` {r \<in> set (st_runs s). nr_scan_run_id r \<in> set ids} = set ids" by auto
  have len: "length (filter (\<lambda>r. nr_scan_run_id r \<in> set ids) (st_runs s)) = length ids"
    using length_filter_ids [OF _ assms(2) sub] assms(1) by (simp add: run_ids_def)
  show ?thesis
    unfolding delete_prepared_terminal_runs_def v Let_def len require_store_def
    by (simp add: img)
qed

section \<open>The simulation\<close>

definition artifact_key :: "artifact_state \<Rightarrow> int \<times> int" where
  "artifact_key a = (ax_artifact_id a, ax_artifact_size_bytes a)"

definition row_key :: "artifact_row \<Rightarrow> int \<times> int" where
  "row_key a = (fa_artifact_id a, fa_artifact_size_bytes a)"

definition terminal_key :: "terminal_state_row \<Rightarrow> int \<times> int option \<times> int option" where
  "terminal_key t = (tx_scan_run_id t, Some (tx_finished_at_ms t), Some (tx_audit_size_bytes t))"

definition run_key :: "run_row \<Rightarrow> int \<times> int option \<times> int option" where
  "run_key r = (nr_scan_run_id r, nr_finished_at_ms r, retention_audit_size r)"

definition refs_to :: "run_store \<Rightarrow> int \<Rightarrow> nat" where
  "refs_to s a = length (filter (\<lambda>(_, b). b = a) (context_refs s))"

definition refs_from :: "run_store \<Rightarrow> int \<Rightarrow> int list" where
  "refs_from s r = map snd (filter (\<lambda>(q, _). q = r) (context_refs s))"

definition valid_entries :: "(int \<times> int \<times> nat) list \<Rightarrow> nat \<Rightarrow> bool" where
  "valid_entries heap n \<longleftrightarrow> (\<forall>(c, d, i) \<in> set heap. i < n)"

lemma valid_entries_simps [simp]:
  "valid_entries [] n" "valid_entries ((c, d, i) # heap) n \<longleftrightarrow> i < n \<and> valid_entries heap n"
  by (simp_all add: valid_entries_def)

definition artifacts_sim :: "run_store \<Rightarrow> artifact_state list \<Rightarrow> int \<Rightarrow> bool" where
  "artifacts_sim s as artifact_bytes \<longleftrightarrow>
     distinct (map ax_artifact_id as) \<and> distinct (artifact_ids s)
     \<and> artifact_key ` {a \<in> set as. \<not> ax_removed a} = row_key ` set (at_artifacts (st_artifacts s))
     \<and> (\<forall>i < length as. ax_remaining_references (as ! i) = refs_to s (ax_artifact_id (as ! i)))
     \<and> artifact_bytes = sum_list (artifact_sizes s) \<and> (\<forall>n \<in> set (artifact_sizes s). 0 \<le> n)
     \<and> artifact_bytes \<le> I64_MAX"

definition runs_sim :: "run_store \<Rightarrow> (int \<times> nat) list \<Rightarrow> artifact_state list \<Rightarrow> terminal_state_row list \<Rightarrow> bool" where
  "runs_sim s run_artifacts as ts \<longleftrightarrow>
     distinct (map tx_scan_run_id ts) \<and> distinct (run_ids s)
     \<and> terminal_key ` {t \<in> set ts. \<not> tx_removed t} = run_key ` {r \<in> set (st_runs s). collectable r}
     \<and> (\<forall>(r, i) \<in> set run_artifacts. i < length as)
     \<and> (\<forall>t \<in> set ts. \<not> tx_removed t \<longrightarrow>
          mset (map (\<lambda>i. ax_artifact_id (as ! i)) (artifacts_of_run run_artifacts (tx_scan_run_id t))) = mset (refs_from s (tx_scan_run_id t)))"

definition room_sim :: "run_store \<Rightarrow> (int \<times> nat) list \<Rightarrow> room_state \<Rightarrow> bool" where
  "room_sim s run_artifacts m \<longleftrightarrow> artifacts_sim s (rm_artifacts m) (rm_bytes m)
     \<and> runs_sim s run_artifacts (rm_artifacts m) (rm_passed m @ rm_runs m)
     \<and> (valid_entries (rm_heap m) (length (rm_artifacts m)))"

lemma sum_list_filter_out:
  fixes g :: "'a \<Rightarrow> int"
  assumes "distinct (map f xs)" "y \<in> set xs"
  shows "sum_list (map g (filter (\<lambda>x. f x \<noteq> f y) xs)) = sum_list (map g xs) - g y"
  using assms
proof (induction xs)
  case (Cons x xs)
  show ?case
  proof (cases "x = y")
    case True
    have "f z \<noteq> f y" if "z \<in> set xs" for z
    proof
      assume "f z = f y"
      then have "f y \<in> f ` set xs" using that by (metis imageI)
      then show False using Cons.prems(1) True by simp
    qed
    then have "filter (\<lambda>x. f x \<noteq> f y) xs = xs" by (simp add: filter_id_conv)
    then show ?thesis using True by simp
  next
    case False
    then show ?thesis using Cons by auto
  qed
qed simp

lemma unremoved_update:
  assumes "distinct (map ax_artifact_id as)" "i < length as" "ax_removed b"
  shows "{a \<in> set (as[i := b]). \<not> ax_removed a} = {a \<in> set as. \<not> ax_removed a \<and> ax_artifact_id a \<noteq> ax_artifact_id (as ! i)}"
proof (intro set_eqI iffI)
  have other: "ax_artifact_id (as ! j) = ax_artifact_id (as ! i) \<longleftrightarrow> j = i" if "j < length as" for j
    using assms(1,2) that by (metis length_map nth_eq_iff_index_eq nth_map)
  fix a
  {
    assume "a \<in> {a \<in> set (as[i := b]). \<not> ax_removed a}"
    then obtain j where j: "j < length as" "a = as[i := b] ! j" "\<not> ax_removed a" by (auto simp: in_set_conv_nth)
    then have "j \<noteq> i" using assms(3) by auto
    then show "a \<in> {a \<in> set as. \<not> ax_removed a \<and> ax_artifact_id a \<noteq> ax_artifact_id (as ! i)}"
      using j other [OF j(1)] by simp
  next
    assume "a \<in> {a \<in> set as. \<not> ax_removed a \<and> ax_artifact_id a \<noteq> ax_artifact_id (as ! i)}"
    then obtain j where j: "j < length as" "a = as ! j" "\<not> ax_removed a" "j \<noteq> i" by (auto simp: in_set_conv_nth)
    then have "a = as[i := b] ! j" by simp
    then show "a \<in> {a \<in> set (as[i := b]). \<not> ax_removed a}"
      using j by (auto simp: in_set_conv_nth intro!: exI [of _ j])
  }
qed

lemma image_drop_key:
  assumes "\<And>x. fst (f x) = g x"
  shows "f ` {x \<in> A. P x \<and> g x \<noteq> c} = {k \<in> f ` {x \<in> A. P x}. fst k \<noteq> c}"
  using assms by auto

text \<open>Deleting an artifact nobody refers to.\<close>

lemma artifacts_sim_orphan:
  assumes sim: "artifacts_sim s as b" and i: "i < length as" and alive: "\<not> ax_removed (as ! i)"
    and free: "ax_remaining_references (as ! i) = 0"
  shows "artifacts_sim (delete_artifacts (\<lambda>j. j = ax_artifact_id (as ! i)) s) (as[i := (as ! i)\<lparr>ax_removed := True\<rparr>])
           (i64_saturating_sub b (ax_artifact_size_bytes (as ! i)))"
    and "ax_artifact_id (as ! i) \<in> set (artifact_ids s)" and "\<not> referenced s (ax_artifact_id (as ! i))"
proof -
  let ?x = "ax_artifact_id (as ! i)" let ?as = "as[i := (as ! i)\<lparr>ax_removed := True\<rparr>]"
  let ?s = "delete_artifacts (\<lambda>j. j = ?x) s"
  have "artifact_key (as ! i) \<in> row_key ` set (at_artifacts (st_artifacts s))"
    using sim i alive unfolding artifacts_sim_def by (metis (mono_tags, lifting) imageI mem_Collect_eq nth_mem)
  then obtain a where a: "a \<in> set (at_artifacts (st_artifacts s))" "fa_artifact_id a = ?x"
      "fa_artifact_size_bytes a = ax_artifact_size_bytes (as ! i)"
    by (auto simp: artifact_key_def row_key_def)
  show "?x \<in> set (artifact_ids s)" unfolding artifact_ids_def a(2) [symmetric] using a(1) by simp
  have "refs_to s ?x = 0" using sim i free by (simp add: artifacts_sim_def)
  then show "\<not> referenced s ?x" by (force simp: referenced_iff refs_to_def filter_empty_conv)
  have sum: "sum_list (artifact_sizes ?s) = sum_list (artifact_sizes s) - ax_artifact_size_bytes (as ! i)"
    using sum_list_filter_out [of fa_artifact_id "at_artifacts (st_artifacts s)" a fa_artifact_size_bytes] a sim
    by (simp add: artifact_sizes_def artifact_ids_def artifacts_sim_def)
  have sub: "set (artifact_sizes ?s) \<subseteq> set (artifact_sizes s)" by (auto simp: artifact_sizes_def)
  have nonneg: "0 \<le> sum_list (artifact_sizes ?s)"
    using sub sim by (intro sum_list_nonneg) (auto simp: artifacts_sim_def)
  have size: "0 \<le> ax_artifact_size_bytes (as ! i)"
    using a sim by (force simp: artifacts_sim_def artifact_sizes_def)
  have bytes: "i64_saturating_sub b (ax_artifact_size_bytes (as ! i)) = sum_list (artifact_sizes ?s)"
    using sim nonneg size i64_clamp_id [of "sum_list (artifact_sizes ?s)"]
    by (auto simp: i64_saturating_sub_def artifacts_sim_def sum I64_MIN_def)
  have refs: "ax_remaining_references (?as ! j) = refs_to ?s (ax_artifact_id (?as ! j))" if "j < length ?as" for j
    using sim that by (cases "j = i") (auto simp: artifacts_sim_def refs_to_def)
  have keys: "artifact_key ` {a \<in> set ?as. \<not> ax_removed a} = row_key ` set (at_artifacts (st_artifacts ?s))"
  proof -
    have "artifact_key ` {a \<in> set as. \<not> ax_removed a \<and> ax_artifact_id a \<noteq> ?x}
        = {k \<in> artifact_key ` {a \<in> set as. \<not> ax_removed a}. fst k \<noteq> ?x}"
      by (rule image_drop_key) (simp add: artifact_key_def)
    also have "\<dots> = {k \<in> row_key ` set (at_artifacts (st_artifacts s)). fst k \<noteq> ?x}"
      using sim by (simp add: artifacts_sim_def)
    also have "\<dots> = row_key ` {a \<in> set (at_artifacts (st_artifacts s)). True \<and> fa_artifact_id a \<noteq> ?x}"
      by (subst image_drop_key) (simp_all add: row_key_def)
    also have "\<dots> = row_key ` set (at_artifacts (st_artifacts ?s))" by simp
    finally show ?thesis
      using unremoved_update [of as i "(as ! i)\<lparr>ax_removed := True\<rparr>"] sim i by (simp add: artifacts_sim_def)
  qed
  have ids: "map ax_artifact_id ?as = map ax_artifact_id as"
    using i by (simp add: map_update list_update_same_conv)
  show "artifacts_sim ?s ?as (i64_saturating_sub b (ax_artifact_size_bytes (as ! i)))"
    unfolding artifacts_sim_def ids bytes
  proof (intro conjI)
    show "distinct (map ax_artifact_id as)" using sim by (simp add: artifacts_sim_def)
    show "\<forall>n \<in> set (artifact_sizes ?s). 0 \<le> n"
      using sim sub unfolding artifacts_sim_def by blast
    show "distinct (artifact_ids ?s)"
      using sim by (simp add: artifacts_sim_def artifact_ids_def distinct_map_filter)
    show "sum_list (artifact_sizes ?s) \<le> I64_MAX" using sim size sum by (simp add: artifacts_sim_def)
  qed (use keys refs in auto)
qed

lemma runs_sim_orphan:
  assumes "runs_sim s ra as ts" and "i < length as"
  shows "runs_sim (delete_artifacts gone s) ra (as[i := (as ! i)\<lparr>ax_removed := True\<rparr>]) ts"
proof -
  have "ax_artifact_id (as[i := (as ! i)\<lparr>ax_removed := True\<rparr>] ! j) = ax_artifact_id (as ! j)" for j
    using assms(2) by (cases "j = i") auto
  then show ?thesis using assms(1) by (simp add: runs_sim_def run_ids_def refs_from_def)
qed

lemma delete_artifacts_Cons:
  "delete_artifacts (\<lambda>j. j \<in> set new) (delete_artifacts (\<lambda>j. j = x) s) = delete_artifacts (\<lambda>j. j \<in> set (x # new)) s"
  by (simp add: delete_artifacts_comp)

lemma select_orphan_sim:
  assumes "select_orphan_artifact_batch pa heap as b batch = (batch', as', heap', b')"
    and "artifacts_sim s as b" "runs_sim s ra as ts" "valid_entries heap (length as)"
  shows "\<exists>new. batch' = batch @ new \<and> artifacts_sim (delete_artifacts (\<lambda>j. j \<in> set new) s) as' b'
     \<and> runs_sim (delete_artifacts (\<lambda>j. j \<in> set new) s) ra as' ts \<and> valid_entries heap' (length as')
     \<and> distinct new \<and> (\<forall>x \<in> set new. x \<in> set (artifact_ids s) \<and> \<not> referenced s x \<and> x \<notin> pa)
     \<and> (length batch \<le> RETENTION_DELETE_BATCH_SIZE \<longrightarrow> length batch' \<le> RETENTION_DELETE_BATCH_SIZE)"
  using assms
proof (induction pa heap as b batch arbitrary: s rule: select_orphan_artifact_batch.induct)
  case (1 pa as b batch)
  then show ?case by (intro exI [of _ "[]"]) auto
next
  case (2 pa c d i heap as b batch)
  show ?case
  proof (cases "RETENTION_DELETE_BATCH_SIZE \<le> length batch")
    case True
    then show ?thesis using "2.prems" by (intro exI [of _ "[]"]) auto
  next
    case room: False
    show ?thesis
    proof (cases "ax_removed (as ! i) \<or> ax_remaining_references (as ! i) \<noteq> 0 \<or> ax_artifact_id (as ! i) \<in> pa")
      case True
      then show ?thesis using "2.IH"(1) [OF room True _ "2.prems"(2,3)] "2.prems" room by simp
    next
      case False
      let ?x = "ax_artifact_id (as ! i)" let ?s = "delete_artifacts (\<lambda>j. j = ?x) s"
      have i: "i < length as" using "2.prems"(4) by auto
      note orphan = artifacts_sim_orphan [OF "2.prems"(2) i]
      have alive: "\<not> ax_removed (as ! i)" "ax_remaining_references (as ! i) = 0" "?x \<notin> pa" using False by auto
      obtain new where new: "batch' = (batch @ [?x]) @ new"
          "artifacts_sim (delete_artifacts (\<lambda>j. j \<in> set new) ?s) as' b'"
          "runs_sim (delete_artifacts (\<lambda>j. j \<in> set new) ?s) ra as' ts" "valid_entries heap' (length as')"
          "distinct new" "\<forall>x \<in> set new. x \<in> set (artifact_ids ?s) \<and> \<not> referenced ?s x \<and> x \<notin> pa"
          "length (batch @ [?x]) \<le> RETENTION_DELETE_BATCH_SIZE \<longrightarrow> length batch' \<le> RETENTION_DELETE_BATCH_SIZE"
        using "2.IH"(2) [OF room False _ orphan(1) [OF alive(1,2)] runs_sim_orphan [OF "2.prems"(3) i]] "2.prems"(1,4) room False
        by (auto simp: i)
      have fresh: "?x \<notin> set new" "set new \<subseteq> set (artifact_ids s)"
        using new(6) by (auto simp: artifact_ids_def)
      show ?thesis
        using new fresh alive orphan(2,3) [OF alive(1,2)] room
        unfolding delete_artifacts_Cons by (intro exI [of _ "?x # new"]) auto
    qed
  qed
qed

text \<open>Deleting a run: the references of its context go.\<close>

definition drop_references :: "nat list \<Rightarrow> nat \<Rightarrow> artifact_state \<Rightarrow> artifact_state" where
  "drop_references ks i a = a\<lparr>ax_remaining_references := ax_remaining_references a - count_list ks i\<rparr>"

lemma release_reference_Ok:
  assumes "release_reference pa i m = Ok m1" and i: "i < length (rm_artifacts m)"
  shows "rm_artifacts m1 = (rm_artifacts m)[i := drop_references [i] i (rm_artifacts m ! i)]" "rm_bytes m1 = rm_bytes m"
    "valid_entries (rm_heap m) (length (rm_artifacts m)) \<Longrightarrow> valid_entries (rm_heap m1) (length (rm_artifacts m))"
proof -
  define b where "b \<longleftrightarrow> ax_remaining_references (rm_artifacts m ! i) - 1 = 0 \<and> \<not> ax_removed (rm_artifacts m ! i)
      \<and> ax_artifact_id (rm_artifacts m ! i) \<notin> pa"
  define a where "a = drop_references [i] i (rm_artifacts m ! i)"
  define e where "e = heap_entry ((rm_artifacts m)[i := a]) i"
  have m1: "m1 = (if b then m\<lparr>rm_artifacts := (rm_artifacts m)[i := a], rm_heap := insort e (rm_heap m)\<rparr>
      else m\<lparr>rm_artifacts := (rm_artifacts m)[i := a]\<rparr>)"
    using assms(1) unfolding release_reference_def Let_def b_def e_def a_def drop_references_def
    by (simp split: if_splits) blast
  show "rm_artifacts m1 = (rm_artifacts m)[i := drop_references [i] i (rm_artifacts m ! i)]" "rm_bytes m1 = rm_bytes m"
    unfolding a_def [symmetric] by (simp_all add: m1)
  have "set (insort e (rm_heap m)) = insert e (set (rm_heap m))" by (rule set_insort_key)
  then have "valid_entries (insort e (rm_heap m)) n" if "valid_entries (rm_heap m) n" "i < n" for n
    using that by (simp add: valid_entries_def e_def heap_entry_def)
  then show "valid_entries (rm_heap m) (length (rm_artifacts m)) \<Longrightarrow> valid_entries (rm_heap m1) (length (rm_artifacts m))"
    using i by (simp add: m1)
qed

lemma release_references_Ok:
  assumes "release_references pa ks m = Ok m'" "\<forall>i \<in> set ks. i < length (rm_artifacts m)"
  shows "length (rm_artifacts m') = length (rm_artifacts m)"
    and "\<forall>i < length (rm_artifacts m). rm_artifacts m' ! i = drop_references ks i (rm_artifacts m ! i)"
    and "rm_bytes m' = rm_bytes m"
    and "valid_entries (rm_heap m) (length (rm_artifacts m)) \<Longrightarrow> valid_entries (rm_heap m') (length (rm_artifacts m))"
proof -
  have "length (rm_artifacts m') = length (rm_artifacts m)
     \<and> (\<forall>i < length (rm_artifacts m). rm_artifacts m' ! i = drop_references ks i (rm_artifacts m ! i))
     \<and> rm_bytes m' = rm_bytes m
     \<and> (valid_entries (rm_heap m) (length (rm_artifacts m)) \<longrightarrow> valid_entries (rm_heap m') (length (rm_artifacts m)))"
    using assms
  proof (induction ks arbitrary: m)
    case Nil
    then show ?case by (simp add: drop_references_def)
  next
    case (Cons i ks)
    from Cons.prems(1) obtain m1 where one: "release_reference pa i m = Ok m1" and rest: "release_references pa ks m1 = Ok m'"
      by auto
    have i: "i < length (rm_artifacts m)" using Cons.prems(2) by simp
    note step = release_reference_Ok [OF one i]
    have len: "length (rm_artifacts m1) = length (rm_artifacts m)" by (simp add: step(1))
    have IH: "length (rm_artifacts m') = length (rm_artifacts m)"
      "\<forall>j < length (rm_artifacts m). rm_artifacts m' ! j = drop_references ks j (rm_artifacts m1 ! j)"
      "rm_bytes m' = rm_bytes m1"
      "valid_entries (rm_heap m1) (length (rm_artifacts m)) \<longrightarrow> valid_entries (rm_heap m') (length (rm_artifacts m))"
      using Cons.IH [OF rest] Cons.prems(2) unfolding len by simp_all
    have "rm_artifacts m' ! j = drop_references (i # ks) j (rm_artifacts m ! j)" if "j < length (rm_artifacts m)" for j
    proof (cases "j = i")
      case True
      then show ?thesis using IH(2) that by (simp add: step(1) drop_references_def)
    next
      case False
      then show ?thesis using IH(2) that by (simp add: step(1) drop_references_def)
    qed
    then show ?case using IH step(2,3) by simp
  qed
  then show "length (rm_artifacts m') = length (rm_artifacts m)"
    and "\<forall>i < length (rm_artifacts m). rm_artifacts m' ! i = drop_references ks i (rm_artifacts m ! i)"
    and "rm_bytes m' = rm_bytes m"
    and "valid_entries (rm_heap m) (length (rm_artifacts m)) \<Longrightarrow> valid_entries (rm_heap m') (length (rm_artifacts m))"
    by blast+
qed

lemma count_list_map_inj:
  "inj_on f (insert x (set xs)) \<Longrightarrow> count_list (map f xs) (f x) = count_list xs x"
proof (induction xs)
  case (Cons y xs)
  have "f y = f x \<longleftrightarrow> y = x" using inj_on_eq_iff [OF Cons.prems, of y x] by simp
  moreover have "inj_on f (insert x (set xs))" using Cons.prems by (rule inj_on_subset) auto
  ultimately show ?case using Cons.IH by simp
qed simp

lemma length_filter_snd: "length (filter (\<lambda>(_, b). b = a) xs) = count_list (map snd xs) a"
  by (induction xs) auto

lemma count_split: "count_list (map snd xs) a
    = count_list (map snd (filter (\<lambda>(q, _). q = r) xs)) a + count_list (map snd (filter (\<lambda>(q, _). q \<noteq> r) xs)) a"
  by (induction xs) auto

lemma refs_to_delete_run:
  "refs_to (delete_runs (\<lambda>j. j = r) s) a = refs_to s a - count_list (refs_from s r) a"
  using count_split [of "context_refs s" a r]
  by (simp add: refs_to_def refs_from_def length_filter_snd del: filter_filter)

lemma refs_from_delete_run:
  "q \<noteq> r \<Longrightarrow> refs_from (delete_runs (\<lambda>j. j = r) s) q = refs_from s q"
  by (simp add: refs_from_def) (metis (mono_tags, lifting) case_prod_unfold filter_cong)

lemma image_pointwise:
  "list_all2 (\<lambda>y x. f y = f x \<and> P y = P x) ys xs \<Longrightarrow> f ` {a \<in> set ys. P a} = f ` {a \<in> set xs. P a}"
proof (induction rule: list_all2_induct)
  case (Cons y ys x xs)
  have "f ` {a \<in> set (z # zs). P a} = (if P z then {f z} else {}) \<union> f ` {a \<in> set zs. P a}" for z zs by auto
  then show ?case using Cons by simp
qed simp

lemma artifacts_sim_run:
  assumes sim: "artifacts_sim s as b" and len: "length as' = length as"
    and drop: "\<forall>i < length as. as' ! i = drop_references ks i (as ! i)"
    and ks: "\<forall>i \<in> set ks. i < length as" "mset (map (\<lambda>i. ax_artifact_id (as ! i)) ks) = mset (refs_from s r)"
  shows "artifacts_sim (delete_runs (\<lambda>j. j = r) s) as' b"
proof -
  have ids: "map ax_artifact_id as' = map ax_artifact_id as"
    using len drop by (auto intro!: nth_equalityI simp: drop_references_def)
  have inj: "inj_on (\<lambda>i. ax_artifact_id (as ! i)) {..<length as}"
  proof (rule inj_onI)
    fix i j assume ij: "i \<in> {..<length as}" "j \<in> {..<length as}" "ax_artifact_id (as ! i) = ax_artifact_id (as ! j)"
    have "distinct (map ax_artifact_id as)" using sim by (simp add: artifacts_sim_def)
    then show "i = j" using ij by (metis lessThan_iff length_map nth_eq_iff_index_eq nth_map)
  qed
  have refs: "ax_remaining_references (as' ! i) = refs_to (delete_runs (\<lambda>j. j = r) s) (ax_artifact_id (as' ! i))"
    if i: "i < length as'" for i
  proof -
    have "insert i (set ks) \<subseteq> {..<length as}" using ks(1) i len by auto
    then have "count_list (map (\<lambda>i. ax_artifact_id (as ! i)) ks) (ax_artifact_id (as ! i)) = count_list ks i"
      by (rule count_list_map_inj [OF inj_on_subset [OF inj]])
    moreover have "count_list (map (\<lambda>i. ax_artifact_id (as ! i)) ks) x = count_list (refs_from s r) x" for x
      using ks(2) by (metis count_mset)
    ultimately show ?thesis
      using sim drop i len by (simp add: drop_references_def refs_to_delete_run artifacts_sim_def)
  qed
  have keys: "artifact_key ` {a \<in> set as'. \<not> ax_removed a} = artifact_key ` {a \<in> set as. \<not> ax_removed a}"
    by (rule image_pointwise) (simp add: list_all2_conv_all_nth len drop drop_references_def artifact_key_def)
  show ?thesis
    using sim refs unfolding artifacts_sim_def ids keys
    by (simp add: artifact_ids_def artifact_sizes_def)
qed

lemma runs_sim_run:
  assumes sim: "runs_sim s ra as (ts1 @ t # ts2)" and t: "\<not> tx_removed t" "tx_scan_run_id t = r"
    and as': "length as' = length as" "\<forall>i < length as. ax_artifact_id (as' ! i) = ax_artifact_id (as ! i)"
  shows "runs_sim (delete_runs (\<lambda>j. j = r) s) ra as' (ts1 @ t\<lparr>tx_removed := True\<rparr> # ts2)"
    and "\<exists>row \<in> set (st_runs s). nr_scan_run_id row = r \<and> collectable row"
proof -
  let ?ts = "ts1 @ t # ts2" let ?ts' = "ts1 @ t\<lparr>tx_removed := True\<rparr> # ts2"
  have keys: "terminal_key ` {u \<in> set ?ts. \<not> tx_removed u} = run_key ` {q \<in> set (st_runs s). collectable q}"
    using sim by (simp add: runs_sim_def)
  have "terminal_key t \<in> terminal_key ` {u \<in> set ?ts. \<not> tx_removed u}" using t by simp
  then have "terminal_key t \<in> run_key ` {q \<in> set (st_runs s). collectable q}" unfolding keys .
  then show "\<exists>row \<in> set (st_runs s). nr_scan_run_id row = r \<and> collectable row"
    using t(2) by (auto simp: terminal_key_def run_key_def)
  have others: "{u \<in> set ?ts'. \<not> tx_removed u} = {u \<in> set ?ts. \<not> tx_removed u \<and> tx_scan_run_id u \<noteq> r}"
  proof -
    have "tx_scan_run_id u \<noteq> r" if "u \<in> set ts1 \<union> set ts2" for u
    proof
      assume "tx_scan_run_id u = r"
      then have "r \<in> tx_scan_run_id ` (set ts1 \<union> set ts2)" using that by (metis imageI)
      then show False using sim t(2) by (auto simp: runs_sim_def)
    qed
    then show ?thesis using t by auto
  qed
  have "terminal_key ` {u \<in> set ?ts'. \<not> tx_removed u} = {k \<in> terminal_key ` {u \<in> set ?ts. \<not> tx_removed u}. fst k \<noteq> r}"
    unfolding others by (rule image_drop_key) (simp add: terminal_key_def)
  also have "\<dots> = run_key ` {q \<in> set (st_runs s). collectable q \<and> nr_scan_run_id q \<noteq> r}"
    unfolding keys by (subst image_drop_key [where g = nr_scan_run_id]) (simp_all add: run_key_def)
  also have "{q \<in> set (st_runs s). collectable q \<and> nr_scan_run_id q \<noteq> r}
      = {q \<in> set (st_runs (delete_runs (\<lambda>j. j = r) s)). collectable q}" by auto
  finally have new_keys: "terminal_key ` {u \<in> set ?ts'. \<not> tx_removed u}
      = run_key ` {q \<in> set (st_runs (delete_runs (\<lambda>j. j = r) s)). collectable q}" .
  have ids: "map tx_scan_run_id ?ts' = map tx_scan_run_id ?ts" by simp
  have refs: "mset (map (\<lambda>i. ax_artifact_id (as' ! i)) (artifacts_of_run ra (tx_scan_run_id u)))
        = mset (refs_from (delete_runs (\<lambda>j. j = r) s) (tx_scan_run_id u))"
    if u: "u \<in> set ?ts'" "\<not> tx_removed u" for u
  proof -
    have "u \<in> {u \<in> set ?ts. \<not> tx_removed u \<and> tx_scan_run_id u \<noteq> r}" using u unfolding others [symmetric] by simp
    then have u': "u \<in> set ?ts" "\<not> tx_removed u" "tx_scan_run_id u \<noteq> r" by auto
    have "i < length as" if "i \<in> set (artifacts_of_run ra q)" for i q
      using that sim by (auto simp: artifacts_of_run_def runs_sim_def)
    then have "map (\<lambda>i. ax_artifact_id (as' ! i)) (artifacts_of_run ra (tx_scan_run_id u))
        = map (\<lambda>i. ax_artifact_id (as ! i)) (artifacts_of_run ra (tx_scan_run_id u))"
      using as'(2) by simp
    moreover have "mset (map (\<lambda>i. ax_artifact_id (as ! i)) (artifacts_of_run ra (tx_scan_run_id u))) = mset (refs_from s (tx_scan_run_id u))"
      using sim u'(1,2) unfolding runs_sim_def by blast
    ultimately show ?thesis by (simp only: refs_from_delete_run [OF u'(3)])
  qed
  show "runs_sim (delete_runs (\<lambda>j. j = r) s) ra as' ?ts'"
    unfolding runs_sim_def ids
  proof (intro conjI)
    show "distinct (map tx_scan_run_id ?ts)" using sim by (simp add: runs_sim_def)
    show "distinct (run_ids (delete_runs (\<lambda>j. j = r) s))"
      using sim by (simp add: runs_sim_def run_ids_def distinct_map_filter)
    show "\<forall>(r, i) \<in> set ra. i < length as'" using sim as'(1) by (simp add: runs_sim_def)
  qed (use new_keys refs in blast)+
qed

lemma delete_runs_Cons:
  "delete_runs (\<lambda>j. j \<in> set new) (delete_runs (\<lambda>j. j = x) s) = delete_runs (\<lambda>j. j \<in> set (x # new)) s"
  by (simp add: delete_runs_comp)

lemma room_sim_take:
  assumes sim: "room_sim s ra m" and runs: "rm_runs m = t # rs" and t: "\<not> tx_removed t"
    and rel: "release_references pa (artifacts_of_run ra (tx_scan_run_id t)) (pass_run (t\<lparr>tx_removed := True\<rparr>) m) = Ok m1"
  shows "room_sim (delete_runs (\<lambda>j. j = tx_scan_run_id t) s) ra m1"
    and "\<exists>row \<in> set (st_runs s). nr_scan_run_id row = tx_scan_run_id t \<and> collectable row"
proof -
  let ?ks = "artifacts_of_run ra (tx_scan_run_id t)" let ?m = "pass_run (t\<lparr>tx_removed := True\<rparr>) m"
  have as: "rm_artifacts ?m = rm_artifacts m" "rm_heap ?m = rm_heap m" "rm_bytes ?m = rm_bytes m"
    "rm_passed ?m = rm_passed m @ [t\<lparr>tx_removed := True\<rparr>]" "rm_runs ?m = rs"
    by (simp_all add: pass_run_def runs)
  have parts: "artifacts_sim s (rm_artifacts m) (rm_bytes m)" "runs_sim s ra (rm_artifacts m) (rm_passed m @ t # rs)"
    "valid_entries (rm_heap m) (length (rm_artifacts m))"
    using sim by (simp_all add: room_sim_def runs)
  have ks: "\<forall>i \<in> set ?ks. i < length (rm_artifacts m)"
    using parts(2) by (auto simp: runs_sim_def artifacts_of_run_def)
  note released = release_references_Ok [OF rel, unfolded as, OF ks]
  have runs1: "rm_runs m1 = rs" "rm_passed m1 = rm_passed m @ [t\<lparr>tx_removed := True\<rparr>]"
    using release_references_runs [OF rel] as by simp_all
  have refs: "mset (map (\<lambda>i. ax_artifact_id (rm_artifacts m ! i)) ?ks) = mset (refs_from s (tx_scan_run_id t))"
    using parts(2) t by (simp add: runs_sim_def)
  have ids: "\<forall>i < length (rm_artifacts m). ax_artifact_id (rm_artifacts m1 ! i) = ax_artifact_id (rm_artifacts m ! i)"
    using released(2) by (simp add: drop_references_def)
  show "\<exists>row \<in> set (st_runs s). nr_scan_run_id row = tx_scan_run_id t \<and> collectable row"
    by (rule runs_sim_run(2) [OF parts(2) t refl released(1) ids])
  show "room_sim (delete_runs (\<lambda>j. j = tx_scan_run_id t) s) ra m1"
    unfolding room_sim_def runs1 released(3)
    using artifacts_sim_run [OF parts(1) released(1,2) ks refs] runs_sim_run(1) [OF parts(2) t refl released(1) ids]
      released(4) [OF parts(3)] released(1) by simp
qed

lemma select_run_sim:
  assumes "select_run_batch pr pa ra m batch = Ok (batch', m')" and "room_sim s ra m"
  shows "\<exists>new. batch' = batch @ new \<and> room_sim (delete_runs (\<lambda>j. j \<in> set new) s) ra m' \<and> distinct new
     \<and> (\<forall>i \<in> set new. i \<notin> pr \<and> (\<exists>r \<in> set (st_runs s). nr_scan_run_id r = i \<and> collectable r))
     \<and> (length batch \<le> RETENTION_DELETE_BATCH_SIZE \<longrightarrow> length batch' \<le> RETENTION_DELETE_BATCH_SIZE)"
  using assms
proof (induction "length (rm_runs m)" arbitrary: m batch s rule: less_induct)
  case less
  from less.prems(1) show ?case
  proof (cases rule: select_run_batch_cases)
    case stop
    then show ?thesis using less.prems by (intro exI [of _ "[]"]) simp
  next
    case (skip r rs)
    have "room_sim s ra (pass_run r m)" using less.prems(2) skip(1) by (simp add: room_sim_def pass_run_def)
    then show ?thesis using less.hyps [of "pass_run r m" batch s] skip by (simp add: pass_run_def)
  next
    case (take r rs m1)
    let ?x = "tx_scan_run_id r" let ?s = "delete_runs (\<lambda>j. j = ?x) s"
    note taken = room_sim_take [OF less.prems(2) take(1,2,5)]
    have shorter: "length (rm_runs m1) < length (rm_runs m)"
      using release_references_runs [OF take(5)] take(1) by (simp add: pass_run_def)
    obtain new where new: "batch' = (batch @ [?x]) @ new" "room_sim (delete_runs (\<lambda>j. j \<in> set new) ?s) ra m'" "distinct new"
        "\<forall>i \<in> set new. i \<notin> pr \<and> (\<exists>r \<in> set (st_runs ?s). nr_scan_run_id r = i \<and> collectable r)"
        "length (batch @ [?x]) \<le> RETENTION_DELETE_BATCH_SIZE \<longrightarrow> length batch' \<le> RETENTION_DELETE_BATCH_SIZE"
      using less.hyps [OF shorter take(6) taken(1)] by blast
    have "?x \<notin> set new" "\<forall>i \<in> set new. \<exists>r \<in> set (st_runs s). nr_scan_run_id r = i \<and> collectable r"
      using new(4) by auto
    then show ?thesis
      using new taken(2) take(3,4) unfolding delete_runs_Cons by (intro exI [of _ "?x # new"]) simp
  qed
qed

section \<open>Making room\<close>

text \<open>What a retention may do to the tables: it removes runs that are over and not protected, with all that
  is theirs, and artifacts that nobody refers to afterwards.\<close>

definition retention_step :: "int set \<Rightarrow> int set \<Rightarrow> run_store \<Rightarrow> run_store \<Rightarrow> bool" where
  "retention_step pr pa s s' \<longleftrightarrow> (\<exists>gone agone. s' = delete_artifacts agone (delete_runs gone s)
     \<and> (\<forall>i. gone i \<longrightarrow> i \<notin> pr \<and> (\<exists>r \<in> set (st_runs s). nr_scan_run_id r = i \<and> collectable r))
     \<and> (\<forall>a. agone a \<longrightarrow> a \<notin> pa \<and> \<not> referenced s' a))"

lemma retention_step_refl: "retention_step pr pa s s"
  unfolding retention_step_def by (intro exI [of _ "\<lambda>_. False"]) simp

lemma referenced_delete_runs: "referenced (delete_runs gone s) a \<Longrightarrow> referenced s a"
  by (auto simp: referenced_iff)

lemma retention_step_trans:
  assumes "retention_step pr pa s t" "retention_step pr pa t u"
  shows "retention_step pr pa s u"
proof -
  obtain g1 a1 where one: "t = delete_artifacts a1 (delete_runs g1 s)"
      "\<forall>i. g1 i \<longrightarrow> i \<notin> pr \<and> (\<exists>r \<in> set (st_runs s). nr_scan_run_id r = i \<and> collectable r)"
      "\<forall>a. a1 a \<longrightarrow> a \<notin> pa \<and> \<not> referenced t a"
    using assms(1) unfolding retention_step_def by auto
  obtain g2 a2 where two: "u = delete_artifacts a2 (delete_runs g2 t)"
      "\<forall>i. g2 i \<longrightarrow> i \<notin> pr \<and> (\<exists>r \<in> set (st_runs t). nr_scan_run_id r = i \<and> collectable r)"
      "\<forall>a. a2 a \<longrightarrow> a \<notin> pa \<and> \<not> referenced u a"
    using assms(2) unfolding retention_step_def by auto
  have u: "u = delete_artifacts (\<lambda>i. a1 i \<or> a2 i) (delete_runs (\<lambda>i. g1 i \<or> g2 i) s)"
    unfolding two(1) one(1) by (simp add: delete_runs_artifacts delete_artifacts_comp delete_runs_comp)
  have "referenced t a" if "referenced u a" for a
    using that unfolding two(1) by (auto dest: referenced_delete_runs)
  moreover have "\<exists>r \<in> set (st_runs s). nr_scan_run_id r = i \<and> collectable r" if "g2 i" for i
    using two(2) that one(1) by auto
  ultimately show ?thesis
    unfolding retention_step_def using u one(2,3) two(2,3)
    by (intro exI [of _ "\<lambda>i. g1 i \<or> g2 i"] exI [of _ "\<lambda>i. a1 i \<or> a2 i"]) blast
qed

lemma retention_step_runs:
  "\<forall>i \<in> set ids. i \<notin> pr \<and> (\<exists>r \<in> set (st_runs s). nr_scan_run_id r = i \<and> collectable r) \<Longrightarrow>
     retention_step pr pa s (delete_runs (\<lambda>i. i \<in> set ids) s)"
  unfolding retention_step_def by (intro exI [of _ "\<lambda>i. i \<in> set ids"] exI [of _ "\<lambda>_. False"]) simp

lemma retention_step_orphans:
  "\<forall>x \<in> set ids. x \<in> A \<and> \<not> referenced s x \<and> x \<notin> pa \<Longrightarrow> retention_step pr pa s (delete_artifacts (\<lambda>i. i \<in> set ids) s)"
  unfolding retention_step_def by (intro exI [of _ "\<lambda>_. False"] exI [of _ "\<lambda>i. i \<in> set ids"]) simp

lemma room_sim_distinct:
  "room_sim s ra m \<Longrightarrow> distinct (run_ids s) \<and> distinct (artifact_ids s)"
  by (simp add: room_sim_def artifacts_sim_def runs_sim_def)

lemma make_room_sim:
  assumes "make_room pr pa ra n m room = Ok (room', m')" and "room_sim s ra m"
  shows "\<exists>ds s'. room' = room @ ds \<and> apply_artifact_room ds pr pa s = Ok s' \<and> room_sim s' ra m'
     \<and> retention_step pr pa s s' \<and> i64_saturating_add (rm_bytes m') n \<le> CONTEXT_ARTIFACTS_MAX_BYTES"
  using assms
proof (induction pr pa ra n m room arbitrary: s rule: make_room.induct)
  case (1 pr pa ra n m room)
  note eq = "1.prems"(1) [unfolded make_room.simps [of pr pa ra n m room]]
  show ?case
  proof (cases "i64_saturating_add (rm_bytes m) n \<le> CONTEXT_ARTIFACTS_MAX_BYTES")
    case True
    then show ?thesis using eq "1.prems"(2) retention_step_refl by (intro exI [of _ "[]"] exI [of _ s]) auto
  next
    case over: False
    obtain orphans as heap b where sel: "select_orphan_artifact_batch pa (rm_heap m) (rm_artifacts m) (rm_bytes m) []
        = (orphans, as, heap, b)" by (metis prod_cases4)
    define m1 where "m1 = m\<lparr>rm_artifacts := as, rm_heap := heap, rm_bytes := b\<rparr>"
    define s1 where "s1 = delete_artifacts (\<lambda>j. j \<in> set orphans) s"
    have sim1: "room_sim s1 ra m1" and orphans: "distinct orphans"
        "\<forall>x \<in> set orphans. x \<in> set (artifact_ids s) \<and> \<not> referenced s x \<and> x \<notin> pa"
      using select_orphan_sim [OF sel, of s ra "rm_passed m @ rm_runs m"] "1.prems"(2)
      by (auto simp: room_sim_def s1_def m1_def)
    have del: "delete_prepared_artifacts orphans pa s = Ok s1"
      unfolding s1_def using orphans room_sim_distinct [OF "1.prems"(2)] by (intro delete_prepared_artifacts_Ok) auto
    have step1: "retention_step pr pa s s1" unfolding s1_def by (rule retention_step_orphans [OF orphans(2)])
    show ?thesis
    proof (cases "orphans = []")
      case False
      then have rec: "make_room pr pa ra n m1 (room @ [DeleteArtifacts orphans]) = Ok (room', m')"
        using eq over sel by (simp add: m1_def Let_def)
      obtain ds s' where "room' = (room @ [DeleteArtifacts orphans]) @ ds" "apply_artifact_room ds pr pa s1 = Ok s'"
          "room_sim s' ra m'" "retention_step pr pa s1 s'" "i64_saturating_add (rm_bytes m') n \<le> CONTEXT_ARTIFACTS_MAX_BYTES"
        using "1.IH"(1) [OF over sel [symmetric] refl refl m1_def False rec sim1] by blast
      then show ?thesis
        using del retention_step_trans [OF step1]
        by (intro exI [of _ "DeleteArtifacts orphans # ds"] exI [of _ s']) simp
    next
      case True
      then have s1: "s1 = s" by (simp add: s1_def)
      obtain runs m2 where runs: "select_run_batch pr pa ra m1 [] = Ok (runs, m2)" "runs \<noteq> []"
          and rec: "make_room pr pa ra n m2 (room @ [DeleteRuns runs]) = Ok (room', m')"
        using eq over sel True by (auto simp: m1_def Let_def split: result.splits if_splits prod.splits)
      have sim2: "room_sim (delete_runs (\<lambda>j. j \<in> set runs) s) ra m2" and victims: "distinct runs"
          "\<forall>i \<in> set runs. i \<notin> pr \<and> (\<exists>r \<in> set (st_runs s). nr_scan_run_id r = i \<and> collectable r)"
        using select_run_sim [OF runs(1) sim1] by (auto simp: s1)
      have del2: "delete_prepared_terminal_runs runs pr s = Ok (delete_runs (\<lambda>j. j \<in> set runs) s)"
        using victims room_sim_distinct [OF "1.prems"(2)] by (intro delete_prepared_terminal_runs_Ok) auto
      obtain ds s' where "room' = (room @ [DeleteRuns runs]) @ ds"
          "apply_artifact_room ds pr pa (delete_runs (\<lambda>j. j \<in> set runs) s) = Ok s'"
          "room_sim s' ra m'" "retention_step pr pa (delete_runs (\<lambda>j. j \<in> set runs) s) s'"
          "i64_saturating_add (rm_bytes m') n \<le> CONTEXT_ARTIFACTS_MAX_BYTES"
        using "1.IH"(2) [OF over sel [symmetric] refl refl m1_def _ runs(1) refl runs(2) rec sim2] True by blast
      then show ?thesis
        using del2 retention_step_trans [OF retention_step_runs [OF victims(2)]]
        by (intro exI [of _ "DeleteRuns runs # ds"] exI [of _ s']) simp
    qed
  qed
qed

section \<open>The tables as they are read\<close>

lemma read_artifacts_Ok:
  "read_artifacts rows b0 = Ok (as, b) \<Longrightarrow>
     as = map (\<lambda>a. \<lparr>ax_artifact_id = fa_artifact_id a, ax_artifact_size_bytes = fa_artifact_size_bytes a,
        ax_created_at_ms = fa_created_at_ms a, ax_remaining_references = 0, ax_removed = False\<rparr>) rows
     \<and> b = b0 + sum_list (map fa_artifact_size_bytes rows) \<and> (b0 \<le> I64_MAX \<longrightarrow> b \<le> I64_MAX)"
proof (induction rows arbitrary: b0 as)
  case (Cons a rows)
  from Cons.prems obtain as1 where add: "i64_checked_add b0 (fa_artifact_size_bytes a) = Some (b0 + fa_artifact_size_bytes a)"
      "b0 + fa_artifact_size_bytes a \<le> I64_MAX"
      and rest: "read_artifacts rows (b0 + fa_artifact_size_bytes a) = Ok (as1, b)"
      and as: "as = \<lparr>ax_artifact_id = fa_artifact_id a, ax_artifact_size_bytes = fa_artifact_size_bytes a,
        ax_created_at_ms = fa_created_at_ms a, ax_remaining_references = 0, ax_removed = False\<rparr> # as1"
    by (auto simp: i64_checked_add_def split: if_splits)
  show ?case using Cons.IH [OF rest] add(2) by (simp add: as)
qed simp

lemma artifact_index_Some: "artifact_index a as = Some i \<Longrightarrow> i < length as \<and> ax_artifact_id (as ! i) = a"
  by (induction as arbitrary: i) (auto split: if_splits)

lemma read_references_Ok:
  assumes "read_references refs as ra0 = Ok (as', ra)" "distinct (map ax_artifact_id as)"
  shows "length as' = length as"
    and "\<forall>i < length as. as' ! i = (as ! i)\<lparr>ax_remaining_references :=
           ax_remaining_references (as ! i) + count_list (map snd refs) (ax_artifact_id (as ! i))\<rparr>"
    and "\<exists>new. ra = ra0 @ new \<and> map (\<lambda>(r, i). (r, ax_artifact_id (as ! i))) new = refs \<and> (\<forall>(r, i) \<in> set new. i < length as)"
proof -
  have "length as' = length as \<and> (\<forall>i < length as. as' ! i = (as ! i)\<lparr>ax_remaining_references :=
           ax_remaining_references (as ! i) + count_list (map snd refs) (ax_artifact_id (as ! i))\<rparr>)
      \<and> (\<exists>new. ra = ra0 @ new \<and> map (\<lambda>(r, i). (r, ax_artifact_id (as ! i))) new = refs \<and> (\<forall>(r, i) \<in> set new. i < length as))"
    using assms
  proof (induction refs arbitrary: as ra0)
    case (Cons ref refs)
    obtain r a where ref: "ref = (r, a)" by (cases ref)
    obtain i where i: "artifact_index a as = Some i" and rest: "read_references refs (add_reference i as) (ra0 @ [(r, i)]) = Ok (as', ra)"
      using Cons.prems(1) by (auto simp: ref)
    note idx = artifact_index_Some [OF i]
    have ids: "ax_artifact_id (add_reference i as ! j) = ax_artifact_id (as ! j)" for j
      using idx by (cases "j = i") (auto simp: add_reference_def)
    have len: "length (add_reference i as) = length as" by (simp add: add_reference_def)
    have map_ids: "map ax_artifact_id (add_reference i as) = map ax_artifact_id as"
      using ids len by (auto intro: nth_equalityI)
    note IH = Cons.IH [OF rest, unfolded map_ids len ids, OF Cons.prems(2)]
    have same: "ax_artifact_id (as ! j) = a \<longleftrightarrow> j = i" if "j < length as" for j
      using Cons.prems(2) idx that by (metis length_map nth_eq_iff_index_eq nth_map)
    have "as' ! j = (as ! j)\<lparr>ax_remaining_references :=
           ax_remaining_references (as ! j) + count_list (map snd (ref # refs)) (ax_artifact_id (as ! j))\<rparr>" if j: "j < length as" for j
    proof (cases "j = i")
      case True
      then show ?thesis using IH idx by (simp add: add_reference_def ref)
    next
      case False
      then show ?thesis using IH same [OF j] j by (simp add: add_reference_def ref)
    qed
    moreover have "\<exists>new. ra = ra0 @ new \<and> map (\<lambda>(r, i). (r, ax_artifact_id (as ! i))) new = ref # refs \<and> (\<forall>(r, i) \<in> set new. i < length as)"
    proof -
      obtain new where "ra = (ra0 @ [(r, i)]) @ new" "map (\<lambda>(r, i). (r, ax_artifact_id (as ! i))) new = refs"
          "\<forall>(r, i) \<in> set new. i < length as" using IH by blast
      then show ?thesis using idx by (intro exI [of _ "(r, i) # new"]) (simp add: ref)
    qed
    ultimately show ?case using IH by blast
  qed simp
  then show "length as' = length as"
    and "\<forall>i < length as. as' ! i = (as ! i)\<lparr>ax_remaining_references :=
           ax_remaining_references (as ! i) + count_list (map snd refs) (ax_artifact_id (as ! i))\<rparr>"
    and "\<exists>new. ra = ra0 @ new \<and> map (\<lambda>(r, i). (r, ax_artifact_id (as ! i))) new = refs \<and> (\<forall>(r, i) \<in> set new. i < length as)"
    by blast+
qed

lemma read_terminal_runs_Ok:
  "read_terminal_runs current rs = Ok ts \<Longrightarrow>
     map terminal_key ts = map run_key rs \<and> (\<forall>t \<in> set ts. \<not> tx_removed t) \<and> current \<notin> nr_scan_run_id ` set rs"
proof (induction rs arbitrary: ts)
  case (Cons r rs)
  then obtain t n ts1 where "nr_scan_run_id r \<noteq> current" "nr_finished_at_ms r = Some t" "retention_audit_size r = Some n"
      "read_terminal_runs current rs = Ok ts1"
      "ts = \<lparr>tx_scan_run_id = nr_scan_run_id r, tx_finished_at_ms = t, tx_audit_size_bytes = n, tx_removed = False\<rparr> # ts1"
    by auto
  then show ?case using Cons.IH [of ts1] by (auto simp: terminal_key_def run_key_def)
qed simp

definition retention_ready :: "run_store \<Rightarrow> bool" where
  "retention_ready s \<longleftrightarrow> distinct (run_ids s) \<and> distinct (artifact_ids s) \<and> (\<forall>n \<in> set (artifact_sizes s). 0 \<le> n)
     \<and> (\<forall>r \<in> set (st_runs s). \<forall>n. nr_audit_size_bytes r = Some n \<longrightarrow> 0 \<le> n)"

lemma initial_room_sim:
  assumes ready: "retention_ready s"
    and arts: "read_artifacts (sort_key fa_artifact_id (at_artifacts (st_artifacts s))) 0 = Ok (as0, b)"
    and refs: "read_references (context_references (st_contexts s)) as0 [] = Ok (as, ra)"
    and runs: "read_terminal_runs current (sort_key finished_order (filter collectable (st_runs s))) = Ok ts"
    and heap: "heap = [] \<or> heap = initial_heap pa as"
  shows "room_sim s ra \<lparr>rm_artifacts = as, rm_heap = heap, rm_bytes = b, rm_passed = [], rm_runs = ts\<rparr>"
proof -
  let ?rows = "sort_key fa_artifact_id (at_artifacts (st_artifacts s))"
  note read = read_artifacts_Ok [OF arts]
  have map_ids: "map ax_artifact_id as0 = map fa_artifact_id ?rows" using read by simp
  have mset_rows: "mset ?rows = mset (at_artifacts (st_artifacts s))" by simp
  have dist: "distinct (map ax_artifact_id as0)"
    unfolding map_ids using ready by (metis retention_ready_def artifact_ids_def mset_map mset_rows mset_eq_imp_distinct_iff)
  note counted = read_references_Ok [OF refs dist]
  obtain new where new: "ra = new" "map (\<lambda>(r, i). (r, ax_artifact_id (as0 ! i))) new = context_references (st_contexts s)"
      "\<forall>(r, i) \<in> set new. i < length as0" using counted(3) by auto
  have ids: "\<forall>i < length as0. ax_artifact_id (as ! i) = ax_artifact_id (as0 ! i)" using counted(2) by simp
  have mset_refs: "mset (context_references (st_contexts s)) = mset (context_refs s)"
    by (simp add: context_references_def context_refs_def)
  have refs_to: "refs_to s a = count_list (map snd (context_references (st_contexts s))) a" for a
    using mset_refs by (simp add: refs_to_def length_filter_snd) (metis count_mset mset_map)
  have b: "b = sum_list (artifact_sizes s)"
    using read by (simp add: artifact_sizes_def) (metis mset_map mset_rows sum_mset_sum_list)
  have keys: "artifact_key ` {a \<in> set as. \<not> ax_removed a} = row_key ` set (at_artifacts (st_artifacts s))"
  proof -
    have "artifact_key ` {a \<in> set as. \<not> ax_removed a} = artifact_key ` {a \<in> set as0. \<not> ax_removed a}"
      by (rule image_pointwise) (simp add: list_all2_conv_all_nth counted artifact_key_def)
    also have "{a \<in> set as0. \<not> ax_removed a} = set as0" using read by auto
    also have "artifact_key ` set as0 = row_key ` set ?rows" using read by (force simp: artifact_key_def row_key_def)
    finally show ?thesis by simp
  qed
  have arts_sim: "artifacts_sim s as b"
    unfolding artifacts_sim_def
  proof (intro conjI)
    have "map ax_artifact_id as = map ax_artifact_id as0" using ids counted(1) by (auto intro: nth_equalityI)
    then show "distinct (map ax_artifact_id as)" using dist by simp
    show "\<forall>i < length as. ax_remaining_references (as ! i) = refs_to s (ax_artifact_id (as ! i))"
      using counted(1,2) read by (simp add: refs_to)
    show "b \<le> I64_MAX" using read by (simp add: I64_MAX_def)
  qed (use keys b ready in \<open>simp_all add: retention_ready_def\<close>)
  have run_read: "map terminal_key ts = map run_key (sort_key finished_order (filter collectable (st_runs s)))"
    "\<forall>t \<in> set ts. \<not> tx_removed t"
    using read_terminal_runs_Ok [OF runs] by blast+
  have "runs_sim s ra as ts"
    unfolding runs_sim_def
  proof (intro conjI)
    have "map tx_scan_run_id ts = map fst (map terminal_key ts)" by (simp add: terminal_key_def)
    also have "\<dots> = map nr_scan_run_id (sort_key finished_order (filter collectable (st_runs s)))"
      unfolding run_read(1) by (simp add: run_key_def)
    finally have "mset (map tx_scan_run_id ts) = mset (map nr_scan_run_id (filter collectable (st_runs s)))" by simp
    moreover have "distinct (map nr_scan_run_id (filter collectable (st_runs s)))"
      using ready by (simp add: retention_ready_def run_ids_def distinct_map_filter)
    ultimately show "distinct (map tx_scan_run_id ts)" by (metis mset_eq_imp_distinct_iff)
    show "distinct (run_ids s)" using ready by (simp add: retention_ready_def)
    have "{t \<in> set ts. \<not> tx_removed t} = set ts" using run_read(2) by auto
    moreover have "terminal_key ` set ts = run_key ` set (sort_key finished_order (filter collectable (st_runs s)))"
      using run_read(1) by (metis set_map)
    ultimately show "terminal_key ` {t \<in> set ts. \<not> tx_removed t} = run_key ` {r \<in> set (st_runs s). collectable r}" by simp
    show "\<forall>(r, i) \<in> set ra. i < length as" using new counted(1) by simp
    have "mset (map (\<lambda>i. ax_artifact_id (as ! i)) (artifacts_of_run ra q)) = mset (refs_from s q)" for q
    proof -
      have "map (\<lambda>i. ax_artifact_id (as ! i)) (artifacts_of_run ra q)
          = map snd (filter (\<lambda>(p, _). p = q) (map (\<lambda>(r, i). (r, ax_artifact_id (as0 ! i))) new))"
        using new(3) ids unfolding new(1) artifacts_of_run_def by (induction new) auto
      then show ?thesis
        using mset_refs unfolding new(2) refs_from_def by (metis mset_filter mset_map)
    qed
    then show "\<forall>t \<in> set ts. \<not> tx_removed t \<longrightarrow> mset (map (\<lambda>i. ax_artifact_id (as ! i)) (artifacts_of_run ra (tx_scan_run_id t)))
        = mset (refs_from s (tx_scan_run_id t))" by blast
  qed
  moreover have "valid_entries heap (length as)"
    using heap by (auto simp: valid_entries_def initial_heap_def heap_entry_def)
  ultimately show ?thesis using arts_sim by (simp add: room_sim_def)
qed

section \<open>Age and caps\<close>

definition batched_ids :: "int list list \<times> int list \<Rightarrow> int list" where
  "batched_ids acc = concat (fst acc) @ snd acc"

definition unremoved :: "terminal_state_row list \<Rightarrow> terminal_state_row list" where
  "unremoved ts = filter (\<lambda>t. \<not> tx_removed t) ts"

definition remaining_bytes :: "terminal_state_row list \<Rightarrow> int" where
  "remaining_bytes ts = sum_list (map tx_audit_size_bytes (unremoved ts))"

lemma batched_ids_simps [simp]:
  "batched_ids ([], []) = []" "batched_ids (push_batched i acc) = batched_ids acc @ [i]"
  "concat (flush_batch acc) = batched_ids acc"
  by (cases acc; simp add: batched_ids_def push_batched_def flush_batch_def)+

lemma unremoved_simps [simp]:
  "unremoved [] = []" "unremoved (t # ts) = (if tx_removed t then unremoved ts else t # unremoved ts)"
  "remaining_bytes [] = 0"
  "remaining_bytes (t # ts) = (if tx_removed t then 0 else tx_audit_size_bytes t) + remaining_bytes ts"
  by (simp_all add: unremoved_def remaining_bytes_def)

lemma remaining_bytes_nonneg: "\<forall>t \<in> set (unremoved ts). 0 \<le> tx_audit_size_bytes t \<Longrightarrow> 0 \<le> remaining_bytes ts"
  unfolding remaining_bytes_def by (rule sum_list_nonneg) auto

text \<open>Both passes mark the rows a predicate selects and collect their numbers in order, the age pass in the
  whole list, the cap pass in as much of its front as the caps need.\<close>

definition mark :: "(terminal_state_row \<Rightarrow> bool) \<Rightarrow> terminal_state_row \<Rightarrow> terminal_state_row" where
  "mark P t = (if \<not> tx_removed t \<and> P t then t\<lparr>tx_removed := True\<rparr> else t)"

definition marked_ids :: "(terminal_state_row \<Rightarrow> bool) \<Rightarrow> terminal_state_row list \<Rightarrow> int list" where
  "marked_ids P ts = map tx_scan_run_id (filter P (unremoved ts))"

lemma terminal_key_mark [simp]: "terminal_key (mark P t) = terminal_key t" "tx_audit_size_bytes (mark P t) = tx_audit_size_bytes t"
  by (simp_all add: terminal_key_def mark_def)

lemma unremoved_append: "unremoved (ts @ us) = unremoved ts @ unremoved us"
  by (simp add: unremoved_def)

lemma unremoved_mark: "unremoved (map (mark P) ts) = filter (\<lambda>t. \<not> P t) (unremoved ts)"
  by (induction ts) (auto simp: mark_def)

lemma mark_length:
  "length (unremoved ts) = length (marked_ids P ts) + length (unremoved (map (mark P) ts))"
  unfolding unremoved_mark marked_ids_def by (simp add: sum_length_filter_compl)

lemma mark_bytes:
  "remaining_bytes ts = sum_list (map tx_audit_size_bytes (filter P (unremoved ts))) + remaining_bytes (map (mark P) ts)"
  by (induction ts) (auto simp: mark_def)

definition aged :: "int set \<Rightarrow> int \<Rightarrow> terminal_state_row \<Rightarrow> bool" where
  "aged pr cutoff t \<longleftrightarrow> tx_scan_run_id t \<notin> pr \<and> tx_finished_at_ms t < cutoff"

lemma age_pass_marks:
  "age_pass pr cutoff ts acc = (ts', acc') \<Longrightarrow>
     ts' = map (mark (aged pr cutoff)) ts \<and> batched_ids acc' = batched_ids acc @ marked_ids (aged pr cutoff) ts"
proof (induction pr cutoff ts acc arbitrary: ts' rule: age_pass.induct)
  case (2 pr cutoff t ts acc)
  show ?case
  proof (cases "\<not> tx_removed t \<and> tx_scan_run_id t \<notin> pr \<and> tx_finished_at_ms t < cutoff")
    case True
    then obtain ts1 where "age_pass pr cutoff ts (push_batched (tx_scan_run_id t) acc) = (ts1, acc')"
        "ts' = t\<lparr>tx_removed := True\<rparr> # ts1"
      using "2.prems" by (auto simp: Let_def split: prod.splits)
    then show ?thesis using "2.IH"(1) [OF True, of ts1] True by (simp add: mark_def aged_def marked_ids_def)
  next
    case False
    then obtain ts1 where "age_pass pr cutoff ts acc = (ts1, acc')" "ts' = t # ts1"
      using "2.prems" by (auto simp: Let_def split: prod.splits if_splits)
    then show ?thesis using "2.IH"(2) [OF False, of ts1] False by (auto simp: mark_def aged_def marked_ids_def)
  qed
qed (simp add: marked_ids_def)

lemma count_remaining_Ok:
  "count_remaining ts n b = Ok (n', b') \<Longrightarrow>
     n' = n + int (length (unremoved ts)) \<and> b' = b + remaining_bytes ts \<and> (n \<le> I64_MAX \<longrightarrow> n' \<le> I64_MAX) \<and> (b \<le> I64_MAX \<longrightarrow> b' \<le> I64_MAX)"
  by (induction ts arbitrary: n b) (auto simp: i64_checked_add_def split: if_splits, fastforce+)

definition unprotected :: "int set \<Rightarrow> terminal_state_row \<Rightarrow> bool" where
  "unprotected pr t \<longleftrightarrow> tx_scan_run_id t \<notin> pr"

lemma cap_pass_marks:
  assumes "cap_pass pr ts n b acc = (ts', n', b', acc')"
    and "n = c + int (length (unremoved ts))" "b = d + remaining_bytes ts" "0 \<le> c" "0 \<le> d" "n \<le> I64_MAX" "b \<le> I64_MAX"
    and "\<forall>t \<in> set (unremoved ts). 0 \<le> tx_audit_size_bytes t"
  shows "\<exists>k \<le> length ts. ts' = map (mark (unprotected pr)) (take k ts) @ drop k ts
     \<and> batched_ids acc' = batched_ids acc @ marked_ids (unprotected pr) (take k ts)
     \<and> n' = c + int (length (unremoved ts')) \<and> b' = d + remaining_bytes ts' \<and> (k = length ts \<or> caps_hold n' b')"
  using assms
proof (induction pr ts n b acc arbitrary: ts' c d rule: cap_pass.induct)
  case (1 pr n b acc)
  then show ?case by (simp add: marked_ids_def)
next
  case (2 pr t ts n b acc)
  show ?case
  proof (cases "caps_hold n b")
    case True
    then have "ts' = t # ts" "n' = n" "b' = b" "acc' = acc" using "2.prems"(1) by simp_all
    then show ?thesis using "2.prems"(2,3) True
      by (intro exI [of _ 0]) (simp add: marked_ids_def)
  next
    case over: False
    show ?thesis
    proof (cases "tx_removed t \<or> tx_scan_run_id t \<in> pr")
      case True
      obtain ts1 where rec: "cap_pass pr ts n b acc = (ts1, n', b', acc')" and ts': "ts' = t # ts1"
        using "2.prems"(1) over True by (auto simp: Let_def split: prod.splits)
      define c1 where "c1 = (if tx_removed t then c else c + 1)"
      define d1 where "d1 = (if tx_removed t then d else d + tx_audit_size_bytes t)"
      have "n = c1 + int (length (unremoved ts))" "b = d1 + remaining_bytes ts" "0 \<le> c1" "0 \<le> d1"
        using "2.prems" by (simp_all add: c1_def d1_def)
      then obtain k where k: "k \<le> length ts" "ts1 = map (mark (unprotected pr)) (take k ts) @ drop k ts"
          "batched_ids acc' = batched_ids acc @ marked_ids (unprotected pr) (take k ts)"
          "n' = c1 + int (length (unremoved ts1))" "b' = d1 + remaining_bytes ts1" "k = length ts \<or> caps_hold n' b'"
        using "2.IH"(1) [OF over True rec, of c1 d1] "2.prems"(6,7,8) by auto
      have "mark (unprotected pr) t = t" "tx_removed t \<or> \<not> unprotected pr t"
        using True by (auto simp: mark_def unprotected_def)
      then show ?thesis
        using k by (intro exI [of _ "Suc k"]) (auto simp: ts' c1_def d1_def marked_ids_def)
    next
      case False
      let ?n = "i64_saturating_sub n 1" let ?b = "i64_saturating_sub b (tx_audit_size_bytes t)"
      obtain ts1 where rec: "cap_pass pr ts ?n ?b (push_batched (tx_scan_run_id t) acc) = (ts1, n', b', acc')"
          and ts': "ts' = t\<lparr>tx_removed := True\<rparr> # ts1"
        using "2.prems"(1) over False by (auto simp: Let_def split: prod.splits)
      have bytes: "0 \<le> remaining_bytes ts" using "2.prems"(8) by (intro remaining_bytes_nonneg) simp
      have nb: "?n = c + int (length (unremoved ts))" "?b = d + remaining_bytes ts" "?n \<le> I64_MAX" "?b \<le> I64_MAX"
        using "2.prems" False bytes unfolding i64_saturating_sub_def
        by (subst i64_clamp_id; simp add: I64_MIN_def)+
      obtain k where k: "k \<le> length ts" "ts1 = map (mark (unprotected pr)) (take k ts) @ drop k ts"
          "batched_ids acc' = batched_ids acc @ tx_scan_run_id t # marked_ids (unprotected pr) (take k ts)"
          "n' = c + int (length (unremoved ts1))" "b' = d + remaining_bytes ts1" "k = length ts \<or> caps_hold n' b'"
        using "2.IH"(2) [OF over False rec nb(1,2) "2.prems"(4,5) nb(3,4)] "2.prems"(8) by auto
      have "mark (unprotected pr) t = t\<lparr>tx_removed := True\<rparr>" "\<not> tx_removed t" "unprotected pr t"
        using False by (simp_all add: mark_def unprotected_def)
      then show ?thesis
        using k by (intro exI [of _ "Suc k"]) (auto simp: ts' marked_ids_def)
    qed
  qed
qed

section \<open>The plan and the tables\<close>

lemma delete_run_batches_Ok:
  assumes "distinct (run_ids s)" "distinct (concat batches)"
    and "\<forall>i \<in> set (concat batches). i \<notin> pr \<and> (\<exists>r \<in> set (st_runs s). nr_scan_run_id r = i \<and> collectable r)"
  shows "delete_run_batches batches pr s = Ok (delete_runs (\<lambda>i. i \<in> set (concat batches)) s)"
  using assms
proof (induction batches arbitrary: s)
  case (Cons ids batches)
  let ?s = "delete_runs (\<lambda>i. i \<in> set ids) s"
  have now: "delete_prepared_terminal_runs ids pr s = Ok ?s"
    using Cons.prems by (intro delete_prepared_terminal_runs_Ok) auto
  have "distinct (run_ids ?s)" using Cons.prems(1) by (simp add: run_ids_def distinct_map_filter)
  moreover have "\<forall>i \<in> set (concat batches). i \<notin> pr \<and> (\<exists>r \<in> set (st_runs ?s). nr_scan_run_id r = i \<and> collectable r)"
    using Cons.prems(2,3) by fastforce
  ultimately have rest: "delete_run_batches batches pr ?s = Ok (delete_runs (\<lambda>i. i \<in> set (concat batches)) ?s)"
    using Cons.prems(2) by (intro Cons.IH) simp_all
  have "(\<lambda>i. i \<in> set ids \<or> i \<in> set (concat batches)) = (\<lambda>i. i \<in> set (concat (ids # batches)))" by auto
  then show ?case by (simp only: delete_run_batches.simps now and_then.simps rest delete_runs_comp)
qed simp

lemma image_drop_keys:
  assumes "\<And>x. fst (f x) = g x"
  shows "f ` {x \<in> A. P x \<and> g x \<notin> S} = {k \<in> f ` {x \<in> A. P x}. fst k \<notin> S}"
  using assms by auto

lemma image_filter_keys:
  assumes "\<And>x. fst (f x) = g x"
  shows "f ` set (filter (\<lambda>x. g x \<notin> S) xs) = {k \<in> f ` set xs. fst k \<notin> S}"
  using assms by auto

lemma keyed_list:
  assumes "distinct (map (\<lambda>x. fst (key x)) xs)"
  shows "length xs = card (key ` set xs)" "sum_list (map (\<lambda>x. g (key x)) xs) = (\<Sum>k \<in> key ` set xs. g k :: int)"
proof -
  have "inj_on key (set xs)" using assms by (auto simp: distinct_map inj_on_def)
  moreover have "distinct xs" using assms by (simp add: distinct_map)
  ultimately show "length xs = card (key ` set xs)" "sum_list (map (\<lambda>x. g (key x)) xs) = (\<Sum>k \<in> key ` set xs. g k)"
    by (simp_all add: card_image distinct_card sum.reindex sum_list_distinct_conv_sum_set o_def)
qed

definition key_bytes :: "int \<times> int option \<times> int option \<Rightarrow> int" where
  "key_bytes k = (case snd (snd k) of None \<Rightarrow> 0 | Some n \<Rightarrow> n)"

lemma collectable_sizes_sum:
  "\<forall>r \<in> set rows. collectable r \<Longrightarrow> \<forall>r \<in> set rows. retention_audit_size r \<noteq> None \<Longrightarrow>
     sum_list (List.map_filter nr_audit_size_bytes rows) = sum_list (map (\<lambda>r. key_bytes (run_key r)) rows)"
  by (induction rows) (auto simp: List.map_filter_simps retention_audit_size_def run_key_def key_bytes_def split: option.splits if_splits)

lemma distinct_unremoved: "distinct (map tx_scan_run_id ts) \<Longrightarrow> distinct (map tx_scan_run_id (unremoved ts))"
  by (simp add: unremoved_def distinct_map_filter)

lemma inj_filter_key:
  assumes "distinct (map f xs)"
  shows "filter (\<lambda>x. \<not> P x) xs = filter (\<lambda>x. f x \<notin> set (map f (filter P xs))) xs"
proof (rule filter_cong [OF refl])
  fix x assume x: "x \<in> set xs"
  have "inj_on f (set xs)" using assms by (simp add: distinct_map)
  then show "(\<not> P x) = (f x \<notin> set (map f (filter P xs)))" using x by (auto dest: inj_onD)
qed

lemma mark_keys:
  assumes "distinct (map tx_scan_run_id ts)"
  shows "unremoved (map (mark P) ts) = filter (\<lambda>t. tx_scan_run_id t \<notin> set (marked_ids P ts)) (unremoved ts)"
  unfolding unremoved_mark marked_ids_def by (rule inj_filter_key [OF distinct_unremoved [OF assms]])

lemma mark_front:
  assumes "distinct (map tx_scan_run_id ts)"
  shows "unremoved (map (mark P) (take k ts) @ drop k ts) = filter (\<lambda>t. tx_scan_run_id t \<notin> set (marked_ids P (take k ts))) (unremoved ts)"
proof -
  have d: "distinct (map tx_scan_run_id (take k ts @ drop k ts))" using assms by simp
  have front: "distinct (map tx_scan_run_id (take k ts))" using assms by (simp add: take_map [symmetric])
  have "tx_scan_run_id t \<notin> set (marked_ids P (take k ts))" if "t \<in> set (unremoved (drop k ts))" for t
  proof -
    have "tx_scan_run_id t \<in> tx_scan_run_id ` set (drop k ts)" using that by (auto simp: unremoved_def)
    moreover have "set (marked_ids P (take k ts)) \<subseteq> tx_scan_run_id ` set (take k ts)" by (auto simp: marked_ids_def unremoved_def)
    ultimately show ?thesis using d unfolding map_append distinct_append set_map by blast
  qed
  then have behind: "filter (\<lambda>t. tx_scan_run_id t \<notin> set (marked_ids P (take k ts))) (unremoved (drop k ts)) = unremoved (drop k ts)"
    by (simp add: filter_id_conv)
  have "unremoved ts = unremoved (take k ts) @ unremoved (drop k ts)" by (simp add: unremoved_append [symmetric])
  then show ?thesis by (simp add: unremoved_append mark_keys [OF front] behind)
qed

text \<open>The two passes together.\<close>

lemma passes_delete:
  assumes dist: "distinct (map tx_scan_run_id ts)" and young: "age_pass pr cutoff ts ([], []) = (ts2, aged')"
    and cap: "ts3 = map (mark (unprotected pr)) (take k ts2) @ drop k ts2"
      "batched_ids capped = marked_ids (unprotected pr) (take k ts2)"
    and ids: "ids = concat (flush_batch aged' @ flush_batch capped)"
  shows "distinct ids" "\<forall>i \<in> set ids. i \<notin> pr \<and> i \<in> tx_scan_run_id ` set (unremoved ts)"
    "unremoved ts3 = filter (\<lambda>t. tx_scan_run_id t \<notin> set ids) (unremoved ts)"
proof -
  have ts2: "ts2 = map (mark (aged pr cutoff)) ts" and a: "batched_ids aged' = marked_ids (aged pr cutoff) ts"
    using age_pass_marks [OF young] by simp_all
  have dist2: "distinct (map tx_scan_run_id ts2)"
  proof -
    have "map tx_scan_run_id ts2 = map tx_scan_run_id ts" by (simp add: ts2 mark_def)
    then show ?thesis using dist by simp
  qed
  have ids': "ids = marked_ids (aged pr cutoff) ts @ marked_ids (unprotected pr) (take k ts2)"
    by (simp add: ids a cap(2))
  have u2: "unremoved ts2 = filter (\<lambda>t. tx_scan_run_id t \<notin> set (marked_ids (aged pr cutoff) ts)) (unremoved ts)"
    unfolding ts2 by (rule mark_keys [OF dist])
  show u3: "unremoved ts3 = filter (\<lambda>t. tx_scan_run_id t \<notin> set ids) (unremoved ts)"
    unfolding cap(1) mark_front [OF dist2] u2 ids' by (auto intro: filter_cong)
  have front: "set (unremoved (take k ts2)) \<subseteq> set (unremoved ts2)" by (auto simp: unremoved_def dest: in_set_takeD)
  have d1: "distinct (marked_ids (aged pr cutoff) ts)" "distinct (marked_ids (unprotected pr) (take k ts2))"
    using distinct_unremoved [OF dist] distinct_unremoved [of "take k ts2"] dist2
    by (simp_all add: marked_ids_def distinct_map_filter take_map [symmetric])
  have "i \<notin> set (marked_ids (aged pr cutoff) ts)" if "i \<in> set (marked_ids (unprotected pr) (take k ts2))" for i
    using that front unfolding u2 marked_ids_def by auto
  then show "distinct ids" using d1 unfolding ids' distinct_append by blast
  show "\<forall>i \<in> set ids. i \<notin> pr \<and> i \<in> tx_scan_run_id ` set (unremoved ts)"
    using front unfolding ids' u2 by (auto simp: marked_ids_def aged_def unprotected_def)
qed

text \<open>The terminal part of the plan on the tables once the current run has been finished in them.\<close>

lemma terminal_plan_applies:
  assumes sim: "runs_sim s ra as ts" and young: "age_pass pr cutoff ts ([], []) = (ts2, aged')"
    and remaining: "count_remaining ts2 1 audit = Ok (n, b)" and pass: "cap_pass pr ts2 n b ([], []) = (ts3, n', b', capped)"
    and caps: "caps_hold n' b'" and audit: "0 \<le> audit" "audit \<le> TERMINAL_AUDIT_MAX_BYTES"
    and nonneg: "\<forall>t \<in> set (unremoved ts). 0 \<le> tx_audit_size_bytes t"
    and current: "\<exists>r \<in> set (st_runs s). nr_scan_run_id r = current \<and> \<not> collectable r"
    and fin: "nr_scan_run_id fin = current" "collectable fin" "retention_audit_size fin = Some audit"
    and t: "st_runs t = map (\<lambda>r. if nr_scan_run_id r = current then fin else r) (st_runs s)"
    and plan: "rp_terminal_run_batches plan = flush_batch aged' @ flush_batch capped"
  shows "\<exists>ids. apply_terminal_retention_plan plan pr t = Ok (delete_runs (\<lambda>i. i \<in> set ids) t)
     \<and> (\<forall>i \<in> set ids. i \<notin> pr \<and> i \<noteq> current) \<and> selected_count collectable (st_runs (delete_runs (\<lambda>i. i \<in> set ids) t)) \<le> 500"
proof -
  define ids where "ids = concat (flush_batch aged' @ flush_batch capped)"
  have dist: "distinct (map tx_scan_run_id ts)" "distinct (run_ids s)" using sim by (simp_all add: runs_sim_def)
  have ts2: "ts2 = map (mark (aged pr cutoff)) ts" using age_pass_marks [OF young] by simp
  have nonneg2: "\<forall>t \<in> set (unremoved ts2). 0 \<le> tx_audit_size_bytes t"
    using nonneg by (simp add: ts2 unremoved_mark)
  have nb: "n = 1 + int (length (unremoved ts2))" "b = audit + remaining_bytes ts2" "n \<le> I64_MAX" "b \<le> I64_MAX"
    using count_remaining_Ok [OF remaining] audit(2) by (simp_all add: I64_MAX_def TERMINAL_AUDIT_MAX_BYTES_def)
  obtain k where k: "ts3 = map (mark (unprotected pr)) (take k ts2) @ drop k ts2"
      "batched_ids capped = marked_ids (unprotected pr) (take k ts2)"
      "n' = 1 + int (length (unremoved ts3))" "b' = audit + remaining_bytes ts3"
    using cap_pass_marks [OF pass nb(1,2) _ audit(1) nb(3,4) nonneg2] by auto
  note deleted = passes_delete [OF dist(1) young k(1,2) ids_def]
  have keys: "terminal_key ` set (unremoved ts) = run_key ` {r \<in> set (st_runs s). collectable r}"
    using sim by (simp add: runs_sim_def unremoved_def)
  have row: "\<exists>r \<in> set (st_runs s). nr_scan_run_id r = i \<and> collectable r" if i: "i \<in> set ids" for i
  proof -
    from bspec [OF deleted(2) i] obtain u where u: "u \<in> set (unremoved ts)" "tx_scan_run_id u = i"
      by (auto simp only: image_iff)
    then have "terminal_key u \<in> run_key ` {r \<in> set (st_runs s). collectable r}" unfolding keys [symmetric] by simp
    then obtain r where "r \<in> set (st_runs s)" "collectable r" "run_key r = terminal_key u" by (auto simp only: image_iff mem_Collect_eq)
    then show ?thesis using u(2) by (intro bexI [of _ r]) (simp_all add: terminal_key_def run_key_def)
  qed
  have inj: "inj_on nr_scan_run_id (set (st_runs s))" using dist(2) by (simp add: run_ids_def distinct_map)
  have not_current: "i \<noteq> current" if "i \<in> set ids" for i
    using row [OF that] current inj by (auto dest: inj_onD)
  have t_ids: "run_ids t = run_ids s" using fin(1) by (simp add: run_ids_def t)
  have t_rows: "{r \<in> set (st_runs t). collectable r} = insert fin {r \<in> set (st_runs s). collectable r}"
  proof -
    have "nr_scan_run_id r \<noteq> current" if "r \<in> set (st_runs s)" "collectable r" for r
      using that current inj by (auto dest: inj_onD)
    then show ?thesis using current fin unfolding t by auto
  qed
  let ?t = "delete_runs (\<lambda>i. i \<in> set ids) t"
  have del: "delete_run_batches (rp_terminal_run_batches plan) pr t = Ok ?t"
    unfolding plan ids_def
  proof (rule delete_run_batches_Ok)
    show "distinct (run_ids t)" using dist(2) by (simp add: t_ids)
    show "distinct (concat (flush_batch aged' @ flush_batch capped))" using deleted(1) by (simp add: ids_def)
    have "i \<notin> pr \<and> (\<exists>r \<in> set (st_runs t). nr_scan_run_id r = i \<and> collectable r)" if i: "i \<in> set ids" for i
    proof -
      obtain r where "r \<in> set (st_runs s)" "nr_scan_run_id r = i" "collectable r" using row [OF i] by auto
      then have "r \<in> {r \<in> set (st_runs t). collectable r}" unfolding t_rows by simp
      then show ?thesis using bspec [OF deleted(2) i] \<open>nr_scan_run_id r = i\<close> by auto
    qed
    then show "\<forall>i \<in> set (concat (flush_batch aged' @ flush_batch capped)).
        i \<notin> pr \<and> (\<exists>r \<in> set (st_runs t). nr_scan_run_id r = i \<and> collectable r)"
      unfolding ids_def by blast
  qed
  define rest where "rest = filter collectable (st_runs ?t)"
  have set_rest: "set rest = insert fin {r \<in> set (st_runs s). collectable r \<and> nr_scan_run_id r \<notin> set ids}"
  proof -
    have "set rest = {r \<in> {r \<in> set (st_runs t). collectable r}. nr_scan_run_id r \<notin> set ids}" by (auto simp: rest_def)
    also have "\<dots> = insert fin {r \<in> set (st_runs s). collectable r \<and> nr_scan_run_id r \<notin> set ids}"
      unfolding t_rows using not_current fin(1) by auto
    finally show ?thesis .
  qed
  have rest_keys: "run_key ` set rest = insert (run_key fin) (terminal_key ` set (unremoved ts3))"
  proof -
    have "run_key ` {r \<in> set (st_runs s). collectable r \<and> nr_scan_run_id r \<notin> set ids}
        = {q \<in> run_key ` {r \<in> set (st_runs s). collectable r}. fst q \<notin> set ids}"
      by (rule image_drop_keys) (simp add: run_key_def)
    also have "\<dots> = terminal_key ` set (unremoved ts3)"
      unfolding keys [symmetric] deleted(3) by (rule image_filter_keys [symmetric]) (simp add: terminal_key_def)
    finally show ?thesis by (simp add: set_rest)
  qed
  have fresh: "run_key fin \<notin> terminal_key ` set (unremoved ts3)"
  proof
    assume "run_key fin \<in> terminal_key ` set (unremoved ts3)"
    then have "run_key fin \<in> terminal_key ` set (unremoved ts)" unfolding deleted(3) by auto
    then obtain r where "r \<in> set (st_runs s)" "collectable r" "nr_scan_run_id r = current"
      unfolding keys using fin(1) by (auto simp: run_key_def)
    then show False using current inj by (auto dest: inj_onD)
  qed
  have dist3: "distinct (map (\<lambda>t. fst (terminal_key t)) (unremoved ts3))"
    using distinct_unremoved [OF dist(1)] unfolding deleted(3) by (simp add: terminal_key_def distinct_map_filter)
  have dist_rest: "distinct (map (\<lambda>r. fst (run_key r)) rest)"
    using dist(2) t_ids by (simp add: run_key_def rest_def run_ids_def distinct_map_filter)
  have card: "int (length rest) = n'"
    using keyed_list(1) [OF dist_rest] keyed_list(1) [OF dist3] fresh by (simp add: rest_keys k(3))
  have audits: "\<forall>r \<in> set rest. retention_audit_size r \<noteq> None"
  proof
    fix r assume "r \<in> set rest"
    then have "run_key r = run_key fin \<or> run_key r \<in> terminal_key ` set (unremoved ts3)"
      using rest_keys by (metis imageI insert_iff)
    then show "retention_audit_size r \<noteq> None" using fin(3) by (auto simp: run_key_def terminal_key_def)
  qed
  have "sum_list (collectable_sizes ?t) = sum_list (map (\<lambda>r. key_bytes (run_key r)) rest)"
    using collectable_sizes_sum [of rest] audits by (simp add: collectable_sizes_def rest_def)
  also have "\<dots> = key_bytes (run_key fin) + (\<Sum>q \<in> terminal_key ` set (unremoved ts3). key_bytes q)"
    using keyed_list(2) [OF dist_rest, of key_bytes] fresh by (simp add: rest_keys)
  also have "(\<Sum>q \<in> terminal_key ` set (unremoved ts3). key_bytes q) = remaining_bytes ts3"
    using keyed_list(2) [OF dist3, of key_bytes] by (simp add: remaining_bytes_def terminal_key_def key_bytes_def)
  finally have sum: "sum_list (collectable_sizes ?t) = b'"
    using fin(3) by (simp add: k(4) key_bytes_def run_key_def)
  have "0 \<le> remaining_bytes ts3"
    using nonneg by (intro remaining_bytes_nonneg) (simp add: deleted(3))
  then have "sql_sum (collectable_sizes ?t) = Ok b'"
    using caps audit(1) by (simp add: sql_sum_def sum k(4) caps_hold_def TERMINAL_AUDIT_MAX_BYTES_def I64_MAX_def I64_MIN_def)
  moreover have count: "int (selected_count collectable (st_runs ?t)) = n'" using card by (simp add: selected_count_def rest_def)
  ultimately have "apply_terminal_retention_plan plan pr t = Ok ?t"
    using caps by (simp add: apply_terminal_retention_plan_def del require_store_def)
  moreover have "selected_count collectable (st_runs ?t) \<le> 500"
    using caps count by (simp add: caps_hold_def TERMINAL_RUN_MAX_COUNT_def)
  ultimately show ?thesis using deleted(2) not_current by blast
qed

text \<open>The plan taken apart.\<close>

lemma retention_plan_cases:
  assumes "prepare_finalization_retention_plan s current pr pa new_size now audit = Ok plan"
  obtains as0 b0 as ra ts room m ts2 young n b ts3 n' b' capped where
    "audit \<le> TERMINAL_AUDIT_MAX_BYTES"
    "read_artifacts (sort_key fa_artifact_id (at_artifacts (st_artifacts s))) 0 = Ok (as0, b0)"
    "read_references (context_references (st_contexts s)) as0 [] = Ok (as, ra)"
    "read_terminal_runs current (sort_key finished_order (filter collectable (st_runs s))) = Ok ts"
    "(case new_size of
         None \<Rightarrow> Ok ([], \<lparr>rm_artifacts = as, rm_heap = [], rm_bytes = b0, rm_passed = [], rm_runs = ts\<rparr>)
       | Some n \<Rightarrow> make_room pr pa ra n
           \<lparr>rm_artifacts = as, rm_heap = initial_heap pa as, rm_bytes = b0, rm_passed = [], rm_runs = ts\<rparr> []) = Ok (room, m)"
    "age_pass pr (retention_cutoff now) (rm_passed m @ rm_runs m) ([], []) = (ts2, young)"
    "count_remaining ts2 1 audit = Ok (n, b)" "cap_pass pr ts2 n b ([], []) = (ts3, n', b', capped)" "caps_hold n' b'"
    "plan = \<lparr>rp_artifact_room = room, rp_terminal_run_batches = flush_batch young @ flush_batch capped,
        rp_new_artifact_size = new_size\<rparr>"
  using assms unfolding prepare_finalization_retention_plan_def Let_def
  by (clarsimp split: prod.splits simp del: age_pass.simps cap_pass.simps) (metis (no_types, lifting) prod.collapse)

text \<open>The total of the artifacts after a room that was made, on the tables.\<close>

lemma artifact_room_applies:
  assumes ready: "retention_ready s"
    and arts: "read_artifacts (sort_key fa_artifact_id (at_artifacts (st_artifacts s))) 0 = Ok (as0, b0)"
    and refs: "read_references (context_references (st_contexts s)) as0 [] = Ok (as, ra)"
    and runs: "read_terminal_runs current (sort_key finished_order (filter collectable (st_runs s))) = Ok ts"
    and room: "(case new_size of
         None \<Rightarrow> Ok ([], \<lparr>rm_artifacts = as, rm_heap = [], rm_bytes = b0, rm_passed = [], rm_runs = ts\<rparr>)
       | Some n \<Rightarrow> make_room pr pa ra n
           \<lparr>rm_artifacts = as, rm_heap = initial_heap pa as, rm_bytes = b0, rm_passed = [], rm_runs = ts\<rparr> []) = Ok (room, m)"
    and plan: "rp_artifact_room plan = room" "rp_new_artifact_size plan = new_size"
  shows "\<exists>s'. apply_artifact_retention_plan plan pr pa s = Ok s' \<and> room_sim s' ra m \<and> retention_step pr pa s s'
     \<and> (\<forall>n. new_size = Some n \<longrightarrow> sum_list (artifact_sizes s') + n \<le> CONTEXT_ARTIFACTS_MAX_BYTES)"
proof (cases new_size)
  case None
  have "room_sim s ra m" "room = []"
    using room initial_room_sim [OF ready arts refs runs] None by auto
  then show ?thesis
    using None plan by (intro exI [of _ s]) (simp add: apply_artifact_retention_plan_def retention_step_refl)
next
  case (Some n)
  have "make_room pr pa ra n \<lparr>rm_artifacts = as, rm_heap = initial_heap pa as, rm_bytes = b0, rm_passed = [], rm_runs = ts\<rparr> []
      = Ok (room, m)" using room Some by simp
  from make_room_sim [OF this initial_room_sim [OF ready arts refs runs]] obtain s' where
    s': "apply_artifact_room room pr pa s = Ok s'" "room_sim s' ra m" "retention_step pr pa s s'"
      "i64_saturating_add (rm_bytes m) n \<le> CONTEXT_ARTIFACTS_MAX_BYTES" by auto
  have bytes: "rm_bytes m = sum_list (artifact_sizes s')" "rm_bytes m \<le> I64_MAX" "0 \<le> sum_list (artifact_sizes s')"
    using s'(2) by (auto simp: room_sim_def artifacts_sim_def intro!: sum_list_nonneg)
  have "sql_sum (artifact_sizes s') = Ok (rm_bytes m)" using bytes by (simp add: sql_sum_def I64_MIN_def)
  moreover have "sum_list (artifact_sizes s') + n \<le> CONTEXT_ARTIFACTS_MAX_BYTES"
    using s'(4) i64_clamp_le_iff [of CONTEXT_ARTIFACTS_MAX_BYTES]
    by (simp add: i64_saturating_add_def bytes(1) CONTEXT_ARTIFACTS_MAX_BYTES_def I64_MAX_def)
  ultimately show ?thesis
    using s' Some plan by (intro exI [of _ s']) (simp add: apply_artifact_retention_plan_def require_store_def)
qed

lemma retention_step_keeps_current:
  assumes "retention_step pr pa s s'" "distinct (run_ids s)" "r \<in> set (st_runs s)" "\<not> collectable r"
  shows "r \<in> set (st_runs s')"
proof -
  obtain gone agone where s': "s' = delete_artifacts agone (delete_runs gone s)"
      "\<forall>i. gone i \<longrightarrow> i \<notin> pr \<and> (\<exists>r \<in> set (st_runs s). nr_scan_run_id r = i \<and> collectable r)"
    using assms(1) unfolding retention_step_def by auto
  have "inj_on nr_scan_run_id (set (st_runs s))" using assms(2) by (simp add: run_ids_def distinct_map)
  then have "\<not> gone (nr_scan_run_id r)" using s'(2) assms(3,4) by (auto dest: inj_onD)
  then show ?thesis using assms(3) by (simp add: s'(1))
qed

text \<open>C8. What was planned can be done. On the tables the plan was made for, the deletions of the plan find
  exactly their rows: artifacts and runs give way until the new artifact fits into 512 MiB, and once
  the current run has been finished in the tables, the rest of the plan leaves at most 500 runs that
  are over, within 2 GiB of audit. Only runs that are over and not protected go, with what is theirs,
  and only artifacts that are not protected and that nobody refers to afterwards.\<close>

theorem retention_plan_applies:
  assumes ready: "retention_ready s"
    and plan: "prepare_finalization_retention_plan s current pr pa new_size now audit = Ok plan" and audit: "0 \<le> audit"
    and current: "\<exists>r \<in> set (st_runs s). nr_scan_run_id r = current \<and> \<not> collectable r"
    and fin: "nr_scan_run_id fin = current" "nr_status fin \<in> {RunSuccess, RunPartial, RunError}"
      "nr_audit_size_bytes fin = Some audit"
  shows "\<exists>s'. apply_artifact_retention_plan plan pr pa s = Ok s' \<and> retention_step pr pa s s'
     \<and> (\<forall>n. new_size = Some n \<longrightarrow> sum_list (artifact_sizes s') + n \<le> CONTEXT_ARTIFACTS_MAX_BYTES)
     \<and> (\<forall>t. st_runs t = map (\<lambda>r. if nr_scan_run_id r = current then fin else r) (st_runs s') \<longrightarrow>
          (\<exists>ids. apply_terminal_retention_plan plan pr t = Ok (delete_runs (\<lambda>i. i \<in> set ids) t)
             \<and> (\<forall>i \<in> set ids. i \<notin> pr \<and> i \<noteq> current)
             \<and> selected_count collectable (st_runs (delete_runs (\<lambda>i. i \<in> set ids) t)) \<le> 500))"
proof -
  from plan show ?thesis
  proof (rule retention_plan_cases)
    fix as0 b0 as ra ts room m ts2 young n b ts3 n' b' capped
    assume cap: "audit \<le> TERMINAL_AUDIT_MAX_BYTES"
      and reads: "read_artifacts (sort_key fa_artifact_id (at_artifacts (st_artifacts s))) 0 = Ok (as0, b0)"
        "read_references (context_references (st_contexts s)) as0 [] = Ok (as, ra)"
        "read_terminal_runs current (sort_key finished_order (filter collectable (st_runs s))) = Ok ts"
      and room: "(case new_size of
         None \<Rightarrow> Ok ([], \<lparr>rm_artifacts = as, rm_heap = [], rm_bytes = b0, rm_passed = [], rm_runs = ts\<rparr>)
       | Some n \<Rightarrow> make_room pr pa ra n
           \<lparr>rm_artifacts = as, rm_heap = initial_heap pa as, rm_bytes = b0, rm_passed = [], rm_runs = ts\<rparr> []) = Ok (room, m)"
      and passes: "age_pass pr (retention_cutoff now) (rm_passed m @ rm_runs m) ([], []) = (ts2, young)"
        "count_remaining ts2 1 audit = Ok (n, b)" "cap_pass pr ts2 n b ([], []) = (ts3, n', b', capped)" "caps_hold n' b'"
      and p: "plan = \<lparr>rp_artifact_room = room, rp_terminal_run_batches = flush_batch young @ flush_batch capped,
        rp_new_artifact_size = new_size\<rparr>"
    obtain s' where s': "apply_artifact_retention_plan plan pr pa s = Ok s'" "room_sim s' ra m" "retention_step pr pa s s'"
        "\<forall>n. new_size = Some n \<longrightarrow> sum_list (artifact_sizes s') + n \<le> CONTEXT_ARTIFACTS_MAX_BYTES"
      using artifact_room_applies [OF ready reads room, of plan] p by auto
    have sim: "runs_sim s' ra (rm_artifacts m) (rm_passed m @ rm_runs m)" using s'(2) by (simp add: room_sim_def)
    have current': "\<exists>r \<in> set (st_runs s'). nr_scan_run_id r = current \<and> \<not> collectable r"
      using current retention_step_keeps_current [OF s'(3)] ready unfolding retention_ready_def by blast
    have nonneg: "\<forall>t \<in> set (unremoved (rm_passed m @ rm_runs m)). 0 \<le> tx_audit_size_bytes t"
    proof
      fix t assume "t \<in> set (unremoved (rm_passed m @ rm_runs m))"
      then have "terminal_key t \<in> run_key ` {r \<in> set (st_runs s'). collectable r}"
        using sim unfolding runs_sim_def unremoved_def set_filter by blast
      then obtain r where r: "r \<in> set (st_runs s')" "run_key r = terminal_key t" by (auto simp only: image_iff mem_Collect_eq)
      have "r \<in> set (st_runs s)" using r(1) s'(3) by (auto simp: retention_step_def)
      then show "0 \<le> tx_audit_size_bytes t"
        using ready r(2) by (auto simp: retention_ready_def run_key_def terminal_key_def retention_audit_size_def
            split: option.splits if_splits)
    qed
    have "\<exists>ids. apply_terminal_retention_plan plan pr t = Ok (delete_runs (\<lambda>i. i \<in> set ids) t)
             \<and> (\<forall>i \<in> set ids. i \<notin> pr \<and> i \<noteq> current)
             \<and> selected_count collectable (st_runs (delete_runs (\<lambda>i. i \<in> set ids) t)) \<le> 500"
      if "st_runs t = map (\<lambda>r. if nr_scan_run_id r = current then fin else r) (st_runs s')" for t
      using terminal_plan_applies [OF sim passes audit cap nonneg current' fin(1) _ _ that] fin(2,3) p
      by (auto simp: collectable_def retention_audit_size_def)
    then show ?thesis using s' by blast
  qed
qed

text \<open>A run that is too old, a running one and an artifact nobody uses.\<close>

definition fixture_run :: "int \<Rightarrow> run_status \<Rightarrow> int option \<Rightarrow> run_row" where
  "fixture_run i status audit = \<lparr>nr_scan_run_id = i, nr_request_id = [], nr_canonical_request_json = [],
     nr_request_hash_algorithm = [], nr_request_hash = [], nr_owner_id = [], nr_status = status, nr_created_at_ms = 0,
     nr_started_at_ms = 0, nr_updated_at_ms = 0, nr_finished_at_ms = map_option (\<lambda>_. 0) audit, nr_final_envelope_json = None,
     nr_final_envelope_metadata_json = None, nr_audit_size_bytes = audit\<rparr>"

definition fixture_artifact :: artifact_row where
  "fixture_artifact = \<lparr>fa_artifact_id = 1, fa_snapshot_eligible = 0, fa_snapshot_key_sha256 = None,
     fa_snapshot_key_json = None, fa_final_context = [], fa_context_sha256 = [],
     fa_semantic_summary_json = [], fa_artifact_size_bytes = 536870912, fa_created_at_ms = 0, fa_last_accessed_bucket = []\<rparr>"

definition fixture_store :: run_store where
  "fixture_store = \<lparr>st_lease = None, st_runs = [fixture_run 1 RunSuccess (Some 5), fixture_run 2 RunRunning None],
     st_attempts = [], st_next_run_id = 3, st_inventory = [],
     st_audit = \<lparr>au_file_results = [], au_file_execution = [], au_diagnostics = [], au_stage_metrics = [], au_extension_metrics = [],
       au_execution_metrics = []\<rparr>,
     st_contexts = [],
     st_artifacts = \<lparr>at_artifacts = [fixture_artifact], at_files = [], at_decisions = [], at_next_artifact_id = 2\<rparr>\<rparr>"

lemma fixture_plan:
  "prepare_finalization_retention_plan fixture_store 2 {2} {} (Some 7) 10000000000 9
     = Ok \<lparr>rp_artifact_room = [DeleteArtifacts [1]], rp_terminal_run_batches = [[1]], rp_new_artifact_size = Some 7\<rparr>"
  by (simp add: prepare_finalization_retention_plan_def fixture_store_def fixture_run_def fixture_artifact_def
      collectable_def context_references_def read_terminal_runs.simps retention_audit_size_def List.map_filter_simps
      TERMINAL_AUDIT_MAX_BYTES_def CONTEXT_ARTIFACTS_MAX_BYTES_def i64_checked_add_def I64_MAX_def I64_MIN_def
      make_room.simps initial_heap_def heap_entry_def i64_saturating_add_def i64_saturating_sub_def i64_clamp_def
      RETENTION_DELETE_BATCH_SIZE_def retention_cutoff_def TERMINAL_RUN_MAX_AGE_DAYS_def push_batched_def flush_batch_def
      caps_hold_def TERMINAL_RUN_MAX_COUNT_def require_store_def ok_or_def)

theorem retention_plan_applies_witness:
  "\<exists>s'. apply_artifact_retention_plan \<lparr>rp_artifact_room = [DeleteArtifacts [1]], rp_terminal_run_batches = [[1]],
       rp_new_artifact_size = Some 7\<rparr> {2} {} fixture_store = Ok s' \<and> retention_step {2} {} fixture_store s'
     \<and> sum_list (artifact_sizes s') + 7 \<le> CONTEXT_ARTIFACTS_MAX_BYTES"
proof -
  have ready: "retention_ready fixture_store"
    by (simp add: retention_ready_def fixture_store_def run_ids_def artifact_ids_def artifact_sizes_def fixture_run_def fixture_artifact_def)
  have current: "\<exists>r \<in> set (st_runs fixture_store). nr_scan_run_id r = 2 \<and> \<not> collectable r"
    by (simp add: fixture_store_def fixture_run_def collectable_def)
  have fin: "nr_scan_run_id (fixture_run 2 RunError (Some 9)) = 2" "nr_status (fixture_run 2 RunError (Some 9)) \<in> {RunSuccess, RunPartial, RunError}"
      "nr_audit_size_bytes (fixture_run 2 RunError (Some 9)) = Some 9"
    by (simp_all add: fixture_run_def)
  show ?thesis
    using retention_plan_applies [OF ready fixture_plan _ current fin] by simp blast
qed

end
