(* ===== verification/Store_Invariant.thy ===== *)
theory Store_Invariant
  imports Store_Finalize Store_Retention_Plan
begin

text \<open>
  What holds of the scanner database between transactions, and what every transaction does to the
  runs that are over. The run tables and the lease agree: there is a running run exactly when there
  is a lease, it is the lease's, and it has the one running attempt.
\<close>

section \<open>The invariant\<close>

definition running_run :: "run_row \<Rightarrow> bool" where "running_run r \<longleftrightarrow> nr_status r = RunRunning"
definition running_attempt :: "attempt_row \<Rightarrow> bool" where "running_attempt a \<longleftrightarrow> na_status a = RunRunning"

definition live_runs :: "run_row list \<Rightarrow> (int \<times> rstring) list" where
  "live_runs rows = map (\<lambda>r. (nr_scan_run_id r, nr_owner_id r)) (filter running_run rows)"

definition live_attempts :: "attempt_row list \<Rightarrow> (int \<times> rstring) list" where
  "live_attempts rows = map (\<lambda>a. (na_scan_run_id a, na_owner_id a)) (filter running_attempt rows)"

definition lease_owners :: "engine_lease option \<Rightarrow> rstring list" where
  "lease_owners l = (case l of None \<Rightarrow> [] | Some l \<Rightarrow> [ls_owner_id l])"

definition row_ok :: "store_codec \<Rightarrow> run_row \<Rightarrow> bool" where
  "row_ok codec r \<longleftrightarrow> sc_request_hash codec (nr_canonical_request_json r) = nr_request_hash r
     \<and> (if is_terminal (nr_status r)
        then nr_finished_at_ms r \<noteq> None \<and> nr_final_envelope_metadata_json r \<noteq> None
          \<and> (\<exists>n. nr_audit_size_bytes r = Some n \<and> 0 \<le> n)
        else nr_final_envelope_metadata_json r = None \<and> nr_audit_size_bytes r = None
          \<and> (nr_finished_at_ms r = None \<longleftrightarrow> running_run r))"

definition context_ok :: "run_store \<Rightarrow> context_row \<Rightarrow> bool" where
  "context_ok s c \<longleftrightarrow> (\<exists>r \<in> set (st_runs s). nr_scan_run_id r = cx_scan_run_id c \<and> is_terminal (nr_status r))
     \<and> (\<forall>i. cx_artifact_id c = Some i \<longrightarrow> i \<in> set (artifact_ids s))"

definition runs_ok :: "store_codec \<Rightarrow> run_store \<Rightarrow> bool" where
  "runs_ok codec s \<longleftrightarrow> distinct (run_ids s) \<and> (\<forall>i \<in> set (run_ids s). i < st_next_run_id s)
     \<and> distinct (map nr_request_id (st_runs s)) \<and> (\<forall>r \<in> set (st_runs s). row_ok codec r)"

definition lease_ok :: "run_store \<Rightarrow> bool" where
  "lease_ok s \<longleftrightarrow> live_attempts (st_attempts s) = live_runs (st_runs s)
     \<and> map snd (live_runs (st_runs s)) = lease_owners (st_lease s)"

definition contexts_ok :: "run_store \<Rightarrow> bool" where
  "contexts_ok s \<longleftrightarrow> distinct (map cx_scan_run_id (st_contexts s)) \<and> (\<forall>c \<in> set (st_contexts s). context_ok s c)"

definition artifacts_ok :: "run_store \<Rightarrow> bool" where
  "artifacts_ok s \<longleftrightarrow> artifact_tables_ok (st_artifacts s) \<and> (\<forall>n \<in> set (artifact_sizes s). 0 \<le> n)"

definition inventory_ok :: "run_store \<Rightarrow> bool" where
  "inventory_ok s \<longleftrightarrow> distinct (map (iv_file_identity \<circ> fst) (st_inventory s))"

definition store_inv :: "store_codec \<Rightarrow> run_store \<Rightarrow> bool" where
  "store_inv codec s \<longleftrightarrow> runs_ok codec s \<and> lease_ok s \<and> contexts_ok s \<and> artifacts_ok s \<and> inventory_ok s"

lemma store_inv_retention_ready: "store_inv codec s \<Longrightarrow> retention_ready s"
  by (auto simp: store_inv_def retention_ready_def runs_ok_def artifacts_ok_def artifact_tables_ok_def artifact_ids_def
      row_ok_def split: if_splits)

section \<open>What is kept of runs that are over\<close>

definition context_artifact :: "run_store \<Rightarrow> int \<Rightarrow> int option" where
  "context_artifact s i = Option.bind (find (\<lambda>c. cx_scan_run_id c = i) (st_contexts s)) cx_artifact_id"

definition result_kept :: "store_codec \<Rightarrow> run_store \<Rightarrow> run_store \<Rightarrow> run_row \<Rightarrow> bool" where
  "result_kept codec s s' r \<longleftrightarrow> r \<in> set (st_runs s')
     \<and> context_artifact s' (nr_scan_run_id r) = context_artifact s (nr_scan_run_id r)
     \<and> (\<forall>a. context_artifact s (nr_scan_run_id r) = Some a \<longrightarrow>
          load_artifact codec (st_artifacts s') a = load_artifact codec (st_artifacts s) a)"

text \<open>An artifact is removed or stays as it is. A run that is over is removed or stays as it is. No number is
  given twice.\<close>

definition artifacts_kept :: "store_codec \<Rightarrow> run_store \<Rightarrow> run_store \<Rightarrow> bool" where
  "artifacts_kept codec s s' \<longleftrightarrow> at_next_artifact_id (st_artifacts s) \<le> at_next_artifact_id (st_artifacts s')
     \<and> (\<forall>a \<in> set (artifact_ids s'). a < at_next_artifact_id (st_artifacts s) \<longrightarrow> a \<in> set (artifact_ids s)
          \<and> load_artifact codec (st_artifacts s') a = load_artifact codec (st_artifacts s) a)"

definition run_keys :: "run_store \<Rightarrow> (int \<times> rstring) list" where
  "run_keys s = map (\<lambda>r. (nr_scan_run_id r, nr_request_id r)) (st_runs s)"

lemma run_ids_keys: "run_ids s = map fst (run_keys s)"
  by (simp add: run_ids_def run_keys_def)

definition history_kept :: "store_codec \<Rightarrow> run_store \<Rightarrow> run_store \<Rightarrow> bool" where
  "history_kept codec s s' \<longleftrightarrow> artifacts_kept codec s s' \<and> st_next_run_id s \<le> st_next_run_id s'
     \<and> (\<forall>k \<in> set (run_keys s'). fst k < st_next_run_id s \<longrightarrow> k \<in> set (run_keys s))
     \<and> (\<forall>r \<in> set (st_runs s). is_terminal (nr_status r) \<longrightarrow> nr_scan_run_id r \<in> set (run_ids s') \<longrightarrow> result_kept codec s s' r)"

lemma history_kept_refl: "history_kept codec s s"
  by (auto simp: history_kept_def result_kept_def artifacts_kept_def)

lemma artifacts_kept_trans: "artifacts_kept codec s t \<Longrightarrow> artifacts_kept codec t u \<Longrightarrow> artifacts_kept codec s u"
  by (force simp: artifacts_kept_def)

lemma run_ids_mem: "r \<in> set (st_runs s) \<Longrightarrow> nr_scan_run_id r \<in> set (run_ids s)"
  by (simp add: run_ids_def)

lemma history_kept_trans:
  assumes inv: "runs_ok codec s" and st: "history_kept codec s t" and tu: "history_kept codec t u"
  shows "history_kept codec s u"
  unfolding history_kept_def
proof (intro conjI ballI impI)
  show "artifacts_kept codec s u" using st tu artifacts_kept_trans by (auto simp: history_kept_def)
  show "st_next_run_id s \<le> st_next_run_id u" using st tu by (simp add: history_kept_def)
  show "k \<in> set (run_keys s)" if "k \<in> set (run_keys u)" "fst k < st_next_run_id s" for k
    using that st tu by (auto simp: history_kept_def)
  show "result_kept codec s u r"
    if r: "r \<in> set (st_runs s)" "is_terminal (nr_status r)" "nr_scan_run_id r \<in> set (run_ids u)" for r
  proof -
    have "nr_scan_run_id r < st_next_run_id s" using inv run_ids_mem [OF r(1)] by (auto simp: runs_ok_def)
    moreover obtain k where "k \<in> set (run_keys u)" "fst k = nr_scan_run_id r" using r(3) by (auto simp: run_ids_keys)
    ultimately have "k \<in> set (run_keys t)" using st tu by (auto simp: history_kept_def)
    then have "nr_scan_run_id r \<in> set (run_ids t)" using \<open>fst k = nr_scan_run_id r\<close> by (force simp: run_ids_keys)
    then have st': "result_kept codec s t r" using st r by (simp add: history_kept_def)
    moreover have "result_kept codec t u r" using st' tu r by (auto simp: history_kept_def result_kept_def)
    ultimately show ?thesis by (auto simp: result_kept_def)
  qed
qed

lemma load_artifact_for_replay_eq:
  "load_artifact_for_replay codec s i = (case context_artifact s i of None \<Rightarrow> Ok None
     | Some a \<Rightarrow> and_then (load_artifact codec (st_artifacts s) a) (\<lambda>d. Ok (Some d)))"
  by (simp add: load_artifact_for_replay_def context_artifact_def)

lemma load_stored_envelope_kept:
  "result_kept codec s s' r \<Longrightarrow> load_stored_envelope codec s' r q = load_stored_envelope codec s r q"
  by (auto simp: load_stored_envelope_def rebuild_envelope_from_metadata_def load_artifact_for_replay_eq
      result_kept_def split: option.splits)

text \<open>A change of the store that leaves contexts and artifacts alone.\<close>

lemma history_keptI:
  assumes "st_contexts s' = st_contexts s" "st_artifacts s' = st_artifacts s" "st_next_run_id s' = st_next_run_id s"
    and "set (run_keys s') \<subseteq> set (run_keys s)"
    and "\<And>r. r \<in> set (st_runs s) \<Longrightarrow> is_terminal (nr_status r) \<Longrightarrow> r \<in> set (st_runs s')"
  shows "history_kept codec s s'"
  using assms by (auto simp: history_kept_def result_kept_def context_artifact_def artifacts_kept_def artifact_ids_def)

section \<open>Retention\<close>

lemma live_filter:
  "live_runs (filter P rows) = map (\<lambda>r. (nr_scan_run_id r, nr_owner_id r)) (filter (\<lambda>r. running_run r \<and> P r) rows)"
  by (simp add: live_runs_def conj_commute)

lemma filter_drop_none: "(\<And>x. x \<in> set xs \<Longrightarrow> P x \<Longrightarrow> Q x) \<Longrightarrow> filter (\<lambda>x. P x \<and> Q x) xs = filter P xs"
  by (rule filter_cong) auto

lemma collectable_not_running: "collectable r \<Longrightarrow> \<not> running_run r"
  by (auto simp: collectable_def running_run_def)

lemma unique_row:
  "distinct (run_ids s) \<Longrightarrow> r \<in> set (st_runs s) \<Longrightarrow> q \<in> set (st_runs s) \<Longrightarrow> nr_scan_run_id r = nr_scan_run_id q \<Longrightarrow> r = q"
  by (auto simp: run_ids_def distinct_map inj_on_def)

lemma live_run_of_attempt:
  assumes "lease_ok s" "a \<in> set (st_attempts s)" "running_attempt a"
  shows "\<exists>r \<in> set (st_runs s). running_run r \<and> nr_scan_run_id r = na_scan_run_id a \<and> nr_owner_id r = na_owner_id a"
proof -
  have "(na_scan_run_id a, na_owner_id a) \<in> set (live_attempts (st_attempts s))"
    using assms(2,3) by (auto simp: live_attempts_def)
  then have "(na_scan_run_id a, na_owner_id a) \<in> set (live_runs (st_runs s))" using assms(1) by (simp add: lease_ok_def)
  then show ?thesis by (auto simp: live_runs_def)
qed

lemma delete_contexts_find:
  "\<not> gone i \<Longrightarrow> Option.bind (find (\<lambda>c. cx_scan_run_id c = i) (delete_contexts gone rows)) cx_artifact_id
     = Option.bind (find (\<lambda>c. cx_scan_run_id c = i) rows) cx_artifact_id"
  by (induction rows) (auto simp: delete_contexts_def split: option.splits)

lemma delete_contexts_ids: "map cx_scan_run_id (delete_contexts gone rows) = filter (\<lambda>i. \<not> gone i) (map cx_scan_run_id rows)"
  by (induction rows) (auto simp: delete_contexts_def split: option.splits)

lemma delete_contexts_mem:
  "c \<in> set (delete_contexts gone rows) \<Longrightarrow> \<exists>d \<in> set rows. cx_scan_run_id d = cx_scan_run_id c
     \<and> cx_artifact_id d = cx_artifact_id c \<and> \<not> gone (cx_scan_run_id c)"
  by (force simp: delete_contexts_def split: option.splits if_splits)

lemma inventory_ids_delete_runs [simp]:
  "map (iv_file_identity \<circ> fst) (st_inventory (delete_runs gone s)) = map (iv_file_identity \<circ> fst) (st_inventory s)"
  by (simp add: delete_runs_def Let_def) (auto simp: case_prod_unfold o_def)

text \<open>Removing runs that are not running.\<close>

lemma delete_runs_lease_ok:
  assumes inv: "lease_ok s" "distinct (run_ids s)"
    and gone: "\<And>i. gone i \<Longrightarrow> \<exists>r \<in> set (st_runs s). nr_scan_run_id r = i \<and> collectable r"
  shows "lease_ok (delete_runs gone s)"
proof -
  have not_running: "\<not> gone (nr_scan_run_id r)" if "r \<in> set (st_runs s)" "running_run r" for r
  proof
    assume "gone (nr_scan_run_id r)"
    then obtain q where "q \<in> set (st_runs s)" "nr_scan_run_id q = nr_scan_run_id r" "collectable q" using gone by blast
    then show False using unique_row [OF inv(2) that(1)] that(2) collectable_not_running by metis
  qed
  have runs: "live_runs (filter (\<lambda>r. \<not> gone (nr_scan_run_id r)) (st_runs s)) = live_runs (st_runs s)"
    unfolding live_filter using not_running by (subst filter_drop_none) (auto simp: live_runs_def)
  have attempts: "live_attempts (filter (\<lambda>a. \<not> gone (na_scan_run_id a)) (st_attempts s)) = live_attempts (st_attempts s)"
  proof -
    have "filter running_attempt (filter (\<lambda>a. \<not> gone (na_scan_run_id a)) (st_attempts s))
        = filter (\<lambda>a. running_attempt a \<and> \<not> gone (na_scan_run_id a)) (st_attempts s)"
      by (simp add: conj_commute)
    also have "\<dots> = filter running_attempt (st_attempts s)"
    proof (rule filter_drop_none)
      fix a assume "a \<in> set (st_attempts s)" "running_attempt a"
      from live_run_of_attempt [OF inv(1) this] not_running show "\<not> gone (na_scan_run_id a)" by metis
    qed
    finally show ?thesis by (simp add: live_attempts_def)
  qed
  show ?thesis using inv(1) by (simp add: lease_ok_def runs attempts)
qed

lemma delete_runs_inv:
  assumes inv: "store_inv codec s"
    and gone: "\<And>i. gone i \<Longrightarrow> \<exists>r \<in> set (st_runs s). nr_scan_run_id r = i \<and> collectable r"
  shows "store_inv codec (delete_runs gone s)"
  unfolding store_inv_def
proof (intro conjI)
  have next_id: "st_next_run_id (delete_runs gone s) = st_next_run_id s" by (simp add: delete_runs_def Let_def)
  have parts: "runs_ok codec s" "lease_ok s" "contexts_ok s" "artifacts_ok s" "inventory_ok s"
    using inv by (simp_all add: store_inv_def)
  show "runs_ok codec (delete_runs gone s)"
    using parts(1) by (auto simp: runs_ok_def run_ids_def next_id distinct_map_filter)
  show "lease_ok (delete_runs gone s)"
    using delete_runs_lease_ok [OF parts(2)] parts(1) gone by (simp add: runs_ok_def)
  show "contexts_ok (delete_runs gone s)"
    unfolding contexts_ok_def
  proof (intro conjI ballI)
    have ctx: "st_contexts (delete_runs gone s) = delete_contexts gone (st_contexts s)" by (simp add: delete_runs_def Let_def)
    show "distinct (map cx_scan_run_id (st_contexts (delete_runs gone s)))"
      using parts(3) by (simp add: ctx delete_contexts_ids contexts_ok_def)
    fix c assume "c \<in> set (st_contexts (delete_runs gone s))"
    then obtain d where d: "d \<in> set (st_contexts s)" "cx_scan_run_id d = cx_scan_run_id c"
        "cx_artifact_id d = cx_artifact_id c" "\<not> gone (cx_scan_run_id c)"
      unfolding ctx using delete_contexts_mem by blast
    then have "context_ok s d" using parts(3) by (simp add: contexts_ok_def)
    then show "context_ok (delete_runs gone s) c"
      using d by (auto simp: context_ok_def artifact_ids_def)
  qed
  show "artifacts_ok (delete_runs gone s)" using parts(4) by (simp add: artifacts_ok_def artifact_sizes_def)
  show "inventory_ok (delete_runs gone s)" using parts(5) by (simp add: inventory_ok_def)
qed

lemma delete_runs_history: "history_kept codec s (delete_runs gone s)"
  unfolding history_kept_def
proof (intro conjI ballI impI)
  show "artifacts_kept codec s (delete_runs gone s)" by (simp add: artifacts_kept_def artifact_ids_def)
  show "st_next_run_id s \<le> st_next_run_id (delete_runs gone s)" by (simp add: delete_runs_def Let_def)
  show "k \<in> set (run_keys s)" if "k \<in> set (run_keys (delete_runs gone s))" for k using that by (auto simp: run_keys_def)
  show "result_kept codec s (delete_runs gone s) r"
    if "r \<in> set (st_runs s)" "nr_scan_run_id r \<in> set (run_ids (delete_runs gone s))" for r
  proof -
    have alive: "\<not> gone (nr_scan_run_id r)" using that(2) by (auto simp: run_ids_def)
    have "st_contexts (delete_runs gone s) = delete_contexts gone (st_contexts s)" by (simp add: delete_runs_def Let_def)
    then show ?thesis
      using that(1) alive delete_contexts_find [of gone "nr_scan_run_id r" "st_contexts s"]
      by (simp add: result_kept_def context_artifact_def)
  qed
qed

text \<open>Removing artifacts nobody refers to.\<close>

lemma find_filter_key: "\<not> gone a \<Longrightarrow> find (\<lambda>x. f x = a) (filter (\<lambda>x. \<not> gone (f x)) xs) = find (\<lambda>x. f x = a) xs"
  by (induction xs) auto

lemma load_artifact_delete:
  assumes "\<not> gone a"
  shows "load_artifact codec (st_artifacts (delete_artifacts gone s)) a = load_artifact codec (st_artifacts s) a"
proof -
  have rows: "filter (\<lambda>(i, _). i = a) (filter (\<lambda>(i, _). \<not> gone i) xs) = filter (\<lambda>(i, _). i = a) xs"
    for xs :: "(int \<times> 'r) list"
    using assms by (induction xs) auto
  have parts: "at_artifacts (st_artifacts (delete_artifacts gone s)) = filter (\<lambda>x. \<not> gone (fa_artifact_id x)) (at_artifacts (st_artifacts s))"
    "at_files (st_artifacts (delete_artifacts gone s)) = filter (\<lambda>(i, _). \<not> gone i) (at_files (st_artifacts s))"
    "at_decisions (st_artifacts (delete_artifacts gone s)) = filter (\<lambda>(i, _). \<not> gone i) (at_decisions (st_artifacts s))"
    by (simp_all add: delete_artifacts_def Let_def)
  show ?thesis
    unfolding load_artifact_def stored_files_def stored_decisions_def parts rows find_filter_key [of gone a fa_artifact_id, OF assms] by simp
qed

lemma context_artifact_referenced: "context_artifact s i = Some a \<Longrightarrow> referenced s a"
  by (auto simp: context_artifact_def referenced_def list_ex_iff bind_eq_Some_conv find_Some_iff)

lemma delete_artifacts_inv:
  assumes inv: "store_inv codec s" and gone: "\<And>a. gone a \<Longrightarrow> \<not> referenced s a"
  shows "store_inv codec (delete_artifacts gone s) \<and> history_kept codec s (delete_artifacts gone s)"
proof
  have parts: "runs_ok codec s" "lease_ok s" "contexts_ok s" "artifacts_ok s" "inventory_ok s"
    using inv by (simp_all add: store_inv_def)
  have same: "st_next_run_id (delete_artifacts gone s) = st_next_run_id s" "st_inventory (delete_artifacts gone s) = st_inventory s"
    "run_ids (delete_artifacts gone s) = run_ids s" "run_keys (delete_artifacts gone s) = run_keys s"
    by (simp_all add: delete_artifacts_def Let_def run_ids_def run_keys_def)
  have "contexts_ok (delete_artifacts gone s)"
    unfolding contexts_ok_def
  proof (intro conjI ballI)
    show "distinct (map cx_scan_run_id (st_contexts (delete_artifacts gone s)))" using parts(3) by (simp add: contexts_ok_def)
    fix c assume "c \<in> set (st_contexts (delete_artifacts gone s))"
    then have c: "c \<in> set (st_contexts s)" by simp
    then have ok: "context_ok s c" using parts(3) by (simp add: contexts_ok_def)
    have kept: "\<not> gone i" if "cx_artifact_id c = Some i" for i
      using gone [of i] c that by (auto simp: referenced_def list_ex_iff)
    show "context_ok (delete_artifacts gone s) c"
      using ok kept by (auto simp: context_ok_def artifact_ids_def)
  qed
  moreover have "artifacts_ok (delete_artifacts gone s)"
    using parts(4) by (auto simp: artifacts_ok_def artifact_tables_ok_def artifact_sizes_def delete_artifacts_def Let_def
        distinct_map_filter)
  ultimately show "store_inv codec (delete_artifacts gone s)"
    using parts by (simp add: store_inv_def runs_ok_def lease_ok_def inventory_ok_def same)
  have "artifacts_kept codec s (delete_artifacts gone s)"
    unfolding artifacts_kept_def
  proof (intro conjI ballI impI)
    show "at_next_artifact_id (st_artifacts s) \<le> at_next_artifact_id (st_artifacts (delete_artifacts gone s))"
      by (simp add: delete_artifacts_def Let_def)
    fix a assume "a \<in> set (artifact_ids (delete_artifacts gone s))"
    then have "\<not> gone a" "a \<in> set (artifact_ids s)" by (auto simp: artifact_ids_def)
    then show "a \<in> set (artifact_ids s)"
      "load_artifact codec (st_artifacts (delete_artifacts gone s)) a = load_artifact codec (st_artifacts s) a"
      using load_artifact_delete by simp_all
  qed
  then show "history_kept codec s (delete_artifacts gone s)"
    unfolding history_kept_def same
    using gone by (auto simp: result_kept_def context_artifact_def [of "delete_artifacts gone s"] context_artifact_def [symmetric]
        dest!: context_artifact_referenced intro: load_artifact_delete)
qed

lemma retention_step_inv:
  assumes inv: "store_inv codec s" and step: "retention_step pr pa s s'"
  shows "store_inv codec s' \<and> history_kept codec s s'"
proof -
  obtain gone agone where s': "s' = delete_artifacts agone (delete_runs gone s)"
      and g: "\<And>i. gone i \<Longrightarrow> \<exists>r \<in> set (st_runs s). nr_scan_run_id r = i \<and> collectable r"
      and ag: "\<And>a. agone a \<Longrightarrow> \<not> referenced (delete_runs gone s) a"
    using step unfolding retention_step_def by auto
  have one: "store_inv codec (delete_runs gone s)" by (rule delete_runs_inv [OF inv g])
  have "store_inv codec s' \<and> history_kept codec (delete_runs gone s) s'"
    unfolding s' by (rule delete_artifacts_inv [OF one ag])
  moreover have "runs_ok codec s" using inv by (simp add: store_inv_def)
  ultimately show ?thesis using history_kept_trans delete_runs_history by blast
qed

text \<open>The deletions of the store are such steps.\<close>

lemma delete_prepared_artifacts_step:
  assumes "delete_prepared_artifacts ids pa s = Ok s'"
  shows "retention_step pr pa s s'"
proof (cases "ids = []")
  case False
  let ?victims = "filter (artifact_victim s ids pa) (at_artifacts (st_artifacts s))"
  have "s' = delete_artifacts (\<lambda>i. i \<in> set (map fa_artifact_id ?victims)) s"
    using assms False by (simp add: delete_prepared_artifacts_def Let_def split: if_splits)
  moreover have "\<forall>x \<in> set (map fa_artifact_id ?victims). x \<in> set (artifact_ids s) \<and> \<not> referenced s x \<and> x \<notin> pa"
    by (auto simp: artifact_victim_def artifact_ids_def)
  ultimately show ?thesis using retention_step_orphans by metis
qed (use assms in \<open>simp add: delete_prepared_artifacts_def retention_step_refl\<close>)

lemma delete_prepared_runs_step:
  assumes "delete_prepared_terminal_runs ids pr s = Ok s'"
  shows "retention_step pr pa s s'"
proof (cases "ids = []")
  case False
  let ?victims = "filter (run_victim ids pr) (st_runs s)"
  have "s' = delete_runs (\<lambda>i. i \<in> set (map nr_scan_run_id ?victims)) s"
    using assms False by (simp add: delete_prepared_terminal_runs_def Let_def split: if_splits)
  moreover have "\<forall>i \<in> set (map nr_scan_run_id ?victims). i \<notin> pr \<and> (\<exists>r \<in> set (st_runs s). nr_scan_run_id r = i \<and> collectable r)"
    by (auto simp: run_victim_def)
  ultimately show ?thesis using retention_step_runs by metis
qed (use assms in \<open>simp add: delete_prepared_terminal_runs_def retention_step_refl\<close>)

lemma artifact_room_step:
  "apply_artifact_room ds pr pa s = Ok s' \<Longrightarrow> retention_step pr pa s s'"
proof (induction ds pr pa s rule: apply_artifact_room.induct)
  case (2 ids ds pr pa s)
  then show ?case using delete_prepared_artifacts_step retention_step_trans by (fastforce split: result.splits)
next
  case (3 ids ds pr pa s)
  then show ?case using delete_prepared_runs_step retention_step_trans by (fastforce split: result.splits)
qed (simp add: retention_step_refl)

lemma artifact_retention_step:
  "apply_artifact_retention_plan plan pr pa s = Ok s' \<Longrightarrow> retention_step pr pa s s'"
  by (auto simp: apply_artifact_retention_plan_def split: option.splits dest!: artifact_room_step)

lemma run_batches_step: "delete_run_batches batches pr s = Ok s' \<Longrightarrow> retention_step pr pa s s'"
proof (induction batches pr s rule: delete_run_batches.induct)
  case (2 ids batches pr s)
  then show ?case using delete_prepared_runs_step retention_step_trans by (fastforce split: result.splits)
qed (simp add: retention_step_refl)

lemma terminal_retention_step:
  "apply_terminal_retention_plan plan pr s = Ok s' \<Longrightarrow> retention_step pr pa s s'"
  by (auto simp: apply_terminal_retention_plan_def dest!: run_batches_step)

lemma gc_step:
  assumes "run_opportunistic_gc now budget looks s = Ok s'"
  shows "retention_step {} {} s s'"
proof -
  obtain admitted one two commit where looks: "looks = (admitted, one, two, commit)" by (cases looks)
  define t where "t = (if one then delete_artifacts (\<lambda>i. i \<in> set (gc_orphans s)) s else s)"
  define u where "u = (if two then delete_runs (\<lambda>i. i \<in> set (gc_aged (retention_cutoff (int now)) t)) t else t)"
  have orphans: "\<forall>x \<in> set (gc_orphans s). x \<in> set (artifact_ids s) \<and> \<not> referenced s x \<and> x \<notin> {}"
    by (auto simp: gc_orphans_def artifact_ids_def dest!: in_set_takeD)
  have "retention_step {} {} s t"
    using retention_step_orphans [OF orphans] by (simp add: t_def retention_step_refl)
  moreover have aged: "\<forall>i \<in> set (gc_aged (retention_cutoff (int now)) t). i \<notin> {}
      \<and> (\<exists>r \<in> set (st_runs t). nr_scan_run_id r = i \<and> collectable r)"
    by (auto simp: gc_aged_def dest!: in_set_takeD)
  have "retention_step {} {} t u"
    using retention_step_runs [OF aged] by (simp add: u_def retention_step_refl)
  ultimately have "retention_step {} {} s u" by (rule retention_step_trans)
  moreover have "s' = s \<or> s' = u"
    using assms by (auto simp: run_opportunistic_gc_def looks Let_def t_def u_def split: if_splits)
  ultimately show ?thesis using retention_step_refl by metis
qed

section \<open>Bookkeeping\<close>

text \<open>Changes that only keep the books of the running run: its heartbeat, its workers, its audit.\<close>

definition same_attempt :: "attempt_row \<Rightarrow> attempt_row \<Rightarrow> bool" where
  "same_attempt a b \<longleftrightarrow> na_scan_run_id b = na_scan_run_id a \<and> na_attempt_number b = na_attempt_number a
     \<and> na_owner_id b = na_owner_id a \<and> na_status b = na_status a"

definition touched_row :: "run_row \<Rightarrow> run_row \<Rightarrow> bool" where
  "touched_row r q \<longleftrightarrow> q = r \<or> running_run r \<and> (\<exists>now. q = r\<lparr>nr_updated_at_ms := now\<rparr>)"

definition bookkeeping :: "run_store \<Rightarrow> run_store \<Rightarrow> bool" where
  "bookkeeping s s' \<longleftrightarrow> list_all2 touched_row (st_runs s) (st_runs s') \<and> list_all2 same_attempt (st_attempts s) (st_attempts s')
     \<and> st_contexts s' = st_contexts s \<and> st_artifacts s' = st_artifacts s \<and> st_next_run_id s' = st_next_run_id s
     \<and> st_inventory s' = st_inventory s \<and> lease_owners (st_lease s') = lease_owners (st_lease s)"

lemma touched_facts:
  "touched_row r q \<Longrightarrow> nr_scan_run_id q = nr_scan_run_id r \<and> nr_request_id q = nr_request_id r \<and> nr_owner_id q = nr_owner_id r
     \<and> nr_status q = nr_status r \<and> (row_ok codec q \<longleftrightarrow> row_ok codec r) \<and> (is_terminal (nr_status r) \<longrightarrow> q = r)"
  by (auto simp: touched_row_def row_ok_def running_run_def is_terminal_def)

lemma list_all2_map_eq: "list_all2 R xs ys \<Longrightarrow> (\<And>x y. R x y \<Longrightarrow> f y = f x) \<Longrightarrow> map f ys = map f xs"
  by (induction rule: list_all2_induct) auto

lemma touched_live: "list_all2 touched_row rows rows' \<Longrightarrow> live_runs rows' = live_runs rows"
proof (induction rule: list_all2_induct)
  case (Cons r rows q rows')
  then show ?case using touched_facts [OF Cons(1)] by (simp add: live_runs_def running_run_def)
qed simp

lemma same_attempt_live: "list_all2 same_attempt as as' \<Longrightarrow> live_attempts as' = live_attempts as"
  by (induction rule: list_all2_induct) (auto simp: live_attempts_def same_attempt_def running_attempt_def)

lemma touched_mem: "list_all2 touched_row rows rows' \<Longrightarrow> q \<in> set rows' \<Longrightarrow> \<exists>r \<in> set rows. touched_row r q"
  by (induction rule: list_all2_induct) auto

lemma touched_mem': "list_all2 touched_row rows rows' \<Longrightarrow> r \<in> set rows \<Longrightarrow> \<exists>q \<in> set rows'. touched_row r q"
  by (induction rule: list_all2_induct) auto

lemma bookkeeping_inv:
  assumes inv: "store_inv codec s" and step: "bookkeeping s s'"
  shows "store_inv codec s' \<and> history_kept codec s s'"
proof -
  have rows: "list_all2 touched_row (st_runs s) (st_runs s')" and atts: "list_all2 same_attempt (st_attempts s) (st_attempts s')"
    and same: "st_contexts s' = st_contexts s" "st_artifacts s' = st_artifacts s" "st_next_run_id s' = st_next_run_id s"
      "st_inventory s' = st_inventory s" "lease_owners (st_lease s') = lease_owners (st_lease s)"
    using step by (simp_all add: bookkeeping_def)
  have ids: "run_ids s' = run_ids s" "map nr_request_id (st_runs s') = map nr_request_id (st_runs s)" "run_keys s' = run_keys s"
    unfolding run_ids_def run_keys_def by (rule list_all2_map_eq [OF rows], use touched_facts in simp)+
  have parts: "runs_ok codec s" "lease_ok s" "contexts_ok s" "artifacts_ok s" "inventory_ok s"
    using inv by (simp_all add: store_inv_def)
  have "row_ok codec q" if "q \<in> set (st_runs s')" for q
    using touched_mem [OF rows that] touched_facts parts(1) by (auto simp: runs_ok_def)
  then have "runs_ok codec s'" using parts(1) by (simp add: runs_ok_def ids same)
  moreover have "lease_ok s'"
    using parts(2) touched_live [OF rows] same_attempt_live [OF atts] by (simp add: lease_ok_def same)
  moreover have "contexts_ok s'" unfolding contexts_ok_def
  proof (intro conjI ballI)
    show "distinct (map cx_scan_run_id (st_contexts s'))" using parts(3) by (simp add: contexts_ok_def same)
    fix c assume "c \<in> set (st_contexts s')"
    then have c: "context_ok s c" using parts(3) by (simp add: contexts_ok_def same)
    then obtain r where r: "r \<in> set (st_runs s)" "nr_scan_run_id r = cx_scan_run_id c" "is_terminal (nr_status r)"
      by (auto simp: context_ok_def)
    obtain q where "q \<in> set (st_runs s')" "touched_row r q" using touched_mem' [OF rows r(1)] by blast
    then have "r \<in> set (st_runs s')" using touched_facts r(3) by metis
    then show "context_ok s' c" using c r by (auto simp: context_ok_def artifact_ids_def same)
  qed
  ultimately have "store_inv codec s'" using parts by (simp add: store_inv_def artifacts_ok_def inventory_ok_def artifact_sizes_def same)
  moreover have "history_kept codec s s'"
  proof (rule history_keptI)
    show "set (run_keys s') \<subseteq> set (run_keys s)" by (simp add: ids)
    show "r \<in> set (st_runs s')" if r: "r \<in> set (st_runs s)" "is_terminal (nr_status r)" for r
      using touched_mem' [OF rows r(1)] touched_facts r(2) by metis
  qed (simp_all add: same)
  ultimately show ?thesis ..
qed

lemma list_all2_refl_id: "(\<And>x. R x x) \<Longrightarrow> list_all2 R xs xs"
  by (induction xs) auto

lemma touched_refl: "list_all2 touched_row rows rows" "list_all2 same_attempt as as"
  by (auto intro!: list_all2_refl_id simp: touched_row_def same_attempt_def)

lemma list_all2_update_where:
  "(\<And>x. P x \<Longrightarrow> R x (f x)) \<Longrightarrow> (\<And>x. R x x) \<Longrightarrow> list_all2 R xs (update_where P f xs)"
  by (induction xs) (auto simp: update_where_def)

lemma heartbeat_bookkeeping:
  assumes "heartbeat_in_transaction active now s = Ok s'"
  shows "bookkeeping s s'" "owns_lease s (ac_owner_id active)" "\<exists>r \<in> set (st_runs s). run_of_active active r"
    "\<exists>l. st_lease s' = Some l \<and> ls_owner_id l = ac_owner_id active \<and> ls_heartbeat_at_ms l = now
       \<and> ls_expires_at_ms l = now + LEASE_GRACE_MS"
    "st_runs s' = update_where (run_of_active active) (\<lambda>r. r\<lparr>nr_updated_at_ms := now\<rparr>) (st_runs s)"
proof -
  obtain l expires where l: "ensure_owner active s = Ok ()" "lease_expiry now = Ok expires" "st_lease s = Some l"
      "ls_owner_id l = ac_owner_id active"
      "s' = s\<lparr>st_lease := Some (l\<lparr>ls_heartbeat_at_ms := now, ls_expires_at_ms := expires\<rparr>),
         st_runs := update_where (run_of_active active) (\<lambda>r. r\<lparr>nr_updated_at_ms := now\<rparr>) (st_runs s)\<rparr>"
    using assms by (auto simp: heartbeat_in_transaction_def split: option.splits if_splits)
  have "list_all2 touched_row (st_runs s) (update_where (run_of_active active) (\<lambda>r. r\<lparr>nr_updated_at_ms := now\<rparr>) (st_runs s))"
    by (rule list_all2_update_where) (auto simp: touched_row_def run_of_active_def running_run_def)
  then show "bookkeeping s s'" using l by (simp add: bookkeeping_def touched_refl lease_owners_def)
  show "st_runs s' = update_where (run_of_active active) (\<lambda>r. r\<lparr>nr_updated_at_ms := now\<rparr>) (st_runs s)"
    by (simp add: l(5))
  show "owns_lease s (ac_owner_id active)" "\<exists>r \<in> set (st_runs s). run_of_active active r"
    using l(1) by (auto simp: ensure_owner_def list_ex_iff)
  have "expires = now + LEASE_GRACE_MS" using l(2) by (auto simp: lease_expiry_def i64_checked_add_def split: if_splits)
  then show "\<exists>l. st_lease s' = Some l \<and> ls_owner_id l = ac_owner_id active \<and> ls_heartbeat_at_ms l = now
       \<and> ls_expires_at_ms l = now + LEASE_GRACE_MS"
    using l(4,5) by simp
qed

lemma record_bookkeeping:
  assumes inv: "store_inv codec s" and "record_worker_fingerprints active office pdf now s = Ok s'"
  shows "store_inv codec s' \<and> history_kept codec s s'"
proof -
  let ?t = "s\<lparr>st_attempts := update_where (attempt_of_active active)
            (\<lambda>a. a\<lparr>na_office_worker := office, na_pdf_worker := pdf\<rparr>) (st_attempts s)\<rparr>"
  have "list_all2 same_attempt (st_attempts s) (st_attempts ?t)"
    by (auto intro!: list_all2_update_where simp: same_attempt_def)
  then have "bookkeeping s ?t" by (simp add: bookkeeping_def touched_refl)
  then have t: "store_inv codec ?t \<and> history_kept codec s ?t" using bookkeeping_inv inv by blast
  have "heartbeat_in_transaction active (int now) ?t = Ok s'"
    using assms(2) by (auto simp: record_worker_fingerprints_def)
  then have "store_inv codec s' \<and> history_kept codec ?t s'" using bookkeeping_inv heartbeat_bookkeeping(1) t by blast
  then show ?thesis using t history_kept_trans inv by (auto simp: store_inv_def)
qed

lemma insert_audit_bookkeeping: "insert_audit active b s = Ok s' \<Longrightarrow> bookkeeping s s'"
  by (auto simp: insert_audit_def Let_def bookkeeping_def touched_refl)

lemma write_execution_metrics_bookkeeping: "write_execution_metrics active tt p b s = Ok s' \<Longrightarrow> bookkeeping s s'"
  by (auto simp: write_execution_metrics_def Let_def bookkeeping_def touched_refl split: option.splits)

end
