(* ===== verification/Store_Inventory.thy ===== *)
theory Store_Inventory
  imports Store_Finalize Store_Retention_Plan
begin

text \<open>
  The inventory receipt of a run: \<open>RunStore::prepare_inventory\<close> of \<open>src/rust/scanner_core/src/store/mod.rs\<close>
  and \<open>upsert_inventory\<close> of \<open>store/inventory.rs\<close>. Records are written in batches of 256, each its own
  transaction; a batch that misses the work deadline is not written, and those before it are kept.
\<close>

definition CACHE_TRANSACTION_BATCH_SIZE :: nat where "CACHE_TRANSACTION_BATCH_SIZE = 256"

function inventory_chunks :: "inventory_record list \<Rightarrow> inventory_record list list" where
  "inventory_chunks [] = []"
| "inventory_chunks (r # rs) = take CACHE_TRANSACTION_BATCH_SIZE (r # rs)
     # inventory_chunks (drop CACHE_TRANSACTION_BATCH_SIZE (r # rs))"
  by pat_completeness auto
termination by (relation "measure length") (auto simp: CACHE_TRANSACTION_BATCH_SIZE_def)

declare inventory_chunks.simps(2) [simp del]

definition in_inventory :: "(inventory_record \<times> int option) list \<Rightarrow> rstring \<Rightarrow> bool" where
  "in_inventory rows i \<longleftrightarrow> list_ex (\<lambda>(p, _). iv_file_identity p = i) rows"

text \<open>\<open>INSERT ... ON CONFLICT(file_identity) DO UPDATE\<close>.\<close>

definition upsert_row :: "int \<Rightarrow> inventory_record \<Rightarrow> (inventory_record \<times> int option) list \<Rightarrow> (inventory_record \<times> int option) list" where
  "upsert_row scan_run_id r rows =
     (if in_inventory rows (iv_file_identity r)
      then map (\<lambda>(p, seen). if iv_file_identity p = iv_file_identity r then (r, Some scan_run_id) else (p, seen)) rows
      else rows @ [(r, Some scan_run_id)])"

definition upsert_inventory :: "int \<Rightarrow> inventory_record list \<Rightarrow> run_store \<Rightarrow> (run_store, store_error) result" where
  "upsert_inventory scan_run_id records s =
     (if records = [] \<or> list_ex (\<lambda>r. nr_scan_run_id r = scan_run_id) (st_runs s)
      then Ok (s\<lparr>st_inventory := fold (upsert_row scan_run_id) records (st_inventory s)\<rparr>)
      else Err foreign_key_failed)"

fun validate_prepared :: "inventory_record list \<Rightarrow> rstring set \<Rightarrow> (unit, store_error) result" where
  "validate_prepared [] seen = Ok ()"
| "validate_prepared (r # rs) seen =
     and_then (map_err StoreInvalidRequest (validate_inventory_record r)) (\<lambda>_.
     and_then (require_store (iv_file_identity r \<notin> seen)
                 (invalid_request ''prepared inventory identities must be unique'')) (\<lambda>_.
     validate_prepared rs (insert (iv_file_identity r) seen)))"

text \<open>\<open>looks k\<close>: whether batch \<open>k\<close> is in time up to its commit.\<close>

fun prepare_batches ::
  "(nat \<Rightarrow> bool) \<Rightarrow> int \<Rightarrow> nat \<Rightarrow> inventory_record list list \<Rightarrow> rstring set \<Rightarrow> run_store \<Rightarrow>
     run_store \<times> (rstring set, store_error) result" where
  "prepare_batches looks scan_run_id k [] existed s = (s, Ok existed)"
| "prepare_batches looks scan_run_id k (c # cs) existed s =
     (if \<not> looks k then (s, Err StoreWorkDeadlineExhausted)
      else case upsert_inventory scan_run_id c s of
        Err e \<Rightarrow> (s, Err e)
      | Ok t \<Rightarrow> prepare_batches looks scan_run_id (Suc k) cs
          (existed \<union> {i \<in> iv_file_identity ` set c. in_inventory (st_inventory s) i}) t)"

definition prepare_inventory ::
  "(nat \<Rightarrow> bool) \<Rightarrow> inventory_record list \<Rightarrow> int \<Rightarrow> u64 \<Rightarrow> run_store \<Rightarrow> run_store \<times> (rstring set, store_error) result" where
  "prepare_inventory looks records scan_run_id now s =
     (case and_then (checked_i64 now (lit ''inventory timestamp'')) (\<lambda>_. validate_prepared records {}) of
        Err e \<Rightarrow> (s, Err e)
      | Ok _ \<Rightarrow> prepare_batches looks scan_run_id 0 (inventory_chunks records) {} s)"

section \<open>The receipt\<close>

definition receipt :: "(inventory_record \<times> int option) list \<Rightarrow> rstring \<Rightarrow> (inventory_record \<times> int option) option" where
  "receipt rows i = find (\<lambda>(p, _). iv_file_identity p = i) rows"

lemma in_inventory_receipt: "in_inventory rows i \<longleftrightarrow> receipt rows i \<noteq> None"
  by (induction rows) (auto simp: in_inventory_def receipt_def)

lemma receipt_append: "receipt (rows @ rows') i = (case receipt rows i of None \<Rightarrow> receipt rows' i | Some x \<Rightarrow> Some x)"
  by (induction rows) (auto simp: receipt_def)

lemma receipt_upsert_row:
  "receipt (upsert_row run r rows) i = (if i = iv_file_identity r then Some (r, Some run) else receipt rows i)"
proof (cases "in_inventory rows (iv_file_identity r)")
  case True
  have "receipt (map (\<lambda>(p, seen). if iv_file_identity p = iv_file_identity r then (r, Some run) else (p, seen)) rows) i
      = (if i = iv_file_identity r then Some (r, Some run) else receipt rows i)"
    if "in_inventory rows (iv_file_identity r)"
    using that
  proof (induction rows)
    case (Cons x rows)
    obtain p seen where x: "x = (p, seen)" by (cases x)
    have other: "i \<noteq> iv_file_identity r \<Longrightarrow> receipt (map (\<lambda>(p, seen). if iv_file_identity p = iv_file_identity r then (r, Some run) else (p, seen)) xs) i
        = receipt xs i" for xs
      by (induction xs) (auto simp: receipt_def split: if_splits prod.splits)
    show ?case
    proof (cases "i = iv_file_identity r")
      case True
      then show ?thesis using Cons x by (cases "iv_file_identity p = iv_file_identity r") (auto simp: receipt_def in_inventory_def)
    next
      case False
      then show ?thesis using other [of "x # rows"] by simp
    qed
  qed (simp add: in_inventory_def)
  then show ?thesis using True by (simp add: upsert_row_def)
next
  case False
  then have "receipt rows (iv_file_identity r) = None"
    by (cases "receipt rows (iv_file_identity r)") (auto simp: in_inventory_receipt)
  moreover have "receipt [(r, Some run)] i = (if i = iv_file_identity r then Some (r, Some run) else None)"
    by (simp add: receipt_def)
  ultimately show ?thesis using False by (auto simp: upsert_row_def receipt_append split: option.splits)
qed

lemma receipt_upserts:
  "distinct (map iv_file_identity rs) \<Longrightarrow>
     receipt (fold (upsert_row run) rs rows) i
       = (case find (\<lambda>r. iv_file_identity r = i) rs of Some r \<Rightarrow> Some (r, Some run) | None \<Rightarrow> receipt rows i)"
proof (induction rs arbitrary: rows)
  case (Cons r rs)
  have "find (\<lambda>q. iv_file_identity q = i) rs = None" if "iv_file_identity r = i"
    using Cons.prems that by (auto simp: find_None_iff) (metis image_eqI)
  then show ?case using Cons by (auto simp: receipt_upsert_row split: option.splits)
qed simp

lemma validate_prepared_distinct:
  "validate_prepared rs seen = Ok () \<Longrightarrow> distinct (map iv_file_identity rs) \<and> iv_file_identity ` set rs \<inter> seen = {}
     \<and> (\<forall>r \<in> set rs. validate_inventory_record r = Ok ())"
  by (induction rs arbitrary: seen) auto

lemma inventory_chunks_concat: "concat (inventory_chunks rs) = rs"
  by (induction rs rule: inventory_chunks.induct) (simp_all add: inventory_chunks.simps(2))

text \<open>The batches together are one upsert of the records; what existed is judged batch by batch and
  agrees, because no record appears twice.\<close>

lemma prepare_batches_Ok:
  assumes "prepare_batches looks run k cs existed s = (s', Ok existed')" and "distinct (map iv_file_identity (concat cs))"
  shows "s' = s\<lparr>st_inventory := fold (upsert_row run) (concat cs) (st_inventory s)\<rparr>
     \<and> existed' = existed \<union> {i \<in> iv_file_identity ` set (concat cs). in_inventory (st_inventory s) i}"
  using assms
proof (induction cs arbitrary: k existed s)
  case (Cons c cs)
  let ?t = "s\<lparr>st_inventory := fold (upsert_row run) c (st_inventory s)\<rparr>"
  have rest: "prepare_batches looks run (Suc k) cs (existed \<union> {i \<in> iv_file_identity ` set c. in_inventory (st_inventory s) i}) ?t
      = (s', Ok existed')"
    using Cons.prems(1) by (auto simp: upsert_inventory_def split: if_splits)
  have dist: "distinct (map iv_file_identity (concat cs))" "distinct (map iv_file_identity c)"
      "iv_file_identity ` set c \<inter> iv_file_identity ` set (concat cs) = {}"
    using Cons.prems(2) by (auto simp: distinct_append)
  note hyp = Cons.IH [OF rest dist(1)]
  have same: "in_inventory (st_inventory ?t) i = in_inventory (st_inventory s) i"
    if "i \<in> iv_file_identity ` set (concat cs)" for i
  proof -
    have "find (\<lambda>r. iv_file_identity r = i) c = None" using that dist(3) by (auto simp: find_None_iff)
    then show ?thesis by (simp add: in_inventory_receipt receipt_upserts [OF dist(2)])
  qed
  show ?case
  proof
    show "s' = s\<lparr>st_inventory := fold (upsert_row run) (concat (c # cs)) (st_inventory s)\<rparr>" using hyp by simp
    have "{i \<in> iv_file_identity ` set (concat cs). in_inventory (st_inventory ?t) i}
        = {i \<in> iv_file_identity ` set (concat cs). in_inventory (st_inventory s) i}"
      using same by blast
    then show "existed' = existed \<union> {i \<in> iv_file_identity ` set (concat (c # cs)). in_inventory (st_inventory s) i}"
      using hyp by auto
  qed
qed simp

lemma verify_receipts:
  assumes "\<And>r. r \<in> set rs \<Longrightarrow> receipt (st_inventory s) (iv_file_identity r) = Some (r, Some run)"
    and "\<And>r. r \<in> set rs \<Longrightarrow> validate_inventory_record r = Ok ()"
  shows "verify_inventory_snapshot s run rs = Ok ()"
  using assms
proof (induction rs)
  case (Cons r rs)
  have "iv_size_bytes r \<le> i64_max" "iv_mtime_ns r \<le> i64_max"
    using Cons.prems(2) [of r] by (auto simp: validate_inventory_record_def split: prod.splits)
  then show ?case
    using Cons.prems(1) [of r] Cons by (simp add: receipt_def require_store_def)
qed simp

text \<open>Receipts. When the inventory of a run has been prepared, each of its files has the row that was
  observed, marked as seen by the run, so the check of the final transaction succeeds on it; rows of
  other files are untouched, and the returned set is exactly the files that were known before.\<close>

theorem prepared_inventory_verifies:
  assumes "prepare_inventory looks records run now s = (s', Ok existed)"
  shows "verify_inventory_snapshot s' run records = Ok ()
     \<and> existed = {i \<in> iv_file_identity ` set records. in_inventory (st_inventory s) i}
     \<and> (\<forall>i. i \<notin> iv_file_identity ` set records \<longrightarrow> receipt (st_inventory s') i = receipt (st_inventory s) i)
     \<and> s' = s\<lparr>st_inventory := st_inventory s'\<rparr>"
proof -
  have valid: "validate_prepared records {} = Ok ()"
    and batches: "prepare_batches looks run 0 (inventory_chunks records) {} s = (s', Ok existed)"
    using assms by (auto simp: prepare_inventory_def split: result.splits)
  note facts = validate_prepared_distinct [OF valid]
  have written: "s' = s\<lparr>st_inventory := fold (upsert_row run) records (st_inventory s)\<rparr>"
    "existed = {i \<in> iv_file_identity ` set records. in_inventory (st_inventory s) i}"
    using prepare_batches_Ok [OF batches] facts by (auto simp: inventory_chunks_concat)
  have rows: "receipt (st_inventory s') i = (case find (\<lambda>r. iv_file_identity r = i) records of
      Some r \<Rightarrow> Some (r, Some run) | None \<Rightarrow> receipt (st_inventory s) i)" for i
    using receipt_upserts facts by (simp add: written(1))
  have found: "find (\<lambda>q. iv_file_identity q = iv_file_identity r) records = Some r" if "r \<in> set records" for r
    using that facts by (induction records) (auto simp: inj_on_def distinct_map)
  have "verify_inventory_snapshot s' run records = Ok ()"
    by (rule verify_receipts) (use rows found facts in auto)
  moreover have "receipt (st_inventory s') i = receipt (st_inventory s) i" if "i \<notin> iv_file_identity ` set records" for i
  proof -
    have "find (\<lambda>r. iv_file_identity r = i) records = None" using that by (auto simp: find_None_iff)
    then show ?thesis by (simp add: rows)
  qed
  ultimately show ?thesis using written by simp
qed

definition fixture_record :: inventory_record where
  "fixture_record = \<lparr>iv_file_identity = [98], iv_absolute_path = [47, 98], iv_relative_path = [98],
     iv_file_type = [46, 116], iv_source_version = build_source_version 7 5, iv_size_bytes = 5, iv_mtime_ns = 7,
     iv_source_guard_kind = None, iv_source_guard_sha256 = None\<rparr>"

lemma fixture_record_valid: "validate_inventory_record fixture_record = Ok ()"
proof -
  have "parse_source_version (build_source_version 7 5) = Ok (7, 5)" using parse_built_version [of 5 7] by (simp add: u64_max_def)
  moreover have "build_source_version 7 5 \<noteq> []" by (simp add: build_source_version_def)
  ultimately show ?thesis
    by (simp add: validate_inventory_record_def fixture_record_def inventory_absolute_path_def inventory_relative_path_def
        is_extension_def valid_inventory_guard_def i64_max_def is_ascii_upper_def lit_def)
qed

theorem prepared_inventory_verifies_witness:
  "\<exists>s'. prepare_inventory (\<lambda>_. True) [fixture_record] 2 0 fixture_store = (s', Ok {})
     \<and> verify_inventory_snapshot s' 2 [fixture_record] = Ok ()"
proof -
  have "\<exists>s'. prepare_inventory (\<lambda>_. True) [fixture_record] 2 0 fixture_store = (s', Ok {})"
    by (simp add: prepare_inventory_def fixture_record_valid inventory_chunks.simps(2) CACHE_TRANSACTION_BATCH_SIZE_def
        checked_i64_def I64_MAX_def require_store_def upsert_inventory_def fixture_store_def fixture_run_def in_inventory_def)
  then obtain s' where "prepare_inventory (\<lambda>_. True) [fixture_record] 2 0 fixture_store = (s', Ok {})" by blast
  then show ?thesis using prepared_inventory_verifies by blast
qed

end
