(* ===== verification/Store_Transactions.thy ===== *)
theory Store_Transactions
  imports Store_Invariant Store_Inventory
begin

text \<open>
  Every transaction of the store keeps the invariant and what is over: beginning a run, taking over
  a dead lease, abandoning, preparing the inventory and finalising.
\<close>

section \<open>Ending the running run\<close>

lemma update_where_facts:
  "map g (update_where P f xs) = map g xs" if "\<And>x. g (f x) = g x"
  by (induction xs) (auto simp: update_where_def that)

lemma update_where_mem: "y \<in> set (update_where P f xs) \<Longrightarrow> (\<exists>x \<in> set xs. P x \<and> y = f x) \<or> y \<in> set xs \<and> \<not> P y"
  by (auto simp: update_where_def split: if_splits)

lemma update_where_keeps: "x \<in> set xs \<Longrightarrow> \<not> P x \<Longrightarrow> x \<in> set (update_where P f xs)"
  by (force simp: update_where_def)

lemma no_live_update:
  assumes "\<And>x. x \<in> set xs \<Longrightarrow> R x \<Longrightarrow> P x" and "\<And>x. \<not> R (f x)"
  shows "filter R (update_where P f xs) = []"
  using assms by (auto simp: filter_empty_conv update_where_def)

lemma single_running:
  assumes "lease_ok s" "owns_lease s owner" "r \<in> set (st_runs s)" "running_run r" "q \<in> set (st_runs s)" "running_run q"
  shows "nr_scan_run_id r = nr_scan_run_id q" "nr_owner_id r = owner"
proof -
  have len: "map snd (live_runs (st_runs s)) = [owner]"
    using assms(1,2) by (auto simp: lease_ok_def owns_lease_def lease_owners_def split: option.splits)
  then obtain i where i: "live_runs (st_runs s) = [(i, owner)]" by (cases "live_runs (st_runs s)") auto
  have "(nr_scan_run_id x, nr_owner_id x) \<in> set (live_runs (st_runs s))" if "x \<in> set (st_runs s)" "running_run x" for x
    using that by (auto simp: live_runs_def)
  then show "nr_scan_run_id r = nr_scan_run_id q" "nr_owner_id r = owner" using assms(3-6) i by fastforce+
qed

text \<open>The rows of the store, when its one run ends and the lease goes with it.\<close>

definition ended :: "(run_row \<Rightarrow> run_row) \<Rightarrow> (attempt_row \<Rightarrow> attempt_row) \<Rightarrow> (run_row \<Rightarrow> bool) \<Rightarrow> (attempt_row \<Rightarrow> bool) \<Rightarrow> run_store \<Rightarrow> run_store" where
  "ended f g P Q s = s\<lparr>st_lease := None, st_runs := update_where P f (st_runs s), st_attempts := update_where Q g (st_attempts s)\<rparr>"

lemma ended_inv:
  assumes inv: "store_inv codec s"
    and all_runs: "\<And>r. r \<in> set (st_runs s) \<Longrightarrow> running_run r \<Longrightarrow> P r" "\<And>r. P r \<Longrightarrow> running_run r"
    and all_attempts: "\<And>a. a \<in> set (st_attempts s) \<Longrightarrow> running_attempt a \<Longrightarrow> Q a"
    and f: "\<And>r. nr_scan_run_id (f r) = nr_scan_run_id r \<and> nr_request_id (f r) = nr_request_id r \<and> \<not> running_run (f r)"
    and ok: "\<And>r. row_ok codec r \<Longrightarrow> P r \<Longrightarrow> row_ok codec (f r)"
    and g: "\<And>a. \<not> running_attempt (g a)"
  shows "store_inv codec (ended f g P Q s) \<and> history_kept codec s (ended f g P Q s)"
proof -
  let ?s = "ended f g P Q s"
  have parts: "runs_ok codec s" "contexts_ok s" "artifacts_ok s" "inventory_ok s" using inv by (simp_all add: store_inv_def)
  have ids: "run_ids ?s = run_ids s" "map nr_request_id (st_runs ?s) = map nr_request_id (st_runs s)" "run_keys ?s = run_keys s"
    using f by (simp_all add: run_ids_def run_keys_def ended_def update_where_facts)
  have same: "st_next_run_id ?s = st_next_run_id s" "st_contexts ?s = st_contexts s" "st_artifacts ?s = st_artifacts s"
    "st_inventory ?s = st_inventory s" by (simp_all add: ended_def)
  have keep: "r \<in> set (st_runs ?s)" if "r \<in> set (st_runs s)" "is_terminal (nr_status r)" for r
    using that all_runs(2) [of r] by (auto simp: ended_def running_run_def is_terminal_def intro: update_where_keeps)
  have "row_ok codec q" if mem: "q \<in> set (st_runs ?s)" for q
  proof -
    consider x where "x \<in> set (st_runs s)" "P x" "q = f x" | "q \<in> set (st_runs s)"
      using update_where_mem [of q P f "st_runs s"] mem unfolding ended_def by auto
    then show ?thesis using parts(1) ok by cases (auto simp: runs_ok_def)
  qed
  then have "runs_ok codec ?s" using parts(1) by (simp add: runs_ok_def ids same)
  moreover have "lease_ok ?s"
  proof -
    have "filter running_run (update_where P f (st_runs s)) = []" using all_runs(1) f by (intro no_live_update) auto
    moreover have "filter running_attempt (update_where Q g (st_attempts s)) = []" using all_attempts g by (intro no_live_update) auto
    ultimately show ?thesis by (simp add: lease_ok_def ended_def live_runs_def live_attempts_def lease_owners_def)
  qed
  moreover have "contexts_ok ?s"
    unfolding contexts_ok_def
  proof (intro conjI ballI)
    show "distinct (map cx_scan_run_id (st_contexts ?s))" using parts(2) by (simp add: contexts_ok_def same)
    fix c assume "c \<in> set (st_contexts ?s)"
    then have "context_ok s c" using parts(2) by (simp add: contexts_ok_def same)
    then show "context_ok ?s c" using keep by (auto simp: context_ok_def artifact_ids_def same)
  qed
  ultimately have "store_inv codec ?s" using parts(3,4) by (simp add: store_inv_def artifacts_ok_def inventory_ok_def artifact_sizes_def same)
  moreover have "history_kept codec s ?s" by (rule history_keptI) (use keep in \<open>simp_all add: same ids\<close>)
  ultimately show ?thesis ..
qed

lemma active_is_the_run:
  assumes "lease_ok s" "owns_lease s (ac_owner_id active)" "\<exists>r \<in> set (st_runs s). run_of_active active r"
    and "r \<in> set (st_runs s)" "running_run r"
  shows "run_of_active active r"
proof -
  obtain q where q: "q \<in> set (st_runs s)" "run_of_active active q" using assms(3) by blast
  then have "running_run q" by (simp add: run_of_active_def running_run_def)
  from single_running [OF assms(1,2,4,5) q(1) this] q(2) assms(5)
  show ?thesis by (simp add: run_of_active_def running_run_def)
qed

lemma active_is_the_attempt:
  assumes "lease_ok s" "owns_lease s (ac_owner_id active)" "\<exists>a \<in> set (st_attempts s). attempt_of_active active a"
    and "a \<in> set (st_attempts s)" "running_attempt a"
  shows "attempt_of_active active a"
proof -
  have "map snd (live_attempts (st_attempts s)) = [ac_owner_id active]"
    using assms(1,2) by (auto simp: lease_ok_def owns_lease_def lease_owners_def split: option.splits)
  then have "length (filter running_attempt (st_attempts s)) = 1" by (metis length_map length_Cons list.size(3) live_attempts_def One_nat_def)
  then obtain x where x: "filter running_attempt (st_attempts s) = [x]" by (cases "filter running_attempt (st_attempts s)") auto
  obtain b where "b \<in> set (st_attempts s)" "attempt_of_active active b" using assms(3) by blast
  then have "b \<in> set (filter running_attempt (st_attempts s))" by (simp add: attempt_of_active_def running_attempt_def)
  moreover have "a \<in> set (filter running_attempt (st_attempts s))" using assms(4,5) by simp
  ultimately have "a = b" using x by simp
  then show ?thesis using \<open>attempt_of_active active b\<close> by simp
qed

lemma selected_one: "selected_count P xs = 1 \<Longrightarrow> \<exists>x \<in> set xs. P x"
  by (cases "filter P xs") (auto simp: selected_count_def filter_eq_Cons_iff)

lemma abandon_inv:
  assumes inv: "store_inv codec s" and step: "abandon_active_run active now s = Ok s'"
  shows "store_inv codec s' \<and> history_kept codec s s'"
proof -
  have s': "s' = ended (abandon_run_row (int now)) (abandon_attempt_row (int now)) (run_of_active active) (attempt_of_active active) s"
    and own: "owns_lease s (ac_owner_id active)"
    and one: "selected_count (run_of_active active) (st_runs s) = 1" "selected_count (attempt_of_active active) (st_attempts s) = 1"
    using step by (auto simp: abandon_active_run_def delete_lease_def ended_def split: if_splits)
  have lease: "lease_ok s" using inv by (simp add: store_inv_def)
  show ?thesis
    unfolding s'
  proof (rule ended_inv [OF inv])
    show "run_of_active active r" if "r \<in> set (st_runs s)" "running_run r" for r
      using active_is_the_run [OF lease own selected_one [OF one(1)] that] .
    show "attempt_of_active active a" if "a \<in> set (st_attempts s)" "running_attempt a" for a
      using active_is_the_attempt [OF lease own selected_one [OF one(2)] that] .
    show "row_ok codec (abandon_run_row (int now) r)" if "row_ok codec r" "run_of_active active r" for r
      using that by (auto simp: row_ok_def abandon_run_row_def run_of_active_def is_terminal_def running_run_def)
  qed (auto simp: run_of_active_def running_run_def abandon_run_row_def abandon_attempt_row_def running_attempt_def)
qed

section \<open>Beginning a run\<close>

lemma reclaim_inv:
  assumes inv: "store_inv codec s" and lease: "st_lease s = Some l" and step: "reclaim_expired_lease l now s = Ok s'"
  shows "store_inv codec s' \<and> history_kept codec s s' \<and> st_lease s' = None
     \<and> map nr_request_id (st_runs s') = map nr_request_id (st_runs s)"
proof -
  let ?owner = "ls_owner_id l"
  have s': "s' = ended (abandon_run_row now) (abandon_attempt_row now) (running_run_of ?owner) (running_attempt_of ?owner) s"
    using step by (auto simp: reclaim_expired_lease_def delete_lease_def ended_def split: if_splits)
  have ok: "lease_ok s" using inv by (simp add: store_inv_def)
  have own: "owns_lease s ?owner" using lease by (simp add: owns_lease_def)
  have run: "running_run_of ?owner r" if "r \<in> set (st_runs s)" "running_run r" for r
    using single_running(2) [OF ok own that that] that(2) by (simp add: running_run_of_def running_run_def)
  have att: "running_attempt_of ?owner a" if "a \<in> set (st_attempts s)" "running_attempt a" for a
    using live_run_of_attempt [OF ok that] run that(2) by (auto simp: running_run_of_def running_attempt_of_def running_attempt_def)
  have "store_inv codec s' \<and> history_kept codec s s'"
    unfolding s'
  proof (rule ended_inv [OF inv])
    show "row_ok codec (abandon_run_row now r)" if "row_ok codec r" "running_run_of ?owner r" for r
      using that by (auto simp: row_ok_def abandon_run_row_def running_run_of_def is_terminal_def running_run_def)
  qed (use run att in \<open>auto simp: running_run_of_def running_run_def abandon_run_row_def abandon_attempt_row_def running_attempt_def\<close>)
  moreover have "st_lease s' = None" by (simp add: s' ended_def)
  moreover have "map nr_request_id (st_runs s') = map nr_request_id (st_runs s)"
    by (simp add: s' ended_def update_where_facts abandon_run_row_def)
  ultimately show ?thesis by blast
qed

lemma take_over_inv:
  assumes inv: "store_inv codec s" and step: "take_over now existing s = Ok s'"
  shows "store_inv codec s' \<and> history_kept codec s s' \<and> st_lease s' = None
     \<and> map nr_request_id (st_runs s') = map nr_request_id (st_runs s)"
proof (cases "st_lease s")
  case None
  then have "s' = s" using step by (auto simp: take_over_def Let_def split: if_splits)
  then show ?thesis using inv None history_kept_refl by simp
next
  case (Some l)
  then show ?thesis using step reclaim_inv [OF inv Some] by (auto simp: take_over_def Let_def split: if_splits)
qed

text \<open>Starting a row and its attempt when nobody holds the lease.\<close>

lemma filter_update_one:
  assumes "\<And>x. x \<in> set xs \<Longrightarrow> \<not> R x" and "\<And>x. R (f x)"
  shows "filter R (update_where P f xs) = map f (filter P xs)"
  using assms by (induction xs) (auto simp: update_where_def)

lemma idle_facts:
  assumes "lease_ok s" "st_lease s = None"
  shows "filter running_run (st_runs s) = []" "filter running_attempt (st_attempts s) = []"
  using assms by (auto simp: lease_ok_def lease_owners_def live_runs_def live_attempts_def)

definition started :: "run_store \<Rightarrow> engine_lease \<Rightarrow> attempt_row \<Rightarrow> run_store" where
  "started s l a = s\<lparr>st_lease := Some l, st_attempts := st_attempts s @ [a]\<rparr>"

lemma restart_inv:
  assumes inv: "store_inv codec s" and idle: "st_lease s = None"
    and one: "selected_count (restartable i) (st_runs s) = 1"
    and t: "t = (clear_staging_rows i s)\<lparr>st_runs := update_where (restartable i) (restart_row (ls_owner_id l) now) (st_runs s)\<rparr>"
    and a: "na_scan_run_id a = i" "na_owner_id a = ls_owner_id l" "na_status a = RunRunning"
  shows "store_inv codec (started t l a) \<and> history_kept codec s (started t l a)"
proof -
  let ?f = "restart_row (ls_owner_id l) now" and ?t = "started t l a"
  have parts: "runs_ok codec s" "lease_ok s" "contexts_ok s" "artifacts_ok s" "inventory_ok s"
    using inv by (simp_all add: store_inv_def)
  have tables: "st_runs ?t = update_where (restartable i) ?f (st_runs s)" "st_attempts ?t = st_attempts s @ [a]"
    "st_contexts ?t = delete_contexts (\<lambda>j. j = i) (st_contexts s)" "st_artifacts ?t = st_artifacts s"
    "st_next_run_id ?t = st_next_run_id s" "st_inventory ?t = st_inventory s" "st_lease ?t = Some l"
    by (simp_all add: t started_def clear_staging_rows_def)
  have ids: "run_ids ?t = run_ids s" "map nr_request_id (st_runs ?t) = map nr_request_id (st_runs s)" "run_keys ?t = run_keys s"
    by (simp_all add: run_ids_def run_keys_def tables update_where_facts restart_row_def)
  obtain r where r: "filter (restartable i) (st_runs s) = [r]"
    using one by (cases "filter (restartable i) (st_runs s)") (auto simp: selected_count_def)
  then have "r \<in> set (filter (restartable i) (st_runs s))" by simp
  then have r_facts: "r \<in> set (st_runs s)" "nr_scan_run_id r = i" "nr_status r = RunAbandoned" by (auto simp: restartable_def)
  have keep: "q \<in> set (st_runs ?t) \<and> nr_scan_run_id q \<noteq> i" if q: "q \<in> set (st_runs s)" "is_terminal (nr_status q)" for q
  proof
    show "q \<in> set (st_runs ?t)"
      unfolding tables using q by (intro update_where_keeps) (auto simp: restartable_def is_terminal_def)
    have "q \<noteq> r" using q(2) r_facts(3) by (auto simp: is_terminal_def)
    then show "nr_scan_run_id q \<noteq> i" using unique_row [OF _ q(1) r_facts(1)] parts(1) r_facts(2) by (auto simp: runs_ok_def)
  qed
  have "row_ok codec q" if mem: "q \<in> set (st_runs ?t)" for q
  proof -
    consider x where "x \<in> set (st_runs s)" "restartable i x" "q = ?f x" | "q \<in> set (st_runs s)"
      using update_where_mem [of q "restartable i" ?f "st_runs s"] mem unfolding tables by blast
    then show ?thesis
    proof cases
      case (1 x)
      then have "row_ok codec x" using parts(1) by (simp add: runs_ok_def)
      then show ?thesis using 1(2,3) by (auto simp: row_ok_def restart_row_def restartable_def is_terminal_def running_run_def)
    qed (use parts(1) in \<open>simp add: runs_ok_def\<close>)
  qed
  then have "runs_ok codec ?t" using parts(1) by (simp add: runs_ok_def ids tables(5))
  moreover have "lease_ok ?t"
  proof -
    have "\<And>x. x \<in> set (st_runs s) \<Longrightarrow> \<not> running_run x" using idle_facts(1) [OF parts(2) idle] by (auto simp: filter_empty_conv)
    then have "filter running_run (st_runs ?t) = [?f r]"
      unfolding tables using filter_update_one [of "st_runs s" running_run ?f "restartable i"] r
      by (simp add: running_run_def restart_row_def)
    moreover have "filter running_attempt (st_attempts ?t) = [a]"
      using idle_facts(2) [OF parts(2) idle] a(3) by (simp add: tables running_attempt_def)
    ultimately show ?thesis
      using a r_facts(2) by (simp add: lease_ok_def live_runs_def live_attempts_def lease_owners_def tables restart_row_def)
  qed
  moreover have "contexts_ok ?t"
    unfolding contexts_ok_def
  proof (intro conjI ballI)
    show "distinct (map cx_scan_run_id (st_contexts ?t))"
      using parts(3) by (simp add: tables delete_contexts_ids contexts_ok_def)
    fix c assume "c \<in> set (st_contexts ?t)"
    then obtain d where d: "d \<in> set (st_contexts s)" "cx_scan_run_id d = cx_scan_run_id c" "cx_artifact_id d = cx_artifact_id c"
      unfolding tables using delete_contexts_mem by blast
    then have "context_ok s d" using parts(3) by (simp add: contexts_ok_def)
    then show "context_ok ?t c" using keep d(2,3) by (auto simp: context_ok_def artifact_ids_def tables)
  qed
  ultimately have "store_inv codec ?t"
    using parts(4,5) by (simp add: store_inv_def artifacts_ok_def inventory_ok_def artifact_sizes_def tables)
  moreover have "history_kept codec s ?t"
    unfolding history_kept_def ids tables(5)
  proof (intro conjI ballI impI)
    show "artifacts_kept codec s ?t" by (simp add: artifacts_kept_def artifact_ids_def tables)
    fix q assume q: "q \<in> set (st_runs s)" "is_terminal (nr_status q)"
    note kept = keep [OF q]
    then have "context_artifact ?t (nr_scan_run_id q) = context_artifact s (nr_scan_run_id q)"
      using delete_contexts_find [of "\<lambda>j. j = i" "nr_scan_run_id q" "st_contexts s"] by (simp add: context_artifact_def tables)
    then show "result_kept codec s ?t q" using kept by (simp add: result_kept_def tables)
  qed simp_all
  ultimately show ?thesis ..
qed

lemma new_run_inv:
  assumes inv: "store_inv codec s" and idle: "st_lease s = None"
    and row: "nr_scan_run_id row = st_next_run_id s" "nr_owner_id row = ls_owner_id l" "nr_status row = RunRunning"
      "row_ok codec row" "nr_request_id row \<notin> set (map nr_request_id (st_runs s))"
    and t: "t = s\<lparr>st_runs := st_runs s @ [row], st_next_run_id := st_next_run_id s + 1\<rparr>"
    and a: "na_scan_run_id a = st_next_run_id s" "na_owner_id a = ls_owner_id l" "na_status a = RunRunning"
  shows "store_inv codec (started t l a) \<and> history_kept codec s (started t l a)"
proof -
  let ?t = "started t l a"
  have parts: "runs_ok codec s" "lease_ok s" "contexts_ok s" "artifacts_ok s" "inventory_ok s"
    using inv by (simp_all add: store_inv_def)
  have tables: "st_runs ?t = st_runs s @ [row]" "st_attempts ?t = st_attempts s @ [a]" "st_contexts ?t = st_contexts s"
    "st_artifacts ?t = st_artifacts s" "st_next_run_id ?t = st_next_run_id s + 1" "st_inventory ?t = st_inventory s"
    "st_lease ?t = Some l" "run_ids ?t = run_ids s @ [st_next_run_id s]"
    using row(1) by (simp_all add: t started_def run_ids_def)
  have "runs_ok codec ?t" unfolding runs_ok_def
  proof (intro conjI ballI)
    have less: "\<forall>i \<in> set (run_ids s). i < st_next_run_id s" using parts(1) by (simp add: runs_ok_def)
    show "distinct (run_ids ?t)" using parts(1) less by (auto simp: tables runs_ok_def)
    show "i < st_next_run_id ?t" if "i \<in> set (run_ids ?t)" for i using that less by (auto simp: tables)
    show "distinct (map nr_request_id (st_runs ?t))" using parts(1) row(5) by (simp add: tables runs_ok_def)
    show "row_ok codec r" if "r \<in> set (st_runs ?t)" for r using that parts(1) row(4) by (auto simp: tables runs_ok_def)
  qed
  moreover have "lease_ok ?t"
    using idle_facts [OF parts(2) idle] a row(1-3)
    by (simp add: lease_ok_def live_runs_def live_attempts_def lease_owners_def tables running_run_def running_attempt_def)
  moreover have "contexts_ok ?t"
    using parts(3) by (auto simp: contexts_ok_def context_ok_def artifact_ids_def tables)
  ultimately have "store_inv codec ?t"
    using parts(4,5) by (simp add: store_inv_def artifacts_ok_def inventory_ok_def artifact_sizes_def tables)
  moreover have "history_kept codec s ?t"
    using row(1) by (auto simp: history_kept_def tables result_kept_def context_artifact_def artifacts_kept_def artifact_ids_def
        run_keys_def)
  ultimately show ?thesis ..
qed

text \<open>The whole call. What it starts is the one running run, and it belongs to the request.\<close>

definition is_active :: "run_store \<Rightarrow> active_run \<Rightarrow> bool" where
  "is_active s active \<longleftrightarrow> owns_lease s (ac_owner_id active)
     \<and> (\<exists>r \<in> set (st_runs s). run_of_active active r \<and> nr_request_id r = ac_request_id active)"

lemma query_existing_Some: "query_existing_run s q = Some r \<Longrightarrow> r \<in> set (st_runs s) \<and> nr_request_id r = q"
  by (auto simp: query_existing_run_def find_Some_iff)

lemma query_existing_None: "query_existing_run s q = None \<Longrightarrow> q \<notin> set (map nr_request_id (st_runs s))"
  by (auto simp: query_existing_run_def find_None_iff)

lemma replay_Some: "replay c s = Ok (Some out) \<Longrightarrow> \<exists>e. out = Stored e"
  by (auto simp: replay_def split: option.splits if_splits)

lemma begin_transaction_started:
  assumes "begin_transaction c now s = Ok (s', Started active)"
  obtains t l u i where "replay c s = Ok None" "take_over now (query_existing_run s (bc_request_id c)) s = Ok t"
    "st_lease t = None" "ls_owner_id l = bc_owner_id c"
    "start_row c now (query_existing_run s (bc_request_id c)) (t\<lparr>st_lease := Some l\<rparr>) = Ok (u, i)"
    "s' = u\<lparr>st_attempts := st_attempts u @ [new_attempt_row c now i (next_attempt_number i u)]\<rparr>"
    "active = \<lparr>ac_scan_run_id = i, ac_attempt_number = next_attempt_number i u, ac_owner_id = bc_owner_id c,
       ac_request_id = bc_request_id c\<rparr>"
proof -
  obtain stored where "replay c s = Ok stored" using assms by (auto simp: begin_transaction_def)
  moreover have "stored = None"
    using assms calculation replay_Some [of c s] by (cases stored) (auto simp: begin_transaction_def)
  ultimately have none: "replay c s = Ok None" by simp
  let ?existing = "query_existing_run s (bc_request_id c)"
  obtain t expires v u i where parts: "take_over now ?existing s = Ok t" "insert_lease c now expires t = Ok v"
    "start_row c now ?existing v = Ok (u, i)"
    "s' = u\<lparr>st_attempts := st_attempts u @ [new_attempt_row c now i (next_attempt_number i u)]\<rparr>"
    "active = \<lparr>ac_scan_run_id = i, ac_attempt_number = next_attempt_number i u, ac_owner_id = bc_owner_id c,
       ac_request_id = bc_request_id c\<rparr>"
    using assms by (auto simp: begin_transaction_def none Let_def)
  obtain l where "st_lease t = None" "v = t\<lparr>st_lease := Some l\<rparr>" "ls_owner_id l = bc_owner_id c"
    using parts(2) by (auto simp: insert_lease_def split: option.splits)
  with that none parts show thesis by metis
qed

lemma begin_transaction_stored:
  "begin_transaction c now s = Ok (s', Stored e) \<Longrightarrow> s' = s \<and> replay c s = Ok (Some (Stored e))"
  by (auto simp: begin_transaction_def Let_def split: option.splits)

lemma start_row_inv:
  assumes inv: "store_inv codec t" and idle: "st_lease t = None" and l: "ls_owner_id l = bc_owner_id c"
    and valid: "sc_request_hash codec (kq_json (bc_canonical c)) = kq_hash (bc_canonical c)"
    and existing: "\<And>r. existing = Some r \<Longrightarrow> \<exists>q \<in> set (st_runs t). nr_request_id q = bc_request_id c \<and> nr_scan_run_id q = nr_scan_run_id r"
      "existing = None \<Longrightarrow> bc_request_id c \<notin> set (map nr_request_id (st_runs t))"
    and step: "start_row c now existing (t\<lparr>st_lease := Some l\<rparr>) = Ok (u, i)"
    and a: "na_scan_run_id a = i" "na_owner_id a = bc_owner_id c" "na_status a = RunRunning"
  shows "store_inv codec (u\<lparr>st_attempts := st_attempts u @ [a]\<rparr>) \<and> history_kept codec t (u\<lparr>st_attempts := st_attempts u @ [a]\<rparr>)
     \<and> st_lease u = Some l
     \<and> (\<exists>r \<in> set (st_runs u). nr_scan_run_id r = i \<and> nr_owner_id r = bc_owner_id c \<and> nr_status r = RunRunning
          \<and> nr_request_id r = bc_request_id c)"
proof (cases existing)
  case None
  then have u: "i = st_next_run_id t"
      "u = t\<lparr>st_lease := Some l, st_runs := st_runs t @ [new_run_row c now (st_next_run_id t)], st_next_run_id := st_next_run_id t + 1\<rparr>"
    using step by (auto simp: start_row_def)
  let ?v = "t\<lparr>st_runs := st_runs t @ [new_run_row c now (st_next_run_id t)], st_next_run_id := st_next_run_id t + 1\<rparr>"
  have "store_inv codec (started ?v l a) \<and> history_kept codec t (started ?v l a)"
    by (rule new_run_inv [OF inv idle, where row = "new_run_row c now (st_next_run_id t)"])
      (use a u(1) l valid existing(2) [OF None] in
        \<open>simp_all add: new_run_row_def row_ok_def is_terminal_def running_run_def\<close>)
  moreover have "u\<lparr>st_attempts := st_attempts u @ [a]\<rparr> = started ?v l a" by (simp add: u started_def)
  ultimately show ?thesis using u(1) by (simp add: u(2) new_run_row_def)
next
  case (Some r)
  have i: "i = nr_scan_run_id r" and one: "selected_count (restartable i) (st_runs t) = 1"
    and u: "u = (clear_staging_rows i (t\<lparr>st_lease := Some l\<rparr>))
        \<lparr>st_runs := update_where (restartable i) (restart_row (bc_owner_id c) now) (st_runs t)\<rparr>"
    using step by (auto simp: start_row_def Some)
  let ?v = "(clear_staging_rows i t)\<lparr>st_runs := update_where (restartable i) (restart_row (ls_owner_id l) now) (st_runs t)\<rparr>"
  have "store_inv codec (started ?v l a) \<and> history_kept codec t (started ?v l a)"
    by (rule restart_inv [OF inv idle one refl]) (use a l in simp_all)
  moreover have "u\<lparr>st_attempts := st_attempts u @ [a]\<rparr> = started ?v l a"
    by (simp add: u started_def clear_staging_rows_def l)
  moreover have "\<exists>q \<in> set (st_runs u). nr_scan_run_id q = i \<and> nr_owner_id q = bc_owner_id c \<and> nr_status q = RunRunning
          \<and> nr_request_id q = bc_request_id c"
  proof -
    obtain x where x: "x \<in> set (st_runs t)" "restartable i x" using selected_one [OF one] by blast
    obtain q where q: "q \<in> set (st_runs t)" "nr_request_id q = bc_request_id c" "nr_scan_run_id q = i"
      using existing(1) [OF Some] i by blast
    have "x = q" using unique_row [of t x q] inv x q by (auto simp: store_inv_def runs_ok_def restartable_def)
    then have "restart_row (bc_owner_id c) now x \<in> set (st_runs u)" using x by (auto simp: u update_where_def)
    then show ?thesis using q \<open>x = q\<close>
      by (intro bexI [of _ "restart_row (bc_owner_id c) now x"]) (simp_all add: restart_row_def)
  qed
  ultimately show ?thesis by (simp add: u clear_staging_rows_def)
qed

text \<open>The row of a request keeps its number when its lease is taken over.\<close>

lemma reclaimed_row:
  assumes "take_over now existing s = Ok t" and "r \<in> set (st_runs s)"
  shows "\<exists>q \<in> set (st_runs t). nr_request_id q = nr_request_id r \<and> nr_scan_run_id q = nr_scan_run_id r"
proof (cases "st_lease s")
  case None
  then show ?thesis using assms by (auto simp: take_over_def Let_def split: if_splits)
next
  case (Some l)
  let ?P = "running_run_of (ls_owner_id l)"
  have "st_runs t = update_where ?P (abandon_run_row now) (st_runs s)"
    using assms(1) Some by (auto simp: take_over_def Let_def reclaim_expired_lease_def delete_lease_def split: if_splits)
  then have "(if ?P r then abandon_run_row now r else r) \<in> set (st_runs t)" using assms(2) by (auto simp: update_where_def)
  then show ?thesis by (intro bexI) (auto simp: abandon_run_row_def)
qed

lemma begin_transaction_inv:
  assumes inv: "store_inv codec s" and codec: "bc_codec c = codec"
    and valid: "sc_request_hash codec (kq_json (bc_canonical c)) = kq_hash (bc_canonical c)"
    and step: "begin_transaction c now s = Ok (s', out)"
  shows "store_inv codec s' \<and> history_kept codec s s' \<and> (\<forall>active. out = Started active \<longrightarrow> is_active s' active)"
proof (cases out)
  case (Stored e)
  then show ?thesis using begin_transaction_stored step inv history_kept_refl by blast
next
  case (Started active)
  let ?existing = "query_existing_run s (bc_request_id c)"
  obtain t l u i where parts: "take_over now ?existing s = Ok t" "st_lease t = None" "ls_owner_id l = bc_owner_id c"
    "start_row c now ?existing (t\<lparr>st_lease := Some l\<rparr>) = Ok (u, i)"
    "s' = u\<lparr>st_attempts := st_attempts u @ [new_attempt_row c now i (next_attempt_number i u)]\<rparr>"
    "active = \<lparr>ac_scan_run_id = i, ac_attempt_number = next_attempt_number i u, ac_owner_id = bc_owner_id c,
       ac_request_id = bc_request_id c\<rparr>"
    using begin_transaction_started step unfolding Started by metis
  note over = take_over_inv [OF inv parts(1)]
  have started: "store_inv codec s' \<and> history_kept codec t s' \<and> st_lease u = Some l
     \<and> (\<exists>r \<in> set (st_runs u). nr_scan_run_id r = i \<and> nr_owner_id r = bc_owner_id c \<and> nr_status r = RunRunning
          \<and> nr_request_id r = bc_request_id c)"
    unfolding parts(5)
  proof (rule start_row_inv [OF _ parts(2,3) valid _ _ parts(4)])
    show "store_inv codec t" using over by blast
    show "\<exists>q \<in> set (st_runs t). nr_request_id q = bc_request_id c \<and> nr_scan_run_id q = nr_scan_run_id r" if "?existing = Some r" for r
      using reclaimed_row [OF parts(1)] query_existing_Some [OF that] by metis
    show "bc_request_id c \<notin> set (map nr_request_id (st_runs t))" if "?existing = None"
      using query_existing_None [OF that] over by simp
  qed (simp_all add: new_attempt_row_def)
  moreover have "history_kept codec s s'" using history_kept_trans over started inv by (auto simp: store_inv_def)
  moreover have "is_active s' active"
    using started by (auto simp: is_active_def owns_lease_def parts(3,5,6) run_of_active_def)
  ultimately show ?thesis using Started by simp
qed

lemma begin_inv:
  assumes inv: "store_inv codec s" and codec: "bc_codec c = codec" and step: "begin_run c seen s = Ok (s', out)"
  shows "store_inv codec s' \<and> history_kept codec s s' \<and> (\<forall>active. out = Started active \<longrightarrow> is_active s' active)"
proof -
  obtain now stored where parts: "validate_begin c = Ok now" "replay c seen = Ok stored"
      "(case stored of Some outcome \<Rightarrow> Ok (s, outcome) | None \<Rightarrow> begin_transaction c now s) = Ok (s', out)"
    using step by (auto simp: begin_run_def)
  have valid: "sc_request_hash codec (kq_json (bc_canonical c)) = kq_hash (bc_canonical c)"
    using parts(1) codec by (auto simp: validate_begin_def validate_canonical_def)
  show ?thesis
  proof (cases stored)
    case None
    then show ?thesis using begin_transaction_inv [OF inv codec valid] parts(3) by simp
  next
    case (Some outcome)
    then have "s' = s" "out = outcome" using parts(3) by simp_all
    moreover have "\<exists>e. outcome = Stored e" using parts(2) Some by (auto simp: replay_def split: option.splits if_splits)
    ultimately show ?thesis using inv history_kept_refl by auto
  qed
qed

section \<open>The inventory\<close>

lemma upsert_row_ids:
  "set (map (iv_file_identity \<circ> fst) (upsert_row run r rows)) = insert (iv_file_identity r) (set (map (iv_file_identity \<circ> fst) rows))
   \<and> (distinct (map (iv_file_identity \<circ> fst) rows) \<longrightarrow> distinct (map (iv_file_identity \<circ> fst) (upsert_row run r rows)))"
proof (cases "in_inventory rows (iv_file_identity r)")
  case True
  have "map (iv_file_identity \<circ> fst) (upsert_row run r rows) = map (iv_file_identity \<circ> fst) rows"
    using True by (auto simp: upsert_row_def)
  moreover have "iv_file_identity r \<in> set (map (iv_file_identity \<circ> fst) rows)"
    using True by (force simp: in_inventory_def list_ex_iff)
  ultimately show ?thesis by (simp add: insert_absorb)
next
  case False
  then show ?thesis by (auto simp: upsert_row_def in_inventory_def list_ex_iff)
qed

lemma upserts_distinct:
  "distinct (map (iv_file_identity \<circ> fst) rows) \<Longrightarrow> distinct (map (iv_file_identity \<circ> fst) (fold (upsert_row run) rs rows))"
  by (induction rs arbitrary: rows) (simp_all add: upsert_row_ids)

lemma upsert_inventory_inv:
  assumes "store_inv codec s" "upsert_inventory run rs s = Ok s'"
  shows "store_inv codec s' \<and> history_kept codec s s'"
proof -
  have s': "s' = s\<lparr>st_inventory := fold (upsert_row run) rs (st_inventory s)\<rparr>"
    using assms(2) by (auto simp: upsert_inventory_def split: if_splits)
  have "store_inv codec s'"
    using assms(1) upserts_distinct [of "st_inventory s" run rs]
    by (simp add: s' store_inv_def runs_ok_def lease_ok_def contexts_ok_def context_ok_def artifacts_ok_def inventory_ok_def
        run_ids_def artifact_ids_def artifact_sizes_def)
  moreover have "history_kept codec s s'" by (rule history_keptI) (simp_all add: s' run_keys_def)
  ultimately show ?thesis ..
qed

lemma prepare_batches_inv:
  "store_inv codec s \<Longrightarrow> prepare_batches looks run k cs existed s = (s', out) \<Longrightarrow> store_inv codec s' \<and> history_kept codec s s'"
proof (induction cs arbitrary: k existed s)
  case (Cons c cs)
  show ?case
  proof (cases "upsert_inventory run c s")
    case (Ok t)
    note one = upsert_inventory_inv [OF Cons.prems(1) Ok]
    have "store_inv codec s' \<and> history_kept codec t s' \<or> s' = s"
      using Cons.IH [of t] Cons.prems(2) one Ok by (auto split: if_splits)
    then show ?thesis using one Cons.prems(1) history_kept_trans history_kept_refl by (auto simp: store_inv_def)
  qed (use Cons.prems history_kept_refl in \<open>auto split: if_splits\<close>)
qed (use history_kept_refl in auto)

lemma prepare_inventory_inv:
  "store_inv codec s \<Longrightarrow> prepare_inventory looks rs run now s = (s', out) \<Longrightarrow> store_inv codec s' \<and> history_kept codec s s'"
  using prepare_batches_inv history_kept_refl by (auto simp: prepare_inventory_def split: result.splits)

end
