(* ===== verification/Store_Commit.thy ===== *)
theory Store_Commit
  imports Store_Transactions
begin

text \<open>
  The transaction of \<open>finalize\<close>, stage by stage: it keeps the invariant and what is over, and leaves
  the run with its metadata, its context and the text of its envelope.
\<close>

section \<open>Sizes are not negative\<close>

lemma utf8_len_nonneg: "0 \<le> utf8_len s"
  unfolding utf8_len_def by (rule sum_list_nonneg) (auto simp: utf8_width_def)

lemma saturating_add_nonneg: "0 \<le> a \<Longrightarrow> 0 \<le> b \<Longrightarrow> 0 \<le> i64_saturating_add a b"
  by (auto simp: i64_saturating_add_def i64_clamp_def I64_MAX_def)

lemma saturating_fold_nonneg: "0 \<le> a \<Longrightarrow> \<forall>x \<in> set xs. 0 \<le> x \<Longrightarrow> 0 \<le> foldl i64_saturating_add a xs"
  by (induction xs arbitrary: a) (simp_all add: saturating_add_nonneg)

lemma file_execution_audit_size_nonneg: "0 \<le> file_execution_audit_size snap r"
  unfolding file_execution_audit_size_def saturating_sum_def
  by (rule saturating_fold_nonneg) (auto simp: utf8_len_nonneg nullable_bytes_def split: option.splits)

lemma compute_audit_size_nonneg: "0 \<le> compute_audit_size codec b"
proof -
  have "0 \<le> foldl i64_saturating_add (utf8_len (fb_envelope_json b))
       ((case Option.bind (fb_execution_metrics b) xv_refill_audit of
           None \<Rightarrow> [] | Some refill \<Rightarrow> [utf8_len (sc_refill_json codec refill) * 2 + 32])
        @ concat (map (page_audit_bytes codec) (fb_file_results b)))"
    by (rule saturating_fold_nonneg)
      (auto simp: utf8_len_nonneg page_audit_bytes_def split: option.splits intro!: add_nonneg_nonneg mult_nonneg_nonneg)
  moreover have "0 \<le> sum_list (map (\<lambda>r. utf8_len (fr_relative_path r) + 256
         + file_execution_audit_size (fb_snapshot_hit b \<noteq> None) r) (fb_file_results b))"
    "0 \<le> sum_list (map (\<lambda>d. utf8_len (dg_message (rg_diagnostic d)) + 160) (fb_diagnostics b))"
    "0 \<le> sum_list (map (\<lambda>m. utf8_len (xm_extension m) + 64) (fb_extension_metrics b))"
    "0 \<le> sum_list (map (\<lambda>d. utf8_len (cd_relative_path (bd_decision d)) + 160) ds)" for ds
    by (rule sum_list_nonneg, clarsimp simp: utf8_len_nonneg file_execution_audit_size_nonneg add_nonneg_nonneg)+
  ultimately show ?thesis
    unfolding compute_audit_size_def by (auto simp: utf8_len_nonneg split: option.splits intro!: add_nonneg_nonneg)
qed

section \<open>The artifact\<close>

lemma insert_artifact_inv:
  assumes inv: "store_inv codec s" and ins: "insert_artifact known draft key json bytes now (st_artifacts s) = Ok (t, i)"
  shows "store_inv codec (s\<lparr>st_artifacts := t\<rparr>) \<and> history_kept codec s (s\<lparr>st_artifacts := t\<rparr>)"
proof -
  let ?s = "s\<lparr>st_artifacts := t\<rparr>"
  have parts: "runs_ok codec s" "lease_ok s" "contexts_ok s" "artifacts_ok s" "inventory_ok s"
    using inv by (simp_all add: store_inv_def)
  note facts = insert_artifact_Ok [OF ins]
  have ids: "artifact_ids ?s = artifact_ids s @ [i]" by (simp add: artifact_ids_def facts(3))
  have less: "a < i" if "a \<in> set (artifact_ids s)" for a
    using that parts(4) by (auto simp: artifacts_ok_def artifact_tables_ok_def artifact_ids_def facts(1))
  have "artifacts_ok ?s"
    using insert_artifact_tables_ok [OF _ ins] parts(4) facts(2) by (auto simp: artifacts_ok_def artifact_sizes_def facts(3))
  moreover have "contexts_ok ?s"
    using parts(3) by (auto simp: contexts_ok_def context_ok_def ids)
  ultimately have "store_inv codec ?s"
    using parts by (simp add: store_inv_def runs_ok_def lease_ok_def inventory_ok_def run_ids_def)
  moreover have "history_kept codec s ?s"
    unfolding history_kept_def
  proof (intro conjI ballI impI)
    show "artifacts_kept codec s ?s"
      unfolding artifacts_kept_def
    proof (intro conjI ballI impI)
      show "at_next_artifact_id (st_artifacts s) \<le> at_next_artifact_id (st_artifacts ?s)" by (simp add: facts(3) facts(1))
      fix a assume a: "a \<in> set (artifact_ids ?s)" "a < at_next_artifact_id (st_artifacts s)"
      then have "a \<noteq> i" using facts(1) by simp
      then show "a \<in> set (artifact_ids s)" using a(1) by (simp add: ids)
      show "load_artifact codec (st_artifacts ?s) a = load_artifact codec (st_artifacts s) a"
        using load_artifact_insert_other [OF ins \<open>a \<noteq> i\<close>] by simp
    qed
    fix r assume r: "r \<in> set (st_runs s)"
    have "load_artifact codec t a = load_artifact codec (st_artifacts s) a"
      if refers: "context_artifact s (nr_scan_run_id r) = Some a" for a
    proof -
      obtain c where "c \<in> set (st_contexts s)" "cx_artifact_id c = Some a"
        using context_artifact_referenced [OF refers] by (auto simp: referenced_def list_ex_iff)
      then have "a \<in> set (artifact_ids s)" using parts(3) by (auto simp: contexts_ok_def context_ok_def)
      then show ?thesis using less load_artifact_insert_other [OF ins] by fastforce
    qed
    then show "result_kept codec s ?s r" using r by (simp add: result_kept_def context_artifact_def)
  qed (simp_all add: run_ids_def run_keys_def)
  ultimately show ?thesis ..
qed

text \<open>What the context of the run will refer to, and that it reads back.\<close>

definition artifact_written :: "store_codec \<Rightarrow> finalization_batch \<Rightarrow> prepared_finalization \<Rightarrow> run_store \<Rightarrow> int \<Rightarrow> bool" where
  "artifact_written codec b p t i \<longleftrightarrow>
     (case fb_snapshot_hit b of
        Some hit \<Rightarrow> i = hr_artifact_id hit
      | None \<Rightarrow> \<exists>draft. fb_artifact b = Some draft
          \<and> (case pf_dedup_artifact_id p of Some j \<Rightarrow> i = j | None \<Rightarrow> load_artifact codec (st_artifacts t) i = Ok draft))"

text \<open>A draft its constructor built, with counts of 64 bits and a summary that \<open>serde_json\<close> reads back.\<close>

definition well_built :: "store_codec \<Rightarrow> artifact_draft \<Rightarrow> bool" where
  "well_built codec d \<longleftrightarrow> (\<exists>elig ctx summary files decisions. ArtifactDraft_new codec elig ctx summary files decisions = Ok d)
     \<and> u64_draft d \<and> sc_parse_semantic codec (sc_semantic_json codec (dr_semantic_summary d)) = Some (dr_semantic_summary d)"

definition json_prepared :: "store_codec \<Rightarrow> finalization_batch \<Rightarrow> prepared_finalization \<Rightarrow> bool" where
  "json_prepared codec b p \<longleftrightarrow>
     pf_semantic_json p = map_option (\<lambda>d. sc_semantic_json codec (dr_semantic_summary d)) (fb_artifact b)"

lemma write_artifact_inv:
  assumes inv: "store_inv codec s" and step: "write_artifact p b s = Ok (t, i)" and json: "json_prepared codec b p"
    and built: "\<And>d. fb_artifact b = Some d \<Longrightarrow> well_built codec d"
  shows "store_inv codec t \<and> history_kept codec s t \<and> artifact_written codec b p t i
     \<and> set (st_runs t) \<subseteq> set (st_runs s) \<and> lease_owners (st_lease t) = lease_owners (st_lease s)"
proof (cases "fb_snapshot_hit b")
  case (Some hit)
  then have "t = s" "i = hr_artifact_id hit" using step by (auto simp: write_artifact_def)
  then show ?thesis
    using inv history_kept_refl Some by (simp add: artifact_written_def)
next
  case None
  then obtain draft where draft: "fb_artifact b = Some draft" "dr_snapshot_eligible draft \<longleftrightarrow> fb_snapshot_key b \<noteq> None"
    using step by (auto simp: write_artifact_def)
  show ?thesis
  proof (cases "pf_dedup_artifact_id p")
    case (Some j)
    then have "t = s" "i = j" using step None draft by (auto simp: write_artifact_def)
    then show ?thesis
      using inv history_kept_refl Some None draft by (simp add: artifact_written_def)
  next
    case no_twin: None
    then obtain bytes u tables where parts: "apply_artifact_retention_plan (pf_plan p) (pf_protected_runs p) (pf_protected_artifacts p) s = Ok u"
      "insert_artifact (known_files u) draft (fb_snapshot_key b) (sc_semantic_json codec (dr_semantic_summary draft)) bytes (pf_now_ms p)
         (st_artifacts u) = Ok (tables, i)"
      "t = u\<lparr>st_artifacts := tables\<rparr>"
      using step None draft json by (auto simp: write_artifact_def json_prepared_def ok_or_def split: option.splits)
    have retained: "retention_step (pf_protected_runs p) (pf_protected_artifacts p) s u" by (rule artifact_retention_step [OF parts(1)])
    note one = retention_step_inv [OF inv retained]
    have two: "store_inv codec t \<and> history_kept codec u t"
      unfolding parts(3) by (rule insert_artifact_inv [OF _ parts(2)]) (use one in simp)
    obtain elig ctx summary files decisions where new: "ArtifactDraft_new codec elig ctx summary files decisions = Ok draft"
      and fits: "u64_draft draft"
        "sc_parse_semantic codec (sc_semantic_json codec (dr_semantic_summary draft)) = Some (dr_semantic_summary draft)"
      using built [OF draft(1)] by (auto simp: well_built_def)
    note built_facts = draft_new_facts [OF new]
    have "artifact_tables_ok (st_artifacts u)" using one by (simp add: store_inv_def artifacts_ok_def)
    then have "load_artifact codec tables i = Ok draft"
      using load_artifact_insert [OF _ parts(2)] built_facts draft(2) fits by blast
    then have "artifact_written codec b p t i" using None no_twin draft by (simp add: artifact_written_def parts(3))
    moreover have "history_kept codec s t" using history_kept_trans one two inv by (auto simp: store_inv_def)
    moreover have "set (st_runs t) \<subseteq> set (st_runs s) \<and> lease_owners (st_lease t) = lease_owners (st_lease s)"
      using retained parts(3) by (auto simp: retention_step_def)
    ultimately show ?thesis using two by blast
  qed
qed

section \<open>The context and the end of the run\<close>

lemma insert_context_Ok:
  assumes "insert_context i c artifact snap reused now s = Ok s'"
  shows "s' = s\<lparr>st_contexts := st_contexts s @ [\<lparr>cx_scan_run_id = i, cx_context = c, cx_created_at_ms = now,
      cx_artifact_id = artifact, cx_reused_from_context_run_id = reused, cx_snapshot_hit = snap\<rparr>]\<rparr>"
    "i \<notin> cx_scan_run_id ` set (st_contexts s)" "\<And>a. artifact = Some a \<Longrightarrow> a \<in> set (artifact_ids s)"
    "cn_status c = RunError \<longleftrightarrow> artifact = None"
  using assms by (auto simp: insert_context_def Let_def list_ex_iff artifact_ids_def context_checks_def)

text \<open>From the tables with the artifact: the context is added, if there is one, and the run ends.\<close>

definition context_added :: "int \<Rightarrow> context_row option \<Rightarrow> run_store \<Rightarrow> run_store" where
  "context_added i row s = (case row of None \<Rightarrow> s | Some c \<Rightarrow> s\<lparr>st_contexts := st_contexts s @ [c]\<rparr>)"

lemma find_append_other: "(\<And>c. c \<in> set ys \<Longrightarrow> \<not> P c) \<Longrightarrow> find P (xs @ ys) = find P xs"
  by (induction xs) (auto simp: find_None_iff)

lemma end_with_context_inv:
  assumes inv: "store_inv codec s" and own: "owns_lease s (ac_owner_id active)"
    and row: "\<And>c. row = Some c \<Longrightarrow> cx_scan_run_id c = ac_scan_run_id active
        \<and> ac_scan_run_id active \<notin> cx_scan_run_id ` set (st_contexts s) \<and> (\<forall>a. cx_artifact_id c = Some a \<longrightarrow> a \<in> set (artifact_ids s))"
    and step: "finish_rows active p status (context_added i row s) = Ok u"
    and terminal: "is_terminal status" and audit: "0 \<le> pf_audit_size p"
  shows "store_inv codec (u\<lparr>st_lease := None\<rparr>) \<and> history_kept codec s (u\<lparr>st_lease := None\<rparr>)
     \<and> u\<lparr>st_lease := None\<rparr> = (ended (finish_run_row p status) (finish_attempt_row p status) (run_of_active active) (attempt_of_active active) s)
         \<lparr>st_contexts := st_contexts s @ (case row of None \<Rightarrow> [] | Some c \<Rightarrow> [c])\<rparr>
     \<and> (\<exists>r \<in> set (st_runs s). run_of_active active r)"
proof -
  let ?e = "ended (finish_run_row p status) (finish_attempt_row p status) (run_of_active active) (attempt_of_active active) s"
  let ?new = "case row of None \<Rightarrow> [] | Some c \<Rightarrow> [c]"
  have lease: "lease_ok s" using inv by (simp add: store_inv_def)
  have one: "selected_count (run_of_active active) (st_runs s) = 1" "selected_count (attempt_of_active active) (st_attempts s) = 1"
    and u: "u\<lparr>st_lease := None\<rparr> = ?e\<lparr>st_contexts := st_contexts s @ ?new\<rparr>"
    using step by (auto simp: finish_rows_def context_added_def ended_def split: option.splits)
  obtain r where r: "r \<in> set (st_runs s)" "run_of_active active r" using selected_one [OF one(1)] by blast
  have e: "store_inv codec ?e \<and> history_kept codec s ?e"
  proof (rule ended_inv [OF inv])
    show "run_of_active active r" if "r \<in> set (st_runs s)" "running_run r" for r
      using active_is_the_run [OF lease own selected_one [OF one(1)] that] .
    show "attempt_of_active active a" if "a \<in> set (st_attempts s)" "running_attempt a" for a
      using active_is_the_attempt [OF lease own selected_one [OF one(2)] that] .
    show "row_ok codec (finish_run_row p status r)" if "row_ok codec r" "run_of_active active r" for r
      using that terminal audit by (auto simp: row_ok_def finish_run_row_def)
    show "\<not> running_attempt (finish_attempt_row p status a)" for a
      using terminal by (auto simp: running_attempt_def finish_attempt_row_def is_terminal_def)
  qed (use terminal in \<open>auto simp: run_of_active_def running_run_def finish_run_row_def is_terminal_def\<close>)
  have finished: "finish_run_row p status r \<in> set (st_runs ?e)" using r by (auto simp: ended_def update_where_def)
  have same: "st_contexts ?e = st_contexts s" "st_artifacts ?e = st_artifacts s" by (simp_all add: ended_def)
  have "contexts_ok (?e\<lparr>st_contexts := st_contexts s @ ?new\<rparr>)"
    unfolding contexts_ok_def
  proof (intro conjI ballI)
    have old: "contexts_ok ?e" using e by (simp add: store_inv_def)
    show "distinct (map cx_scan_run_id (st_contexts (?e\<lparr>st_contexts := st_contexts s @ ?new\<rparr>)))"
      using old row by (auto simp: contexts_ok_def same split: option.splits)
    fix c assume "c \<in> set (st_contexts (?e\<lparr>st_contexts := st_contexts s @ ?new\<rparr>))"
    then consider "c \<in> set (st_contexts ?e)" | "row = Some c" by (auto simp: same split: option.splits)
    then show "context_ok (?e\<lparr>st_contexts := st_contexts s @ ?new\<rparr>) c"
    proof cases
      case 1
      then show ?thesis using old by (simp add: contexts_ok_def context_ok_def artifact_ids_def)
    next
      case 2
      have "nr_scan_run_id (finish_run_row p status r) = ac_scan_run_id active" "is_terminal (nr_status (finish_run_row p status r))"
        using r(2) terminal by (simp_all add: finish_run_row_def run_of_active_def)
      then show ?thesis using row [OF 2] finished by (auto simp: context_ok_def artifact_ids_def same)
    qed
  qed
  then have "store_inv codec (u\<lparr>st_lease := None\<rparr>)"
    using e unfolding u by (simp add: store_inv_def runs_ok_def lease_ok_def artifacts_ok_def inventory_ok_def run_ids_def artifact_sizes_def)
  moreover have "history_kept codec s (u\<lparr>st_lease := None\<rparr>)"
    unfolding history_kept_def
  proof (intro conjI ballI impI)
    show "artifacts_kept codec s (u\<lparr>st_lease := None\<rparr>)" unfolding u by (simp add: artifacts_kept_def artifact_ids_def same)
    have runs: "run_ids (u\<lparr>st_lease := None\<rparr>) = run_ids ?e" "run_keys (u\<lparr>st_lease := None\<rparr>) = run_keys ?e" "st_next_run_id (u\<lparr>st_lease := None\<rparr>) = st_next_run_id ?e"
      unfolding u by (simp_all add: run_ids_def run_keys_def)
    show "st_next_run_id s \<le> st_next_run_id (u\<lparr>st_lease := None\<rparr>)" using e by (simp add: runs history_kept_def)
    show "k \<in> set (run_keys s)" if "k \<in> set (run_keys (u\<lparr>st_lease := None\<rparr>))" "fst k < st_next_run_id s" for k
      using that e by (simp add: runs history_kept_def)
    fix q assume q: "q \<in> set (st_runs s)" "is_terminal (nr_status q)" "nr_scan_run_id q \<in> set (run_ids (u\<lparr>st_lease := None\<rparr>))"
    have kept: "result_kept codec s ?e q" using q e by (simp add: runs history_kept_def)
    have "q \<noteq> r" using r(2) q(2) by (auto simp: run_of_active_def is_terminal_def)
    then have "nr_scan_run_id q \<noteq> ac_scan_run_id active"
      using unique_row [of s q r] inv q(1) r by (auto simp: store_inv_def runs_ok_def run_of_active_def)
    then have "context_artifact (u\<lparr>st_lease := None\<rparr>) (nr_scan_run_id q) = context_artifact s (nr_scan_run_id q)"
      unfolding u context_artifact_def using row find_append_other [of ?new "\<lambda>c. cx_scan_run_id c = nr_scan_run_id q" "st_contexts s"]
      by (cases row) simp_all
    then show "result_kept codec s (u\<lparr>st_lease := None\<rparr>) q"
      using kept unfolding u by (simp add: result_kept_def)
  qed
  ultimately show ?thesis using u r by blast
qed

section \<open>The transaction\<close>

definition context_written ::
  "store_codec \<Rightarrow> finalization_batch \<Rightarrow> prepared_finalization \<Rightarrow> run_store \<Rightarrow> context_row option \<Rightarrow> bool" where
  "context_written codec b p t row \<longleftrightarrow>
     (case fb_context b of
        None \<Rightarrow> row = None
      | Some c \<Rightarrow> \<exists>x. row = Some x \<and> cx_context x = c
          \<and> (if fb_status b = RunError then cx_artifact_id x = None
             else \<exists>a. cx_artifact_id x = Some a \<and> artifact_written codec b p t a))"

lemma write_context_inv:
  assumes inv: "store_inv codec s" and step: "write_context active p b s = Ok s'" and json: "json_prepared codec b p"
    and built: "\<And>d. fb_artifact b = Some d \<Longrightarrow> well_built codec d"
  obtains t row where "store_inv codec t" "history_kept codec s t" "set (st_runs t) \<subseteq> set (st_runs s)"
    "lease_owners (st_lease t) = lease_owners (st_lease s)" "s' = context_added (ac_scan_run_id active) row t"
    "\<And>c. row = Some c \<Longrightarrow> cx_scan_run_id c = ac_scan_run_id active
        \<and> ac_scan_run_id active \<notin> cx_scan_run_id ` set (st_contexts t) \<and> (\<forall>a. cx_artifact_id c = Some a \<longrightarrow> a \<in> set (artifact_ids t))"
    "context_written codec b p t row"
proof (cases "fb_context b")
  case None
  then show thesis
    using step inv history_kept_refl by (intro that [of s None]) (simp_all add: write_context_def context_added_def context_written_def)
next
  case (Some c)
  show thesis
  proof (cases "fb_status b = RunError")
    case True
    then have ins: "insert_context (ac_scan_run_id active) c None False None (pf_now_ms p) s = Ok s'"
      using step Some by (simp add: write_context_def)
    note facts = insert_context_Ok [OF ins]
    define row where "row = \<lparr>cx_scan_run_id = ac_scan_run_id active, cx_context = c, cx_created_at_ms = pf_now_ms p,
      cx_artifact_id = None, cx_reused_from_context_run_id = None, cx_snapshot_hit = False\<rparr>"
    show thesis
      by (rule that [of s "Some row"])
        (use facts True Some inv history_kept_refl in \<open>auto simp: context_added_def context_written_def row_def\<close>)
  next
    case False
    then obtain t a where parts: "write_artifact p b s = Ok (t, a)"
      "insert_context (ac_scan_run_id active) c (Some a) (fb_snapshot_hit b \<noteq> None)
         (map_option hr_reused_from_context_run_id (fb_snapshot_hit b)) (pf_now_ms p) t = Ok s'"
      using step Some by (auto simp: write_context_def)
    note facts = insert_context_Ok [OF parts(2)]
    note art = write_artifact_inv [OF inv parts(1) json built]
    define row where "row = \<lparr>cx_scan_run_id = ac_scan_run_id active, cx_context = c, cx_created_at_ms = pf_now_ms p,
      cx_artifact_id = Some a, cx_reused_from_context_run_id = map_option hr_reused_from_context_run_id (fb_snapshot_hit b),
      cx_snapshot_hit = (fb_snapshot_hit b \<noteq> None)\<rparr>"
    show thesis
      by (rule that [of t "Some row"])
        (use facts art False Some in \<open>auto simp: context_added_def context_written_def row_def\<close>)
  qed
qed

lemma retention_step_lease:
  "retention_step pr pa s t \<Longrightarrow> retention_step pr pa (s\<lparr>st_lease := l\<rparr>) (t\<lparr>st_lease := l\<rparr>)"
proof -
  have comm: "(delete_artifacts agone (delete_runs gone s))\<lparr>st_lease := l\<rparr> = delete_artifacts agone (delete_runs gone (s\<lparr>st_lease := l\<rparr>))" for agone gone
    by (simp add: delete_artifacts_def delete_runs_def Let_def)
  assume "retention_step pr pa s t"
  then obtain gone agone where t: "t = delete_artifacts agone (delete_runs gone s)"
      "\<forall>i. gone i \<longrightarrow> i \<notin> pr \<and> (\<exists>r \<in> set (st_runs s). nr_scan_run_id r = i \<and> collectable r)"
      "\<forall>a. agone a \<longrightarrow> a \<notin> pa \<and> \<not> referenced t a"
    unfolding retention_step_def by blast
  have "referenced (t\<lparr>st_lease := l\<rparr>) = referenced t" by (simp add: referenced_def fun_eq_iff)
  then show ?thesis
    unfolding retention_step_def using t comm
    by (intro exI [of _ gone] exI [of _ agone]) simp
qed

lemma retention_step_run:
  assumes "retention_step pr pa s t" "i \<in> pr"
  shows "\<And>r. r \<in> set (st_runs s) \<Longrightarrow> nr_scan_run_id r = i \<Longrightarrow> r \<in> set (st_runs t)"
    "context_artifact t i = context_artifact s i"
proof -
  obtain gone agone where t: "t = delete_artifacts agone (delete_runs gone s)" "\<not> gone i"
    using assms unfolding retention_step_def by blast
  show "\<And>r. r \<in> set (st_runs s) \<Longrightarrow> nr_scan_run_id r = i \<Longrightarrow> r \<in> set (st_runs t)" using t by auto
  have "st_contexts t = delete_contexts gone (st_contexts s)" by (simp add: t delete_runs_def Let_def)
  then show "context_artifact t i = context_artifact s i"
    using delete_contexts_find [of gone i, OF t(2)] by (simp add: context_artifact_def)
qed

text \<open>The run in the tables after the commit.\<close>

definition run_committed ::
  "store_codec \<Rightarrow> active_run \<Rightarrow> finalization_batch \<Rightarrow> prepared_finalization \<Rightarrow> run_store \<Rightarrow> run_store \<Rightarrow> bool" where
  "run_committed codec active b p s s' \<longleftrightarrow>
     (\<exists>r \<in> set (st_runs s). run_of_active active r \<and> finish_run_row p (fb_status b) (r\<lparr>nr_updated_at_ms := pf_now_ms p\<rparr>) \<in> set (st_runs s'))
     \<and> (if fb_context b = None \<or> fb_status b = RunError then context_artifact s' (ac_scan_run_id active) = None
        else \<exists>a. context_artifact s' (ac_scan_run_id active) = Some a \<and> artifact_written codec b p s' a)"

lemma context_artifact_present:
  assumes "contexts_ok s" "context_artifact s i = Some a"
  shows "a \<in> set (artifact_ids s)"
proof -
  obtain c where "c \<in> set (st_contexts s)" "cx_artifact_id c = Some a"
    using context_artifact_referenced [OF assms(2)] by (auto simp: referenced_def list_ex_iff)
  then show ?thesis using assms(1) by (auto simp: contexts_ok_def context_ok_def)
qed

lemma finalize_transaction_commits:
  assumes inv: "store_inv codec s" and step: "finalize_transaction codec active b tt commit_open p s = Ok s'"
    and json: "json_prepared codec b p" and built: "\<And>d. fb_artifact b = Some d \<Longrightarrow> well_built codec d"
    and terminal: "is_terminal (fb_status b)" and audit: "0 \<le> pf_audit_size p"
    and protected: "ac_scan_run_id active \<in> pf_protected_runs p"
  shows "store_inv codec s' \<and> history_kept codec s s' \<and> run_committed codec active b p s s' \<and> st_lease s' = None"
proof -
  let ?i = "ac_scan_run_id active"
  obtain s1 s2 s3 u w x where parts: "heartbeat_in_transaction active (pf_now_ms p) s = Ok s1"
    "insert_audit active b s1 = Ok s2" "write_context active p b s2 = Ok s3" "finish_rows active p (fb_status b) s3 = Ok u"
    "apply_terminal_retention_plan (pf_plan p) (pf_protected_runs p) u = Ok w"
    "write_execution_metrics active tt p b w = Ok x" "s' = x\<lparr>st_lease := None\<rparr>"
    using step by (auto simp: finalize_transaction_def delete_lease_def split: if_splits)
  note beat = heartbeat_bookkeeping [OF parts(1)]
  have one: "store_inv codec s1 \<and> history_kept codec s s1" by (rule bookkeeping_inv [OF inv beat(1)])
  have two: "store_inv codec s2 \<and> history_kept codec s1 s2"
    using bookkeeping_inv insert_audit_bookkeeping [OF parts(2)] one by blast
  obtain t row where t: "store_inv codec t" "history_kept codec s2 t" "set (st_runs t) \<subseteq> set (st_runs s2)"
    "lease_owners (st_lease t) = lease_owners (st_lease s2)" "s3 = context_added ?i row t"
    "\<And>c. row = Some c \<Longrightarrow> cx_scan_run_id c = ?i \<and> ?i \<notin> cx_scan_run_id ` set (st_contexts t)
       \<and> (\<forall>a. cx_artifact_id c = Some a \<longrightarrow> a \<in> set (artifact_ids t))"
    "context_written codec b p t row"
    using write_context_inv [OF _ parts(3) json built] two by metis
  have "lease_owners (st_lease t) = [ac_owner_id active]"
    using t(4) beat(1,2) insert_audit_bookkeeping [OF parts(2)]
    by (auto simp: bookkeeping_def owns_lease_def lease_owners_def split: option.splits)
  then have own: "owns_lease t (ac_owner_id active)" by (auto simp: owns_lease_def lease_owners_def split: option.splits)
  let ?u = "u\<lparr>st_lease := None\<rparr>" and ?w = "w\<lparr>st_lease := None\<rparr>"
  note ending = end_with_context_inv [OF t(1) own t(6) parts(4) [unfolded t(5)] terminal audit]
  then have u: "store_inv codec ?u" "history_kept codec t ?u"
    "?u = (ended (finish_run_row p (fb_status b)) (finish_attempt_row p (fb_status b)) (run_of_active active) (attempt_of_active active) t)
       \<lparr>st_contexts := st_contexts t @ (case row of None \<Rightarrow> [] | Some c \<Rightarrow> [c])\<rparr>"
    by blast+
  obtain q where q: "q \<in> set (st_runs t)" "run_of_active active q" using ending by blast
  have ret: "retention_step (pf_protected_runs p) {} ?u ?w"
    by (rule retention_step_lease [OF terminal_retention_step [OF parts(5)]])
  have w: "store_inv codec ?w \<and> history_kept codec ?u ?w" by (rule retention_step_inv [OF u(1) ret])
  have "bookkeeping ?w s'"
    using parts(6,7) by (auto simp: write_execution_metrics_def Let_def bookkeeping_def touched_refl split: option.splits)
  then have last: "store_inv codec s' \<and> history_kept codec ?w s'" using bookkeeping_inv w by blast
  have same: "st_runs s' = st_runs ?w" "st_contexts s' = st_contexts ?w" "st_artifacts s' = st_artifacts ?w"
    using parts(6,7) by (auto simp: write_execution_metrics_def Let_def split: option.splits)
  have trans: "history_kept codec x z"
    if "store_inv codec x" "history_kept codec x y" "history_kept codec y z" for x y z
    by (rule history_kept_trans [OF _ that(2,3)]) (use that(1) in \<open>simp add: store_inv_def\<close>)
  have ok: "runs_ok codec x" if "store_inv codec x" for x using that by (simp add: store_inv_def)
  have tail: "history_kept codec t s'"
    by (rule trans [OF t(1) trans [OF t(1) u(2) conjunct2 [OF w]] conjunct2 [OF last]])
  have kept: "history_kept codec s s'"
    by (rule trans [OF inv trans [OF inv trans [OF inv conjunct2 [OF one] conjunct2 [OF two]] t(2)] tail])
  have "run_committed codec active b p s s'"
    unfolding run_committed_def
  proof
    have "q \<in> set (st_runs s1)" using q(1) t(3) parts(2) by (auto simp: insert_audit_def Let_def)
    moreover have "st_runs s1 = update_where (run_of_active active) (\<lambda>r. r\<lparr>nr_updated_at_ms := pf_now_ms p\<rparr>) (st_runs s)"
      by (rule beat(5))
    ultimately have "q \<in> set (update_where (run_of_active active) (\<lambda>r. r\<lparr>nr_updated_at_ms := pf_now_ms p\<rparr>) (st_runs s))" by simp
    then obtain r where r: "r \<in> set (st_runs s)" "run_of_active active r" "q = r\<lparr>nr_updated_at_ms := pf_now_ms p\<rparr>"
      using update_where_mem [of q "run_of_active active"] q(2) by blast
    have "finish_run_row p (fb_status b) q \<in> set (st_runs ?u)" using q unfolding u(3) by (auto simp: ended_def update_where_def)
    then have "finish_run_row p (fb_status b) q \<in> set (st_runs s')"
      using retention_step_run(1) [OF ret protected] q(2) unfolding same by (simp add: finish_run_row_def run_of_active_def)
    then show "\<exists>r \<in> set (st_runs s). run_of_active active r
        \<and> finish_run_row p (fb_status b) (r\<lparr>nr_updated_at_ms := pf_now_ms p\<rparr>) \<in> set (st_runs s')" using r by auto
    have ctx: "context_artifact s' ?i = context_artifact ?u ?i"
      using retention_step_run(2) [OF ret protected] same(2) by (simp add: context_artifact_def)
    have row_ctx: "context_artifact ?u ?i = Option.bind row cx_artifact_id" if present: "row \<noteq> None"
    proof -
      obtain c where c: "row = Some c" using present by auto
      then have "find (\<lambda>d. cx_scan_run_id d = ?i) (st_contexts t) = None" using t(6) [OF c] by (force simp: find_None_iff)
      then show ?thesis unfolding u(3) context_artifact_def using c t(6) [OF c] by (simp add: find_append_None)
    qed
    have no_ctx: "context_artifact t ?i = None"
    proof (rule ccontr)
      assume "context_artifact t ?i \<noteq> None"
      then obtain c where "c \<in> set (st_contexts t)" "cx_scan_run_id c = ?i"
        using find_None_iff [of "\<lambda>c. cx_scan_run_id c = ?i" "st_contexts t"] by (auto simp: context_artifact_def)
      then obtain z where "z \<in> set (st_runs t)" "nr_scan_run_id z = ?i" "is_terminal (nr_status z)"
        using t(1) by (auto simp: store_inv_def contexts_ok_def context_ok_def)
      then show False using unique_row [of t z q] q ok [OF t(1)] by (auto simp: runs_ok_def run_of_active_def is_terminal_def)
    qed
    show "if fb_context b = None \<or> fb_status b = RunError then context_artifact s' ?i = None
        else \<exists>a. context_artifact s' ?i = Some a \<and> artifact_written codec b p s' a"
    proof (cases "fb_context b")
      case None
      then have "row = None" using t(7) by (simp add: context_written_def)
      then have "context_artifact ?u ?i = context_artifact t ?i" unfolding u(3) by (simp add: context_artifact_def)
      then show ?thesis using None no_ctx ctx by simp
    next
      case (Some c)
      then obtain z where z: "row = Some z" "if fb_status b = RunError then cx_artifact_id z = None
          else \<exists>a. cx_artifact_id z = Some a \<and> artifact_written codec b p t a"
        using t(7) by (auto simp: context_written_def)
      then have here: "context_artifact s' ?i = cx_artifact_id z" using ctx row_ctx by simp
      have "artifact_written codec b p s' a" if a: "cx_artifact_id z = Some a" "artifact_written codec b p t a" for a
      proof -
        have "a \<in> set (artifact_ids s')" using context_artifact_present [of s' ?i a] last here a(1) by (simp add: store_inv_def)
        moreover have "a < at_next_artifact_id (st_artifacts t)"
          using t(1,6) z(1) a(1) by (auto simp: store_inv_def artifacts_ok_def artifact_tables_ok_def artifact_ids_def)
        ultimately have "load_artifact codec (st_artifacts s') a = load_artifact codec (st_artifacts t) a"
          using tail by (auto simp: history_kept_def artifacts_kept_def)
        then show ?thesis using a(2) by (auto simp: artifact_written_def split: option.splits)
      qed
      then show ?thesis using z(2) here Some by auto
    qed
  qed
  then show ?thesis using last kept parts(7) by simp
qed

end
