(* ===== verification/Store_Steps.thy ===== *)
theory Store_Steps
  imports Store_Commit
begin

text \<open>
  The database over time. A configuration is the store with the runs that were handed out; a step is
  one call of the store by anybody who may make it. A call that fails leaves the store as it was
  (an inventory call keeps the batches it has committed). Owners are drawn at random, so a new one
  is not among those handed out.
\<close>

section \<open>Steps\<close>

type_synonym configuration = "run_store \<times> active_run set"

definition issued :: "begin_outcome \<Rightarrow> active_run set \<Rightarrow> active_run set" where
  "issued out A = (case out of Started active \<Rightarrow> insert active A | Stored _ \<Rightarrow> A)"

inductive store_step :: "store_codec \<Rightarrow> configuration \<Rightarrow> configuration \<Rightarrow> bool" for codec where
  step_begin: "bc_codec c = codec \<Longrightarrow> bc_owner_id c \<notin> ac_owner_id ` A \<Longrightarrow> begin_run c seen s = Ok (s', out) \<Longrightarrow>
     store_step codec (s, A) (s', issued out A)"
| step_record: "active \<in> A \<Longrightarrow> record_worker_fingerprints active office pdf now s = Ok s' \<Longrightarrow> store_step codec (s, A) (s', A)"
| step_heartbeat: "active \<in> A \<Longrightarrow> heartbeat active now s = Ok s' \<Longrightarrow> store_step codec (s, A) (s', A)"
| step_abandon: "active \<in> A \<Longrightarrow> abandon_active_run active now s = Ok s' \<Longrightarrow> store_step codec (s, A) (s', A)"
| step_inventory: "prepare_inventory looks records run now s = (s', out) \<Longrightarrow> store_step codec (s, A) (s', A)"
| step_finalize: "active \<in> A \<Longrightarrow> (\<And>d. fb_artifact b = Some d \<Longrightarrow> well_built codec d) \<Longrightarrow>
     finalize codec active b now looks tt seen s = Ok s' \<Longrightarrow> store_step codec (s, A) (s', A)"
| step_gc: "run_opportunistic_gc now budget looks s = Ok s' \<Longrightarrow> store_step codec (s, A) (s', A)"

inductive_cases store_step_cases: "store_step codec (s, A) (s', A')"

definition empty_store :: run_store where
  "empty_store = \<lparr>st_lease = None, st_runs = [], st_attempts = [], st_next_run_id = 1, st_inventory = [],
     st_audit = \<lparr>au_file_results = [], au_file_execution = [], au_diagnostics = [], au_stage_metrics = [],
       au_extension_metrics = [], au_execution_metrics = []\<rparr>,
     st_contexts = [], st_artifacts = \<lparr>at_artifacts = [], at_files = [], at_decisions = [], at_next_artifact_id = 1\<rparr>\<rparr>"

section \<open>Preparation\<close>

lemma prepare_facts:
  assumes "prepare_finalization codec active b now seen = Ok p"
  obtains e m snapshot rebuilt where "validate_finalization codec active b = Ok e" "pf_envelope p = e"
    "envelope_metadata_of e (Option.bind (fb_execution_metrics b) xv_refill_audit) (fb_file_results b) = Ok m"
    "pf_metadata_json p = sc_metadata_json codec m" "load_snapshot_artifact codec seen b = Ok snapshot"
    "dedup_of codec seen b = Ok (pf_dedup_artifact_id p)" "pf_audit_size p = compute_audit_size codec b"
    "ac_scan_run_id active \<in> pf_protected_runs p" "json_prepared codec b p"
    "\<exists>m'. sc_parse_metadata codec (sc_metadata_json codec m) = Some m'
       \<and> rebuild_envelope m' (en_summary e) (artifact_for_rebuild snapshot b) = Ok rebuilt"
    "canonical_envelope_json codec rebuilt = Ok (fb_envelope_json b)"
  using assms by (auto simp: prepare_finalization_def json_prepared_def Let_def)

lemma validated_facts:
  assumes "validate_finalization codec active b = Ok e"
  shows "is_terminal (fb_status b)" "validate_context_envelope e = Ok ()" "canonical_envelope_json codec e = Ok (fb_envelope_json b)"
    "en_request_id e = ac_request_id active" "map_option int (en_scan_run_id e) = Some (ac_scan_run_id active)"
    "envelope_status_matches (fb_status b) (en_status e)" "fb_context b = None \<longleftrightarrow> en_context_run_id e = None"
  using assms by (auto simp: validate_finalization_def validate_batch_envelope_def final_status_matches_eq
      split: option.splits if_splits)

lemma finalize_inv:
  assumes inv: "store_inv codec s" and step: "finalize codec active b now looks tt seen s = Ok s'"
    and built: "\<And>d. fb_artifact b = Some d \<Longrightarrow> well_built codec d"
  obtains p where "prepare_finalization codec active b now seen = Ok p" "store_inv codec s'" "history_kept codec s s'"
    "run_committed codec active b p s s'" "st_lease s' = None"
proof -
  obtain opened commit_open p where parts: "prepare_finalization codec active b now seen = Ok p"
    "finalize_transaction codec active b tt commit_open p s = Ok s'"
    using step by (auto simp: finalize_def split: prod.splits)
  obtain e where e: "validate_finalization codec active b = Ok e" "pf_audit_size p = compute_audit_size codec b"
    "ac_scan_run_id active \<in> pf_protected_runs p" "json_prepared codec b p"
    using prepare_facts [OF parts(1)] by metis
  have "0 \<le> pf_audit_size p" using compute_audit_size_nonneg e(2) by simp
  from finalize_transaction_commits [OF inv parts(2) e(4) built validated_facts(1) [OF e(1)] this e(3)]
  show thesis using that parts(1) by blast
qed

section \<open>Configurations\<close>

text \<open>Owners are handed out once, and a run that was handed out keeps its request.\<close>

definition configuration_inv :: "store_codec \<Rightarrow> configuration \<Rightarrow> bool" where
  "configuration_inv codec c \<longleftrightarrow> store_inv codec (fst c) \<and> inj_on ac_owner_id (snd c)
     \<and> (\<forall>a \<in> snd c. ac_scan_run_id a < st_next_run_id (fst c)
         \<and> (\<forall>k \<in> set (run_keys (fst c)). fst k = ac_scan_run_id a \<longrightarrow> snd k = ac_request_id a))"

lemma step_store:
  assumes "store_step codec (s, A) (s', A')" and inv: "store_inv codec s"
  shows "store_inv codec s' \<and> history_kept codec s s'"
  using assms(1)
proof (cases rule: store_step.cases)
  case step_begin
  then show ?thesis using begin_inv [OF inv] by blast
next
  case step_record
  then show ?thesis using record_bookkeeping [OF inv] by blast
next
  case step_heartbeat
  then show ?thesis using bookkeeping_inv [OF inv] heartbeat_bookkeeping(1) by (auto simp: heartbeat_def)
next
  case step_abandon
  then show ?thesis using abandon_inv [OF inv] by blast
next
  case step_inventory
  then show ?thesis using prepare_inventory_inv [OF inv] by blast
next
  case step_finalize
  then show ?thesis using finalize_inv [OF inv] by metis
next
  case step_gc
  then show ?thesis using retention_step_inv [OF inv gc_step] by blast
qed

lemma keys_kept:
  assumes "configuration_inv codec (s, A)" "history_kept codec s s'" "a \<in> A"
  shows "ac_scan_run_id a < st_next_run_id s' \<and> (\<forall>k \<in> set (run_keys s'). fst k = ac_scan_run_id a \<longrightarrow> snd k = ac_request_id a)"
proof
  have less: "ac_scan_run_id a < st_next_run_id s" using assms by (simp add: configuration_inv_def)
  then show "ac_scan_run_id a < st_next_run_id s'" using assms(2) by (auto simp: history_kept_def)
  show "\<forall>k \<in> set (run_keys s'). fst k = ac_scan_run_id a \<longrightarrow> snd k = ac_request_id a"
    using assms less by (auto simp: history_kept_def configuration_inv_def)
qed

lemma issued_cases: "a \<in> issued out A \<Longrightarrow> a \<in> A \<or> out = Started a"
  by (auto simp: issued_def split: begin_outcome.splits)

lemma is_active_keys:
  assumes "store_inv codec s" "is_active s a"
  shows "ac_scan_run_id a < st_next_run_id s \<and> (\<forall>k \<in> set (run_keys s). fst k = ac_scan_run_id a \<longrightarrow> snd k = ac_request_id a)"
proof -
  obtain r where r: "r \<in> set (st_runs s)" "nr_scan_run_id r = ac_scan_run_id a" "nr_request_id r = ac_request_id a"
    using assms(2) by (auto simp: is_active_def run_of_active_def)
  have "snd k = ac_request_id a" if k: "k \<in> set (run_keys s)" "fst k = ac_scan_run_id a" for k
  proof -
    obtain q where q: "q \<in> set (st_runs s)" "k = (nr_scan_run_id q, nr_request_id q)" using k(1) by (auto simp: run_keys_def)
    have "distinct (run_ids s)" using assms(1) by (simp add: store_inv_def runs_ok_def)
    then have "q = r" using unique_row [OF _ q(1) r(1)] q(2) k(2) r(2) by simp
    then show ?thesis using q(2) r(3) by simp
  qed
  moreover have "ac_scan_run_id a < st_next_run_id s" using run_ids_mem [OF r(1)] r(2) assms(1) by (auto simp: store_inv_def runs_ok_def)
  ultimately show ?thesis by blast
qed

lemma begin_run_started:
  assumes "begin_run c seen s = Ok (s', Started a)"
  shows "\<exists>now. begin_transaction c now s = Ok (s', Started a)"
proof -
  obtain stored where stored: "replay c seen = Ok stored" using assms by (auto simp: begin_run_def)
  then have "stored = None"
    using assms replay_Some [of c seen] by (cases stored) (auto simp: begin_run_def)
  then show ?thesis using assms stored by (auto simp: begin_run_def)
qed

lemma step_configuration:
  assumes "configuration_inv codec (s, A)" and step: "store_step codec (s, A) (s', A')"
  shows "configuration_inv codec (s', A')"
proof -
  have inv: "store_inv codec s" using assms(1) by (simp add: configuration_inv_def)
  note kept = step_store [OF step inv]
  have old: "ac_scan_run_id a < st_next_run_id s' \<and> (\<forall>k \<in> set (run_keys s'). fst k = ac_scan_run_id a \<longrightarrow> snd k = ac_request_id a)"
    if "a \<in> A" for a using keys_kept [OF assms(1) conjunct2 [OF kept] that] .
  consider (same) "A' = A" | (fresh) c seen out where "bc_codec c = codec" "bc_owner_id c \<notin> ac_owner_id ` A"
      "begin_run c seen s = Ok (s', out)" "A' = issued out A"
    using step by (cases rule: store_step_cases) auto
  then show ?thesis
  proof cases
    case same
    then show ?thesis using kept old assms(1) by (simp add: configuration_inv_def)
  next
    case fresh
    have new: "is_active s' a \<and> ac_owner_id a = bc_owner_id c" if "out = Started a" for a
    proof
      show "is_active s' a" using begin_inv [OF inv fresh(1,3)] that by blast
      show "ac_owner_id a = bc_owner_id c"
        using begin_run_started [OF fresh(3) [unfolded that]] begin_transaction_started by (metis active_run.select_convs(3))
    qed
    have keys: "ac_scan_run_id a < st_next_run_id s' \<and> (\<forall>k \<in> set (run_keys s'). fst k = ac_scan_run_id a \<longrightarrow> snd k = ac_request_id a)"
      if "a \<in> A'" for a
    proof (cases "a \<in> A")
      case False
      then have "out = Started a" using issued_cases that fresh(4) by blast
      then show ?thesis using new is_active_keys kept by blast
    qed (rule old)
    have "inj_on ac_owner_id A'"
    proof (cases out)
      case (Started a)
      have "inj_on ac_owner_id A" using assms(1) by (simp add: configuration_inv_def)
      then show ?thesis using new [OF Started] fresh(2,4) Started by (auto simp: issued_def)
    qed (use assms(1) fresh(4) in \<open>simp add: issued_def configuration_inv_def\<close>)
    then show ?thesis using kept keys by (simp add: configuration_inv_def)
  qed
qed

section \<open>Any number of steps\<close>

text \<open>What a system promises across its steps when each step keeps an invariant and a record of the past.\<close>

locale kept_record =
  fixes step :: "'c \<Rightarrow> 'c \<Rightarrow> bool" and inv :: "'c \<Rightarrow> bool" and kept :: "'c \<Rightarrow> 'c \<Rightarrow> bool"
  assumes step_inv: "inv c \<Longrightarrow> step c d \<Longrightarrow> inv d"
    and step_kept: "inv c \<Longrightarrow> step c d \<Longrightarrow> kept c d"
    and kept_refl: "kept c c"
    and kept_trans: "inv c \<Longrightarrow> kept c d \<Longrightarrow> kept d e \<Longrightarrow> kept c e"
begin

lemma steps_inv: "step\<^sup>*\<^sup>* c d \<Longrightarrow> inv c \<Longrightarrow> inv d"
  by (induction rule: rtranclp_induct) (auto intro: step_inv)

lemma steps_kept: "step\<^sup>*\<^sup>* c d \<Longrightarrow> inv c \<Longrightarrow> kept c d"
proof (induction rule: rtranclp_induct)
  case base
  show ?case by (rule kept_refl)
next
  case (step d e)
  then have "inv d" using steps_inv by blast
  then show ?case using step step_kept kept_trans by blast
qed

end

interpretation store: kept_record "store_step codec" "configuration_inv codec" "\<lambda>c d. history_kept codec (fst c) (fst d)"
proof
  fix c d e
  show "configuration_inv codec d" if "configuration_inv codec c" "store_step codec c d"
    using step_configuration that by (cases c; cases d) simp
  show "history_kept codec (fst c) (fst d)" if "configuration_inv codec c" "store_step codec c d"
    using step_store that by (cases c; cases d) (auto simp: configuration_inv_def)
  show "history_kept codec (fst c) (fst c)" by (rule history_kept_refl)
  show "history_kept codec (fst c) (fst e)"
    if "configuration_inv codec c" "history_kept codec (fst c) (fst d)" "history_kept codec (fst d) (fst e)"
    by (rule history_kept_trans [OF _ that(2,3)]) (use that(1) in \<open>simp add: configuration_inv_def store_inv_def\<close>)
qed

lemma empty_configuration_inv: "configuration_inv codec (empty_store, {})"
  by (simp add: configuration_inv_def store_inv_def empty_store_def runs_ok_def lease_ok_def contexts_ok_def artifacts_ok_def
      inventory_ok_def run_ids_def live_runs_def live_attempts_def lease_owners_def artifact_tables_ok_def artifact_sizes_def)

end
