(* ===== verification/Store_Replay.thy ===== *)
theory Store_Replay
  imports Store_Steps
begin

text \<open>
  What the database promises over time: one run at a time, results that do not change, a result that
  replays as it was committed, a lease that gives its owner time.
\<close>

section \<open>Rebuilding an envelope\<close>

abbreviation artifact_text :: "artifact_draft option \<Rightarrow> rstring" where
  "artifact_text artifact \<equiv> (case artifact of None \<Rightarrow> [] | Some d \<Rightarrow> dr_final_context d)"

lemma rebuild_cong: "artifact_text a = artifact_text a' \<Longrightarrow> rebuild_envelope m sm a = rebuild_envelope m sm a'"
  by (simp add: rebuild_envelope_def)

lemma rebuild_facts:
  assumes "rebuild_envelope m sm a = Ok e"
  shows "validate_context_envelope e = Ok ()" "en_file_context e = artifact_text a" "en_request_id e = md_request_id m"
    "en_scan_run_id e = md_scan_run_id m" "en_status e = md_status m" "en_context_run_id e = md_context_run_id m"
  using assms by (auto simp: rebuild_envelope_def Let_def)

lemma metadata_facts:
  assumes "envelope_metadata_of e refill rows = Ok m"
  shows "md_request_id m = en_request_id e" "md_scan_run_id m = en_scan_run_id e" "md_status m = en_status e"
    "md_context_run_id m = en_context_run_id e" "md_summary m = en_summary e"
  using assms by (auto simp: envelope_metadata_of_def)

lemma valid_envelope_status: "validate_context_envelope e = Ok () \<Longrightarrow> envelope_status_invariant (en_status e) e = Ok ()"
  by (simp add: validate_context_envelope_def validate_all_Ok)

lemma error_without_text: "validate_context_envelope e = Ok () \<Longrightarrow> en_status e = EngineError \<Longrightarrow> en_file_context e = []"
  by (drule valid_envelope_status) simp

lemma no_context_is_error: "validate_context_envelope e = Ok () \<Longrightarrow> en_context_run_id e = None \<Longrightarrow> en_status e = EngineError"
  by (drule valid_envelope_status) (cases "en_status e"; simp)

section \<open>The artifact of a finished run\<close>

lemma load_artifact_present: "load_artifact codec t a = Ok d \<Longrightarrow> a \<in> set (map fa_artifact_id (at_artifacts t))"
  by (auto simp: load_artifact_def ok_or_def find_Some_iff split: option.splits)

lemma artifact_still_loads:
  assumes "store_inv codec u" "artifacts_kept codec u v" "load_artifact codec (st_artifacts u) a = Ok d" "a \<in> set (artifact_ids v)"
  shows "load_artifact codec (st_artifacts v) a = Ok d"
proof -
  have "a < at_next_artifact_id (st_artifacts u)"
    using load_artifact_present [OF assms(3)] assms(1) by (auto simp: store_inv_def artifacts_ok_def artifact_tables_ok_def)
  then show ?thesis using assms(2-4) by (simp add: artifacts_kept_def)
qed

lemma dedup_loads:
  "dedup_artifact codec t draft key = Ok (Some j) \<Longrightarrow> load_artifact codec t j = Ok draft"
  by (auto simp: dedup_artifact_def split: option.splits if_splits)

lemma written_artifact_loads:
  assumes inv: "store_inv codec seen" and kept: "artifacts_kept codec seen s'" and here: "a \<in> set (artifact_ids s')"
    and snapshot: "load_snapshot_artifact codec seen b = Ok snapshot" and dedup: "dedup_of codec seen b = Ok (pf_dedup_artifact_id p)"
    and written: "artifact_written codec b p s' a"
  shows "\<exists>d. artifact_for_rebuild snapshot b = Some d \<and> load_artifact codec (st_artifacts s') a = Ok d"
proof (cases "fb_snapshot_hit b")
  case (Some hit)
  then obtain d where "snapshot = Some d" "load_artifact codec (st_artifacts seen) a = Ok d"
    using snapshot written by (auto simp: load_snapshot_artifact_def artifact_written_def)
  then show ?thesis using artifact_still_loads [OF inv kept _ here] by (auto simp: artifact_for_rebuild_def)
next
  case None
  then have no_snapshot: "snapshot = None" using snapshot by (simp add: load_snapshot_artifact_def)
  obtain draft where draft: "fb_artifact b = Some draft" "case pf_dedup_artifact_id p of Some j \<Rightarrow> a = j
      | None \<Rightarrow> load_artifact codec (st_artifacts s') a = Ok draft"
    using written None by (auto simp: artifact_written_def)
  have "load_artifact codec (st_artifacts s') a = Ok draft"
  proof (cases "pf_dedup_artifact_id p")
    case (Some j)
    then obtain key where "dedup_artifact codec (st_artifacts seen) draft key = Ok (Some a)"
      using dedup draft by (auto simp: dedup_of_def split: option.splits)
    then show ?thesis using artifact_still_loads [OF inv kept dedup_loads here] by blast
  qed (use draft in simp)
  then show ?thesis using draft(1) no_snapshot by (simp add: artifact_for_rebuild_def)
qed

text \<open>A run without an artifact has an envelope without text, whatever its preparation had at hand.\<close>

lemma committed_text:
  assumes inv: "store_inv codec seen" "store_inv codec s'" and kept: "artifacts_kept codec seen s'"
    and snapshot: "load_snapshot_artifact codec seen b = Ok snapshot" and dedup: "dedup_of codec seen b = Ok (pf_dedup_artifact_id p)"
    and committed: "run_committed codec active b p s s'" and e: "validate_finalization codec active b = Ok e"
    and rebuilt: "rebuild_envelope m sm (artifact_for_rebuild snapshot b) = Ok rebuilt" "md_status m = en_status e"
  shows "\<exists>artifact. load_artifact_for_replay codec s' (ac_scan_run_id active) = Ok artifact
     \<and> artifact_text artifact = artifact_text (artifact_for_rebuild snapshot b)"
proof (cases "fb_context b = None \<or> fb_status b = RunError")
  case True
  have "en_status e = EngineError"
    using True validated_facts(2,6,7) [OF e] no_context_is_error by (cases "en_status e") auto
  then have "artifact_text (artifact_for_rebuild snapshot b) = []"
    using rebuild_facts(1,2,5) [OF rebuilt(1)] error_without_text rebuilt(2) by metis
  moreover have "load_artifact_for_replay codec s' (ac_scan_run_id active) = Ok None"
    using committed True by (simp add: load_artifact_for_replay_eq run_committed_def)
  ultimately show ?thesis by (intro exI [of _ None]) simp
next
  case False
  then obtain a where a: "context_artifact s' (ac_scan_run_id active) = Some a" "artifact_written codec b p s' a"
    using committed by (auto simp: run_committed_def)
  have "a \<in> set (artifact_ids s')" using context_artifact_present a(1) inv(2) by (auto simp: store_inv_def)
  then obtain d where d: "artifact_for_rebuild snapshot b = Some d" "load_artifact codec (st_artifacts s') a = Ok d"
    using written_artifact_loads [OF inv(1) kept _ snapshot dedup a(2)] by blast
  then show ?thesis by (intro exI [of _ "Some d"]) (simp add: load_artifact_for_replay_eq a(1))
qed


section \<open>What a finalisation commits\<close>

text \<open>The metadata of a batch reads back as it was written; documented of \<open>serde_json\<close> for its types.\<close>

definition reads_back :: "store_codec \<Rightarrow> active_run \<Rightarrow> finalization_batch \<Rightarrow> bool" where
  "reads_back codec active b \<longleftrightarrow> (\<forall>e m. validate_finalization codec active b = Ok e \<longrightarrow>
     envelope_metadata_of e (Option.bind (fb_execution_metrics b) xv_refill_audit) (fb_file_results b) = Ok m \<longrightarrow>
     sc_parse_metadata codec (sc_metadata_json codec m) = Some m)"

definition committed_result :: "store_codec \<Rightarrow> active_run \<Rightarrow> finalization_batch \<Rightarrow> run_row \<Rightarrow> run_store \<Rightarrow> run_row \<Rightarrow> bool" where
  "committed_result codec active b r s' r' \<longleftrightarrow> r' \<in> set (st_runs s') \<and> is_terminal (nr_status r')
     \<and> nr_scan_run_id r' = ac_scan_run_id active \<and> nr_request_id r' = nr_request_id r
     \<and> nr_canonical_request_json r' = nr_canonical_request_json r
     \<and> (\<exists>e. load_stored_envelope codec s' r' (ac_request_id active)
          = Ok \<lparr>sv_scan_run_id = ac_scan_run_id active, sv_envelope_json = fb_envelope_json b, sv_envelope = e\<rparr>)"

lemma finalize_result:
  assumes inv: "store_inv codec seen" "store_inv codec s" and kept: "history_kept codec seen s"
    and step: "finalize codec active b now looks tt seen s = Ok s'"
    and built: "\<And>d. fb_artifact b = Some d \<Longrightarrow> well_built codec d" and reads: "reads_back codec active b"
    and r: "r \<in> set (st_runs s)" "nr_scan_run_id r = ac_scan_run_id active"
  shows "\<exists>r'. committed_result codec active b r s' r'"
proof -
  obtain p where p: "prepare_finalization codec active b now seen = Ok p" "store_inv codec s'" "history_kept codec s s'"
    "run_committed codec active b p s s'"
    using finalize_inv [OF inv(2) step built] by metis
  obtain e m snapshot rebuilt where f: "validate_finalization codec active b = Ok e"
    "envelope_metadata_of e (Option.bind (fb_execution_metrics b) xv_refill_audit) (fb_file_results b) = Ok m"
    "pf_metadata_json p = sc_metadata_json codec m" "load_snapshot_artifact codec seen b = Ok snapshot"
    "dedup_of codec seen b = Ok (pf_dedup_artifact_id p)"
    "\<exists>m'. sc_parse_metadata codec (sc_metadata_json codec m) = Some m'
       \<and> rebuild_envelope m' (en_summary e) (artifact_for_rebuild snapshot b) = Ok rebuilt"
    "canonical_envelope_json codec rebuilt = Ok (fb_envelope_json b)"
    using prepare_facts [OF p(1)] by metis
  have parse: "sc_parse_metadata codec (sc_metadata_json codec m) = Some m" using reads f(1,2) by (simp add: reads_back_def)
  note m = metadata_facts [OF f(2)]
  have rebuilt: "rebuild_envelope m (md_summary m) (artifact_for_rebuild snapshot b) = Ok rebuilt"
    using f(6) parse m(5) by simp
  have artifacts: "artifacts_kept codec seen s'" using artifacts_kept_trans kept p(3) by (auto simp: history_kept_def)
  obtain artifact where artifact: "load_artifact_for_replay codec s' (ac_scan_run_id active) = Ok artifact"
    "artifact_text artifact = artifact_text (artifact_for_rebuild snapshot b)"
    using committed_text [OF inv(1) p(2) artifacts f(4,5) p(4) f(1) rebuilt m(3)] by blast
  obtain q where q: "q \<in> set (st_runs s)" "run_of_active active q"
    "finish_run_row p (fb_status b) (q\<lparr>nr_updated_at_ms := pf_now_ms p\<rparr>) \<in> set (st_runs s')"
    using p(4) by (auto simp: run_committed_def)
  have "q = r" using unique_row [OF _ q(1) r(1)] inv(2) q(2) r(2) by (simp add: store_inv_def runs_ok_def run_of_active_def)
  define r' where "r' = finish_run_row p (fb_status b) (r\<lparr>nr_updated_at_ms := pf_now_ms p\<rparr>)"
  have r': "r' \<in> set (st_runs s')" "nr_scan_run_id r' = ac_scan_run_id active" "nr_status r' = fb_status b"
    "nr_final_envelope_metadata_json r' = Some (sc_metadata_json codec m)" "nr_request_id r' = nr_request_id r"
    "nr_canonical_request_json r' = nr_canonical_request_json r"
    using q(3) r(2) f(3) \<open>q = r\<close> by (simp_all add: r'_def finish_run_row_def)
  have "sc_request_hash codec (nr_canonical_request_json r') = nr_request_hash r'"
    using r'(1) p(2) by (auto simp: store_inv_def runs_ok_def row_ok_def)
  moreover have "rebuild_envelope m (md_summary m) artifact = Ok rebuilt" using rebuild_cong [OF artifact(2)] rebuilt by simp
  ultimately have "load_stored_envelope codec s' r' (ac_request_id active)
      = Ok \<lparr>sv_scan_run_id = ac_scan_run_id active, sv_envelope_json = fb_envelope_json b, sv_envelope = rebuilt\<rparr>"
    using validated_facts(1,4,5,6) [OF f(1)] rebuild_facts(3-5) [OF rebuilt] m f(7)
    by (simp add: load_stored_envelope_def rebuild_envelope_from_metadata_def ok_or_def require_store_def parse artifact(1) r')
  then show ?thesis using r' validated_facts(1) [OF f(1)] by (auto simp: committed_result_def)
qed

text \<open>A request whose run is over is answered from the store.\<close>

lemma committed_result_kept:
  assumes "history_kept codec s t" "committed_result codec active b r s r'" "ac_scan_run_id active \<in> set (run_ids t)"
  shows "committed_result codec active b r t r'"
proof -
  have "result_kept codec s t r'" using assms by (simp add: history_kept_def committed_result_def)
  then show ?thesis using assms(2) load_stored_envelope_kept by (auto simp: committed_result_def result_kept_def)
qed

lemma query_existing_unique:
  assumes "store_inv codec s" "r \<in> set (st_runs s)"
  shows "query_existing_run s (nr_request_id r) = Some r"
proof -
  have "distinct (map nr_request_id (st_runs s))" using assms(1) by (simp add: store_inv_def runs_ok_def)
  moreover obtain q where "query_existing_run s (nr_request_id r) = Some q"
    using query_existing_None assms(2) by (cases "query_existing_run s (nr_request_id r)") auto
  ultimately show ?thesis using query_existing_Some [of s _ q] assms(2) by (auto simp: distinct_map inj_on_def)
qed

lemma committed_replay:
  assumes inv: "store_inv codec t" and result: "committed_result codec active b r t r'"
    and call: "bc_codec c = codec" "bc_request_id c = ac_request_id active" "validate_begin c = Ok n"
    and r: "nr_request_id r = ac_request_id active" "kq_json (bc_canonical c) = nr_canonical_request_json r"
  shows "\<exists>e. begin_run c t u = Ok (u, Stored \<lparr>sv_scan_run_id = ac_scan_run_id active,
     sv_envelope_json = fb_envelope_json b, sv_envelope = e\<rparr>)"
proof -
  have r': "r' \<in> set (st_runs t)" "nr_request_id r' = ac_request_id active" "nr_canonical_request_json r' = kq_json (bc_canonical c)"
    "is_terminal (nr_status r')"
    using result r by (simp_all add: committed_result_def)
  have "query_existing_run t (bc_request_id c) = Some r'" using query_existing_unique [OF inv r'(1)] r'(2) call(2) by simp
  moreover have "sc_request_hash codec (kq_json (bc_canonical c)) = kq_hash (bc_canonical c)"
    using call(1,3) by (auto simp: validate_begin_def validate_canonical_def)
  moreover have "row_ok codec r'" using inv r'(1) by (simp add: store_inv_def runs_ok_def)
  ultimately have "replay c t = (case load_stored_envelope codec t r' (ac_request_id active) of Ok e \<Rightarrow> Ok (Some (Stored e)) | Err x \<Rightarrow> Err x)"
    using r' call by (simp add: replay_def ensure_request_hash_def row_ok_def require_store_def split: result.split)
  then show ?thesis using result call(3) by (auto simp: begin_run_def committed_result_def)
qed


section \<open>Reachable stores\<close>

definition reachable :: "store_codec \<Rightarrow> run_store \<Rightarrow> active_run set \<Rightarrow> bool" where
  "reachable codec s A \<longleftrightarrow> (store_step codec)\<^sup>*\<^sup>* (empty_store, {}) (s, A)"

definition later :: "store_codec \<Rightarrow> run_store \<Rightarrow> active_run set \<Rightarrow> run_store \<Rightarrow> active_run set \<Rightarrow> bool" where
  "later codec s A t B \<longleftrightarrow> (store_step codec)\<^sup>*\<^sup>* (s, A) (t, B)"

lemma reachable_inv: "reachable codec s A \<Longrightarrow> configuration_inv codec (s, A) \<and> store_inv codec s"
  using store.steps_inv [OF _ empty_configuration_inv] by (auto simp: reachable_def configuration_inv_def)

lemma reachable_later: "reachable codec s A \<Longrightarrow> later codec s A t B \<Longrightarrow> reachable codec t B"
  by (auto simp: reachable_def later_def)

lemma reachable_step: "reachable codec s A \<Longrightarrow> store_step codec (s, A) (t, B) \<Longrightarrow> reachable codec t B"
  by (auto simp: reachable_def)

lemma later_kept: "reachable codec s A \<Longrightarrow> later codec s A t B \<Longrightarrow> history_kept codec s t"
  using store.steps_kept reachable_inv by (fastforce simp: later_def)

lemma active_request:
  assumes "reachable codec s A" "active \<in> A" "r \<in> set (st_runs s)" "nr_scan_run_id r = ac_scan_run_id active"
  shows "nr_request_id r = ac_request_id active"
  using assms reachable_inv [OF assms(1)] by (auto simp: configuration_inv_def run_keys_def)

lemma owner_is_active:
  assumes reach: "reachable codec s A" "active \<in> A"
    and own: "owns_lease s (ac_owner_id active)" "\<exists>r \<in> set (st_runs s). run_of_active active r"
  shows "is_active s active"
proof -
  obtain r where r: "r \<in> set (st_runs s)" "run_of_active active r" using own(2) by blast
  then have "nr_request_id r = ac_request_id active" using active_request [OF reach] by (simp add: run_of_active_def)
  then show ?thesis using r own(1) by (auto simp: is_active_def)
qed

lemma active_unique:
  assumes "reachable codec s A" "a \<in> A" "b \<in> A" "is_active s a" "is_active s b"
  shows "a = b"
proof -
  have "ac_owner_id a = ac_owner_id b" using assms(4,5) by (auto simp: is_active_def owns_lease_def)
  then show ?thesis using reachable_inv [OF assms(1)] assms(2,3) by (auto simp: configuration_inv_def inj_on_def)
qed

lemma finalize_owner:
  assumes "finalize codec active b now looks tt seen s = Ok s'"
  shows "owns_lease s (ac_owner_id active) \<and> (\<exists>r \<in> set (st_runs s). run_of_active active r)"
proof -
  obtain opened commit_open p where "finalize_transaction codec active b tt commit_open p s = Ok s'"
    using assms by (auto simp: finalize_def split: prod.splits)
  then obtain u where "heartbeat_in_transaction active (pf_now_ms p) s = Ok u" by (auto simp: finalize_transaction_def)
  then show ?thesis using heartbeat_bookkeeping(2,3) by blast
qed

lemma ensure_owner_facts: "ensure_owner active s = Ok u \<Longrightarrow> owns_lease s (ac_owner_id active) \<and> (\<exists>r \<in> set (st_runs s). run_of_active active r)"
  by (auto simp: ensure_owner_def list_ex_iff)

lemma lease_and_running:
  assumes "lease_ok s"
  shows "length (filter running_run (st_runs s)) \<le> 1" "st_lease s = None \<longleftrightarrow> filter running_run (st_runs s) = []"
    "\<And>l r. st_lease s = Some l \<Longrightarrow> r \<in> set (st_runs s) \<Longrightarrow> running_run r \<Longrightarrow> nr_owner_id r = ls_owner_id l"
proof -
  have owners: "map nr_owner_id (filter running_run (st_runs s)) = lease_owners (st_lease s)"
    using assms by (simp add: lease_ok_def live_runs_def o_def)
  have "length (filter running_run (st_runs s)) = length (lease_owners (st_lease s))" using arg_cong [OF owners, of length] by simp
  then show "length (filter running_run (st_runs s)) \<le> 1" by (simp add: lease_owners_def split: option.splits)
  show "st_lease s = None \<longleftrightarrow> filter running_run (st_runs s) = []"
    using owners by (cases "st_lease s") (auto simp: lease_owners_def)
  show "nr_owner_id r = ls_owner_id l" if "st_lease s = Some l" "r \<in> set (st_runs s)" "running_run r" for l r
  proof -
    have "nr_owner_id r \<in> set (map nr_owner_id (filter running_run (st_runs s)))" using that(2,3) by simp
    then show ?thesis unfolding owners by (simp add: lease_owners_def that(1))
  qed
qed

lemma find_unique_row:
  assumes "distinct (run_ids t)" "r \<in> set (st_runs t)" "nr_scan_run_id r = i"
  shows "find (\<lambda>r. nr_scan_run_id r = i) (st_runs t) = Some r"
proof -
  obtain q where q: "find (\<lambda>r. nr_scan_run_id r = i) (st_runs t) = Some q"
    using assms(2,3) by (cases "find (\<lambda>r. nr_scan_run_id r = i) (st_runs t)") (auto simp: find_None_iff)
  then have "q \<in> set (st_runs t)" "nr_scan_run_id q = i" by (auto simp: find_Some_iff)
  then show ?thesis using unique_row [OF assms(1,2)] assms(3) q by simp
qed

lemma begin_run_transaction:
  assumes "begin_run c seen s = Ok (u, Started a)"
  shows "\<exists>m. validate_begin c = Ok m \<and> begin_transaction c m s = Ok (u, Started a)"
proof -
  obtain stored where stored: "replay c seen = Ok stored" using assms by (auto simp: begin_run_def)
  then have "stored = None" using assms replay_Some [of c seen] by (cases stored) (auto simp: begin_run_def)
  then show ?thesis using assms stored by (auto simp: begin_run_def)
qed

section \<open>Taking over\<close>

lemma selected_unique:
  assumes "distinct (map f rows)" "r \<in> set rows" "P r"
  shows "selected_count (\<lambda>q. f q = f r \<and> P q) rows = 1"
proof -
  have "set (filter (\<lambda>q. f q = f r \<and> P q) rows) = {r}" using assms by (auto simp: distinct_map inj_on_def)
  moreover have "distinct (filter (\<lambda>q. f q = f r \<and> P q) rows)" using assms(1) by (simp add: distinct_map)
  ultimately show ?thesis using distinct_card by (fastforce simp: selected_count_def)
qed

text \<open>An open run is waiting when nobody holds a live lease: it has been abandoned, or is now.\<close>

definition lease_free :: "run_store \<Rightarrow> int \<Rightarrow> bool" where
  "lease_free s now \<longleftrightarrow> (case st_lease s of None \<Rightarrow> True | Some l \<Rightarrow> \<not> lease_is_live l now)"

lemma take_over_free:
  assumes inv: "store_inv codec s" and free: "lease_free s now"
    and existing: "\<And>r. existing = Some r \<Longrightarrow> r \<in> set (st_runs s) \<and> \<not> is_terminal (nr_status r)"
  obtains t where "take_over now existing s = Ok t"
    "\<And>r. existing = Some r \<Longrightarrow> \<exists>q \<in> set (st_runs t). nr_scan_run_id q = nr_scan_run_id r \<and> nr_status q = RunAbandoned"
proof -
  have ok: "lease_ok s" using inv by (simp add: store_inv_def)
  note lease = lease_and_running [OF ok]
  have open_run: "nr_status r = RunRunning \<or> nr_status r = RunAbandoned" if "existing = Some r" for r
    using existing [OF that] by (cases "nr_status r") (auto simp: is_terminal_def)
  show thesis
  proof (cases "st_lease s")
    case None
    have idle: "nr_status r = RunAbandoned" if "existing = Some r" for r
      using open_run [OF that] existing [OF that] lease(2) None by (auto simp: filter_empty_conv running_run_def)
    show thesis
    proof (rule that)
      show "take_over now existing s = Ok s" using idle None by (cases existing) (auto simp: take_over_def)
      show "\<exists>q \<in> set (st_runs s). nr_scan_run_id q = nr_scan_run_id r \<and> nr_status q = RunAbandoned" if "existing = Some r" for r
        using existing idle that by blast
    qed
  next
    case (Some l)
    let ?f = "update_where (running_run_of (ls_owner_id l)) (abandon_run_row now)"
    let ?t = "s\<lparr>st_runs := ?f (st_runs s),
      st_attempts := update_where (running_attempt_of (ls_owner_id l)) (abandon_attempt_row now) (st_attempts s), st_lease := None\<rparr>"
    show thesis
    proof (rule that [of ?t])
      show "take_over now existing s = Ok ?t"
        using free Some by (simp add: lease_free_def take_over_def reclaim_expired_lease_def delete_lease_def owns_lease_def)
      show "\<exists>q \<in> set (st_runs ?t). nr_scan_run_id q = nr_scan_run_id r \<and> nr_status q = RunAbandoned" if r: "existing = Some r" for r
      proof -
        let ?q = "if running_run_of (ls_owner_id l) r then abandon_run_row now r else r"
        have "?q \<in> set (?f (st_runs s))" using existing [OF r] by (auto simp: update_where_def)
        moreover have "nr_status ?q = RunAbandoned"
          using open_run [OF r] existing [OF r] lease(3) [OF Some]
          by (auto simp: running_run_of_def running_run_def abandon_run_row_def)
        moreover have "nr_scan_run_id ?q = nr_scan_run_id r" by (simp add: abandon_run_row_def)
        ultimately show ?thesis by (intro bexI [of _ ?q]) simp_all
      qed
    qed
  qed
qed

lemma begin_free:
  assumes inv: "store_inv codec s" and free: "lease_free s now" and room: "now + LEASE_GRACE_MS \<le> I64_MAX" "0 \<le> now"
    and call: "bc_codec c = codec" "validate_begin c = Ok now"
    and existing: "\<And>r. query_existing_run s (bc_request_id c) = Some r \<Longrightarrow>
      \<not> is_terminal (nr_status r) \<and> nr_canonical_request_json r = kq_json (bc_canonical c)"
  shows "\<exists>s' a. begin_run c s s = Ok (s', Started a)"
proof -
  let ?existing = "query_existing_run s (bc_request_id c)"
  have valid: "sc_request_hash codec (kq_json (bc_canonical c)) = kq_hash (bc_canonical c)"
    using call by (auto simp: validate_begin_def validate_canonical_def)
  have row: "r \<in> set (st_runs s) \<and> \<not> is_terminal (nr_status r)" if "?existing = Some r" for r
    using existing [OF that] query_existing_Some [OF that] by blast
  have hash: "ensure_request_hash codec r (bc_canonical c) = Ok ()" if "?existing = Some r" for r
  proof -
    have "row_ok codec r" using inv row [OF that] by (simp add: store_inv_def runs_ok_def)
    then show ?thesis using existing [OF that] valid by (simp add: ensure_request_hash_def row_ok_def require_store_def)
  qed
  have none: "replay c s = Ok None"
    using row hash call(1) by (auto simp: replay_def split: option.splits)
  obtain t where t: "take_over now ?existing s = Ok t"
      "\<And>r. ?existing = Some r \<Longrightarrow> \<exists>q \<in> set (st_runs t). nr_scan_run_id q = nr_scan_run_id r \<and> nr_status q = RunAbandoned"
    using take_over_free [OF inv free row] by blast
  have t_inv: "store_inv codec t" "st_lease t = None" using take_over_inv [OF inv t(1)] by simp_all
  obtain u where u: "insert_lease c now (now + LEASE_GRACE_MS) t = Ok u" "st_runs u = st_runs t"
    using t_inv(2) by (auto simp: insert_lease_def)
  have expiry: "lease_expiry now = Ok (now + LEASE_GRACE_MS)"
    using room by (simp add: lease_expiry_def i64_checked_add_def ok_or_def LEASE_GRACE_MS_def I64_MIN_def)
  obtain v i where v: "start_row c now ?existing u = Ok (v, i)"
  proof (cases ?existing)
    case (Some r)
    obtain q where q: "q \<in> set (st_runs t)" "nr_scan_run_id q = nr_scan_run_id r" "nr_status q = RunAbandoned"
      using t(2) [OF Some] by blast
    have "distinct (map nr_scan_run_id (st_runs t))" using t_inv(1) by (simp add: store_inv_def runs_ok_def run_ids_def)
    from selected_unique [OF this q(1), of "\<lambda>q. nr_status q = RunAbandoned"] q(2,3)
    have "selected_count (restartable (nr_scan_run_id r)) (st_runs u) = 1" by (simp add: restartable_def [abs_def] u(2))
    moreover have "nr_status r \<in> {RunAbandoned, RunRunning}" using row [OF Some] by (cases "nr_status r") (auto simp: is_terminal_def)
    ultimately show thesis using that by (simp add: start_row_def Some require_store_def)
  qed (use that in \<open>simp add: start_row_def\<close>)
  have "\<exists>s' a. begin_transaction c now s = Ok (s', Started a)"
    by (simp add: begin_transaction_def none Let_def t(1) expiry u(1) v)
  then show ?thesis by (simp add: begin_run_def call(2) none)
qed

end
