(* ===== verification/Store_Example.thy ===== *)
theory Store_Example
  imports Store_Replay
begin

text \<open>
  A run through a concrete database: an empty store, a request, its workers and its result. The
  libraries are constant functions, which is enough for one request.
\<close>

section \<open>The parts\<close>

definition demo_hex :: rstring where "demo_hex = replicate 64 48"

lemma demo_hex_ok: "is_sha256_hex demo_hex" "length demo_hex = 64"
  by (simp_all add: demo_hex_def is_sha256_hex_def is_ascii_digit_def)

lemma demo_hex_len: "utf8_len demo_hex = 64"
  by (simp add: demo_hex_def utf8_len_def utf8_width_def sum_list_replicate)

definition demo_id :: rstring where
  "demo_id = replicate 8 48 @ [45] @ replicate 4 48 @ [45, 49, 48, 48, 48, 45, 56, 48, 48, 48, 45] @ replicate 12 48"

lemma demo_id_ok: "require_request_id demo_id = Ok ()"
  by (simp add: demo_id_def require_request_id_def is_ascii_hexdigit_def is_ascii_digit_def numeral_eq_Suc upt_conv_Cons require_def)

definition demo_summary :: context_summary where
  "demo_summary = \<lparr>cs_source_file_count = 0, cs_success_count = 0, cs_timeout_count = 0, cs_included_file_count = 0,
     cs_omitted_file_count = 0, cs_error_file_count = 0, cs_input_chars = 0, cs_output_chars = 1, cs_total_duration_ms = 0,
     cs_discovery_duration_ms = 0, cs_parse_duration_ms = 0, cs_compression_duration_ms = 0\<rparr>"

definition demo_envelope :: context_envelope where
  "demo_envelope = \<lparr>en_contract = lit ''ai_daily_context'', en_protocol_version = 1, en_request_id = demo_id,
     en_engine_version = [49], en_engine_build = [49], en_status = EngineOk, en_file_context = [97],
     en_summary = demo_summary, en_scan_run_id = Some 1, en_context_run_id = Some 1, en_warnings = [], en_error = None\<rparr>"

definition demo_metadata :: envelope_metadata where
  "demo_metadata = \<lparr>md_contract = lit ''ai_daily_context'', md_protocol_version = 1, md_request_id = demo_id,
     md_engine_version = [49], md_engine_build = [49], md_status = EngineOk, md_scan_run_id = Some 1,
     md_context_run_id = Some 1, md_warnings = [], md_error = None, md_summary = demo_summary,
     md_refill_audit = None, md_pdf_page_audits = Map.empty\<rparr>"

definition demo_engine :: engine_fingerprint where
  "demo_engine = \<lparr>eg_contract = lit ''ai_daily_context'', eg_protocol_version = 1, eg_binary_name = [], eg_engine_version = [49],
     eg_engine_build = [49], eg_target_triple = []\<rparr>"

definition demo_semantics :: semantic_summary where
  "demo_semantics = \<lparr>ss_source_file_count = 0, ss_success_count = 0, ss_timeout_count = 0, ss_included_file_count = 0,
     ss_omitted_file_count = 0, ss_error_file_count = 0, ss_input_chars = 0, ss_output_chars = 1, ss_reserved_chars = 0,
     ss_rendered_chars = 0\<rparr>"

definition demo_codec :: store_codec where
  "demo_codec = \<lparr>sc_sha256 = \<lambda>_. demo_hex, sc_request_hash = \<lambda>_. demo_hex, sc_semantic_json = \<lambda>_. [],
     sc_parse_semantic = \<lambda>_. Some demo_semantics,
     sc_metadata_json = \<lambda>_. [50], sc_parse_metadata = \<lambda>_. Some demo_metadata, sc_envelope_json = \<lambda>_. [49],
     sc_parse_envelope = \<lambda>_. Some demo_envelope, sc_parse_engine = \<lambda>_. Some demo_engine,
     sc_refill_json = \<lambda>_. [], sc_page_audit_json = \<lambda>_. []\<rparr>"

lemma demo_codec_simps [simp]:
  "sc_sha256 demo_codec x = demo_hex" "sc_request_hash demo_codec x = demo_hex" "sc_semantic_json demo_codec y = []"
  "sc_parse_semantic demo_codec x = Some demo_semantics"
  "sc_metadata_json demo_codec m = [50]" "sc_parse_metadata demo_codec x = Some demo_metadata"
  "sc_envelope_json demo_codec e = [49]" "sc_parse_envelope demo_codec x = Some demo_envelope"
  "sc_parse_engine demo_codec x = Some demo_engine"
  by (simp_all add: demo_codec_def)

definition demo_runtime :: attempt_runtime where
  "demo_runtime = \<lparr>ar_scan_db_path = [47], ar_office_worker_path = [47], ar_pdf_worker_path = [47], ar_engine_fingerprint = [49]\<rparr>"

text \<open>A call by an owner at a time.\<close>

definition demo_call :: "rstring \<Rightarrow> u64 \<Rightarrow> begin_call" where
  "demo_call owner now = \<lparr>bc_codec = demo_codec, bc_store_path = [47], bc_owner_id = owner, bc_owner_pid = 1,
     bc_request_id = demo_id,
     bc_canonical = \<lparr>kq_request_id = demo_id, kq_json = [49], kq_hash_algorithm = REQUEST_HASH_ALGORITHM, kq_hash = demo_hex\<rparr>,
     bc_runtime = demo_runtime, bc_now_ms = now\<rparr>"

lemma demo_call_simps [simp]:
  "bc_codec (demo_call owner now) = demo_codec" "bc_owner_id (demo_call owner now) = owner"
  "bc_request_id (demo_call owner now) = demo_id" "kq_json (bc_canonical (demo_call owner now)) = [49]"
  by (simp_all add: demo_call_def)

lemma demo_call_valid: "int now \<le> I64_MAX \<Longrightarrow> validate_begin (demo_call owner now) = Ok (int now)"
  by (simp add: validate_begin_def demo_call_def validate_attempt_runtime_def demo_runtime_def is_contract_absolute_text_def
      validate_canonical_def demo_hex_ok require_store_def checked_i64_def)

definition demo_active :: active_run where
  "demo_active = \<lparr>ac_scan_run_id = 1, ac_attempt_number = 1, ac_owner_id = [97], ac_request_id = demo_id\<rparr>"

definition demo_worker :: worker_fingerprint where
  "demo_worker = \<lparr>wg_contract = [49], wg_version = [49], wg_build = [49]\<rparr>"

section \<open>The stores\<close>

definition demo_row :: run_row where
  "demo_row = \<lparr>nr_scan_run_id = 1, nr_request_id = demo_id, nr_canonical_request_json = [49],
     nr_request_hash_algorithm = REQUEST_HASH_ALGORITHM, nr_request_hash = demo_hex, nr_owner_id = [97], nr_status = RunRunning,
     nr_created_at_ms = 1, nr_started_at_ms = 1, nr_updated_at_ms = 1, nr_finished_at_ms = None,
     nr_final_envelope_json = None, nr_final_envelope_metadata_json = None, nr_audit_size_bytes = None\<rparr>"

definition demo_attempt :: attempt_row where
  "demo_attempt = \<lparr>na_scan_run_id = 1, na_attempt_number = 1, na_owner_id = [97], na_runtime = demo_runtime,
      na_office_worker = None, na_pdf_worker = None, na_started_at_ms = 1, na_finished_at_ms = None, na_status = RunRunning\<rparr>"

definition demo_lease :: engine_lease where
  "demo_lease = \<lparr>ls_owner_id = [97], ls_owner_pid = 1, ls_acquired_at_ms = 1, ls_heartbeat_at_ms = 1, ls_expires_at_ms = 20001\<rparr>"

definition demo_begun :: run_store where
  "demo_begun = empty_store\<lparr>st_lease := Some demo_lease, st_runs := [demo_row], st_attempts := [demo_attempt], st_next_run_id := 2\<rparr>"

definition demo_ready :: run_store where
  "demo_ready = demo_begun\<lparr>st_attempts := [demo_attempt\<lparr>na_office_worker := Some demo_worker, na_pdf_worker := Some demo_worker\<rparr>]\<rparr>"

lemma demo_begin: "begin_run (demo_call [97] 1) empty_store empty_store = Ok (demo_begun, Started demo_active)"
proof -
  have none: "replay (demo_call [97] n) empty_store = Ok None" for n
    by (simp add: replay_def query_existing_run_def empty_store_def)
  have "begin_transaction (demo_call [97] 1) 1 empty_store = Ok (demo_begun, Started demo_active)"
    unfolding begin_transaction_def none
    by (simp add: query_existing_run_def empty_store_def take_over_def insert_lease_def start_row_def new_run_row_def
        new_attempt_row_def next_attempt_number_def lease_expiry_def i64_checked_add_def LEASE_GRACE_MS_def I64_MAX_def I64_MIN_def
        ok_or_def demo_begun_def demo_lease_def demo_row_def demo_attempt_def demo_active_def demo_call_def)
  moreover have "validate_begin (demo_call [97] 1) = Ok 1" using demo_call_valid [of 1] by (simp add: I64_MAX_def)
  ultimately show ?thesis by (simp add: begin_run_def none)
qed

lemma demo_active_simps: "run_of_active demo_active demo_row" "attempt_of_active demo_active demo_attempt"
  by (simp_all add: run_of_active_def attempt_of_active_def demo_active_def demo_row_def demo_attempt_def)

lemma demo_beat: "heartbeat_in_transaction demo_active 1 demo_ready = Ok demo_ready"
  by (simp add: heartbeat_in_transaction_def ensure_owner_def demo_ready_def demo_begun_def demo_active_simps owns_lease_def
        demo_lease_def demo_active_def lease_expiry_def i64_checked_add_def LEASE_GRACE_MS_def I64_MAX_def I64_MIN_def ok_or_def
        lease_is_live_def update_where_def run_of_active_def demo_row_def require_store_def)

lemma demo_record: "record_worker_fingerprints demo_active (Some demo_worker) (Some demo_worker) 1 demo_begun = Ok demo_ready"
  using demo_beat
    by (simp add: record_worker_fingerprints_def validate_optional_fingerprint_def validate_worker_fingerprint_def demo_worker_def
        ensure_owner_def demo_ready_def demo_begun_def demo_active_simps owns_lease_def demo_lease_def demo_active_def
        selected_count_def update_where_def demo_attempt_def attempt_of_active_def run_of_active_def demo_row_def
        require_store_def checked_i64_def I64_MAX_def)


section \<open>The result\<close>

definition demo_context :: context_run_record where
  "demo_context = \<lparr>cn_context_profile_hash = demo_hex, cn_status = RunSuccess, cn_final_context = [97],
     cn_context_sha256 = demo_hex, cn_summary = demo_summary, cn_decisions = []\<rparr>"

definition demo_draft :: artifact_draft where
  "demo_draft = \<lparr>dr_snapshot_eligible = False, dr_final_context = [97], dr_context_sha256 = demo_hex,
     dr_semantic_summary = demo_semantics, dr_file_rows = [], dr_decision_rows = []\<rparr>"

definition demo_batch :: finalization_batch where
  "demo_batch = \<lparr>fb_status = RunSuccess, fb_envelope_json = [49], fb_inventory = [], fb_file_results = [], fb_diagnostics = [],
     fb_stage_metrics = map (\<lambda>stage. \<lparr>sm_stage = stage, sm_item_count = 0, sm_duration_ms = 0\<rparr>) [Discovery, Cache, Parse, Context],
     fb_extension_metrics = [], fb_context = Some demo_context, fb_artifact = Some demo_draft, fb_snapshot_key = None,
     fb_snapshot_hit = None, fb_execution_metrics = None\<rparr>"

lemma demo_built: "well_built demo_codec demo_draft"
  unfolding well_built_def
  by (intro conjI exI [of _ False] exI [of _ "[97]"] exI [of _ "dr_semantic_summary demo_draft"] exI [of _ "[]"])
    (simp_all add: ArtifactDraft_new_def demo_draft_def demo_semantics_def u64_draft_def validate_counts_def checked_add_def ok_or_def require_def)

lemma demo_envelope_valid: "validate_context_envelope demo_envelope = Ok ()"
  by (simp add: validate_context_envelope_def demo_envelope_def demo_id_ok validate_context_summary_def demo_summary_def
      checked_add_def ok_or_def require_def require_const_def require_range_def require_non_empty_def u64_max_def)

lemma demo_envelope_json: "canonical_envelope_json demo_codec demo_envelope = Ok [49]"
  by (simp add: canonical_envelope_json_def demo_envelope_valid)

lemma demo_context_relations:
  "validate_context_relations demo_context [] Map.empty [] Map.empty (fb_stage_metrics demo_batch) [] = Ok ()"
  by (simp add: validate_context_relations_def demo_context_def demo_batch_def summary_agrees_def demo_summary_def
      status_count_def action_count_def stages_agree_def stage_ok_def checked_add_def ok_or_def require_store_def extensions_agree_def)

lemma demo_validates: "validate_finalization demo_codec demo_active demo_batch = Ok demo_envelope"
proof -
  have "validate_context demo_codec demo_context = Ok ()"
    by (simp add: validate_context_def demo_context_def is_terminal_def terminal_status_def validate_context_summary_def demo_summary_def
      checked_add_def ok_or_def require_def require_store_def demo_hex_ok summary_fits_sqlite_def i64_max_def)
  then have "validate_batch_context demo_codec demo_batch demo_envelope Map.empty Map.empty demo_context = Ok ()"
    using demo_context_relations
    by (simp add: validate_batch_context_def demo_batch_def demo_context_def demo_envelope_def require_store_def demo_summary_def)
  moreover have "validate_batch_envelope demo_codec demo_active demo_batch = Ok demo_envelope"
    by (simp add: validate_batch_envelope_def demo_batch_def demo_envelope_valid demo_envelope_json ok_or_def require_store_def)
      (simp add: demo_envelope_def demo_active_def diagnostics_of_def)
  moreover have "map_err StoreInvalidRequest (validate_metrics (fb_stage_metrics demo_batch) []) = Ok ()"
    by (simp add: validate_metrics_def demo_batch_def)
  ultimately show ?thesis
    by (simp add: validate_finalization_def demo_batch_def terminal_status_def is_terminal_def require_store_def)
      (simp add: demo_envelope_def demo_active_def)
qed

lemma demo_rebuilds:
  "rebuild_envelope demo_metadata demo_summary (Some demo_draft) = Ok demo_envelope"
  using demo_envelope_valid by (simp add: rebuild_envelope_def demo_metadata_def demo_draft_def demo_envelope_def)

lemma demo_metadata_of: "envelope_metadata_of demo_envelope None [] = Ok demo_metadata"
  by (simp add: envelope_metadata_of_def demo_envelope_def demo_metadata_def)

lemma demo_reads_back: "reads_back demo_codec demo_active demo_batch"
  using demo_metadata_of by (simp add: reads_back_def demo_validates) (simp add: demo_batch_def)


section \<open>The commit\<close>

definition demo_prepared :: prepared_finalization where
  "demo_prepared = \<lparr>pf_envelope = demo_envelope, pf_metadata_json = [50], pf_now_ms = 2,
     pf_audit_size = compute_audit_size demo_codec demo_batch, pf_semantic_json = Some [], pf_artifact_size = Some 91, pf_dedup_artifact_id = None,
     pf_protected_runs = {1}, pf_protected_artifacts = {},
     pf_plan = \<lparr>rp_artifact_room = [], rp_terminal_run_batches = [], rp_new_artifact_size = Some 91\<rparr>\<rparr>"

lemma demo_audit_size: "compute_audit_size demo_codec demo_batch = 514"
  by (simp add: compute_audit_size_def demo_batch_def demo_context_def utf8_len_def utf8_width_def)

lemma demo_plan:
  "prepare_finalization_retention_plan demo_ready 1 {1} {} (Some 91) 2 514
     = Ok \<lparr>rp_artifact_room = [], rp_terminal_run_batches = [], rp_new_artifact_size = Some 91\<rparr>"
  by (simp add: prepare_finalization_retention_plan_def demo_ready_def demo_begun_def demo_row_def empty_store_def
      collectable_def context_references_def read_terminal_runs.simps
      TERMINAL_AUDIT_MAX_BYTES_def CONTEXT_ARTIFACTS_MAX_BYTES_def i64_checked_add_def I64_MAX_def I64_MIN_def
      make_room.simps initial_heap_def heap_entry_def i64_saturating_add_def i64_saturating_sub_def i64_clamp_def
      push_batched_def flush_batch_def caps_hold_def TERMINAL_RUN_MAX_COUNT_def require_store_def ok_or_def)

lemma demo_prepare: "prepare_finalization demo_codec demo_active demo_batch 2 demo_ready = Ok demo_prepared"
proof -
  have "artifact_size_bytes demo_codec demo_draft None = 91"
    by (simp add: artifact_size_bytes_def demo_draft_def demo_hex_len) (simp add: utf8_len_def utf8_width_def)
  moreover have "checked_i64 2 f = Ok 2" for f by (simp add: checked_i64_def I64_MAX_def)
  moreover have "check_semantics demo_batch (Some demo_draft) = Ok ()"
    by (simp add: check_semantics_def demo_batch_def demo_context_def semantics_agree_def demo_draft_def demo_semantics_def demo_summary_def ok_or_def require_store_def)
  moreover have "fb_artifact demo_batch = Some demo_draft" "fb_snapshot_key demo_batch = None" "fb_snapshot_hit demo_batch = None"
    "fb_execution_metrics demo_batch = None" "fb_file_results demo_batch = []" "fb_envelope_json demo_batch = [49]"
    by (simp_all add: demo_batch_def)
  moreover have "en_summary demo_envelope = demo_summary" "ac_scan_run_id demo_active = 1"
    by (simp_all add: demo_envelope_def demo_active_def)
  ultimately show ?thesis
    by (simp add: prepare_finalization_def demo_validates demo_metadata_of demo_envelope_json demo_rebuilds demo_plan demo_audit_size
        load_snapshot_artifact_def artifact_for_rebuild_def dedup_of_def hit_runs_def hit_artifacts_def ok_or_def require_store_def
        demo_prepared_def Let_def)
qed

definition demo_timings :: terminal_timings where
  "demo_timings = \<lparr>tt_current_run_audit_write_ms = 0, tt_terminal_precommit_ms = 0, tt_envelope_rebuild_ms = 0,
     tt_deadline_precommit_elapsed_ms = 0\<rparr>"

definition demo_finished :: run_store where
  "demo_finished = demo_ready
     \<lparr>st_lease := None,
      st_runs := [finish_run_row demo_prepared RunSuccess (demo_row\<lparr>nr_updated_at_ms := 2\<rparr>)],
      st_attempts := map (finish_attempt_row demo_prepared RunSuccess) (st_attempts demo_ready),
      st_audit := (st_audit demo_ready)\<lparr>au_stage_metrics := map (Pair 1) (fb_stage_metrics demo_batch)\<rparr>,
      st_contexts := [\<lparr>cx_scan_run_id = 1, cx_context = demo_context, cx_created_at_ms = 2, cx_artifact_id = Some 1,
        cx_reused_from_context_run_id = None, cx_snapshot_hit = False\<rparr>],
      st_artifacts := \<lparr>at_artifacts = [new_artifact_row demo_draft None [] 91 2 1], at_files = [], at_decisions = [],
        at_next_artifact_id = 2\<rparr>\<rparr>"

lemma demo_finalize: "finalize demo_codec demo_active demo_batch 2 (True, True) demo_timings demo_ready demo_ready = Ok demo_finished"
proof -
  let ?s1 = "demo_ready\<lparr>st_lease := Some (demo_lease\<lparr>ls_heartbeat_at_ms := 2, ls_expires_at_ms := 20002\<rparr>),
     st_runs := [demo_row\<lparr>nr_updated_at_ms := 2\<rparr>]\<rparr>"
  let ?s2 = "?s1\<lparr>st_audit := (st_audit demo_ready)\<lparr>au_stage_metrics := map (Pair 1) (fb_stage_metrics demo_batch)\<rparr>\<rparr>"
  let ?s3 = "?s2\<lparr>st_contexts := st_contexts demo_finished, st_artifacts := st_artifacts demo_finished\<rparr>"
  let ?s4 = "demo_finished\<lparr>st_lease := Some (demo_lease\<lparr>ls_heartbeat_at_ms := 2, ls_expires_at_ms := 20002\<rparr>)\<rparr>"
  have prepared: "pf_now_ms demo_prepared = 2" "pf_envelope demo_prepared = demo_envelope"
    "pf_semantic_json demo_prepared = Some []" "pf_artifact_size demo_prepared = Some 91" "pf_dedup_artifact_id demo_prepared = None"
    "pf_plan demo_prepared = \<lparr>rp_artifact_room = [], rp_terminal_run_batches = [], rp_new_artifact_size = Some 91\<rparr>"
    by (simp_all add: demo_prepared_def)
  have beat: "heartbeat_in_transaction demo_active 2 demo_ready = Ok ?s1"
    by (simp add: heartbeat_in_transaction_def ensure_owner_def demo_ready_def demo_begun_def demo_active_simps owns_lease_def
        demo_lease_def demo_active_def lease_expiry_def i64_checked_add_def LEASE_GRACE_MS_def I64_MAX_def I64_MIN_def ok_or_def
        lease_is_live_def update_where_def run_of_active_def demo_row_def require_store_def)
  have engine: "ensure_engine_fingerprint demo_codec demo_active demo_envelope ?s1 = Ok ()"
    by (simp add: ensure_engine_fingerprint_def demo_ready_def demo_attempt_def attempt_of_active_def demo_active_def demo_engine_def
        demo_envelope_def ok_or_def require_store_def)
  have workers: "ensure_worker_fingerprints demo_active ?s1 = Ok ()"
    by (simp add: ensure_worker_fingerprints_def demo_ready_def demo_attempt_def attempt_of_active_def demo_active_def require_store_def)
  have audit: "insert_audit demo_active demo_batch ?s1 = Ok ?s2"
    by (simp add: insert_audit_def demo_batch_def demo_active_def demo_ready_def demo_begun_def empty_store_def as_i64_def I64_MAX_def require_store_def)
  have insert: "insert_artifact (known_files ?s2) demo_draft None [] 91 2 (st_artifacts ?s2) = Ok (st_artifacts demo_finished, 1)"
    by (simp add: insert_artifact_def artifact_checks_def demo_draft_def demo_hex_ok demo_ready_def demo_begun_def empty_store_def demo_finished_def
        require_store_def)
  have artifact: "write_artifact demo_prepared demo_batch ?s2 = Ok (?s2\<lparr>st_artifacts := st_artifacts demo_finished\<rparr>, 1)"
    using insert
    by (simp add: write_artifact_def prepared demo_batch_def ok_or_def require_store_def apply_artifact_retention_plan_def
        sql_sum_def artifact_sizes_def I64_MAX_def I64_MIN_def i64_saturating_add_def i64_clamp_def CONTEXT_ARTIFACTS_MAX_BYTES_def
        demo_draft_def demo_ready_def demo_begun_def empty_store_def)
  have batch: "fb_status demo_batch = RunSuccess" "fb_context demo_batch = Some demo_context" "fb_snapshot_hit demo_batch = None"
    "fb_inventory demo_batch = []" "ac_scan_run_id demo_active = 1" "ac_owner_id demo_active = [97]" "fb_execution_metrics demo_batch = None"
    by (simp_all add: demo_batch_def demo_active_def)
  have "insert_context 1 demo_context (Some 1) False None 2 (?s2\<lparr>st_artifacts := st_artifacts demo_finished\<rparr>) = Ok ?s3"
    by (simp add: insert_context_def demo_context_def terminal_status_def is_terminal_def context_checks_def demo_hex_ok
        summary_fits_sqlite_def demo_summary_def i64_max_def require_store_def demo_finished_def demo_ready_def demo_begun_def empty_store_def)
  then have ctx: "write_context demo_active demo_prepared demo_batch ?s2 = Ok ?s3"
    using artifact by (simp add: write_context_def prepared batch)
  have rows: "finish_rows demo_active demo_prepared RunSuccess ?s3 = Ok ?s4"
    by (simp add: finish_rows_def selected_count_def run_of_active_def attempt_of_active_def attempt_checks_def update_where_def
        demo_finished_def demo_ready_def demo_row_def demo_attempt_def demo_active_def require_store_def)
  have retained: "apply_terminal_retention_plan (pf_plan demo_prepared) (pf_protected_runs demo_prepared) ?s4 = Ok ?s4"
    by (simp add: apply_terminal_retention_plan_def prepared collectable_sizes_def collectable_def finish_run_row_def demo_finished_def
        demo_prepared_def demo_row_def demo_audit_size sql_sum_def I64_MAX_def I64_MIN_def caps_hold_def TERMINAL_RUN_MAX_COUNT_def
        TERMINAL_AUDIT_MAX_BYTES_def selected_count_def require_store_def List.map_filter_simps)
  have released: "delete_lease [97] ?s4 = Ok demo_finished"
    by (simp add: delete_lease_def owns_lease_def demo_lease_def demo_finished_def)
  show ?thesis
    by (simp add: finalize_def demo_prepare finalize_transaction_def prepared beat engine workers audit ctx rows retained [unfolded prepared] released
        batch write_execution_metrics_def require_store_def)
qed


section \<open>The run\<close>

lemma demo_reachable: "reachable demo_codec demo_ready {demo_active}"
proof -
  have "reachable demo_codec empty_store {}" by (simp add: reachable_def)
  moreover have "store_step demo_codec (empty_store, {}) (demo_begun, issued (Started demo_active) {})"
    by (rule step_begin [OF _ _ demo_begin]) simp_all
  ultimately have "reachable demo_codec demo_begun {demo_active}" using reachable_step by (fastforce simp: issued_def)
  then show ?thesis by (rule reachable_step) (rule step_record [OF _ demo_record], simp)
qed

lemma demo_finished_reachable: "reachable demo_codec demo_finished {demo_active}"
  using demo_built by (intro reachable_step [OF demo_reachable step_finalize [OF _ _ demo_finalize]]) (auto simp: demo_batch_def)

lemma later_refl: "later codec s A s A"
  by (simp add: later_def)

lemma demo_finished_row: "find (\<lambda>r. nr_scan_run_id r = 1) (st_runs demo_finished) = Some (finish_run_row demo_prepared RunSuccess (demo_row\<lparr>nr_updated_at_ms := 2\<rparr>))"
  "query_existing_run demo_finished demo_id = Some (finish_run_row demo_prepared RunSuccess (demo_row\<lparr>nr_updated_at_ms := 2\<rparr>))"
  by (simp_all add: demo_finished_def finish_run_row_def demo_row_def query_existing_run_def)

abbreviation demo_stored :: stored_envelope where
  "demo_stored \<equiv> \<lparr>sv_scan_run_id = 1, sv_envelope_json = [49], sv_envelope = demo_envelope\<rparr>"

lemma demo_load_stored:
  "load_stored_envelope demo_codec demo_finished (finish_run_row demo_prepared RunSuccess (demo_row\<lparr>nr_updated_at_ms := 2\<rparr>)) demo_id = Ok demo_stored"
proof -
  have "load_artifact demo_codec (st_artifacts demo_finished) 1 = Ok demo_draft"
    by (simp add: load_artifact_def stored_files_def stored_decisions_def demo_finished_def demo_draft_def ok_or_def require_store_def)
  then have "load_artifact_for_replay demo_codec demo_finished 1 = Ok (Some demo_draft)"
    by (simp add: load_artifact_for_replay_def) (simp add: demo_finished_def)
  moreover have "md_summary demo_metadata = demo_summary" by (simp add: demo_metadata_def)
  ultimately have "rebuild_envelope_from_metadata demo_codec demo_finished 1 [50] = Ok demo_envelope"
    by (simp add: rebuild_envelope_from_metadata_def ok_or_def demo_rebuilds)
  then show ?thesis
    by (simp add: load_stored_envelope_def finish_run_row_def demo_row_def is_terminal_def ok_or_def require_store_def demo_prepared_def
        demo_envelope_json) (simp add: demo_envelope_def)
qed

lemma demo_load: "load_terminal_envelope demo_codec demo_finished 1 = Ok demo_stored"
  by (simp add: load_terminal_envelope_def checked_i64_def I64_MAX_def demo_finished_row ok_or_def)
    (simp add: finish_run_row_def demo_row_def demo_load_stored [unfolded finish_run_row_def demo_row_def, simplified])

lemma demo_open: "query_existing_run demo_ready demo_id = Some demo_row" "nr_status demo_row = RunRunning"
    "nr_canonical_request_json demo_row = [49]" "int 20001 + LEASE_GRACE_MS \<le> I64_MAX" "lease_free demo_ready 20001"
  by (simp_all add: query_existing_run_def demo_ready_def demo_begun_def demo_row_def LEASE_GRACE_MS_def I64_MAX_def lease_free_def
      lease_is_live_def demo_lease_def i64_saturating_sub_def i64_clamp_def I64_MIN_def)


lemma demo_heartbeat: "heartbeat demo_active 1 demo_ready = Ok demo_ready"
  by (simp add: heartbeat_def demo_beat checked_i64_def I64_MAX_def)

end
