(* ===== verification/Store_Promises.thy ===== *)
theory Store_Promises
  imports Store_Example
begin

text \<open>
  The properties of the database as a whole, each with a run through a concrete store: an empty
  database, a request, its workers, its result and its replay.
\<close>

section \<open>One run at a time\<close>

text \<open>C3. Whatever calls are made of the store, at most one run is running, there is a lease exactly when one
  is, requests and runs have one row each, and every context has its run and its artifact.\<close>

theorem one_run_at_a_time:
  assumes "reachable codec s A"
  shows "store_inv codec s \<and> length (filter running_run (st_runs s)) \<le> 1
     \<and> (st_lease s = None \<longleftrightarrow> \<not> list_ex running_run (st_runs s))
     \<and> distinct (map nr_request_id (st_runs s)) \<and> distinct (run_ids s)"
proof -
  have inv: "store_inv codec s" using reachable_inv [OF assms] by simp
  then have "lease_ok s" by (simp add: store_inv_def)
  from lease_and_running(1,2) [OF this] show ?thesis
    using inv by (simp add: store_inv_def runs_ok_def list_ex_iff filter_empty_conv)
qed

theorem one_run_at_a_time_witness:
  "store_inv demo_codec demo_ready \<and> length (filter running_run (st_runs demo_ready)) \<le> 1 \<and> st_lease demo_ready \<noteq> None"
  using one_run_at_a_time [OF demo_reachable] by (simp add: demo_ready_def demo_begun_def)

text \<open>C4. A call for a run that was handed out only succeeds while that run is the active one, and then no other
  run that was ever handed out is: an owner that lost its lease changes nothing any more.\<close>

theorem only_the_owner_acts:
  assumes reach: "reachable codec s A" "active \<in> A"
    and acts: "heartbeat active now s = Ok s' \<or> record_worker_fingerprints active office pdf now s = Ok s'
      \<or> abandon_active_run active now s = Ok s' \<or> finalize codec active b now looks tt seen s = Ok s'"
  shows "is_active s active \<and> (\<forall>other \<in> A. is_active s other \<longrightarrow> other = active)"
proof -
  have "owns_lease s (ac_owner_id active) \<and> (\<exists>r \<in> set (st_runs s). run_of_active active r)"
    using acts
  proof (elim disjE)
    assume "heartbeat active now s = Ok s'"
    then show ?thesis using heartbeat_bookkeeping(2,3) by (auto simp: heartbeat_def)
  next
    assume "record_worker_fingerprints active office pdf now s = Ok s'"
    then show ?thesis using ensure_owner_facts by (auto simp: record_worker_fingerprints_def)
  next
    assume "abandon_active_run active now s = Ok s'"
    then show ?thesis using ensure_owner_facts by (auto simp: abandon_active_run_def)
  qed (rule finalize_owner)
  then have "is_active s active" using owner_is_active [OF reach] by blast
  then show ?thesis using active_unique [OF reach(1)] reach(2) by blast
qed

theorem only_the_owner_acts_witness:
  "is_active demo_ready demo_active
     \<and> finalize demo_codec demo_active demo_batch 2 (True, True) demo_timings demo_ready demo_ready = Ok demo_finished"
  using only_the_owner_acts [OF demo_reachable _ disjI2 [OF disjI2 [OF disjI2 [OF demo_finalize]]]] demo_finalize by simp

section \<open>Results\<close>

text \<open>C5. The result of a run never changes: whatever happens later, it loads as before or its run has been
  removed by retention.\<close>

theorem results_are_final:
  assumes reach: "reachable codec s A" "later codec s A t B" and load: "load_terminal_envelope codec s n = Ok e"
  shows "load_terminal_envelope codec t n = Ok e \<or> load_terminal_envelope codec t n = Err StoreRunNotFound"
proof -
  obtain r where r: "find (\<lambda>r. nr_scan_run_id r = int n) (st_runs s) = Some r" "int n \<le> I64_MAX"
    "load_stored_envelope codec s r (nr_request_id r) = Ok e"
    using load by (auto simp: load_terminal_envelope_def ok_or_def split: option.splits)
  have row: "r \<in> set (st_runs s)" "nr_scan_run_id r = int n" using r(1) by (auto simp: find_Some_iff)
  have terminal: "is_terminal (nr_status r)" using r(3) by (auto simp: load_stored_envelope_def)
  show ?thesis
  proof (cases "int n \<in> set (run_ids t)")
    case True
    then have kept: "result_kept codec s t r" using later_kept [OF reach] row terminal by (simp add: history_kept_def)
    have "distinct (run_ids t)" using reachable_inv [OF reachable_later [OF reach]] by (simp add: store_inv_def runs_ok_def)
    then have "find (\<lambda>r. nr_scan_run_id r = int n) (st_runs t) = Some r"
      using find_unique_row kept row(2) by (auto simp: result_kept_def)
    then show ?thesis using r(2,3) load_stored_envelope_kept [OF kept] by (simp add: load_terminal_envelope_def ok_or_def checked_i64_def)
  next
    case False
    then have "find (\<lambda>r. nr_scan_run_id r = int n) (st_runs t) = None" by (force simp: find_None_iff run_ids_def)
    then show ?thesis using r(2) by (simp add: load_terminal_envelope_def ok_or_def checked_i64_def)
  qed
qed

theorem results_are_final_witness:
  "load_terminal_envelope demo_codec demo_finished 1 = Ok demo_stored
     \<and> (load_terminal_envelope demo_codec demo_finished 1 = Ok demo_stored
        \<or> load_terminal_envelope demo_codec demo_finished 1 = Err StoreRunNotFound)"
  using results_are_final [OF demo_finished_reachable later_refl demo_load] demo_load by simp

text \<open>C2. A run that was finalised answers its request ever after, without a transaction, with the envelope
  that was committed, byte for byte, as long as retention keeps the run; whatever other processes did between
  the preparation, the commit and the replay.\<close>

theorem finalized_run_replays:
  assumes prepared: "reachable codec seen A" "later codec seen A s B" "active \<in> B" and reads: "reads_back codec active b"
    and built: "\<And>d. fb_artifact b = Some d \<Longrightarrow> well_built codec d"
    and commit: "finalize codec active b now looks tt seen s = Ok s'" and later: "later codec s' B t C"
    and call: "bc_codec c = codec" "bc_request_id c = ac_request_id active" "validate_begin c = Ok n"
    and request: "r \<in> set (st_runs s)" "nr_scan_run_id r = ac_scan_run_id active" "kq_json (bc_canonical c) = nr_canonical_request_json r"
  shows "(\<exists>e. begin_run c t u = Ok (u, Stored \<lparr>sv_scan_run_id = ac_scan_run_id active,
            sv_envelope_json = fb_envelope_json b, sv_envelope = e\<rparr>))
     \<or> ac_scan_run_id active \<notin> set (run_ids t)"
proof (cases "ac_scan_run_id active \<in> set (run_ids t)")
  case True
  have reach: "reachable codec s B" using reachable_later prepared by blast
  have inv: "store_inv codec seen" "store_inv codec s" using reachable_inv prepared(1) reach by blast+
  obtain r' where result: "committed_result codec active b r s' r'"
    using finalize_result [OF inv later_kept [OF prepared(1,2)] commit built reads request(1,2)] by blast
  have reach': "reachable codec s' B" using reachable_step [OF reach step_finalize [OF prepared(3) built commit]] .
  have result_t: "committed_result codec active b r t r'" using committed_result_kept [OF later_kept [OF reach' later] result True] .
  have inv_t: "store_inv codec t" using reachable_inv reachable_later [OF reach' later] by blast
  show ?thesis
    using committed_replay [OF inv_t result_t call active_request [OF reach prepared(3) request(1,2)] request(3)] by blast
qed simp

theorem finalized_run_replays_witness:
  "\<exists>e. begin_run (demo_call [98] 3) demo_finished demo_finished
     = Ok (demo_finished, Stored \<lparr>sv_scan_run_id = 1, sv_envelope_json = [49], sv_envelope = e\<rparr>)"
proof -
  have "demo_row \<in> set (st_runs demo_ready)" "nr_scan_run_id demo_row = 1" "ac_scan_run_id demo_active = 1"
    "ac_request_id demo_active = demo_id" "fb_envelope_json demo_batch = [49]" "fb_artifact demo_batch = Some demo_draft"
    "1 \<in> set (run_ids demo_finished)"
    by (simp_all add: demo_ready_def demo_begun_def demo_row_def demo_active_def demo_batch_def run_ids_def demo_finished_def
        finish_run_row_def)
  moreover have "validate_begin (demo_call [98] 3) = Ok 3" using demo_call_valid [of 3] by (simp add: I64_MAX_def)
  ultimately show ?thesis
    using finalized_run_replays [OF demo_reachable later_refl _ demo_reads_back _ demo_finalize later_refl, of "demo_call [98] 3" 3 demo_row]
      demo_built demo_open(3) by simp
qed

section \<open>The lease\<close>

text \<open>C6. After a heartbeat a new run starts exactly when twenty seconds have passed: not before, and from then
  on at the first attempt, if its request has no result and did not change.\<close>

theorem lease_grace_exact:
  assumes reach: "reachable codec s A" "active \<in> A" and beat: "heartbeat active now s = Ok s'"
    and call: "bc_codec c = codec" "validate_begin c = Ok t" and room: "t + LEASE_GRACE_MS \<le> I64_MAX"
    and open_request: "\<And>r. query_existing_run s' (bc_request_id c) = Some r \<Longrightarrow>
      \<not> is_terminal (nr_status r) \<and> nr_canonical_request_json r = kq_json (bc_canonical c)"
  shows "(\<exists>u a. begin_run c s' s' = Ok (u, Started a)) \<longleftrightarrow> int now + LEASE_GRACE_MS \<le> t"
proof -
  obtain l where l: "st_lease s' = Some l" "ls_heartbeat_at_ms l = int now" "ls_expires_at_ms l = int now + LEASE_GRACE_MS"
    using heartbeat_bookkeeping(4) [of active "int now" s s'] beat by (auto simp: heartbeat_def)
  have t: "0 \<le> t" "t \<le> I64_MAX" using call(2) by (auto simp: validate_begin_def)
  have "i64_saturating_sub t LEASE_GRACE_MS = t - LEASE_GRACE_MS"
    using t by (simp add: i64_saturating_sub_def i64_clamp_def LEASE_GRACE_MS_def I64_MIN_def)
  then have free: "lease_free s' t \<longleftrightarrow> int now + LEASE_GRACE_MS \<le> t" using l by (auto simp: lease_free_def lease_is_live_def)
  have inv: "store_inv codec s'"
    using reachable_inv [OF reachable_step [OF reach(1) step_heartbeat [OF reach(2) beat]]] by blast
  show ?thesis
  proof
    assume "int now + LEASE_GRACE_MS \<le> t"
    then show "\<exists>u a. begin_run c s' s' = Ok (u, Started a)"
      using begin_free [OF inv _ room t(1) call open_request] free by blast
  next
    assume "\<exists>u a. begin_run c s' s' = Ok (u, Started a)"
    then obtain u a m where m: "begin_transaction c m s' = Ok (u, Started a)" "validate_begin c = Ok m"
      using begin_run_transaction by metis
    then obtain v where "take_over t (query_existing_run s' (bc_request_id c)) s' = Ok v"
      using begin_transaction_started [OF m(1)] call(2) by (metis result.inject(1))
    then show "int now + LEASE_GRACE_MS \<le> t" using free l(1) by (auto simp: take_over_def Let_def lease_free_def split: if_splits)
  qed
qed

theorem lease_grace_exact_witness:
  "(\<exists>u a. begin_run (demo_call [98] 20001) demo_ready demo_ready = Ok (u, Started a))
     \<and> \<not> (\<exists>u a. begin_run (demo_call [98] 20000) demo_ready demo_ready = Ok (u, Started a))"
proof -
  have "(\<exists>u a. begin_run (demo_call [98] now) demo_ready demo_ready = Ok (u, Started a)) \<longleftrightarrow> 20001 \<le> now" if "now < 100000" for now
    using lease_grace_exact [OF demo_reachable _ demo_heartbeat, of "demo_call [98] now" "int now"] that demo_call_valid [of now] demo_open
    by (simp add: LEASE_GRACE_MS_def I64_MAX_def is_terminal_def)
  from this [of 20001] this [of 20000] show ?thesis by simp
qed

text \<open>C7. A process that died blocks nobody for longer than its lease: when the lease is not live, or there is
  none, a valid request without a result starts, it is the active run, and no run handed out before is.\<close>

theorem dead_owner_is_replaced:
  assumes reach: "reachable codec s A" and free: "lease_free s now" and room: "now + LEASE_GRACE_MS \<le> I64_MAX"
    and call: "bc_codec c = codec" "validate_begin c = Ok now" "bc_owner_id c \<notin> ac_owner_id ` A"
    and open_request: "\<And>r. query_existing_run s (bc_request_id c) = Some r \<Longrightarrow>
      \<not> is_terminal (nr_status r) \<and> nr_canonical_request_json r = kq_json (bc_canonical c)"
  shows "\<exists>s' a. begin_run c s s = Ok (s', Started a) \<and> is_active s' a \<and> ac_request_id a = bc_request_id c
     \<and> (\<forall>old \<in> A. \<not> is_active s' old)"
proof -
  have inv: "store_inv codec s" using reachable_inv [OF reach] by simp
  have "0 \<le> now" using call(2) by (auto simp: validate_begin_def)
  then obtain s' a where started: "begin_run c s s = Ok (s', Started a)"
    using begin_free [OF inv free room _ call(1,2) open_request] by blast
  have active: "is_active s' a" using begin_inv [OF inv call(1) started] by blast
  obtain m where "begin_transaction c m s = Ok (s', Started a)" using begin_run_started [OF started] by blast
  then have a: "ac_owner_id a = bc_owner_id c" "ac_request_id a = bc_request_id c"
    using begin_transaction_started by (metis active_run.select_convs(3), metis active_run.select_convs(4))
  have "\<not> is_active s' old" if old: "old \<in> A" for old
  proof
    assume "is_active s' old"
    then have "ac_owner_id old = bc_owner_id c" using active a(1) by (auto simp: is_active_def owns_lease_def)
    then show False using call(3) imageI [OF old, of ac_owner_id] by simp
  qed
  then show ?thesis using started active a(2) by blast
qed

theorem dead_owner_is_replaced_witness:
  "\<exists>s' a. begin_run (demo_call [98] 20001) demo_ready demo_ready = Ok (s', Started a) \<and> is_active s' a \<and> \<not> is_active s' demo_active"
  using dead_owner_is_replaced [OF demo_reachable demo_open(5), of "demo_call [98] 20001"] demo_call_valid [of 20001] demo_open
  by (auto simp: LEASE_GRACE_MS_def I64_MAX_def is_terminal_def demo_active_def)

end
