(* ===== verification/Cache_Table.thy ===== *)
theory Cache_Table
  imports Store_Inventory
begin

text \<open>
  What the two caches of \<open>src/rust/scanner_core/src/store/cache.rs\<close> have in common: a table with a key, rows
  that are inserted or updated, and the eviction that brings the sum of their sizes below a cap. The
  statement \<open>ORDER BY ... LIMIT 1\<close> leaves open which of several least rows is taken; \<open>tie\<close> is that choice.
  The deadline is looked at in many places; \<open>opn\<close> answers each look, named by its place and turn, so
  that no order of the clock's answers is excluded.
\<close>

section \<open>The shared code\<close>

datatype cache_mutation_error = MutationSqlite rstring | MutationDeadline

datatype cache_look =
    LookValidate | LookChunk | LookBusy | LookBegin | LookCommit
  | LookPrepare | LookRecord nat | LookTotal | LookVictim nat | LookDelete nat

definition ensure_mutation_deadline :: "bool \<Rightarrow> (unit, cache_mutation_error) result" where
  "ensure_mutation_deadline deadline_open = (if deadline_open then Ok () else Err MutationDeadline)"

lemma ensure_mutation_deadline_Ok [simp]: "ensure_mutation_deadline b = Ok u \<longleftrightarrow> b"
  by (simp add: ensure_mutation_deadline_def)

text \<open>\<open>slice::chunks\<close>.\<close>

function chunks_of :: "nat \<Rightarrow> 'a list \<Rightarrow> 'a list list" where
  "chunks_of n xs = (if n = 0 \<or> xs = [] then [] else take n xs # chunks_of n (drop n xs))"
  by pat_completeness auto
termination by (relation "measure (\<lambda>(n, xs). length xs)") auto

declare chunks_of.simps [simp del]

text \<open>\<open>INSERT ... ON CONFLICT(key) DO UPDATE\<close>: \<open>merge\<close> is the updated row.\<close>

definition upsert_by :: "('r \<Rightarrow> 'k) \<Rightarrow> ('r \<Rightarrow> 'r \<Rightarrow> 'r) \<Rightarrow> 'r \<Rightarrow> 'r list \<Rightarrow> 'r list" where
  "upsert_by key merge r rows =
     (if list_ex (\<lambda>p. key p = key r) rows then map (\<lambda>p. if key p = key r then merge p r else p) rows
      else rows @ [r])"

definition total_bytes :: "('r \<Rightarrow> int) \<Rightarrow> 'r list \<Rightarrow> int" where
  "total_bytes bytes rows = sum_list (map bytes rows)"

definition victim :: "('r list \<Rightarrow> 'r) \<Rightarrow> ('r \<Rightarrow> 'p::linorder) \<Rightarrow> 'r list \<Rightarrow> 'r option" where
  "victim tie rank rows =
     (if rows = [] then None
      else Some (tie (filter (\<lambda>r. rank r = Min (rank ` set rows)) rows)))"

function evict_loop ::
  "('r list \<Rightarrow> 'r) \<Rightarrow> ('r \<Rightarrow> 'k) \<Rightarrow> ('r \<Rightarrow> 'p::linorder) \<Rightarrow> ('r \<Rightarrow> int) \<Rightarrow> (cache_look \<Rightarrow> bool) \<Rightarrow>
     int \<Rightarrow> nat \<Rightarrow> int \<Rightarrow> 'r list \<Rightarrow> ('r list, cache_mutation_error) result" where
  "evict_loop tie key rank bytes opn cap turn used rows =
     (if used \<le> cap then Ok rows
      else if \<not> opn (LookVictim turn) then Err MutationDeadline
      else case victim tie rank rows of
        None \<Rightarrow> Ok rows
      | Some v \<Rightarrow>
          if \<not> opn (LookDelete turn) then Err MutationDeadline
          else let rest = filter (\<lambda>r. key r \<noteq> key v) rows in
            if length rows \<noteq> length rest + 1 then Ok rest
            else evict_loop tie key rank bytes opn cap (turn + 1) (i64_saturating_sub used (bytes v)) rest)"
  by pat_completeness auto
termination
  by (relation "measure (\<lambda>(tie, key, rank, bytes, opn, cap, turn, used, rows). length rows)") auto

declare evict_loop.simps [simp del]

text \<open>The sum is an error of the database when it leaves the 64-bit integers.\<close>

definition evict_table ::
  "('r list \<Rightarrow> 'r) \<Rightarrow> ('r \<Rightarrow> 'k) \<Rightarrow> ('r \<Rightarrow> 'p::linorder) \<Rightarrow> ('r \<Rightarrow> int) \<Rightarrow> (cache_look \<Rightarrow> bool) \<Rightarrow>
     int \<Rightarrow> 'r list \<Rightarrow> ('r list, cache_mutation_error) result" where
  "evict_table tie key rank bytes opn cap rows =
     and_then (ensure_mutation_deadline (opn LookTotal)) (\<lambda>_.
     if I64_MAX < total_bytes bytes rows then Err (MutationSqlite (lit ''integer overflow''))
     else evict_loop tie key rank bytes opn cap 0 (total_bytes bytes rows) rows)"

section \<open>Writing\<close>

text \<open>The two writers are the same but for their records: \<open>admit\<close> is what a record must pass before it is
  inserted, \<open>row_of\<close> the row it becomes.\<close>

fun write_rows ::
  "(cache_look \<Rightarrow> bool) \<Rightarrow> ('w \<Rightarrow> (unit, cache_mutation_error) result) \<Rightarrow> ('w \<Rightarrow> 'r) \<Rightarrow> ('r \<Rightarrow> 'k) \<Rightarrow> ('r \<Rightarrow> 'r \<Rightarrow> 'r) \<Rightarrow>
     nat \<Rightarrow> 'w list \<Rightarrow> 'r list \<Rightarrow> ('r list, cache_mutation_error) result" where
  "write_rows opn admit row_of key merge i [] rows = Ok rows"
| "write_rows opn admit row_of key merge i (record # records) rows =
     and_then (ensure_mutation_deadline (opn (LookRecord i))) (\<lambda>_.
     and_then (admit record) (\<lambda>_.
     write_rows opn admit row_of key merge (i + 1) records (upsert_by key merge (row_of record) rows)))"

definition write_and_evict ::
  "(cache_look \<Rightarrow> bool) \<Rightarrow> ('w \<Rightarrow> (unit, cache_mutation_error) result) \<Rightarrow> ('w \<Rightarrow> 'r) \<Rightarrow> ('r \<Rightarrow> 'k) \<Rightarrow> ('r \<Rightarrow> 'r \<Rightarrow> 'r) \<Rightarrow>
     ('r list \<Rightarrow> ('r list, cache_mutation_error) result) \<Rightarrow> 'w list \<Rightarrow> 'r list \<Rightarrow> ('r list, cache_mutation_error) result" where
  "write_and_evict opn admit row_of key merge evict records rows =
     and_then (ensure_mutation_deadline (opn LookPrepare)) (\<lambda>_.
     and_then (write_rows opn admit row_of key merge 0 records rows) evict)"

fun cache_mutation :: "cache_mutation_error \<Rightarrow> store_error" where
  "cache_mutation (MutationSqlite detail) = StoreCacheWrite detail"
| "cache_mutation MutationDeadline = StoreWorkDeadlineExhausted"

definition ensure_work_deadline :: "bool \<Rightarrow> (unit, store_error) result" where
  "ensure_work_deadline is_open = (if is_open then Ok () else Err StoreWorkDeadlineExhausted)"

lemma ensure_work_deadline_Ok [simp]: "ensure_work_deadline b = Ok u \<longleftrightarrow> b"
  by (simp add: ensure_work_deadline_def)

fun validate_records ::
  "(nat \<Rightarrow> cache_look \<Rightarrow> bool) \<Rightarrow> ('w \<Rightarrow> check) \<Rightarrow> nat \<Rightarrow> 'w list \<Rightarrow> (unit, store_error) result" where
  "validate_records opn validate i [] = Ok ()"
| "validate_records opn validate i (record # records) =
     and_then (ensure_work_deadline (i mod CACHE_TRANSACTION_BATCH_SIZE \<noteq> 0
                 \<or> opn (i div CACHE_TRANSACTION_BATCH_SIZE) LookValidate)) (\<lambda>_.
     and_then (map_err StoreInvalidRequest (validate record)) (\<lambda>_.
     validate_records opn validate (i + 1) records))"

text \<open>One transaction for each chunk: a chunk that fails leaves the table as the chunks before it made it.\<close>

definition chunk_transaction ::
  "(cache_look \<Rightarrow> bool) \<Rightarrow> ('w list \<Rightarrow> 'r list \<Rightarrow> ('r list, cache_mutation_error) result) \<Rightarrow> 'w list \<Rightarrow> 'r list \<Rightarrow>
     ('r list, store_error) result" where
  "chunk_transaction opn write chunk rows =
     and_then (ensure_work_deadline (opn LookChunk)) (\<lambda>_.
     and_then (ensure_work_deadline (opn LookBusy)) (\<lambda>_.
     and_then (ensure_work_deadline (opn LookBegin)) (\<lambda>_.
     and_then (map_err cache_mutation (write chunk rows)) (\<lambda>rows.
     and_then (ensure_work_deadline (opn LookCommit)) (\<lambda>_. Ok rows)))))"

fun write_chunks ::
  "(nat \<Rightarrow> cache_look \<Rightarrow> bool) \<Rightarrow> ((cache_look \<Rightarrow> bool) \<Rightarrow> 'w list \<Rightarrow> 'r list \<Rightarrow> ('r list, cache_mutation_error) result) \<Rightarrow>
     nat \<Rightarrow> 'w list list \<Rightarrow> 'r list \<Rightarrow> 'r list \<times> (unit, store_error) result" where
  "write_chunks opn write k [] rows = (rows, Ok ())"
| "write_chunks opn write k (chunk # chunks) rows =
     (case chunk_transaction (opn k) (write (opn k)) chunk rows of
        Err e \<Rightarrow> (rows, Err e)
      | Ok rows \<Rightarrow> write_chunks opn write (Suc k) chunks rows)"

text \<open>\<open>deadline\<close>: whether the call has a deadline; without one every look finds it open. A call with one takes
  at most one chunk.\<close>

definition write_with_deadline ::
  "rstring \<Rightarrow> rstring \<Rightarrow> ('w \<Rightarrow> check) \<Rightarrow>
     (int \<Rightarrow> (cache_look \<Rightarrow> bool) \<Rightarrow> 'w list \<Rightarrow> 'r list \<Rightarrow> ('r list, cache_mutation_error) result) \<Rightarrow>
     bool \<Rightarrow> (nat \<Rightarrow> cache_look \<Rightarrow> bool) \<Rightarrow> 'w list \<Rightarrow> u64 \<Rightarrow> 'r list \<Rightarrow> 'r list \<times> (unit, store_error) result" where
  "write_with_deadline what field validate write deadline looks records cached_at_ms rows =
     (let opn = (\<lambda>k look. deadline \<longrightarrow> looks k look)
      in case and_then (require_store (\<not> (deadline \<and> CACHE_TRANSACTION_BATCH_SIZE < length records))
                 (StoreInvalidRequest (what @ lit '' write batch exceeds ''
                    @ dec CACHE_TRANSACTION_BATCH_SIZE @ lit '' records''))) (\<lambda>_.
              and_then (checked_i64 cached_at_ms field) (\<lambda>cached_at_ms.
              and_then (validate_records opn validate 0 records) (\<lambda>_. Ok cached_at_ms))) of
           Err e \<Rightarrow> (rows, Err e)
         | Ok cached_at_ms \<Rightarrow>
             write_chunks opn (write cached_at_ms) 0 (chunks_of CACHE_TRANSACTION_BATCH_SIZE records) rows)"

text \<open>\<open>UPDATE ... SET last_accessed_bucket WHERE file_identity AND last_accessed_bucket differs\<close>, for each
  identity, with the number of rows changed.\<close>

fun touch_rows ::
  "(cache_look \<Rightarrow> bool) \<Rightarrow> ('r \<Rightarrow> rstring) \<Rightarrow> ('r \<Rightarrow> rstring) \<Rightarrow> (rstring \<Rightarrow> 'r \<Rightarrow> 'r) \<Rightarrow> rstring \<Rightarrow> nat \<Rightarrow> rstring list \<Rightarrow> nat \<Rightarrow>
     'r list \<Rightarrow> ('r list \<times> nat, cache_mutation_error) result" where
  "touch_rows opn identity bucket_of set_bucket bucket i [] updated rows = Ok (rows, updated)"
| "touch_rows opn identity bucket_of set_bucket bucket i (f # fs) updated rows =
     and_then (ensure_mutation_deadline (opn (LookRecord i))) (\<lambda>_.
     let hit = (\<lambda>r. identity r = f \<and> bucket_of r \<noteq> bucket)
     in touch_rows opn identity bucket_of set_bucket bucket (i + 1) fs (updated + selected_count hit rows)
          (update_where hit (set_bucket bucket) rows))"

definition touch_table ::
  "(cache_look \<Rightarrow> bool) \<Rightarrow> ('r \<Rightarrow> rstring) \<Rightarrow> ('r \<Rightarrow> rstring) \<Rightarrow> (rstring \<Rightarrow> 'r \<Rightarrow> 'r) \<Rightarrow> rstring \<Rightarrow> rstring list \<Rightarrow>
     'r list \<Rightarrow> ('r list \<times> nat, cache_mutation_error) result" where
  "touch_table opn identity bucket_of set_bucket bucket identities rows =
     (if identities = [] then Ok (rows, 0)
      else and_then (ensure_mutation_deadline (opn LookPrepare)) (\<lambda>_.
        touch_rows opn identity bucket_of set_bucket bucket 0 identities 0 rows))"

section \<open>Chunks\<close>

lemma concat_chunks_of: "0 < n \<Longrightarrow> concat (chunks_of n xs) = xs"
proof (induction n xs rule: chunks_of.induct)
  case (1 n xs)
  show ?case using 1 by (cases "xs = []") (simp_all add: chunks_of.simps [of n xs] chunks_of.simps [of n "[]"])
qed

lemma chunks_of_subset: "c \<in> set (chunks_of n xs) \<Longrightarrow> set c \<subseteq> set xs"
proof (induction n xs rule: chunks_of.induct)
  case (1 n xs)
  show ?case using 1 by (cases "n = 0 \<or> xs = []") (auto simp: chunks_of.simps [of n xs] dest: in_set_takeD in_set_dropD)
qed

lemma chunks_of_small: "xs \<noteq> [] \<Longrightarrow> length xs \<le> n \<Longrightarrow> chunks_of n xs = [xs]"
  by (cases "n = 0") (simp_all add: chunks_of.simps [of n xs] chunks_of.simps [of n "[]"])

lemma chunks_of_length: "c \<in> set (chunks_of n xs) \<Longrightarrow> length c \<le> n \<and> c \<noteq> []"
proof (induction n xs rule: chunks_of.induct)
  case (1 n xs)
  show ?case using 1 by (cases "n = 0 \<or> xs = []") (auto simp: chunks_of.simps [of n xs])
qed

section \<open>Sums\<close>

lemma total_bytes_simps [simp]:
  "total_bytes bytes [] = 0"
  "total_bytes bytes (r # rows) = bytes r + total_bytes bytes rows"
  "total_bytes bytes (rows @ rows') = total_bytes bytes rows + total_bytes bytes rows'"
  by (simp_all add: total_bytes_def)

lemma total_bytes_nonneg: "\<forall>r\<in>set rows. 0 \<le> bytes r \<Longrightarrow> 0 \<le> total_bytes bytes rows"
  by (induction rows) auto

lemma total_bytes_remove:
  "distinct (map key rows) \<Longrightarrow> v \<in> set rows \<Longrightarrow>
     total_bytes bytes rows = bytes v + total_bytes bytes (filter (\<lambda>r. key r \<noteq> key v) rows)"
proof (induction rows)
  case (Cons r rows)
  show ?case
  proof (cases "r = v")
    case True
    with Cons.prems have "filter (\<lambda>r. key r \<noteq> key v) rows = rows" by (auto simp: filter_id_conv image_iff)
    with True show ?thesis by simp
  next
    case False
    with Cons.prems have "key r \<noteq> key v" by force
    with False Cons show ?thesis by simp
  qed
qed simp

lemma length_remove:
  "distinct (map key rows) \<Longrightarrow> v \<in> set rows \<Longrightarrow> length rows = length (filter (\<lambda>r. key r \<noteq> key v) rows) + 1"
proof (induction rows)
  case (Cons r rows)
  show ?case
  proof (cases "r = v")
    case True
    with Cons.prems have "filter (\<lambda>r. key r \<noteq> key v) rows = rows" by (auto simp: filter_id_conv image_iff)
    with True show ?thesis by simp
  next
    case False
    with Cons.prems have "key r \<noteq> key v" by force
    with False Cons show ?thesis by simp
  qed
qed simp

lemma distinct_key_filter: "distinct (map key rows) \<Longrightarrow> distinct (map key (filter P rows))"
  by (induction rows) auto

lemma same_key_same_row: "distinct (map key rows) \<Longrightarrow> p \<in> set rows \<Longrightarrow> q \<in> set rows \<Longrightarrow> key p = key q \<Longrightarrow> p = q"
  by (auto simp: distinct_map inj_on_def)

section \<open>The contract of the eviction\<close>

text \<open>\<open>picks tie\<close>: the database takes one of the rows it may take.\<close>

definition picks :: "('r list \<Rightarrow> 'r) \<Rightarrow> bool" where
  "picks tie \<longleftrightarrow> (\<forall>rows. rows \<noteq> [] \<longrightarrow> tie rows \<in> set rows)"

lemma picks_hd [simp]: "picks hd"
  by (simp add: picks_def)

text \<open>What is kept fits the cap, is what the table had in its order, gives way in the order of the rank,
  and no row is dropped once the rest fits.\<close>

definition evicted_to :: "('r \<Rightarrow> 'p::linorder) \<Rightarrow> ('r \<Rightarrow> int) \<Rightarrow> int \<Rightarrow> 'r list \<Rightarrow> 'r list \<Rightarrow> bool" where
  "evicted_to rank bytes cap rows kept \<longleftrightarrow>
     subseq kept rows \<and> total_bytes bytes kept \<le> cap
     \<and> (\<forall>gone\<in>set rows - set kept. \<forall>q\<in>set kept. rank gone \<le> rank q)
     \<and> (kept = rows \<or> (\<exists>last\<in>set rows - set kept. cap < bytes last + total_bytes bytes kept))"

lemma victim_least:
  assumes "picks tie" and "victim tie rank rows = Some v"
  shows "v \<in> set rows" and "\<forall>q\<in>set rows. rank v \<le> rank q"
proof -
  let ?least = "filter (\<lambda>r. rank r = Min (rank ` set rows)) rows"
  from assms(2) have rows: "rows \<noteq> []" and v: "v = tie ?least" by (auto simp: victim_def split: if_splits)
  have "Min (rank ` set rows) \<in> rank ` set rows" using rows by (intro Min_in) auto
  then obtain r where "r \<in> set rows" and "rank r = Min (rank ` set rows)" by (metis imageE)
  then have "?least \<noteq> []" by (metis (mono_tags, lifting) filter_empty_conv)
  with assms(1) v have "v \<in> set ?least" unfolding picks_def by blast
  then have "v \<in> set rows" and "rank v = Min (rank ` set rows)" by simp_all
  then show "v \<in> set rows" and "\<forall>q\<in>set rows. rank v \<le> rank q" by (simp_all add: Min_le)
qed

lemma subseq_set: "subseq xs ys \<Longrightarrow> set xs \<subseteq> set ys"
  by (induction rule: list_emb.induct) auto

lemma subseq_distinct_map: "subseq xs ys \<Longrightarrow> distinct (map f ys) \<Longrightarrow> distinct (map f xs)"
proof (induction rule: list_emb.induct)
  case (list_emb_Cons2 x y xs ys)
  then show ?case using subseq_set [of xs ys] by auto
qed auto

lemma evicted_to_refl: "total_bytes bytes rows \<le> cap \<Longrightarrow> evicted_to rank bytes cap rows rows"
  by (simp add: evicted_to_def)

lemma evicted_to_step:
  assumes keys: "distinct (map key rows)" and v: "v \<in> set rows" "\<forall>q\<in>set rows. rank v \<le> rank q"
    and over: "cap < total_bytes bytes rows"
    and rest: "evicted_to rank bytes cap (filter (\<lambda>r. key r \<noteq> key v) rows) kept"
  shows "evicted_to rank bytes cap rows kept"
proof -
  let ?rest = "filter (\<lambda>r. key r \<noteq> key v) rows"
  have sub: "set kept \<subseteq> set ?rest" using rest subseq_set [of kept ?rest] by (simp add: evicted_to_def)
  then have out: "v \<notin> set kept" by auto
  have rest_rows: "r \<in> set ?rest" if "r \<in> set rows" "r \<noteq> v" for r
    using that same_key_same_row [OF keys] v(1) by auto
  have order: "\<forall>gone\<in>set rows - set kept. \<forall>q\<in>set kept. rank gone \<le> rank q"
  proof (intro ballI)
    fix gone q assume gone: "gone \<in> set rows - set kept" and q: "q \<in> set kept"
    show "rank gone \<le> rank q"
    proof (cases "gone = v")
      case True
      have "q \<in> set rows" using q sub by auto
      with True v(2) show ?thesis by blast
    next
      case False
      with gone rest_rows have "gone \<in> set ?rest - set kept" by blast
      with q rest show ?thesis by (auto simp: evicted_to_def)
    qed
  qed
  have "\<exists>last\<in>set rows - set kept. cap < bytes last + total_bytes bytes kept"
  proof (cases "kept = ?rest")
    case True
    with over total_bytes_remove [OF keys v(1), of bytes] v(1) out show ?thesis by (intro bexI [of _ v]) auto
  next
    case False
    with rest obtain last where "last \<in> set ?rest - set kept" "cap < bytes last + total_bytes bytes kept"
      unfolding evicted_to_def by blast
    then show ?thesis by (intro bexI [of _ last]) auto
  qed
  moreover have "subseq kept rows" using rest subseq_order.trans [OF _ subseq_filter_left]
    by (auto simp: evicted_to_def)
  ultimately show ?thesis using rest order by (auto simp: evicted_to_def)
qed

lemma evict_loop_contract:
  assumes "picks tie" and "distinct (map key rows)" and "\<forall>r\<in>set rows. 0 \<le> bytes r" and "0 \<le> cap"
    and "used = total_bytes bytes rows" and "used \<le> I64_MAX"
    and "evict_loop tie key rank bytes opn cap turn used rows = Ok kept"
  shows "evicted_to rank bytes cap rows kept"
  using assms
proof (induction tie key rank bytes opn cap turn used rows rule: evict_loop.induct)
  case (1 tie key rank bytes opn cap turn used rows)
  show ?case
  proof (cases "used \<le> cap")
    case True
    with "1.prems" show ?thesis by (auto simp: evict_loop.simps [of tie] evicted_to_refl)
  next
    case False
    then have "rows \<noteq> []" using "1.prems"(4,5) by auto
    then obtain v where v: "victim tie rank rows = Some v" by (auto simp: victim_def)
    note least = victim_least [OF "1.prems"(1) v]
    let ?rest = "filter (\<lambda>r. key r \<noteq> key v) rows"
    have len: "length rows = length ?rest + 1" using length_remove [OF "1.prems"(2) least(1)] .
    from False "1.prems"(7) v len have looks: "opn (LookVictim turn)" "opn (LookDelete turn)"
      and run: "evict_loop tie key rank bytes opn cap (turn + 1) (i64_saturating_sub used (bytes v)) ?rest = Ok kept"
      by (auto simp: evict_loop.simps [of tie key rank bytes opn cap turn] Let_def split: if_splits)
    have sum: "used = bytes v + total_bytes bytes ?rest"
      using total_bytes_remove [OF "1.prems"(2) least(1)] "1.prems"(5) by simp
    have "0 \<le> total_bytes bytes ?rest" and "0 \<le> bytes v"
      using "1.prems"(3) least(1) by (auto intro!: total_bytes_nonneg)
    with sum "1.prems"(6) have sub: "i64_saturating_sub used (bytes v) = total_bytes bytes ?rest"
      by (auto simp: i64_saturating_sub_def i64_clamp_def I64_MIN_def I64_MAX_def)
    have "evicted_to rank bytes cap ?rest kept"
    proof (rule "1.IH" [OF False _ v _ refl])
      show "\<not> \<not> opn (LookVictim turn)" "\<not> \<not> opn (LookDelete turn)" using looks by simp_all
      show "\<not> length rows \<noteq> length ?rest + 1" using len by simp
      show "picks tie" "0 \<le> cap" using "1.prems" by simp_all
      show "distinct (map key ?rest)" using "1.prems"(2) by (rule distinct_key_filter)
      show "\<forall>r\<in>set ?rest. 0 \<le> bytes r" using "1.prems"(3) by simp
      show "i64_saturating_sub used (bytes v) = total_bytes bytes ?rest" by (rule sub)
      show "i64_saturating_sub used (bytes v) \<le> I64_MAX" using sub sum "1.prems"(6) \<open>0 \<le> bytes v\<close> by simp
      show "evict_loop tie key rank bytes opn cap (turn + 1) (i64_saturating_sub used (bytes v)) ?rest = Ok kept"
        by (rule run)
    qed
    then show ?thesis
      using evicted_to_step [OF "1.prems"(2) least] False "1.prems"(5) by simp
  qed
qed

lemma evict_table_contract:
  assumes "picks tie" and "distinct (map key rows)" and "\<forall>r\<in>set rows. 0 \<le> bytes r" and "0 \<le> cap"
    and "evict_table tie key rank bytes opn cap rows = Ok kept"
  shows "evicted_to rank bytes cap rows kept"
proof -
  from assms(5) have "\<not> I64_MAX < total_bytes bytes rows"
    and "evict_loop tie key rank bytes opn cap 0 (total_bytes bytes rows) rows = Ok kept"
    by (auto simp: evict_table_def ensure_mutation_deadline_def split: if_splits)
  then show ?thesis using evict_loop_contract [OF assms(1-4) refl] by simp
qed

section \<open>Reading\<close>

text \<open>The row of a key, as a \<open>SELECT\<close> by the primary key finds it.\<close>

definition row_at :: "('r \<Rightarrow> 'k) \<Rightarrow> 'r list \<Rightarrow> 'k \<Rightarrow> 'r option" where
  "row_at key rows k = find (\<lambda>r. key r = k) rows"

lemma row_at_simps [simp]:
  "row_at key [] k = None"
  "row_at key (r # rows) k = (if key r = k then Some r else row_at key rows k)"
  by (simp_all add: row_at_def)

lemma row_at_SomeD: "row_at key rows k = Some r \<Longrightarrow> r \<in> set rows \<and> key r = k"
  by (auto simp: row_at_def find_Some_iff)

lemma row_at_None: "row_at key rows k = None \<longleftrightarrow> (\<forall>r\<in>set rows. key r \<noteq> k)"
  by (auto simp: row_at_def find_None_iff)

lemma row_at_append: "row_at key (rows @ rows') k = (case row_at key rows k of None \<Rightarrow> row_at key rows' k | Some r \<Rightarrow> Some r)"
  by (induction rows) auto

lemma row_at_member: "distinct (map key rows) \<Longrightarrow> r \<in> set rows \<Longrightarrow> row_at key rows (key r) = Some r"
  by (induction rows) (auto simp: image_iff)

lemma row_at_kept:
  assumes "subseq kept rows" and "distinct (map key rows)"
  shows "row_at key kept k = row_at key rows k \<or> row_at key kept k = None"
proof (cases "row_at key kept k")
  case (Some r)
  then have "r \<in> set kept" and k: "key r = k" using row_at_SomeD by fastforce+
  with assms(1) have "r \<in> set rows" using subseq_set by blast
  with assms(2) k Some show ?thesis using row_at_member by fastforce
qed simp

text \<open>The contract of a cache table: an update keeps the key of the row, and takes its size and what a reader
  sees of it from the new row.\<close>

locale evicting_table =
  fixes key :: "'r \<Rightarrow> 'k" and bytes :: "'r \<Rightarrow> int" and view :: "'r \<Rightarrow> 'v" and merge :: "'r \<Rightarrow> 'r \<Rightarrow> 'r"
  assumes merge_key: "key (merge p r) = key p"
    and merge_bytes: "bytes (merge p r) = bytes r"
    and merge_view: "view (merge p r) = view r"
begin

lemma upsert_keys: "distinct (map key rows) \<Longrightarrow> distinct (map key (upsert_by key merge r rows))"
proof -
  assume d: "distinct (map key rows)"
  have "map key (map (\<lambda>p. if key p = key r then merge p r else p) rows) = map key rows"
    by (simp add: merge_key)
  with d show ?thesis by (auto simp: upsert_by_def list_ex_iff simp del: map_map)
qed

lemma upsert_sizes:
  assumes "\<forall>p\<in>set rows. 0 \<le> bytes p" and "0 \<le> bytes r"
  shows "\<forall>p\<in>set (upsert_by key merge r rows). 0 \<le> bytes p"
  using assms by (auto simp: upsert_by_def merge_bytes)

lemma upserts_keys: "distinct (map key rows) \<Longrightarrow> distinct (map key (fold (upsert_by key merge) new rows))"
  by (induction new arbitrary: rows) (simp_all add: upsert_keys)

lemma upserts_sizes:
  "\<forall>p\<in>set rows. 0 \<le> bytes p \<Longrightarrow> \<forall>r\<in>set new. 0 \<le> bytes r \<Longrightarrow>
     \<forall>p\<in>set (fold (upsert_by key merge) new rows). 0 \<le> bytes p"
proof (induction new arbitrary: rows)
  case (Cons r new)
  have "\<forall>p\<in>set (upsert_by key merge r rows). 0 \<le> bytes p" using Cons.prems by (intro upsert_sizes) auto
  with Cons show ?case by simp
qed simp

lemma row_at_updated:
  "row_at key (map (\<lambda>p. if key p = key r then merge p r else p) rows) k
     = map_option (\<lambda>p. if key p = key r then merge p r else p) (row_at key rows k)"
  by (induction rows) (simp_all add: merge_key)

lemma upsert_view:
  "map_option view (row_at key (upsert_by key merge r rows) k)
     = (if k = key r then Some (view r) else map_option view (row_at key rows k))"
proof (cases "list_ex (\<lambda>p. key p = key r) rows")
  case True
  then have upd: "row_at key (upsert_by key merge r rows) k
      = map_option (\<lambda>p. if key p = key r then merge p r else p) (row_at key rows k)"
    by (simp add: upsert_by_def row_at_updated)
  show ?thesis
  proof (cases "row_at key rows k")
    case None
    then have "k \<noteq> key r" using True by (auto simp: row_at_None list_ex_iff)
    with None upd show ?thesis by simp
  next
    case (Some p)
    with row_at_SomeD [OF Some] upd show ?thesis by (auto simp: merge_view)
  qed
next
  case False
  then have "row_at key rows (key r) = None" by (auto simp: row_at_None list_ex_iff)
  with False show ?thesis by (auto simp: upsert_by_def row_at_append split: option.splits)
qed

lemma upserts_view_other:
  "k \<notin> key ` set new \<Longrightarrow>
     map_option view (row_at key (fold (upsert_by key merge) new rows) k) = map_option view (row_at key rows k)"
  by (induction new arbitrary: rows) (auto simp: upsert_view)

lemma upserts_view_last:
  "key r \<notin> key ` set later \<Longrightarrow>
     map_option view (row_at key (fold (upsert_by key merge) (before @ r # later) rows) (key r)) = Some (view r)"
  by (simp add: upserts_view_other upsert_view)

text \<open>After the eviction a reader finds the row that was written or nothing, and finds it if nothing had to
  give way.\<close>

lemma kept_view:
  assumes "distinct (map key rows)" and "evicted_to rank bytes cap rows kept"
  shows "map_option view (row_at key kept k) = map_option view (row_at key rows k) \<or> row_at key kept k = None"
  using row_at_kept [OF _ assms(1), of kept k] assms(2) by (auto simp: evicted_to_def)

end

lemma total_bytes_subseq:
  "subseq kept rows \<Longrightarrow> \<forall>r\<in>set rows. 0 \<le> bytes r \<Longrightarrow> total_bytes bytes kept \<le> total_bytes bytes rows"
  by (induction rule: list_emb.induct) (auto intro: total_bytes_nonneg add_increasing)

lemma evicted_to_idle:
  assumes "evicted_to rank bytes cap rows kept" and "\<forall>r\<in>set rows. 0 \<le> bytes r" and "total_bytes bytes rows \<le> cap"
    and "distinct (map key rows)"
  shows "kept = rows"
proof (rule ccontr)
  assume "kept \<noteq> rows"
  with assms(1) obtain last where last: "last \<in> set rows - set kept" "cap < bytes last + total_bytes bytes kept"
    by (auto simp: evicted_to_def)
  let ?rest = "filter (\<lambda>r. key r \<noteq> key last) rows"
  have sub: "subseq kept rows" using assms(1) by (simp add: evicted_to_def)
  have "filter (\<lambda>r. key r \<noteq> key last) kept = kept"
    using last subseq_set [OF sub] same_key_same_row [OF assms(4)] by (auto simp: filter_id_conv)
  then have "subseq kept ?rest" using subseq_filter [OF sub, of "\<lambda>r. key r \<noteq> key last"] by simp
  then have "total_bytes bytes kept \<le> total_bytes bytes ?rest"
    using assms(2) by (intro total_bytes_subseq) auto
  with total_bytes_remove [OF assms(4), of last bytes] last assms(3) show False by auto
qed

section \<open>The tables as their writers keep them\<close>

definition table_ok :: "('r \<Rightarrow> 'k) \<Rightarrow> ('r \<Rightarrow> int) \<Rightarrow> ('r \<Rightarrow> bool) \<Rightarrow> int \<Rightarrow> 'r list \<Rightarrow> bool" where
  "table_ok key bytes good cap rows \<longleftrightarrow>
     distinct (map key rows) \<and> (\<forall>r\<in>set rows. 0 \<le> bytes r \<and> good r) \<and> total_bytes bytes rows \<le> cap"

lemma write_rows_Ok:
  "write_rows opn admit row_of key merge i records rows = Ok rows' \<Longrightarrow>
     rows' = fold (upsert_by key merge) (map row_of records) rows \<and> (\<forall>record\<in>set records. admit record = Ok ())"
  by (induction records arbitrary: i rows) auto

lemma validate_records_Ok:
  "validate_records opn validate i records = Ok () \<Longrightarrow> \<forall>record\<in>set records. validate record = Ok ()"
proof (induction records arbitrary: i)
  case (Cons r rs)
  then show ?case by (cases "validate r") auto
qed simp

lemma chunk_transaction_Ok:
  "chunk_transaction opn write chunk rows = Ok rows' \<Longrightarrow> write chunk rows = Ok rows'"
  by (cases "write chunk rows") (auto simp: chunk_transaction_def ensure_work_deadline_def split: if_splits)

text \<open>A call with a deadline is one transaction: an error leaves the table as it was.\<close>

lemma single_chunk_atomic:
  assumes "write_with_deadline what field validate write True looks records now rows = (rows', r)" and "r = Err e"
  shows "rows' = rows"
proof -
  let ?opn = "\<lambda>k look. True \<longrightarrow> looks k look"
  let ?pre = "and_then (require_store (\<not> (True \<and> CACHE_TRANSACTION_BATCH_SIZE < length records))
                 (StoreInvalidRequest (what @ lit '' write batch exceeds ''
                    @ dec CACHE_TRANSACTION_BATCH_SIZE @ lit '' records''))) (\<lambda>_.
              and_then (checked_i64 now field) (\<lambda>at.
              and_then (validate_records ?opn validate 0 records) (\<lambda>_. Ok at)))"
  show ?thesis
  proof (cases ?pre)
    case (Err e')
    have "write_with_deadline what field validate write True looks records now rows = (rows, Err e')"
      unfolding write_with_deadline_def Let_def Err result.case ..
    with assms show ?thesis by simp
  next
    case (Ok at)
    have run: "write_with_deadline what field validate write True looks records now rows
        = write_chunks ?opn (write at) 0 (chunks_of CACHE_TRANSACTION_BATCH_SIZE records) rows"
      unfolding write_with_deadline_def Let_def Ok result.case ..
    from Ok have "length records \<le> CACHE_TRANSACTION_BATCH_SIZE" by (simp add: not_less)
    then have "chunks_of CACHE_TRANSACTION_BATCH_SIZE records = (if records = [] then [] else [records])"
      by (simp add: chunks_of_small) (simp add: chunks_of.simps)
    with run assms show ?thesis by (auto split: if_splits result.splits)
  qed
qed

text \<open>A contract for a cache: \<open>good\<close> is what a reader may rely on in each row; an update and a new bucket
  keep it.\<close>

locale cache_contract = evicting_table key bytes view merge
  for key :: "'r \<Rightarrow> 'k" and bytes :: "'r \<Rightarrow> int" and view :: "'r \<Rightarrow> 'v" and merge :: "'r \<Rightarrow> 'r \<Rightarrow> 'r" +
  fixes rank :: "'r \<Rightarrow> 'p::linorder" and good :: "'r \<Rightarrow> bool" and cap :: int and set_bucket :: "rstring \<Rightarrow> 'r \<Rightarrow> 'r"
  assumes cap_nonneg: "0 \<le> cap"
    and merge_good: "good p \<Longrightarrow> good r \<Longrightarrow> key p = key r \<Longrightarrow> good (merge p r)"
    and bucket_key: "key (set_bucket b r) = key r"
    and bucket_bytes: "bytes (set_bucket b r) = bytes r"
    and bucket_view: "view (set_bucket b r) = view r"
    and bucket_good: "good r \<Longrightarrow> good (set_bucket b r)"
begin

lemma upsert_good:
  "\<forall>p\<in>set rows. good p \<Longrightarrow> good r \<Longrightarrow> \<forall>p\<in>set (upsert_by key merge r rows). good p"
  by (auto simp: upsert_by_def merge_good)

lemma upserts_good:
  "\<forall>p\<in>set rows. good p \<Longrightarrow> \<forall>r\<in>set new. good r \<Longrightarrow> \<forall>p\<in>set (fold (upsert_by key merge) new rows). good p"
proof (induction new arbitrary: rows)
  case (Cons r new)
  have "\<forall>p\<in>set (upsert_by key merge r rows). good p" using Cons.prems by (intro upsert_good) auto
  with Cons show ?case by simp
qed simp

text \<open>One writer: the new table is the updated one, brought below the cap.\<close>

lemma write_and_evict_contract:
  assumes tie: "picks tie" and ok: "table_ok key bytes good cap rows"
    and good: "\<And>record. record \<in> set records \<Longrightarrow> admit record = Ok () \<Longrightarrow> 0 \<le> bytes (row_of record) \<and> good (row_of record)"
    and run: "write_and_evict opn admit row_of key merge (evict_table tie key rank bytes opn cap) records rows = Ok kept"
  shows "evicted_to rank bytes cap (fold (upsert_by key merge) (map row_of records) rows) kept"
    and "table_ok key bytes good cap kept"
proof -
  let ?new = "map row_of records" and ?rows = "fold (upsert_by key merge) (map row_of records) rows"
  from run obtain rows' where w: "write_rows opn admit row_of key merge 0 records rows = Ok rows'"
    and e: "evict_table tie key rank bytes opn cap rows' = Ok kept"
    by (auto simp: write_and_evict_def)
  from write_rows_Ok [OF w] have rows': "rows' = ?rows" and admitted: "\<forall>record\<in>set records. admit record = Ok ()"
    by auto
  have new: "\<forall>r\<in>set ?new. 0 \<le> bytes r" "\<forall>r\<in>set ?new. good r" using good admitted by auto
  have keys: "distinct (map key ?rows)" using ok upserts_keys by (simp add: table_ok_def)
  have sizes: "\<forall>r\<in>set ?rows. 0 \<le> bytes r" using ok new(1) by (intro upserts_sizes) (auto simp: table_ok_def)
  have goods: "\<forall>r\<in>set ?rows. good r" using ok new(2) by (intro upserts_good) (auto simp: table_ok_def)
  show c: "evicted_to rank bytes cap ?rows kept"
    using evict_table_contract [OF tie keys sizes cap_nonneg] e rows' by simp
  then have sub: "subseq kept ?rows" by (simp add: evicted_to_def)
  have "distinct (map key kept)" using keys subseq_distinct_map [OF sub] by blast
  with c subseq_set [OF sub] sizes goods show "table_ok key bytes good cap kept"
    by (auto simp: table_ok_def evicted_to_def)
qed

lemma write_chunks_keeps:
  assumes step: "\<And>k chunk rows kept. chunk \<in> set chunks \<Longrightarrow> table_ok key bytes good cap rows \<Longrightarrow>
      write (opn k) chunk rows = Ok kept \<Longrightarrow> table_ok key bytes good cap kept"
    and "table_ok key bytes good cap rows"
  shows "table_ok key bytes good cap (fst (write_chunks opn write k chunks rows))"
  using assms
proof (induction chunks arbitrary: k rows)
  case (Cons chunk chunks)
  show ?case
  proof (cases "chunk_transaction (opn k) (write (opn k)) chunk rows")
    case (Ok kept)
    then have "table_ok key bytes good cap kept"
      using chunk_transaction_Ok Cons.prems by (metis list.set_intros(1))
    then have "table_ok key bytes good cap (fst (write_chunks opn write (Suc k) chunks kept))"
      by (rule Cons.IH [rotated]) (rule Cons.prems(1), simp_all)
    with Ok show ?thesis by simp
  qed (use Cons in simp)
qed simp

lemma write_with_deadline_keeps:
  assumes step: "\<And>at opn chunk rows kept. set chunk \<subseteq> set records \<Longrightarrow> \<forall>r\<in>set records. validate r = Ok () \<Longrightarrow>
      table_ok key bytes good cap rows \<Longrightarrow> write at opn chunk rows = Ok kept \<Longrightarrow> table_ok key bytes good cap kept"
    and ok: "table_ok key bytes good cap rows"
  shows "table_ok key bytes good cap (fst (write_with_deadline what field validate write deadline looks records now rows))"
proof -
  let ?opn = "\<lambda>k look. deadline \<longrightarrow> looks k look"
  let ?pre = "and_then (require_store (\<not> (deadline \<and> CACHE_TRANSACTION_BATCH_SIZE < length records))
                 (StoreInvalidRequest (what @ lit '' write batch exceeds ''
                    @ dec CACHE_TRANSACTION_BATCH_SIZE @ lit '' records''))) (\<lambda>_.
              and_then (checked_i64 now field) (\<lambda>at.
              and_then (validate_records ?opn validate 0 records) (\<lambda>_. Ok at)))"
  show ?thesis
  proof (cases ?pre)
    case (Err e)
    then show ?thesis using ok by (simp add: write_with_deadline_def Let_def)
  next
    case (Ok at)
    then have valid: "\<forall>r\<in>set records. validate r = Ok ()" by (auto dest: validate_records_Ok)
    have sub: "set chunk \<subseteq> set records" if "chunk \<in> set (chunks_of CACHE_TRANSACTION_BATCH_SIZE records)" for chunk
      using that by (rule chunks_of_subset)
    have "table_ok key bytes good cap
        (fst (write_chunks ?opn (write at) 0 (chunks_of CACHE_TRANSACTION_BATCH_SIZE records) rows))"
      by (rule write_chunks_keeps [OF _ ok]) (use step sub valid in blast)
    then show ?thesis unfolding write_with_deadline_def Let_def Ok result.case .
  qed
qed

text \<open>Touching changes nothing a reader, the key or the cap depends on.\<close>

lemma touch_rows_keeps:
  "touch_rows opn identity bucket_of set_bucket bucket i fs updated rows = Ok (rows', n) \<Longrightarrow>
     table_ok key bytes good cap rows \<Longrightarrow>
     table_ok key bytes good cap rows' \<and> (\<forall>k. map_option view (row_at key rows' k) = map_option view (row_at key rows k))"
proof (induction fs arbitrary: i updated rows)
  case (Cons f fs)
  let ?hit = "\<lambda>r. identity r = f \<and> bucket_of r \<noteq> bucket"
  let ?rows = "update_where ?hit (set_bucket bucket) rows"
  from Cons.prems(1) have run: "touch_rows opn identity bucket_of set_bucket bucket (i + 1) fs (updated + selected_count ?hit rows) ?rows = Ok (rows', n)"
    by (auto simp: Let_def)
  have keys: "map key ?rows = map key rows" by (auto simp: update_where_def bucket_key)
  have bytes: "map bytes ?rows = map bytes rows" by (auto simp: update_where_def bucket_bytes)
  have "\<forall>r\<in>set ?rows. 0 \<le> bytes r \<and> good r"
    using Cons.prems(2) by (auto simp: update_where_def table_ok_def bucket_bytes bucket_good)
  with keys bytes Cons.prems(2) have ok: "table_ok key bytes good cap ?rows"
    by (simp add: table_ok_def total_bytes_def)
  have "map_option view (row_at key ?rows k) = map_option view (row_at key rows k)" for k
    by (induction rows) (simp_all add: update_where_def bucket_key bucket_view)
  with Cons.IH [OF run ok] show ?case by simp
qed simp

lemma touch_table_keeps:
  assumes "touch_table opn identity bucket_of set_bucket bucket fs rows = Ok (rows', n)" and "table_ok key bytes good cap rows"
  shows "table_ok key bytes good cap rows'"
    and "map_option view (row_at key rows' k) = map_option view (row_at key rows k)"
  using assms touch_rows_keeps [of opn identity bucket_of bucket 0 fs 0 rows rows' n]
  by (auto simp: touch_table_def split: if_splits)

end

end
