(* ===== verification/Parse_Cache.thy ===== *)
theory Parse_Cache
  imports Cache_Table Cache_Bucket
begin

text \<open>
  The parse cache of \<open>src/rust/scanner_core/src/store/cache.rs\<close> and its operations of \<open>store/mod.rs\<close>: the
  rows with their payload, writing, eviction, single and batched lookup, and the decoding of what
  a lookup finds. A row is kept with what identifies the file, the state of its source and the
  parser that read it, and a lookup that finds no such row says why.
\<close>

section \<open>Records\<close>

definition PARSE_CACHE_MAX_BYTES :: int where "PARSE_CACHE_MAX_BYTES = 1073741824"
definition CACHE_LOOKUP_BATCH_SIZE :: nat where "CACHE_LOOKUP_BATCH_SIZE = 256"

record parse_cache_payload =
  py_version :: u64
  py_text :: rstring
  py_text_sha256 :: rstring
  py_evidence_audit :: parsed_content_audit

text \<open>What the caches call of the JSON and hash libraries. \<open>kd_page_audits\<close> reads the page audit of a file
  out of the metadata of a run: not at all if it is no JSON, then whether the file has one, then the
  audit if it has the form of one.\<close>

record cache_codec =
  kd_sha256 :: "rstring \<Rightarrow> rstring"
  kd_audit_bytes :: "parsed_content_audit \<Rightarrow> nat"
  kd_payload_json :: "parse_cache_payload \<Rightarrow> rstring"
  kd_parse_payload :: "rstring \<Rightarrow> parse_cache_payload option"
  kd_page_audits :: "rstring \<Rightarrow> (rstring \<Rightarrow> pdf_page_audit option option) option"

record cache_lookup_key =
  lk_file_identity :: rstring
  lk_source_version :: rstring
  lk_source_guard_kind :: rstring
  lk_source_guard_sha256 :: rstring
  lk_parse_profile_hash :: rstring
  lk_inventory_existed_before :: bool

record parse_cache_row =
  pk_file_identity :: rstring
  pk_source_version :: rstring
  pk_source_guard_kind :: rstring
  pk_source_guard_sha256 :: rstring
  pk_parse_profile_hash :: rstring
  pk_content :: rstring
  pk_content_sha256 :: rstring
  pk_parser_backend :: rstring
  pk_worker_lane :: rstring
  pk_truncated :: bool
  pk_worker_contract_version :: rstring
  pk_worker_version :: rstring
  pk_worker_build :: rstring
  pk_cached_at_ms :: int
  pk_entry_size_bytes :: int
  pk_generation_rank :: int
  pk_last_accessed_bucket :: rstring

type_synonym parse_cache_key = "rstring \<times> rstring \<times> rstring \<times> rstring \<times> rstring"

definition parse_row_key :: "parse_cache_row \<Rightarrow> parse_cache_key" where
  "parse_row_key r = (pk_file_identity r, pk_source_version r, pk_source_guard_kind r, pk_source_guard_sha256 r,
     pk_parse_profile_hash r)"

definition parse_lookup_key :: "cache_lookup_key \<Rightarrow> parse_cache_key" where
  "parse_lookup_key k = (lk_file_identity k, lk_source_version k, lk_source_guard_kind k, lk_source_guard_sha256 k,
     lk_parse_profile_hash k)"

definition stored_guard_kinds :: "rstring set" where
  "stored_guard_kinds = {lit ''windows_file_id_change_time_v1'', lit ''unix_inode_ctime_v1'', lit ''content_sha256_v1''}"

section \<open>Validation\<close>

text \<open>The part that a record and a stored entry share.\<close>

definition parser_identity_ok :: "rstring \<Rightarrow> rstring \<Rightarrow> rstring \<Rightarrow> rstring \<Rightarrow> rstring \<Rightarrow> bool" where
  "parser_identity_ok backend lane contract version build \<longleftrightarrow>
     backend \<noteq> [] \<and> length backend \<le> 1024 \<and> lane \<noteq> [] \<and> length lane \<le> 1024
     \<and> contract \<noteq> [] \<and> length contract \<le> 1024 \<and> version \<noteq> [] \<and> length version \<le> 1024
     \<and> build \<noteq> [] \<and> length build \<le> 4096"

definition validate_cache_write :: "cache_codec \<Rightarrow> cache_write_record \<Rightarrow> check" where
  "validate_cache_write codec r =
     and_then (require (cw_cache_payload_version r \<le> PARSE_CACHE_PAYLOAD_VERSION)
                 (lit ''unsupported parse cache payload version'')) (\<lambda>_.
     and_then (check_some (cw_evidence_audit r) (\<lambda>audit. validate_content_audit (kd_audit_bytes codec) audit (cw_content r))) (\<lambda>_.
     require (cw_file_identity r \<noteq> [] \<and> length (cw_file_identity r) \<le> 4096 \<and> cw_source_version r \<noteq> []
         \<and> is_ok (parse_source_version (cw_source_version r))
         \<and> cw_source_guard_kind r \<in> stored_guard_kinds \<and> is_sha256_hex (cw_source_guard_sha256 r)
         \<and> is_sha256_hex (cw_parse_profile_hash r) \<and> is_sha256_hex (cw_content_sha256 r)
         \<and> kd_sha256 codec (cw_content r) = cw_content_sha256 r
         \<and> parser_identity_ok (cw_parser_backend r) (cw_worker_lane r) (cw_worker_contract_version r)
              (cw_worker_version r) (cw_worker_build r))
       (lit ''invalid successful cache record'')))"

definition validate_cache_entry :: "cache_codec \<Rightarrow> cache_entry \<Rightarrow> check" where
  "validate_cache_entry codec e =
     require (is_sha256_hex (ch_content_sha256 e) \<and> kd_sha256 codec (ch_content e) = ch_content_sha256 e
         \<and> parser_identity_ok (ch_parser_backend e) (ch_worker_lane e) (ch_worker_contract_version e)
              (ch_worker_version e) (ch_worker_build e))
       (lit ''invalid parse cache value'')"

section \<open>The payload\<close>

definition payload_of_record :: "cache_write_record \<Rightarrow> parse_cache_payload" where
  "payload_of_record r =
     \<lparr>py_version = cw_cache_payload_version r, py_text = cw_content r, py_text_sha256 = cw_content_sha256 r,
      py_evidence_audit = (case cw_evidence_audit r of None \<Rightarrow> default_content_audit | Some a \<Rightarrow> a)\<rparr>"

definition stored_content :: "cache_codec \<Rightarrow> cache_write_record \<Rightarrow> rstring \<times> rstring" where
  "stored_content codec r =
     (if cw_cache_payload_version r = 0 then (cw_content r, cw_content_sha256 r)
      else let content = kd_payload_json codec (payload_of_record r) in (content, kd_sha256 codec content))"

definition decoded_payload :: "cache_codec \<Rightarrow> u64 \<Rightarrow> cache_entry \<Rightarrow> (parse_cache_payload, rstring) result" where
  "decoded_payload codec version entry =
     and_then (validate_cache_entry codec entry) (\<lambda>_.
     and_then (ok_or (lit ''invalid parse cache payload'') (kd_parse_payload codec (ch_content entry))) (\<lambda>payload.
     and_then (require (py_version payload = version \<and> version = PARSE_CACHE_PAYLOAD_VERSION
                 \<and> kd_sha256 codec (py_text payload) = py_text_sha256 payload)
                 (lit ''parse cache logical identity is invalid'')) (\<lambda>_.
     and_then (map_err (\<lambda>_. lit ''invalid cached positions'')
                 (validate_content_audit (kd_audit_bytes codec) (py_evidence_audit payload) (py_text payload))) (\<lambda>_.
     Ok payload))))"

fun decode_payload :: "cache_codec \<Rightarrow> u64 \<Rightarrow> cache_lookup \<Rightarrow> cache_lookup" where
  "decode_payload codec version (LookupMiss reason) = LookupMiss reason"
| "decode_payload codec version (LookupFresh entry) =
     (if version = 0 then LookupFresh entry
      else case decoded_payload codec version entry of
        Ok payload \<Rightarrow> LookupFresh (entry\<lparr>ch_content := py_text payload, ch_content_sha256 := py_text_sha256 payload,
                       ch_evidence_audit := Some (py_evidence_audit payload)\<rparr>)
      | Err _ \<Rightarrow> LookupMiss EntryAbsentOrEvicted)"

section \<open>Eviction\<close>

definition recompute_rank :: "rstring \<Rightarrow> int option" where
  "recompute_rank parser_backend =
     (if parser_backend = lit ''light_text_v2'' then Some 1
      else if parser_backend = lit ''rust_xlsx_bounded_v2'' then Some 2
      else if parser_backend = lit ''rust_office_oxide_v2'' then Some 2
      else if parser_backend = lit ''rust_legacy_office_v3'' then Some 3
      else if parser_backend = lit ''rust_xls_calamine_v3'' then Some 4
      else if parser_backend = lit ''rust_pdfium_v3'' then Some 10
      else None)"

text \<open>The tuple of \<open>ORDER BY\<close>; the \<open>CASE\<close> of the statement repeats the ranks above.\<close>

definition parse_eviction_rank :: "parse_cache_row \<Rightarrow> int \<times> int \<times> rstring \<times> int \<times> nat" where
  "parse_eviction_rank r =
     (pk_generation_rank r,
      (if pk_parser_backend r = lit ''light_text_v2'' then 1
       else if pk_parser_backend r = lit ''rust_xlsx_bounded_v2'' then 2
       else if pk_parser_backend r = lit ''rust_office_oxide_v2'' then 2
       else if pk_parser_backend r = lit ''rust_legacy_office_v3'' then 3
       else if pk_parser_backend r = lit ''rust_xls_calamine_v3'' then 4
       else if pk_parser_backend r = lit ''rust_pdfium_v3'' then 10
       else 99),
      pk_last_accessed_bucket r, pk_cached_at_ms r,
      length (pk_file_identity r) + length (pk_source_version r) + length (pk_source_guard_kind r)
        + length (pk_source_guard_sha256 r) + length (pk_parse_profile_hash r))"

lemma eviction_rank_of_written:
  "recompute_rank (pk_parser_backend r) = Some n \<Longrightarrow> fst (snd (parse_eviction_rank r)) = n"
  by (simp add: recompute_rank_def parse_eviction_rank_def split: if_splits)

definition parse_entry_size_bytes :: "cache_codec \<Rightarrow> cache_write_record \<Rightarrow> int" where
  "parse_entry_size_bytes codec r =
     utf8_len (cw_file_identity r) + utf8_len (cw_source_version r) + utf8_len (cw_source_guard_kind r)
     + utf8_len (cw_source_guard_sha256 r) + utf8_len (cw_parse_profile_hash r) + utf8_len (fst (stored_content codec r))
     + utf8_len (cw_content_sha256 r) + utf8_len (cw_parser_backend r) + utf8_len (cw_worker_lane r)
     + utf8_len (cw_worker_contract_version r) + utf8_len (cw_worker_version r) + utf8_len (cw_worker_build r) + 8"

definition evict_parse_cache ::
  "(parse_cache_row list \<Rightarrow> parse_cache_row) \<Rightarrow> (cache_look \<Rightarrow> bool) \<Rightarrow> parse_cache_row list \<Rightarrow>
     (parse_cache_row list, cache_mutation_error) result" where
  "evict_parse_cache tie opn rows =
     evict_table tie parse_row_key parse_eviction_rank pk_entry_size_bytes opn PARSE_CACHE_MAX_BYTES rows"

section \<open>Writing\<close>

definition parse_row_of :: "cache_codec \<Rightarrow> int \<Rightarrow> rstring \<Rightarrow> cache_write_record \<Rightarrow> parse_cache_row" where
  "parse_row_of codec cached_at_ms bucket r =
     \<lparr>pk_file_identity = cw_file_identity r, pk_source_version = cw_source_version r,
      pk_source_guard_kind = cw_source_guard_kind r, pk_source_guard_sha256 = cw_source_guard_sha256 r,
      pk_parse_profile_hash = cw_parse_profile_hash r, pk_content = fst (stored_content codec r),
      pk_content_sha256 = snd (stored_content codec r), pk_parser_backend = cw_parser_backend r,
      pk_worker_lane = cw_worker_lane r, pk_truncated = cw_truncated r,
      pk_worker_contract_version = cw_worker_contract_version r, pk_worker_version = cw_worker_version r,
      pk_worker_build = cw_worker_build r, pk_cached_at_ms = cached_at_ms,
      pk_entry_size_bytes = parse_entry_size_bytes codec r, pk_generation_rank = 1, pk_last_accessed_bucket = bucket\<rparr>"

text \<open>\<open>DO UPDATE SET\<close>: every column but the key and the generation.\<close>

definition merge_parse_row :: "parse_cache_row \<Rightarrow> parse_cache_row \<Rightarrow> parse_cache_row" where
  "merge_parse_row p r =
     p\<lparr>pk_content := pk_content r, pk_content_sha256 := pk_content_sha256 r, pk_parser_backend := pk_parser_backend r,
       pk_worker_lane := pk_worker_lane r, pk_truncated := pk_truncated r,
       pk_worker_contract_version := pk_worker_contract_version r, pk_worker_version := pk_worker_version r,
       pk_worker_build := pk_worker_build r, pk_cached_at_ms := pk_cached_at_ms r,
       pk_entry_size_bytes := pk_entry_size_bytes r, pk_last_accessed_bucket := pk_last_accessed_bucket r\<rparr>"

text \<open>The checks of the table on a row, and the file it must name.\<close>

definition parse_row_checks :: "parse_cache_row \<Rightarrow> bool" where
  "parse_row_checks r \<longleftrightarrow> pk_source_guard_kind r \<in> stored_guard_kinds \<and> length (pk_source_guard_sha256 r) = 64
     \<and> length (pk_parse_profile_hash r) = 64 \<and> length (pk_content_sha256 r) = 64 \<and> 0 \<le> pk_entry_size_bytes r
     \<and> pk_generation_rank r \<in> {0, 1}"

definition admit_parse_record ::
  "cache_codec \<Rightarrow> rstring set \<Rightarrow> int \<Rightarrow> rstring \<Rightarrow> cache_write_record \<Rightarrow> (unit, cache_mutation_error) result" where
  "admit_parse_record codec known cached_at_ms bucket r =
     (if recompute_rank (cw_parser_backend r) = None
      then Err (MutationSqlite (lit ''parse cache backend '' @ [39] @ cw_parser_backend r
             @ [39] @ lit '' has no retention recompute_rank''))
      else if PARSE_CACHE_MAX_BYTES < parse_entry_size_bytes codec r
      then Err (MutationSqlite (lit ''parse cache entry exceeds the '' @ dec_int PARSE_CACHE_MAX_BYTES
             @ lit '' byte hard cap''))
      else if \<not> parse_row_checks (parse_row_of codec cached_at_ms bucket r)
      then Err (MutationSqlite (lit ''CHECK constraint failed: parse_cache''))
      else if cw_file_identity r \<notin> known
      then Err (MutationSqlite (lit ''FOREIGN KEY constraint failed''))
      else Ok ())"

definition write_success_cache_with_check ::
  "cache_codec \<Rightarrow> (parse_cache_row list \<Rightarrow> parse_cache_row) \<Rightarrow> rstring set \<Rightarrow> int \<Rightarrow> (cache_look \<Rightarrow> bool) \<Rightarrow>
     cache_write_record list \<Rightarrow> parse_cache_row list \<Rightarrow> (parse_cache_row list, cache_mutation_error) result" where
  "write_success_cache_with_check codec tie known cached_at_ms opn records rows =
     (let bucket = date_bucket_for_ms cached_at_ms
      in write_and_evict opn (admit_parse_record codec known cached_at_ms bucket) (parse_row_of codec cached_at_ms bucket)
           parse_row_key merge_parse_row (evict_parse_cache tie opn) records rows)"

definition write_success_parse_cache ::
  "cache_codec \<Rightarrow> (parse_cache_row list \<Rightarrow> parse_cache_row) \<Rightarrow> rstring set \<Rightarrow> bool \<Rightarrow> (nat \<Rightarrow> cache_look \<Rightarrow> bool) \<Rightarrow>
     cache_write_record list \<Rightarrow> u64 \<Rightarrow> parse_cache_row list \<Rightarrow> parse_cache_row list \<times> (unit, store_error) result" where
  "write_success_parse_cache codec tie known deadline looks records cached_at_ms rows =
     write_with_deadline (lit ''parse cache'') (lit ''cache write timestamp'') (validate_cache_write codec)
       (write_success_cache_with_check codec tie known) deadline looks records cached_at_ms rows"

section \<open>Lookup\<close>

definition entry_of_row :: "parse_cache_row \<Rightarrow> cache_entry" where
  "entry_of_row r =
     \<lparr>ch_content = pk_content r, ch_content_sha256 = pk_content_sha256 r, ch_evidence_audit = None,
      ch_parser_backend = pk_parser_backend r, ch_worker_lane = pk_worker_lane r, ch_truncated = pk_truncated r,
      ch_worker_contract_version = pk_worker_contract_version r, ch_worker_version = pk_worker_version r,
      ch_worker_build = pk_worker_build r\<rparr>"

fun resolve_cache_lookup :: "cache_codec \<Rightarrow> cache_entry option \<Rightarrow> bool \<Rightarrow> bool \<Rightarrow> bool \<Rightarrow> cache_lookup" where
  "resolve_cache_lookup codec (Some entry) same_source_and_guard same_identity existed_before =
     (if is_ok (validate_cache_entry codec entry) then LookupFresh entry else LookupMiss ErrorCache)"
| "resolve_cache_lookup codec None same_source_and_guard same_identity existed_before =
     (if same_source_and_guard then LookupMiss ParserIdentityChanged
      else if same_identity then LookupMiss MissSourceVersionChanged
      else if existed_before then LookupMiss EntryAbsentOrEvicted
      else LookupMiss NewFile)"

definition same_source_exists :: "parse_cache_row list \<Rightarrow> cache_lookup_key \<Rightarrow> bool" where
  "same_source_exists rows k \<longleftrightarrow>
     list_ex (\<lambda>r. pk_file_identity r = lk_file_identity k \<and> pk_source_version r = lk_source_version k
       \<and> pk_source_guard_kind r = lk_source_guard_kind k \<and> pk_source_guard_sha256 r = lk_source_guard_sha256 k) rows"

definition same_identity_exists :: "parse_cache_row list \<Rightarrow> cache_lookup_key \<Rightarrow> bool" where
  "same_identity_exists rows k \<longleftrightarrow> list_ex (\<lambda>r. pk_file_identity r = lk_file_identity k) rows"

definition query_cache :: "cache_codec \<Rightarrow> parse_cache_row list \<Rightarrow> cache_lookup_key \<Rightarrow> cache_lookup" where
  "query_cache codec rows k =
     (case row_at parse_row_key rows (parse_lookup_key k) of
        Some r \<Rightarrow> resolve_cache_lookup codec (Some (entry_of_row r)) False False (lk_inventory_existed_before k)
      | None \<Rightarrow>
          (let same_source_and_guard = same_source_exists rows k;
               same_identity = (if same_source_and_guard then False else same_identity_exists rows k)
           in resolve_cache_lookup codec None same_source_and_guard same_identity (lk_inventory_existed_before k)))"

text \<open>A batch: the keys of a chunk go into a table of their own, numbered, and one statement joins it with
  the cache. The rows come back in the order of the numbers, which are checked.\<close>

definition joined_rows ::
  "parse_cache_row list \<Rightarrow> (nat \<times> cache_lookup_key) list \<Rightarrow> (nat \<times> cache_entry option \<times> bool \<times> bool \<times> bool) list" where
  "joined_rows rows input =
     map (\<lambda>(ordinal, k). (ordinal,
        map_option entry_of_row (row_at parse_row_key rows (parse_lookup_key k)),
        same_source_exists rows k, same_identity_exists rows k, lk_inventory_existed_before k))
       (sort_key fst input)"

fun read_joined ::
  "cache_codec \<Rightarrow> nat \<Rightarrow> (nat \<times> cache_entry option \<times> bool \<times> bool \<times> bool) list \<Rightarrow> (nat \<times> cache_lookup list, rstring) result" where
  "read_joined codec expected [] = Ok (expected, [])"
| "read_joined codec expected ((ordinal, exact, same_source, same_identity, existed) # joined) =
     (if ordinal \<noteq> expected then Err (lit ''Query is not read-only'')
      else and_then (read_joined codec (expected + 1) joined) (\<lambda>(n, out).
        Ok (n, resolve_cache_lookup codec exact same_source same_identity existed # out)))"

fun lookup_chunks ::
  "cache_codec \<Rightarrow> parse_cache_row list \<Rightarrow> cache_lookup_key list list \<Rightarrow> (cache_lookup list, rstring) result" where
  "lookup_chunks codec rows [] = Ok []"
| "lookup_chunks codec rows (chunk # chunks) =
     and_then (read_joined codec 0 (joined_rows rows (zip [0..<length chunk] chunk))) (\<lambda>(expected, out).
     and_then (require (expected = length chunk) (lit ''Query is not read-only'')) (\<lambda>_.
     and_then (lookup_chunks codec rows chunks) (\<lambda>rest. Ok (out @ rest))))"

definition query_cache_batch ::
  "cache_codec \<Rightarrow> parse_cache_row list \<Rightarrow> cache_lookup_key list \<Rightarrow> (cache_lookup list, rstring) result" where
  "query_cache_batch codec rows keys =
     (if keys = [] then Ok [] else lookup_chunks codec rows (chunks_of CACHE_LOOKUP_BATCH_SIZE keys))"

text \<open>The operations of the store.\<close>

definition valid_guard_wire :: "rstring \<Rightarrow> rstring \<Rightarrow> bool" where
  "valid_guard_wire kind hash \<longleftrightarrow> kind \<in> stored_guard_kinds \<and> is_sha256_hex hash"

definition validate_cache_lookup_key :: "cache_lookup_key \<Rightarrow> (unit, store_error) result" where
  "validate_cache_lookup_key k =
     require_store (lk_file_identity k \<noteq> [] \<and> lk_source_version k \<noteq> []
         \<and> is_ok (parse_source_version (lk_source_version k))
         \<and> valid_guard_wire (lk_source_guard_kind k) (lk_source_guard_sha256 k)
         \<and> is_sha256_hex (lk_parse_profile_hash k))
       (StoreInvalidRequest (lit ''cache lookup key is invalid''))"

definition reject_corrupt_parse_cache_lookup :: "cache_lookup \<Rightarrow> (cache_lookup, store_error) result" where
  "reject_corrupt_parse_cache_lookup l =
     (if l = LookupMiss ErrorCache
      then Err (StoreRunCorrupt (lit ''exact parse cache row failed integrity validation'')) else Ok l)"

definition lookup_cache :: "cache_codec \<Rightarrow> parse_cache_row list \<Rightarrow> cache_lookup_key \<Rightarrow> (cache_lookup, store_error) result" where
  "lookup_cache codec rows k =
     and_then (validate_cache_lookup_key k) (\<lambda>_. reject_corrupt_parse_cache_lookup (query_cache codec rows k))"

definition lookup_cache_batch ::
  "cache_codec \<Rightarrow> parse_cache_row list \<Rightarrow> cache_lookup_key list \<Rightarrow> (cache_lookup list, store_error) result" where
  "lookup_cache_batch codec rows keys =
     and_then (collect_results validate_cache_lookup_key keys) (\<lambda>_.
     and_then (map_err StoreCacheOpen (query_cache_batch codec rows keys)) (\<lambda>lookups.
     collect_results reject_corrupt_parse_cache_lookup lookups))"

section \<open>The table\<close>

definition parse_row_good :: "cache_codec \<Rightarrow> parse_cache_row \<Rightarrow> bool" where
  "parse_row_good codec r \<longleftrightarrow> is_ok (validate_cache_entry codec (entry_of_row r)) \<and> parse_row_checks r"

definition set_parse_bucket :: "rstring \<Rightarrow> parse_cache_row \<Rightarrow> parse_cache_row" where
  "set_parse_bucket bucket r = r\<lparr>pk_last_accessed_bucket := bucket\<rparr>"

interpretation parse_table: cache_contract parse_row_key pk_entry_size_bytes entry_of_row merge_parse_row
  parse_eviction_rank "parse_row_good codec" PARSE_CACHE_MAX_BYTES set_parse_bucket
  for codec
  by unfold_locales
    (auto simp: parse_row_key_def entry_of_row_def merge_parse_row_def set_parse_bucket_def parse_row_good_def
       parse_row_checks_def PARSE_CACHE_MAX_BYTES_def)

definition parse_table_ok :: "cache_codec \<Rightarrow> parse_cache_row list \<Rightarrow> bool" where
  "parse_table_ok codec rows \<longleftrightarrow>
     table_ok parse_row_key pk_entry_size_bytes (parse_row_good codec) PARSE_CACHE_MAX_BYTES rows"

text \<open>SHA-256 is printed in 64 hexadecimal digits.\<close>

definition hex_digests :: "cache_codec \<Rightarrow> bool" where
  "hex_digests codec \<longleftrightarrow> (\<forall>s. is_sha256_hex (kd_sha256 codec s))"

lemma text_bytes_nonneg: "0 \<le> utf8_len s"
  by (induction s) (auto simp: utf8_len_def utf8_width_def)

lemma parse_entry_size_nonneg: "0 \<le> parse_entry_size_bytes codec r"
  by (simp add: parse_entry_size_bytes_def text_bytes_nonneg)

lemma stored_digest:
  assumes "validate_cache_write codec r = Ok ()"
  shows "kd_sha256 codec (fst (stored_content codec r)) = snd (stored_content codec r)"
  using assms by (auto simp: validate_cache_write_def stored_content_def Let_def)

lemma written_entry_valid:
  assumes "hex_digests codec" and "validate_cache_write codec r = Ok ()"
  shows "validate_cache_entry codec (entry_of_row (parse_row_of codec now bucket r)) = Ok ()"
proof -
  have "is_sha256_hex (snd (stored_content codec r))"
    using stored_digest [OF assms(2)] assms(1) unfolding hex_digests_def by metis
  with stored_digest [OF assms(2)] assms(2) show ?thesis
    by (auto simp: validate_cache_entry_def entry_of_row_def parse_row_of_def validate_cache_write_def)
qed

lemma admitted_parse_row:
  assumes "hex_digests codec" and "validate_cache_write codec r = Ok ()"
    and "admit_parse_record codec known now bucket r = Ok ()"
  shows "0 \<le> pk_entry_size_bytes (parse_row_of codec now bucket r)"
    and "parse_row_good codec (parse_row_of codec now bucket r)"
  using written_entry_valid [OF assms(1,2), of now bucket] assms(3) parse_entry_size_nonneg [of codec r]
  by (auto simp: parse_row_good_def admit_parse_record_def parse_row_of_def split: if_splits)

section \<open>Lookups\<close>

lemma good_lookup:
  assumes "parse_table_ok codec rows"
  shows "query_cache codec rows k \<noteq> LookupMiss ErrorCache"
proof (cases "row_at parse_row_key rows (parse_lookup_key k)")
  case None
  then show ?thesis by (simp add: query_cache_def Let_def)
next
  case (Some r)
  then have "r \<in> set rows" using row_at_SomeD by fastforce
  with assms have "parse_row_good codec r" by (auto simp: parse_table_ok_def table_ok_def)
  with Some show ?thesis by (simp add: query_cache_def parse_row_good_def)
qed

lemma query_cache_found:
  assumes "parse_table_ok codec rows" and "row_at parse_row_key rows (parse_lookup_key k) = Some r"
  shows "query_cache codec rows k = LookupFresh (entry_of_row r)"
proof -
  have "r \<in> set rows" using row_at_SomeD [OF assms(2)] by simp
  with assms(1) have "parse_row_good codec r" by (auto simp: parse_table_ok_def table_ok_def)
  with assms(2) show ?thesis by (simp add: query_cache_def parse_row_good_def)
qed

lemma query_cache_missing:
  "row_at parse_row_key rows (parse_lookup_key k) = None \<Longrightarrow>
     query_cache codec rows k = LookupMiss
       (if same_source_exists rows k then ParserIdentityChanged
        else if same_identity_exists rows k then MissSourceVersionChanged
        else if lk_inventory_existed_before k then EntryAbsentOrEvicted else NewFile)"
  by (simp add: query_cache_def Let_def)

section \<open>Batches\<close>

lemma read_joined_rows:
  "read_joined codec n (map (\<lambda>(ordinal, k). (ordinal,
        map_option entry_of_row (row_at parse_row_key rows (parse_lookup_key k)),
        same_source_exists rows k, same_identity_exists rows k, lk_inventory_existed_before k))
       (zip [n..<n + length keys] keys)) = Ok (n + length keys, map (query_cache codec rows) keys)"
proof (induction keys arbitrary: n)
  case (Cons k keys)
  have "[n..<n + length (k # keys)] = n # [Suc n..<Suc n + length keys]" by (simp add: upt_rec)
  moreover have "resolve_cache_lookup codec (map_option entry_of_row (row_at parse_row_key rows (parse_lookup_key k)))
      (same_source_exists rows k) (same_identity_exists rows k) (lk_inventory_existed_before k) = query_cache codec rows k"
    by (cases "row_at parse_row_key rows (parse_lookup_key k)") (simp_all add: query_cache_def Let_def)
  ultimately show ?case using Cons.IH [of "Suc n"] by simp
qed simp

lemma joined_in_order:
  "joined_rows rows (zip [0..<length keys] keys) = map (\<lambda>(ordinal, k). (ordinal,
        map_option entry_of_row (row_at parse_row_key rows (parse_lookup_key k)),
        same_source_exists rows k, same_identity_exists rows k, lk_inventory_existed_before k)) (zip [0..<length keys] keys)"
proof -
  have "sorted (map fst (zip [0..<length keys] keys))" by simp
  then have "sort_key fst (zip [0..<length keys] keys) = zip [0..<length keys] keys" by (rule sort_key_sorted_id)
  then show ?thesis by (simp add: joined_rows_def)
qed

lemma lookup_chunks_all: "lookup_chunks codec rows chunks = Ok (map (query_cache codec rows) (concat chunks))"
proof (induction chunks)
  case (Cons chunk chunks)
  then show ?case using read_joined_rows [of codec 0 rows chunk] by (simp add: joined_in_order)
qed simp

lemma query_cache_batch_all: "query_cache_batch codec rows keys = Ok (map (query_cache codec rows) keys)"
  by (simp add: query_cache_batch_def lookup_chunks_all concat_chunks_of CACHE_LOOKUP_BATCH_SIZE_def)

text \<open>C13. A batched lookup gives, key by key and in their order, what the lookup of each key gives: the
  chunks, the table of numbered keys and the join only save statements. The keys are validated
  before the first is looked up.\<close>

theorem batch_is_single_lookups:
  "lookup_cache_batch codec rows keys =
     and_then (collect_results validate_cache_lookup_key keys) (\<lambda>_. collect_results (lookup_cache codec rows) keys)"
proof -
  have all: "collect_results reject_corrupt_parse_cache_lookup (map (query_cache codec rows) keys)
      = collect_results (lookup_cache codec rows) keys"
    if "collect_results validate_cache_lookup_key keys = Ok us" for us
    using that
  proof (induction keys arbitrary: us)
    case (Cons k keys)
    from Cons.prems have k: "validate_cache_lookup_key k = Ok ()"
      and "\<exists>vs. collect_results validate_cache_lookup_key keys = Ok vs"
      by auto
    with Cons.IH have "collect_results reject_corrupt_parse_cache_lookup (map (query_cache codec rows) keys)
        = collect_results (lookup_cache codec rows) keys" by blast
    moreover have "lookup_cache codec rows k = reject_corrupt_parse_cache_lookup (query_cache codec rows k)"
      using k by (simp add: lookup_cache_def)
    ultimately show ?case by simp
  qed simp
  show ?thesis
    using all by (cases "collect_results validate_cache_lookup_key keys") (simp_all add: lookup_cache_batch_def query_cache_batch_all)
qed

definition entry_of_record :: "cache_write_record \<Rightarrow> cache_entry" where
  "entry_of_record r =
     \<lparr>ch_content = cw_content r, ch_content_sha256 = cw_content_sha256 r,
      ch_evidence_audit = Some (py_evidence_audit (payload_of_record r)), ch_parser_backend = cw_parser_backend r,
      ch_worker_lane = cw_worker_lane r, ch_truncated = cw_truncated r,
      ch_worker_contract_version = cw_worker_contract_version r, ch_worker_version = cw_worker_version r,
      ch_worker_build = cw_worker_build r\<rparr>"

definition record_key :: "cache_write_record \<Rightarrow> parse_cache_key" where
  "record_key r = (cw_file_identity r, cw_source_version r, cw_source_guard_kind r, cw_source_guard_sha256 r,
     cw_parse_profile_hash r)"

lemma row_of_key [simp]: "parse_row_key (parse_row_of codec now bucket r) = record_key r"
  by (simp add: parse_row_key_def parse_row_of_def record_key_def)

text \<open>The cache after the updates of a write, before anything gives way.\<close>

definition updated_rows :: "cache_codec \<Rightarrow> int \<Rightarrow> cache_write_record list \<Rightarrow> parse_cache_row list \<Rightarrow> parse_cache_row list" where
  "updated_rows codec now records rows =
     fold (upsert_by parse_row_key merge_parse_row) (map (parse_row_of codec now (date_bucket_for_ms now)) records) rows"

lemma single_write:
  assumes "picks tie" and "parse_table_ok codec rows" and "hex_digests codec" and "records \<noteq> []"
    and run: "write_success_parse_cache codec tie known True looks records now rows = (rows', Ok ())"
  shows "evicted_to parse_eviction_rank pk_entry_size_bytes PARSE_CACHE_MAX_BYTES (updated_rows codec (int now) records rows) rows'"
    and "parse_table_ok codec rows'" and "\<forall>r\<in>set records. validate_cache_write codec r = Ok ()"
proof -
  from run have len: "length records \<le> CACHE_TRANSACTION_BATCH_SIZE"
    and valid: "validate_records (\<lambda>k look. looks k look) (validate_cache_write codec) 0 records = Ok ()"
    and chunks: "write_chunks (\<lambda>k look. looks k look) (write_success_cache_with_check codec tie known (int now)) 0
        (chunks_of CACHE_TRANSACTION_BATCH_SIZE records) rows = (rows', Ok ())"
    by (auto simp: write_success_parse_cache_def write_with_deadline_def Let_def not_less split: result.splits)
  show all_valid: "\<forall>r\<in>set records. validate_cache_write codec r = Ok ()" using validate_records_Ok [OF valid] .
  from chunks len assms(4) have "write_success_cache_with_check codec tie known (int now) (looks 0) records rows = Ok rows'"
    by (auto simp: chunks_of_small dest: chunk_transaction_Ok split: result.splits)
  then have w: "write_and_evict (looks 0) (admit_parse_record codec known (int now) (date_bucket_for_ms (int now)))
      (parse_row_of codec (int now) (date_bucket_for_ms (int now))) parse_row_key merge_parse_row
      (evict_table tie parse_row_key parse_eviction_rank pk_entry_size_bytes (looks 0) PARSE_CACHE_MAX_BYTES) records rows = Ok rows'"
    by (simp add: write_success_cache_with_check_def evict_parse_cache_def [abs_def] Let_def)
  note c = parse_table.write_and_evict_contract [OF assms(1) _ _ w, of codec]
  have ok: "table_ok parse_row_key pk_entry_size_bytes (parse_row_good codec) PARSE_CACHE_MAX_BYTES rows"
    using assms(2) by (simp add: parse_table_ok_def)
  show "evicted_to parse_eviction_rank pk_entry_size_bytes PARSE_CACHE_MAX_BYTES (updated_rows codec (int now) records rows) rows'"
    unfolding updated_rows_def using c(1) [OF ok] admitted_parse_row [OF assms(3)] all_valid by blast
  show "parse_table_ok codec rows'"
    unfolding parse_table_ok_def using c(2) [OF ok] admitted_parse_row [OF assms(3)] all_valid by blast
qed

lemma decoded_written:
  assumes "hex_digests codec" and "validate_cache_write codec r = Ok ()" and "cw_cache_payload_version r = 1"
    and "kd_parse_payload codec (kd_payload_json codec (payload_of_record r)) = Some (payload_of_record r)"
    and "kd_audit_bytes codec default_content_audit \<le> AUDIT_MAX_BYTES"
  shows "decode_payload codec PARSE_CACHE_PAYLOAD_VERSION (LookupFresh (entry_of_row (parse_row_of codec now bucket r)))
     = LookupFresh (entry_of_record r)"
proof -
  have content: "ch_content (entry_of_row (parse_row_of codec now bucket r)) = kd_payload_json codec (payload_of_record r)"
    using assms(3) by (simp add: entry_of_row_def parse_row_of_def stored_content_def Let_def)
  have "validate_content_audit (kd_audit_bytes codec) default_content_audit s = Ok ()" for s
    using assms(5) by (simp add: validate_content_audit_def default_content_audit_def)
  then have audit: "validate_content_audit (kd_audit_bytes codec) (py_evidence_audit (payload_of_record r)) (cw_content r) = Ok ()"
    using assms(2) by (auto simp: payload_of_record_def validate_cache_write_def split: option.splits)
  have "decoded_payload codec 1 (entry_of_row (parse_row_of codec now bucket r)) = Ok (payload_of_record r)"
    using written_entry_valid [OF assms(1,2)] content assms(2,3,4) audit
    by (auto simp: decoded_payload_def PARSE_CACHE_PAYLOAD_VERSION_def ok_or_def payload_of_record_def validate_cache_write_def)
  then show ?thesis
    by (simp add: PARSE_CACHE_PAYLOAD_VERSION_def entry_of_record_def entry_of_row_def parse_row_of_def payload_of_record_def)
qed

text \<open>C11. What is written to the parse cache comes back: after a write with a deadline that returns success, the
  lookup of the key of a record (the last with that key) decodes to its text, its digest, its audit and its
  parser, or the row had to give way, which happens only when the rows together exceed the cap, and then
  the lookup is a miss that does not call the cache corrupt.\<close>

theorem cached_content_comes_back:
  assumes "picks tie" and "parse_table_ok codec rows" and "hex_digests codec"
    and "kd_parse_payload codec (kd_payload_json codec (payload_of_record r)) = Some (payload_of_record r)"
    and "kd_audit_bytes codec default_content_audit \<le> AUDIT_MAX_BYTES"
    and "write_success_parse_cache codec tie known True looks (earlier @ r # later) now rows = (rows', Ok ())"
    and "cw_cache_payload_version r = 1" and "record_key r \<notin> record_key ` set later"
    and "parse_lookup_key k = record_key r"
  shows "\<exists>l. lookup_cache codec rows' k = Ok l
     \<and> (decode_payload codec PARSE_CACHE_PAYLOAD_VERSION l = LookupFresh (entry_of_record r)
        \<or> (\<exists>reason. l = LookupMiss reason)
           \<and> PARSE_CACHE_MAX_BYTES < total_bytes pk_entry_size_bytes (updated_rows codec (int now) (earlier @ r # later) rows))"
proof -
  let ?records = "earlier @ r # later" and ?bucket = "date_bucket_for_ms (int now)"
  let ?rows = "updated_rows codec (int now) ?records rows"
  note w = single_write [OF assms(1-3) _ assms(6)]
  have evicted: "evicted_to parse_eviction_rank pk_entry_size_bytes PARSE_CACHE_MAX_BYTES ?rows rows'"
    and ok: "parse_table_ok codec rows'" and valid: "validate_cache_write codec r = Ok ()" using w by auto
  have key_ok: "validate_cache_lookup_key k = Ok ()"
    using valid assms(9)
    by (auto simp: parse_lookup_key_def record_key_def validate_cache_lookup_key_def validate_cache_write_def valid_guard_wire_def)
  have "record_key r \<notin> parse_row_key ` set (map (parse_row_of codec (int now) ?bucket) later)" using assms(8) by auto
  then have view: "map_option entry_of_row (row_at parse_row_key ?rows (record_key r))
      = Some (entry_of_row (parse_row_of codec (int now) ?bucket r))"
    using parse_table.upserts_view_last [of "parse_row_of codec (int now) ?bucket r" _ "map (parse_row_of codec (int now) ?bucket) earlier" rows]
    by (simp add: updated_rows_def)
  show ?thesis
  proof (cases "row_at parse_row_key rows' (record_key r)")
    case (Some p)
    have keys: "distinct (map parse_row_key ?rows)"
      unfolding updated_rows_def using assms(2) by (intro parse_table.upserts_keys) (simp add: parse_table_ok_def table_ok_def)
    have "map_option entry_of_row (row_at parse_row_key rows' (record_key r)) = Some (entry_of_row (parse_row_of codec (int now) ?bucket r))"
      using parse_table.kept_view [OF keys evicted, of "record_key r"] Some view by simp
    then have "query_cache codec rows' k = LookupFresh (entry_of_row (parse_row_of codec (int now) ?bucket r))"
      using query_cache_found [OF ok, of k p] Some assms(9) by simp
    with key_ok decoded_written [OF assms(3) valid assms(7,4,5)] show ?thesis
      by (simp add: lookup_cache_def reject_corrupt_parse_cache_lookup_def)
  next
    case None
    then have miss: "\<exists>reason. query_cache codec rows' k = LookupMiss reason"
      using query_cache_missing [of rows' k codec] assms(9) by simp
    have "PARSE_CACHE_MAX_BYTES < total_bytes pk_entry_size_bytes ?rows"
    proof (rule ccontr)
      assume "\<not> PARSE_CACHE_MAX_BYTES < total_bytes pk_entry_size_bytes ?rows"
      moreover have "\<forall>p\<in>set ?rows. 0 \<le> pk_entry_size_bytes p"
        unfolding updated_rows_def using assms(2)
        by (intro parse_table.upserts_sizes) (auto simp: parse_table_ok_def table_ok_def parse_row_of_def parse_entry_size_nonneg)
      moreover have "distinct (map parse_row_key ?rows)"
        unfolding updated_rows_def using assms(2) by (intro parse_table.upserts_keys) (simp add: parse_table_ok_def table_ok_def)
      ultimately have "rows' = ?rows" using evicted_to_idle [OF evicted] by simp
      with None view show False by simp
    qed
    with miss key_ok good_lookup [OF ok, of k] show ?thesis
      by (auto simp: lookup_cache_def reject_corrupt_parse_cache_lookup_def)
  qed
qed

lemma utf8_len_le: "utf8_len s \<le> 4 * int (length s)"
  by (induction s) (auto simp: utf8_len_def utf8_width_def)

definition fixture_cache_record :: cache_write_record where
  "fixture_cache_record =
     \<lparr>cw_file_identity = [98], cw_source_version = build_source_version 7 5,
      cw_source_guard_kind = lit ''content_sha256_v1'', cw_source_guard_sha256 = fixture_hex,
      cw_parse_profile_hash = fixture_hex, cw_content = [104, 105], cw_content_sha256 = fixture_hex,
      cw_cache_payload_version = 1, cw_evidence_audit = None, cw_parser_backend = lit ''light_text_v2'',
      cw_worker_lane = [108], cw_truncated = False, cw_worker_contract_version = [99], cw_worker_version = [118],
      cw_worker_build = [98]\<rparr>"

definition fixture_cache_codec :: cache_codec where
  "fixture_cache_codec =
     \<lparr>kd_sha256 = (\<lambda>_. fixture_hex), kd_audit_bytes = (\<lambda>_. 100), kd_payload_json = (\<lambda>_. [123, 125]),
      kd_parse_payload = (\<lambda>_. Some (payload_of_record fixture_cache_record)), kd_page_audits = (\<lambda>_. None)\<rparr>"

definition fixture_cache_key :: cache_lookup_key where
  "fixture_cache_key =
     \<lparr>lk_file_identity = [98], lk_source_version = build_source_version 7 5,
      lk_source_guard_kind = lit ''content_sha256_v1'', lk_source_guard_sha256 = fixture_hex,
      lk_parse_profile_hash = fixture_hex, lk_inventory_existed_before = False\<rparr>"

lemma fixture_cache_codec_hex: "hex_digests fixture_cache_codec"
  by (simp add: hex_digests_def fixture_cache_codec_def fixture_hex_ok)

lemma fixture_version: "parse_source_version (build_source_version 7 5) = Ok (7, 5)"
  using parse_built_version [of 5 7] by (simp add: u64_max_def)

lemma fixture_cache_record_valid: "validate_cache_write fixture_cache_codec fixture_cache_record = Ok ()"
proof -
  have "build_source_version 7 5 \<noteq> []" by (simp add: build_source_version_def)
  then show ?thesis
    by (simp add: validate_cache_write_def fixture_cache_record_def fixture_cache_codec_def fixture_hex_ok fixture_version
      PARSE_CACHE_PAYLOAD_VERSION_def parser_identity_ok_def stored_guard_kinds_def)
qed

lemma fixture_size: "parse_entry_size_bytes fixture_cache_codec fixture_cache_record \<le> 10000"
proof -
  have "length (dec 7) \<le> 20" "length (dec 5) \<le> 20" by (simp_all add: length_dec_u64 u64_max_def)
  then have "utf8_len (build_source_version 7 5) \<le> 300"
    using utf8_len_le [of "build_source_version 7 5"] by (simp add: build_source_version_def)
  moreover have "utf8_len fixture_hex \<le> 256" using utf8_len_le [of fixture_hex] fixture_hex_ok by (simp add: is_sha256_hex_def)
  moreover have "utf8_len (lit ''content_sha256_v1'') \<le> 100" "utf8_len (lit ''light_text_v2'') \<le> 100"
    using utf8_len_le [of "lit ''content_sha256_v1''"] utf8_len_le [of "lit ''light_text_v2''"] by simp_all
  ultimately show ?thesis
    by (simp add: parse_entry_size_bytes_def fixture_cache_record_def fixture_cache_codec_def stored_content_def Let_def)
      (simp add: utf8_len_def utf8_width_def)
qed

definition fixture_cache_row :: parse_cache_row where
  "fixture_cache_row = parse_row_of fixture_cache_codec 0 (date_bucket_for_ms 0) fixture_cache_record"

lemma fixture_cache_admitted:
  "admit_parse_record fixture_cache_codec {[98]} 0 (date_bucket_for_ms 0) fixture_cache_record = Ok ()"
proof -
  have "parse_row_checks fixture_cache_row"
    using fixture_hex_ok parse_entry_size_nonneg [of fixture_cache_codec fixture_cache_record]
    by (simp add: fixture_cache_row_def parse_row_checks_def parse_row_of_def fixture_cache_record_def fixture_cache_codec_def
      stored_guard_kinds_def is_sha256_hex_def stored_content_def Let_def)
  then show ?thesis
    using fixture_size
    by (simp add: admit_parse_record_def fixture_cache_row_def PARSE_CACHE_MAX_BYTES_def)
      (simp add: fixture_cache_record_def recompute_rank_def)
qed

lemma fixture_write:
  "write_success_parse_cache fixture_cache_codec hd {[98]} True (\<lambda>_ _. True) [fixture_cache_record] 0 [] = ([fixture_cache_row], Ok ())"
proof -
  have size: "pk_entry_size_bytes fixture_cache_row \<le> 10000" using fixture_size by (simp add: fixture_cache_row_def parse_row_of_def)
  have evict: "evict_parse_cache hd (\<lambda>_. True) [fixture_cache_row] = Ok [fixture_cache_row]"
    using size by (simp add: evict_parse_cache_def evict_table_def ensure_mutation_deadline_def evict_loop.simps
        I64_MAX_def PARSE_CACHE_MAX_BYTES_def)
  have "write_success_cache_with_check fixture_cache_codec hd {[98]} 0 (\<lambda>_. True) [fixture_cache_record] [] = Ok [fixture_cache_row]"
    using fixture_cache_admitted evict
    by (simp add: write_success_cache_with_check_def write_and_evict_def ensure_mutation_deadline_def Let_def
      upsert_by_def fixture_cache_row_def)
  then show ?thesis
    by (simp add: write_success_parse_cache_def write_with_deadline_def checked_i64_def I64_MAX_def
      fixture_cache_record_valid ensure_work_deadline_def chunks_of_small CACHE_TRANSACTION_BATCH_SIZE_def chunk_transaction_def
      require_store_def)
qed

lemma cached_content_comes_back_witness:
  "\<exists>l. lookup_cache fixture_cache_codec [fixture_cache_row] fixture_cache_key = Ok l
     \<and> decode_payload fixture_cache_codec PARSE_CACHE_PAYLOAD_VERSION l = LookupFresh (entry_of_record fixture_cache_record)"
proof -
  have ok: "parse_table_ok fixture_cache_codec []" by (simp add: parse_table_ok_def table_ok_def PARSE_CACHE_MAX_BYTES_def)
  have size: "total_bytes pk_entry_size_bytes (updated_rows fixture_cache_codec 0 [fixture_cache_record] []) \<le> 10000"
    using fixture_size by (simp add: updated_rows_def upsert_by_def parse_row_of_def)
  have "\<exists>l. lookup_cache fixture_cache_codec [fixture_cache_row] fixture_cache_key = Ok l
     \<and> (decode_payload fixture_cache_codec PARSE_CACHE_PAYLOAD_VERSION l = LookupFresh (entry_of_record fixture_cache_record)
        \<or> (\<exists>reason. l = LookupMiss reason)
           \<and> PARSE_CACHE_MAX_BYTES < total_bytes pk_entry_size_bytes (updated_rows fixture_cache_codec (int 0) ([] @ fixture_cache_record # []) []))"
  proof (rule cached_content_comes_back [where tie = hd and known = "{[98]}" and looks = "\<lambda>_ _. True"])
    show "kd_parse_payload fixture_cache_codec (kd_payload_json fixture_cache_codec (payload_of_record fixture_cache_record))
        = Some (payload_of_record fixture_cache_record)"
      and "kd_audit_bytes fixture_cache_codec default_content_audit \<le> AUDIT_MAX_BYTES"
      by (simp_all add: fixture_cache_codec_def AUDIT_MAX_BYTES_def)
    show "write_success_parse_cache fixture_cache_codec hd {[98]} True (\<lambda>_ _. True) ([] @ fixture_cache_record # []) 0 [] = ([fixture_cache_row], Ok ())"
      using fixture_write by simp
    show "cw_cache_payload_version fixture_cache_record = 1" by (simp add: fixture_cache_record_def)
    show "parse_lookup_key fixture_cache_key = record_key fixture_cache_record"
      by (simp add: parse_lookup_key_def record_key_def fixture_cache_key_def fixture_cache_record_def)
  qed (use ok fixture_cache_codec_hex in simp_all)
  with size show ?thesis by (auto simp: PARSE_CACHE_MAX_BYTES_def)
qed

end
