(* ===== verification/Classification_Cache.thy ===== *)
theory Classification_Cache
  imports Parse_Cache
begin

text \<open>
  The classification cache of \<open>src/rust/scanner_core/src/store/cache.rs\<close> and its operations of
  \<open>store/mod.rs\<close>: what the PDF classifier found of a file is kept with the profile and the build of the
  classifier. Only successes are kept. The pages that were looked at have no column here: a lookup
  takes them from the metadata of the run that classified the file, and refuses the entry when the two
  do not agree.
\<close>

section \<open>Records\<close>

definition CLASSIFICATION_CACHE_MAX_BYTES :: int where "CLASSIFICATION_CACHE_MAX_BYTES = 134217728"

record classification_cache_row =
  qk_file_identity :: rstring
  qk_source_version :: rstring
  qk_source_guard_kind :: rstring
  qk_source_guard_sha256 :: rstring
  qk_classifier_profile_hash :: rstring
  qk_classifier_build :: rstring
  qk_status :: rstring
  qk_page_count :: int
  qk_result_examined_pages :: int
  qk_cached_at_ms :: int
  qk_entry_size_bytes :: int
  qk_generation_rank :: int
  qk_last_accessed_bucket :: rstring

type_synonym classification_key = "rstring \<times> rstring \<times> rstring \<times> rstring \<times> rstring \<times> rstring"

definition classification_row_key :: "classification_cache_row \<Rightarrow> classification_key" where
  "classification_row_key r = (qk_file_identity r, qk_source_version r, qk_source_guard_kind r,
     qk_source_guard_sha256 r, qk_classifier_profile_hash r, qk_classifier_build r)"

record classification_lookup_key =
  ck_file_identity :: rstring
  ck_source_version :: rstring
  ck_source_guard_kind :: rstring
  ck_source_guard_sha256 :: rstring
  ck_classifier_profile_hash :: rstring
  ck_classifier_build :: rstring
  ck_inventory_existed_before :: bool

definition classification_lookup_key_of :: "classification_lookup_key \<Rightarrow> classification_key" where
  "classification_lookup_key_of k = (ck_file_identity k, ck_source_version k, ck_source_guard_kind k,
     ck_source_guard_sha256 k, ck_classifier_profile_hash k, ck_classifier_build k)"

definition cached_statuses :: "rstring set" where
  "cached_statuses = {lit ''text_in_parse_window'', lit ''no_text_in_parse_window''}"

section \<open>Validation\<close>

definition validate_classification_entry :: "classification_cache_entry \<Rightarrow> check" where
  "validate_classification_entry e =
     require (ce_status e \<in> cached_statuses \<and> ce_page_count e \<noteq> 0 \<and> ce_result_examined_pages e \<noteq> 0
         \<and> ce_result_examined_pages e \<le> ce_page_count e)
       (lit ''invalid classification cache value'')"

definition validate_classification_write :: "classification_write_record \<Rightarrow> check" where
  "validate_classification_write r =
     require (kw_file_identity r \<noteq> [] \<and> length (kw_file_identity r) \<le> 4096
         \<and> is_ok (parse_source_version (kw_source_version r))
         \<and> kw_source_guard_kind r \<in> stored_guard_kinds \<and> is_sha256_hex (kw_source_guard_sha256 r)
         \<and> is_sha256_hex (kw_classifier_profile_hash r) \<and> is_sha256_hex (kw_classifier_build r)
         \<and> kw_status r \<in> cached_statuses \<and> kw_page_count r \<noteq> 0 \<and> kw_result_examined_pages r \<noteq> 0
         \<and> kw_result_examined_pages r \<le> kw_page_count r)
       (lit ''invalid classification cache record'')"

section \<open>Writing\<close>

definition classification_eviction_rank :: "classification_cache_row \<Rightarrow> int \<times> int \<times> rstring \<times> int \<times> nat" where
  "classification_eviction_rank r =
     (qk_generation_rank r, qk_result_examined_pages r, qk_last_accessed_bucket r, qk_cached_at_ms r,
      length (qk_file_identity r) + length (qk_source_version r) + length (qk_source_guard_kind r)
        + length (qk_source_guard_sha256 r) + length (qk_classifier_profile_hash r) + length (qk_classifier_build r))"

definition classification_entry_size_bytes :: "classification_write_record \<Rightarrow> int" where
  "classification_entry_size_bytes r =
     utf8_len (kw_file_identity r) + utf8_len (kw_source_version r) + utf8_len (kw_source_guard_kind r)
     + utf8_len (kw_source_guard_sha256 r) + utf8_len (kw_classifier_profile_hash r) + utf8_len (kw_classifier_build r)
     + utf8_len (kw_status r) + 8 + 8"

definition evict_classification_cache ::
  "(classification_cache_row list \<Rightarrow> classification_cache_row) \<Rightarrow> (cache_look \<Rightarrow> bool) \<Rightarrow> classification_cache_row list \<Rightarrow>
     (classification_cache_row list, cache_mutation_error) result" where
  "evict_classification_cache tie opn rows =
     evict_table tie classification_row_key classification_eviction_rank qk_entry_size_bytes opn
       CLASSIFICATION_CACHE_MAX_BYTES rows"

definition classification_row_of_record :: "int \<Rightarrow> rstring \<Rightarrow> classification_write_record \<Rightarrow> classification_cache_row" where
  "classification_row_of_record cached_at_ms bucket r =
     \<lparr>qk_file_identity = kw_file_identity r, qk_source_version = kw_source_version r,
      qk_source_guard_kind = kw_source_guard_kind r, qk_source_guard_sha256 = kw_source_guard_sha256 r,
      qk_classifier_profile_hash = kw_classifier_profile_hash r, qk_classifier_build = kw_classifier_build r,
      qk_status = kw_status r, qk_page_count = as_i64 (kw_page_count r),
      qk_result_examined_pages = as_i64 (kw_result_examined_pages r), qk_cached_at_ms = cached_at_ms,
      qk_entry_size_bytes = classification_entry_size_bytes r, qk_generation_rank = 1,
      qk_last_accessed_bucket = bucket\<rparr>"

definition merge_classification_row ::
  "classification_cache_row \<Rightarrow> classification_cache_row \<Rightarrow> classification_cache_row" where
  "merge_classification_row p r =
     p\<lparr>qk_status := qk_status r, qk_page_count := qk_page_count r,
       qk_result_examined_pages := qk_result_examined_pages r, qk_cached_at_ms := qk_cached_at_ms r,
       qk_entry_size_bytes := qk_entry_size_bytes r, qk_last_accessed_bucket := qk_last_accessed_bucket r\<rparr>"

definition classification_row_checks :: "classification_cache_row \<Rightarrow> bool" where
  "classification_row_checks r \<longleftrightarrow> qk_source_guard_kind r \<in> stored_guard_kinds
     \<and> length (qk_source_guard_sha256 r) = 64 \<and> length (qk_classifier_profile_hash r) = 64
     \<and> length (qk_classifier_build r) = 64 \<and> qk_status r \<in> cached_statuses \<and> 0 \<le> qk_page_count r
     \<and> 0 \<le> qk_result_examined_pages r \<and> 0 \<le> qk_entry_size_bytes r \<and> qk_generation_rank r \<in> {0, 1}"

definition admit_classification_record ::
  "rstring set \<Rightarrow> int \<Rightarrow> rstring \<Rightarrow> classification_write_record \<Rightarrow> (unit, cache_mutation_error) result" where
  "admit_classification_record known cached_at_ms bucket r =
     (if CLASSIFICATION_CACHE_MAX_BYTES < classification_entry_size_bytes r
      then Err (MutationSqlite (lit ''classification cache entry exceeds the '' @ dec_int CLASSIFICATION_CACHE_MAX_BYTES
             @ lit '' byte hard cap''))
      else if \<not> classification_row_checks (classification_row_of_record cached_at_ms bucket r)
      then Err (MutationSqlite (lit ''CHECK constraint failed: classification_cache''))
      else if kw_file_identity r \<notin> known
      then Err (MutationSqlite (lit ''FOREIGN KEY constraint failed''))
      else Ok ())"

definition write_success_classification_cache_with_check ::
  "(classification_cache_row list \<Rightarrow> classification_cache_row) \<Rightarrow> rstring set \<Rightarrow> int \<Rightarrow> (cache_look \<Rightarrow> bool) \<Rightarrow>
     classification_write_record list \<Rightarrow> classification_cache_row list \<Rightarrow>
     (classification_cache_row list, cache_mutation_error) result" where
  "write_success_classification_cache_with_check tie known cached_at_ms opn records rows =
     (let bucket = date_bucket_for_ms cached_at_ms
      in write_and_evict opn (admit_classification_record known cached_at_ms bucket)
           (classification_row_of_record cached_at_ms bucket) classification_row_key merge_classification_row
           (evict_classification_cache tie opn) records rows)"

definition write_success_classification_cache ::
  "(classification_cache_row list \<Rightarrow> classification_cache_row) \<Rightarrow> rstring set \<Rightarrow> bool \<Rightarrow> (nat \<Rightarrow> cache_look \<Rightarrow> bool) \<Rightarrow>
     classification_write_record list \<Rightarrow> u64 \<Rightarrow> classification_cache_row list \<Rightarrow>
     classification_cache_row list \<times> (unit, store_error) result" where
  "write_success_classification_cache tie known deadline looks records cached_at_ms rows =
     write_with_deadline (lit ''classification cache'') (lit ''classification cache write timestamp'')
       validate_classification_write (write_success_classification_cache_with_check tie known) deadline looks
       records cached_at_ms rows"

section \<open>Lookup\<close>

definition classification_entry_of_row :: "classification_cache_row \<Rightarrow> classification_cache_entry" where
  "classification_entry_of_row r =
     \<lparr>ce_status = qk_status r, ce_page_count = as_u64 (qk_page_count r),
      ce_result_examined_pages = as_u64 (qk_result_examined_pages r), ce_page_audit = None\<rparr>"

text \<open>The newest run that classified this state of the file with this classifier, as a miss, and kept a
  context with an artifact: its metadata.\<close>

definition classified_by :: "run_store \<Rightarrow> classification_lookup_key \<Rightarrow> run_row \<Rightarrow> bool" where
  "classified_by s k r \<longleftrightarrow>
     nr_final_envelope_metadata_json r \<noteq> None
     \<and> list_ex (\<lambda>(run, x). run = nr_scan_run_id r \<and> fe_file_identity x = ck_file_identity k
          \<and> (case fe_classification x of None \<Rightarrow> False
             | Some c \<Rightarrow> kr_classifier_profile_hash c = ck_classifier_profile_hash k
                 \<and> kr_classifier_build c = ck_classifier_build k \<and> kr_cache_status c = CcMiss))
        (au_file_execution (st_audit s))
     \<and> list_ex (\<lambda>c. cx_scan_run_id c = nr_scan_run_id r
          \<and> list_ex (\<lambda>(artifact, a). cx_artifact_id c = Some artifact \<and> cf_file_identity a = ck_file_identity k
               \<and> cf_source_version a = ck_source_version k
               \<and> cf_source_guard_kind a = Some (ck_source_guard_kind k)
               \<and> cf_source_guard_sha256 a = Some (ck_source_guard_sha256 k)) (at_files (st_artifacts s)))
        (st_contexts s)"

definition classifying_metadata :: "run_store \<Rightarrow> classification_lookup_key \<Rightarrow> rstring option" where
  "classifying_metadata s k =
     (case sort_key (\<lambda>r. - nr_scan_run_id r) (filter (classified_by s k) (st_runs s)) of
        [] \<Rightarrow> None
      | r # _ \<Rightarrow> nr_final_envelope_metadata_json r)"

definition attach_page_audit ::
  "cache_codec \<Rightarrow> rstring \<Rightarrow> rstring option \<Rightarrow> classification_cache_entry \<Rightarrow> (classification_cache_entry, store_error) result" where
  "attach_page_audit codec identity metadata entry =
     (case metadata of
        None \<Rightarrow> Ok entry
      | Some json \<Rightarrow>
          (case kd_page_audits codec json of
             None \<Rightarrow> Err (StoreRunCorrupt (lit ''invalid classifier page metadata''))
           | Some audits \<Rightarrow>
               (case audits identity of
                  None \<Rightarrow> Ok entry
                | Some None \<Rightarrow> Err (StoreRunCorrupt (lit ''invalid cached classifier page audit''))
                | Some (Some audit) \<Rightarrow>
                    if \<not> is_ok (validate_pdf_page_audit audit)
                       \<or> length (pg_checked_pages audit) \<noteq> ce_result_examined_pages entry
                       \<or> list_ex (\<lambda>page. ce_page_count entry < page) (pg_checked_pages audit)
                    then Err (StoreRunCorrupt (lit ''cached page audit differs from classification result''))
                    else Ok (entry\<lparr>ce_page_audit := Some audit\<rparr>))))"

definition same_classified_source :: "classification_cache_row list \<Rightarrow> classification_lookup_key \<Rightarrow> bool" where
  "same_classified_source rows k \<longleftrightarrow>
     list_ex (\<lambda>r. qk_file_identity r = ck_file_identity k \<and> qk_source_version r = ck_source_version k
       \<and> qk_source_guard_kind r = ck_source_guard_kind k \<and> qk_source_guard_sha256 r = ck_source_guard_sha256 k) rows"

definition classification_miss :: "classification_cache_row list \<Rightarrow> classification_lookup_key \<Rightarrow> classification_miss_reason" where
  "classification_miss rows k =
     (if same_classified_source rows k then ClassifierIdentityChanged
      else if list_ex (\<lambda>r. qk_file_identity r = ck_file_identity k) rows then ClassSourceVersionChanged
      else if ck_inventory_existed_before k then ClassEntryAbsentOrEvicted
      else ClassNewFile)"

definition query_classification_cache ::
  "cache_codec \<Rightarrow> run_store \<Rightarrow> classification_cache_row list \<Rightarrow> classification_lookup_key \<Rightarrow>
     (classification_lookup, store_error) result" where
  "query_classification_cache codec s rows k =
     (case row_at classification_row_key rows (classification_lookup_key_of k) of
        Some r \<Rightarrow>
          (let entry = classification_entry_of_row r
           in if is_ok (validate_classification_entry entry)
              then and_then (attach_page_audit codec (ck_file_identity k) (classifying_metadata s k) entry)
                     (\<lambda>entry. Ok (ClassLookupFresh entry))
              else Err (StoreRunCorrupt (lit ''exact classification cache row failed integrity validation'')))
      | None \<Rightarrow> Ok (ClassLookupMiss (classification_miss rows k)))"

definition lookup_classification_cache ::
  "cache_codec \<Rightarrow> run_store \<Rightarrow> classification_cache_row list \<Rightarrow> classification_lookup_key \<Rightarrow>
     (classification_lookup, store_error) result" where
  "lookup_classification_cache codec s rows k =
     and_then (require_store (ck_file_identity k \<noteq> [] \<and> ck_source_version k \<noteq> []
         \<and> is_ok (parse_source_version (ck_source_version k))
         \<and> valid_guard_wire (ck_source_guard_kind k) (ck_source_guard_sha256 k)
         \<and> is_sha256_hex (ck_classifier_profile_hash k) \<and> is_sha256_hex (ck_classifier_build k))
       (StoreInvalidRequest (lit ''classification cache lookup key is invalid''))) (\<lambda>_.
     query_classification_cache codec s rows k)"

section \<open>The table\<close>

definition classification_row_good :: "classification_cache_row \<Rightarrow> bool" where
  "classification_row_good r \<longleftrightarrow>
     is_ok (validate_classification_entry (classification_entry_of_row r)) \<and> classification_row_checks r"

definition set_classification_bucket :: "rstring \<Rightarrow> classification_cache_row \<Rightarrow> classification_cache_row" where
  "set_classification_bucket bucket r = r\<lparr>qk_last_accessed_bucket := bucket\<rparr>"

interpretation classification_table: cache_contract classification_row_key qk_entry_size_bytes
  classification_entry_of_row merge_classification_row classification_eviction_rank classification_row_good
  CLASSIFICATION_CACHE_MAX_BYTES set_classification_bucket
  by unfold_locales
    (auto simp: classification_row_key_def classification_entry_of_row_def merge_classification_row_def
       set_classification_bucket_def classification_row_good_def classification_row_checks_def
       CLASSIFICATION_CACHE_MAX_BYTES_def)

definition classification_table_ok :: "classification_cache_row list \<Rightarrow> bool" where
  "classification_table_ok rows \<longleftrightarrow>
     table_ok classification_row_key qk_entry_size_bytes classification_row_good CLASSIFICATION_CACHE_MAX_BYTES rows"

lemma is_ok_require: "is_ok (require c m) \<longleftrightarrow> c"
  by (simp add: require_def)

lemma admitted_classification_row:
  assumes "validate_classification_write r = Ok ()" and "kw_page_count r \<le> u64_max"
    and "admit_classification_record known now bucket r = Ok ()"
  shows "0 \<le> qk_entry_size_bytes (classification_row_of_record now bucket r)"
    and "classification_row_good (classification_row_of_record now bucket r)"
proof -
  have checks: "classification_row_checks (classification_row_of_record now bucket r)"
    using assms(3) by (simp add: admit_classification_record_def split: if_splits)
  then show "0 \<le> qk_entry_size_bytes (classification_row_of_record now bucket r)"
    by (simp add: classification_row_checks_def)
  have "kw_result_examined_pages r \<le> u64_max" using assms(1,2) by (auto simp: validate_classification_write_def)
  with checks assms(1,2) show "classification_row_good (classification_row_of_record now bucket r)"
    by (auto simp: classification_row_good_def validate_classification_entry_def classification_entry_of_row_def
        classification_row_of_record_def validate_classification_write_def classification_row_checks_def is_ok_require)
qed

text \<open>A lookup of a good table never finds its row corrupt: what it may refuse are the pages in the metadata of
  the run that classified the file.\<close>

lemma good_classification_lookup:
  assumes ok: "classification_table_ok rows"
    and look: "lookup_classification_cache codec s rows k = Err (StoreRunCorrupt m)"
  shows "\<exists>r\<in>set rows. classification_row_key r = classification_lookup_key_of k
     \<and> is_ok (validate_classification_entry (classification_entry_of_row r))
     \<and> (\<exists>json. classifying_metadata s k = Some json
          \<and> attach_page_audit codec (ck_file_identity k) (Some json) (classification_entry_of_row r) = Err (StoreRunCorrupt m))"
proof -
  from look have query: "query_classification_cache codec s rows k = Err (StoreRunCorrupt m)"
    by (simp add: lookup_classification_cache_def require_store_def split: if_splits)
  then obtain r where row: "row_at classification_row_key rows (classification_lookup_key_of k) = Some r"
    by (auto simp: query_classification_cache_def split: option.splits)
  then have r: "r \<in> set rows" "classification_row_key r = classification_lookup_key_of k"
    using row_at_SomeD [OF row] by simp_all
  with ok have good: "is_ok (validate_classification_entry (classification_entry_of_row r))"
    by (auto simp: classification_table_ok_def table_ok_def classification_row_good_def)
  with query row have attach: "attach_page_audit codec (ck_file_identity k) (classifying_metadata s k)
      (classification_entry_of_row r) = Err (StoreRunCorrupt m)"
    by (cases "attach_page_audit codec (ck_file_identity k) (classifying_metadata s k) (classification_entry_of_row r)")
      (simp_all add: query_classification_cache_def)
  then obtain json where "classifying_metadata s k = Some json"
    by (cases "classifying_metadata s k") (simp_all add: attach_page_audit_def)
  with attach good r show ?thesis by metis
qed

lemma attach_page_audit_messages:
  "attach_page_audit codec identity metadata entry = Err (StoreRunCorrupt m) \<Longrightarrow>
     m \<in> {lit ''invalid classifier page metadata'', lit ''invalid cached classifier page audit'',
           lit ''cached page audit differs from classification result''}"
  by (auto simp: attach_page_audit_def split: option.splits if_splits)

end
