(* ===== verification/Cache_Profile.thy ===== *)
theory Cache_Profile
  imports Scanner_Settings Routing Scheduler_Files
begin

text \<open>
  The part of a cache key that stands for the parser or the classifier: the route stacks of
  \<open>src/rust/scanner_core/src/store/cache.rs\<close> and the two profile hashes. The JSON of a fingerprint and
  SHA-256 in a domain are functions of the libraries.
\<close>

record route_stack_member =
  rz_component :: rstring
  rz_contract :: rstring
  rz_build :: rstring

record route_stack_fingerprint =
  rz_route :: rstring
  rz_members :: "route_stack_member list"

definition worker_member :: "rstring \<Rightarrow> rstring \<Rightarrow> rstring \<Rightarrow> route_stack_member" where
  "worker_member component contract build = \<lparr>rz_component = component, rz_contract = contract, rz_build = build\<rparr>"

definition engine_member :: "rstring \<Rightarrow> route_stack_member" where
  "engine_member build = worker_member (lit ''engine'') (lit ''ai_daily_context_v1'') build"

definition from_members :: "rstring \<Rightarrow> route_stack_member list \<Rightarrow> (route_stack_fingerprint, rstring) result" where
  "from_members route members =
     (if route = [] \<or> 1024 < length route \<or> members = []
         \<or> list_ex (\<lambda>m. rz_component m = [] \<or> 1024 < length (rz_component m) \<or> rz_contract m = []
             \<or> 1024 < length (rz_contract m) \<or> rz_build m = [] \<or> 4096 < length (rz_build m)) members
      then Err (lit ''route stack fingerprint is incomplete'')
      else if card (set (map rz_component members)) \<noteq> length members
      then Err (lit ''route stack fingerprint components must be unique'')
      else Ok \<lparr>rz_route = route, rz_members = members\<rparr>)"

definition text_stack :: "rstring \<Rightarrow> (route_stack_fingerprint, rstring) result" where
  "text_stack engine_build = from_members (lit ''text_like'') [engine_member engine_build]"

definition modern_office_stack :: "rstring \<Rightarrow> rstring \<Rightarrow> rstring \<Rightarrow> (route_stack_fingerprint, rstring) result" where
  "modern_office_stack engine_build office_contract office_build =
     from_members (lit ''office'') [engine_member engine_build, worker_member (lit ''office_worker'') office_contract office_build]"

definition pdf_stack :: "rstring \<Rightarrow> rstring \<Rightarrow> rstring \<Rightarrow> (route_stack_fingerprint, rstring) result" where
  "pdf_stack engine_build pdf_contract pdf_build =
     from_members (lit ''pdf'') [engine_member engine_build, worker_member (lit ''pdf_worker'') pdf_contract pdf_build]"

record route_stack_fingerprints =
  rz_text_like :: route_stack_fingerprint
  rz_modern_office :: route_stack_fingerprint
  rz_pdf :: route_stack_fingerprint

fun stack_for_route :: "route_stack_fingerprints \<Rightarrow> parser_route \<Rightarrow> route_stack_fingerprint" where
  "stack_for_route f RouteLightText = rz_text_like f"
| "stack_for_route f RouteRustOffice = rz_modern_office f"
| "stack_for_route f RouteRustXlsx = rz_modern_office f"
| "stack_for_route f RouteRustXls = rz_modern_office f"
| "stack_for_route f RouteRustLegacyOffice = rz_modern_office f"
| "stack_for_route f RoutePdf = rz_pdf f"

fun parser_route_of :: "route_kind \<Rightarrow> parser_route" where
  "parser_route_of LightText = RouteLightText"
| "parser_route_of RustOffice = RouteRustOffice"
| "parser_route_of RustXlsx = RouteRustXlsx"
| "parser_route_of Pdf = RoutePdf"
| "parser_route_of RustXls = RouteRustXls"
| "parser_route_of RustLegacyOffice = RouteRustLegacyOffice"

section \<open>Fingerprints\<close>

text \<open>Everything the text of a file may depend on besides the file.\<close>

record parse_profile_fingerprint =
  pq_cache_payload_version :: u64
  pq_excerpt_policy_version :: rstring
  pq_protocol_version :: u64
  pq_route_stack :: route_stack_fingerprint
  pq_core_build_identity :: rstring
  pq_max_file_size_bytes :: u64
  pq_default_timeout_ms :: u64
  pq_timeout_by_extension_ms :: "(rstring \<times> u64) list"
  pq_parse :: parse_profile

record classifier_profile_fingerprint =
  pq_policy_version :: rstring
  pq_pdf_max_pages :: u64
  pq_pdf_classification_timeout_ms :: u64

text \<open>The hash of the canonical JSON of either fingerprint, each in its own domain, and the identity of the
  build of the parsers.\<close>

record profile_hashes =
  ph_parse :: "parse_profile_fingerprint \<Rightarrow> rstring"
  ph_classifier :: "classifier_profile_fingerprint \<Rightarrow> rstring"
  ph_parser_content_identity :: rstring

definition EXCERPT_POLICY_VERSION :: rstring where "EXCERPT_POLICY_VERSION = lit ''fair_semantic_v9''"

definition parse_profile_fingerprint_of ::
  "rstring \<Rightarrow> u64 \<Rightarrow> route_stack_fingerprint \<Rightarrow> normalized_settings \<Rightarrow> parse_profile_fingerprint" where
  "parse_profile_fingerprint_of build protocol_version route_stack profile =
     \<lparr>pq_cache_payload_version = 1, pq_excerpt_policy_version = EXCERPT_POLICY_VERSION,
      pq_protocol_version = protocol_version, pq_route_stack = route_stack, pq_core_build_identity = build,
      pq_max_file_size_bytes = ep_max_file_size_bytes (ns_execution profile),
      pq_default_timeout_ms = ep_file_timeout_ms (ns_execution profile),
      pq_timeout_by_extension_ms = ep_file_timeout_by_extension_ms (ns_execution profile),
      pq_parse = ns_parse profile\<rparr>"

definition parse_profile_hash ::
  "profile_hashes \<Rightarrow> u64 \<Rightarrow> route_stack_fingerprint \<Rightarrow> normalized_settings \<Rightarrow> (rstring, rstring) result" where
  "parse_profile_hash h protocol_version route_stack profile =
     and_then (require (protocol_version = 1) (lit ''parse profile hash protocol must be v1'')) (\<lambda>_.
     and_then (validate_normalized_settings profile) (\<lambda>_.
     Ok (ph_parse h (parse_profile_fingerprint_of (ph_parser_content_identity h) protocol_version route_stack profile))))"

definition classifier_profile_hash :: "profile_hashes \<Rightarrow> normalized_settings \<Rightarrow> (rstring, rstring) result" where
  "classifier_profile_hash h profile =
     and_then (validate_normalized_settings profile) (\<lambda>_.
     Ok (ph_classifier h
       \<lparr>pq_policy_version = ns_classifier_policy_version profile, pq_pdf_max_pages = pp_max_pages (pr_pdf (ns_parse profile)),
        pq_pdf_classification_timeout_ms = ns_pdf_classification_timeout_ms profile\<rparr>))"

lemma stacks_unique_components:
  "text_stack e = Ok s \<Longrightarrow> distinct (map rz_component (rz_members s))"
  "modern_office_stack e c b = Ok s \<Longrightarrow> distinct (map rz_component (rz_members s))"
  "pdf_stack e c b = Ok s \<Longrightarrow> distinct (map rz_component (rz_members s))"
  by (auto simp: text_stack_def modern_office_stack_def pdf_stack_def from_members_def engine_member_def worker_member_def
      split: if_splits)

end
