(* ===== verification/Cache_Store.thy ===== *)
theory Cache_Store
  imports Classification_Cache Cache_Profile
begin

text \<open>
  The caches in the database of the scanner, with the touch of both in one transaction
  (\<open>touch_cache_access\<close> of \<open>src/rust/scanner_core/src/store/mod.rs\<close>), and the port through which the
  scheduler uses them (\<open>StoreCachePort\<close> of \<open>scheduler_adapter.rs\<close>). The steps of the system are these
  operations and any change of the runs.
\<close>

record cache_store =
  cz_runs :: run_store
  cz_parse :: "parse_cache_row list"
  cz_classification :: "classification_cache_row list"

text \<open>The files a cache row may name: those of the inventory.\<close>

definition inventory_identities :: "run_store \<Rightarrow> rstring set" where
  "inventory_identities s = set (map (iv_file_identity \<circ> fst) (st_inventory s))"

definition touch_parse_cache ::
  "(cache_look \<Rightarrow> bool) \<Rightarrow> rstring \<Rightarrow> rstring list \<Rightarrow> parse_cache_row list \<Rightarrow>
     (parse_cache_row list \<times> nat, cache_mutation_error) result" where
  "touch_parse_cache opn bucket identities rows =
     touch_table opn pk_file_identity pk_last_accessed_bucket set_parse_bucket bucket identities rows"

definition touch_classification_cache ::
  "(cache_look \<Rightarrow> bool) \<Rightarrow> rstring \<Rightarrow> rstring list \<Rightarrow> classification_cache_row list \<Rightarrow>
     (classification_cache_row list \<times> nat, cache_mutation_error) result" where
  "touch_classification_cache opn bucket identities rows =
     touch_table opn qk_file_identity qk_last_accessed_bucket set_classification_bucket bucket identities rows"

text \<open>The looks of the touch itself and of the parse table have turn 0, those of the other table turn 1.\<close>

definition touch_transaction ::
  "(nat \<Rightarrow> cache_look \<Rightarrow> bool) \<Rightarrow> rstring \<Rightarrow> rstring list \<Rightarrow> rstring list \<Rightarrow> cache_store \<Rightarrow> (cache_store, store_error) result" where
  "touch_transaction opn bucket parse_hits classification_hits s =
     and_then (map_err cache_mutation (touch_parse_cache (opn 0) bucket parse_hits (cz_parse s))) (\<lambda>(parse, _).
     and_then (map_err cache_mutation (touch_classification_cache (opn 1) bucket classification_hits (cz_classification s)))
       (\<lambda>(classification, _).
     and_then (ensure_work_deadline (opn 0 LookCommit)) (\<lambda>_.
     Ok (s\<lparr>cz_parse := parse, cz_classification := classification\<rparr>))))"

definition touch_cache_access ::
  "bool \<Rightarrow> (nat \<Rightarrow> cache_look \<Rightarrow> bool) \<Rightarrow> u64 \<Rightarrow> rstring list \<Rightarrow> rstring list \<Rightarrow> cache_store \<Rightarrow> (cache_store, store_error) result" where
  "touch_cache_access deadline looks now_ms parse_hits classification_hits s =
     (let opn = (\<lambda>k look. deadline \<longrightarrow> looks k look)
      in and_then (checked_i64 now_ms (lit ''cache touch timestamp'')) (\<lambda>now_ms.
         if parse_hits = [] \<and> classification_hits = [] then Ok s
         else and_then (ensure_work_deadline (opn 0 LookChunk)) (\<lambda>_.
              and_then (ensure_work_deadline (opn 0 LookBusy)) (\<lambda>_.
              touch_transaction opn (date_bucket_for_ms now_ms) parse_hits classification_hits s))))"

definition write_parse :: "cache_codec \<Rightarrow> (parse_cache_row list \<Rightarrow> parse_cache_row) \<Rightarrow> bool \<Rightarrow> (nat \<Rightarrow> cache_look \<Rightarrow> bool) \<Rightarrow>
     u64 \<Rightarrow> cache_write_record list \<Rightarrow> cache_store \<Rightarrow> cache_store \<times> (unit, store_error) result" where
  "write_parse codec tie deadline looks now_ms records s =
     (case write_success_parse_cache codec tie (inventory_identities (cz_runs s)) deadline looks records now_ms (cz_parse s) of
        (rows, res) \<Rightarrow> (s\<lparr>cz_parse := rows\<rparr>, res))"

definition write_classification :: "(classification_cache_row list \<Rightarrow> classification_cache_row) \<Rightarrow> bool \<Rightarrow>
     (nat \<Rightarrow> cache_look \<Rightarrow> bool) \<Rightarrow> u64 \<Rightarrow> classification_write_record list \<Rightarrow> cache_store \<Rightarrow> cache_store \<times> (unit, store_error) result" where
  "write_classification tie deadline looks now_ms records s =
     (case write_success_classification_cache tie (inventory_identities (cz_runs s)) deadline looks records now_ms
             (cz_classification s) of
        (rows, res) \<Rightarrow> (s\<lparr>cz_classification := rows\<rparr>, res))"

section \<open>The port of the scheduler\<close>

fun map_store_error :: "store_error \<Rightarrow> cache_port_error" where
  "map_store_error StoreWorkDeadlineExhausted = PortDeadlineExhausted (store_error_text StoreWorkDeadlineExhausted)"
| "map_store_error e = PortStore (store_error_text e)"

text \<open>What the port is built with. The connection is opened once and dropped after an error: that is I/O.\<close>

record cache_port =
  kp_codec :: cache_codec
  kp_hashes :: profile_hashes
  kp_stacks :: route_stack_fingerprints
  kp_settings :: normalized_settings
  kp_parse_tie :: "parse_cache_row list \<Rightarrow> parse_cache_row"
  kp_classification_tie :: "classification_cache_row list \<Rightarrow> classification_cache_row"

definition port_guard :: "discovered_file \<Rightarrow> (rstring \<times> rstring, cache_port_error) result" where
  "port_guard file =
     and_then (ok_or (PortInvalidKey (lit ''source guard kind is missing'')) (df_source_guard_kind file)) (\<lambda>kind.
     and_then (ok_or (PortInvalidKey (lit ''source guard sha256 is missing'')) (df_source_guard_sha256 file)) (\<lambda>hash.
     Ok (kind, hash)))"

definition port_lookup_parse ::
  "cache_port \<Rightarrow> discovered_file \<Rightarrow> route_kind \<Rightarrow> bool \<Rightarrow> cache_store \<Rightarrow> (parse_lookup_outcome, cache_port_error) result" where
  "port_lookup_parse p file route existed_before s =
     and_then (map_err PortInvalidKey
       (parse_profile_hash (kp_hashes p) 1 (stack_for_route (kp_stacks p) (parser_route_of route)) (kp_settings p))) (\<lambda>profile_hash.
     and_then (port_guard file) (\<lambda>(kind, hash).
     and_then (map_err map_store_error (lookup_cache (kp_codec p) (cz_parse s)
         \<lparr>lk_file_identity = df_file_identity file, lk_source_version = df_source_version file, lk_source_guard_kind = kind,
          lk_source_guard_sha256 = hash, lk_parse_profile_hash = profile_hash,
          lk_inventory_existed_before = existed_before\<rparr>)) (\<lambda>found.
     Ok \<lparr>pl_parse_profile_hash = profile_hash,
         pl_lookup = decode_payload (kp_codec p) PARSE_CACHE_PAYLOAD_VERSION found\<rparr>)))"

definition port_lookup_classification ::
  "cache_port \<Rightarrow> discovered_file \<Rightarrow> rstring \<Rightarrow> rstring \<Rightarrow> bool \<Rightarrow> cache_store \<Rightarrow> (classification_lookup, cache_port_error) result" where
  "port_lookup_classification p file profile_hash build existed_before s =
     and_then (port_guard file) (\<lambda>(kind, hash).
     map_err map_store_error (lookup_classification_cache (kp_codec p) (cz_runs s) (cz_classification s)
       \<lparr>ck_file_identity = df_file_identity file, ck_source_version = df_source_version file, ck_source_guard_kind = kind,
        ck_source_guard_sha256 = hash, ck_classifier_profile_hash = profile_hash, ck_classifier_build = build,
        ck_inventory_existed_before = existed_before\<rparr>))"

definition port_write_parse ::
  "cache_port \<Rightarrow> (nat \<Rightarrow> cache_look \<Rightarrow> bool) \<Rightarrow> u64 \<Rightarrow> cache_write_record list \<Rightarrow> cache_store \<Rightarrow>
     cache_store \<times> (unit, cache_port_error) result" where
  "port_write_parse p looks now_ms records s =
     (case write_parse (kp_codec p) (kp_parse_tie p) True looks now_ms records s of (s, res) \<Rightarrow> (s, map_err map_store_error res))"

definition port_write_classification ::
  "cache_port \<Rightarrow> (nat \<Rightarrow> cache_look \<Rightarrow> bool) \<Rightarrow> u64 \<Rightarrow> classification_write_record list \<Rightarrow> cache_store \<Rightarrow>
     cache_store \<times> (unit, cache_port_error) result" where
  "port_write_classification p looks now_ms records s =
     (case write_classification (kp_classification_tie p) True looks now_ms records s of
        (s, res) \<Rightarrow> (s, map_err map_store_error res))"

definition port_touch_access ::
  "(nat \<Rightarrow> cache_look \<Rightarrow> bool) \<Rightarrow> u64 \<Rightarrow> rstring list \<Rightarrow> rstring list \<Rightarrow> cache_store \<Rightarrow> cache_store \<times> (unit, cache_port_error) result" where
  "port_touch_access looks now_ms parse_hits classification_hits s =
     (if parse_hits = [] \<and> classification_hits = [] then (s, Ok ())
      else case touch_cache_access True looks now_ms parse_hits classification_hits s of
        Ok t \<Rightarrow> (t, Ok ())
      | Err e \<Rightarrow> (s, Err (map_store_error e)))"

definition port_prepare_inventory ::
  "(nat \<Rightarrow> bool) \<Rightarrow> u64 \<Rightarrow> u64 \<Rightarrow> inventory_record list \<Rightarrow> cache_store \<Rightarrow> cache_store \<times> (rstring set, cache_port_error) result" where
  "port_prepare_inventory looks scan_run_id now_ms records s =
     (if I64_MAX < int scan_run_id then (s, Err (PortInvalidKey (lit ''scan_run_id exceeds SQLite integer range'')))
      else case prepare_inventory looks records (int scan_run_id) now_ms (cz_runs s) of
        (t, res) \<Rightarrow> (s\<lparr>cz_runs := t\<rparr>, map_err map_store_error res))"

section \<open>Steps\<close>

inductive cache_step :: "cache_codec \<Rightarrow> cache_store \<Rightarrow> cache_store \<Rightarrow> bool" for codec where
  step_write_parse:
    "picks tie \<Longrightarrow> cache_step codec s (fst (write_parse codec tie deadline looks now_ms records s))"
| step_write_classification:
    "picks tie \<Longrightarrow> list_all (\<lambda>r. kw_page_count r \<le> u64_max) records \<Longrightarrow>
       cache_step codec s (fst (write_classification tie deadline looks now_ms records s))"
| step_touch:
    "touch_cache_access deadline looks now_ms parse_hits classification_hits s = Ok t \<Longrightarrow> cache_step codec s t"
| step_runs: "cache_step codec s (s\<lparr>cz_runs := runs\<rparr>)"

definition empty_caches :: "run_store \<Rightarrow> cache_store" where
  "empty_caches runs = \<lparr>cz_runs = runs, cz_parse = [], cz_classification = []\<rparr>"

definition caches_ok :: "cache_codec \<Rightarrow> cache_store \<Rightarrow> bool" where
  "caches_ok codec s \<longleftrightarrow> parse_table_ok codec (cz_parse s) \<and> classification_table_ok (cz_classification s)"

section \<open>What the steps keep\<close>

lemma write_parse_keeps:
  assumes "picks tie" and "hex_digests codec" and "caches_ok codec s"
  shows "caches_ok codec (fst (write_parse codec tie deadline looks now_ms records s))"
proof -
  let ?known = "inventory_identities (cz_runs s)"
  have "parse_table_ok codec (fst (write_success_parse_cache codec tie ?known deadline looks records now_ms (cz_parse s)))"
    unfolding parse_table_ok_def write_success_parse_cache_def
  proof (rule parse_table.write_with_deadline_keeps)
    fix at opn chunk rows kept
    assume sub: "set chunk \<subseteq> set records" and valid: "\<forall>r\<in>set records. validate_cache_write codec r = Ok ()"
      and ok: "table_ok parse_row_key pk_entry_size_bytes (parse_row_good codec) PARSE_CACHE_MAX_BYTES rows"
      and "write_success_cache_with_check codec tie ?known at opn chunk rows = Ok kept"
    then have w: "write_and_evict opn (admit_parse_record codec ?known at (date_bucket_for_ms at))
      (parse_row_of codec at (date_bucket_for_ms at)) parse_row_key merge_parse_row
      (evict_table tie parse_row_key parse_eviction_rank pk_entry_size_bytes opn PARSE_CACHE_MAX_BYTES) chunk rows = Ok kept"
      by (simp add: write_success_cache_with_check_def evict_parse_cache_def [abs_def] Let_def)
    show "table_ok parse_row_key pk_entry_size_bytes (parse_row_good codec) PARSE_CACHE_MAX_BYTES kept"
      by (rule parse_table.write_and_evict_contract(2) [OF assms(1) ok _ w])
        (use sub valid admitted_parse_row [OF assms(2)] in blast)
  qed (use assms(3) in \<open>simp add: caches_ok_def parse_table_ok_def\<close>)
  with assms(3) show ?thesis by (auto simp: write_parse_def caches_ok_def split: prod.splits)
qed

lemma write_classification_keeps:
  assumes "picks tie" and "list_all (\<lambda>r. kw_page_count r \<le> u64_max) records" and "caches_ok codec s"
  shows "caches_ok codec (fst (write_classification tie deadline looks now_ms records s))"
proof -
  let ?known = "inventory_identities (cz_runs s)"
  have "classification_table_ok
      (fst (write_success_classification_cache tie ?known deadline looks records now_ms (cz_classification s)))"
    unfolding classification_table_ok_def write_success_classification_cache_def
  proof (rule classification_table.write_with_deadline_keeps)
    fix at opn chunk rows kept
    assume sub: "set chunk \<subseteq> set records" and valid: "\<forall>r\<in>set records. validate_classification_write r = Ok ()"
      and ok: "table_ok classification_row_key qk_entry_size_bytes classification_row_good CLASSIFICATION_CACHE_MAX_BYTES rows"
      and "write_success_classification_cache_with_check tie ?known at opn chunk rows = Ok kept"
    then have w: "write_and_evict opn (admit_classification_record ?known at (date_bucket_for_ms at))
      (classification_row_of_record at (date_bucket_for_ms at)) classification_row_key merge_classification_row
      (evict_table tie classification_row_key classification_eviction_rank qk_entry_size_bytes opn
        CLASSIFICATION_CACHE_MAX_BYTES) chunk rows = Ok kept"
      by (simp add: write_success_classification_cache_with_check_def evict_classification_cache_def [abs_def] Let_def)
    have counts: "\<forall>r\<in>set chunk. kw_page_count r \<le> u64_max" using sub assms(2) by (auto simp: list_all_iff)
    show "table_ok classification_row_key qk_entry_size_bytes classification_row_good CLASSIFICATION_CACHE_MAX_BYTES kept"
      by (rule classification_table.write_and_evict_contract(2) [OF assms(1) ok _ w])
        (use sub valid counts admitted_classification_row in blast)
  qed (use assms(3) in \<open>simp add: caches_ok_def classification_table_ok_def\<close>)
  with assms(3) show ?thesis by (auto simp: write_classification_def caches_ok_def split: prod.splits)
qed

lemma map_err_Ok_iff: "map_err f r = Ok x \<longleftrightarrow> r = Ok x"
  by (cases r) simp_all

lemma touch_keeps_caches:
  assumes "touch_cache_access deadline looks now_ms parse_hits classification_hits s = Ok t" and "caches_ok codec s"
  shows "caches_ok codec t"
    and "map_option entry_of_row (row_at parse_row_key (cz_parse t) k) = map_option entry_of_row (row_at parse_row_key (cz_parse s) k)"
proof -
  let ?opn = "\<lambda>k look. deadline \<longrightarrow> looks k look" and ?bucket = "date_bucket_for_ms (int now_ms)"
  have run: "touch_transaction ?opn ?bucket parse_hits classification_hits s = Ok t"
    if "\<not> (parse_hits = [] \<and> classification_hits = [])"
    using assms(1) that by (simp add: touch_cache_access_def Let_def split: if_splits)
  have same: "t = s" if "parse_hits = [] \<and> classification_hits = []"
    using assms(1) that by (simp add: touch_cache_access_def Let_def)
  have "caches_ok codec t
      \<and> map_option entry_of_row (row_at parse_row_key (cz_parse t) k) = map_option entry_of_row (row_at parse_row_key (cz_parse s) k)"
  proof (cases "parse_hits = [] \<and> classification_hits = []")
    case True
    with assms(2) same show ?thesis by simp
  next
    case False
    from run [OF this] obtain parse n classification m where
        hits: "touch_parse_cache (?opn 0) ?bucket parse_hits (cz_parse s) = Ok (parse, n)"
        "touch_classification_cache (?opn 1) ?bucket classification_hits (cz_classification s) = Ok (classification, m)"
      and t: "t = s\<lparr>cz_parse := parse, cz_classification := classification\<rparr>"
      by (auto simp: touch_transaction_def map_err_Ok_iff)
    note p = parse_table.touch_table_keeps [OF hits(1) [unfolded touch_parse_cache_def], of codec]
    note c = classification_table.touch_table_keeps [OF hits(2) [unfolded touch_classification_cache_def]]
    from assms(2) t p c show ?thesis by (simp add: caches_ok_def parse_table_ok_def classification_table_ok_def)
  qed
  then show "caches_ok codec t"
    and "map_option entry_of_row (row_at parse_row_key (cz_parse t) k) = map_option entry_of_row (row_at parse_row_key (cz_parse s) k)"
    by simp_all
qed

lemma cache_step_keeps: "cache_step codec s t \<Longrightarrow> hex_digests codec \<Longrightarrow> caches_ok codec s \<Longrightarrow> caches_ok codec t"
proof (induction rule: cache_step.induct)
  case (step_runs s runs)
  then show ?case by (simp add: caches_ok_def)
qed (auto intro: write_parse_keeps write_classification_keeps touch_keeps_caches(1))

lemma empty_caches_ok: "caches_ok codec (empty_caches runs)"
  by (simp add: caches_ok_def empty_caches_def parse_table_ok_def classification_table_ok_def table_ok_def
      PARSE_CACHE_MAX_BYTES_def CLASSIFICATION_CACHE_MAX_BYTES_def)

lemma cache_steps_keep:
  "(cache_step codec)\<^sup>*\<^sup>* s t \<Longrightarrow> hex_digests codec \<Longrightarrow> caches_ok codec s \<Longrightarrow> caches_ok codec t"
  by (induction rule: rtranclp_induct) (auto intro: cache_step_keeps)

text \<open>C9. The caches stay within their caps and no row of theirs is ever found corrupt. Whatever sequence of
  writes, touches and changes of the runs, successful or failed, with any order of the deadline's answers, leads
  from empty caches to a state: there is at most one row for each key, the sizes add up to at most 1 GiB and
  128 MiB, no lookup of the parse cache reports a row that fails its integrity check, and when a lookup of the
  classification cache reports corruption, its row is valid and it is the page audit in the metadata of the run
  that classified the file, kept outside the cache, that is refused.\<close>

theorem caches_stay_within_caps:
  assumes "hex_digests codec" and "(cache_step codec)\<^sup>*\<^sup>* (empty_caches runs) s"
  shows "distinct (map parse_row_key (cz_parse s)) \<and> distinct (map classification_row_key (cz_classification s))
     \<and> total_bytes pk_entry_size_bytes (cz_parse s) \<le> 1024 ^ 3
     \<and> total_bytes qk_entry_size_bytes (cz_classification s) \<le> 128 * 1024 ^ 2
     \<and> (\<nexists>k m. lookup_cache codec (cz_parse s) k = Err (StoreRunCorrupt m))
     \<and> (\<forall>k m. lookup_classification_cache codec (cz_runs s) (cz_classification s) k = Err (StoreRunCorrupt m) \<longrightarrow>
          (\<exists>r\<in>set (cz_classification s). classification_row_key r = classification_lookup_key_of k
             \<and> is_ok (validate_classification_entry (classification_entry_of_row r))
             \<and> (\<exists>json. classifying_metadata (cz_runs s) k = Some json
                  \<and> attach_page_audit codec (ck_file_identity k) (Some json) (classification_entry_of_row r)
                      = Err (StoreRunCorrupt m))))"
proof -
  have ok: "caches_ok codec s" using cache_steps_keep [OF assms(2,1) empty_caches_ok] .
  then have table: "classification_table_ok (cz_classification s)" by (simp add: caches_ok_def)
  have "lookup_cache codec (cz_parse s) k \<noteq> Err (StoreRunCorrupt m)" for k m
    using good_lookup [of codec "cz_parse s" k] ok
    by (auto simp: caches_ok_def lookup_cache_def validate_cache_lookup_key_def require_store_def
        reject_corrupt_parse_cache_lookup_def)
  moreover note good_classification_lookup [OF table]
  ultimately show ?thesis using ok
    by (simp add: caches_ok_def parse_table_ok_def classification_table_ok_def table_ok_def
        PARSE_CACHE_MAX_BYTES_def CLASSIFICATION_CACHE_MAX_BYTES_def)
qed

definition fixture_caches :: cache_store where
  "fixture_caches = empty_caches (fixture_store\<lparr>st_inventory := [(fixture_record, None)]\<rparr>)"

lemma fixture_caches_write:
  "write_parse fixture_cache_codec hd True (\<lambda>_ _. True) 0 [fixture_cache_record] fixture_caches
     = (fixture_caches\<lparr>cz_parse := [fixture_cache_row]\<rparr>, Ok ())"
proof -
  have "inventory_identities (cz_runs fixture_caches) = {[98]}"
    by (simp add: inventory_identities_def fixture_caches_def empty_caches_def fixture_record_def)
  then show ?thesis using fixture_write by (simp add: write_parse_def) (simp add: fixture_caches_def empty_caches_def)
qed

theorem caches_stay_within_caps_witness:
  "distinct (map parse_row_key [fixture_cache_row]) \<and> total_bytes pk_entry_size_bytes [fixture_cache_row] \<le> 1024 ^ 3
     \<and> (\<nexists>k m. lookup_cache fixture_cache_codec [fixture_cache_row] k = Err (StoreRunCorrupt m))"
proof -
  have "cache_step fixture_cache_codec fixture_caches (fst (write_parse fixture_cache_codec hd True (\<lambda>_ _. True) 0 [fixture_cache_record] fixture_caches))"
    by (rule cache_step.step_write_parse) simp
  then have "cache_step fixture_cache_codec fixture_caches (fixture_caches\<lparr>cz_parse := [fixture_cache_row]\<rparr>)"
    by (simp add: fixture_caches_write)
  then have "(cache_step fixture_cache_codec)\<^sup>*\<^sup>* (empty_caches (fixture_store\<lparr>st_inventory := [(fixture_record, None)]\<rparr>))
      (fixture_caches\<lparr>cz_parse := [fixture_cache_row]\<rparr>)"
    unfolding fixture_caches_def by (rule r_into_rtranclp)
  from caches_stay_within_caps [OF fixture_cache_codec_hex this] show ?thesis by simp
qed

text \<open>C10. A write through the port of the scheduler is atomic and gives way in the order of the code. It fails
  and leaves both caches as they were, or it succeeds and the parse cache is what the updates make of it, less
  the rows that had to give way: the kept rows fit 1 GiB, every row that went is not after any kept one in the
  order of generation, cost of recomputation, day of use, time of writing and number of characters of the key,
  and the last one to go did not fit. Which of several rows with the same rank goes is the database's choice,
  here the parameter \<open>kp_parse_tie\<close>: the theorem holds for every choice. The comments of \<open>cache.rs\<close> and the
  design promise a tie-break on the bytes of the key instead; the query orders by the length of the key, which
  neither separates all keys nor orders them as their bytes do.\<close>

theorem write_is_atomic_and_evicts_in_order:
  assumes "hex_digests (kp_codec p)" and "picks (kp_parse_tie p)" and "caches_ok (kp_codec p) s" and "records \<noteq> []"
    and "port_write_parse p looks now_ms records s = (t, res)"
  shows "(res \<noteq> Ok () \<and> t = s) \<or> (res = Ok () \<and> t = s\<lparr>cz_parse := cz_parse t\<rparr>
     \<and> evicted_to parse_eviction_rank pk_entry_size_bytes PARSE_CACHE_MAX_BYTES
          (updated_rows (kp_codec p) (int now_ms) records (cz_parse s)) (cz_parse t))"
proof -
  obtain rows r where run: "write_success_parse_cache (kp_codec p) (kp_parse_tie p) (inventory_identities (cz_runs s)) True looks
      records now_ms (cz_parse s) = (rows, r)" by fastforce
  with assms(5) have t: "t = s\<lparr>cz_parse := rows\<rparr>" and res: "res = map_err map_store_error r"
    by (auto simp: port_write_parse_def write_parse_def)
  show ?thesis
  proof (cases r)
    case (Ok u)
    then have "evicted_to parse_eviction_rank pk_entry_size_bytes PARSE_CACHE_MAX_BYTES
          (updated_rows (kp_codec p) (int now_ms) records (cz_parse s)) rows"
      using single_write(1) [OF assms(2) _ assms(1,4)] run assms(3) by (simp add: caches_ok_def)
    with Ok t res show ?thesis by simp
  next
    case (Err e)
    have "rows = cz_parse s" using single_chunk_atomic [OF run [unfolded write_success_parse_cache_def] Err] .
    with Err t res show ?thesis by simp
  qed
qed

theorem write_is_atomic_and_evicts_in_order_witness:
  "evicted_to parse_eviction_rank pk_entry_size_bytes PARSE_CACHE_MAX_BYTES
     (updated_rows fixture_cache_codec 0 [fixture_cache_record] []) [fixture_cache_row]"
proof -
  let ?p = "\<lparr>kp_codec = fixture_cache_codec, kp_hashes = undefined, kp_stacks = undefined, kp_settings = undefined,
     kp_parse_tie = hd, kp_classification_tie = hd\<rparr>"
  have run: "port_write_parse ?p (\<lambda>_ _. True) 0 [fixture_cache_record] fixture_caches
      = (fixture_caches\<lparr>cz_parse := [fixture_cache_row]\<rparr>, Ok ())"
    by (simp add: port_write_parse_def fixture_caches_write)
  have ok: "caches_ok (kp_codec ?p) fixture_caches" unfolding fixture_caches_def by (rule empty_caches_ok)
  have rows: "cz_parse fixture_caches = []" by (simp add: fixture_caches_def empty_caches_def)
  from write_is_atomic_and_evicts_in_order [OF _ _ ok _ run] rows show ?thesis by (simp add: fixture_cache_codec_hex)
qed

text \<open>C12. A hit in the classification cache is consistent: the status is one of the two that are cached, between one
  page and all pages were examined, and pages that come with it are a valid audit of exactly as many pages, each
  within the document.\<close>

theorem classification_hit_consistent:
  assumes "lookup_classification_cache codec s rows k = Ok (ClassLookupFresh e)"
  shows "ce_status e \<in> {lit ''text_in_parse_window'', lit ''no_text_in_parse_window''}
     \<and> 1 \<le> ce_result_examined_pages e \<and> ce_result_examined_pages e \<le> ce_page_count e
     \<and> (case ce_page_audit e of None \<Rightarrow> True
        | Some a \<Rightarrow> distinct (pg_checked_pages a) \<and> length (pg_checked_pages a) = ce_result_examined_pages e
            \<and> set (pg_checked_pages a) \<subseteq> {1..ce_page_count e})"
proof -
  from assms obtain r where attach: "attach_page_audit codec (ck_file_identity k) (classifying_metadata s k) (classification_entry_of_row r) = Ok e"
    and valid: "is_ok (validate_classification_entry (classification_entry_of_row r))"
    by (auto simp: lookup_classification_cache_def query_classification_cache_def Let_def split: option.splits if_splits)
  have same: "ce_status e = ce_status (classification_entry_of_row r)" "ce_page_count e = ce_page_count (classification_entry_of_row r)"
    "ce_result_examined_pages e = ce_result_examined_pages (classification_entry_of_row r)"
    using attach by (auto simp: attach_page_audit_def split: option.splits if_splits)
  have base: "ce_status e \<in> {lit ''text_in_parse_window'', lit ''no_text_in_parse_window''}"
    "1 \<le> ce_result_examined_pages e" "ce_result_examined_pages e \<le> ce_page_count e"
    using valid by (simp_all add: same validate_classification_entry_def is_ok_require cached_statuses_def)
  have "case ce_page_audit e of None \<Rightarrow> True
      | Some a \<Rightarrow> distinct (pg_checked_pages a) \<and> length (pg_checked_pages a) = ce_result_examined_pages e
          \<and> set (pg_checked_pages a) \<subseteq> {1..ce_page_count e}"
  proof (cases "ce_page_audit e")
    case (Some a)
    with attach have a: "is_ok (validate_pdf_page_audit a)" "length (pg_checked_pages a) = ce_result_examined_pages e"
      "\<not> list_ex (\<lambda>page. ce_page_count e < page) (pg_checked_pages a)"
      by (auto simp: attach_page_audit_def classification_entry_of_row_def same split: option.splits if_splits)
    from a(1) obtain u where "validate_pdf_page_audit a = Ok u" by (cases "validate_pdf_page_audit a") auto
    then have "distinct (pg_checked_pages a)" "0 \<notin> set (pg_checked_pages a)" by (auto simp: validate_pdf_page_audit_def)
    with Some a(2,3) show ?thesis by (auto simp: list_ex_iff not_less Suc_le_eq intro: gr0I)
  qed simp
  with base show ?thesis by blast
qed

definition fixture_classified_row :: classification_cache_row where
  "fixture_classified_row =
     \<lparr>qk_file_identity = [98], qk_source_version = build_source_version 7 5,
      qk_source_guard_kind = lit ''content_sha256_v1'', qk_source_guard_sha256 = fixture_hex,
      qk_classifier_profile_hash = fixture_hex, qk_classifier_build = fixture_hex,
      qk_status = lit ''text_in_parse_window'', qk_page_count = 8, qk_result_examined_pages = 3, qk_cached_at_ms = 0,
      qk_entry_size_bytes = 300, qk_generation_rank = 1, qk_last_accessed_bucket = [49]\<rparr>"

definition fixture_classified_key :: classification_lookup_key where
  "fixture_classified_key =
     \<lparr>ck_file_identity = [98], ck_source_version = build_source_version 7 5,
      ck_source_guard_kind = lit ''content_sha256_v1'', ck_source_guard_sha256 = fixture_hex,
      ck_classifier_profile_hash = fixture_hex, ck_classifier_build = fixture_hex, ck_inventory_existed_before = True\<rparr>"

theorem classification_hit_consistent_witness:
  "\<exists>e. lookup_classification_cache fixture_cache_codec fixture_store [fixture_classified_row] fixture_classified_key = Ok (ClassLookupFresh e)
     \<and> ce_result_examined_pages e \<le> ce_page_count e"
proof -
  have none: "classifying_metadata fixture_store k = None" for k
    by (simp add: classifying_metadata_def classified_by_def fixture_store_def fixture_run_def)
  have "build_source_version 7 5 \<noteq> []" by (simp add: build_source_version_def)
  then have "lookup_classification_cache fixture_cache_codec fixture_store [fixture_classified_row] fixture_classified_key
      = Ok (ClassLookupFresh (classification_entry_of_row fixture_classified_row))"
    using fixture_hex_ok fixture_version
    by (simp add: lookup_classification_cache_def query_classification_cache_def require_store_def valid_guard_wire_def
        attach_page_audit_def none classification_row_key_def classification_lookup_key_of_def is_ok_require
        validate_classification_entry_def Let_def stored_guard_kinds_def
        fixture_classified_row_def fixture_classified_key_def classification_entry_of_row_def cached_statuses_def as_u64_def)
  from this classification_hit_consistent [OF this] show ?thesis by blast
qed

end
