(* ===== verification/Scanner_Config.thy ===== *)
theory Scanner_Config
  imports Scanner_Settings Decision
begin

text \<open>
  From the settings of a caller to the normalised settings: \<open>ScannerSettings\<close> with its validation
  (\<open>src/rust/scanner_contract/src/lib.rs\<close>) and \<open>normalize_scanner_settings\<close>
  (\<open>src/rust/scanner_core/src/config.rs\<close>). Every field of the caller is optional. A map is the list of its
  entries in the order of the keys.
\<close>

section \<open>The caller's settings\<close>

record scanner_settings =
  se_allowed_extensions :: "rstring list option"
  se_ignored_patterns :: "rstring list option"
  se_excluded_dirs :: "rstring list option"
  se_follow_symlinks :: "bool option"
  se_cloud_files_policy :: "rstring option"
  se_max_workers :: "u64 option"
  se_max_file_size_mb :: "u64 option"
  se_discovery_timeout_seconds :: "u64 option"
  se_file_timeout_seconds :: "u64 option"
  se_file_timeout_by_extension :: "(rstring \<times> u64) list option"
  se_total_max_chars :: "u64 option"
  se_excerpt_priority_paths :: "rstring list option"
  se_legacy_office_enabled :: "bool option"
  se_pptx_include_notes :: "bool option"
  se_direct_text_max_bytes :: "u64 option"
  se_direct_text_read_bytes :: "u64 option"
  se_log_tail_read_bytes :: "u64 option"
  se_text_excerpt_max_chars :: "u64 option"
  se_excel_max_rows :: "u64 option"
  se_pdf_max_pages :: "u64 option"
  se_text_max_chars :: "u64 option"
  se_csv_encodings :: "rstring list option"
  se_excel_max_sheets :: "u64 option"
  se_excel_max_columns :: "u64 option"
  se_docx_max_paragraphs :: "u64 option"
  se_docx_max_tables :: "u64 option"
  se_docx_table_max_rows :: "u64 option"
  se_docx_table_max_cols :: "u64 option"
  se_pptx_max_slides :: "u64 option"
  se_document_excerpt_max_chars :: "u64 option"
  se_summary_excel_max_rows :: "u64 option"
  se_summary_pdf_max_pages :: "u64 option"
  se_summary_text_max_chars :: "u64 option"
  se_summary_excel_max_sheets :: "u64 option"
  se_summary_excel_max_columns :: "u64 option"
  se_summary_docx_max_paragraphs :: "u64 option"
  se_summary_docx_max_tables :: "u64 option"
  se_summary_docx_table_max_rows :: "u64 option"
  se_summary_docx_table_max_cols :: "u64 option"
  se_summary_pptx_max_slides :: "u64 option"
  se_summary_document_excerpt_max_chars :: "u64 option"
  se_max_candidate_files :: "u64 option"
  se_max_pdf_text_extractions :: "u64 option"
  se_max_total_pdf_classification_pages :: "u64 option"
  se_pdf_classification_timeout_ms :: "u64 option"
  se_total_deadline_ms :: "u64 option"
  se_worker_max_requests :: "u64 option"
  se_worker_idle_ttl_ms :: "u64 option"
  se_worker_rss_limit_bytes :: "u64 option"

definition validate_timeouts :: "(rstring \<times> u64) list \<Rightarrow> check" where
  "validate_timeouts timeouts = validate_all
     (require (length timeouts \<le> 256) (lit ''file_timeout_by_extension has too many entries'')
      # concat (map (\<lambda>(extension, timeout).
          [require_extension extension (lit ''file_timeout_by_extension key''),
           require_range timeout 1 3600 (lit ''file_timeout_by_extension value'')]) timeouts))"

definition validate_scanner_settings :: "scanner_settings \<Rightarrow> check" where
  "validate_scanner_settings r = validate_all
     [check_some (se_excerpt_priority_paths r) validate_excerpt_priority_paths,
      check_some (se_csv_encodings r) validate_csv_encodings,
      check_some (se_allowed_extensions r) (\<lambda>v. validate_extensions v (lit ''allowed_extensions'') False),
      check_some (se_ignored_patterns r) (\<lambda>v. validate_strings v (lit ''ignored_patterns'') False),
      check_some (se_excluded_dirs r) (\<lambda>v. validate_strings v (lit ''excluded_dirs'') False),
      check_some (se_cloud_files_policy r) (\<lambda>v. require_const v (lit ''local_only'') (lit ''cloud_files_policy'')),
      check_some (se_max_workers r) (\<lambda>v. require_range v 1 64 (lit ''max_workers'')),
      check_some (se_max_file_size_mb r) (\<lambda>v. require_range v 1 4096 (lit ''max_file_size_mb'')),
      check_some (se_discovery_timeout_seconds r) (\<lambda>v. require_range v 1 3600 (lit ''discovery_timeout_seconds'')),
      check_some (se_file_timeout_seconds r) (\<lambda>v. require_range v 1 3600 (lit ''file_timeout_seconds'')),
      check_some (se_file_timeout_by_extension r) validate_timeouts,
      check_some (se_total_max_chars r) (\<lambda>v. require_range v 1 10000000 (lit ''total_max_chars'')),
      check_some (se_direct_text_max_bytes r) (\<lambda>v. require_range v 1 67108864 (lit ''direct_text_max_bytes'')),
      check_some (se_direct_text_read_bytes r) (\<lambda>v. require_range v 1 67108864 (lit ''direct_text_read_bytes'')),
      check_some (se_log_tail_read_bytes r) (\<lambda>v. require_range v 1 67108864 (lit ''log_tail_read_bytes'')),
      check_some (se_text_excerpt_max_chars r) (\<lambda>v. require_range v 1 10000000 (lit ''text_excerpt_max_chars'')),
      check_some (se_text_max_chars r) (\<lambda>v. require_range v 1 10000000 (lit ''text_max_chars'')),
      check_some (se_document_excerpt_max_chars r) (\<lambda>v. require_range v 1 10000000 (lit ''document_excerpt_max_chars'')),
      check_some (se_summary_text_max_chars r) (\<lambda>v. require_range v 1 10000000 (lit ''summary_text_max_chars'')),
      check_some (se_summary_document_excerpt_max_chars r) (\<lambda>v. require_range v 1 10000000 (lit ''summary_document_excerpt_max_chars'')),
      check_some (se_pdf_max_pages r) (\<lambda>v. require_range v 1 10000 (lit ''pdf_max_pages'')),
      check_some (se_summary_pdf_max_pages r) (\<lambda>v. require_range v 1 10000 (lit ''summary_pdf_max_pages'')),
      check_some (se_excel_max_sheets r) (\<lambda>v. require_range v 1 1024 (lit ''excel_max_sheets'')),
      check_some (se_summary_excel_max_sheets r) (\<lambda>v. require_range v 1 1024 (lit ''summary_excel_max_sheets'')),
      check_some (se_excel_max_rows r) (\<lambda>v. require_range v 1 1048576 (lit ''excel_max_rows'')),
      check_some (se_docx_table_max_rows r) (\<lambda>v. require_range v 1 1048576 (lit ''docx_table_max_rows'')),
      check_some (se_summary_excel_max_rows r) (\<lambda>v. require_range v 1 1048576 (lit ''summary_excel_max_rows'')),
      check_some (se_summary_docx_table_max_rows r) (\<lambda>v. require_range v 1 1048576 (lit ''summary_docx_table_max_rows'')),
      check_some (se_excel_max_columns r) (\<lambda>v. require_range v 1 16384 (lit ''excel_max_columns'')),
      check_some (se_docx_table_max_cols r) (\<lambda>v. require_range v 1 16384 (lit ''docx_table_max_cols'')),
      check_some (se_summary_excel_max_columns r) (\<lambda>v. require_range v 1 16384 (lit ''summary_excel_max_columns'')),
      check_some (se_summary_docx_table_max_cols r) (\<lambda>v. require_range v 1 16384 (lit ''summary_docx_table_max_cols'')),
      check_some (se_docx_max_paragraphs r) (\<lambda>v. require_range v 1 1000000 (lit ''docx_max_paragraphs'')),
      check_some (se_summary_docx_max_paragraphs r) (\<lambda>v. require_range v 1 1000000 (lit ''summary_docx_max_paragraphs'')),
      check_some (se_docx_max_tables r) (\<lambda>v. require_range v 1 100000 (lit ''docx_max_tables'')),
      check_some (se_pptx_max_slides r) (\<lambda>v. require_range v 1 100000 (lit ''pptx_max_slides'')),
      check_some (se_summary_docx_max_tables r) (\<lambda>v. require_range v 1 100000 (lit ''summary_docx_max_tables'')),
      check_some (se_summary_pptx_max_slides r) (\<lambda>v. require_range v 1 100000 (lit ''summary_pptx_max_slides'')),
      check_some (se_max_candidate_files r) (\<lambda>v. require_range v 1 1000000 (lit ''max_candidate_files'')),
      check_some (se_max_pdf_text_extractions r) (\<lambda>v. require_range v 0 100000 (lit ''max_pdf_text_extractions'')),
      check_some (se_max_total_pdf_classification_pages r) (\<lambda>v. require_range v 0 10000000 (lit ''max_total_pdf_classification_pages'')),
      check_some (se_pdf_classification_timeout_ms r) (\<lambda>v. require_range v 100 60000 (lit ''pdf_classification_timeout_ms'')),
      check_some (se_total_deadline_ms r) (\<lambda>v. require_range v 5000 3600000 (lit ''total_deadline_ms'')),
      check_some (se_worker_max_requests r) (\<lambda>v. require_range v 1 10000 (lit ''worker_max_requests'')),
      check_some (se_worker_idle_ttl_ms r) (\<lambda>v. require_range v 1000 600000 (lit ''worker_idle_ttl_ms'')),
      check_some (se_worker_rss_limit_bytes r) (\<lambda>v. require_range v 67108864 8589934592 (lit ''worker_rss_limit_bytes''))]"

section \<open>Normalisation\<close>

definition DEFAULT_ALLOWED_EXTENSIONS :: "rstring list" where
  "DEFAULT_ALLOWED_EXTENSIONS =
     [lit ''.xlsx'', lit ''.xls'', lit ''.pptx'', lit ''.pdf'', lit ''.txt'', lit ''.md'', lit ''.docx'', lit ''.csv'',
      lit ''.json'', lit ''.log'']"

definition DEFAULT_IGNORED_PATTERNS :: "rstring list" where
  "DEFAULT_IGNORED_PATTERNS = [lit ''~$*'', lit ''*.tmp'']"

definition MIB :: u64 where "MIB = 1024 * 1024"

definition default_timeouts :: "(rstring \<times> u64) list" where
  "default_timeouts = [(lit ''.pdf'', 45), (lit ''.xls'', 60), (lit ''.xlsx'', 60)]"

definition canonical_strings :: "rstring list option \<Rightarrow> rstring list \<Rightarrow> rstring \<Rightarrow> (rstring list, rstring) result" where
  "canonical_strings configured defaults field =
     and_then (collect_results (\<lambda>value. let trimmed = trim value in
         if trimmed = [] then Err (field @ lit '' contains an empty value'') else Ok trimmed)
       (unwrap_or configured defaults)) (\<lambda>canonical.
     Ok (remdups_adj (sort canonical)))"

definition seconds_to_millis :: "u64 \<Rightarrow> rstring \<Rightarrow> (u64, rstring) result" where
  "seconds_to_millis seconds field = ok_or (field @ lit '' overflows milliseconds'') (checked_mul seconds 1000)"

fun insert_timeouts :: "(rstring \<times> u64) list \<Rightarrow> (rstring \<times> u64) list \<Rightarrow> ((rstring \<times> u64) list, rstring) result" where
  "insert_timeouts [] normalized = Ok normalized"
| "insert_timeouts ((extension, seconds) # source) normalized =
     (let key = trim extension
      in and_then (seconds_to_millis seconds (lit ''file_timeout_by_extension value'')) (\<lambda>milliseconds.
         and_then (require (key \<notin> fst ` set normalized) (lit ''file_timeout_by_extension contains duplicate canonical keys'')) (\<lambda>_.
         insert_timeouts source (insort_key fst (key, milliseconds) normalized))))"

definition normalize_timeout_map :: "(rstring \<times> u64) list option \<Rightarrow> ((rstring \<times> u64) list, rstring) result" where
  "normalize_timeout_map configured = insert_timeouts (unwrap_or configured default_timeouts) []"

definition normalized_paths :: "rstring list option \<Rightarrow> rstring list" where
  "normalized_paths configured =
     remdups_adj (sort (map (map (\<lambda>c. if c = backslash then slash else c)) (unwrap_or configured [])))"

text \<open>The limits of a mode: the ones of a summary for a weekly or monthly report.\<close>

definition text_limit :: "bool \<Rightarrow> scanner_settings \<Rightarrow> u64" where
  "text_limit summary_mode raw =
     (if summary_mode then unwrap_or (se_summary_text_max_chars raw) 2000 else unwrap_or (se_text_max_chars raw) 6000)"

definition document_limit :: "bool \<Rightarrow> scanner_settings \<Rightarrow> u64" where
  "document_limit summary_mode raw =
     (if summary_mode then unwrap_or (se_summary_document_excerpt_max_chars raw) (text_limit summary_mode raw)
      else unwrap_or (se_document_excerpt_max_chars raw) (text_limit summary_mode raw))"

definition office_profile_of :: "bool \<Rightarrow> scanner_settings \<Rightarrow> office_parse_profile" where
  "office_profile_of summary_mode raw =
     \<lparr>op_primary_backend = lit ''rust_office_oxide_v2'',
      op_legacy_extensions_enabled = unwrap_or (se_legacy_office_enabled raw) False,
      op_excel_max_sheets = (if summary_mode then unwrap_or (se_summary_excel_max_sheets raw) 2 else unwrap_or (se_excel_max_sheets raw) 5),
      op_excel_max_rows = (if summary_mode then unwrap_or (se_summary_excel_max_rows raw) 10 else unwrap_or (se_excel_max_rows raw) 50),
      op_excel_max_columns = (if summary_mode then unwrap_or (se_summary_excel_max_columns raw) 12 else unwrap_or (se_excel_max_columns raw) 20),
      op_docx_max_paragraphs = (if summary_mode then unwrap_or (se_summary_docx_max_paragraphs raw) 80 else unwrap_or (se_docx_max_paragraphs raw) 200),
      op_docx_max_tables = (if summary_mode then unwrap_or (se_summary_docx_max_tables raw) 8 else unwrap_or (se_docx_max_tables raw) 20),
      op_docx_table_max_rows = (if summary_mode then unwrap_or (se_summary_docx_table_max_rows raw) 20 else unwrap_or (se_docx_table_max_rows raw) 50),
      op_docx_table_max_cols = (if summary_mode then unwrap_or (se_summary_docx_table_max_cols raw) 8 else unwrap_or (se_docx_table_max_cols raw) 12),
      op_pptx_max_slides = (if summary_mode then unwrap_or (se_summary_pptx_max_slides raw) 15 else unwrap_or (se_pptx_max_slides raw) 50),
      op_pptx_include_notes = unwrap_or (se_pptx_include_notes raw) True,
      op_document_excerpt_max_chars = document_limit summary_mode raw\<rparr>"

definition text_profile_of :: "bool \<Rightarrow> scanner_settings \<Rightarrow> text_parse_profile" where
  "text_profile_of summary_mode raw =
     \<lparr>tp_csv_encodings = unwrap_or (se_csv_encodings raw) default_csv_encodings, tp_backend = lit ''light_text_v2'',
      tp_read_head_bytes = unwrap_or (se_direct_text_read_bytes raw) (unwrap_or (se_direct_text_max_bytes raw) 262144),
      tp_read_tail_bytes = unwrap_or (se_log_tail_read_bytes raw) 262144, tp_max_chars = text_limit summary_mode raw,
      tp_excerpt_max_chars = unwrap_or (se_text_excerpt_max_chars raw) (text_limit summary_mode raw)\<rparr>"

definition pdf_profile_of :: "bool \<Rightarrow> scanner_settings \<Rightarrow> pdf_parse_profile" where
  "pdf_profile_of summary_mode raw =
     \<lparr>pp_selection_policy_version = CLASSIFIER_POLICY_VERSION, pp_backend = lit ''rust_pdfium_v3'',
      pp_max_pages = (if summary_mode then unwrap_or (se_summary_pdf_max_pages raw) 2 else unwrap_or (se_pdf_max_pages raw) 5),
      pp_excerpt_max_chars = document_limit summary_mode raw\<rparr>"

definition context_profile_of :: "report_mode \<Rightarrow> context_profile" where
  "context_profile_of mode =
     (case mode_context mode of (profile_name, global_max_chars, per_file_max_chars) \<Rightarrow>
        \<lparr>cp_profile_name = profile_name, cp_global_max_chars = global_max_chars, cp_per_file_max_chars = per_file_max_chars,
         cp_small_file_max_bytes = 65536, cp_medium_file_max_bytes = 1048576, cp_large_file_max_bytes = 10485760,
         cp_priority_policy_version = PRIORITY_POLICY_VERSION, cp_compression_policy_version = COMPRESSION_POLICY_VERSION\<rparr>)"

text \<open>Which settings result, once the values that can fail are there.\<close>

definition settings_of ::
  "scanner_settings \<Rightarrow> report_mode \<Rightarrow> discovery_profile \<Rightarrow> execution_profile \<Rightarrow> normalized_settings" where
  "settings_of raw mode discovery execution =
     (let summary_mode = (mode \<noteq> Daily);
          (candidates, pages, extractions, deadline) = quota_defaults mode
      in \<lparr>ns_report_mode = mode, ns_discovery = discovery, ns_execution = execution,
          ns_parse = \<lparr>pr_cache_payload_version = 1, pr_excerpt_policy_version = lit ''fair_semantic_v9'',
            pr_excerpt_priority_paths = normalized_paths (se_excerpt_priority_paths raw),
            pr_aggregate_max_chars = unwrap_or (se_total_max_chars raw) 500000,
            pr_text = text_profile_of summary_mode raw, pr_office = office_profile_of summary_mode raw,
            pr_pdf = pdf_profile_of summary_mode raw\<rparr>,
          ns_context = context_profile_of mode,
          ns_admission_policy_version = ADMISSION_POLICY_VERSION, ns_classifier_policy_version = CLASSIFIER_POLICY_VERSION,
          ns_max_candidate_files = unwrap_or (se_max_candidate_files raw) candidates,
          ns_max_pdf_text_extractions = unwrap_or (se_max_pdf_text_extractions raw) extractions,
          ns_max_total_pdf_classification_pages = unwrap_or (se_max_total_pdf_classification_pages raw) pages,
          ns_pdf_classification_timeout_ms = unwrap_or (se_pdf_classification_timeout_ms raw) 2000,
          ns_total_deadline_ms = unwrap_or (se_total_deadline_ms raw) deadline,
          ns_worker_max_requests = unwrap_or (se_worker_max_requests raw) 128,
          ns_worker_idle_ttl_ms = unwrap_or (se_worker_idle_ttl_ms raw) 30000,
          ns_worker_rss_limit_bytes = unwrap_or (se_worker_rss_limit_bytes raw) (512 * 1024 * 1024)\<rparr>)"

definition normalize_scanner_settings :: "scanner_settings \<Rightarrow> report_mode \<Rightarrow> (normalized_settings, rstring) result" where
  "normalize_scanner_settings raw mode =
     and_then (validate_scanner_settings raw) (\<lambda>_.
     and_then (ok_or (lit ''max_file_size_mb overflows bytes'') (checked_mul (unwrap_or (se_max_file_size_mb raw) 50) MIB)) (\<lambda>max_file_size_bytes.
     and_then (canonical_strings (se_allowed_extensions raw) DEFAULT_ALLOWED_EXTENSIONS (lit ''allowed_extensions'')) (\<lambda>extensions.
     and_then (canonical_strings (se_ignored_patterns raw) DEFAULT_IGNORED_PATTERNS (lit ''ignored_patterns'')) (\<lambda>patterns.
     and_then (canonical_strings (se_excluded_dirs raw) [] (lit ''excluded_dirs'')) (\<lambda>dirs.
     and_then (seconds_to_millis (unwrap_or (se_discovery_timeout_seconds raw) 30) (lit ''discovery_timeout_seconds'')) (\<lambda>discovery_ms.
     and_then (seconds_to_millis (unwrap_or (se_file_timeout_seconds raw) 30) (lit ''file_timeout_seconds'')) (\<lambda>file_ms.
     and_then (normalize_timeout_map (se_file_timeout_by_extension raw)) (\<lambda>timeouts.
     let settings = settings_of raw mode
       \<lparr>dp_allowed_extensions = extensions, dp_ignored_patterns = patterns, dp_excluded_dirs = dirs,
        dp_follow_symlinks = unwrap_or (se_follow_symlinks raw) False,
        dp_cloud_files_policy = unwrap_or (se_cloud_files_policy raw) (lit ''local_only'')\<rparr>
       \<lparr>ep_max_workers = unwrap_or (se_max_workers raw) 4, ep_max_file_size_bytes = max_file_size_bytes,
        ep_discovery_timeout_ms = discovery_ms, ep_file_timeout_ms = file_ms, ep_file_timeout_by_extension_ms = timeouts\<rparr>
     in and_then (validate_normalized_settings settings) (\<lambda>_. Ok settings)))))))))"

section \<open>Canonical lists\<close>

lemma successively_remdups_adj: "sorted xs \<Longrightarrow> successively (<) (remdups_adj xs)"
  by (induction xs rule: remdups_adj.induct) (auto simp: successively_Cons order.strict_iff_order hd_remdups_adj)

lemma length_trim_le: "length (trim s) \<le> length s"
proof -
  have "length (trim s) \<le> length (dropWhile is_whitespace s)" by (simp add: trim_def trim_by_def length_trim_end_by)
  then show ?thesis using length_dropWhile_le [of is_whitespace s] by linarith
qed

lemma collect_trimmed:
  "collect_results (\<lambda>value. let trimmed = trim value in if trimmed = [] then Err e else Ok trimmed) xs = Ok ys
     \<longleftrightarrow> list_all (\<lambda>v. trim v \<noteq> []) xs \<and> ys = map trim xs"
  by (induction xs arbitrary: ys) (auto simp: Let_def split: if_splits)

lemma canonical_strings_Ok:
  "canonical_strings configured defaults field = Ok out
     \<longleftrightarrow> list_all (\<lambda>v. trim v \<noteq> []) (unwrap_or configured defaults)
         \<and> out = remdups_adj (sort (map trim (unwrap_or configured defaults)))"
  by (auto simp: canonical_strings_def collect_trimmed)

lemma canonical_length: "length (remdups_adj (sort (map f xs))) \<le> length xs"
  using remdups_adj_length [of "sort (map f xs)"] by simp

lemma canonical_set: "set (remdups_adj (sort (map f xs))) = f ` set xs"
  by simp

lemma canonical_sorted: "successively (<) (remdups_adj (sort (xs :: rstring list)))"
  by (simp add: successively_remdups_adj)

section \<open>Timeouts\<close>

lemma set_insort_pair: "set (insort_key f x xs) = insert x (set xs)"
  by (rule set_insort_key)

lemma insert_timeouts_Ok:
  "insert_timeouts source normalized = Ok out \<Longrightarrow>
     set out = set normalized \<union> (\<lambda>(k, v). (trim k, v * 1000)) ` set source
     \<and> length out = length normalized + length source
     \<and> distinct (map (trim \<circ> fst) source) \<and> fst ` set normalized \<inter> (trim \<circ> fst) ` set source = {}"
proof (induction source arbitrary: normalized)
  case (Cons x source)
  obtain k v where x: "x = (k, v)" by (cases x)
  from Cons.prems x have new: "trim k \<notin> fst ` set normalized"
    and rest: "insert_timeouts source (insort_key fst (trim k, v * 1000) normalized) = Ok out"
    by (auto simp: Let_def seconds_to_millis_def checked_mul_def ok_or_def split: if_splits)
  from Cons.IH [OF rest] new x show ?case by (auto simp: set_insort_pair)
qed simp

lemma insert_timeouts_returns:
  assumes "\<forall>(k, v)\<in>set source. v \<le> 3600" and "distinct (map (trim \<circ> fst) source)"
    and "fst ` set normalized \<inter> (trim \<circ> fst) ` set source = {}"
  shows "\<exists>out. insert_timeouts source normalized = Ok out"
  using assms
proof (induction source arbitrary: normalized)
  case (Cons x source)
  obtain k v where x: "x = (k, v)" by (cases x)
  have millis: "seconds_to_millis v f = Ok (v * 1000)" for f
    using Cons.prems(1) x by (simp add: seconds_to_millis_def checked_mul_def u64_max_def ok_or_def)
  have new: "trim k \<notin> fst ` set normalized" using Cons.prems(3) x by auto
  have "\<exists>out. insert_timeouts source (insort_key fst (trim k, v * 1000) normalized) = Ok out"
  proof (rule Cons.IH)
    show "\<forall>(k, v)\<in>set source. v \<le> 3600" using Cons.prems(1) by simp
    show "distinct (map (trim \<circ> fst) source)" using Cons.prems(2) by (simp add: comp_def)
    show "fst ` set (insort_key fst (trim k, v * 1000) normalized) \<inter> (trim \<circ> fst) ` set source = {}"
      using Cons.prems(2,3) x by (auto simp: set_insort_pair)
  qed
  with new x millis show ?case by (simp add: Let_def require_def)
qed simp

section \<open>Paths\<close>

definition slashed :: "rstring \<Rightarrow> rstring" where
  "slashed s = map (\<lambda>c. if c = backslash then slash else c) s"

lemma split_slashed: "split_on path_separator (slashed s) = split_on path_separator s"
  by (induction s) (auto simp: slashed_def path_separator_def split: list.splits)

lemma slashed_safe:
  assumes "is_safe_relative_path s"
  shows "is_safe_relative_path (slashed s)"
proof -
  have len: "length (slashed s) = length s" by (simp add: slashed_def)
  have s: "s \<noteq> []" "\<not> prefix [slash] s" "\<not> prefix [backslash] s"
    using assms by (auto simp: is_safe_relative_path_def Let_def)
  then have rooted: "\<not> prefix [slash] (slashed s)" "\<not> prefix [backslash] (slashed s)"
    by (cases s; auto simp: slashed_def)+
  have drive: "\<not> (2 \<le> length (slashed s) \<and> is_ascii_alphabetic (slashed s ! 0) \<and> slashed s ! 1 = 58)"
    using assms s by (auto simp: is_safe_relative_path_def Let_def slashed_def is_ascii_alphabetic_def
        is_ascii_upper_def is_ascii_lower_def split: if_splits)
  from assms len rooted drive s show ?thesis
    by (simp add: is_safe_relative_path_def Let_def split_slashed) (simp add: slashed_def)
qed

lemma normalized_paths_valid:
  assumes "check_some paths validate_excerpt_priority_paths = Ok ()"
  shows "validate_excerpt_priority_paths (normalized_paths paths) = Ok ()"
    and "successively (<) (normalized_paths paths)"
proof -
  have eq: "normalized_paths paths = remdups_adj (sort (map slashed (unwrap_or paths [])))"
    by (simp add: normalized_paths_def slashed_def [abs_def])
  have "length (unwrap_or paths []) \<le> 4096" and "\<forall>p\<in>set (unwrap_or paths []). is_safe_relative_path p"
    using assms by (cases paths; auto simp: validate_excerpt_priority_paths_def)+
  then show "validate_excerpt_priority_paths (normalized_paths paths) = Ok ()"
    using canonical_length [of slashed "unwrap_or paths []"] slashed_safe
    by (auto simp: validate_excerpt_priority_paths_def eq)
  show "successively (<) (normalized_paths paths)" unfolding eq by (rule canonical_sorted)
qed

section \<open>The profiles that result\<close>

lemma unwrap_or_in_range:
  "\<forall>x. v = Some x \<longrightarrow> lo \<le> x \<and> x \<le> hi \<Longrightarrow> lo \<le> d \<Longrightarrow> d \<le> hi \<Longrightarrow> lo \<le> unwrap_or v d \<and> unwrap_or v d \<le> hi"
  by (cases v) auto

lemma mode_in_range:
  "\<forall>x. v = Some x \<longrightarrow> lo \<le> x \<and> x \<le> hi \<Longrightarrow> \<forall>x. w = Some x \<longrightarrow> lo \<le> x \<and> x \<le> hi \<Longrightarrow>
     lo \<le> d \<Longrightarrow> d \<le> hi \<Longrightarrow> lo \<le> e \<Longrightarrow> e \<le> hi \<Longrightarrow>
     lo \<le> (if m then unwrap_or v d else unwrap_or w e) \<and> (if m then unwrap_or v d else unwrap_or w e) \<le> hi"
  using unwrap_or_in_range [of v lo hi d] unwrap_or_in_range [of w lo hi e] by (cases m) simp_all

lemma parse_profile_accepted:
  assumes "validate_scanner_settings raw = Ok ()"
  shows "validate_text_parse_profile (text_profile_of m raw) = Ok ()"
    and "validate_office_parse_profile (office_profile_of m raw) = Ok ()"
    and "validate_pdf_parse_profile (pdf_profile_of m raw) = Ok ()"
proof -
  note f = assms [unfolded validate_scanner_settings_def, simplified]
  have csv: "validate_csv_encodings (unwrap_or (se_csv_encodings raw) default_csv_encodings) = Ok ()"
    using f by (cases "se_csv_encodings raw") (simp_all add: validate_csv_encodings_def default_csv_encodings_def)
  have limit: "1 \<le> text_limit m raw \<and> text_limit m raw \<le> 10000000" for m
    unfolding text_limit_def by (cases m; simp; rule unwrap_or_in_range; use f in simp)
  have document: "1 \<le> document_limit m raw \<and> document_limit m raw \<le> 10000000"
  proof (cases m)
    case True
    then show ?thesis unfolding document_limit_def using f limit [of m] by (simp, intro unwrap_or_in_range) simp_all
  next
    case False
    then show ?thesis unfolding document_limit_def using f limit [of m] by (simp, intro unwrap_or_in_range) simp_all
  qed
  have direct: "1 \<le> unwrap_or (se_direct_text_max_bytes raw) 262144 \<and> unwrap_or (se_direct_text_max_bytes raw) 262144 \<le> 67108864"
    by (rule unwrap_or_in_range; use f in simp)
  have head: "1 \<le> unwrap_or (se_direct_text_read_bytes raw) (unwrap_or (se_direct_text_max_bytes raw) 262144)
      \<and> unwrap_or (se_direct_text_read_bytes raw) (unwrap_or (se_direct_text_max_bytes raw) 262144) \<le> 67108864"
    using direct by (intro unwrap_or_in_range) (use f in simp_all)
  have tail: "1 \<le> unwrap_or (se_log_tail_read_bytes raw) 262144 \<and> unwrap_or (se_log_tail_read_bytes raw) 262144 \<le> 67108864"
    by (rule unwrap_or_in_range; use f in simp)
  have excerpt: "1 \<le> unwrap_or (se_text_excerpt_max_chars raw) (text_limit m raw)
      \<and> unwrap_or (se_text_excerpt_max_chars raw) (text_limit m raw) \<le> 10000000"
    using limit [of m] by (intro unwrap_or_in_range) (use f in simp_all)
  show "validate_text_parse_profile (text_profile_of m raw) = Ok ()"
    using csv limit [of m] head tail excerpt by (simp add: validate_text_parse_profile_def text_profile_of_def)
  have office: "1 \<le> op_excel_max_sheets (office_profile_of m raw) \<and> op_excel_max_sheets (office_profile_of m raw) \<le> 1024"
    "1 \<le> op_excel_max_rows (office_profile_of m raw) \<and> op_excel_max_rows (office_profile_of m raw) \<le> 1048576"
    "1 \<le> op_excel_max_columns (office_profile_of m raw) \<and> op_excel_max_columns (office_profile_of m raw) \<le> 16384"
    "1 \<le> op_docx_max_paragraphs (office_profile_of m raw) \<and> op_docx_max_paragraphs (office_profile_of m raw) \<le> 1000000"
    "1 \<le> op_docx_max_tables (office_profile_of m raw) \<and> op_docx_max_tables (office_profile_of m raw) \<le> 100000"
    "1 \<le> op_docx_table_max_rows (office_profile_of m raw) \<and> op_docx_table_max_rows (office_profile_of m raw) \<le> 1048576"
    "1 \<le> op_docx_table_max_cols (office_profile_of m raw) \<and> op_docx_table_max_cols (office_profile_of m raw) \<le> 16384"
    "1 \<le> op_pptx_max_slides (office_profile_of m raw) \<and> op_pptx_max_slides (office_profile_of m raw) \<le> 100000"
    unfolding office_profile_of_def office_parse_profile.select_convs by (rule mode_in_range; use f in simp)+
  have rest: "op_primary_backend (office_profile_of m raw) = lit ''rust_office_oxide_v2''"
    "op_document_excerpt_max_chars (office_profile_of m raw) = document_limit m raw"
    by (simp_all add: office_profile_of_def)
  show "validate_office_parse_profile (office_profile_of m raw) = Ok ()"
    using office document by (simp add: validate_office_parse_profile_def rest)
  have "1 \<le> pp_max_pages (pdf_profile_of m raw) \<and> pp_max_pages (pdf_profile_of m raw) \<le> 10000"
    unfolding pdf_profile_of_def pdf_parse_profile.select_convs by (rule mode_in_range; use f in simp)
  then show "validate_pdf_parse_profile (pdf_profile_of m raw) = Ok ()"
    using document by (simp add: validate_pdf_parse_profile_def pdf_profile_of_def pdf_policies_def CLASSIFIER_POLICY_VERSION_def)
qed

lemma quotas_accepted:
  assumes "validate_scanner_settings raw = Ok ()"
  shows "validate_normalized_settings (settings_of raw mode discovery execution) = Ok () \<longleftrightarrow>
     validate_discovery_profile discovery = Ok () \<and> validate_execution_profile execution = Ok ()"
proof -
  note f = assms [unfolded validate_scanner_settings_def, simplified]
  let ?s = "settings_of raw mode discovery execution"
  have nine: "lit ''fair_semantic_v9'' \<in> excerpt_policies" by (simp add: excerpt_policies_def upt_rec dec.simps lit_def)
  have aggregate: "1 \<le> unwrap_or (se_total_max_chars raw) 500000 \<and> unwrap_or (se_total_max_chars raw) 500000 \<le> 10000000"
    by (rule unwrap_or_in_range; use f in simp)
  have parse: "validate_parse_profile (ns_parse ?s) = Ok ()"
    using parse_profile_accepted [OF assms] normalized_paths_valid [of "se_excerpt_priority_paths raw"] f nine aggregate
    by (simp add: settings_of_def Let_def validate_parse_profile_def split: prod.splits)
  have context_ok: "validate_context_profile (ns_context ?s) = Ok ()"
    by (cases mode) (simp_all add: settings_of_def Let_def context_profile_of_def validate_context_profile_def split: prod.splits)
  have mode_ok: "(cp_profile_name (ns_context ?s), cp_global_max_chars (ns_context ?s), cp_per_file_max_chars (ns_context ?s))
      = mode_context (ns_report_mode ?s)"
    by (cases mode) (simp_all add: settings_of_def Let_def context_profile_of_def split: prod.splits)
  have defaults: "quota_defaults mode = (c, p, x, d) \<Longrightarrow> 1 \<le> c \<and> c \<le> 1000000 \<and> p \<le> 10000000 \<and> x \<le> 100000 \<and> 5000 \<le> d \<and> d \<le> 3600000" for c p x d
    by (cases mode) auto
  obtain c p x d where q: "quota_defaults mode = (c, p, x, d)" by (metis prod_cases4)
  note d = defaults [OF q]
  have quotas: "1 \<le> ns_max_candidate_files ?s \<and> ns_max_candidate_files ?s \<le> 1000000"
    "0 \<le> ns_max_pdf_text_extractions ?s \<and> ns_max_pdf_text_extractions ?s \<le> 100000"
    "0 \<le> ns_max_total_pdf_classification_pages ?s \<and> ns_max_total_pdf_classification_pages ?s \<le> 10000000"
    "100 \<le> ns_pdf_classification_timeout_ms ?s \<and> ns_pdf_classification_timeout_ms ?s \<le> 60000"
    "5000 \<le> ns_total_deadline_ms ?s \<and> ns_total_deadline_ms ?s \<le> 3600000"
    "1 \<le> ns_worker_max_requests ?s \<and> ns_worker_max_requests ?s \<le> 10000"
    "1000 \<le> ns_worker_idle_ttl_ms ?s \<and> ns_worker_idle_ttl_ms ?s \<le> 600000"
    "67108864 \<le> ns_worker_rss_limit_bytes ?s \<and> ns_worker_rss_limit_bytes ?s \<le> 8589934592"
    unfolding settings_of_def Let_def q prod.case normalized_settings.select_convs
    by (rule unwrap_or_in_range; use f d in simp)+
  show ?thesis
    using parse context_ok mode_ok quotas
    by (simp add: validate_normalized_settings_def)
      (simp add: settings_of_def Let_def ADMISSION_POLICY_VERSION_def CLASSIFIER_POLICY_VERSION_def pdf_policies_def split: prod.splits)
qed

section \<open>Which settings are accepted\<close>

lemma discovery_accepted:
  assumes "validate_scanner_settings raw = Ok ()"
  shows "validate_discovery_profile
       \<lparr>dp_allowed_extensions = remdups_adj (sort (map trim (unwrap_or (se_allowed_extensions raw) DEFAULT_ALLOWED_EXTENSIONS))),
        dp_ignored_patterns = remdups_adj (sort (map trim (unwrap_or (se_ignored_patterns raw) DEFAULT_IGNORED_PATTERNS))),
        dp_excluded_dirs = remdups_adj (sort (map trim (unwrap_or (se_excluded_dirs raw) []))),
        dp_follow_symlinks = follow, dp_cloud_files_policy = unwrap_or (se_cloud_files_policy raw) (lit ''local_only'')\<rparr> = Ok ()
     \<longleftrightarrow> list_all (\<lambda>v. is_extension (trim v)) (unwrap_or (se_allowed_extensions raw) DEFAULT_ALLOWED_EXTENSIONS)
         \<and> list_all (\<lambda>v. trim v \<noteq> []) (unwrap_or (se_ignored_patterns raw) DEFAULT_IGNORED_PATTERNS)
         \<and> list_all (\<lambda>v. trim v \<noteq> []) (unwrap_or (se_excluded_dirs raw) [])"
proof -
  note f = assms [unfolded validate_scanner_settings_def, simplified]
  let ?e = "unwrap_or (se_allowed_extensions raw) DEFAULT_ALLOWED_EXTENSIONS"
  let ?p = "unwrap_or (se_ignored_patterns raw) DEFAULT_IGNORED_PATTERNS" and ?d = "unwrap_or (se_excluded_dirs raw) []"
  have e: "length ?e \<le> 256" using f by (cases "se_allowed_extensions raw") (simp_all add: validate_extensions_def DEFAULT_ALLOWED_EXTENSIONS_def)
  have p: "length ?p \<le> 256" "\<forall>v\<in>set ?p. length v \<le> 1024"
    using f by (cases "se_ignored_patterns raw"; auto simp: validate_strings_def DEFAULT_IGNORED_PATTERNS_def)+
  have d: "length ?d \<le> 256" "\<forall>v\<in>set ?d. length v \<le> 1024"
    using f by (cases "se_excluded_dirs raw"; auto simp: validate_strings_def)+
  have cloud: "unwrap_or (se_cloud_files_policy raw) (lit ''local_only'') = lit ''local_only''"
    using f by (cases "se_cloud_files_policy raw") simp_all
  have short: "length (trim v) \<le> 1024" if "length v \<le> 1024" for v using that length_trim_le [of v] by linarith
  have strings: "validate_strings (remdups_adj (sort (map trim vs))) field True = Ok () \<longleftrightarrow> list_all (\<lambda>v. trim v \<noteq> []) vs"
    if "length vs \<le> 256" "\<forall>v\<in>set vs. length v \<le> 1024" for vs field
    using that canonical_length [of trim vs] canonical_sorted [of "map trim vs"] short
    by (auto simp: validate_strings_def list_all_iff Suc_le_eq)
  have extensions: "validate_extensions (remdups_adj (sort (map trim ?e))) field True = Ok () \<longleftrightarrow> list_all (\<lambda>v. is_extension (trim v)) ?e" for field
    using e canonical_length [of trim ?e] canonical_sorted [of "map trim ?e"] by (auto simp: validate_extensions_def list_all_iff)
  show ?thesis by (simp add: validate_discovery_profile_def cloud extensions strings [OF p] strings [OF d])
qed

lemma timeouts_valid:
  assumes "validate_scanner_settings raw = Ok ()"
  shows "length (unwrap_or (se_file_timeout_by_extension raw) default_timeouts) \<le> 256"
    and "\<forall>(k, v)\<in>set (unwrap_or (se_file_timeout_by_extension raw) default_timeouts). 1 \<le> v \<and> v \<le> 3600"
proof -
  have "\<forall>t. se_file_timeout_by_extension raw = Some t \<longrightarrow> validate_timeouts t = Ok ()"
    using assms [unfolded validate_scanner_settings_def, simplified] by simp
  then show "length (unwrap_or (se_file_timeout_by_extension raw) default_timeouts) \<le> 256"
    and "\<forall>(k, v)\<in>set (unwrap_or (se_file_timeout_by_extension raw) default_timeouts). 1 \<le> v \<and> v \<le> 3600"
    by (cases "se_file_timeout_by_extension raw"; auto simp: validate_timeouts_def default_timeouts_def)+
qed

lemma timeout_entries:
  fixes source :: "(rstring \<times> u64) list"
  assumes "set timeouts = (\<lambda>(k, v). (trim k, v * 1000)) ` set source" and "\<forall>(k, v)\<in>set source. 1 \<le> v \<and> v \<le> 3600"
  shows "(\<forall>x\<in>set timeouts. is_extension (fst x) \<and> 1000 \<le> snd x \<and> snd x \<le> 3600000)
     \<longleftrightarrow> list_all (\<lambda>(k, v). is_extension (trim k)) source"
proof -
  have each: "(is_extension (trim k) \<and> 1000 \<le> v * 1000 \<and> v * 1000 \<le> 3600000) \<longleftrightarrow> is_extension (trim k)"
    if "(k, v) \<in> set source" for k v
  proof -
    have "1 \<le> v \<and> v \<le> 3600" using assms(2) that by auto
    then show ?thesis by simp
  qed
  have "(\<forall>x\<in>set timeouts. is_extension (fst x) \<and> 1000 \<le> snd x \<and> snd x \<le> 3600000)
      \<longleftrightarrow> (\<forall>(k, v)\<in>set source. is_extension (trim k) \<and> 1000 \<le> v * 1000 \<and> v * 1000 \<le> 3600000)"
    unfolding assms(1) ball_simps(9) by (rule ball_cong [OF refl]) (simp add: case_prod_unfold)
  also have "\<dots> \<longleftrightarrow> list_all (\<lambda>(k, v). is_extension (trim k)) source"
    unfolding list_all_iff by (rule ball_cong [OF refl]) (use each in \<open>simp add: case_prod_unfold\<close>)
  finally show ?thesis .
qed

lemma execution_accepted:
  assumes "validate_scanner_settings raw = Ok ()"
    and "insert_timeouts (unwrap_or (se_file_timeout_by_extension raw) default_timeouts) [] = Ok timeouts"
  shows "validate_execution_profile
       \<lparr>ep_max_workers = unwrap_or (se_max_workers raw) 4, ep_max_file_size_bytes = unwrap_or (se_max_file_size_mb raw) 50 * MIB,
        ep_discovery_timeout_ms = unwrap_or (se_discovery_timeout_seconds raw) 30 * 1000,
        ep_file_timeout_ms = unwrap_or (se_file_timeout_seconds raw) 30 * 1000, ep_file_timeout_by_extension_ms = timeouts\<rparr> = Ok ()
     \<longleftrightarrow> list_all (\<lambda>(k, v). is_extension (trim k)) (unwrap_or (se_file_timeout_by_extension raw) default_timeouts)"
proof -
  note f = assms(1) [unfolded validate_scanner_settings_def, simplified]
  let ?t = "unwrap_or (se_file_timeout_by_extension raw) default_timeouts"
  have t: "length ?t \<le> 256" "\<forall>(k, v)\<in>set ?t. 1 \<le> v \<and> v \<le> 3600"
    using timeouts_valid [OF assms(1)] .
  note out = insert_timeouts_Ok [OF assms(2)]
  have workers: "1 \<le> unwrap_or (se_max_workers raw) 4 \<and> unwrap_or (se_max_workers raw) 4 \<le> 64"
    and mb: "1 \<le> unwrap_or (se_max_file_size_mb raw) 50 \<and> unwrap_or (se_max_file_size_mb raw) 50 \<le> 4096"
    and discovery: "1 \<le> unwrap_or (se_discovery_timeout_seconds raw) 30 \<and> unwrap_or (se_discovery_timeout_seconds raw) 30 \<le> 3600"
    and each_file: "1 \<le> unwrap_or (se_file_timeout_seconds raw) 30 \<and> unwrap_or (se_file_timeout_seconds raw) 30 \<le> 3600"
    by (rule unwrap_or_in_range; use f in simp)+
  have entries: "(\<forall>x\<in>set timeouts. is_extension (fst x) \<and> 1000 \<le> snd x \<and> snd x \<le> 3600000) \<longleftrightarrow> list_all (\<lambda>(k, v). is_extension (trim k)) ?t"
    using timeout_entries [OF out [THEN conjunct1, simplified] t(2)] .
  have "length timeouts \<le> 256" using out t(1) by simp
  then have "validate_execution_profile
       \<lparr>ep_max_workers = unwrap_or (se_max_workers raw) 4, ep_max_file_size_bytes = unwrap_or (se_max_file_size_mb raw) 50 * MIB,
        ep_discovery_timeout_ms = unwrap_or (se_discovery_timeout_seconds raw) 30 * 1000,
        ep_file_timeout_ms = unwrap_or (se_file_timeout_seconds raw) 30 * 1000, ep_file_timeout_by_extension_ms = timeouts\<rparr> = Ok ()
     \<longleftrightarrow> (\<forall>x\<in>set timeouts. is_extension (fst x) \<and> 1000 \<le> snd x \<and> snd x \<le> 3600000)"
    using workers mb discovery each_file
    by (simp add: validate_execution_profile_def MIB_def case_prod_unfold)
  with entries show ?thesis by simp
qed

text \<open>C14. Which settings are accepted, exactly. Every combination of values within the ranges of the public
  contract is accepted in every report mode, whatever is left out: the defaults, the multiplication into bytes
  and milliseconds and the checks of the normalised settings refuse nothing more, except lists with an entry that is blank,
  an extension that is none once trimmed, or two timeouts whose extensions are the same once trimmed.\<close>

theorem settings_accepted_exactly:
  "is_ok (normalize_scanner_settings raw mode) \<longleftrightarrow>
     is_ok (validate_scanner_settings raw)
     \<and> list_all (\<lambda>v. is_extension (trim v)) (unwrap_or (se_allowed_extensions raw) DEFAULT_ALLOWED_EXTENSIONS)
     \<and> list_all (\<lambda>v. trim v \<noteq> []) (unwrap_or (se_ignored_patterns raw) DEFAULT_IGNORED_PATTERNS)
     \<and> list_all (\<lambda>v. trim v \<noteq> []) (unwrap_or (se_excluded_dirs raw) [])
     \<and> list_all (\<lambda>(k, v). is_extension (trim k)) (unwrap_or (se_file_timeout_by_extension raw) default_timeouts)
     \<and> distinct (map (trim \<circ> fst) (unwrap_or (se_file_timeout_by_extension raw) default_timeouts))"
proof (cases "validate_scanner_settings raw")
  case (Err e)
  then show ?thesis by (simp add: normalize_scanner_settings_def)
next
  case (Ok u)
  then have valid: "validate_scanner_settings raw = Ok ()" by simp
  note f = valid [unfolded validate_scanner_settings_def, simplified]
  let ?e = "unwrap_or (se_allowed_extensions raw) DEFAULT_ALLOWED_EXTENSIONS"
  let ?p = "unwrap_or (se_ignored_patterns raw) DEFAULT_IGNORED_PATTERNS" and ?d = "unwrap_or (se_excluded_dirs raw) []"
  let ?t = "unwrap_or (se_file_timeout_by_extension raw) default_timeouts"
  have mb: "unwrap_or (se_max_file_size_mb raw) 50 \<le> 4096"
    and seconds: "unwrap_or (se_discovery_timeout_seconds raw) 30 \<le> 3600" "unwrap_or (se_file_timeout_seconds raw) 30 \<le> 3600"
    by (rule conjunct2 [OF unwrap_or_in_range [where lo = 1]]; use f in simp)+
  have bytes: "checked_mul (unwrap_or (se_max_file_size_mb raw) 50) MIB = Some (unwrap_or (se_max_file_size_mb raw) 50 * MIB)"
    using mb by (simp add: checked_mul_def MIB_def u64_max_def)
  have millis: "seconds_to_millis v w = Ok (v * 1000)" if "v \<le> 3600" for v w
    using that by (simp add: seconds_to_millis_def checked_mul_def u64_max_def ok_or_def)
  have t: "\<forall>(k, v)\<in>set ?t. v \<le> 3600"
    using timeouts_valid(2) [OF valid] by auto
  have nonempty: "list_all (\<lambda>v. is_extension (trim v)) ?e \<Longrightarrow> list_all (\<lambda>v. trim v \<noteq> []) ?e"
    by (auto simp: list_all_iff is_extension_def)
  have timeouts: "(\<exists>out. insert_timeouts ?t [] = Ok out) \<longleftrightarrow> distinct (map (trim \<circ> fst) ?t)"
    using insert_timeouts_Ok [of ?t "[]"] insert_timeouts_returns [OF t, of "[]"] by auto
  have ok_iff: "is_ok r \<longleftrightarrow> (\<exists>x. r = Ok x)" for r :: "('x, 'y) result" by (cases r) simp_all
  show ?thesis
  proof (cases "list_all (\<lambda>v. trim v \<noteq> []) ?e \<and> list_all (\<lambda>v. trim v \<noteq> []) ?p \<and> list_all (\<lambda>v. trim v \<noteq> []) ?d
      \<and> distinct (map (trim \<circ> fst) ?t)")
    case True
    with timeouts obtain out where out: "insert_timeouts ?t [] = Ok out" by blast
    let ?disc = "\<lparr>dp_allowed_extensions = remdups_adj (sort (map trim ?e)), dp_ignored_patterns = remdups_adj (sort (map trim ?p)),
        dp_excluded_dirs = remdups_adj (sort (map trim ?d)), dp_follow_symlinks = unwrap_or (se_follow_symlinks raw) False,
        dp_cloud_files_policy = unwrap_or (se_cloud_files_policy raw) (lit ''local_only'')\<rparr>"
    let ?exec = "\<lparr>ep_max_workers = unwrap_or (se_max_workers raw) 4, ep_max_file_size_bytes = unwrap_or (se_max_file_size_mb raw) 50 * MIB,
        ep_discovery_timeout_ms = unwrap_or (se_discovery_timeout_seconds raw) 30 * 1000,
        ep_file_timeout_ms = unwrap_or (se_file_timeout_seconds raw) 30 * 1000, ep_file_timeout_by_extension_ms = out\<rparr>"
    have strings: "canonical_strings (se_allowed_extensions raw) DEFAULT_ALLOWED_EXTENSIONS w = Ok (remdups_adj (sort (map trim ?e)))"
      "canonical_strings (se_ignored_patterns raw) DEFAULT_IGNORED_PATTERNS w = Ok (remdups_adj (sort (map trim ?p)))"
      "canonical_strings (se_excluded_dirs raw) [] w = Ok (remdups_adj (sort (map trim ?d)))" for w
      using True by (simp_all add: canonical_strings_Ok)
    have run: "normalize_scanner_settings raw mode
        = and_then (validate_normalized_settings (settings_of raw mode ?disc ?exec)) (\<lambda>_. Ok (settings_of raw mode ?disc ?exec))"
      unfolding normalize_scanner_settings_def valid bytes strings millis [OF seconds(1)] millis [OF seconds(2)]
        normalize_timeout_map_def out ok_or_def option.case and_then.simps Let_def ..
    have "is_ok (normalize_scanner_settings raw mode) \<longleftrightarrow> validate_discovery_profile ?disc = Ok () \<and> validate_execution_profile ?exec = Ok ()"
      unfolding run using quotas_accepted [OF valid, of mode ?disc ?exec] by (simp add: ok_iff)
    then show ?thesis
      using discovery_accepted [OF valid, of "unwrap_or (se_follow_symlinks raw) False"] execution_accepted [OF valid out] True valid
      by (simp add: ok_iff)
  next
    case False
    have "normalize_scanner_settings raw mode \<noteq> Ok s" for s
    proof
      assume "normalize_scanner_settings raw mode = Ok s"
      then have "list_all (\<lambda>v. trim v \<noteq> []) ?e" "list_all (\<lambda>v. trim v \<noteq> []) ?p" "list_all (\<lambda>v. trim v \<noteq> []) ?d"
        and "\<exists>out. insert_timeouts ?t [] = Ok out"
        by (auto simp: normalize_scanner_settings_def canonical_strings_Ok normalize_timeout_map_def Let_def)
      with False timeouts show False by blast
    qed
    then have "\<not> is_ok (normalize_scanner_settings raw mode)" by (simp add: ok_iff)
    with False nonempty show ?thesis by blast
  qed
qed

end
