(* ===== verification/Worker_Contract.thy ===== *)
theory Worker_Contract
  imports Scheduler_Classify Store_Artifacts
begin

text \<open>
  \<open>src/rust/worker_contract/src/lib.rs\<close>: the frames that the scanner and its worker processes exchange
  (hello, request, response), the payloads of a parse, the backends with their routes, and the
  validators of each. The results of a classification are in \<open>Scheduler_Ports\<close> and their
  validators in \<open>Scheduler_Classify\<close>. A JSON value inside a frame is the type \<open>json\<close> of
  \<open>Content_Audit\<close>; its text is never looked at here.
\<close>

section \<open>Identities and operations\<close>

definition WORKER_CONTRACT :: rstring where "WORKER_CONTRACT = lit ''ai_daily_worker''"

definition PROTOCOL_VERSION :: u64 where "PROTOCOL_VERSION = 4"

datatype worker_kind = OfficeWorker | PdfWorker

datatype worker_operation =
    OfficeParse | PdfClassify | PdfParse | ArchiveOfficeParse | ArchivePdfParse | ArchiveTextParse

text \<open>The discriminant (\<open>operation as u8\<close>), by which the hello frame sorts its operations.\<close>

fun operation_code :: "worker_operation \<Rightarrow> nat" where
  "operation_code OfficeParse = 0"
| "operation_code PdfClassify = 1"
| "operation_code PdfParse = 2"
| "operation_code ArchiveOfficeParse = 3"
| "operation_code ArchivePdfParse = 4"
| "operation_code ArchiveTextParse = 5"

lemma operation_code_eq [simp]: "operation_code a = operation_code b \<longleftrightarrow> a = b"
  by (cases a; cases b) auto

instantiation worker_operation :: linorder
begin

definition less_eq_worker_operation :: "worker_operation \<Rightarrow> worker_operation \<Rightarrow> bool" where
  "less_eq_worker_operation a b \<longleftrightarrow> operation_code a \<le> operation_code b"

definition less_worker_operation :: "worker_operation \<Rightarrow> worker_operation \<Rightarrow> bool" where
  "less_worker_operation a b \<longleftrightarrow> operation_code a < operation_code b"

instance
  by standard (auto simp: less_eq_worker_operation_def less_worker_operation_def)

end

record worker_hello =
  hl_contract :: rstring
  hl_protocol_version :: u64
  hl_frame :: rstring
  hl_worker_contract_version :: rstring
  hl_worker_kind :: worker_kind
  hl_worker_version :: rstring
  hl_worker_build :: rstring
  hl_supported_operations :: "worker_operation list"

record worker_request =
  wq_contract :: rstring
  wq_protocol_version :: u64
  wq_request_id :: rstring
  wq_operation :: worker_operation
  wq_payload :: json

datatype worker_response_status = ResponseOk | ResponseError

record worker_response =
  wr_contract :: rstring
  wr_protocol_version :: u64
  wr_request_id :: rstring
  wr_operation :: worker_operation
  wr_status :: worker_response_status
  wr_result :: "json option"
  wr_error :: "worker_diagnostic option"

section \<open>Backends and limits\<close>

datatype parser_backend =
    RustOfficeOxideV2 | RustXlsxBoundedV2 | RustXlsCalamineV3 | RustPdfiumV3 | RustLegacyOfficeV3

datatype worker_lane = RustOfficeProcessV3 | RustPdfProcessV3

fun backend_as_str :: "parser_backend \<Rightarrow> rstring" where
  "backend_as_str RustOfficeOxideV2 = lit ''rust_office_oxide_v2''"
| "backend_as_str RustXlsxBoundedV2 = lit ''rust_xlsx_bounded_v2''"
| "backend_as_str RustXlsCalamineV3 = lit ''rust_xls_calamine_v3''"
| "backend_as_str RustPdfiumV3 = lit ''rust_pdfium_v3''"
| "backend_as_str RustLegacyOfficeV3 = lit ''rust_legacy_office_v3''"

fun backend_supports :: "parser_backend \<Rightarrow> rstring \<Rightarrow> bool" where
  "backend_supports RustOfficeOxideV2 extension = (extension \<in> {lit ''.docx'', lit ''.pptx''})"
| "backend_supports RustXlsxBoundedV2 extension = (extension = lit ''.xlsx'')"
| "backend_supports RustXlsCalamineV3 extension = (extension = lit ''.xls'')"
| "backend_supports RustPdfiumV3 extension = (extension = lit ''.pdf'')"
| "backend_supports RustLegacyOfficeV3 extension = (extension \<in> {lit ''.doc'', lit ''.ppt''})"

definition backend_lane :: "parser_backend \<Rightarrow> worker_lane" where
  "backend_lane b = (case b of RustPdfiumV3 \<Rightarrow> RustPdfProcessV3 | _ \<Rightarrow> RustOfficeProcessV3)"

definition limit_kind :: "parser_backend \<Rightarrow> rstring" where
  "limit_kind b = (case b of RustPdfiumV3 \<Rightarrow> lit ''pdf'' | _ \<Rightarrow> lit ''office'')"

record office_limits =
  ol_legacy_office_enabled :: bool
  ol_excel_max_sheets :: u64
  ol_excel_max_rows :: u64
  ol_excel_max_columns :: u64
  ol_docx_max_paragraphs :: u64
  ol_docx_max_tables :: u64
  ol_docx_table_max_rows :: u64
  ol_docx_table_max_cols :: u64
  ol_pptx_max_slides :: u64
  ol_pptx_include_notes :: bool
  ol_document_excerpt_max_chars :: u64

record pdf_limits =
  pi_max_pages :: u64
  pi_excerpt_max_chars :: u64
  pi_selected_pages :: "u64 list option"

datatype parser_limits = OfficeLimits office_limits | PdfLimits pdf_limits

definition limits_kind :: "parser_limits \<Rightarrow> rstring" where
  "limits_kind l = (case l of OfficeLimits _ \<Rightarrow> lit ''office'' | PdfLimits _ \<Rightarrow> lit ''pdf'')"

section \<open>Field checks\<close>

definition validate_common :: "rstring \<Rightarrow> u64 \<Rightarrow> check" where
  "validate_common contract protocol_version = validate_all
     [require (contract = WORKER_CONTRACT) (lit ''worker contract mismatch''),
      require (protocol_version = PROTOCOL_VERSION) (lit ''worker protocol version mismatch'')]"

definition validate_request_id :: "rstring \<Rightarrow> check" where
  "validate_request_id value =
     require (length value = 36 \<and> list_all (\<lambda>i. value ! i = 45) [8, 13, 18, 23]
         \<and> list_all (\<lambda>i. i \<in> {8, 13, 18, 23} \<or> is_ascii_hexdigit (value ! i)) [0..<length value])
       (lit ''request_id must be a canonical UUID'')"

definition validate_range :: "u64 \<Rightarrow> u64 \<Rightarrow> u64 \<Rightarrow> rstring \<Rightarrow> check" where
  "validate_range value lo hi field =
     require (lo \<le> value \<and> value \<le> hi) (field @ lit '' is outside the allowed range'')"

text \<open>The second byte is a colon only when the first character is an ASCII one.\<close>

definition validate_absolute_path :: "rstring \<Rightarrow> rstring \<Rightarrow> check" where
  "validate_absolute_path value field =
     require (utf8_len value \<le> 32767
         \<and> (prefix [backslash, backslash] value \<or> 2 \<le> length value \<and> value ! 0 < 128 \<and> value ! 1 = 58))
       (field @ lit '' must be an absolute Windows path'')"

definition validate_extension :: "rstring \<Rightarrow> rstring \<Rightarrow> check" where
  "validate_extension value field =
     require (2 \<le> length value \<and> length value \<le> 32 \<and> prefix [46] value \<and> value = map ascii_to_lower value
         \<and> list_all (\<lambda>c. is_ascii_alphabetic c \<or> is_ascii_digit c) (drop 1 value))
       (field @ lit '' is not a normalized extension'')"

definition validate_source_version :: "rstring \<Rightarrow> check" where
  "validate_source_version value =
     (case Option.bind (strip_prefix_opt (lit ''mtime_ns='') value) (split_once (lit '':size='')) of
        None \<Rightarrow> Err (lit ''expected_source_version is invalid'')
      | Some (modified, size_text) \<Rightarrow>
          require (modified \<noteq> [] \<and> size_text \<noteq> [] \<and> list_all is_ascii_digit modified
                   \<and> list_all is_ascii_digit size_text)
            (lit ''expected_source_version is invalid''))"

section \<open>Frames\<close>

definition validate_hello :: "worker_hello \<Rightarrow> check" where
  "validate_hello h = validate_all
     [validate_common (hl_contract h) (hl_protocol_version h),
      require (hl_frame h = lit ''hello'') (lit ''worker hello frame must be hello''),
      require (hl_worker_contract_version h = WORKER_CONTRACT_VERSION) (lit ''worker contract version mismatch''),
      require (hl_worker_version h \<noteq> [] \<and> utf8_len (hl_worker_version h) \<le> 1024) (lit ''worker version is invalid''),
      require (hl_worker_build h \<noteq> [] \<and> utf8_len (hl_worker_build h) \<le> 1024) (lit ''worker build identity is invalid''),
      require (hl_supported_operations h \<noteq> []) (lit ''worker must support at least one operation''),
      require (length (remdups_adj (sort (hl_supported_operations h))) = length (hl_supported_operations h))
        (lit ''worker operations must be unique'')]"

definition validate_request :: "worker_request \<Rightarrow> check" where
  "validate_request q = validate_all
     [validate_common (wq_contract q) (wq_protocol_version q), validate_request_id (wq_request_id q)]"

definition validate_response :: "worker_response \<Rightarrow> check" where
  "validate_response r = validate_all
     [validate_common (wr_contract r) (wr_protocol_version r), validate_request_id (wr_request_id r),
      (case wr_status r of
         ResponseOk \<Rightarrow> require (wr_result r \<noteq> None \<and> wr_error r = None)
           (lit ''worker response status/result/error mismatch'')
       | ResponseError \<Rightarrow> require (wr_result r = None \<and> wr_error r \<noteq> None)
           (lit ''worker response status/result/error mismatch''))]"

text \<open>Sorting and removing neighbours that are equal keeps the length exactly of lists without duplicates.\<close>

lemma distinct_remdups_adj_sorted: "sorted xs \<Longrightarrow> distinct (remdups_adj xs)"
  by (induction xs rule: remdups_adj.induct) (auto simp: order.strict_iff_order)

lemma remdups_adj_sort_length: "length (remdups_adj (sort xs)) = length xs \<longleftrightarrow> distinct xs"
proof
  assume "distinct xs"
  then show "length (remdups_adj (sort xs)) = length xs"
    by (simp add: remdups_adj_distinct)
next
  assume a: "length (remdups_adj (sort xs)) = length xs"
  have "length (remdups_adj (sort xs)) = card (set xs)"
    by (metis distinct_card distinct_remdups_adj_sorted remdups_adj_set set_sort sorted_sort)
  then show "distinct xs" using a by (metis card_distinct)
qed

section \<open>Parses\<close>

record worker_parse_request =
  oq_file_path :: rstring
  oq_file_type :: rstring
  oq_backend :: parser_backend
  oq_remaining_timeout_ms :: u64
  oq_max_file_size_bytes :: u64
  oq_parser_limits :: parser_limits
  oq_expected_source_version :: rstring

definition validate_limits :: "parser_limits \<Rightarrow> check" where
  "validate_limits l =
     (case l of
        OfficeLimits o' \<Rightarrow> validate_all
          [validate_range (ol_excel_max_sheets o') 1 1024 (lit ''excel_max_sheets''),
           validate_range (ol_excel_max_rows o') 1 1048576 (lit ''excel_max_rows''),
           validate_range (ol_excel_max_columns o') 1 16384 (lit ''excel_max_columns''),
           validate_range (ol_docx_max_paragraphs o') 1 1000000 (lit ''docx_max_paragraphs''),
           validate_range (ol_docx_max_tables o') 1 100000 (lit ''docx_max_tables''),
           validate_range (ol_docx_table_max_rows o') 1 1048576 (lit ''docx_table_max_rows''),
           validate_range (ol_docx_table_max_cols o') 1 16384 (lit ''docx_table_max_cols''),
           validate_range (ol_pptx_max_slides o') 1 100000 (lit ''pptx_max_slides''),
           validate_range (ol_document_excerpt_max_chars o') 1 10000000 (lit ''document_excerpt_max_chars'')]
      | PdfLimits p \<Rightarrow> validate_all
          [validate_range (pi_max_pages p) 1 10000 (lit ''max_pages''),
           require (\<not> is_some_and (pi_selected_pages p) (\<lambda>pages.
               pages = [] \<or> pi_max_pages p < length pages \<or> 0 \<in> set pages \<or> card (set pages) \<noteq> length pages))
             (lit ''invalid PDF selected pages''),
           validate_range (pi_excerpt_max_chars p) 1 10000000 (lit ''excerpt_max_chars'')])"

definition validate_parse_request :: "worker_parse_request \<Rightarrow> check" where
  "validate_parse_request q = validate_all
     [validate_absolute_path (oq_file_path q) (lit ''file_path''),
      validate_extension (oq_file_type q) (lit ''file_type''),
      validate_range (oq_remaining_timeout_ms q) 1 3600000 (lit ''remaining_timeout_ms''),
      validate_range (oq_max_file_size_bytes q) 1 4294967296 (lit ''max_file_size_bytes''),
      validate_limits (oq_parser_limits q),
      validate_source_version (oq_expected_source_version q),
      require (backend_supports (oq_backend q) (oq_file_type q)
          \<and> limit_kind (oq_backend q) = limits_kind (oq_parser_limits q))
        (lit ''parse request route is inconsistent'')]"

record worker_parse_result =
  pw_file_path :: rstring
  pw_file_type :: rstring
  pw_content :: rstring
  pw_evidence_audit :: "parsed_content_audit option"
  pw_parser_backend :: parser_backend
  pw_worker_lane :: worker_lane
  pw_truncated :: bool
  pw_duration_ms :: u64
  pw_observed_source_version :: rstring

definition detected_format :: "worker_parse_result \<Rightarrow> rstring option" where
  "detected_format r = Option.bind (pw_evidence_audit r) pa_detected_format"

definition validate_parse_result :: "(parsed_content_audit \<Rightarrow> nat) \<Rightarrow> worker_parse_result \<Rightarrow> check" where
  "validate_parse_result enc r = validate_all
     [check_some (pw_evidence_audit r) (\<lambda>a. validate_content_audit enc a (pw_content r)),
      validate_absolute_path (pw_file_path r) (lit ''file_path''),
      validate_extension (pw_file_type r) (lit ''file_type''),
      validate_source_version (pw_observed_source_version r),
      require (backend_supports (pw_parser_backend r)
            (case detected_format r of None \<Rightarrow> pw_file_type r | Some f \<Rightarrow> [46] @ f)
          \<and> backend_lane (pw_parser_backend r) = pw_worker_lane r)
        (lit ''parse result route is inconsistent'')]"

definition validate_classify_request :: "classify_request \<Rightarrow> check" where
  "validate_classify_request q = validate_all
     [validate_absolute_path (cq_file_path q) (lit ''file_path''),
      validate_source_version (cq_source_version q),
      validate_range (cq_max_pages q) 1 10000 (lit ''max_pages''),
      require (cq_policy_version q \<in> {lit ''pdf_text_presence_v1'', lit ''pdf_text_presence_v2''})
        (lit ''classifier policy version mismatch'')]"

text \<open>The route of an accepted request decides its backend up to the two that share office documents.\<close>

lemma backend_supports_unique:
  "backend_supports a extension \<Longrightarrow> backend_supports b extension \<Longrightarrow> a = b"
  by (cases a; cases b) auto

lemma accepted_request_kind:
  assumes "validate_parse_request q = Ok ()"
  shows "(\<exists>p. oq_parser_limits q = PdfLimits p) \<longleftrightarrow> oq_backend q = RustPdfiumV3"
  using assms by (auto simp: validate_parse_request_def limit_kind_def limits_kind_def
      split: parser_limits.splits parser_backend.splits)

lemma backend_as_str_eq [simp]: "backend_as_str a = backend_as_str b \<longleftrightarrow> a = b"
  by (cases a; cases b) simp_all

end
