(* ===== verification/Worker_Lines.thy ===== *)
theory Worker_Lines
  imports Worker_Contract
begin

text \<open>
  The lower half of \<open>src/rust/scanner_core/src/session.rs\<close>: the errors of a worker session, what they are in a
  report and which are retried (with the failure classes of \<open>fallback.rs\<close>), the lines the parent
  reads of a worker and the budget of its error stream.
\<close>

section \<open>Failures\<close>

datatype failure_class = Deterministic | EnvironmentUnavailable | ContractFailure | RecoverableParserFailure

fun failure_class_text :: "failure_class \<Rightarrow> rstring" where
  "failure_class_text Deterministic = lit ''deterministic''"
| "failure_class_text EnvironmentUnavailable = lit ''environment_unavailable''"
| "failure_class_text ContractFailure = lit ''contract_failure''"
| "failure_class_text RecoverableParserFailure = lit ''recoverable_parser_failure''"

record parse_failure =
  fl_class :: failure_class
  fl_diagnostic :: diagnostic

definition failure_is_timeout :: "parse_failure \<Rightarrow> bool" where
  "failure_is_timeout f \<longleftrightarrow> dg_error_code (fl_diagnostic f) = ParserTimeout"

datatype session_error =
    StartFailed | SessionTimeout | Crashed | SessionEof | ProtocolCorruption rstring | IoFailed
  | Rejected worker_diagnostic | BuildMismatch | FrameTooLarge

fun is_retryable_transport :: "session_error \<Rightarrow> bool" where
  "is_retryable_transport StartFailed = True"
| "is_retryable_transport Crashed = True"
| "is_retryable_transport SessionEof = True"
| "is_retryable_transport (Rejected diagnostic) = wd_retryable diagnostic"
| "is_retryable_transport _ = False"

definition rejected_code :: "rstring \<Rightarrow> error_code" where
  "rejected_code code =
     (if code = lit ''INVALID_REQUEST'' then InvalidRequest
      else if code = lit ''PARSER_START_FAILED'' then ParserStartFailed
      else if code = lit ''PARSER_TIMEOUT'' then ParserTimeout
      else if code = lit ''PARSER_INVALID_PAYLOAD'' then ParserInvalidPayload
      else if code = lit ''SOURCE_VERSION_CHANGED'' then SourceVersionChanged
      else if code = lit ''INTERNAL_ERROR'' then InternalError
      else ParserFailed)"

fun session_failure :: "session_error \<Rightarrow> error_code \<times> rstring \<times> bool" where
  "session_failure SessionTimeout = (ParserTimeout, lit ''worker session exceeded its deadline'', False)"
| "session_failure StartFailed = (ParserStartFailed, lit ''worker session could not be started'', True)"
| "session_failure Crashed = (ParserFailed, lit ''worker session crashed before completing its response'', True)"
| "session_failure SessionEof = (ParserFailed, lit ''worker session reached EOF before completing its response'', True)"
| "session_failure IoFailed = (ParserInvalidPayload, lit ''worker session transport failed'', False)"
| "session_failure (ProtocolCorruption message) = (ParserInvalidPayload, message, False)"
| "session_failure (Rejected d) = (rejected_code (wd_error_code d), wd_message d, wd_retryable d)"
| "session_failure BuildMismatch =
     (WorkerBuildChanged, lit ''session hello build does not match the preflight identity'', False)"
| "session_failure FrameTooLarge =
     (ParserInvalidPayload, lit ''worker session response exceeded its capture limit'', False)"

definition session_diagnostic :: "session_error \<Rightarrow> rstring option \<Rightarrow> parse_failure" where
  "session_diagnostic e path =
     (case session_failure e of (code, message, retryable) \<Rightarrow>
       \<lparr>fl_class = (if retryable then RecoverableParserFailure else ContractFailure),
        fl_diagnostic = \<lparr>dg_error_code = code, dg_message = message, dg_retryable = retryable,
           dg_stage = StageProcess, dg_file_path = path, dg_backend = None\<rparr>\<rparr>)"

datatype retry_action = RetrySession | GiveUp

text \<open>The match of the source, arm by arm; the last two arms agree.\<close>

definition retry_action :: "session_error \<Rightarrow> nat \<Rightarrow> retry_action" where
  "retry_action e session_attempt =
     (if e = SessionTimeout then GiveUp
      else if (case e of Rejected d \<Rightarrow> wd_error_code d = lit ''SOURCE_VERSION_CHANGED'' | _ \<Rightarrow> False) then GiveUp
      else if (case e of Rejected d \<Rightarrow> \<not> wd_retryable d | _ \<Rightarrow> False) then GiveUp
      else if session_attempt = 0 then RetrySession
      else if is_retryable_transport e then GiveUp
      else GiveUp)"

lemma retry_only_first: "retry_action e i = RetrySession \<Longrightarrow> i = 0"
  by (simp add: retry_action_def split: if_splits)

section \<open>Lines\<close>

text \<open>
  A pipe gives its bytes in pieces: what \<open>fill_buf\<close> returns next, with \<open>None\<close> for a failed read and an
  empty piece (or nothing left) for the end. A line that ends within a piece leaves the rest of it.
\<close>

type_synonym bytes = "nat list"
type_synonym pipe = "bytes option list"

definition SESSION_STDOUT_HARD_CAP :: nat where "SESSION_STDOUT_HARD_CAP = 64 * 1024 * 1024"
definition SESSION_HELLO_FRAME_LIMIT :: nat where "SESSION_HELLO_FRAME_LIMIT = 1024 * 1024"
definition SESSION_REQUEST_FRAME_LIMIT :: nat where "SESSION_REQUEST_FRAME_LIMIT = 1024 * 1024"
definition SESSION_CLASSIFY_FRAME_LIMIT :: nat where "SESSION_CLASSIFY_FRAME_LIMIT = 1024 * 1024"
definition SESSION_STDERR_LIMIT :: u64 where "SESSION_STDERR_LIMIT = 1024 * 1024"

definition line_take :: "bytes \<Rightarrow> nat" where
  "line_take available =
     (if 10 \<in> set available then length (takeWhile (\<lambda>b. b \<noteq> 10) available) + 1 else length available)"

definition end_of_pipe :: "bytes \<Rightarrow> bytes option" where
  "end_of_pipe buffer = (if buffer = [] then None else Some buffer)"

fun read_line_bounded :: "nat \<Rightarrow> bytes \<Rightarrow> pipe \<Rightarrow> (bytes option, session_error) result \<times> pipe" where
  "read_line_bounded cap buffer [] = (Ok (end_of_pipe buffer), [])"
| "read_line_bounded cap buffer (None # pipe) = (Err IoFailed, pipe)"
| "read_line_bounded cap buffer (Some available # pipe) =
     (if available = [] then (Ok (end_of_pipe buffer), Some available # pipe)
      else let n = line_take available in
        if cap < length buffer + n then (Err FrameTooLarge, Some available # pipe)
        else if 10 \<in> set available
        then (Ok (Some (buffer @ take n available)),
              (if drop n available = [] then pipe else Some (drop n available) # pipe))
        else read_line_bounded cap (buffer @ available) pipe)"

datatype line_event = Line bytes | LineEof | LineError session_error

fun pipe_size :: "pipe \<Rightarrow> nat" where
  "pipe_size [] = 0"
| "pipe_size (None # pipe) = Suc (pipe_size pipe)"
| "pipe_size (Some available # pipe) = Suc (length available + pipe_size pipe)"

lemma line_take_positive: "available \<noteq> [] \<Longrightarrow> 0 < line_take available"
  by (simp add: line_take_def)

lemma line_take_le: "line_take available \<le> length available"
proof (cases "10 \<in> set available")
  case True
  then have "takeWhile (\<lambda>b. b \<noteq> 10) available \<noteq> available" by (metis set_takeWhileD)
  then have "length (takeWhile (\<lambda>b. b \<noteq> 10) available) < length available"
    by (metis le_neq_implies_less length_takeWhile_le takeWhile_eq_take take_all_iff)
  then show ?thesis by (simp add: line_take_def True)
qed (simp add: line_take_def)

lemma read_line_size:
  "read_line_bounded cap buffer pipe = (r, rest) \<Longrightarrow> pipe_size rest \<le> pipe_size pipe"
proof (induction cap buffer pipe arbitrary: r rest rule: read_line_bounded.induct)
  case (3 cap buffer available pipe)
  show ?case
  proof (cases "available = [] \<or> cap < length buffer + line_take available \<or> 10 \<in> set available")
    case True
    then show ?thesis using 3(2) by (auto simp: Let_def split: if_splits)
  next
    case False
    then have "pipe_size rest \<le> pipe_size pipe" using 3 by (simp add: Let_def)
    then show ?thesis by simp
  qed
qed auto

lemma read_line_not_empty: "read_line_bounded cap buffer pipe = (Ok (Some line), rest) \<Longrightarrow> line \<noteq> []"
proof (induction cap buffer pipe rule: read_line_bounded.induct)
  case (3 cap buffer available pipe)
  show ?case
  proof (cases "available = [] \<or> cap < length buffer + line_take available \<or> 10 \<in> set available")
    case True
    then show ?thesis using 3(2) line_take_positive [of available]
      by (auto simp: Let_def end_of_pipe_def split: if_splits)
  next
    case False
    then show ?thesis using 3 by (simp add: Let_def)
  qed
qed (auto simp: end_of_pipe_def split: if_splits)

lemma read_line_shrinks:
  assumes "read_line_bounded cap [] pipe = (Ok (Some line), rest)"
  shows "pipe_size rest < pipe_size pipe"
proof (cases pipe)
  case (Cons piece pipe')
  then obtain available where a: "piece = Some available" using assms by (cases piece) auto
  show ?thesis
  proof (cases "available = [] \<or> cap < line_take available \<or> 10 \<in> set available")
    case True
    then show ?thesis using assms Cons a line_take_positive [of available]
      by (auto simp: Let_def end_of_pipe_def split: if_splits)
  next
    case False
    then have "read_line_bounded cap available pipe' = (Ok (Some line), rest)"
      using assms Cons a by (simp add: Let_def)
    then show ?thesis using read_line_size Cons a by fastforce
  qed
qed (use assms in \<open>simp add: end_of_pipe_def\<close>)

text \<open>The loop of the reader thread; its events go to the session over a channel, in order.\<close>

function read_stdout_lines :: "nat \<Rightarrow> pipe \<Rightarrow> line_event list" where
  "read_stdout_lines cap pipe =
     (case read_line_bounded cap [] pipe of
        (Ok (Some line), rest) \<Rightarrow> Line line # read_stdout_lines cap rest
      | (Ok None, rest) \<Rightarrow> [LineEof]
      | (Err e, rest) \<Rightarrow> [LineError e])"
  by pat_completeness auto
termination
  by (relation "measure (\<lambda>(cap, pipe). pipe_size pipe)") (auto dest: read_line_shrinks [OF sym])

declare read_stdout_lines.simps [simp del]

text \<open>The reference: the bytes up to the end, cut after every newline.\<close>

fun pipe_bytes :: "pipe \<Rightarrow> bytes" where
  "pipe_bytes [] = []"
| "pipe_bytes (None # pipe) = []"
| "pipe_bytes (Some available # pipe) = (if available = [] then [] else available @ pipe_bytes pipe)"

function frame_lines :: "bytes \<Rightarrow> bytes list" where
  "frame_lines bs = (if bs = [] then [] else take (line_take bs) bs # frame_lines (drop (line_take bs) bs))"
  by pat_completeness auto
termination
  by (relation "measure length") (auto simp: line_take_positive)

declare frame_lines.simps [simp del]

fun line_events :: "nat \<Rightarrow> bytes list \<Rightarrow> line_event list" where
  "line_events cap [] = [LineEof]"
| "line_events cap (line # rest) =
     (if cap < length line then [LineError FrameTooLarge] else Line line # line_events cap rest)"

lemma line_take_append: "10 \<notin> set a \<Longrightarrow> line_take (a @ b) = length a + line_take b"
proof -
  assume "10 \<notin> set a"
  then have "takeWhile (\<lambda>b. b \<noteq> 10) (a @ b) = a @ takeWhile (\<lambda>b. b \<noteq> 10) b"
    by (intro takeWhile_append2) auto
  with \<open>10 \<notin> set a\<close> show ?thesis by (auto simp: line_take_def)
qed

lemma line_take_append_newline: "10 \<in> set a \<Longrightarrow> line_take (a @ b) = line_take a"
  by (auto simp: line_take_def takeWhile_append1)

lemma read_line_reference:
  assumes "None \<notin> set pipe"
  shows "let bs = pipe_bytes pipe in
     if bs = [] then \<exists>rest. read_line_bounded cap buffer pipe = (Ok (end_of_pipe buffer), rest) \<and> pipe_bytes rest = [] \<and> None \<notin> set rest
     else if cap < length buffer + line_take bs then \<exists>rest. read_line_bounded cap buffer pipe = (Err FrameTooLarge, rest)
     else \<exists>rest. read_line_bounded cap buffer pipe = (Ok (Some (buffer @ take (line_take bs) bs)), rest)
       \<and> pipe_bytes rest = drop (line_take bs) bs \<and> None \<notin> set rest"
  using assms
proof (induction cap buffer pipe rule: read_line_bounded.induct)
  case (3 cap buffer available pipe)
  consider "available = []" | "available \<noteq> []" "10 \<in> set available"
    | "available \<noteq> []" "10 \<notin> set available" "cap < length buffer + length available"
    | "available \<noteq> []" "10 \<notin> set available" "\<not> cap < length buffer + length available"
    by blast
  then show ?case
  proof cases
    case 1
    then show ?thesis using "3.prems" by simp
  next
    case 2
    then show ?thesis using 3(2) line_take_append_newline [of available "pipe_bytes pipe"] line_take_le [of available]
      by (auto simp: Let_def)
  next
    case 3
    then have "line_take available = length available" by (simp add: line_take_def)
    with 3 show ?thesis by (simp add: Let_def line_take_append)
  next
    case 4
    have n: "line_take available = length available" using 4 by (simp add: line_take_def)
    have step: "read_line_bounded cap buffer (Some available # pipe) = read_line_bounded cap (buffer @ available) pipe"
      using 4 n by (simp add: Let_def)
    have le: "cap < length (buffer @ available) + line_take (pipe_bytes pipe)
        \<longleftrightarrow> cap < length buffer + line_take (available @ pipe_bytes pipe)"
      using 4 by (simp add: line_take_append add.assoc)
    have all: "pipe_bytes (Some available # pipe) = available @ pipe_bytes pipe" "available @ pipe_bytes pipe \<noteq> []"
      using 4(1) by simp_all
    have "line_take [] = 0" by (simp add: line_take_def)
    then show ?thesis using "3.IH" [OF 4(1) refl] "3.prems" 4 n
      unfolding Let_def all(1) step le using all(2)
      by (cases "pipe_bytes pipe = []") (auto simp: line_take_append end_of_pipe_def)
  qed
qed auto

lemma frame_lines_concat: "concat (frame_lines bs) = bs"
proof (induction bs rule: frame_lines.induct)
  case (1 bs)
  then show ?case by (subst frame_lines.simps) simp
qed

lemma takeWhile_newline_prefix: "10 \<notin> set (butlast (take (line_take bs) bs))"
proof (cases "10 \<in> set bs")
  case True
  let ?t = "takeWhile (\<lambda>b. b \<noteq> 10) bs"
  have "bs = ?t @ dropWhile (\<lambda>b. b \<noteq> 10) bs" by simp
  moreover have "take (line_take bs) bs = ?t @ [hd (dropWhile (\<lambda>b. b \<noteq> 10) bs)]"
  proof -
    have "dropWhile (\<lambda>b. b \<noteq> 10) bs \<noteq> []" using True by (auto simp: dropWhile_eq_Nil_conv)
    then obtain c cs where c: "dropWhile (\<lambda>b. b \<noteq> 10) bs = c # cs" by (cases "dropWhile (\<lambda>b. b \<noteq> 10) bs") auto
    then have "bs = ?t @ c # cs" by (metis takeWhile_dropWhile_id)
    then have "take (length ?t + 1) bs = ?t @ [c]"
      by (metis append_eq_conv_conj length_append_singleton Suc_eq_plus1 append.assoc append_Cons append_Nil)
    then show ?thesis using True c by (simp add: line_take_def)
  qed
  ultimately show ?thesis by (auto dest: set_takeWhileD)
next
  case False
  then show ?thesis by (meson in_set_butlastD in_set_takeD)
qed

lemma frame_lines_shape: "list_all (\<lambda>line. line \<noteq> [] \<and> 10 \<notin> set (butlast line)) (frame_lines bs)"
proof (induction bs rule: frame_lines.induct)
  case (1 bs)
  then show ?case
    by (subst frame_lines.simps) (auto simp: takeWhile_newline_prefix line_take_positive)
qed

text \<open>C38. What the parent reads of a worker does not depend on how the pipe cuts it into pieces: the events are those
  of the bytes cut after every newline, up to the first line over the cap, and the lines lose no byte.\<close>

theorem lines_do_not_depend_on_pieces:
  assumes "None \<notin> set pipe"
  shows "read_stdout_lines cap pipe = line_events cap (frame_lines (pipe_bytes pipe))
     \<and> concat (frame_lines (pipe_bytes pipe)) = pipe_bytes pipe
     \<and> list_all (\<lambda>line. line \<noteq> [] \<and> 10 \<notin> set (butlast line)) (frame_lines (pipe_bytes pipe))"
proof -
  have "read_stdout_lines cap pipe = line_events cap (frame_lines (pipe_bytes pipe))"
    using assms
  proof (induction cap pipe rule: read_stdout_lines.induct)
    case (1 cap pipe)
    let ?bs = "pipe_bytes pipe"
    consider "?bs = []" | "?bs \<noteq> []" "cap < line_take ?bs" | "?bs \<noteq> []" "\<not> cap < line_take ?bs" by blast
    then show ?case
    proof cases
      case 1
      then show ?thesis using read_line_reference [OF "1.prems", of cap "[]"]
        by (subst read_stdout_lines.simps) (auto simp: end_of_pipe_def frame_lines.simps)
    next
      case 2
      have "length (take (line_take ?bs) ?bs) = line_take ?bs" using line_take_le [of ?bs] by simp
      then show ?thesis using 2 read_line_reference [OF "1.prems", of cap "[]"]
        by (subst read_stdout_lines.simps) (auto simp: Let_def frame_lines.simps [of ?bs])
    next
      case 3
      then obtain rest where r: "read_line_bounded cap [] pipe = (Ok (Some (take (line_take ?bs) ?bs)), rest)"
        "pipe_bytes rest = drop (line_take ?bs) ?bs" "None \<notin> set rest"
        using read_line_reference [OF "1.prems", of cap "[]"] by (auto simp: Let_def)
      have "read_stdout_lines cap rest = line_events cap (frame_lines (pipe_bytes rest))"
        using "1.IH" [OF r(1) [symmetric] refl refl r(3)] .
      moreover have "length (take (line_take ?bs) ?bs) = line_take ?bs" using line_take_le [of ?bs] by simp
      ultimately show ?thesis using 3 r
        by (subst read_stdout_lines.simps) (simp add: frame_lines.simps [of ?bs])
    qed
  qed
  then show ?thesis by (simp add: frame_lines_concat frame_lines_shape)
qed

theorem lines_do_not_depend_on_pieces_witness:
  "read_stdout_lines 4 [Some [1], Some [2, 10, 3], Some [4]] = line_events 4 (frame_lines [1, 2, 10, 3, 4])"
  using lines_do_not_depend_on_pieces [of "[Some [1], Some [2, 10, 3], Some [4]]" 4] by simp

section \<open>The error stream\<close>

text \<open>The budget of one request. The counter wraps like the atomic of the source.\<close>

record stderr_budget =
  eb_bytes :: u64
  eb_overflowed :: bool

definition reset_stderr :: stderr_budget where
  "reset_stderr = \<lparr>eb_bytes = 0, eb_overflowed = False\<rparr>"

definition observe_stderr :: "u64 \<Rightarrow> stderr_budget \<Rightarrow> bool \<times> stderr_budget" where
  "observe_stderr n b =
     (let over = SESSION_STDERR_LIMIT < saturating_add (eb_bytes b) n in
      (over \<and> \<not> eb_overflowed b,
       \<lparr>eb_bytes = (eb_bytes b + n) mod (u64_max + 1), eb_overflowed = eb_overflowed b \<or> over\<rparr>))"

definition stderr_limit_error :: session_error where
  "stderr_limit_error = ProtocolCorruption (lit ''worker session stderr exceeded the per-request 1 MiB limit'')"

text \<open>The thread that drains the stream: what each read returned (\<open>None\<close> for a failed one) up to the end.\<close>

fun drain_stderr :: "u64 option list \<Rightarrow> stderr_budget \<Rightarrow> line_event list \<times> stderr_budget" where
  "drain_stderr [] b = ([], b)"
| "drain_stderr (None # reads) b = ([], b)"
| "drain_stderr (Some n # reads) b =
     (if n = 0 then ([], b)
      else let (signal, b') = observe_stderr n b; (events, b'') = drain_stderr reads b'
        in (if signal then LineError stderr_limit_error # events else events, b''))"

lemma drain_overflowed: "eb_overflowed b \<Longrightarrow> fst (drain_stderr reads b) = [] \<and> eb_overflowed (snd (drain_stderr reads b))"
  by (induction reads b rule: drain_stderr.induct) (auto simp: observe_stderr_def Let_def split: prod.splits)

text \<open>The session hears of an overflow once, and exactly when the request wrote more than the limit.\<close>

lemma drain_signals_once:
  assumes "0 \<notin> set counts" and "\<not> eb_overflowed b" and "eb_bytes b \<le> SESSION_STDERR_LIMIT"
  shows "fst (drain_stderr (map Some counts) b)
      = (if eb_bytes b + sum_list counts \<le> SESSION_STDERR_LIMIT then [] else [LineError stderr_limit_error])
     \<and> eb_overflowed (snd (drain_stderr (map Some counts) b)) = (SESSION_STDERR_LIMIT < eb_bytes b + sum_list counts)"
  using assms
proof (induction counts arbitrary: b)
  case (Cons n counts)
  have lim: "SESSION_STDERR_LIMIT < u64_max" by (simp add: SESSION_STDERR_LIMIT_def u64_max_def)
  obtain signal b' where o: "observe_stderr n b = (signal, b')" by fastforce
  show ?case
  proof (cases "eb_bytes b + n \<le> SESSION_STDERR_LIMIT")
    case True
    then have b': "signal = False" "\<not> eb_overflowed b'" "eb_bytes b' = eb_bytes b + n"
      using o Cons.prems lim by (auto simp: observe_stderr_def Let_def saturating_add_eq not_less)
    then show ?thesis using Cons.IH [of b'] Cons.prems True o by (auto simp: add.assoc split: prod.splits)
  next
    case False
    then have "signal" "eb_overflowed b'"
      using o Cons.prems lim saturating_add_le_iff [OF lim, of "eb_bytes b" n]
      by (auto simp: observe_stderr_def Let_def not_less)
    then show ?thesis using drain_overflowed [of b' "map Some counts"] Cons.prems False o
      by (auto split: prod.splits)
  qed
qed simp

end
