(* ===== verification/Worker_Session.thy ===== *)
theory Worker_Session
  imports Worker_Lines Scanner_Settings "HOL-Library.State_Monad"
begin

text \<open>
  The client half of \<open>src/rust/scanner_core/src/session.rs\<close>: a child process with its pipes, and the session
  that starts it, sends it one request at a time and checks the answer; the memory tracker of
  \<open>process.rs\<close>.

  The operating system is a record of ports on an abstract world (processes, pipes, the monotonic
  clock in nanoseconds, file metadata), the JSON codec a record of functions. A stateful function
  is a program of the state monad over the counters of the pool, the tracker and the world. The
  model is that of the Windows build, where each child has a job object; the job is closed
  with its child.
\<close>

section \<open>State\<close>

record worker_command =
  wm_program :: rstring
  wm_base_args :: "rstring list"
  wm_current_dir :: "rstring option"
  wm_expected_kind :: worker_kind
  wm_required_backends :: "rstring list"
  wm_required_extensions :: "rstring list"

record session_params =
  sp_concurrency :: nat
  sp_max_requests_per_session :: u64
  sp_idle_ttl_ns :: nat
  sp_rss_limit_bytes :: u64

definition session_params_default :: session_params where
  "session_params_default =
     \<lparr>sp_concurrency = 4, sp_max_requests_per_session = 128, sp_idle_ttl_ns = 30 * 10 ^ 9,
      sp_rss_limit_bytes = 512 * 1024 * 1024\<rparr>"

definition session_params_from_settings :: "normalized_settings \<Rightarrow> session_params" where
  "session_params_from_settings profile =
     \<lparr>sp_concurrency = min (max (min (ep_max_workers (ns_execution profile)) 4) 1) 8,
      sp_max_requests_per_session = ns_worker_max_requests profile,
      sp_idle_ttl_ns = ns_worker_idle_ttl_ms profile * 10 ^ 6,
      sp_rss_limit_bytes = ns_worker_rss_limit_bytes profile\<rparr>"

record session_child =
  sx_handle :: nat
  sx_last_activity :: nat

record worker_session =
  wn_child :: "session_child option"
  wn_params :: session_params
  wn_identity :: worker_hello
  wn_requests_served :: u64

record rss_tracker =
  tr_peak_bytes :: u64
  tr_observation_failed :: bool

record pool_counters =
  pn_session_restart_count :: u64
  pn_peak_worker_rss_bytes :: u64
  pn_rss_observation_attempted :: bool
  pn_rss_observation_failed :: bool

record 'w host =
  hs_counters :: pool_counters
  hs_tracker :: rss_tracker
  hs_world :: 'w

section \<open>Ports\<close>

datatype received = Received line_event | ReceiveTimeout | Disconnected

text \<open>
  \<open>wp_spawn\<close> starts a process with piped streams, \<open>wp_contain\<close> puts it into a job, \<open>wp_kill_wait\<close> kills it and
  waits for its end, \<open>wp_terminate\<close> ends the whole job; \<open>wp_receive\<close> waits on the channel of the reader
  threads up to a time in nanoseconds.
\<close>

record 'w worker_ports =
  wp_now :: "'w \<Rightarrow> nat \<times> 'w"
  wp_spawn :: "worker_command \<Rightarrow> 'w \<Rightarrow> nat option \<times> 'w"
  wp_contain :: "nat \<Rightarrow> 'w \<Rightarrow> bool \<times> 'w"
  wp_receive :: "nat \<Rightarrow> nat \<Rightarrow> 'w \<Rightarrow> received \<times> 'w"
  wp_overflowed :: "nat \<Rightarrow> 'w \<Rightarrow> bool \<times> 'w"
  wp_reset_stderr :: "nat \<Rightarrow> 'w \<Rightarrow> unit \<times> 'w"
  wp_write_all :: "nat \<Rightarrow> bytes \<Rightarrow> 'w \<Rightarrow> bool \<times> 'w"
  wp_flush :: "nat \<Rightarrow> 'w \<Rightarrow> bool \<times> 'w"
  wp_peak_memory :: "nat \<Rightarrow> 'w \<Rightarrow> u64 option \<times> 'w"
  wp_terminate :: "nat \<Rightarrow> 'w \<Rightarrow> unit \<times> 'w"
  wp_kill_wait :: "nat \<Rightarrow> 'w \<Rightarrow> unit \<times> 'w"
  wp_current_source :: "rstring \<Rightarrow> 'w \<Rightarrow> (rstring \<times> u64) option \<times> 'w"

record session_codec =
  jc_encode_request :: "worker_request \<Rightarrow> bytes"
  jc_hello :: "bytes \<Rightarrow> worker_hello option"
  jc_response :: "bytes \<Rightarrow> worker_response option"
  jc_classify_payload :: "classify_request \<Rightarrow> json"
  jc_parse_payload :: "worker_parse_request \<Rightarrow> json"
  jc_classify_result :: "json \<Rightarrow> classify_result option"
  jc_parse_result :: "json \<Rightarrow> worker_parse_result option"
  jc_audit_bytes :: "parsed_content_audit \<Rightarrow> nat"

record parse_operation =
  wo_request_id :: rstring
  wo_payload :: worker_parse_request

record classify_operation =
  wc_request_id :: rstring
  wc_payload :: classify_request

abbreviation ret :: "'a \<Rightarrow> ('s, 'a) state" where "ret \<equiv> State_Monad.return"

definition world :: "('w \<Rightarrow> 'a \<times> 'w) \<Rightarrow> ('w host, 'a) state" where
  "world f = State (\<lambda>s. case f (hs_world s) of (a, w) \<Rightarrow> (a, s\<lparr>hs_world := w\<rparr>))"

lemma run_world [simp]:
  "run_state (world f) s = (case f (hs_world s) of (a, w) \<Rightarrow> (a, s\<lparr>hs_world := w\<rparr>))"
  by (simp add: world_def)

text \<open>The operator \<open>?\<close>: an error ends the function.\<close>

definition try_bind ::
  "('s, ('a, 'e) result) state \<Rightarrow> ('a \<Rightarrow> ('s, ('b, 'e) result) state) \<Rightarrow> ('s, ('b, 'e) result) state" where
  "try_bind m f = do { r \<leftarrow> m; case r of Ok a \<Rightarrow> f a | Err e \<Rightarrow> ret (Err e) }"

section \<open>The child process\<close>

definition observe_started_child :: "u64 option \<Rightarrow> ('w host, unit) state" where
  "observe_started_child peak = State_Monad.update (\<lambda>s. s\<lparr>hs_tracker :=
     (case peak of
        Some value \<Rightarrow> (hs_tracker s)\<lparr>tr_peak_bytes := max (tr_peak_bytes (hs_tracker s)) value\<rparr>
      | None \<Rightarrow> (hs_tracker s)\<lparr>tr_observation_failed := True\<rparr>)\<rparr>)"

definition tracked_peak :: "rss_tracker \<Rightarrow> u64 option" where
  "tracked_peak t = (if tr_observation_failed t then None else Some (tr_peak_bytes t))"

definition spawn_child :: "'w worker_ports \<Rightarrow> worker_command \<Rightarrow> ('w host, (session_child, session_error) result) state" where
  "spawn_child p command = do {
     started \<leftarrow> world (wp_spawn p command);
     case started of
       None \<Rightarrow> ret (Err StartFailed)
     | Some handle \<Rightarrow> do {
         contained \<leftarrow> world (wp_contain p handle);
         if \<not> contained then do {
           world (wp_kill_wait p handle);
           observe_started_child None;
           ret (Err StartFailed)
         } else do {
           now \<leftarrow> world (wp_now p);
           ret (Ok \<lparr>sx_handle = handle, sx_last_activity = now\<rparr>)
         }
       }
   }"

definition read_line :: "'w worker_ports \<Rightarrow> session_child \<Rightarrow> nat \<Rightarrow> ('w host, (bytes, session_error) result) state" where
  "read_line p child timeout = do {
     overflowed \<leftarrow> world (wp_overflowed p (sx_handle child));
     if overflowed then ret (Err stderr_limit_error)
     else do {
       event \<leftarrow> world (wp_receive p (sx_handle child) timeout);
       case event of
         Received (Line line) \<Rightarrow> do {
           late \<leftarrow> world (wp_overflowed p (sx_handle child));
           ret (if late then Err stderr_limit_error else Ok line)
         }
       | Received LineEof \<Rightarrow> ret (Err SessionEof)
       | Received (LineError e) \<Rightarrow> ret (Err e)
       | ReceiveTimeout \<Rightarrow> ret (Err SessionTimeout)
       | Disconnected \<Rightarrow> ret (Err SessionEof)
     }
   }"

definition write_line :: "'w worker_ports \<Rightarrow> session_child \<Rightarrow> bytes \<Rightarrow> ('w host, (unit, session_error) result) state" where
  "write_line p child frame = do {
     world (wp_reset_stderr p (sx_handle child));
     written \<leftarrow> world (wp_write_all p (sx_handle child) frame);
     if \<not> written then ret (Err SessionEof)
     else do {
       ended \<leftarrow> world (wp_write_all p (sx_handle child) [10]);
       if \<not> ended then ret (Err SessionEof)
       else do {
         flushed \<leftarrow> world (wp_flush p (sx_handle child));
         ret (if flushed then Ok () else Err SessionEof)
       }
     }
   }"

definition child_recycle_due :: "'w worker_ports \<Rightarrow> session_params \<Rightarrow> session_child \<Rightarrow> ('w host, bool) state" where
  "child_recycle_due p params child = do {
     now \<leftarrow> world (wp_now p);
     if sp_idle_ttl_ns params \<le> now - sx_last_activity child then ret True
     else do {
       rss \<leftarrow> world (wp_peak_memory p (sx_handle child));
       ret (is_some_and rss (\<lambda>bytes. sp_rss_limit_bytes params \<le> bytes))
     }
   }"

text \<open>\<open>Drop\<close>, and \<open>reap\<close>, at whose end the child is dropped.\<close>

definition drop_child :: "'w worker_ports \<Rightarrow> session_child \<Rightarrow> ('w host, unit) state" where
  "drop_child p child = do {
     peak \<leftarrow> world (wp_peak_memory p (sx_handle child));
     observe_started_child peak;
     world (wp_terminate p (sx_handle child));
     world (wp_kill_wait p (sx_handle child))
   }"

definition reap_child :: "'w worker_ports \<Rightarrow> session_child \<Rightarrow> ('w host, unit) state" where
  "reap_child p child = do {
     world (wp_terminate p (sx_handle child));
     world (wp_kill_wait p (sx_handle child));
     drop_child p child
   }"

section \<open>The session\<close>

definition drop_session :: "'w worker_ports \<Rightarrow> worker_session \<Rightarrow> ('w host, unit) state" where
  "drop_session p session = (case wn_child session of None \<Rightarrow> ret () | Some child \<Rightarrow> drop_child p child)"

definition kill_session :: "'w worker_ports \<Rightarrow> worker_session \<Rightarrow> ('w host, worker_session) state" where
  "kill_session p session =
     (case wn_child session of
        None \<Rightarrow> ret session
      | Some child \<Rightarrow> do { reap_child p child; ret (session\<lparr>wn_child := None\<rparr>) })"

definition session_peak_rss :: "'w worker_ports \<Rightarrow> worker_session \<Rightarrow> ('w host, u64 option) state" where
  "session_peak_rss p session =
     (case wn_child session of None \<Rightarrow> ret None | Some child \<Rightarrow> world (wp_peak_memory p (sx_handle child)))"

definition session_recycle_due :: "'w worker_ports \<Rightarrow> worker_session \<Rightarrow> ('w host, bool) state" where
  "session_recycle_due p session =
     (case wn_child session of
        None \<Rightarrow> ret True
      | Some child \<Rightarrow>
          if sp_max_requests_per_session (wn_params session) \<le> wn_requests_served session then ret True
          else child_recycle_due p (wn_params session) child)"

definition touch_activity :: "'w worker_ports \<Rightarrow> worker_session \<Rightarrow> ('w host, worker_session) state" where
  "touch_activity p session =
     (case wn_child session of
        None \<Rightarrow> ret session
      | Some child \<Rightarrow> do {
          now \<leftarrow> world (wp_now p);
          ret (session\<lparr>wn_child := Some (child\<lparr>sx_last_activity := now\<rparr>)\<rparr>)
        })"

definition read_hello ::
  "'w worker_ports \<Rightarrow> session_codec \<Rightarrow> worker_session \<Rightarrow> nat \<Rightarrow> ('w host, (worker_hello, session_error) result) state" where
  "read_hello p codec session timeout =
     (case wn_child session of
        None \<Rightarrow> ret (Err SessionEof)
      | Some child \<Rightarrow> try_bind (read_line p child timeout) (\<lambda>line. ret (
          if SESSION_HELLO_FRAME_LIMIT < length line then Err FrameTooLarge
          else and_then (ok_or (ProtocolCorruption (lit ''session hello is not one strict JSON frame'')) (jc_hello codec line)) (\<lambda>hello.
               and_then (map_err (\<lambda>m. ProtocolCorruption (lit ''session hello violates the strict contract: '' @ m))
                   (validate_hello hello)) (\<lambda>_.
               Ok hello)))))"

definition start_observed ::
  "'w worker_ports \<Rightarrow> session_codec \<Rightarrow> worker_command \<Rightarrow> worker_hello \<Rightarrow> session_params \<Rightarrow> nat
     \<Rightarrow> ('w host, (worker_session, session_error) result) state" where
  "start_observed p codec command expected params timeout = try_bind (spawn_child p command) (\<lambda>child.
     let session = \<lparr>wn_child = Some child, wn_params = params, wn_identity = expected, wn_requests_served = 0\<rparr>
     in do {
       hello \<leftarrow> read_hello p codec session timeout;
       case hello of
         Err e \<Rightarrow> do { drop_session p session; ret (Err e) }
       | Ok hello \<Rightarrow>
           if hello \<noteq> expected then do { session \<leftarrow> kill_session p session; ret (Err BuildMismatch) }
           else do { session \<leftarrow> touch_activity p session; ret (Ok session) }
     })"

section \<open>Requests\<close>

definition write_request ::
  "'w worker_ports \<Rightarrow> worker_session \<Rightarrow> bytes \<Rightarrow> ('w host, (unit, session_error) result) state" where
  "write_request p session frame =
     (if SESSION_REQUEST_FRAME_LIMIT < length frame then ret (Err FrameTooLarge)
      else case wn_child session of
        None \<Rightarrow> ret (Err SessionEof)
      | Some child \<Rightarrow> write_line p child frame)"

definition mark_request_complete :: "'w worker_ports \<Rightarrow> worker_session \<Rightarrow> ('w host, worker_session) state" where
  "mark_request_complete p session =
     touch_activity p (session\<lparr>wn_requests_served := wn_requests_served session + 1\<rparr>)"

definition parse_response ::
  "session_codec \<Rightarrow> bytes \<Rightarrow> worker_operation \<Rightarrow> rstring \<Rightarrow> (worker_response, session_error) result" where
  "parse_response codec line expected_operation expected_request_id =
     and_then (ok_or (ProtocolCorruption (lit ''session stdout is not one strict JSON response'')) (jc_response codec line)) (\<lambda>response.
     and_then (map_err (\<lambda>m. ProtocolCorruption (lit ''session response violates the strict contract: '' @ m))
         (validate_response response)) (\<lambda>_.
     if wr_contract response \<noteq> WORKER_CONTRACT \<or> wr_protocol_version response \<noteq> PROTOCOL_VERSION
         \<or> wr_operation response \<noteq> expected_operation \<or> wr_request_id response \<noteq> expected_request_id
     then Err (ProtocolCorruption (lit ''session response operation/contract/request_id mismatch''))
     else Ok response))"

text \<open>
  What both dispatch functions do between the check of their request and the decoding of the result: the
  frame goes out, one line comes back, within the limit of the operation, and answers this request.
\<close>

definition exchange ::
  "'w worker_ports \<Rightarrow> session_codec \<Rightarrow> worker_operation \<Rightarrow> rstring \<Rightarrow> json \<Rightarrow> (nat, session_error) result \<Rightarrow> nat
     \<Rightarrow> worker_session \<Rightarrow> ('w host, (worker_response, session_error) result \<times> worker_session) state" where
  "exchange p codec operation request_id payload limit timeout session = do {
     answer \<leftarrow>
       try_bind (write_request p session (jc_encode_request codec
           \<lparr>wq_contract = WORKER_CONTRACT, wq_protocol_version = PROTOCOL_VERSION, wq_request_id = request_id,
            wq_operation = operation, wq_payload = payload\<rparr>)) (\<lambda>_.
       try_bind (ret limit) (\<lambda>capture_limit.
       try_bind (ret (ok_or SessionEof (wn_child session))) (\<lambda>child.
       try_bind (read_line p child timeout) (\<lambda>line.
       ret (if capture_limit < length line then Err FrameTooLarge
            else parse_response codec line operation request_id)))));
     case answer of
       Err e \<Rightarrow> ret (Err e, session)
     | Ok response \<Rightarrow> do { session \<leftarrow> mark_request_complete p session; ret (Ok response, session) }
   }"

text \<open>The tagged union of an answer: a result, or the diagnostic of a rejection.\<close>

definition response_result :: "rstring \<Rightarrow> worker_response \<Rightarrow> (json, session_error) result" where
  "response_result operation_name response =
     (case (wr_status response, wr_result response, wr_error response) of
        (ResponseOk, Some value, _) \<Rightarrow> Ok value
      | (ResponseError, _, Some diagnostic) \<Rightarrow> Err (Rejected diagnostic)
      | _ \<Rightarrow> Err (ProtocolCorruption (operation_name @ lit '' response violates the ok/error tagged union'')))"

definition classify_value :: "session_codec \<Rightarrow> u64 \<Rightarrow> json \<Rightarrow> (classify_result, session_error) result" where
  "classify_value codec max_pages value =
     and_then (ok_or (ProtocolCorruption (lit ''classify response result is not a classifier result'')) (jc_classify_result codec value)) (\<lambda>r.
     and_then (map_err (\<lambda>m. ProtocolCorruption (lit ''session classifier result violates the request page window: '' @ m))
         (validate_for_max_pages r max_pages)) (\<lambda>_.
     Ok r))"

definition dispatch_classify ::
  "'w worker_ports \<Rightarrow> session_codec \<Rightarrow> classify_operation \<Rightarrow> worker_session \<Rightarrow> nat
     \<Rightarrow> ('w host, (classify_result, session_error) result \<times> worker_session) state" where
  "dispatch_classify p codec request session timeout =
     (case validate_classify_request (wc_payload request) of
        Err m \<Rightarrow> ret (Err (ProtocolCorruption (lit ''classify request violates the strict contract: '' @ m)), session)
      | Ok _ \<Rightarrow> do {
          (answer, session) \<leftarrow> exchange p codec PdfClassify (wc_request_id request)
            (jc_classify_payload codec (wc_payload request)) (Ok SESSION_CLASSIFY_FRAME_LIMIT) timeout session;
          ret (and_then (and_then answer (response_result (lit ''classify'')))
                 (classify_value codec (cq_max_pages (wc_payload request))), session)
        })"

definition parse_value :: "session_codec \<Rightarrow> json \<Rightarrow> (worker_parse_result, session_error) result" where
  "parse_value codec value =
     and_then (ok_or (ProtocolCorruption (lit ''parse response result is not a parse result'')) (jc_parse_result codec value)) (\<lambda>r.
     and_then (map_err (\<lambda>m. ProtocolCorruption (lit ''session parse result violates the domain contract: '' @ m))
         (validate_parse_result (jc_audit_bytes codec) r)) (\<lambda>_.
     Ok r))"

definition operation_of_backend :: "parser_backend \<Rightarrow> worker_operation" where
  "operation_of_backend b = (case b of RustPdfiumV3 \<Rightarrow> PdfParse | _ \<Rightarrow> OfficeParse)"

definition character_budget :: "parser_limits \<Rightarrow> u64" where
  "character_budget l =
     (case l of OfficeLimits q \<Rightarrow> ol_document_excerpt_max_chars q | PdfLimits q \<Rightarrow> pi_excerpt_max_chars q)"

text \<open>
  \<open>worker_response_capture_limit\<close>: twelve bytes for each character that may appear, and a fixed allowance.
  The \<open>usize\<close> of the supported platforms has 64 bits.
\<close>

definition worker_response_capture_limit :: "worker_parse_request \<Rightarrow> nat option" where
  "worker_response_capture_limit q =
     Option.bind (checked_add (character_budget (oq_parser_limits q)) (saturating_mul (length (oq_file_path q)) 258)) (\<lambda>a.
     Option.bind (checked_add a (saturating_mul 4096 257)) (\<lambda>b.
     Option.bind (checked_add b (3 * 1024)) (\<lambda>scalars.
     Option.bind (checked_mul scalars 12) (\<lambda>bytes.
     checked_add bytes (64 * 1024)))))"

definition dispatch_parse ::
  "'w worker_ports \<Rightarrow> session_codec \<Rightarrow> parse_operation \<Rightarrow> worker_session \<Rightarrow> nat
     \<Rightarrow> ('w host, (worker_parse_result, session_error) result \<times> worker_session) state" where
  "dispatch_parse p codec request session timeout =
     (case validate_parse_request (wo_payload request) of
        Err m \<Rightarrow> ret (Err (ProtocolCorruption (lit ''parse request violates the strict contract: '' @ m)), session)
      | Ok _ \<Rightarrow> do {
          (answer, session) \<leftarrow> exchange p codec (operation_of_backend (oq_backend (wo_payload request))) (wo_request_id request)
            (jc_parse_payload codec (wo_payload request))
            (ok_or IoFailed (worker_response_capture_limit (wo_payload request))) timeout session;
          ret (and_then (and_then answer (response_result (lit ''parse''))) (parse_value codec), session)
        })"

section \<open>Processes that are left\<close>

text \<open>
  What the operating system promises of processes, as far as this code relies on it: \<open>unreaped w\<close> are the processes
  that were started and not yet waited for. A new process has a handle of its own, waiting for one removes
  it, and no other call starts or ends a wait.
\<close>

definition process_laws :: "'w worker_ports \<Rightarrow> ('w \<Rightarrow> nat set) \<Rightarrow> bool" where
  "process_laws p unreaped \<longleftrightarrow>
     (\<forall>command w. case wp_spawn p command w of
         (None, v) \<Rightarrow> unreaped v = unreaped w
       | (Some h, v) \<Rightarrow> h \<notin> unreaped w \<and> unreaped v = insert h (unreaped w))
     \<and> (\<forall>h w. unreaped (snd (wp_kill_wait p h w)) = unreaped w - {h})
     \<and> (\<forall>w. unreaped (snd (wp_now p w)) = unreaped w)
     \<and> (\<forall>h w. unreaped (snd (wp_contain p h w)) = unreaped w)
     \<and> (\<forall>h t w. unreaped (snd (wp_receive p h t w)) = unreaped w)
     \<and> (\<forall>h w. unreaped (snd (wp_overflowed p h w)) = unreaped w)
     \<and> (\<forall>h w. unreaped (snd (wp_reset_stderr p h w)) = unreaped w)
     \<and> (\<forall>h frame w. unreaped (snd (wp_write_all p h frame w)) = unreaped w)
     \<and> (\<forall>h w. unreaped (snd (wp_flush p h w)) = unreaped w)
     \<and> (\<forall>h w. unreaped (snd (wp_peak_memory p h w)) = unreaped w)
     \<and> (\<forall>h w. unreaped (snd (wp_terminate p h w)) = unreaped w)
     \<and> (\<forall>path w. unreaped (snd (wp_current_source p path w)) = unreaped w)"

text \<open>\<open>leaves f m\<close>: the program \<open>m\<close> changes the set of unreaped processes as \<open>f\<close> says, given its result.\<close>

definition leaves :: "('w \<Rightarrow> nat set) \<Rightarrow> ('a \<Rightarrow> nat set \<Rightarrow> nat set \<Rightarrow> bool) \<Rightarrow> ('w host, 'a) state \<Rightarrow> bool" where
  "leaves unreaped R m \<longleftrightarrow>
     (\<forall>s. case run_state m s of (a, t) \<Rightarrow> R a (unreaped (hs_world s)) (unreaped (hs_world t)))"

abbreviation quiet :: "('w \<Rightarrow> nat set) \<Rightarrow> ('w host, 'a) state \<Rightarrow> bool" where
  "quiet unreaped \<equiv> leaves unreaped (\<lambda>_ before after. after = before)"

named_theorems quiet_intros \<open>programs that start and end no process\<close>

lemma leavesD: "leaves unreaped R m \<Longrightarrow> run_state m s = (a, t) \<Longrightarrow> R a (unreaped (hs_world s)) (unreaped (hs_world t))"
  by (auto simp: leaves_def split: prod.splits)

lemma leaves_weaken: "leaves unreaped R m \<Longrightarrow> (\<And>a A B. R a A B \<Longrightarrow> Q a A B) \<Longrightarrow> leaves unreaped Q m"
  by (auto simp: leaves_def split: prod.splits)

lemma leaves_bind:
  assumes "leaves unreaped R m" and "\<And>a. leaves unreaped (S a) (f a)"
    and "\<And>a b A B C. R a A B \<Longrightarrow> S a b B C \<Longrightarrow> Q b A C"
  shows "leaves unreaped Q (m \<bind> f)"
  using assms unfolding leaves_def by (fastforce split: prod.splits)

lemma quiet_ret [quiet_intros]: "quiet unreaped (ret a)"
  by (simp add: leaves_def)

lemma quiet_bind [quiet_intros]: "quiet unreaped m \<Longrightarrow> (\<And>a. quiet unreaped (f a)) \<Longrightarrow> quiet unreaped (m \<bind> f)"
  by (rule leaves_bind [where R = "\<lambda>_ A B. B = A" and S = "\<lambda>_ _ A B. B = A"]) auto

lemma quiet_try [quiet_intros]: "quiet unreaped m \<Longrightarrow> (\<And>a. quiet unreaped (f a)) \<Longrightarrow> quiet unreaped (try_bind m f)"
  unfolding try_bind_def by (intro quiet_bind) (auto intro: quiet_ret split: result.splits)

lemma quiet_branches [quiet_intros]:
  "quiet unreaped m \<Longrightarrow> quiet unreaped n \<Longrightarrow> quiet unreaped (if c then m else n)"
  "quiet unreaped m \<Longrightarrow> (\<And>x. quiet unreaped (f x)) \<Longrightarrow> quiet unreaped (case v of None \<Rightarrow> m | Some x \<Rightarrow> f x)"
  "(\<And>x. quiet unreaped (g x)) \<Longrightarrow> (\<And>e. quiet unreaped (h e)) \<Longrightarrow> quiet unreaped (case r of Ok x \<Rightarrow> g x | Err e \<Rightarrow> h e)"
  "(\<And>x y. quiet unreaped (k x y)) \<Longrightarrow> quiet unreaped (case q of (x, y) \<Rightarrow> k x y)"
  by (auto split: option.splits result.splits prod.splits)

lemma quiet_events [quiet_intros]:
  "(\<And>l. quiet unreaped (f l)) \<Longrightarrow> quiet unreaped m \<Longrightarrow> (\<And>e. quiet unreaped (g e)) \<Longrightarrow> quiet unreaped n \<Longrightarrow> quiet unreaped k
   \<Longrightarrow> quiet unreaped (case event of Received (Line l) \<Rightarrow> f l | Received LineEof \<Rightarrow> m | Received (LineError e) \<Rightarrow> g e
        | ReceiveTimeout \<Rightarrow> n | Disconnected \<Rightarrow> k)"
  by (auto split: received.splits line_event.splits)

lemma leaves_world: "(\<And>w. R (fst (f w)) (unreaped w) (unreaped (snd (f w)))) \<Longrightarrow> leaves unreaped R (world f)"
  by (simp add: leaves_def split: prod.splits) (metis fst_conv snd_conv)

lemma quiet_update [quiet_intros]: "(\<And>s. hs_world (f s) = hs_world s) \<Longrightarrow> quiet unreaped (State_Monad.update f)"
  by (simp add: leaves_def State_Monad.update_def)

lemma quiet_world: "(\<And>w. unreaped (snd (f w)) = unreaped w) \<Longrightarrow> quiet unreaped (world f)"
  by (rule leaves_world)

lemma process_facts:
  assumes "process_laws p unreaped"
  shows "unreaped (snd (wp_now p w)) = unreaped w" "unreaped (snd (wp_contain p h w)) = unreaped w"
    "unreaped (snd (wp_receive p h timeout w)) = unreaped w" "unreaped (snd (wp_overflowed p h w)) = unreaped w"
    "unreaped (snd (wp_reset_stderr p h w)) = unreaped w" "unreaped (snd (wp_write_all p h frame w)) = unreaped w"
    "unreaped (snd (wp_flush p h w)) = unreaped w" "unreaped (snd (wp_peak_memory p h w)) = unreaped w"
    "unreaped (snd (wp_terminate p h w)) = unreaped w" "unreaped (snd (wp_current_source p path w)) = unreaped w"
    "unreaped (snd (wp_kill_wait p h w)) = unreaped w - {h}"
    "wp_spawn p command w = (None, v) \<Longrightarrow> unreaped v = unreaped w"
    "wp_spawn p command w = (Some k, v) \<Longrightarrow> k \<notin> unreaped w \<and> unreaped v = insert k (unreaped w)"
proof -
  have "case wp_spawn p command w of (None, v) \<Rightarrow> unreaped v = unreaped w
      | (Some h, v) \<Rightarrow> h \<notin> unreaped w \<and> unreaped v = insert h (unreaped w)"
    using assms [unfolded process_laws_def, THEN conjunct1] by (elim allE)
  then show "wp_spawn p command w = (None, v) \<Longrightarrow> unreaped v = unreaped w"
    and "wp_spawn p command w = (Some k, v) \<Longrightarrow> k \<notin> unreaped w \<and> unreaped v = insert k (unreaped w)"
    by simp_all
qed (use assms in \<open>simp_all add: process_laws_def\<close>)

lemma quiet_calls:
  assumes laws: "process_laws p unreaped"
  shows "quiet unreaped (world (wp_now p))" "quiet unreaped (world (wp_contain p h))"
    "quiet unreaped (world (wp_receive p h timeout))" "quiet unreaped (world (wp_overflowed p h))"
    "quiet unreaped (world (wp_reset_stderr p h))" "quiet unreaped (world (wp_write_all p h frame))"
    "quiet unreaped (world (wp_flush p h))" "quiet unreaped (world (wp_peak_memory p h))"
    "quiet unreaped (world (wp_terminate p h))" "quiet unreaped (world (wp_current_source p path))"
    "leaves unreaped (\<lambda>_ before after. after = before - {h}) (world (wp_kill_wait p h))"
  by (rule quiet_world, rule process_facts [OF laws])+ (rule leaves_world, rule process_facts [OF laws])

lemma quiet_observe [quiet_intros]: "quiet unreaped (observe_started_child peak)"
  unfolding observe_started_child_def by (rule quiet_update) simp

lemma spawn_child_leaves:
  assumes laws: "process_laws p unreaped"
  shows "leaves unreaped (\<lambda>r before after. case r of
      Ok child \<Rightarrow> sx_handle child \<notin> before \<and> after = insert (sx_handle child) before
    | Err _ \<Rightarrow> after = before) (spawn_child p command)"
  unfolding leaves_def
proof (intro allI, clarsimp split: prod.splits)
  fix s :: "'a host" and r t
  assume run: "run_state (spawn_child p command) s = (r, t)"
  note facts = process_facts [OF laws]
  obtain h w where spawn: "wp_spawn p command (hs_world s) = (h, w)" by fastforce
  show "case r of Ok child \<Rightarrow> sx_handle child \<notin> unreaped (hs_world s)
        \<and> unreaped (hs_world t) = insert (sx_handle child) (unreaped (hs_world s))
      | Err _ \<Rightarrow> unreaped (hs_world t) = unreaped (hs_world s)"
  proof (cases h)
    case None
    then show ?thesis using run spawn facts(12) by (auto simp: spawn_child_def)
  next
    case (Some handle)
    have new: "handle \<notin> unreaped (hs_world s)" "unreaped w = insert handle (unreaped (hs_world s))"
      using facts(13) spawn Some by auto
    obtain contained v where c: "wp_contain p handle w = (contained, v)" by fastforce
    have v: "unreaped v = unreaped w" using facts(2) [of handle w] c by simp
    obtain u where k: "wp_kill_wait p handle v = ((), u)" by (cases "wp_kill_wait p handle v") auto
    have u: "unreaped u = unreaped v - {handle}" using facts(11) [of handle v] k by simp
    obtain now n where n: "wp_now p v = (now, n)" by fastforce
    have now: "unreaped n = unreaped v" using facts(1) [of v] n by simp
    show ?thesis using run spawn Some new c v k u n now
      by (cases contained) (auto simp: spawn_child_def observe_started_child_def State_Monad.update_def)
  qed
qed

lemma child_quiet:
  assumes laws: "process_laws p unreaped"
  shows "quiet unreaped (read_line p child timeout)" "quiet unreaped (write_line p child frame)"
    "quiet unreaped (child_recycle_due p params child)"
  unfolding read_line_def write_line_def child_recycle_due_def
  by (intro quiet_intros quiet_calls(1-10) [OF laws])+

lemma drop_child_leaves:
  assumes laws: "process_laws p unreaped"
  shows "leaves unreaped (\<lambda>_ before after. after = before - {sx_handle child}) (drop_child p child)"
proof -
  note calls = quiet_calls [OF laws]
  let ?quiet = "\<lambda>_ before after. after = before" and ?gone = "\<lambda>_ before after. after = before - {sx_handle child}"
  have "leaves unreaped ?gone (world (wp_terminate p (sx_handle child)) \<bind> (\<lambda>_. world (wp_kill_wait p (sx_handle child))))"
    by (rule leaves_bind [OF calls(9) calls(11)]) simp
  then have "leaves unreaped ?gone (observe_started_child peak \<bind> (\<lambda>_.
      world (wp_terminate p (sx_handle child)) \<bind> (\<lambda>_. world (wp_kill_wait p (sx_handle child)))))" for peak
    by (rule leaves_bind [OF quiet_observe]) simp
  then show ?thesis unfolding drop_child_def by (rule leaves_bind [OF calls(8)]) simp
qed

lemma reap_child_leaves:
  assumes laws: "process_laws p unreaped"
  shows "leaves unreaped (\<lambda>_ before after. after = before - {sx_handle child}) (reap_child p child)"
proof -
  note calls = quiet_calls [OF laws]
  have "leaves unreaped (\<lambda>_ before after. after = before - {sx_handle child})
      (world (wp_kill_wait p (sx_handle child)) \<bind> (\<lambda>_. drop_child p child))"
    by (rule leaves_bind [OF calls(11) drop_child_leaves [OF laws]]) simp
  then show ?thesis unfolding reap_child_def by (rule leaves_bind [OF calls(9)]) simp
qed

definition handles :: "worker_session option \<Rightarrow> nat set" where
  "handles session = sx_handle ` set_option (Option.bind session wn_child)"

lemma handles_simps [simp]:
  "handles None = {}" "handles (Some session) = sx_handle ` set_option (wn_child session)"
  by (simp_all add: handles_def)

lemma drop_session_leaves:
  assumes "process_laws p unreaped"
  shows "leaves unreaped (\<lambda>_ before after. after = before - handles (Some session)) (drop_session p session)"
  using drop_child_leaves [OF assms] quiet_ret [of unreaped "()"] unfolding drop_session_def
  by (cases "wn_child session") auto

lemma kill_session_leaves:
  assumes laws: "process_laws p unreaped"
  shows "leaves unreaped (\<lambda>killed before after. after = before - handles (Some session) \<and> handles (Some killed) = {})
     (kill_session p session)"
proof (cases "wn_child session")
  case None
  then show ?thesis by (simp add: kill_session_def leaves_def)
next
  case (Some child)
  show ?thesis unfolding kill_session_def Some option.case
    by (rule leaves_bind [OF reap_child_leaves [OF laws],
          where S = "\<lambda>_ killed before after. after = before \<and> handles (Some killed) = {}"])
      (auto simp: leaves_def Some)
qed

lemma session_quiet:
  assumes laws: "process_laws p unreaped"
  shows "quiet unreaped (session_peak_rss p session)" "quiet unreaped (session_recycle_due p session)"
    "quiet unreaped (read_hello p codec session timeout)" "quiet unreaped (write_request p session frame)"
  unfolding session_peak_rss_def session_recycle_due_def read_hello_def write_request_def
  by (intro quiet_intros quiet_calls(1-10) [OF laws] child_quiet [OF laws])+

lemma touch_activity_leaves:
  assumes laws: "process_laws p unreaped"
  shows "leaves unreaped (\<lambda>touched before after. after = before \<and> handles (Some touched) = handles (Some session))
     (touch_activity p session)"
proof (cases "wn_child session")
  case None
  then show ?thesis by (simp add: touch_activity_def leaves_def)
next
  case (Some child)
  show ?thesis unfolding touch_activity_def Some option.case
    by (rule leaves_bind [OF quiet_calls(1) [OF laws],
          where S = "\<lambda>_ touched before after. after = before \<and> handles (Some touched) = handles (Some session)"])
      (auto simp: leaves_def Some)
qed

text \<open>A session that started has one process, and a failed start none.\<close>

lemma start_observed_leaves:
  assumes laws: "process_laws p unreaped"
  shows "leaves unreaped (\<lambda>r before after. case r of
      Ok session \<Rightarrow> \<exists>h. handles (Some session) = {h} \<and> h \<notin> before \<and> after = insert h before
    | Err _ \<Rightarrow> after = before) (start_observed p codec command expected params timeout)"
    (is "leaves _ ?R _")
proof -
  let ?S = "\<lambda>child. \<lparr>wn_child = Some child, wn_params = params, wn_identity = expected, wn_requests_served = 0\<rparr>"
  let ?T = "\<lambda>child r before after. case r of
      Ok session \<Rightarrow> handles (Some session) = {sx_handle child} \<and> after = before
    | Err _ \<Rightarrow> after = before - {sx_handle child}"
  have rest: "leaves unreaped (?T child) (do {
       hello \<leftarrow> read_hello p codec (?S child) timeout;
       case hello of
         Err e \<Rightarrow> do { drop_session p (?S child); ret (Err e) }
       | Ok hello \<Rightarrow>
           if hello \<noteq> expected then do { session \<leftarrow> kill_session p (?S child); ret (Err BuildMismatch) }
           else do { session \<leftarrow> touch_activity p (?S child); ret (Ok session) }
     })" for child
  proof (rule leaves_bind [OF session_quiet(3) [OF laws], where S = "\<lambda>_. ?T child"])
    fix hello :: "(worker_hello, session_error) result"
    show "leaves unreaped (?T child) (case hello of
         Err e \<Rightarrow> do { drop_session p (?S child); ret (Err e) }
       | Ok hello \<Rightarrow>
           if hello \<noteq> expected then do { session \<leftarrow> kill_session p (?S child); ret (Err BuildMismatch) }
           else do { session \<leftarrow> touch_activity p (?S child); ret (Ok session) })"
      using drop_session_leaves [OF laws, of "?S child"] kill_session_leaves [OF laws, of "?S child"]
        touch_activity_leaves [OF laws, of "?S child"]
      by (cases hello) (auto simp: leaves_def split: prod.splits)
  qed auto
  show ?thesis unfolding start_observed_def try_bind_def Let_def
  proof (rule leaves_bind [OF spawn_child_leaves [OF laws], where S = "\<lambda>r. case r of Ok child \<Rightarrow> ?T child | Err _ \<Rightarrow> (\<lambda>q before after. \<not> is_ok q \<and> after = before)"])
    fix r :: "(session_child, session_error) result"
    show "leaves unreaped (case r of Ok child \<Rightarrow> ?T child | Err _ \<Rightarrow> (\<lambda>q before after. \<not> is_ok q \<and> after = before))
       (case r of Ok child \<Rightarrow> do {
           hello \<leftarrow> read_hello p codec (?S child) timeout;
           case hello of
             Err e \<Rightarrow> do { drop_session p (?S child); ret (Err e) }
           | Ok hello \<Rightarrow>
               if hello \<noteq> expected then do { session \<leftarrow> kill_session p (?S child); ret (Err BuildMismatch) }
               else do { session \<leftarrow> touch_activity p (?S child); ret (Ok session) } }
        | Err e \<Rightarrow> ret (Err e))"
      using rest by (cases r) (auto simp: leaves_def)
  qed (auto split: result.splits)
qed

text \<open>A request keeps the process of its session.\<close>

lemma exchange_leaves:
  assumes laws: "process_laws p unreaped"
  shows "leaves unreaped (\<lambda>(answer, later) before after. after = before \<and> handles (Some later) = handles (Some session))
     (exchange p codec operation request_id payload limit timeout session)"
  unfolding exchange_def
proof (rule leaves_bind [where R = "\<lambda>_ before after. after = before" and
      S = "\<lambda>_ (answer, later) before after. after = before \<and> handles (Some later) = handles (Some session)"])
  fix answer :: "(worker_response, session_error) result"
  have "leaves unreaped (\<lambda>later before after. after = before \<and> handles (Some later) = handles (Some session))
      (mark_request_complete p session)"
    using touch_activity_leaves [OF laws, of "session\<lparr>wn_requests_served := wn_requests_served session + 1\<rparr>"]
    unfolding mark_request_complete_def by (simp add: leaves_def)
  then show "leaves unreaped (\<lambda>(answer, later) before after. after = before \<and> handles (Some later) = handles (Some session))
      (case answer of Err e \<Rightarrow> ret (Err e, session)
       | Ok response \<Rightarrow> do { session \<leftarrow> mark_request_complete p session; ret (Ok response, session) })"
    by (cases answer) (auto simp: leaves_def split: prod.splits)
qed (intro quiet_intros session_quiet [OF laws] child_quiet [OF laws] | auto)+


lemma dispatch_leaves:
  assumes laws: "process_laws p unreaped"
  shows "leaves unreaped (\<lambda>(answer, later) before after. after = before \<and> handles (Some later) = handles (Some session))
       (dispatch_classify p codec request session timeout)"
    and "leaves unreaped (\<lambda>(answer, later) before after. after = before \<and> handles (Some later) = handles (Some session))
       (dispatch_parse p codec request' session timeout)"
proof -
  have keep: "leaves unreaped (\<lambda>(answer, later) before after. after = before \<and> handles (Some later) = handles (Some session))
      (do { (answer, later) \<leftarrow> exchange p codec operation request_id payload limit timeout session; ret (f answer, later) })"
    for operation request_id payload limit and f :: "(worker_response, session_error) result \<Rightarrow> 'b"
    using exchange_leaves [OF laws, of session codec operation request_id payload limit timeout]
    unfolding leaves_def by (auto split: prod.splits)
  have failed: "leaves unreaped (\<lambda>(answer, later) before after. after = before \<and> handles (Some later) = handles (Some session))
      (ret (a, session))" for a :: 'b
    by (simp add: leaves_def)
  show "leaves unreaped (\<lambda>(answer, later) before after. after = before \<and> handles (Some later) = handles (Some session))
       (dispatch_classify p codec request session timeout)"
    using keep failed unfolding dispatch_classify_def by (auto split: result.split)
  show "leaves unreaped (\<lambda>(answer, later) before after. after = before \<and> handles (Some later) = handles (Some session))
       (dispatch_parse p codec request' session timeout)"
    using keep failed unfolding dispatch_parse_def by (auto split: result.split)
qed

end
