(* ===== verification/Worker_Requests.thy ===== *)
theory Worker_Requests
  imports Worker_Session Inventory "HOL-Library.Word"
begin

unbundle bit_operations_syntax

text \<open>
  \<open>src/rust/scanner_core/src/parsers/mod.rs\<close>, \<open>office.rs\<close>, \<open>document.rs\<close> and the source checks of
  \<open>classifier.rs\<close>: the two worker commands, what a worker must announce before it is used, the
  requests made for a file, their identifiers, and the checks before a request and after its answer.
\<close>

section \<open>Commands and registration\<close>

definition office_worker_command :: "rstring \<Rightarrow> worker_command" where
  "office_worker_command program =
     \<lparr>wm_program = program, wm_base_args = [], wm_current_dir = None, wm_expected_kind = OfficeWorker,
      wm_required_backends = [lit ''rust_office_oxide_v2'', lit ''rust_xlsx_bounded_v2'', lit ''rust_xls_calamine_v3'',
        lit ''rust_legacy_office_v3''],
      wm_required_extensions = [lit ''.docx'', lit ''.pptx'', lit ''.xlsx'', lit ''.xls'', lit ''.doc'', lit ''.ppt'']\<rparr>"

definition pdf_worker_command :: "rstring \<Rightarrow> worker_command" where
  "pdf_worker_command program =
     \<lparr>wm_program = program, wm_base_args = [], wm_current_dir = None, wm_expected_kind = PdfWorker,
      wm_required_backends = [lit ''rust_pdfium_v3''], wm_required_extensions = [lit ''.pdf'']\<rparr>"

record registered_worker =
  gw_command :: worker_command
  gw_identity :: worker_hello

record worker_registry =
  gr_office :: "registered_worker option"
  gr_pdf :: "registered_worker option"

definition worker_contract_failure ::
  "error_code \<Rightarrow> rstring \<Rightarrow> rstring option \<Rightarrow> rstring option \<Rightarrow> diagnostic_stage \<Rightarrow> parse_failure" where
  "worker_contract_failure code message path backend stage =
     \<lparr>fl_class = ContractFailure,
      fl_diagnostic = \<lparr>dg_error_code = code, dg_message = message, dg_retryable = False, dg_stage = stage,
        dg_file_path = path, dg_backend = backend\<rparr>\<rparr>"

datatype process_error = ProcessStartFailed | ContainmentFailed | ProcessIoFailed | TimedOut | Cancelled | OutputTooLarge

definition process_failure :: "process_error \<Rightarrow> rstring option \<Rightarrow> rstring option \<Rightarrow> bool \<Rightarrow> parse_failure" where
  "process_failure error path backend handshake =
     (let (fclass, code, message, retryable) =
        (case error of
           ProcessStartFailed \<Rightarrow> (EnvironmentUnavailable, if handshake then WorkerHandshakeFailed else ParserStartFailed,
             lit ''worker process could not be started'', True)
         | ContainmentFailed \<Rightarrow> (EnvironmentUnavailable, if handshake then WorkerHandshakeFailed else ParserStartFailed,
             lit ''worker process-tree containment failed'', True)
         | TimedOut \<Rightarrow> (Deterministic, if handshake then WorkerHandshakeFailed else ParserTimeout,
             lit ''worker process exceeded its deadline'', False)
         | Cancelled \<Rightarrow> (Deterministic, ParserTimeout, lit ''worker process was explicitly cancelled'', False)
         | _ \<Rightarrow> (ContractFailure, if handshake then WorkerHandshakeFailed else ParserInvalidPayload,
             lit ''worker process transport failed'', False))
      in \<lparr>fl_class = fclass, fl_diagnostic = \<lparr>dg_error_code = code, dg_message = message, dg_retryable = retryable,
            dg_stage = StageProcess, dg_file_path = path, dg_backend = backend\<rparr>\<rparr>)"

definition required_operations :: "worker_kind \<Rightarrow> worker_operation list" where
  "required_operations kind = (case kind of OfficeWorker \<Rightarrow> [OfficeParse] | PdfWorker \<Rightarrow> [PdfClassify, PdfParse])"

definition supports_required_operations :: "worker_hello \<Rightarrow> worker_command \<Rightarrow> bool" where
  "supports_required_operations identity command =
     list_all (\<lambda>operation. operation \<in> set (hl_supported_operations identity)) (required_operations (wm_expected_kind command))"

text \<open>
  \<open>register_worker_inner\<close>, from what \<open>run_process\<close> returned for the arguments of the command followed by
  \<open>hello\<close>: an exit code and the standard output. \<open>package_version\<close> is the version the crate was built with.
\<close>

definition args_for :: "worker_command \<Rightarrow> rstring \<Rightarrow> rstring list" where
  "args_for command operation = wm_base_args command @ [operation]"

definition register_worker ::
  "session_codec \<Rightarrow> rstring \<Rightarrow> worker_command \<Rightarrow> (nat \<times> bytes, process_error) result \<Rightarrow> (registered_worker, parse_failure) result" where
  "register_worker codec package_version command output =
     (let failed = \<lambda>code message. worker_contract_failure code message None None StageProcess in
      and_then (map_err (\<lambda>e. process_failure e None None True) output) (\<lambda>(exit_code, stdout).
      if exit_code \<noteq> 0 then Err (failed WorkerHandshakeFailed (lit ''worker version command returned nonzero''))
      else
        and_then (ok_or (failed WorkerHandshakeFailed (lit ''worker version stdout is not one strict JSON response''))
            (jc_hello codec stdout)) (\<lambda>hello.
        and_then (map_err (\<lambda>_. failed WorkerHandshakeFailed (lit ''worker version response violates the strict contract''))
            (validate_hello hello)) (\<lambda>_.
        if hl_worker_kind hello \<noteq> wm_expected_kind command \<or> hl_worker_contract_version hello \<noteq> WORKER_CONTRACT_VERSION
            \<or> hl_worker_version hello \<noteq> package_version \<or> \<not> supports_required_operations hello command
        then Err (failed WorkerVersionMismatch (lit ''worker version identity or capabilities mismatch''))
        else Ok \<lparr>gw_command = command, gw_identity = hello\<rparr>))))"

text \<open>Which workers a profile needs, and the registry of those that were needed; an office error wins.\<close>

definition required_worker_set :: "normalized_settings \<Rightarrow> bool \<times> bool" where
  "required_worker_set profile =
     (let allows = \<lambda>extension. extension \<in> set (dp_allowed_extensions (ns_discovery profile)) in
      (list_ex allows [lit ''.docx'', lit ''.pptx'', lit ''.xlsx'', lit ''.xls'']
         \<or> op_legacy_extensions_enabled (pr_office (ns_parse profile)) \<and> list_ex allows [lit ''.doc'', lit ''.ppt''],
       allows (lit ''.pdf'')))"

definition register_optional ::
  "(worker_command \<Rightarrow> (registered_worker, parse_failure) result) \<Rightarrow> worker_command option
     \<Rightarrow> (registered_worker option, parse_failure) result" where
  "register_optional register command =
     (case command of None \<Rightarrow> Ok None | Some c \<Rightarrow> and_then (register c) (\<lambda>w. Ok (Some w)))"

definition preflight_workers ::
  "(worker_command \<Rightarrow> (registered_worker, parse_failure) result) \<Rightarrow> normalized_settings \<Rightarrow> rstring \<Rightarrow> rstring
     \<Rightarrow> (worker_registry, parse_failure) result" where
  "preflight_workers register profile office_path pdf_path =
     (let (office, pdf) = required_worker_set profile in
      and_then (register_optional register (if office then Some (office_worker_command office_path) else None)) (\<lambda>o'.
      and_then (register_optional register (if pdf then Some (pdf_worker_command pdf_path) else None)) (\<lambda>p'.
      Ok \<lparr>gr_office = o', gr_pdf = p'\<rparr>)))"

section \<open>Requests for a file\<close>

definition backend_of_route :: "route_kind \<Rightarrow> parser_backend option" where
  "backend_of_route route =
     (case route of
        RustOffice \<Rightarrow> Some RustOfficeOxideV2
      | RustXlsx \<Rightarrow> Some RustXlsxBoundedV2
      | Pdf \<Rightarrow> Some RustPdfiumV3
      | RustXls \<Rightarrow> Some RustXlsCalamineV3
      | RustLegacyOffice \<Rightarrow> Some RustLegacyOfficeV3
      | LightText \<Rightarrow> None)"

definition limits_of_route :: "route_kind \<Rightarrow> normalized_settings \<Rightarrow> parser_limits" where
  "limits_of_route route profile =
     (let office = pr_office (ns_parse profile); pdf = pr_pdf (ns_parse profile) in
      if route = Pdf
      then PdfLimits \<lparr>pi_max_pages = pp_max_pages pdf, pi_excerpt_max_chars = pp_excerpt_max_chars pdf, pi_selected_pages = None\<rparr>
      else OfficeLimits
        \<lparr>ol_legacy_office_enabled = op_legacy_extensions_enabled office,
         ol_excel_max_sheets = op_excel_max_sheets office, ol_excel_max_rows = op_excel_max_rows office,
         ol_excel_max_columns = op_excel_max_columns office, ol_docx_max_paragraphs = op_docx_max_paragraphs office,
         ol_docx_max_tables = op_docx_max_tables office, ol_docx_table_max_rows = op_docx_table_max_rows office,
         ol_docx_table_max_cols = op_docx_table_max_cols office, ol_pptx_max_slides = op_pptx_max_slides office,
         ol_pptx_include_notes = op_pptx_include_notes office,
         ol_document_excerpt_max_chars = op_document_excerpt_max_chars office\<rparr>)"

text \<open>\<open>None\<close> is the \<open>unreachable!\<close> of the source: light text never becomes a worker request.\<close>

definition request_for_worker ::
  "rstring \<Rightarrow> discovered_file \<Rightarrow> route_kind \<Rightarrow> u64 \<Rightarrow> normalized_settings \<Rightarrow> parse_operation option" where
  "request_for_worker request_id file route timeout_ms profile =
     map_option (\<lambda>backend.
       \<lparr>wo_request_id = request_id,
        wo_payload = \<lparr>oq_file_path = df_path file, oq_file_type = df_extension file, oq_backend = backend,
          oq_remaining_timeout_ms = timeout_ms, oq_max_file_size_bytes = ep_max_file_size_bytes (ns_execution profile),
          oq_parser_limits = limits_of_route route profile, oq_expected_source_version = df_source_version file\<rparr>\<rparr>)
       (backend_of_route route)"

text \<open>\<open>next_request_id\<close>: the clock, the process and a counter in one 128-bit word, with the version and variant bits.\<close>

definition be_bytes :: "128 word \<Rightarrow> 8 word list" where
  "be_bytes w = map (\<lambda>i. ucast (drop_bit (8 * (15 - i)) w)) [0..<16]"

definition hex_digit :: "nat \<Rightarrow> rchar" where
  "hex_digit n = (if n < 10 then 48 + n else 87 + n)"

definition hex2 :: "8 word \<Rightarrow> rstring" where
  "hex2 b = [hex_digit (unat b div 16), hex_digit (unat b mod 16)]"

definition next_request_id :: "128 word \<Rightarrow> 32 word \<Rightarrow> 128 word \<Rightarrow> rstring" where
  "next_request_id nanos process_id counter =
     (let raw = be_bytes ((nanos XOR push_bit 64 (ucast process_id)) XOR counter);
          bytes = raw[6 := ((raw ! 6) AND 0x0f) OR 0x40, 8 := ((raw ! 8) AND 0x3f) OR 0x80];
          group = \<lambda>i n. concat (map hex2 (take n (drop i bytes)))
      in join [45] [group 0 4, group 4 2, group 6 2, group 8 2, group 10 6])"

section \<open>Before and after a request\<close>

definition parser_failure ::
  "failure_class \<Rightarrow> error_code \<Rightarrow> rstring \<Rightarrow> bool \<Rightarrow> worker_parse_request \<Rightarrow> parse_failure" where
  "parser_failure fclass code message retryable q =
     \<lparr>fl_class = fclass, fl_diagnostic = \<lparr>dg_error_code = code, dg_message = message, dg_retryable = retryable,
        dg_stage = StageParse, dg_file_path = Some (oq_file_path q), dg_backend = Some (backend_as_str (oq_backend q))\<rparr>\<rparr>"

definition check_source_before :: "worker_parse_request \<Rightarrow> (rstring \<times> u64) option \<Rightarrow> (unit, parse_failure) result" where
  "check_source_before q current =
     (case current of
        None \<Rightarrow> Err (parser_failure Deterministic ParserFailed (lit ''file metadata is unavailable before worker start'') False q)
      | Some (source_version, size_bytes) \<Rightarrow>
          if oq_max_file_size_bytes q < size_bytes
          then Err (parser_failure Deterministic FileTooLarge (lit ''file exceeds the configured size limit'') False q)
          else if source_version \<noteq> oq_expected_source_version q
          then Err (parser_failure Deterministic SourceVersionChanged (lit ''file source version changed before worker start'') False q)
          else Ok ())"

definition check_source_after ::
  "worker_parse_request \<Rightarrow> worker_parse_result \<Rightarrow> (rstring \<times> u64) option \<Rightarrow> (unit, parse_failure) result" where
  "check_source_after q r current =
     (case current of
        None \<Rightarrow> Err (parser_failure Deterministic SourceVersionChanged
          (lit ''file source became unavailable during worker parsing'') False q)
      | Some (source_version, size_bytes) \<Rightarrow>
          if oq_max_file_size_bytes q < size_bytes
          then Err (parser_failure Deterministic FileTooLarge
            (lit ''file exceeded the configured size limit during worker parsing'') False q)
          else if source_version \<noteq> oq_expected_source_version q
          then Err (parser_failure Deterministic SourceVersionChanged
            (lit ''file source version changed during worker parsing'') False q)
          else if source_version \<noteq> pw_observed_source_version r
          then Err (parser_failure ContractFailure ParserInvalidPayload
            (lit ''worker observed source version does not match current metadata'') False q)
          else Ok ())"

definition validate_worker_request ::
  "'w worker_ports \<Rightarrow> registered_worker \<Rightarrow> parse_operation \<Rightarrow> ('w host, (unit, parse_failure) result) state" where
  "validate_worker_request p worker request =
     (let q = wo_payload request;
          failed = \<lambda>code message. Err (worker_contract_failure code message (Some (oq_file_path q))
            (Some (backend_as_str (oq_backend q))) StageParse)
      in case validate_parse_request q of
           Err _ \<Rightarrow> ret (failed ParserInvalidPayload (lit ''worker request violates the strict contract''))
         | Ok _ \<Rightarrow>
             if backend_as_str (oq_backend q) \<notin> set (wm_required_backends (gw_command worker))
                 \<or> oq_file_type q \<notin> set (wm_required_extensions (gw_command worker))
             then ret (failed WorkerVersionMismatch (lit ''preflight worker capabilities do not cover the parse route''))
             else do {
               current \<leftarrow> world (wp_current_source p (oq_file_path q));
               ret (check_source_before q current)
             })"

definition answers_request :: "worker_parse_request \<Rightarrow> worker_parse_result \<Rightarrow> bool" where
  "answers_request q r \<longleftrightarrow>
     pw_file_path r = oq_file_path q \<and> pw_file_type r = oq_file_type q
     \<and> (pw_parser_backend r = oq_backend q
        \<or> backend_lane (oq_backend q) = RustOfficeProcessV3 \<and> detected_format r \<noteq> None)
     \<and> pw_worker_lane r = backend_lane (oq_backend q)
     \<and> pw_duration_ms r \<le> oq_remaining_timeout_ms q
     \<and> length (pw_content r) \<le> character_budget (oq_parser_limits q)"

definition validate_session_worker_response ::
  "'w worker_ports \<Rightarrow> session_codec \<Rightarrow> parse_operation \<Rightarrow> worker_parse_result
     \<Rightarrow> ('w host, (worker_parse_result, parse_failure) result) state" where
  "validate_session_worker_response p codec request r =
     (let q = wo_payload request;
          failed = \<lambda>message. Err (worker_contract_failure ParserInvalidPayload message (Some (oq_file_path q))
            (Some (backend_as_str (oq_backend q))) StageParse)
      in case validate_parse_result (jc_audit_bytes codec) r of
           Err _ \<Rightarrow> ret (failed (lit ''worker response violates the strict contract''))
         | Ok _ \<Rightarrow> do {
             current \<leftarrow> world (wp_current_source p (oq_file_path q));
             ret (and_then (check_source_after q r current) (\<lambda>_.
               if answers_request q r then Ok r else failed (lit ''worker response route, source, or budget mismatch'')))
           })"

definition classifier_source_failure :: "classify_request \<Rightarrow> rstring \<Rightarrow> parse_failure" where
  "classifier_source_failure q message =
     \<lparr>fl_class = RecoverableParserFailure, fl_diagnostic = \<lparr>dg_error_code = SourceVersionChanged, dg_message = message,
        dg_retryable = True, dg_stage = StageParse, dg_file_path = Some (cq_file_path q), dg_backend = None\<rparr>\<rparr>"

definition validate_classifier_source_before ::
  "'w worker_ports \<Rightarrow> classify_request \<Rightarrow> ('w host, (unit, parse_failure) result) state" where
  "validate_classifier_source_before p q = do {
     current \<leftarrow> world (wp_current_source p (cq_file_path q));
     ret (case current of
        None \<Rightarrow> Err (classifier_source_failure q (lit ''file metadata is unavailable before classifier start''))
      | Some (source_version, _) \<Rightarrow>
          if source_version \<noteq> cq_source_version q
          then Err (classifier_source_failure q (lit ''file source version changed before classifier start''))
          else Ok ())
   }"

definition validate_classifier_source_after ::
  "'w worker_ports \<Rightarrow> classify_request \<Rightarrow> ('w host, (unit, parse_failure) result) state" where
  "validate_classifier_source_after p q = do {
     current \<leftarrow> world (wp_current_source p (cq_file_path q));
     ret (case current of
        None \<Rightarrow> Err (classifier_source_failure q (lit ''file source became unavailable during classification''))
      | Some (source_version, _) \<Rightarrow>
          if source_version \<noteq> cq_source_version q
          then Err (classifier_source_failure q (lit ''file source version changed during classification''))
          else Ok ())
   }"

section \<open>What registration is worth\<close>

text \<open>A worker that was registered announced every operation its command needs.\<close>

lemma registered_operations:
  assumes "register_worker codec version command output = Ok worker"
  shows "gw_command worker = command"
    and "set (required_operations (wm_expected_kind command)) \<subseteq> set (hl_supported_operations (gw_identity worker))"
    and "validate_hello (gw_identity worker) = Ok ()"
  using assms
  by (auto simp: register_worker_def supports_required_operations_def list_all_iff Let_def split: if_splits)

text \<open>So a request the checks let through is one its worker announced, and the other worker never gets it.\<close>

lemma accepted_operation_announced:
  assumes "register_worker codec version command output = Ok worker"
    and "command = office_worker_command path \<or> command = pdf_worker_command path"
    and "backend_as_str (oq_backend q) \<in> set (wm_required_backends command)"
  shows "operation_of_backend (oq_backend q) \<in> set (hl_supported_operations (gw_identity worker))"
proof -
  have "operation_of_backend (oq_backend q) \<in> set (required_operations (wm_expected_kind command))"
    using assms(2,3)
    by (cases "oq_backend q") (auto simp: office_worker_command_def pdf_worker_command_def operation_of_backend_def
        required_operations_def)
  then show ?thesis using registered_operations(2) [OF assms(1)] by blast
qed

text \<open>The identifiers are accepted by the check of every frame.\<close>

lemma hex_digit_valid: "n < 16 \<Longrightarrow> is_ascii_hexdigit (hex_digit n)"
  by (simp add: hex_digit_def is_ascii_hexdigit_def is_ascii_digit_def)

lemma hex2_valid: "list_all is_ascii_hexdigit (hex2 b)" and hex2_length: "length (hex2 b) = 2"
proof -
  have "unat b < 2 ^ LENGTH(8)" by (rule unsigned_less)
  then have "unat b div 16 < 16" by (simp add: div_less_iff_less_mult)
  then show "list_all is_ascii_hexdigit (hex2 b)" by (simp add: hex2_def hex_digit_valid)
qed (simp add: hex2_def)

lemma hex_group:
  "list_all is_ascii_hexdigit (concat (map hex2 bs)) \<and> length (concat (map hex2 bs)) = 2 * length bs"
  by (induction bs) (simp_all add: hex2_valid hex2_length)

lemma uuid_groups:
  assumes "list_all is_ascii_hexdigit (a @ b @ c @ d @ e)"
    and "length a = 8" "length b = 4" "length c = 4" "length d = 4" "length e = 12"
  shows "validate_request_id (join [45] [a, b, c, d, e]) = Ok ()"
proof -
  let ?v = "join [45] [a, b, c, d, e]"
  have v: "?v = a @ [45] @ b @ [45] @ c @ [45] @ d @ [45] @ e" by simp
  have hex: "k < 8 \<Longrightarrow> is_ascii_hexdigit (a ! k)" "k < 4 \<Longrightarrow> is_ascii_hexdigit (b ! k)"
    "k < 4 \<Longrightarrow> is_ascii_hexdigit (c ! k)" "k < 4 \<Longrightarrow> is_ascii_hexdigit (d ! k)"
    "k < 12 \<Longrightarrow> is_ascii_hexdigit (e ! k)" for k
    using assms by (simp_all add: list_all_iff)
  have "i \<in> {8, 13, 18, 23} \<or> is_ascii_hexdigit (?v ! i)" if i: "i < 36" for i
  proof -
    consider "i \<in> {8, 13, 18, 23}" | "i < 8" | "8 < i" "i < 13" | "13 < i" "i < 18" | "18 < i" "i < 23" | "23 < i"
      by (metis insertCI linorder_neqE_nat)
    then show ?thesis
    proof cases
      case 2
      then show ?thesis unfolding v using assms(2) hex(1) [of i] by (simp add: nth_append)
    next
      case 3
      then have "i - 9 < 4" using i by arith
      with 3 show ?thesis unfolding v using assms(2-3) hex(2) [of "i - 9"] by (simp add: nth_append nth_Cons')
    next
      case 4
      then have "i - 14 < 4" "\<not> i - 9 < 4" using i by arith+
      with 4 show ?thesis unfolding v using assms(2-4) hex(3) [of "i - 14"] by (simp add: nth_append nth_Cons')
    next
      case 5
      then have "i - 19 < 4" "\<not> i - 9 < 4" "\<not> i - 14 < 4" using i by arith+
      with 5 show ?thesis unfolding v using assms(2-5) hex(4) [of "i - 19"] by (simp add: nth_append nth_Cons')
    next
      case 6
      then have "i - 24 < 12" "\<not> i - 9 < 4" "\<not> i - 14 < 4" "\<not> i - 19 < 4" using i by arith+
      with 6 show ?thesis unfolding v using i assms(2-6) hex(5) [of "i - 24"] by (simp add: nth_append nth_Cons')
    qed simp_all
  qed
  moreover have "length ?v = 36" using assms(2-6) by simp
  moreover have "?v ! 8 = 45" "?v ! 13 = 45" "?v ! 18 = 45" "?v ! 23 = 45"
    using assms(2-6) unfolding v by (simp_all add: nth_append)
  ultimately show ?thesis unfolding validate_request_id_def require_Ok list_all_iff by simp
qed

lemma next_request_id_valid: "validate_request_id (next_request_id nanos process_id counter) = Ok ()"
  unfolding next_request_id_def Let_def
  by (rule uuid_groups) (simp_all add: hex_group be_bytes_def del: upt_Suc)

end
