(* ===== verification/Worker_Pool.thy ===== *)
theory Worker_Pool
  imports Worker_Requests
begin

text \<open>
  The pool half of \<open>src/rust/scanner_core/src/session.rs\<close>: a slot with its session, one logical operation on a slot
  with its deadline, its retry and its counters, the two operations on files, and the stack of free
  slots from which operations take theirs. The loop of an operation is a recursive function; it ends because
  only the first failure is retried.
\<close>

section \<open>Outcomes and counters\<close>

datatype worker_transport = TransportSession | TransportNotApplicable

record 'a session_operation_outcome =
  vo_value :: 'a
  vo_transport :: worker_transport
  vo_attempt_count :: u64
  vo_duration_ms :: u64

record session_operation_failure =
  vf_failure :: parse_failure
  vf_transport :: worker_transport
  vf_attempt_count :: u64
  vf_duration_ms :: u64

definition operation_failure ::
  "parse_failure \<Rightarrow> worker_transport \<Rightarrow> u64 \<Rightarrow> u64 \<Rightarrow> session_operation_failure" where
  "operation_failure failure transport attempt_count duration_ms =
     \<lparr>vf_failure = failure, vf_transport = transport, vf_attempt_count = attempt_count, vf_duration_ms = duration_ms\<rparr>"

definition transport_for_attempts :: "u64 \<Rightarrow> worker_transport" where
  "transport_for_attempts session_attempt_count =
     (if 0 < session_attempt_count then TransportSession else TransportNotApplicable)"

text \<open>Times in nanoseconds; \<open>as_millis\<close> rounds down.\<close>

definition observed_duration_ms :: "nat \<Rightarrow> u64" where
  "observed_duration_ms ns = min (ns div 10 ^ 6) u64_max"

definition timeout_ms_of :: "nat \<Rightarrow> u64" where
  "timeout_ms_of ns = min (max (ns div 10 ^ 6) 1) u64_max"

record session_pool_stats =
  pt_session_restart_count :: u64
  pt_peak_worker_rss_bytes :: "u64 option"

definition combine_stats :: "session_pool_stats \<Rightarrow> session_pool_stats \<Rightarrow> session_pool_stats" where
  "combine_stats left right =
     \<lparr>pt_session_restart_count = saturating_add (pt_session_restart_count left) (pt_session_restart_count right),
      pt_peak_worker_rss_bytes =
        (case (pt_peak_worker_rss_bytes left, pt_peak_worker_rss_bytes right) of
           (Some l, Some r) \<Rightarrow> Some (max l r) | _ \<Rightarrow> None)\<rparr>"

definition counters_observe_rss :: "u64 option \<Rightarrow> pool_counters \<Rightarrow> pool_counters" where
  "counters_observe_rss value c =
     (let c = c\<lparr>pn_rss_observation_attempted := True\<rparr> in
      case value of
        Some v \<Rightarrow> c\<lparr>pn_peak_worker_rss_bytes := max (pn_peak_worker_rss_bytes c) v\<rparr>
      | None \<Rightarrow> c\<lparr>pn_rss_observation_failed := True\<rparr>)"

definition counters_snapshot :: "pool_counters \<Rightarrow> session_pool_stats" where
  "counters_snapshot c =
     \<lparr>pt_session_restart_count = pn_session_restart_count c,
      pt_peak_worker_rss_bytes =
        (if pn_rss_observation_failed c then None
         else if pn_rss_observation_attempted c then Some (pn_peak_worker_rss_bytes c) else Some 0)\<rparr>"

section \<open>Slots\<close>

record session_slot =
  sl_session :: "worker_session option"
  sl_replacement_pending :: bool

record 'w worker_pool =
  wl_ports :: "'w worker_ports"
  wl_codec :: session_codec
  wl_command :: worker_command
  wl_expected :: worker_hello
  wl_worker :: registered_worker
  wl_params :: session_params

definition observe_rss :: "u64 option \<Rightarrow> ('w host, unit) state" where
  "observe_rss value = do {
     State_Monad.update (\<lambda>s. s\<lparr>hs_counters := counters_observe_rss value (hs_counters s)\<rparr>);
     observe_started_child value
   }"

text \<open>The statistics of the pool look at every session that is there.\<close>

fun observe_slots :: "'w worker_ports \<Rightarrow> session_slot list \<Rightarrow> ('w host, unit) state" where
  "observe_slots p [] = ret ()"
| "observe_slots p (slot # slots) = do {
     (case sl_session slot of
        None \<Rightarrow> ret ()
      | Some session \<Rightarrow> do { rss \<leftarrow> session_peak_rss p session; observe_rss rss });
     observe_slots p slots
   }"

definition pool_stats :: "'w worker_pool \<Rightarrow> session_slot list \<Rightarrow> ('w host, session_pool_stats) state" where
  "pool_stats pool slots = do {
     observe_slots (wl_ports pool) slots;
     s \<leftarrow> State_Monad.get;
     ret (counters_snapshot (hs_counters s))
   }"

text \<open>A time-out kills the session of the slot and leaves it there, dead, for the next operation to recycle.\<close>

definition kill_slot :: "'w worker_pool \<Rightarrow> session_slot \<Rightarrow> ('w host, session_slot) state" where
  "kill_slot pool slot =
     (case sl_session slot of
        None \<Rightarrow> ret slot
      | Some session \<Rightarrow> do {
          rss \<leftarrow> session_peak_rss (wl_ports pool) session;
          observe_rss rss;
          killed \<leftarrow> kill_session (wl_ports pool) session;
          ret \<lparr>sl_session = Some killed, sl_replacement_pending = True\<rparr>
        })"

definition retire_slot :: "'w worker_pool \<Rightarrow> session_slot \<Rightarrow> ('w host, session_slot) state" where
  "retire_slot pool slot = do {
     kill_slot pool slot;
     ret \<lparr>sl_session = None, sl_replacement_pending = True\<rparr>
   }"

definition recycle_slot :: "'w worker_pool \<Rightarrow> session_slot \<Rightarrow> ('w host, session_slot) state" where
  "recycle_slot pool slot =
     (case sl_session slot of
        None \<Rightarrow> ret slot
      | Some session \<Rightarrow> do {
          due \<leftarrow> session_recycle_due (wl_ports pool) session;
          if due then retire_slot pool slot else ret slot
        })"

definition count_restart :: "('w host, unit) state" where
  "count_restart = State_Monad.update (\<lambda>s. s\<lparr>hs_counters := (hs_counters s)\<lparr>pn_session_restart_count :=
     (pn_session_restart_count (hs_counters s) + 1) mod (u64_max + 1)\<rparr>\<rparr>)"

definition ensure_session ::
  "'w worker_pool \<Rightarrow> nat \<Rightarrow> session_slot \<Rightarrow> ('w host, (unit, session_error) result \<times> session_slot) state" where
  "ensure_session pool remaining slot =
     (case sl_session slot of
        Some _ \<Rightarrow> ret (Ok (), slot)
      | None \<Rightarrow> do {
          started \<leftarrow> start_observed (wl_ports pool) (wl_codec pool) (wl_command pool) (wl_expected pool) (wl_params pool) remaining;
          case started of
            Err e \<Rightarrow> ret (Err e, slot)
          | Ok session \<Rightarrow> do {
              rss \<leftarrow> session_peak_rss (wl_ports pool) session;
              observe_rss rss;
              (if sl_replacement_pending slot then count_restart else ret ());
              ret (Ok (), \<lparr>sl_session = Some session, sl_replacement_pending = False\<rparr>)
            }
        })"

section \<open>One operation\<close>

type_synonym ('w, 'a) session_call = "worker_session \<Rightarrow> nat \<Rightarrow> ('w host, ('a, session_error) result \<times> worker_session) state"

datatype 'a operation_pass =
    Finished "('a session_operation_outcome, session_operation_failure) result"
  | Again nat u64 u64

definition remaining_time :: "'w worker_ports \<Rightarrow> nat \<Rightarrow> nat \<Rightarrow> ('w host, nat) state" where
  "remaining_time p timeout origin = do { now \<leftarrow> world (wp_now p); ret (timeout - (now - origin)) }"

definition time_out ::
  "'w worker_pool \<Rightarrow> rstring \<Rightarrow> u64 \<Rightarrow> u64 \<Rightarrow> session_slot \<Rightarrow> ('w host, 'a operation_pass \<times> session_slot) state" where
  "time_out pool path attempts duration slot = do {
     slot \<leftarrow> kill_slot pool slot;
     ret (Finished (Err (operation_failure (session_diagnostic SessionTimeout (Some path))
            (transport_for_attempts attempts) attempts duration)), slot)
   }"

text \<open>What a failure leads to: another pass, or the end of the operation.\<close>

definition after_failure ::
  "session_error \<Rightarrow> rstring \<Rightarrow> worker_transport \<Rightarrow> nat \<Rightarrow> u64 \<Rightarrow> u64 \<Rightarrow> 'a operation_pass" where
  "after_failure e path transport index attempts duration =
     (case retry_action e index of
        RetrySession \<Rightarrow> Again (index + 1) attempts duration
      | GiveUp \<Rightarrow> Finished (Err (operation_failure (session_diagnostic e (Some path)) transport attempts duration)))"

definition call_session ::
  "'w worker_pool \<Rightarrow> ('w, 'a) session_call \<Rightarrow> rstring \<Rightarrow> nat \<Rightarrow> nat \<Rightarrow> u64 \<Rightarrow> u64 \<Rightarrow> session_slot
     \<Rightarrow> ('w host, 'a operation_pass \<times> session_slot) state" where
  "call_session pool call path remaining index attempts duration slot = do {
     began \<leftarrow> world (wp_now (wl_ports pool));
     (outcome, session) \<leftarrow> call (the (sl_session slot)) remaining;
     ended \<leftarrow> world (wp_now (wl_ports pool));
     let attempts = saturating_add attempts 1;
     let duration = saturating_add duration (observed_duration_ms (ended - began));
     let slot = slot\<lparr>sl_session := Some session\<rparr>;
     case outcome of
       Ok value \<Rightarrow> do {
         rss \<leftarrow> session_peak_rss (wl_ports pool) session;
         observe_rss rss;
         ret (Finished (Ok \<lparr>vo_value = value, vo_transport = TransportSession, vo_attempt_count = attempts,
                vo_duration_ms = duration\<rparr>), slot)
       }
     | Err e \<Rightarrow> do {
         slot \<leftarrow> retire_slot pool slot;
         ret (after_failure e path TransportSession index attempts duration, slot)
       }
   }"

text \<open>The body of the loop.\<close>

definition operation_pass ::
  "'w worker_pool \<Rightarrow> ('w, 'a) session_call \<Rightarrow> rstring \<Rightarrow> nat \<Rightarrow> nat \<Rightarrow> nat \<Rightarrow> u64 \<Rightarrow> u64 \<Rightarrow> session_slot
     \<Rightarrow> ('w host, 'a operation_pass \<times> session_slot) state" where
  "operation_pass pool call path timeout origin index attempts duration slot = do {
     remaining \<leftarrow> remaining_time (wl_ports pool) timeout origin;
     if remaining = 0 then time_out pool path attempts duration slot
     else do {
       slot \<leftarrow> recycle_slot pool slot;
       (started, slot) \<leftarrow> ensure_session pool remaining slot;
       case started of
         Err e \<Rightarrow> ret (after_failure e path (transport_for_attempts attempts) index attempts duration, slot)
       | Ok _ \<Rightarrow> do {
           remaining \<leftarrow> remaining_time (wl_ports pool) timeout origin;
           if remaining = 0 then time_out pool path attempts duration slot
           else call_session pool call path remaining index attempts duration slot
         }
     }
   }"

lemma after_failure_again: "after_failure e path transport index attempts duration = Again i a d \<Longrightarrow> index = 0 \<and> i = 1"
  by (auto simp: after_failure_def dest: retry_only_first split: retry_action.splits)

lemma time_out_finishes: "run_state (time_out pool path attempts duration slot) s \<noteq> ((Again i a d, slot'), t)"
  by (simp add: time_out_def split: prod.splits)

lemma call_session_again:
  "run_state (call_session pool call path remaining index attempts duration slot) s = ((Again i a d, slot'), t)
   \<Longrightarrow> index = 0 \<and> i = 1"
  by (auto simp: call_session_def Let_def split: prod.splits result.splits dest: after_failure_again)

lemma operation_pass_again:
  "run_state (operation_pass pool call path timeout origin index attempts duration slot) s = ((Again i a d, slot'), t)
   \<Longrightarrow> index = 0 \<and> i = 1"
  by (auto simp: operation_pass_def time_out_finishes split: prod.splits result.splits if_splits
      dest: after_failure_again call_session_again)

function operation_loop ::
  "'w worker_pool \<Rightarrow> ('w, 'a) session_call \<Rightarrow> rstring \<Rightarrow> nat \<Rightarrow> nat \<Rightarrow> nat \<Rightarrow> u64 \<Rightarrow> u64 \<Rightarrow> session_slot \<Rightarrow> 'w host
     \<Rightarrow> (('a session_operation_outcome, session_operation_failure) result \<times> session_slot) \<times> 'w host" where
  "operation_loop pool call path timeout origin index attempts duration slot s =
     (case run_state (operation_pass pool call path timeout origin index attempts duration slot) s of
        ((Finished r, slot'), t) \<Rightarrow> ((r, slot'), t)
      | ((Again i a d, slot'), t) \<Rightarrow> operation_loop pool call path timeout origin i a d slot' t)"
  by pat_completeness auto
termination
  by (relation "measure (\<lambda>(pool, call, path, timeout, origin, index, attempts, duration, slot, s). 1 - index)")
    (auto dest: operation_pass_again [OF sym])

declare operation_loop.simps [simp del]

definition execute_operation ::
  "'w worker_pool \<Rightarrow> rstring \<Rightarrow> nat \<Rightarrow> ('w, 'a) session_call \<Rightarrow> session_slot
     \<Rightarrow> ('w host, ('a session_operation_outcome, session_operation_failure) result \<times> session_slot) state" where
  "execute_operation pool path timeout call slot = do {
     origin \<leftarrow> world (wp_now (wl_ports pool));
     State (operation_loop pool call path timeout origin 0 0 0 slot)
   }"

section \<open>Operations on files\<close>

definition not_started :: "parse_failure \<Rightarrow> session_operation_failure" where
  "not_started failure = operation_failure failure TransportNotApplicable 0 0"

definition classify_pdf ::
  "'w worker_pool \<Rightarrow> classify_operation \<Rightarrow> nat \<Rightarrow> session_slot
     \<Rightarrow> ('w host, (classify_result session_operation_outcome, session_operation_failure) result \<times> session_slot) state" where
  "classify_pdf pool request timeout slot = do {
     before \<leftarrow> validate_classifier_source_before (wl_ports pool) (wc_payload request);
     case before of
       Err failure \<Rightarrow> ret (Err (not_started failure), slot)
     | Ok _ \<Rightarrow> do {
         (answer, slot) \<leftarrow> execute_operation pool (cq_file_path (wc_payload request)) timeout
           (\<lambda>session remaining. dispatch_classify (wl_ports pool) (wl_codec pool) request session remaining) slot;
         case answer of
           Err failure \<Rightarrow> ret (Err failure, slot)
         | Ok outcome \<Rightarrow> do {
             after \<leftarrow> validate_classifier_source_after (wl_ports pool) (wc_payload request);
             ret (case after of
                Err failure \<Rightarrow> Err (operation_failure failure (vo_transport outcome) (vo_attempt_count outcome) (vo_duration_ms outcome))
              | Ok _ \<Rightarrow> Ok outcome, slot)
           }
       }
   }"

definition with_remaining_time :: "parse_operation \<Rightarrow> nat \<Rightarrow> parse_operation" where
  "with_remaining_time request remaining =
     request\<lparr>wo_payload := (wo_payload request)\<lparr>oq_remaining_timeout_ms := timeout_ms_of remaining\<rparr>\<rparr>"

definition parse_worker ::
  "'w worker_pool \<Rightarrow> parse_operation \<Rightarrow> nat \<Rightarrow> session_slot
     \<Rightarrow> ('w host, (worker_parse_result session_operation_outcome, session_operation_failure) result \<times> session_slot) state" where
  "parse_worker pool request timeout slot = do {
     before \<leftarrow> validate_worker_request (wl_ports pool) (wl_worker pool) request;
     case before of
       Err failure \<Rightarrow> ret (Err (not_started failure), slot)
     | Ok _ \<Rightarrow> do {
         (answer, slot) \<leftarrow> execute_operation pool (oq_file_path (wo_payload request)) timeout
           (\<lambda>session remaining. dispatch_parse (wl_ports pool) (wl_codec pool) (with_remaining_time request remaining) session remaining) slot;
         case answer of
           Err failure \<Rightarrow> ret (Err failure, slot)
         | Ok outcome \<Rightarrow> do {
             after \<leftarrow> validate_session_worker_response (wl_ports pool) (wl_codec pool) request (vo_value outcome);
             ret (case after of
                Err failure \<Rightarrow> Err (operation_failure failure (vo_transport outcome) (vo_attempt_count outcome) (vo_duration_ms outcome))
              | Ok value \<Rightarrow> Ok (outcome\<lparr>vo_value := value\<rparr>), slot)
           }
       }
   }"

text \<open>\<open>parse_pdf\<close> has the same body.\<close>

definition parse_pdf ::
  "'w worker_pool \<Rightarrow> parse_operation \<Rightarrow> nat \<Rightarrow> session_slot
     \<Rightarrow> ('w host, (worker_parse_result session_operation_outcome, session_operation_failure) result \<times> session_slot) state" where
  "parse_pdf = parse_worker"

end
