(* ===== verification/Worker_Promises.thy ===== *)
theory Worker_Promises
  imports Worker_Pool
begin

text \<open>
  What the worker pool promises the scheduler: an operation makes at most two calls and reports just these
  calls, an accepted answer is the answer to its request, no worker process is left behind, no
  two operations share a slot. Also what a time-out does to the memory statistics.
\<close>

section \<open>Attempts\<close>

text \<open>What an operation did, apart from its own counters: the calls of a worker it made, each with its outcome and the
  nanoseconds between the clock before and after it. A pass reaches its call when there is time left, a session is
  there or starts, and there is still time left.\<close>

definition pass_reaches ::
  "'w worker_pool \<Rightarrow> nat \<Rightarrow> nat \<Rightarrow> session_slot \<Rightarrow> ('w host, (worker_session \<times> nat) option) state" where
  "pass_reaches pool timeout origin slot = do {
     remaining \<leftarrow> remaining_time (wl_ports pool) timeout origin;
     if remaining = 0 then ret None
     else do {
       slot \<leftarrow> recycle_slot pool slot;
       (started, slot) \<leftarrow> ensure_session pool remaining slot;
       case started of
         Err _ \<Rightarrow> ret None
       | Ok _ \<Rightarrow> do {
           remaining \<leftarrow> remaining_time (wl_ports pool) timeout origin;
           ret (if remaining = 0 then None else Some (the (sl_session slot), remaining))
         }
     }
   }"

definition timed_call ::
  "'w worker_pool \<Rightarrow> ('w, 'a) session_call \<Rightarrow> worker_session \<Rightarrow> nat \<Rightarrow> ('w host, ('a, session_error) result \<times> nat) state" where
  "timed_call pool call session remaining = do {
     began \<leftarrow> world (wp_now (wl_ports pool));
     (outcome, _) \<leftarrow> call session remaining;
     ended \<leftarrow> world (wp_now (wl_ports pool));
     ret (outcome, ended - began)
   }"

definition pass_calls ::
  "'w worker_pool \<Rightarrow> ('w, 'a) session_call \<Rightarrow> nat \<Rightarrow> nat \<Rightarrow> session_slot \<Rightarrow> 'w host
     \<Rightarrow> (('a, session_error) result \<times> nat) list" where
  "pass_calls pool call timeout origin slot s =
     (case run_state (pass_reaches pool timeout origin slot) s of
        (None, _) \<Rightarrow> []
      | (Some (session, remaining), t) \<Rightarrow> [fst (run_state (timed_call pool call session remaining) t)])"

text \<open>The calls of all passes of the loop, in the state each pass really starts from.\<close>

function loop_calls ::
  "'w worker_pool \<Rightarrow> ('w, 'a) session_call \<Rightarrow> rstring \<Rightarrow> nat \<Rightarrow> nat \<Rightarrow> nat \<Rightarrow> u64 \<Rightarrow> u64 \<Rightarrow> session_slot \<Rightarrow> 'w host
     \<Rightarrow> (('a, session_error) result \<times> nat) list" where
  "loop_calls pool call path timeout origin index attempts duration slot s =
     pass_calls pool call timeout origin slot s @
     (case run_state (operation_pass pool call path timeout origin index attempts duration slot) s of
        ((Finished r, slot'), t) \<Rightarrow> []
      | ((Again i a d, slot'), t) \<Rightarrow> loop_calls pool call path timeout origin i a d slot' t)"
  by pat_completeness auto
termination
  by (relation "measure (\<lambda>(pool, call, path, timeout, origin, index, attempts, duration, slot, s). 1 - index)")
    (auto dest: operation_pass_again [OF sym])

declare loop_calls.simps [simp del]

definition calls_made ::
  "'w worker_pool \<Rightarrow> rstring \<Rightarrow> nat \<Rightarrow> ('w, 'a) session_call \<Rightarrow> session_slot \<Rightarrow> 'w host \<Rightarrow> (('a, session_error) result \<times> nat) list" where
  "calls_made pool path timeout call slot s =
     (case wp_now (wl_ports pool) (hs_world s) of
        (origin, w) \<Rightarrow> loop_calls pool call path timeout origin 0 0 0 slot (s\<lparr>hs_world := w\<rparr>))"

text \<open>The milliseconds of the calls, each rounded down, added up in 64 bits.\<close>

definition total_ms :: "('o \<times> nat) list \<Rightarrow> u64" where
  "total_ms calls = foldl (\<lambda>sum (_, elapsed). saturating_add sum (observed_duration_ms elapsed)) 0 calls"

lemma total_ms_simps [simp]:
  "total_ms [] = 0"
  "total_ms (calls @ [(outcome, elapsed)]) = saturating_add (total_ms calls) (observed_duration_ms elapsed)"
  by (simp_all add: total_ms_def)

definition reports :: "(('a, session_error) result \<times> nat) list \<Rightarrow>
    ('a session_operation_outcome, session_operation_failure) result \<Rightarrow> bool" where
  "reports calls r =
     (case r of
        Ok out \<Rightarrow> calls \<noteq> [] \<and> fst (last calls) = Ok (vo_value out) \<and> (\<forall>c\<in>set (butlast calls). \<not> is_ok (fst c))
          \<and> vo_transport out = TransportSession \<and> vo_attempt_count out = length calls \<and> vo_duration_ms out = total_ms calls
      | Err f \<Rightarrow> (\<forall>c\<in>set calls. \<not> is_ok (fst c))
          \<and> vf_transport f = (if calls = [] then TransportNotApplicable else TransportSession)
          \<and> vf_attempt_count f = length calls \<and> vf_duration_ms f = total_ms calls)"

text \<open>The counters of the loop agree with the calls so far, all of which failed.\<close>

definition counted :: "(('a, session_error) result \<times> nat) list \<Rightarrow> nat \<Rightarrow> u64 \<Rightarrow> u64 \<Rightarrow> bool" where
  "counted past index attempts duration \<longleftrightarrow> index \<le> 1 \<and> length past \<le> index \<and> attempts = length past
     \<and> duration = total_ms past \<and> (\<forall>c\<in>set past. \<not> is_ok (fst c))"

definition pass_reports :: "(('a, session_error) result \<times> nat) list \<Rightarrow> 'a operation_pass \<Rightarrow> bool" where
  "pass_reports calls pass =
     (case pass of Finished r \<Rightarrow> length calls \<le> 2 \<and> reports calls r | Again i a d \<Rightarrow> counted calls i a d)"

lemma after_failure_reports:
  assumes "index \<le> 1" "length calls \<le> index + 1" "\<forall>c\<in>set calls. \<not> is_ok (fst c)"
    and "transport = (if calls = [] then TransportNotApplicable else TransportSession)"
  shows "pass_reports calls (after_failure e path transport index (length calls) (total_ms calls))"
  using assms retry_only_first [of e index]
  by (auto simp: after_failure_def pass_reports_def reports_def counted_def operation_failure_def split: retry_action.splits)

lemma time_out_reports:
  assumes "counted past index attempts duration"
    and "run_state (time_out pool path attempts duration slot) s = ((r, slot'), t)"
  shows "pass_reports past r"
  using assms
  by (auto simp: time_out_def counted_def pass_reports_def reports_def operation_failure_def transport_for_attempts_def
      split: prod.splits)

lemma call_session_reports:
  assumes past: "counted past index attempts duration"
    and run: "run_state (call_session pool call path remaining index attempts duration slot) s = ((r, slot'), t)"
  shows "pass_reports (past @ [fst (run_state (timed_call pool call (the (sl_session slot)) remaining) s)]) r"
proof -
  obtain outcome elapsed u where c: "run_state (timed_call pool call (the (sl_session slot)) remaining) s = ((outcome, elapsed), u)"
    by (metis surj_pair)
  have n: "saturating_add attempts (Suc 0) = Suc (length past)"
    using past saturating_add_eq [of attempts 1] by (simp add: counted_def u64_max_def)
  have f: "pass_reports (past @ [(Err e, elapsed)]) (after_failure e path TransportSession index (Suc (length past))
      (saturating_add duration (observed_duration_ms elapsed)))" for e
    using after_failure_reports [of index "past @ [(Err e, elapsed)]" TransportSession e path] past
    by (simp add: counted_def)
  show ?thesis
  proof (cases outcome)
    case (Ok v)
    with c run past show ?thesis
      by (auto simp: call_session_def timed_call_def Let_def n pass_reports_def reports_def counted_def split: prod.splits)
  next
    case (Err e)
    with c run have "r = after_failure e path TransportSession index (Suc (length past))
        (saturating_add duration (observed_duration_ms elapsed))"
      by (auto simp: call_session_def timed_call_def Let_def n split: prod.splits)
    with f c Err show ?thesis by simp
  qed
qed

lemma operation_pass_reports:
  assumes past: "counted past index attempts duration"
    and run: "run_state (operation_pass pool call path timeout origin index attempts duration slot) s = ((r, slot'), t)"
  shows "pass_reports (past @ pass_calls pool call timeout origin slot s) r"
proof -
  have "pass_reports past (after_failure e path (transport_for_attempts attempts) index attempts duration)" for e
    using after_failure_reports [of index past "transport_for_attempts attempts" e path] past
    by (cases "past = []") (simp_all add: counted_def transport_for_attempts_def)
  then show ?thesis using run time_out_reports [OF past] call_session_reports [OF past]
    by (auto simp: operation_pass_def pass_calls_def pass_reaches_def split: prod.splits result.splits if_splits)
qed

lemma operation_loop_reports:
  "counted past index attempts duration \<Longrightarrow>
   operation_loop pool call path timeout origin index attempts duration slot s = ((r, slot'), t) \<Longrightarrow>
   length (past @ loop_calls pool call path timeout origin index attempts duration slot s) \<le> 2
     \<and> reports (past @ loop_calls pool call path timeout origin index attempts duration slot s) r"
proof (induction pool call path timeout origin index attempts duration slot s arbitrary: past rule: operation_loop.induct)
  case (1 pool call path timeout origin index attempts duration slot s)
  obtain pass slot1 s1 where pass: "run_state (operation_pass pool call path timeout origin index attempts duration slot) s
      = ((pass, slot1), s1)" by (metis surj_pair)
  let ?calls = "past @ pass_calls pool call timeout origin slot s"
  have now: "pass_reports ?calls pass" by (rule operation_pass_reports [OF "1.prems"(1) pass])
  show ?case
  proof (cases pass)
    case (Finished out)
    then have "r = out" using "1.prems"(2) pass by (subst (asm) operation_loop.simps) simp
    moreover have "loop_calls pool call path timeout origin index attempts duration slot s
        = pass_calls pool call timeout origin slot s"
      using pass Finished by (subst loop_calls.simps) simp
    ultimately show ?thesis using now Finished by (simp add: pass_reports_def)
  next
    case (Again i a d)
    have loop: "operation_loop pool call path timeout origin i a d slot1 s1 = ((r, slot'), t)"
      using "1.prems"(2) pass Again by (subst (asm) operation_loop.simps) simp
    have "loop_calls pool call path timeout origin index attempts duration slot s
        = pass_calls pool call timeout origin slot s @ loop_calls pool call path timeout origin i a d slot1 s1"
      using pass Again by (subst loop_calls.simps) simp
    moreover have "counted ?calls i a d" using now Again by (simp add: pass_reports_def)
    ultimately show ?thesis using "1.IH" [OF pass [symmetric] refl Again _ loop, of ?calls] by simp
  qed
qed

text \<open>C36. An operation on a worker makes at most two calls and reports what happened, whatever the processes, the clock
  and the workers do. \<open>calls_made\<close> lists the calls with their outcomes and the time each took, apart from the
  counters of the operation. A success is the value of the last call, the only one that did not fail; a failure means
  that every call failed. Either way the attempt count is the number of calls, the duration the sum of their
  milliseconds in 64 bits, and the transport a session exactly when a call was made. The ports are total
  functions: that a write into a full pipe returns is not shown here.\<close>

theorem operations_end_within_two_attempts:
  "\<exists>r slot' t. run_state (execute_operation pool path timeout call slot) s = ((r, slot'), t)
     \<and> length (calls_made pool path timeout call slot s) \<le> 2
     \<and> (case r of
          Ok out \<Rightarrow> calls_made pool path timeout call slot s \<noteq> []
            \<and> fst (last (calls_made pool path timeout call slot s)) = Ok (vo_value out)
            \<and> (\<forall>c\<in>set (butlast (calls_made pool path timeout call slot s)). \<not> is_ok (fst c))
            \<and> vo_transport out = TransportSession
            \<and> vo_attempt_count out = length (calls_made pool path timeout call slot s)
            \<and> vo_duration_ms out = total_ms (calls_made pool path timeout call slot s)
        | Err f \<Rightarrow> (\<forall>c\<in>set (calls_made pool path timeout call slot s). \<not> is_ok (fst c))
            \<and> vf_transport f = (if calls_made pool path timeout call slot s = [] then TransportNotApplicable else TransportSession)
            \<and> vf_attempt_count f = length (calls_made pool path timeout call slot s)
            \<and> vf_duration_ms f = total_ms (calls_made pool path timeout call slot s))"
proof -
  obtain origin w where now: "wp_now (wl_ports pool) (hs_world s) = (origin, w)" by fastforce
  obtain r slot' t where loop: "operation_loop pool call path timeout origin 0 0 0 slot (s\<lparr>hs_world := w\<rparr>) = ((r, slot'), t)"
    by (metis surj_pair)
  have "counted [] 0 0 0" by (simp add: counted_def)
  from operation_loop_reports [OF this loop] have "length (calls_made pool path timeout call slot s) \<le> 2"
    "reports (calls_made pool path timeout call slot s) r"
    using now by (simp_all add: calls_made_def)
  with now loop show ?thesis unfolding reports_def by (simp add: execute_operation_def)
qed

section \<open>Answers\<close>

text \<open>The value of a successful operation is what a call returned.\<close>

lemma call_session_value:
  assumes "run_state (call_session pool call path remaining index attempts duration slot) s = ((Finished (Ok out), slot'), t)"
  shows "\<exists>session s' later t'. run_state (call session remaining) s' = ((Ok (vo_value out), later), t')"
  using assms by (fastforce simp: call_session_def Let_def after_failure_def split: prod.splits result.splits retry_action.splits)

lemma operation_pass_value:
  assumes "run_state (operation_pass pool call path timeout origin index attempts duration slot) s = ((Finished (Ok out), slot'), t)"
  shows "\<exists>session remaining s' later t'. run_state (call session remaining) s' = ((Ok (vo_value out), later), t')"
  using assms
  by (auto simp: operation_pass_def time_out_def after_failure_def split: prod.splits result.splits if_splits retry_action.splits
      dest!: call_session_value) blast

lemma operation_loop_value:
  "operation_loop pool call path timeout origin index attempts duration slot s = ((Ok out, slot'), t) \<Longrightarrow>
   \<exists>session remaining s' later t'. run_state (call session remaining) s' = ((Ok (vo_value out), later), t')"
proof (induction pool call path timeout origin index attempts duration slot s rule: operation_loop.induct)
  case (1 pool call path timeout origin index attempts duration slot s)
  obtain pass slot1 s1 where pass: "run_state (operation_pass pool call path timeout origin index attempts duration slot) s
      = ((pass, slot1), s1)" by (metis surj_pair)
  show ?case
  proof (cases pass)
    case (Finished r)
    then have "r = Ok out" using "1.prems" pass by (subst (asm) operation_loop.simps) simp
    then show ?thesis using operation_pass_value pass Finished by blast
  next
    case (Again i a d)
    have "operation_loop pool call path timeout origin i a d slot1 s1 = ((Ok out, slot'), t)"
      using "1.prems" pass Again by (subst (asm) operation_loop.simps) simp
    then show ?thesis by (rule "1.IH" [OF pass [symmetric] refl Again])
  qed
qed

lemma execute_operation_value:
  assumes "run_state (execute_operation pool path timeout call slot) s = ((Ok out, slot'), t)"
  shows "\<exists>session remaining s' later t'. run_state (call session remaining) s' = ((Ok (vo_value out), later), t')"
  using assms by (auto simp: execute_operation_def split: prod.splits dest: operation_loop_value)

lemma exchange_value:
  assumes "run_state (exchange p codec operation request_id payload limit timeout session) s = ((Ok response, later), t)"
  shows "\<exists>line n. limit = Ok n \<and> length line \<le> n \<and> jc_response codec line = Some response \<and> validate_response response = Ok ()
     \<and> wr_operation response = operation \<and> wr_request_id response = request_id"
  using assms
  by (auto simp: exchange_def try_bind_def parse_response_def not_less split: prod.splits result.splits if_splits)

lemma response_result_Ok: "response_result name response = Ok value \<Longrightarrow> wr_result response = Some value"
  by (auto simp: response_result_def split: worker_response_status.splits option.splits)

lemma dispatch_parse_value:
  assumes "run_state (dispatch_parse p codec request session timeout) s = ((Ok r, later), t)"
  shows "\<exists>line response value. is_some_and (worker_response_capture_limit (wo_payload request)) (\<lambda>n. length line \<le> n)
     \<and> jc_response codec line = Some response \<and> wr_request_id response = wo_request_id request
     \<and> wr_operation response = operation_of_backend (oq_backend (wo_payload request))
     \<and> wr_result response = Some value \<and> jc_parse_result codec value = Some r
     \<and> validate_parse_result (jc_audit_bytes codec) r = Ok ()"
  using assms
  by (fastforce simp: dispatch_parse_def parse_value_def split: prod.splits result.splits
      dest!: exchange_value response_result_Ok)

text \<open>C37. An accepted answer is the answer to its request. What a successful parse returns came back on one line within the
  capture limit, in a response with the identifier and the operation of the request; it names the file of the
  request and its source version, which the file still has, comes from the backend of the request (or, for an office
  document, from the one for the format that was detected), fits the time and the characters the request allowed, and
  passes the contract of results.\<close>

theorem accepted_answer_is_for_request:
  assumes "run_state (parse_worker pool request timeout slot) s = ((Ok out, slot'), t)"
  shows "answers_request (wo_payload request) (vo_value out)
     \<and> pw_observed_source_version (vo_value out) = oq_expected_source_version (wo_payload request)
     \<and> validate_parse_result (jc_audit_bytes (wl_codec pool)) (vo_value out) = Ok ()
     \<and> (\<exists>line response value. is_some_and (worker_response_capture_limit (wo_payload request)) (\<lambda>n. length line \<le> n)
          \<and> jc_response (wl_codec pool) line = Some response \<and> wr_request_id response = wo_request_id request
          \<and> wr_operation response = operation_of_backend (oq_backend (wo_payload request))
          \<and> wr_result response = Some value \<and> jc_parse_result (wl_codec pool) value = Some (vo_value out))"
proof -
  from assms obtain s1 outcome slot1 s2 answer where
    run: "run_state (execute_operation pool (oq_file_path (wo_payload request)) timeout
        (\<lambda>session remaining. dispatch_parse (wl_ports pool) (wl_codec pool) (with_remaining_time request remaining) session remaining) slot) s1
      = ((Ok outcome, slot1), s2)"
    and after: "fst (run_state (validate_session_worker_response (wl_ports pool) (wl_codec pool) request (vo_value outcome)) s2) = Ok answer"
    and out: "out = outcome\<lparr>vo_value := answer\<rparr>"
    by (auto simp: parse_worker_def split: prod.splits result.splits)
  have same: "answer = vo_value outcome" and checks: "answers_request (wo_payload request) answer"
    "pw_observed_source_version answer = oq_expected_source_version (wo_payload request)"
    "validate_parse_result (jc_audit_bytes (wl_codec pool)) answer = Ok ()"
    using after by (auto simp: validate_session_worker_response_def Let_def check_source_after_def
        split: prod.splits result.splits option.splits if_splits)
  obtain session remaining s' later t' where
    "run_state (dispatch_parse (wl_ports pool) (wl_codec pool) (with_remaining_time request remaining) session remaining) s'
      = ((Ok (vo_value outcome), later), t')"
    using execute_operation_value [OF run] by blast
  from dispatch_parse_value [OF this] checks same show ?thesis
    by (auto simp: out with_remaining_time_def worker_response_capture_limit_def)
qed

section \<open>Processes\<close>

text \<open>\<open>slot_moves\<close>: a slot whose process was among the unreaped ones is now the slot after, and nothing else changed.\<close>

definition slot_moves :: "session_slot \<Rightarrow> session_slot \<Rightarrow> nat set \<Rightarrow> nat set \<Rightarrow> bool" where
  "slot_moves slot slot' before after \<longleftrightarrow>
     (handles (sl_session slot) \<subseteq> before \<longrightarrow>
       after = (before - handles (sl_session slot)) \<union> handles (sl_session slot')
       \<and> handles (sl_session slot') \<inter> (before - handles (sl_session slot)) = {})"

lemma slot_moves_refl [simp]: "slot_moves slot slot before before"
  by (auto simp: slot_moves_def)

lemma slot_moves_trans:
  "slot_moves a b A B \<Longrightarrow> slot_moves b c B C \<Longrightarrow> slot_moves a c A C"
  unfolding slot_moves_def by blast

lemma slot_moves_same:
  "handles (sl_session slot) = handles (sl_session slot') \<Longrightarrow> slot_moves slot slot' before before"
  by (auto simp: slot_moves_def)

lemma slot_moves_start:
  "handles (sl_session a) = handles (sl_session b) \<Longrightarrow> slot_moves a c A B \<Longrightarrow> slot_moves b c A B"
  by (simp add: slot_moves_def)

text \<open>A program on a slot, its value and the slot it leaves.\<close>

abbreviation moves :: "('w \<Rightarrow> nat set) \<Rightarrow> session_slot \<Rightarrow> ('w host, 'a \<times> session_slot) state \<Rightarrow> bool" where
  "moves unreaped slot m \<equiv> leaves unreaped (\<lambda>(_, slot'). slot_moves slot slot') m"

lemma moves_ret: "moves unreaped slot (ret (a, slot))"
  by (simp add: leaves_def)

lemma leaves_quiet: "quiet unreaped m \<Longrightarrow> (\<And>a. leaves unreaped R (f a)) \<Longrightarrow> leaves unreaped R (m \<bind> f)"
  by (rule leaves_bind [where R = "\<lambda>_ before after. after = before" and S = "\<lambda>_. R"]) auto

lemma moves_bind:
  assumes "moves unreaped slot m" and "\<And>a slot'. moves unreaped slot' (f a slot')"
  shows "moves unreaped slot (m \<bind> (\<lambda>(a, slot'). f a slot'))"
  by (rule leaves_bind [OF assms(1), where S = "\<lambda>(_, slot') (_, slot''). slot_moves slot' slot''"])
    (auto intro: assms(2) slot_moves_trans)

lemma moves_slot:
  assumes "leaves unreaped (slot_moves slot) m" and "\<And>slot'. moves unreaped slot' (f slot')"
  shows "moves unreaped slot (m \<bind> f)"
  by (rule leaves_bind [OF assms(1), where S = "\<lambda>slot' (_, slot''). slot_moves slot' slot''"])
    (auto intro: assms(2) slot_moves_trans)

lemma observe_rss_quiet [quiet_intros]: "quiet unreaped (observe_rss peak)"
  unfolding observe_rss_def by (intro quiet_intros) simp

lemma kill_slot_moves:
  assumes laws: "process_laws (wl_ports pool) unreaped"
  shows "leaves unreaped (\<lambda>slot' before after. slot_moves slot slot' before after \<and> handles (sl_session slot') = {}) (kill_slot pool slot)"
proof (cases "sl_session slot")
  case None
  then show ?thesis by (simp add: kill_slot_def leaves_def)
next
  case (Some session)
  let ?R = "\<lambda>slot' before after. slot_moves slot slot' before after \<and> handles (sl_session slot') = {}"
  have "leaves unreaped ?R (kill_session (wl_ports pool) session \<bind>
      (\<lambda>killed. ret \<lparr>sl_session = Some killed, sl_replacement_pending = True\<rparr>))"
    using kill_session_leaves [OF laws, of session]
    by (auto simp: leaves_def slot_moves_def Some split: prod.splits)
  then show ?thesis unfolding kill_slot_def Some option.case
    by (rule leaves_quiet [OF session_quiet(1) [OF laws] leaves_quiet [OF observe_rss_quiet]])
qed

lemma retire_slot_moves:
  assumes laws: "process_laws (wl_ports pool) unreaped"
  shows "leaves unreaped (slot_moves slot) (retire_slot pool slot)"
  unfolding retire_slot_def
  by (rule leaves_bind [OF kill_slot_moves [OF laws, of slot],
        where S = "\<lambda>_ slot' before after. after = before \<and> handles (sl_session slot') = {}"])
    (auto simp: leaves_def slot_moves_def)

lemma recycle_slot_moves:
  assumes laws: "process_laws (wl_ports pool) unreaped"
  shows "leaves unreaped (slot_moves slot) (recycle_slot pool slot)"
proof (cases "sl_session slot")
  case None
  then show ?thesis by (simp add: recycle_slot_def leaves_def)
next
  case (Some session)
  show ?thesis unfolding recycle_slot_def Some option.case
    by (rule leaves_quiet [OF session_quiet(2) [OF laws]])
      (use retire_slot_moves [OF laws, of slot] in \<open>simp add: leaves_def\<close>)
qed

lemma ensure_session_moves:
  assumes laws: "process_laws (wl_ports pool) unreaped"
  shows "moves unreaped slot (ensure_session pool remaining slot)"
proof (cases "sl_session slot")
  case (Some session)
  then show ?thesis by (simp add: ensure_session_def leaves_def)
next
  case None
  let ?started = "\<lambda>session. do {
      rss \<leftarrow> session_peak_rss (wl_ports pool) session;
      observe_rss rss;
      (if sl_replacement_pending slot then count_restart else ret ());
      ret (Ok (), \<lparr>sl_session = Some session, sl_replacement_pending = False\<rparr>)
    } :: ('a host, (unit, session_error) result \<times> session_slot) state"
  have "quiet unreaped (count_restart :: ('a host, unit) state)"
    unfolding count_restart_def by (rule quiet_update) simp
  then have "leaves unreaped (\<lambda>(_, slot') before after. after = before \<and> sl_session slot' = Some session) (?started session)" for session
    by (intro leaves_quiet session_quiet(1) [OF laws] observe_rss_quiet quiet_intros) (auto simp: leaves_def)
  then have after: "leaves unreaped (case r of Ok session \<Rightarrow> (\<lambda>(_, slot') before after. after = before \<and> sl_session slot' = Some session)
      | Err e \<Rightarrow> (\<lambda>(_, slot') before after. after = before \<and> slot' = slot))
      (case r of Err e \<Rightarrow> ret (Err e, slot) | Ok session \<Rightarrow> ?started session)" for r
    by (cases r) (auto simp: leaves_def)
  show ?thesis unfolding ensure_session_def None option.case
    by (rule leaves_bind [OF start_observed_leaves [OF laws] after])
      (auto simp: slot_moves_def None split: result.splits)
qed

definition keeps_process :: "('w \<Rightarrow> nat set) \<Rightarrow> ('w, 'a) session_call \<Rightarrow> bool" where
  "keeps_process unreaped call \<longleftrightarrow> (\<forall>session remaining.
     leaves unreaped (\<lambda>(_, later) before after. after = before \<and> handles (Some later) = handles (Some session)) (call session remaining))"

lemma time_out_moves:
  assumes laws: "process_laws (wl_ports pool) unreaped"
  shows "moves unreaped slot (time_out pool path attempts duration slot)"
  unfolding time_out_def
  by (rule moves_slot) (auto intro: leaves_weaken [OF kill_slot_moves [OF laws]] moves_ret)

lemma call_session_moves:
  assumes laws: "process_laws (wl_ports pool) unreaped" and call: "keeps_process unreaped call" and some: "sl_session slot \<noteq> None"
  shows "moves unreaped slot (call_session pool call path remaining index attempts duration slot)"
proof -
  from some obtain session where session: "sl_session slot = Some session" by auto
  let ?finish = "\<lambda>began (outcome, later). do {
     ended \<leftarrow> world (wp_now (wl_ports pool));
     let attempts = saturating_add attempts 1;
     let duration = saturating_add duration (observed_duration_ms (ended - began));
     let slot = slot\<lparr>sl_session := Some later\<rparr>;
     case outcome of
       Ok value \<Rightarrow> do {
         rss \<leftarrow> session_peak_rss (wl_ports pool) later;
         observe_rss rss;
         ret (Finished (Ok \<lparr>vo_value = value, vo_transport = TransportSession, vo_attempt_count = attempts,
                vo_duration_ms = duration\<rparr>), slot)
       }
     | Err e \<Rightarrow> do {
         slot \<leftarrow> retire_slot pool slot;
         ret (after_failure e path TransportSession index attempts duration, slot)
       }
   }"
  have "moves unreaped (slot\<lparr>sl_session := Some later\<rparr>) (?finish began (outcome, later))" for outcome later and began :: nat
    unfolding prod.case Let_def
    by (rule leaves_quiet [OF quiet_calls(1) [OF laws]])
      (auto split: result.splits intro!: leaves_quiet [OF session_quiet(1) [OF laws]] leaves_quiet [OF observe_rss_quiet]
        moves_ret moves_slot [OF retire_slot_moves [OF laws]])
  note rest = this
  have "moves unreaped slot (call session remaining \<bind> ?finish began)" for began
  proof (rule leaves_bind [OF call [unfolded keeps_process_def, rule_format],
        where S = "\<lambda>(outcome, later) (_, slot'). slot_moves (slot\<lparr>sl_session := Some later\<rparr>) slot'"])
    fix answer :: "('b, session_error) result \<times> worker_session"
    show "leaves unreaped (case answer of (outcome, later) \<Rightarrow> \<lambda>(_, slot'). slot_moves (slot\<lparr>sl_session := Some later\<rparr>) slot')
        (?finish began answer)"
      using rest [of "snd answer" began "fst answer"] by (cases answer) simp
  next
    fix answer :: "('b, session_error) result \<times> worker_session" and r :: "'b operation_pass \<times> session_slot" and A B C
    assume kept: "(case answer of (_, later) \<Rightarrow> \<lambda>before after. after = before \<and> handles (Some later) = handles (Some session)) A B"
      and moved: "(case answer of (outcome, later) \<Rightarrow> \<lambda>(_, slot'). slot_moves (slot\<lparr>sl_session := Some later\<rparr>) slot') r B C"
    obtain outcome later q slot' where a: "answer = (outcome, later)" "r = (q, slot')" by (metis surj_pair)
    have "slot_moves slot slot' B C"
      by (rule slot_moves_start [of "slot\<lparr>sl_session := Some later\<rparr>"]) (use kept moved a session in simp_all)
    then show "(case r of (_, slot') \<Rightarrow> slot_moves slot slot') A C" using kept a by simp
  qed
  then show ?thesis unfolding call_session_def session option.sel
    by (rule leaves_quiet [OF quiet_calls(1) [OF laws]])
qed

lemma ensure_session_some:
  "run_state (ensure_session pool remaining slot) s = ((Ok (), slot'), t) \<Longrightarrow> sl_session slot' \<noteq> None"
  by (auto simp: ensure_session_def split: option.splits result.splits prod.splits)

lemma operation_pass_moves:
  assumes laws: "process_laws (wl_ports pool) unreaped" and call: "keeps_process unreaped call"
  shows "moves unreaped slot (operation_pass pool call path timeout origin index attempts duration slot)"
proof -
  have time: "quiet unreaped (remaining_time (wl_ports pool) timeout origin)"
    unfolding remaining_time_def by (intro quiet_intros quiet_calls(1) [OF laws])
  let ?call = "\<lambda>slot. do {
      remaining \<leftarrow> remaining_time (wl_ports pool) timeout origin;
      if remaining = 0 then time_out pool path attempts duration slot
      else call_session pool call path remaining index attempts duration slot
    }"
  have called: "moves unreaped slot (?call slot)" if "sl_session slot \<noteq> None" for slot
    by (rule leaves_quiet [OF time]) (simp add: time_out_moves [OF laws] call_session_moves [OF laws call that])
  have started: "moves unreaped slot (do {
      (started, slot) \<leftarrow> ensure_session pool remaining slot;
      case started of
        Err e \<Rightarrow> ret (after_failure e path (transport_for_attempts attempts) index attempts duration, slot)
      | Ok _ \<Rightarrow> ?call slot })" for remaining slot
    unfolding leaves_def
  proof (intro allI)
    fix s
    obtain r slot1 s1 where e: "run_state (ensure_session pool remaining slot) s = ((r, slot1), s1)" by (metis surj_pair)
    have m1: "slot_moves slot slot1 (unreaped (hs_world s)) (unreaped (hs_world s1))"
      using leavesD [OF ensure_session_moves [OF laws] e] by simp
    show "case run_state (do {
        (started, slot) \<leftarrow> ensure_session pool remaining slot;
        case started of
          Err e \<Rightarrow> ret (after_failure e path (transport_for_attempts attempts) index attempts duration, slot)
        | Ok _ \<Rightarrow> ?call slot }) s of (a, t) \<Rightarrow> (case a of (_, slot') \<Rightarrow> slot_moves slot slot') (unreaped (hs_world s)) (unreaped (hs_world t))"
    proof (cases r)
      case (Err e)
      then show ?thesis using m1 \<open>run_state (ensure_session _ _ _) _ = _\<close> by simp
    next
      case (Ok u)
      obtain answer s2 where c: "run_state (?call slot1) s1 = (answer, s2)" by (rule prod.exhaust)
      obtain q slot2 where answer: "answer = (q, slot2)" by (rule prod.exhaust)
      have "slot_moves slot1 slot2 (unreaped (hs_world s1)) (unreaped (hs_world s2))"
        using leavesD [OF called [OF ensure_session_some] c] e Ok answer by simp
      with m1 have "slot_moves slot slot2 (unreaped (hs_world s)) (unreaped (hs_world s2))" by (rule slot_moves_trans)
      then show ?thesis using e Ok c answer by simp
    qed
  qed
  show ?thesis unfolding operation_pass_def
    by (rule leaves_quiet [OF time], split if_split, intro conjI impI, rule time_out_moves [OF laws],
        rule moves_slot [OF recycle_slot_moves [OF laws] started])
qed

lemma operation_loop_moves:
  assumes laws: "process_laws (wl_ports pool) unreaped" and call: "keeps_process unreaped call"
  shows "operation_loop pool call path timeout origin index attempts duration slot s = ((r, slot'), t) \<Longrightarrow>
     slot_moves slot slot' (unreaped (hs_world s)) (unreaped (hs_world t))"
  using assms
proof (induction pool call path timeout origin index attempts duration slot s rule: operation_loop.induct)
  case (1 pool call path timeout origin index attempts duration slot s)
  obtain pass slot1 s1 where pass: "run_state (operation_pass pool call path timeout origin index attempts duration slot) s
      = ((pass, slot1), s1)" by (metis surj_pair)
  have m: "slot_moves slot slot1 (unreaped (hs_world s)) (unreaped (hs_world s1))"
    using leavesD [OF operation_pass_moves [OF "1.prems"(2,3)] pass] by simp
  show ?case
  proof (cases pass)
    case (Finished out)
    then show ?thesis using "1.prems"(1) pass m by (subst (asm) operation_loop.simps) simp
  next
    case (Again i a d)
    have "operation_loop pool call path timeout origin i a d slot1 s1 = ((r, slot'), t)"
      using "1.prems"(1) pass Again by (subst (asm) operation_loop.simps) simp
    from slot_moves_trans [OF m "1.IH" [OF pass [symmetric] refl Again this "1.prems"(2,3)]] show ?thesis .
  qed
qed

lemma execute_operation_moves:
  assumes laws: "process_laws (wl_ports pool) unreaped" and call: "keeps_process unreaped call"
  shows "moves unreaped slot (execute_operation pool path timeout call slot)"
  unfolding execute_operation_def
  by (rule leaves_quiet [OF quiet_calls(1) [OF laws]])
    (auto simp: leaves_def split: prod.splits dest: operation_loop_moves [OF laws call])

lemma pool_operations_move:
  assumes laws: "process_laws (wl_ports pool) unreaped"
  shows "moves unreaped slot (parse_worker pool parse timeout slot)"
    and "moves unreaped slot (classify_pdf pool classify timeout slot)"
proof -
  have parse: "quiet unreaped (validate_worker_request (wl_ports pool) (wl_worker pool) parse)"
    "quiet unreaped (validate_session_worker_response (wl_ports pool) (wl_codec pool) parse r)" for r
    unfolding validate_worker_request_def validate_session_worker_response_def Let_def
    by (intro quiet_intros quiet_calls(1-10) [OF laws])+
  have classify: "quiet unreaped (validate_classifier_source_before (wl_ports pool) (wc_payload classify))"
    "quiet unreaped (validate_classifier_source_after (wl_ports pool) (wc_payload classify))"
    unfolding validate_classifier_source_before_def validate_classifier_source_after_def
    by (intro quiet_intros quiet_calls(1-10) [OF laws])+
  have keep: "keeps_process unreaped (\<lambda>session remaining. dispatch_parse (wl_ports pool) (wl_codec pool) (q remaining) session remaining)"
    "keeps_process unreaped (\<lambda>session remaining. dispatch_classify (wl_ports pool) (wl_codec pool) classify session remaining)" for q
    using dispatch_leaves [OF laws] by (auto simp: keeps_process_def)
  show "moves unreaped slot (parse_worker pool parse timeout slot)"
    unfolding parse_worker_def
    by (rule leaves_quiet [OF parse(1)], split result.split, intro conjI allI impI moves_ret moves_bind
        [OF execute_operation_moves [OF laws keep(1)]])
      (auto split: result.split intro!: moves_ret leaves_quiet [OF parse(2)])
  show "moves unreaped slot (classify_pdf pool classify timeout slot)"
    unfolding classify_pdf_def
    by (rule leaves_quiet [OF classify(1)], split result.split, intro conjI allI impI moves_ret moves_bind
        [OF execute_operation_moves [OF laws keep(2)]])
      (auto split: result.split intro!: moves_ret leaves_quiet [OF classify(2)])
qed

section \<open>The pool\<close>

text \<open>
  The pool with its stack of free slots (the head is the end of the vector that \<open>pop\<close> takes) and the slots that are
  checked out. An operation holds its slot from \<open>checkout\<close> to the drop of its permit; whole operations on
  different slots interleave in any order.
\<close>

record 'w pool_state =
  pz_slots :: "session_slot list"
  pz_available :: "nat list"
  pz_busy :: "nat list"
  pz_host :: "'w host"

definition new_pool :: "'w worker_pool \<Rightarrow> 'w host \<Rightarrow> 'w pool_state" where
  "new_pool pool host =
     (let concurrency = max (sp_concurrency (wl_params pool)) 1 in
      \<lparr>pz_slots = replicate concurrency \<lparr>sl_session = None, sl_replacement_pending = False\<rparr>,
       pz_available = [0..<concurrency], pz_busy = [], pz_host = host\<rparr>)"

text \<open>What a slot index is used for: one of the two operations on files.\<close>

definition slot_operation ::
  "'w worker_pool \<Rightarrow> parse_operation + classify_operation \<Rightarrow> nat \<Rightarrow> session_slot \<Rightarrow> ('w host, session_slot) state" where
  "slot_operation pool request timeout slot =
     (case request of
        Inl q \<Rightarrow> map_state snd (parse_worker pool q timeout slot)
      | Inr q \<Rightarrow> map_state snd (classify_pdf pool q timeout slot))"

inductive pool_step :: "'w worker_pool \<Rightarrow> 'w pool_state \<Rightarrow> 'w pool_state \<Rightarrow> bool" for pool where
  checkout: "pz_available s = i # rest \<Longrightarrow> pool_step pool s (s\<lparr>pz_available := rest, pz_busy := i # pz_busy s\<rparr>)"
| finish: "i \<in> set (pz_busy s) \<Longrightarrow> run_state (slot_operation pool request timeout (pz_slots s ! i)) (pz_host s) = (slot', host') \<Longrightarrow>
    pool_step pool s (s\<lparr>pz_slots := (pz_slots s)[i := slot'], pz_available := i # pz_available s,
      pz_busy := remove1 i (pz_busy s), pz_host := host'\<rparr>)"

inductive_cases pool_stepE: "pool_step pool s t"

definition pool_inv :: "nat \<Rightarrow> ('w \<Rightarrow> nat set) \<Rightarrow> nat set \<Rightarrow> 'w pool_state \<Rightarrow> bool" where
  "pool_inv n unreaped others s \<longleftrightarrow>
     length (pz_slots s) = n \<and> distinct (pz_available s @ pz_busy s) \<and> set (pz_available s @ pz_busy s) = {..<n}
     \<and> unreaped (hs_world (pz_host s)) = others \<union> (\<Union>slot \<in> set (pz_slots s). handles (sl_session slot))
     \<and> (\<forall>i < n. handles (sl_session (pz_slots s ! i)) \<inter> others = {})
     \<and> (\<forall>i < n. \<forall>j < n. i \<noteq> j \<longrightarrow> handles (sl_session (pz_slots s ! i)) \<inter> handles (sl_session (pz_slots s ! j)) = {})"

lemma slot_operation_moves:
  assumes "process_laws (wl_ports pool) unreaped"
    and "run_state (slot_operation pool request timeout slot) s = (slot', t)"
  shows "slot_moves slot slot' (unreaped (hs_world s)) (unreaped (hs_world t))"
proof (cases request)
  case (Inl q)
  with assms(2) obtain r where "run_state (parse_worker pool q timeout slot) s = ((r, slot'), t)"
    by (auto simp: slot_operation_def state.map_sel map_prod_def split: prod.splits)
  from leavesD [OF pool_operations_move(1) [OF assms(1)] this] show ?thesis by simp
next
  case (Inr q)
  with assms(2) obtain r where "run_state (classify_pdf pool q timeout slot) s = ((r, slot'), t)"
    by (auto simp: slot_operation_def state.map_sel map_prod_def split: prod.splits)
  from leavesD [OF pool_operations_move(2) [OF assms(1)] this] show ?thesis by simp
qed

lemma UN_set_nth: "(\<Union>x \<in> set xs. f x) = (\<Union>j < length xs. f (xs ! j))"
  by (auto simp: set_conv_nth)

lemma UN_set_update:
  assumes "i < length xs"
  shows "(\<Union>x \<in> set (xs[i := y]). f x) = (\<Union>j \<in> {..<length xs} - {i}. f (xs ! j)) \<union> f y"
proof -
  have "(\<Union>x \<in> set (xs[i := y]). f x) = (\<Union>j < length xs. f (xs[i := y] ! j))" by (simp add: UN_set_nth)
  also have "\<dots> = (\<Union>j \<in> {..<length xs} - {i}. f (xs[i := y] ! j)) \<union> f (xs[i := y] ! i)" using assms by blast
  also have "\<dots> = (\<Union>j \<in> {..<length xs} - {i}. f (xs ! j)) \<union> f y" using assms by simp
  finally show ?thesis .
qed

lemma pool_step_inv:
  assumes laws: "process_laws (wl_ports pool) unreaped" and step: "pool_step pool s t" and inv: "pool_inv n unreaped others s"
  shows "pool_inv n unreaped others t"
  using step
proof (cases rule: pool_step.cases)
  case (checkout i rest)
  then show ?thesis using inv by (auto simp: pool_inv_def)
next
  case (finish i request timeout slot' host')
  let ?H = "\<lambda>j. handles (sl_session (pz_slots s ! j))" and ?H' = "handles (sl_session slot')"
  let ?U = "unreaped (hs_world (pz_host s))" and ?V = "unreaped (hs_world host')"
  have i: "i < n" "length (pz_slots s) = n" using finish(2) inv by (auto simp: pool_inv_def)
  have U: "?U = others \<union> (\<Union>j<n. ?H j)" using inv i(2) by (simp add: pool_inv_def UN_set_nth)
  have apart: "?H j \<inter> others = {}" "j \<noteq> k \<Longrightarrow> ?H j \<inter> ?H k = {}" if "j < n" "k < n" for j k
    using inv that by (auto simp: pool_inv_def)
  have sub: "?H i \<subseteq> ?U" using U i(1) by blast
  have "?V = (?U - ?H i) \<union> ?H' \<and> ?H' \<inter> (?U - ?H i) = {}"
    using slot_operation_moves [OF laws finish(3)] sub unfolding slot_moves_def by blast
  moreover have rest: "?U - ?H i = others \<union> (\<Union>j \<in> {..<n} - {i}. ?H j)"
  proof -
    have parts: "(A \<union> (R \<union> X)) - X = A \<union> R" if "X \<inter> A = {}" "X \<inter> R = {}" for A R X :: "nat set" using that by blast
    have "(\<Union>j<n. ?H j) = (\<Union>j \<in> {..<n} - {i}. ?H j) \<union> ?H i" using i(1) by blast
    moreover have "?H i \<inter> (\<Union>j \<in> {..<n} - {i}. ?H j) = {}"
    proof -
      have "?H i \<inter> ?H j = {}" if "j \<in> {..<n} - {i}" for j using apart(2) [of i j] that i(1) by simp
      then show ?thesis by (simp add: Int_UN_distrib)
    qed
    ultimately show ?thesis unfolding U using parts [OF apart(1) [OF i(1) i(1)]] by metis
  qed
  ultimately have V: "?V = others \<union> (\<Union>j \<in> {..<n} - {i}. ?H j) \<union> ?H'" and new: "?H' \<inter> others = {}" "\<And>j. j < n \<Longrightarrow> j \<noteq> i \<Longrightarrow> ?H' \<inter> ?H j = {}"
    by auto
  have all: "(\<Union>slot \<in> set ((pz_slots s)[i := slot']). handles (sl_session slot)) = (\<Union>j \<in> {..<n} - {i}. ?H j) \<union> ?H'"
    using UN_set_update [of i "pz_slots s"] i by simp
  have idx: "distinct (i # pz_available s @ remove1 i (pz_busy s))" "set (i # pz_available s @ remove1 i (pz_busy s)) = {..<n}"
    using inv finish(2) by (auto simp: pool_inv_def)
  have new': "?H j \<inter> ?H' = {}" if "j < n" "j \<noteq> i" for j using new(2) [OF that] by (simp add: Int_commute)
  have "handles (sl_session ((pz_slots s)[i := slot'] ! j)) \<inter> others = {}" if "j < n" for j
    using new(1) apart(1) [OF that that] i by (cases "j = i") simp_all
  moreover have "handles (sl_session ((pz_slots s)[i := slot'] ! j)) \<inter> handles (sl_session ((pz_slots s)[i := slot'] ! k)) = {}"
    if "j < n" "k < n" "j \<noteq> k" for j k
    using that new(2) [of k] new' [of j] apart(2) [of j k] i by (cases "j = i"; cases "k = i") simp_all
  ultimately show ?thesis unfolding pool_inv_def finish(1) using idx V all i by (simp add: Un_assoc)
qed

lemma card_handles: "finite (handles session) \<and> card (handles session) \<le> 1"
proof -
  show ?thesis unfolding handles_def by (cases "Option.bind session wn_child") simp_all
qed

lemma new_pool_inv:
  "pool_inv (max (sp_concurrency (wl_params pool)) 1) unreaped (unreaped (hs_world host)) (new_pool pool host)"
  by (auto simp: pool_inv_def new_pool_def Let_def)

text \<open>C35. No worker process is left behind and no slot is shared. Whatever sequence of classifications and parses runs on
  the pool, with whatever failures, time-outs and crashes: each slot is free or held by one operation, the
  processes that run are those that ran before and the ones of the sessions in the slots, and the pool never has more of them
  than slots.\<close>

theorem no_worker_process_is_left:
  assumes "process_laws (wl_ports pool) unreaped" and "(pool_step pool)\<^sup>*\<^sup>* (new_pool pool host) s"
  shows "distinct (pz_available s @ pz_busy s)
     \<and> set (pz_available s @ pz_busy s) = {..<max (sp_concurrency (wl_params pool)) 1}
     \<and> unreaped (hs_world (pz_host s)) = unreaped (hs_world host) \<union> (\<Union>slot \<in> set (pz_slots s). handles (sl_session slot))
     \<and> card (unreaped (hs_world (pz_host s)) - unreaped (hs_world host)) \<le> max (sp_concurrency (wl_params pool)) 1"
proof -
  let ?n = "max (sp_concurrency (wl_params pool)) 1" and ?others = "unreaped (hs_world host)"
  let ?all = "\<Union>slot \<in> set (pz_slots s). handles (sl_session slot)"
  have inv: "pool_inv ?n unreaped ?others s"
    using assms(2)
  proof (induction rule: rtranclp_induct)
    case base
    show ?case by (rule new_pool_inv)
  next
    case (step s t)
    show ?case by (rule pool_step_inv [OF assms(1) step.hyps(2) step.IH])
  qed
  have "card ?all \<le> (\<Sum>slot \<in> set (pz_slots s). card (handles (sl_session slot)))" by (rule card_UN_le) simp
  also have "\<dots> \<le> (\<Sum>slot \<in> set (pz_slots s). 1)" by (rule sum_mono) (use card_handles in blast)
  also have "\<dots> \<le> ?n" using inv card_length [of "pz_slots s"] by (simp add: pool_inv_def)
  finally have "card ?all \<le> ?n" .
  moreover have "unreaped (hs_world (pz_host s)) - ?others \<subseteq> ?all" "finite ?all" using inv card_handles by (auto simp: pool_inv_def)
  ultimately have "card (unreaped (hs_world (pz_host s)) - ?others) \<le> ?n" by (meson card_mono order_trans)
  with inv show ?thesis by (simp add: pool_inv_def)
qed

section \<open>Memory statistics\<close>

lemma observe_keeps_failed:
  "run_state (observe_rss peak) s = (u, t) \<Longrightarrow> pn_rss_observation_failed (hs_counters s) \<or> peak = None
   \<Longrightarrow> pn_rss_observation_failed (hs_counters t)"
  by (auto simp: observe_rss_def observe_started_child_def State_Monad.update_def counters_observe_rss_def Let_def
      split: option.splits)

lemma session_peak_keeps_counters:
  "run_state (session_peak_rss p session) s = (rss, t) \<Longrightarrow> hs_counters t = hs_counters s \<and> (wn_child session = None \<longrightarrow> rss = None)"
  by (auto simp: session_peak_rss_def split: option.splits prod.splits)

lemma observe_slots_failed:
  assumes "pn_rss_observation_failed (hs_counters s) \<or> (\<exists>slot \<in> set slots. \<exists>session. sl_session slot = Some session \<and> wn_child session = None)"
  shows "pn_rss_observation_failed (hs_counters (snd (run_state (observe_slots p slots) s)))"
  using assms
proof (induction slots arbitrary: s)
  case (Cons slot slots)
  show ?case
  proof (cases "sl_session slot")
    case None
    then show ?thesis using Cons by auto
  next
    case (Some session)
    obtain rss s1 where peak: "run_state (session_peak_rss p session) s = (rss, s1)" by fastforce
    obtain u s2 where obs: "run_state (observe_rss rss) s1 = (u, s2)" by (cases "run_state (observe_rss rss) s1")
    have "pn_rss_observation_failed (hs_counters s2) \<or> (\<exists>slot \<in> set slots. \<exists>session. sl_session slot = Some session \<and> wn_child session = None)"
      using Cons.prems Some session_peak_keeps_counters [OF peak] observe_keeps_failed [OF obs] by auto
    from Cons.IH [OF this] show ?thesis using Some peak obs by simp
  qed
qed simp

lemma kill_session_dead: "run_state (kill_session p session) s = (killed, t) \<Longrightarrow> wn_child killed = None"
  by (auto simp: kill_session_def split: option.splits prod.splits)

text \<open>C39. A time-out hides the memory peak of the pool. The session that a time-out kills stays in its slot without a process;
  from then on the statistics report the peak as unknown, although the memory of every process may have been
  observed: what the ports reported does not matter.\<close>

theorem time_out_hides_memory_peak:
  assumes "sl_session slot = Some session" and "run_state (time_out pool path attempts duration slot) s = ((r, slot'), t)"
  shows "pt_peak_worker_rss_bytes (fst (run_state (pool_stats pool (before @ slot' # others)) t)) = None"
proof -
  obtain killed where "sl_session slot' = Some killed" "wn_child killed = None"
    using assms by (auto simp: time_out_def kill_slot_def split: prod.splits dest: kill_session_dead)
  then have "pn_rss_observation_failed (hs_counters (snd (run_state (observe_slots (wl_ports pool) (before @ slot' # others)) t)))"
    by (intro observe_slots_failed) auto
  then show ?thesis by (auto simp: pool_stats_def counters_snapshot_def split: prod.splits)
qed

section \<open>A pool to evaluate\<close>

text \<open>The world is the list of unreaped handles; every receive gives the same line, which the codec reads as the frame
  that is due.\<close>

definition fixture_worker_ports :: "nat list worker_ports" where
  "fixture_worker_ports =
     \<lparr>wp_now = Pair 0, wp_spawn = (\<lambda>command w. (Some (sum_list w + 1), (sum_list w + 1) # w)),
      wp_contain = (\<lambda>h. Pair True), wp_receive = (\<lambda>h timeout. Pair (Received (Line [1]))),
      wp_overflowed = (\<lambda>h. Pair False), wp_reset_stderr = (\<lambda>h. Pair ()), wp_write_all = (\<lambda>h frame. Pair True),
      wp_flush = (\<lambda>h. Pair True), wp_peak_memory = (\<lambda>h. Pair (Some 7)), wp_terminate = (\<lambda>h. Pair ()),
      wp_kill_wait = (\<lambda>h w. ((), removeAll h w)),
      wp_current_source = (\<lambda>path. Pair (Some (lit ''mtime_ns=7:size=5'', 5)))\<rparr>"

definition fixture_hello :: worker_hello where
  "fixture_hello =
     \<lparr>hl_contract = WORKER_CONTRACT, hl_protocol_version = PROTOCOL_VERSION, hl_frame = lit ''hello'',
      hl_worker_contract_version = WORKER_CONTRACT_VERSION, hl_worker_kind = OfficeWorker,
      hl_worker_version = [49], hl_worker_build = [49], hl_supported_operations = [OfficeParse]\<rparr>"

definition fixture_request_id :: rstring where
  "fixture_request_id = next_request_id 0 0 0"

definition fixture_worker_request :: worker_parse_request where
  "fixture_worker_request =
     \<lparr>oq_file_path = [67, 58, 92, 97], oq_file_type = lit ''.xlsx'', oq_backend = RustXlsxBoundedV2,
      oq_remaining_timeout_ms = 1000, oq_max_file_size_bytes = 100,
      oq_parser_limits = OfficeLimits
        \<lparr>ol_legacy_office_enabled = False, ol_excel_max_sheets = 1, ol_excel_max_rows = 1, ol_excel_max_columns = 1,
         ol_docx_max_paragraphs = 1, ol_docx_max_tables = 1, ol_docx_table_max_rows = 1, ol_docx_table_max_cols = 1,
         ol_pptx_max_slides = 1, ol_pptx_include_notes = False, ol_document_excerpt_max_chars = 10\<rparr>,
      oq_expected_source_version = lit ''mtime_ns=7:size=5''\<rparr>"

definition fixture_worker_result :: worker_parse_result where
  "fixture_worker_result =
     \<lparr>pw_file_path = [67, 58, 92, 97], pw_file_type = lit ''.xlsx'', pw_content = [97, 98], pw_evidence_audit = None,
      pw_parser_backend = RustXlsxBoundedV2, pw_worker_lane = RustOfficeProcessV3, pw_truncated = False,
      pw_duration_ms = 3, pw_observed_source_version = lit ''mtime_ns=7:size=5''\<rparr>"

definition fixture_session_codec :: session_codec where
  "fixture_session_codec =
     \<lparr>jc_encode_request = (\<lambda>_. [1]), jc_hello = (\<lambda>_. Some fixture_hello),
      jc_response = (\<lambda>_. Some \<lparr>wr_contract = WORKER_CONTRACT, wr_protocol_version = PROTOCOL_VERSION,
        wr_request_id = fixture_request_id, wr_operation = OfficeParse, wr_status = ResponseOk,
        wr_result = Some JNull, wr_error = None\<rparr>),
      jc_classify_payload = (\<lambda>_. JNull), jc_parse_payload = (\<lambda>_. JNull), jc_classify_result = (\<lambda>_. None),
      jc_parse_result = (\<lambda>_. Some fixture_worker_result), jc_audit_bytes = (\<lambda>_. 0)\<rparr>"

definition fixture_pool :: "nat list worker_pool" where
  "fixture_pool =
     \<lparr>wl_ports = fixture_worker_ports, wl_codec = fixture_session_codec, wl_command = office_worker_command [111],
      wl_expected = fixture_hello, wl_worker = \<lparr>gw_command = office_worker_command [111], gw_identity = fixture_hello\<rparr>,
      wl_params = session_params_default\<rparr>"

definition fixture_host :: "nat list host" where
  "fixture_host =
     \<lparr>hs_counters = \<lparr>pn_session_restart_count = 0, pn_peak_worker_rss_bytes = 0, pn_rss_observation_attempted = False,
        pn_rss_observation_failed = False\<rparr>,
      hs_tracker = \<lparr>tr_peak_bytes = 0, tr_observation_failed = False\<rparr>, hs_world = []\<rparr>"

definition fixture_operation :: parse_operation where
  "fixture_operation = \<lparr>wo_request_id = fixture_request_id, wo_payload = fixture_worker_request\<rparr>"

abbreviation empty_slot :: session_slot where
  "empty_slot \<equiv> \<lparr>sl_session = None, sl_replacement_pending = False\<rparr>"

lemma fixture_laws: "process_laws fixture_worker_ports set"
proof -
  have "sum_list w + 1 \<notin> set w" for w :: "nat list"
    using member_le_sum_list [of "sum_list w + 1" w] by auto
  then show ?thesis by (auto simp: process_laws_def fixture_worker_ports_def)
qed

lemma fixture_hello_valid: "validate_hello fixture_hello = Ok ()"
  by (simp add: validate_hello_def fixture_hello_def validate_common_def utf8_len_def utf8_width_def)

lemma fixture_request_valid:
  "1 \<le> ms \<Longrightarrow> ms \<le> 3600000 \<Longrightarrow> validate_parse_request (fixture_worker_request\<lparr>oq_remaining_timeout_ms := ms\<rparr>) = Ok ()"
  by (simp add: validate_parse_request_def fixture_worker_request_def validate_absolute_path_def utf8_len_def utf8_width_def
      validate_extension_def validate_source_version_def lit_def ascii_to_lower_def is_ascii_upper_def is_ascii_alphabetic_def
      is_ascii_digit_def is_ascii_lower_def strip_prefix_opt_def validate_range_def validate_limits_def limit_kind_def limits_kind_def)

lemma fixture_result_valid: "validate_parse_result enc fixture_worker_result = Ok ()"
  by (simp add: validate_parse_result_def fixture_worker_result_def validate_absolute_path_def utf8_len_def utf8_width_def
      validate_extension_def validate_source_version_def lit_def ascii_to_lower_def is_ascii_upper_def is_ascii_alphabetic_def
      is_ascii_digit_def is_ascii_lower_def strip_prefix_opt_def detected_format_def backend_lane_def)

lemma fixture_ports_simps [simp]:
  "wp_now fixture_worker_ports = Pair 0" "wp_peak_memory fixture_worker_ports h = Pair (Some 7)"
  "wp_spawn fixture_worker_ports command w = (Some (sum_list w + 1), (sum_list w + 1) # w)"
  "wp_contain fixture_worker_ports h = Pair True" "wp_receive fixture_worker_ports h timeout = Pair (Received (Line [1]))"
  "wp_overflowed fixture_worker_ports h = Pair False" "wp_reset_stderr fixture_worker_ports h = Pair ()"
  "wp_write_all fixture_worker_ports h frame = Pair True" "wp_flush fixture_worker_ports h = Pair True"
  "wp_terminate fixture_worker_ports h = Pair ()" "wp_kill_wait fixture_worker_ports h = (\<lambda>w. ((), removeAll h w))"
  "wp_current_source fixture_worker_ports path = Pair (Some (lit ''mtime_ns=7:size=5'', 5))"
  by (simp_all add: fixture_worker_ports_def)

lemma fixture_pool_simps [simp]:
  "wl_ports fixture_pool = fixture_worker_ports" "wl_codec fixture_pool = fixture_session_codec"
  "wl_command fixture_pool = office_worker_command [111]" "wl_expected fixture_pool = fixture_hello"
  "wl_params fixture_pool = session_params_default"
  "wl_worker fixture_pool = \<lparr>gw_command = office_worker_command [111], gw_identity = fixture_hello\<rparr>"
  "jc_hello fixture_session_codec line = Some fixture_hello"
  by (simp_all add: fixture_pool_def fixture_session_codec_def)

abbreviation fixture_session :: worker_session where
  "fixture_session \<equiv> \<lparr>wn_child = Some \<lparr>sx_handle = Suc 0, sx_last_activity = 0\<rparr>, wn_params = session_params_default,
     wn_identity = fixture_hello, wn_requests_served = 0\<rparr>"

lemma fixture_started:
  assumes "hs_world s = []"
  shows "run_state (start_observed fixture_worker_ports fixture_session_codec (office_worker_command [111]) fixture_hello
      session_params_default timeout) s = (Ok fixture_session, s\<lparr>hs_world := [Suc 0]\<rparr>)"
  using assms fixture_hello_valid
  by (simp add: start_observed_def try_bind_def spawn_child_def read_hello_def read_line_def touch_activity_def
      SESSION_HELLO_FRAME_LIMIT_def ok_or_def Let_def)

lemma fixture_parse:
  "\<exists>out slot' t. run_state (parse_worker fixture_pool fixture_operation 1000000000 empty_slot) fixture_host = ((Ok out, slot'), t)
     \<and> sl_session slot' \<noteq> None"
proof -
  have ms: "timeout_ms_of 1000000000 = 1000" by (simp add: timeout_ms_of_def u64_max_def)
  have same: "fixture_worker_request\<lparr>oq_remaining_timeout_ms := 1000\<rparr> = fixture_worker_request"
    by (simp add: fixture_worker_request_def)
  have valid: "validate_parse_request fixture_worker_request = Ok ()"
    using fixture_request_valid [of 1000] unfolding same by simp
  have response: "validate_response \<lparr>wr_contract = WORKER_CONTRACT, wr_protocol_version = PROTOCOL_VERSION,
        wr_request_id = fixture_request_id, wr_operation = OfficeParse, wr_status = ResponseOk,
        wr_result = Some JNull, wr_error = None\<rparr> = Ok ()"
    by (simp add: validate_response_def validate_common_def fixture_request_id_def next_request_id_valid)
  have limit: "\<exists>n. worker_response_capture_limit fixture_worker_request = Some n \<and> 1 \<le> n"
    by (simp add: worker_response_capture_limit_def fixture_worker_request_def character_budget_def saturating_mul_def u64_max_def
        checked_add_def checked_mul_def)
  have again: "with_remaining_time fixture_operation 1000000000 = fixture_operation"
    by (simp add: with_remaining_time_def fixture_operation_def ms same)
  let ?session = fixture_session
  have dispatched: "run_state (dispatch_parse fixture_worker_ports fixture_session_codec fixture_operation ?session timeout) s
      = ((Ok fixture_worker_result, ?session\<lparr>wn_requests_served := 1\<rparr>), s)" for timeout s
    using limit valid response fixture_result_valid
    by (auto simp: dispatch_parse_def exchange_def try_bind_def write_request_def write_line_def read_line_def parse_response_def
        mark_request_complete_def touch_activity_def response_result_def parse_value_def
        fixture_session_codec_def fixture_operation_def SESSION_REQUEST_FRAME_LIMIT_def ok_or_def operation_of_backend_def
        fixture_worker_request_def)
  have before: "run_state (validate_worker_request fixture_worker_ports
      \<lparr>gw_command = office_worker_command [111], gw_identity = fixture_hello\<rparr> fixture_operation) s = (Ok (), s)" for s
    using valid
    by (simp add: validate_worker_request_def Let_def fixture_operation_def check_source_before_def)
      (simp add: fixture_worker_request_def office_worker_command_def)
  have after: "run_state (validate_session_worker_response fixture_worker_ports fixture_session_codec fixture_operation
      fixture_worker_result) s = (Ok fixture_worker_result, s)" for s
    using fixture_result_valid
    by (simp add: validate_session_worker_response_def Let_def fixture_operation_def check_source_after_def)
      (simp add: fixture_worker_request_def fixture_worker_result_def answers_request_def backend_lane_def character_budget_def)
  have executed: "\<exists>out slot' t. run_state (execute_operation fixture_pool path 1000000000
      (\<lambda>session remaining. dispatch_parse fixture_worker_ports fixture_session_codec (with_remaining_time fixture_operation remaining)
         session remaining) empty_slot) fixture_host = ((Ok out, slot'), t) \<and> vo_value out = fixture_worker_result \<and> sl_session slot' \<noteq> None" for path
    by (simp add: execute_operation_def operation_loop.simps operation_pass_def remaining_time_def recycle_slot_def
        ensure_session_def call_session_def Let_def fixture_started dispatched again session_peak_rss_def
        observe_rss_def observe_started_child_def State_Monad.update_def fixture_host_def)
  show ?thesis
    using executed [of "oq_file_path (wo_payload fixture_operation)"]
    by (auto simp: parse_worker_def before after)
qed

text \<open>A call that fails in the first session and succeeds in the one that replaces it.\<close>

definition fixture_call :: "(nat list, nat) session_call" where
  "fixture_call session remaining = State (\<lambda>s.
     ((if pn_session_restart_count (hs_counters s) = 0 then Err Crashed else Ok 5, session), s))"

lemma fixture_retried:
  "\<exists>out slot' t. run_state (execute_operation fixture_pool [] 1000000000 fixture_call empty_slot) fixture_host = ((Ok out, slot'), t)
     \<and> vo_value out = 5 \<and> vo_attempt_count out = 2"
  by (simp add: execute_operation_def operation_loop.simps operation_pass_def remaining_time_def recycle_slot_def
      ensure_session_def call_session_def Let_def fixture_started session_peak_rss_def fixture_call_def
      retire_slot_def kill_slot_def kill_session_def reap_child_def drop_child_def after_failure_def retry_action_def
      observe_rss_def observe_started_child_def State_Monad.update_def fixture_host_def count_restart_def
      counters_observe_rss_def saturating_add_def u64_max_def)

theorem operations_end_within_two_attempts_witness:
  "map (is_ok \<circ> fst) (calls_made fixture_pool [] 1000000000 fixture_call empty_slot fixture_host) = [False, True]"
proof -
  let ?calls = "calls_made fixture_pool [] 1000000000 fixture_call empty_slot fixture_host"
  from operations_end_within_two_attempts [of fixture_pool "[]" 1000000000 fixture_call empty_slot fixture_host] fixture_retried
  have calls: "length ?calls = 2" "is_ok (fst (last ?calls))" "\<forall>c\<in>set (butlast ?calls). \<not> is_ok (fst c)" by fastforce+
  then obtain c d where "?calls = [c, d]" by (auto simp: numeral_2_eq_2 length_Suc_conv)
  with calls show ?thesis by simp
qed

theorem accepted_answer_is_for_request_witness:
  "\<exists>out slot' t. run_state (parse_worker fixture_pool fixture_operation 1000000000 empty_slot) fixture_host = ((Ok out, slot'), t)
     \<and> answers_request fixture_worker_request (vo_value out)"
proof -
  obtain out slot' t where run: "run_state (parse_worker fixture_pool fixture_operation 1000000000 empty_slot) fixture_host
      = ((Ok out, slot'), t)" using fixture_parse by blast
  from accepted_answer_is_for_request [OF run] run show ?thesis by (auto simp: fixture_operation_def)
qed

theorem no_worker_process_is_left_witness:
  "\<exists>s. (pool_step fixture_pool)\<^sup>*\<^sup>* (new_pool fixture_pool fixture_host) s \<and> pz_available s = [0, 1, 2, 3]
     \<and> pz_slots s ! 0 \<noteq> empty_slot \<and> card (set (hs_world (pz_host s))) \<le> 4"
proof -
  let ?s0 = "new_pool fixture_pool fixture_host"
  have conc: "max (sp_concurrency (wl_params fixture_pool)) 1 = 4" by (simp add: fixture_pool_def session_params_default_def)
  have s0: "pz_available ?s0 = [0, 1, 2, 3]" "pz_busy ?s0 = []" "pz_slots ?s0 = replicate 4 empty_slot" "pz_host ?s0 = fixture_host"
    unfolding new_pool_def conc Let_def by (simp_all add: upt_rec)
  let ?s1 = "?s0\<lparr>pz_available := [1, 2, 3], pz_busy := 0 # pz_busy ?s0\<rparr>"
  have one: "pool_step fixture_pool ?s0 ?s1" by (rule pool_step.checkout) (rule s0(1))
  obtain out slot' t where run: "run_state (parse_worker fixture_pool fixture_operation 1000000000 empty_slot) fixture_host
      = ((Ok out, slot'), t)" and some: "sl_session slot' \<noteq> None" using fixture_parse by blast
  have "run_state (slot_operation fixture_pool (Inl fixture_operation) 1000000000 (pz_slots ?s1 ! 0)) (pz_host ?s1) = (slot', t)"
    using run by (simp add: slot_operation_def s0 state.map_sel)
  from pool_step.finish [OF _ this]
  have two: "pool_step fixture_pool ?s1 (?s1\<lparr>pz_slots := (pz_slots ?s1)[0 := slot'], pz_available := 0 # pz_available ?s1,
      pz_busy := remove1 0 (pz_busy ?s1), pz_host := t\<rparr>)" (is "pool_step _ _ ?s2") by simp
  have reach: "(pool_step fixture_pool)\<^sup>*\<^sup>* ?s0 ?s2" using one two by (meson rtranclp.rtrancl_into_rtrancl rtranclp.rtrancl_refl)
  have empty: "hs_world fixture_host = []" by (simp add: fixture_host_def)
  have "process_laws (wl_ports fixture_pool) set" using fixture_laws by simp
  from no_worker_process_is_left [OF this reach]
  have "card (set (hs_world (pz_host ?s2)) - set (hs_world fixture_host)) \<le> 4" unfolding conc by (elim conjE)
  moreover have "slot' \<noteq> empty_slot" using some by auto
  ultimately show ?thesis using reach by (intro exI [of _ ?s2]) (simp add: s0 empty)
qed

theorem time_out_hides_memory_peak_witness:
  "\<exists>(r :: nat operation_pass) slot' t. run_state (time_out fixture_pool [] 0 0 \<lparr>sl_session = Some \<lparr>wn_child = Some \<lparr>sx_handle = 1, sx_last_activity = 0\<rparr>,
        wn_params = session_params_default, wn_identity = fixture_hello, wn_requests_served = 0\<rparr>, sl_replacement_pending = False\<rparr>)
      fixture_host = ((r, slot'), t)
    \<and> pt_peak_worker_rss_bytes (fst (run_state (pool_stats fixture_pool [slot']) t)) = None"
proof -
  let ?slot = "\<lparr>sl_session = Some \<lparr>wn_child = Some \<lparr>sx_handle = 1, sx_last_activity = 0\<rparr>,
        wn_params = session_params_default, wn_identity = fixture_hello, wn_requests_served = 0\<rparr>, sl_replacement_pending = False\<rparr>"
  obtain a :: "nat operation_pass \<times> session_slot" and t where a: "run_state (time_out fixture_pool [] 0 0 ?slot) fixture_host = (a, t)" by (rule prod.exhaust)
  obtain r :: "nat operation_pass" and slot' where b: "a = (r, slot')" by (rule prod.exhaust)
  have "sl_session ?slot = Some (the (sl_session ?slot))" by simp
  from time_out_hides_memory_peak [OF this a [unfolded b], of "[]" "[]"] a b show ?thesis by auto
qed

end
