(* ===== verification/Text_Decoding.thy ===== *)
theory Text_Decoding
  imports Scanner_Settings Content_Audit
begin

text \<open>
  The decoding half of \<open>src/rust/text_parser/src/lib.rs\<close>: the head and the tail of a file are read as bytes that may
  begin or end inside a character, and become text. \<open>utf8_read\<close> is \<open>std::str::from_utf8\<close> with the
  position and the kind of its error; bytes are numbers below 256. The decoder for GB18030 (\<open>encoding_rs\<close>) is a
  parameter.
\<close>

type_synonym byte = nat

section \<open>UTF-8\<close>

datatype utf8_end = Utf8Complete | Utf8Incomplete | Utf8Invalid

definition is_utf8_continuation :: "byte \<Rightarrow> bool" where
  "is_utf8_continuation b \<longleftrightarrow> 0x80 \<le> b \<and> b \<le> 0xbf"

definition utf8_sequence_length :: "byte \<Rightarrow> nat" where
  "utf8_sequence_length b =
     (if 0xc2 \<le> b \<and> b \<le> 0xdf then 2 else if 0xe0 \<le> b \<and> b \<le> 0xef then 3 else if 0xf0 \<le> b \<and> b \<le> 0xf4 then 4 else 0)"

text \<open>The second byte of a sequence of three or four.\<close>

definition second_ok :: "byte \<Rightarrow> byte \<Rightarrow> bool" where
  "second_ok first b \<longleftrightarrow>
     (if first = 0xe0 then 0xa0 \<le> b \<and> b \<le> 0xbf
      else if first = 0xed then 0x80 \<le> b \<and> b \<le> 0x9f
      else if first = 0xf0 then 0x90 \<le> b \<and> b \<le> 0xbf
      else if first = 0xf4 then 0x80 \<le> b \<and> b \<le> 0x8f
      else is_utf8_continuation b)"

text \<open>
  The characters up to the first error and the kind of end: at the end of the input, in a sequence that is
  a correct beginning (\<open>error_len\<close> is \<open>None\<close>), or at a byte that is wrong.
\<close>

abbreviation read_char :: "rchar \<Rightarrow> rstring \<times> utf8_end \<Rightarrow> rstring \<times> utf8_end" where
  "read_char c r \<equiv> (c # fst r, snd r)"

fun utf8_read :: "byte list \<Rightarrow> rstring \<times> utf8_end" where
  "utf8_read [] = ([], Utf8Complete)"
| "utf8_read (a # rest) =
     (if a < 0x80 then read_char a (utf8_read rest)
      else if utf8_sequence_length a = 0 then ([], Utf8Invalid)
      else case rest of
        [] \<Rightarrow> ([], Utf8Incomplete)
      | b # rest \<Rightarrow>
          if \<not> second_ok a b then ([], Utf8Invalid)
          else if utf8_sequence_length a = 2 then read_char ((a - 0xc0) * 64 + (b - 0x80)) (utf8_read rest)
          else case rest of
            [] \<Rightarrow> ([], Utf8Incomplete)
          | c # rest \<Rightarrow>
              if \<not> is_utf8_continuation c then ([], Utf8Invalid)
              else if utf8_sequence_length a = 3
              then read_char ((a - 0xe0) * 4096 + (b - 0x80) * 64 + (c - 0x80)) (utf8_read rest)
              else case rest of
                [] \<Rightarrow> ([], Utf8Incomplete)
              | d # rest \<Rightarrow>
                  if \<not> is_utf8_continuation d then ([], Utf8Invalid)
                  else read_char ((a - 0xf0) * 262144 + (b - 0x80) * 4096 + (c - 0x80) * 64 + (d - 0x80)) (utf8_read rest))"

datatype light_text_error =
    InvalidProfile | UnsupportedExtension | LightFileTooLarge | MetadataFailed | ReadFailed | DecodeFailed

definition decode_head :: "byte list \<Rightarrow> bool \<Rightarrow> (rstring, light_text_error) result" where
  "decode_head raw trim_trailing_fragment =
     (case utf8_read raw of
        (text', Utf8Complete) \<Rightarrow> Ok text'
      | (text', Utf8Incomplete) \<Rightarrow> if trim_trailing_fragment then Ok text' else Err DecodeFailed
      | (text', Utf8Invalid) \<Rightarrow> Err DecodeFailed)"

text \<open>The loop over the three bytes before the boundary, in ascending order.\<close>

fun fragment_end :: "byte list \<Rightarrow> nat \<Rightarrow> nat list \<Rightarrow> nat option" where
  "fragment_end combined boundary [] = None"
| "fragment_end combined boundary (lead_index # indices) =
     (let sequence_length = utf8_sequence_length (combined ! lead_index); sequence_end = lead_index + sequence_length in
      if sequence_length = 0 \<or> \<not> (lead_index < boundary \<and> boundary < sequence_end) \<or> length combined < sequence_end
         \<or> snd (utf8_read (take sequence_length (drop lead_index combined))) \<noteq> Utf8Complete
      then fragment_end combined boundary indices
      else Some sequence_end)"

definition trim_leading_utf8_fragment :: "byte list \<Rightarrow> byte list \<Rightarrow> byte list" where
  "trim_leading_utf8_fragment raw leading_context =
     (if raw = [] \<or> \<not> is_utf8_continuation (hd raw) then raw
      else let boundary = length leading_context; combined = leading_context @ take 3 raw in
        case fragment_end combined boundary [boundary - 3..<boundary] of
          None \<Rightarrow> raw
        | Some sequence_end \<Rightarrow> drop (sequence_end - boundary) raw)"

definition decode_tail :: "byte list \<Rightarrow> byte list \<Rightarrow> bool \<Rightarrow> (rstring, light_text_error) result" where
  "decode_tail raw leading_context trim_leading_fragment =
     (let trimmed = if trim_leading_fragment then trim_leading_utf8_fragment raw leading_context else raw in
      case utf8_read trimmed of (text', Utf8Complete) \<Rightarrow> Ok text' | _ \<Rightarrow> Err DecodeFailed)"

text \<open>\<open>gb18030 bytes last\<close> is the result of the GB18030 decoder, \<open>None\<close> when it stopped at a malformed sequence.\<close>

definition decode_csv ::
  "(byte list \<Rightarrow> bool \<Rightarrow> rstring option) \<Rightarrow> byte list \<Rightarrow> bool \<Rightarrow> rstring list \<Rightarrow> (rstring \<times> rstring, light_text_error) result" where
  "decode_csv gb18030 raw truncated allowed =
     (let has_bom = prefix [0xef, 0xbb, 0xbf] raw;
          utf_encoding = (if has_bom then lit ''utf-8-sig'' else lit ''utf-8'');
          alternate = (if has_bom \<or> lit ''gb18030'' \<notin> set allowed then Err DecodeFailed
            else map_err (\<lambda>_. DecodeFailed)
              (and_then (ok_or DecodeFailed (gb18030 raw (\<not> truncated))) (\<lambda>text'. Ok (text', lit ''gb18030''))))
      in if utf_encoding \<in> set allowed
         then (case decode_head raw truncated of Ok text' \<Rightarrow> Ok (text', utf_encoding) | Err _ \<Rightarrow> alternate)
         else alternate)"

section \<open>Encoding, the reference\<close>

definition is_scalar :: "rchar \<Rightarrow> bool" where
  "is_scalar c \<longleftrightarrow> c < 0x110000 \<and> \<not> (0xd800 \<le> c \<and> c < 0xe000)"

definition utf8_encode :: "rchar \<Rightarrow> byte list" where
  "utf8_encode c =
     (if c < 0x80 then [c]
      else if c < 0x800 then [0xc0 + c div 64, 0x80 + c mod 64]
      else if c < 0x10000 then [0xe0 + c div 4096, 0x80 + c div 64 mod 64, 0x80 + c mod 64]
      else [0xf0 + c div 262144, 0x80 + c div 4096 mod 64, 0x80 + c div 64 mod 64, 0x80 + c mod 64])"

definition utf8_bytes :: "rstring \<Rightarrow> byte list" where
  "utf8_bytes s = concat (map utf8_encode s)"

text \<open>The characters that end within the first \<open>k\<close> bytes, and those that begin at byte \<open>k\<close> or later.\<close>

fun chars_within :: "nat \<Rightarrow> rstring \<Rightarrow> rstring" where
  "chars_within k [] = []"
| "chars_within k (c # s) =
     (if length (utf8_encode c) \<le> k then c # chars_within (k - length (utf8_encode c)) s else [])"

fun chars_from :: "nat \<Rightarrow> rstring \<Rightarrow> rstring" where
  "chars_from k [] = []"
| "chars_from k (c # s) = (if k = 0 then c # s else chars_from (k - length (utf8_encode c)) s)"

lemma div_mod_64: "c div 4096 * 64 + c div 64 mod 64 = c div 64" for c :: nat
proof -
  have "c div 4096 = c div 64 div 64" by (simp add: div_mult2_eq [symmetric])
  then show ?thesis by simp
qed

lemma decode_two: "c < 0x800 \<Longrightarrow> c div 64 * 64 + c mod 64 = c" for c :: nat
  by simp

lemma decode_three: "c div 4096 * 4096 + c div 64 mod 64 * 64 + c mod 64 = c" for c :: nat
  using div_mod_64 [of c] div_mult_mod_eq [of c 64] by linarith

lemma decode_four: "c div 262144 * 262144 + c div 4096 mod 64 * 4096 + c div 64 mod 64 * 64 + c mod 64 = c" for c :: nat
proof -
  have "c div 262144 = c div 4096 div 64" by (simp add: div_mult2_eq [symmetric])
  then have "c div 262144 * 64 + c div 4096 mod 64 = c div 4096" by simp
  then show ?thesis using decode_three [of c] by linarith
qed

lemma encode_not_empty [simp]: "utf8_encode c \<noteq> []"
  by (simp add: utf8_encode_def)

lemma utf8_read_encode:
  assumes "is_scalar c"
  shows "utf8_read (utf8_encode c @ rest) = read_char c (utf8_read rest)"
proof -
  have mod: "c div n mod 64 < 64" "c mod 64 < 64" for n by simp_all
  consider "c < 0x80" | "0x80 \<le> c" "c < 0x800" | "0x800 \<le> c" "c < 0x10000" | "0x10000 \<le> c" by linarith
  then show ?thesis
  proof cases
    case 1
    then show ?thesis by (simp add: utf8_encode_def)
  next
    case 2
    then have "2 \<le> c div 64" "c div 64 < 32" by (auto simp: div_less_iff_less_mult less_eq_div_iff_mult_less_eq)
    then show ?thesis using 2 mod
      by (simp add: utf8_encode_def utf8_sequence_length_def second_ok_def is_utf8_continuation_def)
  next
    case 3
    have hi: "c div 4096 < 16" using 3 by (simp add: div_less_iff_less_mult)
    have low: "c div 4096 = 0 \<Longrightarrow> 32 \<le> c div 64 mod 64" using div_mod_64 [of c] 3 by linarith
    have surrogate: "c div 4096 = 13 \<Longrightarrow> c div 64 mod 64 < 32"
      using assms div_mod_64 [of c] 3 by (auto simp: is_scalar_def)
    show ?thesis using 3 hi low surrogate mod decode_three [of c]
      by (auto simp: utf8_encode_def utf8_sequence_length_def second_ok_def is_utf8_continuation_def)
  next
    case 4
    have c: "c < 0x110000" using assms by (simp add: is_scalar_def)
    have hi: "c div 262144 < 5" using c by (simp add: div_less_iff_less_mult)
    have "c div 262144 = c div 4096 div 64" by (simp add: div_mult2_eq [symmetric])
    then have "c div 262144 * 64 + c div 4096 mod 64 = c div 4096" by simp
    then have low: "c div 262144 = 0 \<Longrightarrow> 16 \<le> c div 4096 mod 64" and high: "c div 262144 = 4 \<Longrightarrow> c div 4096 mod 64 < 16"
      using 4 c by linarith+
    define w x y z where parts: "w = c div 262144" "x = c div 4096 mod 64" "y = c div 64 mod 64" "z = c mod 64"
    have small: "x < 64" "y < 64" "z < 64" by (simp_all add: parts)
    have encoded: "utf8_encode c = [0xf0 + w, 0x80 + x, 0x80 + y, 0x80 + z]" using 4 by (simp add: utf8_encode_def parts)
    have "w < 5" "w = 0 \<Longrightarrow> 16 \<le> x" "w = 4 \<Longrightarrow> x < 16" "w * 262144 + x * 4096 + y * 64 + z = c"
      using hi low high decode_four [of c] by (simp_all only: parts)
    then show ?thesis using small unfolding encoded
      by (auto simp: utf8_sequence_length_def second_ok_def is_utf8_continuation_def)
  qed
qed

lemma utf8_read_bytes: "list_all is_scalar s \<Longrightarrow> utf8_read (utf8_bytes s) = (s, Utf8Complete)"
  by (induction s) (simp_all add: utf8_bytes_def utf8_read_encode)

text \<open>The bytes of one character: a lead byte that knows their number, and continuation bytes.\<close>

lemma encode_lead:
  assumes "is_scalar c"
  shows "utf8_sequence_length (hd (utf8_encode c)) = (if c < 0x80 then 0 else length (utf8_encode c))"
    and "\<not> is_utf8_continuation (hd (utf8_encode c))"
    and "list_all is_utf8_continuation (tl (utf8_encode c))"
    and "length (utf8_encode c) \<le> 4"
proof -
  have a: "c div 64 < 32" if "c < 0x800" using that by (simp add: div_less_iff_less_mult)
  have b: "c div 4096 < 16" if "c < 0x10000" using that by (simp add: div_less_iff_less_mult)
  have c: "c div 262144 < 5" using assms by (simp add: is_scalar_def div_less_iff_less_mult)
  have d: "2 \<le> c div 64" if "0x80 \<le> c" using that by (simp add: less_eq_div_iff_mult_less_eq)
  have m: "c div n mod 64 < 64" for n by simp
  have m': "c mod 64 < 64" by simp
  show "utf8_sequence_length (hd (utf8_encode c)) = (if c < 0x80 then 0 else length (utf8_encode c))"
    and "\<not> is_utf8_continuation (hd (utf8_encode c))"
    using a b c d by (auto simp: utf8_encode_def utf8_sequence_length_def is_utf8_continuation_def)
  show "list_all is_utf8_continuation (tl (utf8_encode c))"
    using m [of 64] m [of 4096] m' by (auto simp: utf8_encode_def is_utf8_continuation_def)
  show "length (utf8_encode c) \<le> 4" by (simp add: utf8_encode_def)
qed

lemma continuation_no_lead: "is_utf8_continuation b \<Longrightarrow> utf8_sequence_length b = 0"
  by (simp add: is_utf8_continuation_def utf8_sequence_length_def)

text \<open>A part of a character that is cut off is incomplete, not invalid.\<close>

lemma utf8_read_part:
  assumes "is_scalar c" and "0 < j" and "j < length (utf8_encode c)"
  shows "utf8_read (take j (utf8_encode c)) = ([], Utf8Incomplete)"
proof -
  let ?r = "utf8_read (utf8_encode c @ [])"
  have whole: "?r = ([c], Utf8Complete)" using utf8_read_encode [OF assms(1), of "[]"] by simp
  consider "c < 0x80" | "0x80 \<le> c" "c < 0x800" | "0x800 \<le> c" "c < 0x10000" | "0x10000 \<le> c" by linarith
  then show ?thesis
  proof cases
    case 1
    then show ?thesis using assms(2,3) by (simp add: utf8_encode_def)
  next
    case 2
    then have "j = 1" using assms(2,3) by (simp add: utf8_encode_def)
    then show ?thesis using 2 whole by (auto simp: utf8_encode_def split: if_splits)
  next
    case 3
    then have "j = 1 \<or> j = 2" using assms(2,3) by (auto simp: utf8_encode_def)
    then show ?thesis using 3 whole by (auto simp: utf8_encode_def numeral_2_eq_2 split: if_splits)
  next
    case 4
    then have "j = 1 \<or> j = 2 \<or> j = 3" using assms(2,3) by (auto simp: utf8_encode_def)
    then show ?thesis using 4 whole by (auto simp: utf8_encode_def numeral_2_eq_2 numeral_3_eq_3 split: if_splits)
  qed
qed

lemma decode_head_cut:
  assumes "list_all is_scalar s"
  shows "fst (utf8_read (take k (utf8_bytes s))) = chars_within k s \<and> snd (utf8_read (take k (utf8_bytes s))) \<noteq> Utf8Invalid"
  using assms
proof (induction s arbitrary: k)
  case (Cons c s)
  let ?n = "length (utf8_encode c)"
  have c: "is_scalar c" using Cons.prems by simp
  show ?case
  proof (cases "?n \<le> k")
    case True
    then have "take k (utf8_bytes (c # s)) = utf8_encode c @ take (k - ?n) (utf8_bytes s)" by (simp add: utf8_bytes_def)
    then show ?thesis using True Cons.IH [of "k - ?n"] Cons.prems utf8_read_encode [OF c] by simp
  next
    case False
    then have "take k (utf8_bytes (c # s)) = take k (utf8_encode c)" by (simp add: utf8_bytes_def)
    then show ?thesis using False utf8_read_part [OF c, of k] by (cases "k = 0") simp_all
  qed
qed (simp add: utf8_bytes_def)

text \<open>In whole characters, no sequence that begins before their end reaches past it.\<close>

lemma sequence_inside:
  assumes "list_all is_scalar s" and "q < length (utf8_bytes s)" and "utf8_sequence_length (utf8_bytes s ! q) \<noteq> 0"
  shows "q + utf8_sequence_length (utf8_bytes s ! q) \<le> length (utf8_bytes s)"
  using assms
proof (induction s arbitrary: q)
  case (Cons c s)
  let ?n = "length (utf8_encode c)"
  have c: "is_scalar c" using Cons.prems by simp
  have bytes: "utf8_bytes (c # s) = utf8_encode c @ utf8_bytes s" by (simp add: utf8_bytes_def)
  show ?case
  proof (cases "?n \<le> q")
    case True
    then have "utf8_bytes (c # s) ! q = utf8_bytes s ! (q - ?n)" by (simp add: bytes nth_append)
    then have "q - ?n + utf8_sequence_length (utf8_bytes (c # s) ! q) \<le> length (utf8_bytes s)"
      using Cons.IH [of "q - ?n"] Cons.prems True by (simp add: bytes)
    then show ?thesis using True by (simp add: bytes)
  next
    case False
    show ?thesis
    proof (cases q)
      case 0
      then have "utf8_bytes (c # s) ! q = hd (utf8_encode c)" by (simp add: bytes nth_append hd_conv_nth)
      then show ?thesis using encode_lead(1) [OF c] 0 by (simp add: bytes)
    next
      case (Suc r)
      then have "utf8_bytes (c # s) ! q = tl (utf8_encode c) ! r" "r < length (tl (utf8_encode c))"
        using False by (simp_all add: bytes nth_append nth_tl)
      then have "is_utf8_continuation (utf8_bytes (c # s) ! q)"
        using encode_lead(3) [OF c] by (simp add: list_all_length)
      then show ?thesis using Cons.prems(3) continuation_no_lead by simp
    qed
  qed
qed (simp add: utf8_bytes_def)

lemma fragment_end_skip:
  assumes "\<And>i. i \<in> set is' \<Longrightarrow> utf8_sequence_length (combined ! i) = 0 \<or> i + utf8_sequence_length (combined ! i) \<le> boundary"
  shows "fragment_end combined boundary (is' @ rest) = fragment_end combined boundary rest"
  using assms
proof (induction is')
  case (Cons a is')
  have "utf8_sequence_length (combined ! a) = 0 \<or> a + utf8_sequence_length (combined ! a) \<le> boundary"
    by (rule Cons.prems) simp
  moreover have "fragment_end combined boundary (is' @ rest) = fragment_end combined boundary rest"
    by (rule Cons.IH) (rule Cons.prems, simp)
  ultimately show ?case by (auto simp: Let_def)
qed simp

text \<open>Every place in the bytes of a text is inside one character or at the end.\<close>

lemma cut_position:
  assumes "k < length (utf8_bytes s)"
  obtains before c after j where "s = before @ c # after" "k = length (utf8_bytes before) + j" "j < length (utf8_encode c)"
  using assms
proof (induction s arbitrary: k thesis)
  case (Cons c s)
  let ?n = "length (utf8_encode c)"
  show ?case
  proof (cases "?n \<le> k")
    case True
    then have "k - ?n < length (utf8_bytes s)" using Cons.prems(2) by (simp add: utf8_bytes_def)
    with Cons.IH obtain before d after j where
      "s = before @ d # after" "k - ?n = length (utf8_bytes before) + j" "j < length (utf8_encode d)" by blast
    then show ?thesis using True by (intro Cons.prems(1) [of "c # before" d after j]) (simp_all add: utf8_bytes_def)
  next
    case False
    then show ?thesis by (intro Cons.prems(1) [of "[]" c s k]) (simp_all add: utf8_bytes_def)
  qed
qed (simp add: utf8_bytes_def)

lemma chars_from_append:
  "length (utf8_bytes before) \<le> k \<Longrightarrow> chars_from k (before @ s) = chars_from (k - length (utf8_bytes before)) s"
proof (induction before arbitrary: k)
  case (Cons c before)
  have "0 < length (utf8_encode c)" by simp
  moreover have "length (utf8_encode c) \<le> k" using Cons.prems by (simp add: utf8_bytes_def)
  ultimately have "k \<noteq> 0" by linarith
  then show ?case using Cons.IH [of "k - length (utf8_encode c)"] Cons.prems by (simp add: utf8_bytes_def)
qed (simp add: utf8_bytes_def)

lemma trim_fragment_cut:
  assumes scalars: "list_all is_scalar (before @ c # after)" and k: "k = length (utf8_bytes before) + j"
    and j: "0 < j" "j < length (utf8_encode c)"
  shows "trim_leading_utf8_fragment (drop k (utf8_bytes (before @ c # after))) (drop (k - 3) (take k (utf8_bytes (before @ c # after))))
     = utf8_bytes after"
proof -
  let ?e = "utf8_encode c" and ?pre = "utf8_bytes before" and ?all = "utf8_bytes (before @ c # after)"
  have all: "?all = ?pre @ ?e @ utf8_bytes after" by (simp add: utf8_bytes_def)
  have c: "is_scalar c" using scalars by simp
  have n: "length ?e \<le> 4" by (rule encode_lead(4) [OF c])
  define raw where "raw = drop j ?e @ utf8_bytes after"
  define leading where "leading = drop (k - 3) (?pre @ take j ?e)"
  have raw: "drop k ?all = raw" using k j by (simp add: all raw_def)
  have ctx: "drop (k - 3) (take k ?all) = leading" using k j by (simp add: all leading_def)
  define b where "b = length leading"
  have b: "b = min 3 k" using k j by (simp add: b_def leading_def)
  define combined where "combined = leading @ take 3 raw"
  have jb: "j \<le> b" "b \<le> k" using j n k b by auto
  define lead where "lead = b - j"
  have whole: "drop lead combined = ?e @ take (3 - (length ?e - j)) (utf8_bytes after)"
  proof -
    have "drop lead leading = take j ?e"
      using k j jb b by (simp add: leading_def lead_def)
    moreover have "take 3 raw = drop j ?e @ take (3 - (length ?e - j)) (utf8_bytes after)" using n j by (simp add: raw_def)
    moreover have "lead \<le> length leading" by (simp add: lead_def b_def)
    ultimately show ?thesis by (simp add: combined_def)
  qed
  have nth: "combined ! i = ?pre ! (k - b + i)" if "i < lead" for i
  proof -
    have "i < length leading" using that by (simp add: lead_def b_def)
    then have "combined ! i = leading ! i" by (simp add: combined_def nth_append)
    also have "\<dots> = (?pre @ take j ?e) ! (k - 3 + i)" unfolding leading_def using k j by (intro nth_drop) simp
    finally have "combined ! i = (?pre @ take j ?e) ! (k - 3 + i)" .
    moreover have "k - 3 = k - b" using b by auto
    moreover have "k - b + i < length ?pre" using that k jb unfolding lead_def by linarith
    ultimately show ?thesis by (simp add: nth_append)
  qed
  have skip: "utf8_sequence_length (combined ! i) = 0 \<or> i + utf8_sequence_length (combined ! i) \<le> b" if "i \<in> set [b - 3..<lead]" for i
  proof -
    have i: "i < lead" using that by simp
    then have q: "k - b + i < length ?pre" using k jb by (simp add: lead_def)
    have "list_all is_scalar before" using scalars by simp
    from sequence_inside [OF this q] have
      "utf8_sequence_length (combined ! i) \<noteq> 0 \<Longrightarrow> k - b + i + utf8_sequence_length (combined ! i) \<le> length ?pre"
      by (simp only: nth [OF i] not_False_eq_True)
    then show ?thesis using k jb by linarith
  qed
  have lead_byte: "combined ! lead = hd ?e" using whole
    by (metis drop_eq_Nil encode_not_empty append_is_Nil_conv hd_append2 hd_drop_conv_nth linorder_not_le)
  have long: "\<not> c < 0x80" using j by (auto simp: utf8_encode_def)
  have seq: "utf8_sequence_length (combined ! lead) = length ?e" using encode_lead(1) [OF c] long lead_byte by simp
  have "length ?e \<le> length combined - lead" using arg_cong [OF whole, of length] by simp
  then have fits: "lead + length ?e \<le> length combined" using j by linarith
  have take_e: "take (length ?e) (drop lead combined) = ?e" by (simp add: whole)
  have read_e: "snd (utf8_read ?e) = Utf8Complete" using utf8_read_encode [OF c, of "[]"] by simp
  have place: "b = lead + j" "b - 3 \<le> lead" "lead < b" using j n jb by (auto simp: lead_def)
  have "[b - 3..<b] = [b - 3..<lead] @ lead # [Suc lead..<b]"
    using upt_add_eq_append [of "b - 3" lead j] place by (simp add: upt_conv_Cons)
  then have "fragment_end combined b [b - 3..<b] = Some (lead + length ?e)"
    using fragment_end_skip [of "[b - 3..<lead]" combined b] skip seq fits take_e read_e j jb
    by (simp add: Let_def lead_def)
  moreover have "lead + length ?e - b = length ?e - j" using jb j by (simp add: lead_def)
  moreover have "raw \<noteq> []" "is_utf8_continuation (hd raw)"
  proof -
    have "raw = (drop (j - 1) (tl ?e)) @ utf8_bytes after" using j by (simp add: raw_def drop_Suc [symmetric])
    moreover have "drop (j - 1) (tl ?e) \<noteq> []" using j by simp
    ultimately show "raw \<noteq> []" "is_utf8_continuation (hd raw)"
      using encode_lead(3) [OF c] by (auto simp: hd_drop_conv_nth list_all_length)
  qed
  ultimately show ?thesis
    unfolding raw ctx trim_leading_utf8_fragment_def Let_def
    by (simp add: b_def [symmetric] combined_def [symmetric]) (simp add: raw_def)
qed

text \<open>C40. A file cut anywhere loses at most the character that is cut. Of the bytes of any text, the first ones decode to
  the characters that end within them, and the rest, given the three bytes before it, to the characters that begin in
  it; neither is ever refused, and together they miss at most one character.\<close>

theorem cuts_lose_one_character:
  assumes "list_all is_scalar s"
  shows "decode_head (take k (utf8_bytes s)) True = Ok (chars_within k s)
     \<and> decode_tail (drop k (utf8_bytes s)) (drop (k - 3) (take k (utf8_bytes s))) True = Ok (chars_from k s)
     \<and> (\<exists>lost. s = chars_within k s @ lost @ chars_from k s \<and> length lost \<le> 1)"
proof (intro conjI)
  show "decode_head (take k (utf8_bytes s)) True = Ok (chars_within k s)"
    using decode_head_cut [OF assms, of k] by (auto simp: decode_head_def split: prod.splits utf8_end.splits)
  show "decode_tail (drop k (utf8_bytes s)) (drop (k - 3) (take k (utf8_bytes s))) True = Ok (chars_from k s)"
  proof (cases "k < length (utf8_bytes s)")
    case False
    then have "chars_from k s = []" using chars_from_append [of s k "[]"] by simp
    then show ?thesis using False by (simp add: decode_tail_def trim_leading_utf8_fragment_def)
  next
    case True
    then obtain before c after j where s: "s = before @ c # after" and k: "k = length (utf8_bytes before) + j"
      and j: "j < length (utf8_encode c)" by (rule cut_position)
    have bytes: "utf8_bytes s = utf8_bytes before @ utf8_encode c @ utf8_bytes after" by (simp add: s utf8_bytes_def)
    have c: "is_scalar c" and after: "list_all is_scalar after" using assms s by simp_all
    show ?thesis
    proof (cases "j = 0")
      case True
      have "drop k (utf8_bytes s) = utf8_bytes (c # after)" using k True by (simp add: bytes) (simp add: utf8_bytes_def)
      moreover have "\<not> is_utf8_continuation (hd (utf8_bytes (c # after)))"
        using encode_lead(2) [OF c] by (simp add: utf8_bytes_def)
      moreover have "chars_from k s = c # after" using k True by (simp add: s chars_from_append)
      ultimately show ?thesis using utf8_read_bytes [of "c # after"] c after
        by (simp add: decode_tail_def trim_leading_utf8_fragment_def)
    next
      case False
      then have "trim_leading_utf8_fragment (drop k (utf8_bytes s)) (drop (k - 3) (take k (utf8_bytes s))) = utf8_bytes after"
        using trim_fragment_cut [of before c after k j] assms k j unfolding s by simp
      moreover have "chars_from k s = after"
      proof -
        have "chars_from k s = chars_from j (c # after)" using k by (simp add: s chars_from_append)
        also have "\<dots> = after" using False j by (cases after) simp_all
        finally show ?thesis .
      qed
      ultimately show ?thesis using utf8_read_bytes [OF after] by (simp add: decode_tail_def Let_def)
    qed
  qed
  show "\<exists>lost. s = chars_within k s @ lost @ chars_from k s \<and> length lost \<le> 1"
  proof (induction s arbitrary: k)
    case (Cons c s)
    let ?n = "length (utf8_encode c)"
    show ?case
    proof (cases "?n \<le> k")
      case True
      have "0 < ?n" by simp
      with True have "k \<noteq> 0" by linarith
      then show ?thesis using True Cons.IH [of "k - ?n"] by simp
    next
      case False
      have "chars_from k (c # s) = (if k = 0 then c # s else s)" using False by (cases s) auto
      then show ?thesis using False by simp
    qed
  qed simp
qed

theorem cuts_lose_one_character_witness:
  "decode_head (take 2 (utf8_bytes [97, 0x4e2d, 98])) True = Ok [97]
     \<and> decode_tail (drop 2 (utf8_bytes [97, 0x4e2d, 98])) [97, 0xe4] True = Ok [98]"
proof -
  have "list_all is_scalar [97, 0x4e2d, 98]" by (simp add: is_scalar_def)
  from cuts_lose_one_character [OF this, of 2] show ?thesis by (simp add: utf8_bytes_def utf8_encode_def)
qed

end
