(* ===== verification/Spec2Isabelle.thy ===== *)
theory Spec2Isabelle
  imports Scheduler_Run Store_Promises Cache_Store Scanner_Config Worker_Promises Text_Decoding
begin

text \<open>
  A model of the scanner of the daily report generator, the Rust crates under \<open>src/rust\<close>. Paths below are relative
  to that directory; \<open>core\<close> is \<open>scanner_core/src\<close>.

  \<^bold>\<open>What the program does.\<close> A scan discovers the files of a work directory, decides within fixed budgets which
  of them are looked at, has them classified and parsed by worker processes or taken from caches, and renders one
  text, the context, for the report. \<open>core/scheduler.rs\<close> runs the phases: it plans the classification of PDFs
  (stage A), runs the classifications, plans the extraction of text (stage B), runs the parses, gives unused quota
  back in at most two refill rounds, decides what happens to each file, and builds the context and its summary.
  \<open>core/store\<close> keeps the runs, their results and the two caches in one SQLite database that several processes
  share, under a lease. \<open>core/session.rs\<close> keeps the worker processes and talks to them in lines of JSON. The
  validators of \<open>scanner_contract\<close> and \<open>worker_contract\<close> stand between the parts.

  \<^bold>\<open>Vocabulary.\<close> \<open>Prelude\<close>: strings as lists of Unicode scalar values, 64-bit numbers as naturals with the
  saturating and checked operations written out, results as \<open>Ok\<close> and \<open>Err\<close>. Its locales are \<open>ranked\<close> (sorting
  by a key that separates), \<open>ledger_pass\<close> (a fold that spends a budget) and \<open>outcome_ledger\<close> (such a pass whose
  outcomes tell what was spent).

  \<^bold>\<open>Planning.\<close>
  \<^item> \<open>Scanner_Contract\<close>, \<open>Scanner_Settings\<close>, \<open>Scanner_Config\<close>: \<open>scanner_contract/src/lib.rs\<close> and
    \<open>core/config.rs\<close>. The field checks, the enumerations with their wire texts, the profiles, and the normalisation
    of raw settings, with the exact set of accepted ones.
  \<^item> \<open>Nominal\<close>, \<open>Budget_Model\<close>, \<open>Routing\<close>, \<open>Admission\<close>: \<open>core/nominal.rs\<close>, \<open>budget_model.rs\<close>, \<open>planner.rs\<close>,
    \<open>classifier.rs\<close>, \<open>admission.rs\<close>. The order of files (an instance of \<open>linorder\<close> and of \<open>ranked\<close>), worst-case
    reservations (\<open>char_budget\<close>), both stages of admission as passes over ledgers of slots, pages, characters and
    extractions. Shown: totality, order, quotas, greedy exactness.
  \<^item> \<open>Content_Audit\<close>, \<open>Pdf_Audit\<close>: \<open>worker_contract/src/content_audit.rs\<close>, \<open>scanner_contract/src/pdf_audit.rs\<close>.
    Source ranges, content units and the builder of audited text; sampled pages and the provenance matrix.
  \<^item> \<open>Text_Decoding\<close>: the decoding in \<open>text_parser/src/lib.rs\<close>, against an encoder as reference.

  \<^bold>\<open>Rendering.\<close> \<open>Excerpt\<close>, \<open>Decision\<close>, \<open>Compressor\<close>, \<open>Context_Budget\<close>: \<open>core/decision.rs\<close> and
  \<open>core/compressor.rs\<close>. The state matrix, excerpts, sections and summaries. Shown: each section is within what was
  reserved for it before parsing, the document is within the global budget and accounts for every file, and an
  admitted run always gets a document unless the mandatory row of the omitted summary overflows.
  \<open>catch_all_row_can_overflow\<close> in \<open>Context_Budget\<close> is an input on which it does.

  \<^bold>\<open>Running.\<close> \<open>Deadline\<close>, \<open>Inventory\<close>, \<open>Scheduler_Files\<close>, \<open>Scheduler_Ports\<close>, \<open>Scheduler_Parses\<close>,
  \<open>Scheduler_Classify\<close>, \<open>Scheduler_Outcome\<close>, \<open>Scheduler_Refill\<close>, \<open>Scheduler_Run\<close>: \<open>core/deadline.rs\<close>,
  \<open>source_guard.rs\<close>, \<open>scheduler.rs\<close>, \<open>scheduler/refill.rs\<close>, \<open>parsers/classifier.rs\<close>. Workers, caches, clock, guards
  and progress are a record of ports over an arbitrary world; a port is a function of the world and of its
  arguments, so everything is shown for all behaviours of these parts. A wave of tasks goes through \<open>par\<close>, the
  thread pool; \<open>ordered_executor\<close> is its contract (one result for each task, in order) and the sequential executor
  its instance. Waves follow one another until the work is done or the deadline has passed: \<open>wave_loop\<close> is a
  \<open>partial_function\<close>, and \<open>settling_waves\<close> shows once that it returns and settles every task; \<open>settling_fold\<close> does the
  same for the pass before the waves and \<open>settling_merge\<close> for the merging of results. \<open>parse_run\<close> and \<open>class_run\<close>
  instantiate them for parses and for classifications. Refilling ends because the code counts two rounds.
  \<open>execute\<close> composes all phases, and \<open>execute_returns\<close> and \<open>execute_contract\<close> speak of the whole.

  \<^bold>\<open>The database.\<close> Tables are lists of records in the order of insertion, a transaction is a function to a new
  store or an error, and constraints of the schema are checks with the message of SQLite.
  \<^item> \<open>Store_Types\<close>: errors, diagnostics, and the conversions between unsigned numbers and signed columns.
  \<^item> \<open>Store_Artifacts\<close>: \<open>core/artifact.rs\<close> and \<open>core/store/artifacts.rs\<close>. The rows of an artifact are kept as
    their SQL columns, with enumerations as text, numbers as signed integers and the summary as JSON; \<open>row_codec\<close>
    is the contract of a row and its columns, with the instances \<open>file_rows\<close> and \<open>decision_rows\<close>.
  \<^item> \<open>Store_Rows\<close>, \<open>Store_Lease\<close>, \<open>Store_Runs\<close>, \<open>Store_Validation\<close>, \<open>Store_Finalize\<close>, \<open>Store_Inventory\<close>:
    \<open>core/store/schema.rs\<close>, \<open>lease.rs\<close>, \<open>runs.rs\<close>, \<open>types.rs\<close>, \<open>inventory.rs\<close>, \<open>core/metrics.rs\<close>. The rows of a
    run, the lease and its owner, beginning, heartbeat, abandoning, finalising and replaying a run.
  \<^item> \<open>Store_Retention\<close>, \<open>Store_Retention_Plan\<close>: \<open>core/store/retention.rs\<close>, and that a plan made on a dry run is
    carried out as planned.
  \<^item> \<open>Store_Invariant\<close>, \<open>Store_Transactions\<close>, \<open>Store_Commit\<close>, \<open>Store_Steps\<close>, \<open>Store_Replay\<close>, \<open>Store_Example\<close>,
    \<open>Store_Promises\<close>: the invariant, that every transaction keeps it, the step relation \<open>store_step\<close> of all calls of
    all processes, and its promises. \<open>kept_record\<close> is the contract of a history that every step keeps.

  \<^bold>\<open>The caches.\<close> \<open>Cache_Bucket\<close>, \<open>Cache_Table\<close>, \<open>Parse_Cache\<close>, \<open>Classification_Cache\<close>, \<open>Cache_Profile\<close>,
  \<open>Cache_Store\<close>: \<open>core/store/cache.rs\<close>, the cache part of \<open>store/mod.rs\<close>, \<open>scheduler_adapter.rs\<close>. \<open>evicting_table\<close> and
  \<open>cache_contract\<close> hold what both tables share, writing in chunks within a deadline and eviction; \<open>parse_table\<close> and
  \<open>classification_table\<close> are the instances. Shown: caps, atomic writes, the order of eviction of the code (which is
  not the one its comments promise), round trips, consistent hits, and that the batched lookup is the single one.

  \<^bold>\<open>The workers.\<close> \<open>Worker_Contract\<close>, \<open>Worker_Lines\<close>, \<open>Worker_Session\<close>, \<open>Worker_Requests\<close>, \<open>Worker_Pool\<close>,
  \<open>Worker_Promises\<close>: \<open>worker_contract/src/lib.rs\<close>, \<open>core/session.rs\<close>, \<open>core/parsers/*.rs\<close>, \<open>fallback.rs\<close>, and what they use
  of \<open>process.rs\<close>. The system is a record of calls over an arbitrary world, threaded by the state monad. The loop of an
  operation is a recursive function that ends because only the first failure is retried. \<open>calls_made\<close> lists what an
  operation did, apart from its own counters. Operations on a pool interleave as whole operations, which is what the
  slot lock allows.

  \<^bold>\<open>Parameters.\<close> Code that is not in the repository is an argument: \<open>uni\<close> (the lower-casing of Unicode), \<open>enc\<close> (the
  length of an encoded audit), \<open>sha\<close> and \<open>hash_of\<close> (hashes), \<open>store_codec\<close>, \<open>cache_codec\<close>, \<open>session_codec\<close> and
  \<open>profile_hashes\<close> (JSON and hash libraries), \<open>tie\<close> (which of several rows of one rank SQLite gives), the GB18030
  decoder, and the calls of the operating system with \<open>process_laws\<close> (a killed and reaped process is gone, reading
  starts none). Hypotheses about them are stated in the theorems, and each theorem that has one has a witness in which
  concrete functions meet it. The looks of a cache write at its deadline are a function from the place of the look to
  its answer, so every moment at which the time may run out is covered.

  \<^bold>\<open>Not modelled.\<close> The inside of the thread pool, the SQL engine and its connection, reading and writing of files
  and pipes (a port returns: that a write into a full pipe returns is not shown), job objects, the one-shot runner and
  the archive requests of \<open>process.rs\<close>, the archive writer of \<open>worker_contract\<close>, the walk of \<open>discovery\<close>, the previews
  of the text parser and the parsers of office documents and PDFs, which rest on libraries, the shell of a run
  (\<open>run.rs\<close>, \<open>scanner.rs\<close>), the source records (\<open>sources.rs\<close>, \<open>evidence.rs\<close>), \<open>report_app\<close>, the build crates, and the
  parts of the repository in other languages.
\<close>

end
